(* ===== verification/Prelude.thy ===== *)
theory Prelude
  imports Main "HOL-Library.Word" "HOL-Library.List_Lexorder" "HOL-Library.Char_ord"
    "HOL-Library.Product_Lexorder"
begin

section \<open>Shared vocabulary\<close>

text \<open>
  The types and generic lemmas the component theories share.  A Go string and a Go byte slice
  are both sequences of bytes, so both are \<^typ>\<open>string\<close> (conversions between them are the
  identity).  A Go result pair ending in an error is a sum, with \<open>Inl\<close> for the error; a lookup
  returning a value, a found flag and an error is a sum over an option.  A signed 64 bit integer
  is an \<^typ>\<open>int\<close> whose additions are wrapped explicitly; unsigned ones are words.
  A context is the error it already carries, if any.
\<close>

type_synonym bytes = string
type_synonym u64 = "64 word"
type_synonym u32 = "32 word"

datatype ctx_error = Canceled | DeadlineExceeded

type_synonym ctx = "ctx_error option"

datatype code =
    CodeCanceled | CodeUnknown | CodeInvalidArgument | CodeDeadlineExceeded | CodeNotFound
  | CodeAlreadyExists | CodePermissionDenied | CodeFailedPrecondition | CodeAborted
  | CodeUnimplemented | CodeInternal | CodeUnavailable | CodeDataLoss | CodeUnauthenticated

text \<open>Collections of facts: definitions to unfold per component and table laws.\<close>

named_theorems store_defs
named_theorems ledger_defs
named_theorems auth_defs
named_theorems server_defs
named_theorems idem_defs
named_theorems exec_defs
named_theorems policy_defs

subsection \<open>Results\<close>

definition rbind :: "'e + 'a \<Rightarrow> ('a \<Rightarrow> 'e + 'b) \<Rightarrow> 'e + 'b" where
  "rbind r f = (case r of Inl e \<Rightarrow> Inl e | Inr x \<Rightarrow> f x)"

lemma rbind_simps [simp]:
  "rbind (Inl e) f = Inl e"
  "rbind (Inr x) f = f x"
  by (simp_all add: rbind_def)

lemma rbind_Inr_iff: "rbind r f = Inr y \<longleftrightarrow> (\<exists>x. r = Inr x \<and> f x = Inr y)"
  by (cases r) simp_all

lemma rbind_Inl_iff: "rbind r f = Inl e \<longleftrightarrow> r = Inl e \<or> (\<exists>x. r = Inr x \<and> f x = Inl e)"
  by (cases r) simp_all

text \<open>The failing branch of a check and the error it reports.\<close>

definition guard :: "bool \<Rightarrow> 'e \<Rightarrow> 'e + unit" where
  "guard ok e = (if ok then Inr () else Inl e)"

lemma guard_iff [simp]:
  "guard ok e = Inr u \<longleftrightarrow> ok"
  "guard ok e = Inl e' \<longleftrightarrow> \<not> ok \<and> e' = e"
  by (auto simp: guard_def)

text \<open>A missing value reported as an error.\<close>

definition require :: "'e \<Rightarrow> 'a option \<Rightarrow> 'e + 'a" where
  "require e x = (case x of None \<Rightarrow> Inl e | Some y \<Rightarrow> Inr y)"

lemma require_simps [simp]:
  "require e None = Inl e"
  "require e (Some y) = Inr y"
  by (simp_all add: require_def)

lemma require_iff [simp]:
  "require e x = Inr y \<longleftrightarrow> x = Some y"
  "require e x = Inl e' \<longleftrightarrow> x = None \<and> e' = e"
  by (auto simp: require_def split: option.splits)

definition map_error :: "('e \<Rightarrow> 'f) \<Rightarrow> 'e + 'a \<Rightarrow> 'f + 'a" where
  "map_error f r = (case r of Inl e \<Rightarrow> Inl (f e) | Inr x \<Rightarrow> Inr x)"

lemma map_error_simps [simp]:
  "map_error f (Inl e) = Inl (f e)"
  "map_error f (Inr x) = Inr x"
  by (simp_all add: map_error_def)

lemma map_error_iff [simp]:
  "map_error f r = Inr x \<longleftrightarrow> r = Inr x"
  "map_error f r = Inl e' \<longleftrightarrow> (\<exists>e. r = Inl e \<and> e' = f e)"
  by (cases r; auto)+

definition is_ok :: "'e + 'a \<Rightarrow> bool" where
  "is_ok r = (case r of Inl _ \<Rightarrow> False | Inr _ \<Rightarrow> True)"

lemma is_ok_simps [simp]: "\<not> is_ok (Inl e)" "is_ok (Inr x)"
  by (simp_all add: is_ok_def)

lemma is_ok_iff: "is_ok r \<longleftrightarrow> (\<exists>x. r = Inr x)"
  by (cases r) simp_all

lemma find_Some_mem: "find P xs = Some x \<Longrightarrow> x \<in> set xs \<and> P x"
  by (induction xs) (auto split: if_splits)

subsection \<open>Signed 64 bit integers\<close>

definition max_i64 :: int where "max_i64 = 2 ^ 63 - 1"
definition min_i64 :: int where "min_i64 = - (2 ^ 63)"

definition is_i64 :: "int \<Rightarrow> bool" where
  "is_i64 x \<longleftrightarrow> min_i64 \<le> x \<and> x \<le> max_i64"

definition i64_wrap :: "int \<Rightarrow> int" where
  "i64_wrap x = (x + 2 ^ 63) mod 2 ^ 64 - 2 ^ 63"

lemma i64_wrap_range: "is_i64 (i64_wrap x)"
proof -
  have "0 \<le> (x + 2 ^ 63) mod 2 ^ 64" and "(x + 2 ^ 63) mod 2 ^ 64 < (2 ^ 64 :: int)"
    by simp_all
  then show ?thesis by (simp add: is_i64_def i64_wrap_def max_i64_def min_i64_def)
qed

lemma i64_wrap_id: "is_i64 x \<Longrightarrow> i64_wrap x = x"
  by (simp add: is_i64_def i64_wrap_def max_i64_def min_i64_def)

lemma i64_wrap_max: "i64_wrap (max_i64 + 1) = min_i64"
  by (simp add: i64_wrap_def max_i64_def min_i64_def)

subsection \<open>Tables with a primary key\<close>

text \<open>
  An SQL table is the list of its rows.  \<open>tbl_upsert\<close> is an \<open>INSERT ... ON CONFLICT(key) DO
  UPDATE SET ... WHERE ...\<close>: \<open>upd\<close> gives the updated row, or \<open>None\<close> where the \<open>WHERE\<close> clause
  of the conflict branch is false and the stored row stays.
\<close>

definition tbl_get :: "('r \<Rightarrow> 'k) \<Rightarrow> 'k \<Rightarrow> 'r list \<Rightarrow> 'r option" where
  "tbl_get key k t = find (\<lambda>r. key r = k) t"

fun tbl_upsert :: "('r \<Rightarrow> 'k) \<Rightarrow> ('r \<Rightarrow> 'r \<Rightarrow> 'r option) \<Rightarrow> 'r \<Rightarrow> 'r list \<Rightarrow> 'r list" where
  "tbl_upsert key upd r [] = [r]"
| "tbl_upsert key upd r (x # xs) =
     (if key x = key r then (case upd x r of None \<Rightarrow> x | Some y \<Rightarrow> y) # xs
      else x # tbl_upsert key upd r xs)"

lemma tbl_get_simps [simp]:
  "tbl_get key k [] = None"
  "tbl_get key k (x # xs) = (if key x = k then Some x else tbl_get key k xs)"
  by (simp_all add: tbl_get_def)

lemma tbl_get_Some: "tbl_get key k t = Some r \<Longrightarrow> r \<in> set t \<and> key r = k"
  by (induction t) (auto split: if_splits)

lemma tbl_get_None: "tbl_get key k t = None \<longleftrightarrow> k \<notin> key ` set t"
  by (induction t) auto

lemma tbl_get_mem:
  "distinct (map key t) \<Longrightarrow> r \<in> set t \<Longrightarrow> tbl_get key (key r) t = Some r"
  by (induction t) (auto simp: image_iff)

lemma tbl_get_filter:
  "tbl_get key k (filter (\<lambda>r. key r \<noteq> k') t) = (if k = k' then None else tbl_get key k t)"
  by (induction t) auto

text \<open>What the four tables of the store promise: the conflict clause never rewrites the key.\<close>

locale pk_table =
  fixes key :: "'r \<Rightarrow> 'k"
    and upd :: "'r \<Rightarrow> 'r \<Rightarrow> 'r option"
  assumes upd_key: "key x = key r \<Longrightarrow> upd x r = Some y \<Longrightarrow> key y = key r"
begin

definition merged :: "'r option \<Rightarrow> 'r \<Rightarrow> 'r" where
  "merged old r = (case old of None \<Rightarrow> r | Some x \<Rightarrow> (case upd x r of None \<Rightarrow> x | Some y \<Rightarrow> y))"

lemma merged_simps [simp]:
  "merged None r = r"
  "merged (Some x) r = (case upd x r of None \<Rightarrow> x | Some y \<Rightarrow> y)"
  by (simp_all add: merged_def)

lemma get_upsert:
  "tbl_get key k (tbl_upsert key upd r t) =
     (if k = key r then Some (merged (tbl_get key k t) r) else tbl_get key k t)"
  by (induction t) (auto split: option.splits dest: upd_key)

lemma keys_upsert: "key ` set (tbl_upsert key upd r t) = insert (key r) (key ` set t)"
  by (induction t) (auto split: option.splits dest: upd_key)

lemma distinct_upsert:
  "distinct (map key t) \<Longrightarrow> distinct (map key (tbl_upsert key upd r t))"
proof (induction t)
  case (Cons x t)
  have k: "key (case upd x r of None \<Rightarrow> x | Some y \<Rightarrow> y) = key x" if "key x = key r"
    using that by (auto split: option.splits dest: upd_key)
  show ?case
  proof (cases "key x = key r")
    case True
    with Cons.prems k [OF True] show ?thesis by simp
  next
    case False
    with Cons show ?thesis by (simp add: keys_upsert flip: image_set)
  qed
qed simp

lemma mem_upsert:
  assumes "x \<in> set (tbl_upsert key upd r t)"
  shows "x \<in> set t \<or> x = r \<or> (\<exists>y \<in> set t. key y = key r \<and> upd y r = Some x)"
  using assms by (induction t) (auto split: if_splits option.splits)

end

end
