(* ===== verification/Definition_Mirror.thy ===== *)
theory Definition_Mirror
  imports Prelude "HOL-Library.Multiset"
begin

section \<open>The contract of a ledger mirror\<close>

text \<open>
  The specification the local cache of lifecycle definitions has to meet.  Ledger records are
  merged one by one into the cache: a higher sequence replaces the definition of its name, the
  same definition again only raises its initialized flag, anything else is ignored.
  \<open>ledger_join\<close> is that merge on one name; the locale states it as the law of a \<open>put\<close> operation and
  derives once what every client of the mirror uses: the cache holds a highest record of its
  name, and its content does not depend on the order in which consistent records arrive.
\<close>

definition ledger_join :: "('d \<Rightarrow> int) \<Rightarrow> 'd \<times> bool \<Rightarrow> ('d \<times> bool) option \<Rightarrow> ('d \<times> bool) option" where
  "ledger_join seq r old = (case old of None \<Rightarrow> Some r
     | Some c \<Rightarrow>
        (if seq (fst c) < seq (fst r) then Some r
         else if fst c = fst r then Some (fst c, snd c \<or> snd r)
         else Some c))"

text \<open>Two records of one sequence of a name carry the same definition.\<close>

definition consistent :: "('d \<Rightarrow> 'k) \<Rightarrow> ('d \<Rightarrow> int) \<Rightarrow> ('d \<times> bool) list \<Rightarrow> bool" where
  "consistent name seq recs \<longleftrightarrow>
     (\<forall>r \<in> set recs. \<forall>r' \<in> set recs. name (fst r) = name (fst r') \<longrightarrow> seq (fst r) = seq (fst r') \<longrightarrow> fst r = fst r')"

lemma ledger_join_commute:
  assumes "seq (fst a) = seq (fst b) \<Longrightarrow> fst a = fst b"
  shows "ledger_join seq a (ledger_join seq b x) = ledger_join seq b (ledger_join seq a x)"
  using assms by (cases a; cases b; cases x) (auto simp: ledger_join_def)

lemma ledger_join_above:
  "ledger_join seq r x = Some c \<Longrightarrow> seq (fst r) \<le> seq (fst c)"
  by (auto simp: ledger_join_def split: option.splits if_splits)

lemma ledger_join_mono:
  "x = Some c \<Longrightarrow> \<exists>c'. ledger_join seq r x = Some c' \<and> seq (fst c) \<le> seq (fst c')"
  by (cases c; cases r) (auto simp: ledger_join_def)

lemma ledger_join_Some: "\<exists>c. ledger_join seq r x = Some c"
  by (simp add: ledger_join_def split: option.split)

lemma ledger_fold_mono:
  "x = Some c \<Longrightarrow> \<exists>c'. fold (ledger_join seq) rs x = Some c' \<and> seq (fst c) \<le> seq (fst c')"
proof (induction rs arbitrary: x c)
  case (Cons r rs)
  from ledger_join_mono [OF Cons.prems, of seq r] obtain c1
    where "ledger_join seq r x = Some c1" and le: "seq (fst c) \<le> seq (fst c1)" by blast
  from Cons.IH [OF this(1)] le show ?case by fastforce
qed simp

lemma ledger_fold_above:
  "r \<in> set rs \<Longrightarrow> \<exists>c. fold (ledger_join seq) rs x = Some c \<and> seq (fst r) \<le> seq (fst c)"
proof (induction rs arbitrary: x)
  case (Cons r' rs)
  obtain c1 where c1: "ledger_join seq r' x = Some c1" using ledger_join_Some by blast
  show ?case
  proof (cases "r = r'")
    case True
    from ledger_fold_mono [OF c1, of seq rs] ledger_join_above [OF c1] True show ?thesis by fastforce
  next
    case False
    with Cons show ?thesis by simp
  qed
qed simp

locale definition_mirror =
  fixes inv :: "'s \<Rightarrow> bool"
    and valid :: "'d \<Rightarrow> bool"
    and name :: "'d \<Rightarrow> 'k"
    and seq :: "'d \<Rightarrow> int"
    and get :: "'s \<Rightarrow> 'k \<Rightarrow> ('d \<times> bool) option"
    and put :: "'d \<Rightarrow> bool \<Rightarrow> 's \<Rightarrow> 's"
  assumes put_inv: "inv s \<Longrightarrow> valid d \<Longrightarrow> inv (put d i s)"
    and get_put: "inv s \<Longrightarrow> valid d \<Longrightarrow>
      get (put d i s) k = (if k = name d then ledger_join seq (d, i) (get s k) else get s k)"
begin

definition hydrate :: "('d \<times> bool) list \<Rightarrow> 's \<Rightarrow> 's" where
  "hydrate recs s = fold (\<lambda>r. put (fst r) (snd r)) recs s"

lemma hydrate_inv: "inv s \<Longrightarrow> (\<And>r. r \<in> set recs \<Longrightarrow> valid (fst r)) \<Longrightarrow> inv (hydrate recs s)"
  unfolding hydrate_def by (induction recs arbitrary: s) (simp_all add: put_inv)

lemma get_hydrate:
  assumes "inv s" and "\<And>r. r \<in> set recs \<Longrightarrow> valid (fst r)"
  shows "get (hydrate recs s) k = fold (ledger_join seq) (filter (\<lambda>r. name (fst r) = k) recs) (get s k)"
  using assms
proof (induction recs arbitrary: s)
  case (Cons r recs)
  have "valid (fst r)" using Cons.prems by simp
  then have "inv (put (fst r) (snd r) s)" using Cons.prems by (simp add: put_inv)
  from Cons.IH [OF this] Cons.prems show ?case
    by (auto simp: hydrate_def get_put)
qed (simp add: hydrate_def)

lemma hydrate_order:
  assumes "inv s" and valid: "\<And>r. r \<in> set recs \<Longrightarrow> valid (fst r)"
    and "consistent name seq recs" and perm: "mset recs = mset recs'"
  shows "get (hydrate recs s) k = get (hydrate recs' s) k"
proof -
  let ?p = "\<lambda>r. name (fst r) = k"
  have "set recs' = set recs" using perm by (metis set_mset_mset)
  with assms have valid': "\<And>r. r \<in> set recs' \<Longrightarrow> valid (fst r)" by simp
  have "fold (ledger_join seq) (filter ?p recs) = fold (ledger_join seq) (filter ?p recs')"
  proof (rule fold_multiset_equiv)
    fix a b assume "a \<in> set (filter ?p recs)" "b \<in> set (filter ?p recs)"
    with assms(3) have "seq (fst a) = seq (fst b) \<Longrightarrow> fst a = fst b"
      by (auto simp: consistent_def)
    then show "ledger_join seq a \<circ> ledger_join seq b = ledger_join seq b \<circ> ledger_join seq a"
      by (auto simp: fun_eq_iff intro: ledger_join_commute)
  qed (simp add: perm)
  with get_hydrate [OF assms(1) valid] get_hydrate [OF assms(1) valid'] show ?thesis by simp
qed

lemma hydrate_above:
  assumes "inv s" and "\<And>r. r \<in> set recs \<Longrightarrow> valid (fst r)" and "r \<in> set recs"
  shows "\<exists>c. get (hydrate recs s) (name (fst r)) = Some c \<and> seq (fst r) \<le> seq (fst c)"
proof -
  have "get (hydrate recs s) (name (fst r)) =
      fold (ledger_join seq) (filter (\<lambda>x. name (fst x) = name (fst r)) recs) (get s (name (fst r)))"
    using assms(1,2) by (rule get_hydrate)
  then show ?thesis using ledger_fold_above [of r "filter (\<lambda>x. name (fst x) = name (fst r)) recs"] assms(3) by simp
qed

end

end
