(* ===== verification/Lifecycle_Store.thy ===== *)
theory Lifecycle_Store
  imports Definition_Mirror
begin

section \<open>The lifecycle store\<close>

text \<open>
  \<^verbatim>\<open>pkg/lifecycle/store.go\<close>: installed packages, organization approvals, active (committed)
  definitions and cached chaincode connections of one orchestrator, kept in four SQLite tables.
  The store is a record of those tables; every exported method is a definition with the same
  name, the SQL statements being \<^const>\<open>tbl_get\<close>, \<^const>\<open>tbl_upsert\<close>, filters and sorts over the
  rows.  A database call fails when the handle is closed or the context is done; \<open>now\<close> is the
  formatted clock reading.
\<close>

subsection \<open>Records\<close>

record InstalledPackage =
  ip_PackageID :: string
  ip_Label :: string
  ip_Type :: string
  ip_Address :: string
  ip_InstalledByMSP :: string
  ip_InstalledAt :: string
  ip_MetadataJSON :: bytes
  ip_ConnectionJSON :: bytes
  ip_PackageTGZ :: bytes

record ChaincodeDefinition =
  cd_Name :: string
  cd_Version :: string
  cd_Sequence :: int
  cd_InitRequired :: bool

record ApprovedDefinition =
  ad_Definition :: ChaincodeDefinition
  ad_PackageID :: string
  ad_ApprovingMSP :: string
  ad_ApprovedAt :: string
  ad_PackageAddress :: string

record CommittedDefinition =
  cm_Definition :: ChaincodeDefinition
  cm_CommittedAt :: string
  cm_Initialized :: bool

record ResolvedChaincodeConnection =
  rc_MSPID :: string
  rc_Name :: string
  rc_Version :: string
  rc_Sequence :: int
  rc_Address :: string
  rc_TLSMode :: string
  rc_PackageID :: string
  rc_CachedAt :: string

text \<open>Rows of \<open>approved_definitions\<close> and \<open>committed_definitions\<close>; booleans are stored as 0 and 1.\<close>

record approved_row =
  ar_name :: string
  ar_version :: string
  ar_sequence :: int
  ar_package_id :: string
  ar_init_required :: int
  ar_approving_msp :: string
  ar_approved_at :: string

record committed_row =
  cr_name :: string
  cr_version :: string
  cr_sequence :: int
  cr_init_required :: int
  cr_initialized :: int
  cr_committed_at :: string

record Store =
  st_channelID :: string
  st_open :: bool
  st_installed :: "InstalledPackage list"
  st_approved :: "approved_row list"
  st_committed :: "committed_row list"
  st_resolved :: "ResolvedChaincodeConnection list"

datatype store_error =
    ChannelIDRequired
  | PackageIDRequired
  | ApprovingMSPRequired
  | PackageNotInstalled string
  | ChaincodeNameRequired
  | VersionRequired
  | SequenceNotPositive
  | ApprovalMismatch string int
  | NotApprovedBy string int string
  | InitialSequenceMustBeOne string int
  | NameCannotChange
  | NextSequenceMustBe string int int int
  | ConflictingLedgerDefinition string int
  | NotCommitted string string
  | CommittedMismatch string string int
  | InitNotRequired string string
  | ManyDefinitions nat
  | NoPackageApproval string string int
  | ApprovedPackageGone string
  | MSPIDRequired
  | AddressRequired
  | DBClosed
  | DBContext ctx_error

subsection \<open>Validation helpers\<close>

definition validateDefinition :: "ChaincodeDefinition \<Rightarrow> store_error + unit" where
  "validateDefinition def =
     (if cd_Name def = [] then Inl ChaincodeNameRequired
      else if cd_Version def = [] then Inl VersionRequired
      else if cd_Sequence def \<le> 0 then Inl SequenceNotPositive
      else Inr ())"

definition definitionMatches :: "ChaincodeDefinition \<Rightarrow> ChaincodeDefinition \<Rightarrow> bool" where
  "definitionMatches left right \<longleftrightarrow>
     cd_Name left = cd_Name right \<and> cd_Version left = cd_Version right \<and>
     cd_Sequence left = cd_Sequence right \<and> cd_InitRequired left = cd_InitRequired right"

definition approvalMatches :: "ApprovedDefinition \<Rightarrow> ChaincodeDefinition \<Rightarrow> string \<Rightarrow> bool" where
  "approvalMatches approval def packageID \<longleftrightarrow>
     ad_PackageID approval = packageID \<and> definitionMatches (ad_Definition approval) def"

definition boolInt :: "bool \<Rightarrow> int" where
  "boolInt value = (if value then 1 else 0)"

definition ValidateNextSequence ::
  "ChaincodeDefinition option \<Rightarrow> ChaincodeDefinition \<Rightarrow> store_error + unit" where
  "ValidateNextSequence current next =
     rbind (validateDefinition next) (\<lambda>_.
       case current of
         None \<Rightarrow>
           (if cd_Sequence next \<noteq> 1 then Inl (InitialSequenceMustBeOne (cd_Name next) (cd_Sequence next))
            else Inr ())
       | Some cur \<Rightarrow>
           (if cd_Name cur \<noteq> cd_Name next then Inl NameCannotChange
            else let expected = i64_wrap (cd_Sequence cur + 1) in
              if cd_Sequence next \<noteq> expected
              then Inl (NextSequenceMustBe (cd_Name next) expected (cd_Sequence cur) (cd_Sequence next))
              else Inr ()))"

subsection \<open>Tables\<close>

definition upd_installed :: "InstalledPackage \<Rightarrow> InstalledPackage \<Rightarrow> InstalledPackage option" where
  "upd_installed old new = Some (old\<lparr>
     ip_Label := ip_Label new, ip_Type := ip_Type new, ip_Address := ip_Address new,
     ip_MetadataJSON := ip_MetadataJSON new, ip_ConnectionJSON := ip_ConnectionJSON new,
     ip_PackageTGZ := ip_PackageTGZ new, ip_InstalledByMSP := ip_InstalledByMSP new,
     ip_InstalledAt := ip_InstalledAt new\<rparr>)"

definition approved_key :: "approved_row \<Rightarrow> string \<times> int \<times> string" where
  "approved_key r = (ar_name r, ar_sequence r, ar_approving_msp r)"

definition upd_approved :: "approved_row \<Rightarrow> approved_row \<Rightarrow> approved_row option" where
  "upd_approved old new = Some (old\<lparr>
     ar_version := ar_version new, ar_package_id := ar_package_id new,
     ar_init_required := ar_init_required new, ar_approved_at := ar_approved_at new\<rparr>)"

definition upd_committed :: "committed_row \<Rightarrow> committed_row \<Rightarrow> committed_row option" where
  "upd_committed old new =
     (if cr_sequence new > cr_sequence old \<or>
         (cr_sequence new = cr_sequence old \<and> cr_version new = cr_version old \<and>
          cr_init_required new = cr_init_required old)
      then Some \<lparr>cr_name = cr_name new, cr_version = cr_version new, cr_sequence = cr_sequence new,
        cr_init_required = cr_init_required new,
        cr_initialized = (if cr_sequence old = cr_sequence new
          then max (cr_initialized old) (cr_initialized new) else cr_initialized new),
        cr_committed_at = cr_committed_at new\<rparr>
      else None)"

definition resolved_key :: "ResolvedChaincodeConnection \<Rightarrow> string \<times> string \<times> int" where
  "resolved_key r = (rc_MSPID r, rc_Name r, rc_Sequence r)"

definition upd_resolved ::
  "ResolvedChaincodeConnection \<Rightarrow> ResolvedChaincodeConnection \<Rightarrow> ResolvedChaincodeConnection option" where
  "upd_resolved old new = Some (old\<lparr>
     rc_Version := rc_Version new, rc_Address := rc_Address new, rc_TLSMode := rc_TLSMode new,
     rc_PackageID := rc_PackageID new, rc_CachedAt := rc_CachedAt new\<rparr>)"

definition scanCommitted :: "committed_row \<Rightarrow> CommittedDefinition" where
  "scanCommitted r = \<lparr>cm_Definition = \<lparr>cd_Name = cr_name r, cd_Version = cr_version r,
       cd_Sequence = cr_sequence r, cd_InitRequired = (cr_init_required r \<noteq> 0)\<rparr>,
     cm_CommittedAt = cr_committed_at r, cm_Initialized = (cr_initialized r \<noteq> 0)\<rparr>"

definition scanApproval :: "approved_row \<Rightarrow> string \<Rightarrow> ApprovedDefinition" where
  "scanApproval r address = \<lparr>ad_Definition = \<lparr>cd_Name = ar_name r, cd_Version = ar_version r,
       cd_Sequence = ar_sequence r, cd_InitRequired = (ar_init_required r \<noteq> 0)\<rparr>,
     ad_PackageID = ar_package_id r, ad_ApprovingMSP = ar_approving_msp r,
     ad_ApprovedAt = ar_approved_at r, ad_PackageAddress = address\<rparr>"

text \<open>Every statement runs through the handle: it fails on a closed database or a done context.\<close>

definition db_check :: "ctx \<Rightarrow> Store \<Rightarrow> store_error + unit" where
  "db_check ctx s =
     (if \<not> st_open s then Inl DBClosed
      else case ctx of Some e \<Rightarrow> Inl (DBContext e) | None \<Rightarrow> Inr ())"

definition NewMemoryStore :: "string \<Rightarrow> store_error + Store" where
  "NewMemoryStore channelID =
     (if channelID = [] then Inl ChannelIDRequired
      else Inr \<lparr>st_channelID = channelID, st_open = True, st_installed = [], st_approved = [],
                st_committed = [], st_resolved = []\<rparr>)"

definition Close :: "Store \<Rightarrow> Store" where
  "Close s = s\<lparr>st_open := False\<rparr>"

subsection \<open>Operations\<close>

definition Install :: "ctx \<Rightarrow> string \<Rightarrow> InstalledPackage \<Rightarrow> Store \<Rightarrow> (store_error + unit) \<times> Store" where
  "Install ctx now pkg s =
     (if ip_PackageID pkg = [] then (Inl PackageIDRequired, s)
      else let pkg = (if ip_InstalledAt pkg = [] then pkg\<lparr>ip_InstalledAt := now\<rparr> else pkg) in
        case db_check ctx s of
          Inl e \<Rightarrow> (Inl e, s)
        | Inr _ \<Rightarrow>
            (Inr (), s\<lparr>st_installed := tbl_upsert ip_PackageID upd_installed pkg (st_installed s)\<rparr>))"

definition GetInstalled :: "ctx \<Rightarrow> string \<Rightarrow> Store \<Rightarrow> store_error + InstalledPackage option" where
  "GetInstalled ctx packageID s =
     (if packageID = [] then Inl PackageIDRequired
      else rbind (db_check ctx s) (\<lambda>_. Inr (tbl_get ip_PackageID packageID (st_installed s))))"

definition ListInstalled :: "ctx \<Rightarrow> Store \<Rightarrow> store_error + InstalledPackage list" where
  "ListInstalled ctx s =
     rbind (db_check ctx s) (\<lambda>_. Inr (sort_key (\<lambda>p. (ip_Label p, ip_PackageID p)) (st_installed s)))"

definition GetCommitted :: "ctx \<Rightarrow> string \<Rightarrow> Store \<Rightarrow> store_error + CommittedDefinition option" where
  "GetCommitted ctx name s =
     (if name = [] then Inl ChaincodeNameRequired
      else rbind (db_check ctx s) (\<lambda>_.
        Inr (map_option scanCommitted (tbl_get cr_name name (st_committed s)))))"

definition validateNextSequence :: "ctx \<Rightarrow> ChaincodeDefinition \<Rightarrow> Store \<Rightarrow> store_error + unit" where
  "validateNextSequence ctx def s =
     rbind (GetCommitted ctx (cd_Name def) s) (\<lambda>existing.
       case existing of
         None \<Rightarrow> ValidateNextSequence None def
       | Some committed \<Rightarrow> ValidateNextSequence (Some (cm_Definition committed)) def)"

text \<open>The approval row is joined with its installed package for the package address.\<close>

definition GetApproval ::
  "ctx \<Rightarrow> ChaincodeDefinition \<Rightarrow> string \<Rightarrow> Store \<Rightarrow> store_error + ApprovedDefinition option" where
  "GetApproval ctx def approvingMSP s =
     rbind (validateDefinition def) (\<lambda>_.
     rbind (db_check ctx s) (\<lambda>_.
       case tbl_get approved_key (cd_Name def, cd_Sequence def, approvingMSP) (st_approved s) of
         None \<Rightarrow> Inr None
       | Some a \<Rightarrow>
           (case tbl_get ip_PackageID (ar_package_id a) (st_installed s) of
              None \<Rightarrow> Inr None
            | Some p \<Rightarrow> Inr (Some (scanApproval a (ip_Address p))))))"

text \<open>The sequence rule of an approval, and the existing approval that makes it a no-op.\<close>

definition approveSequence ::
  "ctx \<Rightarrow> CommittedDefinition option \<Rightarrow> ChaincodeDefinition \<Rightarrow> Store \<Rightarrow> store_error + unit" where
  "approveSequence ctx active def s =
     (case active of
        Some current \<Rightarrow>
          (if cd_Sequence (cm_Definition current) = cd_Sequence def
           then guard (definitionMatches (cm_Definition current) def)
                  (ApprovalMismatch (cd_Name def) (cd_Sequence def))
           else validateNextSequence ctx def s)
      | None \<Rightarrow> validateNextSequence ctx def s)"

definition approvalReused ::
  "ApprovedDefinition option \<Rightarrow> ChaincodeDefinition \<Rightarrow> string \<Rightarrow> ApprovedDefinition option" where
  "approvalReused existing def packageID =
     (case existing of
        Some a \<Rightarrow> if approvalMatches a def packageID then Some a else None
      | None \<Rightarrow> None)"

definition approved_row_of :: "string \<Rightarrow> ChaincodeDefinition \<Rightarrow> string \<Rightarrow> string \<Rightarrow> approved_row" where
  "approved_row_of now def packageID approvingMSP =
     \<lparr>ar_name = cd_Name def, ar_version = cd_Version def, ar_sequence = cd_Sequence def,
      ar_package_id = packageID, ar_init_required = boolInt (cd_InitRequired def),
      ar_approving_msp = approvingMSP, ar_approved_at = now\<rparr>"

definition ApproveForMyOrg ::
  "ctx \<Rightarrow> string \<Rightarrow> ChaincodeDefinition \<Rightarrow> string \<Rightarrow> string \<Rightarrow> Store
    \<Rightarrow> (store_error + ApprovedDefinition) \<times> Store" where
  "ApproveForMyOrg ctx now def packageID approvingMSP s =
     (case validateDefinition def of Inl e \<Rightarrow> (Inl e, s) | Inr _ \<Rightarrow>
      if packageID = [] then (Inl PackageIDRequired, s)
      else if approvingMSP = [] then (Inl ApprovingMSPRequired, s)
      else case GetInstalled ctx packageID s of Inl e \<Rightarrow> (Inl e, s)
      | Inr None \<Rightarrow> (Inl (PackageNotInstalled packageID), s)
      | Inr (Some pkg) \<Rightarrow>
      (case GetCommitted ctx (cd_Name def) s of Inl e \<Rightarrow> (Inl e, s)
       | Inr active \<Rightarrow>
       (case approveSequence ctx active def s of Inl e \<Rightarrow> (Inl e, s)
        | Inr _ \<Rightarrow>
        (case GetApproval ctx def approvingMSP s of Inl e \<Rightarrow> (Inl e, s)
         | Inr existing \<Rightarrow>
           (case approvalReused existing def packageID of
              Some a \<Rightarrow> (Inr a, s)
            | None \<Rightarrow>
                (Inr \<lparr>ad_Definition = def, ad_PackageID = packageID, ad_ApprovingMSP = approvingMSP,
                      ad_ApprovedAt = now, ad_PackageAddress = ip_Address pkg\<rparr>,
                 s\<lparr>st_approved := tbl_upsert approved_key upd_approved
                      (approved_row_of now def packageID approvingMSP) (st_approved s),
                   st_resolved := filter (\<lambda>r. resolved_key r \<noteq>
                     (approvingMSP, cd_Name def, cd_Sequence def)) (st_resolved s)\<rparr>))))))"

definition HasMatchingApproval ::
  "ctx \<Rightarrow> ChaincodeDefinition \<Rightarrow> string \<Rightarrow> Store \<Rightarrow> store_error + bool" where
  "HasMatchingApproval ctx def approvingMSP s =
     rbind (validateDefinition def) (\<lambda>_.
     rbind (GetApproval ctx def approvingMSP s) (\<lambda>found.
       case found of
         None \<Rightarrow> Inr False
       | Some approval \<Rightarrow> Inr (definitionMatches (ad_Definition approval) def)))"

definition ValidateCommitDefinition ::
  "ctx \<Rightarrow> ChaincodeDefinition \<Rightarrow> string \<Rightarrow> Store \<Rightarrow> store_error + unit" where
  "ValidateCommitDefinition ctx def localMSP s =
     rbind (HasMatchingApproval ctx def localMSP s) (\<lambda>approved.
       if \<not> approved then Inl (NotApprovedBy (cd_Name def) (cd_Sequence def) localMSP)
       else validateNextSequence ctx def s)"

definition committed_row_of :: "string \<Rightarrow> CommittedDefinition \<Rightarrow> committed_row" where
  "committed_row_of now committed = (let def = cm_Definition committed in
     \<lparr>cr_name = cd_Name def, cr_version = cd_Version def, cr_sequence = cd_Sequence def,
      cr_init_required = boolInt (cd_InitRequired def),
      cr_initialized = boolInt (cm_Initialized committed),
      cr_committed_at = (if cm_CommittedAt committed = [] then now else cm_CommittedAt committed)\<rparr>)"

text \<open>A lookup that finds nothing yields the zero value, as a Go function returning a struct does.\<close>

definition zeroCommitted :: CommittedDefinition where
  "zeroCommitted = \<lparr>cm_Definition = \<lparr>cd_Name = [], cd_Version = [], cd_Sequence = 0,
     cd_InitRequired = False\<rparr>, cm_CommittedAt = [], cm_Initialized = False\<rparr>"

definition upsertCommitted ::
  "ctx \<Rightarrow> string \<Rightarrow> CommittedDefinition \<Rightarrow> Store \<Rightarrow> (store_error + CommittedDefinition) \<times> Store" where
  "upsertCommitted ctx now committed s =
     (let def = cm_Definition committed in
      case validateDefinition def of Inl e \<Rightarrow> (Inl e, s) | Inr _ \<Rightarrow>
      (case db_check ctx s of Inl e \<Rightarrow> (Inl e, s) | Inr _ \<Rightarrow>
       (let s' = s\<lparr>st_committed :=
              tbl_upsert cr_name upd_committed (committed_row_of now committed) (st_committed s)\<rparr>
        in case GetCommitted ctx (cd_Name def) s' of
             Inl e \<Rightarrow> (Inl e, s')
           | Inr None \<Rightarrow> (Inr zeroCommitted, s')
           | Inr (Some active) \<Rightarrow>
               (if cd_Sequence (cm_Definition active) = cd_Sequence def \<and>
                   \<not> definitionMatches (cm_Definition active) def
                then (Inl (ConflictingLedgerDefinition (cd_Name def) (cd_Sequence def)), s')
                else (Inr active, s')))))"

definition CommitDefinition ::
  "ctx \<Rightarrow> string \<Rightarrow> ChaincodeDefinition \<Rightarrow> string \<Rightarrow> Store
    \<Rightarrow> (store_error + CommittedDefinition) \<times> Store" where
  "CommitDefinition ctx now def localMSP s =
     (case ValidateCommitDefinition ctx def localMSP s of
        Inl e \<Rightarrow> (Inl e, s)
      | Inr _ \<Rightarrow> upsertCommitted ctx now
          \<lparr>cm_Definition = def, cm_CommittedAt = now, cm_Initialized = (\<not> cd_InitRequired def)\<rparr> s)"

definition UpsertCommittedFromLedger ::
  "ctx \<Rightarrow> string \<Rightarrow> ChaincodeDefinition \<Rightarrow> bool \<Rightarrow> Store
    \<Rightarrow> (store_error + CommittedDefinition) \<times> Store" where
  "UpsertCommittedFromLedger ctx now def initialized s =
     (case validateDefinition def of Inl e \<Rightarrow> (Inl e, s) | Inr _ \<Rightarrow>
      (case GetCommitted ctx (cd_Name def) s of Inl e \<Rightarrow> (Inl e, s) | Inr existing \<Rightarrow>
       (let write = upsertCommitted ctx now
              \<lparr>cm_Definition = def, cm_CommittedAt = now, cm_Initialized = initialized\<rparr> s
        in case existing of
             None \<Rightarrow> write
           | Some ex \<Rightarrow>
               (if cd_Sequence (cm_Definition ex) > cd_Sequence def then (Inr ex, s)
                else if cd_Sequence (cm_Definition ex) = cd_Sequence def
                then (if \<not> definitionMatches (cm_Definition ex) def
                      then (Inl (ConflictingLedgerDefinition (cd_Name def) (cd_Sequence def)), s)
                      else if cm_Initialized ex \<or> cm_Initialized ex = initialized then (Inr ex, s)
                      else write)
                else write))))"

definition mark_row :: "string \<Rightarrow> ChaincodeDefinition \<Rightarrow> committed_row \<Rightarrow> committed_row" where
  "mark_row now def r =
     (if cr_name r = cd_Name def \<and> cr_sequence r = cd_Sequence def \<and>
         cr_version r = cd_Version def \<and> cr_init_required r = 1
      then r\<lparr>cr_initialized := 1, cr_committed_at := now\<rparr> else r)"

definition MarkInitialized ::
  "ctx \<Rightarrow> string \<Rightarrow> ChaincodeDefinition \<Rightarrow> string \<Rightarrow> Store
    \<Rightarrow> (store_error + CommittedDefinition) \<times> Store" where
  "MarkInitialized ctx now def localMSP s =
     (case validateDefinition def of Inl e \<Rightarrow> (Inl e, s) | Inr _ \<Rightarrow>
      (case GetCommitted ctx (cd_Name def) s of Inl e \<Rightarrow> (Inl e, s)
       | Inr None \<Rightarrow> (Inl (NotCommitted (cd_Name def) (cd_Version def)), s)
       | Inr (Some committed) \<Rightarrow>
         (if \<not> definitionMatches (cm_Definition committed) def
          then (Inl (CommittedMismatch (cd_Name def) (cd_Version def) (cd_Sequence def)), s)
          else if \<not> cd_InitRequired (cm_Definition committed)
          then (Inl (InitNotRequired (cd_Name def) (cd_Version def)), s)
          else if cm_Initialized committed then (Inr committed, s)
          else (Inr (committed\<lparr>cm_Initialized := True, cm_CommittedAt := now\<rparr>),
                s\<lparr>st_committed := map (mark_row now def) (st_committed s)\<rparr>))))"

definition ListCommitted ::
  "ctx \<Rightarrow> string \<Rightarrow> string \<Rightarrow> Store \<Rightarrow> store_error + CommittedDefinition list" where
  "ListCommitted ctx name version s =
     rbind (db_check ctx s) (\<lambda>_.
       Inr (map scanCommitted (sort_key (\<lambda>r. (cr_name r, cr_version r))
         (filter (\<lambda>r. (name = [] \<or> cr_name r = name) \<and> (version = [] \<or> cr_version r = version))
           (st_committed s)))))"

definition ResolveCommittedPackage ::
  "ctx \<Rightarrow> string \<Rightarrow> string \<Rightarrow> Store
    \<Rightarrow> store_error + (CommittedDefinition \<times> InstalledPackage) option" where
  "ResolveCommittedPackage ctx name localMSP s =
     rbind (ListCommitted ctx name [] s) (\<lambda>definitions.
       case definitions of
         [] \<Rightarrow> Inr None
       | committed # rest \<Rightarrow>
           (if name = [] \<and> length definitions > 1 then Inl (ManyDefinitions (length definitions))
            else let def = cm_Definition committed in
              rbind (GetApproval ctx def localMSP s) (\<lambda>found.
                case found of
                  Some approval \<Rightarrow>
                    (if \<not> definitionMatches (ad_Definition approval) def
                     then Inl (NoPackageApproval localMSP (cd_Name def) (cd_Sequence def))
                     else rbind (GetInstalled ctx (ad_PackageID approval) s) (\<lambda>pkg.
                       case pkg of
                         None \<Rightarrow> Inl (ApprovedPackageGone (ad_PackageID approval))
                       | Some p \<Rightarrow> Inr (Some (committed, p))))
                | None \<Rightarrow> Inl (NoPackageApproval localMSP (cd_Name def) (cd_Sequence def)))))"

definition GetResolvedConnection ::
  "ctx \<Rightarrow> string \<Rightarrow> ChaincodeDefinition \<Rightarrow> Store
    \<Rightarrow> store_error + ResolvedChaincodeConnection option" where
  "GetResolvedConnection ctx mspID def s =
     (if mspID = [] then Inl MSPIDRequired
      else rbind (validateDefinition def) (\<lambda>_.
           rbind (db_check ctx s) (\<lambda>_.
             case tbl_get resolved_key (mspID, cd_Name def, cd_Sequence def) (st_resolved s) of
               None \<Rightarrow> Inr None
             | Some conn \<Rightarrow> (if rc_Version conn \<noteq> cd_Version def then Inr None else Inr (Some conn)))))"

definition PutResolvedConnection ::
  "ctx \<Rightarrow> string \<Rightarrow> ResolvedChaincodeConnection \<Rightarrow> Store
    \<Rightarrow> (store_error + ResolvedChaincodeConnection) \<times> Store" where
  "PutResolvedConnection ctx now conn s =
     (if rc_MSPID conn = [] then (Inl MSPIDRequired, s)
      else case validateDefinition \<lparr>cd_Name = rc_Name conn, cd_Version = rc_Version conn,
             cd_Sequence = rc_Sequence conn, cd_InitRequired = False\<rparr> of
        Inl e \<Rightarrow> (Inl e, s)
      | Inr _ \<Rightarrow>
        (if rc_Address conn = [] then (Inl AddressRequired, s)
         else let conn = (if rc_TLSMode conn = [] then conn\<lparr>rc_TLSMode := ''none''\<rparr> else conn);
                  conn = (if rc_CachedAt conn = [] then conn\<lparr>rc_CachedAt := now\<rparr> else conn)
           in case db_check ctx s of
                Inl e \<Rightarrow> (Inl e, s)
              | Inr _ \<Rightarrow> (Inr conn, s\<lparr>st_resolved :=
                    tbl_upsert resolved_key upd_resolved conn (st_resolved s)\<rparr>)))"

lemmas [store_defs] =
  Install_def GetInstalled_def ListInstalled_def GetCommitted_def validateNextSequence_def
  GetApproval_def ApproveForMyOrg_def HasMatchingApproval_def ValidateCommitDefinition_def
  upsertCommitted_def CommitDefinition_def UpsertCommittedFromLedger_def MarkInitialized_def
  ListCommitted_def ResolveCommittedPackage_def GetResolvedConnection_def
  PutResolvedConnection_def Close_def

subsection \<open>Validation facts\<close>

lemma validateDefinition_ok [simp]:
  "validateDefinition def = Inr u \<longleftrightarrow> cd_Name def \<noteq> [] \<and> cd_Version def \<noteq> [] \<and> 0 < cd_Sequence def"
  by (auto simp: validateDefinition_def)

lemma definitionMatches_eq [simp]: "definitionMatches a b \<longleftrightarrow> a = b"
  by (cases a; cases b) (auto simp: definitionMatches_def)

lemma db_check_ok [simp]: "db_check ctx s = Inr u \<longleftrightarrow> st_open s \<and> ctx = None"
  by (auto simp: db_check_def split: option.splits)

lemma db_check_live [simp]: "db_check None s = (if st_open s then Inr () else Inl DBClosed)"
  by (simp add: db_check_def)

lemma boolInt_simps [simp]:
  "boolInt b = 1 \<longleftrightarrow> b" "boolInt b = 0 \<longleftrightarrow> \<not> b" "(boolInt b \<noteq> 0) = b" "boolInt b \<in> {0, 1}"
  "max (boolInt a) (boolInt b) = boolInt (a \<or> b)"
  by (simp_all add: boolInt_def)

interpretation installed_tbl: pk_table ip_PackageID upd_installed
  by unfold_locales (auto simp: upd_installed_def)

interpretation approved_tbl: pk_table approved_key upd_approved
  by unfold_locales (auto simp: upd_approved_def approved_key_def)

interpretation committed_tbl: pk_table cr_name upd_committed
  by unfold_locales (auto simp: upd_committed_def split: if_splits)

interpretation resolved_tbl: pk_table resolved_key upd_resolved
  by unfold_locales (auto simp: upd_resolved_def resolved_key_def)

subsection \<open>Well-formed stores\<close>

definition approved_ok :: "InstalledPackage list \<Rightarrow> approved_row \<Rightarrow> bool" where
  "approved_ok pkgs a \<longleftrightarrow> ar_name a \<noteq> [] \<and> ar_version a \<noteq> [] \<and> 0 < ar_sequence a \<and>
     ar_init_required a \<in> {0, 1} \<and> ar_approving_msp a \<noteq> [] \<and>
     ar_package_id a \<in> ip_PackageID ` set pkgs"

definition committed_ok :: "committed_row \<Rightarrow> bool" where
  "committed_ok c \<longleftrightarrow> cr_name c \<noteq> [] \<and> cr_version c \<noteq> [] \<and> 0 < cr_sequence c \<and>
     cr_init_required c \<in> {0, 1} \<and> cr_initialized c \<in> {0, 1}"

definition resolved_ok :: "ResolvedChaincodeConnection \<Rightarrow> bool" where
  "resolved_ok r \<longleftrightarrow> rc_MSPID r \<noteq> [] \<and> rc_Name r \<noteq> [] \<and> rc_Version r \<noteq> [] \<and> 0 < rc_Sequence r \<and>
     rc_Address r \<noteq> [] \<and> rc_TLSMode r \<noteq> []"

definition store_inv :: "Store \<Rightarrow> bool" where
  "store_inv s \<longleftrightarrow> st_channelID s \<noteq> [] \<and>
     distinct (map ip_PackageID (st_installed s)) \<and> distinct (map approved_key (st_approved s)) \<and>
     distinct (map cr_name (st_committed s)) \<and> distinct (map resolved_key (st_resolved s)) \<and>
     (\<forall>p \<in> set (st_installed s). ip_PackageID p \<noteq> []) \<and>
     (\<forall>a \<in> set (st_approved s). approved_ok (st_installed s) a) \<and>
     (\<forall>c \<in> set (st_committed s). committed_ok c) \<and>
     (\<forall>r \<in> set (st_resolved s). resolved_ok r)"

lemma store_inv_new: "NewMemoryStore channelID = Inr s \<Longrightarrow> store_inv s \<and> st_open s"
  by (auto simp: NewMemoryStore_def store_inv_def split: if_splits)

text \<open>Each table write keeps its part of the invariant.\<close>

lemma installed_write_inv:
  assumes "store_inv s" and "ip_PackageID pkg \<noteq> []"
  shows "store_inv (s\<lparr>st_installed := tbl_upsert ip_PackageID upd_installed pkg (st_installed s)\<rparr>)"
proof -
  have ids: "ip_PackageID ` set (tbl_upsert ip_PackageID upd_installed pkg (st_installed s)) =
      insert (ip_PackageID pkg) (ip_PackageID ` set (st_installed s))"
    by (rule installed_tbl.keys_upsert)
  have "ip_PackageID p \<noteq> []"
    if "p \<in> set (tbl_upsert ip_PackageID upd_installed pkg (st_installed s))" for p
    using imageI [OF that, of ip_PackageID] assms unfolding ids by (auto simp: store_inv_def)
  with assms show ?thesis
    by (auto simp: store_inv_def installed_tbl.distinct_upsert approved_ok_def ids)
qed

lemma approved_write_inv:
  assumes "store_inv s" and "approved_ok (st_installed s) row"
  shows "store_inv (s\<lparr>st_approved := tbl_upsert approved_key upd_approved row (st_approved s),
    st_resolved := filter P (st_resolved s)\<rparr>)"
proof -
  have "approved_ok (st_installed s) x"
    if "x \<in> set (tbl_upsert approved_key upd_approved row (st_approved s))" for x
    using approved_tbl.mem_upsert [OF that] assms
    by (auto simp: store_inv_def approved_ok_def upd_approved_def)
  with assms show ?thesis
    by (auto simp: store_inv_def approved_tbl.distinct_upsert distinct_map_filter)
qed

lemma upd_committed_ok:
  "committed_ok x \<Longrightarrow> committed_ok r \<Longrightarrow> upd_committed x r = Some y \<Longrightarrow> committed_ok y"
  unfolding upd_committed_def by (cases "cr_initialized x = 0") (auto simp: committed_ok_def split: if_splits)

lemma committed_write_inv:
  assumes "store_inv s" and "committed_ok row"
  shows "store_inv (s\<lparr>st_committed := tbl_upsert cr_name upd_committed row (st_committed s)\<rparr>)"
proof -
  have "committed_ok x" if "x \<in> set (tbl_upsert cr_name upd_committed row (st_committed s))" for x
    using committed_tbl.mem_upsert [OF that] assms
    by (auto simp: store_inv_def intro: upd_committed_ok)
  with assms show ?thesis
    by (auto simp: store_inv_def committed_tbl.distinct_upsert)
qed

lemma resolved_write_inv:
  assumes "store_inv s" and "resolved_ok row"
  shows "store_inv (s\<lparr>st_resolved := tbl_upsert resolved_key upd_resolved row (st_resolved s)\<rparr>)"
proof -
  have "resolved_ok x" if "x \<in> set (tbl_upsert resolved_key upd_resolved row (st_resolved s))" for x
    using resolved_tbl.mem_upsert [OF that] assms
    by (auto simp: store_inv_def resolved_ok_def upd_resolved_def)
  with assms show ?thesis
    by (auto simp: store_inv_def resolved_tbl.distinct_upsert)
qed

lemma committed_row_of_ok:
  "validateDefinition (cm_Definition c) = Inr u \<Longrightarrow> committed_ok (committed_row_of now c)"
  by (simp add: committed_row_of_def committed_ok_def Let_def boolInt_def)

subsection \<open>Every operation keeps the invariant\<close>

lemma Install_inv: "store_inv s \<Longrightarrow> store_inv (snd (Install ctx now pkg s))"
  by (auto simp: Install_def Let_def intro!: installed_write_inv split: sum.splits)

lemma upsertCommitted_inv: "store_inv s \<Longrightarrow> store_inv (snd (upsertCommitted ctx now c s))"
  by (auto simp: upsertCommitted_def Let_def split: sum.splits option.splits if_splits
      intro!: committed_write_inv committed_row_of_ok)

lemma CommitDefinition_inv: "store_inv s \<Longrightarrow> store_inv (snd (CommitDefinition ctx now def m s))"
  by (auto simp: CommitDefinition_def upsertCommitted_inv split: sum.splits)

lemma UpsertCommittedFromLedger_inv:
  "store_inv s \<Longrightarrow> store_inv (snd (UpsertCommittedFromLedger ctx now def i s))"
  by (auto simp: UpsertCommittedFromLedger_def Let_def upsertCommitted_inv split: sum.splits option.splits)

lemma PutResolvedConnection_inv: "store_inv s \<Longrightarrow> store_inv (snd (PutResolvedConnection ctx now c s))"
  by (auto simp: PutResolvedConnection_def Let_def resolved_ok_def intro!: resolved_write_inv
      split: sum.splits if_splits)

lemma Close_inv: "store_inv s \<Longrightarrow> store_inv (Close s)"
  by (simp add: Close_def store_inv_def)

text \<open>The \<open>UPDATE\<close> of \<^const>\<open>MarkInitialized\<close> touches only the flag and the time of a row.\<close>

lemma store_inv_committed:
  "store_inv s \<Longrightarrow> distinct (map cr_name t) \<Longrightarrow> (\<And>r. r \<in> set t \<Longrightarrow> committed_ok r) \<Longrightarrow>
     store_inv (s\<lparr>st_committed := t\<rparr>)"
  by (simp add: store_inv_def)

lemma mark_row_key [simp]: "cr_name (mark_row now def r) = cr_name r"
  by (simp add: mark_row_def)

lemma mark_row_ok: "committed_ok r \<Longrightarrow> committed_ok (mark_row now def r)"
  by (auto simp: mark_row_def committed_ok_def)

lemma mark_write_inv: "store_inv s \<Longrightarrow> store_inv (s\<lparr>st_committed := map (mark_row now def) (st_committed s)\<rparr>)"
  by (rule store_inv_committed) (auto simp: store_inv_def comp_def intro: mark_row_ok)

lemma MarkInitialized_inv: "store_inv s \<Longrightarrow> store_inv (snd (MarkInitialized ctx now def m s))"
  unfolding MarkInitialized_def by (simp add: mark_write_inv split: sum.split option.split)

lemma GetInstalled_Some:
  "GetInstalled ctx packageID s = Inr (Some pkg) \<longleftrightarrow> packageID \<noteq> [] \<and> st_open s \<and> ctx = None \<and>
     tbl_get ip_PackageID packageID (st_installed s) = Some pkg"
  by (auto simp: GetInstalled_def rbind_Inr_iff)

lemma ApproveForMyOrg_inv:
  assumes inv: "store_inv s"
  shows "store_inv (snd (ApproveForMyOrg ctx now def pkgID m s))"
proof -
  have row: "approved_ok (st_installed s) (approved_row_of now def pkgID m)"
    if "validateDefinition def = Inr u" "m \<noteq> []" "GetInstalled ctx pkgID s = Inr (Some pkg)" for u pkg
    using that tbl_get_Some [of ip_PackageID pkgID "st_installed s" pkg]
    by (auto simp: approved_ok_def approved_row_of_def GetInstalled_Some boolInt_def)
  show ?thesis unfolding ApproveForMyOrg_def
    by (simp add: Let_def inv row approved_write_inv split: sum.split option.split del: validateDefinition_ok)
qed

subsection \<open>Sequences of operations\<close>

text \<open>The calls that may change a store, with the context and the clock reading each gets.\<close>

datatype store_op =
    OpInstall ctx string InstalledPackage
  | OpApprove ctx string ChaincodeDefinition string string
  | OpCommit ctx string ChaincodeDefinition string
  | OpLedger ctx string ChaincodeDefinition bool
  | OpMark ctx string ChaincodeDefinition string
  | OpPutConnection ctx string ResolvedChaincodeConnection
  | OpClose

fun store_apply :: "store_op \<Rightarrow> Store \<Rightarrow> Store" where
  "store_apply (OpInstall ctx now pkg) s = snd (Install ctx now pkg s)"
| "store_apply (OpApprove ctx now def packageID msp) s = snd (ApproveForMyOrg ctx now def packageID msp s)"
| "store_apply (OpCommit ctx now def msp) s = snd (CommitDefinition ctx now def msp s)"
| "store_apply (OpLedger ctx now def initialized) s = snd (UpsertCommittedFromLedger ctx now def initialized s)"
| "store_apply (OpMark ctx now def msp) s = snd (MarkInitialized ctx now def msp s)"
| "store_apply (OpPutConnection ctx now conn) s = snd (PutResolvedConnection ctx now conn s)"
| "store_apply OpClose s = Close s"

definition store_run :: "store_op list \<Rightarrow> Store \<Rightarrow> Store" where
  "store_run ops s = fold store_apply ops s"

lemma store_apply_inv: "store_inv s \<Longrightarrow> store_inv (store_apply op s)"
  by (cases op) (simp_all add: Install_inv ApproveForMyOrg_inv CommitDefinition_inv
      UpsertCommittedFromLedger_inv MarkInitialized_inv PutResolvedConnection_inv Close_inv)

lemma store_run_keeps_inv: "store_inv s \<Longrightarrow> store_inv (store_run ops s)"
  unfolding store_run_def by (induction ops arbitrary: s) (simp_all add: store_apply_inv)

subsection \<open>The active definition of a name\<close>

definition active :: "Store \<Rightarrow> string \<Rightarrow> CommittedDefinition option" where
  "active s name = map_option scanCommitted (tbl_get cr_name name (st_committed s))"

lemma GetCommitted_active:
  "GetCommitted ctx name s = (if name = [] then Inl ChaincodeNameRequired
     else rbind (db_check ctx s) (\<lambda>_. Inr (active s name)))"
  by (simp add: GetCommitted_def active_def)

lemma active_name: "active s name = Some c \<Longrightarrow> cd_Name (cm_Definition c) = name"
  by (auto simp: active_def scanCommitted_def dest: tbl_get_Some)

text \<open>What the conflict clause of the upsert does to the active definition of the name.\<close>

definition join_committed :: "CommittedDefinition option \<Rightarrow> CommittedDefinition \<Rightarrow> CommittedDefinition" where
  "join_committed old new = (case old of None \<Rightarrow> new
     | Some c \<Rightarrow>
        (if cd_Sequence (cm_Definition new) > cd_Sequence (cm_Definition c) then new
         else if cm_Definition new = cm_Definition c
         then new\<lparr>cm_Initialized := cm_Initialized c \<or> cm_Initialized new\<rparr>
         else c))"

lemma row_of_name [simp]: "cr_name (committed_row_of now c) = cd_Name (cm_Definition c)"
  by (simp add: committed_row_of_def Let_def)

lemma scan_row_of:
  "scanCommitted (committed_row_of now c) =
     c\<lparr>cm_CommittedAt := (if cm_CommittedAt c = [] then now else cm_CommittedAt c)\<rparr>"
  by (simp add: scanCommitted_def committed_row_of_def Let_def)

lemma scan_row_of_sel [simp]:
  "cm_Definition (scanCommitted (committed_row_of now c)) = cm_Definition c"
  "cm_Initialized (scanCommitted (committed_row_of now c)) = cm_Initialized c"
  by (simp_all add: scan_row_of)

lemma scan_merged:
  assumes "committed_ok x" and "cr_name x = cd_Name (cm_Definition c)"
  shows "scanCommitted (committed_tbl.merged (Some x) (committed_row_of now c)) =
    join_committed (Some (scanCommitted x)) (scanCommitted (committed_row_of now c))"
proof -
  have i: "cr_initialized x = boolInt (cr_initialized x = 1)"
    and q: "cr_init_required x = boolInt (cr_init_required x = 1)"
    using assms by (auto simp: committed_ok_def boolInt_def)
  have qs: "boolInt b = cr_init_required x \<longleftrightarrow> b = (cr_init_required x \<noteq> 0)" for b
    using assms by (auto simp: committed_ok_def boolInt_def)
  have m: "max (cr_initialized x) (boolInt b) = boolInt (cr_initialized x \<noteq> 0 \<or> b)" for b
    using assms by (auto simp: committed_ok_def boolInt_def)
  show ?thesis using assms(2)
    by (cases c) (auto simp: upd_committed_def committed_row_of_def scanCommitted_def
        join_committed_def Let_def qs m split: if_splits option.splits)
qed

lemma active_upsert:
  assumes "store_inv s"
  shows "active (s\<lparr>st_committed := tbl_upsert cr_name upd_committed (committed_row_of now c) (st_committed s)\<rparr>) n
    = (if n = cd_Name (cm_Definition c)
       then Some (join_committed (active s n) (scanCommitted (committed_row_of now c))) else active s n)"
proof (cases "tbl_get cr_name n (st_committed s)")
  case None
  then show ?thesis
    by (auto simp: active_def committed_tbl.get_upsert join_committed_def)
next
  case (Some x)
  with assms have "committed_ok x" "cr_name x = n" by (auto simp: store_inv_def dest: tbl_get_Some)
  with Some show ?thesis
    using scan_merged [of x c now]
    by (auto simp: active_def committed_tbl.get_upsert simp del: committed_tbl.merged_simps)
qed

text \<open>The upsert never fails once the handle answers, unless another definition holds the sequence.\<close>

lemma upsertCommitted_open:
  fixes now :: string
  assumes "store_inv s" and "st_open s"
    and "validateDefinition (cm_Definition c) = Inr ()" and "cm_CommittedAt c \<noteq> []"
  defines "n \<equiv> cd_Name (cm_Definition c)"
  defines "s' \<equiv> s\<lparr>st_committed := tbl_upsert cr_name upd_committed (committed_row_of now c) (st_committed s)\<rparr>"
  shows "upsertCommitted None now c s =
    (let j = join_committed (active s n) c in
     (if cd_Sequence (cm_Definition j) = cd_Sequence (cm_Definition c) \<and> cm_Definition j \<noteq> cm_Definition c
      then Inl (ConflictingLedgerDefinition n (cd_Sequence (cm_Definition c))) else Inr j, s'))"
proof -
  have "active s' n = Some (join_committed (active s n) c)"
    using active_upsert [OF assms(1), of now c n] assms(4) by (simp add: s'_def n_def scan_row_of)
  then have "GetCommitted None n s' = Inr (Some (join_committed (active s n) c))"
    using assms by (simp add: GetCommitted_active)
  then show ?thesis
    using assms(2,3) unfolding upsertCommitted_def n_def s'_def Let_def
    by (auto simp del: validateDefinition_ok)
qed

subsection \<open>The active definition only moves forward\<close>

definition advances :: "CommittedDefinition option \<Rightarrow> CommittedDefinition option \<Rightarrow> bool" where
  "advances old new \<longleftrightarrow> (case old of None \<Rightarrow> True
     | Some c \<Rightarrow> (case new of None \<Rightarrow> False
        | Some c' \<Rightarrow> cd_Sequence (cm_Definition c) < cd_Sequence (cm_Definition c') \<or>
            cm_Definition c' = cm_Definition c \<and> (cm_Initialized c \<longrightarrow> cm_Initialized c')))"

lemma advances_refl [simp]: "advances x x"
  by (auto simp: advances_def split: option.splits)

lemma advances_trans: "advances x y \<Longrightarrow> advances y z \<Longrightarrow> advances x z"
  by (auto simp: advances_def split: option.splits)

lemma advances_join: "advances old (Some (join_committed old new))"
  by (auto simp: advances_def join_committed_def split: option.splits)

lemma advances_upsertCommitted:
  "store_inv s \<Longrightarrow> advances (active s n) (active (snd (upsertCommitted ctx now c s)) n)"
  by (auto simp: upsertCommitted_def Let_def active_upsert advances_join split: sum.split option.split)

lemma active_mark:
  assumes "store_inv s"
  shows "active (s\<lparr>st_committed := map (mark_row now def) (st_committed s)\<rparr>) n =
    (case active s n of Some c \<Rightarrow>
       (if cd_InitRequired (cm_Definition c) \<and> cm_Definition c = def\<lparr>cd_InitRequired := True\<rparr>
        then Some (c\<lparr>cm_Initialized := True, cm_CommittedAt := now\<rparr>) else Some c)
     | None \<Rightarrow> None)"
proof -
  have get: "tbl_get cr_name n (map (mark_row now def) t) = map_option (mark_row now def) (tbl_get cr_name n t)" for t
    by (induction t) auto
  have scan: "scanCommitted (mark_row now def r) =
      (let c = scanCommitted r in
       if cd_InitRequired (cm_Definition c) \<and> cm_Definition c = def\<lparr>cd_InitRequired := True\<rparr>
       then c\<lparr>cm_Initialized := True, cm_CommittedAt := now\<rparr> else c)" if "committed_ok r" for r
    using that by (cases def) (auto simp: mark_row_def scanCommitted_def committed_ok_def Let_def)
  show ?thesis
  proof (cases "tbl_get cr_name n (st_committed s)")
    case (Some r)
    with assms have "committed_ok r" by (auto simp: store_inv_def dest: tbl_get_Some)
    with Some show ?thesis by (simp add: active_def get scan Let_def)
  qed (simp add: active_def get)
qed

lemma advances_mark:
  "store_inv s \<Longrightarrow> advances (active s n) (active (s\<lparr>st_committed := map (mark_row now def) (st_committed s)\<rparr>) n)"
  by (auto simp: active_mark advances_def split: option.splits)

lemma ApproveForMyOrg_committed: "st_committed (snd (ApproveForMyOrg ctx now def packageID m s)) = st_committed s"
  unfolding ApproveForMyOrg_def by (simp add: Let_def split: sum.split option.split del: validateDefinition_ok)

lemma MarkInitialized_cases:
  "snd (MarkInitialized ctx now def m s) \<in> {s, s\<lparr>st_committed := map (mark_row now def) (st_committed s)\<rparr>}"
  unfolding MarkInitialized_def by (simp split: sum.split option.split)

lemma UpsertCommittedFromLedger_cases:
  "snd (UpsertCommittedFromLedger ctx now def i s) \<in> {s, snd (upsertCommitted ctx now
     \<lparr>cm_Definition = def, cm_CommittedAt = now, cm_Initialized = i\<rparr> s)}"
  unfolding UpsertCommittedFromLedger_def by (simp add: Let_def split: sum.split option.split)

lemma store_apply_advances:
  assumes "store_inv s"
  shows "advances (active s n) (active (store_apply op s) n)"
proof (cases op)
  case (OpApprove ctx now def packageID m)
  then show ?thesis by (simp add: active_def ApproveForMyOrg_committed)
next
  case (OpMark ctx now def m)
  then show ?thesis using MarkInitialized_cases [of ctx now def m s] advances_mark [OF assms] by auto
next
  case (OpLedger ctx now def i)
  then show ?thesis
    using UpsertCommittedFromLedger_cases [of ctx now def i s] advances_upsertCommitted [OF assms] by auto
next
  case (OpCommit ctx now def m)
  then show ?thesis by (simp add: CommitDefinition_def advances_upsertCommitted assms split: sum.split)
next
  case (OpInstall ctx now pkg)
  then show ?thesis by (simp add: Install_def Let_def active_def split: sum.split)
next
  case (OpPutConnection ctx now conn)
  then show ?thesis by (simp add: PutResolvedConnection_def Let_def active_def split: sum.split)
qed (simp add: Close_def active_def)

lemma store_run_advances:
  "store_inv s \<Longrightarrow> advances (active s n) (active (store_run ops s) n)"
proof (induction ops arbitrary: s)
  case (Cons op ops)
  from Cons.IH [OF store_apply_inv [OF Cons.prems, of op]] store_apply_advances [OF Cons.prems, of n op]
  show ?case by (simp add: store_run_def advances_trans)
qed (simp add: store_run_def)

subsection \<open>The store is a mirror of the ledger\<close>

definition definition_of :: "Store \<Rightarrow> string \<Rightarrow> (ChaincodeDefinition \<times> bool) option" where
  "definition_of s name = map_option (\<lambda>c. (cm_Definition c, cm_Initialized c)) (active s name)"

definition valid_definition :: "ChaincodeDefinition \<Rightarrow> bool" where
  "valid_definition def \<longleftrightarrow> validateDefinition def = Inr ()"

definition live :: "Store \<Rightarrow> bool" where
  "live s \<longleftrightarrow> store_inv s \<and> st_open s"

lemma join_ledger:
  "map_option (\<lambda>c. (cm_Definition c, cm_Initialized c)) (Some (join_committed old new)) =
     ledger_join cd_Sequence (cm_Definition new, cm_Initialized new)
       (map_option (\<lambda>c. (cm_Definition c, cm_Initialized c)) old)"
  by (auto simp: join_committed_def ledger_join_def split: option.splits)

lemma upsertCommitted_open_flag: "st_open (snd (upsertCommitted ctx now c s)) = st_open s"
  by (simp add: upsertCommitted_def Let_def split: sum.split option.split)

lemma definition_of_upsertCommitted:
  assumes "live s" and "valid_definition (cm_Definition c)"
  shows "definition_of (snd (upsertCommitted None now c s)) n =
    (if n = cd_Name (cm_Definition c)
     then ledger_join cd_Sequence (cm_Definition c, cm_Initialized c) (definition_of s n) else definition_of s n)"
proof -
  have "active (snd (upsertCommitted None now c s)) n =
      active (s\<lparr>st_committed := tbl_upsert cr_name upd_committed (committed_row_of now c) (st_committed s)\<rparr>) n"
    using assms by (auto simp: upsertCommitted_def live_def valid_definition_def Let_def
        simp del: validateDefinition_ok split: sum.split option.split)
  then show ?thesis
    using assms active_upsert [of s now c n] join_ledger [of "active s n" "scanCommitted (committed_row_of now c)"]
    by (auto simp: definition_of_def live_def)
qed

lemma definition_of_ledger:
  assumes "live s" and valid: "valid_definition def"
  shows "definition_of (snd (UpsertCommittedFromLedger None now def i s)) n =
    (if n = cd_Name def then ledger_join cd_Sequence (def, i) (definition_of s n) else definition_of s n)"
proof -
  let ?w = "snd (upsertCommitted None now \<lparr>cm_Definition = def, cm_CommittedAt = now, cm_Initialized = i\<rparr> s)"
  have w: "definition_of ?w n =
      (if n = cd_Name def then ledger_join cd_Sequence (def, i) (definition_of s n) else definition_of s n)"
    using definition_of_upsertCommitted [OF assms(1), of "\<lparr>cm_Definition = def, cm_CommittedAt = now, cm_Initialized = i\<rparr>"]
      valid by simp
  have get: "GetCommitted None (cd_Name def) s = Inr (active s (cd_Name def))"
    using assms by (simp add: GetCommitted_active valid_definition_def live_def)
  show ?thesis
  proof (cases "active s (cd_Name def)")
    case None
    then show ?thesis
      using valid get w by (simp add: UpsertCommittedFromLedger_def valid_definition_def Let_def del: validateDefinition_ok)
  next
    case (Some c)
    then have same: "n = cd_Name def \<Longrightarrow> definition_of s n = Some (cm_Definition c, cm_Initialized c)"
      by (simp add: definition_of_def)
    show ?thesis
      using valid get w same Some
      by (auto simp: UpsertCommittedFromLedger_def valid_definition_def Let_def ledger_join_def simp del: validateDefinition_ok)
  qed
qed

lemma live_ledger: "live s \<Longrightarrow> live (snd (UpsertCommittedFromLedger None now def i s))"
  using UpsertCommittedFromLedger_cases [of None now def i s]
  by (auto simp: live_def UpsertCommittedFromLedger_inv upsertCommitted_open_flag)

interpretation store_mirror: definition_mirror live valid_definition cd_Name cd_Sequence definition_of
  "\<lambda>def i s. snd (UpsertCommittedFromLedger None now def i s)" for now
  by unfold_locales (simp_all add: live_ledger definition_of_ledger)

subsection \<open>Approvals\<close>

definition approval_of :: "Store \<Rightarrow> string \<Rightarrow> int \<Rightarrow> string \<Rightarrow> ApprovedDefinition option" where
  "approval_of s name sequence msp =
     (case tbl_get approved_key (name, sequence, msp) (st_approved s) of
        None \<Rightarrow> None
      | Some a \<Rightarrow>
          (case tbl_get ip_PackageID (ar_package_id a) (st_installed s) of
             None \<Rightarrow> None
           | Some p \<Rightarrow> Some (scanApproval a (ip_Address p))))"

lemma GetApproval_of:
  "GetApproval ctx def msp s = rbind (validateDefinition def) (\<lambda>_. rbind (db_check ctx s) (\<lambda>_.
     Inr (approval_of s (cd_Name def) (cd_Sequence def) msp)))"
  by (simp add: GetApproval_def approval_of_def split: option.split)

lemma HasMatchingApproval_True:
  "HasMatchingApproval ctx def msp s = Inr True \<longleftrightarrow> valid_definition def \<and> st_open s \<and> ctx = None \<and>
     (\<exists>a. approval_of s (cd_Name def) (cd_Sequence def) msp = Some a \<and> ad_Definition a = def)"
  by (auto simp: HasMatchingApproval_def GetApproval_of rbind_Inr_iff valid_definition_def split: option.splits)

text \<open>A successful approval is either the one already recorded or a new row over a cleared cache.\<close>

lemma ApproveForMyOrg_success:
  assumes "ApproveForMyOrg ctx now def packageID m s = (Inr a, s')"
  shows "valid_definition def" and "packageID \<noteq> []" and "m \<noteq> []" and "st_open s" and "ctx = None"
    and "approveSequence ctx (active s (cd_Name def)) def s = Inr ()"
    and "\<exists>pkg. tbl_get ip_PackageID packageID (st_installed s) = Some pkg \<and>
      (approvalReused (approval_of s (cd_Name def) (cd_Sequence def) m) def packageID = Some a \<and> s' = s \<or>
       approvalReused (approval_of s (cd_Name def) (cd_Sequence def) m) def packageID = None \<and>
       a = \<lparr>ad_Definition = def, ad_PackageID = packageID, ad_ApprovingMSP = m,
            ad_ApprovedAt = now, ad_PackageAddress = ip_Address pkg\<rparr> \<and>
       s' = s\<lparr>st_approved := tbl_upsert approved_key upd_approved (approved_row_of now def packageID m) (st_approved s),
              st_resolved := filter (\<lambda>r. resolved_key r \<noteq> (m, cd_Name def, cd_Sequence def)) (st_resolved s)\<rparr>)"
  using assms unfolding ApproveForMyOrg_def
  by (auto simp: GetInstalled_def GetCommitted_active GetApproval_of rbind_Inr_iff valid_definition_def
      split: sum.splits option.splits if_splits)

lemma approved_key_row_of [simp]:
  "approved_key (approved_row_of now def packageID m) = (cd_Name def, cd_Sequence def, m)"
  by (simp add: approved_key_def approved_row_of_def)

lemma approval_of_written:
  assumes "tbl_get ip_PackageID packageID (st_installed s) = Some pkg"
  shows "approval_of (s\<lparr>st_approved := tbl_upsert approved_key upd_approved
      (approved_row_of now def packageID m) (st_approved s), st_resolved := r\<rparr>) n q m' =
    (if (n, q, m') = (cd_Name def, cd_Sequence def, m)
     then Some \<lparr>ad_Definition = def, ad_PackageID = packageID, ad_ApprovingMSP = m,
            ad_ApprovedAt = now, ad_PackageAddress = ip_Address pkg\<rparr>
     else approval_of s n q m')"
proof -
  have *: "approved_tbl.merged (tbl_get approved_key (cd_Name def, cd_Sequence def, m) t)
      (approved_row_of now def packageID m) = approved_row_of now def packageID m" for t
    by (cases "tbl_get approved_key (cd_Name def, cd_Sequence def, m) t")
      (auto simp: upd_approved_def approved_row_of_def approved_key_def dest!: tbl_get_Some)
  have "scanApproval (approved_row_of now def packageID m) (ip_Address pkg) =
      \<lparr>ad_Definition = def, ad_PackageID = packageID, ad_ApprovingMSP = m,
       ad_ApprovedAt = now, ad_PackageAddress = ip_Address pkg\<rparr>"
    by (simp add: scanApproval_def approved_row_of_def)
  moreover have "ar_package_id (approved_row_of now def packageID m) = packageID"
    by (simp add: approved_row_of_def)
  ultimately show ?thesis
    using assms by (auto simp: approval_of_def approved_tbl.get_upsert * split: option.splits)
qed

lemma approvalReused_Some: "approvalReused x def packageID = Some a \<longleftrightarrow>
    x = Some a \<and> ad_Definition a = def \<and> ad_PackageID a = packageID"
  by (auto simp: approvalReused_def approvalMatches_def split: option.splits if_splits)

end
