(* ===== verification/Store_Correctness.thy ===== *)
theory Store_Correctness
  imports Lifecycle_Store
begin

section \<open>Properties of the lifecycle store\<close>

text \<open>
  What the rest of the orchestrator relies on: reachable stores are well formed, the active
  definition of a name never moves backwards, a commit needs a matching approval and the next
  sequence, approvals are idempotent and drop stale connections, hydration from the ledger
  implements the mirror specification of \<^verbatim>\<open>Definition_Mirror\<close>.  A small concrete store gives the
  witnesses.
\<close>

definition sample_package :: InstalledPackage where
  "sample_package = \<lparr>ip_PackageID = ''basic:1'', ip_Label = ''basic'', ip_Type = ''ccaas'',
     ip_Address = ''h:1'', ip_InstalledByMSP = ''Org1'', ip_InstalledAt = ''t0'',
     ip_MetadataJSON = [], ip_ConnectionJSON = [], ip_PackageTGZ = []\<rparr>"

definition sample_def :: "int \<Rightarrow> ChaincodeDefinition" where
  "sample_def q = \<lparr>cd_Name = ''basic'', cd_Version = ''1.0'', cd_Sequence = q, cd_InitRequired = True\<rparr>"

definition sample_store :: Store where
  "sample_store = \<lparr>st_channelID = ''ch'', st_open = True, st_installed = [sample_package],
     st_approved = [approved_row_of ''t1'' (sample_def 1) ''basic:1'' ''Org1''],
     st_committed = [], st_resolved = []\<rparr>"

definition sample_committed :: Store where
  "sample_committed = snd (CommitDefinition None ''t2'' (sample_def 1) ''Org1'' sample_store)"

lemma sample_store_live: "live sample_store"
  by code_simp

lemma sample_committed_live: "live sample_committed"
  by code_simp

text \<open>C27: in every store that any sequence of calls produces from a new one, primary keys are unique,
  approvals refer to installed packages, and stored names, versions, sequences and flags are valid.\<close>

theorem reachable_store_inv:
  assumes "NewMemoryStore channelID = Inr s"
  shows "store_inv (store_run ops s)"
  using store_inv_new [OF assms] by (simp add: store_run_keeps_inv)

theorem reachable_store_inv_witness:
  "store_inv (store_run [OpInstall None ''t'' sample_package,
     OpApprove None ''t'' (sample_def 1) ''basic:1'' ''Org1'', OpCommit None ''t'' (sample_def 1) ''Org1'']
     \<lparr>st_channelID = ''ch'', st_open = True, st_installed = [], st_approved = [],
      st_committed = [], st_resolved = []\<rparr>)"
  by (rule reachable_store_inv [of "''ch''"]) (simp add: NewMemoryStore_def)

text \<open>C1: whatever calls follow, the active definition of a name stays, and it is only ever replaced by
  one with a higher sequence; at its sequence the definition is fixed and initialization is never undone.\<close>

theorem active_definition_monotone:
  assumes "store_inv s" and "active s name = Some c"
  shows "\<exists>c'. active (store_run ops s) name = Some c' \<and>
    (cd_Sequence (cm_Definition c) < cd_Sequence (cm_Definition c') \<or>
     cm_Definition c' = cm_Definition c \<and> (cm_Initialized c \<longrightarrow> cm_Initialized c'))"
  using store_run_advances [OF assms(1), of name ops] assms(2)
  by (auto simp: advances_def split: option.splits)

theorem active_definition_monotone_witness:
  "\<exists>c'. active (store_run [OpMark None ''t3'' (sample_def 1) ''Org1'', OpLedger None ''t4'' (sample_def 1) False]
      sample_committed) ''basic'' = Some c' \<and>
    (1 < cd_Sequence (cm_Definition c') \<or> cm_Definition c' = sample_def 1)"
proof -
  have "store_inv sample_committed" using sample_committed_live by (simp add: live_def)
  moreover have "active sample_committed ''basic'' =
      Some \<lparr>cm_Definition = sample_def 1, cm_CommittedAt = ''t2'', cm_Initialized = False\<rparr>"
    by code_simp
  ultimately show ?thesis
    using active_definition_monotone [of sample_committed "''basic''"
        "\<lparr>cm_Definition = sample_def 1, cm_CommittedAt = ''t2'', cm_Initialized = False\<rparr>"]
    by (auto simp: sample_def_def)
qed
subsection \<open>Commit\<close>

text \<open>The sequence a commit of a name has to carry; none exists once the active one is maximal.\<close>

definition next_sequence :: "Store \<Rightarrow> string \<Rightarrow> int option" where
  "next_sequence s name = (case active s name of
       None \<Rightarrow> Some 1
     | Some c \<Rightarrow> (if cd_Sequence (cm_Definition c) < max_i64
                  then Some (cd_Sequence (cm_Definition c) + 1) else None))"

definition in_range :: "Store \<Rightarrow> bool" where
  "in_range s \<longleftrightarrow> (\<forall>r \<in> set (st_committed s). is_i64 (cr_sequence r))"

lemma in_range_active: "in_range s \<Longrightarrow> active s n = Some c \<Longrightarrow> is_i64 (cd_Sequence (cm_Definition c))"
  by (auto simp: in_range_def active_def scanCommitted_def dest: tbl_get_Some)

lemma active_positive: "store_inv s \<Longrightarrow> active s n = Some c \<Longrightarrow> 0 < cd_Sequence (cm_Definition c)"
  by (auto simp: store_inv_def committed_ok_def active_def scanCommitted_def dest!: tbl_get_Some)

lemma next_i64:
  assumes "is_i64 q" and "0 < q" and "0 < k"
  shows "k = i64_wrap (q + 1) \<longleftrightarrow> q < max_i64 \<and> k = q + 1"
proof (cases "q = max_i64")
  case True
  then show ?thesis using assms(3) by (simp add: i64_wrap_max min_i64_def)
next
  case False
  with assms show ?thesis using i64_wrap_id [of "q + 1"] by (auto simp: is_i64_def min_i64_def)
qed

lemma validateNextSequence_iff:
  assumes "live s" and "in_range s" and "valid_definition def"
  shows "validateNextSequence None def s = Inr () \<longleftrightarrow> next_sequence s (cd_Name def) = Some (cd_Sequence def)"
proof (cases "active s (cd_Name def)")
  case (Some c)
  with assms have "is_i64 (cd_Sequence (cm_Definition c))" "0 < cd_Sequence (cm_Definition c)"
    by (auto simp: live_def intro: in_range_active active_positive)
  with assms next_i64 [OF this, of "cd_Sequence def"] Some active_name [OF Some] show ?thesis
    by (auto simp: validateNextSequence_def GetCommitted_active ValidateNextSequence_def live_def
        valid_definition_def rbind_Inr_iff next_sequence_def Let_def)
qed (use assms in \<open>auto simp: validateNextSequence_def GetCommitted_active ValidateNextSequence_def live_def
        valid_definition_def rbind_Inr_iff next_sequence_def\<close>)

definition commit_allowed :: "Store \<Rightarrow> ChaincodeDefinition \<Rightarrow> string \<Rightarrow> bool" where
  "commit_allowed s def msp \<longleftrightarrow> HasMatchingApproval None def msp s = Inr True \<and>
     next_sequence s (cd_Name def) = Some (cd_Sequence def)"

lemma ValidateCommit_iff:
  assumes "live s" and "in_range s"
  shows "ValidateCommitDefinition None def msp s = Inr () \<longleftrightarrow> commit_allowed s def msp"
  using validateNextSequence_iff [OF assms, of def] HasMatchingApproval_True [of None def msp s]
  by (auto simp: ValidateCommitDefinition_def commit_allowed_def rbind_Inr_iff split: if_splits)

lemma join_next:
  assumes "next_sequence s (cd_Name (cm_Definition c)) = Some (cd_Sequence (cm_Definition c))"
  shows "join_committed (active s (cd_Name (cm_Definition c))) c = c"
  using assms by (auto simp: next_sequence_def join_committed_def split: option.splits if_splits)

text \<open>C2: a commit succeeds exactly when the committing organization approved this very definition and the
  sequence is the next one of its name (1 for a new name, none beyond the largest 64 bit value).  It then
  makes the definition active, initialized unless it requires init, and touches no other name; otherwise
  the store is unchanged.\<close>

theorem CommitDefinition_exact:
  assumes "live s" and "in_range s" and "now \<noteq> []"
  shows "if commit_allowed s def msp
    then (let c = \<lparr>cm_Definition = def, cm_CommittedAt = now, cm_Initialized = (\<not> cd_InitRequired def)\<rparr>;
              (r, s') = CommitDefinition None now def msp s
          in r = Inr c \<and> active s' = (active s)(cd_Name def \<mapsto> c) \<and> live s')
    else (\<exists>e. CommitDefinition None now def msp s = (Inl e, s))"
proof (cases "commit_allowed s def msp")
  case True
  let ?c = "\<lparr>cm_Definition = def, cm_CommittedAt = now, cm_Initialized = (\<not> cd_InitRequired def)\<rparr>"
  have valid: "validateDefinition (cm_Definition ?c) = Inr ()"
    using True by (simp add: commit_allowed_def HasMatchingApproval_True valid_definition_def)
  have j: "join_committed (active s (cd_Name def)) ?c = ?c"
    using True join_next [of s ?c] by (simp add: commit_allowed_def)
  have run: "CommitDefinition None now def msp s = (Inr ?c, s\<lparr>st_committed :=
      tbl_upsert cr_name upd_committed (committed_row_of now ?c) (st_committed s)\<rparr>)"
    using ValidateCommit_iff [OF assms(1,2), of def msp] True upsertCommitted_open [of s ?c now] valid assms j
    by (simp add: CommitDefinition_def live_def Let_def)
  have "live (snd (CommitDefinition None now def msp s))"
    using CommitDefinition_inv [of s None now def msp] assms(1) by (simp add: live_def run)
  moreover have "active (snd (CommitDefinition None now def msp s)) = (active s)(cd_Name def \<mapsto> ?c)"
    unfolding run using active_upsert [of s now ?c] assms j
    by (auto simp: fun_eq_iff live_def scan_row_of)
  ultimately show ?thesis using True by (simp add: run Let_def)
next
  case False
  with ValidateCommit_iff [OF assms(1,2), of def msp] show ?thesis
    by (cases "ValidateCommitDefinition None def msp s") (auto simp: CommitDefinition_def)
qed

theorem CommitDefinition_exact_witness:
  "commit_allowed sample_store (sample_def 1) ''Org1'' \<and> \<not> commit_allowed sample_store (sample_def 2) ''Org1'' \<and>
   fst (CommitDefinition None ''t2'' (sample_def 1) ''Org1'' sample_store) =
     Inr \<lparr>cm_Definition = sample_def 1, cm_CommittedAt = ''t2'', cm_Initialized = False\<rparr> \<and>
   (\<exists>e. CommitDefinition None ''t2'' (sample_def 2) ''Org1'' sample_store = (Inl e, sample_store))"
proof -
  have a: "commit_allowed sample_store (sample_def 1) ''Org1''" by code_simp
  have b: "\<not> commit_allowed sample_store (sample_def 2) ''Org1''" by code_simp
  have r: "in_range sample_store" by code_simp
  have "\<not> cd_InitRequired (sample_def 1) \<longleftrightarrow> False" by (simp add: sample_def_def)
  with a b CommitDefinition_exact [OF sample_store_live r, of "''t2''" "sample_def 1" "''Org1''"]
    CommitDefinition_exact [OF sample_store_live r, of "''t2''" "sample_def 2" "''Org1''"]
  show ?thesis by (auto simp: Let_def split: prod.splits)
qed

subsection \<open>Approval\<close>

lemma approveSequence_frame:
  assumes "st_open s' = st_open s" and "st_committed s' = st_committed s"
  shows "approveSequence ctx (active s' n) def s' = approveSequence ctx (active s n) def s"
proof -
  have "active s' = active s" "db_check ctx s' = db_check ctx s"
    using assms by (simp_all add: fun_eq_iff active_def db_check_def)
  then have "validateNextSequence ctx def s' = validateNextSequence ctx def s"
    by (simp add: validateNextSequence_def GetCommitted_active)
  with \<open>active s' = active s\<close> show ?thesis by (simp only: approveSequence_def)
qed

text \<open>A successful approval can be read back, makes the definition ready for commit by that
  organization, and approving the same binding again returns it without touching the store.\<close>

theorem ApproveForMyOrg_recorded:
  assumes "ApproveForMyOrg ctx now def packageID msp s = (Inr a, s')"
  shows "GetApproval None def msp s' = Inr (Some a) \<and> HasMatchingApproval None def msp s' = Inr True \<and>
    ApproveForMyOrg None now' def packageID msp s' = (Inr a, s')"
proof -
  note ok = ApproveForMyOrg_success [OF assms]
  obtain pkg where pkg: "tbl_get ip_PackageID packageID (st_installed s) = Some pkg" using ok(7) by blast
  have a: "approval_of s' (cd_Name def) (cd_Sequence def) msp = Some a \<and> ad_Definition a = def \<and> ad_PackageID a = packageID"
    using ok(7) by (auto simp: approvalReused_Some approval_of_written [OF pkg] pkg)
  have same: "st_open s' = st_open s" "st_installed s' = st_installed s" "st_committed s' = st_committed s"
    using ok(7) by auto
  have "approveSequence None (active s' (cd_Name def)) def s' = Inr ()"
    using ok(5,6) approveSequence_frame [OF same(1,3)] by simp
  moreover have "GetInstalled None packageID s' = Inr (Some pkg)"
    using ok pkg same by (simp add: GetInstalled_Some)
  moreover have get: "GetApproval None def msp s' = Inr (Some a)"
    using ok(1,4) a same by (simp add: GetApproval_of valid_definition_def del: validateDefinition_ok)
  moreover have "approvalReused (Some a) def packageID = Some a" using a by (simp add: approvalReused_Some)
  moreover have "GetCommitted None (cd_Name def) s' = Inr (active s' (cd_Name def))"
    using ok(1,4) same by (simp add: GetCommitted_active valid_definition_def)
  ultimately have "ApproveForMyOrg None now' def packageID msp s' = (Inr a, s')"
    using ok(1,2,3) by (simp add: ApproveForMyOrg_def valid_definition_def del: validateDefinition_ok)
  then show ?thesis using get a ok(1,4) same by (simp add: HasMatchingApproval_True)
qed

theorem ApproveForMyOrg_recorded_witness:
  "HasMatchingApproval None (sample_def 1) ''Org2''
     (snd (ApproveForMyOrg None ''t5'' (sample_def 1) ''basic:1'' ''Org2'' sample_committed)) = Inr True"
proof -
  let ?r = "ApproveForMyOrg None ''t5'' (sample_def 1) ''basic:1'' ''Org2'' sample_committed"
  have "fst ?r = Inr \<lparr>ad_Definition = sample_def 1, ad_PackageID = ''basic:1'',
      ad_ApprovingMSP = ''Org2'', ad_ApprovedAt = ''t5'', ad_PackageAddress = ''h:1''\<rparr>" by code_simp
  from ApproveForMyOrg_recorded [OF prod_eqI [of ?r "(_, snd ?r)"], simplified, OF this]
  show ?thesis by simp
qed

text \<open>An approval leaves every other binding alone, those of other sequences, names and organizations
  included, and when it changes a binding no connection cached for that binding survives while every
  other cached connection does.\<close>

theorem ApproveForMyOrg_frame:
  assumes "ApproveForMyOrg ctx now def packageID msp s = (Inr a, s')"
  shows "(\<forall>n q m. (n, q, m) \<noteq> (cd_Name def, cd_Sequence def, msp) \<longrightarrow> approval_of s' n q m = approval_of s n q m) \<and>
    (approval_of s' (cd_Name def) (cd_Sequence def) msp \<noteq> approval_of s (cd_Name def) (cd_Sequence def) msp \<longrightarrow>
     tbl_get resolved_key (msp, cd_Name def, cd_Sequence def) (st_resolved s') = None) \<and>
    (\<forall>k. k \<noteq> (msp, cd_Name def, cd_Sequence def) \<longrightarrow>
     tbl_get resolved_key k (st_resolved s') = tbl_get resolved_key k (st_resolved s))"
proof -
  note ok = ApproveForMyOrg_success [OF assms]
  obtain pkg where pkg: "tbl_get ip_PackageID packageID (st_installed s) = Some pkg" using ok(7) by blast
  show ?thesis using ok(7) by (auto simp: approval_of_written [OF pkg] tbl_get_filter)
qed

theorem ApproveForMyOrg_frame_witness:
  "approval_of (snd (ApproveForMyOrg None ''t5'' (sample_def 1) ''basic:1'' ''Org2'' sample_committed)) ''basic'' 1 ''Org1''
     = approval_of sample_committed ''basic'' 1 ''Org1''"
proof -
  let ?r = "ApproveForMyOrg None ''t5'' (sample_def 1) ''basic:1'' ''Org2'' sample_committed"
  have "fst ?r = Inr \<lparr>ad_Definition = sample_def 1, ad_PackageID = ''basic:1'',
      ad_ApprovingMSP = ''Org2'', ad_ApprovedAt = ''t5'', ad_PackageAddress = ''h:1''\<rparr>" by code_simp
  from ApproveForMyOrg_frame [OF prod_eqI [of ?r "(_, snd ?r)"], simplified, OF this]
  show ?thesis by (auto simp: sample_def_def)
qed

subsection \<open>Resolution\<close>

lemma ListCommitted_active:
  assumes "store_inv s" and "ListCommitted ctx name version s = Inr cs" and "c \<in> set cs"
  shows "active s (cd_Name (cm_Definition c)) = Some c" and "valid_definition (cm_Definition c)"
    and "name \<noteq> [] \<Longrightarrow> cd_Name (cm_Definition c) = name"
proof -
  obtain r where r: "r \<in> set (st_committed s)" "c = scanCommitted r" "name \<noteq> [] \<Longrightarrow> cr_name r = name"
    using assms(2,3) by (auto simp: ListCommitted_def rbind_Inr_iff)
  then have "tbl_get cr_name (cr_name r) (st_committed s) = Some r" "committed_ok r"
    using assms(1) by (auto simp: store_inv_def intro: tbl_get_mem)
  with r show "active s (cd_Name (cm_Definition c)) = Some c" "valid_definition (cm_Definition c)"
    "name \<noteq> [] \<Longrightarrow> cd_Name (cm_Definition c) = name"
    by (auto simp: active_def scanCommitted_def valid_definition_def committed_ok_def)
qed

lemma approval_installed:
  "approval_of s n q m = Some a \<Longrightarrow> \<exists>p. tbl_get ip_PackageID (ad_PackageID a) (st_installed s) = Some p \<and>
     ad_PackageAddress a = ip_Address p"
  by (auto simp: approval_of_def scanApproval_def split: option.splits)

text \<open>A resolved package is the installed package this organization approved for exactly the active
  definition, and in a well formed store an approved package is never missing.\<close>

theorem ResolveCommittedPackage_sound:
  assumes "store_inv s"
  shows "(ResolveCommittedPackage ctx name msp s = Inr (Some (c, p)) \<longrightarrow>
      active s (cd_Name (cm_Definition c)) = Some c \<and> (name \<noteq> [] \<longrightarrow> cd_Name (cm_Definition c) = name) \<and>
      (\<exists>a. approval_of s (cd_Name (cm_Definition c)) (cd_Sequence (cm_Definition c)) msp = Some a \<and>
        ad_Definition a = cm_Definition c \<and> ip_PackageID p = ad_PackageID a \<and>
        tbl_get ip_PackageID (ad_PackageID a) (st_installed s) = Some p)) \<and>
    ResolveCommittedPackage ctx name msp s \<noteq> Inl (ApprovedPackageGone gone)"
proof (cases "ListCommitted ctx name [] s")
  case (Inr cs)
  then have db: "db_check ctx s = Inr ()" by (auto simp: ListCommitted_def rbind_Inr_iff)
  show ?thesis
  proof (cases cs)
    case (Cons c1 rest)
    note c1 = ListCommitted_active [OF assms Inr, of c1, simplified Cons, simplified]
    have app: "GetApproval ctx (cm_Definition c1) msp s =
        Inr (approval_of s (cd_Name (cm_Definition c1)) (cd_Sequence (cm_Definition c1)) msp)"
      using c1(2) db by (simp add: GetApproval_of valid_definition_def del: validateDefinition_ok db_check_ok)
    have pkgs: "ad_PackageID a \<noteq> []" if "approval_of s n q m = Some a" for n q m a
      using approval_installed [OF that] assms by (auto simp: store_inv_def dest: tbl_get_Some)
    show ?thesis
      using c1 db by (auto simp: ResolveCommittedPackage_def Inr Cons app Let_def rbind_Inr_iff rbind_Inl_iff
          GetInstalled_def pkgs simp del: db_check_ok split: option.splits if_splits
          dest: approval_installed tbl_get_Some)
  qed (simp add: ResolveCommittedPackage_def Inr)
qed (auto simp: ResolveCommittedPackage_def ListCommitted_def rbind_Inl_iff db_check_def split: option.splits if_splits)

theorem ResolveCommittedPackage_sound_witness:
  "ResolveCommittedPackage None ''basic'' ''Org1'' sample_committed = Inr (Some
     (\<lparr>cm_Definition = sample_def 1, cm_CommittedAt = ''t2'', cm_Initialized = False\<rparr>, sample_package)) \<and>
   (\<exists>a. approval_of sample_committed ''basic'' 1 ''Org1'' = Some a \<and> ad_PackageID a = ''basic:1'')"
proof -
  have "ResolveCommittedPackage None ''basic'' ''Org1'' sample_committed = Inr (Some
     (\<lparr>cm_Definition = sample_def 1, cm_CommittedAt = ''t2'', cm_Initialized = False\<rparr>, sample_package))"
    by code_simp
  moreover have "store_inv sample_committed" using sample_committed_live by (simp add: live_def)
  ultimately show ?thesis
    using ResolveCommittedPackage_sound [of sample_committed None "''basic''" "''Org1''"]
    by (fastforce simp: sample_def_def sample_package_def)
qed

subsection \<open>Connections and initialization\<close>

lemma resolved_merged:
  assumes "resolved_key x = resolved_key r" and "upd_resolved x r = Some y"
  shows "y = r"
  using assms by (auto simp: upd_resolved_def resolved_key_def)

text \<open>a cached connection is read back for the definition it was cached for, with the defaults filled
  in, and a definition of another version at that sequence does not see it.\<close>

theorem PutResolvedConnection_get:
  assumes "PutResolvedConnection ctx now conn s = (Inr stored, s')"
    and "cd_Name def = rc_Name conn" and "cd_Sequence def = rc_Sequence conn" and "cd_Version def \<noteq> []"
  shows "GetResolvedConnection None (rc_MSPID conn) def s' =
    Inr (if cd_Version def = rc_Version conn then Some stored else None) \<and>
    rc_Address stored = rc_Address conn \<and> rc_TLSMode stored \<noteq> []"
proof -
  have stored: "resolved_key stored = (rc_MSPID conn, rc_Name conn, rc_Sequence conn)"
    "rc_Version stored = rc_Version conn" "st_open s" "rc_MSPID conn \<noteq> []" "rc_Name conn \<noteq> []"
    "0 < rc_Sequence conn"
    "s' = s\<lparr>st_resolved := tbl_upsert resolved_key upd_resolved stored (st_resolved s)\<rparr>"
    and r: "rc_Address stored = rc_Address conn" "rc_TLSMode stored \<noteq> []"
    using assms(1) by (auto simp: PutResolvedConnection_def Let_def resolved_key_def split: if_splits sum.splits)
  have "tbl_get resolved_key (resolved_key stored) (st_resolved s') = Some stored"
    unfolding stored(7) using resolved_merged
    by (auto simp: resolved_tbl.get_upsert resolved_tbl.merged_def upd_resolved_def dest!: tbl_get_Some split: option.splits)
  with stored assms r show ?thesis
    by (simp add: GetResolvedConnection_def rbind_def split: sum.split) (auto simp: validateDefinition_def)
qed

theorem PutResolvedConnection_get_witness:
  "\<exists>stored. GetResolvedConnection None ''Org1'' (sample_def 1)
     (snd (PutResolvedConnection None ''t6'' \<lparr>rc_MSPID = ''Org1'', rc_Name = ''basic'', rc_Version = ''1.0'',
        rc_Sequence = 1, rc_Address = ''h:1'', rc_TLSMode = [], rc_PackageID = ''basic:1'', rc_CachedAt = []\<rparr>
        sample_committed)) = Inr (Some stored) \<and> rc_Address stored = ''h:1''"
proof -
  let ?conn = "\<lparr>rc_MSPID = ''Org1'', rc_Name = ''basic'', rc_Version = ''1.0'',
        rc_Sequence = 1, rc_Address = ''h:1'', rc_TLSMode = [], rc_PackageID = ''basic:1'', rc_CachedAt = []\<rparr>"
  let ?r = "PutResolvedConnection None ''t6'' ?conn sample_committed"
  have "fst ?r = Inr (?conn\<lparr>rc_TLSMode := ''none'', rc_CachedAt := ''t6''\<rparr>)" by code_simp
  from PutResolvedConnection_get [OF prod_eqI [of ?r "(_, snd ?r)"], simplified, OF this, of "sample_def 1"]
  show ?thesis by (simp add: sample_def_def)
qed

text \<open>marking the active definition initialized sets the flag of exactly that name, needs a definition
  that requires init and equals the active one, and a second call changes nothing.\<close>

theorem MarkInitialized_effect:
  assumes "live s" and "MarkInitialized None now def msp s = (Inr c, s')"
  shows "cm_Definition c = def \<and> cd_InitRequired def \<and> cm_Initialized c \<and>
    active s' = (active s)(cd_Name def \<mapsto> c) \<and> MarkInitialized None now' def msp' s' = (Inr c, s')"
proof -
  have v: "valid_definition def" and opened: "st_open s" and inv: "store_inv s"
    using assms by (auto simp: MarkInitialized_def valid_definition_def live_def split: sum.splits)
  then have get: "GetCommitted None (cd_Name def) s = Inr (active s (cd_Name def))"
    by (simp add: GetCommitted_active valid_definition_def)
  obtain c0 where c0: "active s (cd_Name def) = Some c0" "cm_Definition c0 = def" "cd_InitRequired def"
    and res: "c = (if cm_Initialized c0 then c0 else c0\<lparr>cm_Initialized := True, cm_CommittedAt := now\<rparr>)"
      "s' = (if cm_Initialized c0 then s else s\<lparr>st_committed := map (mark_row now def) (st_committed s)\<rparr>)"
    using assms(2) get by (auto simp: MarkInitialized_def split: sum.splits option.splits if_splits)
  have act: "active s' = (active s)(cd_Name def \<mapsto> c)"
  proof (cases "cm_Initialized c0")
    case True
    then show ?thesis using c0 res by (simp add: fun_upd_idem)
  next
    case False
    have req: "def\<lparr>cd_InitRequired := True\<rparr> = def" using c0(3) by (cases def) simp
    show ?thesis
    proof
      fix n
      show "active s' n = ((active s)(cd_Name def \<mapsto> c)) n"
      proof (cases "n = cd_Name def")
        case True
        with False c0 res show ?thesis by (simp add: active_mark [OF inv] req)
      next
        case other: False
        then have "active s n = Some d \<Longrightarrow> cm_Definition d \<noteq> def" for d using active_name [of s n d] by auto
        with False other res show ?thesis by (simp add: active_mark [OF inv] req split: option.split)
      qed
    qed
  qed
  then have "GetCommitted None (cd_Name def) s' = Inr (Some c)"
    using v opened res by (simp add: GetCommitted_active valid_definition_def)
  then have "MarkInitialized None now' def msp' s' = (Inr c, s')"
    using v c0 res by (auto simp: MarkInitialized_def valid_definition_def simp del: validateDefinition_ok)
  with act c0 res show ?thesis by auto
qed

theorem MarkInitialized_effect_witness:
  "active (snd (MarkInitialized None ''t7'' (sample_def 1) ''Org1'' sample_committed)) ''basic'' =
     Some \<lparr>cm_Definition = sample_def 1, cm_CommittedAt = ''t7'', cm_Initialized = True\<rparr>"
proof -
  let ?r = "MarkInitialized None ''t7'' (sample_def 1) ''Org1'' sample_committed"
  have "fst ?r = Inr \<lparr>cm_Definition = sample_def 1, cm_CommittedAt = ''t7'', cm_Initialized = True\<rparr>"
    by code_simp
  from MarkInitialized_effect [OF sample_committed_live prod_eqI [of ?r "(_, snd ?r)"], simplified, OF this]
  show ?thesis by (simp add: sample_def_def)
qed

subsection \<open>Hydration from the ledger\<close>

text \<open>C6: hydrating one ledger record merges it into the active definitions the way the mirror
  specification says: newest sequence wins, initialization only rises, other names stay.\<close>

theorem UpsertCommittedFromLedger_refines:
  assumes "live s" and "valid_definition def"
  shows "definition_of (snd (UpsertCommittedFromLedger None now def initialized s)) =
    (definition_of s)(cd_Name def := ledger_join cd_Sequence (def, initialized) (definition_of s (cd_Name def)))"
  using definition_of_ledger [OF assms] by (auto simp: fun_eq_iff)

theorem UpsertCommittedFromLedger_refines_witness:
  "definition_of (snd (UpsertCommittedFromLedger None ''t8'' (sample_def 3) True sample_committed)) ''basic'' =
     Some (sample_def 3, True)"
proof -
  have "valid_definition (sample_def 3)" by code_simp
  moreover have "definition_of sample_committed ''basic'' = Some (sample_def 1, False)" by code_simp
  ultimately show ?thesis
    using UpsertCommittedFromLedger_refines [OF sample_committed_live, of "sample_def 3"]
    by (simp add: sample_def_def ledger_join_def)
qed

text \<open>C5: hydrating the same consistent ledger records in any order leaves the
  same active definitions, and each name ends with a sequence at least that of every record seen.\<close>

theorem hydration_order_irrelevant:
  assumes "live s" and "\<And>r. r \<in> set recs \<Longrightarrow> valid_definition (fst r)"
    and "consistent cd_Name cd_Sequence recs" and "mset recs = mset recs'"
  shows "definition_of (fold (\<lambda>r s. snd (UpsertCommittedFromLedger None now (fst r) (snd r) s)) recs s) =
      definition_of (fold (\<lambda>r s. snd (UpsertCommittedFromLedger None now (fst r) (snd r) s)) recs' s) \<and>
    (\<forall>r \<in> set recs. \<exists>c. definition_of (fold (\<lambda>r s. snd (UpsertCommittedFromLedger None now (fst r) (snd r) s))
        recs' s) (cd_Name (fst r)) = Some c \<and> cd_Sequence (fst r) \<le> cd_Sequence (fst c))"
proof -
  have same: "definition_of (store_mirror.hydrate now recs s) = definition_of (store_mirror.hydrate now recs' s)"
    using store_mirror.hydrate_order [OF assms] by (simp add: fun_eq_iff)
  have "\<exists>c. definition_of (store_mirror.hydrate now recs s) (cd_Name (fst r)) = Some c \<and>
      cd_Sequence (fst r) \<le> cd_Sequence (fst c)" if "r \<in> set recs" for r
    using store_mirror.hydrate_above [OF assms(1,2) that] .
  with same show ?thesis by (simp add: store_mirror.hydrate_def)
qed

theorem hydration_order_irrelevant_witness:
  "definition_of (fold (\<lambda>r s. snd (UpsertCommittedFromLedger None ''t'' (fst r) (snd r) s))
      [(sample_def 2, False), (sample_def 1, True), (sample_def 2, True)] sample_committed) =
   definition_of (fold (\<lambda>r s. snd (UpsertCommittedFromLedger None ''t'' (fst r) (snd r) s))
      [(sample_def 1, True), (sample_def 2, True), (sample_def 2, False)] sample_committed)"
proof -
  have "valid_definition (fst r)" if "r \<in> set [(sample_def 2, False), (sample_def 1, True), (sample_def 2, True)]" for r
    using that by (auto simp: valid_definition_def sample_def_def)
  moreover have "consistent cd_Name cd_Sequence [(sample_def 2, False), (sample_def 1, True), (sample_def 2, True)]"
    by code_simp
  ultimately show ?thesis
    using hydration_order_irrelevant [OF sample_committed_live,
        of "[(sample_def 2, False), (sample_def 1, True), (sample_def 2, True)]"
           "[(sample_def 1, True), (sample_def 2, True), (sample_def 2, False)]"]
    by simp
qed

end
