(* ===== verification/Go_Strconv.thy ===== *)
theory Go_Strconv
  imports Prelude
begin

section \<open>Text conversions of the Go standard library\<close>

text \<open>
  The conversions the lifecycle code applies to keys and values: decimal numbers
  (\<^verbatim>\<open>strconv.FormatUint\<close>, \<^verbatim>\<open>strconv.ParseUint\<close> and the zero padded \<^verbatim>\<open>%020d\<close>), path escaping
  (\<^verbatim>\<open>url.PathEscape\<close>) and standard base64.  Each encoder has a decoder it round trips with, which the
  locale \<open>codec\<close> turns into injectivity.
\<close>

locale codec =
  fixes ok :: "'a \<Rightarrow> bool"
    and enc :: "'a \<Rightarrow> 'b"
    and dec :: "'b \<Rightarrow> 'a option"
  assumes dec_enc: "ok x \<Longrightarrow> dec (enc x) = Some x"
begin

lemma enc_inj: "ok x \<Longrightarrow> ok y \<Longrightarrow> enc x = enc y \<longleftrightarrow> x = y"
  by (metis dec_enc option.inject)

lemma enc_inj_on: "inj_on enc {x. ok x}"
  by (simp add: inj_on_def enc_inj)

end

abbreviation byte :: "char \<Rightarrow> nat" where
  "byte c \<equiv> of_char c"

subsection \<open>Decimal numbers\<close>

datatype strconv_error = ErrSyntax | ErrRange

definition digit_char :: "nat \<Rightarrow> char" where
  "digit_char d = char_of (48 + d)"

definition is_digit :: "char \<Rightarrow> bool" where
  "is_digit c \<longleftrightarrow> 48 \<le> byte c \<and> byte c \<le> 57"

definition digit_val :: "char \<Rightarrow> nat" where
  "digit_val c = byte c - 48"

fun FormatUint :: "nat \<Rightarrow> string" where
  "FormatUint n = (if n < 10 then [digit_char n] else FormatUint (n div 10) @ [digit_char (n mod 10)])"

declare FormatUint.simps [simp del]

fun parseDigits :: "nat \<Rightarrow> nat \<Rightarrow> string \<Rightarrow> strconv_error + nat" where
  "parseDigits limit n [] = Inr n"
| "parseDigits limit n (c # cs) =
     (if \<not> is_digit c then Inl ErrSyntax
      else if limit < 10 * n + digit_val c then Inl ErrRange
      else parseDigits limit (10 * n + digit_val c) cs)"

definition ParseUint :: "nat \<Rightarrow> string \<Rightarrow> strconv_error + nat" where
  "ParseUint limit s = (if s = [] then Inl ErrSyntax else parseDigits limit 0 s)"

definition pad20 :: "nat \<Rightarrow> string" where
  "pad20 n = (let s = FormatUint n in replicate (20 - length s) CHR ''0'' @ s)"

lemma byte_digit_char [simp]: "d < 10 \<Longrightarrow> byte (digit_char d) = 48 + d"
  by (simp add: digit_char_def)

lemma is_digit_char [simp]: "d < 10 \<Longrightarrow> is_digit (digit_char d)"
  by (simp add: is_digit_def)

lemma digit_val_char [simp]: "d < 10 \<Longrightarrow> digit_val (digit_char d) = d"
  by (simp add: digit_val_def)

lemma is_digit_zero [simp]: "is_digit CHR ''0''" "digit_val CHR ''0'' = 0"
  by (simp_all add: is_digit_def digit_val_def)

definition dec_val :: "nat \<Rightarrow> string \<Rightarrow> nat" where
  "dec_val n s = foldl (\<lambda>a c. 10 * a + digit_val c) n s"

lemma dec_val_simps [simp]:
  "dec_val n [] = n"
  "dec_val n (c # cs) = dec_val (10 * n + digit_val c) cs"
  "dec_val n (s @ [c]) = 10 * dec_val n s + digit_val c"
  by (simp_all add: dec_val_def)

lemma dec_val_append: "dec_val n (s @ t) = dec_val (dec_val n s) t"
  by (simp add: dec_val_def)

lemma dec_val_ge: "n \<le> dec_val n s"
proof (induction s arbitrary: n)
  case (Cons c s)
  have "n \<le> 10 * n + digit_val c" by simp
  also have "\<dots> \<le> dec_val n (c # s)" using Cons.IH [of "10 * n + digit_val c"] by simp
  finally show ?case .
qed simp

lemma parseDigits_ok:
  "\<forall>c \<in> set s. is_digit c \<Longrightarrow> dec_val n s \<le> limit \<Longrightarrow> parseDigits limit n s = Inr (dec_val n s)"
proof (induction s arbitrary: n)
  case (Cons c s)
  have "10 * n + digit_val c \<le> limit"
    using dec_val_ge [of "10 * n + digit_val c" s] Cons.prems(2) by simp
  with Cons show ?case by simp
qed simp

lemma FormatUint_digits: "\<forall>c \<in> set (FormatUint n). is_digit c"
proof (induction n rule: FormatUint.induct)
  case (1 n)
  then show ?case by (subst FormatUint.simps) auto
qed

lemma dec_val_Format: "dec_val 0 (FormatUint n) = n"
proof (induction n rule: FormatUint.induct)
  case (1 n)
  then show ?case by (subst FormatUint.simps) auto
qed

lemma FormatUint_nonempty [simp]: "FormatUint n \<noteq> []"
  by (subst FormatUint.simps) simp

lemma Parse_Format: "n \<le> limit \<Longrightarrow> ParseUint limit (FormatUint n) = Inr n"
  by (simp add: ParseUint_def parseDigits_ok FormatUint_digits dec_val_Format)

lemma dec_val_zeros: "dec_val 0 (replicate k CHR ''0'') = 0"
  by (induction k) simp_all

lemma pad20_val: "dec_val 0 (pad20 n) = n"
  by (simp add: pad20_def Let_def dec_val_append dec_val_zeros dec_val_Format)

lemma pad20_inj: "pad20 m = pad20 n \<longleftrightarrow> m = n"
  by (metis pad20_val)

lemma pad20_digits: "\<forall>c \<in> set (pad20 n). is_digit c"
  using FormatUint_digits [of n] by (auto simp: pad20_def Let_def)

lemma pad20_nonempty [simp]: "pad20 n \<noteq> []"
  by (simp add: pad20_def Let_def)

text \<open>Signed numbers, as \<^verbatim>\<open>strconv.FormatInt\<close> and \<^verbatim>\<open>strconv.ParseInt\<close> with 64 bits.\<close>

definition FormatInt :: "int \<Rightarrow> string" where
  "FormatInt x = (if x < 0 then CHR ''-'' # FormatUint (nat (- x)) else FormatUint (nat x))"

definition ParseInt64 :: "string \<Rightarrow> strconv_error + int" where
  "ParseInt64 s = (case s of
       [] \<Rightarrow> Inl ErrSyntax
     | c # cs \<Rightarrow>
         let neg = (c = CHR ''-''); body = (if c = CHR ''-'' \<or> c = CHR ''+'' then cs else s) in
         rbind (ParseUint (2 ^ 64 - 1) body) (\<lambda>un.
           if \<not> neg \<and> un \<ge> 2 ^ 63 then Inl ErrRange
           else if neg \<and> un > 2 ^ 63 then Inl ErrRange
           else Inr (if neg then - int un else int un)))"

lemma Format_head: "\<exists>c cs. FormatUint n = c # cs \<and> is_digit c"
  using FormatUint_digits [of n] FormatUint_nonempty [of n] by (cases "FormatUint n") auto

lemma digit_not_sign: "is_digit c \<Longrightarrow> c \<noteq> CHR ''-'' \<and> c \<noteq> CHR ''+''"
  by (auto simp: is_digit_def)

lemma ParseInt_Format: "is_i64 x \<Longrightarrow> ParseInt64 (FormatInt x) = Inr x"
proof (cases "x < 0")
  case True
  moreover assume "is_i64 x"
  ultimately have "nat (- x) \<le> 2 ^ 63" by (simp add: is_i64_def min_i64_def nat_le_iff)
  then show ?thesis
    using True Parse_Format [of "nat (- x)" "2 ^ 64 - 1"] by (simp add: ParseInt64_def FormatInt_def Let_def)
next
  case False
  moreover assume "is_i64 x"
  ultimately have n: "nat x < 2 ^ 63" by (simp add: is_i64_def max_i64_def nat_less_iff)
  obtain c cs where f: "FormatUint (nat x) = c # cs" "is_digit c" using Format_head by blast
  have "ParseUint (2 ^ 64 - 1) (c # cs) = Inr (nat x)"
    using Parse_Format [of "nat x" "2 ^ 64 - 1"] n f(1) by simp
  then show ?thesis using False n f digit_not_sign [OF f(2)] by (simp add: ParseInt64_def FormatInt_def Let_def)
qed

subsection \<open>Path escaping\<close>

definition unreserved :: "char \<Rightarrow> bool" where
  "unreserved c \<longleftrightarrow> (97 \<le> byte c \<and> byte c \<le> 122) \<or> (65 \<le> byte c \<and> byte c \<le> 90) \<or>
     (48 \<le> byte c \<and> byte c \<le> 57) \<or> c \<in> set ''-_.~'' \<or> c \<in> set ''$&+:=@''"

definition upper_hex :: "nat \<Rightarrow> char" where
  "upper_hex d = (if d < 10 then char_of (48 + d) else char_of (55 + d))"

definition escape_byte :: "char \<Rightarrow> string" where
  "escape_byte c = (if unreserved c then [c]
     else [CHR ''%'', upper_hex (byte c div 16), upper_hex (byte c mod 16)])"

definition PathEscape :: "string \<Rightarrow> string" where
  "PathEscape s = concat (map escape_byte s)"

definition unhex :: "char \<Rightarrow> nat" where
  "unhex c = (if byte c < 58 then byte c - 48 else byte c - 55)"

fun PathUnescape :: "string \<Rightarrow> string option" where
  "PathUnescape [] = Some []"
| "PathUnescape (c # cs) =
     (if c = CHR ''%'' then
        (case cs of h # l # rest \<Rightarrow> map_option ((#) (char_of (16 * unhex h + unhex l))) (PathUnescape rest)
         | _ \<Rightarrow> None)
      else map_option ((#) c) (PathUnescape cs))"

lemma unhex_upper [simp]: "d < 16 \<Longrightarrow> unhex (upper_hex d) = d"
  by (simp add: unhex_def upper_hex_def)

lemma char_of_nibbles: "char_of (16 * (byte c div 16) + byte c mod 16) = c"
  by simp

lemma PathUnescape_step: "PathUnescape (escape_byte c @ s) = map_option ((#) c) (PathUnescape s)"
proof (cases "unreserved c")
  case True
  then have "c \<noteq> CHR ''%''" by (auto simp: unreserved_def)
  with True show ?thesis by (simp add: escape_byte_def)
next
  case False
  have "byte c div 16 < 16" by (simp add: less_mult_imp_div_less)
  with False show ?thesis by (simp add: escape_byte_def)
qed

lemma PathUnescape_PathEscape: "PathUnescape (PathEscape s) = Some s"
  by (induction s) (simp_all add: PathEscape_def PathUnescape_step)

interpretation path_codec: codec "\<lambda>_. True" PathEscape PathUnescape
  by unfold_locales (rule PathUnescape_PathEscape)

lemma upper_hex_not_slash: "d < 16 \<Longrightarrow> upper_hex d \<noteq> CHR ''/''"
proof -
  assume d: "d < 16"
  have "byte (upper_hex d) \<noteq> 47" using d by (simp add: upper_hex_def)
  then show ?thesis by auto
qed

lemma PathEscape_no_slash: "CHR ''/'' \<notin> set (PathEscape s)"
proof -
  have "CHR ''/'' \<notin> set (escape_byte c)" for c
  proof (cases "unreserved c")
    case True
    then show ?thesis by (auto simp: escape_byte_def unreserved_def)
  next
    case False
    have "byte c div 16 < 16" by (simp add: less_mult_imp_div_less)
    with False show ?thesis
      using upper_hex_not_slash [of "byte c div 16"] upper_hex_not_slash [of "byte c mod 16"]
      by (auto simp: escape_byte_def)
  qed
  then show ?thesis by (auto simp: PathEscape_def)
qed

lemma split_at_slash:
  "CHR ''/'' \<notin> set a \<Longrightarrow> CHR ''/'' \<notin> set b \<Longrightarrow>
     a @ CHR ''/'' # x = b @ CHR ''/'' # y \<longleftrightarrow> a = b \<and> x = y"
  by (induction a arbitrary: b) (case_tac b; auto)+

subsection \<open>Base64\<close>

definition b64_char :: "nat \<Rightarrow> char" where
  "b64_char d = (if d < 26 then char_of (65 + d) else if d < 52 then char_of (71 + d)
     else if d < 62 then char_of (d - 4) else if d = 62 then CHR ''+'' else CHR ''/'')"

definition b64_val :: "char \<Rightarrow> nat option" where
  "b64_val c = (let b = byte c in
     if 65 \<le> b \<and> b \<le> 90 then Some (b - 65) else if 97 \<le> b \<and> b \<le> 122 then Some (b - 71)
     else if 48 \<le> b \<and> b \<le> 57 then Some (b + 4) else if b = 43 then Some 62
     else if b = 47 then Some 63 else None)"

fun b64_encode :: "bytes \<Rightarrow> string" where
  "b64_encode [] = []"
| "b64_encode [a] = [b64_char (byte a div 4), b64_char (byte a mod 4 * 16), CHR ''='', CHR ''='']"
| "b64_encode [a, b] = [b64_char (byte a div 4), b64_char (byte a mod 4 * 16 + byte b div 16),
     b64_char (byte b mod 16 * 4), CHR ''='']"
| "b64_encode (a # b # c # rest) =
     b64_char (byte a div 4) # b64_char (byte a mod 4 * 16 + byte b div 16) #
     b64_char (byte b mod 16 * 4 + byte c div 64) # b64_char (byte c mod 64) # b64_encode rest"

text \<open>One group of four characters; padding is only allowed at the end of the text.\<close>

definition b64_group :: "char \<Rightarrow> char \<Rightarrow> char \<Rightarrow> char \<Rightarrow> bool \<Rightarrow> bytes option" where
  "b64_group p q r s final =
     (case (b64_val p, b64_val q) of
        (Some x, Some y) \<Rightarrow>
          (if r = CHR ''='' \<and> s = CHR ''='' \<and> final then Some [char_of (x * 4 + y div 16)]
           else (case b64_val r of
              Some z \<Rightarrow>
                (if s = CHR ''='' \<and> final
                 then Some [char_of (x * 4 + y div 16), char_of (y mod 16 * 16 + z div 4)]
                 else (case b64_val s of
                    Some w \<Rightarrow> Some [char_of (x * 4 + y div 16), char_of (y mod 16 * 16 + z div 4),
                                   char_of (z mod 4 * 64 + w)]
                  | None \<Rightarrow> None))
            | None \<Rightarrow> None))
      | _ \<Rightarrow> None)"

fun b64_groups :: "string \<Rightarrow> bytes option" where
  "b64_groups [] = Some []"
| "b64_groups (p # q # r # s # rest) =
     (case b64_group p q r s (rest = []) of
        Some bs \<Rightarrow> map_option (append bs) (b64_groups rest)
      | None \<Rightarrow> None)"
| "b64_groups _ = None"

text \<open>The decoder skips line breaks.\<close>

definition b64_decode :: "string \<Rightarrow> bytes option" where
  "b64_decode s = b64_groups (filter (\<lambda>c. byte c \<noteq> 10 \<and> byte c \<noteq> 13) s)"

lemma b64_val_char [simp]: "d < 64 \<Longrightarrow> b64_val (b64_char d) = Some d"
  by (simp add: b64_val_def b64_char_def Let_def) linarith

lemma b64_char_ne [simp]: "d < 64 \<Longrightarrow> b64_char d \<noteq> CHR ''=''"
  using b64_val_char [of d] by (auto simp: b64_val_def)

lemma b64_char_line [simp]: "d < 64 \<Longrightarrow> byte (b64_char d) \<noteq> 10 \<and> byte (b64_char d) \<noteq> 13"
  using b64_val_char [of d] by (auto simp: b64_val_def Let_def)

lemma b64_bounds [simp]:
  "byte a div 4 < 64" "byte a mod 4 * 16 < 64" "byte a mod 4 * 16 + byte b div 16 < 64"
  "byte b mod 16 * 4 < 64" "byte b mod 16 * 4 + byte c div 64 < 64" "byte c mod 64 < 64"
  using nat_of_char_less_256 [of a] nat_of_char_less_256 [of b] nat_of_char_less_256 [of c]
  by linarith+

lemma b64_norm [simp]:
  "byte b div 16 mod 16 = byte b div 16" "byte b div 16 div 16 = 0"
  "byte c div 64 mod 4 = byte c div 64" "byte c div 64 div 4 = 0"
proof -
  have b: "byte b div 16 < 16" and c: "byte c div 64 < 4" by (simp_all add: less_mult_imp_div_less)
  then show "byte b div 16 mod 16 = byte b div 16" "byte b div 16 div 16 = 0"
    "byte c div 64 mod 4 = byte c div 64" "byte c div 64 div 4 = 0" by (simp_all only: mod_less div_less)
qed

lemma b64_groups_encode: "b64_groups (b64_encode s) = Some s"
proof (induction s rule: b64_encode.induct)
  case (4 a b c rest)
  then show ?case by (simp add: b64_group_def)
qed (simp_all add: b64_group_def)

lemma b64_encode_lines: "filter (\<lambda>c. byte c \<noteq> 10 \<and> byte c \<noteq> 13) (b64_encode s) = b64_encode s"
  by (induction s rule: b64_encode.induct) simp_all

lemma b64_decode_encode [simp]: "b64_decode (b64_encode s) = Some s"
  by (simp add: b64_decode_def b64_encode_lines b64_groups_encode)

interpretation b64_codec: codec "\<lambda>_. True" b64_encode b64_decode
  by unfold_locales simp

text \<open>The alphabet needs no escaping in a JSON string.\<close>

lemma b64_encode_alphabet: "c \<in> set (b64_encode s) \<Longrightarrow> c = CHR ''='' \<or> (\<exists>d < 64. c = b64_char d)"
  by (induction s rule: b64_encode.induct) (auto intro: b64_bounds)

end
