(* ===== verification/Go_Json.thy ===== *)
theory Go_Json
  imports Go_Strconv
begin

section \<open>JSON text as \<^verbatim>\<open>encoding/json\<close> reads and writes it\<close>

text \<open>
  Ledger records, signed requests and request payloads are JSON.  \<open>jprint\<close> is the compact output of
  \<^verbatim>\<open>json.Marshal\<close> with its escapes (HTML characters, control characters, the two line separators and the
  replacement of invalid UTF-8); \<open>jparse\<close> is the reader, with white space, all escapes, surrogate pairs
  and the same UTF-8 repair.  Numbers keep their literal, as the decoder converts it only when it
  knows the type of the field.  The parser's fuel is the length of the text, which bounds its
  recursion because every nested call has consumed a character.  \<open>decode_struct\<close> assigns the members
  of an object to the fields of a struct: unknown keys and nulls are skipped, a repeated key
  overwrites, a key matches a tag exactly or after case folding, a value of another type is an error.
\<close>

datatype json =
    JNull | JBool bool | JNum string | JStr string | JArr jsons | JObj members
  and jsons = ENil | ECons json jsons
  and members = MNil | MCons string json members

abbreviation quote_char :: char where "quote_char \<equiv> CHR 0x22"
abbreviation backslash :: char where "backslash \<equiv> CHR 0x5C"

subsection \<open>UTF-8\<close>

definition between :: "nat \<Rightarrow> char \<Rightarrow> nat \<Rightarrow> bool" where
  "between lo c hi \<longleftrightarrow> lo \<le> byte c \<and> byte c \<le> hi"

definition rune2 :: "char \<Rightarrow> char \<Rightarrow> bool" where
  "rune2 c x \<longleftrightarrow> between 194 c 223 \<and> between 128 x 191"

definition rune3 :: "char \<Rightarrow> char \<Rightarrow> char \<Rightarrow> bool" where
  "rune3 c x y \<longleftrightarrow> between 224 c 239 \<and>
     between (if byte c = 224 then 160 else 128) x (if byte c = 237 then 159 else 191) \<and> between 128 y 191"

definition rune4 :: "char \<Rightarrow> char \<Rightarrow> char \<Rightarrow> char \<Rightarrow> bool" where
  "rune4 c x y z \<longleftrightarrow> between 240 c 244 \<and>
     between (if byte c = 240 then 144 else 128) x (if byte c = 244 then 143 else 191) \<and>
     between 128 y 191 \<and> between 128 z 191"

text \<open>The length of the first rune, 0 when it is not valid UTF-8.\<close>

fun rune_len :: "string \<Rightarrow> nat" where
  "rune_len [] = 0"
| "rune_len (c # cs) =
     (if byte c < 128 then 1 else case cs of [] \<Rightarrow> 0
      | x # xs \<Rightarrow> if rune2 c x then 2 else (case xs of [] \<Rightarrow> 0
      | y # ys \<Rightarrow> if rune3 c x y then 3 else (case ys of [] \<Rightarrow> 0
      | z # _ \<Rightarrow> if rune4 c x y z then 4 else 0)))"

function utf8_ok :: "string \<Rightarrow> bool" where
  "utf8_ok [] = True"
| "utf8_ok (c # cs) = (let n = rune_len (c # cs) in 0 < n \<and> utf8_ok (drop (n - 1) cs))"
  by pat_completeness auto
termination by (relation "measure length") auto

definition utf8_encode :: "nat \<Rightarrow> string" where
  "utf8_encode r =
     (if r < 128 then [char_of r]
      else if r < 2048 then [char_of (192 + r div 64), char_of (128 + r mod 64)]
      else if r < 65536 then [char_of (224 + r div 4096), char_of (128 + r div 64 mod 64), char_of (128 + r mod 64)]
      else [char_of (240 + r div 262144), char_of (128 + r div 4096 mod 64),
            char_of (128 + r div 64 mod 64), char_of (128 + r mod 64)])"

definition replacement :: string where
  "replacement = utf8_encode 65533"

subsection \<open>Strings\<close>

definition lower_hex :: "nat \<Rightarrow> char" where
  "lower_hex d = (if d < 10 then char_of (48 + d) else char_of (87 + d))"

definition hex_val :: "char \<Rightarrow> nat option" where
  "hex_val c = (if between 48 c 57 then Some (byte c - 48) else if between 97 c 102 then Some (byte c - 87)
     else if between 65 c 70 then Some (byte c - 55) else None)"

definition esc_ascii :: "char \<Rightarrow> string" where
  "esc_ascii c = (let b = byte c in
     if b = 34 \<or> b = 92 then [backslash, c]
     else if b = 8 then [backslash, CHR ''b''] else if b = 12 then [backslash, CHR ''f'']
     else if b = 10 then [backslash, CHR ''n''] else if b = 13 then [backslash, CHR ''r'']
     else if b = 9 then [backslash, CHR ''t'']
     else if b < 32 \<or> b = 60 \<or> b = 62 \<or> b = 38
     then [backslash, CHR ''u'', CHR ''0'', CHR ''0'', lower_hex (b div 16), lower_hex (b mod 16)]
     else [c])"

definition line_separator :: "string \<Rightarrow> bool" where
  "line_separator s \<longleftrightarrow> map byte (take 3 s) = [226, 128, 168] \<or> map byte (take 3 s) = [226, 128, 169]"

function json_quote :: "string \<Rightarrow> string" where
  "json_quote [] = []"
| "json_quote (c # cs) = (let n = rune_len (c # cs) in
     if n = 0 then backslash # ''ufffd'' @ json_quote cs
     else if n = 1 then esc_ascii c @ json_quote cs
     else if line_separator (c # cs)
     then backslash # ''u202'' @ [lower_hex (byte (cs ! 1) - 160)] @ json_quote (drop (n - 1) cs)
     else take n (c # cs) @ json_quote (drop (n - 1) cs))"
  by pat_completeness auto
termination by (relation "measure length") auto

definition u4 :: "string \<Rightarrow> nat option" where
  "u4 s = (case s of a # b # c # d # _ \<Rightarrow>
       (case (hex_val a, hex_val b, hex_val c, hex_val d) of
          (Some w, Some x, Some y, Some z) \<Rightarrow> Some (4096 * w + 256 * x + 16 * y + z)
        | _ \<Rightarrow> None)
     | _ \<Rightarrow> None)"

text \<open>The low half of a surrogate pair that follows an escaped high half.\<close>

definition low_surrogate :: "nat \<Rightarrow> string \<Rightarrow> nat option" where
  "low_surrogate hi s = (case s of a # b # rest \<Rightarrow>
       (if a = backslash \<and> b = CHR ''u'' then
          (case u4 rest of Some lo \<Rightarrow>
             (if 55296 \<le> hi \<and> hi < 56320 \<and> 56320 \<le> lo \<and> lo < 57344
              then Some (65536 + (hi - 55296) * 1024 + (lo - 56320)) else None)
           | None \<Rightarrow> None)
        else None)
     | _ \<Rightarrow> None)"

text \<open>What follows a backslash: the bytes it stands for and how many characters it takes.\<close>

definition unescape :: "string \<Rightarrow> (string \<times> nat) option" where
  "unescape s = (case s of [] \<Rightarrow> None | e # rest \<Rightarrow>
     if e \<in> {quote_char, backslash, CHR ''/''} then Some ([e], 1)
     else if e = CHR ''b'' then Some ([CHR 0x08], 1) else if e = CHR ''f'' then Some ([CHR 0x0C], 1)
     else if e = CHR ''n'' then Some ([CHR 0x0A], 1) else if e = CHR ''r'' then Some ([CHR 0x0D], 1)
     else if e = CHR ''t'' then Some ([CHR 0x09], 1)
     else if e = CHR ''u'' then
       (case u4 rest of None \<Rightarrow> None
        | Some r \<Rightarrow>
            (if 55296 \<le> r \<and> r < 57344
             then (case low_surrogate r (drop 4 rest) of
                     Some c \<Rightarrow> Some (utf8_encode c, 11)
                   | None \<Rightarrow> Some (replacement, 5))
             else Some (utf8_encode r, 5)))
     else None)"

function json_unquote :: "string \<Rightarrow> (string \<times> string) option" where
  "json_unquote [] = None"
| "json_unquote (c # cs) =
     (if c = quote_char then Some ([], cs)
      else if c = backslash then
        (case unescape cs of None \<Rightarrow> None
         | Some (out, k) \<Rightarrow> map_option (apfst (append out)) (json_unquote (drop k cs)))
      else if byte c < 32 then None
      else let n = rune_len (c # cs) in
        if n = 0 then map_option (apfst (append replacement)) (json_unquote cs)
        else map_option (apfst (append (take n (c # cs)))) (json_unquote (drop (n - 1) cs)))"
  by pat_completeness auto
termination by (relation "measure length") auto

subsection \<open>Values\<close>

definition is_ws :: "char \<Rightarrow> bool" where
  "is_ws c \<longleftrightarrow> byte c = 32 \<or> byte c = 9 \<or> byte c = 10 \<or> byte c = 13"

definition num_char :: "char \<Rightarrow> bool" where
  "num_char c \<longleftrightarrow> is_digit c \<or> c \<in> set ''+-.eE''"

text \<open>The grammar of number literals.\<close>

definition exp_ok :: "string \<Rightarrow> bool" where
  "exp_ok s = (case s of [] \<Rightarrow> True
     | c # cs \<Rightarrow> (c = CHR ''e'' \<or> c = CHR ''E'') \<and>
         (let ds = (case cs of d # rest \<Rightarrow> if d = CHR ''+'' \<or> d = CHR ''-'' then rest else cs | [] \<Rightarrow> [])
          in ds \<noteq> [] \<and> list_all is_digit ds))"

definition frac_ok :: "string \<Rightarrow> bool" where
  "frac_ok s = (case s of
       c # cs \<Rightarrow> (if c = CHR ''.'' then takeWhile is_digit cs \<noteq> [] \<and> exp_ok (dropWhile is_digit cs) else exp_ok s)
     | [] \<Rightarrow> True)"

definition num_body :: "string \<Rightarrow> bool" where
  "num_body s = (case s of [] \<Rightarrow> False
     | c # cs \<Rightarrow> (if c = CHR ''0'' then frac_ok cs else is_digit c \<and> frac_ok (dropWhile is_digit cs)))"

definition num_ok :: "string \<Rightarrow> bool" where
  "num_ok s = (case s of [] \<Rightarrow> False | c # cs \<Rightarrow> if c = CHR ''-'' then num_body cs else num_body s)"

fun jval :: "nat \<Rightarrow> string \<Rightarrow> (json \<times> string) option"
  and jelems :: "nat \<Rightarrow> string \<Rightarrow> (jsons \<times> string) option"
  and jmembers :: "nat \<Rightarrow> string \<Rightarrow> (members \<times> string) option" where
  "jval 0 s = None"
| "jval (Suc k) s = (case dropWhile is_ws s of [] \<Rightarrow> None | c # cs \<Rightarrow>
     if c = quote_char then map_option (apfst JStr) (json_unquote cs)
     else if c = CHR ''{'' then
       (case dropWhile is_ws cs of [] \<Rightarrow> None | d # ds \<Rightarrow>
          if d = CHR ''}'' then Some (JObj MNil, ds) else map_option (apfst JObj) (jmembers k (d # ds)))
     else if c = CHR ''['' then
       (case dropWhile is_ws cs of [] \<Rightarrow> None | d # ds \<Rightarrow>
          if d = CHR '']'' then Some (JArr ENil, ds) else map_option (apfst JArr) (jelems k (d # ds)))
     else if c = CHR ''n'' then (if take 3 cs = ''ull'' then Some (JNull, drop 3 cs) else None)
     else if c = CHR ''t'' then (if take 3 cs = ''rue'' then Some (JBool True, drop 3 cs) else None)
     else if c = CHR ''f'' then (if take 4 cs = ''alse'' then Some (JBool False, drop 4 cs) else None)
     else let lit = takeWhile num_char (c # cs) in
       if num_ok lit then Some (JNum lit, dropWhile num_char (c # cs)) else None)"
| "jelems 0 s = None"
| "jelems (Suc k) s = (case jval k s of None \<Rightarrow> None | Some (v, r) \<Rightarrow>
     (case dropWhile is_ws r of [] \<Rightarrow> None | d # ds \<Rightarrow>
        if d = CHR '','' then map_option (apfst (ECons v)) (jelems k ds)
        else if d = CHR '']'' then Some (ECons v ENil, ds) else None))"
| "jmembers 0 s = None"
| "jmembers (Suc k) s = (case dropWhile is_ws s of [] \<Rightarrow> None | c # cs \<Rightarrow>
     if c \<noteq> quote_char then None
     else case json_unquote cs of None \<Rightarrow> None | Some (key, r) \<Rightarrow>
       (case dropWhile is_ws r of [] \<Rightarrow> None | d # ds \<Rightarrow>
          if d \<noteq> CHR '':'' then None
          else case jval k ds of None \<Rightarrow> None | Some (v, r2) \<Rightarrow>
            (case dropWhile is_ws r2 of [] \<Rightarrow> None | e # es \<Rightarrow>
               if e = CHR '','' then map_option (apfst (MCons key v)) (jmembers k es)
               else if e = CHR ''}'' then Some (MCons key v MNil, es) else None)))"

definition jparse :: "string \<Rightarrow> json option" where
  "jparse s = (case jval (length s + 1) s of
       Some (v, r) \<Rightarrow> (if list_all is_ws r then Some v else None)
     | None \<Rightarrow> None)"

primrec jprint :: "json \<Rightarrow> string"
  and jprint_elems :: "jsons \<Rightarrow> string"
  and jprint_members :: "members \<Rightarrow> string" where
  "jprint JNull = ''null''"
| "jprint (JBool b) = (if b then ''true'' else ''false'')"
| "jprint (JNum lit) = lit"
| "jprint (JStr s) = quote_char # json_quote s @ [quote_char]"
| "jprint (JArr es) = CHR ''['' # jprint_elems es @ '']''"
| "jprint (JObj ms) = CHR ''{'' # jprint_members ms @ ''}''"
| "jprint_elems ENil = []"
| "jprint_elems (ECons v es) = jprint v @ (if es = ENil then [] else CHR '','' # jprint_elems es)"
| "jprint_members MNil = []"
| "jprint_members (MCons k v ms) = quote_char # json_quote k @ quote_char # CHR '':'' # jprint v @
     (if ms = MNil then [] else CHR '','' # jprint_members ms)"

subsection \<open>Strings round trip\<close>

lemma rune_len_le: "rune_len s \<le> length s"
  by (cases s) (auto split: list.splits)

lemma rune_len_take: "0 < rune_len s \<Longrightarrow> rune_len (take (rune_len s) s @ t) = rune_len s"
  by (cases s) (auto split: list.splits if_splits)

lemma rune_len_first: "rune_len (c # cs) = 1 \<longleftrightarrow> byte c < 128"
  by (auto split: list.splits)

lemma hex_val_lower [simp]: "d < 16 \<Longrightarrow> hex_val (lower_hex d) = Some d"
  by (auto simp: hex_val_def lower_hex_def between_def)

lemma hex_val_zero [simp]: "hex_val CHR ''0'' = Some 0" "hex_val CHR ''2'' = Some 2"
  by (simp_all add: hex_val_def between_def)

lemma unquote_raw:
  assumes "0 < rune_len (c # cs)" and "c \<noteq> quote_char" and "c \<noteq> backslash" and "32 \<le> byte c"
  shows "json_unquote (take (rune_len (c # cs)) (c # cs) @ t) =
    map_option (apfst (append (take (rune_len (c # cs)) (c # cs)))) (json_unquote t)"
proof -
  define n where "n = rune_len (c # cs)"
  have len: "length (take n (c # cs)) = n" using rune_len_le [of "c # cs"] by (simp add: n_def)
  obtain r where r: "take n (c # cs) = c # r" using assms(1) by (cases n) (auto simp: n_def)
  have "rune_len (take n (c # cs) @ t) = n" unfolding n_def by (rule rune_len_take [OF assms(1)])
  moreover have "take n (take n (c # cs) @ t) = take n (c # cs)" "drop n (take n (c # cs) @ t) = t"
    using len by simp_all
  ultimately show ?thesis
    using assms r len unfolding n_def [symmetric]
    by (cases n) (simp_all add: Let_def del: rune_len.simps)
qed

lemma unquote_esc:
  assumes "byte c < 128"
  shows "json_unquote (esc_ascii c @ t) = map_option (apfst ((#) c)) (json_unquote t)"
proof -
  have pre: "apfst (append [d]) = apfst ((#) d)" for d :: char by (simp add: fun_eq_iff)
  have id: "char_of (byte c) = c" by simp
  consider (q) "byte c = 34 \<or> byte c = 92" | (s) "byte c \<in> {8, 9, 10, 12, 13}"
    | (u) "byte c \<notin> {8, 9, 10, 12, 13}" "byte c < 32 \<or> byte c = 60 \<or> byte c = 62 \<or> byte c = 38"
    | (raw) "32 \<le> byte c" "byte c \<notin> {34, 92, 60, 62, 38}"
    by fastforce
  then show ?thesis
  proof cases
    case q
    then have "byte c = byte quote_char \<or> byte c = byte backslash" by simp
    then have "c = quote_char \<or> c = backslash" by (simp only: of_char_eq_iff)
    then show ?thesis by (auto simp: esc_ascii_def unescape_def pre)
  next
    case s
    then have "byte c = byte CHR 0x08 \<or> byte c = byte CHR 0x09 \<or> byte c = byte CHR 0x0A \<or>
        byte c = byte CHR 0x0C \<or> byte c = byte CHR 0x0D" by auto
    then have "c \<in> {CHR 0x08, CHR 0x09, CHR 0x0A, CHR 0x0C, CHR 0x0D}"
      by (simp only: of_char_eq_iff insert_iff empty_iff simp_thms)
    then show ?thesis by (auto simp: esc_ascii_def unescape_def pre)
  next
    case u
    have "byte c div 16 < 16" by (simp add: less_mult_imp_div_less)
    then have "u4 ([CHR ''0'', CHR ''0'', lower_hex (byte c div 16), lower_hex (byte c mod 16)] @ t) = Some (byte c)"
      by (simp add: u4_def)
    moreover have "utf8_encode (byte c) = [c]" using assms by (simp add: utf8_encode_def)
    ultimately show ?thesis using u assms by (auto simp: esc_ascii_def Let_def unescape_def pre)
  next
    case raw
    then have "c \<noteq> quote_char" "c \<noteq> backslash" by auto
    then have "json_unquote ([c] @ t) = map_option (apfst (append [c])) (json_unquote t)"
      using unquote_raw [of c "[]" t] assms raw by simp
    with raw show ?thesis by (auto simp: esc_ascii_def Let_def pre)
  qed
qed

lemma char_of_byte: "byte c = n \<Longrightarrow> char_of n = c"
  by auto

lemma line_separator_len: "line_separator s \<Longrightarrow> 0 < rune_len s \<Longrightarrow> rune_len s = 3"
  by (cases s) (auto simp: line_separator_def rune2_def rune4_def between_def split: list.splits if_splits)

lemma unquote_separator:
  assumes "line_separator (c # cs)"
  shows "json_unquote (backslash # ''u202'' @ lower_hex (byte (cs ! 1) - 160) # t) =
    map_option (apfst (append (take 3 (c # cs)))) (json_unquote t)"
proof -
  obtain x y r where cs: "cs = x # y # r" and b: "byte c = 226" "byte x = 128" "byte y \<in> {168, 169}"
    using assms by (cases cs; cases "tl cs") (auto simp: line_separator_def)
  have u: "u4 (''202'' @ lower_hex (byte y - 160) # t) = Some (8064 + byte y)"
    using b by (auto simp: u4_def)
  have e: "utf8_encode (8064 + byte y) = [c, x, y]"
    using b by (auto simp: utf8_encode_def char_of_byte)
  show ?thesis using b u e by (auto simp: cs unescape_def)
qed

lemma unquote_quote: "utf8_ok s \<Longrightarrow> json_unquote (json_quote s @ quote_char # t) = Some (s, t)"
proof (induction s rule: json_quote.induct)
  case (2 c cs)
  define n where "n = rune_len (c # cs)"
  have n: "0 < n" and rest: "utf8_ok (drop (n - 1) cs)" using 2(5) by (auto simp: n_def Let_def simp del: rune_len.simps)
  have split: "take n (c # cs) @ drop (n - 1) cs = c # cs" using n by (cases n) simp_all
  show ?case
  proof (cases "n = 1")
    case True
    then have "byte c < 128" using rune_len_first by (simp add: n_def)
    with True 2(2) rest show ?thesis
      using unquote_esc by (simp add: n_def Let_def del: rune_len.simps)
  next
    case False
    then have c: "128 \<le> byte c" using rune_len_first [of c cs] by (simp add: n_def del: rune_len.simps)
    show ?thesis
    proof (cases "line_separator (c # cs)")
      case True
      then have "n = 3" using line_separator_len n by (simp add: n_def)
      with True False n 2(3) rest split show ?thesis
        using unquote_separator [OF True] by (simp add: n_def Let_def del: rune_len.simps)
    next
      case no: False
      have "c \<noteq> quote_char" "c \<noteq> backslash" "32 \<le> byte c" using c by auto
      with no False n 2(4) rest split show ?thesis
        using unquote_raw [of c cs] by (simp add: n_def Let_def del: rune_len.simps)
    qed
  qed
qed simp

subsection \<open>Values round trip\<close>

primrec json_ok :: "json \<Rightarrow> bool" and jsons_ok :: "jsons \<Rightarrow> bool" and members_ok :: "members \<Rightarrow> bool" where
  "json_ok JNull = True"
| "json_ok (JBool b) = True"
| "json_ok (JNum lit) = num_ok lit"
| "json_ok (JStr s) = utf8_ok s"
| "json_ok (JArr es) = jsons_ok es"
| "json_ok (JObj ms) = members_ok ms"
| "jsons_ok ENil = True"
| "jsons_ok (ECons v es) = (json_ok v \<and> jsons_ok es)"
| "members_ok MNil = True"
| "members_ok (MCons k v ms) = (utf8_ok k \<and> json_ok v \<and> members_ok ms)"

lemma digit_num [simp]: "is_digit c \<Longrightarrow> num_char c"
  by (simp add: num_char_def)

lemma exp_ok_chars: "exp_ok s \<Longrightarrow> list_all num_char s"
  by (auto simp: exp_ok_def num_char_def list_all_iff Let_def split: list.splits if_splits)

lemma digits_then: "list_all num_char (dropWhile is_digit s) \<Longrightarrow> list_all num_char s"
  by (induction s) (auto split: if_splits)

lemma frac_ok_chars: "frac_ok s \<Longrightarrow> list_all num_char s"
proof (cases s)
  case (Cons c cs)
  assume "frac_ok s"
  then show ?thesis
    using exp_ok_chars [of s] exp_ok_chars [of "dropWhile is_digit cs"] digits_then [of cs] Cons
    by (auto simp: frac_ok_def num_char_def [of "CHR ''.''"] split: if_splits)
qed simp

lemma num_body_chars:
  assumes "num_body s"
  shows "list_all num_char s" and "\<exists>c cs. s = c # cs \<and> is_digit c"
proof -
  obtain c cs where s: "s = c # cs" and d: "is_digit c" and
    f: "frac_ok cs \<or> frac_ok (dropWhile is_digit cs)"
    using assms by (cases s) (auto simp: num_body_def split: if_splits)
  have "list_all num_char cs"
    using f frac_ok_chars [of cs] frac_ok_chars [of "dropWhile is_digit cs"] digits_then [of cs] by blast
  with s d show "list_all num_char s" and "\<exists>c cs. s = c # cs \<and> is_digit c" by simp_all
qed

lemma num_ok_chars:
  assumes "num_ok s"
  shows "list_all num_char s" and "\<exists>c cs. s = c # cs \<and> (is_digit c \<or> c = CHR ''-'')"
proof -
  obtain c cs where s: "s = c # cs" using assms by (cases s) (auto simp: num_ok_def)
  have minus: "num_char CHR ''-''" by (simp add: num_char_def)
  show "list_all num_char s"
    using assms s minus num_body_chars(1) [of cs] num_body_chars(1) [of s] by (auto simp: num_ok_def split: if_splits)
  show "\<exists>c cs. s = c # cs \<and> (is_digit c \<or> c = CHR ''-'')"
    using assms s num_body_chars(2) [of s] by (auto simp: num_ok_def split: if_splits)
qed

definition stops :: "string \<Rightarrow> bool" where
  "stops rest \<longleftrightarrow> rest = [] \<or> \<not> num_char (hd rest)"

lemma stops_simps [simp]:
  "stops []" "stops (CHR '','' # r)" "stops (CHR '']'' # r)" "stops (CHR ''}'' # r)"
  by (simp_all add: stops_def num_char_def is_digit_def)

lemma num_head:
  assumes "is_digit c \<or> c = CHR ''-''"
  shows "\<not> is_ws c" "c \<noteq> quote_char" "c \<notin> set ''{[]}ntf''"
  using assms by (auto simp: is_ws_def is_digit_def)

lemma scan_num:
  assumes "list_all num_char s" and "stops rest"
  shows "takeWhile num_char (s @ rest) = s" and "dropWhile num_char (s @ rest) = rest"
  using assms by (induction s) (auto simp: stops_def, (cases rest; auto)+)

lemma jval_num:
  assumes "num_ok lit" and "stops rest"
  shows "jval (Suc k) (lit @ rest) = Some (JNum lit, rest)"
proof -
  obtain c cs where lit: "lit = c # cs" and c: "is_digit c \<or> c = CHR ''-''"
    using num_ok_chars(2) [OF assms(1)] by blast
  show ?thesis
    using num_head [OF c] scan_num [OF num_ok_chars(1) [OF assms(1)] assms(2)] assms(1)
    by (simp add: lit Let_def del: takeWhile.simps dropWhile.simps)
      (simp add: Let_def)
qed

text \<open>A printed value starts with a character that is neither white space nor a closing bracket.\<close>

definition starts :: "char \<Rightarrow> bool" where
  "starts c \<longleftrightarrow> \<not> is_ws c \<and> c \<noteq> CHR '']'' \<and> c \<noteq> CHR ''}''"

lemma jprint_head: "json_ok v \<Longrightarrow> \<exists>c cs. jprint v = c # cs \<and> starts c"
proof (cases v)
  case (JNum lit)
  moreover assume "json_ok v"
  ultimately obtain c cs where "lit = c # cs" and c: "is_digit c \<or> c = CHR ''-''"
    using num_ok_chars(2) [of lit] by auto
  with JNum num_head [OF c] show ?thesis by (simp add: starts_def)
qed (auto simp: starts_def is_ws_def)

lemma jelems_head: "jsons_ok es \<Longrightarrow> es \<noteq> ENil \<Longrightarrow> \<exists>c cs. jprint_elems es = c # cs \<and> starts c"
  by (cases es) (auto dest!: jprint_head)

lemma skip_ws [simp]: "\<not> is_ws c \<Longrightarrow> dropWhile is_ws (c # cs) = c # cs"
  by simp

lemma no_ws [simp]:
  "\<not> is_ws quote_char" "\<not> is_ws CHR '',''" "\<not> is_ws CHR '':''" "\<not> is_ws CHR ''}''" "\<not> is_ws CHR '']''"
  "\<not> is_ws CHR ''{''" "\<not> is_ws CHR ''[''" "\<not> is_ws CHR ''n''" "\<not> is_ws CHR ''t''" "\<not> is_ws CHR ''f''"
  by (simp_all add: is_ws_def)

lemma jval_jprint:
  "json_ok v \<Longrightarrow> length (jprint v) \<le> k \<Longrightarrow> stops rest \<Longrightarrow> jval k (jprint v @ rest) = Some (v, rest)"
  "jsons_ok es \<Longrightarrow> es \<noteq> ENil \<Longrightarrow> length (jprint_elems es) < k \<Longrightarrow>
     jelems k (jprint_elems es @ CHR '']'' # rest) = Some (es, rest)"
  "members_ok ms \<Longrightarrow> ms \<noteq> MNil \<Longrightarrow> length (jprint_members ms) < k \<Longrightarrow>
     jmembers k (jprint_members ms @ CHR ''}'' # rest) = Some (ms, rest)"
proof (induction v and es and ms arbitrary: k rest and k rest and k rest)
  case (JNum lit)
  then obtain k' where "k = Suc k'" using num_ok_chars(2) [of lit] by (cases k) auto
  with JNum jval_num show ?case by simp
next
  case (JArr es)
  then obtain k' where k: "k = Suc k'" by (cases k) auto
  show ?case
  proof (cases "es = ENil")
    case False
    then obtain c cs where c: "jprint_elems es = c # cs" "starts c" using JArr jelems_head by fastforce
    with JArr k False have "jelems k' (c # cs @ CHR '']'' # rest) = Some (es, rest)" by force
    with c k show ?thesis by (simp add: starts_def)
  qed (simp add: k)
next
  case (JObj ms)
  then obtain k' where k: "k = Suc k'" by (cases k) auto
  show ?case
  proof (cases ms)
    case (MCons key v ms')
    then obtain cs where c: "jprint_members ms = quote_char # cs" by simp
    with JObj k MCons have "jmembers k' (quote_char # cs @ CHR ''}'' # rest) = Some (ms, rest)" by force
    with c k show ?thesis by simp
  qed (simp add: k)
next
  case (ECons v es)
  then obtain k' where k: "k = Suc k'" by (cases k) auto
  with ECons show ?case by (cases "es = ENil") simp_all
next
  case (MCons key v ms)
  then obtain k' where k: "k = Suc k'" by (cases k) auto
  with MCons show ?case by (cases "ms = MNil") (simp_all add: unquote_quote)
next
  case (JStr s)
  then obtain k' where "k = Suc k'" by (cases k) auto
  with JStr show ?case by (simp add: unquote_quote)
next
  case (JBool b)
  then obtain k' where "k = Suc k'" by (cases k; cases b) auto
  then show ?case by simp
next
  case JNull
  then obtain k' where "k = Suc k'" by (cases k) auto
  then show ?case by simp
qed simp_all

lemma jparse_jprint: "json_ok v \<Longrightarrow> jparse (jprint v) = Some v"
  using jval_jprint(1) [of v "length (jprint v) + 1" "[]"] by (simp add: jparse_def)

interpretation json_codec: codec json_ok jprint jparse
  by unfold_locales (rule jparse_jprint)

subsection \<open>Objects and structs\<close>

fun obj :: "(string \<times> json) list \<Rightarrow> members" where
  "obj [] = MNil"
| "obj ((k, v) # fs) = MCons k v (obj fs)"

primrec member_list :: "members \<Rightarrow> (string \<times> json) list" where
  "member_list MNil = []"
| "member_list (MCons k v ms) = (k, v) # member_list ms"

lemma fields_obj [simp]: "member_list (obj fs) = fs"
  by (induction fs rule: obj.induct) simp_all

lemma members_ok_obj [simp]: "members_ok (obj fs) \<longleftrightarrow> (\<forall>(k, v) \<in> set fs. utf8_ok k \<and> json_ok v)"
  by (induction fs rule: obj.induct) auto

fun json_array :: "json list \<Rightarrow> jsons" where
  "json_array [] = ENil"
| "json_array (v # vs) = ECons v (json_array vs)"

lemma elems_ok_array [simp]: "jsons_ok (json_array vs) \<longleftrightarrow> (\<forall>v \<in> set vs. json_ok v)"
  by (induction vs) simp_all

text \<open>Keys are folded to upper case; two characters outside ASCII fold into it.\<close>

definition fold_byte :: "char \<Rightarrow> char" where
  "fold_byte c = (if between 97 c 122 then char_of (byte c - 32) else c)"

function fold_name :: "string \<Rightarrow> string" where
  "fold_name [] = []"
| "fold_name (c # cs) =
     (if map byte (take 3 (c # cs)) = [226, 132, 170] then CHR ''K'' # fold_name (drop 2 cs)
      else if map byte (take 2 (c # cs)) = [197, 191] then CHR ''S'' # fold_name (drop 1 cs)
      else fold_byte c # fold_name cs)"
  by pat_completeness auto
termination by (relation "measure length") auto

definition field_for :: "(string \<times> 'f) list \<Rightarrow> string \<Rightarrow> 'f option" where
  "field_for fs key = (case map_of fs key of
       Some f \<Rightarrow> Some f
     | None \<Rightarrow> map_option snd (find (\<lambda>(tag, _). fold_name tag = fold_name key) fs))"

type_synonym 'r setters = "(string \<times> (json \<Rightarrow> 'r \<Rightarrow> 'r option)) list"

fun decode_struct :: "'r setters \<Rightarrow> (string \<times> json) list \<Rightarrow> 'r \<Rightarrow> 'r option" where
  "decode_struct fs [] r = Some r"
| "decode_struct fs ((key, v) # ms) r =
     (case field_for fs key of
        None \<Rightarrow> decode_struct fs ms r
      | Some f \<Rightarrow> (if v = JNull then decode_struct fs ms r
                   else case f v r of None \<Rightarrow> None | Some r' \<Rightarrow> decode_struct fs ms r'))"

definition decode_value :: "'r setters \<Rightarrow> json \<Rightarrow> 'r \<Rightarrow> 'r option" where
  "decode_value fs v r = (case v of JNull \<Rightarrow> Some r | JObj ms \<Rightarrow> decode_struct fs (member_list ms) r | _ \<Rightarrow> None)"

definition Unmarshal :: "'r setters \<Rightarrow> 'r \<Rightarrow> bytes \<Rightarrow> 'r option" where
  "Unmarshal fs zero data = (case jparse data of None \<Rightarrow> None | Some v \<Rightarrow> decode_value fs v zero)"

lemma field_for_exact [simp]: "map_of fs key = Some f \<Longrightarrow> field_for fs key = Some f"
  by (simp add: field_for_def)

text \<open>The conversions of one value to the type of its field.\<close>

definition set_string :: "(string \<Rightarrow> 'r \<Rightarrow> 'r) \<Rightarrow> json \<Rightarrow> 'r \<Rightarrow> 'r option" where
  "set_string f v r = (case v of JStr s \<Rightarrow> Some (f s r) | _ \<Rightarrow> None)"

definition set_bool :: "(bool \<Rightarrow> 'r \<Rightarrow> 'r) \<Rightarrow> json \<Rightarrow> 'r \<Rightarrow> 'r option" where
  "set_bool f v r = (case v of JBool b \<Rightarrow> Some (f b r) | _ \<Rightarrow> None)"

definition set_int64 :: "(int \<Rightarrow> 'r \<Rightarrow> 'r) \<Rightarrow> json \<Rightarrow> 'r \<Rightarrow> 'r option" where
  "set_int64 f v r = (case v of
       JNum lit \<Rightarrow> (case ParseInt64 lit of Inr x \<Rightarrow> Some (f x r) | Inl _ \<Rightarrow> None)
     | _ \<Rightarrow> None)"

definition set_uint :: "nat \<Rightarrow> (nat \<Rightarrow> 'r \<Rightarrow> 'r) \<Rightarrow> json \<Rightarrow> 'r \<Rightarrow> 'r option" where
  "set_uint limit f v r = (case v of
       JNum lit \<Rightarrow> (case ParseUint limit lit of Inr x \<Rightarrow> Some (f x r) | Inl _ \<Rightarrow> None)
     | _ \<Rightarrow> None)"

primrec byte_elems :: "jsons \<Rightarrow> bytes option" where
  "byte_elems ENil = Some []"
| "byte_elems (ECons v es) = (case byte_elems es of None \<Rightarrow> None | Some bs \<Rightarrow>
     (case v of
        JNull \<Rightarrow> Some (CHR 0x00 # bs)
      | JNum lit \<Rightarrow> (case ParseUint 255 lit of Inr x \<Rightarrow> Some (char_of x # bs) | Inl _ \<Rightarrow> None)
      | _ \<Rightarrow> None))"

definition set_bytes :: "(bytes \<Rightarrow> 'r \<Rightarrow> 'r) \<Rightarrow> json \<Rightarrow> 'r \<Rightarrow> 'r option" where
  "set_bytes f v r = (case v of
       JStr s \<Rightarrow> map_option (\<lambda>b. f b r) (b64_decode s)
     | JArr es \<Rightarrow> map_option (\<lambda>b. f b r) (byte_elems es)
     | _ \<Rightarrow> None)"

lemma set_simps [simp]:
  "set_string f (JStr s) r = Some (f s r)"
  "set_bool g (JBool b) r = Some (g b r)"
  "set_bytes f (JStr (b64_encode bs)) r = Some (f bs r)"
  by (simp_all add: set_string_def set_bool_def set_bytes_def)

lemma set_int64_Format [simp]: "is_i64 x \<Longrightarrow> set_int64 f (JNum (FormatInt x)) r = Some (f x r)"
  by (simp add: set_int64_def ParseInt_Format)

lemma set_uint_Format [simp]: "n \<le> limit \<Longrightarrow> set_uint limit f (JNum (FormatUint n)) r = Some (f n r)"
  by (simp add: set_uint_def Parse_Format)

text \<open>Formatted numbers are number literals, base64 text is ASCII.\<close>

lemma Format_lead: "n \<noteq> 0 \<Longrightarrow> hd (FormatUint n) \<noteq> CHR ''0''"
proof (induction n rule: FormatUint.induct)
  case (1 n)
  show ?case
  proof (cases "n < 10")
    case True
    then have "byte (digit_char n) = 48 + n" by simp
    with 1(2) have "digit_char n \<noteq> CHR ''0''" by auto
    with True show ?thesis by (subst FormatUint.simps) simp
  next
    case False
    then show ?thesis using 1(1) by (subst FormatUint.simps) (simp add: hd_append)
  qed
qed

lemma num_body_Format: "num_body (FormatUint n)"
proof -
  obtain c cs where f: "FormatUint n = c # cs" "is_digit c" using Format_head by blast
  have all: "\<forall>x \<in> set cs. is_digit x" using FormatUint_digits [of n] f(1) by simp
  then have d: "dropWhile is_digit cs = []" by simp
  have "c = CHR ''0'' \<Longrightarrow> cs = []"
  proof -
    assume "c = CHR ''0''"
    then have "n = 0" using Format_lead [of n] f(1) by auto
    then show ?thesis using f(1) by (subst (asm) FormatUint.simps) simp
  qed
  moreover have "frac_ok []" by (simp add: frac_ok_def)
  ultimately show ?thesis using f by (simp add: num_body_def d)
qed

lemma num_ok_Format [simp]: "num_ok (FormatUint n)" "num_ok (FormatInt x)"
proof -
  have u: "num_ok (FormatUint n)" for n
  proof -
    obtain c cs where "FormatUint n = c # cs" "is_digit c" using Format_head by blast
    then show ?thesis using num_body_Format [of n] digit_not_sign [of c] by (simp add: num_ok_def)
  qed
  then show "num_ok (FormatUint n)" .
  show "num_ok (FormatInt x)" using u num_body_Format by (simp add: FormatInt_def num_ok_def [of "CHR ''-'' # s" for s])
qed

lemma ascii_utf8: "list_all (\<lambda>c. byte c < 128) s \<Longrightarrow> utf8_ok s"
  by (induction s) simp_all

lemma utf8_b64 [simp]: "utf8_ok (b64_encode s)"
proof (rule ascii_utf8)
  have "byte (b64_char d) < 128" if "d < 64" for d using that by (auto simp: b64_char_def)
  then show "list_all (\<lambda>c. byte c < 128) (b64_encode s)"
    by (auto simp: list_all_iff dest!: b64_encode_alphabet)
qed

end
