(* ===== verification/Lifecycle_Ledger.thy ===== *)
theory Lifecycle_Ledger
  imports Lifecycle_Store Go_Json
begin

section \<open>Keys and records of the lifecycle ledger\<close>

text \<open>
  \<^verbatim>\<open>pkg/lifecycle/ledger.go\<close>: the state keys of the shared lifecycle namespace (definition, index entry and
  high watermark of a channel) and the records stored under them.  Records are JSON objects built
  and read field by field over \<^verbatim>\<open>Go_Json\<close>.
\<close>

definition DefaultLedgerNamespace :: string where "DefaultLedgerNamespace = ''0''"
definition lifecycleLedgerSchema :: int where "lifecycleLedgerSchema = 2"
definition LifecycleEventCommit :: string where "LifecycleEventCommit = ''commit''"
definition LifecycleEventInitialized :: string where "LifecycleEventInitialized = ''initialized''"

record LedgerCommitResult =
  lr_TxID :: string
  lr_Status :: string
  lr_BlockNum :: u64
  lr_TxNum :: u32
  lr_Namespace :: string
  lr_Key :: string

record LedgerDefinition =
  ld_ChannelID :: string
  ld_Name :: string
  ld_Version :: string
  ld_Sequence :: int
  ld_InitRequired :: bool
  ld_Initialized :: bool

record LifecycleIndexEntry =
  le_SchemaVersion :: int
  le_Number :: u64
  le_EventType :: string
  le_DefinitionKey :: string
  le_ChannelID :: string
  le_Name :: string
  le_Version :: string
  le_Sequence :: int
  le_InitRequired :: bool
  le_Initialized :: bool

datatype ledger_error =
    LedgerChannelRequired
  | LedgerInvalid store_error
  | LedgerSyntax
  | LegacyRecord
  | InvalidIndexEntry
  | BadWatermark strconv_error

subsection \<open>Keys\<close>

definition channelKeyPrefix :: "string \<Rightarrow> string" where
  "channelKeyPrefix channelID = ''_lifecycle/channels/'' @ PathEscape channelID @ ''/''"

definition LedgerKey :: "string \<Rightarrow> string \<Rightarrow> string" where
  "LedgerKey channelID name = channelKeyPrefix channelID @ ''chaincodes/'' @ PathEscape name"

definition LifecycleHighWatermarkKey :: "string \<Rightarrow> string" where
  "LifecycleHighWatermarkKey channelID = channelKeyPrefix channelID @ ''index/high_watermark''"

definition LifecycleIndexEntryKey :: "string \<Rightarrow> u64 \<Rightarrow> string" where
  "LifecycleIndexEntryKey channelID number = channelKeyPrefix channelID @ ''index/'' @ pad20 (unat number)"

subsection \<open>Records\<close>

definition ledger_json :: "LedgerDefinition \<Rightarrow> json" where
  "ledger_json d = JObj (obj [
     (''channel_id'', JStr (ld_ChannelID d)), (''name'', JStr (ld_Name d)),
     (''version'', JStr (ld_Version d)), (''sequence'', JNum (FormatInt (ld_Sequence d))),
     (''init_required'', JBool (ld_InitRequired d)), (''initialized'', JBool (ld_Initialized d))])"

definition ledger_setters :: "LedgerDefinition setters" where
  "ledger_setters = [
     (''channel_id'', set_string (\<lambda>s. ld_ChannelID_update (\<lambda>_. s))),
     (''name'', set_string (\<lambda>s. ld_Name_update (\<lambda>_. s))),
     (''version'', set_string (\<lambda>s. ld_Version_update (\<lambda>_. s))),
     (''sequence'', set_int64 (\<lambda>x. ld_Sequence_update (\<lambda>_. x))),
     (''init_required'', set_bool (\<lambda>b. ld_InitRequired_update (\<lambda>_. b))),
     (''initialized'', set_bool (\<lambda>b. ld_Initialized_update (\<lambda>_. b)))]"

definition zeroLedger :: LedgerDefinition where
  "zeroLedger = \<lparr>ld_ChannelID = [], ld_Name = [], ld_Version = [], ld_Sequence = 0,
     ld_InitRequired = False, ld_Initialized = False\<rparr>"

definition ChaincodeDefinitionFromLedger :: "LedgerDefinition \<Rightarrow> ChaincodeDefinition" where
  "ChaincodeDefinitionFromLedger value =
     \<lparr>cd_Name = ld_Name value, cd_Version = ld_Version value, cd_Sequence = ld_Sequence value,
      cd_InitRequired = ld_InitRequired value\<rparr>"

definition ledger_of :: "string \<Rightarrow> ChaincodeDefinition \<Rightarrow> bool \<Rightarrow> LedgerDefinition" where
  "ledger_of channelID def initialized =
     \<lparr>ld_ChannelID = channelID, ld_Name = cd_Name def, ld_Version = cd_Version def,
      ld_Sequence = cd_Sequence def, ld_InitRequired = cd_InitRequired def, ld_Initialized = initialized\<rparr>"

definition MarshalLedgerDefinition ::
  "string \<Rightarrow> ChaincodeDefinition \<Rightarrow> bool \<Rightarrow> ledger_error + bytes" where
  "MarshalLedgerDefinition channelID def initialized =
     (if channelID = [] then Inl LedgerChannelRequired
      else rbind (map_error LedgerInvalid (validateDefinition def)) (\<lambda>_.
        Inr (jprint (ledger_json (ledger_of channelID def initialized)))))"

definition UnmarshalLedgerDefinition :: "bytes \<Rightarrow> ledger_error + LedgerDefinition" where
  "UnmarshalLedgerDefinition data =
     (case Unmarshal ledger_setters zeroLedger data of
        None \<Rightarrow> Inl LedgerSyntax
      | Some value \<Rightarrow>
          (if ld_ChannelID value = [] then Inl LegacyRecord
           else rbind (map_error LedgerInvalid (validateDefinition (ChaincodeDefinitionFromLedger value)))
             (\<lambda>_. Inr value)))"

definition NewLifecycleIndexEntry ::
  "string \<Rightarrow> u64 \<Rightarrow> string \<Rightarrow> ChaincodeDefinition \<Rightarrow> bool \<Rightarrow> LifecycleIndexEntry" where
  "NewLifecycleIndexEntry channelID number eventType def initialized =
     \<lparr>le_SchemaVersion = lifecycleLedgerSchema, le_Number = number, le_EventType = eventType,
      le_DefinitionKey = LedgerKey channelID (cd_Name def), le_ChannelID = channelID,
      le_Name = cd_Name def, le_Version = cd_Version def, le_Sequence = cd_Sequence def,
      le_InitRequired = cd_InitRequired def, le_Initialized = initialized\<rparr>"

definition entry_json :: "LifecycleIndexEntry \<Rightarrow> json" where
  "entry_json e = JObj (obj [
     (''schema_version'', JNum (FormatInt (le_SchemaVersion e))),
     (''number'', JNum (FormatUint (unat (le_Number e)))),
     (''event_type'', JStr (le_EventType e)), (''definition_key'', JStr (le_DefinitionKey e)),
     (''channel_id'', JStr (le_ChannelID e)), (''name'', JStr (le_Name e)),
     (''version'', JStr (le_Version e)), (''sequence'', JNum (FormatInt (le_Sequence e))),
     (''init_required'', JBool (le_InitRequired e)), (''initialized'', JBool (le_Initialized e))])"

definition entry_setters :: "LifecycleIndexEntry setters" where
  "entry_setters = [
     (''schema_version'', set_int64 (\<lambda>x. le_SchemaVersion_update (\<lambda>_. x))),
     (''number'', set_uint (2 ^ 64 - 1) (\<lambda>n. le_Number_update (\<lambda>_. of_nat n))),
     (''event_type'', set_string (\<lambda>s. le_EventType_update (\<lambda>_. s))),
     (''definition_key'', set_string (\<lambda>s. le_DefinitionKey_update (\<lambda>_. s))),
     (''channel_id'', set_string (\<lambda>s. le_ChannelID_update (\<lambda>_. s))),
     (''name'', set_string (\<lambda>s. le_Name_update (\<lambda>_. s))),
     (''version'', set_string (\<lambda>s. le_Version_update (\<lambda>_. s))),
     (''sequence'', set_int64 (\<lambda>x. le_Sequence_update (\<lambda>_. x))),
     (''init_required'', set_bool (\<lambda>b. le_InitRequired_update (\<lambda>_. b))),
     (''initialized'', set_bool (\<lambda>b. le_Initialized_update (\<lambda>_. b)))]"

definition zeroEntry :: LifecycleIndexEntry where
  "zeroEntry = \<lparr>le_SchemaVersion = 0, le_Number = 0, le_EventType = [], le_DefinitionKey = [],
     le_ChannelID = [], le_Name = [], le_Version = [], le_Sequence = 0, le_InitRequired = False,
     le_Initialized = False\<rparr>"

definition MarshalLifecycleIndexEntry :: "LifecycleIndexEntry \<Rightarrow> bytes" where
  "MarshalLifecycleIndexEntry entry = jprint (entry_json entry)"

definition UnmarshalLifecycleIndexEntry :: "bytes \<Rightarrow> ledger_error + LifecycleIndexEntry" where
  "UnmarshalLifecycleIndexEntry data =
     (case Unmarshal entry_setters zeroEntry data of
        None \<Rightarrow> Inl LedgerSyntax
      | Some entry \<Rightarrow>
          (if le_SchemaVersion entry \<noteq> lifecycleLedgerSchema \<or> le_ChannelID entry = [] \<or>
              le_Name entry = [] \<or> le_DefinitionKey entry \<noteq> LedgerKey (le_ChannelID entry) (le_Name entry)
           then Inl InvalidIndexEntry else Inr entry))"

definition MarshalLifecycleHighWatermark :: "u64 \<Rightarrow> bytes" where
  "MarshalLifecycleHighWatermark value = FormatUint (unat value)"

definition UnmarshalLifecycleHighWatermark :: "bytes \<Rightarrow> ledger_error + u64" where
  "UnmarshalLifecycleHighWatermark data =
     (if data = [] then Inr 0
      else map_error BadWatermark (rbind (ParseUint (2 ^ 64 - 1) data) (\<lambda>n. Inr (of_nat n))))"

lemmas [ledger_defs] =
  channelKeyPrefix_def LedgerKey_def LifecycleHighWatermarkKey_def LifecycleIndexEntryKey_def
  MarshalLedgerDefinition_def UnmarshalLedgerDefinition_def NewLifecycleIndexEntry_def
  MarshalLifecycleIndexEntry_def UnmarshalLifecycleIndexEntry_def

subsection \<open>Keys are separate\<close>

lemma prefix_split:
  "channelKeyPrefix c @ x = channelKeyPrefix c' @ y \<longleftrightarrow> c = c' \<and> x = y"
  by (simp add: channelKeyPrefix_def split_at_slash PathEscape_no_slash path_codec.enc_inj)

lemma prefix_inj: "channelKeyPrefix c = channelKeyPrefix c' \<longleftrightarrow> c = c'"
  using prefix_split [of c "[]" c' "[]"] by simp

lemma pad20_not_watermark: "pad20 n \<noteq> ''high_watermark''"
proof
  assume "pad20 n = ''high_watermark''"
  then have "is_digit CHR ''h''" using pad20_digits [of n] by simp
  then show False by (simp add: is_digit_def)
qed

lemma keys_apart:
  "LedgerKey c n = LedgerKey c' n' \<longleftrightarrow> c = c' \<and> n = n'"
  "LifecycleIndexEntryKey c i = LifecycleIndexEntryKey c' j \<longleftrightarrow> c = c' \<and> i = j"
  "LifecycleHighWatermarkKey c = LifecycleHighWatermarkKey c' \<longleftrightarrow> c = c'"
  "LedgerKey c n \<noteq> LifecycleIndexEntryKey c' j" "LifecycleIndexEntryKey c' j \<noteq> LedgerKey c n"
  "LedgerKey c n \<noteq> LifecycleHighWatermarkKey c'" "LifecycleHighWatermarkKey c' \<noteq> LedgerKey c n"
  "LifecycleIndexEntryKey c i \<noteq> LifecycleHighWatermarkKey c'" "LifecycleHighWatermarkKey c' \<noteq> LifecycleIndexEntryKey c i"
  using pad20_not_watermark pad20_not_watermark [symmetric]
  by (auto simp: LedgerKey_def LifecycleIndexEntryKey_def LifecycleHighWatermarkKey_def prefix_split
      prefix_inj path_codec.enc_inj pad20_inj simp flip: word_unat_eq_iff)

text \<open>The state keys of the lifecycle namespace never collide: two keys of one kind are equal only for the
  same channel and the same chaincode name or index number, whatever bytes names contain, and
  definition, index and high watermark keys differ.\<close>

theorem lifecycle_keys_separate:
  "(LedgerKey c n = LedgerKey c' n' \<longleftrightarrow> c = c' \<and> n = n') \<and>
   (LifecycleIndexEntryKey c i = LifecycleIndexEntryKey c' j \<longleftrightarrow> c = c' \<and> i = j) \<and>
   (LifecycleHighWatermarkKey c = LifecycleHighWatermarkKey c' \<longleftrightarrow> c = c') \<and>
   LedgerKey c n \<noteq> LifecycleIndexEntryKey c' j \<and> LedgerKey c n \<noteq> LifecycleHighWatermarkKey c' \<and>
   LifecycleIndexEntryKey c i \<noteq> LifecycleHighWatermarkKey c'"
  by (simp add: keys_apart)

subsection \<open>Records round trip\<close>

definition text_ok :: "ChaincodeDefinition \<Rightarrow> bool" where
  "text_ok def \<longleftrightarrow> utf8_ok (cd_Name def) \<and> utf8_ok (cd_Version def) \<and> is_i64 (cd_Sequence def)"

lemma utf8_tags [simp]:
  "utf8_ok ''channel_id''" "utf8_ok ''name''" "utf8_ok ''version''" "utf8_ok ''sequence''"
  "utf8_ok ''init_required''" "utf8_ok ''initialized''" "utf8_ok ''schema_version''" "utf8_ok ''number''"
  "utf8_ok ''event_type''" "utf8_ok ''definition_key''"
  by (rule ascii_utf8, simp)+

lemma PathEscape_ascii: "list_all (\<lambda>x. byte x < 128) (PathEscape s)"
proof -
  have h: "byte (upper_hex d) < 128" if "d < 16" for d using that by (auto simp: upper_hex_def)
  have "list_all (\<lambda>x. byte x < 128) (escape_byte c)" for c
  proof (cases "unreserved c")
    case True
    then show ?thesis by (auto simp: escape_byte_def unreserved_def)
  next
    case False
    have "byte c div 16 < 16" by (simp add: less_mult_imp_div_less)
    with False h show ?thesis by (simp add: escape_byte_def)
  qed
  then show "list_all (\<lambda>x. byte x < 128) (PathEscape s)" by (auto simp: PathEscape_def list_all_iff)
qed

lemma LedgerKey_utf8: "utf8_ok (LedgerKey channelID name)"
  by (rule ascii_utf8) (simp add: LedgerKey_def channelKeyPrefix_def PathEscape_ascii)

lemma Unmarshal_ledger_json:
  assumes "utf8_ok (ld_ChannelID d)" and "utf8_ok (ld_Name d)" and "utf8_ok (ld_Version d)"
    and "is_i64 (ld_Sequence d)"
  shows "Unmarshal ledger_setters zeroLedger (jprint (ledger_json d)) = Some d"
proof -
  have "jparse (jprint (ledger_json d)) = Some (ledger_json d)"
    using assms by (intro jparse_jprint) (simp add: ledger_json_def)
  then show ?thesis using assms(4)
    by (simp add: Unmarshal_def decode_value_def ledger_json_def ledger_setters_def zeroLedger_def)
qed

lemma ledger_definition_read:
  assumes "MarshalLedgerDefinition ch def initialized = Inr value" "utf8_ok ch" "text_ok def"
  shows "UnmarshalLedgerDefinition value = Inr (ledger_of ch def initialized)" "ch \<noteq> []" "cd_Name def \<noteq> []"
proof -
  have "Unmarshal ledger_setters zeroLedger value = Some (ledger_of ch def initialized)"
    using assms Unmarshal_ledger_json [of "ledger_of ch def initialized"]
    by (auto simp: MarshalLedgerDefinition_def rbind_Inr_iff text_ok_def ledger_of_def split: if_splits)
  then show "UnmarshalLedgerDefinition value = Inr (ledger_of ch def initialized)" using assms
    by (auto simp: UnmarshalLedgerDefinition_def MarshalLedgerDefinition_def rbind_Inr_iff ledger_of_def
        ChaincodeDefinitionFromLedger_def split: if_splits)
  show "ch \<noteq> []" "cd_Name def \<noteq> []"
    using assms by (auto simp: MarshalLedgerDefinition_def rbind_Inr_iff split: if_splits)
qed

text \<open>A marshalled definition record is read back unchanged, for every channel, name and version that is
  valid UTF-8.\<close>

theorem ledger_definition_roundtrip:
  assumes "MarshalLedgerDefinition channelID def initialized = Inr data"
    and "utf8_ok channelID" and "text_ok def"
  shows "UnmarshalLedgerDefinition data = Inr (ledger_of channelID def initialized) \<and>
    ChaincodeDefinitionFromLedger (ledger_of channelID def initialized) = def"
  using ledger_definition_read [OF assms] by (simp add: ChaincodeDefinitionFromLedger_def ledger_of_def)

theorem ledger_definition_roundtrip_witness:
  "\<exists>data. MarshalLedgerDefinition ''ch/1'' \<lparr>cd_Name = ''basic'', cd_Version = ''1<0'', cd_Sequence = 7,
       cd_InitRequired = True\<rparr> True = Inr data \<and>
     UnmarshalLedgerDefinition data = Inr (ledger_of ''ch/1'' \<lparr>cd_Name = ''basic'', cd_Version = ''1<0'',
       cd_Sequence = 7, cd_InitRequired = True\<rparr> True)"
proof -
  let ?d = "\<lparr>cd_Name = ''basic'', cd_Version = ''1<0'', cd_Sequence = 7, cd_InitRequired = True\<rparr>"
  have "MarshalLedgerDefinition ''ch/1'' ?d True = Inr (jprint (ledger_json (ledger_of ''ch/1'' ?d True)))"
    by (simp add: MarshalLedgerDefinition_def validateDefinition_def)
  moreover have "utf8_ok ''ch/1''" and "text_ok ?d"
    by (simp_all add: text_ok_def is_i64_def min_i64_def max_i64_def)
  ultimately show ?thesis using ledger_definition_roundtrip by blast
qed

lemma index_entry_read:
  fixes number :: u64 and initialized :: bool
  assumes "channelID \<noteq> []" and "cd_Name def \<noteq> []"
    and "utf8_ok channelID" and "text_ok def" and "utf8_ok eventType"
  defines "e \<equiv> NewLifecycleIndexEntry channelID number eventType def initialized"
  shows "UnmarshalLifecycleIndexEntry (MarshalLifecycleIndexEntry e) = Inr e \<and>
    le_DefinitionKey e = LedgerKey channelID (cd_Name def)"
proof -
  have "is_i64 lifecycleLedgerSchema"
    by (simp add: lifecycleLedgerSchema_def is_i64_def min_i64_def max_i64_def)
  moreover have num: "unat number \<le> 2 ^ 64 - 1" using unsigned_less [of number, where ?'a = nat] by simp
  moreover have "jparse (jprint (entry_json e)) = Some (entry_json e)"
    using assms LedgerKey_utf8 by (intro jparse_jprint) (simp add: entry_json_def NewLifecycleIndexEntry_def text_ok_def)
  ultimately have "Unmarshal entry_setters zeroEntry (jprint (entry_json e)) = Some e"
    using assms(4) set_uint_Format [OF num]
    by (simp add: Unmarshal_def decode_value_def entry_json_def entry_setters_def zeroEntry_def
        NewLifecycleIndexEntry_def text_ok_def e_def)
  then show ?thesis
    using assms(1,2)
    by (simp add: UnmarshalLifecycleIndexEntry_def MarshalLifecycleIndexEntry_def e_def NewLifecycleIndexEntry_def)
qed

text \<open>An index entry written for a definition is read back unchanged and points to the key under which
  that definition is stored.\<close>

theorem index_entry_roundtrip:
  fixes number :: u64 and initialized :: bool
  assumes "channelID \<noteq> []" and "cd_Name def \<noteq> []"
    and "utf8_ok channelID" and "text_ok def" and "utf8_ok eventType"
  defines "e \<equiv> NewLifecycleIndexEntry channelID number eventType def initialized"
  shows "UnmarshalLifecycleIndexEntry (MarshalLifecycleIndexEntry e) = Inr e \<and>
    le_DefinitionKey e = LedgerKey channelID (cd_Name def)"
  unfolding e_def by (rule index_entry_read [OF assms(1-5)])

theorem index_entry_roundtrip_witness:
  "UnmarshalLifecycleIndexEntry (MarshalLifecycleIndexEntry (NewLifecycleIndexEntry ''ch'' 5 LifecycleEventCommit
       \<lparr>cd_Name = ''a;b'', cd_Version = ''1'', cd_Sequence = 1, cd_InitRequired = False\<rparr> True)) =
     Inr (NewLifecycleIndexEntry ''ch'' 5 LifecycleEventCommit
       \<lparr>cd_Name = ''a;b'', cd_Version = ''1'', cd_Sequence = 1, cd_InitRequired = False\<rparr> True)"
  using index_entry_roundtrip [of "''ch''" "\<lparr>cd_Name = ''a;b'', cd_Version = ''1'', cd_Sequence = 1, cd_InitRequired = False\<rparr>"
      LifecycleEventCommit 5 True]
  by (simp add: text_ok_def is_i64_def min_i64_def max_i64_def LifecycleEventCommit_def)

lemma high_watermark_read:
  "UnmarshalLifecycleHighWatermark (MarshalLifecycleHighWatermark w) = Inr w \<and>
   UnmarshalLifecycleHighWatermark [] = Inr 0"
proof -
  have "unat w \<le> 2 ^ 64 - 1" using unsigned_less [of w, where ?'a = nat] by simp
  then show ?thesis
    using Parse_Format [of "unat w"]
    by (simp add: UnmarshalLifecycleHighWatermark_def MarshalLifecycleHighWatermark_def)
qed

text \<open>every 64 bit high watermark is read back from its stored text; an absent value is zero.\<close>

theorem high_watermark_roundtrip:
  "UnmarshalLifecycleHighWatermark (MarshalLifecycleHighWatermark w) = Inr w \<and>
   UnmarshalLifecycleHighWatermark [] = Inr 0"
  by (rule high_watermark_read)

end
