(* ===== verification/Lifecycle_Request.thy ===== *)
theory Lifecycle_Request
  imports Lifecycle_Ledger
begin

section \<open>Signed lifecycle requests\<close>

text \<open>
  \<^verbatim>\<open>pkg/lifecycle/request.go\<close> and the payload types of \<^verbatim>\<open>pkg/lifecycle/rpc.go\<close>.  A request carries its payload
  as JSON bytes; the signature covers a JSON object with a domain and every other field.  The
  signer, the clock and the random source are arguments.
\<close>

definition OperationInstall :: string where "OperationInstall = ''install''"
definition OperationQueryInstalled :: string where "OperationQueryInstalled = ''queryinstalled''"
definition OperationApprove :: string where "OperationApprove = ''approveformyorg''"
definition OperationReadiness :: string where "OperationReadiness = ''checkcommitreadiness''"
definition OperationCommit :: string where "OperationCommit = ''commit''"
definition OperationQueryCommitted :: string where "OperationQueryCommitted = ''querycommitted''"
definition OperationMarkInitialized :: string where "OperationMarkInitialized = ''markinitialized''"
definition requestVersion :: u32 where "requestVersion = 1"
definition requestNonceSize :: nat where "requestNonceSize = 24"
definition requestMaxAge :: int where "requestMaxAge = 300000000000"

lemmas operation_names =
  OperationInstall_def OperationQueryInstalled_def OperationApprove_def OperationReadiness_def
  OperationCommit_def OperationQueryCommitted_def OperationMarkInitialized_def

record SignedRequest =
  sr_Version :: u32
  sr_ChannelID :: string
  sr_Operation :: string
  sr_Internal :: bool
  sr_IssuedAt :: int
  sr_Nonce :: bytes
  sr_Payload :: bytes
  sr_Creator :: bytes
  sr_Signature :: bytes

datatype payload =
    InstallRequest bytes
  | QueryInstalledRequest
  | ApproveForMyOrgRequest ChaincodeDefinition string
  | CheckCommitReadinessRequest ChaincodeDefinition
  | CommitRequest ChaincodeDefinition
  | QueryCommittedRequest string string
  | MarkInitializedRequest ChaincodeDefinition
  | OtherPayload json

record signer =
  sg_Serialize :: "bytes option"
  sg_Sign :: "bytes \<Rightarrow> bytes option"

datatype request_error =
    SignerAndChannelRequired
  | UnsupportedPayload
  | OperationNotInMode string
  | SerializeFailed
  | NonceFailed
  | SignFailed

definition internalOperation :: "string \<Rightarrow> bool" where
  "internalOperation operation \<longleftrightarrow>
     operation = OperationReadiness \<or> operation = OperationCommit \<or> operation = OperationMarkInitialized"

fun operationForPayload :: "payload \<Rightarrow> request_error + string" where
  "operationForPayload (InstallRequest _) = Inr OperationInstall"
| "operationForPayload QueryInstalledRequest = Inr OperationQueryInstalled"
| "operationForPayload (ApproveForMyOrgRequest _ _) = Inr OperationApprove"
| "operationForPayload (CheckCommitReadinessRequest _) = Inr OperationReadiness"
| "operationForPayload (CommitRequest _) = Inr OperationCommit"
| "operationForPayload (QueryCommittedRequest _ _) = Inr OperationQueryCommitted"
| "operationForPayload (MarkInitializedRequest _) = Inr OperationMarkInitialized"
| "operationForPayload (OtherPayload _) = Inl UnsupportedPayload"

subsection \<open>JSON of payloads\<close>

definition definition_json :: "ChaincodeDefinition \<Rightarrow> json" where
  "definition_json d = JObj (obj [
     (''name'', JStr (cd_Name d)), (''version'', JStr (cd_Version d)),
     (''sequence'', JNum (FormatInt (cd_Sequence d))), (''init_required'', JBool (cd_InitRequired d))])"

text \<open>Fields tagged \<open>omitempty\<close> are left out when they hold their zero value.\<close>

definition omitempty :: "string \<Rightarrow> string \<Rightarrow> (string \<times> json) list" where
  "omitempty tag s = (if s = [] then [] else [(tag, JStr s)])"

fun payload_json :: "payload \<Rightarrow> json" where
  "payload_json (InstallRequest pkg) = JObj (obj [(''package'', JStr (b64_encode pkg))])"
| "payload_json QueryInstalledRequest = JObj MNil"
| "payload_json (ApproveForMyOrgRequest d packageID) =
     JObj (obj [(''definition'', definition_json d), (''package_id'', JStr packageID)])"
| "payload_json (CheckCommitReadinessRequest d) = JObj (obj [(''definition'', definition_json d)])"
| "payload_json (CommitRequest d) = JObj (obj [(''definition'', definition_json d)])"
| "payload_json (QueryCommittedRequest name version) =
     JObj (obj (omitempty ''name'' name @ omitempty ''version'' version))"
| "payload_json (MarkInitializedRequest d) = JObj (obj [(''definition'', definition_json d)])"
| "payload_json (OtherPayload v) = v"

definition zeroDefinition :: ChaincodeDefinition where
  "zeroDefinition = \<lparr>cd_Name = [], cd_Version = [], cd_Sequence = 0, cd_InitRequired = False\<rparr>"

definition definition_setters :: "ChaincodeDefinition setters" where
  "definition_setters = [
     (''name'', set_string (\<lambda>s. cd_Name_update (\<lambda>_. s))),
     (''version'', set_string (\<lambda>s. cd_Version_update (\<lambda>_. s))),
     (''sequence'', set_int64 (\<lambda>x. cd_Sequence_update (\<lambda>_. x))),
     (''init_required'', set_bool (\<lambda>b. cd_InitRequired_update (\<lambda>_. b)))]"

text \<open>Decoding into the zero value of the payload type the handler expects.\<close>

definition decodeInstall :: "bytes \<Rightarrow> bytes option" where
  "decodeInstall = Unmarshal [(''package'', set_bytes (\<lambda>b _. b))] []"

definition decodeDefinition :: "bytes \<Rightarrow> ChaincodeDefinition option" where
  "decodeDefinition = Unmarshal [(''definition'', \<lambda>v d. decode_value definition_setters v d)] zeroDefinition"

definition decodeApprove :: "bytes \<Rightarrow> (ChaincodeDefinition \<times> string) option" where
  "decodeApprove = Unmarshal [
     (''definition'', \<lambda>v (d, p). map_option (\<lambda>d'. (d', p)) (decode_value definition_setters v d)),
     (''package_id'', set_string (\<lambda>s (d, _). (d, s)))] (zeroDefinition, [])"

definition decodeQueryCommitted :: "bytes \<Rightarrow> (string \<times> string) option" where
  "decodeQueryCommitted = Unmarshal [
     (''name'', set_string (\<lambda>s (_, v). (s, v))), (''version'', set_string (\<lambda>s (n, _). (n, s)))] ([], [])"

definition decodeQueryInstalled :: "bytes \<Rightarrow> unit option" where
  "decodeQueryInstalled = Unmarshal [] ()"

subsection \<open>Signing\<close>

definition signing_json :: "SignedRequest \<Rightarrow> json" where
  "signing_json r = JObj (obj [
     (''domain'', JStr ''compat.lifecycle.request''),
     (''version'', JNum (FormatUint (unat (sr_Version r)))),
     (''channel_id'', JStr (sr_ChannelID r)), (''operation'', JStr (sr_Operation r)),
     (''internal'', JBool (sr_Internal r)), (''issued_at'', JNum (FormatInt (sr_IssuedAt r))),
     (''nonce'', JStr (b64_encode (sr_Nonce r))), (''creator'', JStr (b64_encode (sr_Creator r))),
     (''payload'', JStr (b64_encode (sr_Payload r)))])"

definition signingBytes :: "SignedRequest \<Rightarrow> bytes" where
  "signingBytes r = jprint (signing_json r)"

definition signRequest ::
  "signer option \<Rightarrow> int \<Rightarrow> bytes option \<Rightarrow> string \<Rightarrow> payload \<Rightarrow> bool \<Rightarrow> request_error + SignedRequest" where
  "signRequest signer now nonce channelID payload internal =
     (case signer of None \<Rightarrow> Inl SignerAndChannelRequired
      | Some sg \<Rightarrow>
        if channelID = [] then Inl SignerAndChannelRequired
        else rbind (operationForPayload payload) (\<lambda>operation.
          if (internal \<and> \<not> internalOperation operation) \<or>
             (\<not> internal \<and> operation = OperationMarkInitialized)
          then Inl (OperationNotInMode operation)
          else case sg_Serialize sg of None \<Rightarrow> Inl SerializeFailed
          | Some creator \<Rightarrow>
          (case nonce of None \<Rightarrow> Inl NonceFailed
           | Some bytes \<Rightarrow>
             let req = \<lparr>sr_Version = requestVersion, sr_ChannelID = channelID, sr_Operation = operation,
                        sr_Internal = internal, sr_IssuedAt = now, sr_Nonce = bytes,
                        sr_Payload = jprint (payload_json payload), sr_Creator = creator,
                        sr_Signature = []\<rparr>
             in case sg_Sign sg (signingBytes req) of
                  None \<Rightarrow> Inl SignFailed
                | Some sig \<Rightarrow> Inr (req\<lparr>sr_Signature := sig\<rparr>))))"

definition SignRequest ::
  "signer option \<Rightarrow> int \<Rightarrow> bytes option \<Rightarrow> string \<Rightarrow> payload \<Rightarrow> request_error + SignedRequest" where
  "SignRequest signer now nonce channelID payload = signRequest signer now nonce channelID payload False"

definition SignInternalRequest ::
  "signer option \<Rightarrow> int \<Rightarrow> bytes option \<Rightarrow> string \<Rightarrow> payload \<Rightarrow> request_error + SignedRequest" where
  "SignInternalRequest signer now nonce channelID payload = signRequest signer now nonce channelID payload True"

subsection \<open>Payloads round trip\<close>

lemma utf8_request_tags [simp]:
  "utf8_ok ''package''" "utf8_ok ''package_id''" "utf8_ok ''definition''" "utf8_ok ''domain''"
  "utf8_ok ''operation''" "utf8_ok ''internal''" "utf8_ok ''issued_at''" "utf8_ok ''nonce''"
  "utf8_ok ''creator''" "utf8_ok ''payload''" "utf8_ok ''compat.lifecycle.request''"
  by (rule ascii_utf8, simp)+

lemma definition_json_ok: "text_ok d \<Longrightarrow> json_ok (definition_json d)"
  by (simp add: definition_json_def text_ok_def)

lemma decode_definition_json:
  "text_ok d \<Longrightarrow> decode_value definition_setters (definition_json d) r = Some d"
  by (simp add: decode_value_def definition_json_def definition_setters_def text_ok_def)

lemma definition_json_obj: "definition_json d \<noteq> JNull"
  by (simp add: definition_json_def)

lemma payload_Unmarshal:
  "json_ok (payload_json p) \<Longrightarrow> Unmarshal fs z (jprint (payload_json p)) = decode_value fs (payload_json p) z"
  by (simp only: Unmarshal_def jparse_jprint option.case)

lemma decodeDefinition_json:
  assumes "text_ok d"
  shows "decodeDefinition (jprint (JObj (obj [(''definition'', definition_json d)]))) = Some d"
proof -
  have j: "json_ok (JObj (obj [(''definition'', definition_json d)]))"
    using assms by (simp add: definition_json_ok)
  show ?thesis
    unfolding decodeDefinition_def Unmarshal_def jparse_jprint [OF j]
    using assms by (simp add: decode_definition_json definition_json_obj decode_value_def [of _ "JObj x" for x])
qed

text \<open>What a handler decodes from a payload is what the client encoded, for every package archive and every
  definition in valid UTF-8.\<close>

theorem payload_roundtrip:
  assumes "text_ok d" and "utf8_ok packageID" and "utf8_ok name" and "utf8_ok version"
  shows "decodeInstall (jprint (payload_json (InstallRequest pkg))) = Some pkg \<and>
    decodeQueryInstalled (jprint (payload_json QueryInstalledRequest)) = Some () \<and>
    decodeApprove (jprint (payload_json (ApproveForMyOrgRequest d packageID))) = Some (d, packageID) \<and>
    decodeDefinition (jprint (payload_json (CheckCommitReadinessRequest d))) = Some d \<and>
    decodeDefinition (jprint (payload_json (CommitRequest d))) = Some d \<and>
    decodeDefinition (jprint (payload_json (MarkInitializedRequest d))) = Some d \<and>
    decodeQueryCommitted (jprint (payload_json (QueryCommittedRequest name version))) = Some (name, version)"
proof -
  have "json_ok (payload_json (InstallRequest pkg))" "json_ok (payload_json QueryInstalledRequest)"
    "json_ok (payload_json (ApproveForMyOrgRequest d packageID))"
    "json_ok (payload_json (CheckCommitReadinessRequest d))" "json_ok (payload_json (CommitRequest d))"
    "json_ok (payload_json (MarkInitializedRequest d))"
    "json_ok (payload_json (QueryCommittedRequest name version))"
    using assms by (simp_all add: definition_json_ok omitempty_def)
  note ok = this [THEN payload_Unmarshal]
  show ?thesis
    unfolding decodeInstall_def decodeQueryInstalled_def decodeApprove_def decodeDefinition_def
      decodeQueryCommitted_def ok
    using assms by (simp add: decode_definition_json definition_json_obj omitempty_def
        decode_value_def [of _ "JObj x" for x])
qed

theorem payload_roundtrip_witness:
  "decodeApprove (jprint (payload_json (ApproveForMyOrgRequest
     \<lparr>cd_Name = ''basic'', cd_Version = ''1.0'', cd_Sequence = 2, cd_InitRequired = True\<rparr> ''basic:1''))) =
   Some (\<lparr>cd_Name = ''basic'', cd_Version = ''1.0'', cd_Sequence = 2, cd_InitRequired = True\<rparr>, ''basic:1'')"
  using payload_roundtrip [of "\<lparr>cd_Name = ''basic'', cd_Version = ''1.0'', cd_Sequence = 2, cd_InitRequired = True\<rparr>"
      "''basic:1''" "[]" "[]"]
  by (simp add: text_ok_def is_i64_def min_i64_def max_i64_def)

subsection \<open>The signature binds the request\<close>

definition request_text_ok :: "SignedRequest \<Rightarrow> bool" where
  "request_text_ok r \<longleftrightarrow> utf8_ok (sr_ChannelID r) \<and> utf8_ok (sr_Operation r) \<and> is_i64 (sr_IssuedAt r)"

lemma signing_json_ok: "request_text_ok r \<Longrightarrow> json_ok (signing_json r)"
  by (simp add: signing_json_def request_text_ok_def)

lemma FormatUint_inj: "FormatUint m = FormatUint n \<longleftrightarrow> m = n"
  by (metis dec_val_Format)

lemma FormatInt_inj: "is_i64 x \<Longrightarrow> is_i64 y \<Longrightarrow> FormatInt x = FormatInt y \<longleftrightarrow> x = y"
  by (metis ParseInt_Format sum.inject(2))

lemma signingBytes_inj:
  assumes "request_text_ok r" and "request_text_ok r'"
  shows "signingBytes r = signingBytes r' \<longleftrightarrow> r\<lparr>sr_Signature := []\<rparr> = r'\<lparr>sr_Signature := []\<rparr>"
proof
  assume "signingBytes r = signingBytes r'"
  then have "signing_json r = signing_json r'"
    using json_codec.enc_inj [of "signing_json r" "signing_json r'"] assms signing_json_ok
    by (simp add: signingBytes_def)
  with assms show "r\<lparr>sr_Signature := []\<rparr> = r'\<lparr>sr_Signature := []\<rparr>"
    by (cases r; cases r') (simp add: signing_json_def request_text_ok_def FormatUint_inj FormatInt_inj
        b64_codec.enc_inj flip: word_unat_eq_iff)
next
  assume "r\<lparr>sr_Signature := []\<rparr> = r'\<lparr>sr_Signature := []\<rparr>"
  then show "signingBytes r = signingBytes r'"
    by (cases r; cases r') (simp add: signingBytes_def signing_json_def)
qed

text \<open>Every lifecycle signature is over a text that opens with the domain of the protocol, whatever the
  request; a message of another protocol that does not open so is the signing text of no request.\<close>

definition request_domain :: bytes where
  "request_domain = CHR ''{'' # quote_char # ''domain'' @ quote_char # CHR '':'' # quote_char #
     ''compat.lifecycle.request'' @ [quote_char]"

lemma json_quote_domain: "json_quote ''domain'' = ''domain''"
    "json_quote ''compat.lifecycle.request'' = ''compat.lifecycle.request''"
  by code_simp+

definition opens_with_domain :: "bytes \<Rightarrow> bool" where
  "opens_with_domain message \<longleftrightarrow> take (length request_domain) message = request_domain"

lemma jprint_first_member:
  "\<exists>rest. jprint (JObj (MCons k (JStr v) ms)) =
     (CHR ''{'' # quote_char # json_quote k @ quote_char # CHR '':'' # quote_char # json_quote v @ [quote_char]) @ rest"
  by simp

lemma signingBytes_domain: "opens_with_domain (signingBytes r)"
proof -
  obtain ms where "signing_json r = JObj (MCons ''domain'' (JStr ''compat.lifecycle.request'') ms)"
    by (simp add: signing_json_def)
  then obtain rest where "signingBytes r = request_domain @ rest"
    using jprint_first_member [of "''domain''" "''compat.lifecycle.request''" ms, unfolded json_quote_domain]
    unfolding signingBytes_def request_domain_def by metis
  then show ?thesis by (simp only: opens_with_domain_def append_eq_conv_conj) simp
qed

text \<open>Two requests have the same signed bytes only if they agree in version, channel, operation, mode,
  issue time, nonce, creator and payload; so no signature can be moved to another channel,
  operation or mode.\<close>

theorem signing_bytes_bind:
  assumes "request_text_ok r" and "request_text_ok r'"
  shows "signingBytes r = signingBytes r' \<longleftrightarrow> r\<lparr>sr_Signature := []\<rparr> = r'\<lparr>sr_Signature := []\<rparr>"
  using assms by (rule signingBytes_inj)

theorem signing_bytes_bind_witness:
  "signingBytes \<lparr>sr_Version = 1, sr_ChannelID = ''ch'', sr_Operation = OperationCommit, sr_Internal = False,
     sr_IssuedAt = 5, sr_Nonce = ''n'', sr_Payload = ''p'', sr_Creator = ''c'', sr_Signature = ''s''\<rparr> \<noteq>
   signingBytes \<lparr>sr_Version = 1, sr_ChannelID = ''ch'', sr_Operation = OperationCommit, sr_Internal = True,
     sr_IssuedAt = 5, sr_Nonce = ''n'', sr_Payload = ''p'', sr_Creator = ''c'', sr_Signature = ''s''\<rparr>"
  using signing_bytes_bind [of
      "\<lparr>sr_Version = 1, sr_ChannelID = ''ch'', sr_Operation = OperationCommit, sr_Internal = False,
        sr_IssuedAt = 5, sr_Nonce = ''n'', sr_Payload = ''p'', sr_Creator = ''c'', sr_Signature = ''s''\<rparr>"
      "\<lparr>sr_Version = 1, sr_ChannelID = ''ch'', sr_Operation = OperationCommit, sr_Internal = True,
        sr_IssuedAt = 5, sr_Nonce = ''n'', sr_Payload = ''p'', sr_Creator = ''c'', sr_Signature = ''s''\<rparr>"]
  by (simp add: request_text_ok_def is_i64_def min_i64_def max_i64_def OperationCommit_def)

end
