(* ===== verification/Lifecycle_Auth.thy ===== *)
theory Lifecycle_Auth
  imports Lifecycle_Request
begin

section \<open>MSP trust and lifecycle admission\<close>

text \<open>
  \<^verbatim>\<open>pkg/auth/msp.go\<close> and \<^verbatim>\<open>pkg/lifecycle/auth.go\<close>.  The MSP library, certificate parsing, the policy language and
  the file system are not part of the program: \<open>msp_lib\<close> holds one function for each call the code makes
  to them, over an arbitrary type of identities, and every definition takes it as an argument.  Times
  are nanoseconds; each reading of the clock is an argument of its own.
\<close>

record 'id msp_lib =
  ml_LoadVerifyingMspDir :: "string \<Rightarrow> string \<Rightarrow> bool"
  ml_Setup :: "string list \<Rightarrow> bool"
  ml_SerializedIdentity :: "bytes \<Rightarrow> (string \<times> bytes) option"
  ml_MarshalIdentity :: "string \<Rightarrow> bytes \<Rightarrow> bytes option"
  ml_DeserializeIdentity :: "string list \<Rightarrow> string \<Rightarrow> bytes \<Rightarrow> 'id option"
  ml_Validate :: "'id \<Rightarrow> bool"
  ml_Verify :: "'id \<Rightarrow> bytes \<Rightarrow> bytes \<Rightarrow> bool"
  ml_GetCertificatePEM :: "'id \<Rightarrow> bytes option"
  ml_DecodePEM :: "bytes \<Rightarrow> bytes option"
  ml_ParseCertificate :: "bytes \<Rightarrow> (int \<times> int) option"
  ml_GetIdentifier :: "'id \<Rightarrow> string \<times> string"
  ml_GetMSPIdentifier :: "'id \<Rightarrow> string"
  ml_PolicyFromString :: "string \<Rightarrow> bytes list option"
  ml_MSPRole :: "bytes \<Rightarrow> string option"
  ml_NewPolicy :: "string list \<Rightarrow> string \<Rightarrow> ('id list \<Rightarrow> bool) option"
  ml_ReadFile :: "string \<Rightarrow> bytes option"

subsection \<open>The verifier\<close>

record MSPConfig =
  mc_MSPID :: string
  mc_MSPDir :: string

text \<open>The manager holds the MSPs it was set up with, named by their IDs.\<close>

record Verifier =
  vf_identities :: "string list"
  vf_known :: "string list"

datatype msp_error =
    TrustedMSPsRequired
  | InvalidTrustedMSP string
  | LoadMSP string
  | SetupManager
  | VerificationNotConfigured
  | DecodeCreator
  | CreatorIncomplete
  | DeserializeCreator
  | UntrustedCreator
  | ReadCertificate
  | CertificateNotPEM
  | ParseCertificateFailed
  | OutsideValidity
  | MessageAndSignatureRequired
  | InvalidSignature
  | PolicySyntax
  | PolicyPrincipal
  | PolicyUntrustedMSP string
  | PolicyCompile

fun loadMSPs :: "'id msp_lib \<Rightarrow> MSPConfig list \<Rightarrow> string list \<Rightarrow> msp_error + string list" where
  "loadMSPs lib [] known = Inr known"
| "loadMSPs lib (entry # rest) known =
     (if mc_MSPID entry = [] \<or> mc_MSPDir entry = [] \<or> mc_MSPID entry \<in> set known
      then Inl (InvalidTrustedMSP (mc_MSPID entry))
      else if \<not> ml_LoadVerifyingMspDir lib (mc_MSPID entry) (mc_MSPDir entry)
      then Inl (LoadMSP (mc_MSPID entry))
      else loadMSPs lib rest (known @ [mc_MSPID entry]))"

definition NewVerifier :: "'id msp_lib \<Rightarrow> MSPConfig list \<Rightarrow> msp_error + Verifier" where
  "NewVerifier lib configs =
     (if configs = [] then Inl TrustedMSPsRequired
      else rbind (loadMSPs lib configs []) (\<lambda>known.
        if \<not> ml_Setup lib known then Inl SetupManager
        else Inr \<lparr>vf_identities = known, vf_known = known\<rparr>))"

definition ValidateIdentityTime :: "'id msp_lib \<Rightarrow> 'id \<Rightarrow> int \<Rightarrow> msp_error + unit" where
  "ValidateIdentityTime lib identity now =
     (case ml_GetCertificatePEM lib identity of
        None \<Rightarrow> Inl ReadCertificate
      | Some pem \<Rightarrow>
          (case ml_DecodePEM lib pem of
             None \<Rightarrow> Inl CertificateNotPEM
           | Some block \<Rightarrow>
               (case ml_ParseCertificate lib block of
                  None \<Rightarrow> Inl ParseCertificateFailed
                | Some (notBefore, notAfter) \<Rightarrow>
                    (if now < notBefore \<or> now > notAfter then Inl OutsideValidity else Inr ()))))"

definition Identity :: "'id msp_lib \<Rightarrow> Verifier option \<Rightarrow> bytes \<Rightarrow> int \<Rightarrow> msp_error + 'id" where
  "Identity lib v creator now =
     (case v of None \<Rightarrow> Inl VerificationNotConfigured
      | Some vf \<Rightarrow>
        (case ml_SerializedIdentity lib creator of
           None \<Rightarrow> Inl DecodeCreator
         | Some (mspid, idBytes) \<Rightarrow>
             (if mspid = [] \<or> idBytes = [] then Inl CreatorIncomplete
              else case ml_DeserializeIdentity lib (vf_identities vf) mspid idBytes of
                None \<Rightarrow> Inl DeserializeCreator
              | Some identity \<Rightarrow>
                  (if \<not> ml_Validate lib identity then Inl UntrustedCreator
                   else rbind (ValidateIdentityTime lib identity now) (\<lambda>_. Inr identity)))))"

definition Authenticate ::
  "'id msp_lib \<Rightarrow> Verifier option \<Rightarrow> bytes \<Rightarrow> bytes \<Rightarrow> bytes \<Rightarrow> int \<Rightarrow> msp_error + 'id" where
  "Authenticate lib v creator message signature now =
     (if message = [] \<or> signature = [] then Inl MessageAndSignatureRequired
      else rbind (Identity lib v creator now) (\<lambda>identity.
        if \<not> ml_Verify lib identity message signature then Inl InvalidSignature else Inr identity))"

fun checkPrincipals :: "'id msp_lib \<Rightarrow> string list \<Rightarrow> bytes list \<Rightarrow> msp_error + unit" where
  "checkPrincipals lib known [] = Inr ()"
| "checkPrincipals lib known (p # ps) =
     (case ml_MSPRole lib p of
        None \<Rightarrow> Inl PolicyPrincipal
      | Some mspid \<Rightarrow> (if mspid \<notin> set known then Inl (PolicyUntrustedMSP mspid) else checkPrincipals lib known ps))"

definition CompilePolicy ::
  "'id msp_lib \<Rightarrow> Verifier option \<Rightarrow> string \<Rightarrow> msp_error + ('id list \<Rightarrow> bool)" where
  "CompilePolicy lib v expression =
     (case v of None \<Rightarrow> Inl VerificationNotConfigured
      | Some vf \<Rightarrow>
        (case ml_PolicyFromString lib expression of
           None \<Rightarrow> Inl PolicySyntax
         | Some principals \<Rightarrow>
             rbind (checkPrincipals lib (vf_known vf) principals) (\<lambda>_.
               case ml_NewPolicy lib (vf_identities vf) expression of None \<Rightarrow> Inl PolicyCompile | Some policy \<Rightarrow> Inr policy)))"

subsection \<open>The authorizer\<close>

definition publicOperations :: "string list" where
  "publicOperations = [OperationInstall, OperationQueryInstalled, OperationApprove, OperationReadiness,
     OperationCommit, OperationQueryCommitted]"

record OrchestratorIdentity =
  oi_MSPID :: string
  oi_CertPath :: string

text \<open>The policies map is an association list with unique keys; a missing key reads as the empty string.\<close>

record AuthConfig =
  ac_Policies :: "(string \<times> string) list"
  ac_Orchestrators :: "OrchestratorIdentity list"

record 'id Authorizer =
  au_trust :: "Verifier option"
  au_channelID :: string
  au_mspID :: string
  au_policies :: "(string \<times> ('id list \<Rightarrow> bool)) list"
  au_orchestrators :: "string list"

datatype auth_config_error =
    AuthorizationIncomplete
  | PolicyRequired string
  | UnknownOperation
  | OrchestratorsRequired
  | OrchestratorIncomplete
  | LifecyclePolicy string msp_error
  | ReadOrchestratorCertificate
  | MarshalOrchestrator
  | ConfiguredOrchestrator string msp_error
  | DuplicateOrchestrator string
  | NotLocalOrchestrator
  | LocalIdentity msp_error

definition policy_for :: "AuthConfig \<Rightarrow> string \<Rightarrow> string" where
  "policy_for c operation = (case map_of (ac_Policies c) operation of None \<Rightarrow> [] | Some p \<Rightarrow> p)"

definition AuthConfig_Validate :: "AuthConfig \<Rightarrow> auth_config_error + unit" where
  "AuthConfig_Validate c =
     (case find (\<lambda>operation. policy_for c operation = []) publicOperations of
        Some operation \<Rightarrow> Inl (PolicyRequired operation)
      | None \<Rightarrow>
          (if length (ac_Policies c) \<noteq> length publicOperations then Inl UnknownOperation
           else if ac_Orchestrators c = [] then Inl OrchestratorsRequired
           else if list_ex (\<lambda>identity. oi_MSPID identity = [] \<or> oi_CertPath identity = []) (ac_Orchestrators c)
           then Inl OrchestratorIncomplete
           else Inr ()))"

definition identityKey :: "'id msp_lib \<Rightarrow> 'id \<Rightarrow> string" where
  "identityKey lib identity = (let (mspid, ident) = ml_GetIdentifier lib identity in mspid @ ''|'' @ ident)"

fun compilePolicies ::
  "'id msp_lib \<Rightarrow> Verifier option \<Rightarrow> AuthConfig \<Rightarrow> string list
    \<Rightarrow> auth_config_error + (string \<times> ('id list \<Rightarrow> bool)) list" where
  "compilePolicies lib trust cfg [] = Inr []"
| "compilePolicies lib trust cfg (operation # ops) =
     rbind (map_error (LifecyclePolicy operation) (CompilePolicy lib trust (policy_for cfg operation))) (\<lambda>policy.
     rbind (compilePolicies lib trust cfg ops) (\<lambda>rest. Inr ((operation, policy) # rest)))"

fun loadOrchestrators ::
  "'id msp_lib \<Rightarrow> Verifier option \<Rightarrow> int \<Rightarrow> OrchestratorIdentity list \<Rightarrow> string list
    \<Rightarrow> auth_config_error + string list" where
  "loadOrchestrators lib trust now [] keys = Inr keys"
| "loadOrchestrators lib trust now (entry # rest) keys =
     (case ml_ReadFile lib (oi_CertPath entry) of
        None \<Rightarrow> Inl ReadOrchestratorCertificate
      | Some cert \<Rightarrow>
          (case ml_MarshalIdentity lib (oi_MSPID entry) cert of
             None \<Rightarrow> Inl MarshalOrchestrator
           | Some creator \<Rightarrow>
               rbind (map_error (ConfiguredOrchestrator (oi_MSPID entry)) (Identity lib trust creator now)) (\<lambda>identity.
                 let key = identityKey lib identity in
                 if key \<in> set keys then Inl (DuplicateOrchestrator (oi_MSPID entry))
                 else loadOrchestrators lib trust now rest (keys @ [key]))))"

definition NewAuthorizer ::
  "'id msp_lib \<Rightarrow> Verifier option \<Rightarrow> string \<Rightarrow> string \<Rightarrow> AuthConfig \<Rightarrow> int
    \<Rightarrow> auth_config_error + 'id Authorizer" where
  "NewAuthorizer lib trust channelID mspID cfg now =
     (if trust = None \<or> channelID = [] \<or> mspID = [] then Inl AuthorizationIncomplete
      else rbind (AuthConfig_Validate cfg) (\<lambda>_.
           rbind (compilePolicies lib trust cfg publicOperations) (\<lambda>policies.
           rbind (loadOrchestrators lib trust now (ac_Orchestrators cfg) []) (\<lambda>keys.
             Inr \<lparr>au_trust = trust, au_channelID = channelID, au_mspID = mspID,
                  au_policies = policies, au_orchestrators = keys\<rparr>))))"

definition ValidateOrchestrator ::
  "'id msp_lib \<Rightarrow> 'id Authorizer \<Rightarrow> bytes \<Rightarrow> int \<Rightarrow> auth_config_error + unit" where
  "ValidateOrchestrator lib a creator now =
     rbind (map_error LocalIdentity (Identity lib (au_trust a) creator now)) (\<lambda>identity.
       guard (identityKey lib identity \<in> set (au_orchestrators a)) NotLocalOrchestrator)"

datatype auth_reason =
    NotConfigured | RequestRequired | NotAuthentic msp_error | InvalidEnvelope | ChannelOrOperation
  | OutsideWindow | MetadataConflict | NotOrchestrator | NotLocalOrganization | NotAuthorized string

definition metadata_conflict :: "bool \<Rightarrow> string \<Rightarrow> bool" where
  "metadata_conflict internal v \<longleftrightarrow> (v \<noteq> ''true'' \<and> v \<noteq> ''false'') \<or> (v = ''true'') \<noteq> internal"

definition outside_window :: "int \<Rightarrow> int \<Rightarrow> bool" where
  "outside_window issued now \<longleftrightarrow> issued < now - requestMaxAge \<or> issued > now + requestMaxAge"

text \<open>The envelope, scope and permission checks that follow authentication.\<close>

definition authorize ::
  "'id msp_lib \<Rightarrow> int \<Rightarrow> string list \<Rightarrow> 'id Authorizer \<Rightarrow> SignedRequest \<Rightarrow> string \<Rightarrow> 'id
    \<Rightarrow> (code \<times> auth_reason) + string" where
  "authorize lib now metadata au r operation identity =
     (if sr_Version r \<noteq> requestVersion \<or> length (sr_Nonce r) \<noteq> requestNonceSize \<or> sr_Payload r = []
      then Inl (CodeInvalidArgument, InvalidEnvelope)
      else if sr_ChannelID r \<noteq> au_channelID au \<or> sr_Operation r \<noteq> operation
      then Inl (CodePermissionDenied, ChannelOrOperation)
      else if outside_window (sr_IssuedAt r) now then Inl (CodeUnauthenticated, OutsideWindow)
      else if list_ex (metadata_conflict (sr_Internal r)) metadata
      then Inl (CodePermissionDenied, MetadataConflict)
      else if sr_Internal r then
        (if \<not> internalOperation operation \<or> identityKey lib identity \<notin> set (au_orchestrators au)
         then Inl (CodePermissionDenied, NotOrchestrator)
         else Inr (ml_GetMSPIdentifier lib identity))
      else if (operation = OperationInstall \<or> operation = OperationQueryInstalled \<or> operation = OperationApprove) \<and>
              ml_GetMSPIdentifier lib identity \<noteq> au_mspID au
      then Inl (CodePermissionDenied, NotLocalOrganization)
      else (case map_of (au_policies au) operation of
              None \<Rightarrow> Inl (CodePermissionDenied, NotAuthorized operation)
            | Some policy \<Rightarrow>
                (if policy [identity] then Inr (ml_GetMSPIdentifier lib identity)
                 else Inl (CodePermissionDenied, NotAuthorized operation))))"

definition check ::
  "'id msp_lib \<Rightarrow> int \<Rightarrow> int \<Rightarrow> string list \<Rightarrow> 'id Authorizer option \<Rightarrow> SignedRequest option \<Rightarrow> string
    \<Rightarrow> (code \<times> auth_reason) + string" where
  "check lib t1 t2 metadata a req operation =
     (case a of None \<Rightarrow> Inl (CodeUnauthenticated, NotConfigured)
      | Some au \<Rightarrow>
     (case req of None \<Rightarrow> Inl (CodeUnauthenticated, RequestRequired)
      | Some r \<Rightarrow>
     (case Authenticate lib (au_trust au) (sr_Creator r) (signingBytes r) (sr_Signature r) t1 of
        Inl e \<Rightarrow> Inl (CodeUnauthenticated, NotAuthentic e)
      | Inr identity \<Rightarrow> authorize lib t2 metadata au r operation identity)))"

lemmas [auth_defs] =
  NewVerifier_def ValidateIdentityTime_def Identity_def Authenticate_def CompilePolicy_def
  AuthConfig_Validate_def NewAuthorizer_def ValidateOrchestrator_def check_def

subsection \<open>What admission guarantees\<close>

lemma Authenticate_ok:
  "Authenticate lib v creator message signature now = Inr identity \<longleftrightarrow> message \<noteq> [] \<and> signature \<noteq> [] \<and>
     Identity lib v creator now = Inr identity \<and> ml_Verify lib identity message signature"
  by (auto simp: Authenticate_def rbind_Inr_iff split: if_splits)

lemma Identity_ok:
  assumes "Identity lib v creator now = Inr identity"
  shows "ml_Validate lib identity" and "\<exists>nb na. nb \<le> now \<and> now \<le> na \<and>
    (\<exists>pem block. ml_GetCertificatePEM lib identity = Some pem \<and> ml_DecodePEM lib pem = Some block \<and>
      ml_ParseCertificate lib block = Some (nb, na))"
  using assms by (auto simp: Identity_def ValidateIdentityTime_def rbind_Inr_iff
      split: option.splits prod.splits if_splits)

lemma outside_window_iff: "outside_window issued now \<longleftrightarrow> \<not> \<bar>issued - now\<bar> \<le> requestMaxAge"
  unfolding outside_window_def by linarith

definition permitted :: "'id msp_lib \<Rightarrow> 'id Authorizer \<Rightarrow> SignedRequest \<Rightarrow> string \<Rightarrow> 'id \<Rightarrow> bool" where
  "permitted lib au r operation identity \<longleftrightarrow>
     (if sr_Internal r
      then internalOperation operation \<and> identityKey lib identity \<in> set (au_orchestrators au)
      else (operation \<in> {OperationInstall, OperationQueryInstalled, OperationApprove} \<longrightarrow>
              ml_GetMSPIdentifier lib identity = au_mspID au) \<and>
        (\<exists>policy. map_of (au_policies au) operation = Some policy \<and> policy [identity]))"

lemma authorize_ok:
  "authorize lib now metadata au r operation identity = Inr m \<longleftrightarrow>
     m = ml_GetMSPIdentifier lib identity \<and>
     sr_Version r = requestVersion \<and> length (sr_Nonce r) = requestNonceSize \<and> sr_Payload r \<noteq> [] \<and>
     sr_ChannelID r = au_channelID au \<and> sr_Operation r = operation \<and>
     \<bar>sr_IssuedAt r - now\<bar> \<le> requestMaxAge \<and> \<not> list_ex (metadata_conflict (sr_Internal r)) metadata \<and>
     permitted lib au r operation identity"
  unfolding authorize_def outside_window_iff permitted_def
  by (cases "map_of (au_policies au) operation"; cases "sr_Internal r") auto

lemma check_ok:
  "check lib t1 t2 metadata (Some au) (Some r) operation = Inr m \<longleftrightarrow>
   (\<exists>identity. Identity lib (au_trust au) (sr_Creator r) t1 = Inr identity \<and> sr_Signature r \<noteq> [] \<and>
      ml_Verify lib identity (signingBytes r) (sr_Signature r) \<and> m = ml_GetMSPIdentifier lib identity \<and>
      sr_Version r = requestVersion \<and> length (sr_Nonce r) = requestNonceSize \<and> sr_Payload r \<noteq> [] \<and>
      sr_ChannelID r = au_channelID au \<and> sr_Operation r = operation \<and>
      \<bar>sr_IssuedAt r - t2\<bar> \<le> requestMaxAge \<and> \<not> list_ex (metadata_conflict (sr_Internal r)) metadata \<and>
      permitted lib au r operation identity)"
proof -
  have msg: "signingBytes r \<noteq> []" by (simp add: signingBytes_def signing_json_def)
  show ?thesis
  proof (cases "Authenticate lib (au_trust au) (sr_Creator r) (signingBytes r) (sr_Signature r) t1")
    case (Inl e)
    then show ?thesis using msg by (auto simp: check_def Authenticate_def rbind_Inl_iff split: if_splits)
  next
    case (Inr identity)
    then have "check lib t1 t2 metadata (Some au) (Some r) operation = authorize lib t2 metadata au r operation identity"
      by (simp add: check_def)
    then show ?thesis using Inr [unfolded Authenticate_ok] by (auto simp: authorize_ok)
  qed
qed

text \<open>An admitted request was signed over its own fields by a creator whose certificate is valid now and
  trusted, names this channel and operation, was issued at most five minutes away, and is either an
  internal call by a configured orchestrator or a call the operation's policy accepts, from the local
  organization for install, query and approval.\<close>

theorem admitted_request_authorized:
  assumes "check lib t1 t2 metadata a req operation = Inr m"
  shows "\<exists>au r identity. a = Some au \<and> req = Some r \<and>
    Identity lib (au_trust au) (sr_Creator r) t1 = Inr identity \<and> ml_Validate lib identity \<and>
    ml_Verify lib identity (signingBytes r) (sr_Signature r) \<and> m = ml_GetMSPIdentifier lib identity \<and>
    sr_ChannelID r = au_channelID au \<and> sr_Operation r = operation \<and>
    t2 - requestMaxAge \<le> sr_IssuedAt r \<and> sr_IssuedAt r \<le> t2 + requestMaxAge \<and>
    (sr_Internal r \<longrightarrow> internalOperation operation \<and> identityKey lib identity \<in> set (au_orchestrators au)) \<and>
    (\<not> sr_Internal r \<longrightarrow>
      (operation \<in> {OperationInstall, OperationQueryInstalled, OperationApprove} \<longrightarrow> m = au_mspID au) \<and>
      (\<exists>policy. map_of (au_policies au) operation = Some policy \<and> policy [identity]))"
proof -
  obtain au r where ar: "a = Some au" "req = Some r"
    using assms by (cases a; cases req) (auto simp: check_def)
  from assms [unfolded ar check_ok] obtain identity where
    i: "Identity lib (au_trust au) (sr_Creator r) t1 = Inr identity" "\<bar>sr_IssuedAt r - t2\<bar> \<le> requestMaxAge"
    and rest: "ml_Verify lib identity (signingBytes r) (sr_Signature r)" "m = ml_GetMSPIdentifier lib identity"
      "sr_ChannelID r = au_channelID au" "sr_Operation r = operation" "permitted lib au r operation identity"
    by blast
  have "ml_Validate lib identity" using Identity_ok(1) [OF i(1)] .
  moreover have "t2 - requestMaxAge \<le> sr_IssuedAt r" "sr_IssuedAt r \<le> t2 + requestMaxAge" using i(2) by linarith+
  ultimately show ?thesis using ar i(1) rest by (auto simp: permitted_def)
qed

lemma compilePolicies_dom:
  "compilePolicies lib trust cfg ops = Inr ps \<Longrightarrow> map fst ps = ops"
  by (induction ops arbitrary: ps) (auto simp: rbind_Inr_iff)

text \<open>With an authorizer built from any configuration, initialization can be marked only by an internal
  request of a configured orchestrator: no policy can open that operation to clients.\<close>

theorem mark_initialized_internal_only:
  assumes "NewAuthorizer lib trust channelID mspID cfg now = Inr au"
    and "check lib t1 t2 metadata (Some au) (Some r) OperationMarkInitialized = Inr m"
  shows "sr_Internal r \<and> (\<exists>identity. Identity lib trust (sr_Creator r) t1 = Inr identity \<and>
    identityKey lib identity \<in> set (au_orchestrators au))"
proof -
  have "map fst (au_policies au) = publicOperations" and t: "au_trust au = trust"
    using assms(1) by (auto simp: NewAuthorizer_def rbind_Inr_iff dest: compilePolicies_dom split: if_splits)
  then have "fst ` set (au_policies au) = set publicOperations" by (metis image_set)
  then have "OperationMarkInitialized \<notin> fst ` set (au_policies au)"
    by (simp add: publicOperations_def operation_names)
  then have "map_of (au_policies au) OperationMarkInitialized = None" by (simp add: map_of_eq_None_iff)
  with assms(2) t show ?thesis by (auto simp: check_ok permitted_def split: if_splits)
qed

text \<open>C3: an enrollment key signs lifecycle requests and also messages of other protocols, such as proposals.
  If every message that verifies under the creator's key is the signing text of a lifecycle request its
  owner issued, or a message of another protocol, none of which opens with the lifecycle domain, then
  every admitted request is one the owner issued as a lifecycle request, for this very channel,
  operation and mode, up to the signature bytes: no other signature of that key passes for one.\<close>

theorem admitted_request_was_signed:
  assumes "check lib t1 t2 metadata (Some au) (Some r) operation = Inr m"
    and unforgeable: "\<And>identity message signature. Identity lib (au_trust au) (sr_Creator r) t1 = Inr identity \<Longrightarrow>
      ml_Verify lib identity message signature \<Longrightarrow> message \<in> signingBytes ` issued \<or> message \<in> foreign"
    and separated: "\<And>message. message \<in> foreign \<Longrightarrow> \<not> opens_with_domain message"
    and "request_text_ok r" and "\<And>s. s \<in> issued \<Longrightarrow> request_text_ok s"
  shows "\<exists>s \<in> issued. s\<lparr>sr_Signature := []\<rparr> = r\<lparr>sr_Signature := []\<rparr> \<and>
    sr_ChannelID s = au_channelID au \<and> sr_Operation s = operation \<and> sr_Internal s = sr_Internal r"
proof -
  obtain identity where i: "Identity lib (au_trust au) (sr_Creator r) t1 = Inr identity"
    "ml_Verify lib identity (signingBytes r) (sr_Signature r)"
    "sr_ChannelID r = au_channelID au" "sr_Operation r = operation"
    using assms(1) unfolding check_ok by blast
  from unforgeable [OF i(1,2)] separated signingBytes_domain
  obtain s where s: "s \<in> issued" "signingBytes r = signingBytes s" by blast
  have eq: "r\<lparr>sr_Signature := []\<rparr> = s\<lparr>sr_Signature := []\<rparr>"
    using signingBytes_inj [OF assms(4) assms(5) [OF s(1)]] s(2) by simp
  have same: "sr_ChannelID s = sr_ChannelID r" "sr_Operation s = sr_Operation r" "sr_Internal s = sr_Internal r"
    using arg_cong [OF eq, of sr_ChannelID] arg_cong [OF eq, of sr_Operation] arg_cong [OF eq, of sr_Internal]
    by simp_all
  show ?thesis
  proof (rule bexI [OF _ s(1)])
    show "s\<lparr>sr_Signature := []\<rparr> = r\<lparr>sr_Signature := []\<rparr> \<and> sr_ChannelID s = au_channelID au \<and>
        sr_Operation s = operation \<and> sr_Internal s = sr_Internal r"
      using eq i by (simp add: same)
  qed
qed

lemma no_conflict_iff:
  "\<not> list_ex (metadata_conflict internal) metadata \<longleftrightarrow>
     (\<forall>v \<in> set metadata. v = (if internal then ''true'' else ''false''))"
  by (auto simp: list_ex_iff metadata_conflict_def)

text \<open>C30: a request signed by this package and checked on its channel while it is fresh, by an authorizer
  that trusts the signer's identity and verifies its signatures, with metadata that agrees with its
  mode, is admitted under the signer's organization exactly when it is permitted: an internal request
  when the signer is a listed orchestrator; a public one when the operation's policy accepts the signer
  and, for install, query-installed and approval only, the signer is of the local organization.\<close>

theorem signed_request_admitted:
  assumes "signRequest (Some sg) now (Some nonce) (au_channelID au) payload internal = Inr r"
    and "length nonce = requestNonceSize" and "\<bar>now - t2\<bar> \<le> requestMaxAge"
    and "sg_Serialize sg = Some creator" and "Identity lib (au_trust au) creator t1 = Inr identity"
    and "\<And>message signature. sg_Sign sg message = Some signature \<Longrightarrow>
      signature \<noteq> [] \<and> ml_Verify lib identity message signature"
    and "operationForPayload payload = Inr operation" and "jprint (payload_json payload) \<noteq> []"
    and "\<And>v. v \<in> set metadata \<Longrightarrow> v = (if internal then ''true'' else ''false'')"
  shows "check lib t1 t2 metadata (Some au) (Some r) operation = Inr m \<longleftrightarrow>
    m = ml_GetMSPIdentifier lib identity \<and>
    (if internal then identityKey lib identity \<in> set (au_orchestrators au)
     else (operation \<in> {OperationInstall, OperationQueryInstalled, OperationApprove} \<longrightarrow>
             ml_GetMSPIdentifier lib identity = au_mspID au) \<and>
       (\<exists>policy. map_of (au_policies au) operation = Some policy \<and> policy [identity]))"
proof -
  obtain sig where r: "r = \<lparr>sr_Version = requestVersion, sr_ChannelID = au_channelID au,
      sr_Operation = operation, sr_Internal = internal, sr_IssuedAt = now, sr_Nonce = nonce,
      sr_Payload = jprint (payload_json payload), sr_Creator = creator, sr_Signature = sig\<rparr>"
    and sig: "sg_Sign sg (signingBytes (r\<lparr>sr_Signature := []\<rparr>)) = Some sig"
    and mode: "internal \<longrightarrow> internalOperation operation"
    using assms(1,4,7) by (auto simp: signRequest_def Let_def split: if_splits option.splits)
  have "signingBytes (r\<lparr>sr_Signature := []\<rparr>) = signingBytes r"
    by (simp add: signingBytes_def signing_json_def)
  with sig assms(6) have "sig \<noteq> [] \<and> ml_Verify lib identity (signingBytes r) sig" by metis
  moreover have "\<not> list_ex (metadata_conflict internal) metadata"
    using assms(9) by (simp add: no_conflict_iff)
  ultimately show ?thesis using assms(2,3,5,8) r mode by (auto simp: check_ok permitted_def)
qed

subsection \<open>A concrete trust domain\<close>

text \<open>Identities are MSP names, creators are those names, and a signature is the letter S and the message.\<close>

definition sample_lib :: "string msp_lib" where
  "sample_lib = \<lparr>ml_LoadVerifyingMspDir = (\<lambda>_ _. True), ml_Setup = (\<lambda>_. True),
     ml_SerializedIdentity = (\<lambda>c. Some (c, ''cert'')), ml_MarshalIdentity = (\<lambda>m _. Some m),
     ml_DeserializeIdentity = (\<lambda>known m _. if m \<in> set known then Some m else None),
     ml_Validate = (\<lambda>_. True), ml_Verify = (\<lambda>_ m s. s = CHR ''S'' # m),
     ml_GetCertificatePEM = Some, ml_DecodePEM = Some, ml_ParseCertificate = (\<lambda>_. Some (0, 1000)),
     ml_GetIdentifier = (\<lambda>i. (i, i)), ml_GetMSPIdentifier = (\<lambda>i. i),
     ml_PolicyFromString = (\<lambda>e. Some [e]), ml_MSPRole = Some,
     ml_NewPolicy = (\<lambda>_ e. Some (\<lambda>ids. e \<in> set ids)), ml_ReadFile = Some\<rparr>"

definition sample_auth :: "string Authorizer" where
  "sample_auth = \<lparr>au_trust = Some \<lparr>vf_identities = [''Org1'', ''Org2''], vf_known = [''Org1'', ''Org2'']\<rparr>,
     au_channelID = ''ch'', au_mspID = ''Org1'',
     au_policies = map (\<lambda>x. (x, \<lambda>ids. ''Org1'' \<in> set ids)) publicOperations,
     au_orchestrators = [''Org1|Org1'', ''Org2|Org2'']\<rparr>"

definition sample_request :: "string \<Rightarrow> string \<Rightarrow> bool \<Rightarrow> bytes \<Rightarrow> SignedRequest" where
  "sample_request creator operation internal payload =
     (let r = \<lparr>sr_Version = 1, sr_ChannelID = ''ch'', sr_Operation = operation, sr_Internal = internal,
               sr_IssuedAt = 5, sr_Nonce = replicate 24 CHR ''n'', sr_Payload = payload, sr_Creator = creator,
               sr_Signature = []\<rparr>
      in r\<lparr>sr_Signature := CHR ''S'' # signingBytes r\<rparr>)"

lemma signingBytes_sig [simp]: "signingBytes (r\<lparr>sr_Signature := s\<rparr>) = signingBytes r"
  by (simp add: signingBytes_def signing_json_def)

lemma sample_request_sel [simp]:
  "sr_Version (sample_request c op i p) = 1" "sr_ChannelID (sample_request c op i p) = ''ch''"
  "sr_Operation (sample_request c op i p) = op" "sr_Internal (sample_request c op i p) = i"
  "sr_IssuedAt (sample_request c op i p) = 5" "sr_Nonce (sample_request c op i p) = replicate 24 CHR ''n''"
  "sr_Payload (sample_request c op i p) = p" "sr_Creator (sample_request c op i p) = c"
  "sr_Signature (sample_request c op i p) = CHR ''S'' # signingBytes (sample_request c op i p)"
  by (simp_all add: sample_request_def Let_def signingBytes_def signing_json_def)

lemma sample_Identity: "Identity sample_lib (au_trust sample_auth) c 10 =
    (if c = [] then Inl CreatorIncomplete else if c \<in> {''Org1'', ''Org2''} then Inr c else Inl DeserializeCreator)"
  by (simp add: Identity_def ValidateIdentityTime_def sample_lib_def sample_auth_def)

lemma Identity_verify_irrelevant: "Identity (lib\<lparr>ml_Verify := f\<rparr>) v c t = Identity lib v c t"
  by (simp add: Identity_def ValidateIdentityTime_def split: option.split prod.split)

lemma sample_internal_ok:
  "internalOperation operation \<Longrightarrow> p \<noteq> [] \<Longrightarrow> check sample_lib 10 10 [] (Some sample_auth)
     (Some (sample_request ''Org2'' operation True p)) operation = Inr ''Org2''"
  unfolding check_ok
  by (simp add: sample_Identity)
    (simp add: sample_lib_def sample_auth_def requestVersion_def requestNonceSize_def requestMaxAge_def
      identityKey_def permitted_def)

lemma sample_public_ok:
  "operation \<in> set publicOperations \<Longrightarrow> p \<noteq> [] \<Longrightarrow> check sample_lib 10 10 [] (Some sample_auth)
     (Some (sample_request ''Org1'' operation False p)) operation = Inr ''Org1''"
  unfolding check_ok
  by (simp add: sample_Identity)
    (auto simp: sample_lib_def sample_auth_def requestVersion_def requestNonceSize_def requestMaxAge_def
      identityKey_def permitted_def map_of_map_restrict)

lemma internal_mark: "internalOperation OperationMarkInitialized" "internalOperation OperationCommit"
  by (simp_all add: internalOperation_def)

theorem admitted_request_authorized_witness:
  "\<exists>au r identity. Some sample_auth = Some au \<and> Some (sample_request ''Org2'' OperationCommit True ''p'') = Some r \<and>
     identityKey sample_lib identity \<in> set (au_orchestrators au) \<and> ''Org2'' = ml_GetMSPIdentifier sample_lib identity"
  using admitted_request_authorized [OF sample_internal_ok [OF internal_mark(2), of "''p''"]]
  by fastforce

theorem mark_initialized_internal_only_witness:
  "sr_Internal (sample_request ''Org2'' OperationMarkInitialized True ''p'')"
proof -
  let ?cfg = "\<lparr>ac_Policies = map (\<lambda>x. (x, ''Org1'')) publicOperations,
    ac_Orchestrators = [\<lparr>oi_MSPID = ''Org1'', oi_CertPath = ''a''\<rparr>, \<lparr>oi_MSPID = ''Org2'', oi_CertPath = ''b''\<rparr>]\<rparr>"
  have "NewAuthorizer sample_lib (au_trust sample_auth) ''ch'' ''Org1'' ?cfg 10 = Inr sample_auth"
    by (simp add: NewAuthorizer_def sample_auth_def sample_lib_def AuthConfig_Validate_def policy_for_def
        publicOperations_def operation_names CompilePolicy_def Identity_def ValidateIdentityTime_def
        identityKey_def fun_eq_iff)
  from mark_initialized_internal_only [OF this sample_internal_ok [OF internal_mark(1)], of "''p''"]
  show ?thesis by blast
qed

text \<open>A key whose owner has signed one lifecycle request and one proposal, whose first byte is the tag of
  a protobuf field.\<close>

theorem admitted_request_was_signed_witness:
  "\<exists>s \<in> {sample_request ''Org2'' OperationCommit True ''p''}. sr_Operation s = OperationCommit \<and> sr_Internal s"
proof -
  let ?r = "sample_request ''Org2'' OperationCommit True ''p''"
  let ?proposal = "CHR 0x0A # ''proposal''"
  let ?lib = "sample_lib\<lparr>ml_Verify := \<lambda>_ m s. (m = signingBytes ?r \<or> m = ?proposal) \<and> s = CHR ''S'' # m\<rparr>"
  have "check ?lib 10 10 [] (Some sample_auth) (Some ?r) OperationCommit = Inr ''Org2''"
    unfolding check_ok
    by (simp add: Identity_verify_irrelevant sample_Identity)
      (simp add: sample_lib_def sample_auth_def requestVersion_def requestNonceSize_def requestMaxAge_def
        identityKey_def permitted_def internal_mark)
  moreover have "request_text_ok ?r"
    by (simp add: request_text_ok_def OperationCommit_def is_i64_def min_i64_def max_i64_def)
  moreover have "\<not> opens_with_domain ?proposal" by (simp add: opens_with_domain_def request_domain_def)
  ultimately show ?thesis
    using admitted_request_was_signed [of ?lib 10 10 "[]" sample_auth ?r OperationCommit "''Org2''" "{?r}"
        "{?proposal}"]
    by auto
qed

text \<open>Org2 is not the local organization; the policies here accept it: its public commit is admitted, its
  approval is not.\<close>

definition open_auth :: "string Authorizer" where
  "open_auth = sample_auth\<lparr>au_policies := map (\<lambda>x. (x, \<lambda>ids. ''Org2'' \<in> set ids)) publicOperations\<rparr>"

lemma open_auth_sel: "au_trust open_auth = au_trust sample_auth" "au_channelID open_auth = ''ch''"
    "au_mspID open_auth = ''Org1''"
    "x \<in> set publicOperations \<Longrightarrow> map_of (au_policies open_auth) x = Some (\<lambda>ids. ''Org2'' \<in> set ids)"
  by (simp_all add: open_auth_def sample_auth_def map_of_map_restrict)

theorem signed_request_admitted_witness:
  "\<exists>r r'. SignRequest (Some \<lparr>sg_Serialize = Some ''Org2'', sg_Sign = \<lambda>m. Some (CHR ''S'' # m)\<rparr>) 5
       (Some (replicate 24 CHR ''n'')) ''ch'' (CommitRequest zeroDefinition) = Inr r \<and>
     check sample_lib 10 10 [''false''] (Some open_auth) (Some r) OperationCommit = Inr ''Org2'' \<and>
     SignRequest (Some \<lparr>sg_Serialize = Some ''Org2'', sg_Sign = \<lambda>m. Some (CHR ''S'' # m)\<rparr>) 5
       (Some (replicate 24 CHR ''n'')) ''ch'' (ApproveForMyOrgRequest zeroDefinition ''p'') = Inr r' \<and>
     check sample_lib 10 10 [''false''] (Some open_auth) (Some r') OperationApprove \<noteq> Inr ''Org2''"
proof -
  let ?sg = "\<lparr>sg_Serialize = Some ''Org2'', sg_Sign = \<lambda>m. Some (CHR ''S'' # m)\<rparr>"
  let ?sign = "\<lambda>payload. signRequest (Some ?sg) 5 (Some (replicate 24 CHR ''n'')) (au_channelID open_auth) payload False"
  note sel = open_auth_sel
  have iff: "check sample_lib 10 10 [''false''] (Some open_auth) (Some r) operation = Inr ''Org2'' \<longleftrightarrow>
      ''Org2'' = ml_GetMSPIdentifier sample_lib ''Org2'' \<and>
      (if False then identityKey sample_lib ''Org2'' \<in> set (au_orchestrators open_auth)
       else (operation \<in> {OperationInstall, OperationQueryInstalled, OperationApprove} \<longrightarrow>
               ml_GetMSPIdentifier sample_lib ''Org2'' = au_mspID open_auth) \<and>
         (\<exists>policy. map_of (au_policies open_auth) operation = Some policy \<and> policy [''Org2'']))"
    if "?sign payload = Inr r" and "operationForPayload payload = Inr operation" and "jprint (payload_json payload) \<noteq> []"
    for payload r operation
    by (rule signed_request_admitted [OF that(1)])
      (use that in \<open>simp_all add: requestNonceSize_def requestMaxAge_def sample_Identity sel,
       simp_all add: sample_lib_def\<close>)
  have public: "OperationCommit \<noteq> OperationMarkInitialized" "OperationApprove \<noteq> OperationMarkInitialized"
    by (simp_all add: operation_names)
  obtain r where r: "?sign (CommitRequest zeroDefinition) = Inr r"
    by (simp add: signRequest_def sel public Let_def)
  obtain r' where r': "?sign (ApproveForMyOrgRequest zeroDefinition ''p'') = Inr r'"
    by (simp add: signRequest_def sel public Let_def)
  have "OperationCommit \<in> set publicOperations" "OperationCommit \<notin> {OperationInstall, OperationQueryInstalled, OperationApprove}"
    by (simp_all add: publicOperations_def operation_names)
  with iff [OF r] have "check sample_lib 10 10 [''false''] (Some open_auth) (Some r) OperationCommit = Inr ''Org2''"
    by (simp add: sel sample_lib_def)
  moreover from iff [OF r'] have "check sample_lib 10 10 [''false''] (Some open_auth) (Some r') OperationApprove \<noteq> Inr ''Org2''"
    by (simp add: sel sample_lib_def)
  ultimately show ?thesis using r r' by (auto simp: SignRequest_def sel)
qed

end
