(* ===== verification/Lifecycle_Package.thy ===== *)
theory Lifecycle_Package
  imports Go_Json
begin

section \<open>Chaincode packages\<close>

text \<open>
  The reading half of \<^verbatim>\<open>pkg/lifecycle/package.go\<close>: a package is a gzipped tar archive with a
  \<^verbatim>\<open>metadata.json\<close> and a nested \<^verbatim>\<open>code.tar.gz\<close> whose \<^verbatim>\<open>connection.json\<close> names the chaincode address.  Decompression,
  the tar format and SHA-256 are arguments (\<open>archive_lib\<close>); path cleaning, name checks, JSON and the package
  identifier are defined here.
\<close>

datatype tar_type = TypeReg | TypeRegA | TypeOther

text \<open>An entry whose body cannot be read has no data; an archive may end in a read error.\<close>

record tar_entry =
  te_Name :: string
  te_Typeflag :: tar_type
  te_Data :: "bytes option"

record archive_lib =
  al_gunzip_tar :: "bytes \<Rightarrow> (tar_entry list \<times> bool) option"
  al_sha256 :: "bytes \<Rightarrow> bytes"

record PackageDescriptor =
  pd_Label :: string
  pd_Type :: string
  pd_PackageID :: string
  pd_Address :: string
  pd_MetadataJSON :: bytes
  pd_ConnectionJSON :: bytes
  pd_PackageTGZ :: bytes

datatype package_error =
    PackageEmpty
  | OpenGzip
  | ReadTar
  | ReadTarEntry string
  | InvalidPackagePath string
  | MissingMetadata
  | MissingCode
  | DecodeMetadata
  | LabelRequired
  | TypeRequired
  | TypeMustBeExternal
  | MissingConnection
  | DecodeConnection
  | AddressMissing
  | ReadCode package_error

definition externalChaincodeType :: string where
  "externalChaincodeType = ''external''"

subsection \<open>Paths\<close>

fun split_slash :: "string \<Rightarrow> string list" where
  "split_slash [] = [[]]"
| "split_slash (c # cs) =
     (if c = CHR ''/'' then [] # split_slash cs
      else case split_slash cs of [] \<Rightarrow> [[c]] | w # ws \<Rightarrow> (c # w) # ws)"

fun join_slash :: "string list \<Rightarrow> string" where
  "join_slash [] = []"
| "join_slash [w] = w"
| "join_slash (w # ws) = w @ CHR ''/'' # join_slash ws"

text \<open>One component of \<^verbatim>\<open>filepath.Clean\<close>; the components kept so far are in reverse order.\<close>

definition clean_step :: "bool \<Rightarrow> string \<Rightarrow> string list \<Rightarrow> string list" where
  "clean_step rooted w out =
     (if w = [] \<or> w = ''.'' then out
      else if w = ''..'' then
        (case out of
           [] \<Rightarrow> if rooted then [] else [''..'']
         | prev # rest \<Rightarrow> if prev = ''..'' then ''..'' # out else rest)
      else w # out)"

definition Clean :: "string \<Rightarrow> string" where
  "Clean path =
     (if path = [] then ''.''
      else let rooted = (hd path = CHR ''/'');
               out = rev (fold (clean_step rooted) (split_slash path) [])
        in if rooted then CHR ''/'' # join_slash out
           else if out = [] then ''.'' else join_slash out)"

definition has_prefix :: "string \<Rightarrow> string \<Rightarrow> bool" where
  "has_prefix s p \<longleftrightarrow> take (length p) s = p"

fun contains :: "string \<Rightarrow> string \<Rightarrow> bool" where
  "contains [] p = (p = [])"
| "contains (c # cs) p = (has_prefix (c # cs) p \<or> contains cs p)"

definition tarName :: "string \<Rightarrow> package_error + string" where
  "tarName path = (let name = Clean path in
     if name = ''.'' \<or> name = [] \<or> has_prefix name ''../'' \<or> has_prefix name ''/'' \<or> contains name ''/../''
     then Inl (InvalidPackagePath path) else Inr name)"

subsection \<open>Archives\<close>

fun readEntries :: "tar_entry list \<Rightarrow> bool \<Rightarrow> (string \<times> bytes) list \<Rightarrow> package_error + (string \<times> bytes) list" where
  "readEntries [] complete entries = (if complete then Inr entries else Inl ReadTar)"
| "readEntries (hdr # rest) complete entries =
     rbind (tarName (te_Name hdr)) (\<lambda>name.
       if te_Typeflag hdr \<noteq> TypeReg \<and> te_Typeflag hdr \<noteq> TypeRegA then readEntries rest complete entries
       else case te_Data hdr of
         None \<Rightarrow> Inl (ReadTarEntry name)
       | Some v \<Rightarrow> readEntries rest complete ((name, v) # entries))"

text \<open>The map of entries is an association list with the latest write first.\<close>

definition readTarGz :: "archive_lib \<Rightarrow> bytes \<Rightarrow> package_error + (string \<times> bytes) list" where
  "readTarGz lib data =
     (case al_gunzip_tar lib data of
        None \<Rightarrow> Inl OpenGzip
      | Some (hdrs, complete) \<Rightarrow> readEntries hdrs complete [])"

subsection \<open>Metadata\<close>

text \<open>A number decoded without a target type must fit a 64 bit float: literals whose value rounds to
  infinity are rejected.\<close>

definition float_limit :: nat where
  "float_limit = 2 ^ 1024 - 2 ^ 970"

definition float_ok :: "string \<Rightarrow> bool" where
  "float_ok lit =
     (let body = filter (\<lambda>c. c \<noteq> CHR ''-'') (takeWhile (\<lambda>c. c \<noteq> CHR ''e'' \<and> c \<noteq> CHR ''E'') lit);
          ex = drop 1 (dropWhile (\<lambda>c. c \<noteq> CHR ''e'' \<and> c \<noteq> CHR ''E'') lit);
          ipart = takeWhile is_digit body;
          fpart = drop 1 (dropWhile is_digit body);
          mant = dec_val 0 (ipart @ fpart);
          e = (if ex \<noteq> [] \<and> hd ex = CHR ''-'' then - int (dec_val 0 (drop 1 ex))
               else int (dec_val 0 (filter is_digit ex))) - int (length fpart)
      in if 0 \<le> e then mant * 10 ^ nat e < float_limit else mant < float_limit * 10 ^ nat (- e))"

primrec any_ok :: "json \<Rightarrow> bool" and anys_ok :: "jsons \<Rightarrow> bool" and any_members_ok :: "members \<Rightarrow> bool" where
  "any_ok JNull = True"
| "any_ok (JBool b) = True"
| "any_ok (JNum lit) = float_ok lit"
| "any_ok (JStr s) = True"
| "any_ok (JArr es) = anys_ok es"
| "any_ok (JObj ms) = any_members_ok ms"
| "anys_ok ENil = True"
| "anys_ok (ECons v es) = (any_ok v \<and> anys_ok es)"
| "any_members_ok MNil = True"
| "any_members_ok (MCons k v ms) = (any_ok v \<and> any_members_ok ms)"

text \<open>Decoding into a map: null leaves it nil, and the last member of a name wins.\<close>

definition UnmarshalMap :: "bytes \<Rightarrow> (string \<times> json) list option" where
  "UnmarshalMap data = (case jparse data of
       Some JNull \<Rightarrow> Some []
     | Some (JObj ms) \<Rightarrow> (if any_members_ok ms then Some (rev (member_list ms)) else None)
     | _ \<Rightarrow> None)"

definition metadataString :: "(string \<times> json) list \<Rightarrow> string \<Rightarrow> string" where
  "metadataString metadata key = (case map_of metadata key of Some (JStr s) \<Rightarrow> s | _ \<Rightarrow> [])"

definition connectionAddress :: "bytes \<Rightarrow> package_error + string" where
  "connectionAddress connectionBytes =
     rbind (require DecodeConnection (UnmarshalMap connectionBytes)) (\<lambda>connection.
       let address = metadataString connection ''address'' in
       if address = [] then Inl AddressMissing else Inr address)"

definition hex_encode :: "bytes \<Rightarrow> string" where
  "hex_encode s = concat (map (\<lambda>c. [lower_hex (byte c div 16), lower_hex (byte c mod 16)]) s)"

definition InspectPackageBytes :: "archive_lib \<Rightarrow> bytes \<Rightarrow> package_error + PackageDescriptor" where
  "InspectPackageBytes lib packageBytes =
     (if packageBytes = [] then Inl PackageEmpty
      else rbind (readTarGz lib packageBytes) (\<lambda>outer.
        rbind (require MissingMetadata (map_of outer ''metadata.json'')) (\<lambda>metadataBytes.
        rbind (require MissingCode (map_of outer ''code.tar.gz'')) (\<lambda>codePackage.
        rbind (require DecodeMetadata (UnmarshalMap metadataBytes)) (\<lambda>metadata.
        let label = metadataString metadata ''label'';
            chaincodeType = metadataString metadata ''type''
        in if label = [] then Inl LabelRequired
           else if chaincodeType = [] then Inl TypeRequired
           else if chaincodeType \<noteq> externalChaincodeType then Inl TypeMustBeExternal
           else rbind (map_error ReadCode (readTarGz lib codePackage)) (\<lambda>inner.
             rbind (require MissingConnection (map_of inner ''connection.json'')) (\<lambda>connectionBytes.
             rbind (connectionAddress connectionBytes) (\<lambda>address.
               Inr \<lparr>pd_Label = label, pd_Type = chaincodeType,
                    pd_PackageID = label @ CHR '':'' # hex_encode (al_sha256 lib packageBytes),
                    pd_Address = address, pd_MetadataJSON = metadataBytes,
                    pd_ConnectionJSON = connectionBytes, pd_PackageTGZ = packageBytes\<rparr>))))))))"

subsection \<open>Names of archive entries\<close>

lemma clean_step_plain:
  "set (clean_step rooted w out) \<subseteq> insert w (insert ''..'' (set out))"
  by (auto simp: clean_step_def split: list.splits if_splits)

text \<open>Parent components survive cleaning only as a leading block of a relative path.\<close>

definition parents_lead :: "bool \<Rightarrow> string list \<Rightarrow> bool" where
  "parents_lead rooted out \<longleftrightarrow> (\<exists>k ws. out = ws @ replicate k ''..'' \<and> ''..'' \<notin> set ws \<and> (rooted \<longrightarrow> k = 0)) \<and>
     [] \<notin> set out \<and> ''.'' \<notin> set out"

lemma parents_lead_Nil: "parents_lead rooted []"
  by (auto simp: parents_lead_def intro: exI [of _ 0] exI [of _ "[]"])

lemma parents_lead_step:
  assumes "parents_lead rooted out"
  shows "parents_lead rooted (clean_step rooted w out)"
proof -
  obtain k ws where out: "out = ws @ replicate k ''..''" "''..'' \<notin> set ws" "rooted \<longrightarrow> k = 0"
    and plain: "[] \<notin> set out" "''.'' \<notin> set out"
    using assms unfolding parents_lead_def by blast
  consider (skip) "w = [] \<or> w = ''.''" | (up) "w = ''..''" | (name) "w \<notin> {[], ''.'', ''..''}" by blast
  then show ?thesis
  proof cases
    case skip
    then show ?thesis using assms by (simp add: clean_step_def)
  next
    case name
    then have "w # out = (w # ws) @ replicate k ''..''" using out by simp
    with name out plain show ?thesis
      by (auto simp: clean_step_def parents_lead_def intro!: exI [of _ k] exI [of _ "w # ws"])
  next
    case up
    show ?thesis
    proof (cases ws)
      case Nil
      then have "\<not> rooted \<Longrightarrow> clean_step rooted w out = replicate (Suc k) ''..''"
        and "rooted \<Longrightarrow> clean_step rooted w out = []"
        using up out by (cases k; simp add: clean_step_def)+
      then show ?thesis
        by (cases rooted) (auto simp: parents_lead_Nil parents_lead_def intro!: exI [of _ "Suc k"] exI [of _ "[]"])
    next
      case (Cons v vs)
      then have "clean_step rooted w out = vs @ replicate k ''..''"
        using up out by (auto simp: clean_step_def)
      with Cons out plain show ?thesis
        by (auto simp: parents_lead_def intro!: exI [of _ k] exI [of _ vs])
    qed
  qed
qed

lemma parents_lead_fold: "parents_lead rooted out \<Longrightarrow> parents_lead rooted (fold (clean_step rooted) ws out)"
  by (induction ws arbitrary: out) (simp_all add: parents_lead_step)

lemma split_slash_plain: "w \<in> set (split_slash s) \<Longrightarrow> CHR ''/'' \<notin> set w"
  by (induction s arbitrary: w) (auto split: if_splits list.splits)

lemma clean_fold_plain:
  "set (fold (clean_step rooted) ws out) \<subseteq> set ws \<union> {''..''} \<union> set out"
proof (induction ws arbitrary: out)
  case (Cons w ws)
  have "set (fold (clean_step rooted) ws (clean_step rooted w out)) \<subseteq> set ws \<union> {''..''} \<union> set (clean_step rooted w out)"
    by (rule Cons.IH)
  also have "\<dots> \<subseteq> set (w # ws) \<union> {''..''} \<union> set out" using clean_step_plain [of rooted w out] by auto
  finally show ?case by simp
qed auto

lemma join_slash_Cons2: "ws \<noteq> [] \<Longrightarrow> join_slash (w # ws) = w @ CHR ''/'' # join_slash ws"
  by (cases ws) simp_all

text \<open>an accepted entry name is a relative path of plain components, without empty, dot or parent
  components, so an archive cannot name a file outside its root; the one exception is the bare
  parent name, which the check lets through.\<close>

theorem tarName_relative:
  assumes "tarName path = Inr name"
  shows "\<exists>ws. name = join_slash ws \<and> ws \<noteq> [] \<and> (\<forall>w \<in> set ws. CHR ''/'' \<notin> set w \<and> w \<noteq> [] \<and> w \<noteq> ''.'') \<and>
    (''..'' \<in> set ws \<longrightarrow> name = ''..'')"
proof -
  have name: "name = Clean path" and ok: "name \<noteq> ''.''" "\<not> has_prefix name ''../''" "\<not> has_prefix name ''/''"
    using assms by (auto simp: tarName_def Let_def split: if_splits)
  define rooted where "rooted = (hd path = CHR ''/'')"
  define stack where "stack = fold (clean_step rooted) (split_slash path) []"
  have path: "path \<noteq> []" using ok(1) name by (auto simp: Clean_def)
  have clean: "name = (if rooted then CHR ''/'' # join_slash (rev stack)
      else if rev stack = [] then ''.'' else join_slash (rev stack))"
    using path by (simp add: name Clean_def rooted_def stack_def Let_def)
  with ok have rel: "\<not> rooted" "stack \<noteq> []" "name = join_slash (rev stack)"
    by (auto simp: has_prefix_def split: if_splits)
  have "parents_lead rooted stack" unfolding stack_def by (intro parents_lead_fold parents_lead_Nil)
  then obtain k ws where out: "stack = ws @ replicate k ''..''" "''..'' \<notin> set ws"
    and plain: "[] \<notin> set stack" "''.'' \<notin> set stack"
    unfolding parents_lead_def by blast
  have slash: "CHR ''/'' \<notin> set w" if "w \<in> set stack" for w
    using that clean_fold_plain [of rooted "split_slash path" "[]"] split_slash_plain [of w path]
    by (auto simp: stack_def)
  have up: "name = ''..''" if parent: "''..'' \<in> set (rev stack)"
  proof -
    obtain k' where k: "k = Suc k'" using parent out by (cases k) auto
    then have stk: "rev stack = ''..'' # (replicate k' ''..'' @ rev ws)" using out by (simp add: replicate_append_same)
    show ?thesis
    proof (cases "replicate k' ''..'' @ rev ws = []")
      case True
      then show ?thesis using rel(3) stk by simp
    next
      case False
      then have "has_prefix name ''../''" using rel(3) stk by (simp add: join_slash_Cons2 has_prefix_def)
      with ok show ?thesis by simp
    qed
  qed
  show ?thesis
    by (rule exI [of _ "rev stack"]) (use rel plain slash up in auto)
qed

theorem tarName_relative_witness:
  "tarName ''META-INF/./statedb//index.json'' = Inr ''META-INF/statedb/index.json'' \<and>
   (\<exists>ws. ''META-INF/statedb/index.json'' = join_slash ws \<and> ''..'' \<notin> set ws)"
proof -
  have n: "tarName ''META-INF/./statedb//index.json'' = Inr ''META-INF/statedb/index.json''" by code_simp
  from tarName_relative [OF n] show ?thesis using n by auto
qed

text \<open>The bare parent name is accepted, although every other path leading out of the archive is refused.\<close>

lemma tarName_accepts_parent:
  "tarName ''..'' = Inr ''..'' \<and> tarName ''a/../..'' = Inr ''..'' \<and> tarName ''../x'' = Inl (InvalidPackagePath ''../x'')"
  by code_simp

subsection \<open>Package identity\<close>

lemma hex_encode_length: "length (hex_encode s) = 2 * length s"
  by (induction s) (simp_all add: hex_encode_def)

lemma hex_encode_inj: "length s = length t \<Longrightarrow> hex_encode s = hex_encode t \<Longrightarrow> s = t"
proof (induction s t rule: list_induct2)
  case (Cons a s b t)
  have lt: "byte a div 16 < 16" "byte b div 16 < 16" by (simp_all add: less_mult_imp_div_less)
  from Cons.prems have "hex_val (lower_hex (byte a div 16)) = hex_val (lower_hex (byte b div 16))"
    "hex_val (lower_hex (byte a mod 16)) = hex_val (lower_hex (byte b mod 16))"
    by (simp_all add: hex_encode_def)
  then have "byte a div 16 = byte b div 16" "byte a mod 16 = byte b mod 16" using lt by simp_all
  then have "byte a = byte b" by (metis div_mod_decomp)
  with Cons show ?case by (simp add: hex_encode_def)
qed simp

lemma Inspect_ok:
  assumes "InspectPackageBytes lib pkg = Inr d"
  shows "pd_PackageTGZ d = pkg" and "pd_Label d \<noteq> []" and "pd_Address d \<noteq> []" and "pd_Type d = externalChaincodeType"
    and "pd_PackageID d = pd_Label d @ CHR '':'' # hex_encode (al_sha256 lib pkg)"
  using assms by (auto simp: InspectPackageBytes_def connectionAddress_def rbind_Inr_iff Let_def
      split: if_splits option.splits)

text \<open>An accepted package has a label, the external type and an address, and its identifier determines it:
  packages with the same identifier are the same bytes whenever their digests do not collide.\<close>

theorem package_id_identifies:
  assumes "InspectPackageBytes lib pkg = Inr d" and "InspectPackageBytes lib pkg' = Inr d'"
    and "pd_PackageID d = pd_PackageID d'"
    and "length (al_sha256 lib pkg) = 32" and "length (al_sha256 lib pkg') = 32"
    and "al_sha256 lib pkg = al_sha256 lib pkg' \<Longrightarrow> pkg = pkg'"
  shows "pkg = pkg' \<and> d = d' \<and> pd_Label d \<noteq> [] \<and> pd_Address d \<noteq> [] \<and> pd_Type d = ''external''"
proof -
  let ?h = "hex_encode (al_sha256 lib pkg)" and ?h' = "hex_encode (al_sha256 lib pkg')"
  have "pd_Label d @ CHR '':'' # ?h = pd_Label d' @ CHR '':'' # ?h'" and "length ?h = length ?h'"
    using assms Inspect_ok(5) [OF assms(1)] Inspect_ok(5) [OF assms(2)] by (simp_all add: hex_encode_length)
  then have "?h = ?h'" by (simp add: append_eq_append_conv)
  then have "pkg = pkg'" using assms hex_encode_inj by force
  with assms(1,2) Inspect_ok [OF assms(1)] show ?thesis by (simp add: externalChaincodeType_def)
qed

definition sample_archive :: archive_lib where
  "sample_archive = \<lparr>al_gunzip_tar = (\<lambda>b. if b = ''inner'' then
        Some ([\<lparr>te_Name = ''connection.json'', te_Typeflag = TypeReg,
          te_Data = Some (CHR ''{'' # CHR 0x22 # ''address'' @ CHR 0x22 # CHR '':'' # CHR 0x22 # ''h:1'' @ [CHR 0x22, CHR ''}''])\<rparr>], True)
      else Some ([\<lparr>te_Name = ''metadata.json'', te_Typeflag = TypeReg,
          te_Data = Some (jprint (JObj (obj [(''label'', JStr ''basic''), (''type'', JStr ''external'')])))\<rparr>,
        \<lparr>te_Name = ''./code.tar.gz'', te_Typeflag = TypeReg, te_Data = Some ''inner''\<rparr>], True)),
     al_sha256 = (\<lambda>b. replicate 32 (hd b))\<rparr>"

theorem package_id_identifies_witness:
  "\<exists>d. InspectPackageBytes sample_archive ''p'' = Inr d \<and> pd_Label d \<noteq> [] \<and> pd_Address d \<noteq> []"
proof -
  have "is_ok (InspectPackageBytes sample_archive ''p'')" by code_simp
  then obtain d where d: "InspectPackageBytes sample_archive ''p'' = Inr d" by (auto simp: is_ok_iff)
  from package_id_identifies [OF d d] d show ?thesis by (auto simp: sample_archive_def)
qed

end
