(* ===== verification/Lifecycle_Server.thy ===== *)
theory Lifecycle_Server
  imports Store_Correctness Lifecycle_Auth Lifecycle_Package
begin

section \<open>The lifecycle service\<close>

text \<open>
  \<^verbatim>\<open>pkg/lifecycle/rpc.go\<close>: the seven RPC handlers of one orchestrator, their admission, the mirror of
  ledger-confirmed definitions and the propagation of definitions to other organizations.  The ledger
  and the remote orchestrators form the world \<open>'w\<close>: the interfaces \<^verbatim>\<open>LedgerBackend\<close>, \<^verbatim>\<open>LedgerFinalizer\<close>,
  \<^verbatim>\<open>RemotePeer\<close> and \<^verbatim>\<open>RemotePeerProvider\<close> are records of functions on it.  A handler returns its result
  with the local store and the world after it; \<open>env\<close> holds what a call reads from its surroundings: the
  context, the request metadata, clock readings and random bytes.
\<close>

record env =
  ev_ctx :: ctx
  ev_metadata :: "string list"
  ev_auth_time :: int
  ev_window_time :: int
  ev_stamp :: string
  ev_sign_time :: int
  ev_nonce :: "bytes option"

datatype server_reason =
    Denied auth_reason
  | StoreChannelMismatch
  | PayloadDecode
  | PackageRejected package_error
  | StoreFailed store_error
  | PackageNotFoundAfterWrite
  | NotReady
  | CommitterNotConfigured
  | LedgerCommitFailed string
  | LedgerBackendRequired
  | LedgerReadFailed string
  | LedgerMismatch
  | ResolvePeers string
  | SignFailure request_error
  | RemoteReadiness string string
  | PendingOrganizationUnavailable string
  | RemoteUpdate string string

type_synonym status = "code \<times> server_reason"

record 'w LedgerBackend =
  lb_Commit :: "ctx \<Rightarrow> ChaincodeDefinition \<Rightarrow> 'w \<Rightarrow> (string + LedgerCommitResult) \<times> 'w"
  lb_Read :: "ctx \<Rightarrow> ChaincodeDefinition \<Rightarrow> 'w \<Rightarrow> string + LedgerDefinition option"
  lb_Finalize :: "(ctx \<Rightarrow> ChaincodeDefinition \<Rightarrow> bool \<Rightarrow> Store \<Rightarrow> 'w
    \<Rightarrow> (status + CommittedDefinition) \<times> Store \<times> 'w) option"

record 'w RemotePeer =
  rp_MSPID :: string
  rp_CheckCommitReadiness :: "ctx \<Rightarrow> SignedRequest \<Rightarrow> 'w \<Rightarrow> (string + (string \<times> bool) list) \<times> 'w"
  rp_Commit :: "ctx \<Rightarrow> SignedRequest \<Rightarrow> 'w \<Rightarrow> (string + unit) \<times> 'w"
  rp_MarkInitialized :: "ctx \<Rightarrow> SignedRequest \<Rightarrow> 'w \<Rightarrow> (string + unit) \<times> 'w"

type_synonym 'w RemotePeerProvider =
  "ctx \<Rightarrow> string \<Rightarrow> ChaincodeDefinition \<Rightarrow> 'w \<Rightarrow> (string + 'w RemotePeer list) \<times> 'w"

definition staticRemotePeers :: "'w RemotePeer list \<Rightarrow> 'w RemotePeerProvider" where
  "staticRemotePeers remotes = (\<lambda>ctx requester def w. (Inr remotes, w))"

record ('id, 'w) Server =
  sv_channelID :: string
  sv_auth :: "'id Authorizer option"
  sv_signer :: "signer option"
  sv_mspID :: string
  sv_ledger :: "'w LedgerBackend option"
  sv_remotes :: "'w RemotePeerProvider option"

definition NewServerWithRemoteProvider ::
  "string \<Rightarrow> string \<Rightarrow> 'id Authorizer option \<Rightarrow> signer option \<Rightarrow> 'w LedgerBackend option
    \<Rightarrow> 'w RemotePeerProvider option \<Rightarrow> ('id, 'w) Server" where
  "NewServerWithRemoteProvider channelID mspID auth signer ledger remotes =
     \<lparr>sv_channelID = channelID, sv_auth = auth, sv_signer = signer, sv_mspID = mspID,
      sv_ledger = ledger, sv_remotes = remotes\<rparr>"

definition NewServer ::
  "string \<Rightarrow> string \<Rightarrow> 'id Authorizer option \<Rightarrow> signer option \<Rightarrow> 'w LedgerBackend option
    \<Rightarrow> 'w RemotePeer list \<Rightarrow> ('id, 'w) Server" where
  "NewServer channelID mspID auth signer ledger remotes =
     NewServerWithRemoteProvider channelID mspID auth signer ledger (Some (staticRemotePeers remotes))"

subsection \<open>Admission\<close>

text \<open>Authentication comes before the payload is decoded or the store looked at.\<close>

definition verifyAndUnmarshal ::
  "'id msp_lib \<Rightarrow> ('id, 'w) Server \<Rightarrow> env \<Rightarrow> Store option \<Rightarrow> SignedRequest option \<Rightarrow> string
    \<Rightarrow> (bytes \<Rightarrow> 'p option) \<Rightarrow> status + (string \<times> SignedRequest \<times> 'p \<times> Store)" where
  "verifyAndUnmarshal lib sv ev store req operation decode =
     rbind (map_error (\<lambda>(c, r). (c, Denied r))
         (check lib (ev_auth_time ev) (ev_window_time ev) (ev_metadata ev) (sv_auth sv) req operation)) (\<lambda>mspID.
     rbind (require (CodeInternal, StoreChannelMismatch) store) (\<lambda>s.
       if st_channelID s \<noteq> sv_channelID sv then Inl (CodeInternal, StoreChannelMismatch)
       else rbind (require (CodeUnauthenticated, Denied RequestRequired) req) (\<lambda>r.
            rbind (require (CodeInvalidArgument, PayloadDecode) (decode (sr_Payload r))) (\<lambda>p.
              Inr (mspID, r, p, s)))))"

definition remotePeers ::
  "('id, 'w) Server \<Rightarrow> ctx \<Rightarrow> ChaincodeDefinition \<Rightarrow> 'w \<Rightarrow> (string + 'w RemotePeer list) \<times> 'w" where
  "remotePeers sv ctx def w =
     (case sv_remotes sv of None \<Rightarrow> (Inr [], w) | Some provider \<Rightarrow> provider ctx (sv_mspID sv) def w)"

subsection \<open>Mirroring the ledger\<close>

definition applyLedgerDefinition ::
  "('id, 'w) Server \<Rightarrow> env \<Rightarrow> ChaincodeDefinition \<Rightarrow> bool \<Rightarrow> Store \<Rightarrow> 'w
    \<Rightarrow> (status + CommittedDefinition) \<times> Store" where
  "applyLedgerDefinition sv ev def initialized s w =
     (case sv_ledger sv of None \<Rightarrow> (Inl (CodeFailedPrecondition, LedgerBackendRequired), s)
      | Some backend \<Rightarrow>
     (case lb_Read backend (ev_ctx ev) def w of
        Inl e \<Rightarrow> (Inl (CodeUnavailable, LedgerReadFailed e), s)
      | Inr None \<Rightarrow> (Inl (CodeFailedPrecondition, LedgerMismatch), s)
      | Inr (Some ledger) \<Rightarrow>
          (if ChaincodeDefinitionFromLedger ledger \<noteq> def \<or> ld_ChannelID ledger \<noteq> sv_channelID sv \<or>
              (initialized \<and> \<not> ld_Initialized ledger)
           then (Inl (CodeFailedPrecondition, LedgerMismatch), s)
           else (case UpsertCommittedFromLedger (ev_ctx ev) (ev_stamp ev) def (ld_Initialized ledger) s of
                   (Inl e, s') \<Rightarrow> (Inl (CodeInternal, StoreFailed e), s')
                 | (Inr c, s') \<Rightarrow> (Inr c, s')))))"

record DefinitionPropagation =
  dp_Resolved :: bool
  dp_Organizations :: "string list"

definition newPropagation :: DefinitionPropagation where
  "newPropagation = \<lparr>dp_Resolved = False, dp_Organizations = []\<rparr>"

text \<open>The organizations of the peers in order of first appearance; the last peer of an MSP is kept.\<close>

fun collectOrganizations :: "'w RemotePeer list \<Rightarrow> string list \<Rightarrow> bool \<Rightarrow> string list \<Rightarrow> string list" where
  "collectOrganizations [] seen resolved orgs = orgs"
| "collectOrganizations (r # rs) seen resolved orgs =
     collectOrganizations rs (rp_MSPID r # seen) resolved
       (if rp_MSPID r \<notin> set seen \<and> \<not> resolved then orgs @ [rp_MSPID r] else orgs)"

definition byMSP :: "'w RemotePeer list \<Rightarrow> string \<Rightarrow> 'w RemotePeer option" where
  "byMSP remotes mspID = find (\<lambda>r. rp_MSPID r = mspID) (rev remotes)"

fun propagate ::
  "ctx \<Rightarrow> 'w RemotePeer list \<Rightarrow> SignedRequest \<Rightarrow> bool \<Rightarrow> string list \<Rightarrow> 'w
    \<Rightarrow> status option \<times> string list \<times> 'w" where
  "propagate ctx remotes req initialized [] w = (None, [], w)"
| "propagate ctx remotes req initialized (mspID # rest) w =
     (case byMSP remotes mspID of
        None \<Rightarrow> (Some (CodeUnavailable, PendingOrganizationUnavailable mspID), mspID # rest, w)
      | Some remote \<Rightarrow>
          (case (if initialized then rp_MarkInitialized remote ctx req w else rp_Commit remote ctx req w) of
             (Inl e, w') \<Rightarrow> (Some (CodeUnavailable, RemoteUpdate mspID e), mspID # rest, w')
           | (Inr _, w') \<Rightarrow> propagate ctx remotes req initialized rest w'))"

definition ReconcileDefinition ::
  "('id, 'w) Server \<Rightarrow> env \<Rightarrow> ChaincodeDefinition \<Rightarrow> bool \<Rightarrow> DefinitionPropagation \<Rightarrow> Store \<Rightarrow> 'w
    \<Rightarrow> (status + CommittedDefinition) \<times> DefinitionPropagation \<times> Store \<times> 'w" where
  "ReconcileDefinition sv ev def initialized progress s w =
     (case applyLedgerDefinition sv ev def initialized s w of
        (Inl e, s') \<Rightarrow> (Inl e, progress, s', w)
      | (Inr committed, s') \<Rightarrow>
     (if dp_Resolved progress \<and> dp_Organizations progress = [] then (Inr committed, progress, s', w)
      else case remotePeers sv (ev_ctx ev) def w of
        (Inl e, w1) \<Rightarrow> (Inl (CodeUnavailable, ResolvePeers e), progress, s', w1)
      | (Inr remotes, w1) \<Rightarrow>
          (let orgs = collectOrganizations remotes [] (dp_Resolved progress) (dp_Organizations progress);
               progress1 = \<lparr>dp_Resolved = True, dp_Organizations = orgs\<rparr>
           in if orgs = [] then (Inr committed, progress1, s', w1)
              else case SignInternalRequest (sv_signer sv) (ev_sign_time ev) (ev_nonce ev) (sv_channelID sv)
                     (if initialized then MarkInitializedRequest def else CommitRequest def) of
                Inl e \<Rightarrow> (Inl (CodeInternal, SignFailure e), progress1, s', w1)
              | Inr req \<Rightarrow>
                  (case propagate (ev_ctx ev) remotes req initialized orgs w1 of
                     (Some e, rest, w2) \<Rightarrow> (Inl e, progress1\<lparr>dp_Organizations := rest\<rparr>, s', w2)
                   | (None, _, w2) \<Rightarrow> (Inr committed, progress1\<lparr>dp_Organizations := []\<rparr>, s', w2)))))"

subsection \<open>Readiness\<close>

definition set_approval :: "(string \<times> bool) list \<Rightarrow> string \<times> bool \<Rightarrow> (string \<times> bool) list" where
  "set_approval approvals entry = entry # filter (\<lambda>a. fst a \<noteq> fst entry) approvals"

fun askRemotes ::
  "ctx \<Rightarrow> SignedRequest \<Rightarrow> 'w RemotePeer list \<Rightarrow> (string \<times> bool) list \<Rightarrow> 'w
    \<Rightarrow> (status + (string \<times> bool) list) \<times> 'w" where
  "askRemotes ctx req [] approvals w = (Inr approvals, w)"
| "askRemotes ctx req (remote # rest) approvals w =
     (case rp_CheckCommitReadiness remote ctx req w of
        (Inl e, w') \<Rightarrow> (Inl (CodeInternal, RemoteReadiness (rp_MSPID remote) e), w')
      | (Inr answers, w') \<Rightarrow> askRemotes ctx req rest (foldl set_approval approvals answers) w')"

definition checkCommitReadiness ::
  "('id, 'w) Server \<Rightarrow> env \<Rightarrow> ChaincodeDefinition \<Rightarrow> bool \<Rightarrow> Store \<Rightarrow> 'w
    \<Rightarrow> (status + (string \<times> bool) list) \<times> 'w" where
  "checkCommitReadiness sv ev def aggregate s w =
     (case HasMatchingApproval (ev_ctx ev) def (sv_mspID sv) s of
        Inl e \<Rightarrow> (Inl (CodeInvalidArgument, StoreFailed e), w)
      | Inr approved \<Rightarrow>
     (if \<not> aggregate then (Inr [(sv_mspID sv, approved)], w)
      else case remotePeers sv (ev_ctx ev) def w of
        (Inl e, w1) \<Rightarrow> (Inl (CodeUnknown, ResolvePeers e), w1)
      | (Inr remotes, w1) \<Rightarrow>
          (case SignInternalRequest (sv_signer sv) (ev_sign_time ev) (ev_nonce ev) (sv_channelID sv)
                  (CheckCommitReadinessRequest def) of
             Inl e \<Rightarrow> (Inl (CodeInternal, SignFailure e), w1)
           | Inr req \<Rightarrow> askRemotes (ev_ctx ev) req remotes [(sv_mspID sv, approved)] w1)))"

subsection \<open>Handlers\<close>

definition Server_Install ::
  "'id msp_lib \<Rightarrow> archive_lib \<Rightarrow> ('id, 'w) Server \<Rightarrow> env \<Rightarrow> SignedRequest option \<Rightarrow> Store option
    \<Rightarrow> (status + InstalledPackage) \<times> Store option" where
  "Server_Install lib archives sv ev req store =
     (case verifyAndUnmarshal lib sv ev store req OperationInstall decodeInstall of
        Inl e \<Rightarrow> (Inl e, store)
      | Inr (mspID, r, payload, s) \<Rightarrow>
     (case InspectPackageBytes archives payload of
        Inl e \<Rightarrow> (Inl (CodeInvalidArgument, PackageRejected e), store)
      | Inr desc \<Rightarrow>
          (let pkg = \<lparr>ip_PackageID = pd_PackageID desc, ip_Label = pd_Label desc, ip_Type = pd_Type desc,
                 ip_Address = pd_Address desc, ip_InstalledByMSP = mspID, ip_InstalledAt = [],
                 ip_MetadataJSON = pd_MetadataJSON desc, ip_ConnectionJSON = pd_ConnectionJSON desc,
                 ip_PackageTGZ = pd_PackageTGZ desc\<rparr>
           in case Install (ev_ctx ev) (ev_stamp ev) pkg s of
                (Inl e, s') \<Rightarrow> (Inl (CodeInternal, StoreFailed e), Some s')
              | (Inr _, s') \<Rightarrow>
                  (case ListInstalled (ev_ctx ev) s' of
                     Inl e \<Rightarrow> (Inl (CodeInternal, StoreFailed e), Some s')
                   | Inr installed \<Rightarrow>
                       (case find (\<lambda>existing. ip_PackageID existing = ip_PackageID pkg) installed of
                          Some existing \<Rightarrow> (Inr existing, Some s')
                        | None \<Rightarrow> (Inl (CodeInternal, PackageNotFoundAfterWrite), Some s'))))))"

definition Server_QueryInstalled ::
  "'id msp_lib \<Rightarrow> ('id, 'w) Server \<Rightarrow> env \<Rightarrow> SignedRequest option \<Rightarrow> Store option
    \<Rightarrow> status + (string \<times> string) list" where
  "Server_QueryInstalled lib sv ev req store =
     rbind (verifyAndUnmarshal lib sv ev store req OperationQueryInstalled decodeQueryInstalled) (\<lambda>(mspID, r, payload, s).
     rbind (map_error (\<lambda>e. (CodeInternal, StoreFailed e)) (ListInstalled (ev_ctx ev) s)) (\<lambda>packages.
       Inr (map (\<lambda>pkg. (ip_Label pkg, ip_PackageID pkg)) packages)))"

definition Server_ApproveForMyOrg ::
  "'id msp_lib \<Rightarrow> ('id, 'w) Server \<Rightarrow> env \<Rightarrow> SignedRequest option \<Rightarrow> Store option
    \<Rightarrow> (status + ApprovedDefinition) \<times> Store option" where
  "Server_ApproveForMyOrg lib sv ev req store =
     (case verifyAndUnmarshal lib sv ev store req OperationApprove decodeApprove of
        Inl e \<Rightarrow> (Inl e, store)
      | Inr (mspID, r, (def, packageID), s) \<Rightarrow>
          (case ApproveForMyOrg (ev_ctx ev) (ev_stamp ev) def packageID mspID s of
             (Inl e, s') \<Rightarrow> (Inl (CodeInvalidArgument, StoreFailed e), Some s')
           | (Inr approval, s') \<Rightarrow> (Inr approval, Some s')))"

definition Server_CheckCommitReadiness ::
  "'id msp_lib \<Rightarrow> ('id, 'w) Server \<Rightarrow> env \<Rightarrow> SignedRequest option \<Rightarrow> Store option \<Rightarrow> 'w
    \<Rightarrow> (status + (string \<times> bool) list) \<times> 'w" where
  "Server_CheckCommitReadiness lib sv ev req store w =
     (case verifyAndUnmarshal lib sv ev store req OperationReadiness decodeDefinition of
        Inl e \<Rightarrow> (Inl e, w)
      | Inr (callerMSP, r, def, s) \<Rightarrow> checkCommitReadiness sv ev def (\<not> sr_Internal r) s w)"

record CommitResponse =
  cr_Definition :: CommittedDefinition
  cr_Approvals :: "(string \<times> bool) list"
  cr_Ledger :: "LedgerCommitResult option"

definition commitFinalize ::
  "('id, 'w) Server \<Rightarrow> 'w LedgerBackend \<Rightarrow> env \<Rightarrow> ChaincodeDefinition \<Rightarrow> Store \<Rightarrow> 'w
    \<Rightarrow> (status + CommittedDefinition) \<times> Store \<times> 'w" where
  "commitFinalize sv backend ev def s w =
     (case lb_Finalize backend of
        Some finalizer \<Rightarrow> finalizer (ev_ctx ev) def False s w
      | None \<Rightarrow> (let (res, _, s', w') = ReconcileDefinition sv ev def False newPropagation s w in (res, s', w')))"

definition commitPublic ::
  "('id, 'w) Server \<Rightarrow> env \<Rightarrow> ChaincodeDefinition \<Rightarrow> Store \<Rightarrow> 'w
    \<Rightarrow> (status + CommitResponse) \<times> Store \<times> 'w" where
  "commitPublic sv ev def s w =
     (case checkCommitReadiness sv ev def True s w of
        (Inl e, w1) \<Rightarrow> (Inl e, s, w1)
      | (Inr approvals, w1) \<Rightarrow>
     (if \<not> list_all snd approvals then (Inl (CodeFailedPrecondition, NotReady), s, w1)
      else case ValidateCommitDefinition (ev_ctx ev) def (sv_mspID sv) s of
        Inl e \<Rightarrow> (Inl (CodeFailedPrecondition, StoreFailed e), s, w1)
      | Inr _ \<Rightarrow>
     (case sv_ledger sv of None \<Rightarrow> (Inl (CodeFailedPrecondition, CommitterNotConfigured), s, w1)
      | Some backend \<Rightarrow>
     (case lb_Commit backend (ev_ctx ev) def w1 of
        (Inl e, w2) \<Rightarrow> (Inl (CodeInternal, LedgerCommitFailed e), s, w2)
      | (Inr ledger, w2) \<Rightarrow>
     (case commitFinalize sv backend ev def s w2 of
        (Inl e, s', w3) \<Rightarrow> (Inl e, s', w3)
      | (Inr committed, s', w3) \<Rightarrow>
          (Inr \<lparr>cr_Definition = committed, cr_Approvals = approvals, cr_Ledger = Some ledger\<rparr>, s', w3))))))"

definition Server_Commit ::
  "'id msp_lib \<Rightarrow> ('id, 'w) Server \<Rightarrow> env \<Rightarrow> SignedRequest option \<Rightarrow> Store option \<Rightarrow> 'w
    \<Rightarrow> (status + CommitResponse) \<times> Store option \<times> 'w" where
  "Server_Commit lib sv ev req store w =
     (case verifyAndUnmarshal lib sv ev store req OperationCommit decodeDefinition of
        Inl e \<Rightarrow> (Inl e, store, w)
      | Inr (callerMSP, r, def, s) \<Rightarrow>
          (if sr_Internal r then
             (case applyLedgerDefinition sv ev def False s w of
                (Inl e, s') \<Rightarrow> (Inl e, Some s', w)
              | (Inr committed, s') \<Rightarrow>
                  (Inr \<lparr>cr_Definition = committed, cr_Approvals = [], cr_Ledger = None\<rparr>, Some s', w))
           else (case commitPublic sv ev def s w of (res, s', w') \<Rightarrow> (res, Some s', w'))))"

definition Server_MarkInitialized ::
  "'id msp_lib \<Rightarrow> ('id, 'w) Server \<Rightarrow> env \<Rightarrow> SignedRequest option \<Rightarrow> Store option \<Rightarrow> 'w
    \<Rightarrow> (status + CommittedDefinition) \<times> Store option" where
  "Server_MarkInitialized lib sv ev req store w =
     (case verifyAndUnmarshal lib sv ev store req OperationMarkInitialized decodeDefinition of
        Inl e \<Rightarrow> (Inl e, store)
      | Inr (callerMSP, r, def, s) \<Rightarrow>
          (case applyLedgerDefinition sv ev def True s w of (res, s') \<Rightarrow> (res, Some s')))"

definition Server_QueryCommitted ::
  "'id msp_lib \<Rightarrow> ('id, 'w) Server \<Rightarrow> env \<Rightarrow> SignedRequest option \<Rightarrow> Store option
    \<Rightarrow> status + CommittedDefinition list" where
  "Server_QueryCommitted lib sv ev req store =
     rbind (verifyAndUnmarshal lib sv ev store req OperationQueryCommitted decodeQueryCommitted) (\<lambda>(mspID, r, (name, version), s).
     map_error (\<lambda>e. (CodeInvalidArgument, StoreFailed e)) (ListCommitted (ev_ctx ev) name version s))"

lemmas [server_defs] =
  verifyAndUnmarshal_def applyLedgerDefinition_def ReconcileDefinition_def checkCommitReadiness_def
  Server_Install_def Server_QueryInstalled_def Server_ApproveForMyOrg_def Server_CheckCommitReadiness_def
  Server_Commit_def Server_MarkInitialized_def Server_QueryCommitted_def

subsection \<open>Denied requests\<close>

text \<open>What a handler asks of a request for its operation.\<close>

definition authentic :: "'id msp_lib \<Rightarrow> 'id Authorizer \<Rightarrow> int \<Rightarrow> SignedRequest \<Rightarrow> 'id \<Rightarrow> bool" where
  "authentic lib au now r identity \<longleftrightarrow> Identity lib (au_trust au) (sr_Creator r) now = Inr identity \<and>
     sr_Signature r \<noteq> [] \<and> ml_Verify lib identity (signingBytes r) (sr_Signature r)"

definition envelope_ok :: "SignedRequest \<Rightarrow> bool" where
  "envelope_ok r \<longleftrightarrow> sr_Version r = requestVersion \<and> length (sr_Nonce r) = requestNonceSize \<and> sr_Payload r \<noteq> []"

definition for_operation :: "'id Authorizer \<Rightarrow> string \<Rightarrow> SignedRequest \<Rightarrow> bool" where
  "for_operation au operation r \<longleftrightarrow> sr_ChannelID r = au_channelID au \<and> sr_Operation r = operation"

definition request_fresh :: "int \<Rightarrow> SignedRequest \<Rightarrow> bool" where
  "request_fresh now r \<longleftrightarrow> \<bar>sr_IssuedAt r - now\<bar> \<le> requestMaxAge"

definition mode_agrees :: "string list \<Rightarrow> SignedRequest \<Rightarrow> bool" where
  "mode_agrees metadata r \<longleftrightarrow> (\<forall>v \<in> set metadata. v = (if sr_Internal r then ''true'' else ''false''))"

definition admissible :: "'id msp_lib \<Rightarrow> 'id Authorizer \<Rightarrow> env \<Rightarrow> SignedRequest \<Rightarrow> string \<Rightarrow> bool" where
  "admissible lib au ev r operation \<longleftrightarrow> (\<exists>identity. authentic lib au (ev_auth_time ev) r identity \<and>
     envelope_ok r \<and> for_operation au operation r \<and> request_fresh (ev_window_time ev) r \<and>
     mode_agrees (ev_metadata ev) r \<and> permitted lib au r operation identity)"

definition check_env ::
  "'id msp_lib \<Rightarrow> ('id, 'w) Server \<Rightarrow> env \<Rightarrow> SignedRequest option \<Rightarrow> string \<Rightarrow> (code \<times> auth_reason) + string" where
  "check_env lib sv ev req operation =
     check lib (ev_auth_time ev) (ev_window_time ev) (ev_metadata ev) (sv_auth sv) req operation"

lemma check_env_admissible:
  "sv_auth sv = Some au \<Longrightarrow> is_ok (check_env lib sv ev (Some r) operation) \<longleftrightarrow> admissible lib au ev r operation"
  by (auto simp: is_ok_iff check_env_def check_ok admissible_def authentic_def envelope_ok_def for_operation_def
      request_fresh_def mode_agrees_def no_conflict_iff)

lemma authorize_code:
  assumes "authorize lib now metadata au r operation identity = Inl (c, reason)"
  shows "c = (if \<not> envelope_ok r then CodeInvalidArgument
     else if for_operation au operation r \<and> \<not> request_fresh now r then CodeUnauthenticated else CodePermissionDenied)"
  using assms
  by (auto simp: authorize_def envelope_ok_def for_operation_def request_fresh_def outside_window_iff
      split: if_splits option.splits)

definition denial_code :: "'id msp_lib \<Rightarrow> 'id Authorizer \<Rightarrow> env \<Rightarrow> SignedRequest \<Rightarrow> string \<Rightarrow> code" where
  "denial_code lib au ev r operation =
     (if \<forall>identity. \<not> authentic lib au (ev_auth_time ev) r identity then CodeUnauthenticated
      else if \<not> envelope_ok r then CodeInvalidArgument
      else if for_operation au operation r \<and> \<not> request_fresh (ev_window_time ev) r then CodeUnauthenticated
      else CodePermissionDenied)"

lemma check_env_denial:
  assumes "sv_auth sv = Some au" and "\<not> admissible lib au ev r operation"
  shows "\<exists>reason. check_env lib sv ev (Some r) operation = Inl (denial_code lib au ev r operation, reason)"
proof -
  from assms obtain c reason where d: "check_env lib sv ev (Some r) operation = Inl (c, reason)"
    using check_env_admissible [of sv au lib ev r operation]
    by (cases "check_env lib sv ev (Some r) operation") (auto simp: is_ok_iff)
  let ?auth = "Authenticate lib (au_trust au) (sr_Creator r) (signingBytes r) (sr_Signature r) (ev_auth_time ev)"
  have msg: "signingBytes r \<noteq> []" by (simp add: signingBytes_def signing_json_def)
  then have iff: "?auth = Inr i \<longleftrightarrow> authentic lib au (ev_auth_time ev) r i" for i
    by (auto simp: Authenticate_ok authentic_def)
  show ?thesis
  proof (cases ?auth)
    case (Inl e)
    then have "\<not> authentic lib au (ev_auth_time ev) r i" for i using iff [of i] by simp
    with Inl d assms(1) show ?thesis by (simp add: check_env_def check_def denial_code_def)
  next
    case (Inr identity)
    with d assms(1) have "authorize lib (ev_window_time ev) (ev_metadata ev) au r operation identity = Inl (c, reason)"
      by (simp add: check_env_def check_def)
    with Inr d iff authorize_code [OF this] show ?thesis by (auto simp: denial_code_def)
  qed
qed

lemma denied_handlers:
  assumes "check_env lib sv ev req operation = Inl (c, reason)"
  shows "operation = OperationInstall \<Longrightarrow>
      Server_Install lib archives sv ev req store = (Inl (c, Denied reason), store)"
    and "operation = OperationQueryInstalled \<Longrightarrow>
      Server_QueryInstalled lib sv ev req store = Inl (c, Denied reason)"
    and "operation = OperationApprove \<Longrightarrow>
      Server_ApproveForMyOrg lib sv ev req store = (Inl (c, Denied reason), store)"
    and "operation = OperationReadiness \<Longrightarrow>
      Server_CheckCommitReadiness lib sv ev req store w = (Inl (c, Denied reason), w)"
    and "operation = OperationCommit \<Longrightarrow>
      Server_Commit lib sv ev req store w = (Inl (c, Denied reason), store, w)"
    and "operation = OperationMarkInitialized \<Longrightarrow>
      Server_MarkInitialized lib sv ev req store w = (Inl (c, Denied reason), store)"
    and "operation = OperationQueryCommitted \<Longrightarrow>
      Server_QueryCommitted lib sv ev req store = Inl (c, Denied reason)"
  using assms by (simp_all add: server_defs check_env_def)

text \<open>C31: each of the seven handlers answers a request with a denial and leaves the store, the ledger and the
  remote organizations as they are whenever the request is not admissible for that handler's own
  operation: it is not signed by a trusted identity, its envelope is malformed, it names another channel
  or operation, it was issued too long ago or too far ahead, its metadata contradicts its mode, an
  internal request is not an orchestrator's or not for an internal operation, or a public one is refused
  by policy or, for install, query and approval, comes from another organization.  The code is
  Unauthenticated for unauthentic and stale requests, InvalidArgument for a malformed envelope and
  PermissionDenied for all others.\<close>

theorem denied_request_has_no_effect:
  assumes "sv_auth sv = Some au" and "\<not> admissible lib au ev r operation"
  shows "\<exists>reason. let denial = (denial_code lib au ev r operation, Denied reason) in
    (operation = OperationInstall \<longrightarrow> Server_Install lib archives sv ev (Some r) store = (Inl denial, store)) \<and>
    (operation = OperationQueryInstalled \<longrightarrow> Server_QueryInstalled lib sv ev (Some r) store = Inl denial) \<and>
    (operation = OperationApprove \<longrightarrow> Server_ApproveForMyOrg lib sv ev (Some r) store = (Inl denial, store)) \<and>
    (operation = OperationReadiness \<longrightarrow> Server_CheckCommitReadiness lib sv ev (Some r) store w = (Inl denial, w)) \<and>
    (operation = OperationCommit \<longrightarrow> Server_Commit lib sv ev (Some r) store w = (Inl denial, store, w)) \<and>
    (operation = OperationMarkInitialized \<longrightarrow> Server_MarkInitialized lib sv ev (Some r) store w = (Inl denial, store)) \<and>
    (operation = OperationQueryCommitted \<longrightarrow> Server_QueryCommitted lib sv ev (Some r) store = Inl denial)"
proof -
  from check_env_denial [OF assms] obtain reason where
    "check_env lib sv ev (Some r) operation = Inl (denial_code lib au ev r operation, reason)" ..
  from denied_handlers [OF this] show ?thesis by (intro exI [of _ reason]) (simp add: Let_def)
qed

definition sample_env :: env where
  "sample_env = \<lparr>ev_ctx = None, ev_metadata = [], ev_auth_time = 10, ev_window_time = 10, ev_stamp = ''t'',
     ev_sign_time = 5, ev_nonce = Some (replicate 24 CHR ''n'')\<rparr>"

text \<open>A sample world records the calls to peers; its ledger holds one initialized definition.\<close>

definition sample_peer :: "string \<Rightarrow> bool \<Rightarrow> (string \<times> bool) list RemotePeer" where
  "sample_peer msp up = \<lparr>rp_MSPID = msp, rp_CheckCommitReadiness = (\<lambda>_ _ w. (Inr [(msp, True)], w)),
     rp_Commit = (\<lambda>_ _ w. (if up then Inr () else Inl ''down'', w @ [(msp, up)])),
     rp_MarkInitialized = (\<lambda>_ _ w. (if up then Inr () else Inl ''down'', w @ [(msp, up)]))\<rparr>"

definition sample_backend :: "(string \<times> bool) list LedgerBackend" where
  "sample_backend = \<lparr>lb_Commit = (\<lambda>_ def w. (Inr \<lparr>lr_TxID = ''tx'', lr_Status = [], lr_BlockNum = 0, lr_TxNum = 0,
       lr_Namespace = ''0'', lr_Key = LedgerKey ''ch'' (cd_Name def)\<rparr>, w)),
     lb_Read = (\<lambda>_ def w. Inr (Some (ledger_of ''ch'' def True))), lb_Finalize = None\<rparr>"

definition sample_server :: "bool \<Rightarrow> (string, (string \<times> bool) list) Server" where
  "sample_server up = NewServer ''ch'' ''Org1'' (Some sample_auth)
     (Some \<lparr>sg_Serialize = Some ''Org1'', sg_Sign = \<lambda>m. Some (CHR ''S'' # m)\<rparr>) (Some sample_backend)
     [sample_peer ''Org2'' True, sample_peer ''Org3'' up, sample_peer ''Org2'' True]"

text \<open>A public approval that Org2 signed is authentic, but Org2 is not the organization of this server; a
  commit of the right organization is stale ten minutes later.\<close>

theorem denied_request_has_no_effect_witness:
  "(\<exists>reason. Server_ApproveForMyOrg sample_lib (sample_server True) sample_env
      (Some (sample_request ''Org2'' OperationApprove False ''p'')) (Some sample_store) =
        (Inl (CodePermissionDenied, Denied reason), Some sample_store)) \<and>
   (\<exists>reason. Server_Commit sample_lib (sample_server True) (sample_env\<lparr>ev_window_time := 600000000005\<rparr>)
      (Some (sample_request ''Org1'' OperationCommit False ''p'')) (Some sample_store) [] =
        (Inl (CodeUnauthenticated, Denied reason), Some sample_store, []))"
proof
  have au: "sv_auth (sample_server True) = Some sample_auth"
    by (simp add: sample_server_def NewServer_def NewServerWithRemoteProvider_def)
  have auth: "authentic sample_lib sample_auth 10 (sample_request c op i p) c" if "c \<in> {''Org1'', ''Org2''}" for c op i p
    using that by (auto simp: authentic_def sample_Identity) (auto simp: sample_lib_def)
  have env: "envelope_ok (sample_request c op i ''p'')" "for_operation sample_auth op (sample_request c op i ''p'')" for c op i
    by (simp_all add: envelope_ok_def for_operation_def requestVersion_def requestNonceSize_def sample_auth_def)
  have times: "ev_auth_time sample_env = 10" "ev_window_time sample_env = 10" by (simp_all add: sample_env_def)
  let ?a = "sample_request ''Org2'' OperationApprove False ''p''"
  have na: "\<not> admissible sample_lib sample_auth sample_env ?a OperationApprove"
    by (auto simp: admissible_def authentic_def permitted_def times sample_Identity) (auto simp: sample_lib_def sample_auth_def)
  have "request_fresh 10 ?a" by (simp add: request_fresh_def requestMaxAge_def)
  then have code: "denial_code sample_lib sample_auth sample_env ?a OperationApprove = CodePermissionDenied"
    using auth [of "''Org2''" OperationApprove False "''p''"] by (auto simp: denial_code_def env times)
  show "\<exists>reason. Server_ApproveForMyOrg sample_lib (sample_server True) sample_env (Some ?a) (Some sample_store) =
      (Inl (CodePermissionDenied, Denied reason), Some sample_store)"
    using denied_request_has_no_effect [OF au na, of _ "Some sample_store" "[]"] by (auto simp: code Let_def)
  let ?c = "sample_request ''Org1'' OperationCommit False ''p''" and ?ev = "sample_env\<lparr>ev_window_time := 600000000005\<rparr>"
  have stale: "\<not> request_fresh 600000000005 ?c" by (simp add: request_fresh_def requestMaxAge_def)
  then have nc: "\<not> admissible sample_lib sample_auth ?ev ?c OperationCommit" by (simp add: admissible_def)
  have code': "denial_code sample_lib sample_auth ?ev ?c OperationCommit = CodeUnauthenticated"
    using stale auth [of "''Org1''" OperationCommit False "''p''"] by (simp add: denial_code_def env times)
  show "\<exists>reason. Server_Commit sample_lib (sample_server True) ?ev (Some ?c) (Some sample_store) [] =
      (Inl (CodeUnauthenticated, Denied reason), Some sample_store, [])"
    using denied_request_has_no_effect [OF au nc, of _ "Some sample_store" "[]"] by (auto simp: code' Let_def)
qed

subsection \<open>The mirror follows the ledger\<close>

lemma applyLedger_mirrors:
  assumes "live s" and "ev_ctx ev = None" and "applyLedgerDefinition sv ev def initialized s w = (res, s')"
  shows "s' = s \<or> (\<exists>backend ledger. sv_ledger sv = Some backend \<and>
    lb_Read backend None def w = Inr (Some ledger) \<and> ChaincodeDefinitionFromLedger ledger = def \<and>
    ld_ChannelID ledger = sv_channelID sv \<and> (initialized \<longrightarrow> ld_Initialized ledger) \<and>
    definition_of s' = (definition_of s)(cd_Name def :=
      ledger_join cd_Sequence (def, ld_Initialized ledger) (definition_of s (cd_Name def))))"
proof (cases "valid_definition def")
  case False
  then obtain e where "validateDefinition def = Inl e"
    by (cases "validateDefinition def") (auto simp: valid_definition_def)
  then have "UpsertCommittedFromLedger ctx now def i s = (Inl e, s)" for ctx now i
    by (simp add: UpsertCommittedFromLedger_def)
  with assms(3) show ?thesis by (auto simp: applyLedgerDefinition_def split: option.splits sum.splits if_splits)
next
  case True
  have upd: "definition_of s'' = (definition_of s)(cd_Name def := ledger_join cd_Sequence (def, i) (definition_of s (cd_Name def)))"
    if "UpsertCommittedFromLedger None now def i s = (x, s'')" for now i x s''
    using definition_of_ledger [OF assms(1) True, of now i] that by (auto simp: fun_eq_iff)
  show ?thesis
    using assms(2,3) upd
    by (auto simp: applyLedgerDefinition_def split: option.splits sum.splits if_splits prod.splits)
qed

text \<open>C4: an internal commit or a mark-initialized call cannot activate anything by itself: the active
  definitions stay, or the definition named in the call is merged as the ledger of this channel
  holds it, initialized only if the ledger says so.\<close>

theorem internal_calls_only_mirror:
  assumes "live s" and "ev_ctx ev = None"
    and "Server_Commit lib sv ev (Some r) (Some s) w = (res, Some s', w') \<and> sr_Internal r \<or>
      Server_MarkInitialized lib sv ev (Some r) (Some s) w = (res', Some s')"
  shows "s' = s \<or> (\<exists>def backend ledger. decodeDefinition (sr_Payload r) = Some def \<and> sv_ledger sv = Some backend \<and>
    lb_Read backend None def w = Inr (Some ledger) \<and> ChaincodeDefinitionFromLedger ledger = def \<and>
    ld_ChannelID ledger = sv_channelID sv \<and>
    definition_of s' = (definition_of s)(cd_Name def :=
      ledger_join cd_Sequence (def, ld_Initialized ledger) (definition_of s (cd_Name def))))"
proof -
  have decoded: "verifyAndUnmarshal lib sv ev (Some s) (Some r) operation decodeDefinition = Inr (m, r', def, s0) \<Longrightarrow>
      r' = r \<and> s0 = s \<and> decodeDefinition (sr_Payload r) = Some def" for operation m r' def s0
    by (auto simp: verifyAndUnmarshal_def rbind_Inr_iff split: if_splits)
  consider (same) "s' = s"
    | (applied) def i res where "decodeDefinition (sr_Payload r) = Some def"
        "applyLedgerDefinition sv ev def i s w = (res, s')"
    using assms(3)
  proof (elim disjE conjE)
    assume "Server_Commit lib sv ev (Some r) (Some s) w = (res, Some s', w')" "sr_Internal r"
    then show ?thesis
      using that by (auto simp: Server_Commit_def split: sum.splits prod.splits if_splits dest!: decoded)
  next
    assume "Server_MarkInitialized lib sv ev (Some r) (Some s) w = (res', Some s')"
    then show ?thesis
      using that by (auto simp: Server_MarkInitialized_def split: sum.splits prod.splits dest!: decoded)
  qed
  then show ?thesis
  proof cases
    case (applied def i res)
    from applyLedger_mirrors [OF assms(1,2) applied(2)] applied(1) show ?thesis by blast
  qed simp
qed

subsection \<open>Propagation\<close>

lemma collect_resolved: "collectOrganizations remotes seen True orgs = orgs"
  by (induction remotes arbitrary: seen) simp_all

lemma byMSP_Some: "byMSP remotes m = Some r \<Longrightarrow> r \<in> set remotes \<and> rp_MSPID r = m"
  by (auto simp: byMSP_def dest: find_Some_mem)

text \<open>A log of the world to which every update of a peer adds that peer and whether the update succeeded.\<close>

definition logs_calls :: "('w \<Rightarrow> (string \<times> bool) list) \<Rightarrow> 'w RemotePeer \<Rightarrow> bool" where
  "logs_calls log r \<longleftrightarrow>
     (\<forall>ctx req w res w'. rp_Commit r ctx req w = (res, w') \<or> rp_MarkInitialized r ctx req w = (res, w') \<longrightarrow>
       log w' = log w @ [(rp_MSPID r, is_ok res)])"

definition logs_updates :: "('w \<Rightarrow> (string \<times> bool) list) \<Rightarrow> ('id, 'w) Server \<Rightarrow> bool" where
  "logs_updates log sv \<longleftrightarrow> (\<forall>ctx d w x w1. remotePeers sv ctx d w = (x, w1) \<longrightarrow> log w1 = log w \<and>
     (\<forall>remotes. x = Inr remotes \<longrightarrow> (\<forall>r \<in> set remotes. logs_calls log r)))"

definition succeeded :: "string list \<Rightarrow> (string \<times> bool) list" where
  "succeeded orgs = map (\<lambda>m. (m, True)) orgs"

text \<open>The calls of one attempt: successes, then at most one failure, at the head of what stays pending.\<close>

definition stops_at :: "string list \<Rightarrow> (string \<times> bool) list \<Rightarrow> bool" where
  "stops_at rest tried \<longleftrightarrow> tried = [] \<or> (\<exists>m ms. rest = m # ms \<and> tried = [(m, False)])"

lemma propagate_progress:
  assumes "\<And>r. r \<in> set remotes \<Longrightarrow> logs_calls log r"
    and "propagate ctx remotes req initialized orgs w = (e, rest, w')"
  shows "\<exists>don tried. orgs = don @ rest \<and> log w' = log w @ succeeded don @ tried \<and> stops_at rest tried \<and>
    (e = None \<longleftrightarrow> rest = [])"
  using assms(2)
proof (induction orgs arbitrary: w)
  case Nil
  then show ?case by (auto simp: stops_at_def succeeded_def)
next
  case (Cons m orgs)
  show ?case
  proof (cases "byMSP remotes m")
    case None
    then show ?thesis using Cons.prems by (auto simp: stops_at_def succeeded_def)
  next
    case (Some r)
    let ?call = "if initialized then rp_MarkInitialized r ctx req w else rp_Commit r ctx req w"
    obtain x w1 where call: "?call = (x, w1)" by fastforce
    have log: "log w1 = log w @ [(m, is_ok x)]"
      using byMSP_Some [OF Some] assms(1) [of r] call unfolding logs_calls_def by (metis (full_types))
    show ?thesis
    proof (cases x)
      case (Inl err)
      with Cons.prems Some call log show ?thesis by (auto simp: stops_at_def succeeded_def is_ok_iff)
    next
      case (Inr u)
      then have "propagate ctx remotes req initialized orgs w1 = (e, rest, w')"
        using Cons.prems Some call by simp
      from Cons.IH [OF this] obtain don tried where
        "orgs = don @ rest" "log w' = log w1 @ succeeded don @ tried" "stops_at rest tried"
        "(e = None) = (rest = [])" by blast
      then show ?thesis using log Inr
        by (intro exI [of _ "m # don"] exI [of _ tried]) (auto simp: succeeded_def is_ok_iff)
    qed
  qed
qed

text \<open>The organizations are collected without repetition.\<close>

lemma collect_distinct:
  assumes "distinct orgs" and "set seen = set orgs"
  shows "distinct (collectOrganizations remotes seen False orgs) \<and>
    set (collectOrganizations remotes seen False orgs) = set orgs \<union> rp_MSPID ` set remotes"
  using assms
proof (induction remotes arbitrary: seen orgs)
  case (Cons r rs)
  show ?case
  proof (cases "rp_MSPID r \<in> set seen")
    case True
    then have "set (rp_MSPID r # seen) = set orgs" using Cons.prems by auto
    from Cons.IH [OF Cons.prems(1) this] True Cons.prems show ?thesis by auto
  next
    case False
    with Cons.prems have "distinct (orgs @ [rp_MSPID r])" "set (rp_MSPID r # seen) = set (orgs @ [rp_MSPID r])" by auto
    from Cons.IH [OF this] False show ?thesis by auto
  qed
qed simp

definition pending_orgs :: "'w RemotePeer list \<Rightarrow> DefinitionPropagation \<Rightarrow> string list" where
  "pending_orgs remotes progress =
     collectOrganizations remotes [] (dp_Resolved progress) (dp_Organizations progress)"

lemma pending_orgs_resolved: "dp_Resolved progress \<Longrightarrow> pending_orgs remotes progress = dp_Organizations progress"
  by (simp add: pending_orgs_def collect_resolved)

text \<open>One attempt either stops before any peer is contacted and keeps the progress, or fixes the pending
  organizations and works off a prefix of them.\<close>

lemma reconcile_attempt:
  assumes "logs_updates log sv"
    and "ReconcileDefinition sv ev def initialized progress s w = (res, progress', s', w')"
  obtains (stopped) "progress' = progress" "log w' = log w"
      "is_ok res \<Longrightarrow> dp_Resolved progress \<and> dp_Organizations progress = []"
    | (worked) remotes w1 don tried where "remotePeers sv (ev_ctx ev) def w = (Inr remotes, w1)"
      "dp_Resolved progress'" "pending_orgs remotes progress = don @ dp_Organizations progress'"
      "log w' = log w @ succeeded don @ tried" "stops_at (dp_Organizations progress') tried"
      "is_ok res \<Longrightarrow> dp_Organizations progress' = []"
proof (cases "fst (applyLedgerDefinition sv ev def initialized s w)")
  case (Inl e)
  then show ?thesis
    using assms(2) stopped
    by (cases "applyLedgerDefinition sv ev def initialized s w") (auto simp: ReconcileDefinition_def is_ok_iff)
next
  case (Inr c)
  then obtain s1 where ap: "applyLedgerDefinition sv ev def initialized s w = (Inr c, s1)" by (metis prod.collapse)
  obtain x w1 where rem: "remotePeers sv (ev_ctx ev) def w = (x, w1)" by fastforce
  have log: "log w1 = log w" "\<And>remotes r. x = Inr remotes \<Longrightarrow> r \<in> set remotes \<Longrightarrow> logs_calls log r"
    using assms(1) rem unfolding logs_updates_def by blast+
  consider (finished) "dp_Resolved progress" "dp_Organizations progress = []"
    | (unresolved) e where "\<not> (dp_Resolved progress \<and> dp_Organizations progress = [])" "x = Inl e"
    | (contacts) remotes where "\<not> (dp_Resolved progress \<and> dp_Organizations progress = [])" "x = Inr remotes"
    by (cases x) auto
  then show ?thesis
  proof cases
    case finished
    with assms(2) ap stopped show ?thesis by (auto simp: ReconcileDefinition_def)
  next
    case unresolved
    with assms(2) ap rem log stopped show ?thesis by (auto simp: ReconcileDefinition_def is_ok_iff)
  next
    case contacts
    let ?orgs = "pending_orgs remotes progress"
    let ?sign = "SignInternalRequest (sv_signer sv) (ev_sign_time ev) (ev_nonce ev) (sv_channelID sv)
      (if initialized then MarkInitializedRequest def else CommitRequest def)"
    note run = assms(2) [unfolded ReconcileDefinition_def ap, simplified contacts rem prod.case sum.case,
        folded pending_orgs_def]
    consider "?orgs = []" | e where "?orgs \<noteq> []" "?sign = Inl e" | req where "?orgs \<noteq> []" "?sign = Inr req"
      by (cases ?sign) auto
    then show ?thesis
    proof cases
      case 1
      with run contacts rem log show ?thesis
        by (intro worked [of remotes w1 "[]" "[]"])
          (auto simp: Let_def pending_orgs_def [symmetric] succeeded_def stops_at_def)
    next
      case 2
      with run contacts rem log show ?thesis
        by (intro worked [of remotes w1 "[]" "[]"])
          (auto simp: Let_def pending_orgs_def [symmetric] succeeded_def stops_at_def is_ok_iff)
    next
      case 3
      obtain e rest w2 where p: "propagate (ev_ctx ev) remotes req initialized ?orgs w1 = (e, rest, w2)"
        by (metis prod_cases3)
      from propagate_progress [OF log(2) [OF contacts(2)] p] obtain don tried where
        "?orgs = don @ rest" "log w2 = log w1 @ succeeded don @ tried" "stops_at rest tried" "(e = None) = (rest = [])"
        by blast
      with run 3 contacts rem log p show ?thesis
        by (intro worked [of remotes w1 don tried])
          (cases e; auto simp: Let_def pending_orgs_def [symmetric] is_ok_iff)+
    qed
  qed
qed

text \<open>The attempts at one update, in any worlds and stores, from the progress a new update starts with; the
  last argument collects their calls.\<close>

inductive attempts ::
  "('w \<Rightarrow> (string \<times> bool) list) \<Rightarrow> ('id, 'w) Server \<Rightarrow> ChaincodeDefinition \<Rightarrow> bool
    \<Rightarrow> DefinitionPropagation \<Rightarrow> (string \<times> bool) list \<Rightarrow> bool"
  for log sv def initialized where
  first: "attempts log sv def initialized newPropagation []"
| again: "attempts log sv def initialized progress calls \<Longrightarrow>
    ReconcileDefinition sv ev def initialized progress s w = (res, progress', s', w') \<Longrightarrow>
    log w' = log w @ extra \<Longrightarrow> attempts log sv def initialized progress' (calls @ extra)"

definition progress_inv :: "DefinitionPropagation \<Rightarrow> (string \<times> bool) list \<Rightarrow> bool" where
  "progress_inv progress calls \<longleftrightarrow> distinct (dp_Organizations progress) \<and>
     (\<forall>m. (m, True) \<in> set calls \<longrightarrow> m \<notin> set (dp_Organizations progress)) \<and>
     (\<not> dp_Resolved progress \<longrightarrow> dp_Organizations progress = [] \<and> calls = [])"

lemma pending_orgs_fresh:
  assumes "progress_inv progress calls"
  shows "distinct (pending_orgs remotes progress)"
    and "(m, True) \<in> set calls \<Longrightarrow> m \<notin> set (pending_orgs remotes progress)"
    and "\<not> dp_Resolved progress \<Longrightarrow> set (pending_orgs remotes progress) = rp_MSPID ` set remotes"
  using assms collect_distinct [of "[]" "[]" remotes]
  by (cases "dp_Resolved progress"; simp add: progress_inv_def pending_orgs_def collect_resolved)+

lemma attempts_inv:
  assumes "logs_updates log sv" and "attempts log sv def initialized progress calls"
  shows "progress_inv progress calls"
  using assms(2)
proof induction
  case first
  show ?case by (simp add: progress_inv_def newPropagation_def)
next
  case (again progress calls ev s w res progress' s' w' extra)
  from assms(1) again(2) show ?case
  proof (cases rule: reconcile_attempt)
    case stopped
    with again show ?thesis by simp
  next
    case (worked remotes w1 don tried)
    have extra: "extra = succeeded don @ tried" using worked(4) again(3) by simp
    have "(m, True) \<in> set extra \<Longrightarrow> m \<in> set don" for m
      using worked(5) by (auto simp: extra succeeded_def stops_at_def)
    with pending_orgs_fresh [OF again(4), where remotes = remotes, unfolded worked(3)] worked(2)
    show ?thesis by (auto simp: progress_inv_def)
  qed
qed

text \<open>C28: consider an update in any state its attempts can bring it to, from the first one on.  The next
  attempt calls pending organizations, each once and in order, stops at the first failure, and leaves
  pending exactly those that did not succeed; it succeeds only with none left.  No organization that
  succeeded in this or any earlier attempt is called again or still pending.  The pending organizations
  are those of the peers resolved by the first attempt that gets so far, without repetition, and stay
  fixed from then on.\<close>

theorem reconcile_resumes:
  assumes "logs_updates log sv" and "attempts log sv def initialized progress calls"
    and "ReconcileDefinition sv ev def initialized progress s w = (res, progress', s', w')"
  shows "\<exists>don tried. log w' = log w @ map (\<lambda>m. (m, True)) don @ tried \<and>
    (tried = [] \<or> (\<exists>m ms. dp_Organizations progress' = m # ms \<and> tried = [(m, False)])) \<and>
    distinct (don @ dp_Organizations progress') \<and>
    (\<forall>m. (m, True) \<in> set calls \<longrightarrow> m \<notin> set (don @ dp_Organizations progress')) \<and>
    (is_ok res \<longrightarrow> dp_Resolved progress' \<and> dp_Organizations progress' = []) \<and>
    (if dp_Resolved progress then dp_Resolved progress' \<and> dp_Organizations progress = don @ dp_Organizations progress'
     else if dp_Resolved progress' then \<exists>remotes w1. remotePeers sv (ev_ctx ev) def w = (Inr remotes, w1) \<and>
       set (don @ dp_Organizations progress') = rp_MSPID ` set remotes
     else log w' = log w)"
proof -
  note inv = attempts_inv [OF assms(1,2)]
  from assms(1,3) show ?thesis
  proof (cases rule: reconcile_attempt)
    case stopped
    with inv show ?thesis by (intro exI [of _ "[]"]) (auto simp: progress_inv_def)
  next
    case (worked remotes w1 don tried)
    note request_fresh = pending_orgs_fresh [OF inv, where remotes = remotes, unfolded worked(3)]
    have "dp_Resolved progress \<Longrightarrow> dp_Organizations progress = don @ dp_Organizations progress'"
      using pending_orgs_resolved worked(3) by metis
    with worked request_fresh show ?thesis
      by (intro exI [of _ don] exI [of _ tried]) (simp add: succeeded_def stops_at_def)
  qed
qed

lemma sample_logs: "logs_updates (\<lambda>w. w) (sample_server up)"
  by (auto simp: logs_updates_def logs_calls_def sample_peer_def remotePeers_def sample_server_def NewServer_def
      NewServerWithRemoteProvider_def staticRemotePeers_def)

theorem reconcile_resumes_witness:
  "\<exists>res progress' s' w' res' progress'' s'' w''.
     ReconcileDefinition (sample_server False) sample_env (sample_def 1) True newPropagation sample_committed [] =
       (res, progress', s', w') \<and>
     w' = [(''Org2'', True), (''Org3'', False)] \<and> dp_Organizations progress' = [''Org3''] \<and>
     ReconcileDefinition (sample_server False) sample_env (sample_def 1) True progress' s' [] =
       (res', progress'', s'', w'') \<and> ''Org2'' \<notin> fst ` set w''"
proof -
  let ?sv = "sample_server False"
  let ?r = "ReconcileDefinition ?sv sample_env (sample_def 1) True newPropagation sample_committed []"
  obtain res progress' s' w' where r: "?r = (res, progress', s', w')" by (metis prod_cases4)
  have sv: "sv_signer ?sv = Some \<lparr>sg_Serialize = Some ''Org1'', sg_Sign = \<lambda>m. Some (CHR ''S'' # m)\<rparr>"
    "sv_channelID ?sv = ''ch''" "ev_ctx sample_env = None" "ev_nonce sample_env = Some (replicate 24 CHR ''n'')"
    "remotePeers ?sv None (sample_def 1) [] =
      (Inr [sample_peer ''Org2'' True, sample_peer ''Org3'' False, sample_peer ''Org2'' True], [])"
    by (simp_all add: sample_server_def NewServer_def NewServerWithRemoteProvider_def sample_env_def
        remotePeers_def staticRemotePeers_def)
  obtain req where req: "SignInternalRequest (sv_signer ?sv) (ev_sign_time sample_env) (ev_nonce sample_env)
      (sv_channelID ?sv) (MarkInitializedRequest (sample_def 1)) = Inr req"
    by (simp add: SignInternalRequest_def signRequest_def sv internal_mark Let_def)
  have "is_ok (fst (applyLedgerDefinition ?sv sample_env (sample_def 1) True sample_committed []))" by code_simp
  then obtain c s1 where "applyLedgerDefinition ?sv sample_env (sample_def 1) True sample_committed [] = (Inr c, s1)"
    by (metis is_ok_iff prod.collapse)
  then have "dp_Organizations (fst (snd ?r)) = [''Org3'']" "snd (snd (snd ?r)) = [(''Org2'', True), (''Org3'', False)]"
    "dp_Resolved (fst (snd ?r))"
    using req by (simp_all add: ReconcileDefinition_def sv newPropagation_def byMSP_def)
      (simp_all add: sample_peer_def byMSP_def Let_def)
  then have first: "dp_Organizations progress' = [''Org3'']" "w' = [(''Org2'', True), (''Org3'', False)]"
    "dp_Resolved progress'" by (simp_all add: r)
  have reached: "attempts (\<lambda>w. w) ?sv (sample_def 1) True progress' w'"
    using attempts.again [OF attempts.first r, of "\<lambda>w. w" w'] by simp
  obtain res' progress'' s'' w'' where r': "ReconcileDefinition ?sv sample_env (sample_def 1) True progress' s' [] =
      (res', progress'', s'', w'')" by (metis prod_cases4)
  from reconcile_resumes [OF sample_logs reached r'] first have "''Org2'' \<notin> fst ` set w''" by auto
  with r r' first show ?thesis by blast
qed

subsection \<open>Commit\<close>

lemma ask_local:
  "HasMatchingApproval (ev_ctx ev) def (sv_mspID sv) s = Inr approved \<Longrightarrow>
     checkCommitReadiness sv ev def False s w = (Inr [(sv_mspID sv, approved)], w)"
  by (simp add: checkCommitReadiness_def)









subsection \<open>Witnesses over a sample channel\<close>

lemma sample_admitted:
  assumes "check sample_lib 10 10 [] (Some sample_auth) (Some r) operation = Inr m"
    and "decode (sr_Payload r) = Some p" and "st_channelID s = ''ch''"
  shows "verifyAndUnmarshal sample_lib (sample_server up) sample_env (Some s) (Some r) operation decode = Inr (m, r, p, s)"
  using assms by (simp add: verifyAndUnmarshal_def sample_server_def NewServer_def NewServerWithRemoteProvider_def sample_env_def)

definition sample_payload :: bytes where
  "sample_payload = jprint (JObj (obj [(''definition'', definition_json (sample_def 1))]))"

lemma sample_payload_decodes: "decodeDefinition sample_payload = Some (sample_def 1)"
  unfolding sample_payload_def
  by (rule decodeDefinition_json) (simp add: text_ok_def sample_def_def is_i64_def min_i64_def max_i64_def)

lemma sample_payload_nonempty: "sample_payload \<noteq> []"
  by (simp add: sample_payload_def)

theorem internal_calls_only_mirror_witness:
  "\<exists>res s'. Server_MarkInitialized sample_lib (sample_server True) sample_env
      (Some (sample_request ''Org2'' OperationMarkInitialized True sample_payload)) (Some sample_committed) [] = (res, Some s') \<and>
    (s' = sample_committed \<or> definition_of s' = (definition_of sample_committed)(''basic'' := Some (sample_def 1, True)))"
proof -
  let ?r = "sample_request ''Org2'' OperationMarkInitialized True sample_payload"
  have ch: "st_channelID sample_committed = ''ch''" by code_simp
  obtain res s' where ap: "applyLedgerDefinition (sample_server True) sample_env (sample_def 1) True
      sample_committed [] = (res, s')" by fastforce
  have call: "Server_MarkInitialized sample_lib (sample_server True) sample_env (Some ?r)
      (Some sample_committed) [] = (res, Some s')"
    using sample_admitted [OF sample_internal_ok [OF internal_mark(1) sample_payload_nonempty], of decodeDefinition, OF _ ch]
    by (simp add: Server_MarkInitialized_def sample_payload_decodes ap)
  have act: "definition_of sample_committed ''basic'' = Some (sample_def 1, False)" by code_simp
  have n: "cd_Name (sample_def 1) = ''basic''" by (simp add: sample_def_def)
  have "ev_ctx sample_env = None" by (simp add: sample_env_def)
  from internal_calls_only_mirror [OF sample_committed_live this disjI2 [OF call]] call
  show ?thesis
    by (auto simp: sample_payload_decodes n act ledger_join_def sample_server_def sample_backend_def NewServer_def
        NewServerWithRemoteProvider_def ledger_of_def)
qed


end
