(* ===== verification/Orch_Types.thy ===== *)
theory Orch_Types
  imports Lifecycle_Ledger
begin

section \<open>Data of the orchestrator\<close>

text \<open>
  The data that the files of \<open>pkg/orchestrator\<close> share: the protobuf messages they take apart, as
  records of the fields they use; the invocation request and response and the chaincode event of
  \<open>service.go\<close>; the execution result of \<open>execution.go\<close>; and Go's error chains.  A pointer that the
  code compares with nil is an option, a Go map is a list of pairs with distinct keys.  Decoding
  protobuf bytes belongs to generated code, so the decoders are the record \<open>proto_lib\<close>, a parameter
  of whatever uses them.
\<close>

subsection \<open>Protobuf messages\<close>

record PeerResponse =
  pr_Status :: int
  pr_Message :: string
  pr_Payload :: bytes

record PeerEndorsement =
  pe_Endorser :: bytes
  pe_Signature :: bytes

record ProposalResponse =
  ps_Response :: "PeerResponse option"
  ps_Payload :: bytes
  ps_Endorsement :: "PeerEndorsement option"

record Proposal =
  pp_Header :: bytes
  pp_Payload :: bytes

record SignedProposal =
  sp_ProposalBytes :: bytes
  sp_Signature :: bytes

text \<open>\<open>sdk.Endorsement\<close>; the first response may be a nil pointer.\<close>

record Endorsement =
  en_Proposal :: "Proposal option"
  en_Responses :: "ProposalResponse option list"

definition emptyEndorsement :: Endorsement where
  "emptyEndorsement = \<lparr>en_Proposal = None, en_Responses = []\<rparr>"

text \<open>A namespace of a native transaction; its reads and writes are opaque here.\<close>

record TxNamespace =
  tn_NsId :: string
  tn_NsVersion :: u64
  tn_Content :: bytes

record Tx =
  tx_Namespaces :: "TxNamespace list"
  tx_Metadata :: "bytes list"

record SdkMetadata =
  sm_EventName :: string
  sm_Event :: bytes

record TxRef =
  rf_TxId :: string
  rf_BlockNum :: u64
  rf_TxNum :: u32

text \<open>
  \<open>committerpb.Status\<close>: the values the code names, any other value in the generated name table, and
  a number outside of it.
\<close>

datatype native_status =
    STATUS_UNSPECIFIED
  | COMMITTED
  | ABORTED_SIGNATURE_INVALID
  | ABORTED_MVCC_CONFLICT
  | REJECTED_DUPLICATE_TX_ID
  | MALFORMED_BAD_ENVELOPE
  | MALFORMED_MISSING_TX_ID
  | MALFORMED_UNSUPPORTED_ENVELOPE_PAYLOAD
  | MALFORMED_BAD_ENVELOPE_PAYLOAD
  | MALFORMED_TX_ID_CONFLICT
  | MALFORMED_EMPTY_NAMESPACES
  | MALFORMED_DUPLICATE_NAMESPACE
  | MALFORMED_NAMESPACE_ID_INVALID
  | MALFORMED_BLIND_WRITES_NOT_ALLOWED
  | MALFORMED_NO_WRITES
  | MALFORMED_EMPTY_KEY
  | MALFORMED_DUPLICATE_KEY_IN_READ_WRITE_SET
  | MALFORMED_MISSING_SIGNATURE
  | MALFORMED_NAMESPACE_POLICY_INVALID
  | MALFORMED_CONFIG_TX_INVALID
  | OTHER_NAMED_STATUS string
  | UNNAMED_STATUS int

record TxStatus =
  ts_Ref :: "TxRef option"
  ts_Status :: native_status

text \<open>\<open>GetTxId\<close>, \<open>GetBlockNum\<close> and \<open>GetTxNum\<close> read a nil reference as zero.\<close>

definition ref_TxId :: "TxRef option \<Rightarrow> string" where
  "ref_TxId r = (case r of None \<Rightarrow> '''' | Some x \<Rightarrow> rf_TxId x)"

definition ref_BlockNum :: "TxRef option \<Rightarrow> u64" where
  "ref_BlockNum r = (case r of None \<Rightarrow> 0 | Some x \<Rightarrow> rf_BlockNum x)"

definition ref_TxNum :: "TxRef option \<Rightarrow> u32" where
  "ref_TxNum r = (case r of None \<Rightarrow> 0 | Some x \<Rightarrow> rf_TxNum x)"

text \<open>\<open>Status.String\<close> and membership in \<open>Status_name\<close>.\<close>

fun status_string :: "native_status \<Rightarrow> string" where
  "status_string STATUS_UNSPECIFIED = ''STATUS_UNSPECIFIED''"
| "status_string COMMITTED = ''COMMITTED''"
| "status_string ABORTED_SIGNATURE_INVALID = ''ABORTED_SIGNATURE_INVALID''"
| "status_string ABORTED_MVCC_CONFLICT = ''ABORTED_MVCC_CONFLICT''"
| "status_string REJECTED_DUPLICATE_TX_ID = ''REJECTED_DUPLICATE_TX_ID''"
| "status_string MALFORMED_BAD_ENVELOPE = ''MALFORMED_BAD_ENVELOPE''"
| "status_string MALFORMED_MISSING_TX_ID = ''MALFORMED_MISSING_TX_ID''"
| "status_string MALFORMED_UNSUPPORTED_ENVELOPE_PAYLOAD = ''MALFORMED_UNSUPPORTED_ENVELOPE_PAYLOAD''"
| "status_string MALFORMED_BAD_ENVELOPE_PAYLOAD = ''MALFORMED_BAD_ENVELOPE_PAYLOAD''"
| "status_string MALFORMED_TX_ID_CONFLICT = ''MALFORMED_TX_ID_CONFLICT''"
| "status_string MALFORMED_EMPTY_NAMESPACES = ''MALFORMED_EMPTY_NAMESPACES''"
| "status_string MALFORMED_DUPLICATE_NAMESPACE = ''MALFORMED_DUPLICATE_NAMESPACE''"
| "status_string MALFORMED_NAMESPACE_ID_INVALID = ''MALFORMED_NAMESPACE_ID_INVALID''"
| "status_string MALFORMED_BLIND_WRITES_NOT_ALLOWED = ''MALFORMED_BLIND_WRITES_NOT_ALLOWED''"
| "status_string MALFORMED_NO_WRITES = ''MALFORMED_NO_WRITES''"
| "status_string MALFORMED_EMPTY_KEY = ''MALFORMED_EMPTY_KEY''"
| "status_string MALFORMED_DUPLICATE_KEY_IN_READ_WRITE_SET = ''MALFORMED_DUPLICATE_KEY_IN_READ_WRITE_SET''"
| "status_string MALFORMED_MISSING_SIGNATURE = ''MALFORMED_MISSING_SIGNATURE''"
| "status_string MALFORMED_NAMESPACE_POLICY_INVALID = ''MALFORMED_NAMESPACE_POLICY_INVALID''"
| "status_string MALFORMED_CONFIG_TX_INVALID = ''MALFORMED_CONFIG_TX_INVALID''"
| "status_string (OTHER_NAMED_STATUS s) = s"
| "status_string (UNNAMED_STATUS n) = FormatInt n"

definition status_known :: "native_status \<Rightarrow> bool" where
  "status_known s = (case s of UNNAMED_STATUS _ \<Rightarrow> False | _ \<Rightarrow> True)"

text \<open>
  The generated decoders.  A header decodes to the bytes of its channel header, a signature header to
  its creator, a proposal payload to its transient map and the bytes of its invocation spec.
\<close>

record ChannelHeader =
  ch_Type :: int
  ch_ChannelId :: string
  ch_TxId :: string
  ch_Extension :: bytes

text \<open>A chaincode spec: its name and version when it has an identifier, the init flag when it has an input.\<close>

record ChaincodeSpec =
  cs_Id :: "(string \<times> string) option"
  cs_IsInit :: "bool option"

record EnvelopePayload =
  ep_ChannelHeader :: "bytes option"
  ep_SignatureHeader :: bytes
  ep_Data :: bytes

record proto_lib =
  pl_Tx :: "bytes \<Rightarrow> Tx option"
  pl_Metadata :: "bytes \<Rightarrow> SdkMetadata option"
  pl_Envelope :: "bytes \<Rightarrow> bytes option"
  pl_Payload :: "bytes \<Rightarrow> EnvelopePayload option"
  pl_Header :: "bytes \<Rightarrow> bytes option"
  pl_ChannelHeader :: "bytes \<Rightarrow> ChannelHeader option"
  pl_SignatureHeader :: "bytes \<Rightarrow> bytes option"
  pl_HeaderExtension :: "bytes \<Rightarrow> (string \<times> string) option option"
  pl_Proposal :: "bytes \<Rightarrow> Proposal option"
  pl_ProposalPayload :: "bytes \<Rightarrow> ((string \<times> bytes) list \<times> bytes) option"
  pl_InvocationSpec :: "bytes \<Rightarrow> ChaincodeSpec option"
  pl_Identity :: "bytes \<Rightarrow> (string \<times> bytes) option"

text \<open>\<open>HeaderType_MESSAGE\<close> of Fabric's \<open>common.proto\<close>.\<close>

definition HeaderType_MESSAGE :: int where "HeaderType_MESSAGE = 0"

subsection \<open>Errors\<close>

text \<open>
  An error value is a message, a context error, a gRPC status, the ordering error of
  \<open>execution.go\<close>, or one of these wrapped by \<open>fmt.Errorf\<close> with \<open>%w\<close> or joined by \<open>errors.Join\<close>.
\<close>

datatype orch_error =
    Plain string
  | CtxError ctx_error
  | StatusError code string
  | StoreError store_error
  | LedgerError ledger_error
  | OrderingError orch_error bool
  | LifecyclePendingError
  | LifecycleSuperseded
  | Wrapped string orch_error
  | Joined "orch_error list"

text \<open>The first result a search through a list of errors gives.\<close>

primrec first_some :: "('a \<Rightarrow> 'b option) \<Rightarrow> 'a list \<Rightarrow> 'b option" where
  "first_some f [] = None"
| "first_some f (x # xs) = (case f x of None \<Rightarrow> first_some f xs | Some y \<Rightarrow> Some y)"

lemma first_some_cong [fundef_cong]:
  "xs = ys \<Longrightarrow> (\<And>x. x \<in> set ys \<Longrightarrow> f x = g x) \<Longrightarrow> first_some f xs = first_some g ys"
  by (induction ys arbitrary: xs) (auto split: option.split)

text \<open>\<open>errors.Is\<close> for the two context errors and \<open>errors.As\<close> for the ordering error.\<close>

fun errors_is :: "orch_error \<Rightarrow> orch_error \<Rightarrow> bool" where
  "errors_is (OrderingError e u) t \<longleftrightarrow> OrderingError e u = t \<or> errors_is e t"
| "errors_is (Wrapped m e) t \<longleftrightarrow> Wrapped m e = t \<or> errors_is e t"
| "errors_is (Joined es) t \<longleftrightarrow> Joined es = t \<or> (\<exists>e \<in> set es. errors_is e t)"
| "errors_is e t \<longleftrightarrow> e = t"

fun uncertainDelivery :: "orch_error \<Rightarrow> bool option" where
  "uncertainDelivery (OrderingError e u) = Some u"
| "uncertainDelivery (Wrapped m e) = uncertainDelivery e"
| "uncertainDelivery (Joined es) =
     first_some uncertainDelivery es"
| "uncertainDelivery e = None"

text \<open>\<open>status.FromError\<close>: the status an error carries, and that of a context error.\<close>

fun errors_status :: "orch_error \<Rightarrow> code option" where
  "errors_status (StatusError c m) = Some c"
| "errors_status (OrderingError e u) = errors_status e"
| "errors_status (Wrapped m e) = errors_status e"
| "errors_status (Joined es) =
     first_some errors_status es"
| "errors_status e = None"

fun FromContextError :: "ctx_error \<Rightarrow> orch_error" where
  "FromContextError Canceled = StatusError CodeCanceled ''context canceled''"
| "FromContextError DeadlineExceeded = StatusError CodeDeadlineExceeded ''context deadline exceeded''"

definition ctx_ok :: "ctx \<Rightarrow> orch_error + unit" where
  "ctx_ok ctx = (case ctx of None \<Rightarrow> Inr () | Some e \<Rightarrow> Inl (CtxError e))"

lemma ctx_ok_iff [simp]: "ctx_ok ctx = Inr u \<longleftrightarrow> ctx = None"
  by (simp add: ctx_ok_def split: option.split)

text \<open>Rows answered by the Query Service, by namespace; the first row of a key counts.\<close>

type_synonym row_answer = "(string \<times> (string \<times> bytes \<times> u64) list) list"

definition findRow :: "string \<Rightarrow> string \<Rightarrow> row_answer \<Rightarrow> (bytes \<times> u64) option" where
  "findRow namespace key answer =
     first_some (\<lambda>(ns, rows).
       if ns \<noteq> namespace then None
       else first_some (\<lambda>(k, value, version). if k = key then Some (value, version) else None) rows) answer"

text \<open>Read and write sets of the SDK; a version is its block number.\<close>

record KVRead =
  kr_Key :: string
  kr_Version :: "u64 option"

record KVWrite =
  kw_Key :: string
  kw_Value :: bytes
  kw_IsDelete :: bool

record ReadWriteSet =
  rw_Reads :: "KVRead list"
  rw_Writes :: "KVWrite list"

subsection \<open>Requests, responses and events\<close>

record InvocationRequest =
  ir_definition :: "CommittedDefinition option"
  ir_ClientTxID :: string
  ir_ClientCreator :: bytes
  ir_ClientNonce :: bytes
  ir_ClientSignedProposal :: "SignedProposal option"
  ir_ClientTransient :: "(string \<times> bytes) list"
  ir_EndorsingOrganizations :: "string list"
  ir_IdempotencyKey :: string
  ir_RequestDigest :: string
  ir_Namespace :: string
  ir_ChaincodeName :: string
  ir_ChaincodeVersion :: string
  ir_IsInit :: bool
  ir_Function :: string
  ir_Args :: "string list"

record LifecycleExecutionBinding =
  xb_MSPID :: string
  xb_Namespace :: string
  xb_ChaincodeName :: string
  xb_ChaincodeVersion :: string
  xb_Sequence :: int
  xb_PackageID :: string
  xb_PackageAddress :: string

record ChaincodeEvent =
  ce_ChaincodeID :: string
  ce_TxID :: string
  ce_EventName :: string
  ce_Payload :: string
  ce_PayloadBase64 :: string

record InvocationResponse =
  rv_TxID :: string
  rv_Status :: int
  rv_Message :: string
  rv_Payload :: string
  rv_PayloadBase64 :: string
  rv_Submitted :: bool
  rv_FinalityPending :: bool
  rv_CommitStatus :: string
  rv_BlockNum :: u64
  rv_TxNum :: u32
  rv_IdempotencyKey :: string
  rv_IdempotentReplay :: bool
  rv_ChaincodeEvent :: "ChaincodeEvent option"
  rv_LifecycleBindings :: "LifecycleExecutionBinding list"

definition emptyResponse :: InvocationResponse where
  "emptyResponse = \<lparr>rv_TxID = '''', rv_Status = 0, rv_Message = '''', rv_Payload = '''',
     rv_PayloadBase64 = '''', rv_Submitted = False, rv_FinalityPending = False, rv_CommitStatus = '''',
     rv_BlockNum = 0, rv_TxNum = 0, rv_IdempotencyKey = '''', rv_IdempotentReplay = False,
     rv_ChaincodeEvent = None, rv_LifecycleBindings = []\<rparr>"

definition responseFromPeer :: "string \<Rightarrow> PeerResponse \<Rightarrow> InvocationResponse" where
  "responseFromPeer txID resp = emptyResponse\<lparr>rv_TxID := txID, rv_Status := pr_Status resp,
     rv_Message := pr_Message resp, rv_Payload := pr_Payload resp,
     rv_PayloadBase64 := b64_encode (pr_Payload resp)\<rparr>"

text \<open>The result of one helper execution.\<close>

record helperExecutionResult =
  hr_Endorsement :: Endorsement
  hr_TxID :: string
  hr_Response :: "PeerResponse option"
  hr_Binding :: "LifecycleExecutionBinding option"

end
