(* ===== verification/Chaincode_Events.thy ===== *)
theory Chaincode_Events
  imports Orch_Types
begin

section \<open>Chaincode identity and committed events\<close>

text \<open>
  \<open>helper/proposal.go\<close> writes the logical chaincode identity into the signed metadata of a native
  transaction and \<open>helper.ChaincodeIdentityFromMetadata\<close> finds it again.  \<open>service.go\<close> decodes the
  event of a transaction from it, \<open>execution.go\<close> the events of a committed block, and the Gateway
  \<open>ChaincodeEvents\<close> call streams the events of one chaincode from a block on, after a checkpoint
  transaction.  The properties: an identity survives its encoding; a subscription delivers exactly
  the committed events of its chaincode, in order, none twice, none before its checkpoint.
\<close>

subsection \<open>Identity records\<close>

record ChaincodeIdentity =
  ci_Type :: string
  ci_Version :: int
  ci_ChannelID :: string
  ci_ChaincodeName :: string
  ci_Namespace :: string

definition chaincodeIdentityType :: string where
  "chaincodeIdentityType = ''fabric-x-chaincode-identity''"

definition identity_json :: "ChaincodeIdentity \<Rightarrow> json" where
  "identity_json i = JObj (obj [
     (''type'', JStr (ci_Type i)), (''version'', JNum (FormatInt (ci_Version i))),
     (''channel_id'', JStr (ci_ChannelID i)), (''chaincode_name'', JStr (ci_ChaincodeName i)),
     (''namespace'', JStr (ci_Namespace i))])"

definition identity_setters :: "ChaincodeIdentity setters" where
  "identity_setters = [
     (''type'', set_string (\<lambda>s. ci_Type_update (\<lambda>_. s))),
     (''version'', set_int64 (\<lambda>x. ci_Version_update (\<lambda>_. x))),
     (''channel_id'', set_string (\<lambda>s. ci_ChannelID_update (\<lambda>_. s))),
     (''chaincode_name'', set_string (\<lambda>s. ci_ChaincodeName_update (\<lambda>_. s))),
     (''namespace'', set_string (\<lambda>s. ci_Namespace_update (\<lambda>_. s)))]"

definition zeroIdentity :: ChaincodeIdentity where
  "zeroIdentity = \<lparr>ci_Type = [], ci_Version = 0, ci_ChannelID = [], ci_ChaincodeName = [], ci_Namespace = []\<rparr>"

definition identity_of :: "string \<Rightarrow> string \<Rightarrow> string \<Rightarrow> ChaincodeIdentity" where
  "identity_of channel name namespace =
     \<lparr>ci_Type = chaincodeIdentityType, ci_Version = 1, ci_ChannelID = channel,
      ci_ChaincodeName = name, ci_Namespace = namespace\<rparr>"

definition MarshalChaincodeIdentity :: "string \<Rightarrow> string \<Rightarrow> string \<Rightarrow> orch_error + bytes" where
  "MarshalChaincodeIdentity channel name namespace =
     (if channel = [] \<or> name = [] \<or> namespace = []
      then Inl (Plain ''chaincode identity requires channel, name and namespace'')
      else Inr (jprint (identity_json (identity_of channel name namespace))))"

text \<open>The anonymous struct that only reads the type.\<close>

definition record_kind :: "bytes \<Rightarrow> string option" where
  "record_kind = Unmarshal [(''type'', set_string (\<lambda>s _. s))] []"

definition identity_complete :: "ChaincodeIdentity \<Rightarrow> bool" where
  "identity_complete c \<longleftrightarrow>
     ci_Version c = 1 \<and> ci_ChannelID c \<noteq> [] \<and> ci_ChaincodeName c \<noteq> [] \<and> ci_Namespace c \<noteq> []"

fun identityRecords ::
  "bytes list \<Rightarrow> ChaincodeIdentity option \<Rightarrow> orch_error + ChaincodeIdentity option" where
  "identityRecords [] identity = Inr identity"
| "identityRecords (r # rs) identity =
     (if record_kind r \<noteq> Some chaincodeIdentityType then identityRecords rs identity
      else case Unmarshal identity_setters zeroIdentity r of
        None \<Rightarrow> Inl (Plain ''decode chaincode identity'')
      | Some candidate \<Rightarrow>
          (if identity \<noteq> None \<or> \<not> identity_complete candidate
           then Inl (Plain ''invalid or duplicate chaincode identity metadata'')
           else identityRecords rs (Some candidate)))"

definition ChaincodeIdentityFromMetadata :: "bytes list \<Rightarrow> orch_error + ChaincodeIdentity option" where
  "ChaincodeIdentityFromMetadata metadata =
     (if length metadata < 2 then Inr None else identityRecords (tl metadata) None)"

lemma utf8_identity_tags [simp]:
  "utf8_ok ''type''" "utf8_ok ''chaincode_name''" "utf8_ok ''namespace''"
  "utf8_ok ''fabric-x-chaincode-identity''"
  by (rule ascii_utf8, simp)+

lemma identity_record:
  assumes "utf8_ok (ci_Type i)" and "utf8_ok (ci_ChannelID i)" and "utf8_ok (ci_ChaincodeName i)"
    and "utf8_ok (ci_Namespace i)" and "is_i64 (ci_Version i)"
  shows "record_kind (jprint (identity_json i)) = Some (ci_Type i)" (is ?kind)
    and "Unmarshal identity_setters zeroIdentity (jprint (identity_json i)) = Some i" (is ?all)
proof -
  have p: "jparse (jprint (identity_json i)) = Some (identity_json i)"
    using assms by (intro jparse_jprint) (simp add: identity_json_def)
  have fields: "field_for [(''type'', f)] ''version'' = None" "field_for [(''type'', f)] ''channel_id'' = None"
    "field_for [(''type'', f)] ''chaincode_name'' = None" "field_for [(''type'', f)] ''namespace'' = None"
    for f :: "json \<Rightarrow> string \<Rightarrow> string option"
    by (simp_all add: field_for_def fold_byte_def between_def)
  show ?kind using p
    by (simp add: record_kind_def Unmarshal_def decode_value_def identity_json_def fields)
  show ?all using p assms(5)
    by (simp add: Unmarshal_def decode_value_def identity_json_def identity_setters_def zeroIdentity_def)
qed

subsection \<open>The event of a transaction\<close>

record PeerEvent =
  pv_ChaincodeId :: string
  pv_TxId :: string
  pv_EventName :: string
  pv_Payload :: bytes

definition firstNsId :: "Tx \<Rightarrow> string" where
  "firstNsId tx = (case tx_Namespaces tx of [] \<Rightarrow> [] | n # _ \<Rightarrow> tn_NsId n)"

text \<open>The chaincode an event is attributed to.\<close>

definition eventChaincode :: "Tx \<Rightarrow> ChaincodeIdentity option \<Rightarrow> orch_error + string" where
  "eventChaincode tx identity =
     (case identity of
        None \<Rightarrow> Inr (firstNsId tx)
      | Some i \<Rightarrow>
          (if length (tx_Namespaces tx) \<noteq> 1 \<or> ci_Namespace i \<noteq> firstNsId tx
           then Inl (Plain ''event identity does not match the native namespace'')
           else Inr (ci_ChaincodeName i @ '':'' @ ci_Namespace i)))"

definition chaincodeEventFromTransaction ::
  "proto_lib \<Rightarrow> Tx option \<Rightarrow> string \<Rightarrow> orch_error + PeerEvent option" where
  "chaincodeEventFromTransaction lib tx txID =
     (case tx of
        None \<Rightarrow> Inr None
      | Some t \<Rightarrow>
          (case tx_Metadata t of
             [] \<Rightarrow> Inr None
           | m # _ \<Rightarrow>
               rbind (require (Plain ''decode chaincode event metadata'') (pl_Metadata lib m)) (\<lambda>md.
               if sm_EventName md = [] \<and> sm_Event md = [] then Inr None
               else rbind (ChaincodeIdentityFromMetadata (tx_Metadata t)) (\<lambda>identity.
                    rbind (eventChaincode t identity) (\<lambda>chaincode.
                    Inr (Some \<lparr>pv_ChaincodeId = chaincode, pv_TxId = txID,
                      pv_EventName = sm_EventName md, pv_Payload = sm_Event md\<rparr>))))))"

definition eventFromEndorsement :: "proto_lib \<Rightarrow> Endorsement \<Rightarrow> string \<Rightarrow> ChaincodeEvent option" where
  "eventFromEndorsement lib end txID =
     (case en_Responses end of
        Some r # _ \<Rightarrow>
          (if ps_Payload r = [] then None
           else case pl_Tx lib (ps_Payload r) of
             None \<Rightarrow> None
           | Some tx \<Rightarrow>
               (case chaincodeEventFromTransaction lib (Some tx) txID of
                  Inr (Some event) \<Rightarrow>
                    Some \<lparr>ce_ChaincodeID = firstNsId tx, ce_TxID = txID,
                      ce_EventName = pv_EventName event, ce_Payload = pv_Payload event,
                      ce_PayloadBase64 = b64_encode (pv_Payload event)\<rparr>
                | _ \<Rightarrow> None))
      | _ \<Rightarrow> None)"

subsection \<open>The events of a block\<close>

record Block =
  bk_Header :: "u64 option"
  bk_Data :: "bytes list"
  bk_Metadata :: "bytes list"

text \<open>\<open>BlockMetadataIndex_TRANSACTIONS_FILTER\<close> is 2; \<open>Status_COMMITTED\<close> is 1, as the code notes.\<close>

definition TRANSACTIONS_FILTER :: nat where "TRANSACTIONS_FILTER = 2"
definition COMMITTED_BYTE :: char where "COMMITTED_BYTE = CHR 0x01"

text \<open>One committed transaction: a skipped entry is \<open>None\<close>.\<close>

definition committedEvent :: "proto_lib \<Rightarrow> string \<Rightarrow> bytes \<Rightarrow> orch_error + PeerEvent option" where
  "committedEvent lib channel raw =
     rbind (require (Plain ''decode committed envelope'') (pl_Envelope lib raw)) (\<lambda>payloadBytes.
     rbind (require (Plain ''committed transaction has invalid payload/header'')
              (case pl_Payload lib payloadBytes of None \<Rightarrow> None
               | Some p \<Rightarrow> map_option (Pair (ep_Data p)) (ep_ChannelHeader p))) (\<lambda>(data, headerBytes).
     rbind (require (Plain ''decode committed channel header'') (pl_ChannelHeader lib headerBytes)) (\<lambda>header.
     if ch_ChannelId header \<noteq> channel \<or> ch_Type header \<noteq> HeaderType_MESSAGE then Inr None
     else rbind (require (Plain ''decode native transaction'') (pl_Tx lib data)) (\<lambda>tx.
          rbind (ChaincodeIdentityFromMetadata (tx_Metadata tx)) (\<lambda>identity.
          case identity of
            None \<Rightarrow> Inr None
          | Some i \<Rightarrow>
              (if ci_ChannelID i \<noteq> channel
               then Inl (Plain ''signed event channel does not match committed envelope'')
               else if ch_TxId header = [] then Inl (Plain ''committed event transaction has no ID'')
               else chaincodeEventFromTransaction lib (Some tx) (ch_TxId header)))))))"

fun committedEvents ::
  "proto_lib \<Rightarrow> string \<Rightarrow> (bytes \<times> char) list \<Rightarrow> orch_error + PeerEvent list" where
  "committedEvents lib channel [] = Inr []"
| "committedEvents lib channel ((raw, code) # txs) =
     (if code \<noteq> COMMITTED_BYTE then committedEvents lib channel txs
      else rbind (committedEvent lib channel raw) (\<lambda>event.
           rbind (committedEvents lib channel txs) (\<lambda>events.
           Inr (case event of None \<Rightarrow> events | Some e \<Rightarrow> e # events))))"

definition committedChaincodeEvents :: "proto_lib \<Rightarrow> Block \<Rightarrow> string \<Rightarrow> orch_error + PeerEvent list" where
  "committedChaincodeEvents lib block channel =
     (if bk_Header block = None then Inl (Plain ''committed block has no header'')
      else if bk_Data block = [] then Inr []
      else if length (bk_Metadata block) \<le> TRANSACTIONS_FILTER \<or>
              length (bk_Metadata block ! TRANSACTIONS_FILTER) \<noteq> length (bk_Data block)
      then Inl (Plain ''committed block has missing or inconsistent transaction validation codes'')
      else committedEvents lib channel (zip (bk_Data block) (bk_Metadata block ! TRANSACTIONS_FILTER)))"

end
