(* ===== verification/Orch_Config.thy ===== *)
theory Orch_Config
  imports Orch_Types Lifecycle_Auth
begin

section \<open>Configuration\<close>

text \<open>
  The configuration structs of \<open>config/config.go\<close> and \<open>orchestrator/service.go\<close>, their validation
  and the defaults read from them.  Server, network and logging settings that are handed to
  libraries unread are left out; durations are nanoseconds.  An empty error list is a nil error.
\<close>

subsection \<open>Endpoints\<close>

record Endpoint =
  ep_Host :: string
  ep_Port :: int

record TLSConfig =
  tl_Mode :: string
  tl_CertPath :: string
  tl_KeyPath :: string
  tl_CACertPaths :: "string list"
  tl_ServerName :: string

record PeerConf =
  pc_Address :: string
  pc_TLS :: TLSConfig

text \<open>\<open>net.JoinHostPort\<close> brackets a host that contains a colon.\<close>

definition Endpoint_Address :: "Endpoint \<Rightarrow> string" where
  "Endpoint_Address e =
     (if CHR '':'' \<in> set (ep_Host e) then ''['' @ ep_Host e @ '']:'' @ FormatInt (ep_Port e)
      else ep_Host e @ '':'' @ FormatInt (ep_Port e))"

record ClientConfig =
  cc_Endpoint :: "Endpoint option"
  cc_TLS :: TLSConfig

text \<open>\<open>ClientConfig.ToPeerConf\<close> and \<open>ToOrdererConf\<close> dereference the endpoint: nil panics.\<close>

definition ToPeerConf :: "ClientConfig \<Rightarrow> PeerConf option" where
  "ToPeerConf c = map_option (\<lambda>e. \<lparr>pc_Address = Endpoint_Address e, pc_TLS = cc_TLS c\<rparr>) (cc_Endpoint c)"

definition ChaincodeService_Address :: "ClientConfig \<Rightarrow> string" where
  "ChaincodeService_Address c = (case cc_Endpoint c of None \<Rightarrow> [] | Some e \<Rightarrow> Endpoint_Address e)"

record RemoteOrchestratorConfig =
  rc_MspID :: string
  rc_Endpoint :: "Endpoint option"
  rc_TLS :: TLSConfig

definition Remote_Address :: "RemoteOrchestratorConfig \<Rightarrow> string" where
  "Remote_Address c = (case rc_Endpoint c of None \<Rightarrow> [] | Some e \<Rightarrow> Endpoint_Address e)"

definition Remote_ToPeerConf :: "RemoteOrchestratorConfig \<Rightarrow> PeerConf" where
  "Remote_ToPeerConf c = \<lparr>pc_Address = Remote_Address c, pc_TLS = rc_TLS c\<rparr>"

subsection \<open>The helper's configuration\<close>

record HelperConfig =
  hc_ChannelID :: string
  hc_Namespace :: string
  hc_Server :: bool
  hc_QueryService :: "Endpoint option"
  hc_ChaincodeService :: "Endpoint option"
  hc_Identity :: bool
  hc_Protocol :: string

definition fails :: "bool \<Rightarrow> string \<Rightarrow> string list" where
  "fails bad message = (if bad then [message] else [])"

lemma fails_Nil [simp]: "fails bad message = [] \<longleftrightarrow> \<not> bad"
  by (simp add: fails_def)

definition HelperConfig_Validate :: "HelperConfig \<Rightarrow> string list" where
  "HelperConfig_Validate cfg =
     fails (hc_ChannelID cfg = []) ''channel-id is required'' @
     fails (hc_Namespace cfg = []) ''namespace is required'' @
     fails (hc_Protocol cfg \<noteq> [] \<and> hc_Protocol cfg \<noteq> ''fabric-x'') ''protocol must be fabric-x'' @
     fails (\<not> hc_Identity cfg) ''identity is required'' @
     fails (hc_QueryService cfg = None) ''query-service.endpoint is required'' @
     fails (hc_ChaincodeService cfg = None) ''chaincode-service.endpoint is required'' @
     fails (\<not> hc_Server cfg) ''server configuration is required''"

subsection \<open>The orchestrator's configuration\<close>

record ProposalAuthorizationRule =
  ru_Chaincode :: string
  ru_Namespace :: string
  ru_Policy :: string

record ProposalAuthConfig =
  pa_MSPs :: "MSPConfig list"
  pa_Rules :: "ProposalAuthorizationRule list"
  pa_CommitStatusPolicy :: string
  pa_ChaincodeEventsPolicy :: string

fun validateTrusted :: "MSPConfig list \<Rightarrow> string list \<Rightarrow> string list" where
  "validateTrusted [] seen = []"
| "validateTrusted (t # ts) seen =
     (if mc_MSPID t = [] \<or> mc_MSPDir t = [] then [''proposal-auth.msps requires msp-id and msp-dir'']
      else if mc_MSPID t \<in> set seen then [''proposal-auth has duplicate MSP '' @ mc_MSPID t]
      else validateTrusted ts (mc_MSPID t # seen))"

definition ProposalAuth_validate :: "ProposalAuthConfig \<Rightarrow> string list" where
  "ProposalAuth_validate cfg =
     (if pa_MSPs cfg = [] then [''proposal-auth.msps is required'']
      else if validateTrusted (pa_MSPs cfg) [] \<noteq> [] then validateTrusted (pa_MSPs cfg) []
      else if pa_Rules cfg = [] then [''proposal-auth.rules is required'']
      else if list_ex (\<lambda>r. ru_Chaincode r = [] \<or> ru_Namespace r = [] \<or> ru_Policy r = []) (pa_Rules cfg)
      then [''proposal-auth.rules requires chaincode, namespace, and policy'']
      else [])"

record Config =
  cf_ChannelID :: string
  cf_Namespace :: string
  cf_LifecycleNamespace :: string
  cf_Protocol :: string
  cf_ServerEmpty :: "bool option"
  cf_MspID :: "string option"
  cf_QueryService :: ClientConfig
  cf_ChaincodeSvc :: ClientConfig
  cf_Orderer :: "ClientConfig option"
  cf_NotificationSvc :: "ClientConfig option"
  cf_RemoteOrgs :: "RemoteOrchestratorConfig list"
  cf_ProposalAuth :: ProposalAuthConfig
  cf_LifecycleAuth :: AuthConfig
  cf_WaitAfterSubmit :: int
  cf_RequestTimeout :: int
  cf_FinalityTimeout :: int

definition second :: int where "second = 1000000000"

definition requestTimeout :: "Config \<Rightarrow> int" where
  "requestTimeout cfg = (if cf_RequestTimeout cfg > 0 then cf_RequestTimeout cfg else 60 * second)"

definition finalityTimeout :: "Config \<Rightarrow> int" where
  "finalityTimeout cfg = (if cf_FinalityTimeout cfg > 0 then cf_FinalityTimeout cfg else 30 * second)"

definition lifecycleNamespace :: "Config \<Rightarrow> string" where
  "lifecycleNamespace cfg =
     (if cf_LifecycleNamespace cfg \<noteq> [] then cf_LifecycleNamespace cfg else DefaultLedgerNamespace)"

definition protocolOrDefault :: "string \<Rightarrow> string" where
  "protocolOrDefault protocol = (if protocol = [] then ''fabric-x'' else protocol)"

definition remote_errors :: "RemoteOrchestratorConfig \<Rightarrow> string list" where
  "remote_errors remote =
     fails (rc_MspID remote = []) ''remote-orchestrators.msp-id is required'' @
     fails (case rc_Endpoint remote of None \<Rightarrow> True | Some e \<Rightarrow> ep_Host e = [] \<or> ep_Port e = 0)
       ''remote-orchestrators.endpoint is required''"

text \<open>Of the server configuration, when there is one, the code asks whether its endpoint is empty.\<close>

definition Config_Validate :: "Config \<Rightarrow> string list" where
  "Config_Validate cfg =
     ProposalAuth_validate (cf_ProposalAuth cfg) @
     fails (\<not> is_ok (AuthConfig_Validate (cf_LifecycleAuth cfg))) ''lifecycle-auth'' @
     fails (cf_ChannelID cfg = []) ''channel-id is required'' @
     fails (cf_MspID cfg = None) ''identity is required'' @
     fails (cf_ServerEmpty cfg = None) ''server configuration is required'' @
     fails (cf_ServerEmpty cfg = Some True) ''server.endpoint is required'' @
     fails (cc_Endpoint (cf_QueryService cfg) = None) ''query-service.endpoint is required'' @
     fails (case cf_Orderer cfg of None \<Rightarrow> True | Some c \<Rightarrow> cc_Endpoint c = None) ''orderer.endpoint is required'' @
     fails (case cf_NotificationSvc cfg of None \<Rightarrow> True | Some c \<Rightarrow> cc_Endpoint c = None)
       ''notification-service.endpoint is required'' @
     concat (map remote_errors (cf_RemoteOrgs cfg)) @
     fails (cf_RequestTimeout cfg < 0) ''request-timeout must not be negative'' @
     fails (cf_FinalityTimeout cfg < 0) ''finality-timeout must not be negative'' @
     fails (cf_RequestTimeout cfg \<ge> 0 \<and> cf_FinalityTimeout cfg \<ge> 0 \<and> requestTimeout cfg < finalityTimeout cfg)
       ''request-timeout must be greater than or equal to finality-timeout''"

lemma timeouts_positive: "0 < requestTimeout cfg" "0 < finalityTimeout cfg"
  by (simp_all add: requestTimeout_def finalityTimeout_def second_def)

text \<open>What startup may rely on after validation: no configured endpoint it dereferences is missing.\<close>

lemma validated_config:
  assumes "Config_Validate cfg = []"
  shows "finalityTimeout cfg \<le> requestTimeout cfg" and "ToPeerConf (cf_QueryService cfg) \<noteq> None"
    and "\<exists>c conf. cf_Orderer cfg = Some c \<and> ToPeerConf c = Some conf"
    and "\<exists>c conf. cf_NotificationSvc cfg = Some c \<and> ToPeerConf c = Some conf"
    and "\<exists>msp. cf_MspID cfg = Some msp"
    and "r \<in> set (cf_RemoteOrgs cfg) \<Longrightarrow> pc_Address (Remote_ToPeerConf r) \<noteq> []"
  using assms
  by (auto simp: Config_Validate_def ToPeerConf_def remote_errors_def Remote_ToPeerConf_def Remote_Address_def
      Endpoint_Address_def split: option.splits)

end
