(* ===== verification/Gateway_Request.thy ===== *)
theory Gateway_Request
  imports Orch_Config Lifecycle_Package "HOL-Library.Sublist"
begin

section \<open>Requests\<close>

text \<open>
  How a parsed proposal becomes an invocation request and how errors become gRPC statuses: the
  helper functions of \<open>service.go\<close>, \<open>init.go\<close>, \<open>proposal_auth.go\<close> and \<open>helper/proposal.go\<close> that
  keep no state, and the request digest that identifies duplicates.  RPC metadata is the list of
  values of one key, which \<open>metadata.ValueFromIncomingContext\<close> returns.
\<close>

subsection \<open>Parsed proposals\<close>

text \<open>The fields of \<open>endorsement.Invocation\<close>, the result of the SDK's proposal parser.\<close>

record Invocation =
  iv_TxID :: string
  iv_Channel :: string
  iv_Namespace :: string
  iv_ChaincodeVersion :: string
  iv_Args :: "bytes list"
  iv_Creator :: bytes
  iv_Nonce :: bytes
  iv_Proposal :: "Proposal option"

definition ProposalIsInit :: "proto_lib \<Rightarrow> Proposal option \<Rightarrow> orch_error + bool" where
  "ProposalIsInit lib proposal =
     rbind (require (Plain ''proposal is required'') proposal) (\<lambda>p.
     rbind (require (Plain ''decode proposal payload'') (pl_ProposalPayload lib (pp_Payload p))) (\<lambda>(_, input).
     rbind (require (Plain ''decode chaincode invocation'') (pl_InvocationSpec lib input)) (\<lambda>spec.
     require (Plain ''chaincode input is required'') (cs_IsInit spec))))"

definition emptyRequest :: InvocationRequest where
  "emptyRequest = \<lparr>ir_definition = None, ir_ClientTxID = [], ir_ClientCreator = [], ir_ClientNonce = [],
     ir_ClientSignedProposal = None, ir_ClientTransient = [], ir_EndorsingOrganizations = [],
     ir_IdempotencyKey = [], ir_RequestDigest = [], ir_Namespace = [], ir_ChaincodeName = [],
     ir_ChaincodeVersion = [], ir_IsInit = False, ir_Function = [], ir_Args = []\<rparr>"

definition requestFromProposal :: "proto_lib \<Rightarrow> Invocation \<Rightarrow> orch_error + InvocationRequest" where
  "requestFromProposal lib invoc =
     (case iv_Args invoc of
        [] \<Rightarrow> Inl (Plain ''orchestrator proposal requires function'')
      | fn # args \<Rightarrow>
          (if fn = [] then Inl (Plain ''orchestrator proposal requires function'')
           else
             let req = emptyRequest\<lparr>ir_Function := fn, ir_ChaincodeName := iv_Namespace invoc,
                         ir_ChaincodeVersion := iv_ChaincodeVersion invoc\<rparr> in
             rbind (case iv_Proposal invoc of
                 None \<Rightarrow> Inr req
               | Some p \<Rightarrow>
                   rbind (require (Plain ''unmarshal proposal payload'') (pl_ProposalPayload lib (pp_Payload p)))
                     (\<lambda>(transient, _).
                   rbind (ProposalIsInit lib (Some p)) (\<lambda>isInit.
                   Inr (req\<lparr>ir_ClientTransient := transient, ir_IsInit := isInit\<rparr>))))
             (\<lambda>r. Inr (r\<lparr>ir_Args := args\<rparr>))))"

definition invocationArgs :: "InvocationRequest \<Rightarrow> bytes list" where
  "invocationArgs req = (if ir_Function req = [] then [] else ir_Function req # ir_Args req)"

definition prepareInvocation :: "Config \<Rightarrow> InvocationRequest \<Rightarrow> orch_error + string \<times> bytes list" where
  "prepareInvocation cfg req =
     (let namespace = (if ir_Namespace req = [] then cf_Namespace cfg else ir_Namespace req) in
      if namespace = [] then Inl (Plain ''namespace is required'')
      else if invocationArgs req = [] then Inl (Plain ''function is required'')
      else Inr (namespace, invocationArgs req))"

definition txIDFromProposal :: "proto_lib \<Rightarrow> Proposal option \<Rightarrow> orch_error + string" where
  "txIDFromProposal lib prop =
     rbind (require (Plain ''proposal is nil'') prop) (\<lambda>p.
     rbind (require (Plain ''unmarshal proposal header'') (pl_Header lib (pp_Header p))) (\<lambda>hdr.
     rbind (require (Plain ''unmarshal channel header'') (pl_ChannelHeader lib hdr)) (\<lambda>chdr.
     Inr (ch_TxId chdr))))"

definition txIDFromEndorsement :: "proto_lib \<Rightarrow> Endorsement \<Rightarrow> orch_error + string" where
  "txIDFromEndorsement lib end =
     (case en_Proposal end of
        None \<Rightarrow> Inl (Plain ''endorsement has no proposal'')
      | Some p \<Rightarrow> txIDFromProposal lib (Some p))"

definition compatibilityDecorations :: "string \<Rightarrow> string \<Rightarrow> string \<Rightarrow> (string \<times> bytes) list" where
  "compatibilityDecorations namespace name version =
     [(''compat.decorator'', ''orchestrator''), (''compat.namespace'', namespace),
      (''compat.chaincode_name'', name), (''compat.chaincode_version'', version)]"

subsection \<open>Routing metadata\<close>

datatype operation = OpInvoke | OpQuery | OpEndorse

definition operationFromContext :: "string list \<Rightarrow> orch_error + operation" where
  "operationFromContext values =
     (case values of
        [] \<Rightarrow> Inl (Plain ''missing x-compat-operation metadata'')
      | v # _ \<Rightarrow>
          (if v = ''invoke'' then Inr OpInvoke else if v = ''query'' then Inr OpQuery
           else if v = ''endorse'' then Inr OpEndorse
           else Inl (Plain (''unknown orchestrator operation '' @ v))))"

definition namespaceFromContext :: "string list \<Rightarrow> string option" where
  "namespaceFromContext values = (case values of [] \<Rightarrow> None | v # _ \<Rightarrow> if v = [] then None else Some v)"

fun validateInitMetadata :: "string list \<Rightarrow> bool \<Rightarrow> orch_error + unit" where
  "validateInitMetadata [] isInit = Inr ()"
| "validateInitMetadata (v # vs) isInit =
     (if v \<noteq> ''true'' \<and> v \<noteq> ''false'' then Inl (Plain (''invalid is-init metadata '' @ v))
      else if (v = ''true'') \<noteq> isInit then Inl (Plain ''is-init metadata conflicts with the signed proposal'')
      else validateInitMetadata vs isInit)"

text \<open>
  \<open>strings.TrimSpace(s) != s\<close>: the string starts or ends with the encoding of a Unicode space.
\<close>

definition space_runes :: "string list" where
  "space_runes = map (\<lambda>n. [char_of n]) [9 :: nat, 10, 11, 12, 13, 32] @
     map (map char_of) [[194 :: nat, 133], [194, 160], [225, 154, 128], [226, 128, 168], [226, 128, 169],
       [226, 128, 175], [226, 129, 159], [227, 128, 128]] @
     map (\<lambda>n :: nat. map char_of [226, 128, n]) [128 ..< 139]"

definition untrimmed :: "string \<Rightarrow> bool" where
  "untrimmed s \<longleftrightarrow> list_ex (\<lambda>r. prefix r s \<or> suffix r s) space_runes"

fun cut_colon :: "string \<Rightarrow> (string \<times> string) option" where
  "cut_colon [] = None"
| "cut_colon (c # cs) =
     (if c = CHR '':'' then Some ([], cs) else map_option (\<lambda>(a, b). (c # a, b)) (cut_colon cs))"

definition gatewayChaincodeRoute :: "string \<Rightarrow> orch_error + string \<times> string" where
  "gatewayChaincodeRoute name =
     (case cut_colon name of
        None \<Rightarrow> Inl (Plain ''Gateway chaincode name must be <name>:<namespace>'')
      | Some (chaincode, namespace) \<Rightarrow>
          (if chaincode = [] \<or> namespace = [] \<or> CHR '':'' \<in> set namespace \<or> untrimmed chaincode \<or> untrimmed namespace
           then Inl (Plain ''Gateway chaincode name must be <name>:<namespace>'')
           else Inr (chaincode, namespace)))"

definition containsMSP :: "string list \<Rightarrow> string \<Rightarrow> bool" where
  "containsMSP msps target = list_ex (\<lambda>m. m = target) msps"

lemma cut_colon_Some: "cut_colon s = Some (a, b) \<Longrightarrow> s = a @ CHR '':'' # b \<and> CHR '':'' \<notin> set a"
  by (induction s arbitrary: a) (auto split: if_splits)

lemma cut_colon_append: "CHR '':'' \<notin> set a \<Longrightarrow> cut_colon (a @ CHR '':'' # b) = Some (a, b)"
  by (induction a) auto

lemma gatewayChaincodeRoute_iff:
  "gatewayChaincodeRoute name = Inr (cc, ns) \<longleftrightarrow>
     name = cc @ CHR '':'' # ns \<and> cc \<noteq> [] \<and> ns \<noteq> [] \<and> CHR '':'' \<notin> set cc \<and> CHR '':'' \<notin> set ns \<and>
     \<not> untrimmed cc \<and> \<not> untrimmed ns" (is "?l \<longleftrightarrow> ?r")
proof
  assume ?l
  then show ?r
    by (auto simp: gatewayChaincodeRoute_def dest!: cut_colon_Some split: option.splits if_splits)
next
  assume ?r
  then show ?l by (simp add: gatewayChaincodeRoute_def cut_colon_append)
qed

subsection \<open>Statuses\<close>

definition invocationRPCError :: "ctx \<Rightarrow> orch_error \<Rightarrow> orch_error" where
  "invocationRPCError ctx e =
     (case ctx of
        Some c \<Rightarrow> FromContextError c
      | None \<Rightarrow> (case errors_status e of Some _ \<Rightarrow> e | None \<Rightarrow> StatusError CodeInternal ''invocation''))"

definition submissionRPCError :: "ctx \<Rightarrow> orch_error \<Rightarrow> orch_error" where
  "submissionRPCError ctx e =
     (case ctx of
        Some c \<Rightarrow> FromContextError c
      | None \<Rightarrow>
          (if errors_is e (CtxError DeadlineExceeded) then FromContextError DeadlineExceeded
           else if errors_is e (CtxError Canceled) then FromContextError Canceled
           else if errors_status e \<noteq> None then e
           else if uncertainDelivery e = Some False then StatusError CodeAborted ''submit''
           else StatusError CodeUnavailable ''submit''))"

definition failedResponse :: "PeerResponse \<Rightarrow> bool" where
  "failedResponse r \<longleftrightarrow> pr_Status r < 200 \<or> pr_Status r \<ge> 400"

definition gatewayResponseError :: "PeerResponse option \<Rightarrow> orch_error + PeerResponse" where
  "gatewayResponseError response =
     (case response of
        None \<Rightarrow> Inl (StatusError CodeInternal ''execution returned no chaincode response'')
      | Some r \<Rightarrow> (if failedResponse r then Inl (StatusError CodeUnknown (pr_Message r)) else Inr r))"

datatype validation_code =
    VALID
  | BAD_PAYLOAD
  | BAD_PROPOSAL_TXID
  | ENDORSEMENT_POLICY_FAILURE
  | MVCC_READ_CONFLICT
  | DUPLICATE_TXID
  | UNSUPPORTED_TX_PAYLOAD
  | BAD_RWSET
  | INVALID_WRITESET
  | INVALID_CONFIG_TRANSACTION
  | INVALID_OTHER_REASON

fun gatewayValidationCode :: "native_status \<Rightarrow> validation_code" where
  "gatewayValidationCode COMMITTED = VALID"
| "gatewayValidationCode ABORTED_SIGNATURE_INVALID = ENDORSEMENT_POLICY_FAILURE"
| "gatewayValidationCode MALFORMED_MISSING_SIGNATURE = ENDORSEMENT_POLICY_FAILURE"
| "gatewayValidationCode MALFORMED_NAMESPACE_POLICY_INVALID = ENDORSEMENT_POLICY_FAILURE"
| "gatewayValidationCode ABORTED_MVCC_CONFLICT = MVCC_READ_CONFLICT"
| "gatewayValidationCode REJECTED_DUPLICATE_TX_ID = DUPLICATE_TXID"
| "gatewayValidationCode MALFORMED_BAD_ENVELOPE = BAD_PAYLOAD"
| "gatewayValidationCode MALFORMED_BAD_ENVELOPE_PAYLOAD = BAD_PAYLOAD"
| "gatewayValidationCode MALFORMED_MISSING_TX_ID = BAD_PROPOSAL_TXID"
| "gatewayValidationCode MALFORMED_TX_ID_CONFLICT = BAD_PROPOSAL_TXID"
| "gatewayValidationCode MALFORMED_UNSUPPORTED_ENVELOPE_PAYLOAD = UNSUPPORTED_TX_PAYLOAD"
| "gatewayValidationCode MALFORMED_EMPTY_NAMESPACES = BAD_RWSET"
| "gatewayValidationCode MALFORMED_DUPLICATE_NAMESPACE = BAD_RWSET"
| "gatewayValidationCode MALFORMED_NAMESPACE_ID_INVALID = BAD_RWSET"
| "gatewayValidationCode MALFORMED_EMPTY_KEY = BAD_RWSET"
| "gatewayValidationCode MALFORMED_DUPLICATE_KEY_IN_READ_WRITE_SET = BAD_RWSET"
| "gatewayValidationCode MALFORMED_BLIND_WRITES_NOT_ALLOWED = INVALID_WRITESET"
| "gatewayValidationCode MALFORMED_NO_WRITES = INVALID_WRITESET"
| "gatewayValidationCode MALFORMED_CONFIG_TX_INVALID = INVALID_CONFIG_TRANSACTION"
| "gatewayValidationCode _ = INVALID_OTHER_REASON"

lemma gatewayValidationCode_VALID: "gatewayValidationCode st = VALID \<longleftrightarrow> st = COMMITTED"
  by (cases st rule: gatewayValidationCode.cases) simp_all

text \<open>\<open>isFinalStatus\<close> of \<open>execution.go\<close>.\<close>

definition isFinalStatus :: "string \<Rightarrow> TxStatus option \<Rightarrow> bool" where
  "isFinalStatus txID status =
     (case status of
        None \<Rightarrow> False
      | Some st \<Rightarrow>
          ref_TxId (ts_Ref st) = txID \<and> ts_Status st \<noteq> STATUS_UNSPECIFIED \<and> status_known (ts_Status st))"

subsection \<open>Notifications\<close>

record NotificationResponse =
  nr_TxStatusEvents :: "TxStatus list"
  nr_TimeoutTxIds :: "string list"
  nr_Rejected :: "(string list \<times> string) option"

text \<open>\<open>None\<close> while the notification does not concern the transaction.\<close>

definition matchNotification :: "string \<Rightarrow> NotificationResponse \<Rightarrow> (orch_error + TxStatus) option" where
  "matchNotification txID res =
     (case find (\<lambda>st. ref_TxId (ts_Ref st) = txID) (nr_TxStatusEvents res) of
        Some st \<Rightarrow> Some (Inr st)
      | None \<Rightarrow>
          (if txID \<in> set (nr_TimeoutTxIds res) then Some (Inl (Plain (''notification timeout for tx '' @ txID)))
           else case nr_Rejected res of
             Some (ids, reason) \<Rightarrow>
               (if txID \<in> set ids then Some (Inl (Plain (''notification rejected tx '' @ txID @ '': '' @ reason)))
                else None)
           | None \<Rightarrow> None))"

text \<open>The stream as the responses received before its end; \<open>fin\<close> is the error of the last receive.\<close>

fun waitForNotification ::
  "ctx \<Rightarrow> string \<Rightarrow> NotificationResponse list \<Rightarrow> orch_error option \<Rightarrow> orch_error + TxStatus" where
  "waitForNotification ctx txID [] fin =
     (case ctx of
        Some e \<Rightarrow> Inl (CtxError e)
      | None \<Rightarrow> (case fin of
            None \<Rightarrow> Inl (Plain ''notification stream closed before transaction status'')
          | Some e \<Rightarrow> Inl (Wrapped ''receive notification'' e)))"
| "waitForNotification ctx txID (r # rs) fin =
     (case matchNotification txID r of
        Some res \<Rightarrow> res
      | None \<Rightarrow> waitForNotification ctx txID rs fin)"

end
