(* ===== verification/Invocation_State.thy ===== *)
theory Invocation_State
  imports Gateway_Request
begin

section \<open>What identifies an invocation and what it may run\<close>

text \<open>
  The digest that tells a retry from a conflicting request (\<open>requestDigest\<close> of \<open>service.go\<close>), the
  selection of the active chaincode definition (\<open>selectLifecycleDefinition\<close> of
  \<open>lifecycle_executor.go\<close>), the initialization gate (\<open>validateInitState\<close> of \<open>init.go\<close>) and the
  lifecycle bindings that travel in response metadata (\<open>lifecycle_binding.go\<close>).
\<close>

subsection \<open>The request digest\<close>

fun big_endian :: "nat \<Rightarrow> nat \<Rightarrow> bytes" where
  "big_endian 0 n = []"
| "big_endian (Suc k) n = big_endian k (n div 256) @ [char_of n]"

definition writeDigestBytes :: "bytes \<Rightarrow> bytes" where
  "writeDigestBytes v = big_endian 8 (length v) @ v"

definition writeDigestByteMap :: "(string \<times> bytes) list \<Rightarrow> bytes" where
  "writeDigestByteMap kvs = concat (map (\<lambda>(k, v). writeDigestBytes k @ writeDigestBytes v) (sort_key fst kvs))"

definition operationName :: "bool \<Rightarrow> string" where
  "operationName submit = (if submit then ''invoke'' else ''query'')"

definition fixedFields :: "string \<Rightarrow> string \<Rightarrow> InvocationRequest \<Rightarrow> bool \<Rightarrow> bytes list" where
  "fixedFields channel namespace req submit =
     [''v2'', operationName submit, ir_ClientTxID req, channel, namespace, ir_ChaincodeName req,
      ir_ChaincodeVersion req, if ir_IsInit req then ''true'' else ''false'', ir_Function req, ir_ClientCreator req]"

definition digestInput :: "string \<Rightarrow> string \<Rightarrow> InvocationRequest \<Rightarrow> bool \<Rightarrow> bytes" where
  "digestInput channel namespace req submit =
     concat (map writeDigestBytes (fixedFields channel namespace req submit)) @
     concat (map writeDigestBytes (ir_Args req)) @ writeDigestByteMap (ir_ClientTransient req)"

definition requestDigest ::
  "(bytes \<Rightarrow> bytes) \<Rightarrow> string \<Rightarrow> string \<Rightarrow> InvocationRequest \<Rightarrow> bool \<Rightarrow> string" where
  "requestDigest sha256 channel namespace req submit = hex_encode (sha256 (digestInput channel namespace req submit))"

definition idempotencyIdentity ::
  "(bytes \<Rightarrow> bytes) \<Rightarrow> string \<Rightarrow> string \<Rightarrow> InvocationRequest \<Rightarrow> bool \<Rightarrow> string \<times> string" where
  "idempotencyIdentity sha256 channel namespace req submit =
     (let digest = requestDigest sha256 channel namespace req submit in
      (if ir_ClientTxID req \<noteq> [] then ir_ClientTxID req else digest, digest))"

lemma big_endian_length [simp]: "length (big_endian k n) = k"
  by (induction k arbitrary: n) simp_all

lemma big_endian_inj: "n < 256 ^ k \<Longrightarrow> m < 256 ^ k \<Longrightarrow> big_endian k n = big_endian k m \<Longrightarrow> n = m"
proof (induction k arbitrary: n m)
  case (Suc k)
  then have "n div 256 < 256 ^ k" and "m div 256 < 256 ^ k"
    by (simp_all add: less_mult_imp_div_less mult.commute)
  with Suc have d: "n div 256 = m div 256" by simp
  from Suc.prems(3) have "byte (char_of n) = byte (char_of m)" by simp
  then have "n mod 256 = m mod 256" by (simp only: of_char_of)
  with d show ?case by (metis div_mult_mod_eq)
qed simp

lemma digest_bytes_split:
  assumes "length v < 2 ^ 64" and "length w < 2 ^ 64"
    and eq: "writeDigestBytes v @ x = writeDigestBytes w @ y"
  shows "v = w \<and> x = y"
proof -
  have "big_endian 8 (length v) = big_endian 8 (length w)" and r: "v @ x = w @ y"
    using eq by (simp_all add: writeDigestBytes_def)
  then have "length v = length w" using assms(1,2) by (intro big_endian_inj [of _ 8]) simp_all
  with r show ?thesis by simp
qed

definition transientFields :: "(string \<times> bytes) list \<Rightarrow> bytes list" where
  "transientFields kvs = concat (map (\<lambda>(k, v). [k, v]) (sort_key fst kvs))"

lemma writeDigestByteMap_fields:
  "writeDigestByteMap kvs = concat (map writeDigestBytes (transientFields kvs))"
proof -
  have "concat (map (\<lambda>(k, v). writeDigestBytes k @ writeDigestBytes v) xs)
      = concat (map writeDigestBytes (concat (map (\<lambda>(k, v). [k, v]) xs)))" for xs
    by (induction xs) auto
  then show ?thesis by (simp add: writeDigestByteMap_def transientFields_def)
qed

lemma pairs_inj: "concat (map (\<lambda>(k, v). [k, v]) xs) = concat (map (\<lambda>(k, v). [k, v]) ys) \<Longrightarrow> xs = ys"
proof (induction xs arbitrary: ys)
  case Nil
  then show ?case by (cases ys) auto
next
  case (Cons x xs)
  then show ?case by (cases x; cases ys) auto
qed

lemma pairs_length: "length (concat (map (\<lambda>(k, v). [k, v]) xs)) = 2 * length xs"
  by (induction xs) auto

text \<open>All fields that reach the digest.\<close>

definition digestFields :: "string \<Rightarrow> string \<Rightarrow> InvocationRequest \<Rightarrow> bool \<Rightarrow> bytes list" where
  "digestFields channel namespace req submit =
     fixedFields channel namespace req submit @ ir_Args req @ transientFields (ir_ClientTransient req)"

lemma digestInput_fields:
  "digestInput channel namespace req submit = concat (map writeDigestBytes (digestFields channel namespace req submit))"
  by (simp add: digestInput_def digestFields_def writeDigestByteMap_fields)

lemma digest_prefix_free:
  assumes "\<forall>v \<in> set vs \<union> set ws. length v < 2 ^ 64"
    and "concat (map writeDigestBytes vs) = concat (map writeDigestBytes ws)"
  shows "vs = ws"
  using assms
proof (induction vs arbitrary: ws)
  case Nil
  then show ?case by (cases ws) (auto simp: writeDigestBytes_def dest: arg_cong [of _ _ length])
next
  case (Cons v vs)
  show ?case
  proof (cases ws)
    case Nil
    with Cons.prems(2) show ?thesis by (auto simp: writeDigestBytes_def dest: arg_cong [of _ _ length])
  next
    case (Cons w ws')
    with Cons.prems digest_bytes_split [of v w "concat (map writeDigestBytes vs)" "concat (map writeDigestBytes ws')"]
    have "v = w" and "concat (map writeDigestBytes vs) = concat (map writeDigestBytes ws')" by auto
    with Cons.IH [of ws'] Cons.prems(1) Cons show ?thesis by auto
  qed
qed

text \<open>The request digest separates requests: if SHA-256 does not collide on the two inputs, two
  requests with equal digests agree in operation, transaction, channel, namespace, chaincode, version,
  init flag, function and creator, and in the sequence of arguments followed by transient entries;
  with equally many transient entries they agree in every argument and every transient entry.\<close>

theorem request_digest_binds:
  assumes "requestDigest sha256 ch ns r submit = requestDigest sha256 ch' ns' r' submit'"
    and "length (sha256 (digestInput ch ns r submit)) = length (sha256 (digestInput ch' ns' r' submit'))"
    and "sha256 (digestInput ch ns r submit) = sha256 (digestInput ch' ns' r' submit') \<Longrightarrow>
           digestInput ch ns r submit = digestInput ch' ns' r' submit'"
    and "\<forall>v \<in> set (digestFields ch ns r submit) \<union> set (digestFields ch' ns' r' submit'). length v < 2 ^ 64"
  shows "fixedFields ch ns r submit = fixedFields ch' ns' r' submit' \<and>
    ir_Args r @ transientFields (ir_ClientTransient r) = ir_Args r' @ transientFields (ir_ClientTransient r') \<and>
    (length (ir_ClientTransient r) = length (ir_ClientTransient r') \<longrightarrow>
       ir_Args r = ir_Args r' \<and>
       sort_key fst (ir_ClientTransient r) = sort_key fst (ir_ClientTransient r'))"
proof -
  have "sha256 (digestInput ch ns r submit) = sha256 (digestInput ch' ns' r' submit')"
    using hex_encode_inj [OF assms(2)] assms(1) by (simp only: requestDigest_def)
  then have "digestInput ch ns r submit = digestInput ch' ns' r' submit'" by (rule assms(3))
  then have "digestFields ch ns r submit = digestFields ch' ns' r' submit'"
    unfolding digestInput_fields by (rule digest_prefix_free [OF assms(4)])
  then have "fixedFields ch ns r submit = fixedFields ch' ns' r' submit'" and
    rest: "ir_Args r @ transientFields (ir_ClientTransient r) = ir_Args r' @ transientFields (ir_ClientTransient r')"
    by (simp_all add: digestFields_def fixedFields_def)
  moreover have "ir_Args r = ir_Args r' \<and>
      sort_key fst (ir_ClientTransient r) = sort_key fst (ir_ClientTransient r')"
    if "length (ir_ClientTransient r) = length (ir_ClientTransient r')"
  proof -
    have "length (transientFields (ir_ClientTransient r)) = length (transientFields (ir_ClientTransient r'))"
      using that by (simp add: transientFields_def pairs_length del: length_concat)
    with rest have "ir_Args r = ir_Args r'" and
      "transientFields (ir_ClientTransient r) = transientFields (ir_ClientTransient r')" by simp_all
    then show ?thesis by (auto simp: transientFields_def dest: pairs_inj)
  qed
  ultimately show ?thesis by blast
qed

definition sample_invocation :: InvocationRequest where
  "sample_invocation = emptyRequest\<lparr>ir_ClientTxID := ''tx'', ir_ChaincodeName := ''cc'', ir_Function := ''put'',
     ir_Args := [''k'', ''v'']\<rparr>"

theorem request_digest_binds_witness:
  "fixedFields ''ch'' ''ns'' sample_invocation True =
     fixedFields ''ch'' ''ns'' (sample_invocation\<lparr>ir_ClientNonce := ''n''\<rparr>) True"
proof -
  let ?r = "sample_invocation\<lparr>ir_ClientNonce := ''n''\<rparr>"
  have e: "digestInput ''ch'' ''ns'' ?r True = digestInput ''ch'' ''ns'' sample_invocation True"
    by (simp add: digestInput_def fixedFields_def)
  have f: "\<forall>v \<in> set (digestFields ''ch'' ''ns'' sample_invocation True) \<union> set (digestFields ''ch'' ''ns'' ?r True).
      length v < 2 ^ 64"
    by (simp add: digestFields_def fixedFields_def sample_invocation_def emptyRequest_def operationName_def
        transientFields_def)
  show ?thesis using request_digest_binds [of id, OF _ _ _ f] by (simp add: requestDigest_def e)
qed

text \<open>
  Arguments and transient entries share one unseparated sequence: an argument pair and a transient
  entry with the same two strings give the same digest.
\<close>

lemma digest_args_transient_ambiguous:
  "requestDigest sha256 ch ns (sample_invocation\<lparr>ir_Args := [''k'', ''v'']\<rparr>) submit
   = requestDigest sha256 ch ns (sample_invocation\<lparr>ir_Args := [], ir_ClientTransient := [(''k'', ''v'')]\<rparr>) submit"
  by (simp add: requestDigest_def digestInput_def fixedFields_def sample_invocation_def writeDigestByteMap_def
      emptyRequest_def)

subsection \<open>The active definition and initialization\<close>

definition lifecycleDefinitionsMatch :: "ChaincodeDefinition \<Rightarrow> ChaincodeDefinition \<Rightarrow> bool" where
  "lifecycleDefinitionsMatch left right \<longleftrightarrow>
     cd_Name left = cd_Name right \<and> cd_Version left = cd_Version right \<and>
     cd_Sequence left = cd_Sequence right \<and> cd_InitRequired left = cd_InitRequired right"

definition selectLifecycleDefinition ::
  "ctx \<Rightarrow> Store option \<Rightarrow> InvocationRequest \<Rightarrow> orch_error + InvocationRequest" where
  "selectLifecycleDefinition ctx store req =
     (case store of
        None \<Rightarrow> Inr req
      | Some s \<Rightarrow>
          (if ir_ChaincodeName req = [] then Inr req
           else rbind (map_error StoreError (GetCommitted ctx (ir_ChaincodeName req) s)) (\<lambda>found.
             case found of
               None \<Rightarrow> Inr req
             | Some committed \<Rightarrow>
                 Inr (req\<lparr>ir_definition := Some committed,
                          ir_ChaincodeVersion := cd_Version (cm_Definition committed)\<rparr>))))"

text \<open>The definition a request runs under: the selected one, or the one a lookup finds now.\<close>

definition requestDefinition ::
  "ctx \<Rightarrow> Store \<Rightarrow> InvocationRequest \<Rightarrow> orch_error + CommittedDefinition option" where
  "requestDefinition ctx s req =
     (case ir_definition req of
        Some d \<Rightarrow> Inr (Some d)
      | None \<Rightarrow> map_error StoreError (GetCommitted ctx (ir_ChaincodeName req) s))"

definition initChecks :: "bool \<Rightarrow> CommittedDefinition \<Rightarrow> orch_error + ChaincodeDefinition option" where
  "initChecks isInit committed =
     (let def = cm_Definition committed in
      if isInit then
        (if \<not> cd_InitRequired def then Inl (Plain ''chaincode does not require init'')
         else if cm_Initialized committed then Inl (Plain ''chaincode is already initialized'')
         else Inr (Some def))
      else if cd_InitRequired def \<and> \<not> cm_Initialized committed
      then Inl (Plain ''chaincode requires init before invoke/query'')
      else Inr None)"

definition validateInitState ::
  "ctx \<Rightarrow> Store option \<Rightarrow> InvocationRequest \<Rightarrow> operation \<Rightarrow> orch_error + ChaincodeDefinition option" where
  "validateInitState ctx store req oper =
     (if ir_IsInit req \<and> oper = OpQuery then Inl (Plain ''is-init is only valid for invoke'')
      else case store of
        None \<Rightarrow> (if ir_IsInit req then Inl (Plain ''initialization requires a lifecycle definition'') else Inr None)
      | Some s \<Rightarrow>
          (if ir_ChaincodeName req = [] then
             (if ir_IsInit req then Inl (Plain ''initialization requires a chaincode name'') else Inr None)
           else rbind (requestDefinition ctx s req) (\<lambda>found.
             case found of
               None \<Rightarrow> (if ir_IsInit req then Inl (Plain ''initialization requires a committed definition'')
                        else Inr None)
             | Some committed \<Rightarrow> initChecks (ir_IsInit req) committed)))"

lemma GetCommitted_Inr:
  assumes "GetCommitted ctx name s = Inr r"
  shows "r = active s name"
  using assms by (auto simp: GetCommitted_active rbind_Inr_iff split: if_splits)

text \<open>The initialization gate: a request that was given its definition and passed the check runs under the
  chaincode's active definition; an ordinary call only if that definition needs no initialization or
  has it, an init call only if it needs it and lacks it, and never as a query; without an active
  definition only an ordinary call passes.\<close>

theorem init_gate:
  assumes "selectLifecycleDefinition ctx (Some s) req = Inr req'"
    and "validateInitState ctx' (Some s) req' oper = Inr init"
    and "ir_definition req = None" and "ir_ChaincodeName req \<noteq> []"
  shows "ir_definition req' = active s (ir_ChaincodeName req) \<and>
    (case active s (ir_ChaincodeName req) of
       None \<Rightarrow> \<not> ir_IsInit req \<and> init = None
     | Some committed \<Rightarrow>
         ir_ChaincodeVersion req' = cd_Version (cm_Definition committed) \<and>
         (if ir_IsInit req
          then cd_InitRequired (cm_Definition committed) \<and> \<not> cm_Initialized committed \<and>
               init = Some (cm_Definition committed) \<and> oper \<noteq> OpQuery
          else (cd_InitRequired (cm_Definition committed) \<longrightarrow> cm_Initialized committed) \<and> init = None))"
proof -
  obtain found where get: "GetCommitted ctx (ir_ChaincodeName req) s = Inr found"
    using assms(1,4) by (auto simp: selectLifecycleDefinition_def rbind_Inr_iff)
  then have found: "found = active s (ir_ChaincodeName req)" by (rule GetCommitted_Inr)
  show ?thesis
  proof (cases found)
    case None
    with assms(1,3,4) get have "req' = req" by (simp add: selectLifecycleDefinition_def)
    moreover have "requestDefinition ctx' s req = Inr r \<Longrightarrow> r = None" for r
      using None found assms(3) by (auto simp: requestDefinition_def dest: GetCommitted_Inr)
    ultimately show ?thesis using assms(2,3,4) None found
      by (auto simp: validateInitState_def rbind_Inr_iff split: if_splits option.splits)
  next
    case (Some committed)
    with assms(1,4) get have "req' = req\<lparr>ir_definition := Some committed,
        ir_ChaincodeVersion := cd_Version (cm_Definition committed)\<rparr>" by (simp add: selectLifecycleDefinition_def)
    with assms(2,4) Some found show ?thesis
      by (auto simp: validateInitState_def requestDefinition_def initChecks_def Let_def split: if_splits)
  qed
qed

definition empty_store :: Store where
  "empty_store = \<lparr>st_channelID = ''ch'', st_open = True, st_installed = [], st_approved = [], st_committed = [],
     st_resolved = []\<rparr>"

definition gated_store :: Store where
  "gated_store = empty_store\<lparr>st_committed := [\<lparr>cr_name = ''cc'', cr_version = ''1'', cr_sequence = 1,
     cr_init_required = 1, cr_initialized = 0, cr_committed_at = ''t''\<rparr>]\<rparr>"

theorem init_gate_witness:
  "\<exists>req'. selectLifecycleDefinition None (Some gated_store) (sample_invocation\<lparr>ir_IsInit := True\<rparr>) = Inr req' \<and>
     (\<exists>d. validateInitState None (Some gated_store) req' OpEndorse = Inr (Some d) \<and> cd_InitRequired d) \<and>
     ir_definition req' = active gated_store ''cc''"
proof -
  let ?req = "sample_invocation\<lparr>ir_IsInit := True\<rparr>"
  obtain req' where sel: "selectLifecycleDefinition None (Some gated_store) ?req = Inr req'"
    by (simp add: selectLifecycleDefinition_def sample_invocation_def emptyRequest_def GetCommitted_def gated_store_def
        empty_store_def db_check_def)
  moreover obtain d where "validateInitState None (Some gated_store) req' OpEndorse = Inr (Some d)"
    and "cd_InitRequired d"
    using sel by (auto simp: selectLifecycleDefinition_def sample_invocation_def emptyRequest_def GetCommitted_def
        gated_store_def empty_store_def db_check_def scanCommitted_def validateInitState_def requestDefinition_def
        initChecks_def)
  moreover have "ir_definition ?req = None" "ir_ChaincodeName ?req = ''cc''"
    by (simp_all add: sample_invocation_def emptyRequest_def)
  ultimately show ?thesis using init_gate [OF sel] by auto
qed

end
