(* ===== verification/Idempotency.thy ===== *)
theory Idempotency
  imports Chaincode_Events
begin

section \<open>Idempotency records\<close>

text \<open>
  The in-memory store of \<open>orchestrator/idempotency.go\<close>.  Records are shared by pointer between the
  caller that executes a request, callers that wait for it and recovery passes, so the store is a
  heap of records (a pointer is an index; records are never freed here) and the map from request keys
  to pointers.  A channel used as a signal is the flag that it is closed, the one-slot channel that
  serializes finality work is the flag that it is full.  Closing a closed channel is a Go panic, an
  operation that may panic or block returns an option.  Each operation is one critical section of
  the store's mutex.  A time is its nanoseconds, the zero time is \<open>None\<close>.  The only callback ever
  stored after \<open>afterCommit\<close> marks a definition initialized, so the definition stands for it.
\<close>

subsection \<open>Records and the store\<close>

datatype idempotencyState = InProgress | Executed | Submitted | Completed | Failed

record idempotencyRecord =
  id_Key :: string
  id_Digest :: string
  id_State :: idempotencyState
  id_HelperTxID :: string
  id_Response :: InvocationResponse
  id_Err :: "orch_error option"
  id_CreatedAt :: int
  id_UpdatedAt :: int
  id_submitted :: bool
  id_done :: bool
  id_finalityCheck :: bool
  id_afterCommit :: "ChaincodeDefinition option"
  id_event :: "ChaincodeEvent option"

record submittedInvocation =
  si_Response :: InvocationResponse
  si_Event :: "ChaincodeEvent option"
  si_AfterCommit :: "ChaincodeDefinition option"

record idempotencyStore =
  is_heap :: "idempotencyRecord list"
  is_records :: "string \<rightharpoonup> nat"

definition newIdempotencyStore :: idempotencyStore where
  "newIdempotencyStore = \<lparr>is_heap = [], is_records = (\<lambda>_. None)\<rparr>"

abbreviation rec_at :: "idempotencyStore \<Rightarrow> nat \<Rightarrow> idempotencyRecord" where
  "rec_at s r \<equiv> is_heap s ! r"

definition set_rec :: "nat \<Rightarrow> idempotencyRecord \<Rightarrow> idempotencyStore \<Rightarrow> idempotencyStore" where
  "set_rec r x s = s\<lparr>is_heap := (is_heap s)[r := x]\<rparr>"

definition finished :: "idempotencyRecord \<Rightarrow> bool" where
  "finished x \<longleftrightarrow> id_State x = Completed \<or> id_State x = Failed"

subsection \<open>Operations\<close>

definition existing :: "string \<Rightarrow> string \<Rightarrow> idempotencyStore \<Rightarrow> orch_error + nat option" where
  "existing key digest s =
     (case is_records s key of
        None \<Rightarrow> Inr None
      | Some r \<Rightarrow>
          (if id_Digest (rec_at s r) \<noteq> digest then Inl (Plain (''idempotency conflict for key '' @ key))
           else Inr (Some r)))"

definition newRecord :: "string \<Rightarrow> string \<Rightarrow> int \<Rightarrow> idempotencyRecord" where
  "newRecord key digest now =
     \<lparr>id_Key = key, id_Digest = digest, id_State = InProgress, id_HelperTxID = [],
      id_Response = emptyResponse, id_Err = None, id_CreatedAt = now, id_UpdatedAt = now,
      id_submitted = False, id_done = False, id_finalityCheck = False, id_afterCommit = None, id_event = None\<rparr>"

definition begin_record ::
  "string \<Rightarrow> string \<Rightarrow> int \<Rightarrow> idempotencyStore \<Rightarrow> (orch_error + nat \<times> bool) \<times> idempotencyStore" where
  "begin_record key digest now s =
     (if key = [] \<or> digest = [] then (Inl (Plain ''idempotency key and digest are required''), s)
      else case is_records s key of
        Some r \<Rightarrow>
          (if id_Digest (rec_at s r) \<noteq> digest then (Inl (Plain (''idempotency conflict for key '' @ key)), s)
           else (Inr (r, False), s))
      | None \<Rightarrow>
          (Inr (length (is_heap s), True),
           s\<lparr>is_heap := is_heap s @ [newRecord key digest now],
             is_records := (is_records s)(key \<mapsto> length (is_heap s))\<rparr>))"

definition waitResult ::
  "nat \<Rightarrow> orch_error option \<Rightarrow> idempotencyStore \<Rightarrow> InvocationResponse \<times> orch_error option" where
  "waitResult r waitErr s =
     (let x = rec_at s r; out = (id_Response x)\<lparr>rv_IdempotencyKey := id_Key x\<rparr> in
      if id_State x = Submitted then (out\<lparr>rv_FinalityPending := True\<rparr>, None)
      else if finished x then (out, id_Err x)
      else (out, waitErr))"

text \<open>The select of \<open>wait\<close> takes any ready case, so the case is an argument; \<open>None\<close> while it is not ready.\<close>

datatype wake = WakeDone | WakeSubmitted | WakeContext

definition wait_record ::
  "ctx \<Rightarrow> wake \<Rightarrow> nat option \<Rightarrow> idempotencyStore \<Rightarrow> (InvocationResponse \<times> orch_error option) option" where
  "wait_record ctx wake record s =
     (case record of
        None \<Rightarrow> Some (emptyResponse, Some (Plain ''idempotency record is nil''))
      | Some r \<Rightarrow>
          (case wake of
             WakeDone \<Rightarrow> if id_done (rec_at s r) then Some (waitResult r None s) else None
           | WakeSubmitted \<Rightarrow> if id_submitted (rec_at s r) then Some (waitResult r None s) else None
           | WakeContext \<Rightarrow> (case ctx of None \<Rightarrow> None | Some e \<Rightarrow> Some (waitResult r (Some (CtxError e)) s))))"

definition markExecuted :: "nat option \<Rightarrow> string \<Rightarrow> int \<Rightarrow> idempotencyStore \<Rightarrow> idempotencyStore" where
  "markExecuted record helperTxID now s =
     (case record of
        None \<Rightarrow> s
      | Some r \<Rightarrow> set_rec r ((rec_at s r)\<lparr>id_HelperTxID := helperTxID, id_State := Executed, id_UpdatedAt := now\<rparr>) s)"

definition markSubmission ::
  "proto_lib \<Rightarrow> nat option \<Rightarrow> InvocationResponse \<Rightarrow> Endorsement \<Rightarrow> ChaincodeDefinition option
    \<Rightarrow> orch_error option \<Rightarrow> int \<Rightarrow> idempotencyStore \<Rightarrow> idempotencyStore option" where
  "markSubmission lib record response end afterCommit submitErr now s =
     (case record of
        None \<Rightarrow> Some s
      | Some r \<Rightarrow>
          (let x = rec_at s r in
           if id_State x = Submitted \<or> finished x then Some s
           else if id_submitted x then None
           else Some (set_rec r (x\<lparr>id_Response := response\<lparr>rv_FinalityPending := True\<rparr>, id_Err := submitErr,
                  id_event := eventFromEndorsement lib end (rv_TxID response), id_afterCommit := afterCommit,
                  id_State := Submitted, id_UpdatedAt := now, id_submitted := True\<rparr>) s)))"

definition markSubmitted ::
  "proto_lib \<Rightarrow> nat option \<Rightarrow> InvocationResponse \<Rightarrow> Endorsement \<Rightarrow> ChaincodeDefinition option
    \<Rightarrow> int \<Rightarrow> idempotencyStore \<Rightarrow> idempotencyStore option" where
  "markSubmitted lib record response end afterCommit now s =
     markSubmission lib record response end afterCommit None now s"

definition submissionOutcome :: "nat \<Rightarrow> idempotencyStore \<Rightarrow> bool \<times> orch_error option" where
  "submissionOutcome r s =
     (let x = rec_at s r in
      if id_State x = Submitted then (rv_Submitted (id_Response x), id_Err x)
      else if rv_Submitted (id_Response x) then (True, None)
      else (False, id_Err x))"

text \<open>The caller holds the mutex.\<close>

definition remove_record :: "nat \<Rightarrow> idempotencyStore \<Rightarrow> idempotencyStore" where
  "remove_record r s =
     (if is_records s (id_Key (rec_at s r)) = Some r
      then s\<lparr>is_records := (is_records s)(id_Key (rec_at s r) := None)\<rparr> else s)"

definition complete ::
  "nat option \<Rightarrow> InvocationResponse \<Rightarrow> orch_error option \<Rightarrow> int \<Rightarrow> idempotencyStore \<Rightarrow> idempotencyStore option" where
  "complete record response err now s =
     (case record of
        None \<Rightarrow> Some s
      | Some r \<Rightarrow>
          (let x = rec_at s r in
           if id_State x = Submitted \<or> finished x then Some s
           else if id_done x then None
           else Some (remove_record r (set_rec r (x\<lparr>id_Response := response, id_Err := err,
                  id_State := (if err \<noteq> None then Failed else Completed), id_UpdatedAt := now,
                  id_done := True\<rparr>) s))))"

definition pending :: "nat option \<Rightarrow> idempotencyStore \<Rightarrow> submittedInvocation option" where
  "pending record s =
     (case record of
        None \<Rightarrow> None
      | Some r \<Rightarrow>
          (let x = rec_at s r in
           if id_State x \<noteq> Submitted then None
           else Some \<lparr>si_Response = id_Response x, si_Event = id_event x, si_AfterCommit = id_afterCommit x\<rparr>))"

text \<open>Go iterates a map in an unspecified order; \<open>order\<close> lists the live pointers in the order it took.\<close>

definition pendingRecordsBefore :: "nat list \<Rightarrow> nat \<Rightarrow> int option \<Rightarrow> idempotencyStore \<Rightarrow> nat list" where
  "pendingRecordsBefore order limit cutoff s =
     (let ready = filter (\<lambda>r. id_State (rec_at s r) = Submitted \<and>
                    (case cutoff of None \<Rightarrow> True | Some t \<Rightarrow> id_UpdatedAt (rec_at s r) \<le> t)) order
      in if limit > 0 then take limit ready else ready)"

definition pendingRecords :: "nat list \<Rightarrow> nat \<Rightarrow> idempotencyStore \<Rightarrow> nat list" where
  "pendingRecords order limit s = pendingRecordsBefore order limit None s"

text \<open>\<open>None\<close> while the slot is taken and the context is live: the caller keeps waiting.\<close>

definition lockFinality ::
  "ctx \<Rightarrow> nat \<Rightarrow> idempotencyStore \<Rightarrow> (orch_error + unit) option \<times> idempotencyStore" where
  "lockFinality ctx r s =
     (case ctx of
        Some e \<Rightarrow> (Some (Inl (CtxError e)), s)
      | None \<Rightarrow>
          (if id_finalityCheck (rec_at s r) then (None, s)
           else (Some (Inr ()), set_rec r ((rec_at s r)\<lparr>id_finalityCheck := True\<rparr>) s)))"

definition unlockFinality :: "nat \<Rightarrow> idempotencyStore \<Rightarrow> idempotencyStore option" where
  "unlockFinality r s =
     (if id_finalityCheck (rec_at s r) then Some (set_rec r ((rec_at s r)\<lparr>id_finalityCheck := False\<rparr>) s) else None)"

definition tryLockFinality :: "nat \<Rightarrow> idempotencyStore \<Rightarrow> bool \<times> idempotencyStore" where
  "tryLockFinality r s =
     (if id_finalityCheck (rec_at s r) then (False, s)
      else (True, set_rec r ((rec_at s r)\<lparr>id_finalityCheck := True\<rparr>) s))"

definition confirmFinality ::
  "nat option \<Rightarrow> InvocationResponse \<Rightarrow> orch_error option \<Rightarrow> int \<Rightarrow> idempotencyStore \<Rightarrow> idempotencyStore option" where
  "confirmFinality record response err now s =
     (case record of
        None \<Rightarrow> Some s
      | Some r \<Rightarrow>
          (let x = rec_at s r in
           if id_State x \<noteq> Submitted \<or> rv_CommitStatus response = [] then Some s
           else if id_done x then None
           else Some (remove_record r (set_rec r (x\<lparr>id_Response := response\<lparr>rv_FinalityPending := False\<rparr>,
                  id_Err := err, id_State := Completed, id_UpdatedAt := now, id_afterCommit := None,
                  id_event := None, id_done := True\<rparr>) s))))"

lemmas [idem_defs] =
  begin_record_def markExecuted_def markSubmission_def markSubmitted_def complete_def confirmFinality_def
  lockFinality_def unlockFinality_def tryLockFinality_def

end
