(* ===== verification/Idempotency_Protocol.thy ===== *)
theory Idempotency_Protocol
  imports Idempotency
begin

section \<open>Requests that share the idempotency store\<close>

text \<open>
  \<open>Execute\<close> and \<open>Submit\<close> use the store in one pattern: the caller for which \<open>begin\<close> created the record
  owns it, marks it executed once, then submits at most once, and completes it on return; anyone may
  confirm finality, and recovery takes the finality slot.  The pattern is the phase of a record's
  owner, \<open>idem_allowed\<close> the calls it permits, and all interleavings of such calls from an empty
  store are \<open>idem_reachable\<close>.  The properties: no channel is closed twice, the map holds exactly the
  unfinished records, a retry joins the unfinished request instead of starting another, and an
  outcome once recorded stays.
\<close>

datatype phase = Running | Ran | Over

record idem_config =
  ic_store :: idempotencyStore
  ic_phase :: "nat \<Rightarrow> phase"

datatype idem_op =
    OpBegin string string int
  | OpExecuted nat string int
  | OpSubmission nat InvocationResponse Endorsement "ChaincodeDefinition option" "orch_error option" int
  | OpComplete nat InvocationResponse "orch_error option" int
  | OpConfirm nat InvocationResponse "orch_error option" int
  | OpLock ctx nat
  | OpTryLock nat
  | OpUnlock nat

definition live_ref :: "idem_config \<Rightarrow> nat \<Rightarrow> bool" where
  "live_ref c r \<longleftrightarrow> r < length (is_heap (ic_store c))"

fun idem_allowed :: "idem_op \<Rightarrow> idem_config \<Rightarrow> bool" where
  "idem_allowed (OpBegin key digest now) c \<longleftrightarrow> True"
| "idem_allowed (OpExecuted r tx now) c \<longleftrightarrow> live_ref c r \<and> ic_phase c r = Running"
| "idem_allowed (OpSubmission r resp en cb err now) c \<longleftrightarrow> live_ref c r \<and> ic_phase c r = Ran"
| "idem_allowed (OpComplete r resp err now) c \<longleftrightarrow> live_ref c r \<and> ic_phase c r \<noteq> Over"
| "idem_allowed (OpConfirm r resp err now) c \<longleftrightarrow> live_ref c r"
| "idem_allowed (OpLock ctx r) c \<longleftrightarrow> live_ref c r"
| "idem_allowed (OpTryLock r) c \<longleftrightarrow> live_ref c r"
| "idem_allowed (OpUnlock r) c \<longleftrightarrow> live_ref c r \<and> id_finalityCheck (rec_at (ic_store c) r)"

definition with_store :: "idem_config \<Rightarrow> idempotencyStore \<Rightarrow> idem_config" where
  "with_store c s = c\<lparr>ic_store := s\<rparr>"

definition set_phase :: "nat \<Rightarrow> phase \<Rightarrow> idem_config \<Rightarrow> idem_config" where
  "set_phase r p c = c\<lparr>ic_phase := (ic_phase c)(r := p)\<rparr>"

fun idem_apply :: "proto_lib \<Rightarrow> idem_op \<Rightarrow> idem_config \<Rightarrow> idem_config option" where
  "idem_apply lib (OpBegin key digest now) c =
     (let (res, s) = begin_record key digest now (ic_store c) in
      Some (with_store (case res of Inr (r, True) \<Rightarrow> set_phase r Running c | _ \<Rightarrow> c) s))"
| "idem_apply lib (OpExecuted r tx now) c =
     Some (with_store (set_phase r Ran c) (markExecuted (Some r) tx now (ic_store c)))"
| "idem_apply lib (OpSubmission r resp en cb err now) c =
     map_option (with_store c) (markSubmission lib (Some r) resp en cb err now (ic_store c))"
| "idem_apply lib (OpComplete r resp err now) c =
     map_option (with_store (set_phase r Over c)) (complete (Some r) resp err now (ic_store c))"
| "idem_apply lib (OpConfirm r resp err now) c =
     map_option (with_store c) (confirmFinality (Some r) resp err now (ic_store c))"
| "idem_apply lib (OpLock ctx r) c = Some (with_store c (snd (lockFinality ctx r (ic_store c))))"
| "idem_apply lib (OpTryLock r) c = Some (with_store c (snd (tryLockFinality r (ic_store c))))"
| "idem_apply lib (OpUnlock r) c = map_option (with_store c) (unlockFinality r (ic_store c))"

definition idem_start :: idem_config where
  "idem_start = \<lparr>ic_store = newIdempotencyStore, ic_phase = (\<lambda>_. Over)\<rparr>"

inductive idem_step :: "proto_lib \<Rightarrow> idem_config \<Rightarrow> idem_config \<Rightarrow> bool" for lib where
  step: "idem_allowed oper c \<Longrightarrow> idem_apply lib oper c = Some c' \<Longrightarrow> idem_step lib c c'"

inductive idem_reachable :: "proto_lib \<Rightarrow> idem_config \<Rightarrow> bool" for lib where
  start: "idem_reachable lib idem_start"
| more: "idem_reachable lib c \<Longrightarrow> idem_step lib c c' \<Longrightarrow> idem_reachable lib c'"

subsection \<open>Invariant\<close>

definition record_ok :: "phase \<Rightarrow> idempotencyRecord \<Rightarrow> bool" where
  "record_ok p x \<longleftrightarrow> id_Key x \<noteq> [] \<and> id_Digest x \<noteq> [] \<and> (id_done x \<longleftrightarrow> finished x) \<and>
     (id_State x = Submitted \<longrightarrow> id_submitted x) \<and>
     (id_State x = InProgress \<or> id_State x = Executed \<longrightarrow> \<not> id_submitted x) \<and>
     (p = Running \<longrightarrow> id_State x = InProgress)"

definition map_ok :: "idempotencyStore \<Rightarrow> bool" where
  "map_ok s \<longleftrightarrow> (\<forall>k r. is_records s k = Some r \<longleftrightarrow>
     r < length (is_heap s) \<and> id_Key (rec_at s r) = k \<and> \<not> finished (rec_at s r))"

definition idem_inv :: "idem_config \<Rightarrow> bool" where
  "idem_inv c \<longleftrightarrow> map_ok (ic_store c) \<and> (\<forall>r. live_ref c r \<longrightarrow> record_ok (ic_phase c r) (rec_at (ic_store c) r))"

lemma map_ok_at:
  "map_ok s \<Longrightarrow> is_records s k = Some r \<longleftrightarrow>
     r < length (is_heap s) \<and> id_Key (rec_at s r) = k \<and> \<not> finished (rec_at s r)"
  by (simp add: map_ok_def)

lemma map_ok_begin:
  assumes "map_ok s" and "is_records s key = None"
  shows "map_ok (s\<lparr>is_heap := is_heap s @ [newRecord key digest now],
     is_records := (is_records s)(key \<mapsto> length (is_heap s))\<rparr>)"
  using assms by (auto simp: map_ok_def nth_append newRecord_def finished_def less_Suc_eq)
    (metis option.distinct(1))+

text \<open>A changed record keeps its key; while it stays unfinished the map needs no change, and once it
  is finished its entry goes.\<close>

lemma map_ok_set:
  assumes "map_ok s" and "r < length (is_heap s)" and "id_Key y = id_Key (rec_at s r)"
    and "finished y = finished (rec_at s r)"
  shows "map_ok (set_rec r y s)"
  using assms by (auto simp: map_ok_def set_rec_def nth_list_update)

lemma map_ok_finish:
  assumes "map_ok s" and "r < length (is_heap s)" and "id_Key y = id_Key (rec_at s r)"
    and "finished y" and "\<not> finished (rec_at s r)"
  shows "map_ok (remove_record r (set_rec r y s))"
  unfolding map_ok_def
proof (intro allI)
  fix k r'
  have k: "is_records s (id_Key y) = Some r" using assms by (simp add: map_ok_at)
  then have eq: "remove_record r (set_rec r y s)
      = s\<lparr>is_heap := (is_heap s)[r := y], is_records := (is_records s)(id_Key y := None)\<rparr>"
    using assms(2) by (simp add: remove_record_def set_rec_def)
  have other: "is_records s (id_Key y) = Some r' \<Longrightarrow> r' = r" using k by simp
  show "is_records (remove_record r (set_rec r y s)) k = Some r' \<longleftrightarrow>
      r' < length (is_heap (remove_record r (set_rec r y s))) \<and>
      id_Key (rec_at (remove_record r (set_rec r y s)) r') = k \<and>
      \<not> finished (rec_at (remove_record r (set_rec r y s)) r')"
  proof (cases "r' = r")
    case True
    with assms show ?thesis by (auto simp: eq map_ok_at)
  next
    case False
    with assms(1) other show ?thesis by (auto simp: eq map_ok_at)
  qed
qed

lemma config_simps [simp]:
  "ic_store (with_store c s) = s" "ic_phase (with_store c s) = ic_phase c"
  "ic_store (set_phase r p c) = ic_store c" "ic_phase (set_phase r p c) = (ic_phase c)(r := p)"
  by (simp_all add: with_store_def set_phase_def)

lemma heap_simps [simp]:
  "length (is_heap (set_rec r y s)) = length (is_heap s)"
  "is_heap (remove_record r s) = is_heap s"
  "r < length (is_heap s) \<Longrightarrow> rec_at (set_rec r y s) r = y"
  "r' \<noteq> r \<Longrightarrow> rec_at (set_rec r y s) r' = rec_at s r'"
  by (simp_all add: set_rec_def remove_record_def)

lemma inv_at: "idem_inv c \<Longrightarrow> live_ref c r \<Longrightarrow> record_ok (ic_phase c r) (rec_at (ic_store c) r)"
  by (simp add: idem_inv_def)

lemma same_simps [simp]: "with_store c (ic_store c) = c"
  by (simp add: with_store_def)

lemma inv_set:
  assumes "idem_inv c" and "live_ref c r" and "record_ok p y"
    and "id_Key y = id_Key (rec_at (ic_store c) r)" and "finished y = finished (rec_at (ic_store c) r)"
  shows "idem_inv (with_store (set_phase r p c) (set_rec r y (ic_store c)))"
  unfolding idem_inv_def
proof (intro conjI allI impI)
  show "map_ok (ic_store (with_store (set_phase r p c) (set_rec r y (ic_store c))))"
    using assms by (simp add: idem_inv_def live_ref_def map_ok_set)
  fix r'
  assume "live_ref (with_store (set_phase r p c) (set_rec r y (ic_store c))) r'"
  then show "record_ok (ic_phase (with_store (set_phase r p c) (set_rec r y (ic_store c))) r')
      (rec_at (ic_store (with_store (set_phase r p c) (set_rec r y (ic_store c)))) r')"
    using assms by (cases "r' = r") (auto simp: idem_inv_def live_ref_def)
qed

lemma inv_finish:
  assumes "idem_inv c" and "live_ref c r" and "record_ok p y"
    and "id_Key y = id_Key (rec_at (ic_store c) r)" and "finished y" and "\<not> finished (rec_at (ic_store c) r)"
  shows "idem_inv (with_store (set_phase r p c) (remove_record r (set_rec r y (ic_store c))))"
  unfolding idem_inv_def
proof (intro conjI allI impI)
  let ?c = "with_store (set_phase r p c) (remove_record r (set_rec r y (ic_store c)))"
  show "map_ok (ic_store ?c)" using assms by (simp add: idem_inv_def live_ref_def map_ok_finish)
  fix r'
  assume "live_ref ?c r'"
  then show "record_ok (ic_phase ?c r') (rec_at (ic_store ?c) r')"
    using assms by (cases "r' = r") (auto simp: idem_inv_def live_ref_def)
qed

lemma inv_set_same:
  assumes "idem_inv c" and "live_ref c r" and "record_ok (ic_phase c r) y"
    and "id_Key y = id_Key (rec_at (ic_store c) r)" and "finished y = finished (rec_at (ic_store c) r)"
  shows "idem_inv (with_store c (set_rec r y (ic_store c)))"
  using inv_set [OF assms] by (simp add: set_phase_def)

lemma inv_finish_same:
  assumes "idem_inv c" and "live_ref c r" and "record_ok (ic_phase c r) y"
    and "id_Key y = id_Key (rec_at (ic_store c) r)" and "finished y" and "\<not> finished (rec_at (ic_store c) r)"
  shows "idem_inv (with_store c (remove_record r (set_rec r y (ic_store c))))"
  using inv_finish [OF assms] by (simp add: set_phase_def)

lemma inv_phase:
  assumes "idem_inv c" and "live_ref c r" and "p \<noteq> Running"
  shows "idem_inv (with_store (set_phase r p c) (ic_store c))"
  using assms by (auto simp: idem_inv_def live_ref_def record_ok_def)

lemma inv_begin:
  assumes "idem_inv c" and "is_records (ic_store c) key = None" and "key \<noteq> []" and "digest \<noteq> []"
  shows "idem_inv (with_store (set_phase (length (is_heap (ic_store c))) Running c)
    ((ic_store c)\<lparr>is_heap := is_heap (ic_store c) @ [newRecord key digest now],
      is_records := (is_records (ic_store c))(key \<mapsto> length (is_heap (ic_store c)))\<rparr>))"
  unfolding idem_inv_def
proof (intro conjI allI impI)
  let ?s = "(ic_store c)\<lparr>is_heap := is_heap (ic_store c) @ [newRecord key digest now],
      is_records := (is_records (ic_store c))(key \<mapsto> length (is_heap (ic_store c)))\<rparr>"
  let ?c = "with_store (set_phase (length (is_heap (ic_store c))) Running c) ?s"
  show "map_ok (ic_store ?c)"
    using map_ok_begin assms by (simp add: idem_inv_def)
  fix r'
  assume "live_ref ?c r'"
  then show "record_ok (ic_phase ?c r') (rec_at (ic_store ?c) r')"
    using assms by (cases "r' = length (is_heap (ic_store c))")
      (auto simp: idem_inv_def live_ref_def nth_append record_ok_def newRecord_def finished_def)
qed

text \<open>Every permitted call returns and keeps the invariant.\<close>

lemma idem_apply_inv:
  assumes inv: "idem_inv c" and "idem_allowed oper c"
  shows "\<exists>c'. idem_apply lib oper c = Some c' \<and> idem_inv c'"
proof (cases oper)
  case (OpBegin key digest now)
  with inv inv_begin [of c key digest now] show ?thesis
    by (auto simp: begin_record_def with_store_def split: option.split)
next
  case (OpExecuted r tx now)
  with assms inv_at [of c r] show ?thesis
    by (auto simp: markExecuted_def record_ok_def finished_def Let_def split: option.split
        intro!: inv_set inv_set_same inv_finish inv_finish_same inv_phase)
next
  case (OpSubmission r resp en cb err now)
  with assms inv_at [of c r] show ?thesis
    by (cases "id_State (rec_at (ic_store c) r)") (auto simp: markSubmission_def record_ok_def finished_def Let_def split: option.split
        intro!: inv_set inv_set_same inv_finish inv_finish_same inv_phase)
next
  case (OpComplete r resp err now)
  with assms inv_at [of c r] show ?thesis
    by (auto simp: complete_def record_ok_def finished_def Let_def split: option.split
        intro!: inv_set inv_set_same inv_finish inv_finish_same inv_phase)
next
  case (OpConfirm r resp err now)
  with assms inv_at [of c r] show ?thesis
    by (auto simp: confirmFinality_def record_ok_def finished_def Let_def split: option.split
        intro!: inv_set inv_set_same inv_finish inv_finish_same inv_phase)
next
  case (OpLock ctx r)
  with assms inv_at [of c r] show ?thesis
    by (auto simp: lockFinality_def record_ok_def finished_def Let_def split: option.split
        intro!: inv_set inv_set_same inv_finish inv_finish_same inv_phase)
next
  case (OpTryLock r)
  with assms inv_at [of c r] show ?thesis
    by (auto simp: tryLockFinality_def record_ok_def finished_def Let_def split: option.split
        intro!: inv_set inv_set_same inv_finish inv_finish_same inv_phase)
next
  case (OpUnlock r)
  with assms inv_at [of c r] show ?thesis
    by (auto simp: unlockFinality_def record_ok_def finished_def Let_def split: option.split
        intro!: inv_set inv_set_same inv_finish inv_finish_same inv_phase)
qed

lemma reachable_inv: "idem_reachable lib c \<Longrightarrow> idem_inv c"
proof (induction rule: idem_reachable.induct)
  case start
  then show ?case by (simp add: idem_inv_def map_ok_def idem_start_def newIdempotencyStore_def live_ref_def)
next
  case (more c c')
  then show ?case by (metis idem_step.cases idem_apply_inv option.inject)
qed

subsection \<open>Properties\<close>

text \<open>No interleaving of the calls the orchestrator makes panics: every permitted call on a reachable store
  returns, so no record's channel is ever closed twice.\<close>

theorem idempotency_never_panics:
  assumes "idem_reachable lib c" and "idem_allowed oper c"
  shows "\<exists>c'. idem_apply lib oper c = Some c' \<and> idem_reachable lib c'"
  using idem_apply_inv [OF reachable_inv [OF assms(1)] assms(2), of lib] assms
  by (auto intro: idem_reachable.more idem_step.step)

text \<open>C7: the map holds exactly the unfinished records, so there is at most one per request key: a retry with the
  same digest joins it, one with another digest is a conflict, and only a key without unfinished
  record starts an execution.\<close>

theorem one_execution_per_key:
  assumes "idem_reachable lib c" and "s = ic_store c" and "key \<noteq> []" and "digest \<noteq> []"
    and "begin_record key digest now s = (res, s')"
  shows "(\<forall>k r. is_records s k = Some r \<longleftrightarrow>
            r < length (is_heap s) \<and> id_Key (rec_at s r) = k \<and> \<not> finished (rec_at s r)) \<and>
    (if \<exists>r < length (is_heap s). id_Key (rec_at s r) = key \<and> \<not> finished (rec_at s r)
     then s' = s \<and> (\<exists>r. r < length (is_heap s) \<and> id_Key (rec_at s r) = key \<and> \<not> finished (rec_at s r) \<and>
            (if id_Digest (rec_at s r) = digest then res = Inr (r, False) \<and> existing key digest s = Inr (Some r)
             else \<not> is_ok res \<and> \<not> is_ok (existing key digest s)))
     else res = Inr (length (is_heap s), True) \<and> existing key digest s = Inr None \<and>
          is_records s' key = Some (length (is_heap s)) \<and> \<not> finished (rec_at s' (length (is_heap s))))"
proof -
  have m: "map_ok s" using reachable_inv [OF assms(1)] assms(2) by (simp add: idem_inv_def)
  then have at: "\<And>k r. is_records s k = Some r \<longleftrightarrow>
      r < length (is_heap s) \<and> id_Key (rec_at s r) = k \<and> \<not> finished (rec_at s r)" by (rule map_ok_at)
  show ?thesis
  proof (cases "is_records s key")
    case None
    then have "\<not> (\<exists>r < length (is_heap s). id_Key (rec_at s r) = key \<and> \<not> finished (rec_at s r))"
      using at [of key] by auto
    with None at assms(3-5) show ?thesis
      by (auto simp: begin_record_def existing_def newRecord_def finished_def)
  next
    case (Some r)
    then have live: "r < length (is_heap s) \<and> id_Key (rec_at s r) = key \<and> \<not> finished (rec_at s r)"
      by (simp add: at)
    have "s' = s \<and> (if id_Digest (rec_at s r) = digest then res = Inr (r, False) \<and> existing key digest s = Inr (Some r)
        else \<not> is_ok res \<and> \<not> is_ok (existing key digest s))"
      using Some assms(3-5) by (auto simp: begin_record_def existing_def split: if_splits)
    moreover have ex: "\<exists>r < length (is_heap s). id_Key (rec_at s r) = key \<and> \<not> finished (rec_at s r)"
      using live by blast
    ultimately show ?thesis using live at by (simp only: ex if_True) blast
  qed
qed

text \<open>How a record may change from one moment to a later one.\<close>

definition evolves :: "idempotencyRecord \<Rightarrow> idempotencyRecord \<Rightarrow> bool" where
  "evolves x y \<longleftrightarrow> id_Key y = id_Key x \<and> id_Digest y = id_Digest x \<and>
     (finished x \<longrightarrow> id_State y = id_State x \<and> id_Response y = id_Response x \<and> id_Err y = id_Err x \<and> id_done y = id_done x) \<and>
     (id_State x = Submitted \<longrightarrow>
        (id_State y = Submitted \<and> id_Response y = id_Response x \<and> id_Err y = id_Err x \<and> id_event y = id_event x) \<or>
        (id_State y = Completed \<and> rv_CommitStatus (id_Response y) \<noteq> [] \<and> \<not> rv_FinalityPending (id_Response y))) \<and>
     (id_submitted x \<longrightarrow> id_submitted y)"

lemma evolves_refl: "evolves x x"
  by (auto simp: evolves_def)

lemma evolves_trans: "evolves x y \<Longrightarrow> evolves y z \<Longrightarrow> evolves x z"
  by (cases "id_State x"; cases "id_State y") (simp_all add: evolves_def finished_def)

text \<open>A call changes one record at most, or adds one.\<close>

definition heap_step :: "idempotencyRecord list \<Rightarrow> idempotencyRecord list \<Rightarrow> bool" where
  "heap_step h h' \<longleftrightarrow> h' = h \<or> (\<exists>x. h' = h @ [x]) \<or>
     (\<exists>r y. r < length h \<and> evolves (h ! r) y \<and> h' = h[r := y])"

lemma heap_step_set:
  "live_ref c r \<Longrightarrow> evolves (rec_at (ic_store c) r) y \<Longrightarrow>
    heap_step (is_heap (ic_store c)) (is_heap (set_rec r y (ic_store c)))"
  by (auto simp: heap_step_def live_ref_def set_rec_def)

lemma heap_step_same: "heap_step h h"
  by (simp add: heap_step_def)

lemma idem_apply_heap:
  assumes "idem_inv c" and "idem_allowed oper c" and "idem_apply lib oper c = Some c'"
  shows "heap_step (is_heap (ic_store c)) (is_heap (ic_store c'))"
proof (cases oper)
  case (OpBegin key digest now)
  with assms show ?thesis
    by (auto simp: begin_record_def heap_step_def split: option.splits if_splits)
next
  case (OpExecuted r tx now)
  with assms inv_at [of c r] show ?thesis
    by (auto simp: markExecuted_def record_ok_def finished_def Let_def evolves_def split: if_splits option.splits
        intro!: heap_step_set heap_step_same)
next
  case (OpSubmission r resp en cb err now)
  with assms inv_at [of c r] show ?thesis
    by (auto simp: markSubmission_def record_ok_def finished_def Let_def evolves_def split: if_splits option.splits
        intro!: heap_step_set heap_step_same)
next
  case (OpComplete r resp err now)
  with assms inv_at [of c r] show ?thesis
    by (auto simp: complete_def record_ok_def finished_def Let_def evolves_def split: if_splits option.splits
        intro!: heap_step_set heap_step_same)
next
  case (OpConfirm r resp err now)
  with assms inv_at [of c r] show ?thesis
    by (auto simp: confirmFinality_def record_ok_def finished_def Let_def evolves_def split: if_splits option.splits
        intro!: heap_step_set heap_step_same)
next
  case (OpLock ctx r)
  with assms inv_at [of c r] show ?thesis
    by (auto simp: lockFinality_def record_ok_def finished_def Let_def evolves_def split: if_splits option.splits
        intro!: heap_step_set heap_step_same)
next
  case (OpTryLock r)
  with assms inv_at [of c r] show ?thesis
    by (auto simp: tryLockFinality_def record_ok_def finished_def Let_def evolves_def split: if_splits option.splits
        intro!: heap_step_set heap_step_same)
next
  case (OpUnlock r)
  with assms inv_at [of c r] show ?thesis
    by (auto simp: unlockFinality_def record_ok_def finished_def Let_def evolves_def split: if_splits option.splits
        intro!: heap_step_set heap_step_same)
qed

lemma idem_step_evolves:
  assumes "idem_inv c" and "idem_step lib c c'" and "live_ref c r"
  shows "live_ref c' r \<and> evolves (rec_at (ic_store c) r) (rec_at (ic_store c') r)"
proof -
  have "heap_step (is_heap (ic_store c)) (is_heap (ic_store c'))"
    using assms(1,2) idem_apply_heap by (auto elim: idem_step.cases)
  with assms(3) show ?thesis
    by (auto simp: heap_step_def live_ref_def nth_append nth_list_update evolves_refl)
qed

lemma idem_steps_evolve:
  assumes "rtranclp (idem_step lib) c c'" and "idem_reachable lib c" and "live_ref c r"
  shows "idem_reachable lib c' \<and> live_ref c' r \<and> evolves (rec_at (ic_store c) r) (rec_at (ic_store c') r)"
  using assms
proof (induction rule: rtranclp_induct)
  case base
  then show ?case by (simp add: evolves_refl)
next
  case (step c1 c2)
  then have "live_ref c2 r \<and> evolves (rec_at (ic_store c1) r) (rec_at (ic_store c2) r)"
    using idem_step_evolves [OF reachable_inv] by blast
  with step show ?case by (auto intro: evolves_trans idem_reachable.more)
qed

text \<open>C8: outcomes are final.  Once a record is finished, whatever calls come in between, a later wait on it is
  ready at once, and every case of its select, the cancelled context included, answers with that very
  response and error.  A wait on a record that was submitted is ready too; every answer is the submitted
  response, marked as pending, without error, until a final commit status completes the record, and the
  response of that completion from then on: never an execution error, a timeout or the waiter's own
  cancellation.\<close>

theorem outcome_is_final:
  assumes "idem_reachable lib c" and "rtranclp (idem_step lib) c c'" and "live_ref c r"
    and "x = rec_at (ic_store c) r" and "y = rec_at (ic_store c') r"
  shows "(finished x \<longrightarrow> wait_record ctx WakeDone (Some r) (ic_store c') \<noteq> None \<and>
            (\<forall>wake answer. wait_record ctx wake (Some r) (ic_store c') = Some answer \<longrightarrow>
               answer = ((id_Response x)\<lparr>rv_IdempotencyKey := id_Key x\<rparr>, id_Err x))) \<and>
    (id_State x = Submitted \<longrightarrow> wait_record ctx WakeSubmitted (Some r) (ic_store c') \<noteq> None \<and>
       ((id_State y = Submitted \<and> id_Response y = id_Response x \<and> id_Err y = id_Err x \<and>
           (\<forall>wake answer. wait_record ctx wake (Some r) (ic_store c') = Some answer \<longrightarrow>
              answer = ((id_Response x)\<lparr>rv_IdempotencyKey := id_Key x, rv_FinalityPending := True\<rparr>, None))) \<or>
        (id_State y = Completed \<and> rv_CommitStatus (id_Response y) \<noteq> [] \<and> \<not> rv_FinalityPending (id_Response y) \<and>
           (\<forall>wake answer. wait_record ctx wake (Some r) (ic_store c') = Some answer \<longrightarrow>
              answer = ((id_Response y)\<lparr>rv_IdempotencyKey := id_Key x\<rparr>, id_Err y)))))"
proof -
  have e: "evolves x y" and "idem_reachable lib c'" and l: "live_ref c' r"
    using idem_steps_evolve [OF assms(2,1,3)] assms(4,5) by simp_all
  then have ok: "record_ok (ic_phase c' r) y" "record_ok (ic_phase c r) x"
    using inv_at reachable_inv assms(1,3,4,5) by blast+
  have answers: "\<exists>err. answer = waitResult r err (ic_store c')"
    if "wait_record ctx wake (Some r) (ic_store c') = Some answer" for wake answer
    using that by (cases wake) (auto simp: wait_record_def split: if_splits option.splits)
  have settled: "waitResult r err (ic_store c') =
      (if id_State y = Submitted then ((id_Response y)\<lparr>rv_IdempotencyKey := id_Key y, rv_FinalityPending := True\<rparr>, None)
       else ((id_Response y)\<lparr>rv_IdempotencyKey := id_Key y\<rparr>, id_Err y))"
    if "finished y \<or> id_State y = Submitted" for err
    using that assms(5) by (auto simp: waitResult_def Let_def)
  show ?thesis
  proof (intro conjI impI)
    assume "finished x"
    then have same: "finished y" "id_State y \<noteq> Submitted" "id_Response y = id_Response x" "id_Err y = id_Err x"
      "id_Key y = id_Key x" using e by (auto simp: evolves_def finished_def)
    with ok assms(5) show "wait_record ctx WakeDone (Some r) (ic_store c') \<noteq> None"
      by (simp add: wait_record_def record_ok_def)
    show "\<forall>wake answer. wait_record ctx wake (Some r) (ic_store c') = Some answer \<longrightarrow>
        answer = ((id_Response x)\<lparr>rv_IdempotencyKey := id_Key x\<rparr>, id_Err x)"
      using answers settled same by fastforce
  next
    assume sub: "id_State x = Submitted"
    with ok e assms(5) show "wait_record ctx WakeSubmitted (Some r) (ic_store c') \<noteq> None"
      by (simp add: wait_record_def record_ok_def evolves_def)
    from sub e have key: "id_Key y = id_Key x"
      and "(id_State y = Submitted \<and> id_Response y = id_Response x \<and> id_Err y = id_Err x) \<or>
        (id_State y = Completed \<and> rv_CommitStatus (id_Response y) \<noteq> [] \<and> \<not> rv_FinalityPending (id_Response y))"
      by (auto simp: evolves_def)
    then consider (kept) "id_State y = Submitted" "id_Response y = id_Response x" "id_Err y = id_Err x"
      | (final) "id_State y = Completed" "rv_CommitStatus (id_Response y) \<noteq> []" "\<not> rv_FinalityPending (id_Response y)"
      by blast
    then show "(id_State y = Submitted \<and> id_Response y = id_Response x \<and> id_Err y = id_Err x \<and>
           (\<forall>wake answer. wait_record ctx wake (Some r) (ic_store c') = Some answer \<longrightarrow>
              answer = ((id_Response x)\<lparr>rv_IdempotencyKey := id_Key x, rv_FinalityPending := True\<rparr>, None))) \<or>
        (id_State y = Completed \<and> rv_CommitStatus (id_Response y) \<noteq> [] \<and> \<not> rv_FinalityPending (id_Response y) \<and>
           (\<forall>wake answer. wait_record ctx wake (Some r) (ic_store c') = Some answer \<longrightarrow>
              answer = ((id_Response y)\<lparr>rv_IdempotencyKey := id_Key x\<rparr>, id_Err y)))"
    proof cases
      case kept
      with answers settled key show ?thesis by fastforce
    next
      case final
      then have "finished y" by (simp add: finished_def)
      with final answers settled key show ?thesis by fastforce
    qed
  qed
qed

subsection \<open>Runs\<close>

fun idem_run :: "proto_lib \<Rightarrow> idem_op list \<Rightarrow> idem_config \<Rightarrow> idem_config option" where
  "idem_run lib [] c = Some c"
| "idem_run lib (oper # opers) c =
     (if idem_allowed oper c
      then case idem_apply lib oper c of None \<Rightarrow> None | Some c' \<Rightarrow> idem_run lib opers c'
      else None)"

lemma idem_run_steps: "idem_run lib opers c = Some c' \<Longrightarrow> rtranclp (idem_step lib) c c'"
proof (induction opers arbitrary: c)
  case (Cons oper opers)
  then obtain c1 where "idem_allowed oper c" "idem_apply lib oper c = Some c1" "idem_run lib opers c1 = Some c'"
    by (auto split: if_splits option.splits)
  with Cons.IH show ?case by (metis converse_rtranclp_into_rtranclp idem_step.step)
qed simp

lemma steps_reachable: "rtranclp (idem_step lib) c c' \<Longrightarrow> idem_reachable lib c \<Longrightarrow> idem_reachable lib c'"
  by (induction rule: rtranclp_induct) (auto intro: idem_reachable.more)

lemma idem_run_reachable: "idem_run lib opers idem_start = Some c \<Longrightarrow> idem_reachable lib c"
  using idem_run_steps steps_reachable idem_reachable.start by blast

definition no_proto :: proto_lib where
  "no_proto = \<lparr>pl_Tx = (\<lambda>_. None), pl_Metadata = (\<lambda>_. None), pl_Envelope = (\<lambda>_. None), pl_Payload = (\<lambda>_. None),
     pl_Header = (\<lambda>_. None), pl_ChannelHeader = (\<lambda>_. None), pl_SignatureHeader = (\<lambda>_. None),
     pl_HeaderExtension = (\<lambda>_. None), pl_Proposal = (\<lambda>_. None), pl_ProposalPayload = (\<lambda>_. None),
     pl_InvocationSpec = (\<lambda>_. None), pl_Identity = (\<lambda>_. None)\<rparr>"

text \<open>A request that ran, and the same after submission, and after its final status.\<close>

definition sample_ran :: idem_config where
  "sample_ran = the (idem_run no_proto [OpBegin ''k'' ''d'' 1, OpExecuted 0 ''tx'' 2] idem_start)"

definition sample_submitted :: idem_config where
  "sample_submitted =
     the (idem_run no_proto [OpSubmission 0 emptyResponse emptyEndorsement None None 3] sample_ran)"

definition sample_final :: idem_config where
  "sample_final =
     the (idem_run no_proto [OpConfirm 0 (emptyResponse\<lparr>rv_CommitStatus := ''COMMITTED''\<rparr>) None 4] sample_submitted)"

lemmas sample_run_defs = sample_ran_def sample_submitted_def sample_final_def idem_start_def
  newIdempotencyStore_def begin_record_def newRecord_def markExecuted_def markSubmission_def confirmFinality_def
  with_store_def set_phase_def set_rec_def remove_record_def live_ref_def finished_def eventFromEndorsement_def
  emptyEndorsement_def

lemma sample_runs:
  "idem_run no_proto [OpBegin ''k'' ''d'' 1, OpExecuted 0 ''tx'' 2] idem_start = Some sample_ran"
  "idem_run no_proto [OpSubmission 0 emptyResponse emptyEndorsement None None 3] sample_ran = Some sample_submitted"
  "idem_run no_proto [OpConfirm 0 (emptyResponse\<lparr>rv_CommitStatus := ''COMMITTED''\<rparr>) None 4] sample_submitted
     = Some sample_final"
  by (simp_all add: sample_run_defs)

lemma sample_reachable: "idem_reachable no_proto sample_ran" "idem_reachable no_proto sample_submitted"
  using idem_run_reachable [OF sample_runs(1)] idem_run_steps [OF sample_runs(2)] steps_reachable by blast+

theorem idempotency_never_panics_witness:
  "\<exists>c'. idem_apply no_proto (OpComplete 0 emptyResponse None 3) sample_ran = Some c' \<and> idem_reachable no_proto c'"
  using idempotency_never_panics [OF sample_reachable(1), of "OpComplete 0 emptyResponse None 3"]
  by (simp add: sample_run_defs)

theorem one_execution_per_key_witness:
  "fst (begin_record ''k'' ''d'' 9 (ic_store sample_submitted)) = Inr (0, False)"
proof -
  obtain res s' where b: "begin_record ''k'' ''d'' 9 (ic_store sample_submitted) = (res, s')" by fastforce
  have "\<exists>r < length (is_heap (ic_store sample_submitted)).
      id_Key (rec_at (ic_store sample_submitted) r) = ''k'' \<and> \<not> finished (rec_at (ic_store sample_submitted) r)"
    by (simp add: sample_run_defs)
  moreover have "r < length (is_heap (ic_store sample_submitted)) \<Longrightarrow>
      r = 0 \<and> id_Digest (rec_at (ic_store sample_submitted) r) = ''d''" for r by (simp add: sample_run_defs)
  ultimately show ?thesis
    using one_execution_per_key [OF sample_reachable(2) refl _ _ b] b by (auto split: if_splits)
qed

text \<open>Waits whose context is cancelled: after the submission, and after the final status.\<close>

theorem outcome_is_final_witness:
  "(\<exists>answer. wait_record (Some Canceled) WakeContext (Some 0) (ic_store sample_submitted) = Some answer \<and>
      snd answer = None \<and> rv_FinalityPending (fst answer)) \<and>
   (\<exists>answer. wait_record (Some Canceled) WakeContext (Some 0) (ic_store sample_final) = Some answer \<and>
      snd answer = None \<and> rv_CommitStatus (fst answer) = ''COMMITTED'')"
proof -
  have live: "live_ref sample_submitted 0" and sub: "id_State (rec_at (ic_store sample_submitted) 0) = Submitted"
    and final: "id_State (rec_at (ic_store sample_final) 0) = Completed" "id_Err (rec_at (ic_store sample_final) 0) = None"
    and status: "rv_CommitStatus (id_Response (rec_at (ic_store sample_final) 0)) = ''COMMITTED''"
    by (simp_all add: sample_run_defs)
  obtain a1 where a1: "wait_record (Some Canceled) WakeContext (Some 0) (ic_store sample_submitted) = Some a1"
    by (simp add: wait_record_def)
  obtain a2 where a2: "wait_record (Some Canceled) WakeContext (Some 0) (ic_store sample_final) = Some a2"
    by (simp add: wait_record_def)
  let ?x = "rec_at (ic_store sample_submitted) 0" and ?y = "rec_at (ic_store sample_final) 0"
  have "a1 = ((id_Response ?x)\<lparr>rv_IdempotencyKey := id_Key ?x, rv_FinalityPending := True\<rparr>, None)"
    using outcome_is_final [OF sample_reachable(2) rtranclp.rtrancl_refl live refl refl, of "Some Canceled",
        THEN conjunct2, THEN mp, OF sub, THEN conjunct2]
  proof (elim disjE conjE)
    assume "id_State ?x = Completed"
    with sub show ?thesis by simp
  qed (use a1 in blast)
  moreover have "a2 = ((id_Response ?y)\<lparr>rv_IdempotencyKey := id_Key ?x\<rparr>, id_Err ?y)"
    using outcome_is_final [OF sample_reachable(2) idem_run_steps [OF sample_runs(3)] live refl refl, of "Some Canceled",
        THEN conjunct2, THEN mp, OF sub, THEN conjunct2]
  proof (elim disjE conjE)
    assume "id_State ?y = Submitted"
    with final show ?thesis by simp
  qed (use a2 in blast)
  ultimately show ?thesis using a1 a2 final(2) status by simp
qed

end
