(* ===== verification/Proposal_Auth.thy ===== *)
theory Proposal_Auth
  imports Invocation_State
begin

section \<open>Admission of client requests\<close>

text \<open>
  \<open>orchestrator/proposal_auth.go\<close>: the verifier built from the trusted MSPs and the authorization
  rules, the authentication of signed proposals, and the admission of the Gateway calls Evaluate,
  Endorse, Submit, CommitStatus and ChaincodeEvents.  The SDK's proposal parser and the generated
  decoders of the Gateway messages are parameters.  The property: an invocation admitted from the
  Gateway was signed by a valid identity of a trusted MSP that some rule permits, and runs with the
  signed transaction, creator and arguments under the active definition.
\<close>

record 'id proposalPermission =
  pm_chaincode :: string
  pm_namespace :: string
  pm_policy :: "'id list \<Rightarrow> bool"

record 'id proposalVerifier =
  vr_trust :: "Verifier option"
  vr_rules :: "'id proposalPermission list"
  vr_statusPolicy :: "('id list \<Rightarrow> bool) option"
  vr_eventPolicy :: "('id list \<Rightarrow> bool) option"

datatype verifier_error =
    InvalidProposalAuth "string list"
  | VerifierTrust msp_error
  | CompileReaderPolicy msp_error
  | CompileRule msp_error

definition compileReader ::
  "'id msp_lib \<Rightarrow> Verifier \<Rightarrow> string \<Rightarrow> verifier_error + ('id list \<Rightarrow> bool) option" where
  "compileReader lib trust expression =
     (if expression = [] then Inr None
      else rbind (map_error CompileReaderPolicy (CompilePolicy lib (Some trust) expression)) (\<lambda>p. Inr (Some p)))"

fun compileRules ::
  "'id msp_lib \<Rightarrow> Verifier \<Rightarrow> ProposalAuthorizationRule list \<Rightarrow> verifier_error + 'id proposalPermission list" where
  "compileRules lib trust [] = Inr []"
| "compileRules lib trust (rule # rules) =
     rbind (map_error CompileRule (CompilePolicy lib (Some trust) (ru_Policy rule))) (\<lambda>policy.
     rbind (compileRules lib trust rules) (\<lambda>rest.
     Inr (\<lparr>pm_chaincode = ru_Chaincode rule, pm_namespace = ru_Namespace rule, pm_policy = policy\<rparr> # rest)))"

definition newProposalVerifier ::
  "'id msp_lib \<Rightarrow> ProposalAuthConfig \<Rightarrow> verifier_error + 'id proposalVerifier" where
  "newProposalVerifier lib cfg =
     (if ProposalAuth_validate cfg \<noteq> [] then Inl (InvalidProposalAuth (ProposalAuth_validate cfg))
      else rbind (map_error VerifierTrust (NewVerifier lib (pa_MSPs cfg))) (\<lambda>trust.
           rbind (compileReader lib trust (pa_CommitStatusPolicy cfg)) (\<lambda>statusPolicy.
           rbind (compileReader lib trust (pa_ChaincodeEventsPolicy cfg)) (\<lambda>eventPolicy.
           rbind (compileRules lib trust (pa_Rules cfg)) (\<lambda>rules.
           Inr \<lparr>vr_trust = Some trust, vr_rules = rules, vr_statusPolicy = statusPolicy,
                vr_eventPolicy = eventPolicy\<rparr>)))))"

subsection \<open>Authentication and authorization\<close>

definition Unauthenticated :: "msp_error + 'a \<Rightarrow> orch_error + 'a" where
  "Unauthenticated = map_error (\<lambda>_. StatusError CodeUnauthenticated ''authenticate'')"

definition Invalid :: "orch_error + 'a \<Rightarrow> orch_error + 'a" where
  "Invalid = map_error (\<lambda>_. StatusError CodeInvalidArgument ''invalid'')"

definition authenticate ::
  "'id msp_lib \<Rightarrow> 'id proposalVerifier option \<Rightarrow> SignedProposal option \<Rightarrow> bytes \<Rightarrow> int \<Rightarrow> orch_error + 'id" where
  "authenticate lib v prop creator now =
     (case v of
        None \<Rightarrow> Inl (Plain ''proposal authentication is not configured'')
      | Some vr \<Rightarrow>
          (case prop of
             None \<Rightarrow> Inl (Plain ''signed client proposal and signature are required'')
           | Some p \<Rightarrow>
               (if sp_ProposalBytes p = [] \<or> sp_Signature p = []
                then Inl (Plain ''signed client proposal and signature are required'')
                else map_error (\<lambda>_. Plain ''authenticate'')
                  (Authenticate lib (vr_trust vr) creator (sp_ProposalBytes p) (sp_Signature p) now))))"

definition rulePermits :: "'id \<Rightarrow> string \<Rightarrow> string \<Rightarrow> 'id proposalPermission \<Rightarrow> bool" where
  "rulePermits identity chaincode namespace rule \<longleftrightarrow>
     (pm_chaincode rule = ''*'' \<or> pm_chaincode rule = chaincode) \<and>
     (pm_namespace rule = ''*'' \<or> pm_namespace rule = namespace) \<and> pm_policy rule [identity]"

definition authorizeProposal ::
  "'id proposalVerifier option \<Rightarrow> 'id option \<Rightarrow> string \<Rightarrow> string \<Rightarrow> orch_error + unit" where
  "authorizeProposal v identity chaincode namespace =
     (case (v, identity) of
        (Some vr, Some ident) \<Rightarrow>
          guard (list_ex (rulePermits ident chaincode namespace) (vr_rules vr))
            (Plain ''proposal creator is not authorized'')
      | _ \<Rightarrow> Inl (Plain ''authenticated proposal creator is required''))"

type_synonym proposal_parser = "SignedProposal \<Rightarrow> int \<Rightarrow> (orch_error + Invocation)"

text \<open>The header's extension must name the chaincode of the payload.\<close>

definition headerMatches :: "proto_lib \<Rightarrow> Invocation \<Rightarrow> orch_error + unit" where
  "headerMatches plib iv =
     rbind (require (StatusError CodeInvalidArgument ''proposal'') (iv_Proposal iv)) (\<lambda>p.
     rbind (require (StatusError CodeInvalidArgument ''header'') (pl_Header plib (pp_Header p))) (\<lambda>hdr.
     rbind (require (StatusError CodeInvalidArgument ''channel header'') (pl_ChannelHeader plib hdr)) (\<lambda>chdr.
     rbind (require (StatusError CodeInvalidArgument ''invalid chaincode header extension'')
              (pl_HeaderExtension plib (ch_Extension chdr))) (\<lambda>ext.
     guard (ext = Some (iv_Namespace iv, iv_ChaincodeVersion iv))
       (StatusError CodeInvalidArgument ''chaincode header and proposal payload differ'')))))"

definition authenticateClientProposal ::
  "'id msp_lib \<Rightarrow> proto_lib \<Rightarrow> proposal_parser \<Rightarrow> Config \<Rightarrow> 'id proposalVerifier option
    \<Rightarrow> SignedProposal option \<Rightarrow> int \<Rightarrow> orch_error + Invocation \<times> 'id" where
  "authenticateClientProposal lib plib parse cfg v prop now =
     (case prop of
        None \<Rightarrow> Inl (StatusError CodeInvalidArgument ''client proposal is required'')
      | Some p \<Rightarrow>
          (if sp_ProposalBytes p = [] then Inl (StatusError CodeInvalidArgument ''client proposal is required'')
           else rbind (Invalid (parse p now)) (\<lambda>iv.
             if iv_Channel iv \<noteq> cf_ChannelID cfg then Inl (StatusError CodeInvalidArgument ''channel'')
             else rbind (map_error (\<lambda>_. StatusError CodeUnauthenticated ''authenticate'')
                          (authenticate lib v (Some p) (iv_Creator iv) now)) (\<lambda>identity.
                  rbind (headerMatches plib iv) (\<lambda>_. Inr (iv, identity))))))"

definition authorizeClientInvocation ::
  "Config \<Rightarrow> 'id proposalVerifier option \<Rightarrow> Invocation \<times> 'id \<Rightarrow> SignedProposal option \<Rightarrow> InvocationRequest
    \<Rightarrow> orch_error + InvocationRequest" where
  "authorizeClientInvocation cfg v proposal original req =
     (let iv = fst proposal;
          req1 = req\<lparr>ir_ClientTxID := iv_TxID iv, ir_ClientCreator := iv_Creator iv, ir_ClientNonce := iv_Nonce iv,
                     ir_ClientSignedProposal := original\<rparr> in
      rbind (Invalid (prepareInvocation cfg req1)) (\<lambda>(namespace, _).
      rbind (map_error (\<lambda>_. StatusError CodePermissionDenied ''authorize'')
               (authorizeProposal v (Some (snd proposal)) (ir_ChaincodeName req1) namespace)) (\<lambda>_.
      Inr (req1\<lparr>ir_Namespace := namespace\<rparr>))))"

subsection \<open>Gateway Evaluate and Endorse\<close>

definition gatewayInvocation ::
  "'id msp_lib \<Rightarrow> proto_lib \<Rightarrow> proposal_parser \<Rightarrow> Config \<Rightarrow> 'id proposalVerifier option \<Rightarrow> Store option
    \<Rightarrow> ctx \<Rightarrow> string \<Rightarrow> string \<Rightarrow> SignedProposal option \<Rightarrow> int \<Rightarrow> orch_error + InvocationRequest" where
  "gatewayInvocation lib plib parse cfg v store ctx channelID txID sprop now =
     rbind (authenticateClientProposal lib plib parse cfg v sprop now) (\<lambda>(iv, identity).
     if channelID \<noteq> iv_Channel iv \<or> txID \<noteq> iv_TxID iv
     then Inl (StatusError CodeInvalidArgument ''Gateway channel and transaction ID must match the signed proposal'')
     else rbind (Invalid (requestFromProposal plib iv)) (\<lambda>req0.
          rbind (Invalid (gatewayChaincodeRoute (iv_Namespace iv))) (\<lambda>(chaincode, namespace).
          rbind (authorizeClientInvocation cfg v (iv, identity) sprop
                   (req0\<lparr>ir_ChaincodeName := chaincode, ir_Namespace := namespace\<rparr>)) (\<lambda>req1.
          rbind (map_error (invocationRPCError ctx) (selectLifecycleDefinition ctx store req1)) (\<lambda>req.
          if ir_definition req = None
          then Inl (StatusError CodeNotFound ''chaincode has no committed definition'')
          else Inr req)))))"

subsection \<open>Submit\<close>

record SubmitRequest =
  sb_ChannelId :: string
  sb_TransactionId :: string
  sb_Prepared :: "(bytes \<times> bytes) option"

text \<open>The prepared transaction is the payload and signature of its envelope.\<close>

definition authenticateGatewayTransaction ::
  "'id msp_lib \<Rightarrow> proto_lib \<Rightarrow> Config \<Rightarrow> 'id proposalVerifier option \<Rightarrow> SubmitRequest option \<Rightarrow> int
    \<Rightarrow> orch_error + 'id" where
  "authenticateGatewayTransaction lib plib cfg v request now =
     (case request of
        None \<Rightarrow> Inl (StatusError CodeInvalidArgument ''a prepared transaction is required'')
      | Some r \<Rightarrow>
          (case sb_Prepared r of
             None \<Rightarrow> Inl (StatusError CodeInvalidArgument ''a prepared transaction is required'')
           | Some (payload, signature) \<Rightarrow>
               (if payload = [] then Inl (StatusError CodeInvalidArgument ''a prepared transaction is required'')
                else if signature = [] then Inl (StatusError CodeInvalidArgument ''prepared transaction must be signed'')
                else
                  rbind (require (StatusError CodeInvalidArgument ''invalid prepared envelope payload'')
                    (case pl_Payload plib payload of None \<Rightarrow> None
                     | Some p \<Rightarrow> map_option (Pair p) (ep_ChannelHeader p))) (\<lambda>(p, headerBytes).
                  rbind (require (StatusError CodeInvalidArgument ''invalid prepared channel header'')
                    (pl_ChannelHeader plib headerBytes)) (\<lambda>channel.
                  if ch_ChannelId channel \<noteq> cf_ChannelID cfg \<or> sb_ChannelId r \<noteq> ch_ChannelId channel \<or>
                     sb_TransactionId r \<noteq> ch_TxId channel
                  then Inl (StatusError CodeInvalidArgument ''Submit channel and transaction ID must match'')
                  else
                    rbind (require (StatusError CodeInvalidArgument ''invalid prepared signature header'')
                      (pl_SignatureHeader plib (ep_SignatureHeader p))) (\<lambda>creator.
                    case v of
                      None \<Rightarrow> Inl (StatusError CodeUnauthenticated ''client authentication is not configured'')
                    | Some vr \<Rightarrow> Unauthenticated (Authenticate lib (vr_trust vr) creator payload signature now)))))))"

subsection \<open>Readers\<close>

record CommitStatusRequest =
  sr_TransactionId :: string
  sr_ReadChannel :: string
  sr_ReadIdentity :: bytes

datatype seek_position = SeekUnset | SeekNextCommit | SeekSpecified u64 | SeekOther

record EventsRequest =
  er_ChannelId :: string
  er_ChaincodeId :: string
  er_StartPosition :: seek_position
  er_AfterTransactionId :: string
  er_Identity :: bytes

record gateway_lib =
  gl_CommitStatus :: "bytes \<Rightarrow> CommitStatusRequest option"
  gl_Events :: "bytes \<Rightarrow> EventsRequest option"

definition authenticateGatewayReader ::
  "'id msp_lib \<Rightarrow> Config \<Rightarrow> 'id proposalVerifier option \<Rightarrow> string \<Rightarrow> bytes \<Rightarrow> bytes \<Rightarrow> bytes \<Rightarrow> int
    \<Rightarrow> orch_error + 'id" where
  "authenticateGatewayReader lib cfg v channel creator request signature now =
     (if channel = [] \<or> channel \<noteq> cf_ChannelID cfg then Inl (StatusError CodeInvalidArgument ''channel'')
      else if creator = [] then Inl (StatusError CodeInvalidArgument ''reader identity is required'')
      else case v of
        None \<Rightarrow> Inl (StatusError CodeUnauthenticated ''client authentication is not configured'')
      | Some vr \<Rightarrow>
          (if vr_trust vr = None then Inl (StatusError CodeUnauthenticated ''client authentication is not configured'')
           else Unauthenticated (Authenticate lib (vr_trust vr) creator request signature now)))"

text \<open>A reader policy that is not configured admits every authenticated reader.\<close>

definition readerPermitted :: "('id list \<Rightarrow> bool) option \<Rightarrow> 'id \<Rightarrow> orch_error + unit" where
  "readerPermitted policy identity =
     (case policy of
        None \<Rightarrow> Inr ()
      | Some p \<Rightarrow> guard (p [identity]) (StatusError CodePermissionDenied ''requestor is not authorized''))"

definition authenticateGatewayCommitStatus ::
  "'id msp_lib \<Rightarrow> gateway_lib \<Rightarrow> Config \<Rightarrow> 'id proposalVerifier option \<Rightarrow> (bytes \<times> bytes) option \<Rightarrow> int
    \<Rightarrow> orch_error + CommitStatusRequest" where
  "authenticateGatewayCommitStatus lib glib cfg v sprop now =
     (case sprop of
        None \<Rightarrow> Inl (StatusError CodeInvalidArgument ''a signed commit status request is required'')
      | Some (raw, signature) \<Rightarrow>
          (if raw = [] \<or> signature = []
           then Inl (StatusError CodeInvalidArgument ''a signed commit status request is required'')
           else
             rbind (require (StatusError CodeInvalidArgument ''invalid commit status request'') (gl_CommitStatus glib raw))
               (\<lambda>request.
             if sr_TransactionId request = [] \<or> untrimmed (sr_TransactionId request) \<or> sr_ReadIdentity request = []
             then Inl (StatusError CodeInvalidArgument ''transaction ID and requestor identity are required'')
             else
               rbind (authenticateGatewayReader lib cfg v (sr_ReadChannel request) (sr_ReadIdentity request) raw signature now)
                 (\<lambda>identity.
               rbind (readerPermitted (case v of None \<Rightarrow> None | Some vr \<Rightarrow> vr_statusPolicy vr) identity) (\<lambda>_.
               Inr request)))))"

definition authenticateGatewayChaincodeEvents ::
  "'id msp_lib \<Rightarrow> gateway_lib \<Rightarrow> Config \<Rightarrow> 'id proposalVerifier option \<Rightarrow> (bytes \<times> bytes) option \<Rightarrow> int
    \<Rightarrow> orch_error + EventsRequest" where
  "authenticateGatewayChaincodeEvents lib glib cfg v sprop now =
     (case sprop of
        None \<Rightarrow> Inl (StatusError CodeInvalidArgument ''a signed chaincode events request is required'')
      | Some (raw, signature) \<Rightarrow>
          (if raw = [] \<or> signature = []
           then Inl (StatusError CodeInvalidArgument ''a signed chaincode events request is required'')
           else
             rbind (require (StatusError CodeInvalidArgument ''invalid chaincode events request'') (gl_Events glib raw))
               (\<lambda>request.
             rbind (Invalid (gatewayChaincodeRoute (er_ChaincodeId request))) (\<lambda>_.
             if er_StartPosition request = SeekOther
             then Inl (StatusError CodeInvalidArgument ''event start position must be next commit or a specified block'')
             else if untrimmed (er_AfterTransactionId request)
             then Inl (StatusError CodeInvalidArgument ''invalid checkpoint transaction ID'')
             else
               rbind (authenticateGatewayReader lib cfg v (er_ChannelId request) (er_Identity request) raw signature now)
                 (\<lambda>identity.
               rbind (readerPermitted (case v of None \<Rightarrow> None | Some vr \<Rightarrow> vr_eventPolicy vr) identity) (\<lambda>_.
               Inr request))))))"

subsection \<open>What admission guarantees\<close>

lemma requestFromProposal_args:
  "requestFromProposal plib iv = Inr r \<Longrightarrow> ir_Function r # ir_Args r = iv_Args iv \<and> ir_Function r \<noteq> []"
  by (auto simp: requestFromProposal_def rbind_Inr_iff Let_def emptyRequest_def
      split: list.splits if_splits option.splits)

lemma select_Inr:
  assumes "selectLifecycleDefinition ctx (Some s) r = Inr r'" and "ir_ChaincodeName r \<noteq> []"
    and "ir_definition r' \<noteq> None" and "ir_definition r = None"
  shows "\<exists>c. active s (ir_ChaincodeName r) = Some c \<and> r' = r\<lparr>ir_definition := Some c,
    ir_ChaincodeVersion := cd_Version (cm_Definition c)\<rparr>"
  using assms by (auto simp: selectLifecycleDefinition_def rbind_Inr_iff dest!: GetCommitted_Inr split: option.splits)

lemma authenticateClientProposal_ok:
  assumes "authenticateClientProposal lib plib parse cfg v prop now = Inr (iv, identity)"
  shows "\<exists>p vr. prop = Some p \<and> v = Some vr \<and> parse p now = Inr iv \<and> iv_Channel iv = cf_ChannelID cfg \<and>
    Authenticate lib (vr_trust vr) (iv_Creator iv) (sp_ProposalBytes p) (sp_Signature p) now = Inr identity \<and>
    headerMatches plib iv = Inr ()"
  using assms
  by (auto simp: authenticateClientProposal_def authenticate_def Invalid_def rbind_Inr_iff
      split: option.splits if_splits)

lemma authorizeClientInvocation_ok:
  assumes "authorizeClientInvocation cfg v (iv, identity) original req = Inr req'"
  shows "\<exists>vr rule ns. v = Some vr \<and> rule \<in> set (vr_rules vr) \<and> rulePermits identity (ir_ChaincodeName req) ns rule \<and>
    ns = (if ir_Namespace req = [] then cf_Namespace cfg else ir_Namespace req) \<and> ns \<noteq> [] \<and>
    req' = req\<lparr>ir_ClientTxID := iv_TxID iv, ir_ClientCreator := iv_Creator iv, ir_ClientNonce := iv_Nonce iv,
      ir_ClientSignedProposal := original, ir_Namespace := ns\<rparr>"
  using assms
  by (auto simp: authorizeClientInvocation_def Let_def Invalid_def rbind_Inr_iff authorizeProposal_def
      prepareInvocation_def list_ex_iff split: option.splits if_splits)

text \<open>C12: a Gateway invocation is admitted only if its creator, a currently valid identity of a trusted MSP, signed
  exactly these proposal bytes and some rule permits that identity on the signed chaincode and
  namespace; the request then carries the signed transaction ID, creator, nonce, function and
  arguments verbatim and runs under the chaincode's active definition.\<close>

theorem gateway_admission:
  assumes "gatewayInvocation lib plib parse cfg v (Some s) ctx channelID txID (Some p) now = Inr req"
  shows "\<exists>iv identity vr rule cc ns.
    parse p now = Inr iv \<and> v = Some vr \<and> iv_Channel iv = cf_ChannelID cfg \<and> channelID = iv_Channel iv \<and>
    txID = iv_TxID iv \<and> iv_Namespace iv = cc @ CHR '':'' # ns \<and>
    Identity lib (vr_trust vr) (iv_Creator iv) now = Inr identity \<and>
    ml_Verify lib identity (sp_ProposalBytes p) (sp_Signature p) \<and>
    rule \<in> set (vr_rules vr) \<and> rulePermits identity cc ns rule \<and>
    ir_ChaincodeName req = cc \<and> ir_Namespace req = ns \<and> ir_ClientTxID req = iv_TxID iv \<and>
    ir_ClientCreator req = iv_Creator iv \<and> ir_ClientNonce req = iv_Nonce iv \<and>
    ir_ClientSignedProposal req = Some p \<and> ir_Function req # ir_Args req = iv_Args iv \<and>
    ir_definition req = active s cc \<and> active s cc \<noteq> None"
proof -
  obtain iv identity req0 cc ns req1 where
    auth: "authenticateClientProposal lib plib parse cfg v (Some p) now = Inr (iv, identity)" and
    ids: "channelID = iv_Channel iv" "txID = iv_TxID iv" and
    req0: "requestFromProposal plib iv = Inr req0" and
    route: "gatewayChaincodeRoute (iv_Namespace iv) = Inr (cc, ns)" and
    req1: "authorizeClientInvocation cfg v (iv, identity) (Some p)
      (req0\<lparr>ir_ChaincodeName := cc, ir_Namespace := ns\<rparr>) = Inr req1" and
    sel: "selectLifecycleDefinition ctx (Some s) req1 = Inr req" and dn: "ir_definition req \<noteq> None"
    using assms by (auto simp: gatewayInvocation_def rbind_Inr_iff Invalid_def split: if_splits)
  have names: "iv_Namespace iv = cc @ CHR '':'' # ns" "cc \<noteq> []" "ns \<noteq> []"
    using route by (simp_all add: gatewayChaincodeRoute_iff)
  have fresh: "ir_definition req0 = None"
    using req0 by (auto simp: requestFromProposal_def rbind_Inr_iff Let_def emptyRequest_def
        split: list.splits if_splits option.splits)
  obtain vr rule where perm: "v = Some vr" "rule \<in> set (vr_rules vr)" "rulePermits identity cc ns rule" and
    r1: "req1 = req0\<lparr>ir_ChaincodeName := cc, ir_ClientTxID := iv_TxID iv, ir_ClientCreator := iv_Creator iv,
      ir_ClientNonce := iv_Nonce iv, ir_ClientSignedProposal := Some p, ir_Namespace := ns\<rparr>"
    using authorizeClientInvocation_ok [OF req1] names by auto
  obtain c where "active s cc = Some c" and
    "req = req1\<lparr>ir_definition := Some c, ir_ChaincodeVersion := cd_Version (cm_Definition c)\<rparr>"
    using select_Inr [OF sel _ dn] names fresh r1 by auto
  then show ?thesis
    using authenticateClientProposal_ok [OF auth] ids names perm r1 requestFromProposal_args [OF req0]
    by (intro exI [of _ iv] exI [of _ identity] exI [of _ vr] exI [of _ rule] exI [of _ cc] exI [of _ ns])
      (auto simp: Authenticate_ok)
qed

text \<open>A configuration in which \<open>Org1\<close> may call the chaincode \<open>cc\<close> anywhere.\<close>

definition sample_verifier :: "string proposalVerifier" where
  "sample_verifier = \<lparr>vr_trust = au_trust sample_auth,
     vr_rules = [\<lparr>pm_chaincode = ''cc'', pm_namespace = ''*'', pm_policy = (\<lambda>ids. ''Org1'' \<in> set ids)\<rparr>],
     vr_statusPolicy = None, vr_eventPolicy = None\<rparr>"

definition sample_cfg :: Config where
  "sample_cfg = \<lparr>cf_ChannelID = ''ch'', cf_Namespace = [], cf_LifecycleNamespace = [], cf_Protocol = [],
     cf_ServerEmpty = None, cf_MspID = Some ''Org1'', cf_QueryService = \<lparr>cc_Endpoint = None, cc_TLS = \<lparr>tl_Mode = [],
       tl_CertPath = [], tl_KeyPath = [], tl_CACertPaths = [], tl_ServerName = []\<rparr>\<rparr>,
     cf_ChaincodeSvc = \<lparr>cc_Endpoint = None, cc_TLS = \<lparr>tl_Mode = [], tl_CertPath = [], tl_KeyPath = [],
       tl_CACertPaths = [], tl_ServerName = []\<rparr>\<rparr>, cf_Orderer = None, cf_NotificationSvc = None, cf_RemoteOrgs = [],
     cf_ProposalAuth = \<lparr>pa_MSPs = [], pa_Rules = [], pa_CommitStatusPolicy = [], pa_ChaincodeEventsPolicy = []\<rparr>,
     cf_LifecycleAuth = \<lparr>ac_Policies = [], ac_Orchestrators = []\<rparr>, cf_WaitAfterSubmit = 0, cf_RequestTimeout = 0,
     cf_FinalityTimeout = 0\<rparr>"

definition sample_proposal :: Proposal where
  "sample_proposal = \<lparr>pp_Header = ''h'', pp_Payload = ''p''\<rparr>"

definition sample_signed :: SignedProposal where
  "sample_signed = \<lparr>sp_ProposalBytes = ''bytes'', sp_Signature = ''Sbytes''\<rparr>"

definition sample_parse :: proposal_parser where
  "sample_parse p now = Inr \<lparr>iv_TxID = ''tx'', iv_Channel = ''ch'', iv_Namespace = ''cc:ns'',
     iv_ChaincodeVersion = ''1'', iv_Args = [''put'', ''k''], iv_Creator = ''Org1'', iv_Nonce = ''n'',
     iv_Proposal = Some sample_proposal\<rparr>"

definition sample_proto :: proto_lib where
  "sample_proto = \<lparr>pl_Tx = (\<lambda>_. None), pl_Metadata = (\<lambda>_. None), pl_Envelope = (\<lambda>_. None), pl_Payload = (\<lambda>_. None),
     pl_Header = Some, pl_ChannelHeader = (\<lambda>_. Some \<lparr>ch_Type = 3, ch_ChannelId = ''ch'', ch_TxId = ''tx'', ch_Extension = []\<rparr>),
     pl_SignatureHeader = Some, pl_HeaderExtension = (\<lambda>_. Some (Some (''cc:ns'', ''1''))),
     pl_Proposal = (\<lambda>_. Some sample_proposal), pl_ProposalPayload = (\<lambda>_. Some ([], ''i'')),
     pl_InvocationSpec = (\<lambda>_. Some \<lparr>cs_Id = None, cs_IsInit = Some False\<rparr>), pl_Identity = (\<lambda>_. None)\<rparr>"

lemma sample_route: "gatewayChaincodeRoute ''cc:ns'' = Inr (''cc'', ''ns'')"
  by code_simp

theorem gateway_admission_witness:
  "\<exists>req. gatewayInvocation sample_lib sample_proto sample_parse sample_cfg (Some sample_verifier) (Some gated_store)
       None ''ch'' ''tx'' (Some sample_signed) 10 = Inr req \<and>
     ir_definition req = active gated_store (ir_ChaincodeName req) \<and> ir_Args req = [''k'']"
proof -
  have "Identity sample_lib (vr_trust sample_verifier) ''Org1'' 10 = Inr ''Org1''"
    by (simp add: sample_verifier_def sample_Identity)
  moreover have "sp_ProposalBytes sample_signed = ''bytes''" "sp_Signature sample_signed = ''Sbytes''"
    by (simp_all add: sample_signed_def)
  ultimately have "authenticateClientProposal sample_lib sample_proto sample_parse sample_cfg (Some sample_verifier)
      (Some sample_signed) 10 = Inr (projr (sample_parse sample_signed 10), ''Org1'')"
    by (simp add: authenticateClientProposal_def authenticate_def sample_parse_def sample_cfg_def headerMatches_def
        sample_proto_def sample_lib_def Authenticate_def sample_proposal_def Invalid_def guard_def)
  moreover have "\<exists>c. GetCommitted None ''cc'' gated_store = Inr (Some c)"
    by (simp add: GetCommitted_def gated_store_def empty_store_def db_check_def)
  ultimately obtain req where
    g: "gatewayInvocation sample_lib sample_proto sample_parse sample_cfg (Some sample_verifier) (Some gated_store)
       None ''ch'' ''tx'' (Some sample_signed) 10 = Inr req"
    by (auto simp: gatewayInvocation_def sample_parse_def requestFromProposal_def sample_proto_def ProposalIsInit_def
        Let_def Invalid_def sample_route authorizeClientInvocation_def prepareInvocation_def invocationArgs_def
        emptyRequest_def authorizeProposal_def sample_verifier_def rulePermits_def selectLifecycleDefinition_def
        guard_def sample_proposal_def)
  then show ?thesis using gateway_admission [OF g] by (auto simp: sample_parse_def)
qed

end
