(* ===== verification/Lifecycle_Sync.thy ===== *)
theory Lifecycle_Sync
  imports Proposal_Auth
begin

section \<open>Reading, writing and replaying the lifecycle ledger\<close>

text \<open>
  The ledger side of \<open>orchestrator/lifecycle_ledger.go\<close> and all of \<open>lifecycle_sync.go\<close>: the rows of the
  lifecycle namespace, the transaction that appends a revision to the channel's index, and the replay
  of that index into a store.  The query service answers rows by namespace; proposals are created,
  parsed and endorsed by the SDK, which is a parameter.
\<close>

subsection \<open>Rows\<close>

type_synonym row_query = "string \<Rightarrow> string \<Rightarrow> orch_error + row_answer"

definition lifecycleRow :: "row_query \<Rightarrow> string \<Rightarrow> string \<Rightarrow> orch_error + (bytes \<times> u64) option" where
  "lifecycleRow q namespace key =
     rbind (q namespace key) (\<lambda>answer.
     Inr (findRow namespace key answer))"

definition lifecycleKeyVersion :: "row_query \<Rightarrow> string \<Rightarrow> string \<Rightarrow> orch_error + u64 option" where
  "lifecycleKeyVersion q namespace key =
     rbind (lifecycleRow q namespace key) (\<lambda>row. Inr (map_option snd row))"

definition ReadLifecycleDefinition ::
  "row_query \<Rightarrow> Config \<Rightarrow> ChaincodeDefinition \<Rightarrow> orch_error + LedgerDefinition option" where
  "ReadLifecycleDefinition q cfg def =
     rbind (lifecycleRow q (lifecycleNamespace cfg) (LedgerKey (cf_ChannelID cfg) (cd_Name def))) (\<lambda>row.
     case row of
       None \<Rightarrow> Inr None
     | Some (value, _) \<Rightarrow>
         rbind (map_error LedgerError (UnmarshalLedgerDefinition value)) (\<lambda>record.
         if ld_ChannelID record \<noteq> cf_ChannelID cfg then Inl (Plain ''lifecycle record belongs to another channel'')
         else Inr (Some record)))"

subsection \<open>The transaction of a revision\<close>

text \<open>The definition the ledger holds now, when it belongs to this channel and name.\<close>

definition currentRecord ::
  "Config \<Rightarrow> ChaincodeDefinition \<Rightarrow> (bytes \<times> u64) option \<Rightarrow> orch_error + LedgerDefinition option" where
  "currentRecord cfg def row =
     (case row of
        None \<Rightarrow> Inr None
      | Some (value, _) \<Rightarrow>
          rbind (map_error LedgerError (UnmarshalLedgerDefinition value)) (\<lambda>record.
          if ld_ChannelID record \<noteq> cf_ChannelID cfg \<or> ld_Name record \<noteq> cd_Name def
          then Inl (Plain ''lifecycle definition identity mismatch'')
          else if ld_Sequence record > cd_Sequence def
          then Inl (Wrapped ''next sequence follows active sequence'' LifecycleSuperseded)
          else Inr (Some record)))"

definition alreadyRecorded :: "LedgerDefinition option \<Rightarrow> ChaincodeDefinition \<Rightarrow> string \<Rightarrow> bool" where
  "alreadyRecorded current def eventType \<longleftrightarrow>
     (case current of
        None \<Rightarrow> False
      | Some record \<Rightarrow> ChaincodeDefinitionFromLedger record = def \<and>
          (eventType = LifecycleEventCommit \<or> ld_Initialized record))"

definition initializedFlag ::
  "LedgerDefinition option \<Rightarrow> ChaincodeDefinition \<Rightarrow> string \<Rightarrow> orch_error + bool" where
  "initializedFlag current def eventType =
     (let cur = map_option ChaincodeDefinitionFromLedger current in
      if eventType = LifecycleEventInitialized
      then (if cur \<noteq> Some def then Inl (Plain ''initialization marker does not match the active definition'')
            else Inr True)
      else rbind (map_error StoreError (ValidateNextSequence cur def)) (\<lambda>_. Inr (\<not> cd_InitRequired def)))"

definition readHighWatermark :: "row_query \<Rightarrow> Config \<Rightarrow> orch_error + u64 \<times> u64 option" where
  "readHighWatermark q cfg =
     rbind (map_error (Wrapped ''read lifecycle high watermark'')
       (lifecycleRow q (lifecycleNamespace cfg) (LifecycleHighWatermarkKey (cf_ChannelID cfg)))) (\<lambda>row.
     case row of
       None \<Rightarrow> Inr (0, None)
     | Some (value, version) \<Rightarrow>
         rbind (map_error (\<lambda>e. Wrapped ''decode lifecycle high watermark'' (LedgerError e))
           (UnmarshalLifecycleHighWatermark value)) (\<lambda>w. Inr (w, Some version)))"

text \<open>
  The read-write set of the transaction and the value it returns; \<open>None\<close> when the ledger already holds
  the revision.  Each key is read at the version it has now, a missing key as missing.
\<close>

definition lifecycleReadWriteSet ::
  "row_query \<Rightarrow> Config \<Rightarrow> ChaincodeDefinition \<Rightarrow> string \<Rightarrow> orch_error + (ReadWriteSet \<times> bytes) option" where
  "lifecycleReadWriteSet q cfg def eventType =
     (let namespace = lifecycleNamespace cfg; ch = cf_ChannelID cfg; key = LedgerKey ch (cd_Name def) in
      rbind (map_error (Wrapped ''read lifecycle key version'') (lifecycleRow q namespace key)) (\<lambda>row.
      rbind (currentRecord cfg def row) (\<lambda>current.
      if alreadyRecorded current def eventType then Inr None
      else
        rbind (initializedFlag current def eventType) (\<lambda>initialized.
        rbind (map_error LedgerError (MarshalLedgerDefinition ch def initialized)) (\<lambda>value.
        rbind (readHighWatermark q cfg) (\<lambda>(high, highVersion).
        rbind (map_error (Wrapped ''read lifecycle index key version'')
          (lifecycleKeyVersion q namespace (LifecycleIndexEntryKey ch (high + 1)))) (\<lambda>indexVersion.
        if indexVersion \<noteq> None then Inl (Plain ''lifecycle index key already exists'')
        else
          (let indexKey = LifecycleIndexEntryKey ch (high + 1);
               indexValue = MarshalLifecycleIndexEntry (NewLifecycleIndexEntry ch (high + 1) eventType def initialized) in
           Inr (Some (
             \<lparr>rw_Reads = [\<lparr>kr_Key = key, kr_Version = map_option snd row\<rparr>,
                          \<lparr>kr_Key = LifecycleHighWatermarkKey ch, kr_Version = highVersion\<rparr>,
                          \<lparr>kr_Key = indexKey, kr_Version = indexVersion\<rparr>],
              rw_Writes = [\<lparr>kw_Key = key, kw_Value = value, kw_IsDelete = False\<rparr>,
                           \<lparr>kw_Key = indexKey, kw_Value = indexValue, kw_IsDelete = False\<rparr>,
                           \<lparr>kw_Key = LifecycleHighWatermarkKey ch,
                             kw_Value = MarshalLifecycleHighWatermark (high + 1), kw_IsDelete = False\<rparr>]\<rparr>,
             value))))))))))"

record lifecycle_lib =
  ll_Proposal :: "string \<Rightarrow> string \<Rightarrow> bytes list \<Rightarrow> orch_error + SignedProposal"
  ll_Parse :: "SignedProposal \<Rightarrow> orch_error + Invocation"
  ll_Endorse :: "Invocation \<Rightarrow> ReadWriteSet \<Rightarrow> bytes \<Rightarrow> orch_error + ProposalResponse"

definition prepareLifecycleTransaction ::
  "lifecycle_lib \<Rightarrow> row_query \<Rightarrow> Config \<Rightarrow> ChaincodeDefinition \<Rightarrow> string \<Rightarrow> orch_error + Endorsement \<times> string" where
  "prepareLifecycleTransaction lib q cfg def eventType =
     rbind (lifecycleReadWriteSet q cfg def eventType) (\<lambda>r.
     case r of
       None \<Rightarrow> Inr (emptyEndorsement, [])
     | Some (rws, value) \<Rightarrow>
         rbind (map_error (Wrapped ''create lifecycle proposal'')
           (ll_Proposal lib (cf_ChannelID cfg) (lifecycleNamespace cfg)
             [''__lifecycle_commit'', cd_Name def, cd_Version def, FormatInt (cd_Sequence def)])) (\<lambda>prop.
         rbind (map_error (Wrapped ''parse lifecycle proposal'') (ll_Parse lib prop)) (\<lambda>iv.
         rbind (map_error (Wrapped ''endorse lifecycle transaction'') (ll_Endorse lib iv rws value)) (\<lambda>resp.
         Inr (\<lparr>en_Proposal = iv_Proposal iv, en_Responses = [Some resp]\<rparr>, iv_TxID iv)))))"

subsection \<open>Replaying the index\<close>

text \<open>One round of the loop: the definition an index entry points to.\<close>

definition indexedDefinition :: "row_query \<Rightarrow> Config \<Rightarrow> u64 \<Rightarrow> orch_error + LedgerDefinition" where
  "indexedDefinition q cfg i =
     (let namespace = lifecycleNamespace cfg; ch = cf_ChannelID cfg in
      rbind (map_error (Wrapped ''read lifecycle index entry'')
        (lifecycleRow q namespace (LifecycleIndexEntryKey ch i))) (\<lambda>row.
      rbind (require (Plain ''missing lifecycle index entry'') row) (\<lambda>(entryValue, _).
      rbind (map_error (\<lambda>e. Wrapped ''decode lifecycle index entry'' (LedgerError e))
        (UnmarshalLifecycleIndexEntry entryValue)) (\<lambda>entry.
      if le_ChannelID entry \<noteq> ch \<or> le_Number entry \<noteq> i then Inl (Plain ''lifecycle index identity mismatch'')
      else if le_DefinitionKey entry = [] then Inl (Plain ''lifecycle index entry missing definition key'')
      else
        rbind (map_error (Wrapped ''read lifecycle definition'')
          (lifecycleRow q namespace (le_DefinitionKey entry))) (\<lambda>drow.
        rbind (require (Plain ''missing lifecycle definition'') drow) (\<lambda>(defValue, _).
        rbind (map_error (\<lambda>e. Wrapped ''decode lifecycle definition'' (LedgerError e))
          (UnmarshalLedgerDefinition defValue)) (\<lambda>ledgerDef.
        if ld_ChannelID ledgerDef \<noteq> ch \<or> ld_Name ledgerDef \<noteq> le_Name entry
        then Inl (Plain ''lifecycle definition identity mismatch'')
        else Inr ledgerDef)))))))"

definition hydrateEntry ::
  "row_query \<Rightarrow> Config \<Rightarrow> ctx \<Rightarrow> string \<Rightarrow> u64 \<Rightarrow> Store \<Rightarrow> (orch_error + unit) \<times> Store" where
  "hydrateEntry q cfg ctx now i s =
     (case indexedDefinition q cfg i of
        Inl e \<Rightarrow> (Inl e, s)
      | Inr d \<Rightarrow>
          (case UpsertCommittedFromLedger ctx now (ChaincodeDefinitionFromLedger d) (ld_Initialized d) s of
             (Inl e, s') \<Rightarrow> (Inl (Wrapped ''hydrate lifecycle definition'' (StoreError e)), s')
           | (Inr _, s') \<Rightarrow> (Inr (), s')))"

text \<open>The loop over a \<open>uint64\<close> counter; \<open>None\<close> is a loop that never ends.\<close>

partial_function (option) syncLoop ::
  "row_query \<Rightarrow> Config \<Rightarrow> ctx \<Rightarrow> string \<Rightarrow> u64 \<Rightarrow> u64 \<Rightarrow> Store \<Rightarrow> ((orch_error + unit) \<times> Store) option" where
  "syncLoop q cfg ctx now high i s =
     (if i \<le> high
      then (case hydrateEntry q cfg ctx now i s of
              (Inl e, s') \<Rightarrow> Some (Inl e, s')
            | (Inr _, s') \<Rightarrow> syncLoop q cfg ctx now high (i + 1) s')
      else Some (Inr (), s))"

text \<open>\<open>query\<close> is \<open>None\<close> when no query service is configured.\<close>

definition syncLifecycleFromLedger ::
  "row_query option \<Rightarrow> Config \<Rightarrow> ctx \<Rightarrow> string \<Rightarrow> Store \<Rightarrow> ((orch_error + unit) \<times> Store) option" where
  "syncLifecycleFromLedger query cfg ctx now s =
     (case query of
        None \<Rightarrow> Some (Inr (), s)
      | Some q \<Rightarrow>
          (case lifecycleRow q (lifecycleNamespace cfg) (LifecycleHighWatermarkKey (cf_ChannelID cfg)) of
             Inl e \<Rightarrow> Some (Inl e, s)
           | Inr None \<Rightarrow> Some (Inr (), s)
           | Inr (Some (value, _)) \<Rightarrow>
               (case UnmarshalLifecycleHighWatermark value of
                  Inl e \<Rightarrow> Some (Inl (Wrapped ''decode lifecycle high watermark'' (LedgerError e)), s)
                | Inr high \<Rightarrow> syncLoop q cfg ctx now high 1 s)))"


subsection \<open>Termination\<close>

declare syncLoop.simps [code]

lemma syncLoop_step:
  "i \<le> high \<Longrightarrow> syncLoop q cfg ctx now high i s =
     (case hydrateEntry q cfg ctx now i s of
        (Inl e, s') \<Rightarrow> Some (Inl e, s') | (Inr _, s') \<Rightarrow> syncLoop q cfg ctx now high (i + 1) s')"
  "\<not> i \<le> high \<Longrightarrow> syncLoop q cfg ctx now high i s = Some (Inr (), s)"
  by (subst syncLoop.simps; simp)+

lemma next_index:
  fixes i :: u64
  assumes "i \<le> high" "high \<noteq> - 1"
  shows "unat (i + 1) = Suc (unat i)"
proof -
  have "i \<noteq> - 1" using assms word_order.extremum_uniqueI by auto
  then have "1 + i \<noteq> 0" using minus_unique[of 1 i] by metis
  then show ?thesis using unatSuc[of i] by (simp add: add.commute)
qed

lemma syncLoop_returns:
  assumes "high \<noteq> - 1"
  shows "\<exists>r. syncLoop q cfg ctx now high i s = Some r"
proof (induction "Suc (unat high) - unat i" arbitrary: i s rule: less_induct)
  case less
  show ?case
  proof (cases "i \<le> high")
    case True
    then have "Suc (unat high) - unat (i + 1) < Suc (unat high) - unat i"
      using next_index[OF True assms] by (simp add: word_le_nat_alt)
    then show ?thesis using less syncLoop_step(1)[OF True] by (auto split: prod.split sum.split)
  qed (simp add: syncLoop_step(2))
qed


subsection \<open>A well-formed ledger\<close>

text \<open>
  The rows of the lifecycle namespace as a map.  A ledger is indexed up to \<open>high\<close> when its high watermark
  is \<open>high\<close>, every index entry up to it names a stored definition of its channel, and every stored
  definition is named by one.
\<close>

type_synonym ledger_rows = "string \<rightharpoonup> bytes \<times> u64"

definition answers :: "row_query \<Rightarrow> Config \<Rightarrow> ledger_rows \<Rightarrow> bool" where
  "answers q cfg L \<longleftrightarrow> (\<forall>k. lifecycleRow q (lifecycleNamespace cfg) k = Inr (L k))"

definition ledgerRecord :: "string \<Rightarrow> ledger_rows \<Rightarrow> string \<Rightarrow> LedgerDefinition option" where
  "ledgerRecord ch L name =
     (case L (LedgerKey ch name) of
        None \<Rightarrow> None
      | Some (value, _) \<Rightarrow> (case UnmarshalLedgerDefinition value of Inl _ \<Rightarrow> None | Inr d \<Rightarrow> Some d))"

definition entryNames :: "string \<Rightarrow> ledger_rows \<Rightarrow> u64 \<Rightarrow> string \<Rightarrow> bool" where
  "entryNames ch L i name \<longleftrightarrow>
     (\<exists>value version entry d. L (LifecycleIndexEntryKey ch i) = Some (value, version) \<and>
        UnmarshalLifecycleIndexEntry value = Inr entry \<and> le_ChannelID entry = ch \<and> le_Number entry = i \<and>
        le_Name entry = name \<and> ledgerRecord ch L name = Some d \<and> ld_ChannelID d = ch \<and> ld_Name d = name)"

definition watermarkIs :: "string \<Rightarrow> ledger_rows \<Rightarrow> u64 \<Rightarrow> bool" where
  "watermarkIs ch L high \<longleftrightarrow>
     (case L (LifecycleHighWatermarkKey ch) of
        None \<Rightarrow> high = 0
      | Some (value, _) \<Rightarrow> UnmarshalLifecycleHighWatermark value = Inr high)"

definition indexed_ledger :: "string \<Rightarrow> ledger_rows \<Rightarrow> u64 \<Rightarrow> bool" where
  "indexed_ledger ch L high \<longleftrightarrow> watermarkIs ch L high \<and>
     (\<forall>i. 1 \<le> i \<and> i \<le> high \<longrightarrow> (\<exists>name. entryNames ch L i name)) \<and>
     (\<forall>name. L (LedgerKey ch name) \<noteq> None \<longrightarrow> (\<exists>i. 1 \<le> i \<and> i \<le> high \<and> entryNames ch L i name))"

lemma LedgerKey_nonempty: "LedgerKey c n \<noteq> []"
  by (simp add: LedgerKey_def channelKeyPrefix_def)

lemma UnmarshalLedger_valid:
  "UnmarshalLedgerDefinition value = Inr d \<Longrightarrow> valid_definition (ChaincodeDefinitionFromLedger d)"
  by (auto simp: UnmarshalLedgerDefinition_def valid_definition_def rbind_Inr_iff split: option.splits if_splits)

lemma UnmarshalEntry_key:
  "UnmarshalLifecycleIndexEntry value = Inr e \<Longrightarrow> le_DefinitionKey e = LedgerKey (le_ChannelID e) (le_Name e)"
  by (auto simp: UnmarshalLifecycleIndexEntry_def split: option.splits if_splits)

text \<open>The loop body reads exactly what an index entry names.\<close>

lemma indexedDefinition_reads:
  assumes "answers q cfg L" "entryNames (cf_ChannelID cfg) L i name"
  shows "\<exists>d. indexedDefinition q cfg i = Inr d \<and> ledgerRecord (cf_ChannelID cfg) L name = Some d \<and>
    ld_Name d = name \<and> valid_definition (ChaincodeDefinitionFromLedger d)"
proof -
  let ?ch = "cf_ChannelID cfg"
  obtain ev ver entry d where e: "L (LifecycleIndexEntryKey ?ch i) = Some (ev, ver)"
      "UnmarshalLifecycleIndexEntry ev = Inr entry" "le_ChannelID entry = ?ch" "le_Number entry = i"
      "le_Name entry = name" "ledgerRecord ?ch L name = Some d" "ld_ChannelID d = ?ch" "ld_Name d = name"
    using assms(2) unfolding entryNames_def by blast
  obtain v w where d: "L (LedgerKey ?ch name) = Some (v, w)" "UnmarshalLedgerDefinition v = Inr d"
    using e(6) by (auto simp: ledgerRecord_def split: option.splits sum.splits)
  have "le_DefinitionKey entry = LedgerKey ?ch name" using UnmarshalEntry_key[OF e(2)] e(3,5) by simp
  then have "indexedDefinition q cfg i = Inr d"
    using assms(1) e d by (simp add: indexedDefinition_def answers_def Let_def LedgerKey_nonempty)
  then show ?thesis using e(6,8) UnmarshalLedger_valid[OF d(2)] by blast
qed

subsection \<open>Hydration\<close>

text \<open>A store agrees with a ledger when neither holds another definition of a sequence they share.\<close>

definition agrees :: "string \<Rightarrow> ledger_rows \<Rightarrow> Store \<Rightarrow> bool" where
  "agrees ch L s \<longleftrightarrow> (\<forall>name d c i. ledgerRecord ch L name = Some d \<longrightarrow> definition_of s name = Some (c, i) \<longrightarrow>
     cd_Sequence c = ld_Sequence d \<longrightarrow> c = ChaincodeDefinitionFromLedger d)"

lemma Upsert_ok:
  assumes "live s" "valid_definition def" "now \<noteq> []"
    and "\<And>c i. definition_of s (cd_Name def) = Some (c, i) \<Longrightarrow> cd_Sequence c = cd_Sequence def \<Longrightarrow> c = def"
  shows "\<exists>c. fst (UpsertCommittedFromLedger None now def init s) = Inr c"
proof -
  have get: "GetCommitted None (cd_Name def) s = Inr (active s (cd_Name def))"
    using assms by (simp add: GetCommitted_active valid_definition_def live_def)
  have upd: "\<exists>c. fst (upsertCommitted None now \<lparr>cm_Definition = def, cm_CommittedAt = now, cm_Initialized = init\<rparr> s) = Inr c"
    using upsertCommitted_open[of s "\<lparr>cm_Definition = def, cm_CommittedAt = now, cm_Initialized = init\<rparr>" now] assms
    by (auto simp: live_def valid_definition_def Let_def join_committed_def definition_of_def
        simp del: validateDefinition_ok split: option.splits)
  show ?thesis
    using assms(2,4) get upd
    by (auto simp: UpsertCommittedFromLedger_def valid_definition_def Let_def definition_of_def
        simp del: validateDefinition_ok split: option.split)
qed

lemma hydrateEntry_ok:
  assumes "answers q cfg L" "entryNames (cf_ChannelID cfg) L i name" "live s" "now \<noteq> []"
    and "agrees (cf_ChannelID cfg) L s"
  shows "\<exists>d s'. hydrateEntry q cfg None now i s = (Inr (), s') \<and> ledgerRecord (cf_ChannelID cfg) L name = Some d \<and>
    live s' \<and> agrees (cf_ChannelID cfg) L s' \<and>
    definition_of s' = (definition_of s)(name :=
      ledger_join cd_Sequence (ChaincodeDefinitionFromLedger d, ld_Initialized d) (definition_of s name))"
proof -
  let ?ch = "cf_ChannelID cfg"
  obtain d where d: "indexedDefinition q cfg i = Inr d" "ledgerRecord ?ch L name = Some d" "ld_Name d = name"
      and valid: "valid_definition (ChaincodeDefinitionFromLedger d)"
    using indexedDefinition_reads[OF assms(1,2)] by blast
  let ?def = "ChaincodeDefinitionFromLedger d" and ?i = "ld_Initialized d"
  have name: "cd_Name ?def = name" "cd_Sequence ?def = ld_Sequence d"
    using d(3) by (simp_all add: ChaincodeDefinitionFromLedger_def)
  define s' where "s' = snd (UpsertCommittedFromLedger None now ?def ?i s)"
  have "c = ?def" if "definition_of s (cd_Name ?def) = Some (c, x)" "cd_Sequence c = cd_Sequence ?def" for c x
    using assms(5) d(2) name that unfolding agrees_def by auto
  then have "\<exists>c. fst (UpsertCommittedFromLedger None now ?def ?i s) = Inr c"
    using Upsert_ok[OF assms(3) valid assms(4)] by blast
  then have step: "hydrateEntry q cfg None now i s = (Inr (), s')"
    using d(1) by (auto simp: hydrateEntry_def s'_def split: prod.split)
  have def: "definition_of s' = (definition_of s)(name := ledger_join cd_Sequence (?def, ?i) (definition_of s name))"
    using definition_of_ledger[OF assms(3) valid, of now ?i] name(1) by (auto simp: s'_def fun_eq_iff)
  have "agrees ?ch L s'"
    unfolding agrees_def
  proof (intro allI impI)
    fix n e c x
    assume "ledgerRecord ?ch L n = Some e" "definition_of s' n = Some (c, x)" "cd_Sequence c = ld_Sequence e"
    then show "c = ChaincodeDefinitionFromLedger e"
      using assms(5) d(2) name(2) unfolding agrees_def def
      by (cases "n = name") (auto simp: ledger_join_def split: option.splits if_splits)
  qed
  then show ?thesis using step def d(2) live_ledger[OF assms(3)] s'_def by blast
qed

text \<open>What a store should hold after a replay: each recorded definition merged once.\<close>

definition mirrored :: "string \<Rightarrow> ledger_rows \<Rightarrow> string set \<Rightarrow> Store \<Rightarrow> string \<Rightarrow> (ChaincodeDefinition \<times> bool) option" where
  "mirrored ch L names s name =
     (case ledgerRecord ch L name of
        None \<Rightarrow> definition_of s name
      | Some d \<Rightarrow> (if name \<in> names
          then ledger_join cd_Sequence (ChaincodeDefinitionFromLedger d, ld_Initialized d) (definition_of s name)
          else definition_of s name))"

lemma ledger_join_idem: "ledger_join seq r (ledger_join seq r x) = ledger_join seq r x"
  by (cases r; cases x) (auto simp: ledger_join_def)

lemma mirrored_step:
  assumes "ledgerRecord ch L name = Some d"
    and "definition_of s' = (definition_of s)(name :=
      ledger_join cd_Sequence (ChaincodeDefinitionFromLedger d, ld_Initialized d) (definition_of s name))"
  shows "mirrored ch L names s' = mirrored ch L (insert name names) s"
  using assms by (auto simp: mirrored_def fun_eq_iff ledger_join_idem split: option.split)

lemma syncLoop_mirrors:
  assumes "answers q cfg L" "now \<noteq> []" "high \<noteq> - 1"
    and "\<And>j. i \<le> j \<Longrightarrow> j \<le> high \<Longrightarrow> \<exists>name. entryNames (cf_ChannelID cfg) L j name"
    and "live s" "agrees (cf_ChannelID cfg) L s"
  shows "\<exists>s'. syncLoop q cfg None now high i s = Some (Inr (), s') \<and> live s' \<and>
    definition_of s' = mirrored (cf_ChannelID cfg) L
      {name. \<exists>j. i \<le> j \<and> j \<le> high \<and> entryNames (cf_ChannelID cfg) L j name} s"
  using assms(4-6)
proof (induction "Suc (unat high) - unat i" arbitrary: i s rule: less_induct)
  case less
  let ?ch = "cf_ChannelID cfg"
  show ?case
  proof (cases "i \<le> high")
    case True
    note nxt = next_index[OF True assms(3)]
    obtain name where n: "entryNames ?ch L i name" using less.prems(1) True by auto
    obtain d s1 where step: "hydrateEntry q cfg None now i s = (Inr (), s1)" "ledgerRecord ?ch L name = Some d"
        "live s1" "agrees ?ch L s1" and def: "definition_of s1 = (definition_of s)(name :=
          ledger_join cd_Sequence (ChaincodeDefinitionFromLedger d, ld_Initialized d) (definition_of s name))"
      using hydrateEntry_ok[OF assms(1) n less.prems(2) assms(2) less.prems(3)] by blast
    have le: "i \<le> j \<longleftrightarrow> j = i \<or> i + 1 \<le> j" for j
      unfolding word_le_nat_alt word_unat_eq_iff nxt by auto
    have "Suc (unat high) - unat (i + 1) < Suc (unat high) - unat i" using nxt True by (simp add: word_le_nat_alt)
    moreover have "\<exists>name. entryNames ?ch L j name" if "i + 1 \<le> j" "j \<le> high" for j
      using less.prems(1)[of j] le that by blast
    ultimately obtain s' where s': "syncLoop q cfg None now high (i + 1) s1 = Some (Inr (), s')"
        "live s'" "definition_of s' = mirrored ?ch L {n. \<exists>j. i + 1 \<le> j \<and> j \<le> high \<and> entryNames ?ch L j n} s1"
      using less.hyps[OF _ _ step(3,4), of "i + 1"] by blast
    have one: "entryNames ?ch L i n' \<longleftrightarrow> n' = name" for n' using n by (auto simp: entryNames_def)
    have "{n. \<exists>j. i \<le> j \<and> j \<le> high \<and> entryNames ?ch L j n} =
        insert name {n. \<exists>j. i + 1 \<le> j \<and> j \<le> high \<and> entryNames ?ch L j n}"
      by (simp only: le) (use True one in blast)
    then show ?thesis
      using s' syncLoop_step(1)[OF True, of q cfg None now s] step(1) mirrored_step[OF step(2) def] by simp
  next
    case False
    then have "{name. \<exists>j. i \<le> j \<and> j \<le> high \<and> entryNames ?ch L j name} = {}" by auto
    then have "mirrored ?ch L {name. \<exists>j. i \<le> j \<and> j \<le> high \<and> entryNames ?ch L j name} s = definition_of s"
      by (simp only:) (simp add: mirrored_def fun_eq_iff split: option.split)
    then show ?thesis using False less.prems(2) by (simp add: syncLoop_step(2))
  qed
qed


subsection \<open>Properties of the replay\<close>

text \<open>C25: The replay of the ledger at startup ends, whatever the rows hold, the queries answer and the store
  contains, as long as the stored high watermark is not the largest 64 bit number.\<close>

theorem sync_returns:
  assumes "\<And>value version. lifecycleRow q (lifecycleNamespace cfg) (LifecycleHighWatermarkKey (cf_ChannelID cfg))
      = Inr (Some (value, version)) \<Longrightarrow> UnmarshalLifecycleHighWatermark value \<noteq> Inr (- 1)"
  shows "\<exists>r s'. syncLifecycleFromLedger (Some q) cfg ctx now s = Some (r, s')"
proof -
  have "\<exists>r s'. syncLoop q cfg ctx now high 1 s = Some (r, s')" if "high \<noteq> - 1" for high
    using syncLoop_returns[OF that, of q cfg ctx now 1 s] by auto
  then show ?thesis using assms
    by (auto simp: syncLifecycleFromLedger_def split: sum.split option.split)
qed

text \<open>With the largest high watermark the counter wraps past it, and no replay ever succeeds.\<close>

lemma sync_at_max_fails:
  assumes "syncLoop q cfg ctx now (- 1) i s = Some x"
  shows "fst x \<noteq> Inr ()"
proof -
  have "(- 1 :: u64) = - 1 \<longrightarrow> fst x \<noteq> Inr ()"
  proof (rule syncLoop.raw_induct[of "\<lambda>q cfg ctx now high i s x. high = - 1 \<longrightarrow> fst x \<noteq> Inr ()", OF _ assms], intro impI)
    fix f :: "row_query \<Rightarrow> Config \<Rightarrow> ctx \<Rightarrow> string \<Rightarrow> u64 \<Rightarrow> u64 \<Rightarrow> Store \<Rightarrow> ((orch_error + unit) \<times> Store) option"
      and q cfg ctx now high i s x
    assume ih: "\<And>q cfg ctx now high i s x. f q cfg ctx now high i s = Some x \<Longrightarrow> high = - 1 \<longrightarrow> fst x \<noteq> Inr ()"
      and high: "(if i \<le> high
        then (case hydrateEntry q cfg ctx now i s of
                (Inl e, s') \<Rightarrow> Some (Inl e, s') | (Inr _, s') \<Rightarrow> f q cfg ctx now high (i + 1) s')
        else Some (Inr (), s)) = Some x" "high = - 1"
    obtain r s' where step: "hydrateEntry q cfg ctx now i s = (r, s')" by fastforce
    show "fst x \<noteq> Inr ()"
      using high ih[of q cfg ctx now high "i + 1" s' x] step by (cases r) auto
  qed
  then show ?thesis by simp
qed

text \<open>Replaying a well-formed ledger into a store that holds no other definition of a sequence the ledger
  holds succeeds and refines the mirror specification: every definition of the ledger is merged into
  its name's active definition exactly once, whatever number of index entries name it, and other
  names stay as they are.\<close>

theorem sync_mirrors_ledger:
  assumes "answers q cfg L" "indexed_ledger (cf_ChannelID cfg) L high" "high \<noteq> - 1"
    and "live s" "agrees (cf_ChannelID cfg) L s" "now \<noteq> []"
  shows "\<exists>s'. syncLifecycleFromLedger (Some q) cfg None now s = Some (Inr (), s') \<and> live s' \<and>
    (\<forall>name. definition_of s' name =
       (case ledgerRecord (cf_ChannelID cfg) L name of
          None \<Rightarrow> definition_of s name
        | Some d \<Rightarrow> ledger_join cd_Sequence (ChaincodeDefinitionFromLedger d, ld_Initialized d) (definition_of s name)))"
proof -
  let ?ch = "cf_ChannelID cfg" and ?names = "{name. \<exists>j. 1 \<le> j \<and> j \<le> high \<and> entryNames (cf_ChannelID cfg) L j name}"
  have row: "lifecycleRow q (lifecycleNamespace cfg) k = Inr (L k)" for k using assms(1) by (simp add: answers_def)
  have wm: "watermarkIs ?ch L high" using assms(2) by (simp add: indexed_ledger_def)
  have names: "ledgerRecord ?ch L name = None" if "name \<notin> ?names" for name
  proof -
    have "L (LedgerKey ?ch name) = None" using assms(2) that unfolding indexed_ledger_def by blast
    then show ?thesis by (simp add: ledgerRecord_def)
  qed
  show ?thesis
  proof (cases "L (LifecycleHighWatermarkKey ?ch)")
    case None
    then have "high = 0" using wm by (simp add: watermarkIs_def)
    then have "ledgerRecord ?ch L name = None" for name by (intro names) auto
    then show ?thesis using None row assms(4) by (simp add: syncLifecycleFromLedger_def)
  next
    case (Some vw)
    have entries: "\<exists>name. entryNames ?ch L j name" if "1 \<le> j" "j \<le> high" for j
      using assms(2) that by (simp add: indexed_ledger_def)
    obtain s' where s': "syncLoop q cfg None now high 1 s = Some (Inr (), s')" "live s'"
        "definition_of s' = mirrored ?ch L ?names s"
      using syncLoop_mirrors[OF assms(1,6,3) entries assms(4,5)] by auto
    have "syncLifecycleFromLedger (Some q) cfg None now s = Some (Inr (), s')"
      using Some row wm s'(1) by (cases vw) (simp add: syncLifecycleFromLedger_def watermarkIs_def)
    moreover have "definition_of s' name = (case ledgerRecord ?ch L name of
          None \<Rightarrow> definition_of s name
        | Some d \<Rightarrow> ledger_join cd_Sequence (ChaincodeDefinitionFromLedger d, ld_Initialized d) (definition_of s name))" for name
      using names[of name] unfolding s'(3) mirrored_def by (auto split: option.split)
    ultimately show ?thesis using s'(2) by auto
  qed
qed

subsection \<open>Properties of the transaction\<close>

text \<open>The ledger after the transaction's writes, at a new version.\<close>

definition applyWrites :: "ReadWriteSet \<Rightarrow> u64 \<Rightarrow> ledger_rows \<Rightarrow> ledger_rows" where
  "applyWrites rws version L = foldl (\<lambda>L w. L(kw_Key w := (if kw_IsDelete w then None else Some (kw_Value w, version)))) L (rw_Writes rws)"

text \<open>What a prepared transaction writes and reads, given a ledger that answers.\<close>

lemma prepared_shape:
  assumes "answers q cfg L" "watermarkIs (cf_ChannelID cfg) L high"
    and "lifecycleReadWriteSet q cfg def eventType = Inr (Some (rws, value))"
  shows "\<exists>current initialized.
    currentRecord cfg def (L (LedgerKey (cf_ChannelID cfg) (cd_Name def))) = Inr current \<and>
    initializedFlag current def eventType = Inr initialized \<and>
    MarshalLedgerDefinition (cf_ChannelID cfg) def initialized = Inr value \<and>
    L (LifecycleIndexEntryKey (cf_ChannelID cfg) (high + 1)) = None \<and>
    rw_Writes rws = [\<lparr>kw_Key = LedgerKey (cf_ChannelID cfg) (cd_Name def), kw_Value = value, kw_IsDelete = False\<rparr>,
      \<lparr>kw_Key = LifecycleIndexEntryKey (cf_ChannelID cfg) (high + 1), kw_Value = MarshalLifecycleIndexEntry
         (NewLifecycleIndexEntry (cf_ChannelID cfg) (high + 1) eventType def initialized), kw_IsDelete = False\<rparr>,
      \<lparr>kw_Key = LifecycleHighWatermarkKey (cf_ChannelID cfg), kw_Value = MarshalLifecycleHighWatermark (high + 1), kw_IsDelete = False\<rparr>] \<and>
    (\<forall>w \<in> set (rw_Writes rws). \<exists>r \<in> set (rw_Reads rws). kr_Key r = kw_Key w \<and>
       kr_Version r = map_option snd (L (kw_Key w)))"
proof -
  let ?ch = "cf_ChannelID cfg"
  have row: "lifecycleRow q (lifecycleNamespace cfg) k = Inr (L k)" for k using assms(1) by (simp add: answers_def)
  have hw: "readHighWatermark q cfg = Inr (high, map_option snd (L (LifecycleHighWatermarkKey ?ch)))"
    using assms(2) row by (auto simp: readHighWatermark_def watermarkIs_def split: option.splits)
  show ?thesis
    using assms(3)
    by (auto simp: lifecycleReadWriteSet_def Let_def row hw lifecycleKeyVersion_def rbind_Inr_iff split: if_splits)
      (metis not_None_eq surj_pair)
qed


lemma currentRecord_ledger:
  assumes "currentRecord cfg def (L (LedgerKey (cf_ChannelID cfg) (cd_Name def))) = Inr current"
  shows "ledgerRecord (cf_ChannelID cfg) L (cd_Name def) = current \<and>
    (\<forall>d. current = Some d \<longrightarrow> ld_Sequence d \<le> cd_Sequence def)"
  using assms by (auto simp: currentRecord_def ledgerRecord_def rbind_Inr_iff split: option.splits if_splits)

lemma applied_transaction:
  assumes "answers q cfg L" "indexed_ledger (cf_ChannelID cfg) L high" "high \<noteq> - 1"
    and prepared: "lifecycleReadWriteSet q cfg def eventType = Inr (Some (rws, value))"
    and "utf8_ok (cf_ChannelID cfg)" "text_ok def" "utf8_ok eventType"
  shows "indexed_ledger (cf_ChannelID cfg) (applyWrites rws version L) (high + 1) \<and>
    (\<forall>name. name \<noteq> cd_Name def \<longrightarrow>
       ledgerRecord (cf_ChannelID cfg) (applyWrites rws version L) name = ledgerRecord (cf_ChannelID cfg) L name) \<and>
    (\<exists>initialized. ledgerRecord (cf_ChannelID cfg) (applyWrites rws version L) (cd_Name def) =
       Some (ledger_of (cf_ChannelID cfg) def initialized))"
proof -
  let ?ch = "cf_ChannelID cfg" and ?L = "applyWrites rws version L" and ?name = "cd_Name def"
  have wm: "watermarkIs ?ch L high" using assms(2) by (simp add: indexed_ledger_def)
  obtain current initialized where cur: "currentRecord cfg def (L (LedgerKey ?ch ?name)) = Inr current"
      and enc: "MarshalLedgerDefinition ?ch def initialized = Inr value"
      and writes: "rw_Writes rws = [\<lparr>kw_Key = LedgerKey ?ch ?name, kw_Value = value, kw_IsDelete = False\<rparr>,
        \<lparr>kw_Key = LifecycleIndexEntryKey ?ch (high + 1), kw_Value = MarshalLifecycleIndexEntry
           (NewLifecycleIndexEntry ?ch (high + 1) eventType def initialized), kw_IsDelete = False\<rparr>,
        \<lparr>kw_Key = LifecycleHighWatermarkKey ?ch, kw_Value = MarshalLifecycleHighWatermark (high + 1), kw_IsDelete = False\<rparr>]"
    using prepared_shape[OF assms(1) wm prepared] by blast
  note rec = ledger_definition_read[OF enc assms(5,6)]
  let ?entry = "NewLifecycleIndexEntry ?ch (high + 1) eventType def initialized"
  have rows: "?L (LedgerKey ?ch n) = (if n = ?name then Some (value, version) else L (LedgerKey ?ch n))"
    "?L (LifecycleIndexEntryKey ?ch i) = (if i = high + 1 then Some (MarshalLifecycleIndexEntry ?entry, version)
       else L (LifecycleIndexEntryKey ?ch i))"
    "?L (LifecycleHighWatermarkKey ?ch) = Some (MarshalLifecycleHighWatermark (high + 1), version)" for n i
    by (simp_all add: applyWrites_def writes keys_apart)
  have records: "ledgerRecord ?ch ?L n = (if n = ?name then Some (ledger_of ?ch def initialized) else ledgerRecord ?ch L n)" for n
    using rec(1) by (simp add: ledgerRecord_def rows)
  have newEntry: "entryNames ?ch ?L (high + 1) ?name"
    using index_entry_read[OF rec(2,3) assms(5-7), of "high + 1" initialized] rows(2) records
    by (simp add: entryNames_def NewLifecycleIndexEntry_def ledger_of_def)
  have old: "entryNames ?ch ?L i n" if "entryNames ?ch L i n" "i \<noteq> high + 1" for i n
    using that records[of n] unfolding entryNames_def rows(2) by (auto simp: ledger_of_def)
  have le: "i \<le> high + 1 \<longleftrightarrow> i = high + 1 \<or> i \<le> high" for i
    unfolding word_le_nat_alt word_unat_eq_iff next_index[OF order_refl assms(3)] by auto
  have one: "1 \<le> high + 1" unfolding word_le_nat_alt next_index[OF order_refl assms(3)] by simp
  have apart: "i \<noteq> high + 1" if "i \<le> high" for i
    using that unfolding word_le_nat_alt word_unat_eq_iff next_index[OF order_refl assms(3)] by auto
  have "indexed_ledger ?ch ?L (high + 1)"
    unfolding indexed_ledger_def
  proof (intro conjI allI impI)
    show "watermarkIs ?ch ?L (high + 1)" using high_watermark_read by (simp add: watermarkIs_def rows(3))
    show "\<exists>n. entryNames ?ch ?L i n" if "1 \<le> i \<and> i \<le> high + 1" for i
      using that newEntry old assms(2) apart unfolding le indexed_ledger_def by blast
    show "\<exists>i. 1 \<le> i \<and> i \<le> high + 1 \<and> entryNames ?ch ?L i n" if "?L (LedgerKey ?ch n) \<noteq> None" for n
    proof (cases "n = ?name")
      case True
      then show ?thesis using newEntry one by blast
    next
      case False
      then have "L (LedgerKey ?ch n) \<noteq> None" using that rows(1) by simp
      then show ?thesis using assms(2) old apart unfolding le indexed_ledger_def by blast
    qed
  qed
  then show ?thesis using records by auto
qed

text \<open>C24: A prepared lifecycle transaction, once its writes are applied, leaves a well-formed ledger whose
  index has grown by exactly one entry; it stores the revision under its name with a sequence that is
  not lower than before and changes no other name; and every key it writes is read at the version it
  had, so a concurrent change of any of them invalidates the transaction.\<close>

theorem prepared_transaction_extends_index:
  assumes "answers q cfg L" "indexed_ledger (cf_ChannelID cfg) L high" "high \<noteq> - 1"
    and prepared: "lifecycleReadWriteSet q cfg def eventType = Inr (Some (rws, value))"
    and "utf8_ok (cf_ChannelID cfg)" "text_ok def" "utf8_ok eventType"
  shows "indexed_ledger (cf_ChannelID cfg) (applyWrites rws version L) (high + 1) \<and>
    (\<forall>name. name \<noteq> cd_Name def \<longrightarrow>
       ledgerRecord (cf_ChannelID cfg) (applyWrites rws version L) name = ledgerRecord (cf_ChannelID cfg) L name) \<and>
    (\<exists>initialized. ledgerRecord (cf_ChannelID cfg) (applyWrites rws version L) (cd_Name def) =
       Some (ledger_of (cf_ChannelID cfg) def initialized)) \<and>
    (\<forall>d. ledgerRecord (cf_ChannelID cfg) L (cd_Name def) = Some d \<longrightarrow> ld_Sequence d \<le> cd_Sequence def) \<and>
    (\<forall>w \<in> set (rw_Writes rws). \<exists>r \<in> set (rw_Reads rws).
       kr_Key r = kw_Key w \<and> kr_Version r = map_option snd (L (kw_Key w)))"
proof -
  have wm: "watermarkIs (cf_ChannelID cfg) L high" using assms(2) by (simp add: indexed_ledger_def)
  show ?thesis
    using prepared_shape[OF assms(1) wm prepared] applied_transaction[OF assms]
      currentRecord_ledger[of cfg def L] by blast
qed

subsection \<open>Instances\<close>

text \<open>A query service over given rows, and the ledger one commit leaves.\<close>

definition query_of :: "Config \<Rightarrow> ledger_rows \<Rightarrow> row_query" where
  "query_of cfg L = (\<lambda>ns k. Inr [(lifecycleNamespace cfg, case L k of None \<Rightarrow> [] | Some (v, w) \<Rightarrow> [(k, v, w)])])"

lemma query_of_answers: "answers (query_of cfg L) cfg L"
  by (auto simp: answers_def query_of_def lifecycleRow_def findRow_def split: option.split)

lemma empty_indexed: "indexed_ledger ch (\<lambda>_. None) 0"
  by (auto simp: indexed_ledger_def watermarkIs_def)

definition first_def :: ChaincodeDefinition where
  "first_def = \<lparr>cd_Name = ''cc'', cd_Version = ''1'', cd_Sequence = 1, cd_InitRequired = True\<rparr>"

lemma first_text: "text_ok first_def" "utf8_ok ''ch''" "utf8_ok LifecycleEventCommit"
  by (simp_all add: text_ok_def first_def_def is_i64_def min_i64_def max_i64_def LifecycleEventCommit_def)

lemma first_prepared:
  "\<exists>rws value. lifecycleReadWriteSet (query_of sample_cfg (\<lambda>_. None)) sample_cfg first_def LifecycleEventCommit
     = Inr (Some (rws, value))"
  by (simp add: lifecycleReadWriteSet_def query_of_def lifecycleRow_def findRow_def currentRecord_def alreadyRecorded_def
      initializedFlag_def LifecycleEventCommit_def LifecycleEventInitialized_def ValidateNextSequence_def
      MarshalLedgerDefinition_def validateDefinition_def first_def_def readHighWatermark_def lifecycleKeyVersion_def
      sample_cfg_def Let_def)

theorem prepared_transaction_extends_index_witness:
  "\<exists>rws value. lifecycleReadWriteSet (query_of sample_cfg (\<lambda>_. None)) sample_cfg first_def LifecycleEventCommit
     = Inr (Some (rws, value)) \<and> indexed_ledger ''ch'' (applyWrites rws 7 (\<lambda>_. None)) 1"
proof -
  obtain rws val where p: "lifecycleReadWriteSet (query_of sample_cfg (\<lambda>_. None)) sample_cfg first_def LifecycleEventCommit
     = Inr (Some (rws, val))" using first_prepared by blast
  have ch: "cf_ChannelID sample_cfg = ''ch''" by (simp add: sample_cfg_def)
  have "indexed_ledger (cf_ChannelID sample_cfg) (\<lambda>_. None) 0" by (rule empty_indexed)
  from prepared_transaction_extends_index[OF query_of_answers this _ p, of 7] first_text
  show ?thesis using p by (auto simp: ch)
qed

lemma first_ledger:
  "\<exists>L. indexed_ledger ''ch'' L 1 \<and> (\<exists>i. ledgerRecord ''ch'' L ''cc'' = Some (ledger_of ''ch'' first_def i))"
proof -
  obtain rws val where p: "lifecycleReadWriteSet (query_of sample_cfg (\<lambda>_. None)) sample_cfg first_def LifecycleEventCommit
     = Inr (Some (rws, val))" using first_prepared by blast
  have ch: "cf_ChannelID sample_cfg = ''ch''" "cd_Name first_def = ''cc''" by (simp_all add: sample_cfg_def first_def_def)
  have "indexed_ledger (cf_ChannelID sample_cfg) (\<lambda>_. None) 0" by (rule empty_indexed)
  from applied_transaction[OF query_of_answers this _ p, of 7] first_text
  show ?thesis by (auto simp: ch)
qed

lemma ledger_of_back:
  "ChaincodeDefinitionFromLedger (ledger_of ch def i) = def" "ld_Initialized (ledger_of ch def i) = i"
  by (simp_all add: ledger_of_def ChaincodeDefinitionFromLedger_def)

definition blank_store :: Store where
  "blank_store = \<lparr>st_channelID = ''ch'', st_open = True, st_installed = [], st_approved = [], st_committed = [],
     st_resolved = []\<rparr>"

lemma blank_live: "live blank_store" "definition_of blank_store n = None"
  by (simp_all add: live_def store_inv_def blank_store_def definition_of_def active_def)

theorem sync_mirrors_ledger_witness:
  "\<exists>L s' i. syncLifecycleFromLedger (Some (query_of sample_cfg L)) sample_cfg None ''t'' blank_store = Some (Inr (), s') \<and>
     definition_of s' ''cc'' = Some (first_def, i) \<and> indexed_ledger ''ch'' L 1"
proof -
  obtain L i where L: "indexed_ledger ''ch'' L 1" "ledgerRecord ''ch'' L ''cc'' = Some (ledger_of ''ch'' first_def i)"
    using first_ledger by blast
  have ch: "cf_ChannelID sample_cfg = ''ch''" by (simp add: sample_cfg_def)
  have ix: "indexed_ledger (cf_ChannelID sample_cfg) L 1" using L(1) ch by simp
  have "agrees (cf_ChannelID sample_cfg) L blank_store" by (simp add: agrees_def blank_live)
  from sync_mirrors_ledger[OF query_of_answers ix _ blank_live(1) this, of "''t''"]
  obtain s' where s': "syncLifecycleFromLedger (Some (query_of sample_cfg L)) sample_cfg None ''t'' blank_store = Some (Inr (), s')"
    "definition_of s' ''cc'' = ledger_join cd_Sequence (first_def, i) None"
    using L(2) by (auto simp: ch blank_live ledger_of_back)
  then show ?thesis using L(1) by (auto simp: ledger_join_def)
qed

theorem sync_returns_witness:
  "\<exists>r s'. syncLifecycleFromLedger (Some (query_of sample_cfg (\<lambda>_. Some (MarshalLifecycleHighWatermark 7, 1)))) sample_cfg None ''t'' blank_store
     = Some (r, s')"
proof (rule sync_returns)
  fix val ver
  assume "lifecycleRow (query_of sample_cfg (\<lambda>_. Some (MarshalLifecycleHighWatermark 7, 1))) (lifecycleNamespace sample_cfg)
    (LifecycleHighWatermarkKey (cf_ChannelID sample_cfg)) = Inr (Some (val, ver))"
  then have "val = MarshalLifecycleHighWatermark 7" by (simp add: query_of_def lifecycleRow_def findRow_def)
  moreover have "UnmarshalLifecycleHighWatermark (MarshalLifecycleHighWatermark 7) = Inr 7" using high_watermark_read by blast
  ultimately show "UnmarshalLifecycleHighWatermark val \<noteq> Inr (- 1)" by simp
qed

end
