(* ===== verification/Endorsement_Policy.thy ===== *)
theory Endorsement_Policy
  imports Proposal_Auth
begin

section \<open>Namespace endorsement policies\<close>

text \<open>
  \<open>orchestrator/policy.go\<close> loads the policy of a native namespace and
  \<open>orchestrator/endorsement_policy.go\<close> compiles it, authenticates endorsements against it and
  searches the collected ones for a selection that satisfies it.  A signature policy is the decoded
  tree; a principal is shown with its decoded content, \<open>None\<close> where decoding fails.  Fabric's policy
  evaluator, the namespace signature verifier and the MSP library are parameters.
\<close>

subsection \<open>Policies\<close>

datatype sig_policy = SignedBy int | NOutOf int "sig_policy list" | NilNOutOf | NilRule | OtherRule

datatype principal =
    PRole "string option"
  | POrgUnit "string option"
  | PIdentity "string option"
  | PCombined "principal list option"
  | PAnonymity bool
  | PUnsupported
  | PNil

datatype namespace_rule = MspRule bytes | ThresholdRule "(string \<times> bytes) option" | UnsupportedRule

record NamespacePolicySnapshot =
  np_Namespace :: string
  np_Version :: u64
  np_RawPolicy :: bytes
  np_Policy :: "namespace_rule option"

definition RuleName :: "NamespacePolicySnapshot \<Rightarrow> string" where
  "RuleName p = (case np_Policy p of Some (MspRule _) \<Rightarrow> ''msp'' | Some (ThresholdRule _) \<Rightarrow> ''threshold'' | _ \<Rightarrow> ''unknown'')"

text \<open>An answer of the query service: namespace, version and policy bytes.\<close>

fun findPolicy ::
  "(bytes \<Rightarrow> namespace_rule option) \<Rightarrow> string \<Rightarrow> (string \<times> u64 \<times> bytes) list
    \<Rightarrow> orch_error + NamespacePolicySnapshot" where
  "findPolicy decode namespace [] = Inl (Plain (''namespace '' @ namespace @ '' policy not found''))"
| "findPolicy decode namespace ((ns, version, raw) # items) =
     (if ns \<noteq> namespace then findPolicy decode namespace items
      else if raw = [] then Inl (Plain (''namespace '' @ namespace @ '' has empty policy''))
      else case decode raw of
        None \<Rightarrow> Inl (Plain (''decode namespace '' @ namespace @ '' policy''))
      | Some rule \<Rightarrow> Inr \<lparr>np_Namespace = ns, np_Version = version, np_RawPolicy = raw, np_Policy = Some rule\<rparr>)"

definition loadNamespacePolicy ::
  "(bytes \<Rightarrow> namespace_rule option) \<Rightarrow> (orch_error + (string \<times> u64 \<times> bytes) list) option \<Rightarrow> string
    \<Rightarrow> orch_error + NamespacePolicySnapshot" where
  "loadNamespacePolicy decode query namespace =
     (case query of
        None \<Rightarrow> Inl (Plain ''query service client is required'')
      | Some answer \<Rightarrow> rbind answer (findPolicy decode namespace))"

text \<open>The resolver keeps the last snapshot it saw of each namespace.\<close>

type_synonym seen_policies = "string \<rightharpoonup> NamespacePolicySnapshot"

definition Resolve_policy ::
  "(bytes \<Rightarrow> namespace_rule option) \<Rightarrow> (orch_error + (string \<times> u64 \<times> bytes) list) option \<Rightarrow> string
    \<Rightarrow> seen_policies \<Rightarrow> (orch_error + NamespacePolicySnapshot) \<times> seen_policies" where
  "Resolve_policy decode query namespace seen =
     (case loadNamespacePolicy decode query namespace of
        Inl e \<Rightarrow> (Inl e, seen)
      | Inr snapshot \<Rightarrow> (Inr snapshot, seen(namespace \<mapsto> snapshot)))"

definition Snapshot_policy :: "string \<Rightarrow> seen_policies \<Rightarrow> NamespacePolicySnapshot option" where
  "Snapshot_policy namespace seen = seen namespace"

subsection \<open>Inspection\<close>

type_synonym targets = "string list \<times> bool"

definition addTarget :: "string option \<Rightarrow> string \<Rightarrow> targets \<Rightarrow> orch_error + targets" where
  "addTarget decoded what t =
     (case decoded of
        None \<Rightarrow> Inl (Plain (''decode '' @ what))
      | Some mspID \<Rightarrow>
          (if mspID = [] then Inl (Plain ''MSP principal requires an MSP ID'')
           else Inr (if mspID \<in> set (fst t) then t else (fst t @ [mspID], snd t))))"

fun inspectPrincipal :: "principal \<Rightarrow> targets \<Rightarrow> orch_error + targets"
  and inspectPrincipals :: "principal list \<Rightarrow> targets \<Rightarrow> orch_error + targets" where
  "inspectPrincipal PNil t = Inl (Plain ''nil MSP principal'')"
| "inspectPrincipal (PRole m) t = addTarget m ''MSP role'' t"
| "inspectPrincipal (POrgUnit m) t = addTarget m ''organizational unit'' t"
| "inspectPrincipal (PIdentity m) t = addTarget m ''identity principal'' t"
| "inspectPrincipal (PCombined None) t = Inl (Plain ''decode combined principal'')"
| "inspectPrincipal (PCombined (Some ps)) t =
     (if ps = [] then Inl (Plain ''empty combined principal'') else inspectPrincipals ps t)"
| "inspectPrincipal (PAnonymity decoded) t =
     (if decoded then Inr (fst t, True) else Inl (Plain ''decode anonymity principal''))"
| "inspectPrincipal PUnsupported t = Inl (Plain ''unsupported MSP principal classification'')"
| "inspectPrincipals [] t = Inr t"
| "inspectPrincipals (p # ps) t = rbind (inspectPrincipal p t) (inspectPrincipals ps)"

fun inspectRule :: "principal list \<Rightarrow> sig_policy \<Rightarrow> targets \<Rightarrow> orch_error + targets"
  and inspectRules :: "principal list \<Rightarrow> sig_policy list \<Rightarrow> targets \<Rightarrow> orch_error + targets" where
  "inspectRule identities NilRule t = Inl (Plain ''empty signature policy rule'')"
| "inspectRule identities (SignedBy i) t =
     (if i < 0 \<or> i \<ge> int (length identities) then Inl (Plain ''signed_by index out of range'')
      else inspectPrincipal (identities ! nat i) t)"
| "inspectRule identities (NOutOf n rules) t =
     (if n < 0 \<or> n > int (length rules) then Inl (Plain ''invalid n_out_of signature policy threshold'')
      else inspectRules identities rules t)"
| "inspectRule identities NilNOutOf t = Inl (Plain ''invalid n_out_of signature policy threshold'')"
| "inspectRule identities OtherRule t = Inl (Plain ''unsupported signature policy rule'')"
| "inspectRules identities [] t = Inr t"
| "inspectRules identities (r # rs) t = rbind (inspectRule identities r t) (inspectRules identities rs)"

text \<open>
  What the libraries provide: the decoder of signature policy envelopes, Fabric's policy compiler, the
  namespace verifier of the transaction's endorsements (endorser bytes and signature), the bytes a
  namespace signature covers, and principal matching.
\<close>

record 'id policy_lib =
  ql_Envelope :: "bytes \<Rightarrow> (sig_policy \<times> principal list) option"
  ql_NewPolicy :: "string list \<Rightarrow> bytes \<Rightarrow> ('id list \<Rightarrow> bool) option"
  ql_NsVerifier :: "namespace_rule \<Rightarrow> (string \<Rightarrow> Tx \<Rightarrow> ((string \<times> bytes) \<times> bytes) list \<Rightarrow> bool) option"
  ql_ASN1 :: "TxNamespace \<Rightarrow> string \<Rightarrow> bytes list \<Rightarrow> bytes option"
  ql_Satisfies :: "'id \<Rightarrow> principal \<Rightarrow> bool"
  ql_EqualFold :: "string \<Rightarrow> string \<Rightarrow> bool"

record 'id namespaceEndorsementPolicy =
  ne_snapshot :: NamespacePolicySnapshot
  ne_deserializer :: "string list option"
  ne_envelope :: "(sig_policy \<times> principal list) option"
  ne_policy :: "('id list \<Rightarrow> bool) option"
  ne_verifier :: "string \<Rightarrow> Tx \<Rightarrow> ((string \<times> bytes) \<times> bytes) list \<Rightarrow> bool"
  ne_targetMSPs :: "string list"
  ne_unscoped :: bool

text \<open>The rule specific part: envelope, compiled policy and routing hints.\<close>

definition compileNamespaceRule ::
  "'id policy_lib \<Rightarrow> string list option \<Rightarrow> namespace_rule
    \<Rightarrow> orch_error + (sig_policy \<times> principal list) option \<times> ('id list \<Rightarrow> bool) option \<times> targets" where
  "compileNamespaceRule q deserializer rule =
     (case rule of
        MspRule raw \<Rightarrow>
          rbind (require (Plain ''trusted MSPs are required to verify namespace endorsements'') deserializer) (\<lambda>msps.
          rbind (require (Plain ''decode namespace MSP policy'') (ql_Envelope q raw)) (\<lambda>envelope.
          rbind (inspectRule (snd envelope) (fst envelope) ([], False)) (\<lambda>t.
          rbind (require (Plain ''compile namespace MSP policy'') (ql_NewPolicy q msps raw)) (\<lambda>policy.
          Inr (Some envelope, Some policy, t)))))
      | ThresholdRule None \<Rightarrow> Inl (Plain ''namespace threshold policy is nil'')
      | ThresholdRule (Some (scheme, key)) \<Rightarrow>
          (if scheme = [] then Inl (Plain ''namespace threshold policy scheme is empty'')
           else if key = [] \<and> \<not> ql_EqualFold q scheme ''NONE''
           then Inl (Plain ''namespace threshold policy public key is empty'')
           else if ql_EqualFold q scheme ''EDDSA'' \<and> length key \<noteq> 32
           then Inl (Plain ''invalid EdDSA namespace public key length'')
           else Inr (None, None, [], False))
      | UnsupportedRule \<Rightarrow> Inl (Plain ''unsupported namespace policy rule''))"

definition newNamespaceEndorsementPolicy ::
  "'id policy_lib \<Rightarrow> NamespacePolicySnapshot \<Rightarrow> string list option \<Rightarrow> orch_error + 'id namespaceEndorsementPolicy" where
  "newNamespaceEndorsementPolicy q snapshot deserializer =
     rbind (require (Plain ''namespace policy is nil'') (np_Policy snapshot)) (\<lambda>rule.
     rbind (compileNamespaceRule q deserializer rule) (\<lambda>(envelope, policy, targets, unscoped).
     rbind (require (Plain ''compile namespace signature verifier'') (ql_NsVerifier q rule)) (\<lambda>verifier.
     Inr \<lparr>ne_snapshot = snapshot, ne_deserializer = deserializer, ne_envelope = envelope, ne_policy = policy,
          ne_verifier = verifier, ne_targetMSPs = targets, ne_unscoped = unscoped\<rparr>)))"

subsection \<open>Verification of endorsements\<close>

record 'id verifiedEndorsement =
  ve_result :: helperExecutionResult
  ve_identity :: "'id option"
  ve_key :: string
  ve_mspID :: string

text \<open>The endorser and signature of each response; a nil response or endorsement panics, shown as an error.\<close>

fun endorsementsOf :: "proto_lib \<Rightarrow> ProposalResponse option list \<Rightarrow> orch_error + ((string \<times> bytes) \<times> bytes) list" where
  "endorsementsOf plib [] = Inr []"
| "endorsementsOf plib (r # rs) =
     rbind (require (Plain ''nil response'') r) (\<lambda>response.
     rbind (require (Plain ''nil endorsement'') (ps_Endorsement response)) (\<lambda>e.
     rbind (require (Plain ''decode endorser'') (pl_Identity plib (pe_Endorser e))) (\<lambda>ident.
     rbind (endorsementsOf plib rs) (\<lambda>rest.
     Inr ((ident, pe_Signature e) # rest)))))"

definition verifySelection ::
  "proto_lib \<Rightarrow> 'id namespaceEndorsementPolicy \<Rightarrow> Endorsement \<Rightarrow> string \<Rightarrow> orch_error + unit" where
  "verifySelection plib p end txID =
     (case en_Responses end of
        [] \<Rightarrow> Inl (Plain ''no selected endorsements'')
      | first # _ \<Rightarrow>
          rbind (require (Plain ''nil response'') first) (\<lambda>response.
          rbind (require (Plain ''decode transaction'') (pl_Tx plib (ps_Payload response))) (\<lambda>tx.
          rbind (endorsementsOf plib (en_Responses end)) (\<lambda>endorsements.
          guard (ne_verifier p txID tx endorsements) (Plain ''namespace signature verification'')))))"

text \<open>The response checks that come before any signature: one successful endorsed response for this policy.\<close>

definition endorsedTransaction ::
  "proto_lib \<Rightarrow> 'id namespaceEndorsementPolicy \<Rightarrow> helperExecutionResult
    \<Rightarrow> orch_error + PeerEndorsement \<times> Tx \<times> TxNamespace" where
  "endorsedTransaction plib p result =
     (case en_Responses (hr_Endorsement result) of
        [Some response] \<Rightarrow>
          rbind (require (Plain ''execution response is missing its endorsement'')
            (case (ps_Response response, ps_Endorsement response) of
               (Some resp, Some e) \<Rightarrow> if pe_Signature e = [] then None else Some (resp, e)
             | _ \<Rightarrow> None)) (\<lambda>(resp, e).
          rbind (guard (\<not> failedResponse resp) (Plain ''execution failed'')) (\<lambda>_.
          rbind (require (Plain ''decode endorsed native transaction'') (pl_Tx plib (ps_Payload response))) (\<lambda>tx.
          (case tx_Namespaces tx of
             [ns] \<Rightarrow>
               (if tn_NsId ns = np_Namespace (ne_snapshot p) \<and> tn_NsVersion ns = np_Version (ne_snapshot p)
                then Inr (e, tx, ns)
                else Inl (Plain ''endorsement namespace or policy version does not match the invocation''))
           | _ \<Rightarrow> Inl (Plain ''endorsement namespace or policy version does not match the invocation'')))))
      | [None] \<Rightarrow> Inl (Plain ''execution response is missing its endorsement'')
      | _ \<Rightarrow> Inl (Plain ''expected exactly one execution endorsement''))"

definition authenticateIdentity ::
  "'id msp_lib \<Rightarrow> proto_lib \<Rightarrow> 'id policy_lib \<Rightarrow> string list \<Rightarrow> helperExecutionResult \<Rightarrow> string \<Rightarrow> int
    \<Rightarrow> PeerEndorsement \<Rightarrow> Tx \<Rightarrow> TxNamespace \<Rightarrow> orch_error + 'id verifiedEndorsement" where
  "authenticateIdentity lib plib q msps result expectedMSP now e tx ns =
     rbind (require (Plain ''decode endorser identity'') (pl_Identity plib (pe_Endorser e))) (\<lambda>(mspid, idBytes).
     rbind (require (Plain ''deserialize endorser'') (ml_DeserializeIdentity lib msps mspid idBytes)) (\<lambda>identity.
     rbind (guard (ml_GetMSPIdentifier lib identity = expectedMSP)
              (Plain ''endorser MSP does not match requested MSP'')) (\<lambda>_.
     rbind (guard (ml_Validate lib identity) (Plain ''untrusted endorser'')) (\<lambda>_.
     rbind (map_error (\<lambda>_. Plain ''endorser certificate time'') (ValidateIdentityTime lib identity now)) (\<lambda>_.
     rbind (require (Plain ''asn1'') (ql_ASN1 q ns (hr_TxID result) (tx_Metadata tx))) (\<lambda>data.
     rbind (guard (ml_Verify lib identity data (pe_Signature e)) (Plain ''invalid namespace endorsement signature'')) (\<lambda>_.
     Inr \<lparr>ve_result = result, ve_identity = Some identity,
          ve_key = fst (ml_GetIdentifier lib identity) @ CHR 0x00 # snd (ml_GetIdentifier lib identity),
          ve_mspID = ml_GetMSPIdentifier lib identity\<rparr>)))))))"

definition authenticateEndorsement ::
  "'id msp_lib \<Rightarrow> proto_lib \<Rightarrow> 'id policy_lib \<Rightarrow> 'id namespaceEndorsementPolicy \<Rightarrow> helperExecutionResult \<Rightarrow> string
    \<Rightarrow> bool \<Rightarrow> int \<Rightarrow> orch_error + 'id verifiedEndorsement" where
  "authenticateEndorsement lib plib q p result expectedMSP requireMSP now =
     rbind (endorsedTransaction plib p result) (\<lambda>(e, tx, ns).
     if ne_envelope p = None \<and> \<not> requireMSP
     then Inr \<lparr>ve_result = result, ve_identity = None, ve_key = pe_Endorser e, ve_mspID = expectedMSP\<rparr>
     else
       rbind (if ne_envelope p = None
              then map_error (Wrapped ''invalid namespace endorsement signature'')
                     (verifySelection plib p (hr_Endorsement result) (hr_TxID result))
              else Inr ()) (\<lambda>_.
       rbind (require (Plain ''explicit organization selection requires MSP verification'') (ne_deserializer p))
         (\<lambda>msps. authenticateIdentity lib plib q msps result expectedMSP now e tx ns)))"

subsection \<open>Selecting endorsements\<close>

text \<open>
  The search tries, for a leaf, every unused candidate that matches its principal, and for a
  threshold every subset of its children in order; \<open>order\<close> lists the candidates used so far, which
  is exactly the set the code marks as used, and \<open>next\<close> is the code's continuation.
\<close>

fun searchPolicy ::
  "(nat \<Rightarrow> nat \<Rightarrow> bool) \<Rightarrow> nat \<Rightarrow> sig_policy \<Rightarrow> nat list \<Rightarrow> (nat list \<Rightarrow> 'r option) \<Rightarrow> 'r option"
  and chooseRules ::
  "(nat \<Rightarrow> nat \<Rightarrow> bool) \<Rightarrow> nat \<Rightarrow> sig_policy list \<Rightarrow> nat \<Rightarrow> nat list \<Rightarrow> (nat list \<Rightarrow> 'r option) \<Rightarrow> 'r option" where
  "searchPolicy m n (SignedBy p) order next =
     first_some (\<lambda>i. if i \<in> set order \<or> \<not> m (nat p) i then None else next (order @ [i])) [0 ..< n]"
| "searchPolicy m n (NOutOf k rules) order next = chooseRules m n rules (nat k) order next"
| "searchPolicy m n NilNOutOf order next = None"
| "searchPolicy m n NilRule order next = None"
| "searchPolicy m n OtherRule order next = None"
| "chooseRules m n [] remaining order next = (if remaining = 0 then next order else None)"
| "chooseRules m n (r # rs) remaining order next =
     (if remaining = 0 then next order
      else if Suc (length rs) < remaining then None
      else case searchPolicy m n r order (\<lambda>o'. chooseRules m n rs (remaining - 1) o' next) of
        Some x \<Rightarrow> Some x
      | None \<Rightarrow> chooseRules m n rs remaining order next)"

text \<open>The principals a candidate matches; a candidate that matches none is never tried.\<close>

definition profile :: "(nat \<Rightarrow> nat \<Rightarrow> bool) \<Rightarrow> nat \<Rightarrow> nat \<Rightarrow> bool list" where
  "profile m principals i = map (\<lambda>p. m p i) [0 ..< principals]"

fun freshSigners :: "(nat \<Rightarrow> bool list) \<Rightarrow> nat list \<Rightarrow> bool list list \<Rightarrow> nat list \<Rightarrow> nat list" where
  "freshSigners pf order seen [] = []"
| "freshSigners pf order seen (i # is) =
     (if i \<in> set order \<or> True \<notin> set (pf i) \<or> pf i \<in> set seen then freshSigners pf order seen is
      else i # freshSigners pf order (pf i # seen) is)"

text \<open>Each recursive call uses one more of the \<open>n\<close> candidates, so \<open>n\<close> levels are all there are.\<close>

fun searchOrders ::
  "(nat \<Rightarrow> bool list) \<Rightarrow> (nat list \<Rightarrow> bool) \<Rightarrow> nat \<Rightarrow> nat \<Rightarrow> nat list \<Rightarrow> nat list option" where
  "searchOrders pf accepts n levels order =
     (if order \<noteq> [] \<and> accepts order then Some order
      else case levels of
        0 \<Rightarrow> None
      | Suc l \<Rightarrow> first_some (\<lambda>i. searchOrders pf accepts n l (order @ [i])) (freshSigners pf order [] [0 ..< n]))"

definition searchSignatureOrders ::
  "(nat \<Rightarrow> bool list) \<Rightarrow> (nat list \<Rightarrow> bool) \<Rightarrow> nat \<Rightarrow> nat list" where
  "searchSignatureOrders pf accepts n = (case searchOrders pf accepts n n [] of None \<Rightarrow> [] | Some order \<Rightarrow> order)"

text \<open>The selection among \<open>n\<close> candidates, by the matches and the acceptance of an order.\<close>

definition orderOrFirst :: "nat list \<Rightarrow> nat list" where
  "orderOrFirst order = (if order = [] then [0] else order)"

definition selectIndices ::
  "sig_policy \<Rightarrow> nat \<Rightarrow> (nat \<Rightarrow> nat \<Rightarrow> bool) \<Rightarrow> (nat list \<Rightarrow> bool) \<Rightarrow> nat \<Rightarrow> nat list" where
  "selectIndices rule principals m accepts n =
     (if n = 1 \<and> accepts [0] then [0]
      else case searchPolicy m n rule []
          (\<lambda>order. if accepts (orderOrFirst order) then Some (orderOrFirst order) else None) of
        Some order \<Rightarrow> order
      | None \<Rightarrow>
          (if accepts [0 ..< n] then [0 ..< n]
           else if searchPolicy m n rule [] (\<lambda>_. Some ()) = None then []
           else searchSignatureOrders (profile m principals) accepts n))"

definition selectEndorsements ::
  "'id policy_lib \<Rightarrow> 'id namespaceEndorsementPolicy \<Rightarrow> ctx \<Rightarrow> 'id verifiedEndorsement list
    \<Rightarrow> orch_error + nat list" where
  "selectEndorsements q p ctx candidates =
     rbind (ctx_ok ctx) (\<lambda>_.
     if candidates = [] then Inr []
     else case (ne_policy p, ne_envelope p) of
       (Some policy, Some (rule, principals)) \<Rightarrow>
         (let idOf = (\<lambda>i. the (ve_identity (candidates ! i)));
              m = (\<lambda>k i. principals ! k \<noteq> PNil \<and> ql_Satisfies q (idOf i) (principals ! k)) in
          Inr (selectIndices rule (length principals) m (\<lambda>order. policy (map idOf order)) (length candidates)))
     | _ \<Rightarrow> Inr [0])"

end
