(* ===== verification/Policy_Selection.thy ===== *)
theory Policy_Selection
  imports Endorsement_Policy
begin

section \<open>Selecting a sufficient set of endorsements\<close>

text \<open>
  Correctness of the search of \<open>selectEndorsements\<close>.  \<open>picks\<close> says declaratively which sequences of
  distinct candidates fill the leaves of a policy; the backtracking search visits exactly those.  A
  compiled policy never indexes outside its principals, and a selection is found whenever one exists.
\<close>

subsection \<open>Generic search lemmas\<close>

lemma first_some_SomeD: "first_some f xs = Some y \<Longrightarrow> \<exists>x \<in> set xs. f x = Some y"
  by (induction xs) (auto split: option.splits)

lemma first_some_None_iff [simp]: "first_some f xs = None \<longleftrightarrow> (\<forall>x \<in> set xs. f x = None)"
  by (induction xs) (auto split: option.splits)

subsection \<open>Compiled policies are bounded\<close>

text \<open>Every leaf names a principal that exists and every threshold is within its rules.\<close>

fun bounded_rule :: "nat \<Rightarrow> sig_policy \<Rightarrow> bool" where
  "bounded_rule n (SignedBy i) \<longleftrightarrow> 0 \<le> i \<and> i < int n"
| "bounded_rule n (NOutOf k rules) \<longleftrightarrow> 0 \<le> k \<and> k \<le> int (length rules) \<and> (\<forall>r \<in> set rules. bounded_rule n r)"
| "bounded_rule n _ \<longleftrightarrow> False"

lemma inspectRule_bounded:
  "inspectRule identities rule t = Inr t' \<Longrightarrow> bounded_rule (length identities) rule"
  "inspectRules identities rules t = Inr t' \<Longrightarrow> \<forall>r \<in> set rules. bounded_rule (length identities) r"
  by (induction identities rule t and identities rules t arbitrary: t' and t' rule: inspectRule_inspectRules.induct)
    (auto simp: rbind_Inr_iff split: if_splits)

lemma addTarget_mem: "addTarget m what t = Inr t' \<Longrightarrow> set (fst t) \<subseteq> set (fst t') \<and> [] \<notin> set (fst t') - set (fst t)"
  by (auto simp: addTarget_def split: option.splits if_splits)

lemma inspectPrincipal_targets:
  "inspectPrincipal p t = Inr t' \<Longrightarrow> distinct (fst t) \<Longrightarrow> [] \<notin> set (fst t) \<Longrightarrow> distinct (fst t') \<and> [] \<notin> set (fst t')"
  "inspectPrincipals ps t = Inr t' \<Longrightarrow> distinct (fst t) \<Longrightarrow> [] \<notin> set (fst t) \<Longrightarrow> distinct (fst t') \<and> [] \<notin> set (fst t')"
  by (induction p t and ps t arbitrary: t' and t' rule: inspectPrincipal_inspectPrincipals.induct)
    (fastforce simp: rbind_Inr_iff addTarget_def split: option.splits if_splits)+

lemma inspectRule_targets:
  "inspectRule ids rule t = Inr t' \<Longrightarrow> distinct (fst t) \<Longrightarrow> [] \<notin> set (fst t) \<Longrightarrow> distinct (fst t') \<and> [] \<notin> set (fst t')"
  "inspectRules ids rules t = Inr t' \<Longrightarrow> distinct (fst t) \<Longrightarrow> [] \<notin> set (fst t) \<Longrightarrow> distinct (fst t') \<and> [] \<notin> set (fst t')"
  by (induction ids rule t and ids rules t arbitrary: t' and t' rule: inspectRule_inspectRules.induct)
    (auto simp: rbind_Inr_iff split: if_splits dest!: inspectPrincipal_targets(1))

subsection \<open>The witness search visits exactly the fillings of the rule\<close>

inductive picks :: "(nat \<Rightarrow> nat \<Rightarrow> bool) \<Rightarrow> nat \<Rightarrow> sig_policy \<Rightarrow> nat list \<Rightarrow> nat list \<Rightarrow> bool"
  and picks_some :: "(nat \<Rightarrow> nat \<Rightarrow> bool) \<Rightarrow> nat \<Rightarrow> sig_policy list \<Rightarrow> nat \<Rightarrow> nat list \<Rightarrow> nat list \<Rightarrow> bool"
  for m n where
  leaf: "i < n \<Longrightarrow> i \<notin> set u \<Longrightarrow> m (nat p) i \<Longrightarrow> picks m n (SignedBy p) u (u @ [i])"
| threshold: "picks_some m n rules (nat k) u u' \<Longrightarrow> picks m n (NOutOf k rules) u u'"
| enough: "picks_some m n rules 0 u u"
| take: "picks m n r u u' \<Longrightarrow> picks_some m n rs k u' u'' \<Longrightarrow> picks_some m n (r # rs) (Suc k) u u''"
| skip: "picks_some m n rs (Suc k) u u' \<Longrightarrow> picks_some m n (r # rs) (Suc k) u u'"

inductive_simps picks_simps [simp]:
  "picks m n (SignedBy p) u u'" "picks m n (NOutOf k rules) u u'" "picks m n NilNOutOf u u'"
  "picks m n NilRule u u'" "picks m n OtherRule u u'"
  "picks_some m n [] k u u'" "picks_some m n rs 0 u u'" "picks_some m n (r # rs) (Suc k) u u'"

lemma picks_some_length: "picks_some m n rs k u u' \<Longrightarrow> k \<le> length rs"
proof (induction rs arbitrary: k u)
  case (Cons r rs)
  then show ?case by (cases k) (auto dest!: Cons.IH)
qed auto

lemma picks_extend:
  "picks m n r u u' \<Longrightarrow> distinct u \<Longrightarrow> set u \<subseteq> {..<n} \<Longrightarrow> distinct u' \<and> set u' \<subseteq> {..<n}"
  "picks_some m n rs k u u' \<Longrightarrow> distinct u \<Longrightarrow> set u \<subseteq> {..<n} \<Longrightarrow> distinct u' \<and> set u' \<subseteq> {..<n}"
  by (induction rule: picks_picks_some.inducts) auto

lemma search_sound:
  "searchPolicy m n rule u next = Some x \<Longrightarrow> \<exists>u'. picks m n rule u u' \<and> next u' = Some x"
  "chooseRules m n rules k u next = Some x \<Longrightarrow> \<exists>u'. picks_some m n rules k u u' \<and> next u' = Some x"
proof (induction m n rule u "next" and m n rules k u "next" arbitrary: x and x rule: searchPolicy_chooseRules.induct)
  case (1 m n p u "next")
  then show ?case by (fastforce dest!: first_some_SomeD split: if_splits)
next
  case (7 m n r rs k u "next")
  show ?case
  proof (cases k)
    case 0
    then show ?thesis using 7(4) by auto
  next
    case (Suc l)
    then show ?thesis using 7 by (fastforce split: if_splits option.splits)
  qed
qed (auto split: if_splits)

lemma search_complete:
  "picks m n rule u u' \<Longrightarrow> \<forall>cont :: nat list \<Rightarrow> 'r option. cont u' \<noteq> None \<longrightarrow> searchPolicy m n rule u cont \<noteq> None"
  "picks_some m n rules k u u' \<Longrightarrow> \<forall>cont :: nat list \<Rightarrow> 'r option. cont u' \<noteq> None \<longrightarrow> chooseRules m n rules k u cont \<noteq> None"
proof (induction rule: picks_picks_some.inducts)
  case (enough rules u)
  then show ?case by (cases rules) auto
next
  case (take r u u' rs k u'')
  have p: "\<forall>cont :: nat list \<Rightarrow> 'r option. cont u' \<noteq> None \<longrightarrow> searchPolicy m n r u cont \<noteq> None"
    and c: "\<forall>cont :: nat list \<Rightarrow> 'r option. cont u'' \<noteq> None \<longrightarrow> chooseRules m n rs k u' cont \<noteq> None"
    by (fact take)+
  show ?case
  proof (intro allI impI)
    fix cont :: "nat list \<Rightarrow> 'r option"
    assume "cont u'' \<noteq> None"
    then have "searchPolicy m n r u (\<lambda>o'. chooseRules m n rs k o' cont) \<noteq> None"
      by (intro p[rule_format] c[rule_format])
    moreover have "k \<le> length rs" using take picks_some_length by blast
    ultimately show "chooseRules m n (r # rs) (Suc k) u cont \<noteq> None" by auto
  qed
next
  case (skip rs k u u' r)
  moreover have "Suc k \<le> length rs" using skip picks_some_length by blast
  ultimately show ?case by (auto split: option.split)
qed auto

text \<open>Renaming candidates along an injection renames the fillings.\<close>

lemma picks_rename:
  assumes "inj_on f {..<n}" "f ` {..<n} \<subseteq> {..<n'}" "\<And>k i. i < n \<Longrightarrow> m' k (f i) = m k i"
  shows "picks m n r u u' \<Longrightarrow> set u \<subseteq> {..<n} \<Longrightarrow> picks m' n' r (map f u) (map f u') \<and> set u' \<subseteq> {..<n}"
    and "picks_some m n rs k u u' \<Longrightarrow> set u \<subseteq> {..<n} \<Longrightarrow> picks_some m' n' rs k (map f u) (map f u') \<and> set u' \<subseteq> {..<n}"
proof (induction rule: picks_picks_some.inducts)
  case (leaf i u p)
  then have "f i \<notin> f ` set u" using assms(1) by (meson inj_on_image_mem_iff lessThan_iff)
  then show ?case using leaf assms(2,3) by (auto simp: image_subset_iff)
qed (auto intro: picks_picks_some.intros)

subsection \<open>The search over signature orders\<close>

lemma freshSigners_sub: "set (freshSigners pf u seen is) \<subseteq> {i \<in> set is. i \<notin> set u \<and> True \<in> set (pf i)}"
  by (induction pf u seen "is" rule: freshSigners.induct) auto

text \<open>Every unused matched candidate has a representative of its profile among the tried ones.\<close>

lemma freshSigners_represents:
  "i \<in> set is \<Longrightarrow> i \<notin> set u \<Longrightarrow> True \<in> set (pf i) \<Longrightarrow> pf i \<notin> set seen
    \<Longrightarrow> \<exists>j \<in> set (freshSigners pf u seen is). pf j = pf i"
proof (induction pf u seen "is" rule: freshSigners.induct)
  case (2 pf order seen x xs)
  then show ?case by (cases "i = x"; cases "pf i = pf x") auto
qed auto

declare searchOrders.simps [simp del]

lemma searchOrders_steps:
  "u \<noteq> [] \<and> accepts u \<Longrightarrow> searchOrders pf accepts n l u = Some u"
  "\<not> (u \<noteq> [] \<and> accepts u) \<Longrightarrow> searchOrders pf accepts n 0 u = None"
  "\<not> (u \<noteq> [] \<and> accepts u) \<Longrightarrow> searchOrders pf accepts n (Suc l) u =
     first_some (\<lambda>i. searchOrders pf accepts n l (u @ [i])) (freshSigners pf u [] [0 ..< n])"
  subgoal by (subst searchOrders.simps) (rule if_P)
  subgoal by (subst searchOrders.simps) (simp only: if_not_P if_False nat.case)
  subgoal by (subst searchOrders.simps) (simp only: if_not_P if_False nat.case)
  done

lemma searchOrders_sound:
  "searchOrders pf accepts n l u = Some r \<Longrightarrow> distinct u \<Longrightarrow> set u \<subseteq> {..<n}
    \<Longrightarrow> accepts r \<and> r \<noteq> [] \<and> distinct r \<and> set r \<subseteq> {..<n}"
proof (induction l arbitrary: u)
  case (Suc l)
  show ?case
  proof (cases "u \<noteq> [] \<and> accepts u")
    case False
    then obtain i where i: "i \<in> set (freshSigners pf u [] [0 ..< n])" "searchOrders pf accepts n l (u @ [i]) = Some r"
      using first_some_SomeD[OF trans[OF searchOrders_steps(3)[of u accepts pf n l, OF False, symmetric] Suc.prems(1)]] by blast
    then show ?thesis using Suc.IH[OF i(2)] freshSigners_sub[of pf u "[]" "[0 ..< n]"] Suc.prems by auto
  qed (use Suc.prems in \<open>auto simp: searchOrders_steps(1)\<close>)
next
  case 0
  then show ?case by (cases "u \<noteq> [] \<and> accepts u") (auto simp: searchOrders_steps)
qed

definition swap_in :: "nat \<Rightarrow> nat \<Rightarrow> nat list \<Rightarrow> nat list" where
  "swap_in x y xs = map (\<lambda>z. if z = y then x else z) xs"

lemma swap_in:
  assumes "distinct (u @ x # xs)" "y \<notin> set u" "pf y = pf x"
  shows "distinct ((u @ [y]) @ swap_in x y xs)" "map pf (swap_in x y xs) = map pf xs"
    "length (swap_in x y xs) = length xs" "set (swap_in x y xs) \<subseteq> insert x (set xs)"
proof -
  have "inj_on (\<lambda>z. if z = y then x else z) (set xs)" using assms by (auto simp: inj_on_def)
  then show "distinct ((u @ [y]) @ swap_in x y xs)" using assms by (auto simp: swap_in_def distinct_map split: if_splits)
qed (use assms in \<open>auto simp: swap_in_def\<close>)

lemma searchOrders_complete:
  assumes "\<And>xs ys. map pf xs = map pf ys \<Longrightarrow> accepts xs \<Longrightarrow> accepts ys"
  shows "u @ xs \<noteq> [] \<Longrightarrow> accepts (u @ xs) \<Longrightarrow> distinct (u @ xs) \<Longrightarrow> set (u @ xs) \<subseteq> {..<n}
    \<Longrightarrow> \<forall>i \<in> set xs. True \<in> set (pf i) \<Longrightarrow> length xs \<le> l \<Longrightarrow> searchOrders pf accepts n l u \<noteq> None"
proof (induction l arbitrary: u xs)
  case (Suc l)
  show ?case
  proof (cases "u \<noteq> [] \<and> accepts u")
    case False
    then obtain x ys where xs: "xs = x # ys" using Suc.prems(1,2) by (cases xs) auto
    obtain y where y: "y \<in> set (freshSigners pf u [] [0 ..< n])" "pf y = pf x"
      using freshSigners_represents[of x "[0 ..< n]" u pf "[]"] Suc.prems xs by auto
    then have fresh: "y \<notin> set u" "y < n" using freshSigners_sub[of pf u "[]" "[0 ..< n]"] by auto
    note sw = swap_in[OF Suc.prems(3)[unfolded xs] fresh(1) y(2)]
    have "searchOrders pf accepts n l (u @ [y]) \<noteq> None"
    proof (rule Suc.IH[of "u @ [y]" "swap_in x y ys"])
      show "accepts ((u @ [y]) @ swap_in x y ys)"
        by (rule assms[OF _ Suc.prems(2)]) (use xs y(2) sw(2) in auto)
      show "\<forall>i \<in> set (swap_in x y ys). True \<in> set (pf i)" using Suc.prems(5) sw(4) xs by auto
    qed (use sw xs Suc.prems fresh in auto)
    then show ?thesis using y(1) unfolding searchOrders_steps(3)[of u accepts pf n l, OF False] by auto
  qed (auto simp: searchOrders_steps(1))
next
  case 0
  then show ?case by (simp add: searchOrders_steps(1))
qed

subsection \<open>The selection\<close>

lemma selectIndices_sound:
  assumes "selectIndices rule ps m accepts n \<noteq> []" "0 < n"
  shows "accepts (selectIndices rule ps m accepts n) \<and> distinct (selectIndices rule ps m accepts n)
    \<and> set (selectIndices rule ps m accepts n) \<subseteq> {..<n}"
proof -
  define final where "final = (\<lambda>order. if accepts (orderOrFirst order) then Some (orderOrFirst order) else None)"
  note sel = selectIndices_def[of rule ps m accepts n, folded final_def]
  show ?thesis
  proof (cases "n = 1 \<and> accepts [0]")
    case None: False
    show ?thesis
    proof (cases "searchPolicy m n rule [] final")
      case (Some order)
      then obtain u where u: "picks m n rule [] u" "final u = Some order" using search_sound(1)[OF Some] by blast
      then have "order = orderOrFirst u" "accepts order" by (auto simp: final_def split: if_splits)
      moreover have "distinct u" "set u \<subseteq> {..<n}" using picks_extend(1)[OF u(1)] by auto
      moreover have "selectIndices rule ps m accepts n = order" using None Some by (auto simp: sel)
      ultimately show ?thesis using assms(2) by (simp add: orderOrFirst_def)
    next
      case search: None
      show ?thesis
      proof (cases "accepts [0 ..< n]")
        case True
        then show ?thesis using None search by (auto simp: sel)
      next
        case False
        then have "selectIndices rule ps m accepts n = searchSignatureOrders (profile m ps) accepts n"
          using assms(1) None search by (auto simp: sel)
        then show ?thesis using assms(1) searchOrders_sound[of "profile m ps" accepts n n "[]"]
          by (auto simp: searchSignatureOrders_def split: option.splits)
      qed
    qed
  next
    case True
    then have "selectIndices rule ps m accepts n = [0]" by (subst sel) simp
    then show ?thesis using True by simp
  qed
qed

lemma selectIndices_complete:
  assumes same: "\<And>xs ys. map (profile m ps) xs = map (profile m ps) ys \<Longrightarrow> accepts xs \<Longrightarrow> accepts ys"
    and filled: "\<And>xs. accepts xs \<Longrightarrow> distinct xs \<Longrightarrow> set xs \<subseteq> {..<n} \<Longrightarrow> \<exists>u. picks m n rule [] u"
    and xs: "xs \<noteq> []" "accepts xs" "distinct xs" "set xs \<subseteq> {..<n}" "\<forall>i \<in> set xs. True \<in> set (profile m ps i)"
  shows "selectIndices rule ps m accepts n \<noteq> []"
proof
  define final where "final = (\<lambda>order. if accepts (orderOrFirst order) then Some (orderOrFirst order) else None)"
  note sel = selectIndices_def[of rule ps m accepts n, folded final_def]
  assume empty: "selectIndices rule ps m accepts n = []"
  have n: "n \<noteq> 0" using xs(1,4) by (cases xs) auto
  have "searchPolicy m n rule [] final \<noteq> Some []"
    using search_sound(1)[of m n rule "[]" final "[]"] by (auto simp: final_def orderOrFirst_def split: if_splits)
  then have none: "\<not> (n = 1 \<and> accepts [0])" "searchPolicy m n rule [] final = None" "\<not> accepts [0 ..< n]"
    using empty n by (auto simp: sel split: if_splits option.splits)
  obtain u where u: "picks m n rule [] u" using filled xs by blast
  then have "searchPolicy m n rule [] (\<lambda>_. Some ()) \<noteq> None" using search_complete(1)[OF u, rule_format, of "\<lambda>_. Some ()"] by simp
  then have "searchSignatureOrders (profile m ps) accepts n = []" using empty none by (auto simp: sel)
  moreover have "length xs \<le> n" using xs(3,4) by (metis card_lessThan card_mono distinct_card finite_lessThan)
  then have "searchOrders (profile m ps) accepts n n [] \<noteq> None"
    using searchOrders_complete[of "profile m ps" accepts "[]" xs n n, OF same] xs by simp
  ultimately show False
    using searchOrders_sound[of "profile m ps" accepts n n "[]"] by (auto simp: searchSignatureOrders_def)
qed

text \<open>What a compiled policy carries: an evaluator exactly with an envelope, whose rule is bounded.\<close>

lemma compiled_policy:
  assumes "newNamespaceEndorsementPolicy q snapshot deserializer = Inr p"
  shows "(ne_policy p = None \<and> ne_envelope p = None) \<or>
    (\<exists>policy rule principals. ne_policy p = Some policy \<and> ne_envelope p = Some (rule, principals) \<and>
       bounded_rule (length principals) rule)"
proof -
  obtain rule env pol ts un where c: "compileNamespaceRule q deserializer rule = Inr (env, pol, ts, un)"
      "ne_policy p = pol" "ne_envelope p = env"
    using assms by (auto simp: newNamespaceEndorsementPolicy_def rbind_Inr_iff)
  show ?thesis
  proof (cases rule)
    case (MspRule raw)
    then obtain r ps x where "inspectRule ps r ([], False) = Inr (ts, un)" "env = Some (r, ps)" "pol = Some x"
      using c(1) by (fastforce simp: compileNamespaceRule_def rbind_Inr_iff)
    then show ?thesis using inspectRule_bounded(1)[of ps r "([], False)" "(ts, un)"] c by simp
  next
    case (ThresholdRule t)
    then show ?thesis using c by (auto simp: compileNamespaceRule_def split: option.splits if_splits)
  next
    case UnsupportedRule
    then show ?thesis using c by (simp add: compileNamespaceRule_def)
  qed
qed

lemma compiled_targets:
  assumes "newNamespaceEndorsementPolicy q snapshot deserializer = Inr p"
  shows "distinct (ne_targetMSPs p) \<and> [] \<notin> set (ne_targetMSPs p)"
proof -
  obtain rule env pol ts un where c: "compileNamespaceRule q deserializer rule = Inr (env, pol, ts, un)" "ne_targetMSPs p = ts"
    using assms by (auto simp: newNamespaceEndorsementPolicy_def rbind_Inr_iff)
  show ?thesis
  proof (cases rule)
    case (MspRule raw)
    then obtain envelope where "inspectRule (snd envelope) (fst envelope) ([], False) = Inr (ts, un)"
      using c by (auto simp: compileNamespaceRule_def rbind_Inr_iff)
    then show ?thesis using inspectRule_targets(1)[of "snd envelope" "fst envelope" "([], False)" "(ts, un)"] c by simp
  next
    case (ThresholdRule t)
    then show ?thesis using c by (auto simp: compileNamespaceRule_def split: option.splits if_splits)
  next
    case UnsupportedRule
    then show ?thesis using c by (simp add: compileNamespaceRule_def)
  qed
qed


subsection \<open>Properties\<close>

text \<open>C26: A namespace policy that compiles is well formed: an MSP policy has an evaluator and an envelope
  whose leaves all name an existing principal and whose thresholds lie between zero and the number of
  their rules, so the selection never indexes outside the principals; a threshold policy has neither.
  The organizations to ask are distinct and none is empty.\<close>

theorem compiled_policy_bounded:
  assumes "newNamespaceEndorsementPolicy q snapshot deserializer = Inr p"
  shows "(case ne_envelope p of
            None \<Rightarrow> ne_policy p = None
          | Some (rule, principals) \<Rightarrow> ne_policy p \<noteq> None \<and> bounded_rule (length principals) rule)
         \<and> ne_snapshot p = snapshot \<and> distinct (ne_targetMSPs p) \<and> [] \<notin> set (ne_targetMSPs p)"
proof -
  have "ne_snapshot p = snapshot" using assms by (auto simp: newNamespaceEndorsementPolicy_def rbind_Inr_iff)
  then show ?thesis using compiled_policy[OF assms] compiled_targets[OF assms] by auto
qed

text \<open>Which principals an identity satisfies, and a declarative reading of a fulfilled rule.\<close>

definition satisfied :: "'id policy_lib \<Rightarrow> principal list \<Rightarrow> 'id list \<Rightarrow> nat \<Rightarrow> nat \<Rightarrow> bool" where
  "satisfied q principals ids k i \<longleftrightarrow> principals ! k \<noteq> PNil \<and> ql_Satisfies q (ids ! i) (principals ! k)"

definition sameProfile :: "'id policy_lib \<Rightarrow> principal list \<Rightarrow> 'id \<Rightarrow> 'id \<Rightarrow> bool" where
  "sameProfile q principals a b \<longleftrightarrow>
     (\<forall>p \<in> set principals. p \<noteq> PNil \<longrightarrow> ql_Satisfies q a p = ql_Satisfies q b p)"

definition signers :: "'id verifiedEndorsement list \<Rightarrow> nat list \<Rightarrow> 'id list" where
  "signers candidates order = map (\<lambda>i. the (ve_identity (candidates ! i))) order"

lemma profile_same:
  assumes "profile (\<lambda>k i. principals ! k \<noteq> PNil \<and> ql_Satisfies q (ident i) (principals ! k)) (length principals) i
    = profile (\<lambda>k i. principals ! k \<noteq> PNil \<and> ql_Satisfies q (ident i) (principals ! k)) (length principals) j"
  shows "sameProfile q principals (ident i) (ident j)"
  unfolding sameProfile_def
proof (intro ballI impI)
  fix p
  assume "p \<in> set principals" "p \<noteq> PNil"
  then obtain k where "k < length principals" "principals ! k = p" by (auto simp: in_set_conv_nth)
  then show "ql_Satisfies q (ident i) p = ql_Satisfies q (ident j) p"
    using assms \<open>p \<noteq> PNil\<close> by (auto simp: profile_def)
qed

text \<open>C14: With an evaluator that sees identities only through the principals they satisfy, and accepts
  only identities among which distinct ones fill the rule, selectEndorsements returns distinct
  candidates that the policy accepts in the returned order, and returns none only when no sequence of
  distinct candidates matching some principal is accepted: no order and no subset is missed, although
  the search tries only one candidate of each profile.\<close>

theorem selection_exact:
  fixes q :: "'id policy_lib"
  assumes pol: "ne_policy p = Some policy" "ne_envelope p = Some (rule, principals)"
    and profiles: "\<And>ids ids'. list_all2 (sameProfile q principals) ids ids' \<Longrightarrow> policy ids \<Longrightarrow> policy ids'"
    and fills: "\<And>ids. policy ids \<Longrightarrow> \<exists>u. picks (satisfied q principals ids) (length ids) rule [] u"
    and sel: "selectEndorsements q p None candidates = Inr sel"
  shows "if sel \<noteq> []
    then distinct sel \<and> set sel \<subseteq> {..<length candidates} \<and> policy (signers candidates sel)
    else \<not> (\<exists>order. order \<noteq> [] \<and> distinct order \<and> set order \<subseteq> {..<length candidates} \<and>
      (\<forall>i \<in> set order. \<exists>k < length principals. satisfied q principals (signers candidates [0 ..< length candidates]) k i) \<and>
      policy (signers candidates order))"
proof (cases "candidates = []")
  case True
  then show ?thesis using sel by (auto simp: selectEndorsements_def ctx_ok_def)
next
  case False
  let ?n = "length candidates" and ?id = "\<lambda>i. the (ve_identity (candidates ! i))"
  let ?m = "\<lambda>k i. principals ! k \<noteq> PNil \<and> ql_Satisfies q (?id i) (principals ! k)"
  let ?acc = "\<lambda>order. policy (map ?id order)"
  have sel': "sel = selectIndices rule (length principals) ?m ?acc ?n"
    using sel pol False by (simp add: selectEndorsements_def ctx_ok_def)
  show ?thesis
  proof (cases "sel = []")
    case nonempty: False
    then show ?thesis using selectIndices_sound[of rule "length principals" ?m ?acc ?n] False
      unfolding sel' signers_def by simp
  next
    case True
    have same: "?acc ys" if eq: "map (profile ?m (length principals)) xs = map (profile ?m (length principals)) ys"
      and acc: "?acc xs" for xs ys
    proof (rule profiles[OF _ acc])
      have len: "length xs = length ys" using map_eq_imp_length_eq[OF eq] .
      have "profile ?m (length principals) (xs ! j) = profile ?m (length principals) (ys ! j)" if "j < length xs" for j
        using arg_cong[OF eq, of "\<lambda>l. l ! j"] that len by (simp only: nth_map)
      then have "sameProfile q principals (?id (xs ! j)) (?id (ys ! j))" if "j < length xs" for j
        using profile_same[of principals q ?id "xs ! j" "ys ! j"] that by blast
      then show "list_all2 (sameProfile q principals) (map ?id xs) (map ?id ys)"
        using len by (simp add: list_all2_conv_all_nth)
    qed
    have filled: "\<exists>u. picks ?m ?n rule [] u" if "?acc xs" "distinct xs" "set xs \<subseteq> {..<?n}" for xs
    proof -
      have "policy (map ?id xs)" using that(1) by simp
      from fills[OF this] obtain u where "picks (satisfied q principals (map ?id xs)) (length xs) rule [] u" by auto
      then have "picks ?m ?n rule (map ((!) xs) []) (map ((!) xs) u)"
        by (rule conjunct1[OF picks_rename(1), rotated 3])
          (use that(2,3) in \<open>auto simp: satisfied_def inj_on_def nth_eq_iff_index_eq subset_iff\<close>)
      then show ?thesis by auto
    qed
    have "False" if o: "order \<noteq> []" "distinct order" "set order \<subseteq> {..<?n}"
        "\<forall>i \<in> set order. \<exists>k < length principals. satisfied q principals (signers candidates [0 ..< ?n]) k i"
        "policy (signers candidates order)" for order
    proof -
      have "True \<in> set (profile ?m (length principals) i)" if "i \<in> set order" for i
        using o(3,4) that by (fastforce simp: profile_def satisfied_def signers_def image_iff)
      then show False
        using selectIndices_complete[of ?m "length principals" ?acc ?n rule order, OF same filled] o True
        by (simp add: sel' signers_def)
    qed
    then show ?thesis using True by auto
  qed
qed

subsection \<open>Instances\<close>

text \<open>A policy one member of Org1 or Org2 satisfies, with identities that are their organization's name.\<close>

definition sample_rule :: sig_policy where
  "sample_rule = NOutOf 1 [SignedBy 0, SignedBy 1]"

definition sample_principals :: "principal list" where
  "sample_principals = [PRole (Some ''Org1''), PRole (Some ''Org2'')]"

definition sample_policy :: "string list \<Rightarrow> bool" where
  "sample_policy ids = list_ex (\<lambda>x. x = ''Org1'' \<or> x = ''Org2'') ids"

definition sample_policy_lib :: "string policy_lib" where
  "sample_policy_lib = \<lparr>ql_Envelope = (\<lambda>_. Some (sample_rule, sample_principals)), ql_NewPolicy = (\<lambda>_ _. Some sample_policy),
     ql_NsVerifier = (\<lambda>_. Some (\<lambda>_ _ _. True)), ql_ASN1 = (\<lambda>_ _ _. Some []),
     ql_Satisfies = (\<lambda>x p. p = PRole (Some x)), ql_EqualFold = (=)\<rparr>"

definition sample_snapshot :: NamespacePolicySnapshot where
  "sample_snapshot = \<lparr>np_Namespace = ''ns'', np_Version = 0, np_RawPolicy = ''r'', np_Policy = Some (MspRule ''raw'')\<rparr>"

definition sample_compiled :: "string namespaceEndorsementPolicy" where
  "sample_compiled = \<lparr>ne_snapshot = sample_snapshot, ne_deserializer = Some [''Org1'', ''Org2''],
     ne_envelope = Some (sample_rule, sample_principals), ne_policy = Some sample_policy,
     ne_verifier = (\<lambda>_ _ _. True), ne_targetMSPs = [''Org1'', ''Org2''], ne_unscoped = False\<rparr>"

lemma sample_compiles:
  "newNamespaceEndorsementPolicy sample_policy_lib sample_snapshot (Some [''Org1'', ''Org2'']) = Inr sample_compiled"
  by (simp add: newNamespaceEndorsementPolicy_def compileNamespaceRule_def sample_snapshot_def sample_policy_lib_def
      sample_rule_def sample_principals_def addTarget_def sample_compiled_def)

theorem compiled_policy_bounded_witness:
  "bounded_rule (length sample_principals) sample_rule \<and> ne_targetMSPs sample_compiled = [''Org1'', ''Org2'']"
  using compiled_policy_bounded[OF sample_compiles] by (simp add: sample_compiled_def)

definition sample_candidates :: "string verifiedEndorsement list" where
  "sample_candidates =
     map (\<lambda>x. \<lparr>ve_result = \<lparr>hr_Endorsement = \<lparr>en_Proposal = None, en_Responses = []\<rparr>, hr_TxID = ''tx'', hr_Response = None,
                 hr_Binding = None\<rparr>, ve_identity = Some x, ve_key = x, ve_mspID = x\<rparr>) [''OTHER'', ''Org2'']"

lemma sample_selects: "selectEndorsements sample_policy_lib sample_compiled None sample_candidates = Inr [1]"
  by (simp add: selectEndorsements_def ctx_ok_def sample_candidates_def sample_compiled_def selectIndices_def
      sample_rule_def sample_principals_def sample_policy_def sample_policy_lib_def orderOrFirst_def upt_rec)

lemma sample_policy_same:
  assumes "list_all2 (sameProfile sample_policy_lib sample_principals) ids ids'" "sample_policy ids"
  shows "sample_policy ids'"
  using assms by (induction rule: list_all2_induct)
    (auto simp: sample_policy_def sameProfile_def sample_principals_def sample_policy_lib_def)

lemma sample_policy_fills:
  assumes "sample_policy ids"
  shows "\<exists>u. picks (satisfied sample_policy_lib sample_principals ids) (length ids) sample_rule [] u"
proof -
  obtain i where i: "i < length ids" "ids ! i = ''Org1'' \<or> ids ! i = ''Org2''"
    using assms by (auto simp: sample_policy_def list_ex_iff in_set_conv_nth)
  have "picks_some (satisfied sample_policy_lib sample_principals ids) (length ids) [SignedBy 0, SignedBy 1] (Suc 0) [] [i]"
    using i by (auto simp: satisfied_def sample_principals_def sample_policy_lib_def)
  then show ?thesis by (auto simp: sample_rule_def)
qed

theorem selection_exact_witness:
  "distinct [1::nat] \<and> set [1] \<subseteq> {..<length sample_candidates} \<and> sample_policy (signers sample_candidates [1])"
  using selection_exact[of sample_compiled sample_policy sample_rule sample_principals sample_policy_lib sample_candidates "[1]",
      OF _ _ sample_policy_same sample_policy_fills sample_selects]
  by (simp add: sample_compiled_def)

end
