(* ===== verification/Endorsement_Collection.thy ===== *)
theory Endorsement_Collection
  imports Policy_Selection Invocation_State
begin

section \<open>Collecting endorsements\<close>

text \<open>
  \<open>assembleSelection\<close>, \<open>compareCanonicalResults\<close>, \<open>mergeEndorsements\<close> and
  \<open>collectNamespaceEndorsements\<close> of \<open>orchestrator/execution.go\<close>.  Discovery and the remote execute-only
  calls are parameters; they are numbered, so an answer and the state of the context may change from
  call to call.
\<close>

subsection \<open>Comparing and merging results\<close>

definition sameBinding :: "LifecycleExecutionBinding option \<Rightarrow> LifecycleExecutionBinding option \<Rightarrow> bool" where
  "sameBinding a b \<longleftrightarrow>
     (case (a, b) of
        (None, None) \<Rightarrow> True
      | (Some x, Some y) \<Rightarrow> xb_ChaincodeName x = xb_ChaincodeName y \<and>
          xb_ChaincodeVersion x = xb_ChaincodeVersion y \<and> xb_Sequence x = xb_Sequence y
      | _ \<Rightarrow> False)"

text \<open>A nil first response panics in the code; it is shown as a missing response.\<close>

definition firstPayload :: "helperExecutionResult \<Rightarrow> bytes option" where
  "firstPayload r = (case en_Responses (hr_Endorsement r) of Some resp # _ \<Rightarrow> Some (ps_Payload resp) | _ \<Rightarrow> None)"

definition compareOne :: "PeerResponse \<Rightarrow> helperExecutionResult \<Rightarrow> helperExecutionResult \<Rightarrow> orch_error + unit" where
  "compareOne resp local result =
     (if \<not> sameBinding (hr_Binding local) (hr_Binding result)
      then Inl (Plain ''remote helper result lifecycle definition mismatch'')
      else case hr_Response result of
        None \<Rightarrow> Inl (Plain ''remote helper result response is nil'')
      | Some r \<Rightarrow>
          (if pr_Status resp \<noteq> pr_Status r then Inl (Plain ''remote helper result status mismatch'')
           else if pr_Message resp \<noteq> pr_Message r then Inl (Plain ''remote helper result message mismatch'')
           else if pr_Payload resp \<noteq> pr_Payload r then Inl (Plain ''remote helper result response payload mismatch'')
           else case (firstPayload local, firstPayload result) of
             (Some a, Some b) \<Rightarrow> guard (a = b) (Plain ''remote helper result transaction payload mismatch'')
           | _ \<Rightarrow> Inl (Plain ''remote helper result missing endorsement response'')))"

fun compareAll :: "PeerResponse \<Rightarrow> helperExecutionResult \<Rightarrow> helperExecutionResult list \<Rightarrow> orch_error + unit" where
  "compareAll resp local [] = Inr ()"
| "compareAll resp local (r # rs) = rbind (compareOne resp local r) (\<lambda>_. compareAll resp local rs)"

definition compareCanonicalResults ::
  "helperExecutionResult \<Rightarrow> helperExecutionResult list \<Rightarrow> orch_error + unit" where
  "compareCanonicalResults local remote =
     rbind (require (Plain ''local helper response is nil'') (hr_Response local)) (\<lambda>resp. compareAll resp local remote)"

definition mergeEndorsements ::
  "helperExecutionResult \<Rightarrow> helperExecutionResult list \<Rightarrow> orch_error + Endorsement" where
  "mergeEndorsements local remote =
     (let responses = en_Responses (hr_Endorsement local) @ concat (map (\<lambda>r. en_Responses (hr_Endorsement r)) remote) in
      case en_Proposal (hr_Endorsement local) of
        None \<Rightarrow> Inl (Plain ''local endorsement has no proposal'')
      | Some p \<Rightarrow> (if responses = [] then Inl (Plain ''no endorsement responses to merge'')
          else Inr \<lparr>en_Proposal = Some p, en_Responses = responses\<rparr>))"

subsection \<open>Assembling a selection\<close>

fun firstIndex :: "('a \<Rightarrow> bool) \<Rightarrow> 'a list \<Rightarrow> nat option" where
  "firstIndex P [] = None"
| "firstIndex P (x # xs) = (if P x then Some 0 else map_option Suc (firstIndex P xs))"

text \<open>One candidate of every requested organization, in the order of the request; \<open>None\<close> when one is missing.\<close>

fun requestedIndices :: "'id verifiedEndorsement list \<Rightarrow> string list \<Rightarrow> string list \<Rightarrow> nat list option" where
  "requestedIndices candidates seen [] = Some []"
| "requestedIndices candidates seen (mspID # rest) =
     (if mspID \<in> set seen then requestedIndices candidates seen rest
      else case firstIndex (\<lambda>c. ve_mspID c = mspID) candidates of
        None \<Rightarrow> None
      | Some i \<Rightarrow> map_option ((#) i) (requestedIndices candidates (mspID # seen) rest))"

definition chooseCandidates ::
  "'id policy_lib \<Rightarrow> 'id namespaceEndorsementPolicy \<Rightarrow> ctx \<Rightarrow> 'id verifiedEndorsement list \<Rightarrow> string list
    \<Rightarrow> orch_error + nat list" where
  "chooseCandidates q p ctx candidates requested =
     (if requested = [] then selectEndorsements q p ctx candidates
      else case requestedIndices candidates [] requested of
        None \<Rightarrow> Inr []
      | Some indices \<Rightarrow> rbind (ctx_ok ctx) (\<lambda>_. Inr indices))"

definition assembleSelection ::
  "proto_lib \<Rightarrow> 'id policy_lib \<Rightarrow> 'id namespaceEndorsementPolicy \<Rightarrow> ctx \<Rightarrow> helperExecutionResult
    \<Rightarrow> 'id verifiedEndorsement list \<Rightarrow> string list \<Rightarrow> orch_error + (Endorsement \<times> helperExecutionResult list) option" where
  "assembleSelection plib q p ctx local candidates requested =
     rbind (chooseCandidates q p ctx candidates requested) (\<lambda>indices.
     if indices = [] then Inr None
     else
       (let chosen = map (\<lambda>i. ve_result (candidates ! i)) indices;
            remote = map (\<lambda>i. ve_result (candidates ! i)) (filter (\<lambda>i. i \<noteq> 0) indices) in
        rbind (mergeEndorsements (hd chosen) (tl chosen)) (\<lambda>merged.
        (let sel = merged\<lparr>en_Proposal := en_Proposal (hr_Endorsement local)\<rparr> in
         rbind (if requested = []
                then map_error (Wrapped ''verify collected namespace endorsements'') (verifySelection plib p sel (hr_TxID local))
                else Inr ()) (\<lambda>_.
         Inr (Some (sel, remote)))))))"

subsection \<open>Asking the remote organizations\<close>

record resolve_request =
  rr_RequesterMSPID :: string
  rr_TargetMSPID :: string
  rr_ChannelID :: string
  rr_Namespace :: string
  rr_ChaincodeName :: string
  rr_ChaincodeVersion :: string
  rr_Sequence :: int

record remote_contact =
  rc_Address :: string
  rc_EndorseOnly :: "nat \<Rightarrow> InvocationRequest \<Rightarrow> orch_error + helperExecutionResult"

record remote_resolver =
  rm_AvailableMSPs :: "string list"
  rm_Resolve :: "nat \<Rightarrow> resolve_request \<Rightarrow> orch_error + remote_contact option list"

record 'id collection =
  cl_candidates :: "'id verifiedEndorsement list"
  cl_failures :: "orch_error list"
  cl_calls :: nat

type_synonym collected = "orch_error + Endorsement \<times> helperExecutionResult list"

text \<open>What stays fixed while endorsements are collected.\<close>

record 'id collector =
  co_msp :: "'id msp_lib"
  co_proto :: proto_lib
  co_lib :: "'id policy_lib"
  co_policy :: "'id namespaceEndorsementPolicy"
  co_ctx :: "nat \<Rightarrow> ctx"
  co_now :: int
  co_local :: helperExecutionResult
  co_request :: InvocationRequest

definition requireMSP :: "'id collector \<Rightarrow> bool" where
  "requireMSP co \<longleftrightarrow> ir_EndorsingOrganizations (co_request co) \<noteq> []"

definition assemble :: "'id collector \<Rightarrow> 'id collection \<Rightarrow> collected option" where
  "assemble co st =
     (case assembleSelection (co_proto co) (co_lib co) (co_policy co) (co_ctx co (cl_calls st)) (co_local co)
             (cl_candidates st) (ir_EndorsingOrganizations (co_request co)) of
        Inl e \<Rightarrow> Some (Inl e)
      | Inr None \<Rightarrow> None
      | Inr (Some r) \<Rightarrow> Some (Inr r))"

definition fail :: "orch_error \<Rightarrow> 'id collection \<Rightarrow> 'id collection" where
  "fail e st = st\<lparr>cl_failures := cl_failures st @ [e]\<rparr>"

text \<open>One remote call; \<open>Some\<close> is a return of the whole collection.\<close>

definition askContact ::
  "'id collector \<Rightarrow> string \<Rightarrow> remote_contact \<Rightarrow> 'id collection \<Rightarrow> collected option \<times> 'id collection" where
  "askContact co mspID contact st =
     (let st' = st\<lparr>cl_calls := Suc (cl_calls st)\<rparr> in
      case rc_EndorseOnly contact (cl_calls st) (co_request co) of
        Inl e \<Rightarrow> (None, fail e st')
      | Inr result \<Rightarrow>
          (if hr_TxID result \<noteq> hr_TxID (co_local co)
           then (Some (Inl (Plain ''remote execution transaction ID mismatch'')), st')
           else case authenticateEndorsement (co_msp co) (co_proto co) (co_lib co) (co_policy co) result mspID
                       (requireMSP co) (co_now co) of
             Inl e \<Rightarrow> (None, fail (Wrapped ''endorser'' e) st')
           | Inr verified \<Rightarrow>
               (case compareCanonicalResults (co_local co) [result] of
                  Inl e \<Rightarrow> (Some (Inl e), st')
                | Inr _ \<Rightarrow>
                    (if ve_key verified \<in> ve_key ` set (cl_candidates st') then (None, st')
                     else
                       (let st'' = st'\<lparr>cl_candidates := cl_candidates st' @ [verified]\<rparr> in
                        (assemble co st'', st''))))))"

fun askContacts ::
  "'id collector \<Rightarrow> string \<Rightarrow> string list \<Rightarrow> remote_contact option list \<Rightarrow> 'id collection
    \<Rightarrow> collected option \<times> 'id collection" where
  "askContacts co mspID visited [] st = (None, st)"
| "askContacts co mspID visited (c # cs) st =
     (case co_ctx co (cl_calls st) of
        Some e \<Rightarrow> (Some (Inl (CtxError e)), st)
      | None \<Rightarrow>
          (case c of
             None \<Rightarrow> askContacts co mspID visited cs st
           | Some contact \<Rightarrow>
               (if rc_Address contact \<in> set visited then askContacts co mspID visited cs st
                else case askContact co mspID contact st of
                  (Some r, st') \<Rightarrow> (Some r, st')
                | (None, st') \<Rightarrow> askContacts co mspID (rc_Address contact # visited) cs st')))"

definition resolveRequest :: "Config \<Rightarrow> 'id collector \<Rightarrow> string \<Rightarrow> string \<Rightarrow> resolve_request" where
  "resolveRequest cfg co localMSPID mspID =
     \<lparr>rr_RequesterMSPID = localMSPID, rr_TargetMSPID = mspID, rr_ChannelID = cf_ChannelID cfg,
      rr_Namespace = np_Namespace (ne_snapshot (co_policy co)), rr_ChaincodeName = ir_ChaincodeName (co_request co),
      rr_ChaincodeVersion = ir_ChaincodeVersion (co_request co), rr_Sequence = 0\<rparr>"

fun askTargets ::
  "Config \<Rightarrow> 'id collector \<Rightarrow> remote_resolver \<Rightarrow> string \<Rightarrow> string list \<Rightarrow> string list \<Rightarrow> 'id collection
    \<Rightarrow> collected option \<times> 'id collection" where
  "askTargets cfg co rs localMSPID visited [] st = (None, st)"
| "askTargets cfg co rs localMSPID visited (mspID # targets) st =
     (case co_ctx co (cl_calls st) of
        Some e \<Rightarrow> (Some (Inl (CtxError e)), st)
      | None \<Rightarrow>
          (if mspID \<in> set visited then askTargets cfg co rs localMSPID visited targets st
           else if mspID \<notin> set (rm_AvailableMSPs rs) then askTargets cfg co rs localMSPID (mspID # visited) targets st
           else
             (let st' = st\<lparr>cl_calls := Suc (cl_calls st)\<rparr> in
              case rm_Resolve rs (cl_calls st) (resolveRequest cfg co localMSPID mspID) of
                Inl e \<Rightarrow> askTargets cfg co rs localMSPID (mspID # visited) targets (fail (Wrapped ''resolve endorsers'' e) st')
              | Inr contacts \<Rightarrow>
                  (case askContacts co mspID [] contacts st' of
                     (Some r, st'') \<Rightarrow> (Some r, st'')
                   | (None, st'') \<Rightarrow> askTargets cfg co rs localMSPID (mspID # visited) targets st''))))"

definition targetMSPs :: "'id namespaceEndorsementPolicy \<Rightarrow> InvocationRequest \<Rightarrow> string list \<Rightarrow> string list" where
  "targetMSPs p req available =
     (if ir_EndorsingOrganizations req \<noteq> [] then ir_EndorsingOrganizations req
      else if ne_unscoped p then ne_targetMSPs p @ sort (remdups available)
      else ne_targetMSPs p)"

text \<open>
  The whole collection; \<open>remotes\<close> is \<open>None\<close> without a resolver and \<open>msps\<close> without trusted
  organizations.
\<close>

definition collectNamespaceEndorsements ::
  "'id msp_lib \<Rightarrow> proto_lib \<Rightarrow> 'id policy_lib \<Rightarrow> Config \<Rightarrow> string list option \<Rightarrow> remote_resolver option
    \<Rightarrow> (nat \<Rightarrow> ctx) \<Rightarrow> int \<Rightarrow> NamespacePolicySnapshot \<Rightarrow> InvocationRequest \<Rightarrow> helperExecutionResult \<Rightarrow> collected" where
  "collectNamespaceEndorsements lib plib q cfg msps remotes ctx now policy req local =
     (let localMSPID = (case cf_MspID cfg of None \<Rightarrow> [] | Some m \<Rightarrow> m);
          rs = (case remotes of None \<Rightarrow> \<lparr>rm_AvailableMSPs = [], rm_Resolve = (\<lambda>_ _. Inr [])\<rparr> | Some r \<Rightarrow> r);
          req' = req\<lparr>ir_Namespace := np_Namespace policy\<rparr> in
      rbind (newNamespaceEndorsementPolicy q policy msps) (\<lambda>compiled.
      if ir_ClientTxID req \<noteq> [] \<and> ir_ClientTxID req \<noteq> hr_TxID local
      then Inl (Plain ''local execution transaction ID does not match client proposal'')
      else
        (let co = \<lparr>co_msp = lib, co_proto = plib, co_lib = q, co_policy = compiled, co_ctx = ctx, co_now = now,
                   co_local = local, co_request = req'\<rparr> in
         rbind (map_error (Wrapped ''local endorsement'')
           (authenticateEndorsement lib plib q compiled local localMSPID (requireMSP co) now)) (\<lambda>verified.
         (let st = \<lparr>cl_candidates = [verified], cl_failures = [], cl_calls = 0\<rparr> in
          case assemble co st of
            Some r \<Rightarrow> r
          | None \<Rightarrow>
              (if ir_ClientSignedProposal req = None
               then Inl (Plain ''remote orchestrator execution requires the original signed proposal'')
               else case askTargets cfg co rs localMSPID [] (targetMSPs compiled req (rm_AvailableMSPs rs)) st of
                 (Some r, _) \<Rightarrow> r
               | (None, st') \<Rightarrow> Inl (Joined (Plain ''endorsements are not sufficient'' # cl_failures st'))))))))"


subsection \<open>What was collected\<close>

lemma authenticated:
  assumes "authenticateEndorsement lib plib q p result msp req now = Inr c"
  shows "ve_result c = result \<and> ve_mspID c = msp \<and> (\<exists>r. en_Responses (hr_Endorsement result) = [Some r])"
proof -
  obtain e tx ns where t: "endorsedTransaction plib p result = Inr (e, tx, ns)"
    using assms by (auto simp: authenticateEndorsement_def rbind_Inr_iff)
  then have "\<exists>r. en_Responses (hr_Endorsement result) = [Some r]"
    by (auto simp: endorsedTransaction_def split: list.splits option.splits)
  then show ?thesis using assms t
    by (auto simp: authenticateEndorsement_def authenticateIdentity_def rbind_Inr_iff split: if_splits)
qed

text \<open>A candidate is authenticated, belongs to the local transaction and carries its payload.\<close>

definition goodCandidate :: "'id collector \<Rightarrow> 'id verifiedEndorsement \<Rightarrow> bool" where
  "goodCandidate co c \<longleftrightarrow>
     authenticateEndorsement (co_msp co) (co_proto co) (co_lib co) (co_policy co) (ve_result c) (ve_mspID c)
       (requireMSP co) (co_now co) = Inr c \<and>
     hr_TxID (ve_result c) = hr_TxID (co_local co) \<and> firstPayload (ve_result c) = firstPayload (co_local co)"

definition collection_inv :: "'id collector \<Rightarrow> 'id collection \<Rightarrow> bool" where
  "collection_inv co st \<longleftrightarrow>
     (\<forall>c \<in> set (cl_candidates st). goodCandidate co c) \<and> distinct (map ve_key (cl_candidates st))"

definition sufficient :: "'id collector \<Rightarrow> Endorsement \<Rightarrow> bool" where
  "sufficient co sel \<longleftrightarrow> (\<exists>cs. cs \<noteq> [] \<and> (\<forall>c \<in> set cs. goodCandidate co c) \<and> distinct (map ve_key cs) \<and>
     en_Proposal sel = en_Proposal (hr_Endorsement (co_local co)) \<and>
     en_Responses sel = concat (map (\<lambda>c. en_Responses (hr_Endorsement (ve_result c))) cs) \<and>
     (if requireMSP co then ve_mspID ` set cs = set (ir_EndorsingOrganizations (co_request co))
      else verifySelection (co_proto co) (co_policy co) sel (hr_TxID (co_local co)) = Inr ()))"

lemma firstIndex_Some: "firstIndex P xs = Some i \<Longrightarrow> i < length xs \<and> P (xs ! i)"
  by (induction xs arbitrary: i) (auto split: if_splits)

lemma requestedIndices_ok:
  "requestedIndices cs seen req = Some idx \<Longrightarrow>
     (\<forall>i \<in> set idx. i < length cs) \<and> distinct (map (\<lambda>i. ve_mspID (cs ! i)) idx) \<and>
     (\<lambda>i. ve_mspID (cs ! i)) ` set idx = set req - set seen"
proof (induction cs seen req arbitrary: idx rule: requestedIndices.induct)
  case (2 cs seen mspID rest)
  show ?case
  proof (cases "mspID \<in> set seen")
    case True
    then show ?thesis using 2 by auto
  next
    case False
    then obtain i js where i: "firstIndex (\<lambda>c. ve_mspID c = mspID) cs = Some i"
        and js: "requestedIndices cs (mspID # seen) rest = Some js" "idx = i # js"
      using 2(3) by (auto split: option.splits)
    have "(\<forall>i \<in> set js. i < length cs) \<and> distinct (map (\<lambda>i. ve_mspID (cs ! i)) js) \<and>
       (\<lambda>i. ve_mspID (cs ! i)) ` set js = set rest - set (mspID # seen)"
      using 2(2)[OF False i js(1)] .
    then show ?thesis using firstIndex_Some[OF i] False js(2) by auto
  qed
qed simp

lemma selectEndorsements_ok:
  assumes "selectEndorsements q p ctx cs = Inr idx"
  shows "distinct idx \<and> set idx \<subseteq> {..<length cs}"
proof (cases "cs = []")
  case True
  then show ?thesis using assms by (auto simp: selectEndorsements_def rbind_Inr_iff)
next
  case False
  then have "idx = [0] \<or> (\<exists>rule ps m acc. idx = selectIndices rule ps m acc (length cs))"
    using assms by (auto simp: selectEndorsements_def rbind_Inr_iff Let_def split: option.splits)
  then show ?thesis
  proof
    assume "\<exists>rule ps m acc. idx = selectIndices rule ps m acc (length cs)"
    then obtain rule ps m acc where idx: "idx = selectIndices rule ps m acc (length cs)" by blast
    show ?thesis using selectIndices_sound[of rule ps m acc "length cs"] False unfolding idx[symmetric]
      by (cases "idx = []") auto
  qed (use False in auto)
qed

lemma chooseCandidates_ok:
  assumes "chooseCandidates q p ctx cs req = Inr idx" "idx \<noteq> []"
  shows "distinct idx \<and> set idx \<subseteq> {..<length cs} \<and> (req \<noteq> [] \<longrightarrow> (\<lambda>i. ve_mspID (cs ! i)) ` set idx = set req)"
proof (cases "req = []")
  case True
  then show ?thesis using assms selectEndorsements_ok[of q p ctx cs idx] by (simp add: chooseCandidates_def)
next
  case False
  then have "requestedIndices cs [] req = Some idx"
    using assms by (auto simp: chooseCandidates_def rbind_Inr_iff split: option.splits)
  from requestedIndices_ok[OF this] show ?thesis by (auto simp: distinct_map)
qed

lemma merge_responses:
  "mergeEndorsements r rs = Inr merged \<Longrightarrow>
     en_Responses merged = concat (map (\<lambda>r. en_Responses (hr_Endorsement r)) (r # rs))"
  by (auto simp: mergeEndorsements_def Let_def split: option.splits if_splits)

lemma assemble_sufficient:
  assumes "collection_inv co st" "assemble co st = Some (Inr (sel, remote))"
  shows "sufficient co sel"
proof -
  let ?cs = "cl_candidates st" and ?req = "ir_EndorsingOrganizations (co_request co)"
  obtain idx where idx: "chooseCandidates (co_lib co) (co_policy co) (co_ctx co (cl_calls st)) ?cs ?req = Inr idx" "idx \<noteq> []"
    and rest: "\<exists>merged. mergeEndorsements (hd (map (\<lambda>i. ve_result (?cs ! i)) idx)) (tl (map (\<lambda>i. ve_result (?cs ! i)) idx)) = Inr merged
      \<and> sel = merged\<lparr>en_Proposal := en_Proposal (hr_Endorsement (co_local co))\<rparr>
      \<and> (?req = [] \<longrightarrow> verifySelection (co_proto co) (co_policy co) sel (hr_TxID (co_local co)) = Inr ())"
    using assms(2) by (auto simp: assemble_def assembleSelection_def rbind_Inr_iff Let_def
        split: sum.splits option.splits if_splits)
  note ok = chooseCandidates_ok[OF idx]
  define picked where "picked = map (\<lambda>i. ?cs ! i) idx"
  have "inj_on (\<lambda>i. ve_key (?cs ! i)) (set idx)"
    using assms(1) ok nth_eq_iff_index_eq[of "map ve_key ?cs"] by (auto simp: collection_inv_def inj_on_def subset_iff)
  then have keys: "distinct (map ve_key picked)" using ok by (simp add: picked_def distinct_map comp_inj_on_iff inj_on_def)
  have good: "\<forall>c \<in> set picked. goodCandidate co c"
    using assms(1) ok by (auto simp: collection_inv_def picked_def subset_iff)
  obtain i js where cons: "idx = i # js" using idx(2) by (cases idx) auto
  have "en_Responses sel = concat (map (\<lambda>c. en_Responses (hr_Endorsement (ve_result c))) picked)"
    using rest merge_responses by (fastforce simp: cons picked_def comp_def)
  moreover have "requireMSP co \<longrightarrow> ve_mspID ` set picked = set ?req"
    using ok by (auto simp: requireMSP_def picked_def image_image)
  moreover have "en_Proposal sel = en_Proposal (hr_Endorsement (co_local co))" using rest by auto
  moreover have "\<not> requireMSP co \<longrightarrow> verifySelection (co_proto co) (co_policy co) sel (hr_TxID (co_local co)) = Inr ()"
    using rest by (auto simp: requireMSP_def)
  moreover have "picked \<noteq> []" using idx(2) by (simp add: picked_def)
  ultimately show ?thesis using keys good unfolding sufficient_def by (intro exI[of _ picked]) auto
qed

lemma compared_payload:
  "compareCanonicalResults local [result] = Inr u \<Longrightarrow> firstPayload result = firstPayload local"
  by (auto simp: compareCanonicalResults_def rbind_Inr_iff compareOne_def split: if_splits option.splits)

lemma askContact_ok:
  assumes "collection_inv co st"
  shows "case askContact co mspID contact st of
      (Some (Inr (sel, remote)), st') \<Rightarrow> sufficient co sel
    | (Some (Inl e), st') \<Rightarrow> True
    | (None, st') \<Rightarrow> collection_inv co st'"
proof -
  let ?st = "st\<lparr>cl_calls := Suc (cl_calls st)\<rparr>"
  have keep: "collection_inv co (fail e ?st)" "collection_inv co ?st" for e
    using assms by (simp_all add: collection_inv_def fail_def)
  show ?thesis
  proof (cases "rc_EndorseOnly contact (cl_calls st) (co_request co)")
    case (Inl e)
    then show ?thesis using keep by (simp add: askContact_def)
  next
    case (Inr result)
    show ?thesis
    proof (cases "hr_TxID result = hr_TxID (co_local co)")
      case tx: True
      show ?thesis
      proof (cases "authenticateEndorsement (co_msp co) (co_proto co) (co_lib co) (co_policy co) result mspID
          (requireMSP co) (co_now co)")
        case (Inl e)
        then show ?thesis using keep Inr tx by (simp add: askContact_def)
      next
        case v: (Inr c)
        show ?thesis
        proof (cases "compareCanonicalResults (co_local co) [result]")
          case (Inl e)
          then show ?thesis using Inr tx v by (simp add: askContact_def)
        next
          case cmp: (Inr u)
          have good: "goodCandidate co c"
            using authenticated[OF v] v tx compared_payload[OF cmp] by (simp add: goodCandidate_def)
          show ?thesis
          proof (cases "ve_key c \<in> ve_key ` set (cl_candidates st)")
            case True
            then show ?thesis using Inr tx v cmp keep by (simp add: askContact_def)
          next
            case new: False
            let ?st2 = "?st\<lparr>cl_candidates := cl_candidates st @ [c]\<rparr>"
            have inv: "collection_inv co ?st2" using assms good new by (auto simp: collection_inv_def)
            have "askContact co mspID contact st = (assemble co ?st2, ?st2)"
              using Inr tx v cmp new by (simp add: askContact_def Let_def)
            then show ?thesis using inv assemble_sufficient[OF inv]
              by (auto split: option.split sum.split)
          qed
        qed
      qed
    qed (simp add: askContact_def Inr)
  qed
qed

abbreviation collects :: "'id collector \<Rightarrow> collected option \<times> 'id collection \<Rightarrow> bool" where
  "collects co r \<equiv> (case r of
      (Some (Inr (sel, remote)), st') \<Rightarrow> sufficient co sel
    | (Some (Inl e), st') \<Rightarrow> True
    | (None, st') \<Rightarrow> collection_inv co st')"

lemma askContacts_ok: "collection_inv co st \<Longrightarrow> collects co (askContacts co mspID visited contacts st)"
proof (induction co mspID visited contacts st rule: askContacts.induct)
  case (2 co mspID visited c cs st)
  note step = askContact_ok[OF "2.prems", of mspID]
  show ?case
  proof (cases "co_ctx co (cl_calls st)")
    case ctx: None
    show ?thesis
    proof (cases c)
      case None
      then show ?thesis using 2 ctx by simp
    next
      case (Some contact)
      show ?thesis
      proof (cases "rc_Address contact \<in> set visited")
        case True
        then show ?thesis using 2 ctx Some by simp
      next
        case False
        obtain r st' where a: "askContact co mspID contact st = (r, st')" by fastforce
        show ?thesis using 2 ctx Some False step[of contact] a
          by (cases r) (auto split: sum.splits)
      qed
    qed
  qed simp
qed simp

lemma askTargets_ok: "collection_inv co st \<Longrightarrow> collects co (askTargets cfg co rs l visited targets st)"
proof (induction cfg co rs l visited targets st rule: askTargets.induct)
  case (2 cfg co rs l visited mspID targets st)
  let ?st = "st\<lparr>cl_calls := Suc (cl_calls st)\<rparr>"
  have keep: "collection_inv co (fail e ?st)" "collection_inv co ?st" for e
    using "2.prems" by (simp_all add: collection_inv_def fail_def)
  show ?case
  proof (cases "co_ctx co (cl_calls st) = None \<and> mspID \<notin> set visited \<and> mspID \<in> set (rm_AvailableMSPs rs)")
    case False
    then show ?thesis using 2 by (cases "co_ctx co (cl_calls st)") auto
  next
    case live: True
    show ?thesis
    proof (cases "rm_Resolve rs (cl_calls st) (resolveRequest cfg co l mspID)")
      case (Inl e)
      then show ?thesis using 2(3) live keep by (simp add: Let_def)
    next
      case (Inr contacts)
      obtain r st' where a: "askContacts co mspID [] contacts ?st = (r, st')" by fastforce
      have "collects co (r, st')" using askContacts_ok[OF keep(2), of mspID "[]" contacts] a by simp
      then show ?thesis using 2(4) live Inr a by (cases r) (auto simp: Let_def split: sum.splits)
    qed
  qed
qed simp


text \<open>C15: Endorsements returned by the collection are a set that may be submitted: every one was
  authenticated under the namespace policy for the local transaction, all carry the transaction
  payload of the local execution, no signer is counted twice, the proposal is the local one, and
  either the whole selection passes the namespace signature verification or, when the client named
  organizations, it has an authenticated endorsement of each of them and of no other.\<close>

theorem collected_endorsements_agree:
  assumes "collectNamespaceEndorsements lib plib q cfg msps remotes ctx now policy req local = Inr (sel, remote)"
  shows "\<exists>compiled cs. newNamespaceEndorsementPolicy q policy msps = Inr compiled \<and> cs \<noteq> [] \<and>
    distinct (map ve_key cs) \<and>
    (\<forall>c \<in> set cs. authenticateEndorsement lib plib q compiled (ve_result c) (ve_mspID c)
         (ir_EndorsingOrganizations req \<noteq> []) now = Inr c \<and>
       hr_TxID (ve_result c) = hr_TxID local \<and> firstPayload (ve_result c) = firstPayload local) \<and>
    en_Proposal sel = en_Proposal (hr_Endorsement local) \<and>
    en_Responses sel = concat (map (\<lambda>c. en_Responses (hr_Endorsement (ve_result c))) cs) \<and>
    (if ir_EndorsingOrganizations req = [] then verifySelection plib compiled sel (hr_TxID local) = Inr ()
     else ve_mspID ` set cs = set (ir_EndorsingOrganizations req))"
proof -
  let ?l = "case cf_MspID cfg of None \<Rightarrow> [] | Some m \<Rightarrow> m"
  obtain compiled where compiled: "newNamespaceEndorsementPolicy q policy msps = Inr compiled"
    using assms by (auto simp: collectNamespaceEndorsements_def rbind_Inr_iff Let_def)
  define co where "co = \<lparr>co_msp = lib, co_proto = plib, co_lib = q, co_policy = compiled, co_ctx = ctx, co_now = now,
                   co_local = local, co_request = req\<lparr>ir_Namespace := np_Namespace policy\<rparr>\<rparr>"
  have req: "requireMSP co \<longleftrightarrow> ir_EndorsingOrganizations req \<noteq> []" by (simp add: requireMSP_def co_def)
  obtain v where v: "authenticateEndorsement lib plib q compiled local ?l (requireMSP co) now = Inr v"
    using assms compiled by (auto simp: collectNamespaceEndorsements_def rbind_Inr_iff Let_def co_def split: if_splits)
  define st where "st = \<lparr>cl_candidates = [v], cl_failures = [], cl_calls = 0\<rparr>"
  have inv: "collection_inv co st"
    using v authenticated[OF v] by (simp add: collection_inv_def st_def goodCandidate_def co_def)
  have "sufficient co sel"
  proof (cases "assemble co st")
    case (Some r)
    then have "r = Inr (sel, remote)"
      using assms compiled v by (auto simp: collectNamespaceEndorsements_def Let_def co_def st_def split: if_splits)
    then show ?thesis using assemble_sufficient[OF inv] Some by simp
  next
    case None
    then obtain rs targets st' where "askTargets cfg co rs ?l [] targets st = (Some (Inr (sel, remote)), st')"
      using assms compiled v
      by (auto simp: collectNamespaceEndorsements_def Let_def co_def st_def split: if_splits prod.splits option.splits)
    then show ?thesis using askTargets_ok[OF inv, of cfg rs ?l "[]" targets] by simp
  qed
  moreover have fields: "co_msp co = lib" "co_proto co = plib" "co_lib co = q" "co_policy co = compiled" "co_now co = now"
    "co_local co = local" "ir_EndorsingOrganizations (co_request co) = ir_EndorsingOrganizations req"
    by (simp_all add: co_def)
  ultimately obtain cs where "cs \<noteq> [] \<and> (\<forall>c \<in> set cs. goodCandidate co c) \<and> distinct (map ve_key cs) \<and>
     en_Proposal sel = en_Proposal (hr_Endorsement local) \<and>
     en_Responses sel = concat (map (\<lambda>c. en_Responses (hr_Endorsement (ve_result c))) cs) \<and>
     (if requireMSP co then ve_mspID ` set cs = set (ir_EndorsingOrganizations req)
      else verifySelection plib compiled sel (hr_TxID local) = Inr ())"
    unfolding sufficient_def fields by blast
  then show ?thesis unfolding goodCandidate_def req fields
    by (intro exI[of _ compiled] exI[of _ cs]) (simp add: compiled split: if_splits)
qed

subsection \<open>An instance\<close>

text \<open>A client asks Org1 and Org2; Org1 executed locally, a contact of Org2 returns the same result.\<close>

definition sample_result :: "string \<Rightarrow> helperExecutionResult" where
  "sample_result m = \<lparr>hr_Endorsement = \<lparr>en_Proposal = Some sample_proposal,
       en_Responses = [Some \<lparr>ps_Response = Some \<lparr>pr_Status = 200, pr_Message = [], pr_Payload = ''v''\<rparr>, ps_Payload = ''tx'',
         ps_Endorsement = Some \<lparr>pe_Endorser = m, pe_Signature = ''S''\<rparr>\<rparr>]\<rparr>,
     hr_TxID = ''t1'', hr_Response = Some \<lparr>pr_Status = 200, pr_Message = [], pr_Payload = ''v''\<rparr>, hr_Binding = None\<rparr>"

definition endorsing_proto :: proto_lib where
  "endorsing_proto = sample_proto\<lparr>pl_Tx := (\<lambda>_. Some \<lparr>tx_Namespaces = [\<lparr>tn_NsId = ''ns'', tn_NsVersion = 0, tn_Content = []\<rparr>],
     tx_Metadata = []\<rparr>), pl_Identity := (\<lambda>m. Some (m, ''cert''))\<rparr>"

definition endorsing_request :: InvocationRequest where
  "endorsing_request = sample_invocation\<lparr>ir_ClientTxID := ''t1'', ir_ClientSignedProposal := Some sample_signed,
     ir_EndorsingOrganizations := [''Org1'', ''Org2'']\<rparr>"

definition sample_remotes :: remote_resolver where
  "sample_remotes = \<lparr>rm_AvailableMSPs = [''Org2''],
     rm_Resolve = (\<lambda>_ _. Inr [Some \<lparr>rc_Address = ''a:1'', rc_EndorseOnly = (\<lambda>_ _. Inr (sample_result ''Org2''))\<rparr>])\<rparr>"

definition collected_sample :: Endorsement where
  "collected_sample = \<lparr>en_Proposal = Some sample_proposal,
     en_Responses = en_Responses (hr_Endorsement (sample_result ''Org1'')) @ en_Responses (hr_Endorsement (sample_result ''Org2''))\<rparr>"

lemma sample_authenticates:
  assumes "m = ''Org1'' \<or> m = ''Org2''"
  shows "authenticateEndorsement sample_lib endorsing_proto sample_policy_lib sample_compiled (sample_result m) m True 10 =
    Inr \<lparr>ve_result = sample_result m, ve_identity = Some m, ve_key = m @ CHR 0x00 # m, ve_mspID = m\<rparr>"
  using assms
  by (auto simp: authenticateEndorsement_def endorsedTransaction_def authenticateIdentity_def sample_result_def
      sample_compiled_def endorsing_proto_def sample_lib_def sample_policy_lib_def failedResponse_def sample_snapshot_def
      ValidateIdentityTime_def guard_def)

lemma sample_collects:
  "collectNamespaceEndorsements sample_lib endorsing_proto sample_policy_lib sample_cfg (Some [''Org1'', ''Org2''])
     (Some sample_remotes) (\<lambda>_. None) 10 sample_snapshot endorsing_request (sample_result ''Org1'') =
   Inr (collected_sample, [sample_result ''Org2''])"
proof -
  have fields: "cf_MspID sample_cfg = Some ''Org1''" "ir_ClientTxID endorsing_request = ''t1''"
    "hr_TxID (sample_result m) = ''t1''" "ir_ClientSignedProposal endorsing_request = Some sample_signed"
    "ir_EndorsingOrganizations endorsing_request = [''Org1'', ''Org2'']"
    "rm_AvailableMSPs sample_remotes = [''Org2'']"
    "rm_Resolve sample_remotes k rq = Inr [Some \<lparr>rc_Address = ''a:1'', rc_EndorseOnly = (\<lambda>_ _. Inr (sample_result ''Org2''))\<rparr>]"
    for m k rq
    by (simp_all add: sample_cfg_def endorsing_request_def sample_result_def sample_remotes_def)
  have cmp: "compareCanonicalResults (sample_result ''Org1'') [sample_result ''Org2''] = Inr ()"
    by (simp add: compareCanonicalResults_def compareOne_def sample_result_def sameBinding_def firstPayload_def guard_def)
  have res: "en_Proposal (hr_Endorsement (sample_result m)) = Some sample_proposal"
    "en_Responses (hr_Endorsement (sample_result m)) \<noteq> []" for m by (simp_all add: sample_result_def)
  let ?v = "\<lambda>m. \<lparr>ve_result = sample_result m, ve_identity = Some m, ve_key = m @ CHR 0x00 # m, ve_mspID = m\<rparr>"
  define co where "co = \<lparr>co_msp = sample_lib, co_proto = endorsing_proto, co_lib = sample_policy_lib,
    co_policy = sample_compiled, co_ctx = (\<lambda>_. None), co_now = 10, co_local = sample_result ''Org1'',
    co_request = endorsing_request\<lparr>ir_Namespace := np_Namespace sample_snapshot\<rparr>\<rparr>"
  define v where "v = ?v ''Org1''"
  define st where "st = \<lparr>cl_candidates = [v], cl_failures = [], cl_calls = 0\<rparr>"
  have co: "co_ctx co k = None" "co_local co = sample_result ''Org1''" "requireMSP co" "co_msp co = sample_lib"
    "co_proto co = endorsing_proto" "co_lib co = sample_policy_lib" "co_policy co = sample_compiled" "co_now co = 10"
    "ir_EndorsingOrganizations (co_request co) = [''Org1'', ''Org2'']" for k
    by (simp_all add: co_def requireMSP_def fields)
  have asm: "assemble co \<lparr>cl_candidates = cs, cl_failures = f, cl_calls = n\<rparr> =
      (if cs = [?v ''Org1''] then None else Some (Inr (collected_sample, [sample_result ''Org2''])))"
    if "cs = [?v ''Org1''] \<or> cs = [?v ''Org1'', ?v ''Org2'']" for cs f n
    using that by (auto simp: assemble_def assembleSelection_def chooseCandidates_def co ctx_ok_def mergeEndorsements_def
        collected_sample_def res Let_def)
  have ask: "askContact co ''Org2'' \<lparr>rc_Address = ''a:1'', rc_EndorseOnly = (\<lambda>_ _. Inr (sample_result ''Org2''))\<rparr>
      (st\<lparr>cl_calls := 1\<rparr>) = (Some (Inr (collected_sample, [sample_result ''Org2''])),
        \<lparr>cl_candidates = [?v ''Org1'', ?v ''Org2''], cl_failures = [], cl_calls = 2\<rparr>)"
    by (simp add: askContact_def co fields sample_authenticates cmp st_def v_def asm Let_def)
  have "fst (askTargets sample_cfg co sample_remotes ''Org1'' [] [''Org1'', ''Org2''] st) =
      Some (Inr (collected_sample, [sample_result ''Org2'']))"
    using ask by (simp add: co fields st_def Let_def)
  then obtain st' where targets: "askTargets sample_cfg co sample_remotes ''Org1'' [] [''Org1'', ''Org2''] st =
      (Some (Inr (collected_sample, [sample_result ''Org2''])), st')" by (metis prod.collapse)
  have none: "assemble co st = None" by (simp add: st_def v_def asm)
  have msps: "targetMSPs sample_compiled endorsing_request av = [''Org1'', ''Org2'']" for av
    by (simp add: targetMSPs_def fields)
  have auth: "authenticateEndorsement sample_lib endorsing_proto sample_policy_lib sample_compiled
      (sample_result ''Org1'') ''Org1'' (requireMSP co) 10 = Inr v"
    using sample_authenticates[of "''Org1''"] co by (simp add: v_def)
  show ?thesis
    unfolding collectNamespaceEndorsements_def Let_def sample_compiles rbind_simps co_def[symmetric] fields option.case
      auth map_error_simps st_def[symmetric] none msps targets by (simp del: askTargets.simps)
qed

theorem collected_endorsements_agree_witness:
  "\<exists>compiled (cs :: string verifiedEndorsement list). newNamespaceEndorsementPolicy sample_policy_lib sample_snapshot (Some [''Org1'', ''Org2'']) = Inr compiled \<and>
     ve_mspID ` set cs = {''Org1'', ''Org2''} \<and> distinct (map ve_key cs) \<and>
     en_Responses collected_sample = concat (map (\<lambda>c. en_Responses (hr_Endorsement (ve_result c))) cs)"
proof -
  have orgs: "ir_EndorsingOrganizations endorsing_request = [''Org1'', ''Org2'']" by (simp add: endorsing_request_def)
  from collected_endorsements_agree[OF sample_collects, unfolded orgs] obtain compiled
    and cs :: "string verifiedEndorsement list" where
    "newNamespaceEndorsementPolicy sample_policy_lib sample_snapshot (Some [''Org1'', ''Org2'']) = Inr compiled"
    "distinct (map ve_key cs)"
    "en_Responses collected_sample = concat (map (\<lambda>c. en_Responses (hr_Endorsement (ve_result c))) cs)"
    "if [''Org1'', ''Org2''] = [] then verifySelection endorsing_proto compiled collected_sample
       (hr_TxID (sample_result ''Org1'')) = Inr () else ve_mspID ` set cs = set [''Org1'', ''Org2'']"
    by blast
  moreover from this(4) have "ve_mspID ` set cs = {''Org1'', ''Org2''}" by (simp only: list.distinct if_False list.set)
  ultimately show ?thesis by (intro exI conjI)
qed

end
