(* ===== verification/Shim_Handler.thy ===== *)
theory Shim_Handler
  imports Gateway_Request
begin

section \<open>The chaincode side of an execution\<close>

text \<open>
  \<open>pkg/shim\<close>: \<open>connector.go\<close> opens a stream to an external chaincode service and completes the
  registration, \<open>handler.go\<close> sends the transaction and answers the chaincode's state requests until it
  completes.  The stream is the list of what \<open>Recv\<close> returns, each with the context errors and the
  outcome of the \<open>Send\<close> of that round; a session that has not ended yet has no result.  Protobuf
  messages are taken apart by generated code, which is the record \<open>shim_lib\<close>.  The state behind the
  handler is an interface of the source, here the record \<open>State_ops\<close> of its methods; the locale
  \<open>chaincode_state\<close> is what the handler's caller relies on, and its lemmas describe whole sessions.
\<close>

subsection \<open>Messages\<close>

datatype message_type =
    ChaincodeMessage_REGISTER
  | ChaincodeMessage_REGISTERED
  | ChaincodeMessage_INIT
  | ChaincodeMessage_READY
  | ChaincodeMessage_TRANSACTION
  | ChaincodeMessage_COMPLETED
  | ChaincodeMessage_ERROR
  | ChaincodeMessage_GET_STATE
  | ChaincodeMessage_PUT_STATE
  | ChaincodeMessage_DEL_STATE
  | ChaincodeMessage_RESPONSE
  | ChaincodeMessage_KEEPALIVE
  | ChaincodeMessage_Other string

record ShimEvent =
  se_EventName :: string
  se_Payload :: bytes

record ChaincodeMessage =
  mg_Type :: message_type
  mg_Payload :: bytes
  mg_Txid :: string
  mg_ChannelId :: string
  mg_Proposal :: "SignedProposal option"
  mg_ChaincodeEvent :: "ShimEvent option"

definition plainMessage :: "message_type \<Rightarrow> ChaincodeMessage" where
  "plainMessage t = \<lparr>mg_Type = t, mg_Payload = [], mg_Txid = [], mg_ChannelId = [],
     mg_Proposal = None, mg_ChaincodeEvent = None\<rparr>"

text \<open>A Query Service view, a committed value and the context of a call: its error and the
  nanoseconds left when it has a deadline.\<close>

record View =
  vw_Id :: string

record VersionedValue =
  vv_Value :: bytes
  vv_Version :: "u64 option"

record call_ctx =
  cx_Err :: ctx
  cx_Remaining :: "int option"

text \<open>Decoders, encoders and the texts of errors and message types.\<close>

record shim_lib =
  sl_GetState :: "bytes \<Rightarrow> (string \<times> string) option"
  sl_PutState :: "bytes \<Rightarrow> (string \<times> bytes \<times> string) option"
  sl_DelState :: "bytes \<Rightarrow> (string \<times> string) option"
  sl_Response :: "bytes \<Rightarrow> PeerResponse option"
  sl_ChaincodeID :: "bytes \<Rightarrow> string option"
  sl_Input :: "bytes list \<Rightarrow> (string \<times> bytes) list \<Rightarrow> bool \<Rightarrow> bytes option"
  sl_CreateProposal :: "string \<Rightarrow> string \<Rightarrow> string \<Rightarrow> bytes list \<Rightarrow> (string \<times> bytes) list \<Rightarrow> bool
    \<Rightarrow> bytes \<Rightarrow> bytes \<Rightarrow> orch_error + bytes"
  sl_TypeName :: "message_type \<Rightarrow> string"
  sl_ErrorText :: "orch_error \<Rightarrow> bytes"

record 's State_ops =
  so_GetState :: "call_ctx \<Rightarrow> string \<Rightarrow> 's \<Rightarrow> (orch_error + bytes) \<times> 's"
  so_PutState :: "string \<Rightarrow> bytes \<Rightarrow> 's \<Rightarrow> 's"
  so_DelState :: "string \<Rightarrow> 's \<Rightarrow> 's"
  so_QueryView :: "'s \<Rightarrow> View option"

record shim_Invocation =
  sv_TxID :: string
  sv_ChannelID :: string
  sv_Namespace :: string
  sv_Args :: "bytes list"
  sv_Creator :: bytes
  sv_Nonce :: bytes
  sv_SignedProposal :: "SignedProposal option"
  sv_Decorations :: "(string \<times> bytes) list"
  sv_QueryView :: "View option"
  sv_IsInit :: bool

record shim_Result =
  rs_Status :: int
  rs_Message :: string
  rs_Payload :: bytes
  rs_Event :: bytes
  rs_EventName :: string
  rs_QueryView :: "View option"

subsection \<open>Sending the transaction\<close>

definition signedProposal :: "shim_lib \<Rightarrow> shim_Invocation \<Rightarrow> orch_error + SignedProposal option" where
  "signedProposal lib invoc =
     (if sv_SignedProposal invoc \<noteq> None then Inr (sv_SignedProposal invoc)
      else if sv_Creator invoc = [] then Inr None
      else let nonce = (if sv_Nonce invoc = [] then sv_TxID invoc else sv_Nonce invoc) in
        rbind (sl_CreateProposal lib (sv_TxID invoc) (sv_ChannelID invoc) (sv_Namespace invoc) (sv_Args invoc)
                 (sv_Decorations invoc) (sv_IsInit invoc) nonce (sv_Creator invoc)) (\<lambda>proposalBytes.
        Inr (Some \<lparr>sp_ProposalBytes = proposalBytes, sp_Signature = []\<rparr>)))"

definition transactionMessage :: "shim_lib \<Rightarrow> shim_Invocation \<Rightarrow> orch_error + ChaincodeMessage" where
  "transactionMessage lib invoc =
     rbind (require (Plain ''marshal transaction input'')
              (sl_Input lib (sv_Args invoc) (sv_Decorations invoc) (sv_IsInit invoc))) (\<lambda>payload.
     rbind (signedProposal lib invoc) (\<lambda>proposal.
     Inr \<lparr>mg_Type = (if sv_IsInit invoc then ChaincodeMessage_INIT else ChaincodeMessage_TRANSACTION),
          mg_Payload = payload, mg_Txid = sv_TxID invoc, mg_ChannelId = sv_ChannelID invoc,
          mg_Proposal = proposal, mg_ChaincodeEvent = None\<rparr>))"

subsection \<open>Answering requests\<close>

definition sendResponse :: "ChaincodeMessage \<Rightarrow> bytes \<Rightarrow> ChaincodeMessage" where
  "sendResponse request payload = \<lparr>mg_Type = ChaincodeMessage_RESPONSE, mg_Payload = payload,
     mg_Txid = mg_Txid request, mg_ChannelId = mg_ChannelId request, mg_Proposal = None,
     mg_ChaincodeEvent = None\<rparr>"

definition sendError :: "shim_lib \<Rightarrow> ChaincodeMessage \<Rightarrow> orch_error \<Rightarrow> ChaincodeMessage" where
  "sendError lib request e = \<lparr>mg_Type = ChaincodeMessage_ERROR, mg_Payload = sl_ErrorText lib e,
     mg_Txid = mg_Txid request, mg_ChannelId = mg_ChannelId request, mg_Proposal = None,
     mg_ChaincodeEvent = None\<rparr>"

definition noCollections :: orch_error where
  "noCollections = Plain ''private data collections are not supported in V1''"

definition handleGetState ::
  "shim_lib \<Rightarrow> 's State_ops \<Rightarrow> call_ctx \<Rightarrow> ChaincodeMessage \<Rightarrow> 's \<Rightarrow> ChaincodeMessage \<times> 's" where
  "handleGetState lib ops ctx msg s =
     (case sl_GetState lib (mg_Payload msg) of
        None \<Rightarrow> (sendError lib msg (Plain ''unmarshal GET_STATE''), s)
      | Some (key, collection) \<Rightarrow>
          (if collection \<noteq> [] then (sendError lib msg noCollections, s)
           else case so_GetState ops ctx key s of
               (Inl e, s') \<Rightarrow> (sendError lib msg (Wrapped (''get state '' @ key) e), s')
             | (Inr v, s') \<Rightarrow> (sendResponse msg v, s')))"

definition handlePutState ::
  "shim_lib \<Rightarrow> 's State_ops \<Rightarrow> ChaincodeMessage \<Rightarrow> 's \<Rightarrow> ChaincodeMessage \<times> 's" where
  "handlePutState lib ops msg s =
     (case sl_PutState lib (mg_Payload msg) of
        None \<Rightarrow> (sendError lib msg (Plain ''unmarshal PUT_STATE''), s)
      | Some (key, v, collection) \<Rightarrow>
          (if collection \<noteq> [] then (sendError lib msg noCollections, s)
           else (sendResponse msg [], so_PutState ops key v s)))"

definition handleDelState ::
  "shim_lib \<Rightarrow> 's State_ops \<Rightarrow> ChaincodeMessage \<Rightarrow> 's \<Rightarrow> ChaincodeMessage \<times> 's" where
  "handleDelState lib ops msg s =
     (case sl_DelState lib (mg_Payload msg) of
        None \<Rightarrow> (sendError lib msg (Plain ''unmarshal DEL_STATE''), s)
      | Some (key, collection) \<Rightarrow>
          (if collection \<noteq> [] then (sendError lib msg noCollections, s)
           else (sendResponse msg [], so_DelState ops key s)))"

text \<open>The arms of the switch that answer and go on.\<close>

definition handleRequest ::
  "shim_lib \<Rightarrow> 's State_ops \<Rightarrow> call_ctx \<Rightarrow> ChaincodeMessage \<Rightarrow> 's \<Rightarrow> ChaincodeMessage \<times> 's" where
  "handleRequest lib ops ctx msg s =
     (case mg_Type msg of
        ChaincodeMessage_GET_STATE \<Rightarrow> handleGetState lib ops ctx msg s
      | ChaincodeMessage_PUT_STATE \<Rightarrow> handlePutState lib ops msg s
      | ChaincodeMessage_DEL_STATE \<Rightarrow> handleDelState lib ops msg s
      | t \<Rightarrow> (sendError lib msg (Plain (''unsupported chaincode message type '' @ sl_TypeName lib t)), s))"

definition eventPayload :: "ShimEvent option \<Rightarrow> bytes" where
  "eventPayload event = (case event of None \<Rightarrow> [] | Some e \<Rightarrow> se_Payload e)"

definition eventName :: "ShimEvent option \<Rightarrow> string" where
  "eventName event = (case event of None \<Rightarrow> [] | Some e \<Rightarrow> se_EventName e)"

definition completedResult ::
  "shim_lib \<Rightarrow> 's State_ops \<Rightarrow> ChaincodeMessage \<Rightarrow> 's \<Rightarrow> orch_error + shim_Result" where
  "completedResult lib ops msg s =
     rbind (require (Plain ''unmarshal COMPLETED response'') (sl_Response lib (mg_Payload msg))) (\<lambda>response.
     Inr \<lparr>rs_Status = pr_Status response, rs_Message = pr_Message response, rs_Payload = pr_Payload response,
          rs_Event = eventPayload (mg_ChaincodeEvent msg), rs_EventName = eventName (mg_ChaincodeEvent msg),
          rs_QueryView = so_QueryView ops s\<rparr>)"

definition errorResult :: "'s State_ops \<Rightarrow> ChaincodeMessage \<Rightarrow> 's \<Rightarrow> shim_Result" where
  "errorResult ops msg s = \<lparr>rs_Status = 500, rs_Message = mg_Payload msg, rs_Payload = mg_Payload msg,
     rs_Event = eventPayload (mg_ChaincodeEvent msg), rs_EventName = eventName (mg_ChaincodeEvent msg),
     rs_QueryView = so_QueryView ops s\<rparr>"

subsection \<open>The message loop\<close>

datatype received = Received "ChaincodeMessage option" | StreamEOF | ReceiveError orch_error

text \<open>
  One round of the loop: the context's error at its start and after a failed receive, what is
  received, the context a state read sees, and the error of sending the answer.
\<close>

record shim_input =
  si_Ctx :: ctx
  si_Received :: received
  si_CtxAfter :: ctx
  si_Call :: call_ctx
  si_Send :: "orch_error option"

definition receiveFailed :: "ctx \<Rightarrow> orch_error \<Rightarrow> orch_error" where
  "receiveFailed after e = (case after of Some c \<Rightarrow> CtxError c | None \<Rightarrow> e)"

fun shimLoop ::
  "shim_lib \<Rightarrow> 's State_ops \<Rightarrow> shim_input list \<Rightarrow> 's
    \<Rightarrow> (orch_error + shim_Result) option \<times> ChaincodeMessage list \<times> 's" where
  "shimLoop lib ops [] s = (None, [], s)"
| "shimLoop lib ops (i # rest) s =
     (case si_Ctx i of
        Some e \<Rightarrow> (Some (Inl (CtxError e)), [], s)
      | None \<Rightarrow>
        (case si_Received i of
           ReceiveError e \<Rightarrow>
             (Some (Inl (receiveFailed (si_CtxAfter i) (Wrapped ''receive chaincode message'' e))), [], s)
         | StreamEOF \<Rightarrow>
             (Some (Inl (receiveFailed (si_CtxAfter i)
                (Plain ''chaincode stream closed before COMPLETED''))), [], s)
         | Received None \<Rightarrow> (Some (Inl (Plain ''chaincode service sent nil message'')), [], s)
         | Received (Some msg) \<Rightarrow>
             (if mg_Type msg = ChaincodeMessage_KEEPALIVE then shimLoop lib ops rest s
              else if mg_Type msg = ChaincodeMessage_COMPLETED
              then (Some (completedResult lib ops msg s), [], s)
              else if mg_Type msg = ChaincodeMessage_ERROR
              then (Some (Inr (errorResult ops msg s)), [], s)
              else let (reply, s') = handleRequest lib ops (si_Call i) msg s in
                case si_Send i of
                  Some e \<Rightarrow> (Some (Inl e), [], s')
                | None \<Rightarrow>
                    (let (result, sent, s'') = shimLoop lib ops rest s' in (result, reply # sent, s'')))))"

text \<open>\<open>messageHandler.Execute\<close>; the third argument is the outcome of sending the transaction.\<close>

definition handlerExecute ::
  "shim_lib \<Rightarrow> 's State_ops \<Rightarrow> shim_Invocation \<Rightarrow> orch_error option \<Rightarrow> shim_input list \<Rightarrow> 's
    \<Rightarrow> (orch_error + shim_Result) option \<times> ChaincodeMessage list \<times> 's" where
  "handlerExecute lib ops invoc send inputs s =
     (case transactionMessage lib invoc of
        Inl e \<Rightarrow> (Some (Inl e), [], s)
      | Inr msg \<Rightarrow>
          (case send of
             Some e \<Rightarrow> (Some (Inl (Wrapped (''send '' @ sl_TypeName lib (mg_Type msg) @ '' to chaincode'') e)), [], s)
           | None \<Rightarrow> (let (result, sent, s') = shimLoop lib ops inputs s in (result, msg # sent, s'))))"

subsection \<open>The connector\<close>

fun receiveRegister :: "shim_lib \<Rightarrow> received list \<Rightarrow> (orch_error + string) option" where
  "receiveRegister lib [] = None"
| "receiveRegister lib (r # rest) =
     (case r of
        StreamEOF \<Rightarrow> Some (Inl (Plain ''chaincode service closed stream before REGISTER''))
      | ReceiveError e \<Rightarrow> Some (Inl (Wrapped ''receive REGISTER from chaincode service'' e))
      | Received None \<Rightarrow> Some (Inl (Plain ''chaincode service sent nil message before REGISTER''))
      | Received (Some msg) \<Rightarrow>
          (if mg_Type msg = ChaincodeMessage_KEEPALIVE then receiveRegister lib rest
           else if mg_Type msg \<noteq> ChaincodeMessage_REGISTER
           then Some (Inl (Plain (''expected REGISTER from chaincode service, got '' @ sl_TypeName lib (mg_Type msg))))
           else case sl_ChaincodeID lib (mg_Payload msg) of
               None \<Rightarrow> Some (Inl (Plain ''unmarshal REGISTER chaincode id''))
             | Some name \<Rightarrow>
                 (if name = [] then Some (Inl (Plain ''REGISTER message contains empty chaincode id''))
                  else Some (Inr name))))"

text \<open>
  What the network does during one session: the context's error at the start, the error of opening
  the stream, the messages received before and after registration, the errors of the three sends
  of the connector and of closing.
\<close>

record shim_session =
  sn_Ctx :: ctx
  sn_Open :: "orch_error option"
  sn_Registers :: "received list"
  sn_SendRegistered :: "orch_error option"
  sn_SendReady :: "orch_error option"
  sn_SendTransaction :: "orch_error option"
  sn_Inputs :: "shim_input list"
  sn_CloseSend :: "orch_error option"

record Connector =
  kn_endpoint :: string

definition NewConnector :: "string \<Rightarrow> orch_error + Connector" where
  "NewConnector endpoint =
     (if endpoint = [] then Inl (Plain ''chaincode service endpoint is required'')
      else Inr \<lparr>kn_endpoint = endpoint\<rparr>)"

definition Connector_Execute ::
  "shim_lib \<Rightarrow> 's State_ops \<Rightarrow> Connector \<Rightarrow> shim_Invocation \<Rightarrow> shim_session \<Rightarrow> 's
    \<Rightarrow> (orch_error + shim_Result) option \<times> ChaincodeMessage list \<times> 's" where
  "Connector_Execute lib ops connector invoc net s =
     (case sn_Ctx net of
        Some e \<Rightarrow> (Some (Inl (CtxError e)), [], s)
      | None \<Rightarrow>
      (case sn_Open net of
         Some e \<Rightarrow> (Some (Inl e), [], s)
       | None \<Rightarrow>
       (case receiveRegister lib (sn_Registers net) of
          None \<Rightarrow> (None, [], s)
        | Some (Inl e) \<Rightarrow> (Some (Inl e), [], s)
        | Some (Inr ccid) \<Rightarrow>
        (case sn_SendRegistered net of
           Some e \<Rightarrow> (Some (Inl (Wrapped (''send REGISTERED to chaincode service '' @ kn_endpoint connector) e)), [], s)
         | None \<Rightarrow>
         (case sn_SendReady net of
            Some e \<Rightarrow> (Some (Inl (Wrapped (''send READY to chaincode service '' @ kn_endpoint connector) e)),
                       [plainMessage ChaincodeMessage_REGISTERED], s)
          | None \<Rightarrow>
            (let (result, sent, s') = handlerExecute lib ops invoc (sn_SendTransaction net) (sn_Inputs net) s;
                 out = plainMessage ChaincodeMessage_REGISTERED # plainMessage ChaincodeMessage_READY # sent
             in case (result, sn_CloseSend net) of
                  (Some (Inr _), Some e) \<Rightarrow>
                    (Some (Inl (Wrapped (''close chaincode stream to '' @ kn_endpoint connector) e)), out, s')
                | _ \<Rightarrow> (result, out, s')))))))"

subsection \<open>What a session does to the state\<close>

text \<open>The requests a session answers, the write and the read a request asks for.\<close>

fun requests :: "shim_input list \<Rightarrow> ChaincodeMessage list" where
  "requests [] = []"
| "requests (i # rest) =
     (case si_Received i of
        Received (Some msg) \<Rightarrow>
          (if mg_Type msg = ChaincodeMessage_KEEPALIVE then requests rest
           else if mg_Type msg = ChaincodeMessage_COMPLETED \<or> mg_Type msg = ChaincodeMessage_ERROR then []
           else msg # requests rest)
      | _ \<Rightarrow> [])"

definition writeOf :: "shim_lib \<Rightarrow> ChaincodeMessage \<Rightarrow> (string \<times> bytes option) option" where
  "writeOf lib msg =
     (case mg_Type msg of
        ChaincodeMessage_PUT_STATE \<Rightarrow>
          (case sl_PutState lib (mg_Payload msg) of
             Some (key, v, collection) \<Rightarrow> if collection = [] then Some (key, Some v) else None
           | None \<Rightarrow> None)
      | ChaincodeMessage_DEL_STATE \<Rightarrow>
          (case sl_DelState lib (mg_Payload msg) of
             Some (key, collection) \<Rightarrow> if collection = [] then Some (key, None) else None
           | None \<Rightarrow> None)
      | _ \<Rightarrow> None)"

definition readOf :: "shim_lib \<Rightarrow> ChaincodeMessage \<Rightarrow> string option" where
  "readOf lib msg =
     (if mg_Type msg = ChaincodeMessage_GET_STATE
      then (case sl_GetState lib (mg_Payload msg) of
              Some (key, collection) \<Rightarrow> if collection = [] then Some key else None
            | None \<Rightarrow> None)
      else None)"

definition apply_write ::
  "shim_lib \<Rightarrow> ChaincodeMessage \<Rightarrow> (string \<Rightarrow> bytes option option) \<Rightarrow> string \<Rightarrow> bytes option option" where
  "apply_write lib msg m = (case writeOf lib msg of None \<Rightarrow> m | Some (key, x) \<Rightarrow> m(key \<mapsto> x))"

definition written ::
  "shim_lib \<Rightarrow> ChaincodeMessage list \<Rightarrow> (string \<Rightarrow> bytes option option) \<Rightarrow> string \<Rightarrow> bytes option option" where
  "written lib = fold (apply_write lib)"

text \<open>A reply belongs to its request; a value it returns is the one of the snapshot.\<close>

definition answers_from ::
  "shim_lib \<Rightarrow> (string \<Rightarrow> VersionedValue) \<Rightarrow> ChaincodeMessage \<Rightarrow> ChaincodeMessage \<Rightarrow> bool" where
  "answers_from lib snap msg reply \<longleftrightarrow>
     mg_Txid reply = mg_Txid msg \<and> mg_ChannelId reply = mg_ChannelId msg \<and>
     mg_Type reply \<in> {ChaincodeMessage_RESPONSE, ChaincodeMessage_ERROR} \<and>
     (\<forall>key. readOf lib msg = Some key \<longrightarrow> mg_Type reply = ChaincodeMessage_RESPONSE \<longrightarrow>
        mg_Payload reply = vv_Value (snap key))"

definition reads_key :: "shim_lib \<Rightarrow> string \<Rightarrow> ChaincodeMessage \<times> ChaincodeMessage \<Rightarrow> bool" where
  "reads_key lib key p \<longleftrightarrow>
     readOf lib (fst p) = Some key \<and> mg_Type (snd p) = ChaincodeMessage_RESPONSE"

text \<open>An invariant of the \<open>State\<close> that its operations keep is kept by every session, also by one that
  fails or has not ended.\<close>

locale state_invariant =
  fixes ops :: "'s State_ops"
    and sound :: "'s \<Rightarrow> bool"
  assumes put_sound: "sound s \<Longrightarrow> sound (so_PutState ops k v s)"
    and del_sound: "sound s \<Longrightarrow> sound (so_DelState ops k s)"
    and get_sound: "sound s \<Longrightarrow> so_GetState ops c k s = (r, s') \<Longrightarrow> sound s'"
begin

lemma request_sound:
  assumes "sound s" and "handleRequest lib ops c msg s = (reply, s')"
  shows "sound s'"
proof -
  have g: "sound t" if "so_GetState ops c k s = (r, t)" for k r t
    using get_sound[OF assms(1) that] .
  show ?thesis using assms g put_sound[OF assms(1)] del_sound[OF assms(1)]
    by (cases "mg_Type msg") (auto simp: handleRequest_def handleGetState_def handlePutState_def
        handleDelState_def split: option.splits prod.splits if_splits sum.splits)
qed

lemma loop_sound:
  assumes "sound s" and "shimLoop lib ops ins s = (r, out, s')"
  shows "sound s'"
  using assms
proof (induction ins arbitrary: s r out s')
  case (Cons i rest)
  show ?case
  proof (cases "si_Ctx i = None \<and> (\<exists>msg. si_Received i = Received (Some msg))")
    case True
    then obtain msg where i: "si_Ctx i = None" "si_Received i = Received (Some msg)" by blast
    obtain reply t where step: "handleRequest lib ops (si_Call i) msg s = (reply, t)" by fastforce
    have t: "sound t" using request_sound[OF Cons.prems(1) step] .
    obtain r' out' u where rest: "shimLoop lib ops rest t = (r', out', u)" by (metis prod.collapse)
    have "sound u" using Cons.IH[OF t rest] .
    then show ?thesis using Cons.prems Cons.IH[OF Cons.prems(1)] t i
      by (auto simp: step rest split: option.splits if_splits)
  next
    case False
    then have "s' = s" using Cons.prems(2) by (auto split: option.splits received.splits)
    then show ?thesis using Cons.prems(1) by simp
  qed
qed simp

lemma connector_sound:
  assumes "sound s" and "Connector_Execute lib ops connector invoc net s = (r, out, s')"
  shows "sound s'"
proof -
  obtain r1 out1 t where loop: "shimLoop lib ops (sn_Inputs net) s = (r1, out1, t)" by (metis prod.collapse)
  have "sound t" using loop_sound[OF assms(1) loop] .
  then show ?thesis using assms
    by (auto simp: Connector_Execute_def handlerExecute_def loop Let_def split: option.splits sum.splits)
qed

end

text \<open>
  The contract of the \<open>State\<close> interface: pending writes and observed reads are two maps that only
  their own operations change, a read is answered from the snapshot behind the state and recorded
  with its version, and the snapshot stays once something has been observed.
\<close>

locale chaincode_state = state_invariant ops sound
  for ops :: "'s State_ops" and sound :: "'s \<Rightarrow> bool" +
  fixes pending :: "'s \<Rightarrow> string \<Rightarrow> bytes option option"
    and observed :: "'s \<Rightarrow> string \<Rightarrow> u64 option option"
    and snapshot :: "'s \<Rightarrow> string \<Rightarrow> VersionedValue"
  assumes put_pending: "pending (so_PutState ops k v s) = (pending s)(k \<mapsto> Some v)"
    and del_pending: "pending (so_DelState ops k s) = (pending s)(k \<mapsto> None)"
    and get_pending: "so_GetState ops c k s = (r, s') \<Longrightarrow> pending s' = pending s"
    and put_observed: "observed (so_PutState ops k v s) = observed s"
    and del_observed: "observed (so_DelState ops k s) = observed s"
    and put_snapshot: "snapshot (so_PutState ops k v s) = snapshot s"
    and del_snapshot: "snapshot (so_DelState ops k s) = snapshot s"
    and get_answer: "sound s \<Longrightarrow> so_GetState ops c k s = (Inr v, s') \<Longrightarrow>
      v = vv_Value (snapshot s' k) \<and> observed s' = (observed s)(k \<mapsto> vv_Version (snapshot s' k))"
    and get_refused: "so_GetState ops c k s = (Inl e, s') \<Longrightarrow> observed s' = observed s"
    and get_stable: "sound s \<Longrightarrow> observed s \<noteq> Map.empty \<Longrightarrow> so_GetState ops c k s = (r, s') \<Longrightarrow>
      snapshot s' = snapshot s"
begin

definition consistent :: "'s \<Rightarrow> bool" where
  "consistent s \<longleftrightarrow> sound s \<and>
     (\<forall>k version. observed s k = Some version \<longrightarrow> version = vv_Version (snapshot s k))"

lemma get_consistent:
  assumes "consistent s" and "so_GetState ops c k s = (r, s')"
  shows "consistent s'"
proof (cases r)
  case (Inl e)
  show ?thesis
  proof (cases "observed s = Map.empty")
    case True
    moreover have "observed s' = observed s" using assms Inl get_refused by blast
    moreover have "sound s'" using assms(1) get_sound[OF _ assms(2)] by (simp add: consistent_def)
    ultimately show ?thesis by (simp add: consistent_def)
  next
    case False
    have "sound s'" using assms(1) get_sound[OF _ assms(2)] by (simp add: consistent_def)
    moreover have "snapshot s' = snapshot s" using assms False get_stable by (simp add: consistent_def)
    moreover have "observed s' = observed s" using assms Inl get_refused by blast
    ultimately show ?thesis using assms(1) by (simp add: consistent_def)
  qed
next
  case (Inr v)
  have o: "observed s' = (observed s)(k \<mapsto> vv_Version (snapshot s' k))"
    using assms Inr get_answer by (simp add: consistent_def)
  have same: "snapshot s' = snapshot s" if "observed s j = Some x" for j x
  proof -
    have "observed s \<noteq> Map.empty" using that by auto
    then show ?thesis using assms get_stable by (simp add: consistent_def)
  qed
  have "sound s'" using assms(1) get_sound[OF _ assms(2)] by (simp add: consistent_def)
  then show ?thesis using assms(1) o same unfolding consistent_def by (auto split: if_splits)
qed

lemma request_step:
  assumes "consistent s" and "handleRequest lib ops c msg s = (reply, s')"
  shows "consistent s' \<and> (observed s \<noteq> Map.empty \<longrightarrow> snapshot s' = snapshot s) \<and>
    pending s' = apply_write lib msg (pending s) \<and> answers_from lib (snapshot s') msg reply \<and>
    (\<forall>k. observed s' k \<noteq> None \<longleftrightarrow> observed s k \<noteq> None \<or> reads_key lib k (msg, reply))"
proof (cases "mg_Type msg = ChaincodeMessage_GET_STATE")
  case True
  show ?thesis
  proof (cases "readOf lib msg")
    case None
    then have "s' = s" "mg_Type reply = ChaincodeMessage_ERROR" "answers_from lib (snapshot s') msg reply"
      using assms(2) True by (auto simp: handleRequest_def handleGetState_def readOf_def sendError_def
          answers_from_def split: option.splits prod.splits if_splits)
    then show ?thesis using assms(1) True None
      by (simp add: apply_write_def writeOf_def reads_key_def)
  next
    case (Some k)
    obtain r t where g: "so_GetState ops c k s = (r, t)" by fastforce
    have t: "s' = t" and reply: "reply = (case r of Inl e \<Rightarrow> sendError lib msg (Wrapped (''get state '' @ k) e)
        | Inr v \<Rightarrow> sendResponse msg v)"
      using assms(2) True Some g by (auto simp: handleRequest_def handleGetState_def readOf_def
          split: option.splits prod.splits if_splits sum.splits)
    have "consistent t" using get_consistent[OF assms(1) g] .
    moreover have "observed s \<noteq> Map.empty \<Longrightarrow> snapshot t = snapshot s"
      using get_stable[OF _ _ g] assms(1) by (simp add: consistent_def)
    moreover have "pending t = pending s" using get_pending[OF g] .
    moreover have "answers_from lib (snapshot t) msg reply \<and>
        (\<forall>j. observed t j \<noteq> None \<longleftrightarrow> observed s j \<noteq> None \<or> reads_key lib j (msg, reply))"
    proof (cases r)
      case (Inl e)
      then show ?thesis using get_refused[of c k s e t] g reply Some
        by (simp add: answers_from_def sendError_def reads_key_def)
    next
      case (Inr v)
      then show ?thesis using get_answer[of s c k v t] g reply Some assms(1)
        by (auto simp: answers_from_def sendResponse_def reads_key_def consistent_def)
    qed
    ultimately show ?thesis using True by (simp add: t apply_write_def writeOf_def)
  qed
next
  case False
  have read: "readOf lib msg = None" using False by (simp add: readOf_def)
  consider (put) "mg_Type msg = ChaincodeMessage_PUT_STATE" | (del) "mg_Type msg = ChaincodeMessage_DEL_STATE"
    | (other) "mg_Type msg \<noteq> ChaincodeMessage_PUT_STATE" "mg_Type msg \<noteq> ChaincodeMessage_DEL_STATE" by blast
  then show ?thesis
  proof cases
    case put
    then show ?thesis using assms read put_pending put_observed put_snapshot put_sound
      by (auto simp: handleRequest_def handlePutState_def apply_write_def writeOf_def answers_from_def sendError_def
          sendResponse_def reads_key_def consistent_def split: option.splits prod.splits if_splits)
  next
    case del
    then show ?thesis using assms read del_pending del_observed del_snapshot del_sound
      by (auto simp: handleRequest_def handleDelState_def apply_write_def writeOf_def answers_from_def sendError_def
          sendResponse_def reads_key_def consistent_def split: option.splits prod.splits if_splits)
  next
    case other
    then have "s' = s \<and> reply = sendError lib msg
        (Plain (''unsupported chaincode message type '' @ sl_TypeName lib (mg_Type msg)))"
      using assms(2) False by (cases "mg_Type msg") (auto simp: handleRequest_def)
    moreover have "writeOf lib msg = None" using other by (simp add: writeOf_def split: message_type.split)
    ultimately show ?thesis using assms(1) read
      by (simp add: apply_write_def answers_from_def sendError_def reads_key_def)
  qed
qed

text \<open>A whole loop: what it answered came from one snapshot, what it wrote is what was asked.\<close>

lemma loop_session:
  assumes "consistent s" and "shimLoop lib ops ins s = (Some (Inr res), out, s')"
  shows "consistent s' \<and> (observed s \<noteq> Map.empty \<longrightarrow> snapshot s' = snapshot s) \<and>
    pending s' = written lib (requests ins) (pending s) \<and>
    list_all2 (answers_from lib (snapshot s')) (requests ins) out \<and>
    (\<forall>k. observed s' k \<noteq> None \<longleftrightarrow> observed s k \<noteq> None \<or> list_ex (reads_key lib k) (zip (requests ins) out))"
  using assms
proof (induction ins arbitrary: s out)
  case (Cons i rest)
  obtain msg where ctx: "si_Ctx i = None" and got: "si_Received i = Received (Some msg)"
    using Cons.prems(2) by (auto split: option.splits received.splits)
  consider (alive) "mg_Type msg = ChaincodeMessage_KEEPALIVE"
    | (final) "mg_Type msg = ChaincodeMessage_COMPLETED \<or> mg_Type msg = ChaincodeMessage_ERROR"
    | (request) "mg_Type msg \<noteq> ChaincodeMessage_KEEPALIVE" "mg_Type msg \<noteq> ChaincodeMessage_COMPLETED"
        "mg_Type msg \<noteq> ChaincodeMessage_ERROR" by blast
  then show ?case
  proof cases
    case alive
    then show ?thesis using Cons ctx got by simp
  next
    case final
    then have "out = [] \<and> s' = s" using Cons.prems(2) ctx got by auto
    then show ?thesis using Cons.prems(1) final got by (auto simp: written_def)
  next
    case request
    obtain reply t where step: "handleRequest lib ops (si_Call i) msg s = (reply, t)" by fastforce
    obtain out' where send: "si_Send i = None" and rest: "shimLoop lib ops rest t = (Some (Inr res), out', s')"
        and out: "out = reply # out'"
      using Cons.prems(2) ctx got request step by (auto split: option.splits prod.splits)
    note one = request_step[OF Cons.prems(1) step]
    note more = Cons.IH[OF conjunct1[OF one] rest]
    have req: "requests (i # rest) = msg # requests rest" using got request by simp
    have first: "answers_from lib (snapshot s') msg reply"
    proof (cases "\<exists>k. reads_key lib k (msg, reply)")
      case True
      then have "observed t \<noteq> Map.empty" using one by fastforce
      then show ?thesis using one more by simp
    next
      case False
      then show ?thesis using one by (auto simp: answers_from_def reads_key_def)
    qed
    have keep: "observed s \<noteq> Map.empty \<Longrightarrow> observed t \<noteq> Map.empty" using one by fastforce
    show ?thesis unfolding req out using one more first keep by (auto simp: written_def)
  qed
qed simp

text \<open>A finished connector call: the same facts over what followed the registration.\<close>

lemma connector_session:
  assumes "consistent s" and "observed s = Map.empty"
    and "Connector_Execute lib ops connector invoc net s = (Some (Inr res), out, s')"
  shows "consistent s' \<and> pending s' = written lib (requests (sn_Inputs net)) (pending s) \<and>
    (\<exists>msg replies. transactionMessage lib invoc = Inr msg \<and>
       out = plainMessage ChaincodeMessage_REGISTERED # plainMessage ChaincodeMessage_READY # msg # replies \<and>
       list_all2 (answers_from lib (snapshot s')) (requests (sn_Inputs net)) replies \<and>
       (\<forall>k. observed s' k \<noteq> None \<longleftrightarrow> list_ex (reads_key lib k) (zip (requests (sn_Inputs net)) replies)))"
proof -
  obtain r1 replies t where loop: "shimLoop lib ops (sn_Inputs net) s = (r1, replies, t)"
    by (metis prod.collapse)
  obtain msg where r: "r1 = Some (Inr res)" "s' = t" and m: "transactionMessage lib invoc = Inr msg"
      and out: "out = plainMessage ChaincodeMessage_REGISTERED # plainMessage ChaincodeMessage_READY # msg # replies"
    using assms(3) by (auto simp: Connector_Execute_def handlerExecute_def loop Let_def
        split: option.splits sum.splits)
  note all = loop_session[OF assms(1) loop[unfolded r(1)]]
  show ?thesis unfolding r(2) using all m out assms(2) by simp
qed

end

text \<open>How a request is served in full: a read with the snapshot's value, a write with an empty response, any
  other request, a malformed one or one for a private collection included, with an error.\<close>

definition served ::
  "shim_lib \<Rightarrow> (string \<Rightarrow> VersionedValue) \<Rightarrow> ChaincodeMessage \<Rightarrow> ChaincodeMessage \<Rightarrow> bool" where
  "served lib snap msg reply \<longleftrightarrow>
     mg_Txid reply = mg_Txid msg \<and> mg_ChannelId reply = mg_ChannelId msg \<and>
     (case readOf lib msg of
        Some key \<Rightarrow> mg_Type reply = ChaincodeMessage_RESPONSE \<and> mg_Payload reply = vv_Value (snap key)
      | None \<Rightarrow>
          (if writeOf lib msg = None then mg_Type reply = ChaincodeMessage_ERROR
           else mg_Type reply = ChaincodeMessage_RESPONSE \<and> mg_Payload reply = []))"

definition in_full :: "shim_lib \<Rightarrow> ChaincodeMessage \<Rightarrow> ChaincodeMessage \<Rightarrow> bool" where
  "in_full lib msg reply \<longleftrightarrow>
     (readOf lib msg \<noteq> None \<longrightarrow> mg_Type reply = ChaincodeMessage_RESPONSE) \<and>
     (readOf lib msg = None \<longrightarrow>
       (if writeOf lib msg = None then mg_Type reply = ChaincodeMessage_ERROR
        else mg_Type reply = ChaincodeMessage_RESPONSE \<and> mg_Payload reply = []))"

lemma served_iff: "answers_from lib snap msg reply \<and> in_full lib msg reply \<longrightarrow> served lib snap msg reply"
  by (auto simp: served_def answers_from_def in_full_def split: option.splits)

lemma list_all2_served:
  "list_all2 (answers_from lib snap) msgs replies \<Longrightarrow> list_all2 (in_full lib) msgs replies \<Longrightarrow>
     list_all2 (served lib snap) msgs replies"
  using served_iff by (auto simp: list_all2_conv_all_nth)

lemma reads_served:
  "list_all2 (in_full lib) msgs replies \<Longrightarrow>
     list_ex (reads_key lib k) (zip msgs replies) \<longleftrightarrow> (\<exists>msg \<in> set msgs. readOf lib msg = Some k)"
  by (induction msgs replies rule: list_all2_induct) (auto simp: reads_key_def in_full_def)

text \<open>A state that remembers a failed read: a session that ends without the mark has served everything in
  full.\<close>

locale remembered_failure =
  fixes ops :: "'s State_ops"
    and failed :: "'s \<Rightarrow> bool"
  assumes put_failed: "failed s \<Longrightarrow> failed (so_PutState ops k v s)"
    and del_failed: "failed s \<Longrightarrow> failed (so_DelState ops k s)"
    and get_failed: "failed s \<Longrightarrow> so_GetState ops c k s = (r, s') \<Longrightarrow> failed s'"
    and get_marks: "so_GetState ops c k s = (Inl e, s') \<Longrightarrow> failed s'"

sublocale remembered_failure \<subseteq> failure: state_invariant ops failed
  using put_failed del_failed get_failed by unfold_locales

context remembered_failure
begin

lemma request_in_full:
  assumes "handleRequest lib ops c msg s = (reply, s')" and "\<not> failed s'"
  shows "in_full lib msg reply"
proof (cases "mg_Type msg = ChaincodeMessage_GET_STATE")
  case True
  have "\<not> failed t \<Longrightarrow> so_GetState ops c k s = (r, t) \<Longrightarrow> \<exists>v. r = Inr v" for k r t
    using get_marks by (cases r) auto
  with assms True show ?thesis
    by (fastforce simp: handleRequest_def handleGetState_def in_full_def readOf_def writeOf_def sendError_def
        sendResponse_def split: option.splits prod.splits if_splits sum.splits)
next
  case False
  with assms(1) show ?thesis
    by (cases "mg_Type msg") (auto simp: handleRequest_def handlePutState_def handleDelState_def in_full_def
        readOf_def writeOf_def sendError_def sendResponse_def split: option.splits prod.splits if_splits)
qed

lemma loop_in_full:
  assumes "shimLoop lib ops ins s = (Some (Inr res), out, s')" and "\<not> failed s'"
  shows "list_all2 (in_full lib) (requests ins) out"
  using assms(1)
proof (induction ins arbitrary: s out)
  case (Cons i rest)
  obtain msg where ctx: "si_Ctx i = None" and got: "si_Received i = Received (Some msg)"
    using Cons.prems by (auto split: option.splits received.splits)
  consider (alive) "mg_Type msg = ChaincodeMessage_KEEPALIVE"
    | (final) "mg_Type msg = ChaincodeMessage_COMPLETED \<or> mg_Type msg = ChaincodeMessage_ERROR"
    | (request) "mg_Type msg \<noteq> ChaincodeMessage_KEEPALIVE" "mg_Type msg \<noteq> ChaincodeMessage_COMPLETED"
        "mg_Type msg \<noteq> ChaincodeMessage_ERROR" by blast
  then show ?case
  proof cases
    case alive
    then show ?thesis using Cons ctx got by simp
  next
    case final
    then show ?thesis using Cons.prems ctx got by auto
  next
    case request
    obtain reply t where step: "handleRequest lib ops (si_Call i) msg s = (reply, t)" by fastforce
    obtain out' where rest: "shimLoop lib ops rest t = (Some (Inr res), out', s')" and out: "out = reply # out'"
      using Cons.prems ctx got request step by (auto split: option.splits prod.splits)
    have "\<not> failed t" using failure.loop_sound [OF _ rest] assms(2) by blast
    from request_in_full [OF step this] Cons.IH [OF rest] show ?thesis
      using got request out by simp
  qed
qed simp

lemma connector_in_full:
  assumes "Connector_Execute lib ops connector invoc net s = (Some (Inr res), out, s')" and "\<not> failed s'"
  shows "\<exists>msg replies. out = plainMessage ChaincodeMessage_REGISTERED # plainMessage ChaincodeMessage_READY # msg # replies \<and>
    list_all2 (in_full lib) (requests (sn_Inputs net)) replies"
proof -
  obtain r1 replies t where loop: "shimLoop lib ops (sn_Inputs net) s = (r1, replies, t)" by (metis prod.collapse)
  obtain msg where "r1 = Some (Inr res)" "s' = t"
    "out = plainMessage ChaincodeMessage_REGISTERED # plainMessage ChaincodeMessage_READY # msg # replies"
    using assms(1) by (auto simp: Connector_Execute_def handlerExecute_def loop Let_def
        split: option.splits sum.splits)
  with loop_in_full [of lib "sn_Inputs net" s res replies t] loop assms(2) show ?thesis by blast
qed

end

end
