(* ===== verification/Execution_Context.thy ===== *)
theory Execution_Context
  imports Shim_Handler
begin

section \<open>Simulation of one invocation\<close>

text \<open>
  The execution context of \<open>helper/service.go\<close>: the reads and writes one chaincode invocation makes,
  over a Query Service view that is opened by the first read and released once.  The Query Service is
  a gRPC service, so its client is a parameter acting on a world \<open>'w\<close>; \<open>QueryServiceStateReader\<close>, the
  reader built on it, is modelled.  The Go maps of reads and writes are lists of records with distinct
  keys, as the tables of the store are.  A lock is held for the whole of every method, so a method is
  one step.  The context is what the chaincode handler works on: it is an interpretation of the handler's
  \<open>chaincode_state\<close> contract whenever the Query Service answers a view from one snapshot.
\<close>

subsection \<open>The Query Service\<close>

record ViewParameters =
  vp_RepeatableRead :: bool
  vp_TimeoutMilliseconds :: u64

record 'w query_client =
  qc_BeginView :: "call_ctx \<Rightarrow> ViewParameters \<Rightarrow> 'w \<Rightarrow> (orch_error + View option) \<times> 'w"
  qc_EndView :: "call_ctx \<Rightarrow> View option \<Rightarrow> 'w \<Rightarrow> orch_error option \<times> 'w"
  qc_GetRows :: "call_ctx \<Rightarrow> View option \<Rightarrow> string \<Rightarrow> string \<Rightarrow> 'w \<Rightarrow> (orch_error + row_answer) \<times> 'w"

definition BeginView :: "'w query_client \<Rightarrow> call_ctx \<Rightarrow> 'w \<Rightarrow> (orch_error + View option) \<times> 'w" where
  "BeginView client ctx w =
     (case cx_Err ctx of
        Some e \<Rightarrow> (Inl (CtxError e), w)
      | None \<Rightarrow>
          (let params = \<lparr>vp_RepeatableRead = True, vp_TimeoutMilliseconds = 0\<rparr> in
           case cx_Remaining ctx of
             None \<Rightarrow> qc_BeginView client ctx params w
           | Some remaining \<Rightarrow>
               (if remaining \<le> 0 then (Inl (CtxError DeadlineExceeded), w)
                else qc_BeginView client ctx
                  (params\<lparr>vp_TimeoutMilliseconds := of_int (max 1 (remaining div 1000000))\<rparr>) w)))"

definition EndView :: "'w query_client \<Rightarrow> call_ctx \<Rightarrow> View option \<Rightarrow> 'w \<Rightarrow> orch_error option \<times> 'w" where
  "EndView client ctx view w = qc_EndView client ctx view w"

definition readerGetState ::
  "'w query_client \<Rightarrow> call_ctx \<Rightarrow> View option \<Rightarrow> string \<Rightarrow> string \<Rightarrow> 'w
    \<Rightarrow> (orch_error + VersionedValue) \<times> 'w" where
  "readerGetState client ctx view namespace key w =
     (case qc_GetRows client ctx view namespace key w of
        (Inl e, w') \<Rightarrow> (Inl e, w')
      | (Inr answer, w') \<Rightarrow>
          (Inr (case findRow namespace key answer of
                  None \<Rightarrow> \<lparr>vv_Value = [], vv_Version = None\<rparr>
                | Some (value, version) \<Rightarrow> \<lparr>vv_Value = value, vv_Version = Some version\<rparr>), w'))"

subsection \<open>The context\<close>

record ExecutionContext =
  xc_namespace :: string
  xc_queryView :: "View option"
  xc_viewOwned :: bool
  xc_closed :: bool
  xc_readErr :: "orch_error option"
  xc_isInit :: bool
  xc_clientCreator :: bytes
  xc_clientNonce :: bytes
  xc_signedProposal :: "SignedProposal option"
  xc_decorations :: "(string \<times> bytes) list"
  xc_reads :: "KVRead list"
  xc_writes :: "KVWrite list"

definition NewExecutionContextWithView :: "string \<Rightarrow> View option \<Rightarrow> ExecutionContext" where
  "NewExecutionContextWithView namespace view =
     \<lparr>xc_namespace = namespace, xc_queryView = view, xc_viewOwned = False, xc_closed = False,
      xc_readErr = None, xc_isInit = False, xc_clientCreator = [], xc_clientNonce = [],
      xc_signedProposal = None, xc_decorations = [], xc_reads = [], xc_writes = []\<rparr>"

definition NewExecutionContext :: "string \<Rightarrow> ExecutionContext" where
  "NewExecutionContext namespace = NewExecutionContextWithView namespace None"

definition SetQueryView :: "View option \<Rightarrow> ExecutionContext \<Rightarrow> (orch_error + unit) \<times> ExecutionContext" where
  "SetQueryView view c =
     (if xc_closed c \<or> xc_queryView c \<noteq> None \<or> xc_readErr c \<noteq> None
      then (Inl (Plain ''execution query view is already initialized or closed''), c)
      else (Inr (), c\<lparr>xc_queryView := view\<rparr>))"

text \<open>Releasing the view.  A view is only owned after the reader has opened it, so a missing reader
  is never asked to end one.\<close>

definition ExecutionContext_Close ::
  "'w query_client option \<Rightarrow> call_ctx \<Rightarrow> ExecutionContext \<times> 'w
    \<Rightarrow> orch_error option \<times> ExecutionContext \<times> 'w" where
  "ExecutionContext_Close reader ctx st =
     (let (c, w) = st in
      if xc_closed c then (None, c, w)
      else let c' = c\<lparr>xc_closed := True\<rparr> in
        if \<not> xc_viewOwned c then (None, c', w)
        else case reader of
            None \<Rightarrow> (Some (Plain ''committed-state reader is not configured''), c', w)
          | Some client \<Rightarrow>
              (let (e, w') = EndView client ctx (xc_queryView c) w in (e, c', w')))"

definition upd_last :: "'r \<Rightarrow> 'r \<Rightarrow> 'r option" where
  "upd_last old new = Some new"

definition recordRead :: "string \<Rightarrow> VersionedValue \<Rightarrow> ExecutionContext \<Rightarrow> ExecutionContext" where
  "recordRead key value c = c\<lparr>xc_reads :=
     tbl_upsert kr_Key upd_last \<lparr>kr_Key = key, kr_Version = vv_Version value\<rparr> (xc_reads c)\<rparr>"

text \<open>The view of the context, opened on first use.\<close>

definition openView ::
  "'w query_client \<Rightarrow> call_ctx \<Rightarrow> ExecutionContext \<times> 'w
    \<Rightarrow> (orch_error + View option) \<times> ExecutionContext \<times> 'w" where
  "openView client ctx st =
     (let (c, w) = st in
      if xc_queryView c \<noteq> None then (Inr (xc_queryView c), c, w)
      else case BeginView client ctx w of
          (Inl e, w') \<Rightarrow> (Inl (Wrapped ''begin execution query view'' e), c, w')
        | (Inr None, w') \<Rightarrow> (Inl (Plain ''query service returned an empty execution view''), c, w')
        | (Inr (Some v), w') \<Rightarrow>
            (if vw_Id v = [] then (Inl (Plain ''query service returned an empty execution view''), c, w')
             else (Inr (Some v), c\<lparr>xc_queryView := Some v, xc_viewOwned := True\<rparr>, w')))"

definition failRead :: "orch_error \<Rightarrow> ExecutionContext \<times> 'w \<Rightarrow> (orch_error + bytes) \<times> ExecutionContext \<times> 'w" where
  "failRead e st = (Inl e, (fst st)\<lparr>xc_readErr := Some e\<rparr>, snd st)"

definition GetState ::
  "'w query_client option \<Rightarrow> call_ctx \<Rightarrow> string \<Rightarrow> ExecutionContext \<times> 'w
    \<Rightarrow> (orch_error + bytes) \<times> ExecutionContext \<times> 'w" where
  "GetState reader ctx key st =
     (if xc_closed (fst st) then (Inl (Plain ''execution context is closed''), st)
      else case xc_readErr (fst st) of
        Some e \<Rightarrow> (Inl e, st)
      | None \<Rightarrow>
        (case cx_Err ctx of
           Some e \<Rightarrow> failRead (CtxError e) st
         | None \<Rightarrow>
           (case reader of
              None \<Rightarrow> failRead (Plain ''committed-state reader is not configured'') st
            | Some client \<Rightarrow>
              (case openView client ctx st of
                 (Inl e, st') \<Rightarrow> failRead e st'
               | (Inr view, c, w) \<Rightarrow>
                 (case readerGetState client ctx view (xc_namespace c) key w of
                    (Inl e, w') \<Rightarrow> failRead (Wrapped ''read committed state in execution query view'' e) (c, w')
                  | (Inr value, w') \<Rightarrow> (Inr (vv_Value value), recordRead key value c, w'))))))"

definition recordWrite :: "KVWrite \<Rightarrow> ExecutionContext \<Rightarrow> ExecutionContext" where
  "recordWrite write c = c\<lparr>xc_writes := tbl_upsert kw_Key upd_last write (xc_writes c)\<rparr>"

definition PutState :: "string \<Rightarrow> bytes \<Rightarrow> ExecutionContext \<Rightarrow> ExecutionContext" where
  "PutState key v = recordWrite \<lparr>kw_Key = key, kw_Value = v, kw_IsDelete = False\<rparr>"

definition DelState :: "string \<Rightarrow> ExecutionContext \<Rightarrow> ExecutionContext" where
  "DelState key = recordWrite \<lparr>kw_Key = key, kw_Value = [], kw_IsDelete = True\<rparr>"

text \<open>The order of the two lists is that of a Go map, that is any; here it is that of first use.\<close>

definition ExecutionContext_Result :: "ExecutionContext \<Rightarrow> ReadWriteSet" where
  "ExecutionContext_Result c = \<lparr>rw_Reads = xc_reads c, rw_Writes = xc_writes c\<rparr>"

lemmas [exec_defs] = NewExecutionContextWithView_def NewExecutionContext_def SetQueryView_def
  ExecutionContext_Close_def upd_last_def recordRead_def openView_def failRead_def GetState_def
  recordWrite_def PutState_def DelState_def ExecutionContext_Result_def BeginView_def EndView_def
  readerGetState_def

subsection \<open>The context keeps the handler's contract\<close>

interpretation reads_tbl: pk_table kr_Key upd_last
  by unfold_locales (simp add: upd_last_def)

interpretation writes_tbl: pk_table kw_Key upd_last
  by unfold_locales (simp add: upd_last_def)

definition context_ops :: "'w query_client option \<Rightarrow> (ExecutionContext \<times> 'w) State_ops" where
  "context_ops reader = \<lparr>so_GetState = GetState reader,
     so_PutState = (\<lambda>k v. map_prod (PutState k v) id),
     so_DelState = (\<lambda>k. map_prod (DelState k) id),
     so_QueryView = xc_queryView \<circ> fst\<rparr>"

text \<open>The read and write sets as maps: the last write of a key, and the version it was read at.\<close>

definition effects_of :: "ReadWriteSet \<Rightarrow> string \<Rightarrow> bytes option option" where
  "effects_of rws k = map_option (\<lambda>w. if kw_IsDelete w then None else Some (kw_Value w))
     (tbl_get kw_Key k (rw_Writes rws))"

definition versions_of :: "ReadWriteSet \<Rightarrow> string \<Rightarrow> u64 option option" where
  "versions_of rws k = map_option kr_Version (tbl_get kr_Key k (rw_Reads rws))"

definition pending_writes :: "ExecutionContext \<times> 'w \<Rightarrow> string \<Rightarrow> bytes option option" where
  "pending_writes st = effects_of (ExecutionContext_Result (fst st))"

definition observed_reads :: "ExecutionContext \<times> 'w \<Rightarrow> string \<Rightarrow> u64 option option" where
  "observed_reads st = versions_of (ExecutionContext_Result (fst st))"

lemma pending_at: "pending_writes st k = map_option (\<lambda>w. if kw_IsDelete w then None else Some (kw_Value w))
     (tbl_get kw_Key k (xc_writes (fst st)))"
  by (simp add: pending_writes_def effects_of_def ExecutionContext_Result_def)

lemma observed_at: "observed_reads st k = map_option kr_Version (tbl_get kr_Key k (xc_reads (fst st)))"
  by (simp add: observed_reads_def versions_of_def ExecutionContext_Result_def)

text \<open>What the Query Service documents of a repeatable-read view: one snapshot answers all its queries.\<close>

type_synonym view_snapshot = "View option \<Rightarrow> string \<Rightarrow> string \<Rightarrow> (bytes \<times> u64) option"

definition repeatable :: "'w query_client option \<Rightarrow> view_snapshot \<Rightarrow> bool" where
  "repeatable reader snap \<longleftrightarrow> (\<forall>client ctx view ns k w answer w'. reader = Some client \<longrightarrow>
     qc_GetRows client ctx view ns k w = (Inr answer, w') \<longrightarrow> findRow ns k answer = snap view ns k)"

definition committed_value :: "(bytes \<times> u64) option \<Rightarrow> VersionedValue" where
  "committed_value row = (case row of
      None \<Rightarrow> \<lparr>vv_Value = [], vv_Version = None\<rparr>
    | Some (value, version) \<Rightarrow> \<lparr>vv_Value = value, vv_Version = Some version\<rparr>)"

definition context_snapshot :: "view_snapshot \<Rightarrow> ExecutionContext \<times> 'w \<Rightarrow> string \<Rightarrow> VersionedValue" where
  "context_snapshot snap st k =
     committed_value (snap (xc_queryView (fst st)) (xc_namespace (fst st)) k)"

definition context_sound :: "'w query_client option \<Rightarrow> view_snapshot \<Rightarrow> ExecutionContext \<times> 'w \<Rightarrow> bool" where
  "context_sound reader snap st \<longleftrightarrow> repeatable reader snap \<and>
     (xc_reads (fst st) \<noteq> [] \<longrightarrow> xc_queryView (fst st) \<noteq> None) \<and>
     distinct (map kr_Key (xc_reads (fst st))) \<and> distinct (map kw_Key (xc_writes (fst st)))"

lemma openView_ok:
  assumes "openView client ctx st = (Inr view, c, w)"
  shows "view = xc_queryView c \<and> view \<noteq> None \<and> xc_namespace c = xc_namespace (fst st) \<and>
    xc_reads c = xc_reads (fst st) \<and> xc_writes c = xc_writes (fst st) \<and>
    (xc_queryView (fst st) \<noteq> None \<longrightarrow> c = fst st)"
proof (cases "xc_queryView (fst st)")
  case None
  then show ?thesis using assms
    by (cases st) (auto simp: openView_def split: prod.splits sum.splits option.splits if_splits)
next
  case (Some y)
  then have "c = fst st" "view = Some y" using assms by (auto simp: openView_def split: prod.splits)
  then show ?thesis using Some by simp
qed

lemma openView_failed: "openView client ctx st = (Inl e, c, w) \<Longrightarrow> c = fst st"
  by (cases st) (auto simp: openView_def split: prod.splits sum.splits option.splits if_splits)

lemma GetState_Inr:
  assumes "GetState reader ctx k st = (Inr v, st')"
  obtains client view c w w' x where "reader = Some client" "openView client ctx st = (Inr view, c, w)"
    "readerGetState client ctx view (xc_namespace c) k w = (Inr x, w')" "v = vv_Value x"
    "st' = (recordRead k x c, w')"
  using assms by (auto simp: GetState_def failRead_def split: if_splits option.splits prod.splits sum.splits)

lemma GetState_Inl:
  assumes "GetState reader ctx k st = (Inl e, st')"
  shows "xc_reads (fst st') = xc_reads (fst st) \<and> xc_writes (fst st') = xc_writes (fst st) \<and>
    xc_namespace (fst st') = xc_namespace (fst st) \<and>
    (xc_queryView (fst st) \<noteq> None \<longrightarrow> xc_queryView (fst st') = xc_queryView (fst st))"
  using assms by (auto simp: GetState_def failRead_def dest: openView_failed openView_ok
      split: if_splits option.splits prod.splits sum.splits)

lemma reader_snapshot:
  assumes "repeatable (Some client) snap"
    and "readerGetState client ctx view ns k w = (Inr x, w')"
  shows "x = committed_value (snap view ns k)"
proof -
  obtain answer where q: "qc_GetRows client ctx view ns k w = (Inr answer, w')"
      and x: "x = committed_value (findRow ns k answer)"
    using assms(2) by (auto simp: readerGetState_def committed_value_def split: prod.splits sum.splits)
  have "findRow ns k answer = snap view ns k" using assms(1) q unfolding repeatable_def by blast
  then show ?thesis using x by simp
qed

lemma context_sel [simp]:
  "so_GetState (context_ops reader) = GetState reader"
  "so_PutState (context_ops reader) k v = map_prod (PutState k v) id"
  "so_DelState (context_ops reader) k = map_prod (DelState k) id"
  "so_QueryView (context_ops reader) = xc_queryView \<circ> fst"
  by (simp_all add: context_ops_def)

lemma write_sel [simp]:
  "xc_reads (recordWrite x c) = xc_reads c" "xc_queryView (recordWrite x c) = xc_queryView c"
  "xc_namespace (recordWrite x c) = xc_namespace c"
  "xc_writes (recordWrite x c) = tbl_upsert kw_Key upd_last x (xc_writes c)"
  by (simp_all add: recordWrite_def)

lemma write_pending:
  "pending_writes (map_prod (recordWrite x) id st) =
     (pending_writes st)(kw_Key x \<mapsto> (if kw_IsDelete x then None else Some (kw_Value x)))"
  by (rule ext) (simp add: pending_at writes_tbl.get_upsert writes_tbl.merged_def upd_last_def
      split: option.split)

lemma read_observed:
  "observed_reads (recordRead k x c, w) = (observed_reads (c, w'))(k \<mapsto> vv_Version x)"
  by (rule ext) (simp add: observed_at recordRead_def reads_tbl.get_upsert reads_tbl.merged_def
      upd_last_def split: option.split)

lemma no_reads: "xc_reads (fst st) = [] \<Longrightarrow> observed_reads st = Map.empty"
  by (rule ext) (simp add: observed_at)

lemma GetState_answer:
  assumes "context_sound reader snap st" and "GetState reader ctx k st = (Inr v, st')"
  shows "context_sound reader snap st' \<and> v = vv_Value (context_snapshot snap st' k) \<and>
    observed_reads st' = (observed_reads st)(k \<mapsto> vv_Version (context_snapshot snap st' k)) \<and>
    pending_writes st' = pending_writes st \<and>
    (xc_reads (fst st) \<noteq> [] \<longrightarrow> context_snapshot snap st' = context_snapshot snap st)"
proof -
  obtain client view c w w' x where g: "reader = Some client" "openView client ctx st = (Inr view, c, w)"
      "readerGetState client ctx view (xc_namespace c) k w = (Inr x, w')" "v = vv_Value x"
      "st' = (recordRead k x c, w')" using GetState_Inr[OF assms(2)] .
  note op = openView_ok[OF g(2)]
  have rep: "repeatable (Some client) snap" using assms(1) g(1) by (simp add: context_sound_def)
  have x: "x = committed_value (snap (xc_queryView c) (xc_namespace c) k)"
    using reader_snapshot[OF rep g(3)] op by simp
  have sel: "xc_queryView (recordRead k x c) = xc_queryView c" "xc_namespace (recordRead k x c) = xc_namespace c"
    "xc_writes (recordRead k x c) = xc_writes c" by (simp_all add: recordRead_def)
  have snap: "context_snapshot snap st' j = committed_value (snap (xc_queryView c) (xc_namespace c) j)" for j
    unfolding context_snapshot_def g(5) fst_conv sel ..
  have "observed_reads (c, w) = observed_reads st" using op by (intro ext) (simp add: observed_at)
  then have o: "observed_reads st' = (observed_reads st)(k \<mapsto> vv_Version x)"
    unfolding g(5) using read_observed[of k x c w' w] by simp
  have same: "context_snapshot snap st' = context_snapshot snap st" if "xc_reads (fst st) \<noteq> []"
  proof (rule ext)
    fix j
    have "c = fst st" using that assms(1) op by (simp add: context_sound_def)
    then show "context_snapshot snap st' j = context_snapshot snap st j"
      unfolding snap by (simp add: context_snapshot_def)
  qed
  have "distinct (map kr_Key (xc_reads (recordRead k x c)))" "distinct (map kw_Key (xc_writes c))"
    using assms(1) op by (simp_all add: recordRead_def context_sound_def reads_tbl.distinct_upsert)
  then have "context_sound reader snap st'" using rep op g(1) by (auto simp: context_sound_def g(5) sel)
  moreover have "v = vv_Value (context_snapshot snap st' k)" using g(4) x by (simp add: snap)
  moreover have "pending_writes st' = pending_writes st"
    using op by (intro ext) (simp add: pending_at g(5) sel)
  ultimately show ?thesis using o x same by (simp add: snap)
qed

interpretation execution: chaincode_state "context_ops reader" "context_sound reader snap" pending_writes
    observed_reads "context_snapshot snap" for reader snap
proof unfold_locales
  fix k v c e r and s s' :: "ExecutionContext \<times> 'a"
  show "pending_writes (so_PutState (context_ops reader) k v s) = (pending_writes s)(k \<mapsto> Some v)"
    by (simp add: PutState_def write_pending)
  show "pending_writes (so_DelState (context_ops reader) k s) = (pending_writes s)(k \<mapsto> None)"
    by (simp add: DelState_def write_pending)
  show "observed_reads (so_PutState (context_ops reader) k v s) = observed_reads s"
    "observed_reads (so_DelState (context_ops reader) k s) = observed_reads s"
    by (rule ext, simp add: observed_at PutState_def DelState_def)+
  show "context_snapshot snap (so_PutState (context_ops reader) k v s) = context_snapshot snap s"
    "context_snapshot snap (so_DelState (context_ops reader) k s) = context_snapshot snap s"
    by (rule ext, simp add: context_snapshot_def PutState_def DelState_def)+
  show "context_sound reader snap (so_PutState (context_ops reader) k v s)"
    "context_sound reader snap (so_DelState (context_ops reader) k s)" if "context_sound reader snap s"
    using that by (simp_all add: context_sound_def PutState_def DelState_def writes_tbl.distinct_upsert)
  show "pending_writes s' = pending_writes s" if "so_GetState (context_ops reader) c k s = (r, s')"
  proof (cases r)
    case (Inl e)
    then show ?thesis using that GetState_Inl[of reader c k s e s'] by (intro ext) (simp add: pending_at)
  next
    case (Inr v)
    then have "GetState reader c k s = (Inr v, s')" using that by simp
    then obtain client view c' w w' x where "openView client c s = (Inr view, c', w)"
        "s' = (recordRead k x c', w')" by (rule GetState_Inr)
    then show ?thesis using openView_ok[of client c s view c' w] by (intro ext) (simp add: pending_at recordRead_def)
  qed
  show "observed_reads s' = observed_reads s" if "so_GetState (context_ops reader) c k s = (Inl e, s')"
    using that GetState_Inl[of reader c k s e s'] by (intro ext) (simp add: observed_at)
  show "v = vv_Value (context_snapshot snap s' k) \<and>
      observed_reads s' = (observed_reads s)(k \<mapsto> vv_Version (context_snapshot snap s' k))"
    if "context_sound reader snap s" "so_GetState (context_ops reader) c k s = (Inr v, s')"
    using GetState_answer[of reader snap s c k v s'] that by simp
  show "context_sound reader snap s'"
    if "context_sound reader snap s" "so_GetState (context_ops reader) c k s = (r, s')"
  proof (cases r)
    case (Inl e)
    then show ?thesis using that GetState_Inl[of reader c k s e s'] by (auto simp: context_sound_def)
  next
    case (Inr v)
    then show ?thesis using that GetState_answer[of reader snap s c k v s'] by simp
  qed
  show "context_snapshot snap s' = context_snapshot snap s"
    if "context_sound reader snap s" "observed_reads s \<noteq> Map.empty" "so_GetState (context_ops reader) c k s = (r, s')"
  proof (cases r)
    case (Inl e)
    have "xc_queryView (fst s) \<noteq> None" using that(1,2) no_reads[of s] by (auto simp: context_sound_def)
    then show ?thesis using that Inl GetState_Inl[of reader c k s e s'] by (auto simp: context_snapshot_def fun_eq_iff)
  next
    case (Inr v)
    have "xc_reads (fst s) \<noteq> []" using that(2) no_reads[of s] by auto
    then show ?thesis using that Inr GetState_answer[of reader snap s c k v s'] by simp
  qed
qed

text \<open>A failed read marks the context for good, so that a chaincode cannot ignore it.\<close>

definition read_failed :: "ExecutionContext \<times> 'w \<Rightarrow> bool" where
  "read_failed st \<longleftrightarrow> xc_closed (fst st) \<or> xc_readErr (fst st) \<noteq> None"

lemma GetState_after_failure: "read_failed st \<Longrightarrow> GetState reader c k st = (r, st') \<Longrightarrow> st' = st"
  by (auto simp: read_failed_def GetState_def split: if_splits)

interpretation execution_failure: remembered_failure "context_ops reader" read_failed for reader
proof unfold_locales
  fix k v c e r and s s' :: "ExecutionContext \<times> 'a"
  show "read_failed s \<Longrightarrow> read_failed (so_PutState (context_ops reader) k v s)"
    "read_failed s \<Longrightarrow> read_failed (so_DelState (context_ops reader) k s)"
    by (simp_all add: read_failed_def PutState_def DelState_def recordWrite_def)
  show "read_failed s \<Longrightarrow> so_GetState (context_ops reader) c k s = (r, s') \<Longrightarrow> read_failed s'"
    using GetState_after_failure [of s reader c k r s'] by simp
  show "so_GetState (context_ops reader) c k s = (Inl e, s') \<Longrightarrow> read_failed s'"
    by (auto simp: GetState_def failRead_def read_failed_def split: if_splits option.splits prod.splits sum.splits)
qed

interpretation execution_open: state_invariant "context_ops reader" "\<lambda>st. \<not> xc_closed (fst st)" for reader
proof unfold_locales
  fix k v c r and s s' :: "ExecutionContext \<times> 'a"
  assume op: "\<not> xc_closed (fst s)"
  show "\<not> xc_closed (fst (so_PutState (context_ops reader) k v s))"
    "\<not> xc_closed (fst (so_DelState (context_ops reader) k s))"
    using op by (simp_all add: PutState_def DelState_def recordWrite_def)
  have view: "\<not> xc_closed c'" if "openView client c s = (x, c', w)" for client x c' w
    using that op by (cases s) (auto simp: openView_def split: prod.splits sum.splits option.splits if_splits)
  show "\<not> xc_closed (fst s')" if "so_GetState (context_ops reader) c k s = (r, s')"
    using that op by (auto simp: GetState_def failRead_def recordRead_def dest: view
        split: if_splits option.splits prod.splits sum.splits)
qed

end
