(* ===== verification/Event_Stream.thy ===== *)
theory Event_Stream
  imports Proposal_Auth Chaincode_Events
begin

section \<open>Event subscriptions\<close>

text \<open>
  \<open>streamCommittedBlocks\<close> of \<open>execution.go\<close> and the Gateway call \<open>ChaincodeEvents\<close> of \<open>service.go\<close>.
  The block service is a parameter: what it answers to the setup calls and the responses its
  delivery stream gives before it ends with an error.  The visitor of a block changes the
  subscription's state, the pending checkpoint and the responses already sent; sending may fail.
  The property: a subscription sends exactly the committed events of its chaincode from its start
  block on that follow its checkpoint, each once, in block order and under its block number.
\<close>

subsection \<open>Streaming blocks\<close>

datatype delivered = DeliverBlock Block | DeliverStatus string

record delivery =
  dv_Signed :: "orch_error option"
  dv_Open :: "orch_error option"
  dv_Send :: "orch_error option"
  dv_CloseSend :: "orch_error option"
  dv_Responses :: "delivered list"
  dv_End :: orch_error

text \<open>The receive loop; a \<open>uint64\<close> block number is a word, the loop stops after its largest value.\<close>

fun receiveBlocks ::
  "(Block \<Rightarrow> 's \<Rightarrow> (orch_error + unit) \<times> 's) \<Rightarrow> orch_error \<Rightarrow> u64 \<Rightarrow> delivered list \<Rightarrow> 's
    \<Rightarrow> (orch_error + unit) \<times> 's" where
  "receiveBlocks visit fin expected [] st = (Inl (Wrapped ''receive committed block'' fin), st)"
| "receiveBlocks visit fin expected (DeliverStatus code # rs) st =
     (Inl (Plain (''committed block delivery ended with status '' @ code)), st)"
| "receiveBlocks visit fin expected (DeliverBlock block # rs) st =
     (if bk_Header block \<noteq> Some expected
      then (Inl (StatusError CodeDataLoss ''committed block delivery''), st)
      else case visit block st of
        (Inl e, st') \<Rightarrow> (Inl e, st')
      | (Inr _, st') \<Rightarrow>
          (if expected = - 1 then (Inr (), st') else receiveBlocks visit fin (expected + 1) rs st'))"

text \<open>The seek names the start block, so the delivery depends on it.\<close>

definition streamCommittedBlocks ::
  "bool \<Rightarrow> (u64 \<Rightarrow> delivery) \<Rightarrow> u64 \<Rightarrow> (Block \<Rightarrow> 's \<Rightarrow> (orch_error + unit) \<times> 's) \<Rightarrow> 's
    \<Rightarrow> (orch_error + unit) \<times> 's" where
  "streamCommittedBlocks signer deliver start visit st =
     (let d = deliver start in
      if \<not> signer then (Inl (StatusError CodeFailedPrecondition ''block delivery signer is not configured''), st)
      else case dv_Signed d of
        Some e \<Rightarrow> (Inl (StatusError CodeInternal ''sign block delivery request''), st)
      | None \<Rightarrow> (case dv_Open d of
        Some e \<Rightarrow> (Inl (Wrapped ''open committed block delivery'' e), st)
      | None \<Rightarrow> (case dv_Send d of
        Some e \<Rightarrow> (Inl (Wrapped ''send block seek'' e), st)
      | None \<Rightarrow> (case dv_CloseSend d of
        Some e \<Rightarrow> (Inl (Wrapped ''close block seek send'' e), st)
      | None \<Rightarrow> receiveBlocks visit (dv_End d) start (dv_Responses d) st))))"

subsection \<open>The subscription\<close>

record subscription =
  ss_previous :: string
  ss_sent :: "(u64 \<times> PeerEvent list) list"

text \<open>Events up to and including the checkpoint are skipped; then those of the chaincode are taken.\<close>

fun matchEvents :: "string \<Rightarrow> PeerEvent list \<Rightarrow> string \<Rightarrow> PeerEvent list \<times> string" where
  "matchEvents chaincode [] previous = ([], previous)"
| "matchEvents chaincode (e # es) previous =
     (if previous \<noteq> [] then matchEvents chaincode es (if pv_TxId e = previous then [] else previous)
      else let (ms, p) = matchEvents chaincode es [] in
           (if pv_ChaincodeId e = chaincode then e # ms else ms, p))"

definition visitBlock ::
  "proto_lib \<Rightarrow> EventsRequest \<Rightarrow> u64 \<Rightarrow> (u64 \<times> PeerEvent list \<Rightarrow> orch_error option) \<Rightarrow> Block \<Rightarrow> subscription
    \<Rightarrow> (orch_error + unit) \<times> subscription" where
  "visitBlock lib request start send block st =
     (case bk_Header block of
        None \<Rightarrow> (Inr (), st)
      | Some number \<Rightarrow>
          (if number < start then (Inr (), st)
           else case committedChaincodeEvents lib block (er_ChannelId request) of
             Inl e \<Rightarrow> (Inl (StatusError CodeDataLoss ''events''), st)
           | Inr events \<Rightarrow>
               (let (matching, previous) = matchEvents (er_ChaincodeId request) events (ss_previous st);
                    st' = st\<lparr>ss_previous := previous\<rparr> in
                if matching = [] then (Inr (), st')
                else case send (number, matching) of
                  Some e \<Rightarrow> (Inl e, st')
                | None \<Rightarrow> (Inr (), st'\<lparr>ss_sent := ss_sent st' @ [(number, matching)]\<rparr>))))"

text \<open>What the setup calls answer; \<open>height\<close> of a nil answer is \<open>None\<close>.\<close>

record block_services =
  bs_Info :: "orch_error + u64 option"
  bs_ByTxID :: "string \<Rightarrow> orch_error + Block"
  bs_Deliver :: "u64 \<Rightarrow> delivery"

definition checkpointStart ::
  "proto_lib \<Rightarrow> block_services \<Rightarrow> ctx \<Rightarrow> EventsRequest \<Rightarrow> u64 \<Rightarrow> orch_error + u64" where
  "checkpointStart lib bs ctx request start =
     (if er_AfterTransactionId request = [] then Inr start
      else case bs_ByTxID bs (er_AfterTransactionId request) of
        Inl e \<Rightarrow> (if errors_status e = Some CodeNotFound then Inr start else Inl (invocationRPCError ctx e))
      | Inr block \<Rightarrow>
          (case bk_Header block of
             None \<Rightarrow> Inl (StatusError CodeDataLoss ''checkpoint block has no header'')
           | Some number \<Rightarrow>
               (case committedChaincodeEvents lib block (er_ChannelId request) of
                  Inl e \<Rightarrow> Inl (StatusError CodeDataLoss ''events'')
                | Inr events \<Rightarrow>
                    (if list_ex (\<lambda>e. pv_TxId e = er_AfterTransactionId request) events then Inr number
                     else Inl (StatusError CodeFailedPrecondition
                       ''checkpoint must identify a committed event with chaincode identity metadata'')))))"

definition subscriptionStart ::
  "proto_lib \<Rightarrow> block_services \<Rightarrow> ctx \<Rightarrow> EventsRequest \<Rightarrow> orch_error + u64 \<times> u64" where
  "subscriptionStart lib bs ctx request =
     (case bs_Info bs of
        Inl e \<Rightarrow> Inl (invocationRPCError ctx e)
      | Inr None \<Rightarrow> Inl (StatusError CodeDataLoss ''block service returned no ledger information'')
      | Inr (Some height) \<Rightarrow>
          (let start = (case er_StartPosition request of SeekSpecified n \<Rightarrow> n | _ \<Rightarrow> height) in
           rbind (checkpointStart lib bs ctx request start) (\<lambda>from. Inr (from, min from height))))"

text \<open>
  The context is read at the start and once more afterwards; \<open>svc\<close> is \<open>None\<close> without block services.
  The stream never ends without an error, except after the largest block number.
\<close>

definition ChaincodeEvents ::
  "'id msp_lib \<Rightarrow> proto_lib \<Rightarrow> gateway_lib \<Rightarrow> Config \<Rightarrow> 'id proposalVerifier option \<Rightarrow> bool \<Rightarrow> block_services option
    \<Rightarrow> (u64 \<times> PeerEvent list \<Rightarrow> orch_error option) \<Rightarrow> ctx \<Rightarrow> ctx \<Rightarrow> (bytes \<times> bytes) option \<Rightarrow> int
    \<Rightarrow> orch_error option \<times> (u64 \<times> PeerEvent list) list" where
  "ChaincodeEvents mlib lib glib cfg v signer svc send ctx ctx' sprop now =
     (case ctx of Some e \<Rightarrow> (Some (FromContextError e), []) | None \<Rightarrow>
     (case authenticateGatewayChaincodeEvents mlib glib cfg v sprop now of Inl e \<Rightarrow> (Some e, []) | Inr request \<Rightarrow>
     (case svc of
        None \<Rightarrow> (Some (StatusError CodeFailedPrecondition ''committed block services are not configured''), [])
      | Some bs \<Rightarrow>
     (case subscriptionStart lib bs ctx' request of Inl e \<Rightarrow> (Some e, []) | Inr (start, from) \<Rightarrow>
       (let (res, st) = streamCommittedBlocks signer (bs_Deliver bs) from (visitBlock lib request start send)
                          \<lparr>ss_previous = er_AfterTransactionId request, ss_sent = []\<rparr> in
        (case ctx' of
           Some e \<Rightarrow> Some (FromContextError e)
         | None \<Rightarrow> (case res of
               Inr _ \<Rightarrow> None
             | Inl e \<Rightarrow> (if errors_status e \<noteq> None then Some e else Some (StatusError CodeUnavailable ''events''))),
         ss_sent st))))))"

subsection \<open>What a subscriber receives\<close>

text \<open>
  The ledger as a subscription can see it: the numbered events of the delivered blocks from \<open>start\<close>
  on, up to the first response that is no block, out of order or cannot be decoded.
\<close>

fun usableBlocks ::
  "proto_lib \<Rightarrow> string \<Rightarrow> u64 \<Rightarrow> u64 \<Rightarrow> delivered list \<Rightarrow> (u64 \<times> PeerEvent list) list" where
  "usableBlocks lib channel start expected [] = []"
| "usableBlocks lib channel start expected (DeliverStatus code # rs) = []"
| "usableBlocks lib channel start expected (DeliverBlock block # rs) =
     (if bk_Header block \<noteq> Some expected then []
      else let later = (if expected = - 1 then [] else usableBlocks lib channel start (expected + 1) rs) in
           if expected < start then later
           else case committedChaincodeEvents lib block channel of
             Inl e \<Rightarrow> []
           | Inr events \<Rightarrow> (expected, events) # later)"

definition afterCheckpoint :: "string \<Rightarrow> PeerEvent list \<Rightarrow> PeerEvent list" where
  "afterCheckpoint previous es =
     (if previous = [] then es else drop 1 (dropWhile (\<lambda>e. pv_TxId e \<noteq> previous) es))"

definition subscribed :: "EventsRequest \<Rightarrow> PeerEvent list \<Rightarrow> PeerEvent list" where
  "subscribed request es =
     filter (\<lambda>e. pv_ChaincodeId e = er_ChaincodeId request) (afterCheckpoint (er_AfterTransactionId request) es)"

definition checkpointLeft :: "string \<Rightarrow> PeerEvent list \<Rightarrow> string" where
  "checkpointLeft previous es = (if \<exists>e \<in> set es. pv_TxId e = previous then [] else previous)"

lemma afterCheckpoint_append:
  "afterCheckpoint p (xs @ ys) = afterCheckpoint p xs @ afterCheckpoint (checkpointLeft p xs) ys"
proof (cases "\<exists>e \<in> set xs. pv_TxId e = p")
  case True
  then have "dropWhile (\<lambda>e. pv_TxId e \<noteq> p) xs \<noteq> []" by (auto simp: dropWhile_eq_Nil_conv)
  moreover from True have "dropWhile (\<lambda>e. pv_TxId e \<noteq> p) (xs @ ys) = dropWhile (\<lambda>e. pv_TxId e \<noteq> p) xs @ ys"
    by (auto simp: dropWhile_append1)
  ultimately show ?thesis using True
    by (cases "dropWhile (\<lambda>e. pv_TxId e \<noteq> p) xs") (auto simp: afterCheckpoint_def checkpointLeft_def)
next
  case False
  have e1: "dropWhile (\<lambda>e. pv_TxId e \<noteq> p) (xs @ ys) = dropWhile (\<lambda>e. pv_TxId e \<noteq> p) ys"
    and e2: "dropWhile (\<lambda>e. pv_TxId e \<noteq> p) xs = []" using False by (auto simp: dropWhile_append)
  from False show ?thesis by (simp add: afterCheckpoint_def checkpointLeft_def e1 e2)
qed

lemma matchEvents_spec:
  "matchEvents cc es p =
     (filter (\<lambda>e. pv_ChaincodeId e = cc) (afterCheckpoint p es), checkpointLeft p es)"
proof (induction cc es p rule: matchEvents.induct)
  case (2 cc e es p)
  then show ?case by (auto simp: afterCheckpoint_def checkpointLeft_def)
qed (simp add: afterCheckpoint_def checkpointLeft_def)

definition sentEvents :: "subscription \<Rightarrow> PeerEvent list" where
  "sentEvents st = concat (map snd (ss_sent st))"

text \<open>One visited block sends its share, or fails and sends nothing.\<close>

lemma visitBlock_sends:
  assumes "visitBlock lib request start send block st = (res, st')" and "bk_Header block = Some n"
    and "start \<le> n" and "committedChaincodeEvents lib block (er_ChannelId request) = Inr es"
    and "share = filter (\<lambda>e. pv_ChaincodeId e = er_ChaincodeId request) (afterCheckpoint (ss_previous st) es)"
  shows "(is_ok res \<and> sentEvents st' = sentEvents st @ share \<and> ss_previous st' = checkpointLeft (ss_previous st) es) \<or>
    (\<not> is_ok res \<and> sentEvents st' = sentEvents st \<and> (\<exists>x. send x \<noteq> None))"
  using assms
  by (auto simp: visitBlock_def matchEvents_spec sentEvents_def Let_def linorder_not_less split: if_splits option.splits)

lemma receive_sends:
  assumes "receiveBlocks (visitBlock lib request start send) fin expected rs st = (res, st')"
    and "later = filter (\<lambda>e. pv_ChaincodeId e = er_ChaincodeId request) (afterCheckpoint (ss_previous st)
           (concat (map snd (usableBlocks lib (er_ChannelId request) start expected rs))))"
  shows "\<exists>sent. sentEvents st' = sentEvents st @ sent \<and> prefix sent later \<and> ((\<forall>x. send x = None) \<longrightarrow> sent = later)"
  using assms
proof (induction lib "er_ChannelId request" start expected rs arbitrary: st later rule: usableBlocks.induct)
  case (3 lib start expected block rs)
  show ?case
  proof (cases "bk_Header block = Some expected")
    case False
    with 3 show ?thesis by (simp add: afterCheckpoint_def)
  next
    case header: True
    show ?thesis
    proof (cases "expected < start")
      case True
      then have "visitBlock lib request start send block st = (Inr (), st)" using header by (simp add: visitBlock_def)
      moreover have ne: "expected \<noteq> - 1" using True word_n1_ge [of start] by auto
      ultimately have "receiveBlocks (visitBlock lib request start send) fin (expected + 1) rs st = (res, st')"
        using 3(2) header by simp
      from 3(1) [OF _ _ this refl] 3(3) header ne True show ?thesis by simp
    next
      case False
      show ?thesis
      proof (cases "committedChaincodeEvents lib block (er_ChannelId request)")
        case (Inl e)
        with 3 header False show ?thesis
          by (auto simp: visitBlock_def afterCheckpoint_def linorder_not_less)
      next
        case (Inr es)
        obtain r st1 where v: "visitBlock lib request start send block st = (r, st1)" by fastforce
        define share where
          "share = filter (\<lambda>e. pv_ChaincodeId e = er_ChaincodeId request) (afterCheckpoint (ss_previous st) es)"
        define rest where "rest = (if expected = - 1 then [] else usableBlocks lib (er_ChannelId request) start (expected + 1) rs)"
        define more where "more = filter (\<lambda>e. pv_ChaincodeId e = er_ChaincodeId request)
          (afterCheckpoint (checkpointLeft (ss_previous st) es) (concat (map snd rest)))"
        have later: "later = share @ more"
          using 3(3) header False Inr by (simp add: share_def more_def rest_def afterCheckpoint_append Let_def)
        from visitBlock_sends [OF v header _ Inr share_def] False consider
          (ok) "is_ok r" "sentEvents st1 = sentEvents st @ share" "ss_previous st1 = checkpointLeft (ss_previous st) es"
          | (failed) "\<not> is_ok r" "sentEvents st1 = sentEvents st" "\<exists>x. send x \<noteq> None"
          by (auto simp: linorder_not_less)
        then show ?thesis
        proof cases
          case ok
          show ?thesis
          proof (cases "expected = - 1")
            case True
            with 3(2) header v ok(1) have "st' = st1" by (auto simp: is_ok_iff)
            moreover have "more = []" using True by (simp add: more_def rest_def afterCheckpoint_def)
            ultimately show ?thesis using ok later by auto
          next
            case False
            then have "receiveBlocks (visitBlock lib request start send) fin (expected + 1) rs st1 = (res, st')"
              using 3(2) header v ok(1) by (auto simp: is_ok_iff)
            from 3(1) [OF _ _ this refl] header False ok later show ?thesis
              by (auto simp: more_def rest_def)
          qed
        next
          case failed
          with 3(2) header v have "st' = st1" by (cases r) auto
          with failed show ?thesis by auto
        qed
      qed
    qed
  qed
qed (auto simp: afterCheckpoint_def)

definition setup_ok :: "delivery \<Rightarrow> bool" where
  "setup_ok d \<longleftrightarrow> dv_Signed d = None \<and> dv_Open d = None \<and> dv_Send d = None \<and> dv_CloseSend d = None"

lemma stream_sends:
  assumes "streamCommittedBlocks signer deliver from (visitBlock lib request start send)
      \<lparr>ss_previous = er_AfterTransactionId request, ss_sent = []\<rparr> = (res, st)"
    and "spec = subscribed request (concat (map snd
           (usableBlocks lib (er_ChannelId request) start from (dv_Responses (deliver from)))))"
  shows "prefix (sentEvents st) spec \<and>
    (signer \<and> setup_ok (deliver from) \<and> (\<forall>x. send x = None) \<longrightarrow> sentEvents st = spec)"
proof (cases "signer \<and> setup_ok (deliver from)")
  case True
  with assms(1) have r: "receiveBlocks (visitBlock lib request start send) (dv_End (deliver from)) from
      (dv_Responses (deliver from)) \<lparr>ss_previous = er_AfterTransactionId request, ss_sent = []\<rparr> = (res, st)"
    by (simp add: streamCommittedBlocks_def setup_ok_def Let_def)
  show ?thesis using receive_sends [OF r refl] assms(2) by (auto simp: subscribed_def sentEvents_def)
next
  case False
  with assms(1) have "ss_sent st = []"
    by (auto simp: streamCommittedBlocks_def setup_ok_def Let_def split: if_splits option.splits)
  with False show ?thesis by (auto simp: sentEvents_def)
qed

text \<open>C13: a subscription sends, in ledger order and each once, exactly the committed events of the requested
  chaincode in the usable blocks from its start block on that come after its checkpoint transaction;
  when sending to the reader fails it has sent a prefix of them.\<close>

theorem events_delivered_exactly:
  assumes "ChaincodeEvents mlib lib glib cfg v signer (Some bs) send ctx ctx' sprop now = (res, sent)"
    and "authenticateGatewayChaincodeEvents mlib glib cfg v sprop now = Inr request"
    and "subscriptionStart lib bs ctx' request = Inr (start, from)"
    and "spec = subscribed request (concat (map snd
           (usableBlocks lib (er_ChannelId request) start from (dv_Responses (bs_Deliver bs from)))))"
  shows "prefix (concat (map snd sent)) spec \<and>
    (ctx = None \<and> signer \<and> setup_ok (bs_Deliver bs from) \<and> (\<forall>x. send x = None) \<longrightarrow> concat (map snd sent) = spec)"
proof (cases ctx)
  case None
  obtain r st where s: "streamCommittedBlocks signer (bs_Deliver bs) from (visitBlock lib request start send)
      \<lparr>ss_previous = er_AfterTransactionId request, ss_sent = []\<rparr> = (r, st)" by fastforce
  with assms(1-3) None have "sent = ss_sent st" by (simp add: ChaincodeEvents_def)
  with stream_sends [OF s assms(4)] None show ?thesis by (simp add: sentEvents_def)
next
  case (Some e)
  with assms(1) have "sent = []" by (simp add: ChaincodeEvents_def)
  with Some show ?thesis by simp
qed

subsection \<open>A block with one event\<close>

definition event_proto :: proto_lib where
  "event_proto = sample_proto\<lparr>pl_Envelope := Some,
     pl_Payload := (\<lambda>_. Some \<lparr>ep_ChannelHeader = Some ''h'', ep_SignatureHeader = [], ep_Data = ''d''\<rparr>),
     pl_ChannelHeader := (\<lambda>_. Some \<lparr>ch_Type = 0, ch_ChannelId = ''ch'', ch_TxId = ''tx'', ch_Extension = []\<rparr>),
     pl_Tx := (\<lambda>_. Some \<lparr>tx_Namespaces = [\<lparr>tn_NsId = ''ns'', tn_NsVersion = 0, tn_Content = []\<rparr>],
       tx_Metadata = [''m'', jprint (identity_json (identity_of ''ch'' ''cc'' ''ns''))]\<rparr>),
     pl_Metadata := (\<lambda>_. Some \<lparr>sm_EventName = ''moved'', sm_Event = ''x''\<rparr>)\<rparr>"

definition event_block :: Block where
  "event_block = \<lparr>bk_Header = Some 0, bk_Data = [''raw''], bk_Metadata = [[], [], [COMMITTED_BYTE]]\<rparr>"

definition moved_event :: PeerEvent where
  "moved_event = \<lparr>pv_ChaincodeId = ''cc:ns'', pv_TxId = ''tx'', pv_EventName = ''moved'', pv_Payload = ''x''\<rparr>"

lemma identity_found:
  "ChaincodeIdentityFromMetadata [''m'', jprint (identity_json (identity_of ''ch'' ''cc'' ''ns''))]
     = Inr (Some (identity_of ''ch'' ''cc'' ''ns''))"
proof -
  have u: "utf8_ok ''ch''" "utf8_ok ''cc''" "utf8_ok ''ns''" by (rule ascii_utf8, simp)+
  note rec = identity_record [of "identity_of ''ch'' ''cc'' ''ns''"]
  have "record_kind (jprint (identity_json (identity_of ''ch'' ''cc'' ''ns''))) = Some chaincodeIdentityType"
    and "Unmarshal identity_setters zeroIdentity (jprint (identity_json (identity_of ''ch'' ''cc'' ''ns'')))
      = Some (identity_of ''ch'' ''cc'' ''ns'')"
    using rec u by (simp_all add: identity_of_def chaincodeIdentityType_def is_i64_def max_i64_def min_i64_def)
  then show ?thesis
    by (simp add: ChaincodeIdentityFromMetadata_def identity_complete_def identity_of_def)
qed

lemma identity_of_sel [simp]:
  "ci_ChannelID (identity_of ch cc ns) = ch" "ci_ChaincodeName (identity_of ch cc ns) = cc"
  "ci_Namespace (identity_of ch cc ns) = ns"
  by (simp_all add: identity_of_def)

lemma event_block_events: "committedChaincodeEvents event_proto event_block ''ch'' = Inr [moved_event]"
  by (simp add: committedChaincodeEvents_def event_block_def TRANSACTIONS_FILTER_def committedEvent_def event_proto_def
      HeaderType_MESSAGE_def identity_found chaincodeEventFromTransaction_def eventChaincode_def firstNsId_def
      moved_event_def)

definition event_request :: EventsRequest where
  "event_request = \<lparr>er_ChannelId = ''ch'', er_ChaincodeId = ''cc:ns'', er_StartPosition = SeekSpecified 0,
     er_AfterTransactionId = [], er_Identity = ''Org1''\<rparr>"

definition event_services :: block_services where
  "event_services = \<lparr>bs_Info = Inr (Some 1), bs_ByTxID = (\<lambda>_. Inl (Plain ''none'')),
     bs_Deliver = (\<lambda>_. \<lparr>dv_Signed = None, dv_Open = None, dv_Send = None, dv_CloseSend = None,
       dv_Responses = [DeliverBlock event_block], dv_End = Plain ''eof''\<rparr>)\<rparr>"

definition event_gateway :: gateway_lib where
  "event_gateway = \<lparr>gl_CommitStatus = (\<lambda>_. None), gl_Events = (\<lambda>_. Some event_request)\<rparr>"

theorem events_delivered_exactly_witness:
  "concat (map snd (snd (ChaincodeEvents sample_lib event_proto event_gateway sample_cfg (Some sample_verifier) True
     (Some event_services) (\<lambda>_. None) None None (Some (''bytes'', ''Sbytes'')) 10))) = [moved_event]"
proof -
  have "Identity sample_lib (vr_trust sample_verifier) ''Org1'' 10 = Inr ''Org1''"
    by (simp add: sample_verifier_def sample_Identity)
  then have auth: "authenticateGatewayChaincodeEvents sample_lib event_gateway sample_cfg (Some sample_verifier)
      (Some (''bytes'', ''Sbytes'')) 10 = Inr event_request"
    by (simp add: authenticateGatewayChaincodeEvents_def event_gateway_def event_request_def Invalid_def sample_route
        authenticateGatewayReader_def sample_cfg_def readerPermitted_def sample_verifier_def Unauthenticated_def
        Authenticate_def sample_lib_def sample_auth_def untrimmed_def space_runes_def)
  have start: "subscriptionStart event_proto event_services None event_request = Inr (0, 0)"
    by (simp add: subscriptionStart_def event_services_def event_request_def checkpointStart_def)
  obtain res sent where c: "ChaincodeEvents sample_lib event_proto event_gateway sample_cfg (Some sample_verifier) True
     (Some event_services) (\<lambda>_. None) None None (Some (''bytes'', ''Sbytes'')) 10 = (res, sent)" by fastforce
  have "usableBlocks event_proto ''ch'' 0 0 [DeliverBlock event_block] = [(0, [moved_event])]"
    by (simp add: event_block_events) (simp add: event_block_def)
  then show ?thesis using events_delivered_exactly [OF c auth start refl] c
    by (simp add: event_services_def event_request_def setup_ok_def subscribed_def afterCheckpoint_def moved_event_def)
qed

end
