(* ===== verification/Helper_Service.thy ===== *)
theory Helper_Service
  imports Execution_Context Event_Stream
begin

section \<open>The helper\<close>

text \<open>
  \<open>helper/service.go\<close>, \<open>executor.go\<close> and the signing half of \<open>proposal.go\<close>: one proposal is parsed,
  executed over a fresh context and endorsed.  The SDK's proposal parser, endorsement builder and
  signer, and the encoders of generated code, are the record \<open>helper_lib\<close>.  An executor runs a chaincode
  session, so it may not have ended; a proposal without arguments reaches an index out of range in the
  last log line, which is a panic.
\<close>

subsection \<open>Running the chaincode\<close>

record ExecutionResult =
  xr_RWS :: ReadWriteSet
  xr_Event :: bytes
  xr_EventName :: string
  xr_Status :: int
  xr_Message :: string
  xr_Payload :: bytes

type_synonym 'w Executor = "Invocation \<Rightarrow> ExecutionContext \<times> 'w
  \<Rightarrow> (orch_error + ExecutionResult \<times> View option) option \<times> ExecutionContext \<times> 'w"

definition shimInvocation :: "ExecutionContext \<Rightarrow> Invocation \<Rightarrow> shim_Invocation" where
  "shimInvocation c invoc =
     \<lparr>sv_TxID = iv_TxID invoc, sv_ChannelID = iv_Channel invoc, sv_Namespace = xc_namespace c,
      sv_Args = iv_Args invoc,
      sv_Creator = (if xc_clientCreator c = [] then iv_Creator invoc else xc_clientCreator c),
      sv_Nonce = (if xc_clientNonce c = [] then iv_Nonce invoc else xc_clientNonce c),
      sv_SignedProposal = xc_signedProposal c, sv_Decorations = xc_decorations c,
      sv_QueryView = xc_queryView c, sv_IsInit = xc_isInit c\<rparr>"

text \<open>\<open>ChaincodeServiceExecutor.Execute\<close> for the session the network provides.\<close>

definition ServiceExecutor ::
  "shim_lib \<Rightarrow> 'w query_client option \<Rightarrow> Connector option \<Rightarrow> shim_session \<Rightarrow> 'w Executor" where
  "ServiceExecutor slib reader connector net invoc st =
     (case connector of
        None \<Rightarrow> (Some (Inl (Plain ''shim connector is not configured'')), st)
      | Some cn \<Rightarrow>
          (case Connector_Execute slib (context_ops reader) cn (shimInvocation (fst st) invoc) net st of
             (None, sent, st') \<Rightarrow> (None, st')
           | (Some (Inl e), sent, st') \<Rightarrow> (Some (Inl e), st')
           | (Some (Inr res), sent, st') \<Rightarrow>
               (Some (Inr (\<lparr>xr_RWS = ExecutionContext_Result (fst st'), xr_Event = rs_Event res,
                            xr_EventName = rs_EventName res, xr_Status = rs_Status res,
                            xr_Message = rs_Message res, xr_Payload = rs_Payload res\<rparr>,
                          rs_QueryView res)), st')))"

subsection \<open>The original client proposal\<close>

record ClientProposalContext =
  cp_Creator :: bytes
  cp_Nonce :: bytes
  cp_SignedProposal :: "SignedProposal option"
  cp_Decorations :: "(string \<times> bytes) list"
  cp_IsInit :: bool
  cp_NamespaceVersion :: u64

definition emptyClientProposal :: ClientProposalContext where
  "emptyClientProposal = \<lparr>cp_Creator = [], cp_Nonce = [], cp_SignedProposal = None,
     cp_Decorations = [], cp_IsInit = False, cp_NamespaceVersion = 0\<rparr>"

text \<open>The context value under the package's private key.\<close>

definition WithClientProposal ::
  "ClientProposalContext \<Rightarrow> ClientProposalContext option \<Rightarrow> ClientProposalContext option" where
  "WithClientProposal proposal v =
     (if cp_Creator proposal = [] \<and> cp_Nonce proposal = [] \<and> cp_SignedProposal proposal = None \<and>
         cp_Decorations proposal = [] \<and> cp_NamespaceVersion proposal = 0 \<and> \<not> cp_IsInit proposal
      then v else Some proposal)"

definition clientProposalFromContext :: "ClientProposalContext option \<Rightarrow> ClientProposalContext" where
  "clientProposalFromContext v = (case v of None \<Rightarrow> emptyClientProposal | Some p \<Rightarrow> p)"

text \<open>A Go map lookup of bytes: a missing key reads as no bytes.\<close>

definition decoration :: "(string \<times> bytes) list \<Rightarrow> string \<Rightarrow> string" where
  "decoration m k = (case map_of m k of None \<Rightarrow> [] | Some v \<Rightarrow> v)"

subsection \<open>Signed metadata\<close>

record helper_lib =
  hl_Parse :: "SignedProposal \<Rightarrow> orch_error + Invocation"
  hl_Response :: "ExecutionResult \<Rightarrow> PeerResponse"
  hl_Endorse :: "Invocation \<Rightarrow> u64 \<Rightarrow> ExecutionResult \<Rightarrow> orch_error + ProposalResponse"
  hl_ProposalHash :: "bytes \<Rightarrow> bytes \<Rightarrow> orch_error + bytes"
  hl_ASN1Marshal :: "TxNamespace \<Rightarrow> string \<Rightarrow> bytes list \<Rightarrow> orch_error + bytes"
  hl_Sign :: "(bytes \<Rightarrow> orch_error + bytes) option"
  hl_MarshalTx :: "Tx \<Rightarrow> orch_error + bytes"
  hl_ErrorText :: "orch_error \<Rightarrow> string"

record GatewayProposalBinding =
  gb_Format :: int
  gb_ProposalHash :: bytes
  gb_ChaincodeVersion :: string
  gb_Sequence :: int
  gb_Status :: int
  gb_Message :: string

definition binding_json :: "GatewayProposalBinding \<Rightarrow> json" where
  "binding_json b = JObj (obj [
     (''format'', JNum (FormatInt (gb_Format b))), (''proposal_hash'', JStr (b64_encode (gb_ProposalHash b))),
     (''chaincode_version'', JStr (gb_ChaincodeVersion b)), (''sequence'', JNum (FormatInt (gb_Sequence b))),
     (''status'', JNum (FormatInt (gb_Status b))), (''message'', JStr (gb_Message b))])"

definition MarshalGatewayProposalBinding ::
  "proto_lib \<Rightarrow> helper_lib \<Rightarrow> Proposal option \<Rightarrow> string \<Rightarrow> int \<Rightarrow> PeerResponse option
    \<Rightarrow> orch_error + bytes" where
  "MarshalGatewayProposalBinding lib hl proposal version sequence response =
     (case (proposal, response) of
        (Some p, Some r) \<Rightarrow>
          (if version = [] \<or> sequence < 1
           then Inl (Plain ''Gateway binding requires a proposal, response and committed definition'')
           else
             rbind (require (Plain ''unmarshal header'') (pl_Header lib (pp_Header p))) (\<lambda>_.
             rbind (hl_ProposalHash hl (pp_Header p) (pp_Payload p)) (\<lambda>hash.
             Inr (jprint (binding_json \<lparr>gb_Format = 1, gb_ProposalHash = hash,
                 gb_ChaincodeVersion = version, gb_Sequence = sequence, gb_Status = pr_Status r,
                 gb_Message = pr_Message r\<rparr>)))))
      | _ \<Rightarrow> Inl (Plain ''Gateway binding requires a proposal, response and committed definition''))"

text \<open>The Gateway record, appended only when the proposal named the chaincode by its Gateway route.\<close>

definition gatewayRecord ::
  "proto_lib \<Rightarrow> helper_lib \<Rightarrow> ProposalResponse \<Rightarrow> Proposal \<Rightarrow> ChaincodeSpec \<Rightarrow> string \<Rightarrow> string
    \<Rightarrow> (string \<times> bytes) list \<Rightarrow> orch_error + bytes list" where
  "gatewayRecord lib hl response original spec name namespace decorations =
     (if (case cs_Id spec of None \<Rightarrow> [] | Some (n, _) \<Rightarrow> n) \<noteq> name @ '':'' @ namespace then Inr []
      else
        rbind (map_error (\<lambda>_. Plain ''Gateway binding sequence'')
                 (ParseInt64 (decoration decorations ''compat.chaincode_sequence''))) (\<lambda>sequence.
        rbind (MarshalGatewayProposalBinding lib hl (Some original)
                 (decoration decorations ''compat.chaincode_version'') sequence (ps_Response response)) (\<lambda>b.
        Inr [b])))"

definition bindChaincodeMetadata ::
  "proto_lib \<Rightarrow> helper_lib \<Rightarrow> ProposalResponse \<Rightarrow> Proposal \<Rightarrow> string \<Rightarrow> (string \<times> bytes) list
    \<Rightarrow> orch_error + ProposalResponse" where
  "bindChaincodeMetadata lib hl response original namespace decorations =
     (let name = decoration decorations ''compat.chaincode_name'' in
      if name = [] then Inr response
      else
        rbind (require (Plain ''unmarshal proposal payload'') (pl_ProposalPayload lib (pp_Payload original))) (\<lambda>(_, input).
        rbind (require (Plain ''unmarshal invocation spec'') (pl_InvocationSpec lib input)) (\<lambda>spec.
        rbind (require (Plain ''unmarshal native transaction'') (pl_Tx lib (ps_Payload response))) (\<lambda>native.
        case (tx_Metadata native, tx_Namespaces native, ps_Endorsement response, hl_Sign hl) of
          ([meta], [ns], Some e, Some sign) \<Rightarrow>
            rbind (require (Plain ''unmarshal header'') (pl_Header lib (pp_Header original))) (\<lambda>chdr.
            rbind (require (Plain ''unmarshal channel header'') (pl_ChannelHeader lib chdr)) (\<lambda>channel.
            rbind (gatewayRecord lib hl response original spec name namespace decorations) (\<lambda>gateway.
            rbind (MarshalChaincodeIdentity (ch_ChannelId channel) name namespace) (\<lambda>identity.
            let metadata = meta # gateway @ [identity] in
            rbind (hl_ASN1Marshal hl ns (ch_TxId channel) metadata) (\<lambda>data.
            rbind (sign data) (\<lambda>signature.
            rbind (hl_MarshalTx hl (native\<lparr>tx_Metadata := metadata\<rparr>)) (\<lambda>payload.
            Inr (response\<lparr>ps_Payload := payload,
                          ps_Endorsement := Some (e\<lparr>pe_Signature := signature\<rparr>)\<rparr>))))))))
        | _ \<Rightarrow> Inl (Plain ''invalid native endorsement for Gateway proposal binding'')))))"

subsection \<open>Processing a proposal\<close>

datatype 'a outcome = Unfinished | Panic | Returned 'a

record 'w Helper =
  he_channel :: string
  he_reader :: "'w query_client option"
  he_executors :: "(string \<times> 'w Executor) list"

text \<open>What follows a finished execution.\<close>

definition helperResponse ::
  "proto_lib \<Rightarrow> helper_lib \<Rightarrow> ClientProposalContext \<Rightarrow> Proposal \<Rightarrow> Invocation \<Rightarrow> orch_error option
    \<Rightarrow> ExecutionResult \<Rightarrow> (orch_error + ProposalResponse) outcome" where
  "helperResponse lib hl proposal original invoc readErr res =
     (case readErr of
        Some e \<Rightarrow> Returned (Inl (StatusError CodeInternal (hl_ErrorText hl e)))
      | None \<Rightarrow>
          (if xr_Status res < 200 \<or> xr_Status res \<ge> 400
           then Returned (Inr \<lparr>ps_Response = Some (hl_Response hl res), ps_Payload = [], ps_Endorsement = None\<rparr>)
           else case hl_Endorse hl invoc (cp_NamespaceVersion proposal) res of
             Inl e \<Rightarrow> Returned (Inl (StatusError CodeInternal (''endorsement: '' @ hl_ErrorText hl e)))
           | Inr endorsed \<Rightarrow>
               (case bindChaincodeMetadata lib hl endorsed original (iv_Namespace invoc) (cp_Decorations proposal) of
                  Inl e \<Rightarrow> Returned (Inl (StatusError CodeInternal (''bind chaincode metadata: '' @ hl_ErrorText hl e)))
                | Inr bound \<Rightarrow>
                    (if ps_Response bound = None \<or> iv_Args invoc = [] then Panic else Returned (Inr bound)))))"

text \<open>Everything between the creation of the context and its deferred release.\<close>

definition helperBody ::
  "proto_lib \<Rightarrow> helper_lib \<Rightarrow> 'w Executor \<Rightarrow> ClientProposalContext \<Rightarrow> SignedProposal \<Rightarrow> Invocation
    \<Rightarrow> ExecutionContext \<times> 'w \<Rightarrow> (orch_error + ProposalResponse) outcome \<times> ExecutionContext \<times> 'w" where
  "helperBody lib hl executor proposal prop invoc st =
     (let creator = (if cp_Creator proposal = [] then iv_Creator invoc else cp_Creator proposal);
          nonce = (if cp_Nonce proposal = [] then iv_Nonce invoc else cp_Nonce proposal);
          original_signed = (case cp_SignedProposal proposal of None \<Rightarrow> prop | Some p \<Rightarrow> p)
      in case pl_Proposal lib (sp_ProposalBytes original_signed) of
           None \<Rightarrow> (Returned (Inl (StatusError CodeInvalidArgument ''unmarshal proposal'')), st)
         | Some original \<Rightarrow>
             (if ProposalIsInit lib (Some original) \<noteq> Inr (xc_isInit (fst st))
              then (Returned (Inl (StatusError CodeInvalidArgument
                      ''helper init intent differs from the original proposal'')), st)
              else case executor invoc ((fst st)\<lparr>xc_clientCreator := creator, xc_clientNonce := nonce,
                       xc_signedProposal := Some original_signed, xc_decorations := cp_Decorations proposal\<rparr>,
                       snd st) of
                (None, st') \<Rightarrow> (Unfinished, st')
              | (Some (Inl e), st') \<Rightarrow>
                  (Returned (Inl (StatusError CodeInternal (hl_ErrorText hl e))), st')
              | (Some (Inr (res, _)), st') \<Rightarrow>
                  (helperResponse lib hl proposal original invoc (xc_readErr (fst st')) res, st')))"

definition chooseExecutor :: "'w Helper \<Rightarrow> string \<Rightarrow> 'w Executor option" where
  "chooseExecutor h namespace =
     (case map_of (he_executors h) namespace of
        Some e \<Rightarrow> Some e
      | None \<Rightarrow> map_of (he_executors h) ''*'')"

text \<open>\<open>ProcessProposal\<close>; \<open>cleanup\<close> is the context the deferred release gets, which the caller cannot cancel.\<close>

definition Helper_ProcessProposal ::
  "proto_lib \<Rightarrow> helper_lib \<Rightarrow> 'w Helper \<Rightarrow> call_ctx \<Rightarrow> ClientProposalContext option \<Rightarrow> SignedProposal \<Rightarrow> 'w
    \<Rightarrow> (orch_error + ProposalResponse) outcome \<times> 'w" where
  "Helper_ProcessProposal lib hl h cleanup client prop w =
     (case hl_Parse hl prop of
        Inl e \<Rightarrow> (Returned (Inl (StatusError CodeInvalidArgument (hl_ErrorText hl e))), w)
      | Inr parsed \<Rightarrow>
      if iv_Channel parsed \<noteq> he_channel h
      then (Returned (Inl (StatusError CodeInvalidArgument (''channel must be '' @ he_channel h))), w)
      else case chooseExecutor h (iv_Namespace parsed) of
        None \<Rightarrow> (Returned (Inl (StatusError CodeInvalidArgument (''unknown namespace: '' @ iv_Namespace parsed))), w)
      | Some executor \<Rightarrow>
        (let invoc = (if iv_ChaincodeVersion parsed = [] then parsed\<lparr>iv_ChaincodeVersion := ''1.0''\<rparr> else parsed)
         in case ProposalIsInit lib (iv_Proposal invoc) of
              Inl e \<Rightarrow> (Returned (Inl (StatusError CodeInvalidArgument (hl_ErrorText hl e))), w)
            | Inr isInit \<Rightarrow>
                (case helperBody lib hl executor (clientProposalFromContext client) prop invoc
                        ((NewExecutionContext (iv_Namespace invoc))\<lparr>xc_isInit := isInit\<rparr>, w) of
                   (Unfinished, c, w') \<Rightarrow> (Unfinished, w')
                 | (result, c, w') \<Rightarrow>
                     (result, snd (snd (ExecutionContext_Close (he_reader h) cleanup (c, w')))))))"

end
