(* ===== verification/Helper_Guarantees.thy ===== *)
theory Helper_Guarantees
  imports Helper_Service
begin

section \<open>What the helper guarantees\<close>

text \<open>
  Facts about whole proposals: an endorsement stands for a clean execution, its read and write set is
  what the chaincode session did over one snapshot, the Query Service view is released exactly once on
  every path, and the metadata that is signed is the one the event service reads back.
\<close>

subsection \<open>What an endorsement stands for\<close>

text \<open>The context a helper execution starts with.\<close>

definition startContext ::
  "ClientProposalContext \<Rightarrow> SignedProposal \<Rightarrow> Invocation \<Rightarrow> bool \<Rightarrow> ExecutionContext" where
  "startContext proposal prop invoc isInit =
     (NewExecutionContext (iv_Namespace invoc))\<lparr>xc_isInit := isInit,
       xc_clientCreator := (if cp_Creator proposal = [] then iv_Creator invoc else cp_Creator proposal),
       xc_clientNonce := (if cp_Nonce proposal = [] then iv_Nonce invoc else cp_Nonce proposal),
       xc_signedProposal := Some (case cp_SignedProposal proposal of None \<Rightarrow> prop | Some p \<Rightarrow> p),
       xc_decorations := cp_Decorations proposal\<rparr>"

lemma start_sel [simp]:
  "xc_isInit (startContext p q i b) = b" "xc_namespace (startContext p q i b) = iv_Namespace i"
  "xc_queryView (startContext p q i b) = None" "xc_viewOwned (startContext p q i b) = False"
  "xc_closed (startContext p q i b) = False" "xc_readErr (startContext p q i b) = None"
  "xc_reads (startContext p q i b) = []" "xc_writes (startContext p q i b) = []"
  by (simp_all add: startContext_def NewExecutionContext_def NewExecutionContextWithView_def)

definition originalSigned :: "ClientProposalContext \<Rightarrow> SignedProposal \<Rightarrow> SignedProposal" where
  "originalSigned proposal prop = (case cp_SignedProposal proposal of None \<Rightarrow> prop | Some p \<Rightarrow> p)"

definition clean_endorsement ::
  "proto_lib \<Rightarrow> helper_lib \<Rightarrow> 'w Helper \<Rightarrow> ClientProposalContext \<Rightarrow> SignedProposal \<Rightarrow> 'w \<Rightarrow> ProposalResponse
    \<Rightarrow> Invocation \<Rightarrow> 'w Executor \<Rightarrow> Proposal \<Rightarrow> bool \<Rightarrow> ExecutionResult \<Rightarrow> View option
    \<Rightarrow> ExecutionContext \<Rightarrow> 'w \<Rightarrow> ProposalResponse \<Rightarrow> bool" where
  "clean_endorsement lib hl h proposal prop w resp invoc executor original isInit res view c' w1 endorsed \<longleftrightarrow>
     iv_Channel invoc = he_channel h \<and> chooseExecutor h (iv_Namespace invoc) = Some executor \<and>
     pl_Proposal lib (sp_ProposalBytes (originalSigned proposal prop)) = Some original \<and>
     ProposalIsInit lib (Some original) = Inr isInit \<and> ProposalIsInit lib (iv_Proposal invoc) = Inr isInit \<and>
     executor invoc (startContext proposal prop invoc isInit, w) = (Some (Inr (res, view)), c', w1) \<and>
     xc_readErr c' = None \<and> 200 \<le> xr_Status res \<and> xr_Status res < 400 \<and>
     hl_Endorse hl invoc (cp_NamespaceVersion proposal) res = Inr endorsed \<and>
     bindChaincodeMetadata lib hl endorsed original (iv_Namespace invoc) (cp_Decorations proposal) = Inr resp"

lemma helper_start:
  "((fst ((NewExecutionContext (iv_Namespace invoc))\<lparr>xc_isInit := isInit\<rparr>, w))\<lparr>
      xc_clientCreator := (if cp_Creator p = [] then iv_Creator invoc else cp_Creator p),
      xc_clientNonce := (if cp_Nonce p = [] then iv_Nonce invoc else cp_Nonce p),
      xc_signedProposal := Some (case cp_SignedProposal p of None \<Rightarrow> prop | Some q \<Rightarrow> q),
      xc_decorations := cp_Decorations p\<rparr>) = startContext p prop invoc isInit"
  by (simp add: startContext_def)

lemma helperResponse_endorsed:
  assumes "helperResponse lib hl proposal original invoc readErr res = Returned (Inr resp)"
    and "ps_Endorsement resp \<noteq> None"
  shows "readErr = None \<and> 200 \<le> xr_Status res \<and> xr_Status res < 400 \<and>
    (\<exists>endorsed. hl_Endorse hl invoc (cp_NamespaceVersion proposal) res = Inr endorsed \<and>
       bindChaincodeMetadata lib hl endorsed original (iv_Namespace invoc) (cp_Decorations proposal) = Inr resp)"
  using assms by (auto simp: helperResponse_def split: option.splits if_splits sum.splits)

lemma helperBody_endorsed:
  fixes st :: "ExecutionContext \<times> 'w"
  assumes "helperBody lib hl executor proposal prop invoc
      ((NewExecutionContext (iv_Namespace invoc))\<lparr>xc_isInit := isInit\<rparr>, w) = (Returned (Inr resp), st)"
    and "ps_Endorsement resp \<noteq> None"
  shows "\<exists>original res view endorsed.
    pl_Proposal lib (sp_ProposalBytes (originalSigned proposal prop)) = Some original \<and>
    ProposalIsInit lib (Some original) = Inr isInit \<and>
    executor invoc (startContext proposal prop invoc isInit, w) = (Some (Inr (res, view)), st) \<and>
    xc_readErr (fst st) = None \<and> 200 \<le> xr_Status res \<and> xr_Status res < 400 \<and>
    hl_Endorse hl invoc (cp_NamespaceVersion proposal) res = Inr endorsed \<and>
    bindChaincodeMetadata lib hl endorsed original (iv_Namespace invoc) (cp_Decorations proposal) = Inr resp"
proof -
  obtain original where o: "pl_Proposal lib (sp_ProposalBytes (originalSigned proposal prop)) = Some original"
    using assms(1) by (auto simp: helperBody_def Let_def originalSigned_def split: option.splits)
  have isI: "ProposalIsInit lib (Some original) = Inr isInit"
    using assms(1) o by (auto simp: helperBody_def Let_def originalSigned_def split: if_splits)
  have body: "(case executor invoc (startContext proposal prop invoc isInit, w) of
                (None, st') \<Rightarrow> (Unfinished, st')
              | (Some (Inl e), st') \<Rightarrow>
                  (Returned (Inl (StatusError CodeInternal (hl_ErrorText hl e))), st')
              | (Some (Inr (res, _)), st') \<Rightarrow>
                  (helperResponse lib hl proposal original invoc (xc_readErr (fst st')) res, st')) =
      (Returned (Inr resp), st)"
    using assms(1) o isI unfolding helperBody_def Let_def originalSigned_def helper_start by simp
  then obtain res view where e: "executor invoc (startContext proposal prop invoc isInit, w) = (Some (Inr (res, view)), st)"
      and r: "helperResponse lib hl proposal original invoc (xc_readErr (fst st)) res = Returned (Inr resp)"
    by (auto split: prod.splits option.splits sum.splits)
  show ?thesis using o isI e helperResponse_endorsed[OF r assms(2)] by blast
qed

text \<open>The invocation that runs is the parsed proposal's, with version 1.0 when it names none.\<close>

definition defaultVersion :: "Invocation \<Rightarrow> Invocation" where
  "defaultVersion parsed =
     (if iv_ChaincodeVersion parsed = [] then parsed\<lparr>iv_ChaincodeVersion := ''1.0''\<rparr> else parsed)"

lemma defaultVersion_sel [simp]: "iv_Namespace (defaultVersion i) = iv_Namespace i"
    "iv_Channel (defaultVersion i) = iv_Channel i" "iv_Args (defaultVersion i) = iv_Args i"
  by (simp_all add: defaultVersion_def)

lemma helper_endorsed:
  assumes "Helper_ProcessProposal lib hl h cleanup client prop w = (Returned (Inr resp), w')"
    and "ps_Endorsement resp \<noteq> None"
  shows "\<exists>parsed executor original isInit res view c' w1 endorsed. hl_Parse hl prop = Inr parsed \<and>
    clean_endorsement lib hl h (clientProposalFromContext client) prop w resp (defaultVersion parsed) executor
      original isInit res view c' w1 endorsed"
proof -
  obtain parsed where p: "hl_Parse hl prop = Inr parsed" "iv_Channel parsed = he_channel h"
    using assms(1) by (auto simp: Helper_ProcessProposal_def split: sum.splits if_splits)
  obtain executor where x: "chooseExecutor h (iv_Namespace parsed) = Some executor"
    using assms(1) p by (auto simp: Helper_ProcessProposal_def split: option.splits)
  define invoc where "invoc = (if iv_ChaincodeVersion parsed = [] then parsed\<lparr>iv_ChaincodeVersion := ''1.0''\<rparr> else parsed)"
  have dv: "defaultVersion parsed = invoc" by (simp add: defaultVersion_def invoc_def)
  have same: "iv_Channel invoc = iv_Channel parsed" "iv_Namespace invoc = iv_Namespace parsed"
    by (simp_all add: invoc_def)
  obtain isInit where i: "ProposalIsInit lib (iv_Proposal invoc) = Inr isInit"
    using assms(1) p x by (auto simp: Helper_ProcessProposal_def Let_def simp flip: invoc_def split: sum.splits)
  obtain r c w1 where b: "helperBody lib hl executor (clientProposalFromContext client) prop invoc
      ((NewExecutionContext (iv_Namespace invoc))\<lparr>xc_isInit := isInit\<rparr>, w) = (r, c, w1)"
    by (metis prod.collapse)
  have "r = Returned (Inr resp)"
    using assms(1) p x i
    by (auto simp: Helper_ProcessProposal_def Let_def b simp flip: invoc_def split: outcome.splits)
  from helperBody_endorsed[OF b[unfolded this] assms(2)] show ?thesis
    using p x i same unfolding clean_endorsement_def by (auto simp: dv)
qed

text \<open>C19: The helper endorses only a clean execution: whenever a proposal response carries an
  endorsement, the proposal was for the helper's channel, the init intent of the executed proposal is
  that of the client's original one, the chaincode finished with a status from 200 to 399 over a fresh
  context, no state read failed (not even one the chaincode ignored), and the response is that
  execution's native endorsement with its metadata bound.\<close>

theorem helper_endorses_clean_execution:
  assumes "Helper_ProcessProposal lib hl h cleanup client prop w = (Returned (Inr resp), w')"
    and "ps_Endorsement resp \<noteq> None"
  defines "proposal \<equiv> clientProposalFromContext client"
  shows "\<exists>invoc executor original isInit res view c' w1 endorsed.
    iv_Channel invoc = he_channel h \<and> chooseExecutor h (iv_Namespace invoc) = Some executor \<and>
    pl_Proposal lib (sp_ProposalBytes (originalSigned proposal prop)) = Some original \<and>
    ProposalIsInit lib (Some original) = Inr isInit \<and> ProposalIsInit lib (iv_Proposal invoc) = Inr isInit \<and>
    executor invoc (startContext proposal prop invoc isInit, w) = (Some (Inr (res, view)), c', w1) \<and>
    xc_readErr c' = None \<and> 200 \<le> xr_Status res \<and> xr_Status res < 400 \<and>
    hl_Endorse hl invoc (cp_NamespaceVersion proposal) res = Inr endorsed \<and>
    bindChaincodeMetadata lib hl endorsed original (iv_Namespace invoc) (cp_Decorations proposal) = Inr resp"
  using helper_endorsed[OF assms(1,2)] unfolding clean_endorsement_def proposal_def by blast

subsection \<open>Endorsed effects\<close>

interpretation fixed_namespace: state_invariant "context_ops reader"
    "\<lambda>st. xc_namespace (fst st) = namespace" for reader namespace
proof unfold_locales
  fix k v c r and s s' :: "ExecutionContext \<times> 'a"
  assume ns: "xc_namespace (fst s) = namespace"
  show "xc_namespace (fst (so_PutState (context_ops reader) k v s)) = namespace"
    "xc_namespace (fst (so_DelState (context_ops reader) k s)) = namespace"
    using ns by (simp_all add: PutState_def DelState_def)
  show "xc_namespace (fst s') = namespace" if "so_GetState (context_ops reader) c k s = (r, s')"
  proof (cases r)
    case (Inl e)
    then show ?thesis using that ns GetState_Inl[of reader c k s e s'] by simp
  next
    case (Inr x)
    then have "GetState reader c k s = (Inr x, s')" using that by simp
    then obtain client view c' w w' y where "openView client c s = (Inr view, c', w)"
        "s' = (recordRead k y c', w')" by (rule GetState_Inr)
    then show ?thesis using openView_ok[of client c s view c' w] ns by (simp add: recordRead_def)
  qed
qed

text \<open>The result of an execution is that of the finished session, with the context's reads and writes.\<close>

definition result_of :: "shim_Result \<Rightarrow> ExecutionContext \<Rightarrow> ExecutionResult" where
  "result_of shimRes c = \<lparr>xr_RWS = ExecutionContext_Result c, xr_Event = rs_Event shimRes,
     xr_EventName = rs_EventName shimRes, xr_Status = rs_Status shimRes, xr_Message = rs_Message shimRes,
     xr_Payload = rs_Payload shimRes\<rparr>"

lemma ServiceExecutor_ran:
  assumes "ServiceExecutor slib reader connector net invoc st = (Some (Inr (res, view)), st')"
  obtains cn shimRes sent where "connector = Some cn"
    "Connector_Execute slib (context_ops reader) cn (shimInvocation (fst st) invoc) net st = (Some (Inr shimRes), sent, st')"
    "res = result_of shimRes (fst st')"
  using assms by (auto simp: ServiceExecutor_def result_of_def split: option.splits prod.splits sum.splits)

lemma start_consistent:
  assumes "repeatable reader snap"
  shows "execution.consistent reader snap (startContext p q i b, w)"
    and "observed_reads (startContext p q i b, w) = Map.empty"
    and "pending_writes (startContext p q i b, w) = Map.empty"
  using assms by (auto simp: execution.consistent_def context_sound_def observed_at pending_at fun_eq_iff)

text \<open>A session that left no failed read behind: what was sent to the chaincode and what became of it.\<close>

definition session_effects ::
  "shim_lib \<Rightarrow> shim_session \<Rightarrow> (string \<Rightarrow> VersionedValue) \<Rightarrow> ChaincodeMessage list \<Rightarrow> ReadWriteSet \<Rightarrow> bool" where
  "session_effects slib net snap replies rws \<longleftrightarrow>
     list_all2 (served slib snap) (requests (sn_Inputs net)) replies \<and>
     effects_of rws = written slib (requests (sn_Inputs net)) Map.empty \<and>
     (\<forall>k. versions_of rws k = (if \<exists>msg \<in> set (requests (sn_Inputs net)). readOf slib msg = Some k
        then Some (vv_Version (snap k)) else None)) \<and>
     distinct (map kr_Key (rw_Reads rws)) \<and> distinct (map kw_Key (rw_Writes rws))"

lemma executed_effects:
  assumes "repeatable reader snap"
    and run: "Connector_Execute slib (context_ops reader) cn sinv net (startContext p q i b, w) =
      (Some (Inr shimRes), sent, c', w1)" and "xc_readErr c' = None"
  shows "\<exists>tx replies. transactionMessage slib sinv = Inr tx \<and>
    sent = plainMessage ChaincodeMessage_REGISTERED # plainMessage ChaincodeMessage_READY # tx # replies \<and>
    session_effects slib net (\<lambda>k. committed_value (snap (xc_queryView c') (iv_Namespace i) k)) replies
      (ExecutionContext_Result c')"
proof -
  let ?st = "(startContext p q i b, w)" and ?st' = "(c', w1)" and ?rws = "ExecutionContext_Result c'"
  note start = start_consistent[OF assms(1), of p q i b w]
  note all = execution.connector_session[OF start(1,2) run, unfolded start(3)]
  have ns: "xc_namespace c' = iv_Namespace i"
    using fixed_namespace.connector_sound[OF _ run, of "iv_Namespace i"] by simp
  have snap: "context_snapshot snap ?st' = (\<lambda>k. committed_value (snap (xc_queryView c') (iv_Namespace i) k))"
    by (rule ext) (simp add: context_snapshot_def ns)
  have eff: "pending_writes ?st' = effects_of ?rws" "observed_reads ?st' = versions_of ?rws"
    by (simp_all add: pending_writes_def observed_reads_def)
  obtain tx replies where rep: "transactionMessage slib sinv = Inr tx"
      "sent = plainMessage ChaincodeMessage_REGISTERED # plainMessage ChaincodeMessage_READY # tx # replies"
      "list_all2 (answers_from slib (context_snapshot snap ?st')) (requests (sn_Inputs net)) replies"
      "\<forall>k. observed_reads ?st' k \<noteq> None \<longleftrightarrow> list_ex (reads_key slib k) (zip (requests (sn_Inputs net)) replies)"
    using all by blast
  have "\<not> xc_closed c'" using execution_open.connector_sound[OF _ run] by simp
  then have "\<not> read_failed ?st'" using assms(3) by (simp add: read_failed_def)
  from execution_failure.connector_in_full[OF run this] rep(2)
  have full: "list_all2 (in_full slib) (requests (sn_Inputs net)) replies" by auto
  have con: "context_sound reader snap ?st'"
      "\<And>k version. observed_reads ?st' k = Some version \<Longrightarrow> version = vv_Version (context_snapshot snap ?st' k)"
    using all unfolding execution.consistent_def by blast+
  have vers: "versions_of ?rws k = (if \<exists>msg \<in> set (requests (sn_Inputs net)). readOf slib msg = Some k
        then Some (vv_Version (committed_value (snap (xc_queryView c') (iv_Namespace i) k))) else None)" for k
    using spec[OF rep(4), of k] con(2)[of k] unfolding reads_served[OF full] eff snap
    by (cases "versions_of ?rws k") auto
  have "distinct (map kr_Key (rw_Reads ?rws))" "distinct (map kw_Key (rw_Writes ?rws))"
    using con(1) by (simp_all add: context_sound_def ExecutionContext_Result_def)
  then have "session_effects slib net (\<lambda>k. committed_value (snap (xc_queryView c') (iv_Namespace i) k)) replies ?rws"
    using all list_all2_served[OF rep(3) full] vers unfolding session_effects_def eff snap by blast
  with rep(1,2) show ?thesis by blast
qed

definition runs_sessions ::
  "shim_lib \<Rightarrow> Connector option \<Rightarrow> shim_session \<Rightarrow> 'w Helper \<Rightarrow> bool" where
  "runs_sessions slib connector net h \<longleftrightarrow>
     (\<forall>(ns, e) \<in> set (he_executors h). e = ServiceExecutor slib (he_reader h) connector net)"

lemma chosen_runs:
  "runs_sessions slib connector net h \<Longrightarrow> chooseExecutor h ns = Some e \<Longrightarrow>
    e = ServiceExecutor slib (he_reader h) connector net"
  by (auto simp: runs_sessions_def chooseExecutor_def split: option.splits dest: map_of_SomeD)

text \<open>C18: What is endorsed is what the chaincode did.  When every executor runs a chaincode session and the
  Query Service answers a view from one snapshot, an endorsed execution's result is that of a finished
  connector call for the parsed proposal over a fresh context, and the messages that call sent are the registration, the
  transaction and one reply per request, in order.  Every state read was answered with the snapshot's
  value, whatever the chaincode had written before, every accepted write with an empty response,
  everything else with an error.  The write set is, per key, the last accepted PUT or DEL and nothing
  else; the read set holds exactly the keys that were read, once each, with their versions in that
  snapshot.\<close>

theorem endorsed_effects_are_the_sessions:
  assumes "Helper_ProcessProposal lib hl h cleanup client prop w = (Returned (Inr resp), w')"
    and "ps_Endorsement resp \<noteq> None" and "runs_sessions slib connector net h"
    and "repeatable (he_reader h) snap"
  defines "proposal \<equiv> clientProposalFromContext client"
  shows "\<exists>parsed isInit cn shimRes sent tx replies c' w1 endorsed original.
    let invoc = defaultVersion parsed; start = startContext proposal prop invoc isInit; res = result_of shimRes c';
        snapshot = (\<lambda>k. committed_value (snap (xc_queryView c') (iv_Namespace invoc) k)) in
    hl_Parse hl prop = Inr parsed \<and> connector = Some cn \<and>
    Connector_Execute slib (context_ops (he_reader h)) cn (shimInvocation start invoc) net (start, w) =
      (Some (Inr shimRes), sent, c', w1) \<and>
    transactionMessage slib (shimInvocation start invoc) = Inr tx \<and>
    sent = plainMessage ChaincodeMessage_REGISTERED # plainMessage ChaincodeMessage_READY # tx # replies \<and>
    list_all2 (served slib snapshot) (requests (sn_Inputs net)) replies \<and>
    effects_of (xr_RWS res) = written slib (requests (sn_Inputs net)) Map.empty \<and>
    (\<forall>k. versions_of (xr_RWS res) k = (if \<exists>msg \<in> set (requests (sn_Inputs net)). readOf slib msg = Some k
       then Some (vv_Version (snapshot k)) else None)) \<and>
    distinct (map kr_Key (rw_Reads (xr_RWS res))) \<and> distinct (map kw_Key (rw_Writes (xr_RWS res))) \<and>
    hl_Endorse hl invoc (cp_NamespaceVersion proposal) res = Inr endorsed \<and>
    bindChaincodeMetadata lib hl endorsed original (iv_Namespace invoc) (cp_Decorations proposal) = Inr resp"
proof -
  obtain parsed executor original isInit res view c' w1 endorsed
    where parsed: "hl_Parse hl prop = Inr parsed" and clean: "clean_endorsement lib hl h proposal prop w resp (defaultVersion parsed) executor
      original isInit res view c' w1 endorsed" using helper_endorsed[OF assms(1,2)] unfolding proposal_def by blast
  let ?invoc = "defaultVersion parsed"
  have e: "executor = ServiceExecutor slib (he_reader h) connector net"
    using clean chosen_runs[OF assms(3), of "iv_Namespace parsed" executor] by (simp add: clean_endorsement_def)
  let ?start = "startContext proposal prop ?invoc isInit"
  have run: "ServiceExecutor slib (he_reader h) connector net ?invoc (?start, w) = (Some (Inr (res, view)), c', w1)"
    and ends: "xc_readErr c' = None" "hl_Endorse hl ?invoc (cp_NamespaceVersion proposal) res = Inr endorsed"
      "bindChaincodeMetadata lib hl endorsed original (iv_Namespace ?invoc) (cp_Decorations proposal) = Inr resp"
    using clean unfolding clean_endorsement_def e by blast+
  obtain cn shimRes sent where ran: "connector = Some cn" "Connector_Execute slib (context_ops (he_reader h)) cn
      (shimInvocation ?start ?invoc) net (?start, w) = (Some (Inr shimRes), sent, c', w1)" "res = result_of shimRes c'"
    using ServiceExecutor_ran[OF run] by (metis fst_conv)
  from executed_effects[OF assms(4) ran(2) ends(1)] obtain tx replies where
    "transactionMessage slib (shimInvocation ?start ?invoc) = Inr tx"
    "sent = plainMessage ChaincodeMessage_REGISTERED # plainMessage ChaincodeMessage_READY # tx # replies"
    "session_effects slib net (\<lambda>k. committed_value (snap (xc_queryView c') (iv_Namespace ?invoc) k)) replies (xr_RWS res)"
    unfolding ran(3) by (auto simp: result_of_def)
  with parsed ran(1,2) ends(2,3) show ?thesis
    unfolding session_effects_def Let_def ran(3) by blast
qed

subsection \<open>The view is released once\<close>

text \<open>An observer of the Query Service client: the same client over a world that also logs the views
  begun, queried and ended.\<close>

datatype view_event = ViewBegan View | ViewQueried "View option" | ViewEnded "View option"

definition logged :: "'w query_client \<Rightarrow> ('w \<times> view_event list) query_client" where
  "logged client =
     \<lparr>qc_BeginView = (\<lambda>ctx params (w, log). case qc_BeginView client ctx params w of
          (Inr (Some v), w') \<Rightarrow> (Inr (Some v), w', if vw_Id v = [] then log else log @ [ViewBegan v])
        | (r, w') \<Rightarrow> (r, w', log)),
      qc_EndView = (\<lambda>ctx view (w, log). case qc_EndView client ctx view w of
          (r, w') \<Rightarrow> (r, w', log @ [ViewEnded view])),
      qc_GetRows = (\<lambda>ctx view ns k (w, log). case qc_GetRows client ctx view ns k w of
          (r, w') \<Rightarrow> (r, w', log @ [ViewQueried view]))\<rparr>"

definition view_log_inv :: "ExecutionContext \<times> 'w \<times> view_event list \<Rightarrow> bool" where
  "view_log_inv st \<longleftrightarrow> (let (c, w, log) = st in \<not> xc_closed c \<and>
     (case xc_queryView c of
        None \<Rightarrow> \<not> xc_viewOwned c \<and> log = []
      | Some v \<Rightarrow> xc_viewOwned c \<and>
          (\<exists>n. log = ViewBegan v # replicate n (ViewQueried (Some v)))))"

lemma view_log_cong:
  "xc_closed c' = xc_closed c \<Longrightarrow> xc_queryView c' = xc_queryView c \<Longrightarrow> xc_viewOwned c' = xc_viewOwned c \<Longrightarrow>
    view_log_inv (c', w', log) = view_log_inv (c, w, log)"
  by (simp add: view_log_inv_def split: option.split)

lemma logged_open:
  assumes "view_log_inv (c, w, log)" and "openView (logged client) ctx (c, w, log) = (r, c', w', log')"
  shows "view_log_inv (c', w', log') \<and> (\<forall>view. r = Inr view \<longrightarrow> view = xc_queryView c' \<and> view \<noteq> None)"
proof (cases "xc_queryView c")
  case None
  then have log: "log = []" "\<not> xc_closed c" using assms(1) by (simp_all add: view_log_inv_def)
  show ?thesis
  proof (cases "\<exists>v. r = Inr v")
    case True
    then obtain v where v: "c' = c\<lparr>xc_queryView := Some v, xc_viewOwned := True\<rparr>" "r = Inr (Some v)" "log' = [ViewBegan v]"
      using assms(2) None log by (auto simp: openView_def BeginView_def logged_def Let_def
          split: prod.splits sum.splits option.splits if_splits)
    have "ViewBegan v # replicate 0 (ViewQueried (Some v)) = log'" using v(3) by simp
    then show ?thesis using v(1,2) log(2) unfolding view_log_inv_def by (auto intro: exI[of _ 0])
  next
    case False
    then have "c' = c" "log' = log \<or> (\<exists>v. r = Inr v)"
      using assms(2) None by (auto simp: openView_def BeginView_def logged_def Let_def
          split: prod.splits sum.splits option.splits if_splits)
    then show ?thesis using assms(1) False view_log_cong[of c' c w' log w] by auto
  qed
next
  case (Some v)
  then show ?thesis using assms by (auto simp: openView_def)
qed

lemma logged_read:
  assumes "view_log_inv (c, w, log)" and "xc_queryView c = Some v"
    and "readerGetState (logged client) ctx (Some v) ns k (w, log) = (r, w', log')"
  shows "view_log_inv (c, w', log')"
proof -
  obtain n where log: "log = ViewBegan v # replicate n (ViewQueried (Some v))"
    using assms(1,2) by (auto simp: view_log_inv_def)
  have "log' = log @ [ViewQueried (Some v)]"
    using assms(3) by (auto simp: readerGetState_def logged_def split: prod.splits sum.splits)
  then have "log' = ViewBegan v # replicate (Suc n) (ViewQueried (Some v))"
    by (simp add: log replicate_append_same)
  then have "\<exists>m. log' = ViewBegan v # replicate m (ViewQueried (Some v))" by blast
  then show ?thesis using assms(1,2) by (simp add: view_log_inv_def)
qed

interpretation view_log: state_invariant "context_ops (Some (logged client))" view_log_inv for client
proof unfold_locales
  fix k v ctx r and s s' :: "ExecutionContext \<times> 'a \<times> view_event list"
  assume I: "view_log_inv s"
  obtain c w log where s: "s = (c, w, log)" by (cases s)
  show "view_log_inv (so_PutState (context_ops (Some (logged client))) k v s)"
    "view_log_inv (so_DelState (context_ops (Some (logged client))) k s)"
    using I view_log_cong[of "recordWrite x c" c w log w for x]
    by (simp_all add: s PutState_def DelState_def recordWrite_def)
  show "view_log_inv s'" if "so_GetState (context_ops (Some (logged client))) ctx k s = (r, s')"
  proof -
    obtain r1 c1 w1 log1 where op: "openView (logged client) ctx s = (r1, c1, w1, log1)" by (metis prod.collapse)
    note opened = logged_open[OF I[unfolded s] op[unfolded s]]
    have fail: "view_log_inv t" if "failRead e (c2, w2, log2) = (r', t)" "view_log_inv (c2, w2, log2)"
      for e c2 w2 log2 r' t
      using that view_log_cong[of "c2\<lparr>xc_readErr := Some e\<rparr>" c2 w2 log2 w2] by (auto simp: failRead_def)
    show ?thesis
    proof (cases "xc_closed c \<or> xc_readErr c \<noteq> None \<or> cx_Err ctx \<noteq> None")
      case True
      then show ?thesis using that I
        by (auto simp: GetState_def s split: if_splits option.splits intro: fail)
    next
      case False
      show ?thesis
      proof (cases r1)
        case (Inl e)
        then show ?thesis using that False opened op by (auto simp: GetState_def s intro: fail)
      next
        case (Inr view)
        then obtain v where v: "xc_queryView c1 = Some v" "view = Some v" using opened by auto
        obtain r2 w2 log2 where rd: "readerGetState (logged client) ctx (Some v) (xc_namespace c1) k (w1, log1) = (r2, w2, log2)"
          by (metis prod.collapse)
        have J: "view_log_inv (c1, w2, log2)" using logged_read[OF _ v(1) rd] opened by blast
        then have "view_log_inv (recordRead k x c1, w2, log2)" for x
          using view_log_cong[of "recordRead k x c1" c1 w2 log2 w2] by (simp add: recordRead_def)
        then show ?thesis using that False op Inr v rd J
          by (auto simp: GetState_def s split: sum.splits intro: fail)
      qed
    qed
  qed
qed

text \<open>How a helper body leaves the context of a session executor.\<close>

lemma helperBody_log:
  assumes "view_log_inv (c, w)" and "helperBody lib hl (ServiceExecutor slib (Some (logged client)) connector net)
      proposal prop invoc (c, w) = (r, c', w')"
  shows "view_log_inv (c', w')"
proof -
  let ?x = "ServiceExecutor slib (Some (logged client)) connector net"
  have ran: "view_log_inv (snd (?x invoc st))" if "view_log_inv st" for st
  proof (cases connector)
    case None
    then show ?thesis using that by (simp add: ServiceExecutor_def)
  next
    case (Some cn)
    obtain r1 sent st' where run: "Connector_Execute slib (context_ops (Some (logged client))) cn
        (shimInvocation (fst st) invoc) net st = (r1, sent, st')" by (metis prod.collapse)
    have "view_log_inv st'" using view_log.connector_sound[OF that run] .
    then show ?thesis using Some by (auto simp: ServiceExecutor_def run split: option.split sum.split)
  qed
  define d where "d = c\<lparr>xc_clientCreator := (if cp_Creator proposal = [] then iv_Creator invoc else cp_Creator proposal),
      xc_clientNonce := (if cp_Nonce proposal = [] then iv_Nonce invoc else cp_Nonce proposal),
      xc_signedProposal := Some (originalSigned proposal prop), xc_decorations := cp_Decorations proposal\<rparr>"
  have "view_log_inv (d, w)"
    using assms(1) view_log_cong[of d c "fst w" "snd w" "fst w"] by (simp add: d_def)
  then have D: "view_log_inv (snd (?x invoc (d, w)))" by (rule ran)
  obtain r2 c2 w2 where run: "?x invoc (d, w) = (r2, c2, w2)" by (metis prod.collapse)
  have "(c', w') = (c, w) \<or> (c', w') = (c2, w2)"
    using assms(2) unfolding helperBody_def Let_def originalSigned_def[symmetric] fst_conv snd_conv d_def[symmetric] run
    by (auto split: option.splits if_splits sum.splits)
  then show ?thesis using assms(1) D run by auto
qed

lemma ProcessProposal_closes:
  assumes "Helper_ProcessProposal lib hl h cleanup client prop w = (r, w')" and "r \<noteq> Unfinished"
  shows "w' = w \<or> (\<exists>e invoc i r1 c u. chooseExecutor h (iv_Namespace invoc) = Some e \<and>
    helperBody lib hl e (clientProposalFromContext client) prop invoc
      ((NewExecutionContext (iv_Namespace invoc))\<lparr>xc_isInit := i\<rparr>, w) = (r1, c, u) \<and>
    w' = snd (snd (ExecutionContext_Close (he_reader h) cleanup (c, u))))"
proof -
  consider (early) "w' = w" | (ran) parsed e where "hl_Parse hl prop = Inr parsed" "iv_Channel parsed = he_channel h"
      "chooseExecutor h (iv_Namespace parsed) = Some e"
    using assms(1) by (auto simp: Helper_ProcessProposal_def split: sum.splits if_splits option.splits)
  then show ?thesis
  proof cases
    case ran
    define invoc where "invoc = (if iv_ChaincodeVersion parsed = [] then parsed\<lparr>iv_ChaincodeVersion := ''1.0''\<rparr> else parsed)"
  have dv: "defaultVersion parsed = invoc" by (simp add: defaultVersion_def invoc_def)
    have same: "iv_Namespace invoc = iv_Namespace parsed" by (simp add: invoc_def)
    show ?thesis
    proof (cases "ProposalIsInit lib (iv_Proposal invoc)")
      case (Inl e)
      then show ?thesis using assms(1) ran by (simp add: Helper_ProcessProposal_def Let_def flip: invoc_def)
    next
      case (Inr i)
      obtain r1 c u where b: "helperBody lib hl e (clientProposalFromContext client) prop invoc
          ((NewExecutionContext (iv_Namespace invoc))\<lparr>xc_isInit := i\<rparr>, w) = (r1, c, u)" by (metis prod.collapse)
      have "w' = snd (snd (ExecutionContext_Close (he_reader h) cleanup (c, u)))"
        using assms ran Inr by (auto simp: Helper_ProcessProposal_def Let_def b simp flip: invoc_def
            split: outcome.splits)
      then show ?thesis using ran(3) b same by metis
    qed
  qed simp
qed

lemma close_log:
  assumes "view_log_inv (c, u, l)"
  shows "snd (snd (snd (ExecutionContext_Close (Some (logged q)) cleanup (c, u, l)))) = [] \<or>
      (\<exists>v n. snd (snd (snd (ExecutionContext_Close (Some (logged q)) cleanup (c, u, l)))) =
        ViewBegan v # replicate n (ViewQueried (Some v)) @ [ViewEnded (Some v)])"
proof -
  have "snd (snd (snd (ExecutionContext_Close (Some (logged q)) cleanup (c, u, l)))) =
      (if xc_viewOwned c then l @ [ViewEnded (xc_queryView c)] else l)"
    using assms by (auto simp: ExecutionContext_Close_def EndView_def logged_def view_log_inv_def Let_def
        split: prod.split)
  then show ?thesis using assms by (cases "xc_queryView c") (auto simp: view_log_inv_def)
qed

lemma start_log: "view_log_inv ((NewExecutionContext ns)\<lparr>xc_isInit := i\<rparr>, w, [])"
  by (simp add: view_log_inv_def NewExecutionContext_def NewExecutionContextWithView_def)

text \<open>C20: Every Query Service view an execution opens is released exactly once and never used afterwards,
  on every path on which the call comes back: refused proposals, failed executions, failed reads,
  endorsements, and the panic on a proposal without arguments.  A call that reads no state opens no view.\<close>

theorem query_view_released:
  assumes "Helper_ProcessProposal lib hl h cleanup client prop (w, []) = (r, w', log)"
    and "he_reader h = Some (logged q)" and "runs_sessions slib connector net h" and "r \<noteq> Unfinished"
  shows "log = [] \<or> (\<exists>v n. log = ViewBegan v # replicate n (ViewQueried (Some v)) @ [ViewEnded (Some v)])"
proof -
  consider "(w', log) = (w, [])" | (ran) e invoc i r1 c u l where "chooseExecutor h (iv_Namespace invoc) = Some e"
      "helperBody lib hl e (clientProposalFromContext client) prop invoc
        ((NewExecutionContext (iv_Namespace invoc))\<lparr>xc_isInit := i\<rparr>, w, []) = (r1, c, u, l)"
      "(w', log) = snd (snd (ExecutionContext_Close (he_reader h) cleanup (c, u, l)))"
    using ProcessProposal_closes[OF assms(1,4)] by (metis prod.collapse)
  then show ?thesis
  proof cases
    case ran
    have e: "e = ServiceExecutor slib (Some (logged q)) connector net"
      using chosen_runs[OF assms(3) ran(1)] assms(2) by simp
    have "view_log_inv (c, u, l)" using helperBody_log[OF start_log ran(2)[unfolded e]] .
    then show ?thesis using close_log[of c u l q cleanup] ran(3) assms(2) by (metis snd_conv)
  qed simp
qed

subsection \<open>A concrete session\<close>

text \<open>A chaincode that writes \<open>a\<close>, reads \<open>a\<close> and completes, over a service that holds one row.\<close>

definition sample_query :: "unit query_client" where
  "sample_query = \<lparr>qc_BeginView = (\<lambda>_ _ w. (Inr (Some \<lparr>vw_Id = ''v''\<rparr>), w)),
     qc_EndView = (\<lambda>_ _ w. (None, w)),
     qc_GetRows = (\<lambda>_ _ _ _ w. (Inr [(''ns'', [(''a'', ''1'', 7)])], w))\<rparr>"

definition sample_snap :: view_snapshot where
  "sample_snap view ns k = findRow ns k [(''ns'', [(''a'', ''1'', 7)])]"

definition sample_shim :: shim_lib where
  "sample_shim = \<lparr>sl_GetState = (\<lambda>b. Some (b, [])), sl_PutState = (\<lambda>b. Some (b, ''x'', [])),
     sl_DelState = (\<lambda>b. Some (b, [])), sl_Response = (\<lambda>b. Some \<lparr>pr_Status = 200, pr_Message = [], pr_Payload = b\<rparr>),
     sl_ChaincodeID = Some, sl_Input = (\<lambda>_ _ _. Some []), sl_CreateProposal = (\<lambda>_ _ _ _ _ _ _ _. Inr []),
     sl_TypeName = (\<lambda>_. []), sl_ErrorText = (\<lambda>_. [])\<rparr>"

definition sample_message :: "message_type \<Rightarrow> bytes \<Rightarrow> ChaincodeMessage" where
  "sample_message t payload = (plainMessage t)\<lparr>mg_Payload := payload\<rparr>"

definition sample_input :: "message_type \<Rightarrow> bytes \<Rightarrow> shim_input" where
  "sample_input t payload = \<lparr>si_Ctx = None, si_Received = Received (Some (sample_message t payload)),
     si_CtxAfter = None, si_Call = \<lparr>cx_Err = None, cx_Remaining = None\<rparr>, si_Send = None\<rparr>"

definition sample_session :: shim_session where
  "sample_session = \<lparr>sn_Ctx = None, sn_Open = None,
     sn_Registers = [Received (Some (sample_message ChaincodeMessage_REGISTER ''cc''))],
     sn_SendRegistered = None, sn_SendReady = None, sn_SendTransaction = None,
     sn_Inputs = [sample_input ChaincodeMessage_PUT_STATE ''a'', sample_input ChaincodeMessage_GET_STATE ''a'',
       sample_input ChaincodeMessage_COMPLETED ''ok''], sn_CloseSend = None\<rparr>"

definition sample_endorsed :: ProposalResponse where
  "sample_endorsed = \<lparr>ps_Response = Some \<lparr>pr_Status = 200, pr_Message = [], pr_Payload = ''ok''\<rparr>, ps_Payload = ''n'',
     ps_Endorsement = Some \<lparr>pe_Endorser = ''e'', pe_Signature = ''s''\<rparr>\<rparr>"

definition sample_helper_lib :: helper_lib where
  "sample_helper_lib = \<lparr>hl_Parse = (\<lambda>_. Inr \<lparr>iv_TxID = ''tx'', iv_Channel = ''ch'', iv_Namespace = ''ns'',
       iv_ChaincodeVersion = [], iv_Args = [''f''], iv_Creator = ''c'', iv_Nonce = ''n'', iv_Proposal = Some sample_proposal\<rparr>),
     hl_Response = (\<lambda>r. \<lparr>pr_Status = xr_Status r, pr_Message = xr_Message r, pr_Payload = xr_Payload r\<rparr>),
     hl_Endorse = (\<lambda>_ _ _. Inr sample_endorsed), hl_ProposalHash = (\<lambda>_ _. Inr ''h''),
     hl_ASN1Marshal = (\<lambda>_ _ _. Inr ''d''), hl_Sign = Some (\<lambda>_. Inr ''s2''), hl_MarshalTx = (\<lambda>_. Inr ''b''),
     hl_ErrorText = (\<lambda>_. [])\<rparr>"

definition sample_helper :: "'w query_client \<Rightarrow> 'w Helper" where
  "sample_helper q = \<lparr>he_channel = ''ch'', he_reader = Some q,
     he_executors = [(''*'', ServiceExecutor sample_shim (Some q) (Some \<lparr>kn_endpoint = ''cc:1''\<rparr>) sample_session)]\<rparr>"

definition sample_cleanup :: call_ctx where
  "sample_cleanup = \<lparr>cx_Err = None, cx_Remaining = Some 2000000000\<rparr>"

lemma sample_helper_run:
  "Helper_ProcessProposal sample_proto sample_helper_lib (sample_helper (logged sample_query)) sample_cleanup None
     sample_signed ((), []) =
   (Returned (Inr sample_endorsed), (), [ViewBegan \<lparr>vw_Id = ''v''\<rparr>, ViewQueried (Some \<lparr>vw_Id = ''v''\<rparr>),
      ViewEnded (Some \<lparr>vw_Id = ''v''\<rparr>)])"
  by code_simp

lemma sample_helper_plain:
  "Helper_ProcessProposal sample_proto sample_helper_lib (sample_helper sample_query) sample_cleanup None
     sample_signed () = (Returned (Inr sample_endorsed), ())"
  by code_simp

theorem helper_endorses_clean_execution_witness:
  "\<exists>invoc res endorsed. (200::int) \<le> xr_Status res \<and> xr_Status res < 400 \<and>
    hl_Endorse sample_helper_lib invoc 0 res = Inr endorsed"
proof -
  have "ps_Endorsement sample_endorsed \<noteq> None" by (simp add: sample_endorsed_def)
  moreover have "cp_NamespaceVersion (clientProposalFromContext None) = 0"
    by (simp add: clientProposalFromContext_def emptyClientProposal_def)
  ultimately show ?thesis using helper_endorses_clean_execution[OF sample_helper_plain] by auto
qed

lemma sample_repeatable: "repeatable (Some sample_query) sample_snap"
  by (auto simp: repeatable_def sample_query_def sample_snap_def)

lemma shim_sample_runs: "runs_sessions sample_shim (Some \<lparr>kn_endpoint = ''cc:1''\<rparr>) sample_session (sample_helper q)"
  by (simp add: runs_sessions_def sample_helper_def)

theorem endorsed_effects_are_the_sessions_witness:
  "\<exists>(res :: ExecutionResult) replies view. effects_of (xr_RWS res) ''a'' = Some (Some ''x'') \<and> versions_of (xr_RWS res) ''a'' = Some (Some 7) \<and>
    list_all2 (served sample_shim (\<lambda>k. committed_value (sample_snap view ''ns'' k)))
      (requests (sn_Inputs sample_session)) replies \<and> map mg_Payload replies = [[], ''1'']"
proof -
  have e: "ps_Endorsement sample_endorsed \<noteq> None" by (simp add: sample_endorsed_def)
  have r: "repeatable (he_reader (sample_helper sample_query)) sample_snap"
    using sample_repeatable by (simp add: sample_helper_def)
  have w: "written sample_shim (requests (sn_Inputs sample_session)) Map.empty ''a'' = Some (Some ''x'')"
    by code_simp
  have reqs: "requests (sn_Inputs sample_session) =
      [sample_message ChaincodeMessage_PUT_STATE ''a'', sample_message ChaincodeMessage_GET_STATE ''a'']"
    by code_simp
  from endorsed_effects_are_the_sessions[OF sample_helper_plain e shim_sample_runs r]
  obtain parsed shimRes replies c' where parsed: "hl_Parse sample_helper_lib sample_signed = Inr parsed"
    and f: "list_all2 (served sample_shim (\<lambda>k. committed_value (sample_snap (xc_queryView c') (iv_Namespace parsed) k)))
        (requests (sn_Inputs sample_session)) replies"
      "effects_of (xr_RWS (result_of shimRes c')) = written sample_shim (requests (sn_Inputs sample_session)) Map.empty"
      "\<forall>k. versions_of (xr_RWS (result_of shimRes c')) k =
        (if \<exists>msg \<in> set (requests (sn_Inputs sample_session)). readOf sample_shim msg = Some k
         then Some (vv_Version (committed_value (sample_snap (xc_queryView c') (iv_Namespace parsed) k))) else None)"
    unfolding Let_def defaultVersion_sel by blast
  have ns: "iv_Namespace parsed = ''ns''" using parsed by (auto simp: sample_helper_lib_def)
  have row: "committed_value (sample_snap v ''ns'' ''a'') = \<lparr>vv_Value = ''1'', vv_Version = Some 7\<rparr>" for v
    unfolding sample_snap_def by code_simp
  have ops: "readOf sample_shim (sample_message ChaincodeMessage_PUT_STATE ''a'') = None"
    "writeOf sample_shim (sample_message ChaincodeMessage_PUT_STATE ''a'') = Some (''a'', Some ''x'')"
    "readOf sample_shim (sample_message ChaincodeMessage_GET_STATE ''a'') = Some ''a''"
    by code_simp+
  have "map mg_Payload replies = [[], ''1'']"
    using f(1) unfolding reqs ns by (auto simp: list_all2_Cons1 served_def ops row)
  moreover have "versions_of (xr_RWS (result_of shimRes c')) ''a'' = Some (Some 7)"
    using spec[OF f(3), of "''a''"] unfolding reqs ns by (simp add: ops row)
  moreover have "effects_of (xr_RWS (result_of shimRes c')) ''a'' = Some (Some ''x'')" unfolding f(2) by (rule w)
  ultimately show ?thesis
    using f(1) unfolding ns by (intro exI[of _ "result_of shimRes c'"] exI[of _ replies] exI[of _ "xc_queryView c'"]) simp
qed

theorem query_view_released_witness:
  "\<exists>v n. [ViewBegan \<lparr>vw_Id = ''v''\<rparr>, ViewQueried (Some \<lparr>vw_Id = ''v''\<rparr>), ViewEnded (Some \<lparr>vw_Id = ''v''\<rparr>)] =
    ViewBegan v # replicate n (ViewQueried (Some v)) @ [ViewEnded (Some v)]"
proof -
  have "he_reader (sample_helper (logged sample_query)) = Some (logged sample_query)" by (simp add: sample_helper_def)
  then show ?thesis using query_view_released[OF sample_helper_run _ shim_sample_runs] by simp
qed

subsection \<open>The metadata that is signed\<close>

lemma binding_not_identity:
  assumes "utf8_ok (gb_ChaincodeVersion b)" and "utf8_ok (gb_Message b)"
  shows "record_kind (jprint (binding_json b)) = Some []"
proof -
  have tags: "utf8_ok ''format''" "utf8_ok ''proposal_hash''" "utf8_ok ''chaincode_version''" "utf8_ok ''sequence''"
    "utf8_ok ''status''" "utf8_ok ''message''" by (rule ascii_utf8, simp)+
  have p: "jparse (jprint (binding_json b)) = Some (binding_json b)"
    using assms tags by (intro jparse_jprint) (simp add: binding_json_def)
  have fields: "field_for [(''type'', f)] ''format'' = None" "field_for [(''type'', f)] ''proposal_hash'' = None"
    "field_for [(''type'', f)] ''chaincode_version'' = None" "field_for [(''type'', f)] ''sequence'' = None"
    "field_for [(''type'', f)] ''status'' = None" "field_for [(''type'', f)] ''message'' = None"
    for f :: "json \<Rightarrow> string \<Rightarrow> string option"
    by (simp_all add: field_for_def fold_byte_def between_def)
  show ?thesis using p by (simp add: record_kind_def Unmarshal_def decode_value_def binding_json_def fields)
qed

lemma MarshalGateway_ok:
  assumes "MarshalGatewayProposalBinding lib hl proposal version sequence response = Inr r"
  obtains hash resp where "response = Some resp" "r = jprint (binding_json \<lparr>gb_Format = 1, gb_ProposalHash = hash,
    gb_ChaincodeVersion = version, gb_Sequence = sequence, gb_Status = pr_Status resp, gb_Message = pr_Message resp\<rparr>)"
  using assms by (auto simp: MarshalGatewayProposalBinding_def rbind_Inr_iff split: option.splits if_splits)

text \<open>Texts that \<open>json.Marshal\<close> writes unchanged.\<close>

definition texts_ok :: "ProposalResponse \<Rightarrow> (string \<times> bytes) list \<Rightarrow> string \<Rightarrow> bool" where
  "texts_ok response decorations namespace \<longleftrightarrow>
     utf8_ok namespace \<and> utf8_ok (decoration decorations ''compat.chaincode_name'') \<and>
     utf8_ok (decoration decorations ''compat.chaincode_version'') \<and>
     (\<forall>r. ps_Response response = Some r \<longrightarrow> utf8_ok (pr_Message r))"

lemma gateway_records:
  assumes "gatewayRecord lib hl response original spec name namespace decorations = Inr records"
    and "texts_ok response decorations namespace"
  shows "\<forall>r \<in> set records. record_kind r = Some []"
proof (cases "records = []")
  case False
  then obtain sequence b where r: "records = [b]" "MarshalGatewayProposalBinding lib hl (Some original)
      (decoration decorations ''compat.chaincode_version'') sequence (ps_Response response) = Inr b"
    using assms(1) by (auto simp: gatewayRecord_def rbind_Inr_iff split: if_splits)
  obtain hash resp where "ps_Response response = Some resp" "b = jprint (binding_json \<lparr>gb_Format = 1,
      gb_ProposalHash = hash, gb_ChaincodeVersion = decoration decorations ''compat.chaincode_version'',
      gb_Sequence = sequence, gb_Status = pr_Status resp, gb_Message = pr_Message resp\<rparr>)"
    using MarshalGateway_ok[OF r(2)] .
  then show ?thesis using assms(2) r(1) by (simp add: texts_ok_def binding_not_identity)
qed simp

lemma identity_record_found:
  assumes "\<forall>r \<in> set records. record_kind r = Some []" and "channel \<noteq> []" "name \<noteq> []" "namespace \<noteq> []"
    and "utf8_ok channel" "utf8_ok name" "utf8_ok namespace"
  shows "identityRecords (records @ [jprint (identity_json (identity_of channel name namespace))]) None =
    Inr (Some (identity_of channel name namespace))"
  using assms
proof (induction records)
  case Nil
  let ?i = "identity_of channel name namespace"
  have "record_kind (jprint (identity_json ?i)) = Some (ci_Type ?i)"
      "Unmarshal identity_setters zeroIdentity (jprint (identity_json ?i)) = Some ?i"
    using identity_record[of ?i] Nil
    by (simp_all add: identity_of_def chaincodeIdentityType_def is_i64_def max_i64_def min_i64_def)
  then show ?case using Nil by (simp add: identity_of_def identity_complete_def)
qed (auto simp: chaincodeIdentityType_def)

text \<open>C21: The chaincode identity the helper signs into a transaction's metadata is the one the event
  service reads from it.  When the name decoration is present, binding appends to the SDK's single
  metadata record at most the Gateway record and then the identity; what the event service finds in the
  marshalled transaction is exactly the channel of the original proposal, the decorated name and the
  namespace; and the endorsement's signature is over the encoding of exactly that metadata.\<close>

theorem bound_identity_readable:
  assumes "bindChaincodeMetadata lib hl response original namespace decorations = Inr bound"
    and "decoration decorations ''compat.chaincode_name'' \<noteq> []"
    and "texts_ok response decorations namespace"
    and "\<And>chdr channel. pl_ChannelHeader lib chdr = Some channel \<Longrightarrow> utf8_ok (ch_ChannelId channel)"
    and codec: "\<And>tx payload. hl_MarshalTx hl tx = Inr payload \<Longrightarrow> pl_Tx lib payload = Some tx"
  shows "\<exists>tx channel chdr ns e data sign.
    pl_Tx lib (ps_Payload bound) = Some tx \<and>
    pl_Header lib (pp_Header original) = Some chdr \<and> pl_ChannelHeader lib chdr = Some channel \<and>
    ChaincodeIdentityFromMetadata (tx_Metadata tx) =
      Inr (Some (identity_of (ch_ChannelId channel) (decoration decorations ''compat.chaincode_name'') namespace)) \<and>
    tx_Namespaces tx = [ns] \<and> ps_Endorsement bound = Some e \<and> hl_Sign hl = Some sign \<and>
    hl_ASN1Marshal hl ns (ch_TxId channel) (tx_Metadata tx) = Inr data \<and> sign data = Inr (pe_Signature e)"
proof -
  let ?name = "decoration decorations ''compat.chaincode_name''"
  obtain spec native where body: "(case (tx_Metadata native, tx_Namespaces native, ps_Endorsement response, hl_Sign hl) of
      ([meta], [ns], Some e, Some sign) \<Rightarrow>
        rbind (require (Plain ''unmarshal header'') (pl_Header lib (pp_Header original))) (\<lambda>chdr.
        rbind (require (Plain ''unmarshal channel header'') (pl_ChannelHeader lib chdr)) (\<lambda>channel.
        rbind (gatewayRecord lib hl response original spec ?name namespace decorations) (\<lambda>gateway.
        rbind (MarshalChaincodeIdentity (ch_ChannelId channel) ?name namespace) (\<lambda>identity.
        let metadata = meta # gateway @ [identity] in
        rbind (hl_ASN1Marshal hl ns (ch_TxId channel) metadata) (\<lambda>data.
        rbind (sign data) (\<lambda>signature.
        rbind (hl_MarshalTx hl (native\<lparr>tx_Metadata := metadata\<rparr>)) (\<lambda>payload.
        Inr (response\<lparr>ps_Payload := payload, ps_Endorsement := Some (e\<lparr>pe_Signature := signature\<rparr>)\<rparr>))))))))
    | _ \<Rightarrow> Inl (Plain ''invalid native endorsement for Gateway proposal binding'')) = Inr bound"
    using assms(1,2) unfolding bindChaincodeMetadata_def Let_def[of "decoration _ _"] by (auto simp: rbind_Inr_iff)
  obtain meta ns e sign where n: "tx_Metadata native = [meta]" "tx_Namespaces native = [ns]"
      "ps_Endorsement response = Some e" "hl_Sign hl = Some sign"
  proof (cases "length (tx_Metadata native) = 1 \<and> length (tx_Namespaces native) = 1 \<and>
      ps_Endorsement response \<noteq> None \<and> hl_Sign hl \<noteq> None")
    case True
    then show ?thesis using that by (auto simp: length_Suc_conv)
  next
    case False
    then show ?thesis using body by (auto split: list.splits option.splits)
  qed
  obtain chdr channel records identity data signature payload where
      h: "pl_Header lib (pp_Header original) = Some chdr" "pl_ChannelHeader lib chdr = Some channel"
      and g: "gatewayRecord lib hl response original spec ?name namespace decorations = Inr records"
      and i: "MarshalChaincodeIdentity (ch_ChannelId channel) ?name namespace = Inr identity"
      and d: "hl_ASN1Marshal hl ns (ch_TxId channel) (meta # records @ [identity]) = Inr data"
        "sign data = Inr signature"
      and m: "hl_MarshalTx hl (native\<lparr>tx_Metadata := meta # records @ [identity]\<rparr>) = Inr payload"
      and b: "bound = response\<lparr>ps_Payload := payload, ps_Endorsement := Some (e\<lparr>pe_Signature := signature\<rparr>)\<rparr>"
    using body by (auto simp: n rbind_Inr_iff Let_def)
  let ?tx = "native\<lparr>tx_Metadata := meta # records @ [identity]\<rparr>"
  have id: "identity = jprint (identity_json (identity_of (ch_ChannelId channel) ?name namespace))"
    and ne: "ch_ChannelId channel \<noteq> []" "namespace \<noteq> []"
    using i by (auto simp: MarshalChaincodeIdentity_def split: if_splits)
  have "ChaincodeIdentityFromMetadata (tx_Metadata ?tx) =
      Inr (Some (identity_of (ch_ChannelId channel) ?name namespace))"
    using identity_record_found[OF gateway_records[OF g assms(3)] ne(1) assms(2) ne(2)] assms(3,4) h(2)
    by (simp add: ChaincodeIdentityFromMetadata_def id texts_ok_def)
  then show ?thesis using codec[OF m] h n d b by (intro exI[of _ ?tx]) auto
qed

definition bound_tx :: "bytes list \<Rightarrow> Tx" where
  "bound_tx extra = \<lparr>tx_Namespaces = [\<lparr>tn_NsId = ''ns'', tn_NsVersion = 0, tn_Content = []\<rparr>], tx_Metadata = ''m'' # extra\<rparr>"

definition bound_identity :: bytes where
  "bound_identity = jprint (identity_json (identity_of ''ch'' ''cc'' ''ns''))"

definition binding_proto :: proto_lib where
  "binding_proto = sample_proto\<lparr>pl_Tx := (\<lambda>b. if b = ''n'' then Some (bound_tx [])
     else if b = ''b'' then Some (bound_tx [bound_identity]) else None)\<rparr>"

definition binding_lib :: helper_lib where
  "binding_lib = sample_helper_lib\<lparr>hl_MarshalTx := (\<lambda>tx. if tx = bound_tx [bound_identity] then Inr ''b''
     else Inl (Plain []))\<rparr>"

definition bound_response :: ProposalResponse where
  "bound_response = sample_endorsed\<lparr>ps_Payload := ''b'',
     ps_Endorsement := Some \<lparr>pe_Endorser = ''e'', pe_Signature = ''s2''\<rparr>\<rparr>"

lemma sample_decoration:
  "decoration [(''compat.chaincode_name'', ''cc'')] ''compat.chaincode_name'' = ''cc''"
  "decoration [(''compat.chaincode_name'', ''cc'')] ''compat.chaincode_version'' = []"
  by (simp_all add: decoration_def)

lemma sample_bound:
  "bindChaincodeMetadata binding_proto binding_lib sample_endorsed sample_proposal ''ns''
     [(''compat.chaincode_name'', ''cc'')] = Inr bound_response"
proof -
  have pm: "MarshalChaincodeIdentity ''ch'' ''cc'' ''ns'' = Inr bound_identity"
    by (simp add: MarshalChaincodeIdentity_def bound_identity_def)
  have tx: "(bound_tx [])\<lparr>tx_Metadata := [''m'', bound_identity]\<rparr> = bound_tx [bound_identity]"
    by (simp add: bound_tx_def)
  have sel: "tx_Metadata (bound_tx []) = [''m'']"
    "tx_Namespaces (bound_tx []) = [\<lparr>tn_NsId = ''ns'', tn_NsVersion = 0, tn_Content = []\<rparr>]"
    by (simp_all add: bound_tx_def)
  show ?thesis
    unfolding bindChaincodeMetadata_def sample_decoration Let_def
    by (simp add: binding_proto_def sample_proto_def binding_lib_def sample_helper_lib_def sample_endorsed_def
        sel gatewayRecord_def pm tx bound_response_def)
qed

theorem bound_identity_readable_witness:
  "\<exists>tx. pl_Tx binding_proto (ps_Payload bound_response) = Some tx \<and>
    ChaincodeIdentityFromMetadata (tx_Metadata tx) = Inr (Some (identity_of ''ch'' ''cc'' ''ns''))"
proof -
  have utf: "utf8_ok ''ns''" "utf8_ok ''cc''" "utf8_ok ''ch''" "utf8_ok []" by (rule ascii_utf8, simp)+
  have texts: "texts_ok sample_endorsed [(''compat.chaincode_name'', ''cc'')] ''ns''"
    using utf by (simp add: texts_ok_def sample_decoration sample_endorsed_def)
  have chan: "utf8_ok (ch_ChannelId c)" if "pl_ChannelHeader binding_proto h = Some c" for h c
    using that utf(3) by (auto simp: binding_proto_def sample_proto_def)
  have codec: "pl_Tx binding_proto p = Some t" if "hl_MarshalTx binding_lib t = Inr p" for t p
    using that by (simp add: binding_lib_def binding_proto_def split: if_splits)
  have ch: "ch_ChannelId c = ''ch''" if "pl_ChannelHeader binding_proto h = Some c" for h c
    using that by (auto simp: binding_proto_def sample_proto_def)
  have ne: "decoration [(''compat.chaincode_name'', ''cc'')] ''compat.chaincode_name'' \<noteq> []"
    by (simp add: sample_decoration)
  obtain tx :: Tx and c chdr where "pl_Tx binding_proto (ps_Payload bound_response) = Some tx"
      "pl_ChannelHeader binding_proto chdr = Some c"
      "ChaincodeIdentityFromMetadata (tx_Metadata tx) = Inr (Some (identity_of (ch_ChannelId c) ''cc'' ''ns''))"
  proof -
    have "\<exists>tx channel chdr. pl_Tx binding_proto (ps_Payload bound_response) = Some tx \<and>
        pl_ChannelHeader binding_proto chdr = Some channel \<and> ChaincodeIdentityFromMetadata (tx_Metadata tx) =
          Inr (Some (identity_of (ch_ChannelId channel) ''cc'' ''ns''))"
      using bound_identity_readable[OF sample_bound ne texts, unfolded sample_decoration] chan codec by meson
    then show ?thesis using that by blast
  qed
  then show ?thesis using ch by metis
qed

end
