(* ===== verification/Connection_Resolution.thy ===== *)
theory Connection_Resolution
  imports Helper_Service Invocation_State
begin

section \<open>From an active definition to a chaincode endpoint\<close>

text \<open>
  Which external chaincode an invocation runs: the configured and the dynamic resolver of
  \<open>orchestrator/resolver.go\<close>, the executor of \<open>lifecycle_executor.go\<close> that caches what they answer in
  the lifecycle store, and the org-local evidence of \<open>lifecycle_binding.go\<close>.  The dynamic resolver is a
  gRPC service; one call of it is a function from the request of \<open>ccresolver/rpc.go\<close> to its answer.
\<close>

subsection \<open>Resolvers\<close>

record ResolveRequest =
  rq_Operation :: string
  rq_MSPID :: string
  rq_RequesterMSP :: string
  rq_TargetMSP :: string
  rq_ChannelID :: string
  rq_Namespace :: string
  rq_Name :: string
  rq_Version :: string
  rq_Sequence :: int

record ResolveCandidate =
  ra_MSPID :: string
  ra_InstanceID :: string
  ra_Address :: string
  ra_TLSMode :: string

record ResolveResponse =
  rp_Found :: bool
  rp_Address :: string
  rp_TLSMode :: string
  rp_PackageID :: string
  rp_Sequence :: int
  rp_Candidates :: "ResolveCandidate list"

type_synonym resolver_call = "ResolveRequest \<Rightarrow> orch_error + ResolveResponse option"

definition OperationChaincodeResolution :: string where
  "OperationChaincodeResolution = ''CC_resolution''"

record StaticChaincodeConnectionConfig =
  sc_ChannelID :: string
  sc_MSPID :: string
  sc_Name :: string
  sc_Version :: string
  sc_Sequence :: int
  sc_PackageID :: string
  sc_Address :: string
  sc_Endpoint :: "Endpoint option"
  sc_TLS :: TLSConfig

record DynamicChaincodeResolverConfig =
  dc_Endpoint :: "Endpoint option"
  dc_TLS :: TLSConfig
  dc_Timeout :: int

record ChaincodeResolverConfig =
  rv_Static :: "StaticChaincodeConnectionConfig list"
  rv_Dynamic :: "DynamicChaincodeResolverConfig option"

record chaincodeResolverRequest =
  cq_ChannelID :: string
  cq_MSPID :: string
  cq_Definition :: ChaincodeDefinition

definition chaincodeResolverAddress :: "StaticChaincodeConnectionConfig \<Rightarrow> string" where
  "chaincodeResolverAddress entry =
     (if sc_Address entry \<noteq> [] then sc_Address entry
      else case sc_Endpoint entry of None \<Rightarrow> [] | Some e \<Rightarrow> Endpoint_Address e)"

fun checkStaticEntries :: "nat \<Rightarrow> StaticChaincodeConnectionConfig list \<Rightarrow> orch_error + unit" where
  "checkStaticEntries i [] = Inr ()"
| "checkStaticEntries i (entry # rest) =
     (let at = ''chaincode-resolver.static['' @ FormatUint i @ '']'' in
      if sc_Name entry = [] then Inl (Plain (at @ ''.name is required''))
      else if sc_Version entry = [] then Inl (Plain (at @ ''.version is required''))
      else if chaincodeResolverAddress entry = [] then Inl (Plain (at @ ''.address or endpoint is required''))
      else if tl_Mode (sc_TLS entry) \<noteq> [] \<and> tl_Mode (sc_TLS entry) \<noteq> ''none''
      then Inl (Plain (at @ '' tls mode '' @ tl_Mode (sc_TLS entry) @
                 '' is not supported by the current CCAAS shim connector''))
      else checkStaticEntries (i + 1) rest)"

definition newStaticChaincodeResolver ::
  "StaticChaincodeConnectionConfig list \<Rightarrow> orch_error + StaticChaincodeConnectionConfig list" where
  "newStaticChaincodeResolver entries = rbind (checkStaticEntries 0 entries) (\<lambda>_. Inr entries)"

definition staticMatches :: "chaincodeResolverRequest \<Rightarrow> StaticChaincodeConnectionConfig \<Rightarrow> bool" where
  "staticMatches req entry \<longleftrightarrow>
     (sc_ChannelID entry = [] \<or> sc_ChannelID entry = cq_ChannelID req) \<and>
     (sc_MSPID entry = [] \<or> sc_MSPID entry = cq_MSPID req) \<and>
     sc_Name entry = cd_Name (cq_Definition req) \<and> sc_Version entry = cd_Version (cq_Definition req) \<and>
     (sc_Sequence entry = 0 \<or> sc_Sequence entry = cd_Sequence (cq_Definition req))"

definition modeOrNone :: "string \<Rightarrow> string" where
  "modeOrNone mode = (if mode = [] then ''none'' else mode)"

definition connectionFor ::
  "chaincodeResolverRequest \<Rightarrow> string \<Rightarrow> string \<Rightarrow> string \<Rightarrow> ResolvedChaincodeConnection" where
  "connectionFor req address mode packageID =
     \<lparr>rc_MSPID = cq_MSPID req, rc_Name = cd_Name (cq_Definition req),
      rc_Version = cd_Version (cq_Definition req), rc_Sequence = cd_Sequence (cq_Definition req),
      rc_Address = address, rc_TLSMode = mode, rc_PackageID = packageID, rc_CachedAt = []\<rparr>"

definition static_Resolve ::
  "StaticChaincodeConnectionConfig list \<Rightarrow> chaincodeResolverRequest
    \<Rightarrow> orch_error + ResolvedChaincodeConnection option" where
  "static_Resolve entries req =
     Inr (case find (staticMatches req) entries of
            None \<Rightarrow> None
          | Some entry \<Rightarrow> Some (connectionFor req (chaincodeResolverAddress entry)
              (modeOrNone (tl_Mode (sc_TLS entry))) (sc_PackageID entry)))"

record grpcChaincodeResolver =
  gr_address :: string
  gr_call :: resolver_call
  gr_timeout :: int

definition defaultResolverTimeout :: int where "defaultResolverTimeout = 5000000000"

text \<open>\<open>dial\<close> is \<open>network.NewPeer\<close>, giving the client of the connection.\<close>

definition newGRPCChaincodeResolver ::
  "(PeerConf \<Rightarrow> orch_error + resolver_call) \<Rightarrow> DynamicChaincodeResolverConfig \<Rightarrow> orch_error + grpcChaincodeResolver" where
  "newGRPCChaincodeResolver dial cfg =
     rbind (require (Plain ''chaincode-resolver.dynamic.endpoint is required'') (dc_Endpoint cfg)) (\<lambda>e.
     let address = Endpoint_Address e in
     rbind (map_error (Wrapped (''chaincode resolver '' @ address))
              (dial \<lparr>pc_Address = address, pc_TLS = dc_TLS cfg\<rparr>)) (\<lambda>call.
     Inr \<lparr>gr_address = address, gr_call = call,
          gr_timeout = (if dc_Timeout cfg \<le> 0 then defaultResolverTimeout else dc_Timeout cfg)\<rparr>))"

definition grpc_Resolve ::
  "grpcChaincodeResolver \<Rightarrow> chaincodeResolverRequest \<Rightarrow> orch_error + ResolvedChaincodeConnection option" where
  "grpc_Resolve r req =
     (let def = cq_Definition req in
      rbind (map_error (Wrapped ''dynamic chaincode resolver grpc'')
        (gr_call r \<lparr>rq_Operation = OperationChaincodeResolution, rq_MSPID = cq_MSPID req, rq_RequesterMSP = [],
           rq_TargetMSP = [], rq_ChannelID = cq_ChannelID req, rq_Namespace = [], rq_Name = cd_Name def,
           rq_Version = cd_Version def, rq_Sequence = cd_Sequence def\<rparr>)) (\<lambda>answer.
      case answer of
        None \<Rightarrow> Inr None
      | Some out \<Rightarrow>
          (if \<not> rp_Found out then Inr None
           else if rp_Address out = [] then Inl (Plain ''dynamic chaincode resolver response missing address'')
           else if rp_Sequence out \<noteq> 0 \<and> rp_Sequence out \<noteq> cd_Sequence def
           then Inl (Plain (''dynamic chaincode resolver sequence mismatch: requested='' @
                  FormatInt (cd_Sequence def) @ '' response='' @ FormatInt (rp_Sequence out)))
           else if modeOrNone (rp_TLSMode out) \<noteq> ''none''
           then Inl (Plain (''dynamic chaincode resolver returned unsupported tls mode '' @ rp_TLSMode out))
           else Inr (Some (connectionFor req (rp_Address out) (modeOrNone (rp_TLSMode out)) (rp_PackageID out))))))"

record chaincodeConnectionResolvers =
  ck_static :: "StaticChaincodeConnectionConfig list option"
  ck_dynamic :: "grpcChaincodeResolver option"

definition newChaincodeConnectionResolver ::
  "(PeerConf \<Rightarrow> orch_error + resolver_call) \<Rightarrow> ChaincodeResolverConfig
    \<Rightarrow> orch_error + chaincodeConnectionResolvers option" where
  "newChaincodeConnectionResolver dial cfg =
     rbind (if rv_Static cfg = [] then Inr None
            else rbind (newStaticChaincodeResolver (rv_Static cfg)) (\<lambda>s. Inr (Some s))) (\<lambda>static.
     rbind (case rv_Dynamic cfg of
              None \<Rightarrow> Inr None
            | Some d \<Rightarrow> rbind (newGRPCChaincodeResolver dial d) (\<lambda>r. Inr (Some r))) (\<lambda>dynamic.
     if static = None \<and> dynamic = None then Inr None
     else Inr (Some \<lparr>ck_static = static, ck_dynamic = dynamic\<rparr>)))"

definition resolvers_Resolve ::
  "chaincodeConnectionResolvers \<Rightarrow> chaincodeResolverRequest
    \<Rightarrow> orch_error + ResolvedChaincodeConnection option" where
  "resolvers_Resolve r req =
     rbind (case ck_static r of None \<Rightarrow> Inr None | Some entries \<Rightarrow> static_Resolve entries req) (\<lambda>found.
     case found of
       Some conn \<Rightarrow> Inr (Some conn)
     | None \<Rightarrow> (case ck_dynamic r of None \<Rightarrow> Inr None | Some d \<Rightarrow> grpc_Resolve d req))"

subsection \<open>The lifecycle executor\<close>

type_synonym connection_resolver = "chaincodeResolverRequest \<Rightarrow> orch_error + ResolvedChaincodeConnection option"

record lifecycleExecutor =
  le_localMSPID :: string
  le_resolver :: "connection_resolver option"
  le_fallback :: "Connector option"

definition resolveCommittedDefinition ::
  "ctx \<Rightarrow> string \<Rightarrow> string \<Rightarrow> Store \<Rightarrow> orch_error + CommittedDefinition option" where
  "resolveCommittedDefinition ctx name version s =
     (if name \<noteq> [] then map_error StoreError (GetCommitted ctx name s)
      else rbind (map_error StoreError (ListCommitted ctx name [] s)) (\<lambda>definitions.
        case definitions of
          [] \<Rightarrow> Inr None
        | [d] \<Rightarrow> Inr (Some d)
        | _ \<Rightarrow> Inl (Plain (FormatUint (length definitions) @
                  '' committed definitions are active; chaincode name is required''))))"

definition resolveChaincodeConnection ::
  "lifecycleExecutor \<Rightarrow> ctx \<Rightarrow> string \<Rightarrow> ChaincodeDefinition \<Rightarrow> Store
    \<Rightarrow> (orch_error + ResolvedChaincodeConnection option) \<times> Store" where
  "resolveChaincodeConnection e ctx now def s =
     (case GetResolvedConnection ctx (le_localMSPID e) def s of
        Inl err \<Rightarrow> (Inl (StoreError err), s)
      | Inr (Some cached) \<Rightarrow> (Inr (Some cached), s)
      | Inr None \<Rightarrow>
      (case GetApproval ctx def (le_localMSPID e) s of
         Inl err \<Rightarrow> (Inl (StoreError err), s)
       | Inr approval \<Rightarrow>
       (case (case approval of Some a \<Rightarrow> if lifecycleDefinitionsMatch (ad_Definition a) def then Some a else None
                            | None \<Rightarrow> None) of
          Some a \<Rightarrow>
            (case PutResolvedConnection ctx now
                 \<lparr>rc_MSPID = le_localMSPID e, rc_Name = cd_Name def, rc_Version = cd_Version def,
                  rc_Sequence = cd_Sequence def, rc_Address = ad_PackageAddress a, rc_TLSMode = ''none'',
                  rc_PackageID = ad_PackageID a, rc_CachedAt = []\<rparr> s of
               (Inl err, s') \<Rightarrow> (Inl (StoreError err), s')
             | (Inr conn, s') \<Rightarrow> (Inr (Some conn), s'))
        | None \<Rightarrow>
          (case le_resolver e of
             None \<Rightarrow> (Inr None, s)
           | Some resolve \<Rightarrow>
             (case resolve \<lparr>cq_ChannelID = st_channelID s, cq_MSPID = le_localMSPID e, cq_Definition = def\<rparr> of
                Inl err \<Rightarrow> (Inl err, s)
              | Inr None \<Rightarrow> (Inr None, s)
              | Inr (Some resolved) \<Rightarrow>
                  (case PutResolvedConnection ctx now resolved s of
                     (Inl err, s') \<Rightarrow> (Inl (StoreError err), s')
                   | (Inr conn, s') \<Rightarrow> (Inr (Some conn), s')))))))"

definition lifecycleIdentityFromExecution :: "ExecutionContext \<Rightarrow> string \<times> string" where
  "lifecycleIdentityFromExecution c =
     (decoration (xc_decorations c) ''compat.chaincode_name'', decoration (xc_decorations c) ''compat.chaincode_version'')"

text \<open>
  The connection of an active definition: what the resolvers and the approval give, or else the installed
  package that \<open>ResolveCommittedPackage\<close> finds.  Its error is only logged when a fallback is configured.
\<close>

definition definitionConnection ::
  "lifecycleExecutor \<Rightarrow> ctx \<Rightarrow> string \<Rightarrow> ChaincodeDefinition \<Rightarrow> Store
    \<Rightarrow> (orch_error + ResolvedChaincodeConnection option) \<times> Store" where
  "definitionConnection e ctx now def s =
     (case resolveChaincodeConnection e ctx now def s of
        (Inl err, s') \<Rightarrow> (Inl err, s')
      | (Inr (Some conn), s') \<Rightarrow> (Inr (Some conn), s')
      | (Inr None, s') \<Rightarrow>
          (case ResolveCommittedPackage ctx (cd_Name def) (le_localMSPID e) s' of
             Inl err \<Rightarrow> (if le_fallback e = None then Inl (StoreError err) else Inr None, s')
           | Inr None \<Rightarrow> (Inr None, s')
           | Inr (Some (_, pkg)) \<Rightarrow>
               (Inr (Some \<lparr>rc_MSPID = le_localMSPID e, rc_Name = cd_Name def, rc_Version = cd_Version def,
                  rc_Sequence = cd_Sequence def, rc_Address = ip_Address pkg, rc_TLSMode = ''none'',
                  rc_PackageID = [], rc_CachedAt = []\<rparr>), s')))"

text \<open>The guard against a definition that changed since the invocation selected it.\<close>

definition definitionChanged :: "ExecutionContext \<Rightarrow> ChaincodeDefinition \<Rightarrow> bool" where
  "definitionChanged c def \<longleftrightarrow>
     (let sequence = decoration (xc_decorations c) ''compat.chaincode_sequence'' in
      sequence \<noteq> [] \<and>
      (sequence \<noteq> FormatInt (cd_Sequence def) \<or>
       decoration (xc_decorations c) ''compat.chaincode_version'' \<noteq> cd_Version def))"

text \<open>The connector an execution runs on; a nil store leaves the configured one.\<close>

definition chooseConnector ::
  "lifecycleExecutor \<Rightarrow> ctx \<Rightarrow> string \<Rightarrow> ExecutionContext \<Rightarrow> Store option
    \<Rightarrow> (orch_error + Connector) \<times> Store option" where
  "chooseConnector e ctx now c store =
     (case store of
        None \<Rightarrow> (require (Plain ''shim connector is not configured'') (le_fallback e), None)
      | Some s \<Rightarrow>
        (case resolveCommittedDefinition ctx (fst (lifecycleIdentityFromExecution c))
                (snd (lifecycleIdentityFromExecution c)) s of
           Inl err \<Rightarrow> (Inl err, Some s)
         | Inr None \<Rightarrow> (require (Plain ''shim connector is not configured'') (le_fallback e), Some s)
         | Inr (Some committed) \<Rightarrow>
           (let def = cm_Definition committed in
            if definitionChanged c def
            then (Inl (Plain ''chaincode definition changed before execution; retry the proposal''), Some s)
            else case definitionConnection e ctx now def s of
              (Inl err, s') \<Rightarrow> (Inl err, Some s')
            | (Inr None, s') \<Rightarrow>
                (require (Plain (''no chaincode connection resolved for local MSP '' @ le_localMSPID e @
                   '' chaincode '' @ cd_Name def @ '':'' @ cd_Version def @ '' sequence '' @
                   FormatInt (cd_Sequence def))) (le_fallback e), Some s')
            | (Inr (Some conn), s') \<Rightarrow>
                (if rc_TLSMode conn \<noteq> [] \<and> rc_TLSMode conn \<noteq> ''none''
                 then (Inl (Plain (''chaincode connection for '' @ cd_Name def @ '':'' @ cd_Version def @
                        '' uses unsupported tls mode '' @ rc_TLSMode conn)), Some s')
                 else (map_error (Wrapped ''create lifecycle chaincode connector'')
                         (NewConnector (rc_Address conn)), Some s')))))"

text \<open>
  \<open>lifecycleExecutor.Execute\<close>: \<open>sessions\<close> is what the network does for an execution on a connector.
\<close>

definition lifecycle_Execute ::
  "shim_lib \<Rightarrow> 'w query_client option \<Rightarrow> lifecycleExecutor \<Rightarrow> ctx \<Rightarrow> string \<Rightarrow> (Connector \<Rightarrow> shim_session)
    \<Rightarrow> Store option \<Rightarrow> Invocation \<Rightarrow> ExecutionContext \<times> 'w
    \<Rightarrow> (orch_error + ExecutionResult \<times> View option) option \<times> (ExecutionContext \<times> 'w) \<times> Store option" where
  "lifecycle_Execute slib reader e ctx now sessions store invoc st =
     (case chooseConnector e ctx now (fst st) store of
        (Inl err, store') \<Rightarrow> (Some (Inl err), st, store')
      | (Inr connector, store') \<Rightarrow>
          (let (result, st') = ServiceExecutor slib reader (Some connector) (sessions connector) invoc st
           in (result, st', store')))"

subsection \<open>Evidence of an execution\<close>

definition applyResolvedBinding ::
  "LifecycleExecutionBinding \<Rightarrow> ResolvedChaincodeConnection \<Rightarrow> LifecycleExecutionBinding" where
  "applyResolvedBinding b conn =
     (let b = (if xb_PackageAddress b = [] then b\<lparr>xb_PackageAddress := rc_Address conn\<rparr> else b) in
      if xb_PackageID b = [] then b\<lparr>xb_PackageID := rc_PackageID conn\<rparr> else b)"

text \<open>What the approval of the local organization adds to the evidence.\<close>

definition applyApproval ::
  "ctx \<Rightarrow> ChaincodeDefinition \<Rightarrow> string \<Rightarrow> Store \<Rightarrow> LifecycleExecutionBinding \<Rightarrow> LifecycleExecutionBinding" where
  "applyApproval ctx def localMSP s b =
     (case GetApproval ctx def localMSP s of
        Inr (Some a) \<Rightarrow>
          (if lifecycleDefinitionsMatch (ad_Definition a) def
           then b\<lparr>xb_PackageID := ad_PackageID a, xb_PackageAddress := ad_PackageAddress a\<rparr> else b)
      | _ \<Rightarrow> b)"

definition applyCached ::
  "ctx \<Rightarrow> ChaincodeDefinition \<Rightarrow> string \<Rightarrow> Store \<Rightarrow> LifecycleExecutionBinding \<Rightarrow> LifecycleExecutionBinding" where
  "applyCached ctx def localMSP s b =
     (case GetResolvedConnection ctx localMSP def s of
        Inr (Some cached) \<Rightarrow> applyResolvedBinding b cached
      | _ \<Rightarrow> b)"

definition applyResolver ::
  "connection_resolver option \<Rightarrow> string \<Rightarrow> ctx \<Rightarrow> string \<Rightarrow> ChaincodeDefinition \<Rightarrow> string \<Rightarrow> Store
    \<Rightarrow> LifecycleExecutionBinding \<Rightarrow> LifecycleExecutionBinding \<times> Store" where
  "applyResolver resolver channelID ctx now def localMSP s b =
     (if xb_PackageID b \<noteq> [] \<and> xb_PackageAddress b \<noteq> [] then (b, s)
      else case resolver of
        None \<Rightarrow> (b, s)
      | Some resolve \<Rightarrow>
          (case resolve \<lparr>cq_ChannelID = channelID, cq_MSPID = localMSP, cq_Definition = def\<rparr> of
             Inr (Some resolved) \<Rightarrow>
               (case PutResolvedConnection ctx now resolved s of
                  (Inr cached, s') \<Rightarrow> (applyResolvedBinding b cached, s')
                | (Inl _, s') \<Rightarrow> (applyResolvedBinding b resolved, s'))
           | _ \<Rightarrow> (b, s)))"

definition lifecycleExecutionBinding ::
  "connection_resolver option \<Rightarrow> Config \<Rightarrow> ctx \<Rightarrow> string \<Rightarrow> InvocationRequest \<Rightarrow> string \<Rightarrow> Store option
    \<Rightarrow> LifecycleExecutionBinding option \<times> Store option" where
  "lifecycleExecutionBinding resolver cfg ctx now req namespace store =
     (case store of
        None \<Rightarrow> (None, None)
      | Some s \<Rightarrow>
        (let localMSP = (case cf_MspID cfg of None \<Rightarrow> [] | Some m \<Rightarrow> m) in
         if ir_ChaincodeName req = [] \<or> localMSP = [] then (None, Some s)
         else case requestDefinition ctx s req of
           Inr (Some committed) \<Rightarrow>
             (let def = cm_Definition committed;
                  b = \<lparr>xb_MSPID = localMSP, xb_Namespace = namespace, xb_ChaincodeName = cd_Name def,
                       xb_ChaincodeVersion = cd_Version def, xb_Sequence = cd_Sequence def,
                       xb_PackageID = [], xb_PackageAddress = []\<rparr>;
                  (b', s') = applyResolver resolver (cf_ChannelID cfg) ctx now def localMSP s
                    (applyCached ctx def localMSP s (applyApproval ctx def localMSP s b))
              in (Some b', Some s'))
         | _ \<Rightarrow> (None, Some s)))"

definition lifecycleBindings ::
  "helperExecutionResult \<Rightarrow> helperExecutionResult list \<Rightarrow> LifecycleExecutionBinding list" where
  "lifecycleBindings local remote =
     sort_key xb_MSPID (concat (map (\<lambda>r. case hr_Binding r of None \<Rightarrow> [] | Some b \<Rightarrow> [b]) (local # remote)))"

text \<open>JSON members of fields tagged \<open>omitempty\<close>.\<close>

definition omit_string :: "string \<Rightarrow> string \<Rightarrow> (string \<times> json) list" where
  "omit_string tag s = (if s = [] then [] else [(tag, JStr s)])"

definition omit_int :: "string \<Rightarrow> int \<Rightarrow> (string \<times> json) list" where
  "omit_int tag x = (if x = 0 then [] else [(tag, JNum (FormatInt x))])"

definition execution_binding_json :: "LifecycleExecutionBinding \<Rightarrow> json" where
  "execution_binding_json b = JObj (obj (
     omit_string ''msp_id'' (xb_MSPID b) @ omit_string ''namespace'' (xb_Namespace b) @
     omit_string ''chaincode_name'' (xb_ChaincodeName b) @
     omit_string ''chaincode_version'' (xb_ChaincodeVersion b) @ omit_int ''sequence'' (xb_Sequence b) @
     omit_string ''package_id'' (xb_PackageID b) @ omit_string ''package_address'' (xb_PackageAddress b)))"

definition execution_binding_setters :: "LifecycleExecutionBinding setters" where
  "execution_binding_setters = [
     (''msp_id'', set_string (\<lambda>s. xb_MSPID_update (\<lambda>_. s))),
     (''namespace'', set_string (\<lambda>s. xb_Namespace_update (\<lambda>_. s))),
     (''chaincode_name'', set_string (\<lambda>s. xb_ChaincodeName_update (\<lambda>_. s))),
     (''chaincode_version'', set_string (\<lambda>s. xb_ChaincodeVersion_update (\<lambda>_. s))),
     (''sequence'', set_int64 (\<lambda>x. xb_Sequence_update (\<lambda>_. x))),
     (''package_id'', set_string (\<lambda>s. xb_PackageID_update (\<lambda>_. s))),
     (''package_address'', set_string (\<lambda>s. xb_PackageAddress_update (\<lambda>_. s)))]"

definition zeroBinding :: LifecycleExecutionBinding where
  "zeroBinding = \<lparr>xb_MSPID = [], xb_Namespace = [], xb_ChaincodeName = [], xb_ChaincodeVersion = [],
     xb_Sequence = 0, xb_PackageID = [], xb_PackageAddress = []\<rparr>"

definition encodeLifecycleBinding :: "LifecycleExecutionBinding \<Rightarrow> string" where
  "encodeLifecycleBinding b = b64_encode (jprint (execution_binding_json b))"

definition decodeLifecycleBinding :: "string \<Rightarrow> orch_error + LifecycleExecutionBinding" where
  "decodeLifecycleBinding v =
     rbind (require (Plain ''illegal base64 data'') (b64_decode v)) (\<lambda>raw.
     require (Plain ''decode lifecycle binding'') (Unmarshal execution_binding_setters zeroBinding raw))"

text \<open>The value of the response header, and the binding the first header value holds.\<close>

definition setLifecycleBindingMetadata :: "LifecycleExecutionBinding option \<Rightarrow> string list" where
  "setLifecycleBindingMetadata b = (case b of None \<Rightarrow> [] | Some x \<Rightarrow> [encodeLifecycleBinding x])"

definition lifecycleBindingFromMetadata :: "string list \<Rightarrow> orch_error + LifecycleExecutionBinding option" where
  "lifecycleBindingFromMetadata values =
     (case values of
        [] \<Rightarrow> Inr None
      | v # _ \<Rightarrow> rbind (decodeLifecycleBinding v) (\<lambda>b. Inr (Some b)))"

end
