(* ===== verification/Connection_Guarantees.thy ===== *)
theory Connection_Guarantees
  imports Connection_Resolution Store_Correctness
begin

section \<open>The chaincode that runs is the one the active definition names\<close>

text \<open>
  The contract of the \<open>chaincodeConnectionResolver\<close> interface is that an answer is for the definition
  that was asked for; the configured resolvers keep it.  Under it a resolved connection belongs to its
  definition and stays the answer, an execution never runs on an endpoint of another definition, and
  the evidence recorded for an execution names the endpoint it ran on.
\<close>

subsection \<open>What resolvers promise\<close>

definition belongs :: "string \<Rightarrow> ChaincodeDefinition \<Rightarrow> ResolvedChaincodeConnection \<Rightarrow> bool" where
  "belongs msp def conn \<longleftrightarrow> rc_MSPID conn = msp \<and> rc_Name conn = cd_Name def \<and>
     rc_Version conn = cd_Version def \<and> rc_Sequence conn = cd_Sequence def"

lemma definitionsMatch_eq [simp]: "lifecycleDefinitionsMatch a b \<longleftrightarrow> a = b"
  by (cases a; cases b) (auto simp: lifecycleDefinitionsMatch_def)

lemma connectionFor_belongs [simp]:
  "belongs (cq_MSPID req) (cq_Definition req) (connectionFor req address mode packageID)"
  by (simp add: belongs_def connectionFor_def)

lemma GetResolved_belongs:
  "GetResolvedConnection ctx msp def s = Inr (Some conn) \<Longrightarrow> belongs msp def conn"
  by (auto simp: GetResolvedConnection_def rbind_Inr_iff resolved_key_def belongs_def
      split: if_splits option.splits dest!: tbl_get_Some)

text \<open>A stored connection answers from then on, in every later context that is live.\<close>

lemma Put_then_Get:
  assumes "PutResolvedConnection ctx now conn s = (Inr stored, s')" and "belongs msp def conn"
    and "valid_definition def"
  shows "GetResolvedConnection None msp def s' = Inr (Some stored) \<and> belongs msp def stored \<and>
    rc_Address stored = rc_Address conn \<and> rc_PackageID stored = rc_PackageID conn"
proof -
  have "GetResolvedConnection None (rc_MSPID conn) def s' = Inr (Some stored)" "rc_Address stored = rc_Address conn"
    using PutResolvedConnection_get[OF assms(1), of def] assms(2,3)
    by (simp_all add: belongs_def valid_definition_def)
  moreover have "rc_PackageID stored = rc_PackageID conn"
    using assms(1) by (auto simp: PutResolvedConnection_def Let_def split: if_splits sum.splits)
  ultimately show ?thesis using GetResolved_belongs assms(2) by (metis belongs_def)
qed

lemma Put_frame:
  assumes "PutResolvedConnection ctx now conn s = (r, s')"
  shows "st_installed s' = st_installed s \<and> st_approved s' = st_approved s \<and> st_committed s' = st_committed s \<and>
    st_channelID s' = st_channelID s \<and> st_open s' = st_open s"
  using assms by (auto simp: PutResolvedConnection_def Let_def split: if_splits sum.splits)

text \<open>The connection of an approval.\<close>

definition approval_connection :: "string \<Rightarrow> ApprovedDefinition \<Rightarrow> ResolvedChaincodeConnection" where
  "approval_connection msp a = \<lparr>rc_MSPID = msp, rc_Name = cd_Name (ad_Definition a),
     rc_Version = cd_Version (ad_Definition a), rc_Sequence = cd_Sequence (ad_Definition a),
     rc_Address = ad_PackageAddress a, rc_TLSMode = ''none'', rc_PackageID = ad_PackageID a, rc_CachedAt = []\<rparr>"

definition approved_for :: "Store \<Rightarrow> string \<Rightarrow> ChaincodeDefinition \<Rightarrow> ApprovedDefinition option" where
  "approved_for s msp def =
     (case approval_of s (cd_Name def) (cd_Sequence def) msp of
        Some a \<Rightarrow> if ad_Definition a = def then Some a else None
      | None \<Rightarrow> None)"

lemma approved_for_same: "approved_for s msp def = Some a \<Longrightarrow> ad_Definition a = def"
  by (auto simp: approved_for_def split: option.splits if_splits)

lemma approved_for_frame:
  "st_installed s' = st_installed s \<Longrightarrow> st_approved s' = st_approved s \<Longrightarrow>
    approved_for s' msp def = approved_for s msp def"
proof -
  assume "st_installed s' = st_installed s" "st_approved s' = st_approved s"
  then have "approval_of s' = approval_of s" by (simp add: approval_of_def fun_eq_iff cong: option.case_cong)
  then show ?thesis by (simp add: approved_for_def)
qed

text \<open>Resolution by cases: the cache, the approval of this organization, the resolver.\<close>

lemma resolve_cases:
  assumes "resolveChaincodeConnection e ctx now def s = (Inr (Some conn), s')"
  shows "valid_definition def \<and> ctx = None \<and> st_open s \<and> le_localMSPID e \<noteq> [] \<and>
    (GetResolvedConnection ctx (le_localMSPID e) def s = Inr (Some conn) \<and> s' = s \<or>
     GetResolvedConnection ctx (le_localMSPID e) def s = Inr None \<and>
     (\<exists>asked. PutResolvedConnection ctx now asked s = (Inr conn, s') \<and>
       (case approved_for s (le_localMSPID e) def of
          Some a \<Rightarrow> asked = approval_connection (le_localMSPID e) a
        | None \<Rightarrow> (\<exists>resolve. le_resolver e = Some resolve \<and>
            resolve \<lparr>cq_ChannelID = st_channelID s, cq_MSPID = le_localMSPID e, cq_Definition = def\<rparr> = Inr (Some asked)))))"
proof (cases "GetResolvedConnection ctx (le_localMSPID e) def s")
  case (Inl err)
  then show ?thesis using assms by (simp add: resolveChaincodeConnection_def)
next
  case (Inr found)
  have live: "valid_definition def \<and> ctx = None \<and> st_open s \<and> le_localMSPID e \<noteq> []"
    using Inr by (auto simp: GetResolvedConnection_def rbind_Inr_iff valid_definition_def split: if_splits)
  show ?thesis
  proof (cases found)
    case (Some c)
    then show ?thesis using assms Inr live by (simp add: resolveChaincodeConnection_def)
  next
    case None
    have ap: "GetApproval ctx def (le_localMSPID e) s = Inr (approval_of s (cd_Name def) (cd_Sequence def) (le_localMSPID e))"
      using live by (simp add: GetApproval_of rbind_def validateDefinition_def valid_definition_def)
    have chosen: "(case approval_of s (cd_Name def) (cd_Sequence def) (le_localMSPID e) of
        Some a \<Rightarrow> if lifecycleDefinitionsMatch (ad_Definition a) def then Some a else None | None \<Rightarrow> None) =
        approved_for s (le_localMSPID e) def"
      by (simp add: approved_for_def split: option.split)
    show ?thesis
    proof (cases "approved_for s (le_localMSPID e) def")
      case (Some a)
      have "PutResolvedConnection ctx now (approval_connection (le_localMSPID e) a) s = (Inr conn, s')"
        using assms Inr None ap chosen Some approved_for_same[OF Some]
        by (auto simp: resolveChaincodeConnection_def approval_connection_def split: prod.splits sum.splits)
      then show ?thesis using Inr None live Some by auto
    next
      case none: None
      then show ?thesis using assms Inr None live ap chosen
        by (auto simp: resolveChaincodeConnection_def split: prod.splits sum.splits option.splits)
    qed
  qed
qed

lemma resolve_frame:
  assumes "resolveChaincodeConnection e ctx now def s = (r, s')"
  shows "st_installed s' = st_installed s \<and> st_approved s' = st_approved s \<and> st_committed s' = st_committed s \<and>
    st_channelID s' = st_channelID s \<and> st_open s' = st_open s"
  using assms by (auto simp: resolveChaincodeConnection_def split: sum.splits option.splits prod.splits
      dest: Put_frame)

locale answering_resolver =
  fixes resolve :: connection_resolver
  assumes answer: "resolve req = Inr (Some conn) \<Longrightarrow> belongs (cq_MSPID req) (cq_Definition req) conn"
begin

text \<open>A resolved connection is for the definition, and it is what every later resolution gives.\<close>

lemma resolved_once:
  assumes "le_resolver e = Some resolve \<or> le_resolver e = None"
    and "resolveChaincodeConnection e ctx now def s = (Inr (Some conn), s')"
  shows "belongs (le_localMSPID e) def conn \<and> GetResolvedConnection None (le_localMSPID e) def s' = Inr (Some conn)"
proof -
  note c = resolve_cases[OF assms(2)]
  show ?thesis
  proof (cases "GetResolvedConnection ctx (le_localMSPID e) def s = Inr (Some conn)")
    case True
    then show ?thesis using c GetResolved_belongs by auto
  next
    case False
    then obtain asked where put: "PutResolvedConnection ctx now asked s = (Inr conn, s')"
        and asked: "case approved_for s (le_localMSPID e) def of
          Some a \<Rightarrow> asked = approval_connection (le_localMSPID e) a
        | None \<Rightarrow> (\<exists>resolve. le_resolver e = Some resolve \<and>
            resolve \<lparr>cq_ChannelID = st_channelID s, cq_MSPID = le_localMSPID e, cq_Definition = def\<rparr> = Inr (Some asked))"
      using c by blast
    have "belongs (le_localMSPID e) def asked"
    proof (cases "approved_for s (le_localMSPID e) def")
      case (Some a)
      then show ?thesis using asked approved_for_same[OF Some] by (simp add: belongs_def approval_connection_def)
    next
      case None
      then have "resolve \<lparr>cq_ChannelID = st_channelID s, cq_MSPID = le_localMSPID e, cq_Definition = def\<rparr> = Inr (Some asked)"
        using asked assms(1) by auto
      then show ?thesis using answer by fastforce
    qed
    then show ?thesis using Put_then_Get[OF put] c by blast
  qed
qed

end

interpretation static_answers: answering_resolver "static_Resolve entries" for entries
  by unfold_locales (auto simp: static_Resolve_def split: option.splits)

interpretation grpc_answers: answering_resolver "grpc_Resolve r" for r
  by unfold_locales (auto simp: grpc_Resolve_def Let_def rbind_Inr_iff split: option.splits if_splits)

interpretation configured: answering_resolver "resolvers_Resolve r" for r
proof unfold_locales
  fix req conn
  assume "resolvers_Resolve r req = Inr (Some conn)"
  then show "belongs (cq_MSPID req) (cq_Definition req) conn"
    using static_answers.answer[of _ req conn] grpc_answers.answer[of _ req conn]
    by (auto simp: resolvers_Resolve_def rbind_Inr_iff split: option.splits)
qed

text \<open>The resolver of the service is the one built from its configuration, if any.\<close>

definition uses_configured :: "lifecycleExecutor \<Rightarrow> bool" where
  "uses_configured e \<longleftrightarrow> le_resolver e = None \<or> (\<exists>r. le_resolver e = Some (resolvers_Resolve r))"

lemma configured_resolution:
  assumes "uses_configured e" and "resolveChaincodeConnection e ctx now def s = (Inr (Some conn), s')"
  shows "belongs (le_localMSPID e) def conn \<and> GetResolvedConnection None (le_localMSPID e) def s' = Inr (Some conn)"
  using assms configured.resolved_once unfolding uses_configured_def by metis

subsection \<open>The endpoint an execution runs on\<close>

text \<open>
  When neither the cache, an approval nor the resolver gives a connection, the installed package of the
  active definition is not found either: \<open>ResolveCommittedPackage\<close> needs the approval that is missing.
\<close>

lemma resolve_none:
  assumes "resolveChaincodeConnection e ctx now def s = (Inr None, s')"
  shows "s' = s \<and> GetResolvedConnection ctx (le_localMSPID e) def s = Inr None \<and>
    approved_for s (le_localMSPID e) def = None"
proof -
  have none: "GetResolvedConnection ctx (le_localMSPID e) def s = Inr None"
    using assms by (auto simp: resolveChaincodeConnection_def split: sum.splits option.splits)
  then have "valid_definition def \<and> ctx = None \<and> st_open s"
    by (auto simp: GetResolvedConnection_def rbind_Inr_iff valid_definition_def split: if_splits)
  then have ap: "GetApproval ctx def (le_localMSPID e) s =
      Inr (approval_of s (cd_Name def) (cd_Sequence def) (le_localMSPID e))"
    using none by (simp add: GetApproval_of rbind_def validateDefinition_def valid_definition_def
        GetResolvedConnection_def split: if_splits)
  show ?thesis using assms none ap
    by (auto simp: resolveChaincodeConnection_def approved_for_def split: sum.splits option.splits if_splits prod.splits)
qed

lemma definitionConnection_cases:
  assumes "store_inv s" and "uses_configured e" and "active s (cd_Name def) = Some c" and "cm_Definition c = def"
    and "definitionConnection e ctx now def s = (Inr found, s')"
  shows "case found of
      Some conn \<Rightarrow> belongs (le_localMSPID e) def conn \<and> resolveChaincodeConnection e ctx now def s = (Inr (Some conn), s') \<and>
        GetResolvedConnection None (le_localMSPID e) def s' = Inr (Some conn)
    | None \<Rightarrow> s' = s \<and> GetResolvedConnection ctx (le_localMSPID e) def s = Inr None \<and>
        approved_for s (le_localMSPID e) def = None"
proof (cases "resolveChaincodeConnection e ctx now def s")
  case (Pair r s1)
  show ?thesis
  proof (cases r)
    case (Inl err)
    then show ?thesis using assms(5) Pair by (simp add: definitionConnection_def)
  next
    case (Inr got)
    show ?thesis
    proof (cases got)
      case (Some conn)
      then have "found = Some conn" "s' = s1" using assms(5) Pair Inr by (simp_all add: definitionConnection_def)
      then show ?thesis using configured_resolution[OF assms(2)] Pair Inr Some by auto
    next
      case None
      note n = resolve_none[of e ctx now def s s1, OF Pair[unfolded Inr None]]
      have "cd_Name def \<noteq> []"
        using assms(1,3,4) by (auto simp: active_def store_inv_def committed_ok_def scanCommitted_def dest!: tbl_get_Some)
      then have "ResolveCommittedPackage ctx (cd_Name def) (le_localMSPID e) s \<noteq> Inr (Some (c', p))" for c' p
        using ResolveCommittedPackage_sound[OF assms(1), of ctx "cd_Name def" "le_localMSPID e" c' p] n assms(3,4)
        by (auto simp: approved_for_def split: option.splits)
      then show ?thesis using assms(5) Pair Inr None n
        by (auto simp: definitionConnection_def split: sum.splits option.splits if_splits)
    qed
  qed
qed

lemma NewConnector_Inr: "NewConnector a = Inr k \<longleftrightarrow> a \<noteq> [] \<and> k = \<lparr>kn_endpoint = a\<rparr>"
  by (auto simp: NewConnector_def)

lemma resolveCommitted_active:
  assumes "store_inv s" and "resolveCommittedDefinition ctx name version s = Inr (Some c)"
  shows "active s (cd_Name (cm_Definition c)) = Some c \<and> (name \<noteq> [] \<longrightarrow> cd_Name (cm_Definition c) = name)"
proof (cases "name = []")
  case True
  obtain cs where cs: "ListCommitted ctx [] [] s = Inr cs"
    using assms(2) True by (cases "ListCommitted ctx [] [] s")
      (auto simp: resolveCommittedDefinition_def rbind_def map_error_def)
  then have "cs = [c]"
    using assms(2) True by (auto simp: resolveCommittedDefinition_def rbind_def map_error_def
        split: list.splits)
  then show ?thesis using ListCommitted_active(1)[OF assms(1) cs] True by simp
next
  case False
  then have "active s name = Some c"
    using assms(2) by (auto simp: resolveCommittedDefinition_def GetCommitted_active map_error_def rbind_Inr_iff
        split: sum.splits)
  moreover have "cd_Name (cm_Definition c) = name"
    using calculation by (auto simp: active_def scanCommitted_def dest!: tbl_get_Some)
  ultimately show ?thesis by simp
qed

text \<open>
  A cached connection agrees with the approval of this organization: resolution consults the approval
  first, and a new approval drops the connection cached before it.
\<close>

definition cache_agrees :: "Store \<Rightarrow> string \<Rightarrow> ChaincodeDefinition \<Rightarrow> bool" where
  "cache_agrees s msp def \<longleftrightarrow> (\<forall>a conn. approved_for s msp def = Some a \<longrightarrow>
     GetResolvedConnection None msp def s = Inr (Some conn) \<longrightarrow> rc_Address conn = ad_PackageAddress a)"

lemma resolve_agrees:
  assumes "uses_configured e" and "cache_agrees s (le_localMSPID e) def"
    and "resolveChaincodeConnection e ctx now def s = (Inr (Some conn), s')"
  shows "cache_agrees s' (le_localMSPID e) def"
proof -
  note c = resolve_cases[OF assms(3)]
  have got: "GetResolvedConnection None (le_localMSPID e) def s' = Inr (Some conn)"
    using configured_resolution[OF assms(1,3)] by simp
  have same: "approved_for s' (le_localMSPID e) def = approved_for s (le_localMSPID e) def"
    using resolve_frame[OF assms(3)] by (intro approved_for_frame) simp_all
  show ?thesis
  proof (cases "GetResolvedConnection ctx (le_localMSPID e) def s = Inr (Some conn) \<and> s' = s")
    case True
    then show ?thesis using assms(2) by simp
  next
    case False
    then obtain asked where put: "PutResolvedConnection ctx now asked s = (Inr conn, s')"
      and asked: "\<And>a. approved_for s (le_localMSPID e) def = Some a \<Longrightarrow> asked = approval_connection (le_localMSPID e) a"
      using c by fastforce
    have "rc_Address conn = rc_Address asked"
      using put by (auto simp: PutResolvedConnection_def Let_def split: if_splits sum.splits)
    then show ?thesis unfolding cache_agrees_def same
      using asked got by (auto simp: approval_connection_def)
  qed
qed

text \<open>What the connector of an execution stands for.\<close>

definition runs_on :: "lifecycleExecutor \<Rightarrow> ExecutionContext \<Rightarrow> Store \<Rightarrow> Store \<Rightarrow> Connector \<Rightarrow> bool" where
  "runs_on e c s s' k \<longleftrightarrow>
     (\<exists>d conn. active s (cd_Name (cm_Definition d)) = Some d \<and>
       (fst (lifecycleIdentityFromExecution c) \<noteq> [] \<longrightarrow>
          cd_Name (cm_Definition d) = fst (lifecycleIdentityFromExecution c)) \<and>
       \<not> definitionChanged c (cm_Definition d) \<and>
       belongs (le_localMSPID e) (cm_Definition d) conn \<and> kn_endpoint k = rc_Address conn \<and> kn_endpoint k \<noteq> [] \<and>
       (cache_agrees s (le_localMSPID e) (cm_Definition d) \<longrightarrow> cache_agrees s' (le_localMSPID e) (cm_Definition d)) \<and>
       GetResolvedConnection None (le_localMSPID e) (cm_Definition d) s' = Inr (Some conn))"

definition nothing_known :: "lifecycleExecutor \<Rightarrow> ctx \<Rightarrow> ExecutionContext \<Rightarrow> Store \<Rightarrow> bool" where
  "nothing_known e ctx c s \<longleftrightarrow>
     (\<forall>d. resolveCommittedDefinition ctx (fst (lifecycleIdentityFromExecution c))
        (snd (lifecycleIdentityFromExecution c)) s = Inr (Some d) \<longrightarrow>
        GetResolvedConnection ctx (le_localMSPID e) (cm_Definition d) s = Inr None \<and>
        approved_for s (le_localMSPID e) (cm_Definition d) = None)"

lemma chosen_connector:
  assumes "store_inv s" and "uses_configured e" and "chooseConnector e ctx now c (Some s) = (Inr k, s1)"
  shows "\<exists>s'. s1 = Some s' \<and> (runs_on e c s s' k \<or> le_fallback e = Some k \<and> s' = s \<and> nothing_known e ctx c s)"
proof -
  let ?id = "lifecycleIdentityFromExecution c"
  show ?thesis
  proof (cases "resolveCommittedDefinition ctx (fst ?id) (snd ?id) s")
    case (Inl err)
    then show ?thesis using assms(3) by (simp add: chooseConnector_def)
  next
    case (Inr found)
    show ?thesis
    proof (cases found)
      case None
      then show ?thesis using assms(3) Inr
        by (auto simp: chooseConnector_def nothing_known_def require_def split: option.splits)
    next
      case (Some d)
      let ?def = "cm_Definition d"
      note act = resolveCommitted_active[OF assms(1) Inr[unfolded Some]]
      have same: "\<not> definitionChanged c ?def"
        using assms(3) Inr Some by (auto simp: chooseConnector_def Let_def split: if_splits)
      obtain r s2 where dc: "definitionConnection e ctx now ?def s = (r, s2)" by fastforce
      show ?thesis
      proof (cases r)
        case (Inl err)
        then show ?thesis using assms(3) Inr Some same dc by (simp add: chooseConnector_def Let_def)
      next
        case r: (Inr got)
        note dcc = definitionConnection_cases[OF assms(1,2) conjunct1[OF act] refl dc[unfolded r]]
        show ?thesis
        proof (cases got)
          case None
          then have "le_fallback e = Some k" "s1 = Some s2"
            using assms(3) Inr Some same dc r by (auto simp: chooseConnector_def Let_def require_def split: option.splits)
          then show ?thesis using dcc None Inr Some by (simp add: nothing_known_def)
        next
          case conn: (Some conn)
          then have "NewConnector (rc_Address conn) = Inr k" "s1 = Some s2"
            using assms(3) Inr Some same dc r
            by (auto simp: chooseConnector_def Let_def map_error_def split: if_splits sum.splits)
          then have "runs_on e c s s2 k"
            unfolding runs_on_def using dcc conn act same resolve_agrees[OF assms(2)]
            by (intro exI[of _ d] exI[of _ conn]) (auto simp: NewConnector_Inr)
          then show ?thesis using \<open>s1 = Some s2\<close> by simp
        qed
      qed
    qed
  qed
qed

text \<open>An execution runs on the endpoint cached for the active definition it was decorated with, found for
  this organization and that very version and sequence; the configured fallback is used only when no
  connection, no matching approval and no answer of the resolver exists for the definition, or none is
  active.\<close>

theorem execution_endpoint:
  assumes "store_inv s" and "uses_configured e" and "chooseConnector e ctx now c (Some s) = (Inr k, s1)"
  shows "\<exists>s'. s1 = Some s' \<and> (runs_on e c s s' k \<or> le_fallback e = Some k \<and> s' = s \<and> nothing_known e ctx c s)"
  by (rule chosen_connector[OF assms])

definition sample_executor :: lifecycleExecutor where
  "sample_executor = \<lparr>le_localMSPID = ''Org1'', le_resolver = None, le_fallback = None\<rparr>"

definition sample_decorated :: ExecutionContext where
  "sample_decorated = (NewExecutionContext ''basic'')\<lparr>xc_decorations :=
     [(''compat.chaincode_name'', ''basic''), (''compat.chaincode_version'', ''1.0''),
      (''compat.chaincode_sequence'', ''1'')]\<rparr>"

lemma sample_run:
  "chooseConnector sample_executor None ''t3'' sample_decorated (Some sample_committed) =
     (Inr \<lparr>kn_endpoint = ip_Address sample_package\<rparr>, Some (sample_committed\<lparr>st_resolved :=
        [\<lparr>rc_MSPID = ''Org1'', rc_Name = ''basic'', rc_Version = ''1.0'', rc_Sequence = 1,
          rc_Address = ip_Address sample_package, rc_TLSMode = ''none'', rc_PackageID = ''basic:1'',
          rc_CachedAt = ''t3''\<rparr>]\<rparr>))"
  by code_simp

theorem execution_endpoint_witness:
  "store_inv sample_committed \<and> (\<exists>s'. runs_on sample_executor sample_decorated sample_committed s'
     \<lparr>kn_endpoint = ip_Address sample_package\<rparr>)"
proof -
  have s: "store_inv sample_committed" using sample_committed_live by (simp add: live_def)
  have "uses_configured sample_executor" by (simp add: uses_configured_def sample_executor_def)
  from execution_endpoint[OF s this sample_run] s show ?thesis by (auto simp: sample_executor_def)
qed

subsection \<open>The evidence names the endpoint of the execution\<close>

lemma applied_address:
  "xb_PackageAddress b \<noteq> [] \<Longrightarrow> xb_PackageAddress (applyResolvedBinding b conn) = xb_PackageAddress b"
  "xb_PackageAddress b = [] \<Longrightarrow> xb_PackageAddress (applyResolvedBinding b conn) = rc_Address conn"
  by (simp_all add: applyResolvedBinding_def Let_def)

definition names :: "LifecycleExecutionBinding \<Rightarrow> string \<times> string \<times> string \<times> string \<times> int" where
  "names b = (xb_MSPID b, xb_Namespace b, xb_ChaincodeName b, xb_ChaincodeVersion b, xb_Sequence b)"

lemma applied_names [simp]:
  "names (applyResolvedBinding b conn) = names b" "names (applyApproval ctx def msp s b) = names b"
  "names (applyCached ctx def msp s b) = names b"
  by (simp_all add: names_def applyResolvedBinding_def applyApproval_def applyCached_def Let_def
      split: sum.splits option.splits)

lemma applyResolver_keeps:
  assumes "applyResolver resolver channelID ctx now def msp s b = (b', s')"
  shows "names b' = names b \<and> (xb_PackageAddress b \<noteq> [] \<longrightarrow> xb_PackageAddress b' = xb_PackageAddress b)"
  using assms by (auto simp: applyResolver_def applied_address split: if_splits option.splits sum.splits prod.splits)

lemma evidence_address:
  assumes "cache_agrees s msp def" and "GetResolvedConnection None msp def s = Inr (Some conn)"
    and "xb_PackageAddress b = []"
  shows "xb_PackageAddress (applyCached None def msp s (applyApproval None def msp s b)) = rc_Address conn"
proof -
  have live: "valid_definition def" "st_open s" "msp \<noteq> []"
    using assms(2) by (auto simp: GetResolvedConnection_def rbind_Inr_iff valid_definition_def split: if_splits)
  then have ap: "GetApproval None def msp s = Inr (approval_of s (cd_Name def) (cd_Sequence def) msp)"
    by (simp add: GetApproval_of rbind_def validateDefinition_def valid_definition_def)
  show ?thesis
  proof (cases "approved_for s msp def")
    case (Some a)
    then have "approval_of s (cd_Name def) (cd_Sequence def) msp = Some a" "ad_Definition a = def"
      by (auto simp: approved_for_def split: option.splits if_splits)
    moreover have "rc_Address conn = ad_PackageAddress a" using assms(1,2) Some by (simp add: cache_agrees_def)
    ultimately show ?thesis using assms(2)
      by (cases "ad_PackageAddress a = []") (simp_all add: applyCached_def applyApproval_def ap applied_address)
  next
    case None
    then have "applyApproval None def msp s b = b"
      by (auto simp: applyApproval_def ap approved_for_def split: option.splits if_splits)
    then show ?thesis using assms by (simp add: applyCached_def applied_address)
  qed
qed

subsection \<open>The cache of a running service\<close>

text \<open>
  A service changes its store through the store's own calls, through executions and through the recording of
  evidence.  Packages are content-addressed: the package ID holds the hash of the archive that also holds the
  connection address, so \<open>address_of\<close> gives the address a package ID stands for, and inspection rejects
  archives without one.  A request carries a definition that was active when it was selected; since then the
  active definition is the same or a later one.
\<close>

fun content_addressed :: "(string \<Rightarrow> string) \<Rightarrow> store_op \<Rightarrow> bool" where
  "content_addressed address_of (OpInstall ctx now pkg) \<longleftrightarrow>
     ip_Address pkg = address_of (ip_PackageID pkg) \<and> ip_Address pkg \<noteq> []"
| "content_addressed address_of (OpPutConnection ctx now conn) \<longleftrightarrow> False"
| "content_addressed address_of oper \<longleftrightarrow> True"

definition selected :: "Store \<Rightarrow> ChaincodeDefinition \<Rightarrow> bool" where
  "selected s def \<longleftrightarrow> (\<exists>d. active s (cd_Name def) = Some d \<and>
     (cd_Sequence def < cd_Sequence (cm_Definition d) \<or> cm_Definition d = def))"

definition configured_resolver :: "connection_resolver option \<Rightarrow> bool" where
  "configured_resolver resolver \<longleftrightarrow> resolver = None \<or> (\<exists>r. resolver = Some (resolvers_Resolve r))"

inductive service_store :: "(string \<Rightarrow> string) \<Rightarrow> string \<Rightarrow> Store \<Rightarrow> bool" for address_of msp where
  opened: "NewMemoryStore channelID = Inr s \<Longrightarrow> service_store address_of msp s"
| called: "service_store address_of msp s \<Longrightarrow> content_addressed address_of oper \<Longrightarrow>
    service_store address_of msp (store_apply oper s)"
| executed: "service_store address_of msp s \<Longrightarrow> le_localMSPID e = msp \<Longrightarrow> uses_configured e \<Longrightarrow>
    chooseConnector e ctx now c (Some s) = (res, Some s') \<Longrightarrow> service_store address_of msp s'"
| recorded: "service_store address_of msp s \<Longrightarrow> configured_resolver resolver \<Longrightarrow> cf_MspID cfg = Some msp \<Longrightarrow>
    (\<And>d. ir_definition req = Some d \<Longrightarrow> selected s (cm_Definition d)) \<Longrightarrow>
    lifecycleExecutionBinding resolver cfg ctx now req namespace (Some s) = (b, Some s') \<Longrightarrow>
    service_store address_of msp s'"

text \<open>A cached connection of this organization is for a sequence that has been active; for the active one it
  holds the address of this organization's approval, if there is one.\<close>

definition row_agrees :: "string \<Rightarrow> Store \<Rightarrow> ResolvedChaincodeConnection \<Rightarrow> bool" where
  "row_agrees msp s r \<longleftrightarrow> (\<exists>d. active s (rc_Name r) = Some d \<and>
     (rc_Sequence r < cd_Sequence (cm_Definition d) \<or> rc_Sequence r = cd_Sequence (cm_Definition d) \<and>
       (\<forall>a. approved_for s msp (cm_Definition d) = Some a \<longrightarrow> rc_Address r = ad_PackageAddress a)))"

definition package_addresses :: "(string \<Rightarrow> string) \<Rightarrow> Store \<Rightarrow> bool" where
  "package_addresses address_of s \<longleftrightarrow>
     (\<forall>p \<in> set (st_installed s). ip_Address p = address_of (ip_PackageID p) \<and> ip_Address p \<noteq> [])"

definition cache_inv :: "(string \<Rightarrow> string) \<Rightarrow> string \<Rightarrow> Store \<Rightarrow> bool" where
  "cache_inv address_of msp s \<longleftrightarrow> store_inv s \<and> package_addresses address_of s \<and>
     (\<forall>r \<in> set (st_resolved s). rc_MSPID r = msp \<longrightarrow> row_agrees msp s r)"

lemma cache_inv_agrees:
  assumes "cache_inv address_of msp s" and "active s (cd_Name (cm_Definition d)) = Some d"
  shows "cache_agrees s msp (cm_Definition d)"
  unfolding cache_agrees_def
proof (intro allI impI)
  fix a conn
  assume a: "approved_for s msp (cm_Definition d) = Some a"
    and g: "GetResolvedConnection None msp (cm_Definition d) s = Inr (Some conn)"
  have "tbl_get resolved_key (msp, cd_Name (cm_Definition d), cd_Sequence (cm_Definition d)) (st_resolved s) = Some conn"
    using g by (auto simp: GetResolvedConnection_def rbind_Inr_iff split: if_splits option.splits)
  then have "conn \<in> set (st_resolved s)" "rc_MSPID conn = msp" "rc_Name conn = cd_Name (cm_Definition d)"
    "rc_Sequence conn = cd_Sequence (cm_Definition d)" by (auto dest!: tbl_get_Some simp: resolved_key_def)
  moreover from this have "row_agrees msp s conn" using assms(1) by (simp add: cache_inv_def)
  ultimately show "rc_Address conn = ad_PackageAddress a" using assms(2) a by (simp add: row_agrees_def)
qed

lemma approved_for_facts:
  assumes "store_inv s" and "package_addresses address_of s" and "approved_for s msp def = Some a"
  shows "ad_PackageAddress a = address_of (ad_PackageID a) \<and> ad_PackageAddress a \<noteq> [] \<and> ad_PackageID a \<noteq> []"
proof -
  obtain r p where "tbl_get approved_key (cd_Name def, cd_Sequence def, msp) (st_approved s) = Some r"
    and p: "tbl_get ip_PackageID (ar_package_id r) (st_installed s) = Some p" and a: "a = scanApproval r (ip_Address p)"
    using assms(3) by (auto simp: approved_for_def approval_of_def split: option.splits if_splits)
  have "p \<in> set (st_installed s)" "ip_PackageID p = ar_package_id r" using tbl_get_Some[OF p] by auto
  then have "ip_Address p = address_of (ar_package_id r)" "ip_Address p \<noteq> []" "ar_package_id r \<noteq> []"
    using assms(1,2) by (auto simp: package_addresses_def store_inv_def)
  then show ?thesis by (simp add: a scanApproval_def)
qed

lemma row_agrees_advance:
  assumes "row_agrees msp s r" and "advances (active s (rc_Name r)) (active s' (rc_Name r))"
    and "\<And>def a'. approved_for s' msp def = Some a' \<Longrightarrow> cd_Name def = rc_Name r \<Longrightarrow> cd_Sequence def = rc_Sequence r \<Longrightarrow>
      \<exists>a. approved_for s msp def = Some a \<and> ad_PackageAddress a = ad_PackageAddress a'"
  shows "row_agrees msp s' r"
proof -
  from assms(1) obtain d where d: "active s (rc_Name r) = Some d"
    and old: "rc_Sequence r < cd_Sequence (cm_Definition d) \<or> rc_Sequence r = cd_Sequence (cm_Definition d) \<and>
       (\<forall>a. approved_for s msp (cm_Definition d) = Some a \<longrightarrow> rc_Address r = ad_PackageAddress a)"
    by (auto simp: row_agrees_def)
  from assms(2) d obtain d' where d': "active s' (rc_Name r) = Some d'"
    and adv: "cd_Sequence (cm_Definition d) < cd_Sequence (cm_Definition d') \<or> cm_Definition d' = cm_Definition d"
    by (auto simp: advances_def split: option.splits)
  show ?thesis
  proof (cases "rc_Sequence r < cd_Sequence (cm_Definition d')")
    case True
    then show ?thesis using d' by (auto simp: row_agrees_def)
  next
    case False
    then have same: "cm_Definition d' = cm_Definition d" "rc_Sequence r = cd_Sequence (cm_Definition d)"
      and agree: "\<forall>a. approved_for s msp (cm_Definition d) = Some a \<longrightarrow> rc_Address r = ad_PackageAddress a"
      using adv old by auto
    have "cd_Name (cm_Definition d) = rc_Name r" using active_name[OF d] .
    then have "rc_Address r = ad_PackageAddress a'" if "approved_for s' msp (cm_Definition d') = Some a'" for a'
      using assms(3)[of "cm_Definition d'" a'] that same agree by auto
    then show ?thesis using d' same by (auto simp: row_agrees_def)
  qed
qed

lemma cache_inv_kept:
  assumes "cache_inv address_of msp s" and "store_inv s'" and "package_addresses address_of s'"
    and "\<And>n. advances (active s n) (active s' n)" and "set (st_resolved s') \<subseteq> set (st_resolved s)"
    and "\<And>r def a'. r \<in> set (st_resolved s') \<Longrightarrow> rc_MSPID r = msp \<Longrightarrow> approved_for s' msp def = Some a' \<Longrightarrow>
      cd_Name def = rc_Name r \<Longrightarrow> cd_Sequence def = rc_Sequence r \<Longrightarrow>
      \<exists>a. approved_for s msp def = Some a \<and> ad_PackageAddress a = ad_PackageAddress a'"
  shows "cache_inv address_of msp s'"
  using assms row_agrees_advance[of msp s _ s'] unfolding cache_inv_def by blast

lemma installed_address:
  assumes "package_addresses address_of s" and "ip_Address pkg = address_of (ip_PackageID pkg)" and "ip_Address pkg \<noteq> []"
  shows "package_addresses address_of (s\<lparr>st_installed := tbl_upsert ip_PackageID upd_installed pkg (st_installed s)\<rparr>)"
proof -
  let ?t = "tbl_upsert ip_PackageID upd_installed pkg (st_installed s)"
  have "ip_Address p = address_of (ip_PackageID p) \<and> ip_Address p \<noteq> []" if "p \<in> set ?t" for p
    using installed_tbl.mem_upsert[OF that] assms by (auto simp: package_addresses_def upd_installed_def)
  moreover have "st_installed (s\<lparr>st_installed := ?t\<rparr>) = ?t" by simp
  ultimately show ?thesis unfolding package_addresses_def by metis
qed

lemma package_addresses_frame:
  "st_installed s' = st_installed s \<Longrightarrow> package_addresses address_of s' = package_addresses address_of s"
  by (simp only: package_addresses_def)

lemma installed_approval:
  assumes "store_inv s" and "package_addresses address_of s"
    and "approved_for s' msp def = Some a'" and "package_addresses address_of s'" and "store_inv s'"
    and "st_approved s' = st_approved s"
  shows "\<exists>a. approved_for s msp def = Some a \<and> ad_PackageAddress a = ad_PackageAddress a'"
proof -
  obtain r where r: "tbl_get approved_key (cd_Name def, cd_Sequence def, msp) (st_approved s) = Some r"
    using assms(3,6) by (cases "tbl_get approved_key (cd_Name def, cd_Sequence def, msp) (st_approved s)")
      (simp_all add: approved_for_def approval_of_def)
  obtain p where p: "tbl_get ip_PackageID (ar_package_id r) (st_installed s') = Some p"
    using assms(3,6) r by (cases "tbl_get ip_PackageID (ar_package_id r) (st_installed s')")
      (simp_all add: approved_for_def approval_of_def)
  have a': "a' = scanApproval r (ip_Address p)" and m: "ad_Definition a' = def"
    using assms(3,6) r p by (simp_all add: approved_for_def approval_of_def split: if_splits)
  have "r \<in> set (st_approved s)" using tbl_get_Some[OF r] by blast
  then have "ar_package_id r \<in> ip_PackageID ` set (st_installed s)"
    using assms(1) by (auto simp: store_inv_def approved_ok_def)
  then obtain q where "tbl_get ip_PackageID (ar_package_id r) (st_installed s) = Some q"
    using tbl_get_None[of ip_PackageID "ar_package_id r" "st_installed s"] by fastforce
  then have ap: "approved_for s msp def = Some (scanApproval r (ip_Address q))"
    using r m a' by (simp add: approved_for_def approval_of_def scanApproval_def)
  from approved_for_facts[OF assms(1,2) ap] approved_for_facts[OF assms(5,4,3)]
  show ?thesis using ap a' by (simp add: scanApproval_def)
qed

lemma cache_inv_committed:
  assumes "cache_inv address_of msp s" and "store_inv s'" and "\<And>n. advances (active s n) (active s' n)"
    and "st_installed s' = st_installed s" and "st_approved s' = st_approved s" and "st_resolved s' = st_resolved s"
  shows "cache_inv address_of msp s'"
proof (rule cache_inv_kept[OF assms(1-2) _ assms(3)])
  show "package_addresses address_of s'"
    using assms(1) package_addresses_frame[OF assms(4)] by (simp add: cache_inv_def)
qed (use assms(6) approved_for_frame[OF assms(4,5)] in auto)

lemma cache_inv_approve:
  assumes "cache_inv address_of msp s"
  shows "cache_inv address_of msp (snd (ApproveForMyOrg ctx now def packageID m s))"
proof (cases "ApproveForMyOrg ctx now def packageID m s")
  case (Pair res s')
  show ?thesis
  proof (cases "s' = s")
    case True
    then show ?thesis using Pair assms by simp
  next
    case False
    then obtain a where res: "res = Inr a"
      using Pair by (cases res) (auto simp: ApproveForMyOrg_def Let_def split: sum.splits option.splits if_splits)
    note ok = ApproveForMyOrg_success(7)[OF Pair[unfolded res]]
    obtain pkg where pkg: "tbl_get ip_PackageID packageID (st_installed s) = Some pkg"
      and s': "s' = s\<lparr>st_approved := tbl_upsert approved_key upd_approved (approved_row_of now def packageID m) (st_approved s),
              st_resolved := filter (\<lambda>r. resolved_key r \<noteq> (m, cd_Name def, cd_Sequence def)) (st_resolved s)\<rparr>"
      using ok False by blast
    have inv: "store_inv s'" using ApproveForMyOrg_inv[of s ctx now def packageID m] assms Pair by (simp add: cache_inv_def)
    have addr: "package_addresses address_of s'"
      using assms package_addresses_frame[of s' s address_of] by (simp add: s' cache_inv_def)
    have act: "active s' = active s" by (simp add: fun_eq_iff active_def s')
    have keep: "approved_for s' msp d = approved_for s msp d"
      if "r \<in> set (st_resolved s')" "rc_MSPID r = msp" "cd_Name d = rc_Name r" "cd_Sequence d = rc_Sequence r" for r d
    proof -
      have "resolved_key r \<noteq> (m, cd_Name def, cd_Sequence def)" using that(1) by (auto simp: s')
      then have "(cd_Name d, cd_Sequence d, msp) \<noteq> (cd_Name def, cd_Sequence def, m)"
        using that by (auto simp: resolved_key_def)
      then have "approval_of s' (cd_Name d) (cd_Sequence d) msp = approval_of s (cd_Name d) (cd_Sequence d) msp"
        unfolding s' approval_of_written[OF pkg] by (rule if_not_P)
      then show ?thesis by (simp add: approved_for_def)
    qed
    have "cache_inv address_of msp s'"
    proof (rule cache_inv_kept[OF assms inv addr])
      show "advances (active s n) (active s' n)" for n by (simp add: act)
      show "set (st_resolved s') \<subseteq> set (st_resolved s)" by (auto simp: s')
    qed (use keep in auto)
    then show ?thesis using Pair by simp
  qed
qed

lemma upsertCommitted_frame:
  "st_installed (snd (upsertCommitted ctx now c s)) = st_installed s"
  "st_approved (snd (upsertCommitted ctx now c s)) = st_approved s"
  "st_resolved (snd (upsertCommitted ctx now c s)) = st_resolved s"
  by (simp_all add: upsertCommitted_def Let_def split: sum.split option.split)

lemma cache_inv_apply:
  assumes "cache_inv address_of msp s" and "content_addressed address_of oper"
  shows "cache_inv address_of msp (store_apply oper s)"
proof -
  have inv: "store_inv s" using assms(1) by (simp add: cache_inv_def)
  note keep = cache_inv_committed[OF assms(1) store_apply_inv[OF inv] store_apply_advances[OF inv], of oper]
  show ?thesis
  proof (cases oper)
    case (OpInstall ctx now pkg)
    then have pkg: "ip_Address pkg = address_of (ip_PackageID pkg)" "ip_Address pkg \<noteq> []"
      using assms(2) by (auto simp del: not_None_eq)
    let ?pkg = "if ip_InstalledAt pkg = [] then pkg\<lparr>ip_InstalledAt := now\<rparr> else pkg"
    let ?s = "s\<lparr>st_installed := tbl_upsert ip_PackageID upd_installed ?pkg (st_installed s)\<rparr>"
    have addr: "package_addresses address_of ?s"
      by (rule installed_address) (use assms(1) pkg in \<open>auto simp: cache_inv_def\<close>)
    have "snd (Install ctx now pkg s) \<in> {s, ?s}" by (auto simp: Install_def Let_def split: sum.splits)
    then show ?thesis
    proof (elim insertE emptyE)
      assume "snd (Install ctx now pkg s) = s"
      then show ?thesis using OpInstall assms(1) by simp
    next
      assume s': "snd (Install ctx now pkg s) = ?s"
      have inv': "store_inv ?s" using Install_inv[OF inv, of ctx now pkg] s' by simp
      have "cache_inv address_of msp ?s"
      proof (rule cache_inv_kept[OF assms(1) inv' addr])
        show "advances (active s n) (active ?s n)" for n by (simp add: active_def)
        show "\<exists>a. approved_for s msp def = Some a \<and> ad_PackageAddress a = ad_PackageAddress a'"
          if "approved_for ?s msp def = Some a'" for def a'
          using installed_approval[OF inv _ that addr inv'] assms(1) by (simp add: cache_inv_def)
      qed simp
      then show ?thesis using OpInstall s' by simp
    qed
  next
    case (OpApprove ctx now def packageID m)
    then show ?thesis using cache_inv_approve[OF assms(1)] by simp
  next
    case (OpCommit ctx now def m)
    then have "store_apply oper s \<in> {s, snd (upsertCommitted ctx now
        \<lparr>cm_Definition = def, cm_CommittedAt = now, cm_Initialized = (\<not> cd_InitRequired def)\<rparr> s)}"
      by (simp add: CommitDefinition_def split: sum.split)
    then show ?thesis using assms(1) keep by (auto simp: upsertCommitted_frame)
  next
    case (OpLedger ctx now def i)
    then have "store_apply oper s \<in> {s, snd (upsertCommitted ctx now
        \<lparr>cm_Definition = def, cm_CommittedAt = now, cm_Initialized = i\<rparr> s)}"
      using UpsertCommittedFromLedger_cases[of ctx now def i s] by simp
    then show ?thesis using assms(1) keep by (auto simp: upsertCommitted_frame)
  next
    case (OpMark ctx now def m)
    then have "store_apply oper s \<in> {s, s\<lparr>st_committed := map (mark_row now def) (st_committed s)\<rparr>}"
      using MarkInitialized_cases[of ctx now def m s] by simp
    then show ?thesis using assms(1) keep by auto
  next
    case (OpPutConnection ctx now conn)
    then show ?thesis using assms(2) by simp
  next
    case OpClose
    then show ?thesis by (intro keep) (simp_all add: Close_def)
  qed
qed

lemma cache_inv_put:
  assumes "cache_inv address_of msp s" and "PutResolvedConnection ctx now conn s = (res, s')"
    and "belongs msp def conn" and "selected s def"
    and "\<And>a. approved_for s msp def = Some a \<Longrightarrow> rc_Address conn = ad_PackageAddress a"
  shows "cache_inv address_of msp s'"
proof (cases "s' = s")
  case True
  then show ?thesis using assms(1) by simp
next
  case False
  then obtain conn' where s': "s' = s\<lparr>st_resolved := tbl_upsert resolved_key upd_resolved conn' (st_resolved s)\<rparr>"
    and same: "rc_MSPID conn' = rc_MSPID conn" "rc_Name conn' = rc_Name conn" "rc_Sequence conn' = rc_Sequence conn"
      "rc_Address conn' = rc_Address conn"
    using assms(2) by (auto simp: PutResolvedConnection_def Let_def split: if_splits sum.splits)
  note frame = Put_frame[OF assms(2)]
  have act: "active s' = active s" using frame by (simp add: fun_eq_iff active_def)
  have ap: "approved_for s' msp d = approved_for s msp d" for d using frame by (intro approved_for_frame) simp_all
  have row: "row_agrees msp s' r = row_agrees msp s r" for r by (simp add: row_agrees_def act ap)
  have new: "row_agrees msp s r" if "rc_Name r = cd_Name def" "rc_Sequence r = cd_Sequence def" "rc_Address r = rc_Address conn" for r
    using that assms(4,5) by (auto simp: selected_def row_agrees_def)
  have "row_agrees msp s r" if "r \<in> set (st_resolved s')" "rc_MSPID r = msp" for r
  proof -
    have "r \<in> set (tbl_upsert resolved_key upd_resolved conn' (st_resolved s))" using that(1) by (simp add: s')
    from resolved_tbl.mem_upsert[OF this] show ?thesis
    proof (elim disjE bexE conjE)
      assume "r \<in> set (st_resolved s)"
      then show ?thesis using assms(1) that(2) by (simp add: cache_inv_def)
    next
      assume "r = conn'"
      then show ?thesis using same assms(3) by (intro new) (simp_all add: belongs_def)
    next
      fix y
      assume "resolved_key y = resolved_key conn'" "upd_resolved y conn' = Some r"
      then show ?thesis using same assms(3)
        by (intro new) (auto simp: belongs_def upd_resolved_def resolved_key_def)
    qed
  qed
  moreover have "store_inv s'" using PutResolvedConnection_inv[of s ctx now conn] assms(1,2) by (simp add: cache_inv_def)
  moreover have "package_addresses address_of s'"
    using assms(1) frame package_addresses_frame[of s' s address_of] by (simp add: cache_inv_def)
  ultimately show ?thesis by (simp add: cache_inv_def row)
qed

lemma resolve_store:
  assumes "resolveChaincodeConnection e ctx now def s = (res, s')"
  shows "s' = s \<or> (\<exists>conn. res = Inr (Some conn))"
proof -
  have put: "PutResolvedConnection ctx now conn s = (Inl err, s'') \<Longrightarrow> s'' = s" for conn err s''
    by (auto simp: PutResolvedConnection_def Let_def split: if_splits sum.splits)
  show ?thesis using assms put
    by (auto simp: resolveChaincodeConnection_def split: sum.splits option.splits prod.splits)
qed

lemma cache_inv_resolve:
  assumes "cache_inv address_of (le_localMSPID e) s" and "uses_configured e"
    and "active s (cd_Name (cm_Definition d)) = Some d"
    and "resolveChaincodeConnection e ctx now (cm_Definition d) s = (res, s')"
  shows "cache_inv address_of (le_localMSPID e) s'"
proof (cases "s' = s")
  case True
  then show ?thesis using assms(1) by simp
next
  case False
  then obtain conn where res: "res = Inr (Some conn)" using resolve_store[OF assms(4)] by blast
  note run = assms(4)[unfolded res]
  obtain ask where put: "PutResolvedConnection ctx now ask s = (Inr conn, s')"
    and ask: "\<And>a. approved_for s (le_localMSPID e) (cm_Definition d) = Some a \<Longrightarrow> ask = approval_connection (le_localMSPID e) a"
    using resolve_cases[OF run] False by fastforce
  have "belongs (le_localMSPID e) (cm_Definition d) conn" using configured_resolution[OF assms(2) run] by simp
  then have "belongs (le_localMSPID e) (cm_Definition d) ask"
    using put by (auto simp: PutResolvedConnection_def belongs_def Let_def split: if_splits sum.splits)
  moreover have "selected s (cm_Definition d)" using assms(3) by (auto simp: selected_def)
  ultimately show ?thesis using cache_inv_put[OF assms(1) put] ask by (auto simp: approval_connection_def)
qed

lemma cache_inv_execute:
  assumes "cache_inv address_of (le_localMSPID e) s" and "uses_configured e"
    and "chooseConnector e ctx now c (Some s) = (res, Some s')"
  shows "cache_inv address_of (le_localMSPID e) s'"
proof -
  let ?id = "lifecycleIdentityFromExecution c"
  have inv: "store_inv s" using assms(1) by (simp add: cache_inv_def)
  show ?thesis
  proof (cases "\<exists>d. resolveCommittedDefinition ctx (fst ?id) (snd ?id) s = Inr (Some d) \<and> \<not> definitionChanged c (cm_Definition d)")
    case False
    then have "s' = s" using assms(3)
      by (auto simp: chooseConnector_def Let_def split: sum.splits option.splits if_splits)
    then show ?thesis using assms(1) by simp
  next
    case True
    then obtain d where d: "resolveCommittedDefinition ctx (fst ?id) (snd ?id) s = Inr (Some d)"
      "\<not> definitionChanged c (cm_Definition d)" by blast
    obtain r s1 where run: "resolveChaincodeConnection e ctx now (cm_Definition d) s = (r, s1)" by fastforce
    have "s' = snd (definitionConnection e ctx now (cm_Definition d) s)"
      using assms(3) d by (auto simp: chooseConnector_def Let_def split: sum.splits option.splits if_splits prod.splits)
    also have "\<dots> = s1" using run by (auto simp: definitionConnection_def split: sum.splits option.splits)
    finally show ?thesis
      using cache_inv_resolve[OF assms(1,2) conjunct1[OF resolveCommitted_active[OF inv d(1)]] run] by simp
  qed
qed

text \<open>Recording evidence caches a resolver's answer only when there is no matching approval.\<close>

lemma cache_inv_record:
  assumes "cache_inv address_of msp s" and "configured_resolver resolver" and "cf_MspID cfg = Some msp"
    and "\<And>d. ir_definition req = Some d \<Longrightarrow> selected s (cm_Definition d)"
    and "lifecycleExecutionBinding resolver cfg ctx now req namespace (Some s) = (b, Some s')"
  shows "cache_inv address_of msp s'"
proof (cases "s' = s")
  case True
  then show ?thesis using assms(1) by simp
next
  case False
  then obtain d where d: "requestDefinition ctx s req = Inr (Some d)"
    using assms(5) by (auto simp: lifecycleExecutionBinding_def Let_def split: if_splits sum.splits option.splits)
  let ?def = "cm_Definition d"
  obtain b0 where ar: "applyResolver resolver (cf_ChannelID cfg) ctx now ?def msp s
      (applyCached ctx ?def msp s (applyApproval ctx ?def msp s b0)) = (the b, s')"
    using assms(3,5) d False
    by (auto simp: lifecycleExecutionBinding_def Let_def split: if_splits prod.splits)
  then obtain resolve conn res where "resolver = Some resolve"
    and ans: "resolve \<lparr>cq_ChannelID = cf_ChannelID cfg, cq_MSPID = msp, cq_Definition = ?def\<rparr> = Inr (Some conn)"
    and put: "PutResolvedConnection ctx now conn s = (res, s')"
    and lacks: "\<not> (xb_PackageID (applyCached ctx ?def msp s (applyApproval ctx ?def msp s b0)) \<noteq> [] \<and>
      xb_PackageAddress (applyCached ctx ?def msp s (applyApproval ctx ?def msp s b0)) \<noteq> [])"
    using False by (auto simp: applyResolver_def split: if_splits option.splits sum.splits prod.splits)
  then obtain r where "resolvers_Resolve r \<lparr>cq_ChannelID = cf_ChannelID cfg, cq_MSPID = msp, cq_Definition = ?def\<rparr> =
      Inr (Some conn)" using assms(2) by (auto simp: configured_resolver_def)
  then have bel: "belongs msp ?def conn" using configured.answer by fastforce
  have live: "ctx = None" "st_open s" "valid_definition ?def"
    using put False bel by (auto simp: PutResolvedConnection_def Let_def belongs_def valid_definition_def
        split: if_splits sum.splits)
  have sel: "selected s ?def"
  proof (cases "ir_definition req")
    case None
    then have "active s (ir_ChaincodeName req) = Some d"
      using d live(1,2) by (auto simp: requestDefinition_def GetCommitted_active map_error_def split: if_splits)
    then show ?thesis using active_name by (fastforce simp: selected_def)
  next
    case (Some x)
    then show ?thesis using assms(4) d by (simp add: requestDefinition_def)
  qed
  have "approved_for s msp ?def = None"
  proof (rule ccontr)
    assume "approved_for s msp ?def \<noteq> None"
    then obtain a where a: "approved_for s msp ?def = Some a" by blast
    have facts: "ad_PackageAddress a \<noteq> []" "ad_PackageID a \<noteq> []"
      using approved_for_facts[OF _ _ a, of address_of] assms(1) by (auto simp: cache_inv_def)
    have "applyApproval ctx ?def msp s b0 = b0\<lparr>xb_PackageID := ad_PackageID a, xb_PackageAddress := ad_PackageAddress a\<rparr>"
      using a live by (auto simp: applyApproval_def GetApproval_of rbind_def validateDefinition_def valid_definition_def
          approved_for_def split: option.splits if_splits)
    then show False using lacks facts
      by (auto simp: applyCached_def applyResolvedBinding_def Let_def split: sum.splits option.splits)
  qed
  then show ?thesis using cache_inv_put[OF assms(1) put bel sel] by simp
qed

lemma service_store_inv: "service_store address_of msp s \<Longrightarrow> cache_inv address_of msp s"
proof (induction rule: service_store.induct)
  case (opened channelID s)
  then show ?case using store_inv_new[OF opened]
    by (auto simp: cache_inv_def package_addresses_def NewMemoryStore_def split: if_splits)
next
  case (called s oper)
  then show ?case by (rule_tac cache_inv_apply)
next
  case (executed s e ctx now c res s')
  then show ?case using cache_inv_execute[of address_of e s ctx now c res s'] by simp
next
  case (recorded s resolver cfg req ctx now namespace b s')
  then show ?case using cache_inv_record[of address_of msp s resolver cfg req ctx now namespace b s'] by blast
qed

text \<open>The evidence when a fallback ran: nothing is known of the definition, so at most the resolver's later
  answer can be named.\<close>

lemma evidence_unknown:
  assumes "GetResolvedConnection None msp def s = Inr None" and "approved_for s msp def = None"
    and "applyResolver resolver channelID None now def msp s (applyCached None def msp s (applyApproval None def msp s b)) = (b', s')"
    and "xb_PackageAddress b = []"
  shows "xb_PackageAddress b' = [] \<or> (\<exists>resolve conn. resolver = Some resolve \<and>
    resolve \<lparr>cq_ChannelID = channelID, cq_MSPID = msp, cq_Definition = def\<rparr> = Inr (Some conn) \<and>
    xb_PackageAddress b' = rc_Address conn)"
proof -
  have live: "valid_definition def" "st_open s"
    using assms(1) by (auto simp: GetResolvedConnection_def rbind_Inr_iff valid_definition_def split: if_splits)
  have "applyApproval None def msp s b = b"
    using assms(2) live by (auto simp: applyApproval_def GetApproval_of rbind_def validateDefinition_def
        valid_definition_def approved_for_def split: option.splits if_splits)
  moreover have "applyCached None def msp s b = b" using assms(1) by (simp add: applyCached_def)
  moreover have "rc_Address stored = rc_Address conn" if "PutResolvedConnection None now conn s = (Inr stored, s'')" for conn stored s''
    using that by (auto simp: PutResolvedConnection_def Let_def split: if_splits sum.splits)
  ultimately show ?thesis using assms(3,4)
    by (auto simp: applyResolver_def applied_address split: option.splits sum.splits prod.splits)
qed

text \<open>C23: in every store a running service can reach, the evidence recorded for an execution names the local
  organization, the state namespace and the active definition the execution ran under, and the endpoint it
  ran on, whatever the resolver answers the second time; only when the configured fallback ran, because
  neither a cached connection nor an approval of this organization is known for the definition, the address
  in the evidence is empty or a later answer of the resolver.\<close>

theorem evidence_names_executed_endpoint:
  assumes "service_store address_of (le_localMSPID e) s" and "uses_configured e"
    and run: "chooseConnector e ctx now c (Some s) = (Inr k, Some s1)"
    and def: "active s (cd_Name (cm_Definition d)) = Some d"
      "fst (lifecycleIdentityFromExecution c) = cd_Name (cm_Definition d)"
    and "cf_MspID cfg = Some (le_localMSPID e)" "ir_definition req = Some d"
      "ir_ChaincodeName req = cd_Name (cm_Definition d)"
  shows "\<exists>b s2. lifecycleExecutionBinding resolver cfg None now' req namespace (Some s1) = (Some b, Some s2) \<and>
    names b = (le_localMSPID e, namespace, cd_Name (cm_Definition d), cd_Version (cm_Definition d),
      cd_Sequence (cm_Definition d)) \<and>
    (xb_PackageAddress b = kn_endpoint k \<or>
     le_fallback e = Some k \<and> GetResolvedConnection None (le_localMSPID e) (cm_Definition d) s = Inr None \<and>
     approved_for s (le_localMSPID e) (cm_Definition d) = None \<and>
     (xb_PackageAddress b = [] \<or> (\<exists>resolve conn. resolver = Some resolve \<and>
        resolve \<lparr>cq_ChannelID = cf_ChannelID cfg, cq_MSPID = le_localMSPID e, cq_Definition = cm_Definition d\<rparr> =
          Inr (Some conn) \<and> xb_PackageAddress b = rc_Address conn)))"
proof -
  let ?def = "cm_Definition d" and ?msp = "le_localMSPID e"
  have cinv: "cache_inv address_of ?msp s" by (rule service_store_inv[OF assms(1)])
  then have inv: "store_inv s" by (simp add: cache_inv_def)
  have name: "cd_Name ?def \<noteq> []"
    using inv def(1) by (auto simp: active_def store_inv_def committed_ok_def scanCommitted_def dest!: tbl_get_Some)
  let ?b = "\<lparr>xb_MSPID = ?msp, xb_Namespace = namespace, xb_ChaincodeName = cd_Name ?def,
     xb_ChaincodeVersion = cd_Version ?def, xb_Sequence = cd_Sequence ?def, xb_PackageID = [], xb_PackageAddress = []\<rparr>"
  let ?b1 = "applyCached None ?def ?msp s1 (applyApproval None ?def ?msp s1 ?b)"
  obtain b s2 where ar: "applyResolver resolver (cf_ChannelID cfg) None now' ?def ?msp s1 ?b1 = (b, s2)" by fastforce
  have "names ?b1 = (?msp, namespace, cd_Name ?def, cd_Version ?def, cd_Sequence ?def)"
    by (simp add: names_def[of ?b])
  then have n: "names b = (?msp, namespace, cd_Name ?def, cd_Version ?def, cd_Sequence ?def)"
    using applyResolver_keeps[OF ar] by simp
  have rec: "lifecycleExecutionBinding resolver cfg None now' req namespace (Some s1) = (Some b, Some s2)" if "?msp \<noteq> []"
    using assms(6-8) name ar that by (simp add: lifecycleExecutionBinding_def requestDefinition_def Let_def)
  from chosen_connector[OF inv assms(2) run]
  consider (ran) "runs_on e c s s1 k" | (fallback) "le_fallback e = Some k" "s1 = s" "nothing_known e ctx c s" by auto
  then show ?thesis
  proof cases
    case ran
    then obtain d' conn where "active s (cd_Name (cm_Definition d')) = Some d'" "cd_Name (cm_Definition d') = cd_Name ?def"
      and r: "kn_endpoint k = rc_Address conn" "kn_endpoint k \<noteq> []"
        "cache_agrees s ?msp (cm_Definition d') \<longrightarrow> cache_agrees s1 ?msp (cm_Definition d')"
        "GetResolvedConnection None ?msp (cm_Definition d') s1 = Inr (Some conn)"
      using def(2) name by (auto simp: runs_on_def)
    then have "d' = d" using def(1) by simp
    then have agrees: "cache_agrees s1 ?msp ?def" and got: "GetResolvedConnection None ?msp ?def s1 = Inr (Some conn)"
      using r(3,4) cache_inv_agrees[OF cinv def(1)] by simp_all
    have msp: "?msp \<noteq> []" using got by (auto simp: GetResolvedConnection_def)
    have "xb_PackageAddress ?b1 = kn_endpoint k" using evidence_address[OF agrees got, of ?b] r(1) by simp
    then have "xb_PackageAddress b = kn_endpoint k" using applyResolver_keeps[OF ar] r(2) by simp
    then show ?thesis using rec[OF msp] n by blast
  next
    case fallback
    have "\<exists>x. resolveCommittedDefinition ctx (cd_Name ?def) (snd (lifecycleIdentityFromExecution c)) s = Inr x"
      using run def(2) by (auto simp: chooseConnector_def split: sum.splits)
    then have "resolveCommittedDefinition ctx (cd_Name ?def) (snd (lifecycleIdentityFromExecution c)) s = Inr (Some d)"
      using name def(1) by (auto simp: resolveCommittedDefinition_def GetCommitted_active map_error_def rbind_Inr_iff
          split: sum.splits)
    then have known: "GetResolvedConnection ctx ?msp ?def s = Inr None" "approved_for s ?msp ?def = None"
      using fallback(3) def(2) by (auto simp: nothing_known_def)
    have ctx: "ctx = None" "?msp \<noteq> []"
      using known(1) by (auto simp: GetResolvedConnection_def rbind_Inr_iff split: if_splits)
    have "xb_PackageAddress ?b = []" by simp
    from evidence_unknown[OF known(1)[unfolded ctx] known(2) ar[unfolded fallback(2)] this] show ?thesis
      using rec[OF ctx(2)] n fallback(1) known ctx(1) by blast
  qed
qed

definition evidence_request :: InvocationRequest where
  "evidence_request = \<lparr>ir_definition = Some \<lparr>cm_Definition = sample_def 1, cm_CommittedAt = ''t2'', cm_Initialized = False\<rparr>,
     ir_ClientTxID = [], ir_ClientCreator = [], ir_ClientNonce = [], ir_ClientSignedProposal = None,
     ir_ClientTransient = [], ir_EndorsingOrganizations = [], ir_IdempotencyKey = [], ir_RequestDigest = [],
     ir_Namespace = ''ns'', ir_ChaincodeName = ''basic'', ir_ChaincodeVersion = ''1.0'', ir_IsInit = False,
     ir_Function = [], ir_Args = []\<rparr>"

text \<open>The sample store is that of a service that installed, approved and committed.\<close>

lemma sample_service_store: "service_store (\<lambda>_. ip_Address sample_package) ''Org1'' sample_committed"
proof -
  let ?new = "\<lparr>st_channelID = ''ch'', st_open = True, st_installed = [], st_approved = [],
     st_committed = [], st_resolved = []\<rparr>"
  let ?ops = "[OpInstall None ''t0'' sample_package, OpApprove None ''t1'' (sample_def 1) ''basic:1'' ''Org1'',
     OpCommit None ''t2'' (sample_def 1) ''Org1'']"
  have "NewMemoryStore ''ch'' = Inr ?new" by (simp add: NewMemoryStore_def)
  from service_store.opened[OF this] have "service_store (\<lambda>_. ip_Address sample_package) ''Org1'' ?new" .
  moreover have "service_store f m s \<Longrightarrow> list_all (content_addressed f) ops \<Longrightarrow> service_store f m (store_run ops s)" for f m s ops
    by (induction ops arbitrary: s) (auto simp: store_run_def intro: service_store.called)
  moreover have "list_all (content_addressed (\<lambda>_. ip_Address sample_package)) ?ops" by (simp add: sample_package_def)
  moreover have "store_run ?ops ?new = sample_committed" by code_simp
  ultimately show ?thesis by metis
qed

theorem evidence_names_executed_endpoint_witness:
  "\<exists>b s2 s1. lifecycleExecutionBinding None sample_cfg None ''t4'' evidence_request ''ns'' (Some s1) = (Some b, Some s2) \<and>
    xb_PackageAddress b = ip_Address sample_package \<and>
    names b = (''Org1'', ''ns'', ''basic'', ''1.0'', 1)"
proof -
  let ?d = "\<lparr>cm_Definition = sample_def 1, cm_CommittedAt = ''t2'', cm_Initialized = False\<rparr>"
  have s: "service_store (\<lambda>_. ip_Address sample_package) (le_localMSPID sample_executor) sample_committed"
    using sample_service_store by (simp add: sample_executor_def)
  have u: "uses_configured sample_executor" by (simp add: uses_configured_def sample_executor_def)
  have act: "active sample_committed (cd_Name (cm_Definition ?d)) = Some ?d" by code_simp
  from evidence_names_executed_endpoint[OF s u sample_run act, of sample_cfg evidence_request None "''t4''" "''ns''"]
  show ?thesis
    by (auto simp: sample_executor_def lifecycleIdentityFromExecution_def sample_decorated_def decoration_def
        sample_def_def sample_cfg_def evidence_request_def)
qed

subsection \<open>The evidence crosses organizations unchanged\<close>

definition binding_text_ok :: "LifecycleExecutionBinding \<Rightarrow> bool" where
  "binding_text_ok b \<longleftrightarrow> utf8_ok (xb_MSPID b) \<and> utf8_ok (xb_Namespace b) \<and> utf8_ok (xb_ChaincodeName b) \<and>
     utf8_ok (xb_ChaincodeVersion b) \<and> is_i64 (xb_Sequence b) \<and> utf8_ok (xb_PackageID b) \<and>
     utf8_ok (xb_PackageAddress b)"

lemma decode_struct_append:
  "decode_struct fs (as @ bs) r = (case decode_struct fs as r of None \<Rightarrow> None | Some r' \<Rightarrow> decode_struct fs bs r')"
  by (induction fs as r rule: decode_struct.induct) (auto split: option.split)

text \<open>An omitted member leaves the zero value it stands for.\<close>

lemma binding_member:
  "xb_MSPID r = [] \<Longrightarrow> decode_struct execution_binding_setters (omit_string ''msp_id'' s) r = Some (r\<lparr>xb_MSPID := s\<rparr>)"
  "xb_Namespace r = [] \<Longrightarrow> decode_struct execution_binding_setters (omit_string ''namespace'' s) r = Some (r\<lparr>xb_Namespace := s\<rparr>)"
  "xb_ChaincodeName r = [] \<Longrightarrow>
    decode_struct execution_binding_setters (omit_string ''chaincode_name'' s) r = Some (r\<lparr>xb_ChaincodeName := s\<rparr>)"
  "xb_ChaincodeVersion r = [] \<Longrightarrow>
    decode_struct execution_binding_setters (omit_string ''chaincode_version'' s) r = Some (r\<lparr>xb_ChaincodeVersion := s\<rparr>)"
  "xb_Sequence r = 0 \<Longrightarrow> is_i64 x \<Longrightarrow>
    decode_struct execution_binding_setters (omit_int ''sequence'' x) r = Some (r\<lparr>xb_Sequence := x\<rparr>)"
  "xb_PackageID r = [] \<Longrightarrow> decode_struct execution_binding_setters (omit_string ''package_id'' s) r = Some (r\<lparr>xb_PackageID := s\<rparr>)"
  "xb_PackageAddress r = [] \<Longrightarrow>
    decode_struct execution_binding_setters (omit_string ''package_address'' s) r = Some (r\<lparr>xb_PackageAddress := s\<rparr>)"
  by (cases r; simp add: omit_string_def omit_int_def execution_binding_setters_def)+

lemma binding_members:
  assumes "is_i64 (xb_Sequence b)"
  shows "decode_struct execution_binding_setters (
     omit_string ''msp_id'' (xb_MSPID b) @ omit_string ''namespace'' (xb_Namespace b) @
     omit_string ''chaincode_name'' (xb_ChaincodeName b) @
     omit_string ''chaincode_version'' (xb_ChaincodeVersion b) @ omit_int ''sequence'' (xb_Sequence b) @
     omit_string ''package_id'' (xb_PackageID b) @ omit_string ''package_address'' (xb_PackageAddress b)) zeroBinding
     = Some b"
  using assms by (simp add: decode_struct_append binding_member zeroBinding_def)

lemma binding_json_ok:
  assumes "binding_text_ok b"
  shows "json_ok (execution_binding_json b)"
proof -
  have tags: "utf8_ok ''msp_id''" "utf8_ok ''namespace''" "utf8_ok ''chaincode_name''" "utf8_ok ''chaincode_version''"
    "utf8_ok ''sequence''" "utf8_ok ''package_id''" "utf8_ok ''package_address''" by (rule ascii_utf8, simp)+
  show ?thesis using assms tags
    by (simp add: execution_binding_json_def binding_text_ok_def omit_string_def omit_int_def)
qed

lemma decode_encodeBinding:
  assumes "binding_text_ok b"
  shows "decodeLifecycleBinding (encodeLifecycleBinding b) = Inr b"
proof -
  have "Unmarshal execution_binding_setters zeroBinding (jprint (execution_binding_json b)) = Some b"
    unfolding Unmarshal_def jparse_jprint[OF binding_json_ok[OF assms]]
    using binding_members[of b] assms by (simp add: decode_value_def execution_binding_json_def binding_text_ok_def)
  then show ?thesis by (simp add: decodeLifecycleBinding_def encodeLifecycleBinding_def require_def rbind_def)
qed

interpretation binding_codec: codec binding_text_ok encodeLifecycleBinding
  "\<lambda>v. case decodeLifecycleBinding v of Inr b \<Rightarrow> Some b | Inl _ \<Rightarrow> None"
  by unfold_locales (simp add: decode_encodeBinding)

text \<open>The evidence an organization attaches to its endorsement is read back unchanged from the response
  header, absent evidence as absent, and different evidence has different headers.\<close>

theorem binding_roundtrip:
  assumes "binding_text_ok b" and "binding_text_ok b'"
  shows "lifecycleBindingFromMetadata (setLifecycleBindingMetadata (Some b)) = Inr (Some b) \<and>
    lifecycleBindingFromMetadata (setLifecycleBindingMetadata None) = Inr None \<and>
    (setLifecycleBindingMetadata (Some b) = setLifecycleBindingMetadata (Some b') \<longleftrightarrow> b = b')"
  using decode_encodeBinding[OF assms(1)] binding_codec.enc_inj[OF assms]
  by (simp add: lifecycleBindingFromMetadata_def setLifecycleBindingMetadata_def)

definition sample_binding :: LifecycleExecutionBinding where
  "sample_binding = \<lparr>xb_MSPID = ''Org1'', xb_Namespace = [], xb_ChaincodeName = ''basic'',
     xb_ChaincodeVersion = ''1.0'', xb_Sequence = 3, xb_PackageID = [], xb_PackageAddress = ''cc:9''\<rparr>"

theorem binding_roundtrip_witness:
  "lifecycleBindingFromMetadata (setLifecycleBindingMetadata (Some sample_binding)) = Inr (Some sample_binding)"
proof -
  have "utf8_ok ''Org1''" "utf8_ok ''basic''" "utf8_ok ''1.0''" "utf8_ok ''cc:9''" "utf8_ok []" by (rule ascii_utf8, simp)+
  then have "binding_text_ok sample_binding"
    by (simp add: binding_text_ok_def sample_binding_def is_i64_def min_i64_def max_i64_def)
  from binding_roundtrip[OF this this] show ?thesis by simp
qed

end
