(* ===== verification/Ordering_Client.thy ===== *)
theory Ordering_Client
  imports Invocation_State
begin

section \<open>Sending a transaction and learning its outcome\<close>

text \<open>
  What the orchestrator does with the ordering service, the notifier and the status query service:
  \<open>fabricXSubmitter\<close>, the finality subscription and the status lookups of \<open>execution.go\<close> and
  \<open>service.go\<close>.  The services are their answers during one call.  A send that was attempted is an
  effect even when it fails, so \<open>Submit\<close> gives the envelopes it handed to the stream.
\<close>

subsection \<open>The submitter\<close>

text \<open>The broadcast stream: opening it, sending on it, and the status and text of the orderer's response.\<close>

record ordering =
  od_Broadcast :: "orch_error option"
  od_Send :: "orch_error option"
  od_Recv :: "orch_error + int \<times> string"

definition Status_SUCCESS :: int where "Status_SUCCESS = 200"

record fabricXSubmitter =
  fx_packager :: "Endorsement \<Rightarrow> string + bytes"

definition Submit_envelope :: "fabricXSubmitter \<Rightarrow> ordering \<Rightarrow> Endorsement \<Rightarrow> (orch_error + unit) \<times> bytes list" where
  "Submit_envelope s net end =
     (case fx_packager s end of
        Inl e \<Rightarrow> (Inl (Wrapped ''package transaction'' (Plain e)), [])
      | Inr envelope \<Rightarrow>
      (case od_Broadcast net of
         Some e \<Rightarrow> (Inl (OrderingError e False), [])
       | None \<Rightarrow>
       (case od_Send net of
          Some e \<Rightarrow> (Inl (OrderingError e True), [envelope])
        | None \<Rightarrow>
        (case od_Recv net of
           Inl e \<Rightarrow> (Inl (OrderingError e True), [envelope])
         | Inr (st, info) \<Rightarrow>
             (if st \<noteq> Status_SUCCESS
              then (Inl (OrderingError (Plain (''orderer rejected transaction: '' @ FormatInt st @ '': '' @ info)) False), [envelope])
              else (Inr (), [envelope]))))))"

subsection \<open>Notifications\<close>

text \<open>A notification stream: opening it, subscribing on it, what arrives until it ends, and the context then.\<close>

record notifier =
  nt_Open :: "orch_error option"
  nt_Send :: "orch_error option"
  nt_Responses :: "NotificationResponse list"
  nt_End :: "orch_error option"
  nt_Ctx :: ctx

text \<open>A subscription is the one result its reader will leave in the channel.\<close>

type_synonym finalitySubscription = "orch_error + TxStatus"

definition subscribeFinality :: "notifier option \<Rightarrow> string \<Rightarrow> orch_error + finalitySubscription option" where
  "subscribeFinality notify txID =
     (case notify of
        None \<Rightarrow> Inr None
      | Some n \<Rightarrow>
          (case nt_Open n of
             Some e \<Rightarrow> Inl (Wrapped ''open notification stream'' e)
           | None \<Rightarrow>
               (case nt_Send n of
                  Some e \<Rightarrow> Inl (Wrapped ''send tx status subscription'' e)
                | None \<Rightarrow> Inr (Some (waitForNotification (nt_Ctx n) txID (nt_Responses n) (nt_End n))))))"

definition finality_Wait :: "finalitySubscription option \<Rightarrow> orch_error + TxStatus option" where
  "finality_Wait s =
     (case s of
        None \<Rightarrow> Inr None
      | Some (Inl e) \<Rightarrow> Inl e
      | Some (Inr st) \<Rightarrow> Inr (Some st))"

subsection \<open>Status lookups\<close>

type_synonym status_query = "string list \<Rightarrow> orch_error + TxStatus list"

definition queryTransactionStatus :: "status_query option \<Rightarrow> string \<Rightarrow> orch_error + TxStatus option" where
  "queryTransactionStatus query txID =
     rbind (require (Plain ''transaction status query service is not configured'') query) (\<lambda>q.
     rbind (map_error (Wrapped ''query transaction status'') (q [txID])) (\<lambda>statuses.
     Inr (find (\<lambda>st. isFinalStatus txID (Some st)) statuses)))"

text \<open>
  One round of \<open>waitForTransactionStatus\<close>: the lookup, the context after it, and the case its select
  takes.  A notification can only be taken once.
\<close>

datatype select_case = SelDone ctx_error | SelRecheck | SelLastCheck | SelNotification

record status_round =
  sr_answer :: "orch_error + TxStatus list"
  sr_ctx :: ctx
  sr_select :: select_case

text \<open>\<open>None\<close> when the rounds given end before the request does.\<close>

fun waitRounds ::
  "string \<Rightarrow> finalitySubscription option \<Rightarrow> status_round list \<Rightarrow> (orch_error + TxStatus) option" where
  "waitRounds txID notifications [] = None"
| "waitRounds txID notifications (r # rest) =
     (case sr_ctx r of
        Some e \<Rightarrow> Some (Inl (CtxError e))
      | None \<Rightarrow>
      (case queryTransactionStatus (Some (\<lambda>_. sr_answer r)) txID of
         Inr (Some st) \<Rightarrow> Some (Inr st)
       | _ \<Rightarrow>
       (case sr_select r of
          SelDone e \<Rightarrow> Some (Inl (CtxError e))
        | SelRecheck \<Rightarrow> waitRounds txID notifications rest
        | SelLastCheck \<Rightarrow> waitRounds txID notifications rest
        | SelNotification \<Rightarrow>
            (case notifications of
               Some (Inr st) \<Rightarrow>
                 (if isFinalStatus txID (Some st) then Some (Inr st) else waitRounds txID None rest)
             | _ \<Rightarrow> waitRounds txID None rest))))"

definition waitForTransactionStatus ::
  "status_query option \<Rightarrow> notifier option \<Rightarrow> string \<Rightarrow> status_round list \<Rightarrow> (orch_error + TxStatus) option" where
  "waitForTransactionStatus query notify txID rounds =
     (case queryTransactionStatus query txID of
        Inl e \<Rightarrow> Some (Inl e)
      | Inr (Some st) \<Rightarrow> Some (Inr st)
      | Inr None \<Rightarrow>
          waitRounds txID (case subscribeFinality notify txID of Inr s \<Rightarrow> s | Inl _ \<Rightarrow> None) rounds)"

subsection \<open>What the outcomes mean\<close>

text \<open>A sent envelope whose delivery is not known to have failed.\<close>

lemma Submit_envelope_cases:
  assumes "Submit_envelope s net end = (r, sent)"
  shows "sent = [] \<and> (\<exists>e. r = Inl e \<and> uncertainDelivery e \<noteq> Some True) \<or>
    (\<exists>envelope. fx_packager s end = Inr envelope \<and> sent = [envelope])"
  using assms by (auto simp: Submit_envelope_def split: sum.splits option.splits prod.splits if_splits)

end
