(* ===== verification/Pending_Lifecycle.thy ===== *)
theory Pending_Lifecycle
  imports Lifecycle_Sync Lifecycle_Server Ordering_Client
begin

section \<open>Pending lifecycle operations\<close>

text \<open>
  The part of \<open>orchestrator/lifecycle_ledger.go\<close> that turns a lifecycle revision into a ledger
  transaction and follows it to its end: one pending entry per operation (name, sequence, event), shared
  by pointer between callers, with a one-slot gate that serializes the work on it.  The service state
  holds the heap of entries, the map from operations to live entries, the flag that the service is closed,
  the envelopes handed to the ordering service so far, and the remote organizations.
\<close>

subsection \<open>Entries\<close>

record lifecycleOperation =
  lo_Name :: string
  lo_Sequence :: int
  lo_Event :: string

record pendingLifecycle =
  pl_operation :: lifecycleOperation
  pl_definition :: ChaincodeDefinition
  pl_result :: LedgerCommitResult
  pl_propagation :: DefinitionPropagation
  pl_gate :: bool

record 'r lifecycle_state =
  ls_heap :: "pendingLifecycle list"
  ls_pending :: "lifecycleOperation \<rightharpoonup> nat"
  ls_closed :: bool
  ls_sent :: "bytes list"
  ls_remotes :: 'r

definition emptyResult :: LedgerCommitResult where
  "emptyResult = \<lparr>lr_TxID = [], lr_Status = [], lr_BlockNum = 0, lr_TxNum = 0, lr_Namespace = [], lr_Key = []\<rparr>"

definition newPending :: "lifecycleOperation \<Rightarrow> ChaincodeDefinition \<Rightarrow> pendingLifecycle" where
  "newPending key def = \<lparr>pl_operation = key, pl_definition = def, pl_result = emptyResult,
     pl_propagation = newPropagation, pl_gate = False\<rparr>"

abbreviation entry :: "'r lifecycle_state \<Rightarrow> nat \<Rightarrow> pendingLifecycle" where
  "entry w i \<equiv> ls_heap w ! i"

definition set_entry :: "nat \<Rightarrow> (pendingLifecycle \<Rightarrow> pendingLifecycle) \<Rightarrow> 'r lifecycle_state \<Rightarrow> 'r lifecycle_state" where
  "set_entry i f w = w\<lparr>ls_heap := (ls_heap w)[i := f (entry w i)]\<rparr>"

definition set_result :: "nat \<Rightarrow> LedgerCommitResult \<Rightarrow> 'r lifecycle_state \<Rightarrow> 'r lifecycle_state" where
  "set_result i r w = set_entry i (pl_result_update (\<lambda>_. r)) w"

text \<open>\<open>None\<close> while the gate is taken and the context is live.\<close>

definition pending_lock ::
  "ctx \<Rightarrow> nat \<Rightarrow> 'r lifecycle_state \<Rightarrow> (orch_error + unit) option \<times> 'r lifecycle_state" where
  "pending_lock ctx i w =
     (case ctx of
        Some e \<Rightarrow> (Some (Inl (CtxError e)), w)
      | None \<Rightarrow> (if pl_gate (entry w i) then (None, w)
                else (Some (Inr ()), set_entry i (pl_gate_update (\<lambda>_. True)) w)))"

definition pending_unlock :: "nat \<Rightarrow> 'r lifecycle_state \<Rightarrow> 'r lifecycle_state" where
  "pending_unlock i w = set_entry i (pl_gate_update (\<lambda>_. False)) w"

text \<open>
  The critical section of \<open>lifecycleOperation\<close>: the entry of the operation, and whether the caller
  already holds its gate because it created it.
\<close>

definition operationKey :: "ChaincodeDefinition \<Rightarrow> bool \<Rightarrow> lifecycleOperation" where
  "operationKey def initialized = \<lparr>lo_Name = cd_Name def, lo_Sequence = cd_Sequence def,
     lo_Event = (if initialized then LifecycleEventInitialized else LifecycleEventCommit)\<rparr>"

definition findOrCreate ::
  "ctx \<Rightarrow> ChaincodeDefinition \<Rightarrow> bool \<Rightarrow> 'r lifecycle_state \<Rightarrow> (orch_error + nat \<times> bool) \<times> 'r lifecycle_state" where
  "findOrCreate ctx def initialized w =
     (let key = operationKey def initialized in
      if ls_closed w then (Inl (Plain ''orchestrator is closed''), w)
      else case ls_pending w key of
        Some i \<Rightarrow>
          (if pl_definition (entry w i) \<noteq> def
           then (Inl (Plain (''conflicting pending lifecycle definition for '' @ cd_Name def @ '' sequence '' @
                   FormatInt (cd_Sequence def))), w)
           else (Inr (i, False), w))
      | None \<Rightarrow>
          (case ctx of
             Some e \<Rightarrow>
               (if \<not> initialized then (Inl (CtxError e), w)
                else (Inl (CtxError e), w\<lparr>ls_heap := ls_heap w @ [newPending key def],
                        ls_pending := (ls_pending w)(key \<mapsto> length (ls_heap w))\<rparr>))
           | None \<Rightarrow>
               (Inr (length (ls_heap w), True),
                w\<lparr>ls_heap := ls_heap w @ [(newPending key def)\<lparr>pl_gate := True\<rparr>],
                  ls_pending := (ls_pending w)(key \<mapsto> length (ls_heap w))\<rparr>)))"

definition lifecycleOperation_call ::
  "ctx \<Rightarrow> ChaincodeDefinition \<Rightarrow> bool \<Rightarrow> 'r lifecycle_state \<Rightarrow> (orch_error + nat) option \<times> 'r lifecycle_state" where
  "lifecycleOperation_call ctx def initialized w =
     (case findOrCreate ctx def initialized w of
        (Inl e, w1) \<Rightarrow> (Some (Inl e), w1)
      | (Inr (i, True), w1) \<Rightarrow> (Some (Inr i), w1)
      | (Inr (i, False), w1) \<Rightarrow>
          (case pending_lock ctx i w1 of
             (None, w2) \<Rightarrow> (None, w2)
           | (Some (Inl e), w2) \<Rightarrow> (Some (Inl e), w2)
           | (Some (Inr _), w2) \<Rightarrow> (Some (Inr i), w2)))"

definition removeLifecycleOperation :: "nat \<Rightarrow> 'r lifecycle_state \<Rightarrow> 'r lifecycle_state" where
  "removeLifecycleOperation i w =
     (if ls_pending w (pl_operation (entry w i)) = Some i
      then w\<lparr>ls_pending := (ls_pending w)(pl_operation (entry w i) := None)\<rparr> else w)"

subsection \<open>Advancing a transaction\<close>

text \<open>The services one call uses: rows and statuses of the query service, notifier, ordering and SDK.\<close>

record lifecycle_net =
  ln_lib :: lifecycle_lib
  ln_rows :: row_query
  ln_status :: "status_query option"
  ln_notify :: "notifier option"
  ln_submitter :: fabricXSubmitter
  ln_ordering :: ordering

definition observeLifecycleFinality ::
  "nat \<Rightarrow> TxStatus \<Rightarrow> 'r lifecycle_state \<Rightarrow> (LedgerCommitResult \<times> orch_error option) \<times> 'r lifecycle_state" where
  "observeLifecycleFinality i st w =
     (let result = (pl_result (entry w i))\<lparr>lr_Status := status_string (ts_Status st),
            lr_BlockNum := ref_BlockNum (ts_Ref st), lr_TxNum := ref_TxNum (ts_Ref st)\<rparr> in
      if ts_Status st \<noteq> COMMITTED
      then ((result, Some (Plain (''lifecycle transaction status '' @ lr_Status result))),
            if lo_Event (pl_operation (entry w i)) = LifecycleEventInitialized then set_result i emptyResult w
            else removeLifecycleOperation i w)
      else ((result, None), set_result i result w))"

definition advanceLifecycleTransaction ::
  "Config \<Rightarrow> lifecycle_net \<Rightarrow> nat \<Rightarrow> bool \<Rightarrow> 'r lifecycle_state
    \<Rightarrow> (LedgerCommitResult \<times> orch_error option) \<times> 'r lifecycle_state" where
  "advanceLifecycleTransaction cfg net i waiting w =
     (let p = entry w i; result = pl_result p in
      if lr_Status result = status_string COMMITTED then ((result, None), w)
      else if lr_TxID result \<noteq> [] then
        (case queryTransactionStatus (ln_status net) (lr_TxID result) of
           Inl e \<Rightarrow> ((result, Some e), w)
         | Inr None \<Rightarrow> ((result, Some LifecyclePendingError), w)
         | Inr (Some st) \<Rightarrow> observeLifecycleFinality i st w)
      else case prepareLifecycleTransaction (ln_lib net) (ln_rows net) cfg (pl_definition p) (lo_Event (pl_operation p)) of
        Inl e \<Rightarrow> ((result, Some e),
          if errors_is e LifecycleSuperseded then removeLifecycleOperation i w else w)
      | Inr (end, txID) \<Rightarrow>
      (let receipt = emptyResult\<lparr>lr_TxID := txID, lr_Namespace := lifecycleNamespace cfg,
             lr_Key := LedgerKey (cf_ChannelID cfg) (cd_Name (pl_definition p))\<rparr> in
       if txID = [] then
         (let done = receipt\<lparr>lr_Status := status_string COMMITTED\<rparr> in ((done, None), set_result i done w))
       else case (if waiting then subscribeFinality (ln_notify net) txID else Inr None) of
         Inl e \<Rightarrow> ((receipt\<lparr>lr_TxID := []\<rparr>, Some (Wrapped ''subscribe lifecycle finality'' e)),
           set_result i (receipt\<lparr>lr_TxID := []\<rparr>) w)
       | Inr finality \<Rightarrow>
       (case Submit_envelope (ln_submitter net) (ln_ordering net) end of
          (Inl e, sent) \<Rightarrow>
            (let kept = (if uncertainDelivery e = Some True then receipt else receipt\<lparr>lr_TxID := []\<rparr>) in
             ((kept, Some (Wrapped ''submit lifecycle transaction'' e)),
              set_result i kept (w\<lparr>ls_sent := ls_sent w @ sent\<rparr>)))
        | (Inr _, sent) \<Rightarrow>
            (let w1 = set_result i receipt (w\<lparr>ls_sent := ls_sent w @ sent\<rparr>) in
             if \<not> waiting \<or> finality = None then ((receipt, Some LifecyclePendingError), w1)
             else case finality_Wait finality of
               Inl e \<Rightarrow> ((receipt, Some (Wrapped ''wait lifecycle finality'' (Joined [LifecyclePendingError, e]))), w1)
             | Inr st \<Rightarrow>
                 (case st of
                    Some final \<Rightarrow>
                      (if isFinalStatus txID (Some final) then observeLifecycleFinality i final w1
                       else ((receipt, Some (Wrapped ''wait lifecycle finality'' (Joined [LifecyclePendingError]))), w1))
                  | None \<Rightarrow> ((receipt, Some (Wrapped ''wait lifecycle finality'' (Joined [LifecyclePendingError]))), w1))))))"

subsection \<open>The operations of the service\<close>

text \<open>The part of \<open>submitLifecycleDefinition\<close> that runs while the caller holds the gate.\<close>

definition submitHeld ::
  "Config \<Rightarrow> lifecycle_net \<Rightarrow> nat \<Rightarrow> string \<Rightarrow> 'r lifecycle_state
    \<Rightarrow> (LedgerCommitResult \<times> orch_error option) \<times> 'r lifecycle_state" where
  "submitHeld cfg net i eventType w =
     (let ((result, err), w1) = advanceLifecycleTransaction cfg net i True w;
          w2 = (if err \<noteq> None \<and> lr_TxID result = [] \<and> eventType = LifecycleEventCommit
                then removeLifecycleOperation i w1 else w1)
      in ((result, err), pending_unlock i w2))"

definition submitLifecycleDefinition ::
  "Config \<Rightarrow> lifecycle_net \<Rightarrow> ctx \<Rightarrow> ChaincodeDefinition \<Rightarrow> string \<Rightarrow> 'r lifecycle_state
    \<Rightarrow> (LedgerCommitResult \<times> orch_error option) option \<times> 'r lifecycle_state" where
  "submitLifecycleDefinition cfg net ctx def eventType w =
     (case lifecycleOperation_call ctx def (eventType = LifecycleEventInitialized) w of
        (None, w1) \<Rightarrow> (None, w1)
      | (Some (Inl e), w1) \<Rightarrow> (Some (emptyResult, Some e), w1)
      | (Some (Inr i), w1) \<Rightarrow>
          (let (ret, w2) = submitHeld cfg net i eventType w1 in (Some ret, w2)))"

definition CommitLifecycleDefinition ::
  "Config \<Rightarrow> lifecycle_net \<Rightarrow> ctx \<Rightarrow> ChaincodeDefinition \<Rightarrow> 'r lifecycle_state
    \<Rightarrow> (LedgerCommitResult \<times> orch_error option) option \<times> 'r lifecycle_state" where
  "CommitLifecycleDefinition cfg net ctx def w = submitLifecycleDefinition cfg net ctx def LifecycleEventCommit w"

definition MarkLifecycleInitialized ::
  "Config \<Rightarrow> lifecycle_net \<Rightarrow> ctx \<Rightarrow> ChaincodeDefinition \<Rightarrow> 'r lifecycle_state
    \<Rightarrow> (LedgerCommitResult \<times> orch_error option) option \<times> 'r lifecycle_state" where
  "MarkLifecycleInitialized cfg net ctx def w =
     (if \<not> cd_InitRequired def
      then (Some (emptyResult, Some (Plain (''definition '' @ cd_Name def @ '' does not require init''))), w)
      else submitLifecycleDefinition cfg net ctx def LifecycleEventInitialized w)"

text \<open>
  The server that reconciles.  \<open>ReconcileDefinition\<close> uses of its ledger backend only the read, so the two
  members through which the service would call itself again are left as they are in an unused backend.
\<close>

definition ledgerReader :: "row_query \<Rightarrow> Config \<Rightarrow> 'w LedgerBackend" where
  "ledgerReader q cfg = \<lparr>lb_Commit = (\<lambda>ctx def w. (Inl ''unused'', w)),
     lb_Read = (\<lambda>ctx def w. map_error (\<lambda>_. ''read'') (ReadLifecycleDefinition q cfg def)),
     lb_Finalize = None\<rparr>"

definition lifecycleServer ::
  "'id Authorizer option \<Rightarrow> signer option \<Rightarrow> 'w RemotePeerProvider option \<Rightarrow> row_query \<Rightarrow> Config \<Rightarrow> ('id, 'w) Server" where
  "lifecycleServer auth signer remotes q cfg =
     NewServerWithRemoteProvider (cf_ChannelID cfg) (case cf_MspID cfg of None \<Rightarrow> [] | Some m \<Rightarrow> m)
       auth signer (Some (ledgerReader q cfg)) remotes"

text \<open>An error of the lifecycle server as an orchestrator error.\<close>

definition serverError :: "status \<Rightarrow> orch_error" where
  "serverError st = StatusError (fst st) ''lifecycle''"

text \<open>\<open>None\<close> stands for the zero definition returned when a newer revision superseded the operation.\<close>

definition finalizeLifecycleOperation ::
  "('id, 'r) Server \<Rightarrow> Config \<Rightarrow> lifecycle_net \<Rightarrow> env \<Rightarrow> nat \<Rightarrow> Store \<Rightarrow> 'r lifecycle_state
    \<Rightarrow> (orch_error + CommittedDefinition option) \<times> Store \<times> 'r lifecycle_state" where
  "finalizeLifecycleOperation sv cfg net ev i s w =
     (let p = entry w i in
      case ReadLifecycleDefinition (ln_rows net) cfg (pl_definition p) of
        Inl e \<Rightarrow> (Inl e, s, w)
      | Inr ledger \<Rightarrow>
          (if (case ledger of None \<Rightarrow> False | Some l \<Rightarrow> ld_Sequence l > cd_Sequence (pl_definition p))
           then (Inr None, s, removeLifecycleOperation i w)
           else case ReconcileDefinition sv ev (pl_definition p)
                  (lo_Event (pl_operation p) = LifecycleEventInitialized) (pl_propagation p) s (ls_remotes w) of
             (res, progress, s', r) \<Rightarrow>
               (let w1 = (set_entry i (pl_propagation_update (\<lambda>_. progress)) w)\<lparr>ls_remotes := r\<rparr> in
                case res of
                  Inl st \<Rightarrow> (Inl (serverError st), s', w1)
                | Inr committed \<Rightarrow> (Inr (Some committed), s', removeLifecycleOperation i w1))))"

definition finalizeHeld ::
  "('id, 'r) Server \<Rightarrow> Config \<Rightarrow> lifecycle_net \<Rightarrow> env \<Rightarrow> nat \<Rightarrow> Store \<Rightarrow> 'r lifecycle_state
    \<Rightarrow> (orch_error + CommittedDefinition option) \<times> Store \<times> 'r lifecycle_state" where
  "finalizeHeld sv cfg net ev i s w =
     (let (res, s', w1) = finalizeLifecycleOperation sv cfg net ev i s w in (res, s', pending_unlock i w1))"

definition FinalizeLifecycleDefinition ::
  "('id, 'r) Server \<Rightarrow> Config \<Rightarrow> lifecycle_net \<Rightarrow> env \<Rightarrow> ChaincodeDefinition \<Rightarrow> bool \<Rightarrow> Store \<Rightarrow> 'r lifecycle_state
    \<Rightarrow> (orch_error + CommittedDefinition option) option \<times> Store \<times> 'r lifecycle_state" where
  "FinalizeLifecycleDefinition sv cfg net ev def initialized s w =
     (case lifecycleOperation_call (ev_ctx ev) def initialized w of
        (None, w1) \<Rightarrow> (None, s, w1)
      | (Some (Inl e), w1) \<Rightarrow> (Some (Inl e), s, w1)
      | (Some (Inr i), w1) \<Rightarrow>
          (let (res, s', w2) = finalizeHeld sv cfg net ev i s w1 in (Some res, s', w2)))"

subsection \<open>The recovery pass\<close>

text \<open>One entry of the batch, with the services as they answer for it.\<close>

definition reconcilePending1 ::
  "('id, 'r) Server \<Rightarrow> Config \<Rightarrow> lifecycle_net \<Rightarrow> env \<Rightarrow> nat \<Rightarrow> Store \<Rightarrow> 'r lifecycle_state
    \<Rightarrow> Store \<times> 'r lifecycle_state" where
  "reconcilePending1 sv cfg net ev i s w =
     (if pl_gate (entry w i) then (s, w)
      else
        (let w1 = set_entry i (pl_gate_update (\<lambda>_. True)) w; p = entry w1 i in
         if ls_pending w1 (pl_operation p) \<noteq> Some i then (s, pending_unlock i w1)
         else if lo_Event (pl_operation p) = LifecycleEventCommit \<and> lr_TxID (pl_result p) = [] \<and> lr_Status (pl_result p) = []
         then (s, pending_unlock i (removeLifecycleOperation i w1))
         else
           (let ((result, err), w2) = advanceLifecycleTransaction cfg net i False w1 in
            if err \<noteq> None then (s, pending_unlock i w2)
            else (let (res, s', w3) = finalizeLifecycleOperation sv cfg net ev i s w2
                  in (s', pending_unlock i w3)))))"

definition recoveryBatchSize :: nat where "recoveryBatchSize = 32"

text \<open>
  Go iterates the map in an unspecified order; \<open>order\<close> lists the live entries in the order it took.  The
  pass stops at the first entry for which the context has ended.
\<close>

fun reconcileBatch ::
  "('id, 'r) Server \<Rightarrow> Config \<Rightarrow> (lifecycle_net \<times> env) list \<Rightarrow> nat list \<Rightarrow> Store \<Rightarrow> 'r lifecycle_state
    \<Rightarrow> Store \<times> 'r lifecycle_state" where
  "reconcileBatch sv cfg ((net, ev) # nets) (i # is) s w =
     (if ev_ctx ev \<noteq> None then (s, w)
      else (let (s', w') = reconcilePending1 sv cfg net ev i s w in reconcileBatch sv cfg nets is s' w'))"
| "reconcileBatch sv cfg nets is s w = (s, w)"

definition reconcileLifecyclePending ::
  "('id, 'r) Server \<Rightarrow> Config \<Rightarrow> (lifecycle_net \<times> env) list \<Rightarrow> nat list \<Rightarrow> Store \<Rightarrow> 'r lifecycle_state
    \<Rightarrow> Store \<times> 'r lifecycle_state" where
  "reconcileLifecyclePending sv cfg nets order s w = reconcileBatch sv cfg nets (take recoveryBatchSize order) s w"

end
