(* ===== verification/Pending_Guarantees.thy ===== *)
theory Pending_Guarantees
  imports Pending_Lifecycle
begin

section \<open>No lifecycle transaction is sent blindly a second time\<close>

text \<open>
  Calls are \<open>CommitLifecycleDefinition\<close>, \<open>MarkLifecycleInitialized\<close>, \<open>FinalizeLifecycleDefinition\<close> and the
  treatment of one entry by the recovery pass, each with its own services.  They are described twice: as
  whole calls, one after the other, and as the actions of overlapping callers, where lookup, gate and the work
  under the gate are separate.  A configuration remembers for every operation the last transaction sent
  whose outcome no service has reported since, and the operations a transaction was sent for from an entry
  that was no longer in the map.  The property is that a remembered operation is not sent again.
\<close>

subsection \<open>Outcomes\<close>

text \<open>
  The outcome of a transaction of an operation is known when the status service reports a final status
  for it, or when the ledger holds the revision of the operation or a newer one.
\<close>

definition reported :: "lifecycle_net \<Rightarrow> string \<Rightarrow> bool" where
  "reported net t \<longleftrightarrow> (\<exists>st. queryTransactionStatus (ln_status net) t = Inr (Some st))"

definition on_ledger :: "Config \<Rightarrow> lifecycle_net \<Rightarrow> lifecycleOperation \<Rightarrow> ChaincodeDefinition \<Rightarrow> bool" where
  "on_ledger cfg net op d \<longleftrightarrow>
     (\<exists>ledger. ReadLifecycleDefinition (ln_rows net) cfg d = Inr (Some ledger) \<and>
       (ld_Sequence ledger > cd_Sequence d \<or>
        ChaincodeDefinitionFromLedger ledger = d \<and> (lo_Event op = LifecycleEventInitialized \<longrightarrow> ld_Initialized ledger)))"

definition settles :: "Config \<Rightarrow> lifecycle_net \<Rightarrow> lifecycleOperation \<Rightarrow> string \<times> ChaincodeDefinition \<Rightarrow> bool" where
  "settles cfg net op x \<longleftrightarrow> reported net (fst x) \<or> on_ledger cfg net op (snd x)"

text \<open>The transaction just sent was refused by the orderer, or its notification reported a final status.\<close>

definition refused :: "lifecycle_net \<Rightarrow> bool" where
  "refused net \<longleftrightarrow> od_Send (ln_ordering net) = None \<and>
     (\<exists>st info. od_Recv (ln_ordering net) = Inr (st, info) \<and> st \<noteq> Status_SUCCESS)"

definition notified :: "lifecycle_net \<Rightarrow> string \<Rightarrow> bool" where
  "notified net t \<longleftrightarrow> (\<exists>s st. subscribeFinality (ln_notify net) t = Inr s \<and> finality_Wait s = Inr (Some st) \<and>
     isFinalStatus t (Some st))"

subsection \<open>Entries that track a transaction\<close>

definition core :: "pendingLifecycle \<Rightarrow> lifecycleOperation \<times> ChaincodeDefinition \<times> LedgerCommitResult" where
  "core p = (pl_operation p, pl_definition p, pl_result p)"

definition view :: "'r lifecycle_state \<Rightarrow> (lifecycleOperation \<Rightarrow> nat option) \<times>
    (lifecycleOperation \<times> ChaincodeDefinition \<times> LedgerCommitResult) list" where
  "view w = (ls_pending w, map core (ls_heap w))"

definition tracked :: "'r lifecycle_state \<Rightarrow> lifecycleOperation \<Rightarrow> string \<times> ChaincodeDefinition \<Rightarrow> bool" where
  "tracked w op x \<longleftrightarrow> (\<exists>i r. ls_pending w op = Some i \<and> i < length (ls_heap w) \<and>
     core (entry w i) = (op, snd x, r) \<and> lr_TxID r = fst x \<and> fst x \<noteq> [] \<and> lr_Status r \<noteq> status_string COMMITTED)"

definition entries_ok :: "'r lifecycle_state \<Rightarrow> bool" where
  "entries_ok w \<longleftrightarrow> (\<forall>op i. ls_pending w op = Some i \<longrightarrow> i < length (ls_heap w) \<and> pl_operation (entry w i) = op)"

lemma core_nth: "i < length (ls_heap w) \<Longrightarrow> core (entry w i) = snd (view w) ! i"
  by (simp add: view_def)

lemma view_tracked: "view w' = view w \<Longrightarrow> tracked w' = tracked w"
proof (intro ext)
  fix op x
  assume v: "view w' = view w"
  then have "ls_pending w' = ls_pending w" "length (ls_heap w') = length (ls_heap w)"
    by (auto simp: view_def dest: map_eq_imp_length_eq)
  then show "tracked w' op x = tracked w op x" unfolding tracked_def
    using core_nth[of _ w'] core_nth[of _ w] v by metis
qed

lemma view_ok: "view w' = view w \<Longrightarrow> entries_ok w' = entries_ok w"
proof -
  assume v: "view w' = view w"
  then have "ls_pending w' = ls_pending w" "length (ls_heap w') = length (ls_heap w)"
    by (auto simp: view_def dest: map_eq_imp_length_eq)
  moreover have "i < length (ls_heap w) \<Longrightarrow> pl_operation (entry w i) = fst (snd (view w) ! i)" for i
    using core_nth[of i w] by (simp add: core_def prod_eq_iff)
  moreover have "i < length (ls_heap w') \<Longrightarrow> pl_operation (entry w' i) = fst (snd (view w) ! i)" for i
    using core_nth[of i w'] v by (simp add: core_def prod_eq_iff)
  ultimately show ?thesis unfolding entries_ok_def by metis
qed

lemma view_set_entry: "(\<And>p. core (f p) = core p) \<Longrightarrow> view (set_entry i f w) = view w"
  by (cases "i < length (ls_heap w)") (auto simp: view_def set_entry_def map_update list_update_same_conv list_update_beyond)

lemma view_gate [simp]: "view (set_entry i (pl_gate_update f) w) = view w"
  "view (set_entry i (pl_propagation_update g) w) = view w" "view (pending_unlock i w) = view w"
  by (simp_all add: view_set_entry core_def pending_unlock_def)

lemma sent_simps [simp]:
  "ls_sent (set_entry i f w) = ls_sent w" "ls_sent (set_result i r w) = ls_sent w"
  "ls_sent (pending_unlock i w) = ls_sent w" "ls_sent (removeLifecycleOperation i w) = ls_sent w"
  "ls_pending (set_entry i f w) = ls_pending w" "ls_pending (set_result i r w) = ls_pending w"
  "ls_pending (pending_unlock i w) = ls_pending w"
  "length (ls_heap (set_entry i f w)) = length (ls_heap w)" "length (ls_heap (set_result i r w)) = length (ls_heap w)"
  "length (ls_heap (pending_unlock i w)) = length (ls_heap w)"
  "ls_heap (removeLifecycleOperation i w) = ls_heap w"
  by (simp_all add: set_entry_def set_result_def pending_unlock_def removeLifecycleOperation_def)

lemma view_sent [simp]: "view (w\<lparr>ls_sent := x\<rparr>) = view w" "view (w\<lparr>ls_remotes := r\<rparr>) = view w"
  by (simp_all add: view_def)

lemma entry_set:
  "j < length (ls_heap w) \<Longrightarrow> entry (set_entry i f w) j = (if j = i then f (entry w i) else entry w j)"
  by (simp add: set_entry_def nth_list_update)

lemma pending_remove:
  "ls_pending (removeLifecycleOperation i w) op = Some j \<Longrightarrow> ls_pending w op = Some j"
  by (simp add: removeLifecycleOperation_def split: if_splits)

lemma entries_remove: "entries_ok w \<Longrightarrow> entries_ok (removeLifecycleOperation i w)"
  unfolding entries_ok_def sent_simps using pending_remove by metis

lemma entries_result: "entries_ok w \<Longrightarrow> entries_ok (set_result i r w)"
  unfolding entries_ok_def set_result_def sent_simps by (simp add: entry_set)

lemma tracked_remove:
  assumes "entries_ok w" and "i < length (ls_heap w)" and "op \<noteq> pl_operation (entry w i)"
  shows "tracked (removeLifecycleOperation i w) op x = tracked w op x"
  using assms by (simp add: tracked_def removeLifecycleOperation_def)

lemma tracked_result:
  assumes "entries_ok w" and "i < length (ls_heap w)" and "op \<noteq> pl_operation (entry w i)"
  shows "tracked (set_result i r w) op x = tracked w op x"
proof -
  have "ls_pending w op \<noteq> Some i" using assms by (auto simp: entries_ok_def)
  then show ?thesis unfolding tracked_def set_result_def sent_simps by (metis entry_set)
qed

lemma tracked_set:
  assumes "ls_pending w (pl_operation (entry w i)) = Some i" and "i < length (ls_heap w)"
    and "lr_TxID r \<noteq> []" and "lr_Status r \<noteq> status_string COMMITTED"
  shows "tracked (set_result i r w) (pl_operation (entry w i)) (lr_TxID r, pl_definition (entry w i))"
  unfolding tracked_def using assms
  by (intro exI[of _ i] exI[of _ r]) (auto simp: set_result_def set_entry_def core_def)

subsection \<open>Work on one entry\<close>

text \<open>Work on entry \<open>i\<close> changes its result and may drop it from the map; nothing else.\<close>

definition touched :: "nat \<Rightarrow> 'r lifecycle_state \<Rightarrow> 'r lifecycle_state \<Rightarrow> bool" where
  "touched i w w' \<longleftrightarrow> length (ls_heap w') = length (ls_heap w) \<and>
     (\<forall>op. op \<noteq> pl_operation (entry w i) \<longrightarrow> ls_pending w' op = ls_pending w op) \<and>
     ls_pending w' (pl_operation (entry w i)) \<in> {ls_pending w (pl_operation (entry w i)), None} \<and>
     (\<forall>j. j < length (ls_heap w) \<and> j \<noteq> i \<longrightarrow> entry w' j = entry w j) \<and>
     pl_operation (entry w' i) = pl_operation (entry w i) \<and> pl_definition (entry w' i) = pl_definition (entry w i)"

lemma touched_refl [simp]: "touched i w w"
  by (simp add: touched_def)

lemma touched_trans: "touched i w w' \<Longrightarrow> touched i w' w'' \<Longrightarrow> touched i w w''"
  unfolding touched_def by auto

lemma touched_entry:
  "i < length (ls_heap w) \<Longrightarrow> (\<And>p. pl_operation (f p) = pl_operation p \<and> pl_definition (f p) = pl_definition p) \<Longrightarrow>
    touched i w (set_entry i f w)"
  by (simp add: touched_def entry_set)

lemma touched_result [simp]: "i < length (ls_heap w) \<Longrightarrow> touched i w (set_result i r w)"
  by (simp add: set_result_def touched_entry)

lemma touched_unlock [simp]: "i < length (ls_heap w) \<Longrightarrow> touched i w (pending_unlock i w)"
  by (simp add: pending_unlock_def touched_entry)

lemma touched_remove [simp]: "touched i w (removeLifecycleOperation i w)"
  by (simp add: touched_def removeLifecycleOperation_def)

lemma touched_sent [simp]: "touched i w (w\<lparr>ls_sent := x\<rparr>)" "touched i w (w\<lparr>ls_remotes := r\<rparr>)"
  by (simp_all add: touched_def)

lemma touched_length: "touched i w w' \<Longrightarrow> length (ls_heap w') = length (ls_heap w)"
  by (simp add: touched_def)

lemma touched_ok:
  assumes "entries_ok w" and "touched i w w'"
  shows "entries_ok w'"
  unfolding entries_ok_def
proof (intro allI impI)
  fix op j
  assume "ls_pending w' op = Some j"
  then have "ls_pending w op = Some j" using assms(2) unfolding touched_def
    by (cases "op = pl_operation (entry w i)") auto
  then have "j < length (ls_heap w)" "pl_operation (entry w j) = op" using assms(1) by (auto simp: entries_ok_def)
  then show "j < length (ls_heap w') \<and> pl_operation (entry w' j) = op"
    using assms(2) unfolding touched_def by (cases "j = i") auto
qed

lemma touched_other:
  assumes "entries_ok w" and "touched i w w'" and "op \<noteq> pl_operation (entry w i)"
  shows "tracked w' op x = tracked w op x"
proof -
  have "ls_pending w op \<noteq> Some i" "ls_pending w' op = ls_pending w op" using assms by (auto simp: entries_ok_def touched_def)
  then show ?thesis using assms(2) unfolding tracked_def touched_def by (metis (no_types, lifting))
qed

lemma observe_touches:
  "i < length (ls_heap w) \<Longrightarrow> observeLifecycleFinality i st w = (ret, w') \<Longrightarrow> touched i w w'"
  by (auto simp: observeLifecycleFinality_def Let_def split: if_splits)

lemma advance_touches:
  assumes "i < length (ls_heap w)" and "advanceLifecycleTransaction cfg net i waiting w = (ret, w')"
  shows "touched i w w'"
proof -
  have s: "touched i w (set_result i r (w\<lparr>ls_sent := x\<rparr>))" for r x
    using assms(1) touched_trans[OF touched_sent(1) touched_result] by simp
  have ob: "touched i w w''" if "observeLifecycleFinality i st (set_result i r (w\<lparr>ls_sent := x\<rparr>)) = (ret', w'')"
    for st r x ret' w''
    using touched_trans[OF s observe_touches[OF _ that]] assms(1) by simp
  show ?thesis using assms s ob observe_touches
    by (cases ret) (auto simp: advanceLifecycleTransaction_def Let_def split: if_splits sum.splits option.splits prod.splits)
qed

lemma finalize_touches:
  assumes "i < length (ls_heap w)" and "finalizeLifecycleOperation sv cfg net ev i s w = (ret, s', w')"
  shows "touched i w w'"
proof -
  have s: "touched i w ((set_entry i (pl_propagation_update f) w)\<lparr>ls_remotes := r\<rparr>)" for f r
    using assms(1) by (intro touched_trans[OF touched_entry touched_sent(2)]) simp_all
  have t: "touched i w (removeLifecycleOperation i ((set_entry i (pl_propagation_update f) w)\<lparr>ls_remotes := r\<rparr>))" for f r
    by (rule touched_trans[OF s touched_remove])
  show ?thesis using assms s t
    by (auto simp: finalizeLifecycleOperation_def Let_def split: if_splits sum.splits option.splits prod.splits)
qed

text \<open>A transaction whose outcome no service reports stays tracked, and nothing is sent for it.\<close>

lemma tracked_entry:
  assumes "tracked w op x" and "entries_ok w" and "op = pl_operation (entry w i)" and "ls_pending w op = Some i"
  shows "lr_TxID (pl_result (entry w i)) = fst x \<and> fst x \<noteq> [] \<and> pl_definition (entry w i) = snd x \<and>
    lr_Status (pl_result (entry w i)) \<noteq> status_string COMMITTED"
  using assms by (auto simp: tracked_def core_def)

lemma advance_unreported:
  assumes "tracked w op x" and "entries_ok w" and "op = pl_operation (entry w i)" and "ls_pending w op = Some i"
    and "\<not> reported net (fst x)" and "advanceLifecycleTransaction cfg net i waiting w = (ret, w')"
  shows "w' = w \<and> snd ret \<noteq> None \<and> lr_TxID (fst ret) = fst x"
  using tracked_entry[OF assms(1-4)] assms(5,6)
  by (auto simp: advanceLifecycleTransaction_def Let_def reported_def split: sum.splits option.splits)

lemma finalize_unsettled:
  assumes "tracked w op x" and "entries_ok w" and "op = pl_operation (entry w i)" and "ls_pending w op = Some i"
    and "\<not> on_ledger cfg net op (snd x)"
    and "finalizeLifecycleOperation (lifecycleServer auth signer remotes (ln_rows net) cfg) cfg net ev i s w = (ret, s', w')"
  shows "tracked w' op x"
proof -
  note d = tracked_entry[OF assms(1-4)]
  have same: "tracked ((set_entry i (pl_propagation_update f) w)\<lparr>ls_remotes := r\<rparr>) op x" for f r
    using assms(1) view_tracked[of "(set_entry i (pl_propagation_update f) w)\<lparr>ls_remotes := r\<rparr>" w] by simp
  have no: "ReconcileDefinition (lifecycleServer auth signer remotes (ln_rows net) cfg) ev (snd x)
      (lo_Event op = LifecycleEventInitialized) progress s r \<noteq> (Inr committed, rest)" for progress r committed rest
  proof
    assume "ReconcileDefinition (lifecycleServer auth signer remotes (ln_rows net) cfg) ev (snd x)
      (lo_Event op = LifecycleEventInitialized) progress s r = (Inr committed, rest)"
    then have "\<exists>c s1. applyLedgerDefinition (lifecycleServer auth signer remotes (ln_rows net) cfg) ev (snd x)
        (lo_Event op = LifecycleEventInitialized) s r = (Inr c, s1)"
      by (auto simp: ReconcileDefinition_def split: sum.splits prod.splits)
    then show False using assms(5)
      by (auto simp: applyLedgerDefinition_def lifecycleServer_def NewServerWithRemoteProvider_def ledgerReader_def
          map_error_def on_ledger_def split: sum.splits option.splits if_splits)
  qed
  show ?thesis
    using assms(6) d no same assms(1,5) unfolding assms(3)[symmetric]
    by (auto simp: finalizeLifecycleOperation_def Let_def on_ledger_def assms(3)[symmetric]
        split: sum.splits option.splits if_splits prod.splits)
qed

text \<open>What a call that sends a transaction leaves behind.\<close>

lemma observe_sent: "observeLifecycleFinality i st w = (ret, w') \<Longrightarrow> ls_sent w' = ls_sent w"
  by (auto simp: observeLifecycleFinality_def Let_def split: if_splits)

lemma finalize_sent: "finalizeLifecycleOperation sv cfg net ev i s w = (ret, s', w') \<Longrightarrow> ls_sent w' = ls_sent w"
  by (auto simp: finalizeLifecycleOperation_def Let_def split: if_splits sum.splits option.splits prod.splits)

definition receiptOf :: "Config \<Rightarrow> ChaincodeDefinition \<Rightarrow> string \<Rightarrow> LedgerCommitResult" where
  "receiptOf cfg d txID = emptyResult\<lparr>lr_TxID := txID, lr_Namespace := lifecycleNamespace cfg,
     lr_Key := LedgerKey (cf_ChannelID cfg) (cd_Name d)\<rparr>"

lemma receipt_tx [simp]: "lr_TxID (receiptOf cfg d txID) = txID"
  by (simp add: receiptOf_def)

lemma advance_sends:
  assumes "ls_pending w (pl_operation (entry w i)) = Some i" and "i < length (ls_heap w)"
    and "advanceLifecycleTransaction cfg net i waiting w = (ret, w')" and "ls_sent w' \<noteq> ls_sent w"
  shows "\<not> tracked w (pl_operation (entry w i)) x \<and>
    (\<exists>en txID. prepareLifecycleTransaction (ln_lib net) (ln_rows net) cfg (pl_definition (entry w i))
        (lo_Event (pl_operation (entry w i))) = Inr (en, txID) \<and> txID \<noteq> [] \<and>
      (refused net \<or> notified net txID \<or>
       tracked w' (pl_operation (entry w i)) (txID, pl_definition (entry w i)) \<and> lr_TxID (fst ret) = txID \<and> snd ret \<noteq> None))"
proof -
  let ?p = "entry w i"
  have new: "lr_TxID (pl_result ?p) = []"
    using assms(3,4) by (auto simp: advanceLifecycleTransaction_def Let_def dest: observe_sent
        split: sum.splits option.splits if_splits)
  have "lr_Status (pl_result ?p) \<noteq> status_string COMMITTED"
    using assms(3,4) by (auto simp: advanceLifecycleTransaction_def Let_def)
  then obtain en txID where prep: "prepareLifecycleTransaction (ln_lib net) (ln_rows net) cfg (pl_definition ?p)
      (lo_Event (pl_operation ?p)) = Inr (en, txID)" and tx: "txID \<noteq> []"
    using assms(3,4) new by (auto simp: advanceLifecycleTransaction_def Let_def split: sum.splits if_splits)
  obtain fin where fin: "(if waiting then subscribeFinality (ln_notify net) txID else Inr None) = Inr fin"
    using assms(3,4) new prep tx \<open>lr_Status (pl_result ?p) \<noteq> _\<close>
    by (auto simp: advanceLifecycleTransaction_def Let_def split: sum.splits)
  obtain r sent where sub: "Submit_envelope (ln_submitter net) (ln_ordering net) en = (r, sent)" by fastforce
  have track: "tracked (set_result i (receiptOf cfg (pl_definition ?p) txID) (w\<lparr>ls_sent := y\<rparr>))
      (pl_operation ?p) (txID, pl_definition ?p)" for y
    using tracked_set[of "w\<lparr>ls_sent := y\<rparr>" i "receiptOf cfg (pl_definition ?p) txID"] assms(1,2) tx
    by (simp add: receiptOf_def emptyResult_def)
  have run: "advanceLifecycleTransaction cfg net i waiting w =
      (case r of
         Inl e \<Rightarrow> (let kept = (if uncertainDelivery e = Some True then receiptOf cfg (pl_definition ?p) txID
                           else (receiptOf cfg (pl_definition ?p) txID)\<lparr>lr_TxID := []\<rparr>) in
            ((kept, Some (Wrapped ''submit lifecycle transaction'' e)),
             set_result i kept (w\<lparr>ls_sent := ls_sent w @ sent\<rparr>)))
       | Inr _ \<Rightarrow>
           (let w1 = set_result i (receiptOf cfg (pl_definition ?p) txID) (w\<lparr>ls_sent := ls_sent w @ sent\<rparr>) in
            if \<not> waiting \<or> fin = None then ((receiptOf cfg (pl_definition ?p) txID, Some LifecyclePendingError), w1)
            else case finality_Wait fin of
              Inl e \<Rightarrow> ((receiptOf cfg (pl_definition ?p) txID,
                  Some (Wrapped ''wait lifecycle finality'' (Joined [LifecyclePendingError, e]))), w1)
            | Inr st \<Rightarrow> (case st of
                Some final \<Rightarrow> (if isFinalStatus txID (Some final) then observeLifecycleFinality i final w1
                  else ((receiptOf cfg (pl_definition ?p) txID,
                    Some (Wrapped ''wait lifecycle finality'' (Joined [LifecyclePendingError]))), w1))
              | None \<Rightarrow> ((receiptOf cfg (pl_definition ?p) txID,
                    Some (Wrapped ''wait lifecycle finality'' (Joined [LifecyclePendingError]))), w1))))"
    using new prep tx fin sub \<open>lr_Status (pl_result ?p) \<noteq> _\<close>
    by (simp add: advanceLifecycleTransaction_def receiptOf_def Let_def split: sum.split option.split)
  have "refused net \<or> notified net txID \<or>
       tracked w' (pl_operation ?p) (txID, pl_definition ?p) \<and> lr_TxID (fst ret) = txID \<and> snd ret \<noteq> None"
  proof (cases r)
    case (Inl e)
    show ?thesis
    proof (cases "uncertainDelivery e = Some True")
      case True
      then show ?thesis using run assms(3) Inl track[of "ls_sent w @ sent"] by (auto simp: Let_def)
    next
      case False
      have "ls_sent w' = ls_sent w @ sent" using run assms(3) Inl by (auto simp: Let_def)
      then have "sent \<noteq> []" using assms(4) by auto
      then have "refused net" using sub Inl False
        by (auto simp: Submit_envelope_def refused_def split: sum.splits option.splits prod.splits if_splits)
      then show ?thesis by simp
    qed
  next
    case (Inr u)
    show ?thesis
    proof (cases "\<exists>final. waiting \<and> fin \<noteq> None \<and> finality_Wait fin = Inr (Some final) \<and> isFinalStatus txID (Some final)")
      case True
      then have "notified net txID" using fin by (auto simp: notified_def)
      then show ?thesis by simp
    next
      case False
      show ?thesis using run assms(3) Inr track[of "ls_sent w @ sent"] False
        by (auto simp: Let_def split: if_splits sum.splits option.splits)
    qed
  qed
  moreover have "\<not> tracked w (pl_operation ?p) x"
    using new assms(1) by (auto simp: tracked_def core_def)
  ultimately show ?thesis using prep tx by blast
qed

subsection \<open>Calls and configurations\<close>

lemma findOrCreate_effect:
  assumes "entries_ok w" and "findOrCreate ctx def b w = (res, w1)"
  shows "entries_ok w1 \<and> ls_sent w1 = ls_sent w \<and> tracked w1 = tracked w \<and>
    (\<forall>i h. res = Inr (i, h) \<longrightarrow> ls_pending w1 (operationKey def b) = Some i \<and> i < length (ls_heap w1) \<and>
       pl_operation (entry w1 i) = operationKey def b \<and> pl_definition (entry w1 i) = def)"
proof (cases "ls_closed w \<or> ls_pending w (operationKey def b) \<noteq> None \<or> (ctx \<noteq> None \<and> \<not> b)")
  case True
  then have "w1 = w"
    using assms(2) by (auto simp: findOrCreate_def Let_def split: if_splits option.splits)
  moreover have "ls_pending w (operationKey def b) = Some i \<and> pl_definition (entry w i) = def"
    if "res = Inr (i, h)" for i h
    using True assms(2) that by (auto simp: findOrCreate_def Let_def split: if_splits option.splits)
  ultimately show ?thesis using assms(1) unfolding entries_ok_def by metis
next
  case False
  let ?key = "operationKey def b"
  obtain g where w1: "w1 = w\<lparr>ls_heap := ls_heap w @ [(newPending ?key def)\<lparr>pl_gate := g\<rparr>],
      ls_pending := (ls_pending w)(?key \<mapsto> length (ls_heap w))\<rparr>"
    and res: "\<And>i h. res = Inr (i, h) \<Longrightarrow> i = length (ls_heap w)"
  proof (cases ctx)
    case None
    then show thesis using that[of True] False assms(2) by (auto simp: findOrCreate_def Let_def)
  next
    case (Some e)
    then show thesis using that[of False] False assms(2)
      by (auto simp: findOrCreate_def Let_def newPending_def)
  qed
  have ok: "entries_ok w1"
    using assms(1) False by (auto simp: w1 entries_ok_def nth_append newPending_def less_Suc_eq)
  have old: "entry w1 i = entry w i" if "i < length (ls_heap w)" for i
    using that by (simp add: w1 nth_append)
  have "tracked w1 op x = tracked w op x" for op x
  proof (cases "op = ?key")
    case True
    then show ?thesis using False by (auto simp: tracked_def w1 core_def newPending_def emptyResult_def)
  next
    case op: False
    then have p: "ls_pending w1 op = ls_pending w op" by (simp add: w1)
    show ?thesis
    proof (cases "ls_pending w op")
      case None
      then show ?thesis by (simp add: tracked_def p)
    next
      case (Some i)
      then have "i < length (ls_heap w)" using assms(1) by (simp add: entries_ok_def)
      then have "entry w1 i = entry w i" "i < length (ls_heap w1)" "i < length (ls_heap w)"
        using old by (simp_all add: w1)
      then show ?thesis by (simp add: tracked_def p Some)
    qed
  qed
  then show ?thesis using ok res by (auto simp: w1 newPending_def fun_eq_iff)
qed

lemma operation_effect:
  assumes "entries_ok w" and "lifecycleOperation_call ctx def b w = (res, w1)"
  shows "entries_ok w1 \<and> ls_sent w1 = ls_sent w \<and> tracked w1 = tracked w \<and>
    (\<forall>i. res = Some (Inr i) \<longrightarrow> ls_pending w1 (operationKey def b) = Some i \<and> i < length (ls_heap w1) \<and>
       pl_operation (entry w1 i) = operationKey def b \<and> pl_definition (entry w1 i) = def)"
proof -
  obtain r w0 where f: "findOrCreate ctx def b w = (r, w0)" by fastforce
  note e = findOrCreate_effect[OF assms(1) f]
  show ?thesis
  proof (cases r)
    case (Inl err)
    then show ?thesis using e assms(2) f by (auto simp: lifecycleOperation_call_def)
  next
    case (Inr ih)
    obtain i h where ih: "ih = (i, h)" by fastforce
    note at = e[unfolded Inr ih, simplified]
    show ?thesis
    proof (cases h)
      case True
      then show ?thesis using at assms(2) f Inr ih by (auto simp: lifecycleOperation_call_def)
    next
      case False
      let ?w = "set_entry i (pl_gate_update (\<lambda>_. True)) w0"
      have v: "view ?w = view w0" by simp
      have "entry ?w i = (entry w0 i)\<lparr>pl_gate := True\<rparr>" using at by (simp add: entry_set)
      then show ?thesis using at assms(2) f Inr ih False view_ok[OF v] view_tracked[OF v]
        by (auto simp: lifecycleOperation_call_def pending_lock_def split: option.splits if_splits)
    qed
  qed
qed

datatype lifecycle_call =
    CallCommit ctx ChaincodeDefinition
  | CallMark ctx ChaincodeDefinition
  | CallFinalize ChaincodeDefinition bool
  | CallRecover nat

fun call_op :: "lifecycle_call \<Rightarrow> 'r lifecycle_state \<Rightarrow> lifecycleOperation" where
  "call_op (CallCommit ctx def) w = operationKey def False"
| "call_op (CallMark ctx def) w = operationKey def True"
| "call_op (CallFinalize def b) w = operationKey def b"
| "call_op (CallRecover i) w = pl_operation (entry w i)"

fun call_def :: "lifecycle_call \<Rightarrow> 'r lifecycle_state \<Rightarrow> ChaincodeDefinition" where
  "call_def (CallCommit ctx def) w = def"
| "call_def (CallMark ctx def) w = def"
| "call_def (CallFinalize def b) w = def"
| "call_def (CallRecover i) w = pl_definition (entry w i)"

fun call_live :: "lifecycle_call \<Rightarrow> 'r lifecycle_state \<Rightarrow> bool" where
  "call_live (CallRecover i) w \<longleftrightarrow> i < length (ls_heap w)"
| "call_live call w \<longleftrightarrow> True"

text \<open>What is fixed for a service: its authorizer, signer, remote organizations and configuration.\<close>

record ('id, 'r) lifecycle_setup =
  lt_auth :: "'id Authorizer option"
  lt_signer :: "signer option"
  lt_remotes :: "'r RemotePeerProvider option"
  lt_cfg :: Config

definition setup_server :: "('id, 'r) lifecycle_setup \<Rightarrow> lifecycle_net \<Rightarrow> ('id, 'r) Server" where
  "setup_server t net = lifecycleServer (lt_auth t) (lt_signer t) (lt_remotes t) (ln_rows net) (lt_cfg t)"

fun run_call ::
  "('id, 'r) lifecycle_setup \<Rightarrow> lifecycle_net \<Rightarrow> env \<Rightarrow> lifecycle_call \<Rightarrow> Store \<Rightarrow> 'r lifecycle_state
    \<Rightarrow> (Store \<times> 'r lifecycle_state) option" where
  "run_call t net ev (CallCommit ctx def) s w =
     (case CommitLifecycleDefinition (lt_cfg t) net ctx def w of (None, _) \<Rightarrow> None | (Some _, w') \<Rightarrow> Some (s, w'))"
| "run_call t net ev (CallMark ctx def) s w =
     (case MarkLifecycleInitialized (lt_cfg t) net ctx def w of (None, _) \<Rightarrow> None | (Some _, w') \<Rightarrow> Some (s, w'))"
| "run_call t net ev (CallFinalize def b) s w =
     (case FinalizeLifecycleDefinition (setup_server t net) (lt_cfg t) net ev def b s w of
        (None, _) \<Rightarrow> None | (Some _, s', w') \<Rightarrow> Some (s', w'))"
| "run_call t net ev (CallRecover i) s w = Some (reconcilePending1 (setup_server t net) (lt_cfg t) net ev i s w)"

text \<open>What one call does to the operations it finds.\<close>

definition call_sound ::
  "Config \<Rightarrow> lifecycle_net \<Rightarrow> lifecycleOperation \<Rightarrow> ChaincodeDefinition \<Rightarrow> 'r lifecycle_state \<Rightarrow> 'r lifecycle_state \<Rightarrow> bool" where
  "call_sound cfg net op d w w' \<longleftrightarrow> entries_ok w' \<and>
     (\<forall>o' x. tracked w o' x \<longrightarrow> \<not> settles cfg net o' x \<longrightarrow> tracked w' o' x) \<and>
     (ls_sent w' \<noteq> ls_sent w \<longrightarrow> (\<forall>x. \<not> tracked w op x) \<and>
        (\<exists>en txID. prepareLifecycleTransaction (ln_lib net) (ln_rows net) cfg d (lo_Event op) = Inr (en, txID) \<and>
          txID \<noteq> [] \<and> (refused net \<or> notified net txID \<or> tracked w' op (txID, d))))"

lemma sound_refl: "entries_ok w \<Longrightarrow> call_sound cfg net op d w w"
  by (simp add: call_sound_def)

lemma sound_view:
  "call_sound cfg net op d w0 w \<Longrightarrow> view w0' = view w0 \<Longrightarrow> ls_sent w0' = ls_sent w0 \<Longrightarrow>
    view w' = view w \<Longrightarrow> ls_sent w' = ls_sent w \<Longrightarrow> call_sound cfg net op d w0' w'"
  using view_tracked[of w' w] view_tracked[of w0' w0] view_ok[of w' w] by (simp add: call_sound_def)

lemma sound_unlock:
  assumes "call_sound cfg net op d w0 w"
  shows "call_sound cfg net op d w0 (pending_unlock i w)"
  by (rule sound_view[OF assms]) simp_all

lemma remove_untracked:
  assumes "entries_ok w" and "i < length (ls_heap w)" and "\<And>x. \<not> tracked w (pl_operation (entry w i)) x"
  shows "call_sound cfg net op d w (removeLifecycleOperation i w)"
proof -
  have "tracked (removeLifecycleOperation i w) o' x" if "tracked w o' x" for o' x
    using tracked_remove[OF assms(1,2), of o' x] that assms(3) by (cases "o' = pl_operation (entry w i)") auto
  then show ?thesis using entries_remove[OF assms(1)] by (simp add: call_sound_def)
qed

text \<open>Advancing an entry, with the removal \<open>submitLifecycleDefinition\<close> adds for a definition never sent.\<close>

lemma advance_sound:
  assumes "entries_ok w" and "ls_pending w op = Some i" and "op = pl_operation (entry w i)" and "d = pl_definition (entry w i)"
    and "advanceLifecycleTransaction cfg net i waiting w = (ret, w1)"
    and "w' = (if snd ret \<noteq> None \<and> lr_TxID (fst ret) = [] \<and> drops then removeLifecycleOperation i w1 else w1)"
  shows "call_sound cfg net op d w w'"
proof -
  have i: "i < length (ls_heap w)" using assms(1,2) by (simp add: entries_ok_def)
  have t1: "touched i w w1" by (rule advance_touches[OF i assms(5)])
  have t: "touched i w w'" using t1 touched_trans[OF t1 touched_remove] assms(6) by simp
  have sent: "ls_sent w' = ls_sent w1" using assms(6) by simp
  have own: "tracked w' op x" if tr: "tracked w op x" and ns: "\<not> settles cfg net op x" for x
  proof -
    have "\<not> reported net (fst x)" using ns by (simp add: settles_def)
    note u = advance_unreported[OF tr assms(1,3,2) this assms(5)]
    then have "w' = w" using assms(6) tracked_entry[OF tr assms(1,3,2)] by auto
    then show ?thesis using tr by simp
  qed
  have other: "tracked w' o' x" if "tracked w o' x" "o' \<noteq> op" for o' x
    using touched_other[OF assms(1) t] that assms(3) by simp
  have new: "(\<forall>x. \<not> tracked w op x) \<and> (\<exists>en txID. prepareLifecycleTransaction (ln_lib net) (ln_rows net) cfg d (lo_Event op) = Inr (en, txID) \<and>
      txID \<noteq> [] \<and> (refused net \<or> notified net txID \<or> tracked w' op (txID, d)))" if "ls_sent w' \<noteq> ls_sent w"
  proof -
    have s1: "ls_sent w1 \<noteq> ls_sent w" using that sent by simp
    note a = advance_sends[OF assms(2)[unfolded assms(3)] i assms(5) s1, folded assms(3) assms(4)]
    then obtain en txID where "prepareLifecycleTransaction (ln_lib net) (ln_rows net) cfg d (lo_Event op) = Inr (en, txID)"
      "txID \<noteq> []" "refused net \<or> notified net txID \<or> tracked w1 op (txID, d) \<and> lr_TxID (fst ret) = txID" by blast
    moreover from this have "refused net \<or> notified net txID \<or> tracked w' op (txID, d)" using assms(6) by auto
    ultimately show ?thesis using a by blast
  qed
  show ?thesis unfolding call_sound_def using touched_ok[OF assms(1) t] own other new by metis
qed

lemma finalize_sound:
  assumes "entries_ok w" and "ls_pending w op = Some i" and "op = pl_operation (entry w i)"
    and "finalizeLifecycleOperation (lifecycleServer auth signer remotes (ln_rows net) cfg) cfg net ev i s w = (ret, s', w')"
  shows "call_sound cfg net op d w w'"
proof -
  have i: "i < length (ls_heap w)" using assms(1,2) by (simp add: entries_ok_def)
  have t: "touched i w w'" by (rule finalize_touches[OF i assms(4)])
  have "tracked w' op x" if "tracked w op x" "\<not> settles cfg net op x" for x
    using finalize_unsettled[OF that(1) assms(1,3,2) _ assms(4)] that(2) by (simp add: settles_def)
  moreover have "tracked w' o' x" if "tracked w o' x" "o' \<noteq> op" for o' x
    using touched_other[OF assms(1) t] that assms(3) by simp
  ultimately show ?thesis unfolding call_sound_def
    using touched_ok[OF assms(1) t] finalize_sent[OF assms(4)] by metis
qed

lemma submit_sound:
  assumes "entries_ok w" and "submitLifecycleDefinition cfg net ctx def eventType w = (Some ret, w')"
    and "b \<longleftrightarrow> eventType = LifecycleEventInitialized"
  shows "call_sound cfg net (operationKey def b) def w w'"
proof -
  obtain res w1 where op: "lifecycleOperation_call ctx def b w = (res, w1)" by fastforce
  note e = operation_effect[OF assms(1) op]
  show ?thesis
  proof (cases "\<exists>i. res = Some (Inr i)")
    case False
    then have "w' = w1" using assms(2,3) op
      by (auto simp: submitLifecycleDefinition_def split: option.splits sum.splits)
    then show ?thesis using e by (simp add: call_sound_def)
  next
    case True
    then obtain i where i: "res = Some (Inr i)" by blast
    obtain r w2 where adv: "advanceLifecycleTransaction cfg net i True w1 = (r, w2)" by fastforce
    let ?w3 = "if snd r \<noteq> None \<and> lr_TxID (fst r) = [] \<and> eventType = LifecycleEventCommit
      then removeLifecycleOperation i w2 else w2"
    have "submitLifecycleDefinition cfg net ctx def eventType w = (Some (fst r, snd r), pending_unlock i ?w3)"
      by (auto simp add: submitLifecycleDefinition_def submitHeld_def op[unfolded assms(3)] i adv Let_def split_def)
    then have w': "w' = pending_unlock i ?w3" using assms(2) by simp
    have ent: "ls_pending w1 (operationKey def b) = Some i" "operationKey def b = pl_operation (entry w1 i)"
      "def = pl_definition (entry w1 i)" using e i by auto
    have "call_sound cfg net (operationKey def b) def w1 ?w3"
      by (rule advance_sound[OF conjunct1[OF e] ent adv refl])
    then have s: "call_sound cfg net (operationKey def b) def w1 w'" unfolding w' by (rule sound_unlock)
    then show ?thesis using e unfolding call_sound_def by simp
  qed
qed

lemma pending1_sound:
  assumes "entries_ok w" and "i < length (ls_heap w)"
    and "reconcilePending1 (lifecycleServer auth signer remotes (ln_rows net) cfg) cfg net ev i s w = (s', w')"
  shows "call_sound cfg net (pl_operation (entry w i)) (pl_definition (entry w i)) w w'"
proof (cases "pl_gate (entry w i)")
  case True
  then show ?thesis using assms by (simp add: reconcilePending1_def sound_refl)
next
  case free: False
  let ?w1 = "set_entry i (pl_gate_update (\<lambda>_. True)) w"
  let ?op = "pl_operation (entry w i)" and ?d = "pl_definition (entry w i)"
  have v: "view ?w1 = view w" by simp
  have ok: "entries_ok ?w1" "i < length (ls_heap ?w1)" using view_ok[OF v] assms(1,2) by simp_all
  have ent: "pl_operation (entry ?w1 i) = ?op" "pl_definition (entry ?w1 i) = ?d" "pl_result (entry ?w1 i) = pl_result (entry w i)"
    using assms(2) by (simp_all add: entry_set)
  have unl: "call_sound cfg net ?op ?d ?w1 w2 \<Longrightarrow> call_sound cfg net ?op ?d w (pending_unlock i w2)" for w2
    by (rule sound_view[of _ _ _ _ ?w1 w2]) simp_all
  note run = assms(3)[unfolded reconcilePending1_def, simplified free Let_def, simplified, unfolded ent]
  show ?thesis
  proof (cases "ls_pending w ?op = Some i")
    case False
    then have "w' = pending_unlock i ?w1" using run by simp
    then show ?thesis using unl[OF sound_refl[OF ok(1)]] by simp
  next
    case mapped: True
    show ?thesis
    proof (cases "lo_Event ?op = LifecycleEventCommit \<and> lr_TxID (pl_result (entry w i)) = [] \<and> lr_Status (pl_result (entry w i)) = []")
      case True
      then have w': "w' = pending_unlock i (removeLifecycleOperation i ?w1)" using run mapped by simp
      have un: "\<not> tracked ?w1 (pl_operation (entry ?w1 i)) x" for x
      proof
        assume tr: "tracked ?w1 (pl_operation (entry ?w1 i)) x"
        have "ls_pending ?w1 (pl_operation (entry ?w1 i)) = Some i" using ent mapped by simp
        then show False using tracked_entry[OF tr ok(1) refl] ent True by auto
      qed
      have "call_sound cfg net ?op ?d ?w1 (removeLifecycleOperation i ?w1)"
        unfolding ent(1)[symmetric] by (rule remove_untracked[OF ok un])
      then show ?thesis unfolding w' by (rule unl)
    next
      case False
      obtain r w2 where adv: "advanceLifecycleTransaction cfg net i False ?w1 = (r, w2)" by fastforce
      have m1: "ls_pending ?w1 ?op = Some i" using mapped by simp
      have s1: "call_sound cfg net ?op ?d ?w1 w2"
        by (rule advance_sound[where drops = False, OF ok(1) m1 ent(1)[symmetric] ent(2)[symmetric] adv]) simp
      show ?thesis
      proof (cases "snd r = None")
        case None: False
        then have "w' = pending_unlock i w2" using run mapped False adv by (auto simp: split_def)
        then show ?thesis using unl[OF s1] by simp
      next
        case True
        obtain res s2 w3 where fin: "finalizeLifecycleOperation (lifecycleServer auth signer remotes (ln_rows net) cfg) cfg net ev i s w2
            = (res, s2, w3)" using prod_cases3 by blast
        have w': "w' = pending_unlock i w3" using run mapped False adv True fin by (auto simp: split_def)
        have t: "touched i ?w1 w2" by (rule advance_touches[OF ok(2) adv])
        have ok2: "entries_ok w2" "i < length (ls_heap w2)" "pl_operation (entry w2 i) = ?op"
          using touched_ok[OF ok(1) t] touched_length[OF t] ok(2) t ent by (simp_all add: touched_def)
        have settled: "settles cfg net ?op x" if "tracked ?w1 ?op x" for x
        proof (rule ccontr)
          assume "\<not> settles cfg net ?op x"
          then have "\<not> reported net (fst x)" by (simp add: settles_def)
          from advance_unreported[OF that ok(1) ent(1)[symmetric] m1 this adv] True show False by simp
        qed
        have t3: "touched i w2 w3" by (rule finalize_touches[OF ok2(2) fin])
        have keep: "tracked w3 o' x" if "tracked ?w1 o' x" "\<not> settles cfg net o' x" for o' x
        proof -
          have "o' \<noteq> ?op" using that settled by blast
          moreover have "tracked w2 o' x" using that s1 unfolding call_sound_def by blast
          ultimately show ?thesis using touched_other[OF ok2(1) t3, of o'] ok2(3) by simp
        qed
        have sent: "ls_sent w3 = ls_sent w2" by (rule finalize_sent[OF fin])
        have "refused net \<or> notified net txID" if "ls_sent w2 \<noteq> ls_sent ?w1"
          "prepareLifecycleTransaction (ln_lib net) (ln_rows net) cfg ?d (lo_Event ?op) = Inr (en, txID)" for en txID
          using advance_sends[OF m1[folded ent(1)] ok(2) adv that(1)] that(2) True unfolding ent by auto
        then have "call_sound cfg net ?op ?d ?w1 w3"
          using s1 sent keep touched_ok[OF ok2(1) t3] unfolding call_sound_def by metis
        then show ?thesis using unl w' by simp
      qed
    qed
  qed
qed

lemma run_call_sound:
  assumes "entries_ok w" and "call_live call w" and "run_call t net ev call s w = Some (s', w')"
  shows "call_sound (lt_cfg t) net (call_op call w) (call_def call w) w w'"
proof (cases call)
  case (CallCommit ctx def)
  then obtain ret where "submitLifecycleDefinition (lt_cfg t) net ctx def LifecycleEventCommit w = (Some ret, w')"
    using assms(3) by (auto simp: CommitLifecycleDefinition_def split: prod.splits option.splits)
  from submit_sound[OF assms(1) this, of False] show ?thesis
    using CallCommit by (simp add: LifecycleEventCommit_def LifecycleEventInitialized_def)
next
  case (CallMark ctx def)
  show ?thesis
  proof (cases "cd_InitRequired def")
    case True
    then obtain ret where "submitLifecycleDefinition (lt_cfg t) net ctx def LifecycleEventInitialized w = (Some ret, w')"
      using assms(3) CallMark by (auto simp: MarkLifecycleInitialized_def split: prod.splits option.splits)
    from submit_sound[OF assms(1) this, of True] show ?thesis using CallMark by simp
  next
    case False
    then show ?thesis using assms CallMark by (simp add: MarkLifecycleInitialized_def sound_refl)
  qed
next
  case (CallRecover i)
  then show ?thesis using assms pending1_sound[of w i _ _ _ net "lt_cfg t" ev s s' w'] by (simp add: setup_server_def)
next
  case (CallFinalize def b)
  obtain res w1 where op: "lifecycleOperation_call (ev_ctx ev) def b w = (res, w1)" by fastforce
  note e = operation_effect[OF assms(1) op]
  show ?thesis
  proof (cases "\<exists>i. res = Some (Inr i)")
    case False
    then have "w' = w1" using assms(3) CallFinalize op
      by (auto simp: FinalizeLifecycleDefinition_def split: option.splits sum.splits)
    then show ?thesis using e by (simp add: call_sound_def)
  next
    case True
    then obtain i where i: "res = Some (Inr i)" by blast
    obtain r s2 w2 where fin: "finalizeLifecycleOperation (setup_server t net) (lt_cfg t) net ev i s w1 = (r, s2, w2)"
      using prod_cases3 by blast
    then have w': "w' = pending_unlock i w2"
      using assms(3) CallFinalize op i by (simp add: FinalizeLifecycleDefinition_def finalizeHeld_def)
    have ent: "ls_pending w1 (operationKey def b) = Some i" "operationKey def b = pl_operation (entry w1 i)"
      "def = pl_definition (entry w1 i)" using e i by auto
    have "call_sound (lt_cfg t) net (operationKey def b) def w1 w2"
      by (rule finalize_sound[OF conjunct1[OF e] ent(1,2) fin[unfolded setup_server_def]])
    then have "call_sound (lt_cfg t) net (operationKey def b) def w1 w'" unfolding w' by (rule sound_unlock)
    then show ?thesis using e CallFinalize unfolding call_sound_def by simp
  qed
qed

subsection \<open>Sequences of calls\<close>

record 'r lifecycle_config =
  lc_store :: Store
  lc_state :: "'r lifecycle_state"
  lc_open :: "lifecycleOperation \<rightharpoonup> string \<times> ChaincodeDefinition"

text \<open>The transaction a call prepares, and the open transactions after a call.\<close>

definition preparedTx :: "Config \<Rightarrow> lifecycle_net \<Rightarrow> lifecycleOperation \<Rightarrow> ChaincodeDefinition \<Rightarrow> string" where
  "preparedTx cfg net oper d =
     (case prepareLifecycleTransaction (ln_lib net) (ln_rows net) cfg d (lo_Event oper) of
        Inr (_, txID) \<Rightarrow> txID | Inl _ \<Rightarrow> [])"

definition next_open ::
  "Config \<Rightarrow> lifecycle_net \<Rightarrow> lifecycleOperation \<Rightarrow> ChaincodeDefinition \<Rightarrow> 'r lifecycle_state \<Rightarrow> 'r lifecycle_state
    \<Rightarrow> (lifecycleOperation \<rightharpoonup> string \<times> ChaincodeDefinition) \<Rightarrow> (lifecycleOperation \<rightharpoonup> string \<times> ChaincodeDefinition)" where
  "next_open cfg net oper d w w' opened =
     (let left = (\<lambda>op. case opened op of None \<Rightarrow> None | Some x \<Rightarrow> if settles cfg net op x then None else Some x);
          t = preparedTx cfg net oper d in
      if ls_sent w' = ls_sent w then left
      else if refused net \<or> notified net t then left(oper := None)
      else left(oper \<mapsto> (t, d)))"

definition start_state :: "'r \<Rightarrow> 'r lifecycle_state" where
  "start_state r = \<lparr>ls_heap = [], ls_pending = (\<lambda>_. None), ls_closed = False, ls_sent = [], ls_remotes = r\<rparr>"

inductive lifecycle_step ::
  "('id, 'r) lifecycle_setup \<Rightarrow> 'r lifecycle_config \<Rightarrow> 'r lifecycle_config \<Rightarrow> bool" for t where
  step_call: "call_live call (lc_state c) \<Longrightarrow> run_call t net ev call (lc_store c) (lc_state c) = Some (s', w') \<Longrightarrow>
    lifecycle_step t c \<lparr>lc_store = s', lc_state = w',
      lc_open = next_open (lt_cfg t) net (call_op call (lc_state c)) (call_def call (lc_state c)) (lc_state c) w' (lc_open c)\<rparr>"
| step_close: "lifecycle_step t c (c\<lparr>lc_state := (lc_state c)\<lparr>ls_closed := True\<rparr>\<rparr>)"

inductive lifecycle_reachable :: "('id, 'r) lifecycle_setup \<Rightarrow> 'r lifecycle_config \<Rightarrow> bool" for t where
  fresh: "lifecycle_reachable t \<lparr>lc_store = s, lc_state = start_state r, lc_open = (\<lambda>_. None)\<rparr>"
| later: "lifecycle_reachable t c \<Longrightarrow> lifecycle_step t c c' \<Longrightarrow> lifecycle_reachable t c'"

inductive_cases lifecycle_stepE: "lifecycle_step t c c'"

definition open_tracked :: "'r lifecycle_config \<Rightarrow> bool" where
  "open_tracked c \<longleftrightarrow> entries_ok (lc_state c) \<and> (\<forall>oper x. lc_open c oper = Some x \<longrightarrow> tracked (lc_state c) oper x)"

lemma call_keeps_tracked:
  assumes "open_tracked c" and "call_live call (lc_state c)"
    and "run_call t net ev call (lc_store c) (lc_state c) = Some (s', w')"
  shows "open_tracked \<lparr>lc_store = s', lc_state = w', lc_open = next_open (lt_cfg t) net (call_op call (lc_state c)) (call_def call (lc_state c)) (lc_state c) w' (lc_open c)\<rparr>"
proof -
  let ?w = "lc_state c" and ?op = "call_op call (lc_state c)" and ?d = "call_def call (lc_state c)"
  have s: "call_sound (lt_cfg t) net ?op ?d ?w w'"
    using run_call_sound[OF _ assms(2,3)] assms(1) by (simp add: open_tracked_def)
  have old: "tracked w' oper x" if "lc_open c oper = Some x" "\<not> settles (lt_cfg t) net oper x" for oper x
    using s assms(1) that unfolding open_tracked_def call_sound_def by blast
  have new: "tracked w' ?op (preparedTx (lt_cfg t) net ?op ?d, ?d)"
    if "ls_sent w' \<noteq> ls_sent ?w" "\<not> refused net" "\<not> notified net (preparedTx (lt_cfg t) net ?op ?d)"
    using s that unfolding call_sound_def by (auto simp: preparedTx_def)
  have "tracked w' oper x" if "next_open (lt_cfg t) net ?op ?d ?w w' (lc_open c) oper = Some x" for oper x
    using that old new by (auto simp: next_open_def Let_def split: if_splits option.splits)
  then show ?thesis using s by (simp add: open_tracked_def call_sound_def)
qed

lemma reachable_tracked: "lifecycle_reachable t c \<Longrightarrow> open_tracked c"
proof (induction rule: lifecycle_reachable.induct)
  case (fresh s r)
  then show ?case by (simp add: open_tracked_def entries_ok_def start_state_def)
next
  case (later c c')
  from later.hyps(2) show ?case
  proof (cases rule: lifecycle_step.cases)
    case (step_call call net ev s' w')
    then show ?thesis using call_keeps_tracked later.IH by metis
  next
    case step_close
    then have "view (lc_state c') = view (lc_state c)" "lc_open c' = lc_open c" by (simp_all add: view_def)
    then show ?thesis using later.IH view_tracked view_ok unfolding open_tracked_def by metis
  qed
qed

text \<open>When calls do not overlap, a lifecycle transaction is sent for an operation only when no earlier
  transaction of that operation is still without a reported outcome.\<close>

lemma sequential_calls_never_resend:
  assumes "lifecycle_reachable t c" and "call_live call (lc_state c)"
    and "run_call t net ev call (lc_store c) (lc_state c) = Some (s', w')"
    and "ls_sent w' \<noteq> ls_sent (lc_state c)"
  shows "lc_open c (call_op call (lc_state c)) = None"
proof (cases "lc_open c (call_op call (lc_state c))")
  case (Some x)
  have tr: "open_tracked c" by (rule reachable_tracked[OF assms(1)])
  then have "tracked (lc_state c) (call_op call (lc_state c)) x" using Some unfolding open_tracked_def by blast
  moreover have "\<not> tracked (lc_state c) (call_op call (lc_state c)) x"
    using run_call_sound[OF _ assms(2,3)] tr assms(4) unfolding open_tracked_def call_sound_def by blast
  ultimately show ?thesis by simp
qed simp

subsection \<open>Callers that overlap\<close>

text \<open>
  The calls taken apart where other callers may come in between: the lookup under the mutex, the wait for the
  gate, and the work that its holder does before it gives the gate back, for a submission, a finalization or
  an entry of the recovery pass.  The gate excludes any other work on the entry, so that work is one action.
  Any caller may act in any order.
\<close>

datatype lifecycle_action =
    ActFind ctx ChaincodeDefinition bool
  | ActLock ctx nat
  | ActSubmit nat
  | ActFinalize nat
  | ActRecover nat

fun act_op :: "lifecycle_action \<Rightarrow> 'r lifecycle_state \<Rightarrow> lifecycleOperation" where
  "act_op (ActFind ctx def b) w = operationKey def b"
| "act_op (ActLock ctx i) w = pl_operation (entry w i)"
| "act_op (ActSubmit i) w = pl_operation (entry w i)"
| "act_op (ActFinalize i) w = pl_operation (entry w i)"
| "act_op (ActRecover i) w = pl_operation (entry w i)"

fun act_def :: "lifecycle_action \<Rightarrow> 'r lifecycle_state \<Rightarrow> ChaincodeDefinition" where
  "act_def (ActFind ctx def b) w = def"
| "act_def (ActLock ctx i) w = pl_definition (entry w i)"
| "act_def (ActSubmit i) w = pl_definition (entry w i)"
| "act_def (ActFinalize i) w = pl_definition (entry w i)"
| "act_def (ActRecover i) w = pl_definition (entry w i)"

fun act_live :: "lifecycle_action \<Rightarrow> 'r lifecycle_state \<Rightarrow> bool" where
  "act_live (ActFind ctx def b) w \<longleftrightarrow> True"
| "act_live (ActLock ctx i) w \<longleftrightarrow> i < length (ls_heap w)"
| "act_live (ActSubmit i) w \<longleftrightarrow> i < length (ls_heap w) \<and> pl_gate (entry w i)"
| "act_live (ActFinalize i) w \<longleftrightarrow> i < length (ls_heap w) \<and> pl_gate (entry w i)"
| "act_live (ActRecover i) w \<longleftrightarrow> i < length (ls_heap w)"

fun run_action ::
  "('id, 'r) lifecycle_setup \<Rightarrow> lifecycle_net \<Rightarrow> env \<Rightarrow> lifecycle_action \<Rightarrow> Store \<Rightarrow> 'r lifecycle_state
    \<Rightarrow> (Store \<times> 'r lifecycle_state) option" where
  "run_action t net ev (ActFind ctx def b) s w = Some (s, snd (findOrCreate ctx def b w))"
| "run_action t net ev (ActLock ctx i) s w =
     (case pending_lock ctx i w of (None, _) \<Rightarrow> None | (Some _, w') \<Rightarrow> Some (s, w'))"
| "run_action t net ev (ActSubmit i) s w =
     Some (s, snd (submitHeld (lt_cfg t) net i (lo_Event (pl_operation (entry w i))) w))"
| "run_action t net ev (ActFinalize i) s w =
     Some (snd (finalizeHeld (setup_server t net) (lt_cfg t) net ev i s w))"
| "run_action t net ev (ActRecover i) s w = Some (reconcilePending1 (setup_server t net) (lt_cfg t) net ev i s w)"

text \<open>A submission by a caller whose entry was dropped from the map after the lookup.\<close>

fun dropped :: "lifecycle_action \<Rightarrow> 'r lifecycle_state \<Rightarrow> bool" where
  "dropped (ActSubmit i) w \<longleftrightarrow> ls_pending w (pl_operation (entry w i)) \<noteq> Some i"
| "dropped act w \<longleftrightarrow> False"

text \<open>Work on a dropped entry leaves the map and with it every tracked transaction as it is.\<close>

lemma remove_unmapped:
  "ls_pending w (pl_operation (entry w i)) \<noteq> Some i \<Longrightarrow> removeLifecycleOperation i w = w"
  by (simp add: removeLifecycleOperation_def)

lemma result_unmapped:
  assumes "i < length (ls_heap w)" and "ls_pending w (pl_operation (entry w i)) \<noteq> Some i"
  shows "removeLifecycleOperation i (set_result i r (w\<lparr>ls_sent := x\<rparr>)) = set_result i r (w\<lparr>ls_sent := x\<rparr>)"
    and "removeLifecycleOperation i ((set_entry i (pl_propagation_update f) w)\<lparr>ls_remotes := y\<rparr>) =
      (set_entry i (pl_propagation_update f) w)\<lparr>ls_remotes := y\<rparr>"
  using assms by (auto intro!: remove_unmapped simp: set_result_def set_entry_def)

lemma observe_unmapped:
  assumes "removeLifecycleOperation i w = w" and "observeLifecycleFinality i st w = (ret, w')"
  shows "ls_pending w' = ls_pending w"
  using assms by (auto simp: observeLifecycleFinality_def Let_def split: if_splits)

lemma advance_unmapped:
  assumes "i < length (ls_heap w)" and "ls_pending w (pl_operation (entry w i)) \<noteq> Some i"
    and "advanceLifecycleTransaction cfg net i waiting w = (ret, w')"
  shows "ls_pending w' = ls_pending w"
proof -
  note un = result_unmapped(1)[OF assms(1,2)] remove_unmapped[OF assms(2)]
  have ob: "ls_pending w'' = ls_pending w"
    if "observeLifecycleFinality i st (set_result i r (w\<lparr>ls_sent := x\<rparr>)) = (ret', w'')" for st r x ret' w''
    using observe_unmapped[OF un(1) that] by simp
  show ?thesis using assms(3) un ob observe_unmapped[OF un(2)]
    by (cases ret) (auto simp: advanceLifecycleTransaction_def Let_def split: if_splits sum.splits option.splits prod.splits)
qed

lemma finalize_unmapped:
  assumes "i < length (ls_heap w)" and "ls_pending w (pl_operation (entry w i)) \<noteq> Some i"
    and "finalizeLifecycleOperation sv cfg net ev i s w = (ret, s', w')"
  shows "ls_pending w' = ls_pending w"
  using assms(3) result_unmapped(2)[OF assms(1,2)] remove_unmapped[OF assms(2)]
  by (auto simp: finalizeLifecycleOperation_def Let_def split: if_splits sum.splits option.splits prod.splits)

lemma unmapped_keeps:
  assumes "entries_ok w" and "touched i w w'" and "ls_pending w' = ls_pending w"
    and "ls_pending w (pl_operation (entry w i)) \<noteq> Some i"
  shows "entries_ok w' \<and> tracked w' = tracked w"
proof -
  have other: "j \<noteq> i \<and> j < length (ls_heap w) \<and> entry w' j = entry w j" if "ls_pending w op = Some j" for op j
    using assms that unfolding entries_ok_def touched_def by metis
  have "tracked w' op x = tracked w op x" for op x
    using other[of op] touched_length[OF assms(2)] assms(3) unfolding tracked_def
    by (cases "ls_pending w op") auto
  then show ?thesis using touched_ok[OF assms(1,2)] by (simp add: fun_eq_iff)
qed

lemma submit_dropped:
  assumes "entries_ok w" and "i < length (ls_heap w)" and "ls_pending w (pl_operation (entry w i)) \<noteq> Some i"
  shows "entries_ok (snd (submitHeld cfg net i eventType w)) \<and> tracked (snd (submitHeld cfg net i eventType w)) = tracked w"
proof -
  obtain ret w1 where adv: "advanceLifecycleTransaction cfg net i True w = (ret, w1)" by fastforce
  have t: "touched i w w1" by (rule advance_touches[OF assms(2) adv])
  have p: "ls_pending w1 = ls_pending w" by (rule advance_unmapped[OF assms(2,3) adv])
  have un: "removeLifecycleOperation i w1 = w1"
    using assms(3) t p by (intro remove_unmapped) (simp add: touched_def)
  have "snd (submitHeld cfg net i eventType w) = pending_unlock i w1"
    using adv un by (cases ret) (simp add: submitHeld_def)
  moreover have "view (pending_unlock i w1) = view w1" by simp
  ultimately show ?thesis using unmapped_keeps[OF assms(1) t p assms(3)] view_tracked view_ok by metis
qed

lemma submit_held_sound:
  assumes "entries_ok w" and "ls_pending w (pl_operation (entry w i)) = Some i"
  shows "call_sound cfg net (pl_operation (entry w i)) (pl_definition (entry w i)) w (snd (submitHeld cfg net i eventType w))"
proof -
  obtain ret w1 where adv: "advanceLifecycleTransaction cfg net i True w = (ret, w1)" by fastforce
  let ?w2 = "if snd ret \<noteq> None \<and> lr_TxID (fst ret) = [] \<and> eventType = LifecycleEventCommit
    then removeLifecycleOperation i w1 else w1"
  have "snd (submitHeld cfg net i eventType w) = pending_unlock i ?w2"
    using adv by (cases ret) (simp add: submitHeld_def)
  then show ?thesis using sound_unlock[OF advance_sound[OF assms refl refl adv refl]] by simp
qed

lemma finalize_held_sound:
  assumes "entries_ok w" and "i < length (ls_heap w)"
  shows "call_sound (lt_cfg t) net (pl_operation (entry w i)) d w
    (snd (snd (finalizeHeld (setup_server t net) (lt_cfg t) net ev i s w)))"
proof -
  obtain r s1 w1 where fin: "finalizeLifecycleOperation (setup_server t net) (lt_cfg t) net ev i s w = (r, s1, w1)"
    using prod_cases3 by blast
  have w': "snd (snd (finalizeHeld (setup_server t net) (lt_cfg t) net ev i s w)) = pending_unlock i w1"
    using fin by (simp add: finalizeHeld_def)
  show ?thesis
  proof (cases "ls_pending w (pl_operation (entry w i)) = Some i")
    case True
    from sound_unlock[OF finalize_sound[OF assms(1) True refl fin[unfolded setup_server_def]]] show ?thesis
      unfolding w' .
  next
    case False
    have "entries_ok w1 \<and> tracked w1 = tracked w"
      by (rule unmapped_keeps[OF assms(1) finalize_touches[OF assms(2) fin] finalize_unmapped[OF assms(2) False fin] False])
    then have "call_sound (lt_cfg t) net (pl_operation (entry w i)) d w w1"
      using finalize_sent[OF fin] by (simp add: call_sound_def)
    then show ?thesis unfolding w' by (rule sound_unlock)
  qed
qed

lemma run_action_sound:
  assumes "entries_ok w" and "act_live act w" and "run_action t net ev act s w = Some (s', w')"
  shows "if dropped act w then entries_ok w' \<and> tracked w' = tracked w
    else call_sound (lt_cfg t) net (act_op act w) (act_def act w) w w'"
proof (cases act)
  case (ActFind ctx def b)
  then have "findOrCreate ctx def b w = (fst (findOrCreate ctx def b w), w')" using assms(3) by auto
  from findOrCreate_effect[OF assms(1) this] show ?thesis using ActFind by (simp add: call_sound_def)
next
  case (ActLock ctx i)
  then have "view w' = view w \<and> ls_sent w' = ls_sent w" using assms(3)
    by (auto simp: pending_lock_def split: option.splits if_splits)
  then show ?thesis using ActLock sound_view[OF sound_refl[OF assms(1)], of w w'] by simp
next
  case (ActSubmit i)
  then show ?thesis using assms submit_dropped[OF assms(1)] submit_held_sound[OF assms(1)] by auto
next
  case (ActFinalize i)
  then have "w' = snd (snd (finalizeHeld (setup_server t net) (lt_cfg t) net ev i s w))"
    using assms(3) by (metis option.inject run_action.simps(4) snd_conv)
  then show ?thesis using ActFinalize assms(2) by (simp add: finalize_held_sound[OF assms(1)])
next
  case (ActRecover i)
  then show ?thesis using assms pending1_sound[of w i _ _ _ net "lt_cfg t" ev s s' w'] by (simp add: setup_server_def)
qed

text \<open>A configuration also remembers the operations a transaction was sent for from a dropped entry.\<close>

record 'r overlap_config = "'r lifecycle_config" +
  lc_stale :: "lifecycleOperation set"

definition next_stale ::
  "lifecycle_action \<Rightarrow> 'r lifecycle_state \<Rightarrow> 'r lifecycle_state \<Rightarrow> lifecycleOperation set \<Rightarrow> lifecycleOperation set" where
  "next_stale act w w' stale = (if ls_sent w' \<noteq> ls_sent w \<and> dropped act w then insert (act_op act w) stale else stale)"

inductive overlap_step ::
  "('id, 'r) lifecycle_setup \<Rightarrow> lifecycle_action \<Rightarrow> 'r overlap_config \<Rightarrow> 'r overlap_config \<Rightarrow> bool" for t where
  acts: "act_live act (lc_state c) \<Longrightarrow> run_action t net ev act (lc_store c) (lc_state c) = Some (s', w') \<Longrightarrow>
    overlap_step t act c \<lparr>lc_store = s', lc_state = w',
      lc_open = next_open (lt_cfg t) net (act_op act (lc_state c)) (act_def act (lc_state c)) (lc_state c) w' (lc_open c),
      lc_stale = next_stale act (lc_state c) w' (lc_stale c)\<rparr>"

inductive overlap_reachable :: "('id, 'r) lifecycle_setup \<Rightarrow> 'r overlap_config \<Rightarrow> bool" for t where
  unused: "overlap_reachable t \<lparr>lc_store = s, lc_state = start_state r, lc_open = (\<lambda>_. None), lc_stale = {}\<rparr>"
| acted: "overlap_reachable t c \<Longrightarrow> overlap_step t act c c' \<Longrightarrow> overlap_reachable t c'"
| closed: "overlap_reachable t c \<Longrightarrow> overlap_reachable t (c\<lparr>lc_state := (lc_state c)\<lparr>ls_closed := True\<rparr>\<rparr>)"

definition overlap_inv :: "'r overlap_config \<Rightarrow> bool" where
  "overlap_inv c \<longleftrightarrow> entries_ok (lc_state c) \<and>
     (\<forall>oper x. lc_open c oper = Some x \<longrightarrow> oper \<notin> lc_stale c \<longrightarrow> tracked (lc_state c) oper x)"

lemma next_open_cases:
  assumes "next_open cfg net oper d w w' opened op = Some x"
  obtains (old) "opened op = Some x" "\<not> settles cfg net op x"
    | (sent) "ls_sent w' \<noteq> ls_sent w" "op = oper" "x = (preparedTx cfg net oper d, d)" "\<not> refused net"
        "\<not> notified net (preparedTx cfg net oper d)"
proof (cases "ls_sent w' \<noteq> ls_sent w \<and> op = oper")
  case True
  then show thesis using assms sent by (auto simp: next_open_def Let_def split: if_splits)
next
  case False
  then have "(case opened op of None \<Rightarrow> None | Some x \<Rightarrow> if settles cfg net op x then None else Some x) = Some x"
    using assms by (auto simp: next_open_def Let_def split: if_splits)
  then show thesis using old by (auto split: option.splits if_splits)
qed

lemma overlap_step_inv:
  assumes "overlap_inv c" and "overlap_step t act c c'"
  shows "overlap_inv c'"
  using assms(2)
proof (cases rule: overlap_step.cases)
  case (acts net ev s' w')
  let ?w = "lc_state c" and ?op = "act_op act (lc_state c)" and ?d = "act_def act (lc_state c)"
  have ok: "entries_ok ?w" using assms(1) by (simp add: overlap_inv_def)
  note sound = run_action_sound[OF ok acts(2,3)]
  have keep: "tracked w' o' x" if "tracked ?w o' x" "\<not> settles (lt_cfg t) net o' x" for o' x
    using sound that unfolding call_sound_def by (metis (full_types))
  have ok': "entries_ok w'" using sound unfolding call_sound_def by metis
  have "tracked w' oper x"
    if opened: "next_open (lt_cfg t) net ?op ?d ?w w' (lc_open c) oper = Some x"
      and fresh: "oper \<notin> next_stale act ?w w' (lc_stale c)" for oper x
    using opened
  proof (cases rule: next_open_cases)
    case old
    have "oper \<notin> lc_stale c" using fresh by (auto simp: next_stale_def split: if_splits)
    then show ?thesis using old assms(1) keep unfolding overlap_inv_def by blast
  next
    case sent
    then have "\<not> dropped act ?w" using fresh by (auto simp: next_stale_def split: if_splits)
    then have "call_sound (lt_cfg t) net ?op ?d ?w w'" using sound by simp
    then show ?thesis using sent unfolding call_sound_def by (auto simp: preparedTx_def)
  qed
  with ok' show ?thesis using acts(1) by (simp add: overlap_inv_def)
qed

lemma overlap_reachable_inv: "overlap_reachable t c \<Longrightarrow> overlap_inv c"
proof (induction rule: overlap_reachable.induct)
  case (unused s r)
  then show ?case by (simp add: overlap_inv_def entries_ok_def start_state_def)
next
  case (acted c act c')
  then show ?case using overlap_step_inv by blast
next
  case (closed c)
  have "view ((lc_state c)\<lparr>ls_closed := True\<rparr>) = view (lc_state c)" by (simp add: view_def)
  from view_tracked[OF this] view_ok[OF this] closed.IH show ?case by (simp add: overlap_inv_def)
qed

text \<open>C22: callers of the lifecycle operations and the recovery pass overlap in any way, and the services answer
  them anything.  An action sends a lifecycle transaction for an operation only when no earlier transaction
  of that operation is still without a reported outcome, unless a transaction of the operation is or was sent
  by a caller that had waited for the gate of an entry which was dropped from the map meanwhile.  Short of
  that case, which the source does not exclude, a lost acknowledgment or a notification timeout never leads
  to a resend.\<close>

theorem no_blind_resend:
  assumes "overlap_reachable t c" and "overlap_step t act c c'"
    and "ls_sent (lc_state c') \<noteq> ls_sent (lc_state c)" and "act_op act (lc_state c) \<notin> lc_stale c'"
  shows "lc_open c (act_op act (lc_state c)) = None"
proof (rule ccontr)
  let ?w = "lc_state c" and ?op = "act_op act (lc_state c)"
  assume "lc_open c ?op \<noteq> None"
  then obtain x where x: "lc_open c ?op = Some x" by blast
  have inv: "overlap_inv c" by (rule overlap_reachable_inv[OF assms(1)])
  then have ok: "entries_ok ?w" by (simp add: overlap_inv_def)
  from assms(2) show False
  proof (cases rule: overlap_step.cases)
    case (acts net ev s' w')
    have "?op \<notin> lc_stale c" and "\<not> dropped act ?w"
      using acts(1) assms(3,4) by (auto simp: next_stale_def split: if_splits)
    then have "tracked ?w ?op x" and "call_sound (lt_cfg t) net ?op (act_def act ?w) ?w w'"
      using inv x run_action_sound[OF ok acts(2,3)] unfolding overlap_inv_def by (blast, simp)
    moreover have "ls_sent w' \<noteq> ls_sent ?w" using acts(1) assms(3) by simp
    ultimately show False unfolding call_sound_def by blast
  qed
qed

text \<open>Whole calls are sequences of actions, none of which works on a dropped entry: a caller that nobody
  overtakes between lookup and gate never sends from one.\<close>

fun run_actions ::
  "('id, 'r) lifecycle_setup \<Rightarrow> lifecycle_net \<Rightarrow> env \<Rightarrow> lifecycle_action list \<Rightarrow> Store \<Rightarrow> 'r lifecycle_state
    \<Rightarrow> (Store \<times> 'r lifecycle_state) option" where
  "run_actions t net ev [] s w = Some (s, w)"
| "run_actions t net ev (act # rest) s w =
     (if act_live act w \<and> \<not> dropped act w
      then case run_action t net ev act s w of None \<Rightarrow> None | Some (s', w') \<Rightarrow> run_actions t net ev rest s' w'
      else None)"

lemma operation_actions:
  assumes "entries_ok w" and "lifecycleOperation_call ctx def b w = (Some res, w1)"
  shows "\<exists>acts. (\<forall>rest. run_actions t net ev (acts @ rest) s w = run_actions t net ev rest s w1) \<and>
    (\<forall>i. res = Inr i \<longrightarrow> pl_gate (entry w1 i))"
proof -
  obtain r w0 where f: "findOrCreate ctx def b w = (r, w0)" by fastforce
  note e = findOrCreate_effect[OF assms(1) f]
  show ?thesis
  proof (cases "\<exists>i. r = Inr (i, False)")
    case True
    then obtain i where r: "r = Inr (i, False)" by blast
    have i: "i < length (ls_heap w0)" using e r by blast
    have lock: "pending_lock ctx i w0 = (Some (map_sum id (\<lambda>_. ()) res), w1)" and at: "\<And>j. res = Inr j \<Longrightarrow> j = i"
      using assms(2) f r by (auto simp: lifecycleOperation_call_def pending_lock_def split: option.splits if_splits)
    have "pl_gate (entry w1 j)" if "res = Inr j" for j
      using lock at[OF that] that i by (auto simp: pending_lock_def entry_set split: option.splits if_splits)
    then show ?thesis using f i lock by (intro exI[of _ "[ActFind ctx def b, ActLock ctx i]"]) simp
  next
    case False
    have w1: "w1 = w0" and res: "\<And>i. res = Inr i \<Longrightarrow> r = Inr (i, True)"
      using assms(2) f False by (auto simp: lifecycleOperation_call_def split: sum.splits prod.splits bool.splits)
    have "pl_gate (entry w0 i)" if "r = Inr (i, True)" for i
      using f that by (auto simp: findOrCreate_def Let_def split: if_splits option.splits)
    then show ?thesis using f w1 res by (intro exI[of _ "[ActFind ctx def b]"]) simp
  qed
qed

lemma submit_actions:
  assumes "entries_ok w" and "submitLifecycleDefinition (lt_cfg t) net ctx def eventType w = (Some ret, w')"
    and "eventType = (if b then LifecycleEventInitialized else LifecycleEventCommit)"
  shows "\<exists>acts. run_actions t net ev acts s w = Some (s, w')"
proof -
  have b: "eventType = LifecycleEventInitialized \<longleftrightarrow> b"
    using assms(3) by (simp add: LifecycleEventInitialized_def LifecycleEventCommit_def)
  obtain res w1 where op: "lifecycleOperation_call ctx def b w = (Some res, w1)"
    using assms(2) b by (cases "lifecycleOperation_call ctx def b w") (auto simp: submitLifecycleDefinition_def split: option.splits)
  note e = operation_effect[OF assms(1) op]
  obtain acts where acts: "\<And>rest. run_actions t net ev (acts @ rest) s w = run_actions t net ev rest s w1"
      "\<And>i. res = Inr i \<Longrightarrow> pl_gate (entry w1 i)"
    using operation_actions[OF assms(1) op, of t net ev s] by blast
  show ?thesis
  proof (cases res)
    case (Inl err)
    then have "w' = w1" using assms(2) op b by (simp add: submitLifecycleDefinition_def)
    then show ?thesis using acts(1)[of "[]"] by (intro exI[of _ acts]) simp
  next
    case (Inr i)
    have ev: "lo_Event (pl_operation (entry w1 i)) = eventType" using e Inr assms(3) by (simp add: operationKey_def)
    have "w' = snd (submitHeld (lt_cfg t) net i eventType w1)"
      using assms(2) op b Inr by (simp add: submitLifecycleDefinition_def split: prod.splits)
    then show ?thesis using acts(1)[of "[ActSubmit i]"] acts(2)[OF Inr] e Inr ev
      by (intro exI[of _ "acts @ [ActSubmit i]"]) simp
  qed
qed

lemma call_as_actions:
  assumes "entries_ok w" and "call_live call w" and "run_call t net ev call s w = Some (s', w')"
  shows "\<exists>acts. run_actions t net ev acts s w = Some (s', w')"
proof (cases call)
  case (CallCommit ctx def)
  then obtain ret where "submitLifecycleDefinition (lt_cfg t) net ctx def LifecycleEventCommit w = (Some ret, w')" "s' = s"
    using assms(3) by (auto simp: CommitLifecycleDefinition_def split: prod.splits option.splits)
  then show ?thesis using submit_actions[OF assms(1), of t net ctx def LifecycleEventCommit ret w' False] by simp
next
  case (CallMark ctx def)
  show ?thesis
  proof (cases "cd_InitRequired def")
    case True
    then obtain ret where "submitLifecycleDefinition (lt_cfg t) net ctx def LifecycleEventInitialized w = (Some ret, w')" "s' = s"
      using assms(3) CallMark by (auto simp: MarkLifecycleInitialized_def split: prod.splits option.splits)
    then show ?thesis using submit_actions[OF assms(1), of t net ctx def LifecycleEventInitialized ret w' True] by simp
  next
    case False
    then have "s' = s" "w' = w" using assms(3) CallMark by (simp_all add: MarkLifecycleInitialized_def)
    then show ?thesis by (intro exI[of _ "[]"]) simp
  qed
next
  case (CallRecover i)
  then show ?thesis using assms(2,3) by (intro exI[of _ "[ActRecover i]"]) (auto split: prod.splits)
next
  case (CallFinalize def b)
  obtain res w1 where op: "lifecycleOperation_call (ev_ctx ev) def b w = (Some res, w1)"
    using assms(3) CallFinalize by (cases "lifecycleOperation_call (ev_ctx ev) def b w")
      (auto simp: FinalizeLifecycleDefinition_def split: option.splits)
  note e = operation_effect[OF assms(1) op]
  obtain acts where acts: "\<And>rest. run_actions t net ev (acts @ rest) s w = run_actions t net ev rest s w1"
      "\<And>i. res = Inr i \<Longrightarrow> pl_gate (entry w1 i)"
    using operation_actions[OF assms(1) op, of t net ev s] by blast
  show ?thesis
  proof (cases res)
    case (Inl err)
    then have "w' = w1" "s' = s" using assms(3) CallFinalize op by (simp_all add: FinalizeLifecycleDefinition_def)
    then show ?thesis using acts(1)[of "[]"] by (intro exI[of _ acts]) simp
  next
    case (Inr i)
    have "snd (finalizeHeld (setup_server t net) (lt_cfg t) net ev i s w1) = (s', w')"
      using assms(3) CallFinalize op Inr by (auto simp: FinalizeLifecycleDefinition_def split: prod.splits)
    then show ?thesis using acts(1)[of "[ActFinalize i]"] acts(2)[OF Inr] e Inr
      by (intro exI[of _ "acts @ [ActFinalize i]"]) simp
  qed
qed

lemma actions_reachable:
  assumes "overlap_reachable t \<lparr>lc_store = s, lc_state = w, lc_open = opened, lc_stale = stale\<rparr>"
    and "run_actions t net ev acts s w = Some (s', w')"
  shows "\<exists>opened'. overlap_reachable t \<lparr>lc_store = s', lc_state = w', lc_open = opened', lc_stale = stale\<rparr>"
  using assms
proof (induction acts arbitrary: s w opened)
  case (Cons act rest)
  then obtain s1 w1 where live: "act_live act w" "\<not> dropped act w" and run: "run_action t net ev act s w = Some (s1, w1)"
    and rest: "run_actions t net ev rest s1 w1 = Some (s', w')" by (auto split: if_splits option.splits)
  have st: "next_stale act w w1 stale = stale" using live(2) by (simp add: next_stale_def)
  have "\<exists>opened1. overlap_reachable t \<lparr>lc_store = s1, lc_state = w1, lc_open = opened1, lc_stale = stale\<rparr>"
    using acted[OF Cons.prems(1) acts[of act "\<lparr>lc_store = s, lc_state = w, lc_open = opened, lc_stale = stale\<rparr>" t net ev s1 w1]]
      live(1) run st by auto
  then show ?case using Cons.IH rest by blast
qed auto

subsection \<open>A lost acknowledgment, a rejection and the next attempt\<close>

definition sample_sdk :: "string \<Rightarrow> lifecycle_lib" where
  "sample_sdk tx = \<lparr>ll_Proposal = (\<lambda>_ _ _. Inr sample_signed),
     ll_Parse = (\<lambda>_. Inr \<lparr>iv_TxID = tx, iv_Channel = ''ch'', iv_Namespace = ''ns'', iv_ChaincodeVersion = [], iv_Args = [],
        iv_Creator = [], iv_Nonce = [], iv_Proposal = Some sample_proposal\<rparr>),
     ll_Endorse = (\<lambda>_ _ _. Inr \<lparr>ps_Response = None, ps_Payload = ''p'', ps_Endorsement = None\<rparr>)\<rparr>"

definition lost_ack :: ordering where
  "lost_ack = \<lparr>od_Broadcast = None, od_Send = None, od_Recv = Inl (Plain ''connection reset'')\<rparr>"

text \<open>An empty ledger; the statuses given; the acknowledgment of every send is lost.\<close>

definition losing_net :: "string \<Rightarrow> TxStatus list \<Rightarrow> lifecycle_net" where
  "losing_net tx statuses = \<lparr>ln_lib = sample_sdk tx, ln_rows = query_of sample_cfg (\<lambda>_. None),
     ln_status = Some (\<lambda>_. Inr statuses), ln_notify = None,
     ln_submitter = \<lparr>fx_packager = (\<lambda>_. Inr tx)\<rparr>, ln_ordering = lost_ack\<rparr>"

definition rejected_tx :: TxStatus where
  "rejected_tx = \<lparr>ts_Ref = Some \<lparr>rf_TxId = ''t1'', rf_BlockNum = 3, rf_TxNum = 0\<rparr>, ts_Status = ABORTED_MVCC_CONFLICT\<rparr>"

definition sample_setup :: "(unit, unit) lifecycle_setup" where
  "sample_setup = \<lparr>lt_auth = None, lt_signer = None, lt_remotes = None, lt_cfg = sample_cfg\<rparr>"

definition first_key :: lifecycleOperation where
  "first_key = operationKey first_def False"

definition sample_entry :: "string \<Rightarrow> pendingLifecycle" where
  "sample_entry tx = (newPending first_key first_def)\<lparr>pl_result := receiptOf sample_cfg first_def tx\<rparr>"

lemma sample_prepared:
  "\<exists>en. prepareLifecycleTransaction (sample_sdk tx) (query_of sample_cfg (\<lambda>_. None)) sample_cfg first_def LifecycleEventCommit = Inr (en, tx)"
proof -
  obtain rws val where "lifecycleReadWriteSet (query_of sample_cfg (\<lambda>_. None)) sample_cfg first_def LifecycleEventCommit
     = Inr (Some (rws, val))" using first_prepared by blast
  then show ?thesis by (simp add: prepareLifecycleTransaction_def sample_sdk_def)
qed

lemma events_differ [simp]: "LifecycleEventCommit \<noteq> LifecycleEventInitialized" "LifecycleEventInitialized \<noteq> LifecycleEventCommit"
  by (simp_all add: LifecycleEventCommit_def LifecycleEventInitialized_def)

text \<open>Sending the first transaction of an entry: the acknowledgment is lost and the receipt stays.\<close>

lemma lost_send:
  assumes "i < length (ls_heap w)" and "pl_operation (entry w i) = first_key" and "pl_definition (entry w i) = first_def"
    and "lr_TxID (pl_result (entry w i)) = []" and "lr_Status (pl_result (entry w i)) = []" and "tx \<noteq> []"
  shows "\<exists>e. advanceLifecycleTransaction sample_cfg (losing_net tx sts) i True w = ((receiptOf sample_cfg first_def tx, Some e),
    set_result i (receiptOf sample_cfg first_def tx) (w\<lparr>ls_sent := ls_sent w @ [tx]\<rparr>))"
proof -
  obtain en where en: "prepareLifecycleTransaction (sample_sdk tx) (query_of sample_cfg (\<lambda>_. None)) sample_cfg first_def LifecycleEventCommit
      = Inr (en, tx)" using sample_prepared by blast
  have ev: "lo_Event first_key = LifecycleEventCommit" by (simp add: first_key_def operationKey_def)
  show ?thesis using assms en ev
    by (simp add: advanceLifecycleTransaction_def losing_net_def lost_ack_def Submit_envelope_def subscribeFinality_def
        receiptOf_def Let_def)
qed

definition after_call :: "lifecycle_net \<Rightarrow> unit lifecycle_state \<Rightarrow> unit lifecycle_state" where
  "after_call net w = snd (CommitLifecycleDefinition sample_cfg net None first_def w)"

lemma commit_new:
  assumes "\<not> ls_closed w" and "ls_pending w first_key = None" and "tx \<noteq> []"
  shows "after_call (losing_net tx sts) w = w\<lparr>ls_heap := ls_heap w @ [sample_entry tx],
      ls_pending := (ls_pending w)(first_key \<mapsto> length (ls_heap w)), ls_sent := ls_sent w @ [tx]\<rparr> \<and>
    fst (CommitLifecycleDefinition sample_cfg (losing_net tx sts) None first_def w) \<noteq> None"
proof -
  let ?w = "w\<lparr>ls_heap := ls_heap w @ [(newPending first_key first_def)\<lparr>pl_gate := True\<rparr>],
      ls_pending := (ls_pending w)(first_key \<mapsto> length (ls_heap w))\<rparr>"
  have op: "lifecycleOperation_call None first_def False w = (Some (Inr (length (ls_heap w))), ?w)"
    using assms by (simp add: lifecycleOperation_call_def findOrCreate_def Let_def first_key_def)
  obtain e where "advanceLifecycleTransaction sample_cfg (losing_net tx sts) (length (ls_heap w)) True ?w =
      ((receiptOf sample_cfg first_def tx, Some e),
       set_result (length (ls_heap w)) (receiptOf sample_cfg first_def tx) (?w\<lparr>ls_sent := ls_sent ?w @ [tx]\<rparr>))"
    using lost_send[of "length (ls_heap w)" ?w tx sts] assms(3) by (auto simp: newPending_def emptyResult_def)
  then show ?thesis using op assms(3)
    by (simp add: after_call_def CommitLifecycleDefinition_def submitLifecycleDefinition_def submitHeld_def set_result_def set_entry_def
        pending_unlock_def sample_entry_def newPending_def)
qed

definition lost_state :: "unit lifecycle_state" where
  "lost_state = \<lparr>ls_heap = [sample_entry ''t1''], ls_pending = [first_key \<mapsto> 0], ls_closed = False,
     ls_sent = [''t1''], ls_remotes = ()\<rparr>"

definition rejected_state :: "unit lifecycle_state" where
  "rejected_state = lost_state\<lparr>ls_pending := (ls_pending lost_state)(first_key := None)\<rparr>"

lemma commit_lost: "after_call (losing_net ''t1'' []) (start_state ()) = lost_state"
    "fst (CommitLifecycleDefinition sample_cfg (losing_net ''t1'' []) None first_def (start_state ())) \<noteq> None"
  using commit_new[of "start_state ()" "''t1''" "[]"] by (simp_all add: start_state_def lost_state_def)

lemma commit_rejected: "after_call (losing_net ''t2'' [rejected_tx]) lost_state = rejected_state"
    "fst (CommitLifecycleDefinition sample_cfg (losing_net ''t2'' [rejected_tx]) None first_def lost_state) \<noteq> None"
proof -
  let ?l = "lost_state\<lparr>ls_heap := [(sample_entry ''t1'')\<lparr>pl_gate := True\<rparr>]\<rparr>"
  have op: "lifecycleOperation_call None first_def False lost_state = (Some (Inr 0), ?l)"
    by (simp add: lifecycleOperation_call_def findOrCreate_def Let_def first_key_def[symmetric] lost_state_def
        sample_entry_def newPending_def pending_lock_def set_entry_def)
  have q: "queryTransactionStatus (ln_status (losing_net ''t2'' [rejected_tx])) ''t1'' = Inr (Some rejected_tx)"
    by (simp add: queryTransactionStatus_def losing_net_def require_def rejected_tx_def isFinalStatus_def
        ref_TxId_def status_known_def)
  have "\<exists>r e. advanceLifecycleTransaction sample_cfg (losing_net ''t2'' [rejected_tx]) 0 True ?l = ((r, Some e),
      removeLifecycleOperation 0 ?l) \<and> lr_TxID r \<noteq> []"
    using q by (simp add: advanceLifecycleTransaction_def Let_def sample_entry_def newPending_def receiptOf_def emptyResult_def
        observeLifecycleFinality_def first_key_def operationKey_def rejected_tx_def)
  then show "after_call (losing_net ''t2'' [rejected_tx]) lost_state = rejected_state"
    "fst (CommitLifecycleDefinition sample_cfg (losing_net ''t2'' [rejected_tx]) None first_def lost_state) \<noteq> None"
    using op by (auto simp: after_call_def CommitLifecycleDefinition_def submitLifecycleDefinition_def submitHeld_def
        removeLifecycleOperation_def lost_state_def rejected_state_def sample_entry_def newPending_def pending_unlock_def
        set_entry_def)
qed

lemma commit_again: "ls_sent (after_call (losing_net ''t2'' []) rejected_state) = [''t1'', ''t2'']"
    "fst (CommitLifecycleDefinition sample_cfg (losing_net ''t2'' []) None first_def rejected_state) \<noteq> None"
  using commit_new[of rejected_state "''t2''" "[]"] by (simp_all add: rejected_state_def lost_state_def)

lemma commit_call:
  assumes "fst (CommitLifecycleDefinition sample_cfg net None first_def w) \<noteq> None"
  shows "run_call sample_setup net sample_env (CallCommit None first_def) s w = Some (s, after_call net w)"
  using assms by (auto simp: sample_setup_def after_call_def split: prod.splits option.splits)

lemma commit_steps:
  assumes "overlap_reachable sample_setup \<lparr>lc_store = s, lc_state = w, lc_open = opened, lc_stale = {}\<rparr>"
    and "fst (CommitLifecycleDefinition sample_cfg net None first_def w) \<noteq> None"
  shows "\<exists>opened'. overlap_reachable sample_setup \<lparr>lc_store = s, lc_state = after_call net w, lc_open = opened', lc_stale = {}\<rparr>"
proof -
  have "entries_ok w" using overlap_reachable_inv[OF assms(1)] by (simp add: overlap_inv_def)
  from call_as_actions[OF this _ commit_call[OF assms(2)]] show ?thesis
    using actions_reachable[OF assms(1)] by fastforce
qed

text \<open>The caller that has looked up the next attempt's entry sends its transaction.\<close>

lemma next_attempt:
  "overlap_reachable sample_setup \<lparr>lc_store = s, lc_state = rejected_state, lc_open = opened, lc_stale = {}\<rparr> \<Longrightarrow>
    \<exists>c c'. overlap_reachable sample_setup c \<and> overlap_step sample_setup (ActSubmit 1) c c' \<and> lc_stale c' = {} \<and>
      act_op (ActSubmit 1) (lc_state c) = first_key \<and>
      ls_sent (lc_state c) = [''t1''] \<and> ls_sent (lc_state c') = [''t1'', ''t2'']"
proof -
  let ?w = "rejected_state\<lparr>ls_heap := ls_heap rejected_state @ [(newPending first_key first_def)\<lparr>pl_gate := True\<rparr>],
      ls_pending := (ls_pending rejected_state)(first_key \<mapsto> length (ls_heap rejected_state))\<rparr>"
  let ?r = "receiptOf sample_cfg first_def ''t2''"
  assume "overlap_reachable sample_setup \<lparr>lc_store = s, lc_state = rejected_state, lc_open = opened, lc_stale = {}\<rparr>"
  moreover have "run_actions sample_setup (losing_net ''t2'' []) sample_env [ActFind None first_def False] s rejected_state = Some (s, ?w)"
    by (simp add: findOrCreate_def Let_def first_key_def[symmetric] rejected_state_def lost_state_def)
  ultimately obtain o1 where c: "overlap_reachable sample_setup \<lparr>lc_store = s, lc_state = ?w, lc_open = o1, lc_stale = {}\<rparr>"
    using actions_reachable by blast
  have at: "1 < length (ls_heap ?w)" "entry ?w 1 = (newPending first_key first_def)\<lparr>pl_gate := True\<rparr>"
      "ls_pending ?w first_key = Some 1" "ls_sent ?w = [''t1'']"
    by (simp_all add: rejected_state_def lost_state_def)
  obtain e where "advanceLifecycleTransaction sample_cfg (losing_net ''t2'' []) 1 True ?w =
      ((?r, Some e), set_result 1 ?r (?w\<lparr>ls_sent := ls_sent ?w @ [''t2'']\<rparr>))"
    using lost_send[of 1 ?w "''t2''" "[]"] at by (auto simp: newPending_def emptyResult_def)
  then have sent: "ls_sent (snd (submitHeld sample_cfg (losing_net ''t2'' []) 1 ev ?w)) = [''t1'', ''t2'']" for ev
    using at(4) by (simp add: submitHeld_def)
  let ?c = "\<lparr>lc_store = s, lc_state = ?w, lc_open = o1, lc_stale = {}\<rparr>" and ?act = "ActSubmit 1"
  have live: "act_live ?act (lc_state ?c)" and op: "act_op ?act (lc_state ?c) = first_key" and d: "\<not> dropped ?act ?w"
    using at by (simp_all add: newPending_def)
  obtain w' where run: "run_action sample_setup (losing_net ''t2'' []) sample_env ?act (lc_store ?c) (lc_state ?c) = Some (s, w')"
      and w': "ls_sent w' = [''t1'', ''t2'']"
    using sent by (simp add: sample_setup_def)
  have "next_stale ?act ?w w' {} = {}" using d by (simp add: next_stale_def)
  then show ?thesis using c acts[OF live run] op at(4) w' by fastforce
qed

theorem no_blind_resend_witness:
  "\<exists>c c'. overlap_reachable sample_setup c \<and> overlap_step sample_setup (ActSubmit 1) c c' \<and>
     ls_sent (lc_state c) = [''t1''] \<and> ls_sent (lc_state c') = [''t1'', ''t2''] \<and> lc_open c first_key = None"
proof -
  have "overlap_reachable sample_setup \<lparr>lc_store = blank_store, lc_state = start_state (), lc_open = (\<lambda>_. None), lc_stale = {}\<rparr>"
    by (rule unused)
  then obtain o1 where "overlap_reachable sample_setup \<lparr>lc_store = blank_store, lc_state = lost_state, lc_open = o1, lc_stale = {}\<rparr>"
    using commit_steps commit_lost by metis
  then obtain o2 where "overlap_reachable sample_setup \<lparr>lc_store = blank_store, lc_state = rejected_state, lc_open = o2, lc_stale = {}\<rparr>"
    using commit_steps commit_rejected by metis
  from next_attempt[OF this] obtain c c' where c: "overlap_reachable sample_setup c"
      "overlap_step sample_setup (ActSubmit 1) c c'" "lc_stale c' = {}" "act_op (ActSubmit 1) (lc_state c) = first_key"
      "ls_sent (lc_state c) = [''t1'']" "ls_sent (lc_state c') = [''t1'', ''t2'']" by blast
  have "lc_open c (act_op (ActSubmit 1) (lc_state c)) = None"
    by (rule no_blind_resend[OF c(1,2)]) (simp_all add: c(3,5,6))
  then show ?thesis using c by metis
qed

subsection \<open>A caller that is overtaken\<close>

text \<open>
  The gate is taken after the entry is looked up, and the caller that gets it does not look again.  When a
  first caller fails before sending and drops its entry, a second caller that was waiting for the gate works
  on the dropped entry: the receipt of its send is kept only there, and a third call sends again although no
  service reported an outcome of the second caller's transaction.
\<close>

definition failing_net :: lifecycle_net where
  "failing_net = (losing_net ''t0'' [])\<lparr>ln_rows := (\<lambda>_ _. Inl (Plain ''unavailable''))\<rparr>"

lemma overlapping_callers_resend:
  "\<exists>(w1 :: unit lifecycle_state) w2 w3 r e r' e'.
     findOrCreate None first_def False (start_state ()) = (Inr (0, True), w1) \<and>
     findOrCreate None first_def False w1 = (Inr (0, False), w1) \<and> pending_lock None 0 w1 = (None, w1) \<and>
     advanceLifecycleTransaction sample_cfg failing_net 0 True w1 = ((r, Some e), w1) \<and> lr_TxID r = [] \<and>
     pending_lock None 0 (pending_unlock 0 (removeLifecycleOperation 0 w1)) = (Some (Inr ()), w2) \<and>
     advanceLifecycleTransaction sample_cfg (losing_net ''t1'' []) 0 True w2 = ((r', Some e'), w3) \<and> lr_TxID r' = ''t1'' \<and>
     ls_sent (after_call (losing_net ''t2'' []) (pending_unlock 0 w3)) = [''t1'', ''t2'']"
proof -
  let ?p = "(newPending first_key first_def)\<lparr>pl_gate := True\<rparr>"
  let ?w1 = "\<lparr>ls_heap = [?p], ls_pending = [first_key \<mapsto> 0], ls_closed = False, ls_sent = [], ls_remotes = ()\<rparr>"
  let ?w2 = "?w1\<lparr>ls_pending := (\<lambda>_. None)\<rparr>"
  let ?w3 = "set_result 0 (receiptOf sample_cfg first_def ''t1'') (?w2\<lparr>ls_sent := [''t1'']\<rparr>)"
  have create: "findOrCreate None first_def False (start_state ()) = (Inr (0, True), ?w1)"
    by (simp add: findOrCreate_def Let_def start_state_def first_key_def)
  have found: "findOrCreate None first_def False ?w1 = (Inr (0, False), ?w1)" "pending_lock None 0 ?w1 = (None, ?w1)"
    by (simp_all add: findOrCreate_def Let_def first_key_def pending_lock_def newPending_def)
  have fails: "\<exists>e. advanceLifecycleTransaction sample_cfg failing_net 0 True ?w1 = ((emptyResult, Some e), ?w1)"
    by (simp add: advanceLifecycleTransaction_def Let_def newPending_def failing_net_def losing_net_def
        prepareLifecycleTransaction_def lifecycleReadWriteSet_def lifecycleRow_def rbind_def map_error_def emptyResult_def)
  have freed: "pending_lock None 0 (pending_unlock 0 (removeLifecycleOperation 0 ?w1)) = (Some (Inr ()), ?w2)"
    by (simp add: removeLifecycleOperation_def pending_unlock_def pending_lock_def set_entry_def newPending_def fun_eq_iff)
  have orphan: "\<exists>e. advanceLifecycleTransaction sample_cfg (losing_net ''t1'' []) 0 True ?w2 =
      ((receiptOf sample_cfg first_def ''t1'', Some e), ?w3)"
    using lost_send[of 0 ?w2 "''t1''" "[]"] by (simp add: newPending_def emptyResult_def)
  have again: "ls_sent (after_call (losing_net ''t2'' []) (pending_unlock 0 ?w3)) = [''t1'', ''t2'']"
    using commit_new[of "pending_unlock 0 ?w3" "''t2''" "[]"] by (simp add: pending_unlock_def set_result_def set_entry_def)
  have "lr_TxID emptyResult = []" by (simp add: emptyResult_def)
  then show ?thesis using create found fails freed orphan again receipt_tx by metis
qed

end
