(* ===== verification/Invocation_Flow.thy ===== *)
theory Invocation_Flow
  imports Connection_Resolution Endorsement_Collection
begin

section \<open>Executing and endorsing an invocation\<close>

text \<open>
  The execution stage of \<open>orchestrator/service.go\<close> and \<open>execution.go\<close> that invoke, query and endorse
  share: the proposal for the local helper, its execution, the evidence, and the endorsements of the
  namespace.  The helper works on the Query Service world together with the lifecycle store, because the
  executor it calls caches connections there.  Nothing here sends a transaction.  A service call sees its
  surroundings through the record \<open>call\<close>; the protocol-buffer and SDK encoders are \<open>invoke_lib\<close>.
\<close>

subsection \<open>The service and its state\<close>

record ChaincodeInvocation =
  iq_Name :: string
  iq_Version :: string
  iq_Args :: "bytes list"
  iq_Decorations :: "(string \<times> bytes) list"
  iq_IsInit :: bool

text \<open>
  \<open>il_SetInit\<close> encodes an invocation spec again with its init flag set; \<open>il_CreateProposal\<close> and
  \<open>il_ComputeTxID\<close> are \<open>protoutil\<close>'s.
\<close>

record invoke_lib =
  il_NewSignedProposal :: "string \<Rightarrow> string \<Rightarrow> bytes list \<Rightarrow> orch_error + SignedProposal"
  il_SetInit :: "bytes \<Rightarrow> orch_error + bytes"
  il_MarshalPayload :: "(string \<times> bytes) list \<Rightarrow> bytes \<Rightarrow> orch_error + bytes"
  il_SignProposal :: "Proposal \<Rightarrow> orch_error + SignedProposal"
  il_ComputeTxID :: "bytes \<Rightarrow> bytes \<Rightarrow> string"
  il_CreateProposal :: "string \<Rightarrow> string \<Rightarrow> ChaincodeInvocation \<Rightarrow> bytes \<Rightarrow> bytes \<Rightarrow> (string \<times> bytes) list \<Rightarrow> orch_error + Proposal"
  il_MarshalProposal :: "Proposal \<Rightarrow> orch_error + bytes"

type_synonym 'v helper_world = "'v \<times> Store option"

record ('id, 'v) Service =
  so_cfg :: Config
  so_msp :: "'id msp_lib"
  so_proto :: proto_lib
  so_hl :: helper_lib
  so_il :: invoke_lib
  so_policy_lib :: "'id policy_lib"
  so_decode_policy :: "bytes \<Rightarrow> namespace_rule option"
  so_msps :: "string list option"
  so_helper :: "'v helper_world Helper option"
  so_resolver :: "connection_resolver option"
  so_remotes :: "remote_resolver option"

record 'v flow_state =
  fs_world :: 'v
  fs_store :: "Store option"
  fs_policies :: "seen_policies option"

record call =
  ca_ctx :: ctx
  ca_cleanup :: call_ctx
  ca_stamp :: string
  ca_time :: int
  ca_policy_answer :: "(orch_error + (string \<times> u64 \<times> bytes) list) option"
  ca_collect :: "nat \<Rightarrow> ctx"

definition resolveNamespacePolicy ::
  "('id, 'v) Service \<Rightarrow> call \<Rightarrow> string \<Rightarrow> 'v flow_state \<Rightarrow> (orch_error + NamespacePolicySnapshot) \<times> 'v flow_state" where
  "resolveNamespacePolicy so ca namespace st =
     (case fs_policies st of
        None \<Rightarrow> (Inl (Plain ''namespace policy resolver is not configured''), st)
      | Some seen \<Rightarrow>
          (let (res, seen') = Resolve_policy (so_decode_policy so) (ca_policy_answer ca) namespace seen
           in (res, st\<lparr>fs_policies := Some seen'\<rparr>)))"

subsection \<open>The helper's proposal\<close>

definition initSignedProposal ::
  "proto_lib \<Rightarrow> invoke_lib \<Rightarrow> SignedProposal \<Rightarrow> orch_error + SignedProposal" where
  "initSignedProposal plib il prop =
     rbind (require (Plain ''unmarshal proposal'') (pl_Proposal plib (sp_ProposalBytes prop))) (\<lambda>proposal.
     rbind (require (Plain ''unmarshal proposal payload'') (pl_ProposalPayload plib (pp_Payload proposal))) (\<lambda>(transient, input).
     rbind (require (Plain ''unmarshal invocation spec'') (pl_InvocationSpec plib input)) (\<lambda>spec.
     rbind (il_SetInit il input) (\<lambda>input'.
     rbind (il_MarshalPayload il transient input') (\<lambda>payload.
     il_SignProposal il (proposal\<lparr>pp_Payload := payload\<rparr>))))))"

definition helperProposal ::
  "proto_lib \<Rightarrow> invoke_lib \<Rightarrow> Config \<Rightarrow> string \<Rightarrow> string \<Rightarrow> bytes list \<Rightarrow> (string \<times> bytes) list
    \<Rightarrow> ClientProposalContext \<Rightarrow> orch_error + SignedProposal" where
  "helperProposal plib il cfg namespace nsVersion args transient client =
     (if cp_Creator client = [] \<or> cp_Nonce client = [] then
        rbind (map_error (Wrapped ''create helper proposal'') (il_NewSignedProposal il (cf_ChannelID cfg) namespace args)) (\<lambda>prop.
        if \<not> cp_IsInit client then Inr prop else initSignedProposal plib il prop)
      else
        rbind (map_error (Wrapped ''create helper proposal'')
          (il_CreateProposal il (il_ComputeTxID il (cp_Nonce client) (cp_Creator client)) (cf_ChannelID cfg)
             \<lparr>iq_Name = namespace, iq_Version = nsVersion, iq_Args = args, iq_Decorations = cp_Decorations client,
              iq_IsInit = cp_IsInit client\<rparr> (cp_Nonce client) (cp_Creator client) transient)) (\<lambda>proposal.
        rbind (map_error (Wrapped ''marshal helper proposal'') (il_MarshalProposal il proposal)) (\<lambda>b.
        Inr \<lparr>sp_ProposalBytes = b, sp_Signature = []\<rparr>)))"

definition proposalContext :: "ClientProposalContext \<Rightarrow> SignedProposal \<Rightarrow> ClientProposalContext" where
  "proposalContext client prop =
     (if cp_SignedProposal client = None then client\<lparr>cp_SignedProposal := Some prop\<rparr> else client)"

definition executeHelper ::
  "('id, 'v) Service \<Rightarrow> call \<Rightarrow> string \<Rightarrow> string \<Rightarrow> bytes list \<Rightarrow> (string \<times> bytes) list \<Rightarrow> ClientProposalContext
    \<Rightarrow> 'v helper_world \<Rightarrow> (orch_error + Endorsement) outcome \<times> 'v helper_world" where
  "executeHelper so ca namespace nsVersion args transient client w =
     (case so_helper so of
        None \<Rightarrow> (Returned (Inl (Plain ''internal helper is not configured'')), w)
      | Some h \<Rightarrow>
      (case rbind (helperProposal (so_proto so) (so_il so) (so_cfg so) namespace nsVersion args transient client) (\<lambda>prop.
            rbind (require (Plain ''unmarshal helper proposal'') (pl_Proposal (so_proto so) (sp_ProposalBytes prop))) (\<lambda>proposal.
            rbind (txIDFromProposal (so_proto so) (Some proposal)) (\<lambda>_. Inr (prop, proposal)))) of
         Inl e \<Rightarrow> (Returned (Inl e), w)
       | Inr (prop, proposal) \<Rightarrow>
           (case Helper_ProcessProposal (so_proto so) (so_hl so) h (ca_cleanup ca)
                   (WithClientProposal (proposalContext client prop) None) prop w of
              (Unfinished, w') \<Rightarrow> (Unfinished, w')
            | (Panic, w') \<Rightarrow> (Panic, w')
            | (Returned (Inl e), w') \<Rightarrow> (Returned (Inl (Wrapped ''helper process proposal'' e)), w')
            | (Returned (Inr resp), w') \<Rightarrow>
                (Returned (Inr \<lparr>en_Proposal = Some proposal, en_Responses = [Some resp]\<rparr>), w'))))"

subsection \<open>One local execution\<close>

definition invocationContext :: "InvocationRequest \<Rightarrow> string \<Rightarrow> u64 \<Rightarrow> ClientProposalContext" where
  "invocationContext req namespace namespaceVersion =
     \<lparr>cp_Creator = ir_ClientCreator req, cp_Nonce = ir_ClientNonce req,
      cp_SignedProposal = ir_ClientSignedProposal req,
      cp_Decorations = compatibilityDecorations namespace (ir_ChaincodeName req) (ir_ChaincodeVersion req) @
        (case ir_definition req of
           None \<Rightarrow> []
         | Some committed \<Rightarrow> [(''compat.chaincode_sequence'', FormatInt (cd_Sequence (cm_Definition committed)))]),
      cp_IsInit = ir_IsInit req, cp_NamespaceVersion = namespaceVersion\<rparr>"

definition firstResponse :: "Endorsement \<Rightarrow> PeerResponse option" where
  "firstResponse e = (case en_Responses e of Some r # _ \<Rightarrow> ps_Response r | _ \<Rightarrow> None)"

definition executeFresh ::
  "('id, 'v) Service \<Rightarrow> call \<Rightarrow> InvocationRequest \<Rightarrow> string \<Rightarrow> u64 \<Rightarrow> bytes list \<Rightarrow> 'v flow_state
    \<Rightarrow> (orch_error + helperExecutionResult) outcome \<times> 'v flow_state" where
  "executeFresh so ca req namespace namespaceVersion args st =
     (case executeHelper so ca namespace ''1.0'' args (ir_ClientTransient req)
             (invocationContext req namespace namespaceVersion) (fs_world st, fs_store st) of
        (Unfinished, v, s) \<Rightarrow> (Unfinished, st\<lparr>fs_world := v, fs_store := s\<rparr>)
      | (Panic, v, s) \<Rightarrow> (Panic, st\<lparr>fs_world := v, fs_store := s\<rparr>)
      | (Returned (Inl e), v, s) \<Rightarrow> (Returned (Inl e), st\<lparr>fs_world := v, fs_store := s\<rparr>)
      | (Returned (Inr end), v, s) \<Rightarrow>
          (let st1 = st\<lparr>fs_world := v, fs_store := s\<rparr> in
           case txIDFromEndorsement (so_proto so) end of
             Inl e \<Rightarrow> (Returned (Inl e), st1)
           | Inr txID \<Rightarrow>
               (if firstResponse end = None then (Returned (Inl (Plain ''helper returned no proposal response'')), st1)
                else
                  (let (binding, s') = lifecycleExecutionBinding (so_resolver so) (so_cfg so) (ca_ctx ca) (ca_stamp ca) req namespace s
                   in (Returned (Inr \<lparr>hr_Endorsement = end, hr_TxID = txID, hr_Response = firstResponse end,
                         hr_Binding = binding\<rparr>), st1\<lparr>fs_store := s'\<rparr>)))))"

subsection \<open>Endorsing\<close>

record endorsedInvocation =
  ei_Request :: InvocationRequest
  ei_Local :: helperExecutionResult
  ei_Remote :: "helperExecutionResult list"
  ei_Endorsement :: Endorsement
  ei_InitDefinition :: "ChaincodeDefinition option"

definition noResult :: helperExecutionResult where
  "noResult = \<lparr>hr_Endorsement = emptyEndorsement, hr_TxID = [], hr_Response = None, hr_Binding = None\<rparr>"

definition noInvocation :: endorsedInvocation where
  "noInvocation = \<lparr>ei_Request = emptyRequest, ei_Local = noResult, ei_Remote = [], ei_Endorsement = emptyEndorsement,
     ei_InitDefinition = None\<rparr>"

definition successStatus :: "int \<Rightarrow> bool" where
  "successStatus x \<longleftrightarrow> 200 \<le> x \<and> x < 400"

text \<open>The result so far is returned with the error.\<close>

definition endorseInvocation ::
  "('id, 'v) Service \<Rightarrow> call \<Rightarrow> InvocationRequest \<Rightarrow> 'v flow_state
    \<Rightarrow> (endorsedInvocation \<times> orch_error option) outcome \<times> 'v flow_state" where
  "endorseInvocation so ca req0 st =
     (case prepareInvocation (so_cfg so) req0 of
        Inl e \<Rightarrow> (Returned (noInvocation, Some e), st)
      | Inr (namespace, args) \<Rightarrow>
      (case selectLifecycleDefinition (ca_ctx ca) (fs_store st) req0 of
         Inl e \<Rightarrow> (Returned (noInvocation, Some e), st)
       | Inr req \<Rightarrow>
       (let result = noInvocation\<lparr>ei_Request := req\<rparr> in
        case validateInitState (ca_ctx ca) (fs_store st) req OpEndorse of
          Inl e \<Rightarrow> (Returned (result, Some (StatusError CodeFailedPrecondition ''init'')), st)
        | Inr initDefinition \<Rightarrow>
        (let result1 = result\<lparr>ei_InitDefinition := initDefinition\<rparr> in
         case resolveNamespacePolicy so ca namespace st of
           (Inl e, st1) \<Rightarrow> (Returned (result1, Some (Wrapped ''resolve namespace policy'' e)), st1)
         | (Inr policy, st1) \<Rightarrow>
         (case executeFresh so ca req namespace (np_Version policy) args st1 of
            (Unfinished, st2) \<Rightarrow> (Unfinished, st2)
          | (Panic, st2) \<Rightarrow> (Panic, st2)
          | (Returned (Inl e), st2) \<Rightarrow> (Returned (result1, Some (Wrapped ''helper endorsement failed'' e)), st2)
          | (Returned (Inr local), st2) \<Rightarrow>
              (let result2 = result1\<lparr>ei_Local := local\<rparr> in
               case hr_Response local of
                 None \<Rightarrow> (Panic, st2)
               | Some response \<Rightarrow>
                   (if \<not> successStatus (pr_Status response) then (Returned (result2, None), st2)
                    else case collectNamespaceEndorsements (so_msp so) (so_proto so) (so_policy_lib so) (so_cfg so)
                           (so_msps so) (so_remotes so) (ca_collect ca) (ca_time ca) policy req local of
                      Inl e \<Rightarrow> (Returned (result2, Some e), st2)
                    | Inr (end, remote) \<Rightarrow>
                        (Returned (result2\<lparr>ei_Endorsement := end, ei_Remote := remote\<rparr>, None), st2))))))))"

text \<open>\<open>EndorseOnly\<close> and \<open>evaluate\<close> share the local execution.\<close>

definition executeLocally ::
  "('id, 'v) Service \<Rightarrow> call \<Rightarrow> string \<Rightarrow> string \<Rightarrow> bytes list \<Rightarrow> InvocationRequest \<Rightarrow> 'v flow_state
    \<Rightarrow> (orch_error + helperExecutionResult) outcome \<times> 'v flow_state" where
  "executeLocally so ca failure namespace args req st =
     (case resolveNamespacePolicy so ca namespace st of
        (Inl e, st1) \<Rightarrow> (Returned (Inl (Wrapped ''resolve namespace policy'' e)), st1)
      | (Inr policy, st1) \<Rightarrow>
          (case executeFresh so ca req namespace (np_Version policy) args st1 of
             (Returned (Inl e), st2) \<Rightarrow> (Returned (Inl (Wrapped failure e)), st2)
           | other \<Rightarrow> other))"

definition EndorseOnly ::
  "('id, 'v) Service \<Rightarrow> call \<Rightarrow> InvocationRequest \<Rightarrow> 'v flow_state
    \<Rightarrow> (orch_error + helperExecutionResult) outcome \<times> 'v flow_state" where
  "EndorseOnly so ca req0 st =
     (case rbind (prepareInvocation (so_cfg so) req0) (\<lambda>(namespace, args).
           rbind (selectLifecycleDefinition (ca_ctx ca) (fs_store st) req0) (\<lambda>req.
           rbind (validateInitState (ca_ctx ca) (fs_store st) req OpEndorse) (\<lambda>_. Inr (namespace, args, req)))) of
        Inl e \<Rightarrow> (Returned (Inl e), st)
      | Inr (namespace, args, req) \<Rightarrow>
          (case executeLocally so ca ''helper endorsement failed'' namespace args req st of
             (Returned (Inr result), st1) \<Rightarrow>
               (case en_Responses (hr_Endorsement result) of
                  Some r # _ \<Rightarrow> (Returned (Inr result), st1)
                | _ \<Rightarrow> (Returned (Inl (Plain ''helper returned no proposal response'')), st1))
           | other \<Rightarrow> other))"

definition evaluate ::
  "('id, 'v) Service \<Rightarrow> call \<Rightarrow> InvocationRequest \<Rightarrow> 'v flow_state
    \<Rightarrow> (orch_error + helperExecutionResult) outcome \<times> 'v flow_state" where
  "evaluate so ca req0 st =
     (case rbind (ctx_ok (ca_ctx ca)) (\<lambda>_.
           rbind (prepareInvocation (so_cfg so) req0) (\<lambda>(namespace, args).
           if ir_IsInit req0 then Inl (StatusError CodeInvalidArgument ''is-init is only valid for invoke'')
           else
           rbind (selectLifecycleDefinition (ca_ctx ca) (fs_store st) req0) (\<lambda>req.
           rbind (map_error (\<lambda>_. StatusError CodeFailedPrecondition ''init'')
                    (validateInitState (ca_ctx ca) (fs_store st) req OpQuery)) (\<lambda>_.
           Inr (namespace, args, req))))) of
        Inl e \<Rightarrow> (Returned (Inl e), st)
      | Inr (namespace, args, req) \<Rightarrow>
          (case executeLocally so ca ''helper query failed'' namespace args req st of
             (Returned (Inr result), st1) \<Rightarrow>
               (if ir_ClientTxID req \<noteq> [] \<and> hr_TxID result \<noteq> ir_ClientTxID req
                then (Returned (Inl (StatusError CodeInternal ''query transaction ID does not match the client proposal'')), st1)
                else (Returned (Inr result), st1))
           | other \<Rightarrow> other))"

end
