(* ===== verification/Transaction_Packager.thy ===== *)
theory Transaction_Packager
  imports Invocation_Flow
begin

section \<open>Packaging endorsed transactions\<close>

text \<open>
  \<open>orchestrator/fabricx_packager.go\<close>: the native envelope of an endorsed transaction, the prepared
  transaction that Gateway clients sign, and its parser.  Protocol-buffer decoders that \<open>proto_lib\<close> does
  not have and the encoders form \<open>packager_lib\<close>.  An endorsement with identity is its encoded identity,
  \<open>None\<close> when nil, and its signature.
\<close>

record NativeEndorsement =
  nx_Identity :: "bytes option"
  nx_Signature :: bytes

text \<open>
  \<open>kl_HeaderParts\<close> splits a header into channel and signature header, \<open>kl_SignatureHeader\<close> gives creator and
  nonce, \<open>kl_SpecArgs\<close> the arguments of an invocation spec, \<open>kl_Metadata\<close> the input arguments and the payload
  of the SDK metadata, \<open>kl_Endorsements\<close> the endorsements a native transaction carries per namespace,
  \<open>kl_Actions\<close> header and payload of the actions of a transaction, \<open>kl_ActionPayload\<close> the proposal payload and
  the response payload of an action, \<open>kl_Extension\<close> the extension of a response payload, \<open>kl_ChaincodeAction\<close>
  its results and response.
\<close>

record packager_lib =
  kl_HeaderParts :: "bytes \<Rightarrow> (bytes \<times> bytes) option"
  kl_SignatureHeader :: "bytes \<Rightarrow> (bytes \<times> bytes) option"
  kl_SpecArgs :: "bytes \<Rightarrow> bytes list"
  kl_Metadata :: "bytes \<Rightarrow> (bytes list \<times> bytes) option"
  kl_Endorsements :: "bytes \<Rightarrow> NativeEndorsement option list option list"
  kl_Actions :: "bytes \<Rightarrow> (bytes \<times> bytes) option list option"
  kl_ActionPayload :: "bytes \<Rightarrow> (bytes \<times> bytes option) option"
  kl_Extension :: "bytes \<Rightarrow> bytes option"
  kl_ChaincodeAction :: "bytes \<Rightarrow> (bytes \<times> PeerResponse option) option"
  kl_ComputeTxID :: "bytes \<Rightarrow> bytes \<Rightarrow> string"
  kl_MarshalTx :: "bytes \<Rightarrow> (bytes \<times> bytes) list list \<Rightarrow> orch_error + bytes"
  kl_MessageHeader :: "bytes \<Rightarrow> orch_error + bytes"
  kl_WithoutCreator :: "bytes \<Rightarrow> orch_error + bytes"
  kl_NativePayload :: "bytes \<Rightarrow> bytes \<Rightarrow> bytes \<Rightarrow> orch_error + bytes"
  kl_PublicPayload :: "bytes \<Rightarrow> orch_error + bytes"
  kl_ProposalHash2 :: "bytes \<Rightarrow> bytes \<Rightarrow> orch_error + bytes"
  kl_MarshalEvent :: "string \<Rightarrow> string \<Rightarrow> string \<Rightarrow> bytes \<Rightarrow> orch_error + bytes"
  kl_MarshalResponse :: "bytes \<Rightarrow> PeerResponse \<Rightarrow> bytes \<Rightarrow> bytes \<Rightarrow> string \<Rightarrow> string \<Rightarrow> orch_error + bytes"
  kl_MarshalAction :: "bytes \<Rightarrow> bytes \<Rightarrow> PeerEndorsement list \<Rightarrow> orch_error + bytes"
  kl_MarshalTransaction :: "bytes \<Rightarrow> bytes \<Rightarrow> orch_error + bytes"
  kl_MarshalHeader :: "bytes \<Rightarrow> bytes \<Rightarrow> bytes"
  kl_MarshalEnvelope :: "bytes \<Rightarrow> bytes \<Rightarrow> orch_error + bytes"

subsection \<open>The native envelope\<close>

text \<open>The payload all responses share: the first loop.\<close>

fun agreedPayload :: "bytes option \<Rightarrow> ProposalResponse option list \<Rightarrow> orch_error + bytes option" where
  "agreedPayload payload [] = Inr payload"
| "agreedPayload payload (r # rs) =
     (case r of
        None \<Rightarrow> Inl (Plain ''proposal response is missing its chaincode response'')
      | Some resp \<Rightarrow>
      (case ps_Response resp of
         None \<Rightarrow> Inl (Plain ''proposal response is missing its chaincode response'')
       | Some x \<Rightarrow>
          (if failedResponse x then Inl (Plain (''proposal response was not successful, error code '' @ FormatInt (pr_Status x)))
           else case payload of
             None \<Rightarrow> agreedPayload (Some (ps_Payload resp)) rs
           | Some p \<Rightarrow> (if ps_Payload resp \<noteq> p then Inl (Plain ''proposal response payloads do not match (base64)'')
                       else agreedPayload payload rs))))"

text \<open>One endorsement per endorser, in order: the second loop.\<close>

fun distinctEndorsements ::
  "proto_lib \<Rightarrow> bytes list \<Rightarrow> ProposalResponse option list \<Rightarrow> orch_error + (bytes \<times> bytes) list" where
  "distinctEndorsements plib seen [] = Inr []"
| "distinctEndorsements plib seen (r # rs) =
     (case (case r of None \<Rightarrow> None | Some resp \<Rightarrow> ps_Endorsement resp) of
        None \<Rightarrow> distinctEndorsements plib seen rs
      | Some e \<Rightarrow>
          (if pe_Endorser e \<in> set seen then distinctEndorsements plib seen rs
           else if pl_Identity plib (pe_Endorser e) = None then Inl (Plain ''failed to unmarshal endorser identity'')
           else rbind (distinctEndorsements plib (pe_Endorser e # seen) rs) (\<lambda>rest.
                Inr ((pe_Endorser e, pe_Signature e) # rest))))"

definition createCompatFabricXTx ::
  "proto_lib \<Rightarrow> packager_lib \<Rightarrow> Proposal option \<Rightarrow> ProposalResponse option list \<Rightarrow> orch_error + bytes" where
  "createCompatFabricXTx plib gl proposal resps =
     rbind (require (Plain ''an endorsed proposal is required'') proposal) (\<lambda>p.
     if resps = [] then Inl (Plain ''at least one proposal response is required'')
     else
       rbind (require (Plain ''unmarshal header'') (kl_HeaderParts gl (pp_Header p))) (\<lambda>(chdr, shdr).
       rbind (require (Plain ''unmarshal signature header'') (kl_SignatureHeader gl shdr)) (\<lambda>_.
       rbind (agreedPayload None resps) (\<lambda>agreed.
       rbind (distinctEndorsements plib [] resps) (\<lambda>endorsements.
       if endorsements = [] then Inl (Plain ''no endorsements'')
       else
         (let payload = (case agreed of None \<Rightarrow> [] | Some x \<Rightarrow> x) in
          rbind (require (Plain ''expected applicationpb.Tx endorsement payload'') (pl_Tx plib payload)) (\<lambda>tx.
          rbind (kl_MarshalTx gl payload (map (\<lambda>_. endorsements) (tx_Namespaces tx))) (\<lambda>txBytes.
          rbind (require (Plain ''unmarshal channel header'') (pl_ChannelHeader plib chdr)) (\<lambda>_.
          rbind (kl_MessageHeader gl chdr) (\<lambda>chdrBytes.
          rbind (kl_WithoutCreator gl shdr) (\<lambda>shdrBytes.
          kl_NativePayload gl chdrBytes shdrBytes txBytes)))))))))))"

definition PackageTx :: "proto_lib \<Rightarrow> packager_lib \<Rightarrow> Endorsement \<Rightarrow> orch_error + bytes" where
  "PackageTx plib gl end = createCompatFabricXTx plib gl (en_Proposal end) (en_Responses end)"

subsection \<open>The prepared transaction\<close>

definition HeaderType_ENDORSER_TRANSACTION :: int where "HeaderType_ENDORSER_TRANSACTION = 3"

definition set_int32 :: "(int \<Rightarrow> 'r \<Rightarrow> 'r) \<Rightarrow> json \<Rightarrow> 'r \<Rightarrow> 'r option" where
  "set_int32 f v r = (case v of
       JNum lit \<Rightarrow> (case ParseInt64 lit of
           Inr x \<Rightarrow> if - (2 ^ 31) \<le> x \<and> x < 2 ^ 31 then Some (f x r) else None
         | Inl _ \<Rightarrow> None)
     | _ \<Rightarrow> None)"

definition gateway_binding_setters :: "GatewayProposalBinding setters" where
  "gateway_binding_setters = [
     (''format'', set_int64 (\<lambda>x. gb_Format_update (\<lambda>_. x))),
     (''proposal_hash'', set_bytes (\<lambda>x. gb_ProposalHash_update (\<lambda>_. x))),
     (''chaincode_version'', set_string (\<lambda>x. gb_ChaincodeVersion_update (\<lambda>_. x))),
     (''sequence'', set_int64 (\<lambda>x. gb_Sequence_update (\<lambda>_. x))),
     (''status'', set_int32 (\<lambda>x. gb_Status_update (\<lambda>_. x))),
     (''message'', set_string (\<lambda>x. gb_Message_update (\<lambda>_. x)))]"

definition zeroGatewayBinding :: GatewayProposalBinding where
  "zeroGatewayBinding = \<lparr>gb_Format = 0, gb_ProposalHash = [], gb_ChaincodeVersion = [], gb_Sequence = 0,
     gb_Status = 0, gb_Message = []\<rparr>"

text \<open>The binding of the second metadata record, of format one.\<close>

definition readGatewayBinding :: "string \<Rightarrow> bytes list \<Rightarrow> orch_error + GatewayProposalBinding" where
  "readGatewayBinding failure metadata =
     (case metadata of
        m0 # m1 # _ \<Rightarrow>
          (case Unmarshal gateway_binding_setters zeroGatewayBinding m1 of
             Some b \<Rightarrow> (if gb_Format b \<noteq> 1 then Inl (Plain failure) else Inr b)
           | None \<Rightarrow> Inl (Plain failure))
      | _ \<Rightarrow> Inl (Plain failure))"

text \<open>A client header: an endorser transaction whose ID is computed from creator and nonce.\<close>

definition clientHeader ::
  "proto_lib \<Rightarrow> packager_lib \<Rightarrow> string \<Rightarrow> bytes \<Rightarrow> bytes \<Rightarrow> orch_error + ChannelHeader \<times> bytes \<times> bytes" where
  "clientHeader plib gl failure chdr shdr =
     rbind (require (Plain ''unmarshal channel header'') (pl_ChannelHeader plib chdr)) (\<lambda>channel.
     rbind (require (Plain ''unmarshal signature header'') (kl_SignatureHeader gl shdr)) (\<lambda>(creator, nonce).
     if ch_Type channel \<noteq> HeaderType_ENDORSER_TRANSACTION \<or> creator = [] \<or> nonce = [] \<or>
        ch_TxId channel \<noteq> kl_ComputeTxID gl nonce creator
     then Inl (Plain failure) else Inr (channel, creator, nonce)))"

text \<open>What the endorsed native transaction must say about the client's proposal.\<close>

definition nativeMatches ::
  "proto_lib \<Rightarrow> helper_lib \<Rightarrow> packager_lib \<Rightarrow> Proposal \<Rightarrow> ChannelHeader \<Rightarrow> string \<Rightarrow> string \<Rightarrow> bytes \<Rightarrow> string
    \<Rightarrow> Tx \<Rightarrow> PeerResponse \<Rightarrow> orch_error + SdkMetadata" where
  "nativeMatches plib hl gl proposal channel chaincode namespace input version native response =
     (case tx_Namespaces native of
        [ns] \<Rightarrow>
          (if tn_NsId ns \<noteq> namespace \<or> length (tx_Metadata native) < 2
           then Inl (Plain ''endorsed native transaction does not match the client namespace'')
           else
             rbind (readGatewayBinding ''native transaction requires a version-one Gateway proposal binding'' (tx_Metadata native)) (\<lambda>binding.
             rbind (map_error (\<lambda>_. Plain ''native endorsement does not bind this proposal, response and lifecycle revision'')
               (MarshalGatewayProposalBinding plib hl (Some proposal) version (gb_Sequence binding) (Some response))) (\<lambda>expected.
             if expected \<noteq> tx_Metadata native ! 1
             then Inl (Plain ''native endorsement does not bind this proposal, response and lifecycle revision'')
             else
             rbind (ChaincodeIdentityFromMetadata (tx_Metadata native)) (\<lambda>identity.
             if (case identity of None \<Rightarrow> False
                 | Some i \<Rightarrow> ci_ChannelID i \<noteq> ch_ChannelId channel \<or>
                     ci_ChaincodeName i @ '':'' @ ci_Namespace i \<noteq> chaincode \<or> ci_Namespace i \<noteq> namespace)
             then Inl (Plain ''native chaincode identity differs from the prepared proposal'')
             else
               rbind (require (Plain ''decode endorsed transaction metadata'') (pl_Metadata plib (tx_Metadata native ! 0))) (\<lambda>sdk.
               rbind (require (Plain ''decode endorsed transaction metadata'') (kl_Metadata gl (tx_Metadata native ! 0))) (\<lambda>(args, payload).
               if payload \<noteq> pr_Payload response \<or> args \<noteq> kl_SpecArgs gl input
               then Inl (Plain ''endorsed arguments or response differ from the prepared transaction'')
               else Inr sdk)))))
           )
      | _ \<Rightarrow> Inl (Plain ''endorsed native transaction does not match the client namespace''))"

fun clonedEndorsements :: "ProposalResponse option list \<Rightarrow> orch_error + PeerEndorsement list" where
  "clonedEndorsements [] = Inr []"
| "clonedEndorsements (r # rs) =
     (case (case r of None \<Rightarrow> None | Some resp \<Rightarrow> ps_Endorsement resp) of
        None \<Rightarrow> Inl (Plain ''prepared transaction is missing a native endorsement'')
      | Some e \<Rightarrow> rbind (clonedEndorsements rs) (\<lambda>es. Inr (e # es)))"

text \<open>The Fabric container around the native transaction.\<close>

definition gatewayContainer ::
  "packager_lib \<Rightarrow> Proposal \<Rightarrow> bytes \<Rightarrow> bytes \<Rightarrow> string \<Rightarrow> string \<Rightarrow> string \<Rightarrow> bytes \<Rightarrow> PeerResponse \<Rightarrow> SdkMetadata
    \<Rightarrow> ProposalResponse option list \<Rightarrow> orch_error + bytes" where
  "gatewayContainer gl proposal chdr shdr chaincode version txID data response sdk responses =
     rbind (kl_PublicPayload gl (pp_Payload proposal)) (\<lambda>public.
     rbind (kl_ProposalHash2 gl (pp_Header proposal) public) (\<lambda>hash.
     rbind (if sm_EventName sdk \<noteq> [] \<or> sm_Event sdk \<noteq> []
            then kl_MarshalEvent gl chaincode txID (sm_EventName sdk) (sm_Event sdk) else Inr []) (\<lambda>event.
     rbind (kl_MarshalResponse gl hash response data event chaincode version) (\<lambda>responsePayload.
     rbind (clonedEndorsements responses) (\<lambda>endorsements.
     rbind (kl_MarshalAction gl public responsePayload endorsements) (\<lambda>action.
     rbind (kl_MarshalTransaction gl shdr action) (\<lambda>transaction.
     kl_MarshalEnvelope gl (kl_MarshalHeader gl chdr shdr) transaction)))))))"

text \<open>The native transaction inside the packaged envelope, checked to be of the same channel.\<close>

definition nativeTransaction ::
  "proto_lib \<Rightarrow> packager_lib \<Rightarrow> ChannelHeader \<Rightarrow> Endorsement \<Rightarrow> orch_error + bytes \<times> Tx" where
  "nativeTransaction plib gl channel end =
     rbind (createCompatFabricXTx plib gl (en_Proposal end) (en_Responses end)) (\<lambda>envelope.
     rbind (require (Plain ''unmarshal native payload'') (pl_Payload plib envelope)) (\<lambda>payload.
     rbind (require (Plain ''endorsed channel does not match the client proposal'')
       (case ep_ChannelHeader payload of None \<Rightarrow> None | Some h \<Rightarrow> pl_ChannelHeader plib h)) (\<lambda>nativeChannel.
     if ch_ChannelId nativeChannel \<noteq> ch_ChannelId channel
     then Inl (Plain ''endorsed channel does not match the client proposal'')
     else rbind (require (Plain ''unmarshal native transaction'') (pl_Tx plib (ep_Data payload))) (\<lambda>native.
          Inr (ep_Data payload, native)))))"

definition createGatewayTransaction ::
  "proto_lib \<Rightarrow> helper_lib \<Rightarrow> packager_lib \<Rightarrow> Proposal option \<Rightarrow> string \<Rightarrow> Endorsement \<Rightarrow> orch_error + bytes" where
  "createGatewayTransaction plib hl gl proposal version end =
     rbind (require (Plain ''the original client proposal is required'') proposal) (\<lambda>p.
     rbind (require (Plain ''unmarshal header'') (kl_HeaderParts gl (pp_Header p))) (\<lambda>(chdr, shdr).
     rbind (clientHeader plib gl ''invalid client transaction header'' chdr shdr) (\<lambda>(channel, _).
     rbind (map_error (\<lambda>_. Plain ''endorsed transaction ID does not match the client proposal'')
       (txIDFromEndorsement plib end)) (\<lambda>txID.
     if txID \<noteq> ch_TxId channel then Inl (Plain ''endorsed transaction ID does not match the client proposal'')
     else
       rbind (require (Plain ''unmarshal proposal payload'') (pl_ProposalPayload plib (pp_Payload p))) (\<lambda>(transient, input).
       rbind (require (Plain ''unmarshal invocation spec'') (pl_InvocationSpec plib input)) (\<lambda>spec.
       let chaincode = (case cs_Id spec of None \<Rightarrow> [] | Some (n, _) \<Rightarrow> n) in
       rbind (gatewayChaincodeRoute chaincode) (\<lambda>(_, namespace).
       rbind (nativeTransaction plib gl channel end) (\<lambda>(data, native).
       rbind (require (Plain ''proposal response is missing its chaincode response'') (firstResponse end)) (\<lambda>response.
       rbind (nativeMatches plib hl gl p channel chaincode namespace input version native response) (\<lambda>sdk.
       gatewayContainer gl p chdr shdr chaincode version txID data response sdk (en_Responses end)))))))))))"

subsection \<open>Reading a prepared transaction\<close>

record gatewayPreparedInvocation =
  gp_Request :: InvocationRequest
  gp_Endorsement :: Endorsement
  gp_Binding :: GatewayProposalBinding
  gp_Native :: Tx

fun nativeResponses ::
  "PeerResponse \<Rightarrow> bytes \<Rightarrow> NativeEndorsement option list \<Rightarrow> orch_error + ProposalResponse option list" where
  "nativeResponses response results [] = Inr []"
| "nativeResponses response results (e # es) =
     rbind (require (Plain ''native transaction is missing an endorsement identity or signature'')
       (case e of
          None \<Rightarrow> None
        | Some x \<Rightarrow> (case nx_Identity x of
            None \<Rightarrow> None
          | Some identity \<Rightarrow> if nx_Signature x = [] then None else Some (identity, nx_Signature x)))) (\<lambda>(identity, signature).
     rbind (nativeResponses response results es) (\<lambda>rest.
     Inr (Some \<lparr>ps_Response = Some response, ps_Payload = results,
            ps_Endorsement = Some \<lparr>pe_Endorser = identity, pe_Signature = signature\<rparr>\<rparr> # rest)))"

text \<open>The single action of the transaction: proposal payload and response payload.\<close>

definition singleAction :: "packager_lib \<Rightarrow> bytes \<Rightarrow> bytes \<Rightarrow> orch_error + bytes \<times> bytes" where
  "singleAction gl shdr data =
     (case kl_Actions gl data of
        Some [Some (header, payload)] \<Rightarrow>
          (if header \<noteq> shdr then Inl (Plain ''action and envelope signature headers differ'')
           else case kl_ActionPayload gl payload of
             Some (proposalPayload, Some responsePayload) \<Rightarrow> Inr (proposalPayload, responsePayload)
           | _ \<Rightarrow> Inl (Plain ''invalid prepared chaincode action''))
      | _ \<Rightarrow> Inl (Plain ''prepared transaction must contain exactly one action''))"

text \<open>The input of the public proposal: name of the chaincode and arguments.\<close>

definition publicInput ::
  "proto_lib \<Rightarrow> packager_lib \<Rightarrow> ChannelHeader \<Rightarrow> bytes \<Rightarrow> orch_error + string \<times> bytes list" where
  "publicInput plib gl channel proposalPayload =
     rbind (require (Plain ''prepared proposal must exclude transient data'')
       (case pl_ProposalPayload plib proposalPayload of
          Some ([], input) \<Rightarrow> Some input | _ \<Rightarrow> None)) (\<lambda>input.
     rbind (require (Plain ''invalid prepared proposal input'')
       (case pl_InvocationSpec plib input of
          None \<Rightarrow> None
        | Some spec \<Rightarrow> (case (cs_Id spec, cs_IsInit spec) of (Some cc, Some _) \<Rightarrow> Some cc | _ \<Rightarrow> None))) (\<lambda>cc.
     if pl_HeaderExtension plib (ch_Extension channel) \<noteq> Some (Some cc)
     then Inl (Plain ''prepared header and proposal chaincode identifiers differ'')
     else Inr (fst cc, kl_SpecArgs gl input)))"

definition executedAction ::
  "proto_lib \<Rightarrow> packager_lib \<Rightarrow> bytes \<Rightarrow> orch_error + bytes \<times> PeerResponse \<times> Tx \<times> NativeEndorsement option list" where
  "executedAction plib gl responsePayload =
     rbind (require (Plain ''unmarshal response payload'') (kl_Extension gl responsePayload)) (\<lambda>extension.
     rbind (require (Plain ''prepared transaction is missing its chaincode response'')
       (case kl_ChaincodeAction gl extension of
          Some (results, Some response) \<Rightarrow> Some (results, response) | _ \<Rightarrow> None)) (\<lambda>(results, response).
     rbind (require (Plain ''invalid native transaction in prepared envelope'')
       (case pl_Tx plib results of
          None \<Rightarrow> None
        | Some native \<Rightarrow>
            (case (tx_Namespaces native, kl_Endorsements gl results) of
               ([_], [Some es]) \<Rightarrow> if length (tx_Metadata native) < 2 then None else Some (native, es)
             | _ \<Rightarrow> None))) (\<lambda>(native, es).
     Inr (results, response, native, es))))"

definition parseGatewayTransaction ::
  "proto_lib \<Rightarrow> helper_lib \<Rightarrow> packager_lib \<Rightarrow> bytes option \<Rightarrow> orch_error + gatewayPreparedInvocation" where
  "parseGatewayTransaction plib hl gl envelope =
     (case envelope of
        None \<Rightarrow> Inl (Plain ''a prepared transaction is required'')
      | Some raw \<Rightarrow>
     (if raw = [] then Inl (Plain ''a prepared transaction is required'')
      else
     rbind (require (Plain ''invalid prepared transaction payload'')
       (case pl_Payload plib raw of None \<Rightarrow> None | Some p \<Rightarrow> map_option (Pair p) (ep_ChannelHeader p))) (\<lambda>(payload, chdr).
     rbind (clientHeader plib gl ''invalid prepared client transaction header'' chdr (ep_SignatureHeader payload)) (\<lambda>(channel, creator, nonce).
     rbind (singleAction gl (ep_SignatureHeader payload) (ep_Data payload)) (\<lambda>(proposalPayload, responsePayload).
     rbind (publicInput plib gl channel proposalPayload) (\<lambda>(chaincode, args).
     rbind (executedAction plib gl responsePayload) (\<lambda>(results, response, native, es).
     rbind (readGatewayBinding ''missing version-one native proposal binding; obtain a fresh endorsement'' (tx_Metadata native)) (\<lambda>binding.
     let proposal = \<lparr>pp_Header = kl_MarshalHeader gl chdr (ep_SignatureHeader payload), pp_Payload = proposalPayload\<rparr> in
     rbind (nativeResponses response results es) (\<lambda>responses.
     let end = \<lparr>en_Proposal = Some proposal, en_Responses = responses\<rparr> in
     rbind (createGatewayTransaction plib hl gl (Some proposal) (gb_ChaincodeVersion binding) end) (\<lambda>expected.
     if expected \<noteq> raw then Inl (Plain ''prepared transaction differs from its endorsed public projection'')
     else
     rbind (requestFromProposal plib \<lparr>iv_TxID = [], iv_Channel = [], iv_Namespace = chaincode, iv_ChaincodeVersion = [],
              iv_Args = args, iv_Creator = [], iv_Nonce = [], iv_Proposal = Some proposal\<rparr>) (\<lambda>req.
     rbind (gatewayChaincodeRoute (ir_ChaincodeName req)) (\<lambda>(name, namespace).
     Inr \<lparr>gp_Request = req\<lparr>ir_ChaincodeName := name, ir_Namespace := namespace, ir_ClientTxID := ch_TxId channel,
            ir_ClientCreator := creator, ir_ClientNonce := nonce, ir_ChaincodeVersion := gb_ChaincodeVersion binding\<rparr>,
          gp_Endorsement = end, gp_Binding = binding, gp_Native = native\<rparr>))))))))))))"

end
