(* ===== verification/Packager_Guarantees.thy ===== *)
theory Packager_Guarantees
  imports Transaction_Packager Connection_Guarantees Helper_Guarantees
begin

section \<open>What a packaged transaction contains\<close>

text \<open>
  The envelope sent to ordering carries the one payload all endorsers agreed on, and every endorser once;
  a prepared transaction that is accepted from a client says everywhere what its endorsers signed.
\<close>

subsection \<open>The native envelope\<close>

definition endorsedBy :: "ProposalResponse option \<Rightarrow> PeerEndorsement option" where
  "endorsedBy r = (case r of None \<Rightarrow> None | Some resp \<Rightarrow> ps_Endorsement resp)"

definition endorsementPair :: "PeerEndorsement \<Rightarrow> bytes \<times> bytes" where
  "endorsementPair e = (pe_Endorser e, pe_Signature e)"

text \<open>The endorsements that are present, in order.\<close>

definition presentEndorsements :: "ProposalResponse option list \<Rightarrow> (bytes \<times> bytes) list" where
  "presentEndorsements rs = map endorsementPair (List.map_filter endorsedBy rs)"

lemma presentEndorsements_simps [simp]:
  "presentEndorsements [] = []"
  "presentEndorsements (r # rs) =
     (case endorsedBy r of None \<Rightarrow> presentEndorsements rs | Some e \<Rightarrow> endorsementPair e # presentEndorsements rs)"
  by (simp_all add: presentEndorsements_def List.map_filter_def split: option.split)

definition carries :: "bytes \<Rightarrow> ProposalResponse option \<Rightarrow> bool" where
  "carries payload r \<longleftrightarrow> (\<exists>resp x. r = Some resp \<and> ps_Response resp = Some x \<and> successStatus (pr_Status x) \<and>
     ps_Payload resp = payload)"

lemma agreedPayload_carries:
  assumes "agreedPayload a rs = Inr b" and "a \<noteq> None \<or> rs \<noteq> []"
  shows "\<exists>payload. b = Some payload \<and> (a \<noteq> None \<longrightarrow> a = b) \<and> list_all (carries payload) rs"
  using assms
proof (induction rs arbitrary: a)
  case (Cons r rs)
  obtain resp x where r: "r = Some resp" "ps_Response resp = Some x" "successStatus (pr_Status x)"
    using Cons.prems(1) by (auto simp: failedResponse_def successStatus_def split: option.splits if_splits)
  show ?case
  proof (cases a)
    case None
    with Cons.prems(1) r have "agreedPayload (Some (ps_Payload resp)) rs = Inr b"
      by (simp add: failedResponse_def successStatus_def)
    from Cons.IH[OF this] r None show ?thesis by (auto simp: carries_def)
  next
    case (Some p)
    with Cons.prems(1) r have "agreedPayload (Some p) rs = Inr b" "ps_Payload resp = p"
      by (auto simp: failedResponse_def successStatus_def split: if_splits)
    with Cons.IH[of "Some p"] r Some show ?thesis by (auto simp: carries_def)
  qed
qed auto

text \<open>First occurrences of the endorsers that were not seen before, in order.\<close>

fun firstPer :: "'a list \<Rightarrow> ('a \<times> 'b) list \<Rightarrow> ('a \<times> 'b) list" where
  "firstPer seen [] = []"
| "firstPer seen ((k, v) # xs) =
     (if k \<in> set seen then firstPer seen xs else (k, v) # firstPer (k # seen) xs)"

lemma firstPer_keys:
  "distinct (map fst (firstPer seen xs)) \<and> set (map fst (firstPer seen xs)) = set (map fst xs) - set seen"
  by (induction seen xs rule: firstPer.induct) auto

lemma firstPer_first: "k \<notin> set seen \<Longrightarrow> map_of (firstPer seen xs) k = map_of xs k"
  by (induction seen xs rule: firstPer.induct) auto

lemma firstPer_subseq: "subseq (firstPer seen xs) xs"
  by (induction seen xs rule: firstPer.induct) (auto intro: list_emb_Cons)

lemma distinctEndorsements_first:
  assumes "distinctEndorsements plib seen rs = Inr es"
  shows "es = firstPer seen (presentEndorsements rs)"
  using assms
proof (induction rs arbitrary: seen es)
  case (Cons r rs)
  then show ?case
    by (cases r) (auto simp: endorsedBy_def endorsementPair_def rbind_Inr_iff split: option.splits if_splits)
qed simp

lemma createCompatFabricXTx_ok:
  assumes "createCompatFabricXTx plib gl proposal resps = Inr envelope"
  shows "\<exists>payload tx txBytes chdr shdr. resps \<noteq> [] \<and> list_all (carries payload) resps \<and> pl_Tx plib payload = Some tx \<and>
    firstPer [] (presentEndorsements resps) \<noteq> [] \<and>
    kl_MarshalTx gl payload (replicate (length (tx_Namespaces tx)) (firstPer [] (presentEndorsements resps))) = Inr txBytes \<and>
    kl_NativePayload gl chdr shdr txBytes = Inr envelope"
proof -
  obtain agreed endorsements tx txBytes chdr shdr where ne: "resps \<noteq> []"
    and a: "agreedPayload None resps = Inr agreed" and e: "distinctEndorsements plib [] resps = Inr endorsements"
    and "endorsements \<noteq> []" "pl_Tx plib (case agreed of None \<Rightarrow> [] | Some x \<Rightarrow> x) = Some tx"
    and "kl_MarshalTx gl (case agreed of None \<Rightarrow> [] | Some x \<Rightarrow> x) (map (\<lambda>_. endorsements) (tx_Namespaces tx)) = Inr txBytes"
    and "kl_NativePayload gl chdr shdr txBytes = Inr envelope"
    using assms by (auto simp: createCompatFabricXTx_def rbind_Inr_iff require_iff Let_def split: if_splits prod.splits)
  moreover obtain payload where "agreed = Some payload" "list_all (carries payload) resps"
    using agreedPayload_carries[OF a] ne by auto
  ultimately show ?thesis using distinctEndorsements_first[OF e] unfolding map_replicate_const
    by (intro exI[of _ payload] exI[of _ tx] exI[of _ txBytes] exI[of _ chdr] exI[of _ shdr]) simp
qed

text \<open>C17: a transaction that is packaged for ordering has at least one response, all successful and with one
  common payload; every namespace of that payload gets the same list of endorsements, not empty and in the
  order of the responses, in which each endorser occurs exactly once with its first signature.\<close>

theorem packaged_envelope:
  assumes "PackageTx plib gl endorsed = Inr envelope"
  shows "\<exists>payload tx es txBytes chdr shdr. en_Responses endorsed \<noteq> [] \<and>
    list_all (carries payload) (en_Responses endorsed) \<and> pl_Tx plib payload = Some tx \<and>
    es \<noteq> [] \<and> distinct (map fst es) \<and> subseq es (presentEndorsements (en_Responses endorsed)) \<and>
    map_of es = map_of (presentEndorsements (en_Responses endorsed)) \<and>
    kl_MarshalTx gl payload (replicate (length (tx_Namespaces tx)) es) = Inr txBytes \<and>
    kl_NativePayload gl chdr shdr txBytes = Inr envelope"
proof -
  let ?es = "firstPer [] (presentEndorsements (en_Responses endorsed))"
  obtain payload tx txBytes chdr shdr where "en_Responses endorsed \<noteq> []"
    "list_all (carries payload) (en_Responses endorsed)" "pl_Tx plib payload = Some tx" "?es \<noteq> []"
    "kl_MarshalTx gl payload (replicate (length (tx_Namespaces tx)) ?es) = Inr txBytes"
    "kl_NativePayload gl chdr shdr txBytes = Inr envelope"
    using assms createCompatFabricXTx_ok unfolding PackageTx_def by metis
  moreover have "map_of ?es = map_of (presentEndorsements (en_Responses endorsed))"
    by (intro ext firstPer_first) simp
  ultimately show ?thesis using firstPer_keys[of "[]"] firstPer_subseq
    by (intro exI[of _ payload] exI[of _ tx] exI[of _ ?es] exI[of _ txBytes] exI[of _ chdr] exI[of _ shdr]) auto
qed

subsection \<open>Reading a prepared transaction\<close>

text \<open>
  What the reader relies on in the encoders: encoding a transaction with other endorsements and wrapping it
  in a payload keeps its namespaces and metadata, and an encoded header decodes to its parts.
\<close>

definition wire_keeps :: "proto_lib \<Rightarrow> packager_lib \<Rightarrow> bool" where
  "wire_keeps plib gl \<longleftrightarrow> (\<forall>data es txBytes chdr shdr raw payload.
     kl_MarshalTx gl data es = Inr txBytes \<longrightarrow> kl_NativePayload gl chdr shdr txBytes = Inr raw \<longrightarrow>
     pl_Payload plib raw = Some payload \<longrightarrow> pl_Tx plib (ep_Data payload) = pl_Tx plib data) \<and>
     (\<forall>chdr shdr. kl_HeaderParts gl (kl_MarshalHeader gl chdr shdr) = Some (chdr, shdr))"

lemma nativeMatches_ok:
  assumes "nativeMatches plib hl gl proposal channel chaincode namespace input version native response = Inr sdk"
  shows "\<exists>n binding. tx_Namespaces native = [n] \<and> tn_NsId n = namespace \<and>
    readGatewayBinding ''native transaction requires a version-one Gateway proposal binding'' (tx_Metadata native) = Inr binding \<and>
    MarshalGatewayProposalBinding plib hl (Some proposal) version (gb_Sequence binding) (Some response)
      = Inr (tx_Metadata native ! 1) \<and>
    kl_Metadata gl (tx_Metadata native ! 0) = Some (kl_SpecArgs gl input, pr_Payload response) \<and>
    (\<forall>identity. ChaincodeIdentityFromMetadata (tx_Metadata native) = Inr (Some identity) \<longrightarrow>
       ci_ChannelID identity = ch_ChannelId channel \<and> ci_Namespace identity = namespace \<and>
       ci_ChaincodeName identity @ '':'' @ namespace = chaincode)"
  using assms
  by (auto simp: nativeMatches_def rbind_Inr_iff split: list.splits if_splits sum.splits prod.splits option.splits)

lemma nativeTransaction_ok:
  assumes "nativeTransaction plib gl channel endorsed = Inr (data, native)" and "wire_keeps plib gl"
  shows "\<exists>payload. list_all (carries payload) (en_Responses endorsed) \<and> pl_Tx plib payload = Some native"
proof -
  obtain envelope nativePayload where
    env: "createCompatFabricXTx plib gl (en_Proposal endorsed) (en_Responses endorsed) = Inr envelope"
      "pl_Payload plib envelope = Some nativePayload" "pl_Tx plib (ep_Data nativePayload) = Some native"
    using assms(1) by (auto simp: nativeTransaction_def rbind_Inr_iff split: if_splits)
  obtain payload txBytes es ch sh where c: "list_all (carries payload) (en_Responses endorsed)"
    "kl_MarshalTx gl payload es = Inr txBytes" "kl_NativePayload gl ch sh txBytes = Inr envelope"
    using createCompatFabricXTx_ok[OF env(1)] by blast
  have "pl_Tx plib payload = Some native"
    using assms(2) c(2,3) env(2,3) unfolding wire_keeps_def by metis
  with c(1) show ?thesis by blast
qed

lemma createGatewayTransaction_ok:
  assumes "createGatewayTransaction plib hl gl (Some p) version endorsed = Inr raw" and "wire_keeps plib gl"
  shows "\<exists>chdr shdr channel creator nonce transient input spec payload native response sdk.
    kl_HeaderParts gl (pp_Header p) = Some (chdr, shdr) \<and>
    clientHeader plib gl ''invalid client transaction header'' chdr shdr = Inr (channel, creator, nonce) \<and>
    txIDFromEndorsement plib endorsed = Inr (ch_TxId channel) \<and>
    pl_ProposalPayload plib (pp_Payload p) = Some (transient, input) \<and> pl_InvocationSpec plib input = Some spec \<and>
    list_all (carries payload) (en_Responses endorsed) \<and> pl_Tx plib payload = Some native \<and>
    firstResponse endorsed = Some response \<and>
    (\<exists>cc ns. gatewayChaincodeRoute (case cs_Id spec of None \<Rightarrow> [] | Some (n, _) \<Rightarrow> n) = Inr (cc, ns) \<and>
       nativeMatches plib hl gl p channel (case cs_Id spec of None \<Rightarrow> [] | Some (n, _) \<Rightarrow> n) ns input version native response
         = Inr sdk)"
proof -
  obtain chdr shdr channel creator nonce transient input spec cc ns data native response sdk where
    h: "kl_HeaderParts gl (pp_Header p) = Some (chdr, shdr)"
      "clientHeader plib gl ''invalid client transaction header'' chdr shdr = Inr (channel, creator, nonce)"
      "txIDFromEndorsement plib endorsed = Inr (ch_TxId channel)"
      "pl_ProposalPayload plib (pp_Payload p) = Some (transient, input)" "pl_InvocationSpec plib input = Some spec"
      "gatewayChaincodeRoute (case cs_Id spec of None \<Rightarrow> [] | Some (n, _) \<Rightarrow> n) = Inr (cc, ns)"
    and env: "nativeTransaction plib gl channel endorsed = Inr (data, native)"
    and r: "firstResponse endorsed = Some response"
      "nativeMatches plib hl gl p channel (case cs_Id spec of None \<Rightarrow> [] | Some (n, _) \<Rightarrow> n) ns input version native response
         = Inr sdk"
    using assms(1)
    by (auto simp: createGatewayTransaction_def rbind_Inr_iff Let_def split: prod.splits if_splits)
  obtain payload where "list_all (carries payload) (en_Responses endorsed)" "pl_Tx plib payload = Some native"
    using nativeTransaction_ok[OF env assms(2)] by blast
  with h r show ?thesis by blast
qed

lemma nativeResponses_ok:
  "nativeResponses response results es = Inr rs \<Longrightarrow>
     list_all (\<lambda>r. \<exists>resp. r = Some resp \<and> ps_Response resp = Some response \<and> ps_Payload resp = results) rs"
proof (induction es arbitrary: rs)
  case (Cons e es)
  then show ?case by (auto simp: rbind_Inr_iff)
qed simp

lemma executedAction_native:
  "executedAction plib gl responsePayload = Inr (results, response, native, es) \<Longrightarrow> pl_Tx plib results = Some native"
  by (auto simp: executedAction_def rbind_Inr_iff split: option.splits list.splits if_splits prod.splits)

lemma requestFromProposal_ok:
  assumes "requestFromProposal plib invoc = Inr req" and "iv_Proposal invoc = Some p"
    and "pl_ProposalPayload plib (pp_Payload p) = Some (transient, input)"
  shows "ir_Function req # ir_Args req = iv_Args invoc \<and> ir_ClientTransient req = transient \<and>
    ir_ChaincodeName req = iv_Namespace invoc"
  using assms by (auto simp: requestFromProposal_def rbind_Inr_iff emptyRequest_def Let_def split: list.splits if_splits)

lemma publicInput_ok:
  assumes "publicInput plib gl channel proposalPayload = Inr (chaincode, args)"
  shows "\<exists>input spec. pl_ProposalPayload plib proposalPayload = Some ([], input) \<and>
    pl_InvocationSpec plib input = Some spec \<and> (case cs_Id spec of None \<Rightarrow> [] | Some (n, _) \<Rightarrow> n) = chaincode \<and>
    args = kl_SpecArgs gl input"
proof -
  obtain input cc where p: "(case pl_ProposalPayload plib proposalPayload of Some ([], i) \<Rightarrow> Some i | _ \<Rightarrow> None) = Some input"
    and s: "(case pl_InvocationSpec plib input of None \<Rightarrow> None | Some spec \<Rightarrow>
        (case (cs_Id spec, cs_IsInit spec) of (Some cc, Some _) \<Rightarrow> Some cc | _ \<Rightarrow> None)) = Some cc"
    and r: "chaincode = fst cc" "args = kl_SpecArgs gl input"
    using assms by (auto simp: publicInput_def rbind_Inr_iff split: if_splits)
  have "pl_ProposalPayload plib proposalPayload = Some ([], input)"
    using p by (auto split: option.splits list.splits prod.splits)
  moreover obtain spec where "pl_InvocationSpec plib input = Some spec" "cs_Id spec = Some cc"
    using s by (auto split: option.splits)
  ultimately show ?thesis using r by (cases cc) auto
qed

text \<open>The facts one run of the parser establishes, before they are put together.\<close>

lemma parse_runs:
  assumes "parseGatewayTransaction plib hl gl envelope = Inr gp"
  obtains raw chdr shdr channel creator nonce proposalPayload chaincode args results response native es binding p req name namespace
  where "envelope = Some raw"
    "clientHeader plib gl ''invalid prepared client transaction header'' chdr shdr = Inr (channel, creator, nonce)"
    "publicInput plib gl channel proposalPayload = Inr (chaincode, args)" "pl_Tx plib results = Some native"
    "readGatewayBinding ''missing version-one native proposal binding; obtain a fresh endorsement'' (tx_Metadata native)
       = Inr binding"
    "p = \<lparr>pp_Header = kl_MarshalHeader gl chdr shdr, pp_Payload = proposalPayload\<rparr>"
    "nativeResponses response results es = Inr (en_Responses (gp_Endorsement gp))"
    "en_Proposal (gp_Endorsement gp) = Some p"
    "createGatewayTransaction plib hl gl (Some p) (gb_ChaincodeVersion binding) (gp_Endorsement gp) = Inr raw"
    "requestFromProposal plib \<lparr>iv_TxID = [], iv_Channel = [], iv_Namespace = chaincode, iv_ChaincodeVersion = [],
       iv_Args = args, iv_Creator = [], iv_Nonce = [], iv_Proposal = Some p\<rparr> = Inr req"
    "gatewayChaincodeRoute (ir_ChaincodeName req) = Inr (name, namespace)"
    "gp_Request gp = req\<lparr>ir_ChaincodeName := name, ir_Namespace := namespace, ir_ClientTxID := ch_TxId channel,
       ir_ClientCreator := creator, ir_ClientNonce := nonce, ir_ChaincodeVersion := gb_ChaincodeVersion binding\<rparr>"
    "gp_Binding gp = binding" "gp_Native gp = native"
  using assms
  by (auto simp: parseGatewayTransaction_def rbind_Inr_iff Let_def dest!: executedAction_native
      split: option.splits if_splits prod.splits)

lemma readGatewayBinding_same:
  "readGatewayBinding f m = Inr b \<Longrightarrow> readGatewayBinding g m = Inr c \<Longrightarrow> b = c"
  by (auto simp: readGatewayBinding_def split: list.splits option.splits if_splits)

lemma clientHeader_same:
  "clientHeader plib gl f c s = Inr x \<Longrightarrow> clientHeader plib gl g c s = Inr y \<Longrightarrow> x = y"
  by (auto simp: clientHeader_def rbind_Inr_iff split: if_splits prod.splits)

lemma clientHeader_txid:
  "clientHeader plib gl f c s = Inr (channel, creator, nonce) \<Longrightarrow> ch_TxId channel = kl_ComputeTxID gl nonce creator"
  by (auto simp: clientHeader_def rbind_Inr_iff split: if_splits prod.splits)

text \<open>C16: a prepared transaction the orchestrator accepts for submission is bound to what its endorsers signed:
  packaging its endorsements again gives exactly the bytes the client signed; its transaction ID is computed
  from the client's creator and nonce; its one namespace is the routed one; the signed binding is that of this
  proposal, definition revision and response, the response is the same at every endorser; the arguments to be
  recorded are those of the signed metadata and there is no transient data; a signed chaincode identity names
  the routed chaincode.\<close>

theorem prepared_transaction_bound:
  assumes "parseGatewayTransaction plib hl gl envelope = Inr gp" and "wire_keeps plib gl"
  shows "\<exists>raw p response n. envelope = Some raw \<and> en_Proposal (gp_Endorsement gp) = Some p \<and>
    createGatewayTransaction plib hl gl (Some p) (ir_ChaincodeVersion (gp_Request gp)) (gp_Endorsement gp) = Inr raw \<and>
    ir_ClientTxID (gp_Request gp) = kl_ComputeTxID gl (ir_ClientNonce (gp_Request gp)) (ir_ClientCreator (gp_Request gp)) \<and>
    txIDFromEndorsement plib (gp_Endorsement gp) = Inr (ir_ClientTxID (gp_Request gp)) \<and>
    firstResponse (gp_Endorsement gp) = Some response \<and>
    list_all (\<lambda>r. \<exists>resp. r = Some resp \<and> ps_Response resp = Some response) (en_Responses (gp_Endorsement gp)) \<and>
    tx_Namespaces (gp_Native gp) = [n] \<and> tn_NsId n = ir_Namespace (gp_Request gp) \<and>
    MarshalGatewayProposalBinding plib hl (Some p) (ir_ChaincodeVersion (gp_Request gp)) (gb_Sequence (gp_Binding gp))
      (Some response) = Inr (tx_Metadata (gp_Native gp) ! 1) \<and>
    kl_Metadata gl (tx_Metadata (gp_Native gp) ! 0)
      = Some (ir_Function (gp_Request gp) # ir_Args (gp_Request gp), pr_Payload response) \<and>
    ir_ClientTransient (gp_Request gp) = [] \<and>
    (\<forall>identity. ChaincodeIdentityFromMetadata (tx_Metadata (gp_Native gp)) = Inr (Some identity) \<longrightarrow>
       ci_Namespace identity = ir_Namespace (gp_Request gp) \<and> ci_ChaincodeName identity = ir_ChaincodeName (gp_Request gp))"
proof -
  obtain raw chdr shdr channel creator nonce proposalPayload chaincode args results resp0 native es binding p req name namespace
    where run: "envelope = Some raw"
    "clientHeader plib gl ''invalid prepared client transaction header'' chdr shdr = Inr (channel, creator, nonce)"
    "publicInput plib gl channel proposalPayload = Inr (chaincode, args)" "pl_Tx plib results = Some native"
    "readGatewayBinding ''missing version-one native proposal binding; obtain a fresh endorsement'' (tx_Metadata native)
       = Inr binding"
    "p = \<lparr>pp_Header = kl_MarshalHeader gl chdr shdr, pp_Payload = proposalPayload\<rparr>"
    "nativeResponses resp0 results es = Inr (en_Responses (gp_Endorsement gp))"
    "en_Proposal (gp_Endorsement gp) = Some p"
    "createGatewayTransaction plib hl gl (Some p) (gb_ChaincodeVersion binding) (gp_Endorsement gp) = Inr raw"
    "requestFromProposal plib \<lparr>iv_TxID = [], iv_Channel = [], iv_Namespace = chaincode, iv_ChaincodeVersion = [],
       iv_Args = args, iv_Creator = [], iv_Nonce = [], iv_Proposal = Some p\<rparr> = Inr req"
    "gatewayChaincodeRoute (ir_ChaincodeName req) = Inr (name, namespace)"
    "gp_Request gp = req\<lparr>ir_ChaincodeName := name, ir_Namespace := namespace, ir_ClientTxID := ch_TxId channel,
       ir_ClientCreator := creator, ir_ClientNonce := nonce, ir_ChaincodeVersion := gb_ChaincodeVersion binding\<rparr>"
    "gp_Binding gp = binding" "gp_Native gp = native"
    by (rule parse_runs[OF assms(1)])
  obtain input spec where pin: "pl_ProposalPayload plib proposalPayload = Some ([], input)"
    "pl_InvocationSpec plib input = Some spec" "(case cs_Id spec of None \<Rightarrow> [] | Some (n, _) \<Rightarrow> n) = chaincode"
    "args = kl_SpecArgs gl input"
    using publicInput_ok[OF run(3)] by blast
  have req: "ir_Function req # ir_Args req = args" "ir_ClientTransient req = []" "ir_ChaincodeName req = chaincode"
    using requestFromProposal_ok[OF run(10)] pin(1) run(6) by simp_all
  obtain chdr' shdr' channel' creator' nonce' transient' input' spec' payload native' response sdk cc ns where
    cg: "kl_HeaderParts gl (pp_Header p) = Some (chdr', shdr')"
    "clientHeader plib gl ''invalid client transaction header'' chdr' shdr' = Inr (channel', creator', nonce')"
    "txIDFromEndorsement plib (gp_Endorsement gp) = Inr (ch_TxId channel')"
    "pl_ProposalPayload plib (pp_Payload p) = Some (transient', input')" "pl_InvocationSpec plib input' = Some spec'"
    "list_all (carries payload) (en_Responses (gp_Endorsement gp))" "pl_Tx plib payload = Some native'"
    "firstResponse (gp_Endorsement gp) = Some response"
    "gatewayChaincodeRoute (case cs_Id spec' of None \<Rightarrow> [] | Some (n, _) \<Rightarrow> n) = Inr (cc, ns)"
    "nativeMatches plib hl gl p channel' (case cs_Id spec' of None \<Rightarrow> [] | Some (n, _) \<Rightarrow> n) ns input'
      (gb_ChaincodeVersion binding) native' response = Inr sdk"
    using createGatewayTransaction_ok[OF run(9) assms(2)] by blast
  have "chdr' = chdr \<and> shdr' = shdr" using cg(1) run(6) assms(2) by (simp add: wire_keeps_def)
  then have channel: "channel' = channel" using clientHeader_same[OF run(2)] cg(2) by blast
  have same: "input' = input" "spec' = spec" using cg(4,5) pin(1,2) run(6) by auto
  have route: "cc = name" "ns = namespace" and cname: "chaincode = name @ '':'' @ namespace"
    using cg(9) run(11) req(3) pin(3) same gatewayChaincodeRoute_iff[of chaincode name namespace] by simp_all
  have rs: "list_all (\<lambda>r. \<exists>x. r = Some x \<and> ps_Response x = Some resp0 \<and> ps_Payload x = results) (en_Responses (gp_Endorsement gp))"
    by (rule nativeResponses_ok[OF run(7)])
  have ne: "en_Responses (gp_Endorsement gp) \<noteq> []" using cg(8) by (auto simp: firstResponse_def)
  then obtain r0 where "Some r0 = hd (en_Responses (gp_Endorsement gp))" and hd: "ps_Response r0 = Some resp0"
    "ps_Payload r0 = results" "ps_Payload r0 = payload"
    using rs cg(6) by (cases "en_Responses (gp_Endorsement gp)") (auto simp: carries_def)
  then have resp: "resp0 = response" "payload = results" using cg(8) ne
    by (cases "en_Responses (gp_Endorsement gp)"; auto simp: firstResponse_def)+
  then have native: "native' = native" using run(4) cg(7) by simp
  obtain n b where nm: "tx_Namespaces native = [n]" "tn_NsId n = namespace"
    "readGatewayBinding ''native transaction requires a version-one Gateway proposal binding'' (tx_Metadata native) = Inr b"
    "MarshalGatewayProposalBinding plib hl (Some p) (gb_ChaincodeVersion binding) (gb_Sequence b) (Some response)
      = Inr (tx_Metadata native ! 1)"
    "kl_Metadata gl (tx_Metadata native ! 0) = Some (args, pr_Payload response)"
    "\<forall>identity. ChaincodeIdentityFromMetadata (tx_Metadata native) = Inr (Some identity) \<longrightarrow>
       ci_Namespace identity = namespace \<and> ci_ChaincodeName identity @ '':'' @ namespace = name @ '':'' @ namespace"
    using nativeMatches_ok[OF cg(10)] native route same pin(3,4) cname by auto
  have "b = binding" by (rule readGatewayBinding_same[OF nm(3) run(5)])
  moreover have "list_all (\<lambda>r. \<exists>resp. r = Some resp \<and> ps_Response resp = Some response) (en_Responses (gp_Endorsement gp))"
    using rs resp(1) by (auto simp: list_all_iff)
  ultimately show ?thesis
    using run cg(3,8) channel clientHeader_txid[OF run(2)] nm req by auto
qed

subsection \<open>A prepared transaction\<close>

text \<open>A header as its two parts, the first after its length in unary.\<close>

definition pair_encode :: "bytes \<Rightarrow> bytes \<Rightarrow> bytes" where
  "pair_encode x y = replicate (length x) CHR ''a'' @ CHR ''b'' # x @ y"

definition pair_decode :: "bytes \<Rightarrow> (bytes \<times> bytes) option" where
  "pair_decode b = (let n = length (takeWhile (\<lambda>c. c = CHR ''a'') b); rest = drop (Suc n) b in Some (take n rest, drop n rest))"

lemma pair_decode_encode: "pair_decode (pair_encode x y) = Some (x, y)"
proof -
  have "takeWhile (\<lambda>c. c = CHR ''a'') (replicate n CHR ''a'' @ CHR ''b'' # r) = replicate n CHR ''a''" for n r
    by (induction n) auto
  then have "takeWhile (\<lambda>c. c = CHR ''a'') (pair_encode x y) = replicate (length x) CHR ''a''"
    by (simp add: pair_encode_def)
  then show ?thesis by (simp add: pair_decode_def pair_encode_def)
qed

definition bound_binding :: GatewayProposalBinding where
  "bound_binding = \<lparr>gb_Format = 1, gb_ProposalHash = ''h'', gb_ChaincodeVersion = ''1'', gb_Sequence = 2, gb_Status = 200,
     gb_Message = ''ok''\<rparr>"

definition prepared_native :: Tx where
  "prepared_native = \<lparr>tx_Namespaces = [\<lparr>tn_NsId = ''ns'', tn_NsVersion = 0, tn_Content = []\<rparr>],
     tx_Metadata = [''m'', jprint (binding_json bound_binding)]\<rparr>"

definition prepared_response :: PeerResponse where
  "prepared_response = \<lparr>pr_Status = 200, pr_Message = ''ok'', pr_Payload = ''out''\<rparr>"

definition prepared_proto :: proto_lib where
  "prepared_proto = sample_proto\<lparr>pl_Tx := (\<lambda>_. Some prepared_native),
     pl_Payload := (\<lambda>_. Some \<lparr>ep_ChannelHeader = Some ''c'', ep_SignatureHeader = ''s'', ep_Data = ''d''\<rparr>),
     pl_InvocationSpec := (\<lambda>_. Some \<lparr>cs_Id = Some (''cc:ns'', ''1''), cs_IsInit = Some False\<rparr>),
     pl_Metadata := (\<lambda>_. Some \<lparr>sm_EventName = [], sm_Event = []\<rparr>), pl_Identity := (\<lambda>m. Some (m, ''cert''))\<rparr>"

definition prepared_lib :: packager_lib where
  "prepared_lib = \<lparr>kl_HeaderParts = pair_decode, kl_SignatureHeader = (\<lambda>_. Some (''creator'', ''nonce'')),
     kl_SpecArgs = (\<lambda>_. [''f'', ''k'']), kl_Metadata = (\<lambda>_. Some ([''f'', ''k''], ''out'')),
     kl_Endorsements = (\<lambda>_. [Some [Some \<lparr>nx_Identity = Some ''Org1'', nx_Signature = ''sig''\<rparr>]]),
     kl_Actions = (\<lambda>_. Some [Some (''s'', ''p'')]), kl_ActionPayload = (\<lambda>_. Some (''pp'', Some ''rp'')),
     kl_Extension = (\<lambda>_. Some ''e''), kl_ChaincodeAction = (\<lambda>_. Some (''r'', Some prepared_response)),
     kl_ComputeTxID = (\<lambda>_ _. ''tx''), kl_MarshalTx = (\<lambda>_ _. Inr ''t''), kl_MessageHeader = (\<lambda>_. Inr ''c''),
     kl_WithoutCreator = (\<lambda>_. Inr ''s''), kl_NativePayload = (\<lambda>_ _ _. Inr ''n''), kl_PublicPayload = (\<lambda>_. Inr ''pp''),
     kl_ProposalHash2 = (\<lambda>_ _. Inr ''h''), kl_MarshalEvent = (\<lambda>_ _ _ _. Inr ''v''),
     kl_MarshalResponse = (\<lambda>_ _ _ _ _ _. Inr ''rp''), kl_MarshalAction = (\<lambda>_ _ _. Inr ''p''),
     kl_MarshalTransaction = (\<lambda>_ _. Inr ''d''), kl_MarshalHeader = pair_encode, kl_MarshalEnvelope = (\<lambda>_ _. Inr ''raw'')\<rparr>"

lemma gateway_binding_read:
  assumes "utf8_ok (gb_ChaincodeVersion b)" and "utf8_ok (gb_Message b)" and "gb_Format b = 1"
    and "is_i64 (gb_Sequence b)" and "- (2 ^ 31) \<le> gb_Status b" and "gb_Status b < 2 ^ 31"
  shows "readGatewayBinding failure [m, jprint (binding_json b)] = Inr b"
proof -
  have tags: "utf8_ok ''format''" "utf8_ok ''proposal_hash''" "utf8_ok ''chaincode_version''"
    "utf8_ok ''sequence''" "utf8_ok ''status''" "utf8_ok ''message''" by (rule ascii_utf8, simp)+
  have p: "jparse (jprint (binding_json b)) = Some (binding_json b)"
    using assms tags by (intro jparse_jprint) (simp add: binding_json_def)
  have one: "is_i64 1" by (simp add: is_i64_def min_i64_def max_i64_def)
  have "is_i64 (gb_Status b)" using assms(5,6) by (simp add: is_i64_def min_i64_def max_i64_def)
  then have st: "set_int32 f (JNum (FormatInt (gb_Status b))) r = Some (f (gb_Status b) r)" for f and r :: GatewayProposalBinding
    using assms(5,6) by (simp add: set_int32_def ParseInt_Format)
  have "decode_value gateway_binding_setters (binding_json b) zeroGatewayBinding = Some b"
    using assms(3,4) one st
    by (simp add: decode_value_def binding_json_def gateway_binding_setters_def zeroGatewayBinding_def)
  then show ?thesis using assms(3) by (simp add: readGatewayBinding_def Unmarshal_def p)
qed

lemma prepared_binding:
  "readGatewayBinding failure (tx_Metadata prepared_native) = Inr bound_binding"
  "ChaincodeIdentityFromMetadata (tx_Metadata prepared_native) = Inr None"
proof -
  have ascii: "utf8_ok ''1''" "utf8_ok ''ok''" by (rule ascii_utf8, simp)+
  then have "readGatewayBinding failure [''m'', jprint (binding_json bound_binding)] = Inr bound_binding"
    by (intro gateway_binding_read) (simp_all add: bound_binding_def is_i64_def min_i64_def max_i64_def)
  then show "readGatewayBinding failure (tx_Metadata prepared_native) = Inr bound_binding"
    by (simp add: prepared_native_def)
  have "record_kind (jprint (binding_json bound_binding)) = Some []"
    using ascii by (intro binding_not_identity) (simp_all add: bound_binding_def)
  then show "ChaincodeIdentityFromMetadata (tx_Metadata prepared_native) = Inr None"
    by (simp add: ChaincodeIdentityFromMetadata_def prepared_native_def chaincodeIdentityType_def)
qed

definition prepared_proposal :: Proposal where
  "prepared_proposal = \<lparr>pp_Header = pair_encode ''c'' ''s'', pp_Payload = ''pp''\<rparr>"

definition prepared_endorsement :: Endorsement where
  "prepared_endorsement = \<lparr>en_Proposal = Some prepared_proposal, en_Responses = [Some \<lparr>ps_Response = Some prepared_response,
     ps_Payload = ''r'', ps_Endorsement = Some \<lparr>pe_Endorser = ''Org1'', pe_Signature = ''sig''\<rparr>\<rparr>]\<rparr>"

definition prepared_channel :: ChannelHeader where
  "prepared_channel = \<lparr>ch_Type = 3, ch_ChannelId = ''ch'', ch_TxId = ''tx'', ch_Extension = []\<rparr>"

lemma prepared_binding_marshal:
  "MarshalGatewayProposalBinding prepared_proto sample_helper_lib (Some prepared_proposal) ''1'' 2 (Some prepared_response)
     = Inr (jprint (binding_json bound_binding))"
  by (simp add: MarshalGatewayProposalBinding_def prepared_proto_def sample_proto_def sample_helper_lib_def
      bound_binding_def prepared_response_def)

lemma prepared_matches:
  "nativeMatches prepared_proto sample_helper_lib prepared_lib prepared_proposal prepared_channel ''cc:ns'' ''ns'' ''i'' ''1''
     prepared_native prepared_response = Inr \<lparr>sm_EventName = [], sm_Event = []\<rparr>"
proof -
  have n: "tx_Namespaces prepared_native = [\<lparr>tn_NsId = ''ns'', tn_NsVersion = 0, tn_Content = []\<rparr>]"
    "tx_Metadata prepared_native ! Suc 0 = jprint (binding_json bound_binding)" "length (tx_Metadata prepared_native) = 2"
    by (simp_all add: prepared_native_def)
  have "gb_Sequence bound_binding = 2" by (simp add: bound_binding_def)
  then show ?thesis
    by (simp add: nativeMatches_def n prepared_binding prepared_binding_marshal)
      (simp add: prepared_lib_def prepared_proto_def prepared_response_def)
qed

lemma prepared_header: "clientHeader prepared_proto prepared_lib failure c s = Inr (prepared_channel, ''creator'', ''nonce'')"
  by (simp add: clientHeader_def prepared_proto_def prepared_lib_def sample_proto_def prepared_channel_def
      HeaderType_ENDORSER_TRANSACTION_def)

lemma prepared_packaged: "PackageTx prepared_proto prepared_lib prepared_endorsement = Inr ''n''"
  by (simp add: PackageTx_def createCompatFabricXTx_def prepared_endorsement_def prepared_response_def failedResponse_def
      prepared_proto_def sample_proto_def prepared_lib_def prepared_proposal_def pair_decode_encode)

lemma prepared_created:
  "createGatewayTransaction prepared_proto sample_helper_lib prepared_lib (Some prepared_proposal) ''1'' prepared_endorsement
     = Inr ''raw''"
proof -
  have h: "kl_HeaderParts prepared_lib (pp_Header prepared_proposal) = Some (''c'', ''s'')"
    by (simp add: prepared_lib_def prepared_proposal_def pair_decode_encode)
  have t: "txIDFromEndorsement prepared_proto prepared_endorsement = Inr ''tx''"
    by (simp add: txIDFromEndorsement_def txIDFromProposal_def prepared_endorsement_def prepared_proto_def sample_proto_def)
  have n: "nativeTransaction prepared_proto prepared_lib prepared_channel prepared_endorsement = Inr (''d'', prepared_native)"
    using prepared_packaged by (simp add: nativeTransaction_def PackageTx_def prepared_proto_def sample_proto_def prepared_channel_def)
  have r: "firstResponse prepared_endorsement = Some prepared_response"
    by (simp add: firstResponse_def prepared_endorsement_def)
  have p: "pl_ProposalPayload prepared_proto x = Some ([], ''i'')"
    "pl_InvocationSpec prepared_proto x = Some \<lparr>cs_Id = Some (''cc:ns'', ''1''), cs_IsInit = Some False\<rparr>" for x
    by (simp_all add: prepared_proto_def sample_proto_def)
  have c: "gatewayContainer prepared_lib prepared_proposal ''c'' ''s'' ''cc:ns'' ''1'' ''tx'' ''d'' prepared_response
      \<lparr>sm_EventName = [], sm_Event = []\<rparr> (en_Responses prepared_endorsement) = Inr ''raw''"
    by (simp add: gatewayContainer_def prepared_lib_def prepared_endorsement_def)
  show ?thesis
    by (simp add: createGatewayTransaction_def h prepared_header t p n r c prepared_matches sample_route)
      (simp add: prepared_channel_def c)
qed

lemma prepared_parses:
  "\<exists>gp. parseGatewayTransaction prepared_proto sample_helper_lib prepared_lib (Some ''raw'') = Inr gp \<and>
     ir_ClientTxID (gp_Request gp) = ''tx'' \<and> gp_Endorsement gp = prepared_endorsement"
proof -
  have env: "pl_Payload prepared_proto x = Some \<lparr>ep_ChannelHeader = Some ''c'', ep_SignatureHeader = ''s'', ep_Data = ''d''\<rparr>"
    "kl_MarshalHeader prepared_lib = pair_encode" for x
    by (simp_all add: prepared_proto_def prepared_lib_def)
  have act: "singleAction prepared_lib ''s'' ''d'' = Inr (''pp'', ''rp'')"
    by (simp add: singleAction_def prepared_lib_def)
  have pub: "publicInput prepared_proto prepared_lib prepared_channel ''pp'' = Inr (''cc:ns'', [''f'', ''k''])"
    by (simp add: publicInput_def prepared_proto_def sample_proto_def prepared_lib_def)
  have ex: "executedAction prepared_proto prepared_lib ''rp'' = Inr (''r'', prepared_response, prepared_native,
      [Some \<lparr>nx_Identity = Some ''Org1'', nx_Signature = ''sig''\<rparr>])"
    by (simp add: executedAction_def prepared_proto_def prepared_lib_def) (simp add: prepared_native_def)
  have pr: "\<lparr>pp_Header = pair_encode ''c'' ''s'', pp_Payload = ''pp''\<rparr> = prepared_proposal"
    by (simp add: prepared_proposal_def)
  have en: "\<lparr>en_Proposal = Some prepared_proposal, en_Responses = [Some \<lparr>ps_Response = Some prepared_response,
     ps_Payload = ''r'', ps_Endorsement = Some \<lparr>pe_Endorser = ''Org1'', pe_Signature = ''sig''\<rparr>\<rparr>]\<rparr> = prepared_endorsement"
    by (simp add: prepared_endorsement_def)
  have v: "gb_ChaincodeVersion bound_binding = ''1''" by (simp add: bound_binding_def)
  have req: "\<exists>req. requestFromProposal prepared_proto \<lparr>iv_TxID = [], iv_Channel = [], iv_Namespace = ''cc:ns'',
      iv_ChaincodeVersion = [], iv_Args = [''f'', ''k''], iv_Creator = [], iv_Nonce = [], iv_Proposal = Some prepared_proposal\<rparr>
      = Inr req \<and> ir_ChaincodeName req = ''cc:ns''"
    by (simp add: requestFromProposal_def emptyRequest_def prepared_proto_def sample_proto_def ProposalIsInit_def)
  have tx: "ch_TxId prepared_channel = ''tx''" by (simp add: prepared_channel_def)
  show ?thesis using req
    by (auto simp: parseGatewayTransaction_def env prepared_header act pub ex prepared_binding pr en v prepared_created
        sample_route tx)
qed

theorem packaged_envelope_witness:
  "\<exists>payload tx es txBytes chdr shdr. pl_Tx prepared_proto payload = Some tx \<and> es \<noteq> [] \<and>
    list_all (carries payload) (en_Responses prepared_endorsement) \<and>
    kl_NativePayload prepared_lib chdr shdr txBytes = Inr ''n''"
  using packaged_envelope[OF prepared_packaged] by blast

theorem prepared_transaction_bound_witness:
  "\<exists>gp p. parseGatewayTransaction prepared_proto sample_helper_lib prepared_lib (Some ''raw'') = Inr gp \<and>
     createGatewayTransaction prepared_proto sample_helper_lib prepared_lib (Some p) (ir_ChaincodeVersion (gp_Request gp))
       (gp_Endorsement gp) = Inr ''raw''"
proof -
  obtain gp where gp: "parseGatewayTransaction prepared_proto sample_helper_lib prepared_lib (Some ''raw'') = Inr gp"
    using prepared_parses by blast
  moreover have "wire_keeps prepared_proto prepared_lib"
    by (simp add: wire_keeps_def prepared_proto_def prepared_lib_def pair_decode_encode)
  ultimately show ?thesis using prepared_transaction_bound[OF gp] by blast
qed

end
