(* ===== verification/Submission.thy ===== *)
theory Submission
  imports Invocation_Flow Pending_Lifecycle Idempotency_Protocol "HOL-Library.AList"
begin

section \<open>Submitting a transaction and recording its outcome\<close>

text \<open>
  The ordering stage of \<open>orchestrator/execution.go\<close> that custom Invoke and Gateway Submit share, the replay
  of an unfinished submission, and the passes that record a final status later.  The callback after a
  commit runs in a world \<open>'w\<close> of its own, the lifecycle side of the service.  A call that waits for
  something that has not happened is \<open>Unfinished\<close>, closing a channel twice is \<open>Panic\<close>.
\<close>

type_synonym 'w callback = "ChaincodeDefinition \<Rightarrow> 'w \<Rightarrow> orch_error option outcome \<times> 'w"

subsection \<open>Initialization after a commit\<close>

text \<open>
  The services during the two lifecycle calls of \<open>markInitializedAfterCommit\<close>; its world is the lifecycle
  store and the pending lifecycle operations.
\<close>

record ('id, 'r) lifecycle_side =
  sd_server :: "('id, 'r) Server"
  sd_mark :: lifecycle_net
  sd_final :: lifecycle_net
  sd_env :: env

type_synonym 'r lifecycle_world = "Store option \<times> 'r lifecycle_state"

definition markInitializedAfterCommit ::
  "Config \<Rightarrow> ('id, 'r) lifecycle_side \<Rightarrow> ('r lifecycle_world) callback" where
  "markInitializedAfterCommit cfg side def = (\<lambda>(store, w).
     (case store of
        None \<Rightarrow> (Returned None, (None, w))
      | Some s \<Rightarrow>
      (case MarkLifecycleInitialized cfg (sd_mark side) (ev_ctx (sd_env side)) def w of
         (None, w1) \<Rightarrow> (Unfinished, (Some s, w1))
       | (Some (_, Some e), w1) \<Rightarrow> (Returned (Some (Wrapped ''mark lifecycle initialized on ledger'' e)), (Some s, w1))
       | (Some (_, None), w1) \<Rightarrow>
       (case FinalizeLifecycleDefinition (sd_server side) cfg (sd_final side) (sd_env side) def True s w1 of
          (None, s', w2) \<Rightarrow> (Unfinished, (Some s', w2))
        | (Some (Inl e), s', w2) \<Rightarrow> (Returned (Some (Wrapped ''reconcile lifecycle initialized mirrors'' e)), (Some s', w2))
        | (Some (Inr _), s', w2) \<Rightarrow> (Returned None, (Some s', w2))))))"

subsection \<open>The ordering stage\<close>

text \<open>The store is \<open>None\<close> after a panic; the envelopes are those handed to the ordering service.\<close>

definition submitTransaction ::
  "proto_lib \<Rightarrow> fabricXSubmitter option \<Rightarrow> ordering \<Rightarrow> ctx \<Rightarrow> Endorsement \<Rightarrow> InvocationResponse \<Rightarrow> nat option
    \<Rightarrow> ChaincodeDefinition option \<Rightarrow> int \<Rightarrow> idempotencyStore
    \<Rightarrow> (InvocationResponse \<times> orch_error option) \<times> bytes list \<times> idempotencyStore option" where
  "submitTransaction plib submitter net ctx end out record afterCommit now s =
     (case (record, submitter) of
        (Some r, Some sub) \<Rightarrow>
          (case ctx of
             Some e \<Rightarrow> ((out, Some (CtxError e)), [], Some s)
           | None \<Rightarrow>
               (let accepted = out\<lparr>rv_Submitted := True, rv_FinalityPending := True\<rparr> in
                case Submit_envelope sub net end of
                  (Inl e, sent) \<Rightarrow>
                    (if uncertainDelivery e = Some True
                     then ((accepted, Some (Wrapped ''submit failed'' e)), sent,
                           markSubmission plib record accepted end afterCommit (Some e) now s)
                     else ((out, Some (Wrapped ''submit failed'' e)), sent, Some s))
                | (Inr _, sent) \<Rightarrow>
                    ((accepted, None), sent, markSubmitted plib record accepted end afterCommit now s)))
      | _ \<Rightarrow> ((out, Some (Plain ''submission requires a transaction record and ordering client'')), [], Some s))"

subsection \<open>Recording a final status\<close>

definition recordFinality ::
  "'w callback \<Rightarrow> nat \<Rightarrow> TxStatus option \<Rightarrow> int \<Rightarrow> idempotencyStore \<Rightarrow> 'w
    \<Rightarrow> orch_error option outcome \<times> idempotencyStore \<times> 'w" where
  "recordFinality ac r st now s w =
     (case (pending (Some r) s, st) of
        (Some p, Some status) \<Rightarrow>
          (if \<not> isFinalStatus (rv_TxID (si_Response p)) (Some status) then (Returned None, s, w)
           else
             (let committed = (ts_Status status = COMMITTED);
                  out = (si_Response p)\<lparr>rv_CommitStatus := status_string (ts_Status status),
                         rv_BlockNum := ref_BlockNum (ts_Ref status), rv_TxNum := ref_TxNum (ts_Ref status),
                         rv_FinalityPending := False\<rparr>;
                  out1 = (if committed then out\<lparr>rv_ChaincodeEvent := si_Event p\<rparr> else out);
                  (called, w') = (case si_AfterCommit p of
                     Some def \<Rightarrow> if committed then ac def w else (Returned None, w)
                   | None \<Rightarrow> (Returned None, w))
              in case called of
                   Returned err \<Rightarrow>
                     (case confirmFinality (Some r) out1 err now s of
                        None \<Rightarrow> (Panic, s, w')
                      | Some s' \<Rightarrow> (Returned err, s', w'))
                 | Unfinished \<Rightarrow> (Unfinished, s, w')
                 | Panic \<Rightarrow> (Panic, s, w')))
      | _ \<Rightarrow> (Returned None, s, w))"

subsection \<open>Invoke: submit and wait\<close>

text \<open>
  The services of one submission: the clock gives the times of its steps, \<open>su_lock\<close> and \<open>su_ctx\<close> are the
  context at the lock and at the submission, \<open>su_interrupted\<close> says that the context ended during the
  configured wait after submission.
\<close>

record submit_env =
  su_submitter :: "fabricXSubmitter option"
  su_ordering :: ordering
  su_notify :: "notifier option"
  su_clock :: "nat \<Rightarrow> int"
  su_lock :: ctx
  su_ctx :: ctx
  su_interrupted :: bool

definition unlocked ::
  "nat \<Rightarrow> 'a \<Rightarrow> idempotencyStore \<Rightarrow> 'w \<Rightarrow> 'a outcome \<times> idempotencyStore \<times> 'w" where
  "unlocked r x s w =
     (case unlockFinality r s of None \<Rightarrow> (Unfinished, s, w) | Some s' \<Rightarrow> (Returned x, s', w))"

text \<open>What follows an acknowledged submission: the configured wait, then the subscription.\<close>

definition awaitOutcome ::
  "Config \<Rightarrow> submit_env \<Rightarrow> 'w callback \<Rightarrow> string \<Rightarrow> nat \<Rightarrow> finalitySubscription option \<Rightarrow> idempotencyStore \<Rightarrow> 'w
    \<Rightarrow> (InvocationResponse \<times> orch_error option) outcome \<times> idempotencyStore \<times> 'w" where
  "awaitOutcome cfg env ac txID r finality s w =
     (if cf_WaitAfterSubmit cfg > 0 \<and> protocolOrDefault (cf_Protocol cfg) = ''fabric-x'' \<and> su_interrupted env
      then unlocked r (waitResult r None s) s w
      else case finality_Wait finality of
        Inl e \<Rightarrow> unlocked r (waitResult r None s) s w
      | Inr st \<Rightarrow>
          (if \<not> isFinalStatus txID st then unlocked r (waitResult r None s) s w
           else case recordFinality ac r st (su_clock env 3) s w of
             (Returned _, s', w') \<Rightarrow> unlocked r (waitResult r None s') s' w'
           | (Unfinished, s', w') \<Rightarrow> (Unfinished, s', w')
           | (Panic, s', w') \<Rightarrow> (Panic, s', w')))"

definition submitAndWaitFinality ::
  "proto_lib \<Rightarrow> Config \<Rightarrow> submit_env \<Rightarrow> 'w callback \<Rightarrow> Endorsement \<Rightarrow> InvocationResponse \<Rightarrow> string \<Rightarrow> nat option
    \<Rightarrow> ChaincodeDefinition option \<Rightarrow> idempotencyStore \<Rightarrow> 'w
    \<Rightarrow> bytes list \<times> (InvocationResponse \<times> orch_error option) outcome \<times> idempotencyStore \<times> 'w" where
  "submitAndWaitFinality plib cfg env ac end out txID record afterCommit s w =
     (case record of
        None \<Rightarrow> ([], Returned (out, Some (Plain ''submission requires an idempotency record'')), s, w)
      | Some r \<Rightarrow>
      (case lockFinality (su_lock env) r s of
         (None, s1) \<Rightarrow> ([], Unfinished, s1, w)
       | (Some (Inl e), s1) \<Rightarrow> ([], Returned (out, Some e), s1, w)
       | (Some (Inr _), s1) \<Rightarrow>
       (let finality = (case subscribeFinality (su_notify env) txID of Inl _ \<Rightarrow> None | Inr f \<Rightarrow> f) in
        case submitTransaction plib (su_submitter env) (su_ordering env) (su_ctx env) end out record afterCommit
               (su_clock env 2) s1 of
          (_, sent, None) \<Rightarrow> (sent, Panic, s1, w)
        | ((out1, Some e), sent, Some s2) \<Rightarrow> (sent, unlocked r (out1, Some e) s2 w)
        | ((out1, None), sent, Some s2) \<Rightarrow> (sent, awaitOutcome cfg env ac txID r finality s2 w))))"

subsection \<open>A retry of an unfinished submission\<close>

definition replaySubmission ::
  "ctx \<Rightarrow> wake \<Rightarrow> ctx \<Rightarrow> nat \<Rightarrow> idempotencyStore
    \<Rightarrow> (InvocationResponse \<times> orch_error option) outcome \<times> idempotencyStore" where
  "replaySubmission ctx wake waitCtx r s =
     (case wait_record ctx wake (Some r) s of
        None \<Rightarrow> (Unfinished, s)
      | Some (out, err) \<Rightarrow>
          (if err \<noteq> None \<or> \<not> rv_FinalityPending out then (Returned (out, err), s)
           else case lockFinality waitCtx r s of
             (None, s1) \<Rightarrow> (Unfinished, s1)
           | (Some (Inl e), s1) \<Rightarrow> (Returned (waitResult r (Some e) s1), s1)
           | (Some (Inr _), s1) \<Rightarrow>
               (case unlockFinality r s1 of
                  None \<Rightarrow> (Unfinished, s1)
                | Some s2 \<Rightarrow> (Returned (waitResult r None s1), s2))))"

definition replayOrderingSubmission ::
  "ctx \<Rightarrow> wake \<Rightarrow> nat \<Rightarrow> idempotencyStore \<Rightarrow> orch_error option outcome" where
  "replayOrderingSubmission ctx wake r s =
     (case wait_record ctx wake (Some r) s of
        None \<Rightarrow> Unfinished
      | Some (_, err) \<Rightarrow>
          (if err \<noteq> None \<and> \<not> fst (submissionOutcome r s) then Returned err
           else case submissionOutcome r s of
             (_, Some e) \<Rightarrow> Returned (Some e)
           | (False, None) \<Rightarrow> Returned (Some (Plain ''transaction has not been acknowledged by ordering''))
           | (True, None) \<Rightarrow> Returned None))"

subsection \<open>Recovery\<close>

record recovery =
  ry_closed :: bool
  ry_running :: bool

text \<open>The flag is whether this call started a pass.\<close>

definition triggerReconciliation :: "recovery \<Rightarrow> bool \<times> recovery" where
  "triggerReconciliation y = (if ry_closed y \<or> ry_running y then (False, y) else (True, y\<lparr>ry_running := True\<rparr>))"

definition passDone :: "recovery \<Rightarrow> recovery" where
  "passDone y = y\<lparr>ry_running := False\<rparr>"

text \<open>\<open>stopReconciliation\<close> returns once the running pass is done.\<close>

definition stopReconciliation :: "recovery \<Rightarrow> unit outcome \<times> recovery" where
  "stopReconciliation y = (if ry_running y then (Unfinished, y\<lparr>ry_closed := True\<rparr>) else (Returned (), y\<lparr>ry_closed := True\<rparr>))"

text \<open>
  The records a pass takes: their transaction IDs, and the map from an ID to the record taken last for it.
\<close>

fun claimPending ::
  "nat list \<Rightarrow> string list \<Rightarrow> (string \<times> nat) list \<Rightarrow> idempotencyStore
    \<Rightarrow> (string list \<times> (string \<times> nat) list \<times> idempotencyStore) option" where
  "claimPending [] txIDs claims s = Some (txIDs, claims, s)"
| "claimPending (r # rs) txIDs claims s =
     (case tryLockFinality r s of
        (False, s1) \<Rightarrow> claimPending rs txIDs claims s1
      | (True, s1) \<Rightarrow>
          (case pending (Some r) s1 of
             None \<Rightarrow> (case unlockFinality r s1 of None \<Rightarrow> None | Some s2 \<Rightarrow> claimPending rs txIDs claims s2)
           | Some p \<Rightarrow>
               (let txID = rv_TxID (si_Response p)
                in claimPending rs (txIDs @ [txID]) (AList.update txID r claims) s1)))"

text \<open>The statuses of one answer; an error of a callback is only logged.\<close>

fun applyStatuses ::
  "'w callback \<Rightarrow> (string \<times> nat) list \<Rightarrow> TxStatus list \<Rightarrow> int \<Rightarrow> idempotencyStore \<Rightarrow> 'w
    \<Rightarrow> unit outcome \<times> idempotencyStore \<times> 'w" where
  "applyStatuses ac claims [] now s w = (Returned (), s, w)"
| "applyStatuses ac claims (st # sts) now s w =
     (case map_of claims (ref_TxId (ts_Ref st)) of
        None \<Rightarrow> applyStatuses ac claims sts now s w
      | Some r \<Rightarrow>
          (if \<not> isFinalStatus (ref_TxId (ts_Ref st)) (Some st) then applyStatuses ac claims sts now s w
           else case recordFinality ac r (Some st) now s w of
             (Returned _, s', w') \<Rightarrow> applyStatuses ac claims sts now s' w'
           | (Unfinished, s', w') \<Rightarrow> (Unfinished, s', w')
           | (Panic, s', w') \<Rightarrow> (Panic, s', w')))"

fun unlockAll :: "nat list \<Rightarrow> idempotencyStore \<Rightarrow> idempotencyStore option" where
  "unlockAll [] s = Some s"
| "unlockAll (r # rs) s = (case unlockFinality r s of None \<Rightarrow> None | Some s' \<Rightarrow> unlockAll rs s')"

definition released ::
  "(string \<times> nat) list \<Rightarrow> unit outcome \<times> idempotencyStore \<times> 'w \<Rightarrow> unit outcome \<times> idempotencyStore \<times> 'w" where
  "released claims x = (case x of
       (Returned _, s, w) \<Rightarrow> (case unlockAll (map snd claims) s of None \<Rightarrow> (Unfinished, s, w) | Some s' \<Rightarrow> (Returned (), s', w))
     | other \<Rightarrow> other)"

text \<open>\<open>order\<close> lists the live records in the order Go takes them.\<close>

definition reconcilePendingBefore ::
  "'w callback \<Rightarrow> status_query option \<Rightarrow> ctx \<Rightarrow> nat list \<Rightarrow> int \<Rightarrow> int \<Rightarrow> idempotencyStore \<Rightarrow> 'w
    \<Rightarrow> unit outcome \<times> idempotencyStore \<times> 'w" where
  "reconcilePendingBefore ac query ctx order cutoff now s w =
     (case query of
        None \<Rightarrow> (Returned (), s, w)
      | Some q \<Rightarrow>
          (if ctx \<noteq> None then (Returned (), s, w)
           else case claimPending (pendingRecordsBefore order recoveryBatchSize (Some cutoff) s) [] [] s of
             None \<Rightarrow> (Unfinished, s, w)
           | Some (txIDs, claims, s1) \<Rightarrow>
               (if txIDs = [] then (Returned (), s1, w)
                else case q txIDs of
                  Inl _ \<Rightarrow> released claims (Returned (), s1, w)
                | Inr statuses \<Rightarrow> released claims (applyStatuses ac claims statuses now s1 w))))"

text \<open>A status request updates the records of its transaction.\<close>

fun refreshRecords ::
  "'w callback \<Rightarrow> TxStatus \<Rightarrow> nat list \<Rightarrow> int \<Rightarrow> idempotencyStore \<Rightarrow> 'w \<Rightarrow> unit outcome \<times> idempotencyStore \<times> 'w" where
  "refreshRecords ac st [] now s w = (Returned (), s, w)"
| "refreshRecords ac st (r # rs) now s w =
     (case pending (Some r) s of
        None \<Rightarrow> refreshRecords ac st rs now s w
      | Some p \<Rightarrow>
          (if rv_TxID (si_Response p) \<noteq> ref_TxId (ts_Ref st) then refreshRecords ac st rs now s w
           else case tryLockFinality r s of
             (False, s1) \<Rightarrow> refreshRecords ac st rs now s1 w
           | (True, s1) \<Rightarrow>
               (case recordFinality ac r (Some st) now s1 w of
                  (Returned _, s2, w') \<Rightarrow>
                    (case unlockFinality r s2 of
                       None \<Rightarrow> (Unfinished, s2, w')
                     | Some s3 \<Rightarrow> refreshRecords ac st rs now s3 w')
                | (Unfinished, s2, w') \<Rightarrow> (Unfinished, s2, w')
                | (Panic, s2, w') \<Rightarrow> (Panic, s2, w'))))"

definition refreshObservedFinality ::
  "'w callback \<Rightarrow> TxStatus \<Rightarrow> nat list \<Rightarrow> int \<Rightarrow> idempotencyStore \<Rightarrow> 'w \<Rightarrow> unit outcome \<times> idempotencyStore \<times> 'w" where
  "refreshObservedFinality ac st order now s w = refreshRecords ac st (pendingRecords order 0 s) now s w"

end
