(* ===== verification/Gateway_Service.thy ===== *)
theory Gateway_Service
  imports Submission Transaction_Packager Event_Stream
begin

section \<open>The calls clients make\<close>

text \<open>
  The handlers of \<open>orchestrator/service.go\<close>: custom ProcessProposal with Execute behind it, and the Gateway
  calls Evaluate, Endorse, Submit and CommitStatus.  A handler is described as it runs when no other call
  runs in between; its steps on shared records are those of \<open>Submission\<close>.  A Go panic ends the process,
  so the deferred calls that would still run are left out after \<open>Panic\<close>.
\<close>

subsection \<open>The service, its state and the surroundings of a call\<close>

record ('id, 'v) frontend =
  fe_service :: "('id, 'v) Service"
  fe_auth :: "'id proposalVerifier option"
  fe_parse :: proposal_parser
  fe_gateway :: gateway_lib
  fe_packager :: packager_lib
  fe_sha256 :: "bytes \<Rightarrow> bytes"

record ('v, 'r) service_state =
  sv_flow :: "'v flow_state"
  sv_idem :: idempotencyStore
  sv_lifecycle :: "'r lifecycle_state"
  sv_recovery :: recovery
  sv_sent :: "bytes list"

text \<open>
  \<open>rq_ctx\<close> is the request context when it is checked for the n-th time.
\<close>

record ('id, 'r) request =
  rq_call :: call
  rq_ctx :: "nat \<Rightarrow> ctx"
  rq_time :: int
  rq_submit :: submit_env
  rq_side :: "('id, 'r) lifecycle_side"
  rq_wake :: wake
  rq_wait :: ctx

text \<open>The world of the callback after a commit, taken out of the state and put back.\<close>

definition lifecycle_world :: "('v, 'r) service_state \<Rightarrow> 'r lifecycle_world" where
  "lifecycle_world st = (fs_store (sv_flow st), sv_lifecycle st)"

definition put_world :: "'r lifecycle_world \<Rightarrow> ('v, 'r) service_state \<Rightarrow> ('v, 'r) service_state" where
  "put_world w st = st\<lparr>sv_flow := (sv_flow st)\<lparr>fs_store := fst w\<rparr>, sv_lifecycle := snd w\<rparr>"

definition trigger :: "('v, 'r) service_state \<Rightarrow> ('v, 'r) service_state" where
  "trigger st = st\<lparr>sv_recovery := snd (triggerReconciliation (sv_recovery st))\<rparr>"

abbreviation after_commit :: "('id, 'v) frontend \<Rightarrow> ('id, 'r) request \<Rightarrow> ('r lifecycle_world) callback" where
  "after_commit fe rq \<equiv> markInitializedAfterCommit (so_cfg (fe_service fe)) (rq_side rq)"

subsection \<open>Execute\<close>

text \<open>The deferred call that completes a record with the results of the request.\<close>

definition completed ::
  "nat \<Rightarrow> int \<Rightarrow> ('a \<times> InvocationResponse \<times> orch_error option) outcome \<Rightarrow> ('v, 'r) service_state
    \<Rightarrow> 'a outcome \<times> ('v, 'r) service_state" where
  "completed r now x st =
     (case x of
        Unfinished \<Rightarrow> (Unfinished, st)
      | Panic \<Rightarrow> (Panic, st)
      | Returned (y, out, err) \<Rightarrow>
          (case complete (Some r) out err now (sv_idem st) of
             None \<Rightarrow> (Panic, st)
           | Some s \<Rightarrow> (Returned y, st\<lparr>sv_idem := s\<rparr>)))"

text \<open>The request that owns its record: endorse, then submit and wait.\<close>

definition invokeSubmission ::
  "('id, 'v) frontend \<Rightarrow> ('id, 'r) request \<Rightarrow> InvocationRequest \<Rightarrow> nat \<Rightarrow> endorsedInvocation \<Rightarrow> InvocationResponse
    \<Rightarrow> ('v, 'r) service_state \<Rightarrow> (InvocationResponse \<times> orch_error option) outcome \<times> ('v, 'r) service_state" where
  "invokeSubmission fe rq req r result out st =
     (let so = fe_service fe;
          cb = (if ir_IsInit req then ei_InitDefinition result else None);
          (sent, res, s, w) = submitAndWaitFinality (so_proto so) (so_cfg so) (rq_submit rq) (after_commit fe rq)
            (ei_Endorsement result) out (hr_TxID (ei_Local result)) (Some r) cb (sv_idem st) (lifecycle_world st)
      in (res, put_world w (st\<lparr>sv_idem := s, sv_sent := sv_sent st @ sent\<rparr>)))"

definition executeOwned ::
  "('id, 'v) frontend \<Rightarrow> ('id, 'r) request \<Rightarrow> InvocationRequest \<Rightarrow> nat \<Rightarrow> ('v, 'r) service_state
    \<Rightarrow> (InvocationResponse \<times> orch_error option) outcome \<times> ('v, 'r) service_state" where
  "executeOwned fe rq req r st =
     (let so = fe_service fe; env = rq_submit rq in
      case endorseInvocation so (rq_call rq) req (sv_flow st) of
        (Unfinished, fl) \<Rightarrow> (Unfinished, st\<lparr>sv_flow := fl\<rparr>)
      | (Panic, fl) \<Rightarrow> (Panic, st\<lparr>sv_flow := fl\<rparr>)
      | (Returned (result, err), fl) \<Rightarrow>
          (let st1 = st\<lparr>sv_flow := fl\<rparr>; local = ei_Local result;
               (out, st2) = (case hr_Response local of
                  None \<Rightarrow> (emptyResponse, st1)
                | Some resp \<Rightarrow>
                    ((responseFromPeer (hr_TxID local) resp)\<lparr>rv_IdempotencyKey := ir_IdempotencyKey req,
                       rv_LifecycleBindings := lifecycleBindings local (ei_Remote result)\<rparr>,
                     st1\<lparr>sv_idem := markExecuted (Some r) (hr_TxID local) (su_clock env 1) (sv_idem st1)\<rparr>))
           in if err \<noteq> None then (Returned (out, err), st2)
              else if \<not> successStatus (rv_Status out) then (Returned (out, None), st2)
              else invokeSubmission fe rq req r result out st2))"

definition executeSubmit ::
  "('id, 'v) frontend \<Rightarrow> ('id, 'r) request \<Rightarrow> InvocationRequest \<Rightarrow> ('v, 'r) service_state
    \<Rightarrow> (InvocationResponse \<times> orch_error option) outcome \<times> ('v, 'r) service_state" where
  "executeSubmit fe rq req0 st0 =
     (let cfg = so_cfg (fe_service fe) in
      case prepareInvocation cfg req0 of
        Inl e \<Rightarrow> (Returned (emptyResponse, Some e), st0)
      | Inr (namespace, _) \<Rightarrow>
          (let st = trigger st0;
               (key, digest) = idempotencyIdentity (fe_sha256 fe) (cf_ChannelID cfg) namespace req0 True;
               req = req0\<lparr>ir_IdempotencyKey := key, ir_RequestDigest := digest\<rparr>
           in case begin_record key digest (su_clock (rq_submit rq) 0) (sv_idem st) of
                (Inl e, s) \<Rightarrow> (Returned (emptyResponse, Some e), st\<lparr>sv_idem := s\<rparr>)
              | (Inr (r, False), s) \<Rightarrow>
                  (case replaySubmission (rq_ctx rq 0) (rq_wake rq) (rq_wait rq) r s of
                     (Returned (out, err), s1) \<Rightarrow> (Returned (out\<lparr>rv_IdempotentReplay := True\<rparr>, err), st\<lparr>sv_idem := s1\<rparr>)
                   | (Unfinished, s1) \<Rightarrow> (Unfinished, st\<lparr>sv_idem := s1\<rparr>)
                   | (Panic, s1) \<Rightarrow> (Panic, st\<lparr>sv_idem := s1\<rparr>))
              | (Inr (r, True), s) \<Rightarrow>
                  (case executeOwned fe rq req r (st\<lparr>sv_idem := s\<rparr>) of
                     (Returned (out, err), st1) \<Rightarrow>
                       completed r (su_clock (rq_submit rq) 4) (Returned ((out, err), out, err)) st1
                   | other \<Rightarrow> other)))"

definition Execute ::
  "('id, 'v) frontend \<Rightarrow> ('id, 'r) request \<Rightarrow> InvocationRequest \<Rightarrow> bool \<Rightarrow> ('v, 'r) service_state
    \<Rightarrow> (InvocationResponse \<times> orch_error option) outcome \<times> ('v, 'r) service_state" where
  "Execute fe rq req submit st =
     (if submit then executeSubmit fe rq req st
      else case evaluate (fe_service fe) (rq_call rq) req (sv_flow st) of
        (Unfinished, fl) \<Rightarrow> (Unfinished, st\<lparr>sv_flow := fl\<rparr>)
      | (Panic, fl) \<Rightarrow> (Panic, st\<lparr>sv_flow := fl\<rparr>)
      | (Returned (Inl e), fl) \<Rightarrow> (Returned (emptyResponse, Some e), st\<lparr>sv_flow := fl\<rparr>)
      | (Returned (Inr result), fl) \<Rightarrow>
          (case hr_Response result of
             None \<Rightarrow> (Panic, st\<lparr>sv_flow := fl\<rparr>)
           | Some resp \<Rightarrow>
               (Returned ((responseFromPeer (hr_TxID result) resp)\<lparr>rv_LifecycleBindings := lifecycleBindings result []\<rparr>, None),
                st\<lparr>sv_flow := fl\<rparr>)))"

subsection \<open>ProcessProposal\<close>

text \<open>The values of the three metadata keys a proposal may carry.\<close>

record proposal_metadata =
  md_operation :: "string list"
  md_namespace :: "string list"
  md_init :: "string list"

definition admitProposal ::
  "('id, 'v) frontend \<Rightarrow> int \<Rightarrow> proposal_metadata \<Rightarrow> SignedProposal option \<Rightarrow> orch_error + operation \<times> InvocationRequest" where
  "admitProposal fe now md sprop =
     (let so = fe_service fe; plib = so_proto so; cfg = so_cfg so in
      rbind (authenticateClientProposal (so_msp so) plib (fe_parse fe) cfg (fe_auth fe) sprop now) (\<lambda>(iv, identity).
      rbind (Invalid (operationFromContext (md_operation md))) (\<lambda>oper.
      rbind (Invalid (requestFromProposal plib iv)) (\<lambda>req0.
      rbind (if oper = OpEndorse \<and> CHR '':'' \<in> set (ir_ChaincodeName req0)
             then rbind (Invalid (gatewayChaincodeRoute (ir_ChaincodeName req0))) (\<lambda>(chaincode, namespace).
                  Inr (req0\<lparr>ir_ChaincodeName := chaincode, ir_Namespace := namespace\<rparr>))
             else Inr req0) (\<lambda>req1.
      rbind (case namespaceFromContext (md_namespace md) of
               None \<Rightarrow> Inr req1
             | Some namespace \<Rightarrow>
                 (if ir_Namespace req1 \<noteq> [] \<and> ir_Namespace req1 \<noteq> namespace
                  then Inl (StatusError CodeInvalidArgument ''forwarded namespace conflicts with the signed Gateway route'')
                  else Inr (req1\<lparr>ir_Namespace := namespace\<rparr>))) (\<lambda>req2.
      rbind (Invalid (validateInitMetadata (md_init md) (ir_IsInit req2))) (\<lambda>_.
      if ir_IsInit req2 \<and> oper = OpQuery
      then Inl (StatusError CodeInvalidArgument ''is-init is only valid for invoke'')
      else rbind (authorizeClientInvocation cfg (fe_auth fe) (iv, identity) sprop req2) (\<lambda>req.
           Inr (oper, req)))))))))"

definition proposalError :: "orch_error \<Rightarrow> orch_error" where
  "proposalError e =
     (if errors_is e (CtxError DeadlineExceeded)
      then StatusError CodeDeadlineExceeded ''orchestrator request deadline exceeded''
      else if errors_is e (CtxError Canceled) then StatusError CodeCanceled ''orchestrator request canceled''
      else StatusError CodeInternal ''execution'')"

text \<open>
  An endorsement comes with the values of the evidence header, an execution with the response whose JSON
  is the payload of the answer.
\<close>

datatype proposal_answer = Endorsed ProposalResponse "string list" | Executed_answer InvocationResponse

definition Orchestrator_ProcessProposal ::
  "('id, 'v) frontend \<Rightarrow> ('id, 'r) request \<Rightarrow> proposal_metadata \<Rightarrow> SignedProposal option \<Rightarrow> ('v, 'r) service_state
    \<Rightarrow> (orch_error + proposal_answer) outcome \<times> ('v, 'r) service_state" where
  "Orchestrator_ProcessProposal fe rq md sprop st =
     (case admitProposal fe (rq_time rq) md sprop of
        Inl e \<Rightarrow> (Returned (Inl e), st)
      | Inr (oper, req) \<Rightarrow>
          (if oper = OpEndorse
           then (case EndorseOnly (fe_service fe) (rq_call rq) req (sv_flow st) of
                   (Unfinished, fl) \<Rightarrow> (Unfinished, st\<lparr>sv_flow := fl\<rparr>)
                 | (Panic, fl) \<Rightarrow> (Panic, st\<lparr>sv_flow := fl\<rparr>)
                 | (Returned (Inl e), fl) \<Rightarrow> (Returned (Inl (proposalError e)), st\<lparr>sv_flow := fl\<rparr>)
                 | (Returned (Inr result), fl) \<Rightarrow>
                     (case en_Responses (hr_Endorsement result) of
                        Some r # _ \<Rightarrow>
                          (Returned (Inr (Endorsed r (setLifecycleBindingMetadata (hr_Binding result)))), st\<lparr>sv_flow := fl\<rparr>)
                      | _ \<Rightarrow> (Returned (Inl (StatusError CodeInternal ''helper returned no proposal response'')),
                               st\<lparr>sv_flow := fl\<rparr>)))
           else (case Execute fe rq req (oper = OpInvoke) st of
                   (Unfinished, st1) \<Rightarrow> (Unfinished, st1)
                 | (Panic, st1) \<Rightarrow> (Panic, st1)
                 | (Returned (out, Some e), st1) \<Rightarrow> (Returned (Inl (proposalError e)), st1)
                 | (Returned (out, None), st1) \<Rightarrow> (Returned (Inr (Executed_answer out)), st1))))"

subsection \<open>The recovery pass\<close>

text \<open>
  The body of the goroutine \<open>triggerReconciliation\<close> starts: \<open>order\<close> and \<open>lorder\<close> are the orders in which Go
  takes the records and the pending lifecycle operations.  A service always has a lifecycle store.
\<close>

definition recoveryPass ::
  "('id, 'v) frontend \<Rightarrow> ('id, 'r) request \<Rightarrow> status_query option \<Rightarrow> nat list \<Rightarrow> int \<Rightarrow> (lifecycle_net \<times> env) list \<Rightarrow> nat list
    \<Rightarrow> ('v, 'r) service_state \<Rightarrow> unit outcome \<times> ('v, 'r) service_state" where
  "recoveryPass fe rq query order cutoff nets lorder st =
     (let cfg = so_cfg (fe_service fe) in
      case reconcilePendingBefore (after_commit fe rq) query (rq_ctx rq 0) order cutoff (rq_time rq) (sv_idem st)
             (lifecycle_world st) of
        (Returned _, s, (store, w)) \<Rightarrow>
          (let (store', w') = (case store of
                 None \<Rightarrow> (None, w)
               | Some st' \<Rightarrow>
                   (let (st'', w'') = reconcileLifecyclePending (sd_server (rq_side rq)) cfg nets lorder st' w in (Some st'', w'')))
           in (Returned (), (put_world (store', w') st)\<lparr>sv_idem := s, sv_recovery := passDone (sv_recovery st)\<rparr>))
      | (Unfinished, s, w) \<Rightarrow> (Unfinished, (put_world w st)\<lparr>sv_idem := s\<rparr>)
      | (Panic, s, w) \<Rightarrow> (Panic, (put_world w st)\<lparr>sv_idem := s\<rparr>))"

subsection \<open>Evaluate\<close>

record EvaluateRequest =
  eq_TransactionId :: string
  eq_ChannelId :: string
  eq_Proposed :: "SignedProposal option"
  eq_Targets :: "string list"

text \<open>
  \<open>ev_Evaluate\<close> is the Gateway call to the orchestrator at an address for one target: \<open>None\<close> when the contact
  has no connection, otherwise an error or an answer, which may be nil, with its result.
\<close>

type_synonym remote_evaluate = "string \<Rightarrow> string \<Rightarrow> (orch_error + PeerResponse option option) option"

text \<open>Errors after which another orchestrator may be tried.\<close>

definition retriable :: "orch_error \<Rightarrow> bool" where
  "retriable e \<longleftrightarrow> errors_status e \<in> {Some CodeUnavailable, Some CodeDeadlineExceeded, Some CodeAborted, Some CodeUnimplemented}"

text \<open>\<open>None\<close> when every contact failed so that the next one may be tried; \<open>calls\<close> counts the context checks.\<close>

fun evaluateContacts ::
  "remote_evaluate \<Rightarrow> (nat \<Rightarrow> ctx) \<Rightarrow> string \<Rightarrow> remote_contact option list \<Rightarrow> nat \<Rightarrow> (orch_error + PeerResponse) option \<times> nat" where
  "evaluateContacts call ctx target [] n = (None, n)"
| "evaluateContacts call ctx target (c # cs) n =
     (case c of
        None \<Rightarrow> evaluateContacts call ctx target cs n
      | Some contact \<Rightarrow>
      (case call (rc_Address contact) target of
         None \<Rightarrow> evaluateContacts call ctx target cs n
       | Some answer \<Rightarrow>
       (case ctx n of
          Some e \<Rightarrow> (Some (Inl (FromContextError e)), Suc n)
        | None \<Rightarrow>
        (case answer of
           Inr None \<Rightarrow> (Some (Inl (StatusError CodeInternal ''remote evaluation returned no result'')), Suc n)
         | Inr (Some result) \<Rightarrow> (Some (gatewayResponseError result), Suc n)
         | Inl e \<Rightarrow>
             (case ctx (Suc n) of
                Some c \<Rightarrow> (Some (Inl (FromContextError c)), Suc (Suc n))
              | None \<Rightarrow> if retriable e then evaluateContacts call ctx target cs (Suc (Suc n)) else (Some (Inl e), Suc (Suc n)))))))"

fun evaluateTargets ::
  "remote_resolver \<Rightarrow> remote_evaluate \<Rightarrow> (nat \<Rightarrow> ctx) \<Rightarrow> (string \<Rightarrow> resolve_request) \<Rightarrow> string list \<Rightarrow> string list \<Rightarrow> nat
    \<Rightarrow> (orch_error + PeerResponse) option \<times> nat" where
  "evaluateTargets rs call ctx request visited [] n = (None, n)"
| "evaluateTargets rs call ctx request visited (target # targets) n =
     (if target \<in> set visited then evaluateTargets rs call ctx request visited targets n
      else case rm_Resolve rs n (request target) of
        Inl e \<Rightarrow> evaluateTargets rs call ctx request (target # visited) targets n
      | Inr contacts \<Rightarrow>
          (case evaluateContacts call ctx target contacts n of
             (Some answer, n') \<Rightarrow> (Some answer, n')
           | (None, n') \<Rightarrow> evaluateTargets rs call ctx request (target # visited) targets n'))"

text \<open>The details of the errors collected on the way are left out of the final status.\<close>

definition evaluateRemote ::
  "('id, 'v) Service \<Rightarrow> remote_evaluate \<Rightarrow> (nat \<Rightarrow> ctx) \<Rightarrow> EvaluateRequest \<Rightarrow> InvocationRequest \<Rightarrow> orch_error + PeerResponse" where
  "evaluateRemote so call ctx request req =
     (case so_remotes so of
        None \<Rightarrow> Inl (StatusError CodeUnavailable ''no target Orchestrator is configured'')
      | Some rs \<Rightarrow>
          (let cfg = so_cfg so;
               resolve = (\<lambda>target. \<lparr>rr_RequesterMSPID = (case cf_MspID cfg of None \<Rightarrow> [] | Some m \<Rightarrow> m), rr_TargetMSPID = target,
                 rr_ChannelID = cf_ChannelID cfg, rr_Namespace = ir_Namespace req, rr_ChaincodeName = ir_ChaincodeName req,
                 rr_ChaincodeVersion = (case ir_definition req of None \<Rightarrow> [] | Some d \<Rightarrow> cd_Version (cm_Definition d)),
                 rr_Sequence = (case ir_definition req of None \<Rightarrow> 0 | Some d \<Rightarrow> cd_Sequence (cm_Definition d))\<rparr>)
           in case evaluateTargets rs call ctx resolve [] (eq_Targets request) 0 of
                (Some answer, n) \<Rightarrow> answer
              | (None, n) \<Rightarrow>
                  (case ctx n of
                     Some e \<Rightarrow> Inl (FromContextError e)
                   | None \<Rightarrow> Inl (StatusError CodeUnavailable ''no requested organization could evaluate the transaction''))))"

definition badTarget :: "string \<Rightarrow> bool" where
  "badTarget target \<longleftrightarrow> target = [] \<or> untrimmed target"

text \<open>What Evaluate checks before it runs or forwards anything: the request, and whether it must stay local.\<close>

definition admitEvaluate ::
  "('id, 'v) frontend \<Rightarrow> ('id, 'r) request \<Rightarrow> string list \<Rightarrow> EvaluateRequest option \<Rightarrow> Store option
    \<Rightarrow> orch_error + EvaluateRequest \<times> InvocationRequest" where
  "admitEvaluate fe rq restriction request store =
     (let so = fe_service fe in
      rbind (require (StatusError CodeInvalidArgument ''an evaluate request is required'') request) (\<lambda>r.
      rbind (map_error (\<lambda>e. case rq_ctx rq 0 of None \<Rightarrow> e | Some c \<Rightarrow> FromContextError c) (ctx_ok (rq_ctx rq 0))) (\<lambda>_.
      rbind (gatewayInvocation (so_msp so) (so_proto so) (fe_parse fe) (so_cfg so) (fe_auth fe) store (rq_ctx rq 1)
               (eq_ChannelId r) (eq_TransactionId r) (eq_Proposed r) (rq_time rq)) (\<lambda>req.
      if ir_IsInit req then Inl (StatusError CodeInvalidArgument ''initialization cannot be evaluated'')
      else
        rbind (map_error (\<lambda>_. StatusError CodeFailedPrecondition ''init'')
                 (validateInitState (rq_ctx rq 1) store req OpQuery)) (\<lambda>_.
        if list_ex (\<lambda>v. v \<noteq> ''true'') restriction
        then Inl (StatusError CodeInvalidArgument ''invalid evaluation routing restriction'')
        else Inr (r, req))))))"

definition Orchestrator_Evaluate ::
  "('id, 'v) frontend \<Rightarrow> ('id, 'r) request \<Rightarrow> remote_evaluate \<Rightarrow> string list \<Rightarrow> EvaluateRequest option \<Rightarrow> ('v, 'r) service_state
    \<Rightarrow> (orch_error + PeerResponse) outcome \<times> ('v, 'r) service_state" where
  "Orchestrator_Evaluate fe rq call restriction request st =
     (let so = fe_service fe; cfg = so_cfg so in
      case admitEvaluate fe rq restriction request (fs_store (sv_flow st)) of
        Inl e \<Rightarrow> (Returned (Inl e), st)
      | Inr (r, req) \<Rightarrow>
          (case cf_MspID cfg of
             None \<Rightarrow> (Panic, st)
           | Some localMSP \<Rightarrow>
               (if list_ex badTarget (eq_Targets r)
                then (Returned (Inl (StatusError CodeInvalidArgument ''target organization must be a nonempty MSP ID'')), st)
                else if eq_Targets r = [] \<or> containsMSP (eq_Targets r) localMSP
                then (case evaluate so (rq_call rq) req (sv_flow st) of
                        (Unfinished, fl) \<Rightarrow> (Unfinished, st\<lparr>sv_flow := fl\<rparr>)
                      | (Panic, fl) \<Rightarrow> (Panic, st\<lparr>sv_flow := fl\<rparr>)
                      | (Returned (Inl e), fl) \<Rightarrow> (Returned (Inl (invocationRPCError (rq_ctx rq 2) e)), st\<lparr>sv_flow := fl\<rparr>)
                      | (Returned (Inr result), fl) \<Rightarrow> (Returned (gatewayResponseError (hr_Response result)), st\<lparr>sv_flow := fl\<rparr>))
                else if restriction \<noteq> []
                then (Returned (Inl (StatusError CodeFailedPrecondition
                       ''forwarded evaluation reached an Orchestrator outside the target organization'')), st)
                else (Returned (evaluateRemote so call (\<lambda>n. rq_ctx rq (n + 2)) r req), st))))"

subsection \<open>Endorse\<close>

record EndorseRequest =
  ed_ChannelId :: string
  ed_TransactionId :: string
  ed_Proposed :: "SignedProposal option"
  ed_Organizations :: "string list"

text \<open>First occurrences, in order.\<close>

fun distinctNames :: "string list \<Rightarrow> string list \<Rightarrow> string list" where
  "distinctNames seen [] = []"
| "distinctNames seen (x # xs) = (if x \<in> set seen then distinctNames seen xs else x # distinctNames (x # seen) xs)"

definition admitEndorse ::
  "('id, 'v) frontend \<Rightarrow> ('id, 'r) request \<Rightarrow> EndorseRequest option \<Rightarrow> Store option
    \<Rightarrow> orch_error + EndorseRequest \<times> InvocationRequest" where
  "admitEndorse fe rq request store =
     (let so = fe_service fe in
      rbind (require (StatusError CodeInvalidArgument ''an endorse request is required'') request) (\<lambda>r.
      rbind (map_error (\<lambda>e. case rq_ctx rq 0 of None \<Rightarrow> e | Some c \<Rightarrow> FromContextError c) (ctx_ok (rq_ctx rq 0))) (\<lambda>_.
      rbind (gatewayInvocation (so_msp so) (so_proto so) (fe_parse fe) (so_cfg so) (fe_auth fe) store (rq_ctx rq 1)
               (ed_ChannelId r) (ed_TransactionId r) (ed_Proposed r) (rq_time rq)) (\<lambda>req.
      if list_ex badTarget (ed_Organizations r)
      then Inl (StatusError CodeInvalidArgument ''endorsing organization must be a nonempty MSP ID'')
      else Inr (r, req\<lparr>ir_EndorsingOrganizations :=
             ir_EndorsingOrganizations req @ distinctNames [] (ed_Organizations r)\<rparr>)))))"

text \<open>The answer, after the endorsements are there.\<close>

definition preparedAnswer ::
  "('id, 'v) frontend \<Rightarrow> ctx \<Rightarrow> EndorseRequest \<Rightarrow> endorsedInvocation \<Rightarrow> orch_error + bytes" where
  "preparedAnswer fe ctx r result =
     (let so = fe_service fe; plib = so_proto so in
      rbind (gatewayResponseError (hr_Response (ei_Local result))) (\<lambda>_.
      rbind (require (StatusError CodeInvalidArgument ''unmarshal proposal'')
        (case ed_Proposed r of None \<Rightarrow> None | Some p \<Rightarrow> pl_Proposal plib (sp_ProposalBytes p))) (\<lambda>proposal.
      rbind (map_error (\<lambda>_. StatusError CodeInternal ''prepare endorsed transaction'')
        (createGatewayTransaction plib (so_hl so) (fe_packager fe) (Some proposal) (ir_ChaincodeVersion (ei_Request result))
           (ei_Endorsement result))) (\<lambda>prepared.
      case ctx of Some e \<Rightarrow> Inl (FromContextError e) | None \<Rightarrow> Inr prepared))))"

definition Orchestrator_Endorse ::
  "('id, 'v) frontend \<Rightarrow> ('id, 'r) request \<Rightarrow> EndorseRequest option \<Rightarrow> ('v, 'r) service_state
    \<Rightarrow> (orch_error + bytes) outcome \<times> ('v, 'r) service_state" where
  "Orchestrator_Endorse fe rq request st =
     (let so = fe_service fe in
      case admitEndorse fe rq request (fs_store (sv_flow st)) of
        Inl e \<Rightarrow> (Returned (Inl e), st)
      | Inr (r, req) \<Rightarrow>
          (case endorseInvocation so (rq_call rq) req (sv_flow st) of
             (Unfinished, fl) \<Rightarrow> (Unfinished, st\<lparr>sv_flow := fl\<rparr>)
           | (Panic, fl) \<Rightarrow> (Panic, st\<lparr>sv_flow := fl\<rparr>)
           | (Returned (result, Some e), fl) \<Rightarrow>
               (Returned (Inl (case rq_ctx rq 2 of
                    Some c \<Rightarrow> FromContextError c
                  | None \<Rightarrow> if errors_status e \<noteq> None then e else StatusError CodeAborted ''endorse'')), st\<lparr>sv_flow := fl\<rparr>)
           | (Returned (result, None), fl) \<Rightarrow>
               (case cf_MspID (so_cfg so) of
                  None \<Rightarrow> (Panic, st\<lparr>sv_flow := fl\<rparr>)
                | Some _ \<Rightarrow> (Returned (preparedAnswer fe (rq_ctx rq 3) r result), st\<lparr>sv_flow := fl\<rparr>))))"

subsection \<open>Submit\<close>

text \<open>Every signature of the prepared transaction, each signer once.\<close>

fun submissionSigners ::
  "('id, 'v) Service \<Rightarrow> int \<Rightarrow> 'id namespaceEndorsementPolicy \<Rightarrow> string \<Rightarrow> Proposal option \<Rightarrow> string list
    \<Rightarrow> ProposalResponse option list \<Rightarrow> orch_error + unit" where
  "submissionSigners so now compiled txID proposal seen [] = Inr ()"
| "submissionSigners so now compiled txID proposal seen (r # rs) =
     rbind (require (Plain ''decode endorser'')
       (case r of None \<Rightarrow> None | Some x \<Rightarrow> (case ps_Endorsement x of None \<Rightarrow> None
          | Some e \<Rightarrow> map_option (Pair x) (pl_Identity (so_proto so) (pe_Endorser e))))) (\<lambda>(x, msp, cert).
     rbind (authenticateEndorsement (so_msp so) (so_proto so) (so_policy_lib so) compiled
        \<lparr>hr_Endorsement = \<lparr>en_Proposal = proposal, en_Responses = [Some x]\<rparr>, hr_TxID = txID, hr_Response = ps_Response x,
         hr_Binding = None\<rparr> msp False now) (\<lambda>verified.
     if ve_key verified \<in> set seen then Inl (Plain ''a signing identity cannot be counted more than once'')
     else submissionSigners so now compiled txID proposal (ve_key verified # seen) rs))"

definition validateSubmissionEndorsements ::
  "('id, 'v) Service \<Rightarrow> call \<Rightarrow> gatewayPreparedInvocation \<Rightarrow> 'v flow_state \<Rightarrow> (orch_error + unit) \<times> 'v flow_state" where
  "validateSubmissionEndorsements so ca prepared st =
     (case resolveNamespacePolicy so ca (ir_Namespace (gp_Request prepared)) st of
        (Inl e, st') \<Rightarrow> (Inl e, st')
      | (Inr policy, st') \<Rightarrow>
          (rbind (newNamespaceEndorsementPolicy (so_policy_lib so) policy (so_msps so)) (\<lambda>compiled.
           rbind (submissionSigners so (ca_time ca) compiled (ir_ClientTxID (gp_Request prepared))
                    (en_Proposal (gp_Endorsement prepared)) [] (en_Responses (gp_Endorsement prepared))) (\<lambda>_.
           verifySelection (so_proto so) compiled (gp_Endorsement prepared) (ir_ClientTxID (gp_Request prepared)))), st'))"

definition replayAnswer ::
  "('id, 'r) request \<Rightarrow> nat \<Rightarrow> idempotencyStore \<Rightarrow> (orch_error + unit) outcome" where
  "replayAnswer rq r s =
     (case replayOrderingSubmission (rq_ctx rq 3) (rq_wake rq) r s of
        Unfinished \<Rightarrow> Unfinished
      | Panic \<Rightarrow> Panic
      | Returned None \<Rightarrow> Returned (Inr ())
      | Returned (Some e) \<Rightarrow> Returned (Inl (submissionRPCError (rq_ctx rq 4) e)))"

definition admitSubmit ::
  "('id, 'v) frontend \<Rightarrow> ('id, 'r) request \<Rightarrow> SubmitRequest option \<Rightarrow> orch_error + bytes \<times> gatewayPreparedInvocation" where
  "admitSubmit fe rq request =
     (let so = fe_service fe; payload = (case request of None \<Rightarrow> None | Some r \<Rightarrow> map_option fst (sb_Prepared r)) in
      rbind (map_error (\<lambda>e. case rq_ctx rq 0 of None \<Rightarrow> e | Some c \<Rightarrow> FromContextError c) (ctx_ok (rq_ctx rq 0))) (\<lambda>_.
      rbind (authenticateGatewayTransaction (so_msp so) (so_proto so) (so_cfg so) (fe_auth fe) request (rq_time rq)) (\<lambda>identity.
      rbind (Invalid (parseGatewayTransaction (so_proto so) (so_hl so) (fe_packager fe) payload)) (\<lambda>prepared.
      rbind (map_error (\<lambda>_. StatusError CodePermissionDenied ''authorize'')
        (authorizeProposal (fe_auth fe) (Some identity) (ir_ChaincodeName (gp_Request prepared)) (ir_Namespace (gp_Request prepared)))) (\<lambda>_.
      Inr (case payload of None \<Rightarrow> [] | Some p \<Rightarrow> p, prepared))))))"

text \<open>The revision that was endorsed must still be active; the result is the definition to mark initialized.\<close>

definition submissionDefinition ::
  "ctx \<Rightarrow> Store option \<Rightarrow> gatewayPreparedInvocation \<Rightarrow> orch_error + ChaincodeDefinition option" where
  "submissionDefinition ctx store prepared =
     rbind (map_error (invocationRPCError ctx) (selectLifecycleDefinition ctx store (gp_Request prepared))) (\<lambda>req.
     rbind (require (StatusError CodeNotFound ''submitted chaincode has no committed definition'') (ir_definition req)) (\<lambda>committed.
     if cd_Version (cm_Definition committed) \<noteq> gb_ChaincodeVersion (gp_Binding prepared) \<or>
        cd_Sequence (cm_Definition committed) \<noteq> gb_Sequence (gp_Binding prepared)
     then Inl (StatusError CodeFailedPrecondition ''endorsed lifecycle revision is no longer active; obtain a fresh endorsement'')
     else map_error (\<lambda>_. StatusError CodeFailedPrecondition ''init'') (validateInitState ctx store req OpEndorse)))"

text \<open>The request that owns its record.\<close>

definition submitOwned ::
  "('id, 'v) frontend \<Rightarrow> ('id, 'r) request \<Rightarrow> gatewayPreparedInvocation \<Rightarrow> ChaincodeDefinition option \<Rightarrow> nat \<Rightarrow> ('v, 'r) service_state
    \<Rightarrow> (orch_error + unit) outcome \<times> ('v, 'r) service_state" where
  "submitOwned fe rq prepared initDefinition r st =
     (let so = fe_service fe; env = rq_submit rq; txID = ir_ClientTxID (gp_Request prepared) in
      case firstResponse (gp_Endorsement prepared) of
        None \<Rightarrow> (Panic, st)
      | Some response \<Rightarrow>
          (let out = (responseFromPeer txID response)\<lparr>rv_IdempotencyKey := txID\<rparr>;
               s1 = markExecuted (Some r) txID (su_clock env 1) (sv_idem st)
           in case submitTransaction (so_proto so) (su_submitter env) (su_ordering env) (su_ctx env) (gp_Endorsement prepared)
                     out (Some r) initDefinition (su_clock env 2) s1 of
                (_, sent, None) \<Rightarrow> (Panic, st\<lparr>sv_idem := s1, sv_sent := sv_sent st @ sent\<rparr>)
              | ((out1, err), sent, Some s2) \<Rightarrow>
                  completed r (su_clock env 4)
                    (Returned (case err of None \<Rightarrow> Inr () | Some e \<Rightarrow> Inl (submissionRPCError (rq_ctx rq 4) e), out1,
                       map_option (submissionRPCError (rq_ctx rq 4)) err))
                    (st\<lparr>sv_idem := s2, sv_sent := sv_sent st @ sent\<rparr>)))"

definition submitDigest :: "('id, 'v) frontend \<Rightarrow> bytes \<Rightarrow> string" where
  "submitDigest fe payload = ''gateway-submit:'' @ hex_encode (fe_sha256 fe payload)"

definition Orchestrator_Submit ::
  "('id, 'v) frontend \<Rightarrow> ('id, 'r) request \<Rightarrow> SubmitRequest option \<Rightarrow> ('v, 'r) service_state
    \<Rightarrow> (orch_error + unit) outcome \<times> ('v, 'r) service_state" where
  "Orchestrator_Submit fe rq request st0 =
     (let so = fe_service fe in
      case admitSubmit fe rq request of
        Inl e \<Rightarrow> (Returned (Inl e), st0)
      | Inr (payload, prepared) \<Rightarrow>
      (let key = ir_ClientTxID (gp_Request prepared);
           digest = submitDigest fe payload;
           st = trigger st0
       in case existing key digest (sv_idem st) of
            Inl e \<Rightarrow> (Returned (Inl (StatusError CodeAlreadyExists ''conflict'')), st)
          | Inr (Some r) \<Rightarrow> (replayAnswer rq r (sv_idem st), st)
          | Inr None \<Rightarrow>
          (case submissionDefinition (rq_ctx rq 1) (fs_store (sv_flow st)) prepared of
             Inl e \<Rightarrow> (Returned (Inl e), st)
           | Inr initDefinition \<Rightarrow>
           (case validateSubmissionEndorsements so (rq_call rq) prepared (sv_flow st) of
              (Inl e, fl) \<Rightarrow>
                (Returned (Inl (case rq_ctx rq 2 of
                     Some c \<Rightarrow> FromContextError c
                   | None \<Rightarrow> StatusError CodeFailedPrecondition ''invalid native endorsements'')), st\<lparr>sv_flow := fl\<rparr>)
            | (Inr _, fl) \<Rightarrow>
                (let st1 = st\<lparr>sv_flow := fl\<rparr> in
                 case begin_record key digest (su_clock (rq_submit rq) 0) (sv_idem st1) of
                   (Inl e, s) \<Rightarrow> (Returned (Inl (StatusError CodeAlreadyExists ''conflict'')), st1\<lparr>sv_idem := s\<rparr>)
                 | (Inr (r, False), s) \<Rightarrow> (replayAnswer rq r s, st1\<lparr>sv_idem := s\<rparr>)
                 | (Inr (r, True), s) \<Rightarrow> submitOwned fe rq prepared initDefinition r (st1\<lparr>sv_idem := s\<rparr>))))))"

subsection \<open>CommitStatus\<close>

text \<open>The rounds are those of the wait, \<open>order\<close> the order in which Go takes the pending records.\<close>

definition Orchestrator_CommitStatus ::
  "('id, 'v) frontend \<Rightarrow> ('id, 'r) request \<Rightarrow> status_query option \<Rightarrow> notifier option \<Rightarrow> status_round list \<Rightarrow> nat list
    \<Rightarrow> (bytes \<times> bytes) option \<Rightarrow> ('v, 'r) service_state
    \<Rightarrow> (orch_error + validation_code \<times> u64) outcome \<times> ('v, 'r) service_state" where
  "Orchestrator_CommitStatus fe rq query notify rounds order request st =
     (let so = fe_service fe in
      case rbind (map_error (\<lambda>e. case rq_ctx rq 0 of None \<Rightarrow> e | Some c \<Rightarrow> FromContextError c) (ctx_ok (rq_ctx rq 0))) (\<lambda>_.
           authenticateGatewayCommitStatus (so_msp so) (fe_gateway fe) (so_cfg so) (fe_auth fe) request (rq_time rq)) of
        Inl e \<Rightarrow> (Returned (Inl e), st)
      | Inr r \<Rightarrow>
      (case waitForTransactionStatus query notify (sr_TransactionId r) rounds of
         None \<Rightarrow> (Unfinished, st)
       | Some result \<Rightarrow>
       (case rq_ctx rq 1 of
          Some c \<Rightarrow> (Returned (Inl (FromContextError c)), st)
        | None \<Rightarrow>
        (case result of
           Inl e \<Rightarrow> (Returned (Inl (StatusError CodeUnavailable ''status'')), st)
         | Inr status \<Rightarrow>
             (case refreshObservedFinality (after_commit fe rq) status order (rq_time rq) (sv_idem st) (lifecycle_world st) of
                (Unfinished, s, w) \<Rightarrow> (Unfinished, (put_world w st)\<lparr>sv_idem := s\<rparr>)
              | (Panic, s, w) \<Rightarrow> (Panic, (put_world w st)\<lparr>sv_idem := s\<rparr>)
              | (Returned _, s, w) \<Rightarrow>
                  (Returned (Inr (gatewayValidationCode (ts_Status status), ref_BlockNum (ts_Ref status))),
                   (put_world w st)\<lparr>sv_idem := s\<rparr>))))))"

end
