(* ===== verification/Submission_Guarantees.thy ===== *)
theory Submission_Guarantees
  imports Submission
begin

section \<open>No invocation is sent again before its outcome is known\<close>

text \<open>
  The calls of the store by \<open>Execute\<close>, \<open>Submit\<close>, retries, status requests and recovery passes in any
  interleaving, with the ordering stage and the recording of a final status as single steps: between
  the two no other call changes the record, whose owner has it to itself.  A configuration remembers for
  every request key the record whose transaction may have reached ordering and has no final status
  since; the label of a step is what it hands to ordering, with the key.
\<close>

subsection \<open>Configurations and steps\<close>

record submission =
  sc_idem :: idem_config
  sc_tried :: "nat \<Rightarrow> bool"
  sc_open :: "string \<rightharpoonup> nat"

abbreviation sub_rec :: "submission \<Rightarrow> nat \<Rightarrow> idempotencyRecord" where
  "sub_rec c r \<equiv> rec_at (ic_store (sc_idem c)) r"

fun quiet :: "idem_op \<Rightarrow> bool" where
  "quiet (OpSubmission r resp en cb err now) = False"
| "quiet (OpConfirm r resp err now) = False"
| "quiet _ = True"

text \<open>The envelope was handed to ordering, and ordering did not refuse it.\<close>

definition may_be_delivered :: "fabricXSubmitter option \<Rightarrow> ordering \<Rightarrow> ctx \<Rightarrow> Endorsement \<Rightarrow> bool" where
  "may_be_delivered sub net ctx end \<longleftrightarrow> ctx = None \<and> od_Broadcast net = None \<and>
     (\<exists>s envelope. sub = Some s \<and> fx_packager s end = Inr envelope) \<and>
     \<not> (od_Send net = None \<and> (\<exists>st info. od_Recv net = Inr (st, info) \<and> st \<noteq> Status_SUCCESS))"

text \<open>A callback that returned \<open>err\<close>; what it did elsewhere does not reach the store.\<close>

definition ended :: "orch_error option \<Rightarrow> unit callback" where
  "ended err = (\<lambda>_ _. (Returned err, ()))"

definition settled :: "submission \<Rightarrow> nat \<Rightarrow> TxStatus option \<Rightarrow> bool" where
  "settled c r st \<longleftrightarrow> sc_open c (id_Key (sub_rec c r)) = Some r \<and>
     isFinalStatus (rv_TxID (id_Response (sub_rec c r))) st"

inductive submission_step ::
  "proto_lib \<Rightarrow> submission \<Rightarrow> (string \<times> bytes) list \<Rightarrow> submission \<Rightarrow> bool" for plib where
  call: "idem_allowed oper (sc_idem c) \<Longrightarrow> quiet oper \<Longrightarrow> idem_apply plib oper (sc_idem c) = Some i \<Longrightarrow>
    submission_step plib c [] (c\<lparr>sc_idem := i\<rparr>)"
| submit: "live_ref (sc_idem c) r \<Longrightarrow> ic_phase (sc_idem c) r = Ran \<Longrightarrow> \<not> sc_tried c r \<Longrightarrow>
    submitTransaction plib sub net ctx end out (Some r) cb now (ic_store (sc_idem c)) = (res, sent, Some s') \<Longrightarrow>
    submission_step plib c (map (Pair (id_Key (sub_rec c r))) sent)
      (c\<lparr>sc_idem := with_store (sc_idem c) s', sc_tried := (sc_tried c)(r := True),
         sc_open := (if may_be_delivered sub net ctx end then (sc_open c)(id_Key (sub_rec c r) \<mapsto> r) else sc_open c)\<rparr>)"
| finality: "live_ref (sc_idem c) r \<Longrightarrow>
    recordFinality (ended err) r st now (ic_store (sc_idem c)) () = (Returned e, s', u) \<Longrightarrow>
    submission_step plib c []
      (c\<lparr>sc_idem := with_store (sc_idem c) s',
         sc_open := (if settled c r st then (sc_open c)(id_Key (sub_rec c r) := None) else sc_open c)\<rparr>)"

definition submission_start :: submission where
  "submission_start = \<lparr>sc_idem = idem_start, sc_tried = (\<lambda>_. False), sc_open = (\<lambda>_. None)\<rparr>"

inductive submission_reachable :: "proto_lib \<Rightarrow> submission \<Rightarrow> bool" for plib where
  start: "submission_reachable plib submission_start"
| later: "submission_reachable plib c \<Longrightarrow> submission_step plib c sent c' \<Longrightarrow> submission_reachable plib c'"

subsection \<open>Invariant\<close>

definition sub_inv :: "submission \<Rightarrow> bool" where
  "sub_inv c \<longleftrightarrow> idem_inv (sc_idem c) \<and> (\<forall>r. sc_tried c r \<longrightarrow> live_ref (sc_idem c) r) \<and>
     (\<forall>r. live_ref (sc_idem c) r \<and> ic_phase (sc_idem c) r = Ran \<and> \<not> sc_tried c r \<longrightarrow> id_State (sub_rec c r) = Executed) \<and>
     (\<forall>k r. sc_open c k = Some r \<longrightarrow>
        live_ref (sc_idem c) r \<and> id_Key (sub_rec c r) = k \<and> id_State (sub_rec c r) = Submitted)"

text \<open>What a quiet call does to the records there were before it.\<close>

lemma quiet_effect:
  assumes "idem_inv c" and "idem_allowed oper c" and "quiet oper" and "idem_apply plib oper c = Some c'" and "live_ref c r"
  shows "live_ref c' r \<and> id_Key (rec_at (ic_store c') r) = id_Key (rec_at (ic_store c) r) \<and>
    (id_State (rec_at (ic_store c) r) = Submitted \<longrightarrow> id_State (rec_at (ic_store c') r) = Submitted) \<and>
    (ic_phase c' r = Ran \<longrightarrow> id_State (rec_at (ic_store c') r) = Executed \<or>
       (ic_phase c r = Ran \<and> id_State (rec_at (ic_store c') r) = id_State (rec_at (ic_store c) r)))"
proof -
  have ok: "record_ok (ic_phase c r) (rec_at (ic_store c) r)" by (rule inv_at[OF assms(1,5)])
  show ?thesis
  proof (cases oper)
    case (OpBegin key digest now)
    with assms show ?thesis
      by (auto simp: begin_record_def live_ref_def nth_append split: option.splits if_splits)
  next
    case (OpExecuted r' tx now)
    with assms ok show ?thesis
      by (cases "r' = r") (auto simp: markExecuted_def set_rec_def live_ref_def record_ok_def)
  next
    case (OpComplete r' resp err now)
    with assms ok show ?thesis
      by (auto simp: complete_def set_rec_def remove_record_def live_ref_def nth_list_update Let_def split: if_splits)
  next
    case (OpLock ctx r')
    with assms show ?thesis
      by (auto simp: lockFinality_def set_rec_def live_ref_def nth_list_update split: option.splits)
  next
    case (OpTryLock r')
    with assms show ?thesis
      by (auto simp: tryLockFinality_def set_rec_def live_ref_def nth_list_update)
  next
    case (OpUnlock r')
    with assms show ?thesis
      by (auto simp: unlockFinality_def set_rec_def live_ref_def nth_list_update split: if_splits)
  qed (use assms(3) in simp_all)
qed

lemma submit_effect:
  assumes "submitTransaction plib sub net ctx end out (Some r) cb now s = (res, sent, Some s')"
  shows "(s' = s \<and> \<not> may_be_delivered sub net ctx end) \<or>
    (\<exists>out' err. markSubmission plib (Some r) out' end cb err now s = Some s')"
  using assms
  by (auto simp: submitTransaction_def Submit_envelope_def markSubmitted_def may_be_delivered_def Let_def
      split: option.splits sum.splits prod.splits if_splits)

lemma finality_effect:
  assumes "recordFinality (ended err) r st now s () = (Returned e, s', u)"
  shows "(s' = s \<and> \<not> (id_State (rec_at s r) = Submitted \<and> isFinalStatus (rv_TxID (id_Response (rec_at s r))) st)) \<or>
    (id_State (rec_at s r) = Submitted \<and> isFinalStatus (rv_TxID (id_Response (rec_at s r))) st \<and>
     (\<exists>out e. confirmFinality (Some r) out e now s = Some s'))"
  using assms
  by (auto simp: recordFinality_def pending_def ended_def Let_def isFinalStatus_def
      split: option.splits if_splits outcome.splits prod.splits)

lemma markSubmission_rec:
  assumes "markSubmission plib (Some r) out end cb err now s = Some s'" and "id_State (rec_at s r) = Executed"
    and "r < length (is_heap s)"
  shows "length (is_heap s') = length (is_heap s) \<and> id_Key (rec_at s' r) = id_Key (rec_at s r) \<and>
    id_State (rec_at s' r) = Submitted \<and> (\<forall>j. j \<noteq> r \<longrightarrow> rec_at s' j = rec_at s j)"
  using assms by (auto simp: markSubmission_def finished_def Let_def split: if_splits)

lemma confirmFinality_rec:
  assumes "confirmFinality (Some r) out err now s = Some s'" and "r < length (is_heap s)"
  shows "length (is_heap s') = length (is_heap s) \<and> id_Key (rec_at s' r) = id_Key (rec_at s r) \<and>
    (\<forall>j. j \<noteq> r \<longrightarrow> rec_at s' j = rec_at s j)"
  using assms by (auto simp: confirmFinality_def Let_def split: if_splits)

lemma one_live_per_key:
  assumes "idem_inv c" and "live_ref c r" and "live_ref c r'" and "id_Key (rec_at (ic_store c) r) = id_Key (rec_at (ic_store c) r')"
    and "\<not> finished (rec_at (ic_store c) r)" and "\<not> finished (rec_at (ic_store c) r')"
  shows "r = r'"
proof -
  have "map_ok (ic_store c)" using assms(1) by (simp add: idem_inv_def)
  then have "is_records (ic_store c) (id_Key (rec_at (ic_store c) r)) = Some x"
    if "x = r \<or> x = r'" for x
    using assms that by (auto simp: map_ok_at live_ref_def)
  then show ?thesis by (metis option.inject)
qed

lemma sub_inv_open:
  "sub_inv c \<Longrightarrow> sc_open c k = Some r \<Longrightarrow> live_ref (sc_idem c) r \<and> id_Key (sub_rec c r) = k \<and> id_State (sub_rec c r) = Submitted"
  by (simp add: sub_inv_def)

lemma sub_invI:
  assumes "idem_inv (sc_idem c)" and "\<And>r. sc_tried c r \<Longrightarrow> live_ref (sc_idem c) r"
    and "\<And>r. live_ref (sc_idem c) r \<Longrightarrow> ic_phase (sc_idem c) r = Ran \<Longrightarrow> \<not> sc_tried c r \<Longrightarrow> id_State (sub_rec c r) = Executed"
    and "\<And>k r. sc_open c k = Some r \<Longrightarrow>
        live_ref (sc_idem c) r \<and> id_Key (sub_rec c r) = k \<and> id_State (sub_rec c r) = Submitted"
  shows "sub_inv c"
  using assms by (simp add: sub_inv_def)

lemma call_keeps:
  assumes inv: "sub_inv c" and "idem_allowed oper (sc_idem c)" and "quiet oper"
    and "idem_apply plib oper (sc_idem c) = Some i"
  shows "sub_inv (c\<lparr>sc_idem := i\<rparr>)"
proof -
  have I: "idem_inv (sc_idem c)" using inv by (simp add: sub_inv_def)
  have I': "idem_inv i" using idem_apply_inv[OF I assms(2), of plib] assms(4) by simp
  note eff = quiet_effect[OF I assms(2,3,4)]
  have fresh: "ic_phase i r = Running" if "\<not> live_ref (sc_idem c) r" "live_ref i r" for r
    using that assms(2,3,4)
    by (cases oper) (auto simp: begin_record_def live_ref_def markExecuted_def complete_def lockFinality_def tryLockFinality_def
        unlockFinality_def Let_def split: option.splits if_splits)
  have tried: "live_ref i r" if "sc_tried c r" for r using inv that eff by (simp add: sub_inv_def)
  have ran: "id_State (rec_at (ic_store i) r) = Executed" if "live_ref i r" "ic_phase i r = Ran" "\<not> sc_tried c r" for r
  proof (cases "live_ref (sc_idem c) r")
    case True
    with eff[OF True] inv that show ?thesis unfolding sub_inv_def by metis
  next
    case False
    with fresh that show ?thesis by force
  qed
  show ?thesis using I' tried ran eff inv unfolding sub_inv_def by simp
qed

lemma submit_keeps:
  assumes inv: "sub_inv c" and r: "live_ref (sc_idem c) r" "ic_phase (sc_idem c) r = Ran" "\<not> sc_tried c r"
    and sub: "submitTransaction plib sub net ctx end out (Some r) cb now (ic_store (sc_idem c)) = (res, sent, Some s')"
  shows "sub_inv (c\<lparr>sc_idem := with_store (sc_idem c) s', sc_tried := (sc_tried c)(r := True),
     sc_open := (if may_be_delivered sub net ctx end then (sc_open c)(id_Key (sub_rec c r) \<mapsto> r) else sc_open c)\<rparr>)"
proof -
  have I: "idem_inv (sc_idem c)" using inv by (simp add: sub_inv_def)
  have state: "id_State (sub_rec c r) = Executed" using inv r by (simp add: sub_inv_def)
  from submit_effect[OF sub] show ?thesis
  proof (elim disjE conjE exE)
    assume "s' = ic_store (sc_idem c)" and "\<not> may_be_delivered sub net ctx end"
    then show ?thesis using inv r by (simp add: sub_inv_def)
  next
    fix out' err
    assume m: "markSubmission plib (Some r) out' end cb err now (ic_store (sc_idem c)) = Some s'"
    have "idem_allowed (OpSubmission r out' end cb err now) (sc_idem c)" using r by simp
    from idem_apply_inv[OF I this, of plib] m have I': "idem_inv (with_store (sc_idem c) s')" by simp
    have l: "r < length (is_heap (ic_store (sc_idem c)))" using r by (simp add: live_ref_def)
    note e = markSubmission_rec[OF m state l]
    have o: "sc_open c k = Some j \<Longrightarrow> j \<noteq> r" for k j using sub_inv_open[OF inv] state by force
    show ?thesis using I' inv r e o unfolding sub_inv_def live_ref_def
      by (auto split: if_splits)
  qed
qed

lemma finality_keeps:
  assumes inv: "sub_inv c" and r: "live_ref (sc_idem c) r"
    and fin: "recordFinality (ended err) r st now (ic_store (sc_idem c)) () = (Returned e, s', u)"
  shows "sub_inv (c\<lparr>sc_idem := with_store (sc_idem c) s',
     sc_open := (if settled c r st then (sc_open c)(id_Key (sub_rec c r) := None) else sc_open c)\<rparr>)"
proof -
  have I: "idem_inv (sc_idem c)" using inv by (simp add: sub_inv_def)
  from finality_effect[OF fin] show ?thesis
  proof (elim disjE conjE exE)
    assume "s' = ic_store (sc_idem c)"
      and no: "\<not> (id_State (sub_rec c r) = Submitted \<and> isFinalStatus (rv_TxID (id_Response (sub_rec c r))) st)"
    moreover have "\<not> settled c r st" using no sub_inv_open[OF inv] by (auto simp: settled_def)
    ultimately show ?thesis using inv by simp
  next
    fix out e'
    assume state: "id_State (sub_rec c r) = Submitted" and final: "isFinalStatus (rv_TxID (id_Response (sub_rec c r))) st"
      and m: "confirmFinality (Some r) out e' now (ic_store (sc_idem c)) = Some s'"
    have "idem_allowed (OpConfirm r out e' now) (sc_idem c)" using r by simp
    from idem_apply_inv[OF I this, of plib] m have I': "idem_inv (with_store (sc_idem c) s')" by simp
    have l: "r < length (is_heap (ic_store (sc_idem c)))" using r by (simp add: live_ref_def)
    note ef = confirmFinality_rec[OF m l]
    have ran: "j \<noteq> r" if "live_ref (sc_idem c) j" "ic_phase (sc_idem c) j = Ran" "\<not> sc_tried c j" for j
    proof -
      have "id_State (sub_rec c j) = Executed" using inv that by (simp add: sub_inv_def)
      then show ?thesis using state by auto
    qed
    have other: "j \<noteq> r \<and> sc_open c k = Some j"
      if "(if settled c r st then (sc_open c)(id_Key (sub_rec c r) := None) else sc_open c) k = Some j" for k j
    proof -
      have o: "sc_open c k = Some j" and n: "settled c r st \<Longrightarrow> k \<noteq> id_Key (sub_rec c r)" using that by (auto split: if_splits)
      have "j \<noteq> r"
      proof
        assume "j = r"
        then have "sc_open c (id_Key (sub_rec c r)) = Some r" "k = id_Key (sub_rec c r)" using sub_inv_open[OF inv o] o by auto
        with final n show False by (simp add: settled_def)
      qed
      with o show ?thesis by simp
    qed
    have tried: "live_ref (sc_idem c) j" if "sc_tried c j" for j using inv that by (simp add: sub_inv_def)
    have exec: "id_State (sub_rec c j) = Executed"
      if "live_ref (sc_idem c) j" "ic_phase (sc_idem c) j = Ran" "\<not> sc_tried c j" for j
      using inv that by (simp add: sub_inv_def)
    have live: "live_ref (with_store (sc_idem c) s') j \<longleftrightarrow> live_ref (sc_idem c) j" for j
      using ef by (simp add: live_ref_def)
    have kept: "rec_at s' j = sub_rec c j" if "j \<noteq> r" for j using ef that by simp
    have exec': "id_State (rec_at s' j) = Executed"
      if "live_ref (sc_idem c) j" "ic_phase (sc_idem c) j = Ran" "\<not> sc_tried c j" for j
      using exec[OF that] kept[OF ran[OF that]] by simp
    have open': "live_ref (sc_idem c) j \<and> id_Key (rec_at s' j) = k \<and> id_State (rec_at s' j) = Submitted"
      if "(if settled c r st then (sc_open c)(id_Key (sub_rec c r) := None) else sc_open c) k = Some j" for k j
    proof -
      have "j \<noteq> r" "sc_open c k = Some j" using other[OF that] by auto
      then show ?thesis using kept sub_inv_open[OF inv] by simp
    qed
    let ?c = "c\<lparr>sc_idem := with_store (sc_idem c) s',
       sc_open := (if settled c r st then (sc_open c)(id_Key (sub_rec c r) := None) else sc_open c)\<rparr>"
    show ?thesis
    proof (rule sub_invI)
      show "live_ref (sc_idem ?c) j \<and> id_Key (sub_rec ?c j) = k \<and> id_State (sub_rec ?c j) = Submitted"
        if "sc_open ?c k = Some j" for k j
        using open'[of k j] that live by simp
    qed (use I' tried live exec' in simp_all)
  qed
qed

lemma submission_reachable_inv: "submission_reachable plib c \<Longrightarrow> sub_inv c"
proof (induction rule: submission_reachable.induct)
  case start
  have "idem_inv idem_start" by (rule reachable_inv[OF idem_reachable.start])
  then show ?case by (simp add: sub_inv_def submission_start_def idem_start_def newIdempotencyStore_def live_ref_def)
next
  case (later c sent c')
  from later.hyps(2) show ?case
  proof cases
    case (call oper i)
    show ?thesis unfolding call(2) by (rule call_keeps[OF later.IH call(3,4,5)])
  next
    case (submit r sub net ctx en out cb now res sent s')
    show ?thesis unfolding submit(2) by (rule submit_keeps[OF later.IH submit(3,4,5,6)])
  next
    case (finality r err st now e s' u)
    show ?thesis unfolding finality(2) by (rule finality_keeps[OF later.IH finality(3) finality(4)])
  qed
qed

text \<open>C10: a transaction that may have reached ordering is not sent again before a final status for it was
  recorded: in no interleaving of requests, retries, status requests and recovery passes does a step hand
  an envelope to ordering under a request key whose earlier transaction may have been delivered and has no
  final status, and a request with such a key joins the unfinished record instead of starting anew.\<close>

theorem no_invocation_resend:
  assumes "submission_reachable plib c" and "submission_step plib c sent c'"
  shows "((k, envelope) \<in> set sent \<longrightarrow> sc_open c k = None) \<and>
    (sc_open c k = Some r \<and> begin_record k digest now (ic_store (sc_idem c)) = (res, s') \<longrightarrow>
       s' = ic_store (sc_idem c) \<and> (\<forall>r' first. res = Inr (r', first) \<longrightarrow> r' = r \<and> \<not> first))"
proof (intro conjI impI)
  have inv: "sub_inv c" by (rule submission_reachable_inv[OF assms(1)])
  then have I: "idem_inv (sc_idem c)" by (simp add: sub_inv_def)
  then have m: "map_ok (ic_store (sc_idem c))" by (simp add: idem_inv_def)
  {
    assume "(k, envelope) \<in> set sent"
    with assms(2) obtain r' where r: "live_ref (sc_idem c) r'" "ic_phase (sc_idem c) r' = Ran" "\<not> sc_tried c r'"
      and k: "k = id_Key (sub_rec c r')"
      by cases auto
    have x: "id_State (sub_rec c r') = Executed" using inv r by (simp add: sub_inv_def)
    show "sc_open c k = None"
    proof (cases "sc_open c k")
      case (Some j)
      note o = sub_inv_open[OF inv Some]
      have "r' = j" using one_live_per_key[OF I r(1), of j] o k x by (simp add: finished_def)
      with o x show ?thesis by simp
    qed
  }
  assume a: "sc_open c k = Some r \<and> begin_record k digest now (ic_store (sc_idem c)) = (res, s')"
  then have "live_ref (sc_idem c) r \<and> id_Key (sub_rec c r) = k \<and> id_State (sub_rec c r) = Submitted"
    using sub_inv_open[OF inv] by blast
  then have "is_records (ic_store (sc_idem c)) k = Some r" using map_ok_at[OF m] by (simp add: live_ref_def finished_def)
  with a show "s' = ic_store (sc_idem c)" "\<forall>r' first. res = Inr (r', first) \<longrightarrow> r' = r \<and> \<not> first"
    by (auto simp: begin_record_def split: if_splits)
qed

subsection \<open>Runs\<close>

inductive submission_run ::
  "proto_lib \<Rightarrow> submission \<Rightarrow> (string \<times> bytes) list \<Rightarrow> submission \<Rightarrow> bool" for plib where
  still: "submission_run plib c [] c"
| further: "submission_run plib c log c' \<Longrightarrow> submission_step plib c' sent c'' \<Longrightarrow> submission_run plib c (log @ sent) c''"

lemma run_one: "submission_step plib c sent c' \<Longrightarrow> submission_run plib c sent c'"
  using submission_run.further[OF submission_run.still] by simp

lemma run_trans: "submission_run plib c' log' c'' \<Longrightarrow> submission_run plib c log c' \<Longrightarrow> submission_run plib c (log @ log') c''"
proof (induction rule: submission_run.induct)
  case still
  then show ?case by simp
next
  case (further c1 l c2 sent c3)
  then show ?case using submission_run.further[of plib c "log @ l" c2 sent c3] by simp
qed

lemma run_reachable: "submission_run plib c log c' \<Longrightarrow> submission_reachable plib c \<Longrightarrow> submission_reachable plib c'"
  by (induction rule: submission_run.induct) (auto intro: submission_reachable.later)

text \<open>A run that keeps the owner's view of a record.\<close>

definition keeps_owner :: "submission \<Rightarrow> nat \<Rightarrow> submission \<Rightarrow> bool" where
  "keeps_owner c r c' \<longleftrightarrow> (live_ref (sc_idem c) r \<longrightarrow> live_ref (sc_idem c') r \<and>
     id_Key (sub_rec c' r) = id_Key (sub_rec c r)) \<and> ic_phase (sc_idem c') r = ic_phase (sc_idem c) r \<and>
     sc_tried c' r = sc_tried c r"

lemma lock_run:
  assumes "lockFinality ctx r (ic_store (sc_idem c)) = (res, s')" and "live_ref (sc_idem c) r"
  shows "\<exists>c'. submission_run plib c [] c' \<and> ic_store (sc_idem c') = s' \<and> keeps_owner c j c'"
proof -
  let ?c = "c\<lparr>sc_idem := with_store (sc_idem c) s'\<rparr>"
  have "submission_step plib c [] ?c"
    using assms by (intro submission_step.call[of "OpLock ctx r"]) simp_all
  moreover have "keeps_owner c j ?c" using assms
    by (auto simp: keeps_owner_def live_ref_def lockFinality_def set_rec_def nth_list_update split: option.splits if_splits)
  ultimately show ?thesis using run_one by (intro exI[of _ ?c]) simp
qed

lemma trylock_run:
  assumes "tryLockFinality r (ic_store (sc_idem c)) = (res, s')" and "live_ref (sc_idem c) r"
  shows "\<exists>c'. submission_run plib c [] c' \<and> ic_store (sc_idem c') = s' \<and> keeps_owner c j c'"
proof -
  let ?c = "c\<lparr>sc_idem := with_store (sc_idem c) s'\<rparr>"
  have "submission_step plib c [] ?c"
    using assms by (intro submission_step.call[of "OpTryLock r"]) simp_all
  moreover have "keeps_owner c j ?c" using assms
    by (auto simp: keeps_owner_def live_ref_def tryLockFinality_def set_rec_def nth_list_update split: if_splits)
  ultimately show ?thesis using run_one by (intro exI[of _ ?c]) simp
qed

lemma unlock_run:
  assumes "unlockFinality r (ic_store (sc_idem c)) = Some s'" and "live_ref (sc_idem c) r"
  shows "\<exists>c'. submission_run plib c [] c' \<and> ic_store (sc_idem c') = s' \<and> keeps_owner c j c'"
proof -
  let ?c = "c\<lparr>sc_idem := with_store (sc_idem c) s'\<rparr>"
  have "submission_step plib c [] ?c"
    using assms by (intro submission_step.call[of "OpUnlock r"]) (auto simp: unlockFinality_def split: if_splits)
  moreover have "keeps_owner c j ?c" using assms
    by (auto simp: keeps_owner_def live_ref_def unlockFinality_def set_rec_def nth_list_update split: if_splits)
  ultimately show ?thesis using run_one by (intro exI[of _ ?c]) simp
qed

lemma ended_finality:
  "recordFinality ac r st now s w = (Returned e, s', w') \<Longrightarrow> \<exists>err. recordFinality (ended err) r st now s () = (Returned e, s', ())"
  by (cases "pending (Some r) s"; cases st)
    (auto simp: recordFinality_def ended_def Let_def split: option.splits if_splits outcome.splits prod.splits)

lemma finality_run:
  assumes "recordFinality ac r st now (ic_store (sc_idem c)) w = (Returned e, s', w')" and "live_ref (sc_idem c) r"
  shows "\<exists>c'. submission_run plib c [] c' \<and> ic_store (sc_idem c') = s' \<and> keeps_owner c j c'"
proof -
  obtain err where f: "recordFinality (ended err) r st now (ic_store (sc_idem c)) () = (Returned e, s', ())"
    using ended_finality[OF assms(1)] by blast
  let ?c = "c\<lparr>sc_idem := with_store (sc_idem c) s',
      sc_open := (if settled c r st then (sc_open c)(id_Key (sub_rec c r) := None) else sc_open c)\<rparr>"
  have "submission_step plib c [] ?c" by (rule submission_step.finality[OF assms(2) f])
  moreover have "keeps_owner c j ?c"
  proof -
    have l: "r < length (is_heap (ic_store (sc_idem c)))" using assms(2) by (simp add: live_ref_def)
    from finality_effect[OF f] show ?thesis
    proof (elim disjE conjE exE)
      fix out e'
      assume "confirmFinality (Some r) out e' now (ic_store (sc_idem c)) = Some s'"
      from confirmFinality_rec[OF this l] show ?thesis
        by (cases "j = r") (auto simp: keeps_owner_def live_ref_def)
    qed (simp add: keeps_owner_def)
  qed
  ultimately show ?thesis using run_one by (intro exI[of _ ?c]) simp
qed

end
