(* ===== verification/Service_Guarantees.thy ===== *)
theory Service_Guarantees
  imports Gateway_Service Submission_Guarantees Packager_Guarantees
begin

section \<open>The handlers keep the submission protocol\<close>

text \<open>
  Every call of Execute or Submit that returns, every recovery pass and every status request is a run of
  the protocol of \<open>Submission_Guarantees\<close>, so what holds for all interleavings of its steps holds for
  the handlers as they are written.
\<close>

subsection \<open>Runs that keep a record\<close>

definition keeps_record :: "submission \<Rightarrow> nat \<Rightarrow> submission \<Rightarrow> bool" where
  "keeps_record c r c' \<longleftrightarrow> (live_ref (sc_idem c) r \<longrightarrow> live_ref (sc_idem c') r \<and>
     id_Key (sub_rec c' r) = id_Key (sub_rec c r)) \<and> ic_phase (sc_idem c') r = ic_phase (sc_idem c) r"

lemma keeps_weak: "keeps_owner c r c' \<Longrightarrow> keeps_record c r c'"
  by (simp add: keeps_owner_def keeps_record_def)

lemma keeps_trans: "keeps_record c r c' \<Longrightarrow> keeps_record c' r c'' \<Longrightarrow> keeps_record c r c''"
  by (auto simp: keeps_record_def)

definition reaches :: "proto_lib \<Rightarrow> submission \<Rightarrow> string \<Rightarrow> bytes list \<Rightarrow> idempotencyStore \<Rightarrow> nat \<Rightarrow> bool" where
  "reaches plib c k sent s r \<longleftrightarrow>
     (\<exists>c'. submission_run plib c (map (Pair k) sent) c' \<and> ic_store (sc_idem c') = s \<and> keeps_record c r c')"

lemma reaches_here: "s = ic_store (sc_idem c) \<Longrightarrow> reaches plib c k [] s r"
  unfolding reaches_def by (intro exI[of _ c]) (simp add: keeps_record_def submission_run.still)

lemma reaches_then:
  assumes "submission_run plib c (map (Pair k) sent) c'" and "keeps_record c r c'" and "reaches plib c' k sent' s r"
  shows "reaches plib c k (sent @ sent') s r"
proof -
  obtain c'' where c: "submission_run plib c' (map (Pair k) sent') c''" "ic_store (sc_idem c'') = s" "keeps_record c' r c''"
    using assms(3) unfolding reaches_def by blast
  show ?thesis unfolding reaches_def map_append
    using run_trans[OF c(1) assms(1)] c(2) keeps_trans[OF assms(2) c(3)] by blast
qed

lemma reaches_quietly:
  assumes "submission_run plib c [] c'" and "keeps_record c r c'" and "reaches plib c' k sent s r"
  shows "reaches plib c k sent s r"
  using reaches_then[of plib c k "[]"] assms by simp

lemma submit_run:
  assumes "submitTransaction plib sub net ctx end out (Some r) cb now (ic_store (sc_idem c)) = (res, sent, Some s')"
    and "live_ref (sc_idem c) r" and "ic_phase (sc_idem c) r = Ran" and "\<not> sc_tried c r"
    and "id_State (sub_rec c r) = Executed"
  shows "\<exists>c'. submission_run plib c (map (Pair (id_Key (sub_rec c r))) sent) c' \<and> ic_store (sc_idem c') = s' \<and>
    keeps_record c r c'"
proof -
  let ?c = "c\<lparr>sc_idem := with_store (sc_idem c) s', sc_tried := (sc_tried c)(r := True),
     sc_open := (if may_be_delivered sub net ctx end then (sc_open c)(id_Key (sub_rec c r) \<mapsto> r) else sc_open c)\<rparr>"
  have "submission_run plib c (map (Pair (id_Key (sub_rec c r))) sent) ?c"
    by (rule run_one[OF submission_step.submit[OF assms(2-4,1)]])
  moreover have "keeps_record c r ?c"
    using submit_effect[OF assms(1)] markSubmission_rec[OF _ assms(5)] assms(2)
    by (auto simp: keeps_record_def live_ref_def)
  ultimately show ?thesis by (intro exI[of _ ?c]) simp
qed

lemma unlocked_reaches:
  assumes "unlocked r x (ic_store (sc_idem c)) w = (Returned y, s', w')" and "live_ref (sc_idem c) r"
  shows "reaches plib c k [] s' r"
  using assms unlock_run[of r c s' plib r] keeps_weak
  by (fastforce simp: unlocked_def reaches_def split: option.splits)

lemma state_kept:
  assumes "lockFinality ctx r s = (res, s')" and "r < length (is_heap s)"
  shows "id_State (rec_at s' r) = id_State (rec_at s r)"
  using assms by (auto simp: lockFinality_def split: option.splits if_splits)

lemma awaitOutcome_cases:
  assumes "awaitOutcome cfg env ac txID r f s w = (Returned x, s', w')"
  shows "unlocked r (waitResult r None s) s w = (Returned x, s', w') \<or>
    (\<exists>st e s3 w3. recordFinality ac r st (su_clock env 3) s w = (Returned e, s3, w3) \<and>
       unlocked r (waitResult r None s3) s3 w3 = (Returned x, s', w'))"
  using assms by (auto simp: awaitOutcome_def split: sum.splits outcome.splits prod.splits if_splits)

lemma awaitOutcome_reaches:
  assumes "awaitOutcome cfg env ac txID r f (ic_store (sc_idem c)) w = (Returned x, s', w')" and "live_ref (sc_idem c) r"
  shows "reaches plib c k [] s' r"
  using awaitOutcome_cases[OF assms(1)]
proof (elim disjE exE conjE)
  assume "unlocked r (waitResult r None (ic_store (sc_idem c))) (ic_store (sc_idem c)) w = (Returned x, s', w')"
  then show ?thesis by (rule unlocked_reaches[OF _ assms(2)])
next
  fix st e s3 w3
  assume f: "recordFinality ac r st (su_clock env 3) (ic_store (sc_idem c)) w = (Returned e, s3, w3)"
    "unlocked r (waitResult r None s3) s3 w3 = (Returned x, s', w')"
  obtain c3 where c3: "submission_run plib c [] c3" "ic_store (sc_idem c3) = s3" "keeps_owner c r c3"
    using finality_run[OF f(1) assms(2), of plib r] by blast
  then have "live_ref (sc_idem c3) r" using assms(2) by (simp add: keeps_owner_def)
  then have "reaches plib c3 k [] s' r" using unlocked_reaches f(2) c3(2) by metis
  then show ?thesis by (rule reaches_quietly[OF c3(1) keeps_weak[OF c3(3)]])
qed

lemma submitAndWait_reaches:
  assumes "submitAndWaitFinality plib cfg env ac end out txID (Some r) cb (ic_store (sc_idem c)) w = (sent, Returned x, s', w')"
    and "live_ref (sc_idem c) r" and "ic_phase (sc_idem c) r = Ran" and "\<not> sc_tried c r"
    and "id_State (sub_rec c r) = Executed"
  shows "reaches plib c (id_Key (sub_rec c r)) sent s' r"
proof -
  obtain res s1 where l: "lockFinality (su_lock env) r (ic_store (sc_idem c)) = (res, s1)" by fastforce
  obtain c1 where c1: "submission_run plib c [] c1" "ic_store (sc_idem c1) = s1" "keeps_owner c r c1"
    using lock_run[OF l assms(2), of plib r] by blast
  then have own: "live_ref (sc_idem c1) r" "id_Key (sub_rec c1 r) = id_Key (sub_rec c r)" "ic_phase (sc_idem c1) r = Ran"
    "\<not> sc_tried c1 r" "id_State (sub_rec c1 r) = Executed"
    using assms state_kept[OF l] by (simp_all add: keeps_owner_def live_ref_def)
  have rest: "reaches plib c1 (id_Key (sub_rec c r)) sent s' r"
  proof (cases "res = Some (Inr ())")
    case False
    then have "sent = []" "s' = s1" using assms(1) l
      by (auto simp: submitAndWaitFinality_def split: option.splits sum.splits)
    then show ?thesis using reaches_here[of s' c1] c1(2) by simp
  next
    case True
    obtain res2 sent2 so2 where sub: "submitTransaction plib (su_submitter env) (su_ordering env) (su_ctx env) end out
        (Some r) cb (su_clock env 2) (ic_store (sc_idem c1)) = (res2, sent2, so2)" by (metis prod_cases3)
    obtain s2 where s2: "so2 = Some s2" using assms(1) l True sub c1(2)
      by (cases so2) (auto simp: submitAndWaitFinality_def Let_def split: prod.splits option.splits)
    obtain c2 where c2: "submission_run plib c1 (map (Pair (id_Key (sub_rec c r))) sent2) c2" "ic_store (sc_idem c2) = s2"
      "keeps_record c1 r c2"
      using submit_run[OF sub[unfolded s2] own(1,3,4,5)] own(2) by auto
    then have live2: "live_ref (sc_idem c2) r" using own(1) by (simp add: keeps_record_def)
    have out: "sent = sent2" "(\<exists>y. unlocked r y s2 w = (Returned x, s', w')) \<or>
        (\<exists>f. awaitOutcome cfg env ac txID r f s2 w = (Returned x, s', w'))"
      using assms(1) l True sub c1(2) s2
      by (cases "snd res2"; force simp: submitAndWaitFinality_def Let_def split: prod.splits)+
    then have "reaches plib c2 (id_Key (sub_rec c r)) [] s' r"
    proof (elim disjE exE)
      fix y assume "unlocked r y s2 w = (Returned x, s', w')"
      then show ?thesis using unlocked_reaches live2 c2(2) by metis
    next
      fix f assume "awaitOutcome cfg env ac txID r f s2 w = (Returned x, s', w')"
      then show ?thesis using awaitOutcome_reaches live2 c2(2) by metis
    qed
    then show ?thesis using reaches_then[OF c2(1,3)] out(1) by fastforce
  qed
  show ?thesis by (rule reaches_quietly[OF c1(1) keeps_weak[OF c1(3)] rest])
qed

subsection \<open>The owner of a record\<close>

text \<open>A request that just created its record, and what one of its runs did.\<close>

definition owns :: "submission \<Rightarrow> nat \<Rightarrow> bool" where
  "owns c r \<longleftrightarrow> live_ref (sc_idem c) r \<and> ic_phase (sc_idem c) r = Running \<and> \<not> sc_tried c r"

definition follows ::
  "proto_lib \<Rightarrow> submission \<Rightarrow> string \<Rightarrow> ('v, 'r) service_state \<Rightarrow> ('v, 'r) service_state \<Rightarrow> bool" where
  "follows plib c k st st' \<longleftrightarrow> (\<exists>c' sent. submission_run plib c (map (Pair k) sent) c' \<and>
     ic_store (sc_idem c') = sv_idem st' \<and> sv_sent st' = sv_sent st @ sent)"

lemma follows_here: "sv_idem st' = ic_store (sc_idem c) \<Longrightarrow> sv_sent st' = sv_sent st \<Longrightarrow> follows plib c k st st'"
  unfolding follows_def by (intro exI[of _ c] exI[of _ "[]"]) (simp add: submission_run.still)

lemma follows_quietly:
  assumes "submission_run plib c [] c'" and "follows plib c' k st st'"
  shows "follows plib c k st st'"
  using assms run_trans[of plib c' _ _ c "[]"] unfolding follows_def by fastforce

lemma executed_run:
  assumes "owns c r" and "sub_inv c"
  shows "\<exists>c'. submission_run plib c [] c' \<and> ic_store (sc_idem c') = markExecuted (Some r) tx now (ic_store (sc_idem c)) \<and>
    live_ref (sc_idem c') r \<and> ic_phase (sc_idem c') r = Ran \<and> \<not> sc_tried c' r \<and> id_State (sub_rec c' r) = Executed \<and>
    id_Key (sub_rec c' r) = id_Key (sub_rec c r)"
proof -
  let ?c = "c\<lparr>sc_idem := with_store (set_phase r Ran (sc_idem c)) (markExecuted (Some r) tx now (ic_store (sc_idem c)))\<rparr>"
  have "submission_step plib c [] ?c"
    using assms(1) by (intro submission_step.call[of "OpExecuted r tx now"]) (simp_all add: owns_def)
  then show ?thesis using assms(1) run_one
    by (intro exI[of _ ?c]) (auto simp: owns_def markExecuted_def live_ref_def)
qed

lemma begin_run:
  assumes "begin_record k digest now (ic_store (sc_idem c)) = (res, s')" and "sub_inv c"
  shows "\<exists>c'. submission_run plib c [] c' \<and> ic_store (sc_idem c') = s' \<and> sub_inv c' \<and>
    (\<forall>r. res = Inr (r, True) \<longrightarrow> owns c' r \<and> id_Key (sub_rec c' r) = k) \<and>
    (\<forall>r. res = Inr (r, False) \<longrightarrow> live_ref (sc_idem c') r)"
proof -
  let ?i = "with_store (case res of Inr (r, True) \<Rightarrow> set_phase r Running (sc_idem c) | _ \<Rightarrow> sc_idem c) s'"
  let ?c = "c\<lparr>sc_idem := ?i\<rparr>"
  have ap: "idem_apply plib (OpBegin k digest now) (sc_idem c) = Some ?i" using assms(1) by simp
  have step: "submission_step plib c [] ?c"
    using ap by (intro submission_step.call[of "OpBegin k digest now"]) simp_all
  have inv: "sub_inv ?c" using call_keeps[OF assms(2) _ _ ap] by simp
  have tried: "\<not> sc_tried c (length (is_heap (ic_store (sc_idem c))))"
    using assms(2) by (auto simp: sub_inv_def live_ref_def)
  have m: "map_ok (ic_store (sc_idem c))" using assms(2) by (simp add: sub_inv_def idem_inv_def)
  show ?thesis using run_one[OF step] inv tried assms(1) map_ok_at[OF m]
    by (intro exI[of _ ?c]) (auto simp: begin_record_def owns_def live_ref_def nth_append newRecord_def
        split: if_splits option.splits)
qed

lemma completed_follows:
  assumes "completed r now (Returned (y, out, err)) st2 = (Returned y', st')" and "sv_idem st2 = ic_store (sc_idem c)"
    and "live_ref (sc_idem c) r" and "ic_phase (sc_idem c) r \<noteq> Over"
  shows "follows plib c k st2 st'"
proof -
  obtain s where s: "complete (Some r) out err now (ic_store (sc_idem c)) = Some s" "st' = st2\<lparr>sv_idem := s\<rparr>"
    using assms(1,2) by (auto simp: completed_def split: option.splits)
  let ?c = "c\<lparr>sc_idem := with_store (set_phase r Over (sc_idem c)) s\<rparr>"
  have "submission_step plib c [] ?c"
    using assms(3,4) s by (intro submission_step.call[of "OpComplete r out err now"]) simp_all
  then show ?thesis using s(2) run_one unfolding follows_def
    by (intro exI[of _ ?c] exI[of _ "[]"]) simp
qed

lemma invokeSubmission_ok:
  assumes "invokeSubmission fe rq req r result out st = (Returned x, st')"
  shows "\<exists>en tx cb sent s w w'. submitAndWaitFinality (so_proto (fe_service fe)) (so_cfg (fe_service fe)) (rq_submit rq)
      (after_commit fe rq) en out tx (Some r) cb (sv_idem st) w = (sent, Returned x, s, w') \<and>
    sv_idem st' = s \<and> sv_sent st' = sv_sent st @ sent"
proof -
  let ?cb = "if ir_IsInit req then ei_InitDefinition result else None"
  obtain sent res s w where f: "submitAndWaitFinality (so_proto (fe_service fe)) (so_cfg (fe_service fe)) (rq_submit rq)
      (after_commit fe rq) (ei_Endorsement result) out (hr_TxID (ei_Local result)) (Some r) ?cb (sv_idem st)
      (lifecycle_world st) = (sent, res, s, w)" by (metis prod_cases4)
  with assms have "res = Returned x" "st' = put_world w (st\<lparr>sv_idem := s, sv_sent := sv_sent st @ sent\<rparr>)"
    by (simp_all add: invokeSubmission_def Let_def)
  then have "sv_idem st' = s" "sv_sent st' = sv_sent st @ sent" by (simp_all add: put_world_def)
  with f \<open>res = Returned x\<close> show ?thesis by blast
qed

lemma executeOwned_reaches:
  assumes "executeOwned fe rq req r st = (Returned x, st')" and "sv_idem st = ic_store (sc_idem c)" and "owns c r"
    and "sub_inv c" and "plib = so_proto (fe_service fe)"
  shows "\<exists>c' sent. submission_run plib c (map (Pair (id_Key (sub_rec c r))) sent) c' \<and> ic_store (sc_idem c') = sv_idem st' \<and>
    sv_sent st' = sv_sent st @ sent \<and> live_ref (sc_idem c') r \<and> ic_phase (sc_idem c') r \<noteq> Over"
proof -
  let ?env = "rq_submit rq"
  obtain result err fl where e: "endorseInvocation (fe_service fe) (rq_call rq) req (sv_flow st) = (Returned (result, err), fl)"
    using assms(1) by (auto simp: executeOwned_def Let_def split: outcome.splits prod.splits)
  show ?thesis
  proof (cases "hr_Response (ei_Local result)")
    case None
    then have "st' = st\<lparr>sv_flow := fl\<rparr>" using assms(1) e
      by (auto simp: executeOwned_def Let_def successStatus_def emptyResponse_def split: if_splits prod.splits)
    then show ?thesis using assms(2,3)
      by (intro exI[of _ c] exI[of _ "[]"]) (simp add: submission_run.still owns_def)
  next
    case (Some resp)
    let ?s = "markExecuted (Some r) (hr_TxID (ei_Local result)) (su_clock ?env 1) (ic_store (sc_idem c))"
    obtain c1 where c1: "submission_run plib c [] c1" "ic_store (sc_idem c1) = ?s"
      and own: "live_ref (sc_idem c1) r" "ic_phase (sc_idem c1) r = Ran" "\<not> sc_tried c1 r" "id_State (sub_rec c1 r) = Executed"
      "id_Key (sub_rec c1 r) = id_Key (sub_rec c r)"
      using executed_run[OF assms(3,4)] by blast
    have "(sv_idem st' = ?s \<and> sv_sent st' = sv_sent st) \<or>
      (\<exists>out. invokeSubmission fe rq req r result out (st\<lparr>sv_flow := fl, sv_idem := ?s\<rparr>) = (Returned x, st'))"
      using assms(1,2) e Some by (auto simp: executeOwned_def Let_def split: if_splits)
    then have "(sv_idem st' = ?s \<and> sv_sent st' = sv_sent st) \<or>
      (\<exists>en out tx cb sent s w w'. submitAndWaitFinality plib (so_cfg (fe_service fe)) ?env (after_commit fe rq) en out tx (Some r) cb ?s w
         = (sent, Returned x, s, w') \<and> sv_idem st' = s \<and> sv_sent st' = sv_sent st @ sent)"
      using invokeSubmission_ok[of fe rq req r result _ "st\<lparr>sv_flow := fl, sv_idem := ?s\<rparr>" x st']
      unfolding assms(5) by (elim disjE exE) (simp_all, metis)
    then show ?thesis
    proof (elim disjE conjE exE)
      assume "sv_idem st' = ?s" "sv_sent st' = sv_sent st"
      then show ?thesis using c1 own by (intro exI[of _ c1] exI[of _ "[]"]) simp
    next
      fix en out tx cb sent s w w'
      assume f: "submitAndWaitFinality plib (so_cfg (fe_service fe)) ?env (after_commit fe rq) en out tx (Some r) cb ?s w
         = (sent, Returned x, s, w')" "sv_idem st' = s" "sv_sent st' = sv_sent st @ sent"
      obtain c2 where c2: "submission_run plib c1 (map (Pair (id_Key (sub_rec c r))) sent) c2" "ic_store (sc_idem c2) = s"
        "keeps_record c1 r c2"
        using submitAndWait_reaches[OF f(1)[folded c1(2)] own(1-4)] own(5) unfolding reaches_def by auto
      have "submission_run plib c (map (Pair (id_Key (sub_rec c r))) sent) c2" using run_trans[OF c2(1) c1(1)] by simp
      then show ?thesis using c2 own f by (intro exI[of _ c2] exI[of _ sent]) (simp add: keeps_record_def)
    qed
  qed
qed

lemma follows_after:
  assumes "submission_run plib c (map (Pair k) sent) c1" and "sv_sent st1 = sv_sent st @ sent" and "follows plib c1 k st1 st'"
  shows "follows plib c k st st'"
proof -
  obtain c2 sent2 where c2: "submission_run plib c1 (map (Pair k) sent2) c2" "ic_store (sc_idem c2) = sv_idem st'"
    "sv_sent st' = sv_sent st1 @ sent2" using assms(3) unfolding follows_def by blast
  have "submission_run plib c (map (Pair k) (sent @ sent2)) c2" using run_trans[OF c2(1) assms(1)] by simp
  then show ?thesis unfolding follows_def using c2 assms(2) by (metis append_assoc)
qed

lemma replay_run:
  assumes "replaySubmission ctx wake waitCtx r (ic_store (sc_idem c)) = (Returned x, s')" and "live_ref (sc_idem c) r"
  shows "\<exists>c'. submission_run plib c [] c' \<and> ic_store (sc_idem c') = s'"
proof (cases "s' = ic_store (sc_idem c)")
  case True
  then show ?thesis using submission_run.still by metis
next
  case False
  obtain res s1 where l: "lockFinality waitCtx r (ic_store (sc_idem c)) = (res, s1)" by fastforce
  obtain c1 where c1: "submission_run plib c [] c1" "ic_store (sc_idem c1) = s1" "keeps_owner c r c1"
    using lock_run[OF l assms(2), of plib r] by blast
  have "s' = s1 \<or> unlockFinality r s1 = Some s'"
    using assms(1) False l by (auto simp: replaySubmission_def split: option.splits sum.splits if_splits)
  then show ?thesis
  proof
    assume "unlockFinality r s1 = Some s'"
    then obtain c2 where "submission_run plib c1 [] c2" "ic_store (sc_idem c2) = s'"
      using unlock_run[of r c1 s' plib r] c1 assms(2) by (auto simp: keeps_owner_def)
    then show ?thesis using run_trans[of plib c1 "[]" c2 c "[]"] c1(1) by auto
  qed (use c1 in blast)
qed

definition requestKey :: "('id, 'v) frontend \<Rightarrow> InvocationRequest \<Rightarrow> string" where
  "requestKey fe req = (case prepareInvocation (so_cfg (fe_service fe)) req of
     Inl _ \<Rightarrow> [] | Inr (namespace, _) \<Rightarrow> fst (idempotencyIdentity (fe_sha256 fe) (cf_ChannelID (so_cfg (fe_service fe))) namespace req True))"

lemma executeSubmit_follows:
  assumes "executeSubmit fe rq req st = (Returned x, st')" and "sub_inv c" and "sv_idem st = ic_store (sc_idem c)"
    and "plib = so_proto (fe_service fe)"
  shows "follows plib c (requestKey fe req) st st'"
proof (cases "prepareInvocation (so_cfg (fe_service fe)) req")
  case (Inl e)
  with assms show ?thesis by (intro follows_here) (simp_all add: executeSubmit_def Let_def)
next
  case (Inr p)
  obtain namespace args where p: "p = (namespace, args)" by (cases p)
  obtain k digest where id: "idempotencyIdentity (fe_sha256 fe) (cf_ChannelID (so_cfg (fe_service fe))) namespace req True = (k, digest)"
    by fastforce
  have key: "requestKey fe req = k" using Inr p id by (simp add: requestKey_def)
  obtain res s where b: "begin_record k digest (su_clock (rq_submit rq) 0) (ic_store (sc_idem c)) = (res, s)" by fastforce
  obtain c1 where c1: "submission_run plib c [] c1" "ic_store (sc_idem c1) = s" "sub_inv c1"
    "\<forall>r. res = Inr (r, True) \<longrightarrow> owns c1 r \<and> id_Key (sub_rec c1 r) = k"
    "\<forall>r. res = Inr (r, False) \<longrightarrow> live_ref (sc_idem c1) r"
    using begin_run[OF b assms(2), of plib] by blast
  have tr: "sv_idem (trigger st) = ic_store (sc_idem c)" "sv_sent (trigger st) = sv_sent st" using assms(3) by (simp_all add: trigger_def)
  have "follows plib c1 k st st'"
  proof (cases res)
    case (Inl e)
    with assms(1) \<open>prepareInvocation _ _ = _\<close> p id b tr c1(2) show ?thesis
      by (intro follows_here) (auto simp: executeSubmit_def Let_def)
  next
    case (Inr q)
    obtain r first where q: "q = (r, first)" by (cases q)
    show ?thesis
    proof (cases first)
      case False
      obtain y s1 where "replaySubmission (rq_ctx rq 0) (rq_wake rq) (rq_wait rq) r s = (Returned y, s1)"
        and st': "st' = (trigger st)\<lparr>sv_idem := s1\<rparr>"
        using assms(1) \<open>prepareInvocation _ _ = _\<close> p id b tr Inr q False
        by (auto simp: executeSubmit_def Let_def split: outcome.splits prod.splits)
      then have y: "replaySubmission (rq_ctx rq 0) (rq_wake rq) (rq_wait rq) r (ic_store (sc_idem c1)) = (Returned y, s1)"
        using c1(2) by simp
      have "live_ref (sc_idem c1) r" using c1(5) Inr q False by simp
      then obtain c2 where "submission_run plib c1 [] c2" "ic_store (sc_idem c2) = s1" using replay_run[OF y] by blast
      then show ?thesis using st' tr unfolding follows_def by (intro exI[of _ c2] exI[of _ "[]"]) simp
    next
      case True
      have own: "owns c1 r" "id_Key (sub_rec c1 r) = k" using c1(4) Inr q True by simp_all
      obtain out err st1 where x: "executeOwned fe rq (req\<lparr>ir_IdempotencyKey := k, ir_RequestDigest := digest\<rparr>) r ((trigger st)\<lparr>sv_idem := s\<rparr>)
          = (Returned (out, err), st1)"
        and fin: "completed r (su_clock (rq_submit rq) 4) (Returned ((out, err), out, err)) st1 = (Returned x, st')"
        using assms(1) \<open>prepareInvocation _ _ = _\<close> p id b tr Inr q True
        by (auto simp: executeSubmit_def Let_def split: outcome.splits prod.splits)
      obtain c2 sent where c2: "submission_run plib c1 (map (Pair k) sent) c2" "ic_store (sc_idem c2) = sv_idem st1"
        "sv_sent st1 = sv_sent st @ sent" "live_ref (sc_idem c2) r" "ic_phase (sc_idem c2) r \<noteq> Over"
        using executeOwned_reaches[OF x _ own(1) c1(3) assms(4)] own(2) c1(2) tr(2) by auto
      show ?thesis by (rule follows_after[OF c2(1,3) completed_follows[OF fin c2(2)[symmetric] c2(4,5)]])
    qed
  qed
  then show ?thesis using follows_quietly[OF c1(1)] key by simp
qed

subsection \<open>Gateway Submit\<close>

lemma submitOwned_follows:
  assumes "submitOwned fe rq prepared cb r st = (Returned x, st')" and "sv_idem st = ic_store (sc_idem c)" and "owns c r"
    and "sub_inv c" and "plib = so_proto (fe_service fe)"
  shows "follows plib c (id_Key (sub_rec c r)) st st'"
proof -
  let ?env = "rq_submit rq" and ?tx = "ir_ClientTxID (gp_Request prepared)"
  let ?s = "markExecuted (Some r) ?tx (su_clock ?env 1) (ic_store (sc_idem c))"
  obtain c1 where c1: "submission_run plib c [] c1" "ic_store (sc_idem c1) = ?s"
    and own: "live_ref (sc_idem c1) r" "ic_phase (sc_idem c1) r = Ran" "\<not> sc_tried c1 r" "id_State (sub_rec c1 r) = Executed"
    "id_Key (sub_rec c1 r) = id_Key (sub_rec c r)"
    using executed_run[OF assms(3,4)] by blast
  obtain response where resp: "firstResponse (gp_Endorsement prepared) = Some response"
    using assms(1) by (auto simp: submitOwned_def Let_def split: option.splits)
  let ?out = "(responseFromPeer ?tx response)\<lparr>rv_IdempotencyKey := ?tx\<rparr>"
  obtain out1 err sent so where sub: "submitTransaction plib (su_submitter ?env) (su_ordering ?env) (su_ctx ?env)
      (gp_Endorsement prepared) ?out (Some r) cb (su_clock ?env 2) ?s = ((out1, err), sent, so)" by (metis prod_cases4 prod.collapse)
  obtain s2 where s2: "so = Some s2" using assms(1,2,5) resp sub
    by (cases so) (auto simp: submitOwned_def Let_def)
  obtain c2 where c2: "submission_run plib c1 (map (Pair (id_Key (sub_rec c r))) sent) c2" "ic_store (sc_idem c2) = s2"
    "keeps_record c1 r c2"
    using submit_run[OF sub[unfolded s2 c1(2)[symmetric]] own(1-4)] own(5) by auto
  have fin: "completed r (su_clock ?env 4)
      (Returned (case err of None \<Rightarrow> Inr () | Some e \<Rightarrow> Inl (submissionRPCError (rq_ctx rq 4) e), out1,
        map_option (submissionRPCError (rq_ctx rq 4)) err)) (st\<lparr>sv_idem := s2, sv_sent := sv_sent st @ sent\<rparr>) = (Returned x, st')"
    using assms(1,2,5) resp sub s2 by (simp add: submitOwned_def Let_def)
  have run: "submission_run plib c (map (Pair (id_Key (sub_rec c r))) sent) c2" using run_trans[OF c2(1) c1(1)] by simp
  show ?thesis
    by (rule follows_after[OF run _ completed_follows[OF fin]]) (use c2 own in \<open>simp_all add: keeps_record_def\<close>)
qed

lemma Submit_follows:
  assumes "Orchestrator_Submit fe rq request st = (Returned x, st')" and "sub_inv c" and "sv_idem st = ic_store (sc_idem c)"
    and "plib = so_proto (fe_service fe)"
  shows "follows plib c (case admitSubmit fe rq request of Inl _ \<Rightarrow> [] | Inr (_, prepared) \<Rightarrow> ir_ClientTxID (gp_Request prepared)) st st'"
proof (cases "admitSubmit fe rq request")
  case (Inl e)
  with assms show ?thesis by (intro follows_here) (simp_all add: Orchestrator_Submit_def Let_def)
next
  case (Inr p)
  obtain payload prepared where p: "p = (payload, prepared)" by (cases p)
  let ?k = "ir_ClientTxID (gp_Request prepared)" and ?d = "submitDigest fe payload"
  have tr: "sv_idem (trigger st) = ic_store (sc_idem c)" "sv_sent (trigger st) = sv_sent st" using assms(3) by (simp_all add: trigger_def)
  obtain res s where b: "begin_record ?k ?d (su_clock (rq_submit rq) 0) (ic_store (sc_idem c)) = (res, s)" by fastforce
  obtain c1 where c1: "submission_run plib c [] c1" "ic_store (sc_idem c1) = s" "sub_inv c1"
    "\<forall>r. res = Inr (r, True) \<longrightarrow> owns c1 r \<and> id_Key (sub_rec c1 r) = ?k"
    using begin_run[OF b assms(2), of plib] by blast
  have "(sv_idem st' = ic_store (sc_idem c) \<and> sv_sent st' = sv_sent st) \<or> (sv_idem st' = s \<and> sv_sent st' = sv_sent st) \<or>
    (\<exists>r cb fl. res = Inr (r, True) \<and>
       submitOwned fe rq prepared cb r ((trigger st)\<lparr>sv_flow := fl, sv_idem := s\<rparr>) = (Returned x, st'))"
    using assms(1) Inr p tr b
    by (auto simp: Orchestrator_Submit_def Let_def split: sum.splits option.splits prod.splits bool.splits)
  then have "follows plib c ?k st st'"
  proof (elim disjE conjE exE)
    assume "sv_idem st' = s" "sv_sent st' = sv_sent st"
    then show ?thesis using follows_quietly[OF c1(1) follows_here] c1(2) by simp
  next
    fix r cb fl
    let ?st1 = "(trigger st)\<lparr>sv_flow := fl, sv_idem := s\<rparr>"
    assume f: "res = Inr (r, True)" "submitOwned fe rq prepared cb r ?st1 = (Returned x, st')"
    then have own: "owns c1 r" "id_Key (sub_rec c1 r) = ?k" using c1(4) by simp_all
    have "follows plib c1 ?k ?st1 st'" using submitOwned_follows[OF f(2) _ own(1) c1(3) assms(4)] own(2) c1(2) by simp
    then have "follows plib c1 ?k st st'" using tr by (simp add: follows_def)
    then show ?thesis by (rule follows_quietly[OF c1(1)])
  qed (simp add: follows_here)
  then show ?thesis using Inr p by simp
qed

text \<open>C9: every Execute with submission and every Gateway Submit that returns is a run of the submission protocol:
  from a reachable store it leads to a reachable store, and what it handed to ordering in between is what
  the steps of the run handed to ordering, all under its own request key.\<close>

theorem calls_follow_protocol:
  assumes "submission_reachable (so_proto (fe_service fe)) c" and "sv_idem st = ic_store (sc_idem c)"
  shows "(executeSubmit fe rq req st = (Returned x, st1) \<longrightarrow>
       (\<exists>c' sent. submission_run (so_proto (fe_service fe)) c (map (Pair (requestKey fe req)) sent) c' \<and>
          submission_reachable (so_proto (fe_service fe)) c' \<and>
          sv_idem st1 = ic_store (sc_idem c') \<and> sv_sent st1 = sv_sent st @ sent)) \<and>
    (admitSubmit fe rq request = Inr (payload, prepared) \<and> Orchestrator_Submit fe rq request st = (Returned y, st2) \<longrightarrow>
       (\<exists>c' sent. submission_run (so_proto (fe_service fe)) c (map (Pair (ir_ClientTxID (gp_Request prepared))) sent) c' \<and>
          submission_reachable (so_proto (fe_service fe)) c' \<and>
          sv_idem st2 = ic_store (sc_idem c') \<and> sv_sent st2 = sv_sent st @ sent))"
proof -
  note inv = submission_reachable_inv[OF assms(1)]
  have out: "\<exists>c' sent. submission_run (so_proto (fe_service fe)) c (map (Pair k) sent) c' \<and>
      submission_reachable (so_proto (fe_service fe)) c' \<and> sv_idem st' = ic_store (sc_idem c') \<and> sv_sent st' = sv_sent st @ sent"
    if "follows (so_proto (fe_service fe)) c k st st'" for k st'
    using that run_reachable[OF _ assms(1)] unfolding follows_def by metis
  show ?thesis
  proof (intro conjI impI)
    assume "executeSubmit fe rq req st = (Returned x, st1)"
    then show "\<exists>c' sent. submission_run (so_proto (fe_service fe)) c (map (Pair (requestKey fe req)) sent) c' \<and>
        submission_reachable (so_proto (fe_service fe)) c' \<and>
        sv_idem st1 = ic_store (sc_idem c') \<and> sv_sent st1 = sv_sent st @ sent"
      by (intro out executeSubmit_follows[OF _ inv assms(2) refl])
  next
    assume a: "admitSubmit fe rq request = Inr (payload, prepared) \<and> Orchestrator_Submit fe rq request st = (Returned y, st2)"
    then have "follows (so_proto (fe_service fe)) c (ir_ClientTxID (gp_Request prepared)) st st2"
      using Submit_follows[OF _ inv assms(2) refl] by fastforce
    then show "\<exists>c' sent. submission_run (so_proto (fe_service fe)) c (map (Pair (ir_ClientTxID (gp_Request prepared))) sent) c' \<and>
        submission_reachable (so_proto (fe_service fe)) c' \<and>
        sv_idem st2 = ic_store (sc_idem c') \<and> sv_sent st2 = sv_sent st @ sent"
      by (rule out)
  qed
qed

subsection \<open>A retry\<close>

lemma replay_submitted:
  assumes "replaySubmission cx wk wc r s = (Returned y, s')" and "id_State (rec_at s r) = Submitted" and "r < length (is_heap s)"
  shows "is_records s' = is_records s \<and>
    fst y = (id_Response (rec_at s r))\<lparr>rv_IdempotencyKey := id_Key (rec_at s r), rv_FinalityPending := True\<rparr>"
proof -
  let ?out = "\<lambda>x. (id_Response x)\<lparr>rv_IdempotencyKey := id_Key x, rv_FinalityPending := True\<rparr>"
  have wait: "waitResult r e s1 = (?out (rec_at s1 r), None)" if "id_State (rec_at s1 r) = Submitted" for e s1
    using that by (simp add: waitResult_def Let_def)
  have w: "wait_record cx wk (Some r) s = Some (?out (rec_at s r), None)"
    using assms(1) wait[OF assms(2)]
    by (auto simp: replaySubmission_def wait_record_def split: wake.splits option.splits if_splits)
  obtain res s1 where l: "lockFinality wc r s = (res, s1)" by fastforce
  have same: "is_records s1 = is_records s" "id_State (rec_at s1 r) = Submitted" "?out (rec_at s1 r) = ?out (rec_at s r)"
    using l assms(2,3) by (auto simp: lockFinality_def set_rec_def split: option.splits if_splits)
  have unlock: "is_records s2 = is_records s1" if "unlockFinality r s1 = Some s2" for s2
    using that by (auto simp: unlockFinality_def set_rec_def split: if_splits)
  have "(y = (?out (rec_at s1 r), None) \<and> s' = s1) \<or> (y = (?out (rec_at s1 r), None) \<and> unlockFinality r s1 = Some s')"
    using assms(1) by (auto simp: replaySubmission_def w l wait[OF same(2)] split: option.splits sum.splits)
  then show ?thesis using same unlock by (elim disjE) auto
qed

text \<open>C11: a retry of a request whose transaction may have reached ordering and has no final status sends nothing: it
  gets the recorded response of the first request, marked as a replay with its outcome pending, or a conflict
  if it is not the same request, and changes no other part of the service.\<close>

theorem retry_replays:
  assumes "submission_reachable (so_proto (fe_service fe)) c" and "sv_idem st = ic_store (sc_idem c)"
    and "sc_open c (requestKey fe req) = Some r" and "executeSubmit fe rq req st = (Returned (out, err), st')"
    and "requestKey fe req \<noteq> []"
  shows "sv_sent st' = sv_sent st \<and> sv_flow st' = sv_flow st \<and> sv_lifecycle st' = sv_lifecycle st \<and>
    is_records (sv_idem st') = is_records (sv_idem st) \<and>
    (err = None \<longrightarrow> out = (id_Response (rec_at (sv_idem st) r))\<lparr>rv_IdempotencyKey := requestKey fe req,
       rv_FinalityPending := True, rv_IdempotentReplay := True\<rparr>)"
proof -
  let ?k = "requestKey fe req"
  have inv: "sub_inv c" by (rule submission_reachable_inv[OF assms(1)])
  have o: "live_ref (sc_idem c) r" "id_Key (sub_rec c r) = ?k" "id_State (sub_rec c r) = Submitted"
    using sub_inv_open[OF inv assms(3)] by simp_all
  obtain namespace args where ns: "prepareInvocation (so_cfg (fe_service fe)) req = Inr (namespace, args)"
    using assms(5) by (auto simp: requestKey_def split: sum.splits)
  obtain k digest where id: "idempotencyIdentity (fe_sha256 fe) (cf_ChannelID (so_cfg (fe_service fe))) namespace req True = (k, digest)"
    by fastforce
  have k: "k = ?k" using ns id by (simp add: requestKey_def)
  have m: "map_ok (ic_store (sc_idem c))" using inv by (simp add: sub_inv_def idem_inv_def)
  have at: "is_records (ic_store (sc_idem c)) k = Some r" using map_ok_at[OF m] o k by (simp add: live_ref_def finished_def)
  have replay: "is_records s1 = is_records (ic_store (sc_idem c)) \<and> fst y = (id_Response (sub_rec c r))\<lparr>rv_IdempotencyKey := ?k,
      rv_FinalityPending := True\<rparr>"
    if "replaySubmission cx wk wc r (ic_store (sc_idem c)) = (Returned y, s1)" for cx wk wc y s1
    using replay_submitted[OF that o(3)] o(1,2) by (simp add: live_ref_def)
  show ?thesis
  proof (cases "id_Digest (sub_rec c r) = digest")
    case False
    then have "begin_record k digest (su_clock (rq_submit rq) 0) (ic_store (sc_idem c))
        = (Inl (if k = [] \<or> digest = [] then Plain ''idempotency key and digest are required'' else Plain (''idempotency conflict for key '' @ k)), ic_store (sc_idem c))"
      using at by (simp add: begin_record_def)
    then show ?thesis using assms(2,4) ns id by (auto simp: executeSubmit_def trigger_def Let_def)
  next
    case True
    have d: "digest \<noteq> []" using inv_at[of "sc_idem c" r] inv o(1) True by (simp add: sub_inv_def record_ok_def)
    have "begin_record k digest (su_clock (rq_submit rq) 0) (ic_store (sc_idem c)) = (Inr (r, False), ic_store (sc_idem c))"
      using at True d k assms(5) by (simp add: begin_record_def)
    then obtain y s1 where y: "replaySubmission (rq_ctx rq 0) (rq_wake rq) (rq_wait rq) r (ic_store (sc_idem c)) = (Returned y, s1)"
      and st': "st' = (trigger st)\<lparr>sv_idem := s1\<rparr>" "out = (fst y)\<lparr>rv_IdempotentReplay := True\<rparr>"
      using assms(2,4) ns id by (auto simp: executeSubmit_def trigger_def Let_def split: outcome.splits prod.splits)
    show ?thesis using replay[OF y] st' assms(2) by (auto simp: trigger_def)
  qed
qed

subsection \<open>A submission whose acknowledgment was lost\<close>

definition lost_ordering :: ordering where
  "lost_ordering = \<lparr>od_Broadcast = None, od_Send = None, od_Recv = Inl (Plain ''connection reset'')\<rparr>"

definition sample_submitter :: fabricXSubmitter where
  "sample_submitter = \<lparr>fx_packager = (\<lambda>_. Inr ''envelope'')\<rparr>"

definition retried_request :: InvocationRequest where
  "retried_request = sample_invocation\<lparr>ir_Namespace := ''ns''\<rparr>"

definition sample_service :: "(string, unit) Service" where
  "sample_service = \<lparr>so_cfg = sample_cfg, so_msp = sample_lib, so_proto = no_proto, so_hl = sample_helper_lib,
     so_il = \<lparr>il_NewSignedProposal = (\<lambda>_ _ _. Inl (Plain [])), il_SetInit = Inr, il_MarshalPayload = (\<lambda>_. Inr),
       il_SignProposal = (\<lambda>_. Inl (Plain [])), il_ComputeTxID = (\<lambda>_ _. ''tx''), il_CreateProposal = (\<lambda>_ _ _ _ _ _. Inl (Plain [])),
       il_MarshalProposal = (\<lambda>_. Inr [])\<rparr>,
     so_policy_lib = sample_policy_lib, so_decode_policy = (\<lambda>_. None), so_msps = None, so_helper = None, so_resolver = None,
     so_remotes = None\<rparr>"

definition sample_frontend :: "(string, unit) frontend" where
  "sample_frontend = \<lparr>fe_service = sample_service, fe_auth = None, fe_parse = sample_parse, fe_gateway = event_gateway,
     fe_packager = prepared_lib, fe_sha256 = (\<lambda>_. ''h'')\<rparr>"

abbreviation retry_key :: string where "retry_key \<equiv> ''tx''"

definition retry_digest :: string where "retry_digest = hex_encode ''h''"

definition began :: submission where
  "began = submission_start\<lparr>sc_idem := the (idem_apply no_proto (OpBegin retry_key retry_digest 1) idem_start)\<rparr>"

definition ran :: submission where
  "ran = began\<lparr>sc_idem := the (idem_apply no_proto (OpExecuted 0 ''tx'' 2) (sc_idem began))\<rparr>"

lemma digest_ne: "retry_digest \<noteq> []"
  by (simp add: retry_digest_def hex_encode_def)

lemma ran_reachable: "submission_reachable no_proto ran"
proof -
  have "submission_step no_proto submission_start [] began"
    unfolding began_def by (rule submission_step.call[of "OpBegin retry_key retry_digest 1"]) (simp_all add: submission_start_def Let_def split: prod.split)
  moreover have "submission_step no_proto began [] ran"
    unfolding ran_def
    by (rule submission_step.call[of "OpExecuted 0 ''tx'' 2"])
      (simp_all add: began_def submission_start_def idem_start_def newIdempotencyStore_def begin_record_def digest_ne live_ref_def
        newRecord_def)
  ultimately show ?thesis by (intro submission_reachable.later[OF submission_reachable.later[OF submission_reachable.start]])
qed

lemma ran_record:
  "live_ref (sc_idem ran) 0" "ic_phase (sc_idem ran) 0 = Ran" "\<not> sc_tried ran 0" "id_Key (sub_rec ran 0) = retry_key"
  "id_State (sub_rec ran 0) = Executed" "id_Digest (sub_rec ran 0) = retry_digest" "\<not> id_submitted (sub_rec ran 0)"
  "\<not> id_finalityCheck (sub_rec ran 0)" "length (is_heap (ic_store (sc_idem ran))) = 1" "sc_open ran retry_key = None"
  by (simp_all add: ran_def began_def submission_start_def idem_start_def newIdempotencyStore_def begin_record_def digest_ne
      live_ref_def newRecord_def markExecuted_def set_rec_def)

definition lost_store :: idempotencyStore where
  "lost_store = the (markSubmission no_proto (Some 0) (emptyResponse\<lparr>rv_Submitted := True, rv_FinalityPending := True\<rparr>)
     emptyEndorsement None (Some (OrderingError (Plain ''connection reset'') True)) 3 (ic_store (sc_idem ran)))"

definition lost :: submission where
  "lost = ran\<lparr>sc_idem := with_store (sc_idem ran) lost_store, sc_tried := (sc_tried ran)(0 := True),
     sc_open := (sc_open ran)(retry_key \<mapsto> 0)\<rparr>"

lemma lost_step: "submission_step no_proto ran [(retry_key, ''envelope'')] lost"
proof -
  have m: "markSubmission no_proto (Some 0) (emptyResponse\<lparr>rv_Submitted := True, rv_FinalityPending := True\<rparr>)
     emptyEndorsement None (Some (OrderingError (Plain ''connection reset'') True)) 3 (ic_store (sc_idem ran)) = Some lost_store"
    using ran_record by (simp add: lost_store_def markSubmission_def finished_def Let_def)
  have s: "submitTransaction no_proto (Some sample_submitter) lost_ordering None emptyEndorsement emptyResponse (Some 0) None 3
      (ic_store (sc_idem ran)) = ((emptyResponse\<lparr>rv_Submitted := True, rv_FinalityPending := True\<rparr>,
        Some (Wrapped ''submit failed'' (OrderingError (Plain ''connection reset'') True))), [''envelope''], Some lost_store)"
    using m by (simp add: submitTransaction_def Submit_envelope_def sample_submitter_def lost_ordering_def Let_def)
  have d: "may_be_delivered (Some sample_submitter) lost_ordering None emptyEndorsement"
    by (simp add: may_be_delivered_def sample_submitter_def lost_ordering_def)
  show ?thesis using submission_step.submit[OF ran_record(1-3) s] ran_record(4) d by (simp add: lost_def)
qed

theorem no_invocation_resend_witness:
  "(retry_key, ''envelope'') \<in> set [(retry_key, ''envelope'')] \<and> sc_open ran retry_key = None"
  using no_invocation_resend[OF ran_reachable lost_step, of retry_key "''envelope''"] by simp

lemma lost_record:
  "sc_open lost retry_key = Some 0" "id_State (rec_at lost_store 0) = Submitted" "id_submitted (rec_at lost_store 0)"
  "\<not> id_finalityCheck (rec_at lost_store 0)" "length (is_heap lost_store) = 1" "id_Digest (rec_at lost_store 0) = retry_digest"
  "is_records lost_store retry_key = Some 0" "ic_store (sc_idem lost) = lost_store"
proof -
  have "is_records (ic_store (sc_idem ran)) retry_key = Some 0"
    by (simp add: ran_def began_def submission_start_def idem_start_def newIdempotencyStore_def begin_record_def digest_ne
        markExecuted_def set_rec_def)
  then show "sc_open lost retry_key = Some 0" "id_State (rec_at lost_store 0) = Submitted" "id_submitted (rec_at lost_store 0)"
  "\<not> id_finalityCheck (rec_at lost_store 0)" "length (is_heap lost_store) = 1" "id_Digest (rec_at lost_store 0) = retry_digest"
  "is_records lost_store retry_key = Some 0" "ic_store (sc_idem lost) = lost_store"
    using ran_record by (simp_all add: lost_store_def lost_def markSubmission_def finished_def Let_def set_rec_def)
qed

text \<open>The request comes again, and is told what happened to the first.\<close>

definition retry_state :: "(unit, (string \<times> bool) list) service_state" where
  "retry_state = \<lparr>sv_flow = \<lparr>fs_world = (), fs_store = None, fs_policies = None\<rparr>, sv_idem = lost_store,
     sv_lifecycle = \<lparr>ls_heap = [], ls_pending = (\<lambda>_. None), ls_closed = False, ls_sent = [], ls_remotes = []\<rparr>,
     sv_recovery = \<lparr>ry_closed = False, ry_running = True\<rparr>, sv_sent = [''envelope'']\<rparr>"

definition retry_call :: "lifecycle_net \<Rightarrow> (string, (string \<times> bool) list) request" where
  "retry_call net = \<lparr>rq_call = \<lparr>ca_ctx = None, ca_cleanup = sample_cleanup, ca_stamp = [], ca_time = 10, ca_policy_answer = None,
       ca_collect = (\<lambda>_. None)\<rparr>, rq_ctx = (\<lambda>_. None), rq_time = 10,
     rq_submit = \<lparr>su_submitter = Some sample_submitter, su_ordering = lost_ordering, su_notify = None, su_clock = int,
       su_lock = None, su_ctx = None, su_interrupted = False\<rparr>,
     rq_side = \<lparr>sd_server = sample_server True, sd_mark = net, sd_final = net, sd_env = sample_env\<rparr>,
     rq_wake = WakeSubmitted, rq_wait = None\<rparr>"

lemma retry_key_of: "requestKey sample_frontend retried_request = retry_key"
  by (simp add: requestKey_def prepareInvocation_def retried_request_def sample_invocation_def emptyRequest_def
      invocationArgs_def idempotencyIdentity_def sample_frontend_def sample_service_def Let_def)

lemma retry_runs: "\<exists>out st'. executeSubmit sample_frontend (retry_call net) retried_request retry_state = (Returned (out, None), st')"
proof -
  have id: "idempotencyIdentity (fe_sha256 sample_frontend) (cf_ChannelID (so_cfg (fe_service sample_frontend))) ''ns'' retried_request True
      = (retry_key, retry_digest)"
    by (simp add: idempotencyIdentity_def requestDigest_def sample_frontend_def retried_request_def sample_invocation_def
        emptyRequest_def retry_digest_def)
  have ns: "\<exists>args. prepareInvocation (so_cfg (fe_service sample_frontend)) retried_request = Inr (''ns'', args)"
    by (simp add: prepareInvocation_def retried_request_def sample_invocation_def emptyRequest_def invocationArgs_def)
  have b: "begin_record retry_key retry_digest 0 lost_store = (Inr (0, False), lost_store)"
    using lost_record digest_ne by (simp add: begin_record_def)
  have t: "sv_idem (trigger retry_state) = lost_store" by (simp add: trigger_def retry_state_def)
  have w: "waitResult 0 e s = ((id_Response (rec_at s 0))\<lparr>rv_IdempotencyKey := id_Key (rec_at s 0), rv_FinalityPending := True\<rparr>, None)"
    if "id_State (rec_at s 0) = Submitted" for e s
    using that by (simp add: waitResult_def Let_def)
  have "\<exists>out s. replaySubmission None WakeSubmitted None 0 lost_store = (Returned (out, None), s)"
    using lost_record by (simp add: replaySubmission_def wait_record_def w lockFinality_def unlockFinality_def)
  then show ?thesis using ns
    by (auto simp: executeSubmit_def Let_def id t b retry_call_def)
qed

theorem calls_follow_protocol_witness:
  "\<exists>net x st' c' sent. executeSubmit sample_frontend (retry_call net) retried_request retry_state = (Returned x, st') \<and>
     submission_run no_proto lost (map (Pair retry_key) sent) c' \<and> submission_reachable no_proto c' \<and>
     sv_sent st' = sv_sent retry_state @ sent"
proof -
  have p: "so_proto (fe_service sample_frontend) = no_proto" by (simp add: sample_frontend_def sample_service_def)
  have r: "submission_reachable (so_proto (fe_service sample_frontend)) lost"
    unfolding p by (rule submission_reachable.later[OF ran_reachable lost_step])
  have s: "sv_idem retry_state = ic_store (sc_idem lost)" by (simp add: retry_state_def lost_record)
  obtain net :: lifecycle_net and x st' where e: "executeSubmit sample_frontend (retry_call net) retried_request retry_state = (Returned x, st')"
    using retry_runs by blast
  from conjunct1[OF calls_follow_protocol[OF r s, of "retry_call net" retried_request x st']] e
  obtain c' sent where "submission_run no_proto lost (map (Pair retry_key) sent) c'" "submission_reachable no_proto c'"
    "sv_sent st' = sv_sent retry_state @ sent" unfolding p retry_key_of by auto
  with e show ?thesis by blast
qed

theorem retry_replays_witness:
  "\<exists>net out st'. executeSubmit sample_frontend (retry_call net) retried_request retry_state = (Returned (out, None), st') \<and>
     sv_sent st' = [''envelope''] \<and> rv_FinalityPending out \<and> rv_IdempotentReplay out"
proof -
  have p: "so_proto (fe_service sample_frontend) = no_proto" by (simp add: sample_frontend_def sample_service_def)
  have r: "submission_reachable (so_proto (fe_service sample_frontend)) lost"
    unfolding p by (rule submission_reachable.later[OF ran_reachable lost_step])
  have s: "sv_idem retry_state = ic_store (sc_idem lost)" by (simp add: retry_state_def lost_record)
  have k: "sc_open lost (requestKey sample_frontend retried_request) = Some 0" "requestKey sample_frontend retried_request \<noteq> []"
    using lost_record retry_key_of by simp_all
  obtain net :: lifecycle_net and out st' where
    e: "executeSubmit sample_frontend (retry_call net) retried_request retry_state = (Returned (out, None), st')"
    using retry_runs by blast
  from retry_replays[OF r s k(1) e k(2)] have "sv_sent st' = [''envelope'']" "rv_FinalityPending out" "rv_IdempotentReplay out"
    by (simp_all add: retry_state_def)
  with e show ?thesis by blast
qed

end
