(* ===== verification/Connections.thy ===== *)
theory Connections
  imports Connection_Resolution
begin

section \<open>Outgoing connections\<close>

text \<open>
  Every client connection the orchestrator holds comes from \<open>network.NewPeer\<close> and is given back by \<open>Close\<close>.
  A connection is the number of the attempt that made it; the state keeps which attempts succeeded and which
  connections were closed, in that order, so that a leak is a number in the first list and not in the second.
  Whether an attempt succeeds and what closing reports is a parameter.  Also here: \<open>net.SplitHostPort\<close>, which the
  remote resolvers and the command-line clients apply to addresses.
\<close>

record network =
  nw_dial :: "nat \<Rightarrow> PeerConf \<Rightarrow> orch_error option"
  nw_close :: "nat \<Rightarrow> orch_error option"

record connections =
  cn_attempts :: nat
  cn_opened :: "nat list"
  cn_closed :: "nat list"

definition noConnections :: connections where
  "noConnections = \<lparr>cn_attempts = 0, cn_opened = [], cn_closed = []\<rparr>"

definition NewPeer :: "network \<Rightarrow> PeerConf \<Rightarrow> connections \<Rightarrow> (orch_error + nat) \<times> connections" where
  "NewPeer net conf c =
     (let h = cn_attempts c; c' = c\<lparr>cn_attempts := Suc h\<rparr> in
      case nw_dial net h conf of
        Some e \<Rightarrow> (Inl e, c')
      | None \<Rightarrow> (Inr h, c'\<lparr>cn_opened := cn_opened c @ [h]\<rparr>))"

definition Peer_Close :: "network \<Rightarrow> nat \<Rightarrow> connections \<Rightarrow> orch_error option \<times> connections" where
  "Peer_Close net h c = (nw_close net h, c\<lparr>cn_closed := cn_closed c @ [h]\<rparr>)"

text \<open>\<open>errors.Join\<close>: nil when every part is nil.\<close>

definition errors_Join :: "orch_error option list \<Rightarrow> orch_error option" where
  "errors_Join es = (let found = concat (map (\<lambda>e. case e of None \<Rightarrow> [] | Some x \<Rightarrow> [x]) es)
     in if found = [] then None else Some (Joined found))"

lemma errors_Join_None [simp]: "errors_Join es = None \<longleftrightarrow> (\<forall>e \<in> set es. e = None)"
  by (auto simp: errors_Join_def Let_def split: option.splits)

text \<open>Open connections, and the bookkeeping that every operation keeps.\<close>

definition still_open :: "connections \<Rightarrow> nat list" where
  "still_open c = filter (\<lambda>h. h \<notin> set (cn_closed c)) (cn_opened c)"

definition conns_ok :: "connections \<Rightarrow> bool" where
  "conns_ok c \<longleftrightarrow> distinct (cn_opened c) \<and> distinct (cn_closed c) \<and> set (cn_closed c) \<subseteq> set (cn_opened c) \<and>
     (\<forall>h \<in> set (cn_opened c). h < cn_attempts c)"

lemma conns_ok_start [simp]: "conns_ok noConnections" "still_open noConnections = []"
  by (simp_all add: conns_ok_def noConnections_def still_open_def)

lemma NewPeer_Inl: "NewPeer net conf c = (Inl e, c') \<Longrightarrow> still_open c' = still_open c \<and> (conns_ok c \<longrightarrow> conns_ok c')"
  by (auto simp: NewPeer_def Let_def still_open_def conns_ok_def less_SucI split: option.splits)

lemma NewPeer_Inr:
  assumes "NewPeer net conf c = (Inr h, c')" and "conns_ok c"
  shows "still_open c' = still_open c @ [h]" and "conns_ok c'" and "h \<notin> set (cn_opened c)"
proof -
  have h: "h = cn_attempts c" "c' = c\<lparr>cn_attempts := Suc h, cn_opened := cn_opened c @ [h]\<rparr>"
    using assms(1) by (auto simp: NewPeer_def Let_def split: option.splits)
  show new: "h \<notin> set (cn_opened c)" using assms(2) h(1) by (auto simp: conns_ok_def)
  show "still_open c' = still_open c @ [h]" using assms(2) h new by (auto simp: still_open_def conns_ok_def)
  show "conns_ok c'" using assms(2) h new by (auto simp: conns_ok_def)
qed

lemma Peer_Close_open:
  assumes "conns_ok c" and "h \<in> set (still_open c)"
  shows "conns_ok (snd (Peer_Close net h c))" and "still_open (snd (Peer_Close net h c)) = remove1 h (still_open c)"
proof -
  have h: "h \<in> set (cn_opened c)" "h \<notin> set (cn_closed c)" using assms(2) by (auto simp: still_open_def)
  with assms(1) show "conns_ok (snd (Peer_Close net h c))" by (auto simp: conns_ok_def Peer_Close_def)
  have "distinct (still_open c)" using assms(1) by (simp add: still_open_def conns_ok_def)
  then have "remove1 h (still_open c) = filter (\<lambda>x. x \<noteq> h) (still_open c)"
    by (simp add: distinct_remove1_removeAll removeAll_filter_not_eq eq_commute)
  then show "still_open (snd (Peer_Close net h c)) = remove1 h (still_open c)"
    by (simp add: still_open_def Peer_Close_def conj_commute)
qed

lemma still_open_distinct: "conns_ok c \<Longrightarrow> distinct (still_open c)"
  by (simp add: still_open_def conns_ok_def)

lemma still_open_bound: "conns_ok c \<Longrightarrow> h \<in> set (still_open c) \<Longrightarrow> h < cn_attempts c"
  by (auto simp: still_open_def conns_ok_def)

subsection \<open>Splitting an address\<close>

text \<open>The text before and after the last colon.\<close>

definition cut_last_colon :: "string \<Rightarrow> (string \<times> string) option" where
  "cut_last_colon s =
     (if CHR '':'' \<in> set s
      then Some (rev (tl (dropWhile (\<lambda>c. c \<noteq> CHR '':'') (rev s))), rev (takeWhile (\<lambda>c. c \<noteq> CHR '':'') (rev s)))
      else None)"

definition SplitHostPort :: "string \<Rightarrow> string option \<times> string" where
  "SplitHostPort s =
     (case cut_last_colon s of
        None \<Rightarrow> (None, ''missing port in address'')
      | Some (before, port) \<Rightarrow>
          (if hd s = CHR ''['' then
             (let inner = takeWhile (\<lambda>c. c \<noteq> CHR '']'') s; closing = length inner in
              if closing = length s then (None, ''missing bracket in address'')
              else if closing + 1 = length s then (None, ''missing port in address'')
              else if closing + 1 \<noteq> length before then
                (None, if s ! (closing + 1) = CHR '':'' then ''too many colons in address'' else ''missing port in address'')
              else if CHR ''['' \<in> set (tl s) then (None, ''unexpected opening bracket' in address'')
              else if CHR '']'' \<in> set (drop (closing + 1) s) then (None, ''unexpected closing bracket in address'')
              else (Some (tl inner), port))
           else if CHR '':'' \<in> set before then (None, ''too many colons in address'')
           else if CHR ''['' \<in> set s then (None, ''unexpected opening bracket' in address'')
           else if CHR '']'' \<in> set s then (None, ''unexpected closing bracket in address'')
           else (Some before, port)))"

lemma cut_last_colon_append:
  "CHR '':'' \<notin> set port \<Longrightarrow> cut_last_colon (before @ CHR '':'' # port) = Some (before, port)"
  by (simp add: cut_last_colon_def dropWhile_append1 takeWhile_append1 dropWhile_append takeWhile_append)

lemma FormatInt_plain: "c \<in> set (FormatInt n) \<Longrightarrow> is_digit c \<or> c = CHR ''-''"
  using FormatUint_digits[of "nat n"] FormatUint_digits[of "nat (- n)"] by (auto simp: FormatInt_def split: if_splits)

text \<open>An endpoint's address splits into its host and port, whether or not the host is bracketed.\<close>

lemma SplitHostPort_address:
  assumes "CHR ''['' \<notin> set (ep_Host e)" and "CHR '']'' \<notin> set (ep_Host e)"
  shows "SplitHostPort (Endpoint_Address e) = (Some (ep_Host e), FormatInt (ep_Port e))"
proof -
  have p: "c \<notin> set (FormatInt (ep_Port e))" if "c \<in> {CHR '':'', CHR ''['', CHR '']''}" for c
    using that FormatInt_plain[of c "ep_Port e"] by (auto simp: is_digit_def)
  show ?thesis
  proof (cases "CHR '':'' \<in> set (ep_Host e)")
    case True
    let ?h = "CHR ''['' # ep_Host e @ '']''"
    have addr: "Endpoint_Address e = ?h @ CHR '':'' # FormatInt (ep_Port e)"
      using True by (simp add: Endpoint_Address_def)
    have "takeWhile (\<lambda>c. c \<noteq> CHR '']'') (ep_Host e @ CHR '']'' # r) = ep_Host e" for r
      using assms(2) by (subst takeWhile_append2) auto
    then show ?thesis
      using assms p cut_last_colon_append[of "FormatInt (ep_Port e)" ?h]
      by (simp add: addr SplitHostPort_def Let_def)
  next
    case False
    then have addr: "Endpoint_Address e = ep_Host e @ CHR '':'' # FormatInt (ep_Port e)"
      by (simp add: Endpoint_Address_def)
    have "hd (Endpoint_Address e) \<noteq> CHR ''[''"
      using assms(1) by (cases "ep_Host e") (auto simp: addr)
    then show ?thesis
      using assms False p cut_last_colon_append[of "FormatInt (ep_Port e)" "ep_Host e"]
      by (simp add: addr SplitHostPort_def)
  qed
qed

end
