(* ===== verification/Remote_Resolution.thy ===== *)
theory Remote_Resolution
  imports Connections Endorsement_Collection
begin

section \<open>Contacts of other organizations\<close>

text \<open>
  \<open>orchestrator/contact.go\<close> and \<open>orchestrator/remote_resolver.go\<close>: the client of one remote orchestrator, the
  contacts configured statically, those a resolver service names on demand, and the combination of the two that
  endorsement collection and lifecycle propagation ask.  A contact owns one connection; the dynamic resolver keeps
  the contacts it made in a map that \<open>Close\<close> sets to nil, and storing into a nil map is a panic.  The order in
  which Go visits the map of static contacts is an argument.
\<close>

subsection \<open>A contact\<close>

record OrchestratorContact =
  oc_mspID :: string
  oc_address :: string
  oc_peer :: nat

definition newOrchestratorContact ::
  "network \<Rightarrow> RemoteOrchestratorConfig \<Rightarrow> connections \<Rightarrow> (orch_error + OrchestratorContact) \<times> connections" where
  "newOrchestratorContact net cfg c =
     (case NewPeer net (Remote_ToPeerConf cfg) c of
        (Inl e, c') \<Rightarrow> (Inl (Wrapped (''remote orchestrator '' @ rc_MspID cfg) e), c')
      | (Inr h, c') \<Rightarrow>
          (Inr \<lparr>oc_mspID = rc_MspID cfg, oc_address = Remote_Address cfg, oc_peer = h\<rparr>, c'))"

text \<open>A nil contact has no organization, no address and nothing to close.\<close>

definition Contact_MSPID :: "OrchestratorContact option \<Rightarrow> string" where
  "Contact_MSPID c = (case c of None \<Rightarrow> [] | Some x \<Rightarrow> oc_mspID x)"

definition Contact_Address :: "OrchestratorContact option \<Rightarrow> string" where
  "Contact_Address c = (case c of None \<Rightarrow> [] | Some x \<Rightarrow> oc_address x)"

definition Contact_Close ::
  "network \<Rightarrow> OrchestratorContact option \<Rightarrow> connections \<Rightarrow> orch_error option \<times> connections" where
  "Contact_Close net contact c = (case contact of None \<Rightarrow> (None, c) | Some x \<Rightarrow> Peer_Close net (oc_peer x) c)"

fun closeAll ::
  "network \<Rightarrow> OrchestratorContact list \<Rightarrow> connections \<Rightarrow> orch_error option list \<times> connections" where
  "closeAll net [] c = ([], c)"
| "closeAll net (x # xs) c =
     (let (e, c') = Contact_Close net (Some x) c; (es, c'') = closeAll net xs c' in (e # es, c''))"

text \<open>\<open>closeOrchestratorContacts\<close> and its variant for lists of candidates, over the contacts in visiting order.\<close>

definition closeOrchestratorContacts ::
  "network \<Rightarrow> OrchestratorContact list \<Rightarrow> connections \<Rightarrow> orch_error option \<times> connections" where
  "closeOrchestratorContacts net contacts c = (let (es, c') = closeAll net contacts c in (errors_Join es, c'))"

type_synonym contact_map = "(string \<times> OrchestratorContact list) list"

definition closeOrchestratorContactCandidates ::
  "network \<Rightarrow> contact_map \<Rightarrow> connections \<Rightarrow> orch_error option \<times> connections" where
  "closeOrchestratorContactCandidates net contacts c = closeOrchestratorContacts net (concat (map snd contacts)) c"

text \<open>Appending to the candidates of an organization.\<close>

fun addCandidate :: "OrchestratorContact \<Rightarrow> contact_map \<Rightarrow> contact_map" where
  "addCandidate x [] = [(oc_mspID x, [x])]"
| "addCandidate x ((m, xs) # rest) =
     (if m = oc_mspID x then (m, xs @ [x]) # rest else (m, xs) # addCandidate x rest)"

fun addContacts ::
  "network \<Rightarrow> RemoteOrchestratorConfig list \<Rightarrow> contact_map \<Rightarrow> connections \<Rightarrow> (orch_error + contact_map) \<times> connections" where
  "addContacts net [] contacts c = (Inr contacts, c)"
| "addContacts net (cfg # cfgs) contacts c =
     (case newOrchestratorContact net cfg c of
        (Inl e, c') \<Rightarrow> (Inl e, snd (closeOrchestratorContactCandidates net contacts c'))
      | (Inr x, c') \<Rightarrow> addContacts net cfgs (addCandidate x contacts) c')"

definition newOrchestratorContactCandidates ::
  "network \<Rightarrow> RemoteOrchestratorConfig list \<Rightarrow> connections \<Rightarrow> (orch_error + contact_map) \<times> connections" where
  "newOrchestratorContactCandidates net cfgs c = addContacts net cfgs [] c"

text \<open>The older constructor that allows one contact per organization.\<close>

fun addUniqueContacts ::
  "network \<Rightarrow> RemoteOrchestratorConfig list \<Rightarrow> (string \<times> OrchestratorContact) list \<Rightarrow> connections
    \<Rightarrow> (orch_error + (string \<times> OrchestratorContact) list) \<times> connections" where
  "addUniqueContacts net [] contacts c = (Inr contacts, c)"
| "addUniqueContacts net (cfg # cfgs) contacts c =
     (case newOrchestratorContact net cfg c of
        (Inl e, c') \<Rightarrow> (Inl e, snd (closeOrchestratorContacts net (map snd contacts) c'))
      | (Inr x, c') \<Rightarrow>
          (if map_of contacts (oc_mspID x) \<noteq> None
           then (Inl (Plain (''duplicate remote orchestrator msp-id '' @ oc_mspID x)),
                 snd (closeOrchestratorContacts net (map snd contacts) (snd (Contact_Close net (Some x) c'))))
           else addUniqueContacts net cfgs (contacts @ [(oc_mspID x, x)]) c'))"

definition newOrchestratorContacts ::
  "network \<Rightarrow> RemoteOrchestratorConfig list \<Rightarrow> connections
    \<Rightarrow> (orch_error + (string \<times> OrchestratorContact) list) \<times> connections" where
  "newOrchestratorContacts net cfgs c = addUniqueContacts net cfgs [] c"

subsection \<open>Execute-only endorsement at a contact\<close>

text \<open>
  \<open>cw_ProcessProposal\<close> is the gRPC call with the values of the operation and namespace headers; it also gives the
  lifecycle binding values of the response header and trailer.
\<close>

record contact_wire =
  cw_ProcessProposal :: "nat \<Rightarrow> string \<Rightarrow> string \<Rightarrow> SignedProposal
    \<Rightarrow> (orch_error + ProposalResponse option) \<times> string list \<times> string list"

text \<open>Evidence from the header, else from the trailer; unreadable evidence is only logged.\<close>

definition remoteBinding :: "string \<Rightarrow> string list \<Rightarrow> string list \<Rightarrow> LifecycleExecutionBinding option" where
  "remoteBinding mspID header trailer =
     (let read = (\<lambda>values. case lifecycleBindingFromMetadata values of Inl _ \<Rightarrow> None | Inr b \<Rightarrow> b) in
      map_option (\<lambda>b. if xb_MSPID b = [] then b\<lparr>xb_MSPID := mspID\<rparr> else b)
        (case read header of None \<Rightarrow> read trailer | found \<Rightarrow> found))"

definition Contact_EndorseOnly ::
  "proto_lib \<Rightarrow> contact_wire \<Rightarrow> OrchestratorContact option \<Rightarrow> InvocationRequest \<Rightarrow> orch_error + helperExecutionResult" where
  "Contact_EndorseOnly plib wire contact req =
     rbind (require (Plain ''remote orchestrator contact is not configured'') contact) (\<lambda>x.
     rbind (require (Plain ''remote orchestrator endorsement requires the original signed proposal'')
              (ir_ClientSignedProposal req)) (\<lambda>sprop.
     rbind (require (Plain ''unmarshal remote proposal'') (pl_Proposal plib (sp_ProposalBytes sprop))) (\<lambda>proposal.
     rbind (txIDFromProposal plib (Some proposal)) (\<lambda>txID.
     let (answer, header, trailer) = cw_ProcessProposal wire (oc_peer x) ''endorse'' (ir_Namespace req) sprop in
     rbind (map_error (Wrapped (''remote orchestrator '' @ oc_mspID x @ '' endorsement'')) answer) (\<lambda>resp.
     rbind (require (Plain (''remote orchestrator '' @ oc_mspID x @ '' returned no proposal response''))
              (case resp of None \<Rightarrow> None | Some r \<Rightarrow> map_option (Pair r) (ps_Response r))) (\<lambda>(r, response).
     Inr \<lparr>hr_Endorsement = \<lparr>en_Proposal = Some proposal, en_Responses = [Some r]\<rparr>, hr_TxID = txID,
          hr_Response = Some response, hr_Binding = remoteBinding (oc_mspID x) header trailer\<rparr>))))))"

subsection \<open>Configured contacts\<close>

definition newStaticRemoteOrchestratorResolver ::
  "network \<Rightarrow> RemoteOrchestratorConfig list \<Rightarrow> connections \<Rightarrow> (orch_error + contact_map) \<times> connections" where
  "newStaticRemoteOrchestratorResolver net cfgs c = newOrchestratorContactCandidates net cfgs c"

definition static_AvailableMSPs :: "contact_map \<Rightarrow> string list" where
  "static_AvailableMSPs contacts = map fst contacts"

definition static_remote_Resolve :: "contact_map \<Rightarrow> resolve_request \<Rightarrow> OrchestratorContact list option" where
  "static_remote_Resolve contacts req =
     (case map_of contacts (rr_TargetMSPID req) of
        None \<Rightarrow> None
      | Some xs \<Rightarrow> if xs = [] then None else Some xs)"

text \<open>The first candidate of every organization, in the order in which the map is visited.\<close>

definition lifecycleRemoteCandidates :: "string list \<Rightarrow> contact_map \<Rightarrow> OrchestratorContact list" where
  "lifecycleRemoteCandidates order contacts =
     concat (map (\<lambda>m. case map_of contacts m of Some (x # _) \<Rightarrow> [x] | _ \<Rightarrow> []) order)"

definition static_RemotePeers ::
  "string list \<Rightarrow> contact_map \<Rightarrow> resolve_request \<Rightarrow> OrchestratorContact list" where
  "static_RemotePeers order contacts req =
     filter (\<lambda>x. oc_mspID x \<noteq> rr_RequesterMSPID req) (lifecycleRemoteCandidates order contacts)"

definition static_remote_Close :: "network \<Rightarrow> contact_map \<Rightarrow> connections \<Rightarrow> orch_error option \<times> connections" where
  "static_remote_Close net contacts c = closeOrchestratorContactCandidates net contacts c"

subsection \<open>Contacts a resolver service names\<close>

record DynamicRemoteOrchestratorResolverConfig =
  dq_MSPIDs :: "string list"
  dq_Endpoint :: "Endpoint option"
  dq_TLS :: TLSConfig
  dq_ContactTLS :: TLSConfig
  dq_Timeout :: int

text \<open>What a dynamic resolver is made of; its contacts are part of \<open>remote_state\<close>.\<close>

record dynamicRemoteOrchestratorResolver =
  dy_address :: string
  dy_peer :: nat
  dy_timeout :: int
  dy_targetMSPIDs :: "string list"
  dy_contactTLS :: TLSConfig

record remote_state =
  rs_contacts :: "(string \<times> OrchestratorContact) list option"
  rs_conns :: connections

definition defaultRemoteResolverTimeout :: int where "defaultRemoteResolverTimeout = 5000000000"

definition newDynamicRemoteOrchestratorResolver ::
  "network \<Rightarrow> DynamicRemoteOrchestratorResolverConfig option \<Rightarrow> connections
    \<Rightarrow> (orch_error + dynamicRemoteOrchestratorResolver) \<times> connections" where
  "newDynamicRemoteOrchestratorResolver net config c =
     (case rbind (require (Plain ''remote-orchestrator-resolver.dynamic.endpoint is required'')
              (case config of None \<Rightarrow> None | Some cfg \<Rightarrow> map_option (Pair cfg) (dq_Endpoint cfg))) (\<lambda>(cfg, endpoint).
            if dq_MSPIDs cfg = [] then Inl (Plain ''remote-orchestrator-resolver.dynamic.msp-ids is required'')
            else Inr (cfg, Endpoint_Address endpoint)) of
        Inl e \<Rightarrow> (Inl e, c)
      | Inr (cfg, address) \<Rightarrow>
          (case NewPeer net \<lparr>pc_Address = address, pc_TLS = dq_TLS cfg\<rparr> c of
             (Inl e, c') \<Rightarrow> (Inl (Wrapped (''remote orchestrator resolver '' @ address) e), c')
           | (Inr h, c') \<Rightarrow>
               (Inr \<lparr>dy_address = address, dy_peer = h,
                  dy_timeout = (if dq_Timeout cfg \<le> 0 then defaultRemoteResolverTimeout else dq_Timeout cfg),
                  dy_targetMSPIDs = dq_MSPIDs cfg, dy_contactTLS = dq_ContactTLS cfg\<rparr>, c')))"

definition endpointFromAddress :: "string \<Rightarrow> orch_error + Endpoint" where
  "endpointFromAddress address =
     (case SplitHostPort address of
        (None, reason) \<Rightarrow> Inl (Wrapped (''invalid address '' @ address) (Plain reason))
      | (Some host, portText) \<Rightarrow>
          (case ParseInt64 portText of
             Inl _ \<Rightarrow> Inl (Plain (''invalid port in address '' @ address))
           | Inr port \<Rightarrow> Inr \<lparr>ep_Host = host, ep_Port = port\<rparr>))"

definition targetAllowed :: "dynamicRemoteOrchestratorResolver \<Rightarrow> string \<Rightarrow> bool" where
  "targetAllowed d mspID \<longleftrightarrow> mspID \<in> set (dy_targetMSPIDs d)"

fun checkCandidates :: "nat \<Rightarrow> string \<Rightarrow> ResolveCandidate list \<Rightarrow> orch_error + unit" where
  "checkCandidates i target [] = Inr ()"
| "checkCandidates i target (x # xs) =
     (if ra_Address x = []
      then Inl (Plain (''dynamic remote orchestrator resolver candidate '' @ FormatUint i @ '' missing address''))
      else if ra_MSPID x \<noteq> [] \<and> ra_MSPID x \<noteq> target
      then Inl (Plain (''dynamic remote orchestrator resolver candidate '' @ FormatUint i @ '' msp='' @ ra_MSPID x @
                 '', want '' @ target))
      else checkCandidates (i + 1) target xs)"

definition remoteOrchestratorCandidatesFromResponse ::
  "string \<Rightarrow> ResolveResponse option \<Rightarrow> orch_error + ResolveCandidate list" where
  "remoteOrchestratorCandidatesFromResponse target answer =
     (case answer of
        None \<Rightarrow> Inr []
      | Some out \<Rightarrow>
          (if rp_Candidates out = [] then
             (if rp_Address out = [] then Inr []
              else Inr [\<lparr>ra_MSPID = target, ra_InstanceID = [], ra_Address = rp_Address out, ra_TLSMode = rp_TLSMode out\<rparr>])
           else rbind (checkCandidates 0 target (rp_Candidates out)) (\<lambda>_. Inr (rp_Candidates out))))"

definition contactKey :: "string \<Rightarrow> string \<Rightarrow> string" where
  "contactKey target address = target @ CHR ''|'' # address"

text \<open>The contact for an address, from the map or made now; the lock is held from the lookup to the store.\<close>

definition cachedContact ::
  "network \<Rightarrow> dynamicRemoteOrchestratorResolver \<Rightarrow> string \<Rightarrow> string \<Rightarrow> Endpoint \<Rightarrow> remote_state
    \<Rightarrow> (orch_error + OrchestratorContact) outcome \<times> remote_state" where
  "cachedContact net d target address endpoint st =
     (let key = contactKey target address in
      case map_of (case rs_contacts st of None \<Rightarrow> [] | Some m \<Rightarrow> m) key of
        Some contact \<Rightarrow> (Returned (Inr contact), st)
      | None \<Rightarrow>
          (case newOrchestratorContact net \<lparr>rc_MspID = target, rc_Endpoint = Some endpoint, rc_TLS = dy_contactTLS d\<rparr>
                  (rs_conns st) of
             (Inl e, c) \<Rightarrow> (Returned (Inl e), st\<lparr>rs_conns := c\<rparr>)
           | (Inr contact, c) \<Rightarrow>
               (case rs_contacts st of
                  None \<Rightarrow> (Panic, st\<lparr>rs_conns := c\<rparr>)
                | Some m \<Rightarrow> (Returned (Inr contact), st\<lparr>rs_contacts := Some ((key, contact) # m), rs_conns := c\<rparr>))))"

definition contactForCandidate ::
  "network \<Rightarrow> dynamicRemoteOrchestratorResolver \<Rightarrow> string \<Rightarrow> ResolveCandidate \<Rightarrow> remote_state
    \<Rightarrow> (orch_error + OrchestratorContact) outcome \<times> remote_state" where
  "contactForCandidate net d target x st =
     (if ra_Address x = []
      then (Returned (Inl (Plain (''dynamic remote orchestrator resolver response missing address for msp '' @ target))), st)
      else if ra_MSPID x \<noteq> [] \<and> ra_MSPID x \<noteq> target
      then (Returned (Inl (Plain (''dynamic remote orchestrator resolver returned msp '' @ ra_MSPID x @
              '' for requested msp '' @ target))), st)
      else case endpointFromAddress (ra_Address x) of
        Inl e \<Rightarrow> (Returned (Inl (Wrapped ''dynamic remote orchestrator resolver response'' e)), st)
      | Inr endpoint \<Rightarrow> cachedContact net d target (ra_Address x) endpoint st)"

fun contactsForCandidates ::
  "network \<Rightarrow> dynamicRemoteOrchestratorResolver \<Rightarrow> string \<Rightarrow> ResolveCandidate list \<Rightarrow> remote_state
    \<Rightarrow> (orch_error + OrchestratorContact list) outcome \<times> remote_state" where
  "contactsForCandidates net d target [] st = (Returned (Inr []), st)"
| "contactsForCandidates net d target (x # xs) st =
     (case contactForCandidate net d target x st of
        (Unfinished, st1) \<Rightarrow> (Unfinished, st1)
      | (Panic, st1) \<Rightarrow> (Panic, st1)
      | (Returned (Inl e), st1) \<Rightarrow> (Returned (Inl e), st1)
      | (Returned (Inr contact), st1) \<Rightarrow>
          (case contactsForCandidates net d target xs st1 of
             (Returned (Inr contacts), st2) \<Rightarrow> (Returned (Inr (contact # contacts)), st2)
           | other \<Rightarrow> other))"

definition OperationRemoteOrchestrator :: string where
  "OperationRemoteOrchestrator = ''REMOTE_ORCHESTRATOR_resolution''"

definition resolveQuery :: "resolve_request \<Rightarrow> ResolveRequest" where
  "resolveQuery req =
     \<lparr>rq_Operation = OperationRemoteOrchestrator, rq_MSPID = [], rq_RequesterMSP = rr_RequesterMSPID req,
      rq_TargetMSP = rr_TargetMSPID req, rq_ChannelID = rr_ChannelID req, rq_Namespace = rr_Namespace req,
      rq_Name = rr_ChaincodeName req, rq_Version = rr_ChaincodeVersion req, rq_Sequence = rr_Sequence req\<rparr>"

text \<open>\<open>ask\<close> is one call of the resolver service; no contacts is \<open>None\<close>.\<close>

definition dynamic_Resolve ::
  "network \<Rightarrow> resolver_call \<Rightarrow> dynamicRemoteOrchestratorResolver \<Rightarrow> resolve_request \<Rightarrow> remote_state
    \<Rightarrow> (orch_error + OrchestratorContact list option) outcome \<times> remote_state" where
  "dynamic_Resolve net ask d req st =
     (let target = rr_TargetMSPID req in
      if \<not> targetAllowed d target then (Returned (Inr None), st)
      else case ask (resolveQuery req) of
        Inl e \<Rightarrow> (Returned (Inl (Wrapped ''dynamic remote orchestrator resolver grpc'' e)), st)
      | Inr None \<Rightarrow> (Returned (Inr None), st)
      | Inr (Some out) \<Rightarrow>
          (if \<not> rp_Found out then (Returned (Inr None), st)
           else case remoteOrchestratorCandidatesFromResponse target (Some out) of
             Inl e \<Rightarrow> (Returned (Inl e), st)
           | Inr candidates \<Rightarrow>
               (if candidates = [] then (Returned (Inr None), st)
                else case contactsForCandidates net d target candidates st of
                  (Unfinished, st1) \<Rightarrow> (Unfinished, st1)
                | (Panic, st1) \<Rightarrow> (Panic, st1)
                | (Returned (Inl e), st1) \<Rightarrow> (Returned (Inl e), st1)
                | (Returned (Inr contacts), st1) \<Rightarrow> (Returned (Inr (Some contacts)), st1))))"

fun dynamicPeers ::
  "network \<Rightarrow> resolver_call \<Rightarrow> dynamicRemoteOrchestratorResolver \<Rightarrow> resolve_request \<Rightarrow> string list \<Rightarrow> remote_state
    \<Rightarrow> (orch_error + OrchestratorContact list) outcome \<times> remote_state" where
  "dynamicPeers net ask d req [] st = (Returned (Inr []), st)"
| "dynamicPeers net ask d req (m # ms) st =
     (if m = rr_RequesterMSPID req then dynamicPeers net ask d req ms st
      else case dynamic_Resolve net ask d (req\<lparr>rr_TargetMSPID := m\<rparr>) st of
        (Unfinished, st1) \<Rightarrow> (Unfinished, st1)
      | (Panic, st1) \<Rightarrow> (Panic, st1)
      | (Returned (Inl e), st1) \<Rightarrow> (Returned (Inl e), st1)
      | (Returned (Inr found), st1) \<Rightarrow>
          (case dynamicPeers net ask d req ms st1 of
             (Returned (Inr peers), st2) \<Rightarrow>
               (Returned (Inr ((case found of Some (x # _) \<Rightarrow> [x] | _ \<Rightarrow> []) @ peers)), st2)
           | other \<Rightarrow> other))"

definition dynamic_RemotePeers ::
  "network \<Rightarrow> resolver_call \<Rightarrow> dynamicRemoteOrchestratorResolver \<Rightarrow> resolve_request \<Rightarrow> remote_state
    \<Rightarrow> (orch_error + OrchestratorContact list) outcome \<times> remote_state" where
  "dynamic_RemotePeers net ask d req st = dynamicPeers net ask d req (dy_targetMSPIDs d) st"

text \<open>Closing forgets the contacts first; a failure to close the resolver's own connection is dropped.\<close>

definition dynamic_Close ::
  "network \<Rightarrow> dynamicRemoteOrchestratorResolver \<Rightarrow> remote_state \<Rightarrow> orch_error option \<times> remote_state" where
  "dynamic_Close net d st =
     (let contacts = (case rs_contacts st of None \<Rightarrow> [] | Some m \<Rightarrow> map snd m);
          (_, c1) = Peer_Close net (dy_peer d) (rs_conns st);
          (e, c2) = closeOrchestratorContacts net contacts c1
      in (e, st\<lparr>rs_contacts := None, rs_conns := c2\<rparr>))"

subsection \<open>Both together\<close>

record RemoteOrchestratorResolverConfig =
  rx_Static :: "RemoteOrchestratorConfig list"
  rx_Dynamic :: "DynamicRemoteOrchestratorResolverConfig option"

record remoteOrchestratorResolvers =
  ro_static :: "contact_map option"
  ro_dynamic :: "dynamicRemoteOrchestratorResolver option"

text \<open>Without any configuration the result is a static resolver that knows nobody.\<close>

definition newRemoteOrchestratorResolver ::
  "network \<Rightarrow> RemoteOrchestratorResolverConfig \<Rightarrow> RemoteOrchestratorConfig list \<Rightarrow> connections
    \<Rightarrow> (orch_error + remoteOrchestratorResolvers) \<times> remote_state" where
  "newRemoteOrchestratorResolver net cfg legacy c =
     (let entries = legacy @ rx_Static cfg; fresh = (\<lambda>c'. \<lparr>rs_contacts = Some [], rs_conns = c'\<rparr>) in
      case (if entries = [] then (Inr None, c)
            else case newStaticRemoteOrchestratorResolver net entries c of
              (Inl e, c1) \<Rightarrow> (Inl e, c1) | (Inr m, c1) \<Rightarrow> (Inr (Some m), c1)) of
        (Inl e, c1) \<Rightarrow> (Inl e, fresh c1)
      | (Inr static, c1) \<Rightarrow>
          (case rx_Dynamic cfg of
             None \<Rightarrow> (Inr \<lparr>ro_static = Some (case static of None \<Rightarrow> [] | Some m \<Rightarrow> m), ro_dynamic = None\<rparr>, fresh c1)
           | Some dcfg \<Rightarrow>
               (case newDynamicRemoteOrchestratorResolver net (Some dcfg) c1 of
                  (Inl e, c2) \<Rightarrow>
                    (Inl e, fresh (case static of None \<Rightarrow> c2 | Some m \<Rightarrow> snd (static_remote_Close net m c2)))
                | (Inr d, c2) \<Rightarrow> (Inr \<lparr>ro_static = static, ro_dynamic = Some d\<rparr>, fresh c2))))"

definition AvailableMSPs :: "remoteOrchestratorResolvers \<Rightarrow> string list" where
  "AvailableMSPs r = remdups
     ((case ro_static r of None \<Rightarrow> [] | Some m \<Rightarrow> static_AvailableMSPs m) @
      (case ro_dynamic r of None \<Rightarrow> [] | Some d \<Rightarrow> dy_targetMSPIDs d))"

definition remote_Resolve ::
  "network \<Rightarrow> resolver_call \<Rightarrow> remoteOrchestratorResolvers \<Rightarrow> resolve_request \<Rightarrow> remote_state
    \<Rightarrow> (orch_error + OrchestratorContact list option) outcome \<times> remote_state" where
  "remote_Resolve net ask r req st =
     (case (case ro_static r of None \<Rightarrow> None | Some m \<Rightarrow> static_remote_Resolve m req) of
        Some contacts \<Rightarrow> (Returned (Inr (Some contacts)), st)
      | None \<Rightarrow>
          (case ro_dynamic r of
             None \<Rightarrow> (Returned (Inr None), st)
           | Some d \<Rightarrow> dynamic_Resolve net ask d req st))"

definition remote_RemotePeers ::
  "network \<Rightarrow> resolver_call \<Rightarrow> remoteOrchestratorResolvers \<Rightarrow> string list \<Rightarrow> resolve_request \<Rightarrow> remote_state
    \<Rightarrow> (orch_error + OrchestratorContact list) outcome \<times> remote_state" where
  "remote_RemotePeers net ask r order req st =
     (let static = (case ro_static r of None \<Rightarrow> [] | Some m \<Rightarrow> static_RemotePeers order m req) in
      case ro_dynamic r of
        None \<Rightarrow> (Returned (Inr static), st)
      | Some d \<Rightarrow>
          (case dynamic_RemotePeers net ask d req st of
             (Returned (Inr peers), st1) \<Rightarrow>
               (Returned (Inr (static @ filter (\<lambda>x. oc_mspID x \<notin> oc_mspID ` set static) peers)), st1)
           | other \<Rightarrow> other))"

definition remote_Close ::
  "network \<Rightarrow> remoteOrchestratorResolvers \<Rightarrow> remote_state \<Rightarrow> orch_error option \<times> remote_state" where
  "remote_Close net r st =
     (let (e, st1) = (case ro_static r of
            None \<Rightarrow> (None, st)
          | Some m \<Rightarrow> (let (e, c) = static_remote_Close net m (rs_conns st) in (e, st\<lparr>rs_conns := c\<rparr>)))
      in case ro_dynamic r of
           None \<Rightarrow> (e, st1)
         | Some d \<Rightarrow> (let (e', st2) = dynamic_Close net d st1 in (if e = None then e' else e, st2)))"

text \<open>\<open>Service.RemotePeers\<close>: what lifecycle propagation asks; the requester defaults to the own organization.\<close>

definition Service_RemotePeers ::
  "network \<Rightarrow> resolver_call \<Rightarrow> Config \<Rightarrow> remoteOrchestratorResolvers option \<Rightarrow> string list \<Rightarrow> string
    \<Rightarrow> ChaincodeDefinition \<Rightarrow> remote_state \<Rightarrow> (orch_error + OrchestratorContact list) outcome \<times> remote_state" where
  "Service_RemotePeers net ask cfg remotes order requester def st =
     (case remotes of
        None \<Rightarrow> (Returned (Inr []), st)
      | Some r \<Rightarrow>
          remote_RemotePeers net ask r order
            \<lparr>rr_RequesterMSPID = (if requester = [] then (case cf_MspID cfg of None \<Rightarrow> [] | Some m \<Rightarrow> m) else requester),
             rr_TargetMSPID = [], rr_ChannelID = cf_ChannelID cfg, rr_Namespace = [],
             rr_ChaincodeName = cd_Name def, rr_ChaincodeVersion = cd_Version def, rr_Sequence = cd_Sequence def\<rparr> st)"

end
