(* ===== verification/Remote_Guarantees.thy ===== *)
theory Remote_Guarantees
  imports Remote_Resolution "HOL-Library.Multiset" "HOL-Library.Sublist"
begin

section \<open>Contacts belong to the organization asked for, and none leaks\<close>

text \<open>
  What the remote resolvers keep: a contact handed out for an organization is one of that organization with an
  open connection, asking again does not open a second connection to the same address, the peers of lifecycle
  propagation are one per organization, and closing gives back exactly the connections that were made.
  The connections that others hold are the multiset \<open>base\<close>.
\<close>

subsection \<open>Connections owned\<close>

definition owned :: "connections \<Rightarrow> nat multiset \<Rightarrow> bool" where
  "owned c hs \<longleftrightarrow> conns_ok c \<and> mset (still_open c) = hs"

lemma owned_start [simp]: "owned noConnections {#}"
  by (simp add: owned_def)

lemma owned_dial:
  assumes "owned c hs" and "NewPeer net conf c = (r, c')"
  shows "(\<forall>h. r = Inr h \<longrightarrow> owned c' (add_mset h hs)) \<and> (\<forall>e. r = Inl e \<longrightarrow> owned c' hs)"
proof (cases r)
  case (Inl e)
  then show ?thesis using assms NewPeer_Inl[of net conf c e c'] by (simp add: owned_def)
next
  case (Inr h)
  then show ?thesis using assms NewPeer_Inr[of net conf c h c'] by (simp add: owned_def)
qed

lemma owned_open: "owned c hs \<Longrightarrow> h \<in># hs \<Longrightarrow> h \<in> set (still_open c)"
  by (auto simp: owned_def)

lemma owned_close: "owned c (add_mset h hs) \<Longrightarrow> owned (snd (Peer_Close net h c)) hs"
  using Peer_Close_open[of c h net] owned_open[of c "add_mset h hs" h] by (simp add: owned_def)

lemma owned_closeAll:
  "owned c (hs + mset (map oc_peer xs)) \<Longrightarrow> owned (snd (closeAll net xs c)) hs"
proof (induction xs arbitrary: c)
  case (Cons x xs)
  have "owned (snd (Peer_Close net (oc_peer x) c)) (hs + mset (map oc_peer xs))"
    using Cons.prems by (intro owned_close) simp
  then show ?case using Cons.IH by (simp add: Contact_Close_def split_beta)
qed simp

lemma owned_closeContacts:
  "owned c (hs + mset (map oc_peer xs)) \<Longrightarrow> owned (snd (closeOrchestratorContacts net xs c)) hs"
  using owned_closeAll by (simp add: closeOrchestratorContacts_def split_beta)

subsection \<open>Configured contacts\<close>

definition static_ok :: "contact_map \<Rightarrow> bool" where
  "static_ok m \<longleftrightarrow> distinct (map fst m) \<and> (\<forall>(k, xs) \<in> set m. xs \<noteq> [] \<and> (\<forall>x \<in> set xs. oc_mspID x = k))"

definition static_peers :: "contact_map \<Rightarrow> nat list" where
  "static_peers m = map oc_peer (concat (map snd m))"

lemma addCandidate_keys: "fst ` set (addCandidate x m) = insert (oc_mspID x) (fst ` set m)"
proof (induction m)
  case (Cons a m)
  then show ?case by (cases a; cases "fst a = oc_mspID x") (auto simp add: insert_commute)
qed simp

lemma addCandidate_peers: "mset (static_peers (addCandidate x m)) = add_mset (oc_peer x) (mset (static_peers m))"
  by (induction m) (auto simp: static_peers_def)

lemma addCandidate_ok: "static_ok m \<Longrightarrow> static_ok (addCandidate x m)"
proof (induction m)
  case (Cons a m)
  then have "static_ok m" by (auto simp: static_ok_def)
  with Cons show ?case
    using addCandidate_keys[of x m] by (cases a) (auto simp: static_ok_def)
qed (simp add: static_ok_def)

lemma addContacts_owned:
  assumes "addContacts net cfgs m c = (r, c')" and "owned c (base + mset (static_peers m))" and "static_ok m"
  shows "(\<forall>e. r = Inl e \<longrightarrow> owned c' base) \<and>
    (\<forall>m'. r = Inr m' \<longrightarrow> static_ok m' \<and> owned c' (base + mset (static_peers m')))"
  using assms
proof (induction cfgs arbitrary: m c)
  case (Cons cfg cfgs)
  obtain r1 c1 where n: "NewPeer net (Remote_ToPeerConf cfg) c = (r1, c1)" by fastforce
  note o = owned_dial[OF Cons.prems(2) n]
  show ?case
  proof (cases r1)
    case (Inl e)
    then have r: "r = Inl (Wrapped (''remote orchestrator '' @ rc_MspID cfg) e)"
      "c' = snd (closeOrchestratorContacts net (concat (map snd m)) c1)"
      using Cons.prems(1) n by (auto simp: newOrchestratorContact_def closeOrchestratorContactCandidates_def)
    have "owned c1 (base + mset (map oc_peer (concat (map snd m))))" using o Inl by (simp add: static_peers_def)
    then show ?thesis using r owned_closeContacts by blast
  next
    case (Inr h)
    let ?x = "\<lparr>oc_mspID = rc_MspID cfg, oc_address = Remote_Address cfg, oc_peer = h\<rparr>"
    have rest: "addContacts net cfgs (addCandidate ?x m) c1 = (r, c')"
      using Cons.prems(1) n Inr by (simp add: newOrchestratorContact_def)
    have "owned c1 (base + mset (static_peers (addCandidate ?x m)))" using o Inr by (simp add: addCandidate_peers)
    then show ?thesis using Cons.IH[OF rest _ addCandidate_ok[OF Cons.prems(3)]] by blast
  qed
qed auto

subsection \<open>Contacts made on demand\<close>

definition cache :: "remote_state \<Rightarrow> (string \<times> OrchestratorContact) list" where
  "cache st = (case rs_contacts st of None \<Rightarrow> [] | Some m \<Rightarrow> m)"

definition cache_ok :: "string list \<Rightarrow> (string \<times> OrchestratorContact) list \<Rightarrow> bool" where
  "cache_ok targets m \<longleftrightarrow> distinct (map fst m) \<and>
     (\<forall>(key, x) \<in> set m. oc_mspID x \<in> set targets \<and> (\<exists>a. key = contactKey (oc_mspID x) a))"

text \<open>No organization has the separator of the keys in its name.\<close>

definition plain_names :: "string list \<Rightarrow> bool" where
  "plain_names targets \<longleftrightarrow> (\<forall>t \<in> set targets. CHR ''|'' \<notin> set t)"

lemma contactKey_target:
  assumes "CHR ''|'' \<notin> set t" and "CHR ''|'' \<notin> set t'" and "contactKey t a = contactKey t' a'"
  shows "t = t'"
proof -
  have "takeWhile (\<lambda>c. c \<noteq> CHR ''|'') (contactKey s b) = s" if "CHR ''|'' \<notin> set s" for s b
    using that by (simp add: contactKey_def takeWhile_append)
  then show ?thesis using assms by metis
qed

definition dynamic_ok :: "nat multiset \<Rightarrow> string list \<Rightarrow> remote_state \<Rightarrow> bool" where
  "dynamic_ok base targets st \<longleftrightarrow>
     owned (rs_conns st) (base + mset (map (oc_peer \<circ> snd) (cache st))) \<and> cache_ok targets (cache st)"

text \<open>What a call that returns keeps; only a closed resolver panics.\<close>

definition keeps :: "nat multiset \<Rightarrow> string list \<Rightarrow> remote_state \<Rightarrow> 'a outcome \<Rightarrow> remote_state \<Rightarrow> bool" where
  "keeps base targets st r st' \<longleftrightarrow>
     (case r of
        Unfinished \<Rightarrow> False
      | Panic \<Rightarrow> rs_contacts st = None
      | Returned x \<Rightarrow> dynamic_ok base targets st' \<and> set (cache st) \<subseteq> set (cache st') \<and>
          (rs_contacts st' = None \<longleftrightarrow> rs_contacts st = None))"

lemma keeps_here [simp]: "keeps base targets st (Returned x) st \<longleftrightarrow> dynamic_ok base targets st"
  by (simp add: keeps_def)

lemma pool_keeps_trans:
  assumes "keeps base targets st (Returned x) st'" and "keeps base targets st' r st''"
  shows "keeps base targets st r st''"
  using assms by (auto simp: keeps_def split: outcome.splits)

lemma cachedContact_keeps:
  assumes "cachedContact net d target address endpoint st = (r, st')" and "dynamic_ok base (dy_targetMSPIDs d) st"
    and "target \<in> set (dy_targetMSPIDs d)" and "plain_names (dy_targetMSPIDs d)"
  shows "keeps base (dy_targetMSPIDs d) st r st' \<and>
    (\<forall>contact. r = Returned (Inr contact) \<longrightarrow> oc_mspID contact = target \<and> contact \<in> snd ` set (cache st'))"
proof -
  let ?key = "contactKey target address"
  let ?cfg = "\<lparr>rc_MspID = target, rc_Endpoint = Some endpoint, rc_TLS = dy_contactTLS d\<rparr>"
  note def = assms(1)[unfolded cachedContact_def cache_def[symmetric] Let_def]
  have o: "owned (rs_conns st) (base + mset (map (oc_peer \<circ> snd) (cache st)))" and ck: "cache_ok (dy_targetMSPIDs d) (cache st)"
    using assms(2) by (simp_all add: dynamic_ok_def)
  show ?thesis
  proof (cases "map_of (cache st) ?key")
    case (Some contact)
    then have mem: "(?key, contact) \<in> set (cache st)" by (rule map_of_SomeD)
    then obtain a where a: "oc_mspID contact \<in> set (dy_targetMSPIDs d)" "?key = contactKey (oc_mspID contact) a"
      using ck by (auto simp: cache_ok_def)
    then have "target = oc_mspID contact"
      using assms(3,4) contactKey_target[of target "oc_mspID contact" address a] by (simp add: plain_names_def)
    then show ?thesis using def Some assms(2) mem by force
  next
    case new: None
    obtain r1 c1 where n: "NewPeer net (Remote_ToPeerConf ?cfg) (rs_conns st) = (r1, c1)" by fastforce
    note o1 = owned_dial[OF o n]
    show ?thesis
    proof (cases r1)
      case (Inl e)
      then have "r = Returned (Inl (Wrapped (''remote orchestrator '' @ target) e))" "st' = st\<lparr>rs_conns := c1\<rparr>"
        using def new n by (simp_all add: newOrchestratorContact_def)
      then show ?thesis using o1 Inl ck by (simp add: keeps_def dynamic_ok_def cache_def)
    next
      case (Inr h)
      let ?x = "\<lparr>oc_mspID = target, oc_address = Remote_Address ?cfg, oc_peer = h\<rparr>"
      show ?thesis
      proof (cases "rs_contacts st")
        case None
        then have "r = Panic" using def new n Inr by (simp add: newOrchestratorContact_def)
        then show ?thesis using None by (simp add: keeps_def)
      next
        case (Some m)
        then have r: "r = Returned (Inr ?x)" "st' = st\<lparr>rs_contacts := Some ((?key, ?x) # m), rs_conns := c1\<rparr>"
          using def new n Inr by (simp_all add: newOrchestratorContact_def)
        have m: "cache st = m" using Some by (simp add: cache_def)
        have "cache_ok (dy_targetMSPIDs d) ((?key, ?x) # m)"
          using ck new assms(3) by (auto simp: m cache_ok_def map_of_eq_None_iff)
        moreover have "owned c1 (base + mset (map (oc_peer \<circ> snd) ((?key, ?x) # m)))" using o1 Inr by (simp add: m)
        ultimately show ?thesis using r Some m by (auto simp: keeps_def dynamic_ok_def cache_def)
      qed
    qed
  qed
qed

lemma contactForCandidate_keeps:
  assumes "contactForCandidate net d target x st = (r, st')" and "dynamic_ok base (dy_targetMSPIDs d) st"
    and "target \<in> set (dy_targetMSPIDs d)" and "plain_names (dy_targetMSPIDs d)"
  shows "keeps base (dy_targetMSPIDs d) st r st' \<and>
    (\<forall>contact. r = Returned (Inr contact) \<longrightarrow> oc_mspID contact = target \<and> contact \<in> snd ` set (cache st'))"
proof (cases "\<exists>endpoint. cachedContact net d target (ra_Address x) endpoint st = (r, st')")
  case True
  then show ?thesis using cachedContact_keeps[OF _ assms(2-4)] by blast
next
  case False
  then have "(\<exists>e. r = Returned (Inl e)) \<and> st' = st"
    using assms(1) by (auto simp: contactForCandidate_def split: if_splits sum.splits)
  then show ?thesis using assms(2) by auto
qed

lemma contactsForCandidates_keeps:
  assumes "contactsForCandidates net d target xs st = (r, st')" and "dynamic_ok base (dy_targetMSPIDs d) st"
    and "target \<in> set (dy_targetMSPIDs d)" and "plain_names (dy_targetMSPIDs d)"
  shows "keeps base (dy_targetMSPIDs d) st r st' \<and> (\<forall>contacts. r = Returned (Inr contacts) \<longrightarrow>
    length contacts = length xs \<and> (\<forall>c \<in> set contacts. oc_mspID c = target \<and> c \<in> snd ` set (cache st')))"
  using assms(1,2)
proof (induction xs arbitrary: st r st')
  case (Cons x xs)
  obtain r1 st1 where one: "contactForCandidate net d target x st = (r1, st1)" by fastforce
  note k1 = contactForCandidate_keeps[OF one Cons.prems(2) assms(3,4)]
  show ?case
  proof (cases "\<exists>contact. r1 = Returned (Inr contact)")
    case False
    have "(r1 = Unfinished \<and> r = Unfinished \<or> r1 = Panic \<and> r = Panic \<or> (\<exists>e. r1 = Returned (Inl e) \<and> r = Returned (Inl e)))
        \<and> st' = st1"
    proof (cases r1)
      case (Returned y)
      then show ?thesis using Cons.prems(1) one False by (cases y) simp_all
    qed (use Cons.prems(1) one in simp_all)
    then show ?thesis using k1 by (auto simp: keeps_def)
  next
    case True
    then obtain contact where c: "r1 = Returned (Inr contact)" by blast
    obtain r2 st2 where two: "contactsForCandidates net d target xs st1 = (r2, st2)" by fastforce
    have ok1: "dynamic_ok base (dy_targetMSPIDs d) st1" using k1 c by (simp add: keeps_def)
    note k2 = Cons.IH[OF two ok1]
    have k01: "keeps base (dy_targetMSPIDs d) st r1 st1" using k1 by simp
    have k: "keeps base (dy_targetMSPIDs d) st r2 st2" by (rule pool_keeps_trans[OF k01[unfolded c] conjunct1[OF k2]])
    have "(\<exists>cs. r2 = Returned (Inr cs) \<and> r = Returned (Inr (contact # cs))) \<or> (\<nexists>cs. r2 = Returned (Inr cs)) \<and> r = r2"
      and st': "st' = st2"
    proof -
      have "(r, st') = (case (r2, st2) of (Returned (Inr cs), st2) \<Rightarrow> (Returned (Inr (contact # cs)), st2) | other \<Rightarrow> other)"
        using Cons.prems(1) one c two by simp
      then show "(\<exists>cs. r2 = Returned (Inr cs) \<and> r = Returned (Inr (contact # cs))) \<or> (\<nexists>cs. r2 = Returned (Inr cs)) \<and> r = r2"
        and "st' = st2"
        by (cases r2; simp split: sum.splits)+
    qed
    then show ?thesis
    proof (elim disjE exE conjE)
      fix cs assume r: "r2 = Returned (Inr cs)" "r = Returned (Inr (contact # cs))"
      have "contact \<in> snd ` set (cache st1)" "set (cache st1) \<subseteq> set (cache st2)"
        using k1 k2 c r(1) by (simp_all add: keeps_def)
      then have "contact \<in> snd ` set (cache st2)" by blast
      then show ?thesis using k k1 k2 c r by (simp add: st' keeps_def)
    next
      assume "\<nexists>cs. r2 = Returned (Inr cs)" "r = r2"
      then show ?thesis using k by (auto simp: st')
    qed
  qed
qed auto

lemma dynamic_Resolve_keeps:
  assumes "dynamic_Resolve net ask d req st = (r, st')" and "dynamic_ok base (dy_targetMSPIDs d) st"
    and "plain_names (dy_targetMSPIDs d)"
  shows "keeps base (dy_targetMSPIDs d) st r st' \<and> (\<forall>contacts. r = Returned (Inr (Some contacts)) \<longrightarrow> contacts \<noteq> [] \<and>
    (\<forall>c \<in> set contacts. oc_mspID c = rr_TargetMSPID req \<and> c \<in> snd ` set (cache st')) \<and> targetAllowed d (rr_TargetMSPID req))"
proof (cases "\<exists>candidates. targetAllowed d (rr_TargetMSPID req) \<and> candidates \<noteq> [] \<and>
    (r, st') = (case contactsForCandidates net d (rr_TargetMSPID req) candidates st of
        (Unfinished, st1) \<Rightarrow> (Unfinished, st1)
      | (Panic, st1) \<Rightarrow> (Panic, st1)
      | (Returned (Inl e), st1) \<Rightarrow> (Returned (Inl e), st1)
      | (Returned (Inr contacts), st1) \<Rightarrow> (Returned (Inr (Some contacts)), st1))")
  case False
  have "st' = st \<and> (\<exists>x. r = Returned x \<and> (\<nexists>cs. x = Inr (Some cs)))"
    using assms(1) False unfolding dynamic_Resolve_def Let_def
    by (auto split: if_splits sum.splits option.splits)
  then show ?thesis using assms(2) by auto
next
  case True
  then obtain candidates where t: "targetAllowed d (rr_TargetMSPID req)" "candidates \<noteq> []"
    and run: "(r, st') = (case contactsForCandidates net d (rr_TargetMSPID req) candidates st of
        (Unfinished, st1) \<Rightarrow> (Unfinished, st1)
      | (Panic, st1) \<Rightarrow> (Panic, st1)
      | (Returned (Inl e), st1) \<Rightarrow> (Returned (Inl e), st1)
      | (Returned (Inr contacts), st1) \<Rightarrow> (Returned (Inr (Some contacts)), st1))" by blast
  obtain r1 st1 where one: "contactsForCandidates net d (rr_TargetMSPID req) candidates st = (r1, st1)" by fastforce
  have "rr_TargetMSPID req \<in> set (dy_targetMSPIDs d)" using t(1) by (simp add: targetAllowed_def)
  note k = contactsForCandidates_keeps[OF one assms(2) this assms(3)]
  show ?thesis
  proof (cases r1)
    case (Returned y)
    then show ?thesis using run one k t by (cases y) (auto simp: keeps_def)
  qed (use run one k in \<open>simp_all add: keeps_def\<close>)
qed

lemma dynamicPeers_keeps:
  assumes "dynamicPeers net ask d req ms st = (r, st')" and "dynamic_ok base (dy_targetMSPIDs d) st"
    and "plain_names (dy_targetMSPIDs d)"
  shows "keeps base (dy_targetMSPIDs d) st r st' \<and> (\<forall>peers. r = Returned (Inr peers) \<longrightarrow>
    subseq (map oc_mspID peers) (filter (\<lambda>m. m \<noteq> rr_RequesterMSPID req) ms) \<and>
    (\<forall>c \<in> set peers. c \<in> snd ` set (cache st')))"
  using assms(1,2)
proof (induction ms arbitrary: st r st')
  case (Cons m ms)
  show ?case
  proof (cases "m = rr_RequesterMSPID req")
    case True
    then show ?thesis using Cons by simp
  next
    case other: False
    obtain r1 st1 where one: "dynamic_Resolve net ask d (req\<lparr>rr_TargetMSPID := m\<rparr>) st = (r1, st1)" by fastforce
    note k1 = dynamic_Resolve_keeps[OF one Cons.prems(2) assms(3)]
    show ?thesis
    proof (cases "\<exists>found. r1 = Returned (Inr found)")
      case False
      have "(r1 = Unfinished \<and> r = Unfinished \<or> r1 = Panic \<and> r = Panic \<or> (\<exists>e. r1 = Returned (Inl e) \<and> r = Returned (Inl e)))
          \<and> st' = st1"
      proof (cases r1)
        case (Returned y)
        then show ?thesis using Cons.prems(1) one other False by (cases y) simp_all
      qed (use Cons.prems(1) one other in simp_all)
      then show ?thesis using k1 by (auto simp: keeps_def)
    next
      case True
      then obtain found where c: "r1 = Returned (Inr found)" by blast
      let ?first = "case found of Some (x # _) \<Rightarrow> [x] | _ \<Rightarrow> []"
      obtain r2 st2 where two: "dynamicPeers net ask d req ms st1 = (r2, st2)" by fastforce
      have ok1: "dynamic_ok base (dy_targetMSPIDs d) st1" using k1 c by (simp add: keeps_def)
      note k2 = Cons.IH[OF two ok1]
      have k01: "keeps base (dy_targetMSPIDs d) st r1 st1" using k1 by simp
      have k: "keeps base (dy_targetMSPIDs d) st r2 st2" by (rule pool_keeps_trans[OF k01[unfolded c] conjunct1[OF k2]])
      have first: "map oc_mspID ?first = [m] \<or> ?first = []" "\<forall>x \<in> set ?first. x \<in> snd ` set (cache st1)"
        using k1 c by (auto split: option.splits list.splits)
      have "(r, st') = (case (r2, st2) of (Returned (Inr peers), st2) \<Rightarrow> (Returned (Inr (?first @ peers)), st2) | other \<Rightarrow> other)"
        using Cons.prems(1) one c two other by simp
      then have "(\<exists>ps. r2 = Returned (Inr ps) \<and> r = Returned (Inr (?first @ ps))) \<or> (\<nexists>ps. r2 = Returned (Inr ps)) \<and> r = r2"
        and st': "st' = st2"
        by (cases r2; simp split: sum.splits)+
      then show ?thesis
      proof (elim disjE exE conjE)
        fix ps assume r: "r2 = Returned (Inr ps)" "r = Returned (Inr (?first @ ps))"
        have sub: "subseq (map oc_mspID ps) (filter (\<lambda>m. m \<noteq> rr_RequesterMSPID req) ms)" using k2 r(1) by simp
        have "subseq (map oc_mspID (?first @ ps)) (m # filter (\<lambda>m. m \<noteq> rr_RequesterMSPID req) ms)"
          using first(1) sub by (elim disjE) (simp_all add: list_emb_Cons)
        moreover have "set (cache st1) \<subseteq> set (cache st2)" using k2 r(1) by (simp add: keeps_def)
        then have "\<forall>x \<in> set (?first @ ps). x \<in> snd ` set (cache st2)" using first(2) k2 r(1) by fastforce
        moreover have "keeps base (dy_targetMSPIDs d) st r st'" using k r by (simp add: st' keeps_def)
        ultimately show ?thesis using r(2) other unfolding st' by simp
      next
        assume "\<nexists>ps. r2 = Returned (Inr ps)" "r = r2"
        then show ?thesis using k by (auto simp: st')
      qed
    qed
  qed
qed auto

subsection \<open>The resolvers of a service\<close>

definition connected :: "nat multiset \<Rightarrow> remoteOrchestratorResolvers \<Rightarrow> remote_state \<Rightarrow> bool" where
  "connected base r st \<longleftrightarrow>
     (let held = (case ro_static r of None \<Rightarrow> {#} | Some m \<Rightarrow> mset (static_peers m)) in
      (case ro_static r of None \<Rightarrow> True | Some m \<Rightarrow> static_ok m) \<and>
      (case ro_dynamic r of
         None \<Rightarrow> owned (rs_conns st) (base + held)
       | Some d \<Rightarrow> dynamic_ok (add_mset (dy_peer d) (base + held)) (dy_targetMSPIDs d) st))"

text \<open>A resolver as it was made, after any calls that returned.\<close>

inductive remote_reachable ::
  "network \<Rightarrow> nat multiset \<Rightarrow> remoteOrchestratorResolvers \<Rightarrow> remote_state \<Rightarrow> bool" for net base r where
  made: "owned c base \<Longrightarrow> newRemoteOrchestratorResolver net cfg legacy c = (Inr r, st) \<Longrightarrow> remote_reachable net base r st"
| resolved: "remote_reachable net base r st \<Longrightarrow> remote_Resolve net ask r req st = (Returned x, st') \<Longrightarrow>
    remote_reachable net base r st'"
| listed: "remote_reachable net base r st \<Longrightarrow> remote_RemotePeers net ask r order req st = (Returned y, st') \<Longrightarrow>
    remote_reachable net base r st'"

definition plain_targets :: "remoteOrchestratorResolvers \<Rightarrow> bool" where
  "plain_targets r \<longleftrightarrow> (case ro_dynamic r of None \<Rightarrow> True | Some d \<Rightarrow> plain_names (dy_targetMSPIDs d))"

lemma new_static_owned:
  assumes "newStaticRemoteOrchestratorResolver net cfgs c = (res, c')" and "owned c base"
  shows "(\<forall>e. res = Inl e \<longrightarrow> owned c' base) \<and> (\<forall>m. res = Inr m \<longrightarrow> static_ok m \<and> owned c' (base + mset (static_peers m)))"
  using addContacts_owned[of net cfgs "[]" c res c' base] assms
  by (simp add: newStaticRemoteOrchestratorResolver_def newOrchestratorContactCandidates_def static_ok_def static_peers_def)

lemma new_dynamic_owned:
  assumes "newDynamicRemoteOrchestratorResolver net config c = (res, c')" and "owned c base"
  shows "(\<forall>e. res = Inl e \<longrightarrow> owned c' base) \<and> (\<forall>d. res = Inr d \<longrightarrow> owned c' (add_mset (dy_peer d) base))"
proof -
  obtain v :: "orch_error + DynamicRemoteOrchestratorResolverConfig \<times> string" where v: "(case v of
        Inl e \<Rightarrow> (Inl e, c)
      | Inr (cfg, address) \<Rightarrow>
          (case NewPeer net \<lparr>pc_Address = address, pc_TLS = dq_TLS cfg\<rparr> c of
             (Inl e, c') \<Rightarrow> (Inl (Wrapped (''remote orchestrator resolver '' @ address) e), c')
           | (Inr h, c') \<Rightarrow> (Inr \<lparr>dy_address = address, dy_peer = h,
                dy_timeout = (if dq_Timeout cfg \<le> 0 then defaultRemoteResolverTimeout else dq_Timeout cfg),
                dy_targetMSPIDs = dq_MSPIDs cfg, dy_contactTLS = dq_ContactTLS cfg\<rparr>, c'))) = (res, c')"
    by (rule that, rule assms(1)[unfolded newDynamicRemoteOrchestratorResolver_def])
  show ?thesis
  proof (cases v)
    case (Inr p)
    obtain cfg address where p: "p = (cfg, address)" by fastforce
    obtain r1 c1 where n: "NewPeer net \<lparr>pc_Address = address, pc_TLS = dq_TLS cfg\<rparr> c = (r1, c1)" by fastforce
    show ?thesis using v Inr p n owned_dial[OF assms(2) n] by (cases r1) auto
  qed (use v assms(2) in auto)
qed

text \<open>A construction that fails leaves no connection of its own open.\<close>

lemma new_remote_connected:
  assumes "newRemoteOrchestratorResolver net cfg legacy c = (res, st)" and "owned c base"
  shows "(\<forall>e. res = Inl e \<longrightarrow> owned (rs_conns st) base) \<and> (\<forall>r. res = Inr r \<longrightarrow> connected base r st)"
proof -
  let ?first = "if legacy @ rx_Static cfg = [] then (Inr None, c)
    else case newStaticRemoteOrchestratorResolver net (legacy @ rx_Static cfg) c of
      (Inl e, c1) \<Rightarrow> (Inl e, c1) | (Inr m, c1) \<Rightarrow> (Inr (Some m), c1)"
  obtain r1 c1 where f: "?first = (r1, c1)" by fastforce
  have o1: "(\<forall>e. r1 = Inl e \<longrightarrow> owned c1 base) \<and> (\<forall>m. r1 = Inr (Some m) \<longrightarrow> static_ok m \<and> owned c1 (base + mset (static_peers m)))
      \<and> (r1 = Inr None \<longrightarrow> owned c1 base)"
  proof (cases "legacy @ rx_Static cfg = []")
    case False
    obtain r0 c0 where n: "newStaticRemoteOrchestratorResolver net (legacy @ rx_Static cfg) c = (r0, c0)" by fastforce
    show ?thesis using f False n new_static_owned[OF n assms(2)] by (cases r0) auto
  qed (use f assms(2) in auto)
  note run = assms(1)[unfolded newRemoteOrchestratorResolver_def Let_def f]
  show ?thesis
  proof (cases r1)
    case (Inl e)
    then show ?thesis using run o1 by auto
  next
    case (Inr static)
    let ?held = "case static of None \<Rightarrow> {#} | Some m \<Rightarrow> mset (static_peers m)"
    have held: "owned c1 (base + ?held)" "\<And>m. static = Some m \<Longrightarrow> static_ok m"
      using o1 Inr by (auto split: option.splits)
    show ?thesis
    proof (cases "rx_Dynamic cfg")
      case None
      then show ?thesis using run Inr held
        by (cases static) (auto simp: connected_def Let_def static_ok_def static_peers_def)
    next
      case (Some dcfg)
      obtain r2 c2 where d: "newDynamicRemoteOrchestratorResolver net (Some dcfg) c1 = (r2, c2)" by fastforce
      note o2 = new_dynamic_owned[OF d held(1)]
      show ?thesis
      proof (cases r2)
        case (Inl e)
        have "owned (snd (static_remote_Close net m c2)) base" if "static = Some m" for m
          using o2 Inl that owned_closeContacts[of c2 base "concat (map snd m)" net]
          by (simp add: static_remote_Close_def closeOrchestratorContactCandidates_def static_peers_def)
        then show ?thesis using run Inr Some d Inl o2 by (cases static) auto
      next
        case d': (Inr d')
        then have "owned c2 (add_mset (dy_peer d') (base + ?held))" using o2 by blast
        moreover have "res = Inr \<lparr>ro_static = static, ro_dynamic = Some d'\<rparr>" "st = \<lparr>rs_contacts = Some [], rs_conns = c2\<rparr>"
          using run Inr Some d d' by simp_all
        ultimately show ?thesis using held(2)
          by (auto simp: connected_def Let_def dynamic_ok_def cache_def cache_ok_def split: option.splits)
      qed
    qed
  qed
qed

lemma connected_resolve:
  assumes "remote_Resolve net ask r req st = (res, st')" and "connected base r st" and "plain_targets r"
  shows "(res = Panic \<longrightarrow> rs_contacts st = None) \<and> res \<noteq> Unfinished \<and>
    (\<forall>x. res = Returned x \<longrightarrow> connected base r st' \<and> (rs_contacts st' = None \<longleftrightarrow> rs_contacts st = None) \<and>
      (\<forall>contacts. x = Inr (Some contacts) \<longrightarrow> contacts \<noteq> [] \<and> (\<forall>c \<in> set contacts.
         oc_mspID c = rr_TargetMSPID req \<and> oc_peer c \<in> set (still_open (rs_conns st')))))"
proof (cases "case ro_static r of None \<Rightarrow> None | Some m \<Rightarrow> static_remote_Resolve m req")
  case (Some contacts)
  then obtain m where m: "ro_static r = Some m" "map_of m (rr_TargetMSPID req) = Some contacts" "contacts \<noteq> []"
    by (auto simp: static_remote_Resolve_def split: option.splits if_splits)
  have res: "res = Returned (Inr (Some contacts))" "st' = st" using assms(1) Some by (simp_all add: remote_Resolve_def)
  have mem: "(rr_TargetMSPID req, contacts) \<in> set m" using m(2) by (rule map_of_SomeD)
  have ok: "static_ok m" using assms(2) m(1) by (simp add: connected_def Let_def)
  have "oc_peer c \<in> set (still_open (rs_conns st))" if "c \<in> set contacts" for c
  proof -
    have "oc_peer c \<in> set (static_peers m)" using mem that by (force simp: static_peers_def)
    then have "\<exists>hs. owned (rs_conns st) hs \<and> oc_peer c \<in># hs" using assms(2) m(1)
      by (auto simp: connected_def Let_def dynamic_ok_def split: option.splits)
    then show ?thesis using owned_open by blast
  qed
  then show ?thesis using res assms(2) m(3) ok mem by (auto simp: static_ok_def)
next
  case None
  show ?thesis
  proof (cases "ro_dynamic r")
    case dyn: None
    then show ?thesis using assms(1,2) None by (auto simp: remote_Resolve_def)
  next
    case (Some d)
    let ?b = "add_mset (dy_peer d) (base + (case ro_static r of None \<Rightarrow> {#} | Some m \<Rightarrow> mset (static_peers m)))"
    have run: "dynamic_Resolve net ask d req st = (res, st')" using assms(1) None Some by (simp add: remote_Resolve_def)
    have ok: "dynamic_ok ?b (dy_targetMSPIDs d) st" "plain_names (dy_targetMSPIDs d)"
      using assms(2,3) Some by (simp_all add: connected_def Let_def plain_targets_def)
    note k = dynamic_Resolve_keeps[OF run ok]
    have op: "oc_peer c \<in> set (still_open (rs_conns st'))"
      if "dynamic_ok ?b (dy_targetMSPIDs d) st'" "c \<in> snd ` set (cache st')" for c
      using that owned_open[of "rs_conns st'" _ "oc_peer c"] by (force simp: dynamic_ok_def)
    show ?thesis
    proof (cases res)
      case (Returned x)
      then have d': "dynamic_ok ?b (dy_targetMSPIDs d) st'" "rs_contacts st' = None \<longleftrightarrow> rs_contacts st = None"
        using k by (simp_all add: keeps_def)
      then have "connected base r st'" using assms(2) Some by (simp add: connected_def Let_def)
      then show ?thesis using k op[OF d'(1)] d'(2) Returned by auto
    qed (use k in \<open>simp_all add: keeps_def\<close>)
  qed
qed

lemma connected_peers:
  assumes "remote_RemotePeers net ask r order req st = (res, st')" and "connected base r st" and "plain_targets r"
  shows "(res = Panic \<longrightarrow> rs_contacts st = None) \<and> res \<noteq> Unfinished \<and>
    (\<forall>x. res = Returned x \<longrightarrow> connected base r st' \<and> (rs_contacts st' = None \<longleftrightarrow> rs_contacts st = None) \<and>
      (\<forall>peers. x = Inr peers \<longrightarrow> (\<exists>static dynamic. peers = static @ filter (\<lambda>x. oc_mspID x \<notin> oc_mspID ` set static) dynamic \<and>
         static = (case ro_static r of None \<Rightarrow> [] | Some m \<Rightarrow> static_RemotePeers order m req) \<and>
         (case ro_dynamic r of None \<Rightarrow> dynamic = [] | Some d \<Rightarrow>
            subseq (map oc_mspID dynamic) (filter (\<lambda>m. m \<noteq> rr_RequesterMSPID req) (dy_targetMSPIDs d))))))"
proof (cases "ro_dynamic r")
  case None
  then show ?thesis using assms(1,2) by (auto simp: remote_RemotePeers_def Let_def)
next
  case (Some d)
  let ?static = "case ro_static r of None \<Rightarrow> [] | Some m \<Rightarrow> static_RemotePeers order m req"
  let ?b = "add_mset (dy_peer d) (base + (case ro_static r of None \<Rightarrow> {#} | Some m \<Rightarrow> mset (static_peers m)))"
  obtain r1 st1 where run: "dynamicPeers net ask d req (dy_targetMSPIDs d) st = (r1, st1)" by fastforce
  have ok: "dynamic_ok ?b (dy_targetMSPIDs d) st" "plain_names (dy_targetMSPIDs d)"
    using assms(2,3) Some by (simp_all add: connected_def Let_def plain_targets_def)
  note k = dynamicPeers_keeps[OF run ok]
  have "(res, st') = (case (r1, st1) of
      (Returned (Inr peers), st1) \<Rightarrow> (Returned (Inr (?static @ filter (\<lambda>x. oc_mspID x \<notin> oc_mspID ` set ?static) peers)), st1)
    | other \<Rightarrow> other)"
    using assms(1) Some run by (simp add: remote_RemotePeers_def dynamic_RemotePeers_def Let_def)
  then have st': "st' = st1" and res: "(\<exists>ps. r1 = Returned (Inr ps) \<and>
      res = Returned (Inr (?static @ filter (\<lambda>x. oc_mspID x \<notin> oc_mspID ` set ?static) ps))) \<or>
      (\<nexists>ps. r1 = Returned (Inr ps)) \<and> res = r1"
    by (cases r1; simp split: sum.splits)+
  have con: "connected base r st'" "rs_contacts st' = None \<longleftrightarrow> rs_contacts st = None" if fin: "res = Returned x" for x
  proof -
    obtain y where "r1 = Returned y" using res fin by auto
    then have "dynamic_ok ?b (dy_targetMSPIDs d) st'" "rs_contacts st' = None \<longleftrightarrow> rs_contacts st = None"
      using k st' by (simp_all add: keeps_def)
    then show "connected base r st'" "rs_contacts st' = None \<longleftrightarrow> rs_contacts st = None"
      using assms(2) Some by (simp_all add: connected_def Let_def)
  qed
  show ?thesis
  proof (cases "\<exists>ps. r1 = Returned (Inr ps)")
    case True
    then obtain ps where ps: "r1 = Returned (Inr ps)"
      "res = Returned (Inr (?static @ filter (\<lambda>x. oc_mspID x \<notin> oc_mspID ` set ?static) ps))" using res by auto
    then show ?thesis using con k Some by auto
  next
    case False
    then have "res = r1" using res by blast
    then show ?thesis using con k False by (auto simp: keeps_def split: outcome.splits)
  qed
qed

lemma reachable_connected:
  assumes "remote_reachable net base r st" and "plain_targets r"
  shows "connected base r st \<and> rs_contacts st \<noteq> None"
  using assms(1)
proof induction
  case (made c cfg legacy st)
  have "rs_contacts st \<noteq> None" using made(2)
    by (auto simp: newRemoteOrchestratorResolver_def Let_def split: sum.splits option.splits prod.splits if_splits)
  then show ?case using new_remote_connected[OF made(2,1)] by blast
next
  case (resolved st ask req x st')
  then show ?case using connected_resolve[OF resolved(2) conjunct1[OF resolved(3)] assms(2)] by simp
next
  case (listed st ask order req y st')
  then show ?case using connected_peers[OF listed(2) conjunct1[OF listed(3)] assms(2)] by simp
qed

text \<open>Closing gives back every connection the resolvers made and no other.\<close>

lemma connected_close:
  assumes "connected base r st" and "remote_Close net r st = (e, st')"
  shows "owned (rs_conns st') base"
proof -
  have static: "owned (snd (static_remote_Close net m c)) hs" if "owned c (hs + mset (static_peers m))" for m c hs
    using that owned_closeContacts[of c hs "concat (map snd m)" net]
    by (simp add: static_remote_Close_def closeOrchestratorContactCandidates_def static_peers_def)
  have dynamic: "owned (rs_conns (snd (dynamic_Close net d s))) hs"
    if "owned (rs_conns s) (add_mset (dy_peer d) hs + mset (map (oc_peer \<circ> snd) (cache s)))" for d s hs
  proof -
    have "owned (snd (Peer_Close net (dy_peer d) (rs_conns s))) (hs + mset (map oc_peer (map snd (cache s))))"
      using that by (intro owned_close) (simp add: comp_def)
    from owned_closeContacts[OF this, of net] show ?thesis
      by (auto simp: dynamic_Close_def Let_def split_beta cache_def split: option.splits)
  qed
  show ?thesis
  proof (cases "ro_static r")
    case None
    show ?thesis
    proof (cases "ro_dynamic r")
      case dyn: None
      then show ?thesis using assms None by (simp add: connected_def remote_Close_def)
    next
      case (Some d)
      have "owned (rs_conns st) (add_mset (dy_peer d) base + mset (map (oc_peer \<circ> snd) (cache st)))"
        using assms(1) None Some by (simp add: connected_def Let_def dynamic_ok_def)
      from dynamic[OF this] show ?thesis using assms(2) None Some by (simp add: remote_Close_def Let_def split_beta)
    qed
  next
    case (Some m)
    let ?s = "st\<lparr>rs_conns := snd (static_remote_Close net m (rs_conns st))\<rparr>"
    show ?thesis
    proof (cases "ro_dynamic r")
      case dyn: None
      then show ?thesis using assms Some static by (auto simp: connected_def remote_Close_def Let_def split_beta)
    next
      case dyn: (Some d)
      have "owned (rs_conns st) (add_mset (dy_peer d) base + mset (map (oc_peer \<circ> snd) (cache st)) + mset (static_peers m))"
        using assms(1) Some dyn by (simp add: connected_def Let_def dynamic_ok_def ac_simps)
      from static[OF this]
      have "owned (rs_conns ?s) (add_mset (dy_peer d) base + mset (map (oc_peer \<circ> snd) (cache ?s)))"
        by (simp add: cache_def)
      from dynamic[OF this] show ?thesis using assms(2) Some dyn
        by (auto simp: remote_Close_def Let_def split_beta)
    qed
  qed
qed

subsection \<open>What callers may rely on\<close>

lemma endpoint_of_address:
  assumes "CHR ''['' \<notin> set (ep_Host e)" and "CHR '']'' \<notin> set (ep_Host e)" and "is_i64 (ep_Port e)"
  shows "endpointFromAddress (Endpoint_Address e) = Inr e"
  using SplitHostPort_address[OF assms(1,2)] assms(3) by (simp add: endpointFromAddress_def ParseInt_Format)

text \<open>C35: asking the remote resolvers for an organization never panics before they are closed and always ends; the
  contacts it gives, if any, are of that organization and have an open connection, whatever the resolver service
  answered in this and in earlier calls, provided no configured organization has a vertical bar in its name.\<close>

theorem remote_contacts_belong:
  assumes "remote_reachable net base r st" and "plain_targets r" and "remote_Resolve net ask r req st = (res, st')"
  shows "\<exists>x. res = Returned x \<and> remote_reachable net base r st' \<and>
    (\<forall>contacts. x = Inr (Some contacts) \<longrightarrow> contacts \<noteq> [] \<and>
       (\<forall>c \<in> set contacts. oc_mspID c = rr_TargetMSPID req \<and> oc_peer c \<in> set (still_open (rs_conns st'))))"
proof -
  have c: "connected base r st" "rs_contacts st \<noteq> None" using reachable_connected[OF assms(1,2)] by simp_all
  note k = connected_resolve[OF assms(3) c(1) assms(2)]
  obtain x where x: "res = Returned x" using k c(2) by (cases res) auto
  have "remote_reachable net base r st'" using remote_reachable.resolved[OF assms(1)] assms(3) x by blast
  then show ?thesis using k x by blast
qed

lemma append_new:
  assumes "distinct (map f xs)" and "a \<notin> f ` set xs" and "distinct (map f ys) \<and> a \<notin> f ` set ys"
  shows "distinct (map f (xs @ filter (\<lambda>y. f y \<notin> f ` set xs) ys)) \<and>
    a \<notin> f ` set (xs @ filter (\<lambda>y. f y \<notin> f ` set xs) ys) \<and> set xs \<subseteq> set (xs @ filter (\<lambda>y. f y \<notin> f ` set xs) ys)"
  using assms by (auto simp: distinct_map_filter) (metis imageI)

lemma candidates_first:
  assumes "static_ok m" and "x \<in> set (lifecycleRemoteCandidates order m)"
  shows "oc_mspID x \<in> set order \<and> (\<exists>xs. map_of m (oc_mspID x) = Some (x # xs))"
proof -
  obtain k xs where k: "k \<in> set order" "map_of m k = Some (x # xs)"
    using assms(2) by (fastforce simp: lifecycleRemoteCandidates_def split: option.splits list.splits dest: sym)
  then have "oc_mspID x = k" using assms(1) map_of_SomeD[OF k(2)] by (auto simp: static_ok_def)
  then show ?thesis using k by blast
qed

lemma candidates_distinct:
  assumes "static_ok m" and "distinct order"
  shows "distinct (map oc_mspID (lifecycleRemoteCandidates order m))"
  using assms(2)
proof (induction order)
  case (Cons k order)
  let ?first = "case map_of m k of Some (x # _) \<Rightarrow> [x] | _ \<Rightarrow> []"
  have l: "lifecycleRemoteCandidates (k # order) m = ?first @ lifecycleRemoteCandidates order m"
    by (simp add: lifecycleRemoteCandidates_def)
  have "map oc_mspID ?first = [k] \<or> ?first = []"
  proof (cases "map_of m k")
    case (Some xs)
    then show ?thesis using map_of_SomeD[OF Some] assms(1) by (auto simp: static_ok_def split: list.splits)
  qed simp
  moreover have "k \<notin> oc_mspID ` set (lifecycleRemoteCandidates order m)"
    using candidates_first[OF assms(1), of _ order] Cons.prems by auto
  ultimately show ?case using Cons unfolding l by (elim disjE) auto
qed (simp add: lifecycleRemoteCandidates_def)

text \<open>The peers that lifecycle propagation and readiness checks are given are one per organization, never the
  requester, and the first configured contact of every other organization that has one, when the organizations
  discovered on demand are configured without repetition.\<close>

theorem remote_peers_distinct:
  assumes "remote_reachable net base r st" and "plain_targets r" and "distinct order"
    and "\<And>d. ro_dynamic r = Some d \<Longrightarrow> distinct (dy_targetMSPIDs d)"
    and "remote_RemotePeers net ask r order req st = (res, st')"
  shows "\<exists>x. res = Returned x \<and> (\<forall>peers. x = Inr peers \<longrightarrow>
    distinct (map oc_mspID peers) \<and> rr_RequesterMSPID req \<notin> oc_mspID ` set peers \<and>
    (\<forall>m k c cs. ro_static r = Some m \<and> k \<in> set order \<and> k \<noteq> rr_RequesterMSPID req \<and> map_of m k = Some (c # cs) \<longrightarrow>
       c \<in> set peers))"
proof -
  have c: "connected base r st" "rs_contacts st \<noteq> None" using reachable_connected[OF assms(1,2)] by simp_all
  note k = connected_peers[OF assms(5) c(1) assms(2)]
  obtain x where x: "res = Returned x" using k c(2) by (cases res) auto
  let ?static = "case ro_static r of None \<Rightarrow> [] | Some m \<Rightarrow> static_RemotePeers order m req"
  have sok: "static_ok m" if "ro_static r = Some m" for m using c(1) that by (simp add: connected_def Let_def)
  have static: "distinct (map oc_mspID ?static)" "rr_RequesterMSPID req \<notin> oc_mspID ` set ?static"
    using sok candidates_distinct[OF _ assms(3)] by (auto simp: static_RemotePeers_def distinct_map_filter split: option.splits)
  have first: "y \<in> set ?static" if "ro_static r = Some m" "k \<in> set order" "k \<noteq> rr_RequesterMSPID req"
    "map_of m k = Some (y # ys)" for m k y ys
  proof -
    have "oc_mspID y = k" using sok[OF that(1)] map_of_SomeD[OF that(4)] by (auto simp: static_ok_def)
    then show ?thesis using that by (force simp: static_RemotePeers_def lifecycleRemoteCandidates_def)
  qed
  have "distinct (map oc_mspID peers) \<and> rr_RequesterMSPID req \<notin> oc_mspID ` set peers \<and> set ?static \<subseteq> set peers"
    if px: "x = Inr peers" for peers
  proof -
    obtain dynamic where p: "peers = ?static @ filter (\<lambda>x. oc_mspID x \<notin> oc_mspID ` set ?static) dynamic"
      and d: "case ro_dynamic r of None \<Rightarrow> dynamic = [] | Some d \<Rightarrow>
        subseq (map oc_mspID dynamic) (filter (\<lambda>m. m \<noteq> rr_RequesterMSPID req) (dy_targetMSPIDs d))"
      using k x px by blast
    have "distinct (map oc_mspID dynamic) \<and> rr_RequesterMSPID req \<notin> oc_mspID ` set dynamic"
    proof (cases "ro_dynamic r")
      case (Some d')
      then have s: "subseq (map oc_mspID dynamic) (filter (\<lambda>m. m \<noteq> rr_RequesterMSPID req) (dy_targetMSPIDs d'))" using d by simp
      then have "set (map oc_mspID dynamic) \<subseteq> set (filter (\<lambda>m. m \<noteq> rr_RequesterMSPID req) (dy_targetMSPIDs d'))"
        using list_emb_set[OF s] by (metis subsetI)
      moreover have "distinct (map oc_mspID dynamic)" using s assms(4)[OF Some] by (metis distinct_filter distinct_nthsI subseq_conv_nths)
      ultimately show ?thesis by auto
    qed (use d in simp)
    then show ?thesis using static unfolding p by (intro append_new) simp_all
  qed
  then show ?thesis using x first by blast
qed

text \<open>C36: constructing the remote resolvers either fails and leaves no connection of its own open, or succeeds;
  closing them after any calls closes every connection they made, each once, and no other.\<close>

theorem remote_connections_returned:
  assumes "owned c base" and "newRemoteOrchestratorResolver net cfg legacy c = (res, st)"
  shows "(\<forall>e. res = Inl e \<longrightarrow> owned (rs_conns st) base) \<and>
    (\<forall>r st1 e st2. res = Inr r \<and> plain_targets r \<and> remote_reachable net base r st1 \<and> remote_Close net r st1 = (e, st2) \<longrightarrow>
       owned (rs_conns st2) base \<and> distinct (cn_closed (rs_conns st2)))"
proof (intro conjI allI impI)
  show "owned (rs_conns st) base" if "res = Inl e" for e using that new_remote_connected[OF assms(2,1)] by blast
next
  fix r st1 e st2
  assume a: "res = Inr r \<and> plain_targets r \<and> remote_reachable net base r st1 \<and> remote_Close net r st1 = (e, st2)"
  then have "connected base r st1" using reachable_connected by blast
  then show "owned (rs_conns st2) base" using connected_close a by blast
  then show "distinct (cn_closed (rs_conns st2))" by (simp add: owned_def conns_ok_def)
qed

subsection \<open>One organization configured, one discovered\<close>

definition open_network :: network where
  "open_network = \<lparr>nw_dial = (\<lambda>_ _. None), nw_close = (\<lambda>_. None)\<rparr>"

definition no_tls :: TLSConfig where
  "no_tls = \<lparr>tl_Mode = [], tl_CertPath = [], tl_KeyPath = [], tl_CACertPaths = [], tl_ServerName = []\<rparr>"

definition two_orgs :: RemoteOrchestratorResolverConfig where
  "two_orgs = \<lparr>rx_Static = [\<lparr>rc_MspID = ''Org2'', rc_Endpoint = Some \<lparr>ep_Host = ''h'', ep_Port = 1\<rparr>, rc_TLS = no_tls\<rparr>],
     rx_Dynamic = Some \<lparr>dq_MSPIDs = [''Org3''], dq_Endpoint = Some \<lparr>ep_Host = ''r'', ep_Port = 9\<rparr>, dq_TLS = no_tls,
       dq_ContactTLS = no_tls, dq_Timeout = 0\<rparr>\<rparr>"

definition names_org3 :: resolver_call where
  "names_org3 = (\<lambda>_. Inr (Some \<lparr>rp_Found = True, rp_Address = ''o:7'', rp_TLSMode = [], rp_PackageID = [], rp_Sequence = 0,
     rp_Candidates = []\<rparr>))"

definition ask_org3 :: resolve_request where
  "ask_org3 = \<lparr>rr_RequesterMSPID = ''Org1'', rr_TargetMSPID = ''Org3'', rr_ChannelID = ''ch'', rr_Namespace = ''ns'',
     rr_ChaincodeName = ''cc'', rr_ChaincodeVersion = ''1'', rr_Sequence = 1\<rparr>"

definition two_resolvers :: remoteOrchestratorResolvers where
  "two_resolvers = \<lparr>ro_static = Some [(''Org2'', [\<lparr>oc_mspID = ''Org2'', oc_address = ''h:1'', oc_peer = 0\<rparr>])],
     ro_dynamic = Some \<lparr>dy_address = ''r:9'', dy_peer = 1, dy_timeout = 5000000000, dy_targetMSPIDs = [''Org3''],
       dy_contactTLS = no_tls\<rparr>\<rparr>"

definition two_start :: remote_state where
  "two_start = \<lparr>rs_contacts = Some [], rs_conns = \<lparr>cn_attempts = 2, cn_opened = [0, 1], cn_closed = []\<rparr>\<rparr>"

definition org3 :: OrchestratorContact where
  "org3 = \<lparr>oc_mspID = ''Org3'', oc_address = ''o:7'', oc_peer = 2\<rparr>"

definition two_later :: remote_state where
  "two_later = \<lparr>rs_contacts = Some [(''Org3|o:7'', org3)], rs_conns = \<lparr>cn_attempts = 3, cn_opened = [0, 1, 2], cn_closed = []\<rparr>\<rparr>"

lemma two_runs:
  "newRemoteOrchestratorResolver open_network two_orgs [] noConnections = (Inr two_resolvers, two_start)"
  "remote_Resolve open_network names_org3 two_resolvers ask_org3 two_start = (Returned (Inr (Some [org3])), two_later)"
  "remote_RemotePeers open_network names_org3 two_resolvers [''Org2''] ask_org3 two_start =
     (Returned (Inr [\<lparr>oc_mspID = ''Org2'', oc_address = ''h:1'', oc_peer = 0\<rparr>, org3]), two_later)"
proof -
  have a: "Endpoint_Address \<lparr>ep_Host = ''h'', ep_Port = 1\<rparr> = ''h:1''" "Endpoint_Address \<lparr>ep_Host = ''r'', ep_Port = 9\<rparr> = ''r:9''"
    "Endpoint_Address \<lparr>ep_Host = ''o'', ep_Port = 7\<rparr> = ''o:7''" by code_simp+
  have e: "endpointFromAddress ''o:7'' = Inr \<lparr>ep_Host = ''o'', ep_Port = 7\<rparr>"
    using endpoint_of_address[of "\<lparr>ep_Host = ''o'', ep_Port = 7\<rparr>"] a(3) by (simp add: is_i64_def min_i64_def max_i64_def)
  show "newRemoteOrchestratorResolver open_network two_orgs [] noConnections = (Inr two_resolvers, two_start)"
    by (simp add: newRemoteOrchestratorResolver_def two_orgs_def newStaticRemoteOrchestratorResolver_def
        newOrchestratorContactCandidates_def newOrchestratorContact_def NewPeer_def open_network_def noConnections_def
        newDynamicRemoteOrchestratorResolver_def Remote_Address_def a two_resolvers_def two_start_def
        defaultRemoteResolverTimeout_def)
  have r: "dynamic_Resolve open_network names_org3 (the (ro_dynamic two_resolvers)) ask_org3 two_start =
      (Returned (Inr (Some [org3])), two_later)"
    by (simp add: dynamic_Resolve_def Let_def targetAllowed_def names_org3_def ask_org3_def two_resolvers_def
        remoteOrchestratorCandidatesFromResponse_def contactForCandidate_def e cachedContact_def two_start_def contactKey_def
        newOrchestratorContact_def NewPeer_def open_network_def Remote_Address_def a org3_def two_later_def)
  then show "remote_Resolve open_network names_org3 two_resolvers ask_org3 two_start = (Returned (Inr (Some [org3])), two_later)"
    by (simp add: remote_Resolve_def static_remote_Resolve_def two_resolvers_def ask_org3_def)
  have "ask_org3\<lparr>rr_TargetMSPID := ''Org3''\<rparr> = ask_org3" by (simp add: ask_org3_def)
  with r show "remote_RemotePeers open_network names_org3 two_resolvers [''Org2''] ask_org3 two_start =
     (Returned (Inr [\<lparr>oc_mspID = ''Org2'', oc_address = ''h:1'', oc_peer = 0\<rparr>, org3]), two_later)"
    by (simp add: remote_RemotePeers_def Let_def dynamic_RemotePeers_def static_RemotePeers_def lifecycleRemoteCandidates_def
        two_resolvers_def) (simp add: ask_org3_def org3_def)
qed

lemma two_reachable: "remote_reachable open_network {#} two_resolvers two_start" "plain_targets two_resolvers"
  by (rule remote_reachable.made[OF owned_start two_runs(1)])
    (simp add: plain_targets_def plain_names_def two_resolvers_def)

theorem remote_contacts_belong_witness:
  "remote_Resolve open_network names_org3 two_resolvers ask_org3 two_start = (Returned (Inr (Some [org3])), two_later) \<and>
   oc_mspID org3 = rr_TargetMSPID ask_org3 \<and> oc_peer org3 \<in> set (still_open (rs_conns two_later))"
  using remote_contacts_belong[OF two_reachable two_runs(2)] two_runs(2) by simp

theorem remote_peers_distinct_witness:
  "\<exists>peers. remote_RemotePeers open_network names_org3 two_resolvers [''Org2''] ask_org3 two_start =
     (Returned (Inr peers), two_later) \<and> distinct (map oc_mspID peers) \<and> length peers = 2"
proof -
  have "distinct (dy_targetMSPIDs d)" if "ro_dynamic two_resolvers = Some d" for d
    using that by (auto simp: two_resolvers_def)
  from remote_peers_distinct[OF two_reachable _ this two_runs(3)] show ?thesis using two_runs(3) by auto
qed

theorem remote_connections_returned_witness:
  "\<exists>e st. remote_Close open_network two_resolvers two_later = (e, st) \<and> owned (rs_conns st) {#}"
proof -
  have "remote_reachable open_network {#} two_resolvers two_later"
    by (rule remote_reachable.resolved[OF two_reachable(1) two_runs(2)])
  then show ?thesis using remote_connections_returned[OF owned_start two_runs(1)] two_reachable(2)
    by (cases "remote_Close open_network two_resolvers two_later") blast
qed

end
