(* ===== verification/Service_Wiring.thy ===== *)
theory Service_Wiring
  imports Remote_Resolution Gateway_Service
begin

section \<open>Starting and stopping an orchestrator\<close>

text \<open>
  \<open>NewWithLoggers\<close>, \<open>Run\<close>'s counterpart \<open>Close\<close> and the constructors they call: the order in which
  \<open>orchestrator/service.go\<close> checks its configuration, opens its connections and replays the ledger, and what it
  gives back when a later step fails.  Connections are counted as in the theory of connections; loggers, the gRPC
  server and the health service are not part of it.
\<close>

subsection \<open>The surroundings\<close>

text \<open>
  \<open>ue_signer\<close> is \<open>identity.SignerFromMSP\<close> for the configured directory and the MSP it is given, and then the
  serialization of the identity; \<open>ue_fabric\<close> the submitter the SDK makes for the plain Fabric protocol;
  \<open>ue_rows\<close> and \<open>ue_client\<close> the query and resolver clients of a connection; \<open>ue_clock\<close> the times the two
  checks of the lifecycle authorization read.
\<close>

record 'id startup_env =
  ue_msp :: "'id msp_lib"
  ue_net :: network
  ue_signer :: "string \<Rightarrow> orch_error + (orch_error + bytes)"
  ue_fabric :: "connections \<Rightarrow> (orch_error + nat) \<times> connections"
  ue_rows :: "nat \<Rightarrow> row_query"
  ue_client :: "nat \<Rightarrow> resolver_call"
  ue_clock :: "nat \<Rightarrow> int"
  ue_ctx :: ctx
  ue_stamp :: string

subsection \<open>Admission of the own identity\<close>

text \<open>The steps before the first connection.\<close>

definition startupIdentity ::
  "'id startup_env \<Rightarrow> Config \<Rightarrow> orch_error + ('id proposalVerifier \<times> 'id Authorizer \<times> bytes \<times> string)" where
  "startupIdentity env cfg =
     (let lib = ue_msp env in
      rbind (guard (Config_Validate cfg = []) (Joined (map Plain (Config_Validate cfg)))) (\<lambda>_.
      rbind (map_error (\<lambda>_. Plain ''configure proposal authentication'') (newProposalVerifier lib (cf_ProposalAuth cfg))) (\<lambda>vr.
      rbind (require (Plain ''identity is required'') (cf_MspID cfg)) (\<lambda>mspID.
      rbind (map_error (Wrapped ''load identity'') (ue_signer env mspID)) (\<lambda>serialize.
      rbind (map_error (\<lambda>_. Plain ''configure lifecycle authorization'')
        (NewAuthorizer lib (vr_trust vr) (cf_ChannelID cfg) mspID (cf_LifecycleAuth cfg) (ue_clock env 0))) (\<lambda>auth.
      rbind serialize (\<lambda>creator.
      rbind (map_error (\<lambda>_. Plain ''validate orchestrator'') (ValidateOrchestrator lib auth creator (ue_clock env 1))) (\<lambda>_.
      Inr (vr, auth, creator, mspID)))))))))"

subsection \<open>Constructors\<close>

definition newShimConnector :: "Config \<Rightarrow> orch_error + Connector option" where
  "newShimConnector cfg =
     (case cc_Endpoint (cf_ChaincodeSvc cfg) of
        None \<Rightarrow> Inr None
      | Some _ \<Rightarrow> rbind (map_error (Wrapped ''create shim connector'')
          (NewConnector (ChaincodeService_Address (cf_ChaincodeSvc cfg)))) (\<lambda>k. Inr (Some k)))"

text \<open>
  \<open>newChaincodeConnectionResolver\<close> with the connection its dynamic part opens; the handle is \<open>None\<close> when it
  opened none.
\<close>

definition openChaincodeResolver ::
  "network \<Rightarrow> (nat \<Rightarrow> resolver_call) \<Rightarrow> ChaincodeResolverConfig \<Rightarrow> connections
    \<Rightarrow> (orch_error + chaincodeConnectionResolvers option \<times> nat option) \<times> connections" where
  "openChaincodeResolver net client cfg c =
     (case (if rv_Static cfg = [] then Inr None
            else rbind (newStaticChaincodeResolver (rv_Static cfg)) (\<lambda>s. Inr (Some s))) of
        Inl e \<Rightarrow> (Inl e, c)
      | Inr static \<Rightarrow>
          (case rv_Dynamic cfg of
             None \<Rightarrow> (Inr (if static = None then None else Some \<lparr>ck_static = static, ck_dynamic = None\<rparr>, None), c)
           | Some d \<Rightarrow>
               (case dc_Endpoint d of
                  None \<Rightarrow> (Inl (Plain ''chaincode-resolver.dynamic.endpoint is required''), c)
                | Some e \<Rightarrow>
                    (case NewPeer net \<lparr>pc_Address = Endpoint_Address e, pc_TLS = dc_TLS d\<rparr> c of
                       (Inl err, c1) \<Rightarrow> (Inl (Wrapped (''chaincode resolver '' @ Endpoint_Address e) err), c1)
                     | (Inr h, c1) \<Rightarrow>
                         (Inr (Some \<lparr>ck_static = static, ck_dynamic = Some \<lparr>gr_address = Endpoint_Address e, gr_call = client h,
                             gr_timeout = (if dc_Timeout d \<le> 0 then defaultResolverTimeout else dc_Timeout d)\<rparr>\<rparr>, Some h), c1)))))"

text \<open>Closing the resolver closes the connection of its dynamic part, when there is one.\<close>

definition resolver_Close :: "network \<Rightarrow> nat option \<Rightarrow> connections \<Rightarrow> orch_error option \<times> connections" where
  "resolver_Close net h c = (case h of None \<Rightarrow> (None, c) | Some p \<Rightarrow> Peer_Close net p c)"

text \<open>\<open>helper.NewWithSigner\<close>; the helper opens its own connection to the query service.\<close>

definition NewWithSigner :: "network \<Rightarrow> string \<Rightarrow> PeerConf \<Rightarrow> connections \<Rightarrow> (orch_error + nat) \<times> connections" where
  "NewWithSigner net protocol conf c =
     (if protocol \<noteq> ''fabric-x'' then (Inl (Plain (''protocol '' @ protocol @ '' is not supported by stateless helper'')), c)
      else case NewPeer net conf c of
        (Inl e, c1) \<Rightarrow> (Inl (Wrapped ''query service'' e), c1)
      | (Inr h, c1) \<Rightarrow> (Inr h, c1))"

text \<open>Closing the helper forgets its connection, so that closing it again does nothing.\<close>

definition Helper_Close :: "network \<Rightarrow> nat option \<Rightarrow> connections \<Rightarrow> orch_error option \<times> nat option \<times> connections" where
  "Helper_Close net h c =
     (case h of None \<Rightarrow> (None, None, c) | Some p \<Rightarrow> (let (e, c1) = Peer_Close net p c in (e, None, c1)))"

definition newSubmitter ::
  "'id startup_env \<Rightarrow> string \<Rightarrow> PeerConf \<Rightarrow> connections \<Rightarrow> (orch_error + nat) \<times> connections" where
  "newSubmitter env protocol orderer c =
     (if protocol = ''fabric''
      then (case ue_fabric env c of (Inl e, c1) \<Rightarrow> (Inl (Wrapped ''create submitter'' e), c1) | (Inr h, c1) \<Rightarrow> (Inr h, c1))
      else if protocol = ''fabric-x'' \<or> protocol = []
      then (case NewPeer (ue_net env) orderer c of
              (Inl e, c1) \<Rightarrow> (Inl (Wrapped ''create submitter'' e), c1) | (Inr h, c1) \<Rightarrow> (Inr h, c1))
      else (Inl (Plain (''unknown protocol '' @ protocol)), c))"

fun closePeers :: "network \<Rightarrow> nat list \<Rightarrow> connections \<Rightarrow> connections" where
  "closePeers net [] c = c"
| "closePeers net (h # hs) c = closePeers net hs (snd (Peer_Close net h c))"

subsection \<open>NewWithLoggers\<close>

text \<open>The service once it is assembled, and the part of it that changes while it runs.\<close>

record 'id orchestrator =
  oo_cfg :: Config
  oo_proposalAuth :: "'id proposalVerifier"
  oo_lifecycleAuth :: "'id Authorizer"
  oo_creator :: bytes
  oo_connector :: "Connector option"
  oo_resolver :: "chaincodeConnectionResolvers option"
  oo_remotes :: remoteOrchestratorResolvers
  oo_queryPeer :: nat
  oo_resolverPeer :: "nat option"
  oo_submitter :: nat
  oo_notifier :: "nat option"

record process =
  pr_remote :: remote_state
  pr_helperPeer :: "nat option"
  pr_store :: Store
  pr_recovery :: recovery
  pr_idempotency :: idempotencyStore

text \<open>The query service, the shim connector, the lifecycle store and the chaincode resolver.\<close>

definition openLocal ::
  "'id startup_env \<Rightarrow> Config \<Rightarrow> ChaincodeResolverConfig \<Rightarrow> PeerConf \<Rightarrow> connections
    \<Rightarrow> (orch_error + nat \<times> Connector option \<times> Store \<times> chaincodeConnectionResolvers option \<times> nat option) \<times> connections" where
  "openLocal env cfg rcfg conf c =
     (let net = ue_net env in
      case NewPeer net conf c of
        (Inl e, c1) \<Rightarrow> (Inl (Wrapped ''query service'' e), c1)
      | (Inr q, c1) \<Rightarrow>
          (case newShimConnector cfg of
             Inl e \<Rightarrow> (Inl e, closePeers net [q] c1)
           | Inr connector \<Rightarrow>
               (case NewMemoryStore (cf_ChannelID cfg) of
                  Inl e \<Rightarrow> (Inl (Wrapped ''create lifecycle store'' (StoreError e)), closePeers net [q] c1)
                | Inr store \<Rightarrow>
                    (case openChaincodeResolver net (ue_client env) rcfg c1 of
                       (Inl e, c2) \<Rightarrow> (Inl (Wrapped ''create chaincode resolver'' e), closePeers net [q] c2)
                     | (Inr (resolver, h), c2) \<Rightarrow> (Inr (q, connector, store, resolver, h), c2)))))"

text \<open>The helper, the submitter and the notification service; \<open>q\<close> is the query connection.\<close>

definition openClients ::
  "'id startup_env \<Rightarrow> string \<Rightarrow> nat \<Rightarrow> PeerConf \<Rightarrow> PeerConf \<Rightarrow> PeerConf option \<Rightarrow> connections
    \<Rightarrow> (orch_error + nat \<times> nat \<times> nat option) \<times> connections" where
  "openClients env protocol q conf orderer notification c =
     (let net = ue_net env in
      case NewWithSigner net protocol conf c of
        (Inl e, c1) \<Rightarrow> (Inl (Wrapped ''create internal helper'' e), closePeers net [q] c1)
      | (Inr h, c1) \<Rightarrow>
          (case newSubmitter env protocol orderer c1 of
             (Inl e, c2) \<Rightarrow> (Inl e, closePeers net [h, q] c2)
           | (Inr s, c2) \<Rightarrow>
               (case notification of
                  None \<Rightarrow> (Inr (h, s, None), c2)
                | Some nconf \<Rightarrow>
                    (case NewPeer net nconf c2 of
                       (Inl e, c3) \<Rightarrow> (Inl (Wrapped ''notification service'' e), closePeers net [s, h, q] c3)
                     | (Inr n, c3) \<Rightarrow> (Inr (h, s, Some n), c3)))))"

text \<open>\<open>Close\<close>: the errors of all parts joined; it waits for a running recovery pass.\<close>

definition Service_Close ::
  "network \<Rightarrow> 'id orchestrator \<Rightarrow> process \<Rightarrow> orch_error option outcome \<times> process" where
  "Service_Close net s p =
     (case stopReconciliation (pr_recovery p) of
        (Returned _, ry) \<Rightarrow>
          (let (e1, c1) = Peer_Close net (oo_submitter s) (rs_conns (pr_remote p));
               (e2, h, c2) = Helper_Close net (pr_helperPeer p) c1;
               (e3, c3) = Peer_Close net (oo_queryPeer s) c2;
               (e4, c4) = (case oo_notifier s of None \<Rightarrow> (None, c3) | Some n \<Rightarrow> Peer_Close net n c3);
               (e5, c5) = resolver_Close net (oo_resolverPeer s) c4;
               (e6, st) = remote_Close net (oo_remotes s) ((pr_remote p)\<lparr>rs_conns := c5\<rparr>)
           in (Returned (errors_Join [e1, e2, e3, e4, None, e5, e6]),
               p\<lparr>pr_remote := st, pr_helperPeer := h, pr_store := Close (pr_store p), pr_recovery := ry\<rparr>))
      | (_, ry) \<Rightarrow> (Unfinished, p\<lparr>pr_recovery := ry\<rparr>))"

text \<open>
  The remote resolvers, the assembled service and the replay of the ledger.  When the resolvers cannot be made,
  everything that was opened before is closed; when the replay fails, the service is closed.
\<close>

definition assemble ::
  "'id startup_env \<Rightarrow> 'id orchestrator \<Rightarrow> process
    \<Rightarrow> (orch_error + 'id orchestrator \<times> process) outcome \<times> connections" where
  "assemble env s p =
     (case syncLifecycleFromLedger (Some (ue_rows env (oo_queryPeer s))) (oo_cfg s) (ue_ctx env) (ue_stamp env) (pr_store p) of
        None \<Rightarrow> (Unfinished, rs_conns (pr_remote p))
      | Some (Inl e, store) \<Rightarrow>
          (Returned (Inl (Wrapped ''sync lifecycle from ledger'' e)),
           rs_conns (pr_remote (snd (Service_Close (ue_net env) s (p\<lparr>pr_store := store\<rparr>)))))
      | Some (Inr _, store) \<Rightarrow> (Returned (Inr (s, p\<lparr>pr_store := store\<rparr>)), rs_conns (pr_remote p)))"

text \<open>The three configured peers; validation has made sure that none of them is missing.\<close>

definition peerConfs :: "Config \<Rightarrow> (PeerConf \<times> PeerConf \<times> PeerConf option) option" where
  "peerConfs cfg =
     (case (ToPeerConf (cf_QueryService cfg), Option.bind (cf_Orderer cfg) ToPeerConf,
            case cf_NotificationSvc cfg of None \<Rightarrow> Some None | Some n \<Rightarrow> map_option Some (ToPeerConf n)) of
        (Some q, Some orderer, Some notification) \<Rightarrow> Some (q, orderer, notification)
      | _ \<Rightarrow> None)"

definition NewWithLoggers ::
  "'id startup_env \<Rightarrow> Config \<Rightarrow> ChaincodeResolverConfig \<Rightarrow> RemoteOrchestratorResolverConfig \<Rightarrow> connections
    \<Rightarrow> (orch_error + 'id orchestrator \<times> process) outcome \<times> connections" where
  "NewWithLoggers env cfg rcfg xcfg c =
     (let net = ue_net env in
      case startupIdentity env cfg of
        Inl e \<Rightarrow> (Returned (Inl e), c)
      | Inr (vr, auth, creator, mspID) \<Rightarrow>
          (case peerConfs cfg of
             None \<Rightarrow> (Panic, c)
           | Some (conf, orderer, notification) \<Rightarrow>
               (case openLocal env cfg rcfg conf c of
                  (Inl e, c1) \<Rightarrow> (Returned (Inl e), c1)
                | (Inr (q, connector, store, resolver, rp), c1) \<Rightarrow>
                    (case openClients env (cf_Protocol cfg) q conf orderer notification c1 of
                       (Inl e, c2) \<Rightarrow> (Returned (Inl e), c2)
                     | (Inr (h, s, n), c2) \<Rightarrow>
                         (case newRemoteOrchestratorResolver net xcfg (cf_RemoteOrgs cfg) c2 of
                            (Inl e, rst) \<Rightarrow>
                              (Returned (Inl (Wrapped ''create remote orchestrator resolver'' e)),
                               closePeers net ((case rp of None \<Rightarrow> [] | Some x \<Rightarrow> [x]) @ (case n of None \<Rightarrow> [] | Some x \<Rightarrow> [x]) @
                                 [s, h, q]) (rs_conns rst))
                          | (Inr remotes, rst) \<Rightarrow>
                              assemble env
                                \<lparr>oo_cfg = cfg, oo_proposalAuth = vr, oo_lifecycleAuth = auth, oo_creator = creator,
                                  oo_connector = connector, oo_resolver = resolver, oo_remotes = remotes,
                                  oo_queryPeer = q, oo_resolverPeer = rp, oo_submitter = s, oo_notifier = n\<rparr>
                                \<lparr>pr_remote = rst, pr_helperPeer = Some h, pr_store = store,
                                  pr_recovery = \<lparr>ry_closed = False, ry_running = False\<rparr>,
                                  pr_idempotency = newIdempotencyStore\<rparr>)))))"

end
