(* ===== verification/Wiring_Guarantees.thy ===== *)
theory Wiring_Guarantees
  imports Service_Wiring Remote_Guarantees
begin

section \<open>What starting and stopping guarantee\<close>

text \<open>
  Which connections a start that fails leaves open, what a start that succeeds has checked, and that closing
  gives every connection back.  Connections are accounted for as multisets of open handles.
\<close>

subsection \<open>Ownership of each stage\<close>

definition held :: "nat option \<Rightarrow> nat multiset" where
  "held h = (case h of None \<Rightarrow> {#} | Some x \<Rightarrow> {#x#})"

lemma held_simps [simp]: "held None = {#}" "held (Some x) = {#x#}"
  by (simp_all add: held_def)

lemma closePeers_owned: "owned c (base + mset hs) \<Longrightarrow> owned (closePeers net hs c) base"
proof (induction hs arbitrary: c)
  case (Cons h hs)
  have "owned (snd (Peer_Close net h c)) (base + mset hs)" using Cons.prems by (intro owned_close) simp
  then show ?case using Cons.IH by simp
qed simp

lemma openChaincodeResolver_owned:
  assumes "openChaincodeResolver net client rcfg c = (res, c')" and "owned c base"
  shows "(\<forall>e. res = Inl e \<longrightarrow> owned c' base) \<and>
    (\<forall>r h. res = Inr (r, h) \<longrightarrow> owned c' (base + held h) \<and> (h \<noteq> None \<longrightarrow> rv_Dynamic rcfg \<noteq> None))"
proof -
  let ?static = "if rv_Static rcfg = [] then Inr None else rbind (newStaticChaincodeResolver (rv_Static rcfg)) (\<lambda>s. Inr (Some s))"
  show ?thesis
  proof (cases ?static)
    case (Inl e)
    then show ?thesis using assms by (auto simp: openChaincodeResolver_def)
  next
    case (Inr static)
    show ?thesis
    proof (cases "rv_Dynamic rcfg")
      case None
      then show ?thesis using assms Inr by (auto simp: openChaincodeResolver_def)
    next
      case (Some d)
      show ?thesis
      proof (cases "dc_Endpoint d")
        case None
        then show ?thesis using assms Inr Some by (auto simp: openChaincodeResolver_def)
      next
        case (Some e)
        obtain r1 c1 where n: "NewPeer net \<lparr>pc_Address = Endpoint_Address e, pc_TLS = dc_TLS d\<rparr> c = (r1, c1)" by fastforce
        show ?thesis using assms Inr \<open>rv_Dynamic rcfg = Some d\<close> Some n owned_dial[OF assms(2) n]
          by (cases r1) (auto simp: openChaincodeResolver_def)
      qed
    qed
  qed
qed

text \<open>The stateful constructor is the one of the resolver theory over what the network answers.\<close>

lemma openChaincodeResolver_is:
  "fst (openChaincodeResolver net client rcfg c) =
     (case newChaincodeConnectionResolver (\<lambda>conf. map_sum id client (fst (NewPeer net conf c))) rcfg of
        Inl e \<Rightarrow> Inl e
      | Inr r \<Rightarrow> Inr (r, case r of None \<Rightarrow> None | Some k \<Rightarrow> map_option (\<lambda>_. cn_attempts c) (ck_dynamic k)))"
  by (auto simp: openChaincodeResolver_def newChaincodeConnectionResolver_def newGRPCChaincodeResolver_def NewPeer_def
      Let_def rbind_def newStaticChaincodeResolver_def split: option.splits sum.splits prod.splits)

lemma openLocal_owned:
  assumes "openLocal env cfg rcfg conf c = (res, c')" and "owned c base"
  shows "(\<forall>e. res = Inl e \<longrightarrow> owned c' base) \<and>
    (\<forall>q k s r rp. res = Inr (q, k, s, r, rp) \<longrightarrow> owned c' (add_mset q (base + held rp)) \<and>
       NewMemoryStore (cf_ChannelID cfg) = Inr s \<and> (rp \<noteq> None \<longrightarrow> rv_Dynamic rcfg \<noteq> None))"
proof -
  let ?net = "ue_net env"
  obtain r1 c1 where n: "NewPeer ?net conf c = (r1, c1)" by fastforce
  note o1 = owned_dial[OF assms(2) n]
  note run = assms(1)[unfolded openLocal_def Let_def n prod.case]
  show ?thesis
  proof (cases r1)
    case (Inl e)
    then show ?thesis using run o1 by auto
  next
    case (Inr q)
    have q: "owned c1 (base + mset [q])" using o1 Inr by simp
    show ?thesis
    proof (cases "newShimConnector cfg")
      case k: (Inr connector)
      show ?thesis
      proof (cases "NewMemoryStore (cf_ChannelID cfg)")
        case s: (Inr store)
        obtain r2 c2 where two: "openChaincodeResolver ?net (ue_client env) rcfg c1 = (r2, c2)" by fastforce
        note o2 = openChaincodeResolver_owned[OF two q]
        show ?thesis using run Inr k s two o2 closePeers_owned[of c2 base "[q]" ?net]
          by (cases r2) auto
      qed (use run Inr k q closePeers_owned[OF q] in auto)
    qed (use run Inr q closePeers_owned[OF q] in auto)
  qed
qed

lemma NewWithSigner_owned:
  assumes "NewWithSigner net protocol conf c = (res, c')" and "owned c base"
  shows "(\<forall>e. res = Inl e \<longrightarrow> owned c' base) \<and> (\<forall>h. res = Inr h \<longrightarrow> owned c' (add_mset h base) \<and> protocol = ''fabric-x'')"
proof -
  obtain r1 c1 where n: "NewPeer net conf c = (r1, c1)" by fastforce
  show ?thesis using assms n owned_dial[OF assms(2) n] by (cases r1) (auto simp: NewWithSigner_def split: if_splits)
qed

lemma openClients_owned:
  assumes "openClients env protocol q conf orderer notification c = (res, c')" and "owned c (add_mset q base)"
  shows "(\<forall>e. res = Inl e \<longrightarrow> owned c' base) \<and>
    (\<forall>h s n. res = Inr (h, s, n) \<longrightarrow> owned c' (base + {#q, h, s#} + held n) \<and> protocol = ''fabric-x'')"
proof -
  let ?net = "ue_net env"
  obtain r1 c1 where h: "NewWithSigner ?net protocol conf c = (r1, c1)" by fastforce
  note o1 = NewWithSigner_owned[OF h assms(2)]
  note run = assms(1)[unfolded openClients_def Let_def h prod.case]
  show ?thesis
  proof (cases r1)
    case (Inl e)
    then have "owned c1 (base + mset [q])" using o1 by simp
    from closePeers_owned[OF this, of ?net] show ?thesis using run Inl by auto
  next
    case (Inr p)
    then have p: "protocol = ''fabric-x''" "owned c1 (add_mset p (add_mset q base))" using o1 by simp_all
    obtain r0 c2 where n: "NewPeer ?net orderer c1 = (r0, c2)" by fastforce
    note o2 = owned_dial[OF p(2) n]
    show ?thesis
    proof (cases r0)
      case (Inl e)
      then have "owned c2 (base + mset [p, q])" using o2 by (simp add: add_mset_commute)
      from closePeers_owned[OF this, of ?net] show ?thesis
        using run \<open>r1 = Inr p\<close> p(1) n Inl by (auto simp: newSubmitter_def)
    next
      case (Inr s)
      then have s: "owned c2 (base + {#q, p, s#})" using o2 by (simp add: add_mset_commute)
      show ?thesis
      proof (cases notification)
        case None
        then show ?thesis using run \<open>r1 = Inr p\<close> p(1) n Inr s by (auto simp: newSubmitter_def)
      next
        case (Some nconf)
        obtain r3 c3 where m: "NewPeer ?net nconf c2 = (r3, c3)" by fastforce
        note o3 = owned_dial[OF s m]
        show ?thesis
        proof (cases r3)
          case (Inl e)
          then have "owned c3 (base + mset [s, p, q])" using o3 by (simp add: add_mset_commute)
          from closePeers_owned[OF this, of ?net] show ?thesis
            using run \<open>r1 = Inr p\<close> p(1) n \<open>r0 = Inr s\<close> Some m Inl by (auto simp: newSubmitter_def)
        next
          case (Inr x)
          then have "owned c3 (base + {#q, p, s#} + held (Some x))" using o3 by (simp add: add_mset_commute)
          then show ?thesis using run \<open>r1 = Inr p\<close> p(1) n \<open>r0 = Inr s\<close> Some m Inr
            by (auto simp: newSubmitter_def add_mset_commute)
        qed
      qed
    qed
  qed
qed

subsection \<open>A running service\<close>

text \<open>
  What a service becomes between its start and its end: the remote resolvers are asked, everything else only
  changes the store, the request records and the recovery state.
\<close>

inductive serving :: "network \<Rightarrow> 'id orchestrator \<Rightarrow> process \<Rightarrow> process \<Rightarrow> bool" for net s p where
  begun: "serving net s p p"
| asked: "serving net s p p1 \<Longrightarrow> remote_Resolve net ask (oo_remotes s) req (pr_remote p1) = (Returned x, st) \<Longrightarrow>
    serving net s p (p1\<lparr>pr_remote := st\<rparr>)"
| listed: "serving net s p p1 \<Longrightarrow> remote_RemotePeers net ask (oo_remotes s) order req (pr_remote p1) = (Returned y, st) \<Longrightarrow>
    serving net s p (p1\<lparr>pr_remote := st\<rparr>)"
| worked: "serving net s p p1 \<Longrightarrow> serving net s p (p1\<lparr>pr_store := a, pr_recovery := b, pr_idempotency := i\<rparr>)"

text \<open>The connections a service holds besides those of its remote resolvers.\<close>

definition outside :: "'id orchestrator \<Rightarrow> process \<Rightarrow> nat multiset" where
  "outside s p = {#oo_submitter s, oo_queryPeer s#} + held (pr_helperPeer p) + held (oo_notifier s) + held (oo_resolverPeer s)"

definition running :: "nat multiset \<Rightarrow> 'id orchestrator \<Rightarrow> process \<Rightarrow> bool" where
  "running base s p \<longleftrightarrow> connected (base + outside s p) (oo_remotes s) (pr_remote p)"

lemma serving_running:
  assumes "serving net s p p1" and "running base s p" and "plain_targets (oo_remotes s)"
  shows "running base s p1"
  using assms(1)
proof induction
  case begun
  then show ?case by (rule assms(2))
next
  case (asked p1 ask req x st)
  then show ?case using connected_resolve[OF asked(2) _ assms(3)] by (simp add: running_def outside_def)
next
  case (listed p1 ask order req y st)
  then show ?case using connected_peers[OF listed(2) _ assms(3)] by (simp add: running_def outside_def)
qed (simp add: running_def outside_def)

lemma connected_release:
  assumes "connected (add_mset h base) r st"
  shows "connected base r (st\<lparr>rs_conns := snd (Peer_Close net h (rs_conns st))\<rparr>)"
proof -
  have "owned (snd (Peer_Close net h (rs_conns st))) hs" if "owned (rs_conns st) (add_mset h hs)" for hs
    by (rule owned_close[OF that])
  then show ?thesis using assms
    by (simp add: connected_def Let_def dynamic_ok_def cache_def add_mset_commute[of _ h] split: option.splits)
qed

lemma connected_release_held:
  assumes "connected (held h + base) r st"
  shows "connected base r (st\<lparr>rs_conns := snd (resolver_Close net h (rs_conns st))\<rparr>)"
  using assms connected_release[of _ base r st net] by (cases h) (simp_all add: resolver_Close_def)

text \<open>Closing waits for a running recovery pass, then gives everything back.\<close>

lemma close_running:
  assumes "Service_Close net s p = (res, p')" and "running base s p"
  shows "(\<not> ry_running (pr_recovery p) \<longleftrightarrow> res \<noteq> Unfinished) \<and> res \<noteq> Panic \<and>
    (\<forall>e. res = Returned e \<longrightarrow> owned (rs_conns (pr_remote p')) base \<and> \<not> st_open (pr_store p') \<and> ry_closed (pr_recovery p'))"
proof (cases "ry_running (pr_recovery p)")
  case True
  then show ?thesis using assms(1) by (auto simp: Service_Close_def stopReconciliation_def)
next
  case False
  let ?at = "\<lambda>c. (pr_remote p)\<lparr>rs_conns := c\<rparr>"
  let ?c1 = "snd (Peer_Close net (oo_submitter s) (rs_conns (pr_remote p)))"
  let ?c2 = "snd (resolver_Close net (pr_helperPeer p) ?c1)"
  let ?c3 = "snd (Peer_Close net (oo_queryPeer s) ?c2)"
  let ?c4 = "snd (resolver_Close net (oo_notifier s) ?c3)"
  let ?c5 = "snd (resolver_Close net (oo_resolverPeer s) ?c4)"
  have "connected (add_mset (oo_submitter s) (held (pr_helperPeer p) + (add_mset (oo_queryPeer s)
      (held (oo_notifier s) + (held (oo_resolverPeer s) + base))))) (oo_remotes s) (pr_remote p)"
    using assms(2) by (simp add: running_def outside_def ac_simps)
  from connected_release[OF this, of net]
  have "connected (held (pr_helperPeer p) + (add_mset (oo_queryPeer s)
      (held (oo_notifier s) + (held (oo_resolverPeer s) + base)))) (oo_remotes s) (?at ?c1)" .
  from connected_release_held[OF this, of net]
  have "connected (add_mset (oo_queryPeer s) (held (oo_notifier s) + (held (oo_resolverPeer s) + base)))
      (oo_remotes s) (?at ?c2)" by simp
  from connected_release[OF this, of net]
  have "connected (held (oo_notifier s) + (held (oo_resolverPeer s) + base)) (oo_remotes s) (?at ?c3)" by simp
  from connected_release_held[OF this, of net]
  have "connected (held (oo_resolverPeer s) + base) (oo_remotes s) (?at ?c4)" by simp
  from connected_release_held[OF this, of net]
  have c5: "connected base (oo_remotes s) (?at ?c5)" by simp
  obtain e6 st where rc: "remote_Close net (oo_remotes s) (?at ?c5) = (e6, st)" by fastforce
  have "pr_remote p' = st \<and> pr_store p' = Close (pr_store p) \<and> ry_closed (pr_recovery p') \<and> (\<exists>e. res = Returned e)"
    using assms(1) False rc
    by (cases "pr_helperPeer p"; cases "oo_notifier s")
      (auto simp: Service_Close_def stopReconciliation_def Helper_Close_def resolver_Close_def split_beta Let_def)
  then show ?thesis using connected_close[OF c5 rc] False by (auto simp: Close_def)
qed

subsection \<open>Starting\<close>

text \<open>
  The connection a failed start leaves open: the one of the dynamic chaincode resolver, when the helper, the
  submitter or the notification client cannot be made.
\<close>

definition leaked ::
  "'id startup_env \<Rightarrow> Config \<Rightarrow> ChaincodeResolverConfig \<Rightarrow> connections \<Rightarrow> nat option" where
  "leaked env cfg rcfg c =
     (case (startupIdentity env cfg, peerConfs cfg) of
        (Inr _, Some (conf, orderer, notification)) \<Rightarrow>
          (case openLocal env cfg rcfg conf c of
             (Inr (q, _, _, _, rp), c1) \<Rightarrow>
               (case openClients env (cf_Protocol cfg) q conf orderer notification c1 of (Inl _, _) \<Rightarrow> rp | _ \<Rightarrow> None)
           | _ \<Rightarrow> None)
      | _ \<Rightarrow> None)"

lemma validated_peers: "Config_Validate cfg = [] \<Longrightarrow> peerConfs cfg \<noteq> None"
  using validated_config(2-4)[of cfg] by (auto simp: peerConfs_def split: option.splits)

lemma identity_validated:
  assumes "startupIdentity env cfg = Inr (vr, auth, creator, mspID)"
  shows "Config_Validate cfg = []" and "cf_MspID cfg = Some mspID"
    and "newProposalVerifier (ue_msp env) (cf_ProposalAuth cfg) = Inr vr"
    and "NewAuthorizer (ue_msp env) (vr_trust vr) (cf_ChannelID cfg) mspID (cf_LifecycleAuth cfg) (ue_clock env 0) = Inr auth"
    and "ValidateOrchestrator (ue_msp env) auth creator (ue_clock env 1) = Inr ()"
  using assms by (auto simp: startupIdentity_def Let_def rbind_Inr_iff)

lemma NewAuthorizer_fields:
  "NewAuthorizer lib trust ch msp cfg now = Inr au \<Longrightarrow> au_channelID au = ch \<and> au_mspID au = msp \<and> au_trust au = trust"
  by (auto simp: NewAuthorizer_def rbind_Inr_iff split: if_splits)

text \<open>The three ways an assembled service comes out of the replay.\<close>

lemma assemble_cases:
  assumes "assemble env s p = (res, c')"
  shows "res \<noteq> Panic \<and>
    (res = Unfinished \<longrightarrow> c' = rs_conns (pr_remote p) \<and>
       syncLifecycleFromLedger (Some (ue_rows env (oo_queryPeer s))) (oo_cfg s) (ue_ctx env) (ue_stamp env) (pr_store p) = None) \<and>
    (\<forall>e. res = Returned (Inl e) \<longrightarrow> (\<exists>store. c' = rs_conns (pr_remote (snd (Service_Close (ue_net env) s (p\<lparr>pr_store := store\<rparr>)))))) \<and>
    (\<forall>s' p'. res = Returned (Inr (s', p')) \<longrightarrow> s' = s \<and> (\<exists>store. p' = p\<lparr>pr_store := store\<rparr> \<and> c' = rs_conns (pr_remote p) \<and>
       syncLifecycleFromLedger (Some (ue_rows env (oo_queryPeer s))) (oo_cfg s) (ue_ctx env) (ue_stamp env) (pr_store p) =
         Some (Inr (), store)))"
  using assms by (auto simp: assemble_def split: option.splits sum.splits prod.splits)

text \<open>One walk through the whole constructor, for the properties below.\<close>

lemma startup_cases:
  assumes "NewWithLoggers env cfg rcfg xcfg c = (res, c')" and "owned c base"
  shows "res \<noteq> Panic \<and> (res = Unfinished \<longrightarrow> cf_Protocol cfg = ''fabric-x'' \<and>
      (\<exists>q store. NewMemoryStore (cf_ChannelID cfg) = Inr store \<and>
         syncLifecycleFromLedger (Some (ue_rows env q)) cfg (ue_ctx env) (ue_stamp env) store = None)) \<and>
    (\<forall>e. res = Returned (Inl e) \<longrightarrow> owned c' (base + held (leaked env cfg rcfg c))) \<and>
    (leaked env cfg rcfg c \<noteq> None \<longrightarrow> rv_Dynamic rcfg \<noteq> None) \<and>
    (\<forall>s p. res = Returned (Inr (s, p)) \<longrightarrow> running base s p \<and> cf_Protocol cfg = ''fabric-x'' \<and> oo_cfg s = cfg \<and>
       \<not> ry_running (pr_recovery p) \<and>
       (\<exists>mspID. startupIdentity env cfg = Inr (oo_proposalAuth s, oo_lifecycleAuth s, oo_creator s, mspID)) \<and>
       (\<exists>store. NewMemoryStore (cf_ChannelID cfg) = Inr store \<and>
          syncLifecycleFromLedger (Some (ue_rows env (oo_queryPeer s))) cfg (ue_ctx env) (ue_stamp env) store =
            Some (Inr (), pr_store p)))"
proof -
  let ?net = "ue_net env"
  note run = assms(1)[unfolded NewWithLoggers_def Let_def]
  show ?thesis
  proof (cases "startupIdentity env cfg")
    case (Inl e)
    then show ?thesis using run assms(2) by (auto simp: leaked_def)
  next
    case (Inr i)
    obtain vr auth creator mspID where i: "i = (vr, auth, creator, mspID)" by (metis prod_cases4)
    obtain conf orderer notification where p: "peerConfs cfg = Some (conf, orderer, notification)"
      using validated_peers[OF identity_validated(1)] Inr i by (metis not_Some_eq prod_cases3)
    obtain r1 c1 where one: "openLocal env cfg rcfg conf c = (r1, c1)" by fastforce
    note o1 = openLocal_owned[OF one assms(2)]
    show ?thesis
    proof (cases r1)
      case (Inl e)
      then show ?thesis using run \<open>startupIdentity env cfg = Inr i\<close> i p one o1 by (auto simp: leaked_def)
    next
      case r1: (Inr t)
      obtain q connector store resolver rp where t: "t = (q, connector, store, resolver, rp)" by (metis prod_cases5)
      have q: "owned c1 (add_mset q (base + held rp))" "NewMemoryStore (cf_ChannelID cfg) = Inr store"
        "rp \<noteq> None \<longrightarrow> rv_Dynamic rcfg \<noteq> None" using o1 r1 t by auto
      obtain r2 c2 where two: "openClients env (cf_Protocol cfg) q conf orderer notification c1 = (r2, c2)" by fastforce
      note o2 = openClients_owned[OF two q(1)]
      show ?thesis
      proof (cases r2)
        case (Inl e)
        then show ?thesis using run \<open>startupIdentity env cfg = Inr i\<close> i p one r1 t two o2 q(3)
          by (auto simp: leaked_def)
      next
        case r2: (Inr u)
        obtain h s n where u: "u = (h, s, n)" by (metis prod_cases3)
        let ?held = "base + held rp + {#q, h, s#} + held n"
        have h: "owned c2 ?held" "cf_Protocol cfg = ''fabric-x''" using o2 r2 u by simp_all
        have none: "leaked env cfg rcfg c = None"
          using \<open>startupIdentity env cfg = Inr i\<close> i p one r1 t two r2 u by (simp add: leaked_def)
        obtain r3 rst where three: "newRemoteOrchestratorResolver ?net xcfg (cf_RemoteOrgs cfg) c2 = (r3, rst)" by fastforce
        note o3 = new_remote_connected[OF three h(1)]
        show ?thesis
        proof (cases r3)
          case (Inl e)
          let ?all = "(case rp of None \<Rightarrow> [] | Some x \<Rightarrow> [x]) @ (case n of None \<Rightarrow> [] | Some x \<Rightarrow> [x]) @ [s, h, q]"
          have "owned (rs_conns rst) (base + mset ?all)"
            using o3 Inl by (cases rp; cases n) (simp_all add: add_mset_commute)
          from closePeers_owned[OF this, of ?net] show ?thesis
            using run \<open>startupIdentity env cfg = Inr i\<close> i p one r1 t two r2 u three Inl none by auto
        next
          case r3: (Inr remotes)
          let ?s = "\<lparr>oo_cfg = cfg, oo_proposalAuth = vr, oo_lifecycleAuth = auth, oo_creator = creator,
            oo_connector = connector, oo_resolver = resolver, oo_remotes = remotes,
            oo_queryPeer = q, oo_resolverPeer = rp, oo_submitter = s, oo_notifier = n\<rparr>"
          let ?p = "\<lparr>pr_remote = rst, pr_helperPeer = Some h, pr_store = store,
            pr_recovery = \<lparr>ry_closed = False, ry_running = False\<rparr>, pr_idempotency = newIdempotencyStore\<rparr>"
          have asm: "assemble env ?s ?p = (res, c')"
            using run \<open>startupIdentity env cfg = Inr i\<close> i p one r1 t two r2 u three r3 by simp
          have live: "running base ?s (?p\<lparr>pr_store := x\<rparr>)" for x
            using o3 r3 by (simp add: running_def outside_def ac_simps add_mset_commute)
          have shut: "owned (rs_conns (pr_remote (snd (Service_Close ?net ?s (?p\<lparr>pr_store := x\<rparr>))))) base" for x
          proof -
            obtain r p' where c: "Service_Close ?net ?s (?p\<lparr>pr_store := x\<rparr>) = (r, p')" by fastforce
            show ?thesis unfolding c snd_conv using close_running[OF c live] by (cases r) auto
          qed
          note a = assemble_cases[OF asm]
          have made: "running base s0 p0 \<and> oo_cfg s0 = cfg \<and> \<not> ry_running (pr_recovery p0) \<and>
              (\<exists>mspID. startupIdentity env cfg = Inr (oo_proposalAuth s0, oo_lifecycleAuth s0, oo_creator s0, mspID)) \<and>
              syncLifecycleFromLedger (Some (ue_rows env (oo_queryPeer s0))) cfg (ue_ctx env) (ue_stamp env) store =
                Some (Inr (), pr_store p0)" if "res = Returned (Inr (s0, p0))" for s0 p0
            using a that live \<open>startupIdentity env cfg = Inr i\<close> i by auto
          have failed: "owned c' base" if "res = Returned (Inl e)" for e using a that shut by auto
          have stuck: "\<exists>q store. NewMemoryStore (cf_ChannelID cfg) = Inr store \<and>
              syncLifecycleFromLedger (Some (ue_rows env q)) cfg (ue_ctx env) (ue_stamp env) store = None" if "res = Unfinished"
            using a that q(2) by auto
          show ?thesis
          proof (intro conjI allI impI)
            show "res \<noteq> Panic" using a by blast
            show "owned c' (base + held (leaked env cfg rcfg c))" if "res = Returned (Inl e)" for e
              using failed[OF that] none by simp
            show "rv_Dynamic rcfg \<noteq> None" if "leaked env cfg rcfg c \<noteq> None" using that none by simp
          qed (use made stuck h(2) q(2) in blast)+
        qed
      qed
    qed
  qed
qed

subsection \<open>Properties\<close>

text \<open>C33: starting never panics.  A start that fails closes every connection it opened, except the one of the dynamic
chaincode resolver when the helper, the submitter or the notification client cannot be made.  A service that
started gives every connection back when it is closed, whatever its remote resolvers were asked in between, and its
closing returns exactly when no recovery pass is running.\<close>

theorem startup_connections:
  assumes "owned c base" and "NewWithLoggers env cfg rcfg xcfg c = (res, c')"
  shows "res \<noteq> Panic \<and>
    (\<forall>e. res = Returned (Inl e) \<longrightarrow> owned c' (base + held (leaked env cfg rcfg c))) \<and>
    (leaked env cfg rcfg c \<noteq> None \<longrightarrow> rv_Dynamic rcfg \<noteq> None) \<and>
    (\<forall>s p p1 out p2. res = Returned (Inr (s, p)) \<and> plain_targets (oo_remotes s) \<and> serving (ue_net env) s p p1 \<and>
       Service_Close (ue_net env) s p1 = (out, p2) \<longrightarrow>
       (out = Unfinished \<longleftrightarrow> ry_running (pr_recovery p1)) \<and>
       (out \<noteq> Unfinished \<longrightarrow> owned (rs_conns (pr_remote p2)) base \<and> \<not> st_open (pr_store p2)))"
proof -
  note k = startup_cases[OF assms(2,1)]
  have "(out = Unfinished \<longleftrightarrow> ry_running (pr_recovery p1)) \<and>
      (out \<noteq> Unfinished \<longrightarrow> owned (rs_conns (pr_remote p2)) base \<and> \<not> st_open (pr_store p2))"
    if "res = Returned (Inr (s, p))" "plain_targets (oo_remotes s)" "serving (ue_net env) s p p1"
      "Service_Close (ue_net env) s p1 = (out, p2)" for s p p1 out p2
  proof -
    have "running base s p" using k that(1) by simp
    from close_running[OF that(4) serving_running[OF that(3) this that(2)]] show ?thesis
      by (cases out) auto
  qed
  then show ?thesis using k by blast
qed

text \<open>C34: a service starts only with a valid configuration whose protocol is exactly fabric-x (an omitted protocol
fails), and with an own identity that the trusted organizations recognize now and the lifecycle authorization lists
as an orchestrator; its lifecycle store is then what the replay of the ledger makes of an empty one.\<close>

theorem startup_checked:
  assumes "owned c base" and "NewWithLoggers env cfg rcfg xcfg c = (res, c')"
  shows "(cf_Protocol cfg \<noteq> ''fabric-x'' \<longrightarrow> (\<exists>e. res = Returned (Inl e))) \<and>
    (\<forall>s p. res = Returned (Inr (s, p)) \<longrightarrow>
       Config_Validate cfg = [] \<and> cf_Protocol cfg = ''fabric-x'' \<and>
       au_channelID (oo_lifecycleAuth s) = cf_ChannelID cfg \<and> Some (au_mspID (oo_lifecycleAuth s)) = cf_MspID cfg \<and>
       au_trust (oo_lifecycleAuth s) = vr_trust (oo_proposalAuth s) \<and>
       (\<exists>identity. Identity (ue_msp env) (au_trust (oo_lifecycleAuth s)) (oo_creator s) (ue_clock env 1) = Inr identity \<and>
          identityKey (ue_msp env) identity \<in> set (au_orchestrators (oo_lifecycleAuth s))) \<and>
       (\<exists>store. NewMemoryStore (cf_ChannelID cfg) = Inr store \<and>
          syncLifecycleFromLedger (Some (ue_rows env (oo_queryPeer s))) cfg (ue_ctx env) (ue_stamp env) store =
            Some (Inr (), pr_store p)))"
proof (intro conjI impI allI)
  note k = startup_cases[OF assms(2,1)]
  show "\<exists>e. res = Returned (Inl e)" if "cf_Protocol cfg \<noteq> ''fabric-x''"
  proof (cases res)
    case (Returned r)
    then show ?thesis using k that by (cases r) auto
  qed (use k that in auto)
  fix s p assume r: "res = Returned (Inr (s, p))"
  then obtain mspID where i: "startupIdentity env cfg = Inr (oo_proposalAuth s, oo_lifecycleAuth s, oo_creator s, mspID)"
    using k by blast
  note v = identity_validated[OF i]
  have a: "au_channelID (oo_lifecycleAuth s) = cf_ChannelID cfg" "au_mspID (oo_lifecycleAuth s) = mspID"
    "au_trust (oo_lifecycleAuth s) = vr_trust (oo_proposalAuth s)"
    using NewAuthorizer_fields[OF v(4)] by simp_all
  show "Config_Validate cfg = []" by (rule v(1))
  show "cf_Protocol cfg = ''fabric-x''" using k r by blast
  show "au_channelID (oo_lifecycleAuth s) = cf_ChannelID cfg" by (rule a(1))
  show "Some (au_mspID (oo_lifecycleAuth s)) = cf_MspID cfg" using v(2) a(2) by simp
  show "au_trust (oo_lifecycleAuth s) = vr_trust (oo_proposalAuth s)" by (rule a(3))
  show "\<exists>identity. Identity (ue_msp env) (au_trust (oo_lifecycleAuth s)) (oo_creator s) (ue_clock env 1) = Inr identity \<and>
      identityKey (ue_msp env) identity \<in> set (au_orchestrators (oo_lifecycleAuth s))"
    using v(5) by (auto simp: ValidateOrchestrator_def rbind_Inr_iff)
  show "\<exists>store. NewMemoryStore (cf_ChannelID cfg) = Inr store \<and>
      syncLifecycleFromLedger (Some (ue_rows env (oo_queryPeer s))) cfg (ue_ctx env) (ue_stamp env) store =
        Some (Inr (), pr_store p)" using k r by blast
qed

lemma fresh_store:
  assumes "NewMemoryStore ch = Inr s"
  shows "live s" and "definition_of s name = None"
  using assms by (auto simp: NewMemoryStore_def live_def store_inv_def definition_of_def active_def split: if_splits)

text \<open>C32: a start over a well-formed lifecycle ledger does not hang in the replay, and the service it gives has exactly the
definitions of the ledger active, each with the initialization the ledger records.\<close>

theorem startup_mirrors_ledger:
  assumes "owned c base" and "NewWithLoggers env cfg rcfg xcfg c = (res, c')"
    and "\<And>h. answers (ue_rows env h) cfg L" and "indexed_ledger (cf_ChannelID cfg) L high" and "high \<noteq> - 1"
    and "ue_ctx env = None" and "ue_stamp env \<noteq> []"
  shows "res \<noteq> Unfinished \<and> (\<forall>s p. res = Returned (Inr (s, p)) \<longrightarrow> live (pr_store p) \<and>
    (\<forall>name. definition_of (pr_store p) name =
       map_option (\<lambda>d. (ChaincodeDefinitionFromLedger d, ld_Initialized d)) (ledgerRecord (cf_ChannelID cfg) L name)))"
proof -
  note k = startup_cases[OF assms(2,1)]
  have sync: "\<exists>s'. syncLifecycleFromLedger (Some (ue_rows env q)) cfg (ue_ctx env) (ue_stamp env) store = Some (Inr (), s') \<and>
      live s' \<and> (\<forall>name. definition_of s' name =
       map_option (\<lambda>d. (ChaincodeDefinitionFromLedger d, ld_Initialized d)) (ledgerRecord (cf_ChannelID cfg) L name))"
    if "NewMemoryStore (cf_ChannelID cfg) = Inr store" for q store
  proof -
    have none: "definition_of store name = None" for name by (rule fresh_store(2)[OF that])
    then have "agrees (cf_ChannelID cfg) L store" by (simp add: agrees_def)
    from sync_mirrors_ledger[OF assms(3) assms(4,5) fresh_store(1)[OF that] this assms(7), of q]
    obtain s' where s': "syncLifecycleFromLedger (Some (ue_rows env q)) cfg (ue_ctx env) (ue_stamp env) store = Some (Inr (), s')"
      "live s'" "\<forall>name. definition_of s' name = (case ledgerRecord (cf_ChannelID cfg) L name of None \<Rightarrow> None
        | Some d \<Rightarrow> ledger_join cd_Sequence (ChaincodeDefinitionFromLedger d, ld_Initialized d) None)"
      unfolding assms(6) none by blast
    have "definition_of s' name = map_option (\<lambda>d. (ChaincodeDefinitionFromLedger d, ld_Initialized d))
        (ledgerRecord (cf_ChannelID cfg) L name)" for name
      using s'(3) by (cases "ledgerRecord (cf_ChannelID cfg) L name") (simp_all add: ledger_join_def)
    then show ?thesis using s'(1,2) by blast
  qed
  show ?thesis
  proof (intro conjI allI impI)
    show "res \<noteq> Unfinished"
    proof
      assume "res = Unfinished"
      with k obtain q store where q: "NewMemoryStore (cf_ChannelID cfg) = Inr store"
        "syncLifecycleFromLedger (Some (ue_rows env q)) cfg (ue_ctx env) (ue_stamp env) store = None" by blast
      from sync[OF q(1), of q] q(2) show False by simp
    qed
    fix s p assume r: "res = Returned (Inr (s, p))"
    then obtain store where st: "NewMemoryStore (cf_ChannelID cfg) = Inr store"
      "syncLifecycleFromLedger (Some (ue_rows env (oo_queryPeer s))) cfg (ue_ctx env) (ue_stamp env) store = Some (Inr (), pr_store p)"
      using k by blast
    with sync[OF st(1), of "oo_queryPeer s"] show "live (pr_store p)" by auto
    from st(2) sync[OF st(1), of "oo_queryPeer s"] show "definition_of (pr_store p) name =
       map_option (\<lambda>d. (ChaincodeDefinitionFromLedger d, ld_Initialized d)) (ledgerRecord (cf_ChannelID cfg) L name)" for name
      by auto
  qed
qed

subsection \<open>A concrete start\<close>

definition start_auth :: AuthConfig where
  "start_auth = \<lparr>ac_Policies = map (\<lambda>x. (x, ''Org1'')) publicOperations,
    ac_Orchestrators = [\<lparr>oi_MSPID = ''Org1'', oi_CertPath = ''a''\<rparr>, \<lparr>oi_MSPID = ''Org2'', oi_CertPath = ''b''\<rparr>]\<rparr>"

definition start_client :: "string \<Rightarrow> ClientConfig" where
  "start_client host = \<lparr>cc_Endpoint = Some \<lparr>ep_Host = host, ep_Port = 1\<rparr>, cc_TLS = no_tls\<rparr>"

definition start_cfg :: "string \<Rightarrow> Config" where
  "start_cfg protocol = \<lparr>cf_ChannelID = ''ch'', cf_Namespace = ''ns'', cf_LifecycleNamespace = [], cf_Protocol = protocol,
     cf_ServerEmpty = Some False, cf_MspID = Some ''Org1'', cf_QueryService = start_client ''q'',
     cf_ChaincodeSvc = \<lparr>cc_Endpoint = None, cc_TLS = no_tls\<rparr>, cf_Orderer = Some (start_client ''o''),
     cf_NotificationSvc = Some (start_client ''n''), cf_RemoteOrgs = [],
     cf_ProposalAuth = \<lparr>pa_MSPs = [\<lparr>mc_MSPID = ''Org1'', mc_MSPDir = ''d''\<rparr>, \<lparr>mc_MSPID = ''Org2'', mc_MSPDir = ''d''\<rparr>],
       pa_Rules = [\<lparr>ru_Chaincode = ''cc'', ru_Namespace = ''ns'', ru_Policy = ''Org1''\<rparr>],
       pa_CommitStatusPolicy = [], pa_ChaincodeEventsPolicy = []\<rparr>,
     cf_LifecycleAuth = start_auth, cf_WaitAfterSubmit = 0, cf_RequestTimeout = 0, cf_FinalityTimeout = 0\<rparr>"

definition start_env :: "ledger_rows \<Rightarrow> string startup_env" where
  "start_env L = \<lparr>ue_msp = sample_lib, ue_net = open_network, ue_signer = (\<lambda>m. Inr (Inr m)),
     ue_fabric = (\<lambda>c. (Inl (Plain ''none''), c)), ue_rows = (\<lambda>_. query_of (start_cfg ''fabric-x'') L),
     ue_client = (\<lambda>_ _. Inr None), ue_clock = (\<lambda>_. 10), ue_ctx = None, ue_stamp = ''t''\<rparr>"

definition start_resolver :: ChaincodeResolverConfig where
  "start_resolver = \<lparr>rv_Static = [], rv_Dynamic = Some \<lparr>dc_Endpoint = Some \<lparr>ep_Host = ''r'', ep_Port = 1\<rparr>, dc_TLS = no_tls,
     dc_Timeout = 0\<rparr>\<rparr>"

lemma start_valid: "Config_Validate (start_cfg protocol) = []"
  by (simp add: Config_Validate_def start_cfg_def start_client_def ProposalAuth_validate_def AuthConfig_Validate_def
      start_auth_def policy_for_def publicOperations_def operation_names requestTimeout_def finalityTimeout_def second_def
      is_ok_def)

lemma start_identity: "\<exists>vr. startupIdentity (start_env L) (start_cfg protocol) = Inr (vr, sample_auth, ''Org1'', ''Org1'')"
proof -
  have auth: "NewAuthorizer sample_lib (au_trust sample_auth) ''ch'' ''Org1'' start_auth 10 = Inr sample_auth"
    by (simp add: NewAuthorizer_def sample_auth_def sample_lib_def AuthConfig_Validate_def policy_for_def start_auth_def
        publicOperations_def operation_names CompilePolicy_def Identity_def ValidateIdentityTime_def
        identityKey_def fun_eq_iff)
  have "\<exists>vr. newProposalVerifier sample_lib (cf_ProposalAuth (start_cfg protocol)) = Inr vr \<and> vr_trust vr = au_trust sample_auth"
    by (simp add: newProposalVerifier_def start_cfg_def ProposalAuth_validate_def NewVerifier_def compileReader_def
        sample_lib_def sample_auth_def CompilePolicy_def)
  then obtain vr where vr: "newProposalVerifier sample_lib (cf_ProposalAuth (start_cfg protocol)) = Inr vr"
    "vr_trust vr = au_trust sample_auth" by blast
  have "ValidateOrchestrator sample_lib sample_auth ''Org1'' 10 = Inr ()"
    by (simp add: ValidateOrchestrator_def sample_Identity) (simp add: sample_lib_def sample_auth_def identityKey_def)
  then show ?thesis using vr auth start_valid[of protocol]
    by (simp add: startupIdentity_def start_env_def guard_def) (simp add: start_cfg_def)
qed

lemma start_peers: "peerConfs (start_cfg protocol) = Some (\<lparr>pc_Address = ''q:1'', pc_TLS = no_tls\<rparr>,
    \<lparr>pc_Address = ''o:1'', pc_TLS = no_tls\<rparr>, Some \<lparr>pc_Address = ''n:1'', pc_TLS = no_tls\<rparr>)"
proof -
  have "FormatInt 1 = ''1''" by code_simp
  then show ?thesis by (simp add: peerConfs_def start_cfg_def start_client_def ToPeerConf_def Endpoint_Address_def)
qed

lemma start_local: "\<exists>k s r. openLocal (start_env L) (start_cfg protocol) start_resolver conf noConnections =
    (Inr (0, k, s, r, Some 1), \<lparr>cn_attempts = 2, cn_opened = [0, 1], cn_closed = []\<rparr>)"
  by (simp add: openLocal_def start_env_def NewPeer_def open_network_def noConnections_def newShimConnector_def start_cfg_def
      NewMemoryStore_def openChaincodeResolver_def start_resolver_def)

text \<open>Without a protocol the service cannot start, and the resolver's connection stays open.\<close>

lemma start_without_protocol:
  "\<exists>e c. NewWithLoggers (start_env L) (start_cfg []) start_resolver two_orgs noConnections = (Returned (Inl e), c) \<and>
     leaked (start_env L) (start_cfg []) start_resolver noConnections = Some 1 \<and> still_open c = [1]"
proof -
  obtain vr where i: "startupIdentity (start_env L) (start_cfg []) = Inr (vr, sample_auth, ''Org1'', ''Org1'')"
    using start_identity by blast
  obtain k s r where l: "openLocal (start_env L) (start_cfg []) start_resolver \<lparr>pc_Address = ''q:1'', pc_TLS = no_tls\<rparr>
      noConnections = (Inr (0, k, s, r, Some 1), \<lparr>cn_attempts = 2, cn_opened = [0, 1], cn_closed = []\<rparr>)"
    using start_local by blast
  have p: "cf_Protocol (start_cfg []) = []" by (simp add: start_cfg_def)
  show ?thesis by (simp add: NewWithLoggers_def leaked_def Let_def i start_peers l p openClients_def NewWithSigner_def
      Peer_Close_def still_open_def)
qed

lemma start_runs:
  assumes "\<And>store. NewMemoryStore ''ch'' = Inr store \<Longrightarrow>
    \<exists>s'. syncLifecycleFromLedger (Some (query_of (start_cfg ''fabric-x'') L)) (start_cfg ''fabric-x'') None ''t'' store = Some (Inr (), s')"
  shows "\<exists>s p c. NewWithLoggers (start_env L) (start_cfg ''fabric-x'') start_resolver two_orgs noConnections =
     (Returned (Inr (s, p)), c) \<and> plain_targets (oo_remotes s)"
proof -
  let ?cfg = "start_cfg ''fabric-x''"
  obtain vr where i: "startupIdentity (start_env L) ?cfg = Inr (vr, sample_auth, ''Org1'', ''Org1'')"
    using start_identity by blast
  obtain k s r where l: "openLocal (start_env L) ?cfg start_resolver \<lparr>pc_Address = ''q:1'', pc_TLS = no_tls\<rparr>
      noConnections = (Inr (0, k, s, r, Some 1), \<lparr>cn_attempts = 2, cn_opened = [0, 1], cn_closed = []\<rparr>)"
    using start_local by blast
  have st: "NewMemoryStore ''ch'' = Inr s"
    using openLocal_owned[OF l owned_start] by (simp add: start_cfg_def)
  obtain s' where s': "syncLifecycleFromLedger (Some (query_of ?cfg L)) ?cfg None ''t'' s = Some (Inr (), s')"
    using assms[OF st] by blast
  have c: "cf_Protocol ?cfg = ''fabric-x''" "cf_RemoteOrgs ?cfg = []" by (simp_all add: start_cfg_def)
  have e: "ue_net (start_env L) = open_network" "ue_rows (start_env L) h = query_of ?cfg L"
    "ue_ctx (start_env L) = None" "ue_stamp (start_env L) = ''t''" for h by (simp_all add: start_env_def)
  obtain remotes rst where rem: "newRemoteOrchestratorResolver open_network two_orgs []
      \<lparr>cn_attempts = 5, cn_opened = [0, 1, 2, 3, 4], cn_closed = []\<rparr> = (Inr remotes, rst)" "plain_targets remotes"
    by (simp add: newRemoteOrchestratorResolver_def two_orgs_def newStaticRemoteOrchestratorResolver_def
        newOrchestratorContactCandidates_def newOrchestratorContact_def NewPeer_def open_network_def
        newDynamicRemoteOrchestratorResolver_def plain_targets_def plain_names_def)
  have dial: "NewPeer open_network conf \<lparr>cn_attempts = n, cn_opened = xs, cn_closed = ys\<rparr> =
      (Inr n, \<lparr>cn_attempts = Suc n, cn_opened = xs @ [n], cn_closed = ys\<rparr>)" for conf n xs ys
    by (simp add: NewPeer_def open_network_def)
  have cl: "openClients (start_env L) ''fabric-x'' 0 conf orderer (Some nconf) \<lparr>cn_attempts = 2, cn_opened = [0, 1], cn_closed = []\<rparr>
      = (Inr (2, 3, Some 4), \<lparr>cn_attempts = 5, cn_opened = [0, 1, 2, 3, 4], cn_closed = []\<rparr>)" for conf orderer nconf
    by (simp add: openClients_def NewWithSigner_def newSubmitter_def e dial)
  show ?thesis using rem s' by (simp add: NewWithLoggers_def Let_def i start_peers l c cl[simplified] e assemble_def)
qed

theorem startup_connections_witness:
  "\<exists>e c. NewWithLoggers (start_env (\<lambda>_. None)) (start_cfg []) start_resolver two_orgs noConnections = (Returned (Inl e), c) \<and>
     owned c {#1#}"
proof -
  obtain e c where r: "NewWithLoggers (start_env (\<lambda>_. None)) (start_cfg []) start_resolver two_orgs noConnections = (Returned (Inl e), c)"
    "leaked (start_env (\<lambda>_. None)) (start_cfg []) start_resolver noConnections = Some 1"
    using start_without_protocol by blast
  from startup_connections[OF owned_start r(1)] r show ?thesis by auto
qed

theorem startup_checked_witness:
  "\<exists>s p c. NewWithLoggers (start_env (\<lambda>_. None)) (start_cfg ''fabric-x'') start_resolver two_orgs noConnections =
     (Returned (Inr (s, p)), c) \<and> Config_Validate (start_cfg ''fabric-x'') = [] \<and> au_channelID (oo_lifecycleAuth s) = ''ch''"
proof -
  have "syncLifecycleFromLedger (Some (query_of (start_cfg ''fabric-x'') (\<lambda>_. None))) (start_cfg ''fabric-x'') None ''t'' store =
      Some (Inr (), store)" for store
    using query_of_answers[of "start_cfg ''fabric-x''" "\<lambda>_. None"] by (simp add: syncLifecycleFromLedger_def answers_def)
  then obtain s p c where r: "NewWithLoggers (start_env (\<lambda>_. None)) (start_cfg ''fabric-x'') start_resolver two_orgs
      noConnections = (Returned (Inr (s, p)), c)" using start_runs by blast
  from startup_checked[OF owned_start r] r show ?thesis by (simp add: start_cfg_def)
qed

theorem startup_mirrors_ledger_witness:
  "\<exists>L s p c i. NewWithLoggers (start_env L) (start_cfg ''fabric-x'') start_resolver two_orgs noConnections =
     (Returned (Inr (s, p)), c) \<and> definition_of (pr_store p) ''cc'' = Some (first_def, i)"
proof -
  let ?cfg = "start_cfg ''fabric-x''"
  obtain L i where L: "indexed_ledger ''ch'' L 1" "ledgerRecord ''ch'' L ''cc'' = Some (ledger_of ''ch'' first_def i)"
    using first_ledger by blast
  have ch: "cf_ChannelID ?cfg = ''ch''" by (simp add: start_cfg_def)
  have ix: "indexed_ledger (cf_ChannelID ?cfg) L 1" using L(1) ch by simp
  have "\<exists>s'. syncLifecycleFromLedger (Some (query_of ?cfg L)) ?cfg None ''t'' store = Some (Inr (), s')"
    if "NewMemoryStore ''ch'' = Inr store" for store
  proof -
    have "agrees (cf_ChannelID ?cfg) L store" by (simp add: agrees_def fresh_store(2)[OF that])
    from sync_mirrors_ledger[OF query_of_answers ix _ fresh_store(1)[OF that] this, of "''t''"] show ?thesis by auto
  qed
  from start_runs[OF this] obtain s p c where r: "NewWithLoggers (start_env L) ?cfg start_resolver two_orgs
      noConnections = (Returned (Inr (s, p)), c)" by blast
  have "answers (ue_rows (start_env L) h) ?cfg L" for h by (simp add: start_env_def query_of_answers)
  from startup_mirrors_ledger[OF owned_start r this ix]
  have "definition_of (pr_store p) ''cc'' = Some (first_def, i)"
    using L(2) by (simp add: start_env_def ch ledger_of_back)
  then show ?thesis using r by blast
qed

end
