(* ===== verification/Package_Build.thy ===== *)
theory Package_Build
  imports Lifecycle_Package
begin

section \<open>Building a chaincode package\<close>

text \<open>
  The writing half of \<^verbatim>\<open>pkg/lifecycle/package.go\<close>: a directory with a \<^verbatim>\<open>connection.json\<close>, an optional
  \<^verbatim>\<open>metadata.json\<close> and an optional \<^verbatim>\<open>META-INF\<close> tree becomes the nested archive that the reading half
  inspects.  The file system, the tar and gzip writers and the decimal text of a 64 bit float are arguments; the
  order and the names of the entries, the normalized metadata and its indented JSON are defined here.  File modes
  and times are left out: the code writes constants for them, except the mode of a directory, which no reader uses.
\<close>

subsection \<open>The surroundings\<close>

datatype file_kind = Regular | Directory | Special

datatype 'a os_result = NotExist | OsError | Found 'a

record walk_entry =
  wa_path :: string
  wa_error :: bool
  wa_kind :: file_kind

record filesystem =
  fs_Stat :: "string \<Rightarrow> file_kind os_result"
  fs_ReadFile :: "string \<Rightarrow> bytes os_result"
  fs_WalkDir :: "string \<Rightarrow> walk_entry list"

text \<open>
  A tar writer over a gzip writer over a buffer: whether the header and the body of an entry are accepted, and the
  bytes of the closed archive.
\<close>

record archive_writer =
  aw_header :: "tar_entry \<Rightarrow> bool"
  aw_body :: "tar_entry \<Rightarrow> bool"
  aw_close :: "tar_entry list \<Rightarrow> bytes option"

record PackageOptions =
  po_SourceDir :: string
  po_Label :: string

datatype build_error =
    PathRequired
  | StatPath
  | NotADirectory string
  | RequiredFile string
  | NotRegular string
  | ReadMetadataFile
  | DecodeMetadataFile
  | MetadataNotObject
  | MetadataType
  | MetadataLabel
  | ReadFileFailed string
  | StatMetaInf
  | WalkFailed
  | StatEntry string
  | EntryName package_error
  | OutsideRoot
  | UnsupportedEntry string
  | WriteHeader string
  | WriteBody string
  | CloseCode
  | ClosePackage
  | InspectGenerated package_error

subsection \<open>Indented JSON of a decoded value\<close>

text \<open>
  A Go map is printed with its keys in byte order.  Decoding an object has merged repeated names, the last one
  winning, and turned every number into a float; the maps here have the latest entry first.
\<close>

definition go_map :: "(string \<times> json) list \<Rightarrow> (string \<times> json) list" where
  "go_map m = map (\<lambda>k. (k, the (map_of m k))) (sort (remdups (map fst m)))"

primrec normal :: "(string \<Rightarrow> string) \<Rightarrow> json \<Rightarrow> json"
  and normal_elems :: "(string \<Rightarrow> string) \<Rightarrow> jsons \<Rightarrow> jsons"
  and normal_members :: "(string \<Rightarrow> string) \<Rightarrow> members \<Rightarrow> (string \<times> json) list" where
  "normal f JNull = JNull"
| "normal f (JBool b) = JBool b"
| "normal f (JNum lit) = JNum (f lit)"
| "normal f (JStr s) = JStr s"
| "normal f (JArr es) = JArr (normal_elems f es)"
| "normal f (JObj ms) = JObj (obj (go_map (normal_members f ms)))"
| "normal_elems f ENil = ENil"
| "normal_elems f (ECons v es) = ECons (normal f v) (normal_elems f es)"
| "normal_members f MNil = []"
| "normal_members f (MCons k v ms) = normal_members f ms @ [(k, normal f v)]"

text \<open>A new line at depth \<open>d\<close>, with two spaces for each level.\<close>

definition new_line :: "nat \<Rightarrow> string" where
  "new_line d = CHR 0x0A # replicate (2 * d) CHR '' ''"

primrec jindent :: "nat \<Rightarrow> json \<Rightarrow> string"
  and jindent_elems :: "nat \<Rightarrow> jsons \<Rightarrow> string"
  and jindent_members :: "nat \<Rightarrow> members \<Rightarrow> string" where
  "jindent d JNull = ''null''"
| "jindent d (JBool b) = (if b then ''true'' else ''false'')"
| "jindent d (JNum lit) = lit"
| "jindent d (JStr s) = quote_char # json_quote s @ [quote_char]"
| "jindent d (JArr es) =
     CHR ''['' # (if es = ENil then [] else new_line (Suc d) @ jindent_elems (Suc d) es @ new_line d) @ '']''"
| "jindent d (JObj ms) =
     CHR ''{'' # (if ms = MNil then [] else new_line (Suc d) @ jindent_members (Suc d) ms @ new_line d) @ ''}''"
| "jindent_elems d ENil = []"
| "jindent_elems d (ECons v es) =
     jindent d v @ (if es = ENil then [] else CHR '','' # new_line d @ jindent_elems d es)"
| "jindent_members d MNil = []"
| "jindent_members d (MCons k v ms) = quote_char # json_quote k @ quote_char # '': '' @ jindent d v @
     (if ms = MNil then [] else CHR '','' # new_line d @ jindent_members d ms)"

text \<open>\<open>json.MarshalIndent\<close> of the metadata, a map whose values are decoded JSON.\<close>

definition MarshalIndentMap :: "(string \<Rightarrow> string) \<Rightarrow> (string \<times> json) list \<Rightarrow> bytes" where
  "MarshalIndentMap f m = jindent 0 (JObj (obj (go_map (map (apsnd (normal f)) m))))"

subsection \<open>The source directory\<close>

definition filepath_Join :: "string \<Rightarrow> string \<Rightarrow> string" where
  "filepath_Join dir name = Clean (dir @ CHR ''/'' # name)"

definition cleanDir :: "filesystem \<Rightarrow> string \<Rightarrow> build_error + string" where
  "cleanDir fs path =
     (if path = [] then Inl PathRequired
      else let clean = Clean path in
        case fs_Stat fs clean of
          Found Directory \<Rightarrow> Inr clean
        | Found _ \<Rightarrow> Inl (NotADirectory clean)
        | _ \<Rightarrow> Inl StatPath)"

definition requireRegularFile :: "filesystem \<Rightarrow> string \<Rightarrow> build_error + unit" where
  "requireRegularFile fs path =
     (case fs_Stat fs path of
        Found Regular \<Rightarrow> Inr ()
      | Found _ \<Rightarrow> Inl (NotRegular path)
      | _ \<Rightarrow> Inl (RequiredFile path))"

text \<open>\<open>bytes.TrimSpace\<close> drops Unicode white space; what matters is whether anything is left.\<close>

definition blank_rune :: "string \<Rightarrow> nat" where
  "blank_rune s = (case s of [] \<Rightarrow> 0 | c # cs \<Rightarrow>
     if byte c = 32 \<or> between 9 c 13 then 1
     else if map byte (take 2 s) \<in> {[194, 133], [194, 160]} then 2
     else if map byte (take 3 s) \<in> {[225, 154, 128], [226, 128, 168], [226, 128, 169], [226, 128, 175], [226, 129, 159],
       [227, 128, 128]} then 3
     else if map byte (take 2 s) = [226, 128] \<and> length s \<ge> 3 \<and> between 128 (s ! 2) 138 then 3
     else 0)"

fun all_blank :: "nat \<Rightarrow> string \<Rightarrow> bool" where
  "all_blank 0 s = (s = [])"
| "all_blank (Suc n) s = (s = [] \<or> (0 < blank_rune s \<and> all_blank n (drop (blank_rune s) s)))"

definition blank :: "bytes \<Rightarrow> bool" where
  "blank data = all_blank (length data) data"

text \<open>The metadata file, when there is one; a file of white space counts as none.\<close>

definition readMetadata :: "filesystem \<Rightarrow> string \<Rightarrow> build_error + (string \<times> json) list" where
  "readMetadata fs sourceDir =
     (case fs_ReadFile fs (filepath_Join sourceDir ''metadata.json'') of
        NotExist \<Rightarrow> Inr []
      | OsError \<Rightarrow> Inl ReadMetadataFile
      | Found data \<Rightarrow>
          (if blank data then Inr []
           else if jparse data = Some JNull then Inl MetadataNotObject
           else require DecodeMetadataFile (UnmarshalMap data)))"

definition readAndNormalizeMetadata ::
  "filesystem \<Rightarrow> string \<Rightarrow> string \<Rightarrow> build_error + (string \<times> json) list" where
  "readAndNormalizeMetadata fs sourceDir labelOverride =
     rbind (readMetadata fs sourceDir) (\<lambda>m0.
     let m1 = (if labelOverride \<noteq> [] then (''label'', JStr labelOverride) # m0 else m0);
         m2 = (if map_of m1 ''path'' = None then (''path'', JStr []) # m1 else m1);
         m3 = (if metadataString m2 ''type'' = [] then (''type'', JStr externalChaincodeType) # m2 else m2)
     in if metadataString m3 ''type'' \<noteq> externalChaincodeType then Inl MetadataType
        else if metadataString m3 ''label'' = [] then Inl MetadataLabel
        else Inr m3)"

subsection \<open>Archives\<close>

text \<open>Entries are added to the ones written before; \<open>writeBytes\<close> is the header and the body of one file.\<close>

definition writeBytes ::
  "archive_writer \<Rightarrow> string \<Rightarrow> bytes \<Rightarrow> tar_entry list \<Rightarrow> build_error + tar_entry list" where
  "writeBytes aw name data written =
     rbind (map_error EntryName (tarName name)) (\<lambda>n.
     let hdr = \<lparr>te_Name = n, te_Typeflag = TypeReg, te_Data = Some data\<rparr> in
     if \<not> aw_header aw hdr then Inl (WriteHeader n)
     else if \<not> aw_body aw hdr then Inl (WriteBody n)
     else Inr (written @ [hdr]))"

definition addFile ::
  "archive_writer \<Rightarrow> filesystem \<Rightarrow> string \<Rightarrow> string \<Rightarrow> tar_entry list \<Rightarrow> build_error + tar_entry list" where
  "addFile aw fs path name written =
     (case fs_ReadFile fs path of
        Found data \<Rightarrow> writeBytes aw name data written
      | _ \<Rightarrow> Inl (ReadFileFailed path))"

definition addDir ::
  "archive_writer \<Rightarrow> filesystem \<Rightarrow> string \<Rightarrow> string \<Rightarrow> tar_entry list \<Rightarrow> build_error + tar_entry list" where
  "addDir aw fs path name written =
     (case fs_Stat fs path of
        Found _ \<Rightarrow>
          (let hdr = \<lparr>te_Name = name @ ''/'', te_Typeflag = TypeOther, te_Data = Some []\<rparr> in
           if \<not> aw_header aw hdr then Inl (WriteHeader name) else Inr (written @ [hdr]))
      | _ \<Rightarrow> Inl (StatEntry path))"

text \<open>\<open>filepath.Rel\<close> of cleaned paths: what both share is dropped, the rest of the base is climbed.\<close>

fun drop_shared :: "string list \<Rightarrow> string list \<Rightarrow> string list \<times> string list" where
  "drop_shared (b # bs) (t # ts) = (if b = t then drop_shared bs ts else (b # bs, t # ts))"
| "drop_shared bs ts = (bs, ts)"

definition path_parts :: "string \<Rightarrow> string list" where
  "path_parts path = (let clean = Clean path in if clean = ''.'' then [] else filter (\<lambda>w. w \<noteq> []) (split_slash clean))"

definition rooted :: "string \<Rightarrow> bool" where
  "rooted path \<longleftrightarrow> path \<noteq> [] \<and> hd path = CHR ''/''"

definition filepath_Rel :: "string \<Rightarrow> string \<Rightarrow> string option" where
  "filepath_Rel base target =
     (if rooted base \<noteq> rooted target then None
      else case drop_shared (path_parts base) (path_parts target) of
        (bs, ts) \<Rightarrow>
          (if bs \<noteq> [] \<and> hd bs = ''..'' then None
           else if bs = [] \<and> ts = [] then Some ''.''
           else Some (join_slash (replicate (length bs) ''..'' @ ts))))"

text \<open>The callback of \<open>filepath.WalkDir\<close>, over the entries it visits.\<close>

definition addEntry ::
  "archive_writer \<Rightarrow> filesystem \<Rightarrow> string \<Rightarrow> walk_entry \<Rightarrow> tar_entry list \<Rightarrow> build_error + tar_entry list" where
  "addEntry aw fs root e written =
     rbind (require OutsideRoot (filepath_Rel root (wa_path e))) (\<lambda>rel.
     rbind (map_error EntryName (tarName rel)) (\<lambda>name.
     case wa_kind e of
       Directory \<Rightarrow> addDir aw fs (wa_path e) name written
     | Regular \<Rightarrow> addFile aw fs (wa_path e) name written
     | Special \<Rightarrow> Inl (UnsupportedEntry (wa_path e))))"

fun addTree ::
  "archive_writer \<Rightarrow> filesystem \<Rightarrow> string \<Rightarrow> string \<Rightarrow> walk_entry list \<Rightarrow> tar_entry list \<Rightarrow> build_error + tar_entry list" where
  "addTree aw fs root dir [] written = Inr written"
| "addTree aw fs root dir (e # es) written =
     (if wa_error e then Inl WalkFailed
      else if wa_path e = dir then addTree aw fs root dir es written
      else rbind (addEntry aw fs root e written) (\<lambda>w. addTree aw fs root dir es w))"

definition codeEntries :: "archive_writer \<Rightarrow> filesystem \<Rightarrow> string \<Rightarrow> build_error + tar_entry list" where
  "codeEntries aw fs sourceDir =
     rbind (addFile aw fs (filepath_Join sourceDir ''connection.json'') ''connection.json'' []) (\<lambda>w.
     let metaInf = filepath_Join sourceDir ''META-INF'' in
     case fs_Stat fs metaInf of
       Found Directory \<Rightarrow> addTree aw fs sourceDir metaInf (fs_WalkDir fs metaInf) w
     | OsError \<Rightarrow> Inl StatMetaInf
     | _ \<Rightarrow> Inr w)"

definition buildCodePackage :: "archive_writer \<Rightarrow> filesystem \<Rightarrow> string \<Rightarrow> build_error + bytes" where
  "buildCodePackage aw fs sourceDir = rbind (codeEntries aw fs sourceDir) (\<lambda>w. require CloseCode (aw_close aw w))"

definition buildOuterPackage :: "archive_writer \<Rightarrow> bytes \<Rightarrow> bytes \<Rightarrow> build_error + bytes" where
  "buildOuterPackage aw metadataBytes codePackage =
     rbind (writeBytes aw ''metadata.json'' metadataBytes []) (\<lambda>w.
     rbind (writeBytes aw ''code.tar.gz'' codePackage w) (\<lambda>w.
     require ClosePackage (aw_close aw w)))"

definition BuildExternalChaincodePackage ::
  "archive_lib \<Rightarrow> archive_writer \<Rightarrow> (string \<Rightarrow> string) \<Rightarrow> filesystem \<Rightarrow> PackageOptions \<Rightarrow> build_error + PackageDescriptor" where
  "BuildExternalChaincodePackage lib aw f fs opts =
     rbind (cleanDir fs (po_SourceDir opts)) (\<lambda>sourceDir.
     rbind (requireRegularFile fs (filepath_Join sourceDir ''connection.json'')) (\<lambda>_.
     rbind (readAndNormalizeMetadata fs sourceDir (po_Label opts)) (\<lambda>metadata.
     let metadataBytes = MarshalIndentMap f metadata @ [CHR 0x0A] in
     rbind (buildCodePackage aw fs sourceDir) (\<lambda>codePackage.
     rbind (buildOuterPackage aw metadataBytes codePackage) (\<lambda>packageBytes.
     map_error InspectGenerated (InspectPackageBytes lib packageBytes))))))"

end
