(* ===== verification/Package_Guarantees.thy ===== *)
theory Package_Guarantees
  imports Package_Build
begin

section \<open>What a built package contains\<close>

text \<open>
  Indented JSON is read back, so the metadata of a built package are the normalized metadata of its directory;
  when archives read back what was written into them, the package inspects to the directory's connection and label.
\<close>

subsection \<open>Text that the reader produces is valid UTF-8\<close>

lemma utf8_append: "utf8_ok a \<Longrightarrow> utf8_ok b \<Longrightarrow> utf8_ok (a @ b)"
proof (induction a rule: utf8_ok.induct)
  case (2 c cs)
  define n where "n = rune_len (c # cs)"
  have n: "0 < n" "utf8_ok (drop (n - 1) cs)" using 2(2) by (auto simp: n_def Let_def simp del: rune_len.simps)
  have split: "(c # cs) @ b = take n (c # cs) @ (drop (n - 1) cs @ b)" using n(1) by (cases n) simp_all
  have "rune_len (take n (c # cs) @ (drop (n - 1) cs @ b)) = n" unfolding n_def by (rule rune_len_take) (use n(1) n_def in simp)
  then have len: "rune_len (c # (cs @ b)) = n" using split by (metis append_Cons)
  have "n - 1 \<le> length cs" using rune_len_le[of "c # cs"] by (simp add: n_def del: rune_len.simps)
  then have "drop (n - 1) (cs @ b) = drop (n - 1) cs @ b" by simp
  then show ?case using 2(1)[OF n_def n(2) 2(3)] n(1) len by (simp add: Let_def del: rune_len.simps)
qed simp

lemma utf8_take:
  assumes "0 < rune_len s"
  shows "utf8_ok (take (rune_len s) s)"
proof -
  obtain c r where t: "take (rune_len s) s = c # r" using assms by (cases s; cases "rune_len s") auto
  have "rune_len (c # r) = rune_len s" using rune_len_take[OF assms, of "[]"] t by simp
  moreover have "length (c # r) = rune_len s" using t rune_len_le[of s] by (metis length_take min.absorb2)
  ultimately show ?thesis using assms by (simp add: t Let_def del: rune_len.simps)
qed

lemma utf8_encode_ok:
  assumes "r < 55296 \<or> (57344 \<le> r \<and> r < 1114112)"
  shows "utf8_ok (utf8_encode r)"
proof -
  have b: "byte (char_of k) = k" if "k < 256" for k :: nat using that by simp
  consider "r < 128" | "128 \<le> r" "r < 2048" | "2048 \<le> r" "r < 65536" | "65536 \<le> r" by linarith
  then show ?thesis
  proof cases
    case 1
    then show ?thesis by (simp add: utf8_encode_def Let_def)
  next
    case 2
    then have "between 194 (char_of (192 + r div 64)) 223" "between 128 (char_of (128 + r mod 64)) 191"
      by (auto simp: between_def)
    with 2 show ?thesis by (auto simp: utf8_encode_def Let_def rune2_def)
  next
    case 3
    define a m z where "a = r div 4096" and "m = r div 64 mod 64" and "z = r mod 64"
    have a: "a = r div 64 div 64" by (simp add: a_def flip: div_mult2_eq)
    have q: "r div 64 = 64 * a + m" unfolding a m_def by (rule mult_div_mod_eq[symmetric])
    have r: "r = 4096 * a + 64 * m + z" using mult_div_mod_eq[of 64 r] q by (simp add: z_def)
    have lt: "m < 64" "z < 64" by (simp_all add: m_def z_def)
    have a16: "a < 16" using 3 r by linarith
    have e: "utf8_encode r = [char_of (224 + a), char_of (128 + m), char_of (128 + z)]"
      using 3 by (simp add: utf8_encode_def a_def m_def z_def)
    have "a = 0 \<Longrightarrow> 32 \<le> m" using 3 r lt by linarith
    moreover have "a = 13 \<Longrightarrow> m < 32" using 3 r lt assms by linarith
    ultimately have "rune3 (char_of (224 + a)) (char_of (128 + m)) (char_of (128 + z))"
      using lt a16 by (auto simp: rune3_def between_def)
    moreover have "\<not> rune2 (char_of (224 + a)) x" for x using a16 by (simp add: rune2_def between_def)
    ultimately show ?thesis using a16 by (simp add: e Let_def)
  next
    case 4
    define a l m z where "a = r div 262144" and "l = r div 4096 mod 64" and "m = r div 64 mod 64" and "z = r mod 64"
    have a: "a = r div 64 div 64 div 64" by (simp add: a_def flip: div_mult2_eq)
    have l: "l = r div 64 div 64 mod 64" by (simp add: l_def flip: div_mult2_eq)
    have p: "r div 64 div 64 = 64 * a + l" unfolding a l by (rule mult_div_mod_eq[symmetric])
    have q: "r div 64 = 64 * (64 * a + l) + m" using mult_div_mod_eq[of 64 "r div 64"] by (simp add: m_def flip: p)
    have r: "r = 262144 * a + 4096 * l + 64 * m + z" using mult_div_mod_eq[of 64 r] q by (simp add: z_def)
    have lt: "l < 64" "m < 64" "z < 64" by (simp_all add: l_def m_def z_def)
    have a5: "a < 5" using 4 r assms by linarith
    have e: "utf8_encode r = [char_of (240 + a), char_of (128 + l), char_of (128 + m), char_of (128 + z)]"
      using 4 by (simp add: utf8_encode_def a_def l_def m_def z_def)
    have "a = 0 \<Longrightarrow> 16 \<le> l" using 4 r lt by linarith
    moreover have "a = 4 \<Longrightarrow> l < 16" using r lt assms 4 by linarith
    ultimately have "rune4 (char_of (240 + a)) (char_of (128 + l)) (char_of (128 + m)) (char_of (128 + z))"
      using lt a5 by (auto simp: rune4_def between_def)
    moreover have "\<not> rune2 (char_of (240 + a)) x" "\<not> rune3 (char_of (240 + a)) x y" for x y
      using a5 by (simp_all add: rune2_def rune3_def between_def)
    ultimately show ?thesis using a5 by (simp add: e Let_def)
  qed
qed

lemma u4_bound: "u4 s = Some r \<Longrightarrow> r < 65536"
proof -
  have h: "hex_val c = Some w \<Longrightarrow> w < 16" for c w by (auto simp: hex_val_def between_def split: if_splits)
  assume "u4 s = Some r"
  then obtain a b c d rest w x y z where s: "s = a # b # c # d # rest" "hex_val a = Some w" "hex_val b = Some x"
    "hex_val c = Some y" "hex_val d = Some z" "r = 4096 * w + 256 * x + 16 * y + z"
    by (auto simp: u4_def split: list.splits option.splits)
  then show ?thesis using h[OF s(2)] h[OF s(3)] h[OF s(4)] h[OF s(5)] by linarith
qed

lemma unescape_utf8:
  assumes "unescape s = Some (out, k)"
  shows "utf8_ok out"
proof -
  have one: "utf8_ok [c]" if "byte c < 128" for c using that by (simp add: Let_def)
  have rep: "utf8_ok replacement" unfolding replacement_def by (rule utf8_encode_ok) simp
  have pair: "utf8_ok (utf8_encode c)" if "low_surrogate r rest = Some c" for r rest c
    using that by (intro utf8_encode_ok) (auto simp: low_surrogate_def split: list.splits option.splits if_splits)
  have plain: "utf8_ok (utf8_encode r)" if "u4 rest = Some r" "\<not> (55296 \<le> r \<and> r < 57344)" for r rest
    using u4_bound[OF that(1)] that(2) by (intro utf8_encode_ok) auto
  show ?thesis using assms rep pair plain one
    by (auto simp: unescape_def split: list.splits if_splits option.splits)
qed

lemma unquote_utf8: "json_unquote s = Some (v, r) \<Longrightarrow> utf8_ok v"
proof (induction s arbitrary: v r rule: json_unquote.induct)
  case (2 c cs)
  define n where "n = rune_len (c # cs)"
  have rep: "utf8_ok replacement" unfolding replacement_def by (rule utf8_encode_ok) simp
  consider "c = quote_char" | "c \<noteq> quote_char" "c = backslash" | "c \<noteq> quote_char" "c \<noteq> backslash" by blast
  then show ?case
  proof cases
    case 1
    then show ?thesis using 2(4) by simp
  next
    case e: 2
    then obtain out k v' where u: "unescape cs = Some (out, k)" "json_unquote (drop k cs) = Some (v', r)" "v = out @ v'"
      using 2(4) by (auto split: option.splits)
    have "utf8_ok v'" by (rule 2(1)[OF e u(1) refl u(2)])
    then show ?thesis using u(3) utf8_append[OF unescape_utf8[OF u(1)]] by simp
  next
    case p: 3
    then have lo: "\<not> byte c < 32" using 2(4) by (auto split: if_splits)
    show ?thesis
    proof (cases "n = 0")
      case True
      then obtain v' where v: "json_unquote cs = Some (v', r)" "v = replacement @ v'"
        using 2(4) p lo by (auto simp: n_def Let_def simp del: rune_len.simps)
      have "utf8_ok v'" by (rule 2(2)[OF p lo n_def True v(1)])
      then show ?thesis using v(2) utf8_append[OF rep] by simp
    next
      case False
      then obtain v' where v: "json_unquote (drop (n - 1) cs) = Some (v', r)" "v = take n (c # cs) @ v'"
        using 2(4) p lo by (auto simp: n_def Let_def simp del: rune_len.simps)
      have "utf8_ok v'" by (rule 2(3)[OF p lo n_def False v(1)])
      moreover have "utf8_ok (take n (c # cs))" using utf8_take[of "c # cs"] False by (simp add: n_def del: rune_len.simps)
      ultimately show ?thesis using v(2) utf8_append by simp
    qed
  qed
qed simp

lemma parsed_ok:
  "jval k s = Some (v, r) \<Longrightarrow> json_ok v"
  "jelems k s = Some (es, r) \<Longrightarrow> jsons_ok es"
  "jmembers k s = Some (ms, r) \<Longrightarrow> members_ok ms"
proof (induction k s and k s and k s arbitrary: v r and es r and ms r rule: jval_jelems_jmembers.induct)
  case (2 k s)
  obtain c cs where c: "dropWhile is_ws s = c # cs" using 2(3) by (auto split: list.splits)
  consider "c = quote_char" | "c = CHR ''{''" | "c = CHR ''[''" | "c \<notin> {quote_char, CHR ''{'', CHR ''[''}" by blast
  then show ?case
  proof cases
    case 1
    then show ?thesis using 2(3) c by (auto dest: unquote_utf8)
  next
    case o: 2
    show ?thesis
    proof (cases "dropWhile is_ws cs")
      case (Cons d ds)
      show ?thesis
      proof (cases "d = CHR ''}''")
        case False
        then obtain ms where ms: "jmembers k (d # ds) = Some (ms, r)" "v = JObj ms" using 2(3) c o Cons by auto
        have "members_ok ms" by (rule 2(1)[OF c _ o Cons False ms(1)]) (simp add: o)
        then show ?thesis using ms(2) by simp
      qed (use 2(3) c o Cons in auto)
    qed (use 2(3) c o in \<open>simp del: dropWhile_eq_Nil_conv\<close>)
  next
    case a: 3
    show ?thesis
    proof (cases "dropWhile is_ws cs")
      case (Cons d ds)
      show ?thesis
      proof (cases "d = CHR '']''")
        case False
        then obtain es where es: "jelems k (d # ds) = Some (es, r)" "v = JArr es" using 2(3) c a Cons by auto
        have "jsons_ok es" by (rule 2(2)[OF c _ _ a Cons False es(1)]) (simp_all add: a)
        then show ?thesis using es(2) by simp
      qed (use 2(3) c a Cons in auto)
    qed (use 2(3) c a in \<open>simp del: dropWhile_eq_Nil_conv\<close>)
  next
    case 4
    then show ?thesis using 2(3) c by (auto simp: Let_def split: if_splits)
  qed
next
  case (4 k s)
  then show ?case by (auto split: list.splits if_splits option.splits)
next
  case (6 k s)
  then show ?case by (auto split: list.splits if_splits option.splits) (erule unquote_utf8)+
qed simp_all

subsection \<open>Reading indented text\<close>

lemma ws_new_line [simp]: "list_all is_ws (new_line d)" "new_line d \<noteq> []"
  by (simp_all add: new_line_def is_ws_def list_all_iff)

lemma drop_ws [simp]: "list_all is_ws w \<Longrightarrow> dropWhile is_ws (w @ s) = dropWhile is_ws s"
  by (induction w) auto

lemma stops_new_line [simp]: "stops (new_line d @ r)" "stops (CHR 0x0A # r)"
  by (simp_all add: stops_def new_line_def num_char_def is_digit_def)

lemma jval_ws [simp]: "list_all is_ws w \<Longrightarrow> jval k (w @ s) = jval k s"
  by (cases k) simp_all

lemma jval_space [simp]: "jval k (CHR '' '' # s) = jval k s"
  using jval_ws[of "'' ''" k s] by (simp add: is_ws_def)

lemma jelems_ws [simp]: "list_all is_ws w \<Longrightarrow> jelems k (w @ s) = jelems k s"
  by (cases k) simp_all

lemma jmembers_ws [simp]: "list_all is_ws w \<Longrightarrow> jmembers k (w @ s) = jmembers k s"
  by (cases k) simp_all

lemma jindent_head: "json_ok v \<Longrightarrow> \<exists>c cs. jindent d v = c # cs \<and> starts c"
proof (cases v)
  case (JNum lit)
  moreover assume "json_ok v"
  ultimately obtain c cs where "lit = c # cs" and c: "is_digit c \<or> c = CHR ''-''"
    using num_ok_chars(2) [of lit] by auto
  with JNum num_head [OF c] show ?thesis by (simp add: starts_def)
qed (auto simp: starts_def is_ws_def)

lemma jindent_elems_head: "jsons_ok es \<Longrightarrow> es \<noteq> ENil \<Longrightarrow> \<exists>c cs. jindent_elems d es = c # cs \<and> starts c"
  by (cases es) (auto dest!: jindent_head[of _ d])

lemma jval_jindent:
  "json_ok v \<Longrightarrow> length (jindent d v) \<le> k \<Longrightarrow> stops rest \<Longrightarrow> jval k (jindent d v @ rest) = Some (v, rest)"
  "jsons_ok es \<Longrightarrow> es \<noteq> ENil \<Longrightarrow> length (jindent_elems d es) < k \<Longrightarrow>
     jelems k (jindent_elems d es @ new_line e @ CHR '']'' # rest) = Some (es, rest)"
  "members_ok ms \<Longrightarrow> ms \<noteq> MNil \<Longrightarrow> length (jindent_members d ms) < k \<Longrightarrow>
     jmembers k (jindent_members d ms @ new_line e @ CHR ''}'' # rest) = Some (ms, rest)"
proof (induction v and es and ms arbitrary: d k rest and d e k rest and d e k rest)
  case (JNum lit)
  then obtain k' where "k = Suc k'" using num_ok_chars(2) [of lit] by (cases k) auto
  with JNum jval_num show ?case by simp
next
  case (JArr es)
  then obtain k' where k: "k = Suc k'" by (cases k) auto
  show ?case
  proof (cases "es = ENil")
    case False
    then obtain c cs where c: "jindent_elems (Suc d) es = c # cs" "starts c"
      using jindent_elems_head[OF _ False, of "Suc d"] JArr.prems(1) by auto
    have "jelems k' (jindent_elems (Suc d) es @ new_line d @ CHR '']'' # rest) = Some (es, rest)"
      using JArr k False by (intro JArr.IH) auto
    with c k False show ?thesis by (simp add: starts_def)
  qed (simp add: k)
next
  case (JObj ms)
  then obtain k' where k: "k = Suc k'" by (cases k) auto
  show ?case
  proof (cases ms)
    case (MCons key v ms')
    then obtain cs where c: "jindent_members (Suc d) ms = quote_char # cs" by simp
    have "jmembers k' (jindent_members (Suc d) ms @ new_line d @ CHR ''}'' # rest) = Some (ms, rest)"
      using JObj k MCons by (intro JObj.IH) auto
    with c k MCons show ?thesis by simp
  qed (simp add: k)
next
  case (ECons v es)
  then obtain k' where k: "k = Suc k'" by (cases k) auto
  with ECons show ?case by (cases "es = ENil") simp_all
next
  case (MCons key v ms)
  then obtain k' where k: "k = Suc k'" by (cases k) auto
  with MCons show ?case by (cases "ms = MNil") (simp_all add: unquote_quote)
next
  case (JStr s)
  then obtain k' where "k = Suc k'" by (cases k) auto
  with JStr show ?case by (simp add: unquote_quote)
next
  case (JBool b)
  then obtain k' where "k = Suc k'" by (cases k; cases b) auto
  then show ?case by simp
next
  case JNull
  then obtain k' where "k = Suc k'" by (cases k) auto
  then show ?case by simp
qed simp_all

lemma jparse_jindent: "json_ok v \<Longrightarrow> jparse (jindent d v @ [CHR 0x0A]) = Some v"
  using jval_jindent(1)[of v d "length (jindent d v) + 2" "[CHR 0x0A]"] by (simp add: jparse_def is_ws_def)

subsection \<open>The metadata of a package\<close>

lemma go_map_lookup: "map_of (go_map m) k = map_of m k"
proof (cases "k \<in> fst ` set m")
  case True
  then have "k \<in> set (sort (remdups (map fst m)))" by simp
  moreover have "map_of (map (\<lambda>k. (k, the (map_of m k))) ks) k = (if k \<in> set ks then Some (the (map_of m k)) else None)" for ks
    by (induction ks) auto
  moreover have "map_of m k \<noteq> None" using True by (simp add: map_of_eq_None_iff)
  ultimately show ?thesis by (auto simp: go_map_def)
next
  case False
  then have "map_of m k = None" by (simp add: map_of_eq_None_iff)
  moreover have "fst ` set (go_map m) = fst ` set m" by (force simp: go_map_def)
  then have "map_of (go_map m) k = None" using False by (simp add: map_of_eq_None_iff)
  ultimately show ?thesis by simp
qed

lemma go_map_distinct: "distinct (map fst (go_map m))"
  by (simp add: go_map_def comp_def)

lemma go_map_mem: "(k, v) \<in> set (go_map m) \<Longrightarrow> (k, v) \<in> set m"
proof -
  assume kv: "(k, v) \<in> set (go_map m)"
  then have "k \<in> fst ` set m" "v = the (map_of m k)" by (auto simp: go_map_def)
  then show ?thesis by (metis map_of_SomeD map_of_eq_None_iff option.exhaust_sel)
qed

text \<open>The text of a float is a number literal that is read as a finite float again.\<close>

definition float_text :: "(string \<Rightarrow> string) \<Rightarrow> bool" where
  "float_text f \<longleftrightarrow> (\<forall>lit. num_ok lit \<and> float_ok lit \<longrightarrow> num_ok (f lit) \<and> float_ok (f lit))"

lemma anys_members: "any_members_ok (obj fs) \<longleftrightarrow> (\<forall>(k, v) \<in> set fs. any_ok v)"
  by (induction fs rule: obj.induct) auto

lemma normal_ok:
  assumes "float_text f"
  shows "json_ok v \<Longrightarrow> any_ok v \<Longrightarrow> json_ok (normal f v) \<and> any_ok (normal f v)"
    and "jsons_ok es \<Longrightarrow> anys_ok es \<Longrightarrow> jsons_ok (normal_elems f es) \<and> anys_ok (normal_elems f es)"
    and "members_ok ms \<Longrightarrow> any_members_ok ms \<Longrightarrow>
      \<forall>(k, v) \<in> set (normal_members f ms). utf8_ok k \<and> json_ok v \<and> any_ok v"
proof (induction v and es and ms)
  case (JNum lit)
  then show ?case using assms by (simp add: float_text_def)
next
  case (JObj ms)
  then have "\<forall>(k, v) \<in> set (go_map (normal_members f ms)). utf8_ok k \<and> json_ok v \<and> any_ok v"
    using go_map_mem by fastforce
  then show ?case by (auto simp: anys_members)
qed auto

definition clean_map :: "(string \<times> json) list \<Rightarrow> bool" where
  "clean_map m \<longleftrightarrow> (\<forall>(k, v) \<in> set m. utf8_ok k \<and> json_ok v \<and> any_ok v)"

lemma UnmarshalMap_clean: "UnmarshalMap data = Some m \<Longrightarrow> clean_map m"
proof -
  assume u: "UnmarshalMap data = Some m"
  show ?thesis
  proof (cases "jparse data")
    case (Some v)
    then obtain r where "jval (length data + 1) data = Some (v, r)"
      by (auto simp: jparse_def simp del: jval.simps split: option.splits if_splits)
    then have ok: "json_ok v" by (rule parsed_ok(1))
    have all: "\<forall>(k, v) \<in> set (member_list ms). utf8_ok k \<and> json_ok v \<and> any_ok v" if "members_ok ms" "any_members_ok ms" for ms
      using that by (induction ms) auto
    show ?thesis
    proof (cases v)
      case (JObj ms)
      then have "any_members_ok ms" "m = rev (member_list ms)" using u Some by (simp_all add: UnmarshalMap_def split: if_splits)
      then show ?thesis using all[of ms] ok JObj by (simp add: clean_map_def)
    qed (use u Some in \<open>simp_all add: UnmarshalMap_def clean_map_def\<close>)
  qed (use u in \<open>simp add: UnmarshalMap_def\<close>)
qed

lemma map_of_rev_distinct: "distinct (map fst xs) \<Longrightarrow> map_of (rev xs) = map_of xs"
  by (rule sym, rule map_of_inject_set[THEN iffD2]) (simp_all add: rev_map[symmetric])

text \<open>Marshalled metadata is read back with every entry normalized.\<close>

lemma UnmarshalMap_Marshal:
  assumes "float_text f" and "clean_map m"
  shows "\<exists>m'. UnmarshalMap (MarshalIndentMap f m @ [CHR 0x0A]) = Some m' \<and>
    (\<forall>k. map_of m' k = map_option (normal f) (map_of m k))"
proof -
  let ?n = "map (apsnd (normal f)) m"
  have "\<forall>(k, v) \<in> set ?n. utf8_ok k \<and> json_ok v \<and> any_ok v"
    using assms(2) normal_ok(1)[OF assms(1)] by (fastforce simp: clean_map_def)
  then have ok: "\<forall>(k, v) \<in> set (go_map ?n). utf8_ok k \<and> json_ok v \<and> any_ok v" using go_map_mem by fastforce
  then have "json_ok (JObj (obj (go_map ?n)))" by auto
  from jparse_jindent[OF this, of 0] ok
  have "UnmarshalMap (MarshalIndentMap f m @ [CHR 0x0A]) = Some (rev (go_map ?n))"
    by (auto simp: UnmarshalMap_def MarshalIndentMap_def anys_members)
  moreover have "map_of (rev (go_map ?n)) k = map_option (normal f) (map_of m k)" for k
  proof -
    have "map_of (rev (go_map ?n)) k = map_of ?n k"
      using map_of_rev_distinct[OF go_map_distinct[of ?n]] by (simp add: go_map_lookup)
    also have "\<dots> = map_option (normal f) (map_of m k)" by (induction m) auto
    finally show ?thesis .
  qed
  ultimately show ?thesis by blast
qed

subsection \<open>Names of the entries that are written\<close>

lemma split_slash_join:
  "ws \<noteq> [] \<Longrightarrow> \<forall>w \<in> set ws. CHR ''/'' \<notin> set w \<Longrightarrow> split_slash (join_slash ws) = ws"
proof (induction ws rule: join_slash.induct)
  case (2 w)
  then show ?case by (induction w) auto
next
  case (3 w v vs)
  have "split_slash (w @ CHR ''/'' # r) = w # split_slash r" if "CHR ''/'' \<notin> set w" for w r
    using that by (induction w) auto
  then show ?case using 3 by simp
qed simp

lemma split_slash_some [simp]: "split_slash s \<noteq> []"
  by (cases s) (auto split: list.splits)

lemma split_slash_snoc: "split_slash (s @ ''/'') = split_slash s @ [[]]"
  by (induction s) (auto split: list.splits)

lemma clean_plain: "\<forall>w \<in> set ws. w \<notin> {[], ''.'', ''..''} \<Longrightarrow> fold (clean_step r) ws out = rev ws @ out"
  by (induction ws arbitrary: out) (auto simp: clean_step_def)

text \<open>A checked name is stable under the check, also as the name of a directory.\<close>

lemma tarName_fix:
  assumes "tarName p = Inr n"
  shows "tarName n = Inr n" and "tarName (n @ ''/'') = Inr n"
proof -
  obtain ws where ws: "n = join_slash ws" "ws \<noteq> []" "\<forall>w \<in> set ws. CHR ''/'' \<notin> set w \<and> w \<noteq> [] \<and> w \<noteq> ''.''"
    and up: "''..'' \<in> set ws \<longrightarrow> n = ''..''" using tarName_relative[OF assms] by blast
  have "tarName n = Inr n \<and> tarName (n @ ''/'') = Inr n"
  proof (cases "n = ''..''")
    case True
    moreover have "tarName ''..'' = Inr ''..'' \<and> tarName ''../'' = Inr ''..''" by code_simp
    ultimately show ?thesis by simp
  next
    case False
    then have plain: "\<forall>w \<in> set ws. w \<notin> {[], ''.'', ''..''}" using ws up by blast
    obtain w vs where w: "ws = w # vs" using ws(2) by (cases ws) auto
    then have n0: "n \<noteq> []" "hd n \<noteq> CHR ''/''" using ws(1,3) by (cases w; cases vs; auto)+
    have sp: "split_slash n = ws" using ws by (simp add: split_slash_join)
    have "Clean n = n" using n0 ws(1,2) sp clean_plain[OF plain] by (simp add: Clean_def Let_def)
    moreover have "Clean (n @ ''/'') = n"
      using n0 ws(1,2) sp clean_plain[OF plain] by (simp add: Clean_def Let_def split_slash_snoc clean_step_def)
    moreover have "n = Clean p" "\<not> (n = ''.'' \<or> n = [] \<or> has_prefix n ''../'' \<or> has_prefix n ''/'' \<or> contains n ''/../'')"
      using assms by (auto simp: tarName_def Let_def split: if_splits)
    ultimately show ?thesis by (simp add: tarName_def Let_def)
  qed
  then show "tarName n = Inr n" and "tarName (n @ ''/'') = Inr n" by simp_all
qed

text \<open>What the code writes: files under checked names and directories.\<close>

definition good_entry :: "tar_entry \<Rightarrow> bool" where
  "good_entry e \<longleftrightarrow> te_Data e \<noteq> None \<and> (\<exists>n. tarName (te_Name e) = Inr n \<and>
     (te_Typeflag e = TypeReg \<and> te_Name e = n \<or> te_Typeflag e = TypeOther))"

definition files :: "tar_entry list \<Rightarrow> (string \<times> bytes) list" where
  "files es = concat (map (\<lambda>e. if te_Typeflag e = TypeReg then [(te_Name e, the (te_Data e))] else []) es)"

lemma readEntries_good:
  "\<forall>e \<in> set es. good_entry e \<Longrightarrow> readEntries es True acc = Inr (rev (files es) @ acc)"
proof (induction es arbitrary: acc)
  case (Cons e es)
  then obtain n where "te_Data e \<noteq> None" "tarName (te_Name e) = Inr n"
    "te_Typeflag e = TypeReg \<and> te_Name e = n \<or> te_Typeflag e = TypeOther" by (auto simp: good_entry_def)
  then show ?case using Cons by (auto simp: files_def)
qed (simp add: files_def)

text \<open>Archives read back the entries that were written.\<close>

definition reads_back :: "archive_lib \<Rightarrow> archive_writer \<Rightarrow> bool" where
  "reads_back lib aw \<longleftrightarrow> (\<forall>es b. aw_close aw es = Some b \<and> (\<forall>e \<in> set es. te_Data e \<noteq> None) \<longrightarrow>
     b \<noteq> [] \<and> al_gunzip_tar lib b = Some (es, True))"

lemma readTarGz_good:
  assumes "reads_back lib aw" and "aw_close aw es = Some b" and "\<forall>e \<in> set es. good_entry e"
  shows "b \<noteq> []" and "readTarGz lib b = Inr (rev (files es))" and "al_gunzip_tar lib b = Some (es, True)"
proof -
  have "\<forall>e \<in> set es. te_Data e \<noteq> None" using assms(3) by (auto simp: good_entry_def)
  then have r: "b \<noteq> [] \<and> al_gunzip_tar lib b = Some (es, True)" using assms(1,2) by (simp add: reads_back_def)
  then show "b \<noteq> []" "al_gunzip_tar lib b = Some (es, True)" by simp_all
  show "readTarGz lib b = Inr (rev (files es))" using r readEntries_good[OF assms(3), of "[]"] by (simp add: readTarGz_def)
qed

lemma writeBytes_good:
  assumes "writeBytes aw name data w = Inr w'"
  shows "\<exists>n. tarName name = Inr n \<and> w' = w @ [\<lparr>te_Name = n, te_Typeflag = TypeReg, te_Data = Some data\<rparr>] \<and>
    good_entry \<lparr>te_Name = n, te_Typeflag = TypeReg, te_Data = Some data\<rparr>"
  using assms tarName_fix(1) by (auto simp: writeBytes_def rbind_Inr_iff Let_def good_entry_def split: if_splits)

text \<open>The walk visits the directory and paths below it, under the names they have relative to the source.\<close>

definition walks_below :: "filesystem \<Rightarrow> string \<Rightarrow> bool" where
  "walks_below fs root \<longleftrightarrow> (let dir = filepath_Join root ''META-INF'' in
     \<forall>e \<in> set (fs_WalkDir fs dir). wa_path e = dir \<or> (\<exists>name. filepath_Rel root (wa_path e) = Some (''META-INF/'' @ name) \<and>
       tarName (''META-INF/'' @ name) = Inr (''META-INF/'' @ name)))"

lemma addEntry_good:
  assumes "addEntry aw fs root e w = Inr w'" and "filepath_Rel root (wa_path e) = Some rel" and "tarName rel = Inr rel"
  shows "\<exists>x. w' = w @ [x] \<and> good_entry x \<and> (te_Typeflag x = TypeReg \<longrightarrow> te_Name x = rel \<and>
      fs_ReadFile fs (wa_path e) = Found (the (te_Data x))) \<and> (wa_kind e = Regular \<longleftrightarrow> te_Typeflag x = TypeReg)"
proof (cases "wa_kind e")
  case Regular
  then obtain data where d: "fs_ReadFile fs (wa_path e) = Found data" "writeBytes aw rel data w = Inr w'"
    using assms by (auto simp: addEntry_def addFile_def split: os_result.splits)
  then show ?thesis using writeBytes_good[OF d(2)] assms(3) Regular by auto
next
  case Directory
  then have "w' = w @ [\<lparr>te_Name = rel @ ''/'', te_Typeflag = TypeOther, te_Data = Some []\<rparr>]"
    using assms by (auto simp: addEntry_def addDir_def Let_def split: os_result.splits if_splits)
  then show ?thesis using Directory tarName_fix(2)[OF assms(3)] by (simp add: good_entry_def)
qed (use assms in \<open>simp add: addEntry_def\<close>)

lemma addTree_good:
  assumes "addTree aw fs root dir es w = Inr w'"
    and "\<forall>e \<in> set es. wa_path e = dir \<or> (\<exists>name. filepath_Rel root (wa_path e) = Some (''META-INF/'' @ name) \<and>
       tarName (''META-INF/'' @ name) = Inr (''META-INF/'' @ name))"
  shows "\<exists>new. w' = w @ new \<and> (\<forall>x \<in> set new. good_entry x) \<and>
    (\<forall>(n, data) \<in> set (files new). \<exists>name. n = ''META-INF/'' @ name) \<and>
    (\<forall>e \<in> set es. wa_path e \<noteq> dir \<and> wa_kind e = Regular \<longrightarrow>
       (\<exists>n data. filepath_Rel root (wa_path e) = Some n \<and> fs_ReadFile fs (wa_path e) = Found data \<and> (n, data) \<in> set (files new)))"
  using assms
proof (induction es arbitrary: w)
  case (Cons e es)
  show ?case
  proof (cases "wa_path e = dir")
    case True
    then show ?thesis using Cons by (auto split: if_splits)
  next
    case False
    then obtain name w1 where n: "filepath_Rel root (wa_path e) = Some (''META-INF/'' @ name)"
      "tarName (''META-INF/'' @ name) = Inr (''META-INF/'' @ name)"
      and w1: "addEntry aw fs root e w = Inr w1" "addTree aw fs root dir es w1 = Inr w'"
      using Cons.prems by (auto simp: rbind_Inr_iff split: if_splits)
    obtain x where x: "w1 = w @ [x]" "good_entry x" "te_Typeflag x = TypeReg \<longrightarrow> te_Name x = ''META-INF/'' @ name \<and>
      fs_ReadFile fs (wa_path e) = Found (the (te_Data x))" "wa_kind e = Regular \<longleftrightarrow> te_Typeflag x = TypeReg"
      using addEntry_good[OF w1(1) n] by blast
    obtain new where new: "w' = w1 @ new" "\<forall>x \<in> set new. good_entry x"
      "\<forall>(n, data) \<in> set (files new). \<exists>name. n = ''META-INF/'' @ name"
      "\<forall>e \<in> set es. wa_path e \<noteq> dir \<and> wa_kind e = Regular \<longrightarrow> (\<exists>n data. filepath_Rel root (wa_path e) = Some n \<and>
        fs_ReadFile fs (wa_path e) = Found data \<and> (n, data) \<in> set (files new))"
      using Cons.IH[OF w1(2)] Cons.prems(2) by auto
    have f: "files (x # new) = (if te_Typeflag x = TypeReg then [(te_Name x, the (te_Data x))] else []) @ files new"
      by (simp add: files_def)
    show ?thesis
    proof (intro exI[of _ "x # new"] conjI ballI)
      show "w' = w @ x # new" using new(1) x(1) by simp
      show "good_entry y" if "y \<in> set (x # new)" for y using that new(2) x(2) by auto
      show "case y of (n, data) \<Rightarrow> \<exists>name. n = ''META-INF/'' @ name" if "y \<in> set (files (x # new))" for y
        using that new(3) x(3) by (cases "te_Typeflag x = TypeReg") (auto simp: f)
      show "wa_path e' \<noteq> dir \<and> wa_kind e' = Regular \<longrightarrow> (\<exists>n data. filepath_Rel root (wa_path e') = Some n \<and>
          fs_ReadFile fs (wa_path e') = Found data \<and> (n, data) \<in> set (files (x # new)))" if "e' \<in> set (e # es)" for e'
        using that new(4) x(3,4) n(1) by (auto simp: f)
    qed
  qed
qed (simp add: files_def)

lemma codeEntries_good:
  assumes "codeEntries aw fs root = Inr es" and "walks_below fs root"
  shows "\<exists>conn. fs_ReadFile fs (filepath_Join root ''connection.json'') = Found conn \<and> (\<forall>x \<in> set es. good_entry x) \<and>
    map_of (rev (files es)) ''connection.json'' = Some conn \<and>
    (fs_Stat fs (filepath_Join root ''META-INF'') = Found Directory \<longrightarrow>
      (\<forall>e \<in> set (fs_WalkDir fs (filepath_Join root ''META-INF'')).
         wa_path e \<noteq> filepath_Join root ''META-INF'' \<and> wa_kind e = Regular \<longrightarrow>
         (\<exists>n data. filepath_Rel root (wa_path e) = Some n \<and> fs_ReadFile fs (wa_path e) = Found data \<and> (n, data) \<in> set (files es))))"
proof -
  let ?dir = "filepath_Join root ''META-INF''"
  have n: "tarName ''connection.json'' = Inr ''connection.json''" by code_simp
  obtain w where w: "addFile aw fs (filepath_Join root ''connection.json'') ''connection.json'' [] = Inr w"
    and rest: "(case fs_Stat fs ?dir of Found Directory \<Rightarrow> addTree aw fs root ?dir (fs_WalkDir fs ?dir) w
       | OsError \<Rightarrow> Inl StatMetaInf | _ \<Rightarrow> Inr w) = Inr es"
    using assms(1) by (auto simp: codeEntries_def rbind_Inr_iff Let_def)
  obtain conn where conn: "fs_ReadFile fs (filepath_Join root ''connection.json'') = Found conn"
    "writeBytes aw ''connection.json'' conn [] = Inr w"
    using w by (auto simp: addFile_def split: os_result.splits)
  let ?c = "\<lparr>te_Name = ''connection.json'', te_Typeflag = TypeReg, te_Data = Some conn\<rparr>"
  have c: "w = [?c]" "good_entry ?c" using writeBytes_good[OF conn(2)] n by auto
  have one: "files [?c] = [(''connection.json'', conn)]" by (simp add: files_def)
  show ?thesis
  proof (cases "fs_Stat fs ?dir = Found Directory")
    case True
    then have t: "addTree aw fs root ?dir (fs_WalkDir fs ?dir) w = Inr es" using rest by simp
    obtain new where new: "es = w @ new" "\<forall>x \<in> set new. good_entry x"
      "\<forall>(n, data) \<in> set (files new). \<exists>name. n = ''META-INF/'' @ name"
      "\<forall>e \<in> set (fs_WalkDir fs ?dir). wa_path e \<noteq> ?dir \<and> wa_kind e = Regular \<longrightarrow> (\<exists>n data. filepath_Rel root (wa_path e) = Some n \<and>
        fs_ReadFile fs (wa_path e) = Found data \<and> (n, data) \<in> set (files new))"
      using addTree_good[OF t] assms(2) by (auto simp: walks_below_def Let_def)
    have f: "files es = (''connection.json'', conn) # files new" using one by (simp add: new(1) c(1) files_def)
    have "''connection.json'' \<notin> fst ` set (rev (files new))" using new(3) by force
    then have "map_of (rev (files new)) ''connection.json'' = None" by (simp add: map_of_eq_None_iff)
    then have "map_of (rev (files es)) ''connection.json'' = Some conn" by (simp add: f map_add_def)
    moreover have "\<forall>x \<in> set es. good_entry x" using new(2) c by (simp add: new(1))
    moreover have "set (files new) \<subseteq> set (files es)" by (auto simp: f)
    ultimately show ?thesis using conn(1) new(4) by blast
  next
    case False
    then have "es = w" using rest by (auto split: os_result.splits file_kind.splits)
    then show ?thesis using False conn(1) c one by simp
  qed
qed

subsection \<open>The built package\<close>

lemma metadataString_normal:
  assumes "\<forall>k. map_of m' k = map_option (normal f) (map_of m k)"
  shows "metadataString m' k = metadataString m k"
proof (cases "map_of m k")
  case (Some v)
  then show ?thesis using assms by (cases v) (simp_all add: metadataString_def)
qed (use assms in \<open>simp add: metadataString_def\<close>)

lemma normalized_metadata:
  assumes "readAndNormalizeMetadata fs root label = Inr m" and "utf8_ok label"
  shows "clean_map m" and "metadataString m ''type'' = externalChaincodeType" and "metadataString m ''label'' \<noteq> []"
    and "label \<noteq> [] \<Longrightarrow> metadataString m ''label'' = label"
proof -
  obtain m0 where m0: "readMetadata fs root = Inr m0" and run: "(let m1 = (if label \<noteq> [] then (''label'', JStr label) # m0 else m0);
         m2 = (if map_of m1 ''path'' = None then (''path'', JStr []) # m1 else m1);
         m3 = (if metadataString m2 ''type'' = [] then (''type'', JStr externalChaincodeType) # m2 else m2)
     in if metadataString m3 ''type'' \<noteq> externalChaincodeType then Inl MetadataType
        else if metadataString m3 ''label'' = [] then Inl MetadataLabel else Inr m3) = (Inr m :: build_error + _)"
    using assms(1) by (auto simp: readAndNormalizeMetadata_def rbind_Inr_iff)
  have "clean_map m0" using m0
    by (auto simp: readMetadata_def clean_map_def dest!: UnmarshalMap_clean split: os_result.splits if_splits)
  moreover have u: "utf8_ok ''label''" "utf8_ok ''path''" "utf8_ok ''type''" "utf8_ok externalChaincodeType" by code_simp+
  ultimately show "clean_map m" using run assms(2) by (auto simp: Let_def clean_map_def split: if_splits)
  show "metadataString m ''type'' = externalChaincodeType" "metadataString m ''label'' \<noteq> []"
    using run by (auto simp: Let_def split: if_splits)
  show "metadataString m ''label'' = label" if "label \<noteq> []"
    using run that by (auto simp: Let_def metadataString_def split: if_splits)
qed

lemma Inspect_parts:
  assumes "pkg \<noteq> []" and "readTarGz lib pkg = Inr [(''code.tar.gz'', code), (''metadata.json'', md)]"
    and "UnmarshalMap md = Some m" and "metadataString m ''type'' = externalChaincodeType" and "metadataString m ''label'' \<noteq> []"
    and "readTarGz lib code = Inr inner" and "map_of inner ''connection.json'' = Some conn"
  shows "InspectPackageBytes lib pkg = rbind (connectionAddress conn) (\<lambda>address.
    Inr \<lparr>pd_Label = metadataString m ''label'', pd_Type = externalChaincodeType,
      pd_PackageID = metadataString m ''label'' @ CHR '':'' # hex_encode (al_sha256 lib pkg), pd_Address = address,
      pd_MetadataJSON = md, pd_ConnectionJSON = conn, pd_PackageTGZ = pkg\<rparr>)"
  using assms by (simp add: InspectPackageBytes_def Let_def) (simp add: externalChaincodeType_def)

lemma outer_entries:
  assumes "buildOuterPackage aw md code = Inr pkg" and "reads_back lib aw"
  shows "pkg \<noteq> []" and "readTarGz lib pkg = Inr [(''code.tar.gz'', code), (''metadata.json'', md)]"
proof -
  have n: "tarName ''metadata.json'' = Inr ''metadata.json''" "tarName ''code.tar.gz'' = Inr ''code.tar.gz''" by code_simp+
  let ?m = "\<lparr>te_Name = ''metadata.json'', te_Typeflag = TypeReg, te_Data = Some md\<rparr>"
  let ?c = "\<lparr>te_Name = ''code.tar.gz'', te_Typeflag = TypeReg, te_Data = Some code\<rparr>"
  obtain w1 w2 where w: "writeBytes aw ''metadata.json'' md [] = Inr w1" "writeBytes aw ''code.tar.gz'' code w1 = Inr w2"
    "aw_close aw w2 = Some pkg" using assms(1) by (auto simp: buildOuterPackage_def rbind_Inr_iff)
  have w2: "w2 = [?m, ?c]" "good_entry ?m" "good_entry ?c"
    using writeBytes_good[OF w(1)] writeBytes_good[OF w(2)] n by auto
  then have g: "\<forall>e \<in> set w2. good_entry e" by simp
  show "pkg \<noteq> []" by (rule readTarGz_good(1)[OF assms(2) w(3) g])
  show "readTarGz lib pkg = Inr [(''code.tar.gz'', code), (''metadata.json'', md)]"
    using readTarGz_good(2)[OF assms(2) w(3) g] by (simp add: w2(1) files_def)
qed

text \<open>A writer that accepts every entry and closes every archive.\<close>

definition accepting :: "archive_writer \<Rightarrow> bool" where
  "accepting aw \<longleftrightarrow> (\<forall>e. aw_header aw e \<and> aw_body aw e) \<and> (\<forall>es. aw_close aw es \<noteq> None)"

definition addressed :: "filesystem \<Rightarrow> string \<Rightarrow> bool" where
  "addressed fs root \<longleftrightarrow>
     (\<exists>conn. fs_ReadFile fs (filepath_Join root ''connection.json'') = Found conn \<and> is_ok (connectionAddress conn))"

text \<open>The build without its definition of the directory, and what inspection gives for the parts.\<close>

lemma build_run:
  assumes "cleanDir fs (po_SourceDir opts) = Inr root"
  shows "BuildExternalChaincodePackage lib aw f fs opts =
    rbind (requireRegularFile fs (filepath_Join root ''connection.json'')) (\<lambda>_.
    rbind (readAndNormalizeMetadata fs root (po_Label opts)) (\<lambda>m.
    rbind (buildCodePackage aw fs root) (\<lambda>code.
    rbind (buildOuterPackage aw (MarshalIndentMap f m @ [CHR 0x0A]) code) (\<lambda>pkg.
    map_error InspectGenerated (InspectPackageBytes lib pkg)))))"
  using assms by (simp add: BuildExternalChaincodePackage_def Let_def)

lemma regular_iff: "requireRegularFile fs path = Inr u \<longleftrightarrow> fs_Stat fs path = Found Regular"
  by (auto simp: requireRegularFile_def split: os_result.splits file_kind.splits)

definition described :: "archive_lib \<Rightarrow> (string \<times> json) list \<Rightarrow> bytes \<Rightarrow> bytes \<Rightarrow> bytes \<Rightarrow> string \<Rightarrow> PackageDescriptor" where
  "described lib m md conn pkg address = \<lparr>pd_Label = metadataString m ''label'', pd_Type = externalChaincodeType,
     pd_PackageID = metadataString m ''label'' @ CHR '':'' # hex_encode (al_sha256 lib pkg), pd_Address = address,
     pd_MetadataJSON = md, pd_ConnectionJSON = conn, pd_PackageTGZ = pkg\<rparr>"

lemma built_parts:
  assumes "reads_back lib aw" and "float_text f" and "utf8_ok label" and "walks_below fs root"
    and m: "readAndNormalizeMetadata fs root label = Inr m" and es: "codeEntries aw fs root = Inr es"
    and c: "aw_close aw es = Some code" and p: "buildOuterPackage aw (MarshalIndentMap f m @ [CHR 0x0A]) code = Inr pkg"
  shows "\<exists>conn m'. fs_ReadFile fs (filepath_Join root ''connection.json'') = Found conn \<and>
    readTarGz lib code = Inr (rev (files es)) \<and>
    readTarGz lib pkg = Inr [(''code.tar.gz'', code), (''metadata.json'', MarshalIndentMap f m @ [CHR 0x0A])] \<and>
    UnmarshalMap (MarshalIndentMap f m @ [CHR 0x0A]) = Some m' \<and> (\<forall>k. map_of m' k = map_option (normal f) (map_of m k)) \<and>
    InspectPackageBytes lib pkg = rbind (connectionAddress conn) (\<lambda>address.
      Inr (described lib m (MarshalIndentMap f m @ [CHR 0x0A]) conn pkg address))"
proof -
  obtain conn where conn: "fs_ReadFile fs (filepath_Join root ''connection.json'') = Found conn" "\<forall>x \<in> set es. good_entry x"
    "map_of (rev (files es)) ''connection.json'' = Some conn" using codeEntries_good[OF es assms(4)] by blast
  obtain m' where m': "UnmarshalMap (MarshalIndentMap f m @ [CHR 0x0A]) = Some m'"
    "\<forall>k. map_of m' k = map_option (normal f) (map_of m k)"
    using UnmarshalMap_Marshal[OF assms(2) normalized_metadata(1)[OF m assms(3)]] by blast
  note s = metadataString_normal[OF m'(2)]
  have "metadataString m' ''type'' = externalChaincodeType" "metadataString m' ''label'' \<noteq> []"
    using normalized_metadata(2,3)[OF m assms(3)] by (simp_all add: s)
  from Inspect_parts[OF outer_entries[OF p assms(1)] m'(1) this readTarGz_good(2)[OF assms(1) c conn(2)] conn(3)]
  show ?thesis using conn(1) m' outer_entries(2)[OF p assms(1)] readTarGz_good(2)[OF assms(1) c conn(2)]
    by (auto simp: s described_def)
qed

lemma builds_exactly:
  assumes "reads_back lib aw" and "float_text f" and "utf8_ok (po_Label opts)"
    and "cleanDir fs (po_SourceDir opts) = Inr root" and "walks_below fs root" and "accepting aw"
  shows "is_ok (BuildExternalChaincodePackage lib aw f fs opts) \<longleftrightarrow>
    fs_Stat fs (filepath_Join root ''connection.json'') = Found Regular \<and> addressed fs root \<and>
    is_ok (readAndNormalizeMetadata fs root (po_Label opts)) \<and> is_ok (codeEntries aw fs root)" (is "is_ok ?build \<longleftrightarrow> ?parts")
proof
  assume "is_ok ?build"
  then obtain d where "?build = Inr d" by (auto simp: is_ok_iff)
  then obtain m es code pkg where b: "fs_Stat fs (filepath_Join root ''connection.json'') = Found Regular"
    "readAndNormalizeMetadata fs root (po_Label opts) = Inr m" "codeEntries aw fs root = Inr es" "aw_close aw es = Some code"
    "buildOuterPackage aw (MarshalIndentMap f m @ [CHR 0x0A]) code = Inr pkg" "InspectPackageBytes lib pkg = Inr d"
    by (auto simp: build_run[OF assms(4)] rbind_Inr_iff buildCodePackage_def regular_iff)
  then obtain conn where "fs_ReadFile fs (filepath_Join root ''connection.json'') = Found conn"
    "Inr d = rbind (connectionAddress conn) (\<lambda>address. Inr (described lib m (MarshalIndentMap f m @ [CHR 0x0A]) conn pkg address))"
    using built_parts[OF assms(1-3,5) b(2-5)] by auto
  then have "addressed fs root" by (cases "connectionAddress conn") (auto simp: addressed_def)
  then show ?parts using b(1-3) by (auto simp: is_ok_iff)
next
  assume a: ?parts
  then obtain m es where b: "readAndNormalizeMetadata fs root (po_Label opts) = Inr m" "codeEntries aw fs root = Inr es"
    by (auto simp: is_ok_iff)
  obtain code where code: "aw_close aw es = Some code" using assms(6) by (auto simp: accepting_def)
  have n: "tarName ''metadata.json'' = Inr ''metadata.json''" "tarName ''code.tar.gz'' = Inr ''code.tar.gz''" by code_simp+
  obtain pkg where pkg: "buildOuterPackage aw (MarshalIndentMap f m @ [CHR 0x0A]) code = Inr pkg"
    using assms(6) n by (auto simp: buildOuterPackage_def writeBytes_def accepting_def Let_def)
  have r: "requireRegularFile fs (filepath_Join root ''connection.json'') = Inr ()" using a by (simp add: regular_iff)
  show "is_ok ?build" using built_parts[OF assms(1-3,5) b code pkg] a b code pkg r
    by (auto simp: build_run[OF assms(4)] buildCodePackage_def addressed_def is_ok_iff)
qed

text \<open>C37: a package is built exactly from a directory with a regular connection file that names an address, metadata of
the external type with a label, and a META-INF tree of files and directories.  What is built inspects to itself: its
connection is the directory's file, its label the given one or else the directory's, its metadata are the normalized
metadata of the directory, and its code archive holds every regular file below META-INF with its contents.\<close>

theorem built_package_faithful:
  assumes "reads_back lib aw" and "float_text f" and "utf8_ok (po_Label opts)"
    and "cleanDir fs (po_SourceDir opts) = Inr root" and "walks_below fs root"
  shows "(accepting aw \<longrightarrow> (is_ok (BuildExternalChaincodePackage lib aw f fs opts) \<longleftrightarrow>
      fs_Stat fs (filepath_Join root ''connection.json'') = Found Regular \<and> addressed fs root \<and>
      is_ok (readAndNormalizeMetadata fs root (po_Label opts)) \<and> is_ok (codeEntries aw fs root))) \<and>
    (\<forall>d. BuildExternalChaincodePackage lib aw f fs opts = Inr d \<longrightarrow>
      InspectPackageBytes lib (pd_PackageTGZ d) = Inr d \<and>
      fs_ReadFile fs (filepath_Join root ''connection.json'') = Found (pd_ConnectionJSON d) \<and>
      (po_Label opts \<noteq> [] \<longrightarrow> pd_Label d = po_Label opts) \<and>
      (\<exists>m m'. readAndNormalizeMetadata fs root (po_Label opts) = Inr m \<and> UnmarshalMap (pd_MetadataJSON d) = Some m' \<and>
         (\<forall>k. map_of m' k = map_option (normal f) (map_of m k)) \<and> pd_Label d = metadataString m ''label'') \<and>
      (\<exists>code inner. readTarGz lib (pd_PackageTGZ d) = Inr [(''code.tar.gz'', code), (''metadata.json'', pd_MetadataJSON d)] \<and>
         readTarGz lib code = Inr inner \<and>
         (fs_Stat fs (filepath_Join root ''META-INF'') = Found Directory \<longrightarrow>
          (\<forall>e \<in> set (fs_WalkDir fs (filepath_Join root ''META-INF'')).
             wa_path e \<noteq> filepath_Join root ''META-INF'' \<and> wa_kind e = Regular \<longrightarrow>
             (\<exists>n data. filepath_Rel root (wa_path e) = Some n \<and> fs_ReadFile fs (wa_path e) = Found data \<and> (n, data) \<in> set inner)))))"
proof (intro conjI impI allI)
  let ?conn = "filepath_Join root ''connection.json''" and ?meta = "filepath_Join root ''META-INF''"
  show "is_ok (BuildExternalChaincodePackage lib aw f fs opts) \<longleftrightarrow> fs_Stat fs ?conn = Found Regular \<and> addressed fs root \<and>
      is_ok (readAndNormalizeMetadata fs root (po_Label opts)) \<and> is_ok (codeEntries aw fs root)" if "accepting aw"
    by (rule builds_exactly[OF assms that])
  fix d assume "BuildExternalChaincodePackage lib aw f fs opts = Inr d"
  then obtain m es code pkg where b: "readAndNormalizeMetadata fs root (po_Label opts) = Inr m" "codeEntries aw fs root = Inr es"
    "aw_close aw es = Some code" "buildOuterPackage aw (MarshalIndentMap f m @ [CHR 0x0A]) code = Inr pkg"
    and d: "InspectPackageBytes lib pkg = Inr d"
    by (auto simp: build_run[OF assms(4)] rbind_Inr_iff buildCodePackage_def)
  obtain conn m' where i: "fs_ReadFile fs ?conn = Found conn" "readTarGz lib code = Inr (rev (files es))"
    "readTarGz lib pkg = Inr [(''code.tar.gz'', code), (''metadata.json'', MarshalIndentMap f m @ [CHR 0x0A])]"
    "UnmarshalMap (MarshalIndentMap f m @ [CHR 0x0A]) = Some m'" "\<forall>k. map_of m' k = map_option (normal f) (map_of m k)"
    "InspectPackageBytes lib pkg = rbind (connectionAddress conn) (\<lambda>address.
      Inr (described lib m (MarshalIndentMap f m @ [CHR 0x0A]) conn pkg address))"
    using built_parts[OF assms(1-3,5) b] by blast
  obtain address where "d = described lib m (MarshalIndentMap f m @ [CHR 0x0A]) conn pkg address"
    using i(6) d by (cases "connectionAddress conn") auto
  then have f: "pd_PackageTGZ d = pkg" "pd_ConnectionJSON d = conn" "pd_Label d = metadataString m ''label''"
    "pd_MetadataJSON d = MarshalIndentMap f m @ [CHR 0x0A]" by (simp_all add: described_def)
  show "InspectPackageBytes lib (pd_PackageTGZ d) = Inr d" using d f(1) by simp
  show "fs_ReadFile fs ?conn = Found (pd_ConnectionJSON d)" using i(1) f(2) by simp
  show "pd_Label d = po_Label opts" if "po_Label opts \<noteq> []" using normalized_metadata(4)[OF b(1) assms(3) that] f(3) by simp
  show "\<exists>m m'. readAndNormalizeMetadata fs root (po_Label opts) = Inr m \<and> UnmarshalMap (pd_MetadataJSON d) = Some m' \<and>
      (\<forall>k. map_of m' k = map_option (normal f) (map_of m k)) \<and> pd_Label d = metadataString m ''label''"
    using b(1) i(4,5) unfolding f by blast
  have "fs_Stat fs ?meta = Found Directory \<longrightarrow> (\<forall>e \<in> set (fs_WalkDir fs ?meta).
      wa_path e \<noteq> ?meta \<and> wa_kind e = Regular \<longrightarrow> (\<exists>n data. filepath_Rel root (wa_path e) = Some n \<and>
        fs_ReadFile fs (wa_path e) = Found data \<and> (n, data) \<in> set (rev (files es))))"
    using codeEntries_good[OF b(2) assms(5)] unfolding set_rev by blast
  then show "\<exists>code inner. readTarGz lib (pd_PackageTGZ d) = Inr [(''code.tar.gz'', code), (''metadata.json'', pd_MetadataJSON d)] \<and>
      readTarGz lib code = Inr inner \<and> (fs_Stat fs ?meta = Found Directory \<longrightarrow> (\<forall>e \<in> set (fs_WalkDir fs ?meta).
        wa_path e \<noteq> ?meta \<and> wa_kind e = Regular \<longrightarrow> (\<exists>n data. filepath_Rel root (wa_path e) = Some n \<and>
          fs_ReadFile fs (wa_path e) = Found data \<and> (n, data) \<in> set inner)))"
    using i(2,3) unfolding f by blast
qed

subsection \<open>A directory\<close>

definition conn_text :: bytes where
  "conn_text = jprint (JObj (obj [(''address'', JStr ''h:1'')]))"

text \<open>A connection file, one index below META-INF and no metadata file.\<close>

definition cc_dir :: filesystem where
  "cc_dir = \<lparr>fs_Stat = (\<lambda>p. if p = ''cc'' \<or> p = ''cc/META-INF'' then Found Directory
       else if p = ''cc/connection.json'' then Found Regular else NotExist),
     fs_ReadFile = (\<lambda>p. if p = ''cc/connection.json'' then Found conn_text
       else if p = ''cc/META-INF/i.json'' then Found ''[]'' else NotExist),
     fs_WalkDir = (\<lambda>_. [\<lparr>wa_path = ''cc/META-INF'', wa_error = False, wa_kind = Directory\<rparr>,
       \<lparr>wa_path = ''cc/META-INF/i.json'', wa_error = False, wa_kind = Regular\<rparr>])\<rparr>"

definition cc_code :: "tar_entry list" where
  "cc_code = [\<lparr>te_Name = ''connection.json'', te_Typeflag = TypeReg, te_Data = Some conn_text\<rparr>,
     \<lparr>te_Name = ''META-INF/i.json'', te_Typeflag = TypeReg, te_Data = Some ''[]''\<rparr>]"

text \<open>Archives kept in a table: the writer closes to a name, the reader looks the name up.\<close>

definition cc_outer :: "tar_entry list" where
  "cc_outer = [\<lparr>te_Name = ''metadata.json'', te_Typeflag = TypeReg, te_Data = Some (MarshalIndentMap id
       [(''type'', JStr externalChaincodeType), (''path'', JStr []), (''label'', JStr ''basic'')] @ [CHR 0x0A])\<rparr>,
     \<lparr>te_Name = ''code.tar.gz'', te_Typeflag = TypeReg, te_Data = Some ''code''\<rparr>]"

definition cc_writer :: archive_writer where
  "cc_writer = \<lparr>aw_header = (\<lambda>_. True), aw_body = (\<lambda>_. True),
     aw_close = (\<lambda>es. if es = cc_code then Some ''code'' else if es = cc_outer then Some ''package'' else None)\<rparr>"

definition cc_archive :: archive_lib where
  "cc_archive = \<lparr>al_gunzip_tar = (\<lambda>b. if b = ''code'' then Some (cc_code, True)
       else if b = ''package'' then Some (cc_outer, True) else None), al_sha256 = (\<lambda>b. replicate 32 (hd b))\<rparr>"

theorem built_package_faithful_witness:
  "\<exists>d. BuildExternalChaincodePackage cc_archive cc_writer id cc_dir \<lparr>po_SourceDir = ''cc/'', po_Label = ''basic''\<rparr> = Inr d \<and>
     pd_Label d = ''basic'' \<and> pd_ConnectionJSON d = conn_text \<and> InspectPackageBytes cc_archive (pd_PackageTGZ d) = Inr d"
proof -
  let ?o = "\<lparr>po_SourceDir = ''cc/'', po_Label = ''basic''\<rparr>"
  have p: "Clean ''cc/'' = ''cc''" "filepath_Join ''cc'' ''connection.json'' = ''cc/connection.json''"
    "filepath_Join ''cc'' ''META-INF'' = ''cc/META-INF''" "filepath_Join ''cc'' ''metadata.json'' = ''cc/metadata.json''"
    "filepath_Rel ''cc'' ''cc/META-INF/i.json'' = Some ''META-INF/i.json''"
    "tarName ''META-INF/i.json'' = Inr ''META-INF/i.json''" "tarName ''connection.json'' = Inr ''connection.json''"
    "tarName ''metadata.json'' = Inr ''metadata.json''" "tarName ''code.tar.gz'' = Inr ''code.tar.gz''"
    "utf8_ok ''basic''" by code_simp+
  have clean: "cleanDir cc_dir (po_SourceDir ?o) = Inr ''cc''" by (simp add: cleanDir_def p cc_dir_def)
  have rb: "reads_back cc_archive cc_writer" by (auto simp: reads_back_def cc_archive_def cc_writer_def split: if_splits)
  have below: "walks_below cc_dir ''cc''" by (simp add: walks_below_def p cc_dir_def)
  have ft: "float_text id" by (simp add: float_text_def)
  let ?m = "[(''type'', JStr externalChaincodeType), (''path'', JStr []), (''label'', JStr ''basic'')]"
  have m: "readAndNormalizeMetadata cc_dir ''cc'' ''basic'' = Inr ?m"
    by (simp add: readAndNormalizeMetadata_def readMetadata_def p cc_dir_def metadataString_def externalChaincodeType_def)
  have es: "codeEntries cc_writer cc_dir ''cc'' = Inr cc_code"
    by (simp add: codeEntries_def addFile_def p cc_dir_def writeBytes_def cc_writer_def addEntry_def cc_code_def)
  have code: "aw_close cc_writer cc_code = Some ''code''" by (simp add: cc_writer_def)
  have pkg: "buildOuterPackage cc_writer (MarshalIndentMap id ?m @ [CHR 0x0A]) ''code'' = Inr ''package''"
    by (simp add: buildOuterPackage_def writeBytes_def p cc_writer_def cc_outer_def cc_code_def)
  have a: "connectionAddress conn_text = Inr ''h:1''" by code_simp
  have r: "requireRegularFile cc_dir ''cc/connection.json'' = Inr ()" "fs_ReadFile cc_dir ''cc/connection.json'' = Found conn_text"
    by (simp_all add: requireRegularFile_def cc_dir_def)
  have "\<exists>d. BuildExternalChaincodePackage cc_archive cc_writer id cc_dir ?o = Inr d"
    using built_parts[OF rb ft p(10) below m es code pkg]
    by (auto simp: build_run[OF clean] p r m es buildCodePackage_def code pkg a)
  then obtain d where d: "BuildExternalChaincodePackage cc_archive cc_writer id cc_dir ?o = Inr d" by blast
  have u: "utf8_ok (po_Label ?o)" using p(10) by simp
  from built_package_faithful[OF rb ft u clean below] d r(2) show ?thesis by (auto simp: p)
qed

end
