(* ===== verification/Chaincode_Stub.thy ===== *)
theory Chaincode_Stub
  imports Execution_Context
begin

section \<open>What a chaincode works on\<close>

text \<open>
  The sample chaincodes are written against the stub interface of the chaincode library, which is not
  part of the repository: it is the record \<open>Stub\<close>.  The facts of the transaction are constants
  of a run; the calls that send a message to the peer act on a state \<open>'s\<close>.  A Go byte slice that may be nil
  is an option.  The locale \<open>ledger_stub\<close> is what the library documents: a read gives the committed
  value whatever has been written before, a write joins the write set of the transaction.  A stub whose
  calls are requests the handler of \<open>pkg/shim\<close> answers is \<open>handlerStub\<close>; it keeps this contract over every
  state that keeps the handler's, the helper's execution context among them.
\<close>

datatype chaincode_response = Success bytes | Error_response bytes

record 's Stub =
  sb_FunctionAndParameters :: "string \<times> string list"
  sb_Args :: "bytes list"
  sb_StringArgs :: "string list"
  sb_TxID :: string
  sb_ChannelID :: string
  sb_Decorations :: "(string \<times> bytes) list"
  sb_Creator :: "orch_error + bytes"
  sb_MSPID :: "orch_error + string"
  sb_ClientID :: "orch_error + string"
  sb_Binding :: "orch_error + bytes"
  sb_Transient :: "orch_error + (string \<times> bytes) list"
  sb_TxTimestamp :: "orch_error + int \<times> int"
  sb_SignedProposal :: "orch_error + SignedProposal option"
  sb_CreateCompositeKey :: "string \<Rightarrow> string list \<Rightarrow> orch_error + string"
  sb_SplitCompositeKey :: "string \<Rightarrow> orch_error + string \<times> string list"
  sb_GetState :: "string \<Rightarrow> 's \<Rightarrow> (orch_error + bytes option) \<times> 's"
  sb_PutState :: "string \<Rightarrow> bytes \<Rightarrow> 's \<Rightarrow> (orch_error + unit) \<times> 's"
  sb_DelState :: "string \<Rightarrow> 's \<Rightarrow> (orch_error + unit) \<times> 's"
  sb_SetEvent :: "string \<Rightarrow> bytes \<Rightarrow> 's \<Rightarrow> (orch_error + unit) \<times> 's"
  sb_GetStateByRange :: "string \<Rightarrow> string \<Rightarrow> 's \<Rightarrow> (orch_error + (orch_error + bytes) list) \<times> 's"
  sb_CloseIterator :: "'s \<Rightarrow> 's"

text \<open>Chaincode code stops at the first error; steps are chained by \<open>cbind\<close>.\<close>

type_synonym ('s, 'a) stub_step = "'s \<Rightarrow> (orch_error + 'a) \<times> 's"

definition cbind :: "('s, 'a) stub_step \<Rightarrow> ('a \<Rightarrow> ('s, 'b) stub_step) \<Rightarrow> ('s, 'b) stub_step" where
  "cbind m f s = (case m s of (Inl e, s') \<Rightarrow> (Inl e, s') | (Inr x, s') \<Rightarrow> f x s')"

definition cpure :: "orch_error + 'a \<Rightarrow> ('s, 'a) stub_step" where
  "cpure r s = (r, s)"

definition mapStepError :: "(orch_error \<Rightarrow> orch_error) \<Rightarrow> ('s, 'a) stub_step \<Rightarrow> ('s, 'a) stub_step" where
  "mapStepError f m s = (case m s of (Inl e, s') \<Rightarrow> (Inl (f e), s') | (Inr x, s') \<Rightarrow> (Inr x, s'))"

lemma cbind_eq:
  "cbind m f s = (r, t) \<longleftrightarrow> (\<exists>e. m s = (Inl e, t) \<and> r = Inl e) \<or> (\<exists>x u. m s = (Inr x, u) \<and> f x u = (r, t))"
  unfolding cbind_def by (cases "m s"; cases "fst (m s)") auto

lemma cbind_pure [simp]: "cbind (cpure (Inr x)) f = f x"
  by (rule ext) (simp add: cbind_def cpure_def)

lemma cpure_eq [simp]: "cpure r s = (q, t) \<longleftrightarrow> r = q \<and> s = t"
  by (auto simp: cpure_def)

lemma mapStepError_eq:
  "mapStepError f m s = (r, t) \<longleftrightarrow> (\<exists>e. m s = (Inl e, t) \<and> r = Inl (f e)) \<or> (\<exists>x. m s = (Inr x, t) \<and> r = Inr x)"
  unfolding mapStepError_def by (cases "m s"; cases "fst (m s)") auto

subsection \<open>The documented behaviour of the stub\<close>

text \<open>The error of a call to the peer, which the code may have wrapped.\<close>

definition stub_failure :: "'s Stub \<Rightarrow> orch_error \<Rightarrow> bool" where
  "stub_failure stub e \<longleftrightarrow> (\<exists>k v s t. sb_GetState stub k s = (Inl e, t) \<or> sb_PutState stub k v s = (Inl e, t) \<or>
     sb_DelState stub k s = (Inl e, t) \<or> sb_SetEvent stub k v s = (Inl e, t))"

lemma stub_failure_intros:
  "sb_GetState stub k s = (Inl e, t) \<Longrightarrow> stub_failure stub e"
  "sb_PutState stub k v s = (Inl e, t) \<Longrightarrow> stub_failure stub e"
  "sb_DelState stub k s = (Inl e, t) \<Longrightarrow> stub_failure stub e"
  "sb_SetEvent stub k v s = (Inl e, t) \<Longrightarrow> stub_failure stub e"
  unfolding stub_failure_def by blast+

text \<open>
  \<open>committed s\<close> is the ledger a run in state \<open>s\<close> reads; once something was read (\<open>fixed s\<close>) it
  cannot change any more.  \<open>pending s\<close> is the write set: absent, deleted (\<open>Some None\<close>) or a value.
\<close>

locale ledger_stub =
  fixes stub :: "'s Stub" and sound :: "'s \<Rightarrow> bool" and fixed :: "'s \<Rightarrow> bool"
    and committed :: "'s \<Rightarrow> string \<Rightarrow> bytes option" and pending :: "'s \<Rightarrow> string \<Rightarrow> bytes option option"
  assumes get_ok: "sound s \<Longrightarrow> sb_GetState stub k s = (Inr x, s') \<Longrightarrow>
      x = committed s' k \<and> fixed s' \<and> (fixed s \<longrightarrow> committed s' = committed s)"
    and get_keeps: "sound s \<Longrightarrow> sb_GetState stub k s = (r, s') \<Longrightarrow> sound s' \<and> pending s' = pending s"
    and put_ok: "sound s \<Longrightarrow> sb_PutState stub k v s = (Inr u, s') \<Longrightarrow> sound s' \<and>
      pending s' = (pending s)(k \<mapsto> Some v) \<and> committed s' = committed s \<and> fixed s' = fixed s"
    and del_ok: "sound s \<Longrightarrow> sb_DelState stub k s = (Inr u, s') \<Longrightarrow> sound s' \<and>
      pending s' = (pending s)(k \<mapsto> None) \<and> committed s' = committed s \<and> fixed s' = fixed s"
    and event_ok: "sound s \<Longrightarrow> sb_SetEvent stub name v s = (q, s') \<Longrightarrow> sound s' \<and>
      pending s' = pending s \<and> committed s' = committed s \<and> fixed s' = fixed s"
begin

text \<open>
  A step implements a description of its answer and writes over the ledger: it succeeds with just
  these, and it fails only where the description has no answer or a call to the peer failed.
\<close>

definition implements ::
  "('s, 'a) stub_step \<Rightarrow> ((string \<Rightarrow> bytes option) \<Rightarrow> ('a \<times> (string \<Rightarrow> bytes option option)) option) \<Rightarrow> bool" where
  "implements m spec \<longleftrightarrow> (\<forall>s r t. sound s \<longrightarrow> m s = (r, t) \<longrightarrow>
     (case r of
        Inr x \<Rightarrow> sound t \<and> (\<exists>writes. spec (committed t) = Some (x, writes) \<and> pending t = pending s ++ writes)
      | Inl e \<Rightarrow> spec (committed t) = None \<or> stub_failure stub e \<or>
          (\<exists>msg e'. e = Wrapped msg e' \<and> stub_failure stub e')))"

lemma implementsI:
  assumes "\<And>s x t. sound s \<Longrightarrow> m s = (Inr x, t) \<Longrightarrow>
      sound t \<and> (\<exists>writes. spec (committed t) = Some (x, writes) \<and> pending t = pending s ++ writes)"
    and "\<And>s e t. sound s \<Longrightarrow> m s = (Inl e, t) \<Longrightarrow> spec (committed t) = None \<or> stub_failure stub e \<or>
      (\<exists>msg e'. e = Wrapped msg e' \<and> stub_failure stub e')"
  shows "implements m spec"
  using assms unfolding implements_def by (auto split: sum.splits)

lemma get_step:
  assumes "sound s" and "sb_GetState stub k s = (Inr x, t)"
  shows "sound t \<and> fixed t \<and> x = committed t k \<and> pending t = pending s \<and> (fixed s \<longrightarrow> committed t = committed s)"
  using get_ok[OF assms] get_keeps[OF assms] by blast

end

text \<open>What a transaction makes of the ledger once it is committed.\<close>

definition applyWrites :: "(string \<Rightarrow> bytes option) \<Rightarrow> (string \<Rightarrow> bytes option option) \<Rightarrow> string \<Rightarrow> bytes option" where
  "applyWrites ledger writes k = (case writes k of None \<Rightarrow> ledger k | Some x \<Rightarrow> x)"

lemma applyWrites_none [simp]: "applyWrites ledger Map.empty = ledger"
  by (rule ext) (simp add: applyWrites_def)

lemma applyWrites_upd [simp]: "applyWrites ledger (writes(k \<mapsto> x)) = (applyWrites ledger writes)(k := x)"
  by (rule ext) (simp add: applyWrites_def)

subsection \<open>A stub answered by the handler\<close>

text \<open>
  The requests the library builds, and what it refuses before it asks (an empty key, an unnamed event).
  The event stays with the chaincode until it completes.
\<close>

record stub_requests =
  sq_Get :: "string \<Rightarrow> ChaincodeMessage"
  sq_Put :: "string \<Rightarrow> bytes \<Rightarrow> ChaincodeMessage"
  sq_Del :: "string \<Rightarrow> ChaincodeMessage"
  sq_Range :: "string \<Rightarrow> string \<Rightarrow> ChaincodeMessage"
  sq_Rows :: "bytes \<Rightarrow> (orch_error + bytes) list"
  sq_Refuses :: "string \<Rightarrow> orch_error option"

definition encodes :: "shim_lib \<Rightarrow> stub_requests \<Rightarrow> bool" where
  "encodes lib q \<longleftrightarrow>
     (\<forall>k. mg_Type (sq_Get q k) = ChaincodeMessage_GET_STATE \<and> sl_GetState lib (mg_Payload (sq_Get q k)) = Some (k, [])) \<and>
     (\<forall>k v. mg_Type (sq_Put q k v) = ChaincodeMessage_PUT_STATE \<and>
        sl_PutState lib (mg_Payload (sq_Put q k v)) = Some (k, v, [])) \<and>
     (\<forall>k. mg_Type (sq_Del q k) = ChaincodeMessage_DEL_STATE \<and> sl_DelState lib (mg_Payload (sq_Del q k)) = Some (k, []))"

text \<open>An answer of type \<open>RESPONSE\<close> carries a value, any other an error; an empty value arrives as nil.\<close>

definition ask :: "shim_lib \<Rightarrow> 's State_ops \<Rightarrow> call_ctx \<Rightarrow> ChaincodeMessage \<Rightarrow> ('s \<times> 'e, bytes) stub_step" where
  "ask lib ops ctx msg st = (let (reply, s) = handleRequest lib ops ctx msg (fst st) in
     (if mg_Type reply = ChaincodeMessage_RESPONSE then Inr (mg_Payload reply) else Inl (Plain (mg_Payload reply)),
      s, snd st))"

definition allowed :: "stub_requests \<Rightarrow> string \<Rightarrow> orch_error + unit" where
  "allowed q name = (case sq_Refuses q name of None \<Rightarrow> Inr () | Some e \<Rightarrow> Inl e)"

definition nil_if_empty :: "bytes \<Rightarrow> bytes option" where
  "nil_if_empty v = (if v = [] then None else Some v)"

definition handlerStub ::
  "shim_lib \<Rightarrow> stub_requests \<Rightarrow> 's State_ops \<Rightarrow> call_ctx \<Rightarrow> ('s \<times> ShimEvent option) Stub
    \<Rightarrow> ('s \<times> ShimEvent option) Stub" where
  "handlerStub lib q ops ctx facts = facts\<lparr>
     sb_GetState := (\<lambda>k. cbind (ask lib ops ctx (sq_Get q k)) (\<lambda>v. cpure (Inr (nil_if_empty v)))),
     sb_PutState := (\<lambda>k v. cbind (cpure (allowed q k)) (\<lambda>_. cbind (ask lib ops ctx (sq_Put q k v)) (\<lambda>_. cpure (Inr ())))),
     sb_DelState := (\<lambda>k. cbind (ask lib ops ctx (sq_Del q k)) (\<lambda>_. cpure (Inr ()))),
     sb_SetEvent := (\<lambda>name v. cbind (cpure (allowed q name)) (\<lambda>_ st.
        (Inr (), fst st, Some \<lparr>se_EventName = name, se_Payload = v\<rparr>))),
     sb_GetStateByRange := (\<lambda>from until. cbind (ask lib ops ctx (sq_Range q from until)) (\<lambda>v. cpure (Inr (sq_Rows q v)))),
     sb_CloseIterator := id\<rparr>"

lemma handlerStub_sel [simp]:
  "sb_GetState (handlerStub lib q ops ctx facts) k = cbind (ask lib ops ctx (sq_Get q k)) (\<lambda>v. cpure (Inr (nil_if_empty v)))"
  "sb_PutState (handlerStub lib q ops ctx facts) k v =
     cbind (cpure (allowed q k)) (\<lambda>_. cbind (ask lib ops ctx (sq_Put q k v)) (\<lambda>_. cpure (Inr ())))"
  "sb_DelState (handlerStub lib q ops ctx facts) k = cbind (ask lib ops ctx (sq_Del q k)) (\<lambda>_. cpure (Inr ()))"
  "sb_SetEvent (handlerStub lib q ops ctx facts) k v =
     cbind (cpure (allowed q k)) (\<lambda>_ st. (Inr (), fst st, Some \<lparr>se_EventName = k, se_Payload = v\<rparr>))"
  by (simp_all add: handlerStub_def)

text \<open>Range queries, which the handler does not know, never succeed.\<close>

lemma no_range_queries:
  assumes "mg_Type (sq_Range q from until) = ChaincodeMessage_Other name"
  shows "\<exists>e. sb_GetStateByRange (handlerStub lib q ops ctx facts) from until st = (Inl e, st)"
  using assms by (cases st) (simp add: handlerStub_def cbind_def ask_def handleRequest_def sendError_def)

lemma ask_eq:
  assumes "ask lib ops ctx msg st = (r, st')"
  obtains reply where "handleRequest lib ops ctx msg (fst st) = (reply, fst st')" "snd st' = snd st"
    "r = (if mg_Type reply = ChaincodeMessage_RESPONSE then Inr (mg_Payload reply) else Inl (Plain (mg_Payload reply)))"
  using assms unfolding ask_def by (cases "handleRequest lib ops ctx msg (fst st)") auto

lemma request_kinds:
  assumes "encodes lib q"
  shows "readOf lib (sq_Get q k) = Some k" "writeOf lib (sq_Get q k) = None"
    "writeOf lib (sq_Put q k v) = Some (k, Some v)" "readOf lib (sq_Put q k v) = None"
    "writeOf lib (sq_Del q k) = Some (k, None)" "readOf lib (sq_Del q k) = None"
  using assms by (simp_all add: encodes_def readOf_def writeOf_def)

context chaincode_state
begin

lemma ask_step:
  assumes "consistent (fst st)" and "ask lib ops ctx msg st = (r, st')"
  shows "consistent (fst st') \<and> pending (fst st') = apply_write lib msg (pending (fst st)) \<and>
    (observed (fst st) \<noteq> Map.empty \<longrightarrow> snapshot (fst st') = snapshot (fst st)) \<and>
    (\<forall>v k. r = Inr v \<longrightarrow> readOf lib msg = Some k \<longrightarrow>
       v = vv_Value (snapshot (fst st') k) \<and> observed (fst st') \<noteq> Map.empty)"
proof -
  obtain reply where h: "handleRequest lib ops ctx msg (fst st) = (reply, fst st')"
    and r: "r = (if mg_Type reply = ChaincodeMessage_RESPONSE then Inr (mg_Payload reply) else Inl (Plain (mg_Payload reply)))"
    using ask_eq[OF assms(2)] .
  note step = request_step[OF assms(1) h]
  have "v = vv_Value (snapshot (fst st') k) \<and> observed (fst st') \<noteq> Map.empty"
    if v: "r = Inr v" and k: "readOf lib msg = Some k" for v k
  proof -
    have reply: "mg_Type reply = ChaincodeMessage_RESPONSE" "v = mg_Payload reply"
      using r v by (auto split: if_splits)
    then have "v = vv_Value (snapshot (fst st') k)" using step k by (auto simp: answers_from_def)
    moreover have "observed (fst st') k \<noteq> None" using step k reply(1) by (simp add: reads_key_def)
    ultimately show ?thesis by auto
  qed
  then show ?thesis using step by blast
qed

lemma put_keeps:
  assumes "encodes lib q" and "consistent (fst st)" and "ask lib ops ctx (sq_Put q k v) st = (r, st')"
  shows "snapshot (fst st') = snapshot (fst st) \<and> observed (fst st') = observed (fst st)"
  using assms by (auto simp: ask_def handleRequest_def handlePutState_def encodes_def put_snapshot put_observed
      sendError_def split: option.splits prod.splits if_splits)

lemma del_keeps:
  assumes "encodes lib q" and "consistent (fst st)" and "ask lib ops ctx (sq_Del q k) st = (r, st')"
  shows "snapshot (fst st') = snapshot (fst st) \<and> observed (fst st') = observed (fst st)"
  using assms by (auto simp: ask_def handleRequest_def handleDelState_def encodes_def del_snapshot del_observed
      sendError_def split: option.splits prod.splits if_splits)

end

sublocale chaincode_state \<subseteq> stub: ledger_stub "handlerStub lib q ops ctx facts"
    "\<lambda>st. encodes lib q \<and> consistent (fst st)" "\<lambda>st. observed (fst st) \<noteq> Map.empty"
    "\<lambda>st k. nil_if_empty (vv_Value (snapshot (fst st) k))" "\<lambda>st. pending (fst st)" for lib q ctx facts
proof unfold_locales
  fix s s' :: "'s \<times> ShimEvent option" and k v
  assume s: "encodes lib q \<and> consistent (fst s)"
  show "r = nil_if_empty (vv_Value (snapshot (fst s') k)) \<and> observed (fst s') \<noteq> Map.empty \<and>
      (observed (fst s) \<noteq> Map.empty \<longrightarrow>
        (\<lambda>k. nil_if_empty (vv_Value (snapshot (fst s') k))) = (\<lambda>k. nil_if_empty (vv_Value (snapshot (fst s) k))))"
    if "sb_GetState (handlerStub lib q ops ctx facts) k s = (Inr r, s')" for r
    using that s ask_step[of s lib ctx "sq_Get q k" "Inr _" s'] request_kinds(1)[of lib q k]
    by (auto simp: cbind_eq)
  show "(encodes lib q \<and> consistent (fst s')) \<and> pending (fst s') = pending (fst s)"
    if "sb_GetState (handlerStub lib q ops ctx facts) k s = (r, s')" for r
    using that s ask_step[of s lib ctx "sq_Get q k" _ s'] request_kinds(2)[of lib q k]
    by (auto simp: cbind_eq apply_write_def)
  show "(encodes lib q \<and> consistent (fst s')) \<and> pending (fst s') = (pending (fst s))(k \<mapsto> Some v) \<and>
      (\<lambda>k. nil_if_empty (vv_Value (snapshot (fst s') k))) = (\<lambda>k. nil_if_empty (vv_Value (snapshot (fst s) k))) \<and>
      (observed (fst s') \<noteq> Map.empty) = (observed (fst s) \<noteq> Map.empty)"
    if "sb_PutState (handlerStub lib q ops ctx facts) k v s = (Inr u, s')" for u
    using that s ask_step[of s lib ctx "sq_Put q k v" "Inr _" s'] put_keeps[of lib q s ctx k v "Inr _" s']
      request_kinds(3)[of lib q k v]
    by (auto simp: cbind_eq apply_write_def)
  show "(encodes lib q \<and> consistent (fst s')) \<and> pending (fst s') = (pending (fst s))(k \<mapsto> None) \<and>
      (\<lambda>k. nil_if_empty (vv_Value (snapshot (fst s') k))) = (\<lambda>k. nil_if_empty (vv_Value (snapshot (fst s) k))) \<and>
      (observed (fst s') \<noteq> Map.empty) = (observed (fst s) \<noteq> Map.empty)"
    if "sb_DelState (handlerStub lib q ops ctx facts) k s = (Inr u, s')" for u
    using that s ask_step[of s lib ctx "sq_Del q k" "Inr _" s'] del_keeps[of lib q s ctx k "Inr _" s']
      request_kinds(5)[of lib q k]
    by (auto simp: cbind_eq apply_write_def)
  show "(encodes lib q \<and> consistent (fst s')) \<and> pending (fst s') = pending (fst s) \<and>
      (\<lambda>k. nil_if_empty (vv_Value (snapshot (fst s') k))) = (\<lambda>k. nil_if_empty (vv_Value (snapshot (fst s) k))) \<and>
      (observed (fst s') \<noteq> Map.empty) = (observed (fst s) \<noteq> Map.empty)"
    if "sb_SetEvent (handlerStub lib q ops ctx facts) name v s = (r, s')" for name r
    using that s by (auto simp: cbind_eq)
qed

end
