(* ===== verification/Sample_Chaincodes.thy ===== *)
theory Sample_Chaincodes
  imports Chaincode_Stub
begin

section \<open>The sample key/value chaincodes\<close>

text \<open>
  \<open>sample_external_chaincode/cmd/server\<close> and \<open>cmd/e2e-server\<close>: two chaincodes that exercise the shim.  An
  error of the code becomes an error response; its text is the error itself.  JSON objects built from Go
  maps have their members in key order.  The environment variables of the end-to-end chaincode are
  arguments: the outcome of its configured delay and its mismatch marker.
\<close>

datatype chaincode_response = Success bytes | Error_response orch_error

definition respond :: "('s, bytes) stub_step \<Rightarrow> 's \<Rightarrow> chaincode_response \<times> 's" where
  "respond m s = (case m s of (Inl e, s') \<Rightarrow> (Error_response e, s') | (Inr payload, s') \<Rightarrow> (Success payload, s'))"

lemma respond_Success: "respond m s = (Success p, t) \<longleftrightarrow> m s = (Inr p, t)"
  by (cases "m s"; cases "fst (m s)") (auto simp: respond_def)

lemma respond_Error: "respond m s = (Error_response e, t) \<longleftrightarrow> m s = (Inl e, t)"
  by (cases "m s"; cases "fst (m s)") (auto simp: respond_def)

definition wrong :: "string \<Rightarrow> ('s, 'a) stub_step" where
  "wrong msg = cpure (Inl (Plain msg))"

subsection \<open>Values of the answers\<close>

definition value_or_empty :: "bytes option \<Rightarrow> bytes" where
  "value_or_empty v = (case v of None \<Rightarrow> [] | Some b \<Rightarrow> b)"

definition nullableString :: "bytes option \<Rightarrow> json" where
  "nullableString v = (case v of None \<Rightarrow> JNull | Some s \<Rightarrow> JStr s)"

definition json_strings :: "string list \<Rightarrow> json" where
  "json_strings ss = JArr (json_array (map JStr ss))"

definition json_map :: "(string \<times> json) list \<Rightarrow> json" where
  "json_map entries = JObj (obj (sort_key fst entries))"

definition byteArgsToStrings :: "bytes list \<Rightarrow> json" where
  "byteArgsToStrings args = json_strings args"

definition byteMapToStrings :: "(string \<times> bytes) list \<Rightarrow> json" where
  "byteMapToStrings values = json_map (map (\<lambda>(k, v). (k, JStr v)) values)"

text \<open>\<open>strings.ToLower\<close> on the letters the names of functions are made of.\<close>

definition ToLower :: "string \<Rightarrow> string" where
  "ToLower s = map (\<lambda>c. if between 65 c 90 then char_of (byte c + 32) else c) s"

text \<open>The proleptic Gregorian date of a day counted from 1970.\<close>

definition civil :: "int \<Rightarrow> int \<times> int \<times> int" where
  "civil days =
     (let z = days + 719468; era = z div 146097; doe = z mod 146097;
          yoe = (doe - doe div 1460 + doe div 36524 - doe div 146096) div 365;
          doy = doe - (365 * yoe + yoe div 4 - yoe div 100);
          mp = (5 * doy + 2) div 153; d = doy - (153 * mp + 2) div 5 + 1;
          m = (if mp < 10 then mp + 3 else mp - 9)
      in (yoe + era * 400 + (if m \<le> 2 then 1 else 0), m, d))"

definition padded :: "nat \<Rightarrow> int \<Rightarrow> string" where
  "padded w n = (let s = FormatUint (nat \<bar>n\<bar>) in
     (if n < 0 then ''-'' else []) @ replicate (w - length s) CHR ''0'' @ s)"

definition fraction :: "int \<Rightarrow> string" where
  "fraction nanos = (if nanos = 0 then []
     else CHR ''.'' # rev (dropWhile (\<lambda>c. c = CHR ''0'') (rev (padded 9 nanos))))"

definition rfc3339 :: "int \<Rightarrow> int \<Rightarrow> string" where
  "rfc3339 seconds nanos =
     (let t = seconds + nanos div 1000000000; (y, m, d) = civil (t div 86400); r = t mod 86400 in
      padded 4 y @ ''-'' @ padded 2 m @ ''-'' @ padded 2 d @ ''T'' @ padded 2 (r div 3600) @ '':'' @
      padded 2 (r div 60 mod 60) @ '':'' @ padded 2 (r mod 60) @ fraction (nanos mod 1000000000) @ ''Z'')"

definition timestampString :: "int \<Rightarrow> int \<Rightarrow> string" where
  "timestampString seconds nanos = (if seconds = 0 \<and> nanos = 0 then [] else rfc3339 seconds nanos)"

subsection \<open>The compatibility sequence\<close>

text \<open>The reads and writes the compatibility functions all make, and what they saw.\<close>

record compat_values =
  cv_committedOld :: "bytes option"
  cv_committedDelete :: "bytes option"
  cv_old :: "bytes option"
  cv_afterPut :: "bytes option"
  cv_deleteOld :: "bytes option"
  cv_afterDelete :: "bytes option"

definition compatSequence :: "'s Stub \<Rightarrow> string \<Rightarrow> string \<Rightarrow> string \<Rightarrow> ('s, compat_values) stub_step" where
  "compatSequence stub key value deleteKey =
     cbind (sb_GetState stub key) (\<lambda>committedOld.
     cbind (sb_GetState stub deleteKey) (\<lambda>committedDelete.
     cbind (sb_PutState stub key ''old-value'') (\<lambda>_.
     cbind (sb_GetState stub key) (\<lambda>old.
     cbind (sb_PutState stub key value) (\<lambda>_.
     cbind (sb_GetState stub key) (\<lambda>afterPut.
     cbind (sb_PutState stub deleteKey ''delete-me'') (\<lambda>_.
     cbind (sb_GetState stub deleteKey) (\<lambda>deleteOld.
     cbind (sb_DelState stub deleteKey) (\<lambda>_.
     cbind (sb_GetState stub deleteKey) (\<lambda>afterDelete.
     cpure (Inr \<lparr>cv_committedOld = committedOld, cv_committedDelete = committedDelete, cv_old = old,
       cv_afterPut = afterPut, cv_deleteOld = deleteOld, cv_afterDelete = afterDelete\<rparr>)))))))))))"

definition compatFields :: "compat_values \<Rightarrow> (string \<times> json) list" where
  "compatFields vs = [
     (''committed_old_value'', nullableString (cv_committedOld vs)),
     (''committed_delete_old_value'', nullableString (cv_committedDelete vs)),
     (''seed_old_value'', JStr ''old-value''),
     (''seed_delete_value'', JStr ''delete-me''),
     (''old_value'', nullableString (cv_old vs)),
     (''after_put_value'', nullableString (cv_afterPut vs)),
     (''delete_old_value'', nullableString (cv_deleteOld vs)),
     (''after_delete_value'', nullableString (cv_afterDelete vs))]"

definition transactionFields :: "'s Stub \<Rightarrow> (string \<times> json) list" where
  "transactionFields stub = (let (function, params) = sb_FunctionAndParameters stub in [
     (''function'', JStr function), (''parameters'', json_strings params),
     (''tx_id'', JStr (sb_TxID stub)), (''channel_id'', JStr (sb_ChannelID stub))])"

definition argumentFields :: "'s Stub \<Rightarrow> (string \<times> json) list" where
  "argumentFields stub = [
     (''args'', byteArgsToStrings (sb_Args stub)), (''string_args'', json_strings (sb_StringArgs stub))]"

definition compositeFields :: "'s Stub \<Rightarrow> string \<Rightarrow> string \<Rightarrow> string \<Rightarrow> orch_error + (string \<times> json) list" where
  "compositeFields stub name key deleteKey =
     rbind (sb_CreateCompositeKey stub name [key, deleteKey]) (\<lambda>compositeKey.
     rbind (sb_SplitCompositeKey stub compositeKey) (\<lambda>(objectType, attributes).
     Inr [(''composite_key'', JStr compositeKey), (''split_object_type'', JStr objectType),
       (''split_attributes'', json_strings attributes),
       (''ok_status'', JNum (FormatInt 200)), (''error_status'', JNum (FormatInt 500))]))"

definition compatEvent :: "'s Stub \<Rightarrow> string \<Rightarrow> string \<Rightarrow> string \<Rightarrow> bytes" where
  "compatEvent stub key value deleteKey = jprint (json_map [
     (''function'', JStr (fst (sb_FunctionAndParameters stub))), (''key'', JStr key), (''value'', JStr value),
     (''deleted_key'', JStr deleteKey)])"

definition json_int :: "int \<Rightarrow> json" where
  "json_int n = JNum (FormatInt n)"

text \<open>What the later functions also report of the caller and the proposal.\<close>

definition identityFields :: "'s Stub \<Rightarrow> orch_error + (string \<times> json) list" where
  "identityFields stub =
     rbind (sb_Creator stub) (\<lambda>creator.
     rbind (sb_MSPID stub) (\<lambda>clientMSPID.
     rbind (sb_ClientID stub) (\<lambda>clientID.
     rbind (sb_Binding stub) (\<lambda>binding.
     rbind (sb_Transient stub) (\<lambda>transient.
     rbind (sb_TxTimestamp stub) (\<lambda>(seconds, nanos).
     rbind (sb_SignedProposal stub) (\<lambda>proposal.
     Inr [
       (''creator_bytes'', json_int (int (length creator))),
       (''creator_base64'', JStr (b64_encode creator)),
       (''client_id'', JStr clientID),
       (''client_msp_id'', JStr clientMSPID),
       (''binding_bytes'', json_int (int (length binding))),
       (''binding_base64'', JStr (b64_encode binding)),
       (''transient'', byteMapToStrings transient),
       (''transient_count'', json_int (int (length transient))),
       (''tx_timestamp_seconds'', json_int seconds),
       (''tx_timestamp_nanos'', json_int nanos),
       (''tx_timestamp_rfc3339'', JStr (timestampString seconds nanos)),
       (''decorations'', byteMapToStrings (sb_Decorations stub)),
       (''signed_proposal_present'', JBool (proposal \<noteq> None)),
       (''signed_proposal_bytes'', json_int (case proposal of None \<Rightarrow> 0 | Some p \<Rightarrow> int (length (sp_ProposalBytes p)))),
       (''signed_proposal_signature_bytes'', json_int (case proposal of None \<Rightarrow> 0 | Some p \<Rightarrow> int (length (sp_Signature p))))])))))))"

subsection \<open>SimpleKVChaincode\<close>

definition SimpleKV_Init :: "'s Stub \<Rightarrow> 's \<Rightarrow> chaincode_response \<times> 's" where
  "SimpleKV_Init stub = respond (let (fn, args) = sb_FunctionAndParameters stub in
     (case args of
        [key, value] \<Rightarrow>
          (if fn \<noteq> ''initialize'' then wrong ''initialize expects 2 arguments: key value''
           else cbind (sb_PutState stub key value) (\<lambda>_. cpure (Inr [])))
      | _ \<Rightarrow> wrong ''initialize expects 2 arguments: key value''))"

definition kv_get :: "'s Stub \<Rightarrow> string list \<Rightarrow> ('s, bytes) stub_step" where
  "kv_get stub args = (case args of
       [key] \<Rightarrow> cbind (sb_GetState stub key) (\<lambda>value. cpure (Inr (value_or_empty value)))
     | _ \<Rightarrow> wrong ''get expects 1 argument: key'')"

definition kv_put :: "'s Stub \<Rightarrow> string list \<Rightarrow> ('s, bytes) stub_step" where
  "kv_put stub args = (case args of
       [key, value] \<Rightarrow> cbind (sb_PutState stub key value) (\<lambda>_. cpure (Inr value))
     | _ \<Rightarrow> wrong ''put expects 2 arguments: key value'')"

definition kv_putget :: "'s Stub \<Rightarrow> string list \<Rightarrow> ('s, bytes) stub_step" where
  "kv_putget stub args = (case args of
       [key, value] \<Rightarrow>
         cbind (sb_GetState stub key) (\<lambda>oldValue.
         cbind (sb_PutState stub key value) (\<lambda>_. cpure (Inr (value_or_empty oldValue))))
     | _ \<Rightarrow> wrong ''putget expects 2 arguments: key value'')"

definition kv_del :: "'s Stub \<Rightarrow> string list \<Rightarrow> ('s, bytes) stub_step" where
  "kv_del stub args = (case args of
       [key] \<Rightarrow> cbind (sb_DelState stub key) (\<lambda>_. cpure (Inr []))
     | _ \<Rightarrow> wrong ''del expects 1 argument: key'')"

definition kv_context :: "'s Stub \<Rightarrow> ('s, bytes) stub_step" where
  "kv_context stub = cpure (Inr (jprint (json_map (argumentFields stub @ transactionFields stub))))"

definition compatv1 :: "'s Stub \<Rightarrow> string list \<Rightarrow> ('s, bytes) stub_step" where
  "compatv1 stub args = (case args of
       [key, value, deleteKey] \<Rightarrow>
         cbind (compatSequence stub key value deleteKey) (\<lambda>values.
         cbind (cpure (compositeFields stub ''compatv1'' key deleteKey)) (\<lambda>composite.
         cbind (sb_SetEvent stub ''compatv1-event'' (compatEvent stub key value deleteKey)) (\<lambda>_.
         cpure (Inr (jprint (json_map (argumentFields stub @ transactionFields stub @ compatFields values @ composite)))))))
     | _ \<Rightarrow> wrong ''compatv1 expects 3 arguments: key value delete_key'')"

definition compatv2 :: "'s Stub \<Rightarrow> string list \<Rightarrow> ('s, bytes) stub_step" where
  "compatv2 stub args = (case args of
       [key, value, deleteKey] \<Rightarrow>
         cbind (compatSequence stub key value deleteKey) (\<lambda>values.
         cbind (cpure (compositeFields stub ''compatv2'' key deleteKey)) (\<lambda>composite.
         cbind (cpure (identityFields stub)) (\<lambda>identity.
         cbind (sb_SetEvent stub ''compatv2-event'' (compatEvent stub key value deleteKey)) (\<lambda>_.
         cpure (Inr (jprint (json_map (argumentFields stub @ transactionFields stub @ identity @
           compatFields values @ composite))))))))
     | _ \<Rightarrow> wrong ''compatv2 expects 3 arguments: key value delete_key'')"

definition compat_v3 :: "'s Stub \<Rightarrow> string list \<Rightarrow> ('s, bytes) stub_step" where
  "compat_v3 stub args = (case args of
       [key, value, deleteKey] \<Rightarrow>
         cbind (compatSequence stub key value deleteKey) (\<lambda>values.
         cbind (cpure (compositeFields stub ''compat-v3'' key deleteKey)) (\<lambda>composite.
         cbind (cpure (identityFields stub)) (\<lambda>identity.
         cbind (sb_SetEvent stub ''compat-v3-event'' (compatEvent stub key value deleteKey)) (\<lambda>_.
         cpure (Inr (jprint (json_map (argumentFields stub @ transactionFields stub @ identity @
           compatFields values @ composite))))))))
     | _ \<Rightarrow> wrong ''compat-v3 expects 3 arguments: key value delete_key'')"

definition SimpleKV_Invoke :: "'s Stub \<Rightarrow> 's \<Rightarrow> chaincode_response \<times> 's" where
  "SimpleKV_Invoke stub = respond (let (fn, args) = sb_FunctionAndParameters stub; f = ToLower fn in
     if f = ''get'' then kv_get stub args
     else if f = ''put'' then kv_put stub args
     else if f = ''putget'' then kv_putget stub args
     else if f = ''del'' then kv_del stub args
     else if f = ''context'' then kv_context stub
     else if f = ''compatv1'' then compatv1 stub args
     else if f = ''compatv2'' then compatv2 stub args
     else if f = ''compat-v3'' then compat_v3 stub args
     else if f = ''compaterror'' then wrong ''compat error requested''
     else wrong (''unknown function '' @ fn))"

subsection \<open>E2EChaincode\<close>

definition E2E_Init :: "'s Stub \<Rightarrow> 's \<Rightarrow> chaincode_response \<times> 's" where
  "E2E_Init stub = respond (let (fn, args) = sb_FunctionAndParameters stub in
     (case args of
        [key, value] \<Rightarrow>
          (if fn \<noteq> ''initialize'' then wrong ''Init expects initialize with key and value''
           else if value = ''noop-init'' then cpure (Inr [])
           else cbind (sb_PutState stub key value) (\<lambda>_.
             if value = ''fail-init'' then wrong ''deliberate initialization failure''
             else cbind (sb_SetEvent stub ''initialized'' value) (\<lambda>_. cpure (Inr ''init-called''))))
      | _ \<Rightarrow> wrong ''Init expects initialize with key and value''))"

record e2e_environment =
  ee_Sleep :: "orch_error option"
  ee_Mismatch :: string

definition sleepIfConfigured :: "e2e_environment \<Rightarrow> ('s, unit) stub_step" where
  "sleepIfConfigured env = cpure (case ee_Sleep env of None \<Rightarrow> Inr () | Some e \<Rightarrow> Inl e)"

definition E2E_compatv2 :: "e2e_environment \<Rightarrow> 's Stub \<Rightarrow> string \<Rightarrow> string \<Rightarrow> string \<Rightarrow> ('s, bytes) stub_step" where
  "E2E_compatv2 env stub key value deleteKey =
     cbind (compatSequence stub key value deleteKey) (\<lambda>values.
     let marker = (if ee_Mismatch env = [] then [] else [(''mismatch_marker'', JStr (ee_Mismatch env))]) in
     cbind (sb_SetEvent stub ''compatv2-event'' (compatEvent stub key value deleteKey)) (\<lambda>_.
     cpure (Inr (jprint (json_map (transactionFields stub @ compatFields values @ marker))))))"

definition E2E_Invoke :: "e2e_environment \<Rightarrow> 's Stub \<Rightarrow> 's \<Rightarrow> chaincode_response \<times> 's" where
  "E2E_Invoke env stub = respond (let (fn, args) = sb_FunctionAndParameters stub; f = ToLower fn in
     if f = ''get'' then kv_get stub args
     else if f = ''compatv2'' then
       (case args of
          [key, value, deleteKey] \<Rightarrow> cbind (sleepIfConfigured env) (\<lambda>_. E2E_compatv2 env stub key value deleteKey)
        | _ \<Rightarrow> wrong ''compatv2 expects 3 arguments: key value delete_key'')
     else wrong (''unknown function '' @ fn))"

end
