(* ===== verification/Sample_Guarantees.thy ===== *)
theory Sample_Guarantees
  imports Sample_Chaincodes Helper_Guarantees
begin

section \<open>What the sample chaincode does to the ledger\<close>

text \<open>
  The functions of \<open>SimpleKVChaincode\<close> implement a description over the committed ledger: every value
  they report is the committed one, whatever they wrote before, and their writes are those of the
  description.  The lemmas are proved for any stub that behaves as documented; the property is about the
  stub whose calls the handler answers from the helper's execution context.
\<close>

definition compat_view :: "(string \<Rightarrow> bytes option) \<Rightarrow> string \<Rightarrow> string \<Rightarrow> compat_values" where
  "compat_view L key deleteKey = \<lparr>cv_committedOld = L key, cv_committedDelete = L deleteKey,
     cv_old = L key, cv_afterPut = L key, cv_deleteOld = L deleteKey, cv_afterDelete = L deleteKey\<rparr>"

definition compat_identity :: "'s Stub \<Rightarrow> string \<Rightarrow> orch_error + (string \<times> json) list" where
  "compat_identity stub f = (if f = ''compatv1'' then Inr [] else identityFields stub)"

definition compat_answer ::
  "'s Stub \<Rightarrow> string \<Rightarrow> string list \<Rightarrow> (string \<Rightarrow> bytes option) \<Rightarrow> (bytes \<times> (string \<Rightarrow> bytes option option)) option" where
  "compat_answer stub f args L = (case args of
       [key, value, deleteKey] \<Rightarrow>
         (case (compositeFields stub f key deleteKey, compat_identity stub f) of
            (Inr composite, Inr identity) \<Rightarrow>
              Some (jprint (json_map (argumentFields stub @ transactionFields stub @ identity @
                      compatFields (compat_view L key deleteKey) @ composite)),
                    [key \<mapsto> Some value, deleteKey \<mapsto> None])
          | _ \<Rightarrow> None)
     | _ \<Rightarrow> None)"

definition kv_answer ::
  "'s Stub \<Rightarrow> string \<Rightarrow> string list \<Rightarrow> (string \<Rightarrow> bytes option) \<Rightarrow> (bytes \<times> (string \<Rightarrow> bytes option option)) option" where
  "kv_answer stub f args L =
     (if f = ''get'' then (case args of [key] \<Rightarrow> Some (value_or_empty (L key), Map.empty) | _ \<Rightarrow> None)
      else if f = ''put'' then (case args of [key, value] \<Rightarrow> Some (value, [key \<mapsto> Some value]) | _ \<Rightarrow> None)
      else if f = ''putget''
      then (case args of [key, value] \<Rightarrow> Some (value_or_empty (L key), [key \<mapsto> Some value]) | _ \<Rightarrow> None)
      else if f = ''del'' then (case args of [key] \<Rightarrow> Some ([], [key \<mapsto> None]) | _ \<Rightarrow> None)
      else if f = ''context'' then Some (jprint (json_map (argumentFields stub @ transactionFields stub)), Map.empty)
      else if f \<in> {''compatv1'', ''compatv2'', ''compat-v3''} then compat_answer stub f args L
      else None)"

context ledger_stub
begin

lemma wrong_implements: "implements (wrong msg) (\<lambda>L. None)"
  by (rule implementsI) (simp_all add: wrong_def)

lemma get_implements: "implements (kv_get stub args) (kv_answer stub ''get'' args)"
proof (cases "\<exists>key. args = [key]")
  case True
  then obtain key where a: "args = [key]" by blast
  show ?thesis
  proof (rule implementsI)
    fix s x t assume "sound s" "kv_get stub args s = (Inr x, t)"
    then show "sound t \<and> (\<exists>w. kv_answer stub ''get'' args (committed t) = Some (x, w) \<and> pending t = pending s ++ w)"
      using get_step[of s key] by (auto simp: kv_get_def kv_answer_def a cbind_eq)
  next
    fix s e t assume "sound s" "kv_get stub args s = (Inl e, t)"
    then show "kv_answer stub ''get'' args (committed t) = None \<or> stub_failure stub e \<or>
        (\<exists>msg e'. e = Wrapped msg e' \<and> stub_failure stub e')"
      by (auto simp: kv_get_def a cbind_eq intro: stub_failure_intros)
  qed
next
  case False
  then have "kv_get stub args = wrong ''get expects 1 argument: key''" "kv_answer stub ''get'' args = (\<lambda>L. None)"
    by (auto simp: kv_get_def kv_answer_def fun_eq_iff split: list.splits)
  then show ?thesis using wrong_implements by simp
qed

lemma put_implements: "implements (kv_put stub args) (kv_answer stub ''put'' args)"
proof (cases "\<exists>key value. args = [key, value]")
  case True
  then obtain key val where a: "args = [key, val]" by blast
  show ?thesis
  proof (rule implementsI)
    fix s x t assume "sound s" "kv_put stub args s = (Inr x, t)"
    then show "sound t \<and> (\<exists>w. kv_answer stub ''put'' args (committed t) = Some (x, w) \<and> pending t = pending s ++ w)"
      using put_ok[of s key val] by (auto simp: kv_put_def kv_answer_def a cbind_eq)
  next
    fix s e t assume "sound s" "kv_put stub args s = (Inl e, t)"
    then show "kv_answer stub ''put'' args (committed t) = None \<or> stub_failure stub e \<or>
        (\<exists>msg e'. e = Wrapped msg e' \<and> stub_failure stub e')"
      by (auto simp: kv_put_def a cbind_eq intro: stub_failure_intros)
  qed
next
  case False
  then have "kv_put stub args = wrong ''put expects 2 arguments: key value''" "kv_answer stub ''put'' args = (\<lambda>L. None)"
    by (auto simp: kv_put_def kv_answer_def fun_eq_iff split: list.splits)
  then show ?thesis using wrong_implements by simp
qed

lemma putget_implements: "implements (kv_putget stub args) (kv_answer stub ''putget'' args)"
proof (cases "\<exists>key value. args = [key, value]")
  case True
  then obtain key val where a: "args = [key, val]" by blast
  show ?thesis
  proof (rule implementsI)
    fix s x t assume s: "sound s" and r: "kv_putget stub args s = (Inr x, t)"
    then obtain old u where g: "sb_GetState stub key s = (Inr old, u)" and p: "sb_PutState stub key val u = (Inr (), t)"
        and x: "x = value_or_empty old" by (auto simp: kv_putget_def a cbind_eq)
    show "sound t \<and> (\<exists>w. kv_answer stub ''putget'' args (committed t) = Some (x, w) \<and> pending t = pending s ++ w)"
      using get_step[OF s g] put_ok[OF _ p] by (auto simp: kv_answer_def a x)
  next
    fix s e t assume "sound s" "kv_putget stub args s = (Inl e, t)"
    then show "kv_answer stub ''putget'' args (committed t) = None \<or> stub_failure stub e \<or>
        (\<exists>msg e'. e = Wrapped msg e' \<and> stub_failure stub e')"
      by (auto simp: kv_putget_def a cbind_eq intro: stub_failure_intros)
  qed
next
  case False
  then have "kv_putget stub args = wrong ''putget expects 2 arguments: key value''"
      "kv_answer stub ''putget'' args = (\<lambda>L. None)"
    by (auto simp: kv_putget_def kv_answer_def fun_eq_iff split: list.splits)
  then show ?thesis using wrong_implements by simp
qed

lemma del_implements: "implements (kv_del stub args) (kv_answer stub ''del'' args)"
proof (cases "\<exists>key. args = [key]")
  case True
  then obtain key where a: "args = [key]" by blast
  show ?thesis
  proof (rule implementsI)
    fix s x t assume "sound s" "kv_del stub args s = (Inr x, t)"
    then show "sound t \<and> (\<exists>w. kv_answer stub ''del'' args (committed t) = Some (x, w) \<and> pending t = pending s ++ w)"
      using del_ok[of s key] by (auto simp: kv_del_def kv_answer_def a cbind_eq)
  next
    fix s e t assume "sound s" "kv_del stub args s = (Inl e, t)"
    then show "kv_answer stub ''del'' args (committed t) = None \<or> stub_failure stub e \<or>
        (\<exists>msg e'. e = Wrapped msg e' \<and> stub_failure stub e')"
      by (auto simp: kv_del_def a cbind_eq intro: stub_failure_intros)
  qed
next
  case False
  then have "kv_del stub args = wrong ''del expects 1 argument: key''" "kv_answer stub ''del'' args = (\<lambda>L. None)"
    by (auto simp: kv_del_def kv_answer_def fun_eq_iff split: list.splits)
  then show ?thesis using wrong_implements by simp
qed

text \<open>Reads between the writes give the committed values.\<close>

lemma sequence_values:
  assumes s: "sound s" and r: "compatSequence stub key val deleteKey s = (Inr vs, t)"
  shows "sound t \<and> pending t = (pending s)(key \<mapsto> Some val, deleteKey \<mapsto> None) \<and>
    vs = compat_view (committed t) key deleteKey"
proof -
  obtain a s1 b s2 s3 c s4 s5 d s6 s7 f s8 s9 g where
    r1: "sb_GetState stub key s = (Inr a, s1)" and r2: "sb_GetState stub deleteKey s1 = (Inr b, s2)"
    and r3: "sb_PutState stub key ''old-value'' s2 = (Inr (), s3)" and r4: "sb_GetState stub key s3 = (Inr c, s4)"
    and r5: "sb_PutState stub key val s4 = (Inr (), s5)" and r6: "sb_GetState stub key s5 = (Inr d, s6)"
    and r7: "sb_PutState stub deleteKey ''delete-me'' s6 = (Inr (), s7)"
    and r8: "sb_GetState stub deleteKey s7 = (Inr f, s8)"
    and r9: "sb_DelState stub deleteKey s8 = (Inr (), s9)" and r10: "sb_GetState stub deleteKey s9 = (Inr g, t)"
    and vs: "vs = \<lparr>cv_committedOld = a, cv_committedDelete = b, cv_old = c, cv_afterPut = d, cv_deleteOld = f,
      cv_afterDelete = g\<rparr>"
    using r unfolding compatSequence_def by (auto simp: cbind_eq)
  note h1 = get_step[OF s r1]
  note h2 = get_step[OF conjunct1[OF h1] r2]
  note h3 = put_ok[OF conjunct1[OF h2] r3]
  note h4 = get_step[OF conjunct1[OF h3] r4]
  note h5 = put_ok[OF conjunct1[OF h4] r5]
  note h6 = get_step[OF conjunct1[OF h5] r6]
  note h7 = put_ok[OF conjunct1[OF h6] r7]
  note h8 = get_step[OF conjunct1[OF h7] r8]
  note h9 = del_ok[OF conjunct1[OF h8] r9]
  note h10 = get_step[OF conjunct1[OF h9] r10]
  have c: "committed s1 = committed t" "committed s2 = committed t" "committed s4 = committed t"
    "committed s6 = committed t" "committed s8 = committed t"
    using h1 h2 h3 h4 h5 h6 h7 h8 h9 h10 by auto
  have p: "pending t = (pending s)(key \<mapsto> Some val, deleteKey \<mapsto> None)"
    using h1 h2 h3 h4 h5 h6 h7 h8 h9 h10 by (auto simp: fun_eq_iff)
  show ?thesis using p h1 h2 h4 h6 h8 h10 c by (simp add: vs compat_view_def)
qed

lemma sequence_failure:
  assumes "compatSequence stub key val deleteKey s = (Inl e, t)"
  shows "stub_failure stub e"
  using assms unfolding compatSequence_def cbind_eq by (auto intro: stub_failure_intros)

text \<open>The three compatibility functions differ in their names and in what they report of the caller.\<close>

definition compat_fun :: "string \<Rightarrow> string list \<Rightarrow> ('s, bytes) stub_step" where
  "compat_fun f args = (if f = ''compatv1'' then compatv1 stub args
     else if f = ''compatv2'' then compatv2 stub args else compat_v3 stub args)"

lemma compat_fun_step:
  assumes f: "f \<in> {''compatv1'', ''compatv2'', ''compat-v3''}" and a: "args = [key, val, deleteKey]"
  shows "compat_fun f args =
     cbind (compatSequence stub key val deleteKey) (\<lambda>vs.
     cbind (cpure (compositeFields stub f key deleteKey)) (\<lambda>composite.
     cbind (cpure (compat_identity stub f)) (\<lambda>identity.
     cbind (sb_SetEvent stub (f @ ''-event'') (compatEvent stub key val deleteKey)) (\<lambda>_.
     cpure (Inr (jprint (json_map (argumentFields stub @ transactionFields stub @ identity @
       compatFields vs @ composite))))))))"
proof -
  consider "f = ''compatv1''" | "f = ''compatv2''" | "f = ''compat-v3''" using f by blast
  then show ?thesis
    by cases (simp_all add: a compat_fun_def compatv1_def compatv2_def compat_v3_def compat_identity_def)
qed

lemma compat_implements:
  assumes f: "f \<in> {''compatv1'', ''compatv2'', ''compat-v3''}"
  shows "implements (compat_fun f args) (compat_answer stub f args)"
proof (cases "\<exists>key val deleteKey. args = [key, val, deleteKey]")
  case True
  then obtain key val deleteKey where a: "args = [key, val, deleteKey]" by blast
  note step = compat_fun_step[OF f a]
  show ?thesis
  proof (rule implementsI)
    fix s x t assume s: "sound s" and r: "compat_fun f args s = (Inr x, t)"
    then obtain vs u composite identity where seq: "compatSequence stub key val deleteKey s = (Inr vs, u)"
        and c: "compositeFields stub f key deleteKey = Inr composite" and i: "compat_identity stub f = Inr identity"
        and ev: "sb_SetEvent stub (f @ ''-event'') (compatEvent stub key val deleteKey) u = (Inr (), t)"
        and x: "x = jprint (json_map (argumentFields stub @ transactionFields stub @ identity @ compatFields vs @ composite))"
      by (auto simp: step cbind_eq)
    note q = sequence_values[OF s seq]
    show "sound t \<and> (\<exists>w. compat_answer stub f args (committed t) = Some (x, w) \<and> pending t = pending s ++ w)"
      using q event_ok[OF conjunct1[OF q] ev] by (auto simp: compat_answer_def a c i x)
  next
    fix s e t assume r: "compat_fun f args s = (Inl e, t)"
    show "compat_answer stub f args (committed t) = None \<or> stub_failure stub e \<or>
        (\<exists>msg e'. e = Wrapped msg e' \<and> stub_failure stub e')"
      using r unfolding step cbind_eq
      by (auto simp: compat_answer_def a dest: sequence_failure intro: stub_failure_intros)
  qed
next
  case False
  then have "compat_answer stub f args = (\<lambda>L. None)"
    by (auto simp: compat_answer_def fun_eq_iff split: list.splits)
  moreover have "\<exists>msg. compat_fun f args = wrong msg"
    using False by (auto simp: compat_fun_def compatv1_def compatv2_def compat_v3_def split: list.splits)
  ultimately show ?thesis using wrong_implements by metis
qed

lemma context_implements: "implements (kv_context stub) (kv_answer stub ''context'' args)"
  by (rule implementsI) (auto simp: kv_context_def kv_answer_def)

definition kv_step :: "string \<Rightarrow> string list \<Rightarrow> ('s, bytes) stub_step" where
  "kv_step fn args = (let f = ToLower fn in
     if f = ''get'' then kv_get stub args
     else if f = ''put'' then kv_put stub args
     else if f = ''putget'' then kv_putget stub args
     else if f = ''del'' then kv_del stub args
     else if f = ''context'' then kv_context stub
     else if f \<in> {''compatv1'', ''compatv2'', ''compat-v3''} then compat_fun f args
     else if f = ''compaterror'' then wrong ''compat error requested''
     else wrong (''unknown function '' @ fn))"

lemma Invoke_step:
  "SimpleKV_Invoke stub = respond (case sb_FunctionAndParameters stub of (fn, args) \<Rightarrow> kv_step fn args)"
  unfolding SimpleKV_Invoke_def kv_step_def compat_fun_def Let_def
  by (rule arg_cong[of _ _ respond]) (simp split: prod.split)

lemma step_implements: "implements (kv_step fn args) (kv_answer stub (ToLower fn) args)"
proof -
  consider (get) "ToLower fn = ''get''" | (put) "ToLower fn = ''put''" | (putget) "ToLower fn = ''putget''"
    | (del) "ToLower fn = ''del''" | (ctx) "ToLower fn = ''context''"
    | (compat) "ToLower fn \<in> {''compatv1'', ''compatv2'', ''compat-v3''}"
    | (none) "ToLower fn \<notin> {''get'', ''put'', ''putget'', ''del'', ''context'', ''compatv1'', ''compatv2'', ''compat-v3''}"
    by blast
  then show ?thesis
  proof cases
    case get then show ?thesis using get_implements by (simp add: kv_step_def)
  next
    case put then show ?thesis using put_implements by (simp add: kv_step_def)
  next
    case putget then show ?thesis using putget_implements by (simp add: kv_step_def)
  next
    case del then show ?thesis using del_implements by (simp add: kv_step_def)
  next
    case ctx then show ?thesis using context_implements by (simp add: kv_step_def)
  next
    case compat
    then have "kv_step fn args = compat_fun (ToLower fn) args" by (auto simp: kv_step_def)
    moreover have "kv_answer stub (ToLower fn) args = compat_answer stub (ToLower fn) args"
      using compat by (auto simp: kv_answer_def fun_eq_iff)
    ultimately show ?thesis using compat_implements[OF compat] by simp
  next
    case none
    then have "kv_answer stub (ToLower fn) args = (\<lambda>L. None)" by (simp add: kv_answer_def fun_eq_iff)
    moreover have "\<exists>msg. kv_step fn args = wrong msg" using none by (auto simp: kv_step_def Let_def)
    ultimately show ?thesis using wrong_implements by metis
  qed
qed

lemma Invoke_effects:
  assumes "sound s" and "SimpleKV_Invoke stub s = (resp, t)" and "sb_FunctionAndParameters stub = (fn, args)"
  shows "(\<forall>p. resp = Success p \<longrightarrow> (\<exists>writes. kv_answer stub (ToLower fn) args (committed t) = Some (p, writes) \<and>
        pending t = pending s ++ writes)) \<and>
    (\<forall>e. resp = Error_response e \<longrightarrow> kv_answer stub (ToLower fn) args (committed t) = None \<or> stub_failure stub e \<or>
        (\<exists>msg e'. e = Wrapped msg e' \<and> stub_failure stub e'))"
  using step_implements[of fn args] assms unfolding implements_def Invoke_step
  by (fastforce simp: respond_Success respond_Error)

end

subsection \<open>Over the helper's execution context\<close>

lemma answer_parts:
  "argumentFields (handlerStub lib q ops ctx facts) = argumentFields facts"
  "transactionFields (handlerStub lib q ops ctx facts) = transactionFields facts"
  "identityFields (handlerStub lib q ops ctx facts) = identityFields facts"
  "compositeFields (handlerStub lib q ops ctx facts) = compositeFields facts"
  by (auto simp: argumentFields_def transactionFields_def identityFields_def compositeFields_def handlerStub_def
      fun_eq_iff)

lemma answer_of_facts: "kv_answer (handlerStub lib q ops ctx facts) f args = kv_answer facts f args"
  by (rule ext) (simp only: kv_answer_def compat_answer_def compat_identity_def answer_parts)

lemma facts_of_stub [simp]:
  "sb_FunctionAndParameters (handlerStub lib q ops ctx facts) = sb_FunctionAndParameters facts"
  by (simp add: handlerStub_def)

text \<open>The committed ledger an execution reads.\<close>

definition ledger_behind :: "view_snapshot \<Rightarrow> ExecutionContext \<times> 'w \<Rightarrow> string \<Rightarrow> bytes option" where
  "ledger_behind snap st k = nil_if_empty (vv_Value (context_snapshot snap st k))"

definition fresh_context :: "ExecutionContext \<Rightarrow> bool" where
  "fresh_context c \<longleftrightarrow> xc_reads c = [] \<and> xc_writes c = []"

lemma fresh_sound:
  assumes "repeatable reader snap" and "fresh_context c"
  shows "execution.consistent reader snap (c, w)" "pending_writes (c, w) = Map.empty"
proof -
  show "execution.consistent reader snap (c, w)"
    using assms no_reads[of "(c, w)"] unfolding execution.consistent_def
    by (simp add: context_sound_def fresh_context_def)
  show "pending_writes (c, w) = Map.empty"
    using assms(2) by (intro ext) (simp add: pending_at fresh_context_def)
qed

text \<open>C39: Whatever function of the sample key/value chaincode a transaction calls, over the handler and a
  fresh execution context of the helper whose Query Service answers a view from one snapshot: a successful
  answer is the described one over the committed ledger, with every value reported read from the ledger and
  none from the transaction's own writes, and the endorsed write set is exactly the described one.  An error
  response means that the function has no answer for these arguments or that a call to the peer failed.\<close>

theorem sample_chaincode_effects:
  assumes "encodes lib q" and "repeatable reader snap" and "fresh_context c"
    and "sb_FunctionAndParameters facts = (fn, args)"
    and "SimpleKV_Invoke (handlerStub lib q (context_ops reader) ctx facts) ((c, w), event) = (resp, st, event')"
  shows "(\<forall>p. resp = Success p \<longrightarrow> (\<exists>writes. kv_answer facts (ToLower fn) args (ledger_behind snap st) = Some (p, writes) \<and>
        effects_of (ExecutionContext_Result (fst st)) = writes)) \<and>
    (\<forall>e. resp = Error_response e \<longrightarrow> kv_answer facts (ToLower fn) args (ledger_behind snap st) = None \<or>
        (\<exists>e'. (e = e' \<or> (\<exists>msg. e = Wrapped msg e')) \<and>
          stub_failure (handlerStub lib q (context_ops reader) ctx facts) e'))"
proof -
  have l: "ledger_behind snap u = (\<lambda>k. nil_if_empty (vv_Value (context_snapshot snap u k)))" for u :: "ExecutionContext \<times> 'a"
    by (rule ext) (simp add: ledger_behind_def)
  have w: "pending_writes st = effects_of (ExecutionContext_Result (fst st))"
    by (simp add: pending_writes_def)
  have f: "sb_FunctionAndParameters (handlerStub lib q (context_ops reader) ctx facts) = (fn, args)"
    using assms(4) by simp
  show ?thesis
    using execution.stub.Invoke_effects[where reader = reader and snap = snap and lib = lib and q = q and ctx = ctx
        and facts = facts and s = "((c, w), event)", OF _ assms(5) f] assms(1) fresh_sound[OF assms(2,3), of w]
    by (simp add: l w answer_of_facts) blast
qed

subsection \<open>A concrete transaction\<close>

text \<open>Requests in a readable form: the escaped key, a slash, the value.\<close>

definition sample_cc_shim :: shim_lib where
  "sample_cc_shim = sample_shim\<lparr>sl_PutState := (\<lambda>p. map_option (\<lambda>k. (k, drop 1 (dropWhile (\<lambda>c. c \<noteq> CHR ''/'') p), []))
     (PathUnescape (takeWhile (\<lambda>c. c \<noteq> CHR ''/'') p)))\<rparr>"

definition sample_requests :: stub_requests where
  "sample_requests = \<lparr>sq_Get = sample_message ChaincodeMessage_GET_STATE,
     sq_Put = (\<lambda>k v. sample_message ChaincodeMessage_PUT_STATE (PathEscape k @ CHR ''/'' # v)),
     sq_Del = sample_message ChaincodeMessage_DEL_STATE,
     sq_Range = (\<lambda>_ _. sample_message (ChaincodeMessage_Other ''GET_STATE_BY_RANGE'') []),
     sq_Rows = (\<lambda>_. []), sq_Refuses = (\<lambda>name. if name = [] then Some (Plain ''empty'') else None)\<rparr>"

lemma sample_encodes: "encodes sample_cc_shim sample_requests"
proof -
  have "takeWhile (\<lambda>c. c \<noteq> CHR ''/'') (PathEscape k @ CHR ''/'' # v) = PathEscape k"
    "dropWhile (\<lambda>c. c \<noteq> CHR ''/'') (PathEscape k @ CHR ''/'' # v) = CHR ''/'' # v" for k v
    using PathEscape_no_slash[of k] by (subst takeWhile_append2 dropWhile_append2; auto)+
  then show ?thesis
    by (simp add: encodes_def sample_requests_def sample_cc_shim_def sample_shim_def sample_message_def plainMessage_def
        PathUnescape_PathEscape)
qed

definition sample_facts :: "string \<Rightarrow> string list \<Rightarrow> 's Stub" where
  "sample_facts fn args = \<lparr>sb_FunctionAndParameters = (fn, args), sb_Args = fn # args, sb_StringArgs = fn # args,
     sb_TxID = ''tx'', sb_ChannelID = ''ch'', sb_Decorations = [], sb_Creator = Inr ''c'', sb_MSPID = Inr ''org'',
     sb_ClientID = Inr ''id'', sb_Binding = Inr ''b'', sb_Transient = Inr [], sb_TxTimestamp = Inr (0, 0),
     sb_SignedProposal = Inr None, sb_CreateCompositeKey = (\<lambda>name keys. Inr (concat (name # keys))),
     sb_SplitCompositeKey = (\<lambda>k. Inr (k, [])), sb_GetState = (\<lambda>_ s. (Inr None, s)),
     sb_PutState = (\<lambda>_ _ s. (Inr (), s)), sb_DelState = (\<lambda>_ s. (Inr (), s)), sb_SetEvent = (\<lambda>_ _ s. (Inr (), s)),
     sb_GetStateByRange = (\<lambda>_ _ s. (Inr [], s)), sb_CloseIterator = (\<lambda>s. s)\<rparr>"

definition sample_ctx :: call_ctx where
  "sample_ctx = \<lparr>cx_Err = None, cx_Remaining = None\<rparr>"

lemma sample_kv_run:
  "fst (SimpleKV_Invoke (handlerStub sample_cc_shim sample_requests (context_ops (Some sample_query)) sample_ctx
      (sample_facts ''PutGet'' [''a'', ''2''])) ((NewExecutionContext ''ns'', ()), None)) = Success ''1''"
  by code_simp

theorem sample_chaincode_effects_witness:
  "\<exists>c' :: ExecutionContext. effects_of (ExecutionContext_Result c') = [''a'' \<mapsto> Some ''2'']"
proof -
  define facts :: "((ExecutionContext \<times> unit) \<times> ShimEvent option) Stub"
    where "facts = sample_facts ''PutGet'' [''a'', ''2'']"
  define stub where "stub = handlerStub sample_cc_shim sample_requests (context_ops (Some sample_query)) sample_ctx facts"
  obtain st ev where r: "SimpleKV_Invoke stub ((NewExecutionContext ''ns'', ()), None) = (Success ''1'', st, ev)"
    using sample_kv_run unfolding stub_def facts_def by (metis prod.collapse)
  have f: "sb_FunctionAndParameters facts = (''PutGet'', [''a'', ''2''])"
    by (simp add: facts_def sample_facts_def)
  have fresh: "fresh_context (NewExecutionContext ''ns'')"
    by (simp add: fresh_context_def NewExecutionContext_def NewExecutionContextWithView_def)
  have lower: "ToLower ''PutGet'' = ''putget''" by code_simp
  note effects = sample_chaincode_effects[OF sample_encodes sample_repeatable fresh f r[unfolded stub_def], unfolded lower]
  obtain writes where "kv_answer facts ''putget'' [''a'', ''2''] (ledger_behind sample_snap st) = Some (''1'', writes)"
      "effects_of (ExecutionContext_Result (fst st)) = writes"
    using effects by blast
  then show ?thesis by (intro exI[of _ "fst st"]) (simp add: kv_answer_def)
qed

end
