(* ===== verification/Asset_Contract.thy ===== *)
theory Asset_Contract
  imports Sample_Guarantees
begin

section \<open>The asset-transfer contract\<close>

text \<open>
  \<open>sample_external_chaincode/asset_transfer/chaincode/smartcontract.go\<close>: assets stored as JSON under their
  ID.  The contract library that converts the arguments of a transaction and picks the method is
  not part of the repository; its methods are modelled over the stub.  The abstract contract is a
  map from IDs to assets, and the methods refine it.
\<close>

record Asset =
  as_AppraisedValue :: int
  as_Color :: string
  as_ID :: string
  as_Owner :: string
  as_Size :: int

definition asset_json :: "Asset \<Rightarrow> json" where
  "asset_json a = JObj (obj [
     (''AppraisedValue'', JNum (FormatInt (as_AppraisedValue a))), (''Color'', JStr (as_Color a)),
     (''ID'', JStr (as_ID a)), (''Owner'', JStr (as_Owner a)), (''Size'', JNum (FormatInt (as_Size a)))])"

definition marshalAsset :: "Asset \<Rightarrow> bytes" where
  "marshalAsset a = jprint (asset_json a)"

definition zeroAsset :: Asset where
  "zeroAsset = \<lparr>as_AppraisedValue = 0, as_Color = [], as_ID = [], as_Owner = [], as_Size = 0\<rparr>"

definition asset_setters :: "Asset setters" where
  "asset_setters = [
     (''AppraisedValue'', set_int64 (\<lambda>x. as_AppraisedValue_update (\<lambda>_. x))),
     (''Color'', set_string (\<lambda>s. as_Color_update (\<lambda>_. s))),
     (''ID'', set_string (\<lambda>s. as_ID_update (\<lambda>_. s))),
     (''Owner'', set_string (\<lambda>s. as_Owner_update (\<lambda>_. s))),
     (''Size'', set_int64 (\<lambda>x. as_Size_update (\<lambda>_. x)))]"

definition unmarshalAsset :: "bytes \<Rightarrow> orch_error + Asset" where
  "unmarshalAsset data = require (Plain ''json'') (Unmarshal asset_setters zeroAsset data)"

subsection \<open>The methods\<close>

definition seedAssets :: "Asset list" where
  "seedAssets = [
     \<lparr>as_AppraisedValue = 300, as_Color = ''blue'', as_ID = ''asset1'', as_Owner = ''Tomoko'', as_Size = 5\<rparr>,
     \<lparr>as_AppraisedValue = 400, as_Color = ''red'', as_ID = ''asset2'', as_Owner = ''Brad'', as_Size = 5\<rparr>,
     \<lparr>as_AppraisedValue = 500, as_Color = ''green'', as_ID = ''asset3'', as_Owner = ''Jin Soo'', as_Size = 10\<rparr>,
     \<lparr>as_AppraisedValue = 600, as_Color = ''yellow'', as_ID = ''asset4'', as_Owner = ''Max'', as_Size = 10\<rparr>,
     \<lparr>as_AppraisedValue = 700, as_Color = ''black'', as_ID = ''asset5'', as_Owner = ''Adriana'', as_Size = 15\<rparr>,
     \<lparr>as_AppraisedValue = 800, as_Color = ''white'', as_ID = ''asset6'', as_Owner = ''Michel'', as_Size = 15\<rparr>]"

fun putAssets :: "'s Stub \<Rightarrow> Asset list \<Rightarrow> ('s, unit) stub_step" where
  "putAssets stub [] = cpure (Inr ())"
| "putAssets stub (a # rest) =
     cbind (mapStepError (Wrapped ''failed to put to world state.'') (sb_PutState stub (as_ID a) (marshalAsset a)))
       (\<lambda>_. putAssets stub rest)"

definition InitLedger :: "'s Stub \<Rightarrow> ('s, unit) stub_step" where
  "InitLedger stub = putAssets stub seedAssets"

definition AssetExists :: "'s Stub \<Rightarrow> string \<Rightarrow> ('s, bool) stub_step" where
  "AssetExists stub assetID =
     cbind (mapStepError (Wrapped ''failed to read from world state'') (sb_GetState stub assetID)) (\<lambda>assetJSON.
     cpure (Inr (assetJSON \<noteq> None)))"

definition newAsset :: "string \<Rightarrow> string \<Rightarrow> int \<Rightarrow> string \<Rightarrow> int \<Rightarrow> Asset" where
  "newAsset assetID color assetSize owner appraisedValue = \<lparr>as_AppraisedValue = appraisedValue, as_Color = color,
     as_ID = assetID, as_Owner = owner, as_Size = assetSize\<rparr>"

definition CreateAsset :: "'s Stub \<Rightarrow> string \<Rightarrow> string \<Rightarrow> int \<Rightarrow> string \<Rightarrow> int \<Rightarrow> ('s, unit) stub_step" where
  "CreateAsset stub assetID color assetSize owner appraisedValue =
     cbind (AssetExists stub assetID) (\<lambda>exists.
     if exists then cpure (Inl (Plain (''the asset '' @ assetID @ '' already exists'')))
     else sb_PutState stub assetID (marshalAsset (newAsset assetID color assetSize owner appraisedValue)))"

definition ReadAsset :: "'s Stub \<Rightarrow> string \<Rightarrow> ('s, Asset) stub_step" where
  "ReadAsset stub assetID =
     cbind (mapStepError (Wrapped ''failed to read from world state'') (sb_GetState stub assetID)) (\<lambda>assetJSON.
     case assetJSON of
       None \<Rightarrow> cpure (Inl (Plain (''the asset '' @ assetID @ '' does not exist'')))
     | Some data \<Rightarrow> cpure (unmarshalAsset data))"

definition UpdateAsset :: "'s Stub \<Rightarrow> string \<Rightarrow> string \<Rightarrow> int \<Rightarrow> string \<Rightarrow> int \<Rightarrow> ('s, unit) stub_step" where
  "UpdateAsset stub assetID color assetSize owner appraisedValue =
     cbind (AssetExists stub assetID) (\<lambda>exists.
     if \<not> exists then cpure (Inl (Plain (''the asset '' @ assetID @ '' does not exist'')))
     else sb_PutState stub assetID (marshalAsset (newAsset assetID color assetSize owner appraisedValue)))"

definition DeleteAsset :: "'s Stub \<Rightarrow> string \<Rightarrow> ('s, unit) stub_step" where
  "DeleteAsset stub assetID =
     cbind (AssetExists stub assetID) (\<lambda>exists.
     if \<not> exists then cpure (Inl (Plain (''the asset '' @ assetID @ '' does not exist'')))
     else sb_DelState stub assetID)"

definition TransferAsset :: "'s Stub \<Rightarrow> string \<Rightarrow> string \<Rightarrow> ('s, string) stub_step" where
  "TransferAsset stub assetID newOwner =
     cbind (ReadAsset stub assetID) (\<lambda>asset.
     cbind (sb_PutState stub assetID (marshalAsset (asset\<lparr>as_Owner := newOwner\<rparr>))) (\<lambda>_.
     cpure (Inr (as_Owner asset))))"

text \<open>The iterator gives the rows one after the other and is closed however the loop ends.\<close>

fun readRows :: "(orch_error + bytes) list \<Rightarrow> orch_error + Asset list" where
  "readRows [] = Inr []"
| "readRows (row # rest) =
     rbind row (\<lambda>data. rbind (unmarshalAsset data) (\<lambda>asset. rbind (readRows rest) (\<lambda>assets. Inr (asset # assets))))"

definition GetAllAssets :: "'s Stub \<Rightarrow> ('s, Asset list) stub_step" where
  "GetAllAssets stub = cbind (sb_GetStateByRange stub [] []) (\<lambda>rows s. (readRows rows, sb_CloseIterator stub s))"

text \<open>The handler answers a range query with an error, so listing all assets fails over this service.\<close>

lemma GetAllAssets_unsupported:
  assumes "mg_Type (sq_Range q [] []) = ChaincodeMessage_Other name"
  shows "\<exists>e. GetAllAssets (handlerStub lib q ops ctx facts) st = (Inl e, st)"
  using no_range_queries[OF assms, of lib ops ctx facts st] by (auto simp: GetAllAssets_def cbind_def)

subsection \<open>The abstract contract\<close>

datatype asset_call =
    CallInit | CallCreate Asset | CallRead string | CallUpdate Asset | CallDelete string
  | CallExists string | CallTransfer string string

datatype asset_result = Done | Found Asset | Exists bool | OldOwner string

type_synonym assets = "string \<Rightarrow> Asset option"

fun asset_spec :: "asset_call \<Rightarrow> assets \<Rightarrow> (asset_result \<times> assets) option" where
  "asset_spec CallInit A = Some (Done, fold (\<lambda>a A. A(as_ID a \<mapsto> a)) seedAssets A)"
| "asset_spec (CallCreate a) A = (if A (as_ID a) \<noteq> None then None else Some (Done, A(as_ID a \<mapsto> a)))"
| "asset_spec (CallRead assetID) A = map_option (\<lambda>a. (Found a, A)) (A assetID)"
| "asset_spec (CallUpdate a) A = (if A (as_ID a) = None then None else Some (Done, A(as_ID a \<mapsto> a)))"
| "asset_spec (CallDelete assetID) A = (if A assetID = None then None else Some (Done, A(assetID := None)))"
| "asset_spec (CallExists assetID) A = Some (Exists (A assetID \<noteq> None), A)"
| "asset_spec (CallTransfer assetID owner) A =
     map_option (\<lambda>a. (OldOwner (as_Owner a), A(assetID \<mapsto> a\<lparr>as_Owner := owner\<rparr>))) (A assetID)"

definition giving :: "('s, 'a) stub_step \<Rightarrow> ('a \<Rightarrow> asset_result) \<Rightarrow> ('s, asset_result) stub_step" where
  "giving m f = cbind m (\<lambda>x. cpure (Inr (f x)))"

fun callAsset :: "'s Stub \<Rightarrow> asset_call \<Rightarrow> ('s, asset_result) stub_step" where
  "callAsset stub CallInit = giving (InitLedger stub) (\<lambda>_. Done)"
| "callAsset stub (CallCreate a) = giving (CreateAsset stub (as_ID a) (as_Color a) (as_Size a) (as_Owner a)
     (as_AppraisedValue a)) (\<lambda>_. Done)"
| "callAsset stub (CallRead assetID) = giving (ReadAsset stub assetID) Found"
| "callAsset stub (CallUpdate a) = giving (UpdateAsset stub (as_ID a) (as_Color a) (as_Size a) (as_Owner a)
     (as_AppraisedValue a)) (\<lambda>_. Done)"
| "callAsset stub (CallDelete assetID) = giving (DeleteAsset stub assetID) (\<lambda>_. Done)"
| "callAsset stub (CallExists assetID) = giving (AssetExists stub assetID) Exists"
| "callAsset stub (CallTransfer assetID owner) = giving (TransferAsset stub assetID owner) OldOwner"

text \<open>Assets JSON can carry: 64 bit numbers, and texts that are valid UTF-8, as others are repaired.\<close>

definition storable :: "Asset \<Rightarrow> bool" where
  "storable a \<longleftrightarrow> is_i64 (as_AppraisedValue a) \<and> is_i64 (as_Size a) \<and>
     utf8_ok (as_Color a) \<and> utf8_ok (as_ID a) \<and> utf8_ok (as_Owner a)"

fun call_storable :: "asset_call \<Rightarrow> bool" where
  "call_storable (CallCreate a) = storable a"
| "call_storable (CallUpdate a) = storable a"
| "call_storable (CallTransfer _ owner) = utf8_ok owner"
| "call_storable _ = True"

definition stores :: "(string \<Rightarrow> bytes option) \<Rightarrow> assets \<Rightarrow> bool" where
  "stores L A \<longleftrightarrow> (\<forall>assetID. L assetID = map_option marshalAsset (A assetID) \<and>
     (\<forall>a. A assetID = Some a \<longrightarrow> storable a \<and> as_ID a = assetID))"

subsection \<open>The methods refine it\<close>

lemma marshal_roundtrip [simp]:
  assumes "storable a"
  shows "unmarshalAsset (marshalAsset a) = Inr a"
proof -
  have "json_ok (asset_json a)" using assms by (simp add: asset_json_def storable_def ascii_utf8)
  then have "jparse (marshalAsset a) = Some (asset_json a)" unfolding marshalAsset_def by (rule jparse_jprint)
  then show ?thesis using assms
    by (simp add: unmarshalAsset_def Unmarshal_def asset_json_def decode_value_def asset_setters_def zeroAsset_def
        storable_def)
qed

lemma stores_at: "stores L A \<Longrightarrow> L k = map_option marshalAsset (A k)"
  by (simp add: stores_def)

lemma stores_put: "stores L A \<Longrightarrow> storable a \<Longrightarrow> as_ID a = k \<Longrightarrow> stores (L(k \<mapsto> marshalAsset a)) (A(k \<mapsto> a))"
  by (simp add: stores_def)

lemma stores_del: "stores L A \<Longrightarrow> stores (L(k := None)) (A(k := None))"
  by (simp add: stores_def)

lemma seeds_storable: "\<forall>a \<in> set seedAssets. storable a"
  by (simp add: seedAssets_def storable_def is_i64_def min_i64_def max_i64_def ascii_utf8)

lemma newAsset_parts [simp]:
  "newAsset (as_ID a) (as_Color a) (as_Size a) (as_Owner a) (as_AppraisedValue a) = a"
  by (simp add: newAsset_def)

lemma giving_eq: "giving m f s = (r, t) \<longleftrightarrow> (\<exists>x. m s = (Inr x, t) \<and> r = Inr (f x)) \<or> (\<exists>e. m s = (Inl e, t) \<and> r = Inl e)"
  by (auto simp: giving_def cbind_eq)

definition failed_call :: "'s Stub \<Rightarrow> orch_error \<Rightarrow> bool" where
  "failed_call stub e \<longleftrightarrow> stub_failure stub e \<or> (\<exists>msg e'. e = Wrapped msg e' \<and> stub_failure stub e')"

context ledger_stub
begin

lemma put_assets:
  assumes "sound s" and "stores (applyWrites (committed s) (pending s)) A" and "\<forall>a \<in> set assets. storable a"
    and "putAssets stub assets s = (Inr u, t)"
  shows "sound t \<and> committed t = committed s \<and>
    stores (applyWrites (committed s) (pending t)) (fold (\<lambda>a A. A(as_ID a \<mapsto> a)) assets A)"
  using assms
proof (induction assets arbitrary: s A)
  case (Cons a rest)
  then obtain v where put: "sb_PutState stub (as_ID a) (marshalAsset a) s = (Inr (), v)"
    and rest: "putAssets stub rest v = (Inr u, t)" by (auto simp: cbind_eq mapStepError_eq)
  note p = put_ok[OF Cons.prems(1) put]
  have st: "stores (applyWrites (committed v) (pending v)) (A(as_ID a \<mapsto> a))"
    using p Cons.prems(2,3) stores_put by simp
  have ok: "\<forall>a \<in> set rest. storable a" using Cons.prems(3) by simp
  show ?case using Cons.IH[OF conjunct1[OF p] st ok rest] p unfolding fold_Cons comp_apply by metis
qed simp

lemma put_committed:
  assumes "sound s" and "putAssets stub assets s = (Inr u, t)"
  shows "committed t = committed s"
  using assms
proof (induction assets arbitrary: s)
  case (Cons a rest)
  then obtain v where put: "sb_PutState stub (as_ID a) (marshalAsset a) s = (Inr (), v)"
    and rest: "putAssets stub rest v = (Inr u, t)" by (auto simp: cbind_eq mapStepError_eq)
  show ?case using put_ok[OF Cons.prems(1) put] Cons.IH[OF _ rest] by simp
qed simp

lemma put_assets_failure: "putAssets stub assets s = (Inl e, t) \<Longrightarrow> failed_call stub e"
proof (induction assets arbitrary: s)
  case (Cons a rest)
  then show ?case
    by (auto simp: cbind_eq mapStepError_eq failed_call_def intro: stub_failure_intros)
qed simp

lemma exists_step:
  assumes "sound s" and "AssetExists stub k s = (Inr b, t)" and "stores (committed t) A"
  shows "sound t \<and> fixed t \<and> pending t = pending s \<and> (b \<longleftrightarrow> A k \<noteq> None)"
proof -
  obtain x where g: "sb_GetState stub k s = (Inr x, t)" and b: "b \<longleftrightarrow> x \<noteq> None"
    using assms(2) by (auto simp: AssetExists_def cbind_eq mapStepError_eq)
  note q = get_step[OF assms(1) g]
  then have "x = map_option marshalAsset (A k)" using stores_at[OF assms(3)] by simp
  then show ?thesis using q b by (cases "A k") simp_all
qed

lemma exists_failure: "AssetExists stub k s = (Inl e, t) \<Longrightarrow> failed_call stub e"
  by (auto simp: AssetExists_def cbind_eq mapStepError_eq failed_call_def intro: stub_failure_intros)

lemma read_step:
  assumes "sound s" and "ReadAsset stub k s = (r, t)" and "stores (committed t) A"
  shows "(\<forall>a. r = Inr a \<longrightarrow> sound t \<and> fixed t \<and> pending t = pending s \<and> A k = Some a) \<and>
    (\<forall>e. r = Inl e \<longrightarrow> A k = None \<or> failed_call stub e)"
proof (cases "\<exists>e. sb_GetState stub k s = (Inl e, t)")
  case True
  then have "\<exists>e. r = Inl (Wrapped ''failed to read from world state'' e) \<and> stub_failure stub e"
    using assms(2) by (auto simp: ReadAsset_def cbind_eq mapStepError_eq intro: stub_failure_intros)
  then show ?thesis by (auto simp: failed_call_def)
next
  case False
  then obtain x where g: "sb_GetState stub k s = (Inr x, t)"
      and r: "r = (case x of None \<Rightarrow> Inl (Plain (''the asset '' @ k @ '' does not exist'')) | Some data \<Rightarrow> unmarshalAsset data)"
    using assms(2) by (auto simp: ReadAsset_def cbind_eq mapStepError_eq split: option.splits)
  have x: "x = map_option marshalAsset (A k)" using get_step[OF assms(1) g] stores_at[OF assms(3)] by simp
  show ?thesis
  proof (cases "A k")
    case None
    then show ?thesis using r x by simp
  next
    case (Some a)
    then have "storable a" using assms(3) by (simp add: stores_def)
    then show ?thesis using r x Some get_step[OF assms(1) g] by simp
  qed
qed

text \<open>What holds after a call, for the ledger it read and the writes it left.\<close>

definition refined :: "asset_call \<Rightarrow> assets \<Rightarrow> (orch_error + asset_result) \<Rightarrow> 's \<Rightarrow> bool" where
  "refined call A r t \<longleftrightarrow>
     (\<forall>x. r = Inr x \<longrightarrow> (\<exists>A'. asset_spec call A = Some (x, A') \<and> stores (applyWrites (committed t) (pending t)) A')) \<and>
     (\<forall>e. r = Inl e \<longrightarrow> asset_spec call A = None \<or> failed_call stub e)"

lemma write_asset:
  assumes s: "sound s" and n: "pending s = Map.empty" and g: "storable a"
    and m: "m = cbind (AssetExists stub (as_ID a)) (\<lambda>b. if b = b0 then cpure (Inl e0)
      else sb_PutState stub (as_ID a) (marshalAsset a))"
    and r: "giving m (\<lambda>_. Done) s = (r, t)" and A: "stores (committed t) A"
  shows "(\<forall>x. r = Inr x \<longrightarrow> x = Done \<and> (A (as_ID a) \<noteq> None) \<noteq> b0 \<and>
        stores (applyWrites (committed t) (pending t)) (A(as_ID a \<mapsto> a))) \<and>
    (\<forall>e. r = Inl e \<longrightarrow> (A (as_ID a) \<noteq> None) = b0 \<or> failed_call stub e)"
proof (cases "AssetExists stub (as_ID a) s")
  case (Pair q u)
  show ?thesis
  proof (cases q)
    case (Inl e)
    then have "r = Inl e" using r Pair unfolding m giving_def cbind_def by simp
    then show ?thesis using exists_failure[OF Pair[unfolded Inl]] by simp
  next
    case (Inr b)
    note ex = Pair[unfolded Inr]
    have su: "sound u" using ex get_keeps[OF s] by (auto simp: AssetExists_def cbind_eq mapStepError_eq)
    show ?thesis
    proof (cases "b = b0")
      case True
      then have "u = t" "r = Inl e0" using r ex unfolding m giving_def cbind_def cpure_def by simp_all
      then show ?thesis using True ex exists_step[OF s, of "as_ID a" b t A] A by simp
    next
      case False
      obtain w p where put: "sb_PutState stub (as_ID a) (marshalAsset a) u = (w, p)" by fastforce
      show ?thesis
      proof (cases w)
        case (Inl e)
        then have "r = Inl e" using r ex False put unfolding m giving_def cbind_def by simp
        then show ?thesis using stub_failure_intros(2)[OF put[unfolded Inl]] by (simp add: failed_call_def)
      next
        case (Inr w0)
        note pp = put_ok[OF su put[unfolded Inr]]
        have t: "p = t" "r = Inr Done" using Inr r ex False put unfolding m giving_def cbind_def cpure_def by simp_all
        then have c: "committed u = committed t" using pp by simp
        note es = exists_step[OF s ex, unfolded c, OF A]
        show ?thesis using t pp es n False stores_put[OF A g refl] by (simp add: c)
      qed
    qed
  qed
qed

lemma delete_asset:
  assumes s: "sound s" and n: "pending s = Map.empty" and r: "DeleteAsset stub k s = (r, t)"
    and A: "stores (committed t) A"
  shows "(\<forall>x. r = Inr x \<longrightarrow> A k \<noteq> None \<and> stores (applyWrites (committed t) (pending t)) (A(k := None))) \<and>
    (\<forall>e. r = Inl e \<longrightarrow> A k = None \<or> failed_call stub e)"
proof (cases "AssetExists stub k s")
  case (Pair q u)
  show ?thesis
  proof (cases q)
    case (Inl e)
    then have "r = Inl e" using r Pair unfolding DeleteAsset_def cbind_def by simp
    then show ?thesis using exists_failure[OF Pair[unfolded Inl]] by simp
  next
    case (Inr b)
    note ex = Pair[unfolded Inr]
    have su: "sound u" using ex get_keeps[OF s] by (auto simp: AssetExists_def cbind_eq mapStepError_eq)
    show ?thesis
    proof (cases b)
      case False
      then have "u = t" "is_ok r = False" using r ex unfolding DeleteAsset_def cbind_def cpure_def by auto
      then show ?thesis using False ex exists_step[OF s, of k b t A] A by auto
    next
      case True
      then have del: "sb_DelState stub k u = (r, t)" using r ex unfolding DeleteAsset_def cbind_def by simp
      show ?thesis
      proof (cases r)
        case (Inl e)
        then show ?thesis using stub_failure_intros(3)[OF del[unfolded Inl]] by (simp add: failed_call_def)
      next
        case (Inr x)
        note pp = del_ok[OF su del[unfolded Inr]]
        then have c: "committed u = committed t" by simp
        note es = exists_step[OF s ex, unfolded c, OF A]
        show ?thesis using pp es n True stores_del[OF A, of k] Inr by (simp add: c)
      qed
    qed
  qed
qed

lemma transfer_asset:
  assumes s: "sound s" and n: "pending s = Map.empty" and r: "TransferAsset stub k owner s = (r, t)"
    and A: "stores (committed t) A" and o: "utf8_ok owner"
  shows "(\<forall>x. r = Inr x \<longrightarrow> (\<exists>a. A k = Some a \<and> x = as_Owner a \<and>
        stores (applyWrites (committed t) (pending t)) (A(k \<mapsto> a\<lparr>as_Owner := owner\<rparr>)))) \<and>
    (\<forall>e. r = Inl e \<longrightarrow> A k = None \<or> failed_call stub e)"
proof (cases "ReadAsset stub k s")
  case (Pair q u)
  show ?thesis
  proof (cases q)
    case (Inl e)
    then have "r = Inl e" "u = t" using r Pair unfolding TransferAsset_def cbind_def by simp_all
    then show ?thesis using read_step[OF s, of k "Inl e" t A] Pair Inl A by simp
  next
    case (Inr a)
    note rd = Pair[unfolded Inr]
    have su: "sound u" using rd get_keeps[OF s]
      by (auto simp: ReadAsset_def cbind_eq mapStepError_eq split: option.splits)
    obtain w p where put: "sb_PutState stub k (marshalAsset (a\<lparr>as_Owner := owner\<rparr>)) u = (w, p)" by fastforce
    show ?thesis
    proof (cases w)
      case (Inl e)
      then have "r = Inl e" using r rd put unfolding TransferAsset_def cbind_def by simp
      then show ?thesis using stub_failure_intros(2)[OF put[unfolded Inl]] by (simp add: failed_call_def)
    next
      case (Inr w0)
      note pp = put_ok[OF su put[unfolded Inr]]
      have t: "p = t" "r = Inr (as_Owner a)" using Inr r rd put unfolding TransferAsset_def cbind_def cpure_def by simp_all
      then have c: "committed u = committed t" using pp by simp
      have a: "A k = Some a" "pending u = pending s" using read_step[OF s rd, unfolded c, OF A] by simp_all
      then have "storable (a\<lparr>as_Owner := owner\<rparr>)" "as_ID (a\<lparr>as_Owner := owner\<rparr>) = k"
        using A o by (auto simp: stores_def storable_def)
      then show ?thesis using t pp a n stores_put[OF A, of "a\<lparr>as_Owner := owner\<rparr>" k] by (simp add: c)
    qed
  qed
qed

lemma call_refined:
  assumes s: "sound s" and n: "pending s = Map.empty" and ok: "call_storable call"
    and r: "callAsset stub call s = (r, t)" and A: "stores (committed t) A"
  shows "refined call A r t"
proof (cases call)
  case CallInit
  then consider u where "putAssets stub seedAssets s = (Inr u, t)" "r = Inr Done"
    | e where "putAssets stub seedAssets s = (Inl e, t)" "r = Inl e"
    using r by (auto simp: giving_eq InitLedger_def)
  then show ?thesis
  proof cases
    case 1
    have c: "committed t = committed s"
      using put_assets[OF s _ seeds_storable 1(1), of Map.empty] put_committed[OF s 1(1)] by simp
    have "stores (applyWrites (committed s) (pending s)) A" using A n c by simp
    from put_assets[OF s this seeds_storable 1(1)] show ?thesis using CallInit 1 c by (simp add: refined_def)
  next
    case 2
    then show ?thesis using put_assets_failure by (simp add: refined_def)
  qed
next
  case (CallCreate a)
  then have g: "storable a" using ok by simp
  have m: "CreateAsset stub (as_ID a) (as_Color a) (as_Size a) (as_Owner a) (as_AppraisedValue a) =
      cbind (AssetExists stub (as_ID a)) (\<lambda>b. if b = True then cpure (Inl (Plain (''the asset '' @ as_ID a @ '' already exists'')))
        else sb_PutState stub (as_ID a) (marshalAsset a))"
    unfolding CreateAsset_def newAsset_parts by simp
  show ?thesis using write_asset[OF s n g m, of r t A] r A CallCreate by (auto simp: refined_def)
next
  case (CallRead k)
  then show ?thesis
    using r read_step[OF s, of k _ t A] A n by (auto simp: refined_def giving_eq split: sum.splits)
next
  case (CallUpdate a)
  then have g: "storable a" using ok by simp
  have m: "UpdateAsset stub (as_ID a) (as_Color a) (as_Size a) (as_Owner a) (as_AppraisedValue a) =
      cbind (AssetExists stub (as_ID a)) (\<lambda>b. if b = False then cpure (Inl (Plain (''the asset '' @ as_ID a @ '' does not exist'')))
        else sb_PutState stub (as_ID a) (marshalAsset a))"
    unfolding UpdateAsset_def newAsset_parts by simp
  show ?thesis using write_asset[OF s n g m, of r t A] r A CallUpdate by (auto simp: refined_def)
next
  case (CallDelete k)
  then show ?thesis
    using r delete_asset[OF s n, of k _ t A] A by (auto simp: refined_def giving_eq)
next
  case (CallExists k)
  then show ?thesis
    using r exists_step[OF s, of k _ t A] exists_failure[of k s _ t] A n by (auto simp: refined_def giving_eq)
next
  case (CallTransfer k owner)
  then show ?thesis
    using r transfer_asset[OF s n, of k owner _ t A] A ok by (auto simp: refined_def giving_eq)
qed

end

subsection \<open>Over the helper's execution context\<close>

text \<open>C40: A call of the asset-transfer contract that runs over the handler and a fresh execution context
  of the helper refines the abstract contract.  When the committed ledger the execution reads stores a map of
  assets, a successful call returns what the abstract contract returns for it, and the ledger with the
  endorsed writes applied stores the map the abstract contract leaves; a call that fails is one the abstract
  contract refuses, or a call to the peer failed.\<close>

theorem asset_contract_refines:
  assumes "encodes lib q" and "repeatable reader snap" and "fresh_context c" and "call_storable call"
    and "callAsset (handlerStub lib q (context_ops reader) ctx facts) call ((c, w), event) = (r, st, event')"
    and "stores (ledger_behind snap st) A"
  shows "(\<forall>x. r = Inr x \<longrightarrow> (\<exists>A'. asset_spec call A = Some (x, A') \<and>
        stores (applyWrites (ledger_behind snap st) (effects_of (ExecutionContext_Result (fst st)))) A')) \<and>
    (\<forall>e. r = Inl e \<longrightarrow> asset_spec call A = None \<or>
        failed_call (handlerStub lib q (context_ops reader) ctx facts) e)"
proof -
  have l: "ledger_behind snap u = (\<lambda>k. nil_if_empty (vv_Value (context_snapshot snap u k)))" for u :: "ExecutionContext \<times> 'a"
    by (rule ext) (simp add: ledger_behind_def)
  have p: "pending_writes st = effects_of (ExecutionContext_Result (fst st))"
    by (simp add: pending_writes_def)
  have s: "encodes lib q \<and> execution.consistent reader snap (fst ((c, w), event))"
    "pending_writes (fst ((c, w), event)) = Map.empty"
    using assms(1) fresh_sound[OF assms(2,3)] by simp_all
  have A: "stores (\<lambda>k. nil_if_empty (vv_Value (context_snapshot snap (fst (st, event')) k))) A"
    using assms(6) by (simp add: l)
  note r = execution.stub.call_refined[where reader = reader and snap = snap, OF s assms(4,5) A]
  show ?thesis using r unfolding execution.stub.refined_def by (simp add: l p)
qed

definition sample_asset :: Asset where
  "sample_asset = newAsset ''a9'' ''blue'' 5 ''Ada'' 300"

definition sample_asset_call :: "(orch_error + asset_result) \<times> (ExecutionContext \<times> unit) \<times> ShimEvent option" where
  "sample_asset_call = callAsset (handlerStub sample_cc_shim sample_requests (context_ops (Some sample_query)) sample_ctx
      (sample_facts [] [])) (CallCreate sample_asset) ((NewExecutionContext ''assets'', ()), None)"

lemma sample_asset_run:
  "fst sample_asset_call = Inr Done \<and> xc_namespace (fst (fst (snd sample_asset_call))) = ''assets''"
  by code_simp

lemma sample_ledger_empty:
  assumes "xc_namespace (fst st) = ''assets''"
  shows "stores (ledger_behind sample_snap st) Map.empty"
  using assms by (simp add: stores_def ledger_behind_def context_snapshot_def sample_snap_def findRow_def
      committed_value_def nil_if_empty_def)

theorem asset_contract_refines_witness:
  "\<exists>L writes. L = Map.empty \<and> stores (applyWrites L writes) [''a9'' \<mapsto> sample_asset]"
proof -
  obtain st ev where r: "sample_asset_call = (Inr Done, st, ev)" and ns: "xc_namespace (fst st) = ''assets''"
    using sample_asset_run by (metis prod.collapse)
  have fresh: "fresh_context (NewExecutionContext ''assets'')"
    by (simp add: fresh_context_def NewExecutionContext_def NewExecutionContextWithView_def)
  have ok: "call_storable (CallCreate sample_asset)"
    by (simp add: sample_asset_def newAsset_def storable_def is_i64_def min_i64_def max_i64_def ascii_utf8)
  note refines = asset_contract_refines[OF sample_encodes sample_repeatable fresh ok r[unfolded sample_asset_call_def]
      sample_ledger_empty[OF ns]]
  have L: "ledger_behind sample_snap st = Map.empty"
    using sample_ledger_empty[OF ns] by (auto simp: stores_def fun_eq_iff)
  show ?thesis using refines unfolding L by (auto simp: sample_asset_def newAsset_def)
qed

end
