(* ===== verification/Response_Json.thy ===== *)
theory Response_Json
  imports Gateway_Service Connection_Guarantees
begin

section \<open>The JSON of an invocation response\<close>

text \<open>
  \<open>ProcessProposal\<close> answers an execution with the JSON of its \<open>InvocationResponse\<close>, which the command line
  client decodes.  Members tagged \<open>omitempty\<close> are left out when they hold their zero value; a pointer and
  a slice decode into a fresh zero value.
\<close>

definition omit_bool :: "string \<Rightarrow> bool \<Rightarrow> (string \<times> json) list" where
  "omit_bool tag b = (if b then [(tag, JBool b)] else [])"

definition omit_uint :: "string \<Rightarrow> nat \<Rightarrow> (string \<times> json) list" where
  "omit_uint tag n = (if n = 0 then [] else [(tag, JNum (FormatUint n))])"

definition event_json :: "ChaincodeEvent \<Rightarrow> json" where
  "event_json e = JObj (obj (
     omit_string ''chaincode_id'' (ce_ChaincodeID e) @ omit_string ''tx_id'' (ce_TxID e) @
     omit_string ''event_name'' (ce_EventName e) @ omit_string ''payload'' (ce_Payload e) @
     omit_string ''payload_base64'' (ce_PayloadBase64 e)))"

definition event_setters :: "ChaincodeEvent setters" where
  "event_setters = [
     (''chaincode_id'', set_string (\<lambda>s. ce_ChaincodeID_update (\<lambda>_. s))),
     (''tx_id'', set_string (\<lambda>s. ce_TxID_update (\<lambda>_. s))),
     (''event_name'', set_string (\<lambda>s. ce_EventName_update (\<lambda>_. s))),
     (''payload'', set_string (\<lambda>s. ce_Payload_update (\<lambda>_. s))),
     (''payload_base64'', set_string (\<lambda>s. ce_PayloadBase64_update (\<lambda>_. s)))]"

definition zeroEvent :: ChaincodeEvent where
  "zeroEvent = \<lparr>ce_ChaincodeID = [], ce_TxID = [], ce_EventName = [], ce_Payload = [], ce_PayloadBase64 = []\<rparr>"

definition omit_list :: "string \<Rightarrow> json list \<Rightarrow> (string \<times> json) list" where
  "omit_list tag vs = (if vs = [] then [] else [(tag, JArr (json_array vs))])"

definition response_members :: "InvocationResponse \<Rightarrow> (string \<times> json) list" where
  "response_members r =
     omit_string ''tx_id'' (rv_TxID r) @ [(''status'', JNum (FormatInt (rv_Status r)))] @
     omit_string ''message'' (rv_Message r) @ omit_string ''payload'' (rv_Payload r) @
     omit_string ''payload_base64'' (rv_PayloadBase64 r) @ [(''submitted'', JBool (rv_Submitted r))] @
     omit_bool ''finality_pending'' (rv_FinalityPending r) @ omit_string ''commit_status'' (rv_CommitStatus r) @
     omit_uint ''block_num'' (unat (rv_BlockNum r)) @ omit_uint ''tx_num'' (unat (rv_TxNum r)) @
     omit_string ''idempotency_key'' (rv_IdempotencyKey r) @ omit_bool ''idempotent_replay'' (rv_IdempotentReplay r) @
     (case rv_ChaincodeEvent r of None \<Rightarrow> [] | Some e \<Rightarrow> [(''chaincode_event'', event_json e)]) @
     omit_list ''lifecycle_bindings'' (map execution_binding_json (rv_LifecycleBindings r))"

definition marshalResponse :: "InvocationResponse \<Rightarrow> bytes" where
  "marshalResponse r = jprint (JObj (obj (response_members r)))"

primrec decode_elems :: "(json \<Rightarrow> 'a option) \<Rightarrow> jsons \<Rightarrow> 'a list option" where
  "decode_elems f ENil = Some []"
| "decode_elems f (ECons v es) =
     (case f v of None \<Rightarrow> None | Some x \<Rightarrow> map_option ((#) x) (decode_elems f es))"

definition set_list :: "(json \<Rightarrow> 'a option) \<Rightarrow> ('a list \<Rightarrow> 'r \<Rightarrow> 'r) \<Rightarrow> json \<Rightarrow> 'r \<Rightarrow> 'r option" where
  "set_list f g v r = (case v of JArr es \<Rightarrow> map_option (\<lambda>xs. g xs r) (decode_elems f es) | _ \<Rightarrow> None)"

definition response_setters :: "InvocationResponse setters" where
  "response_setters = [
     (''tx_id'', set_string (\<lambda>s. rv_TxID_update (\<lambda>_. s))),
     (''status'', set_int32 (\<lambda>x. rv_Status_update (\<lambda>_. x))),
     (''message'', set_string (\<lambda>s. rv_Message_update (\<lambda>_. s))),
     (''payload'', set_string (\<lambda>s. rv_Payload_update (\<lambda>_. s))),
     (''payload_base64'', set_string (\<lambda>s. rv_PayloadBase64_update (\<lambda>_. s))),
     (''submitted'', set_bool (\<lambda>b. rv_Submitted_update (\<lambda>_. b))),
     (''finality_pending'', set_bool (\<lambda>b. rv_FinalityPending_update (\<lambda>_. b))),
     (''commit_status'', set_string (\<lambda>s. rv_CommitStatus_update (\<lambda>_. s))),
     (''block_num'', set_uint (2 ^ 64 - 1) (\<lambda>n. rv_BlockNum_update (\<lambda>_. of_nat n))),
     (''tx_num'', set_uint (2 ^ 32 - 1) (\<lambda>n. rv_TxNum_update (\<lambda>_. of_nat n))),
     (''idempotency_key'', set_string (\<lambda>s. rv_IdempotencyKey_update (\<lambda>_. s))),
     (''idempotent_replay'', set_bool (\<lambda>b. rv_IdempotentReplay_update (\<lambda>_. b))),
     (''chaincode_event'', \<lambda>v r. map_option (\<lambda>e. r\<lparr>rv_ChaincodeEvent := Some e\<rparr>)
        (decode_value event_setters v (case rv_ChaincodeEvent r of None \<Rightarrow> zeroEvent | Some e \<Rightarrow> e))),
     (''lifecycle_bindings'', set_list (\<lambda>v. decode_value execution_binding_setters v zeroBinding)
        (\<lambda>bs. rv_LifecycleBindings_update (\<lambda>_. bs)))]"

definition unmarshalResponse :: "bytes \<Rightarrow> InvocationResponse option" where
  "unmarshalResponse = Unmarshal response_setters emptyResponse"

text \<open>The texts that JSON carries unchanged.\<close>

definition event_text_ok :: "ChaincodeEvent \<Rightarrow> bool" where
  "event_text_ok e \<longleftrightarrow> utf8_ok (ce_ChaincodeID e) \<and> utf8_ok (ce_TxID e) \<and> utf8_ok (ce_EventName e) \<and>
     utf8_ok (ce_Payload e) \<and> utf8_ok (ce_PayloadBase64 e)"

definition response_text_ok :: "InvocationResponse \<Rightarrow> bool" where
  "response_text_ok r \<longleftrightarrow> utf8_ok (rv_TxID r) \<and> utf8_ok (rv_Message r) \<and> utf8_ok (rv_Payload r) \<and>
     utf8_ok (rv_PayloadBase64 r) \<and> utf8_ok (rv_CommitStatus r) \<and> utf8_ok (rv_IdempotencyKey r) \<and>
     - (2 ^ 31) \<le> rv_Status r \<and> rv_Status r < 2 ^ 31 \<and>
     (\<forall>e. rv_ChaincodeEvent r = Some e \<longrightarrow> event_text_ok e) \<and>
     (\<forall>b \<in> set (rv_LifecycleBindings r). binding_text_ok b)"

subsection \<open>Round trip\<close>

lemma set_int32_Format:
  "- (2 ^ 31) \<le> x \<Longrightarrow> x < 2 ^ 31 \<Longrightarrow> set_int32 f (JNum (FormatInt x)) r = Some (f x r)"
  by (simp add: set_int32_def ParseInt_Format is_i64_def min_i64_def max_i64_def)

lemma event_json_ok:
  assumes "event_text_ok e"
  shows "json_ok (event_json e)"
proof -
  have tags: "utf8_ok ''chaincode_id''" "utf8_ok ''tx_id''" "utf8_ok ''event_name''" "utf8_ok ''payload''"
    "utf8_ok ''payload_base64''" by (rule ascii_utf8, simp)+
  show ?thesis using assms tags by (simp add: event_json_def event_text_ok_def omit_string_def)
qed

lemma event_member:
  "ce_ChaincodeID r = [] \<Longrightarrow> decode_struct event_setters (omit_string ''chaincode_id'' s) r = Some (r\<lparr>ce_ChaincodeID := s\<rparr>)"
  "ce_TxID r = [] \<Longrightarrow> decode_struct event_setters (omit_string ''tx_id'' s) r = Some (r\<lparr>ce_TxID := s\<rparr>)"
  "ce_EventName r = [] \<Longrightarrow> decode_struct event_setters (omit_string ''event_name'' s) r = Some (r\<lparr>ce_EventName := s\<rparr>)"
  "ce_Payload r = [] \<Longrightarrow> decode_struct event_setters (omit_string ''payload'' s) r = Some (r\<lparr>ce_Payload := s\<rparr>)"
  "ce_PayloadBase64 r = [] \<Longrightarrow>
    decode_struct event_setters (omit_string ''payload_base64'' s) r = Some (r\<lparr>ce_PayloadBase64 := s\<rparr>)"
  by (cases r; simp add: omit_string_def event_setters_def)+

lemma event_decodes: "decode_value event_setters (event_json e) zeroEvent = Some e"
  by (simp add: decode_value_def event_json_def decode_struct_append event_member zeroEvent_def)

lemma binding_decodes:
  "binding_text_ok b \<Longrightarrow> decode_value execution_binding_setters (execution_binding_json b) zeroBinding = Some b"
  using binding_members[of b] by (simp add: decode_value_def execution_binding_json_def binding_text_ok_def)

lemma decode_elems_map:
  "(\<And>x. x \<in> set xs \<Longrightarrow> f (g x) = Some x) \<Longrightarrow> decode_elems f (json_array (map g xs)) = Some xs"
  by (induction xs) simp_all

lemma response_member:
  "rv_TxID r = [] \<Longrightarrow> decode_struct response_setters (omit_string ''tx_id'' s) r = Some (r\<lparr>rv_TxID := s\<rparr>)"
  "- (2 ^ 31) \<le> x \<Longrightarrow> x < 2 ^ 31 \<Longrightarrow>
    decode_struct response_setters [(''status'', JNum (FormatInt x))] r = Some (r\<lparr>rv_Status := x\<rparr>)"
  "rv_Message r = [] \<Longrightarrow> decode_struct response_setters (omit_string ''message'' s) r = Some (r\<lparr>rv_Message := s\<rparr>)"
  "rv_Payload r = [] \<Longrightarrow> decode_struct response_setters (omit_string ''payload'' s) r = Some (r\<lparr>rv_Payload := s\<rparr>)"
  "rv_PayloadBase64 r = [] \<Longrightarrow>
    decode_struct response_setters (omit_string ''payload_base64'' s) r = Some (r\<lparr>rv_PayloadBase64 := s\<rparr>)"
  "decode_struct response_setters [(''submitted'', JBool b)] r = Some (r\<lparr>rv_Submitted := b\<rparr>)"
  "rv_FinalityPending r = False \<Longrightarrow>
    decode_struct response_setters (omit_bool ''finality_pending'' b) r = Some (r\<lparr>rv_FinalityPending := b\<rparr>)"
  "rv_CommitStatus r = [] \<Longrightarrow>
    decode_struct response_setters (omit_string ''commit_status'' s) r = Some (r\<lparr>rv_CommitStatus := s\<rparr>)"
  "rv_IdempotencyKey r = [] \<Longrightarrow>
    decode_struct response_setters (omit_string ''idempotency_key'' s) r = Some (r\<lparr>rv_IdempotencyKey := s\<rparr>)"
  "rv_IdempotentReplay r = False \<Longrightarrow>
    decode_struct response_setters (omit_bool ''idempotent_replay'' b) r = Some (r\<lparr>rv_IdempotentReplay := b\<rparr>)"
  by (cases r; simp add: omit_string_def omit_bool_def response_setters_def set_int32_Format)+

lemma response_numbers:
  "rv_BlockNum r = 0 \<Longrightarrow>
    decode_struct response_setters (omit_uint ''block_num'' (unat w)) r = Some (r\<lparr>rv_BlockNum := w\<rparr>)"
  "rv_TxNum r = 0 \<Longrightarrow>
    decode_struct response_setters (omit_uint ''tx_num'' (unat n)) r = Some (r\<lparr>rv_TxNum := n\<rparr>)"
proof -
  have w: "unat w \<le> 2 ^ 64 - 1" and n: "unat n \<le> 2 ^ 32 - 1"
    using unsigned_less[of w, where ?'a = nat] unsigned_less[of n, where ?'a = nat] by simp_all
  show "rv_BlockNum r = 0 \<Longrightarrow>
      decode_struct response_setters (omit_uint ''block_num'' (unat w)) r = Some (r\<lparr>rv_BlockNum := w\<rparr>)"
    by (cases r) (simp add: set_uint_Format[OF w, simplified] omit_uint_def response_setters_def unsigned_eq_0_iff)
  show "rv_TxNum r = 0 \<Longrightarrow>
      decode_struct response_setters (omit_uint ''tx_num'' (unat n)) r = Some (r\<lparr>rv_TxNum := n\<rparr>)"
    by (cases r) (simp add: set_uint_Format[OF n, simplified] omit_uint_def response_setters_def unsigned_eq_0_iff)
qed

lemma response_event:
  "rv_ChaincodeEvent r = None \<Longrightarrow> decode_struct response_setters
     (case e of None \<Rightarrow> [] | Some x \<Rightarrow> [(''chaincode_event'', event_json x)]) r = Some (r\<lparr>rv_ChaincodeEvent := e\<rparr>)"
  by (cases r; cases e) (simp_all add: response_setters_def event_decodes, simp add: event_json_def)

lemma response_bindings:
  assumes "\<forall>b \<in> set bs. binding_text_ok b" and "rv_LifecycleBindings r = []"
  shows "decode_struct response_setters (omit_list ''lifecycle_bindings'' (map execution_binding_json bs)) r =
    Some (r\<lparr>rv_LifecycleBindings := bs\<rparr>)"
proof -
  have "decode_elems (\<lambda>v. decode_value execution_binding_setters v zeroBinding)
      (json_array (map execution_binding_json bs)) = Some bs"
    using assms(1) by (intro decode_elems_map) (simp add: binding_decodes)
  then show ?thesis using assms(2) by (cases r) (simp add: omit_list_def response_setters_def set_list_def)
qed

lemma response_json_ok:
  assumes "response_text_ok r"
  shows "json_ok (JObj (obj (response_members r)))"
proof -
  have tags: "utf8_ok ''tx_id''" "utf8_ok ''status''" "utf8_ok ''message''" "utf8_ok ''payload''"
    "utf8_ok ''payload_base64''" "utf8_ok ''submitted''" "utf8_ok ''finality_pending''" "utf8_ok ''commit_status''"
    "utf8_ok ''block_num''" "utf8_ok ''tx_num''" "utf8_ok ''idempotency_key''" "utf8_ok ''idempotent_replay''"
    "utf8_ok ''chaincode_event''" "utf8_ok ''lifecycle_bindings''" by (rule ascii_utf8, simp)+
  show ?thesis using assms tags
    by (auto simp: response_members_def response_text_ok_def omit_string_def omit_bool_def omit_uint_def omit_list_def
        event_json_ok binding_json_ok split: option.splits if_splits)
qed

lemma response_roundtrip:
  assumes "response_text_ok r"
  shows "unmarshalResponse (marshalResponse r) = Some r"
proof -
  have "decode_struct response_setters (response_members r) emptyResponse = Some r"
    using assms unfolding response_members_def decode_struct_append
    by (simp add: response_member response_numbers response_event response_bindings emptyResponse_def
        response_text_ok_def del: decode_struct.simps)
  then show ?thesis
    unfolding unmarshalResponse_def marshalResponse_def Unmarshal_def jparse_jprint[OF response_json_ok[OF assms]]
    by (simp add: decode_value_def)
qed

interpretation response_codec: codec response_text_ok marshalResponse unmarshalResponse
  by unfold_locales (rule response_roundtrip)

end
