(* ===== verification/Client_Command.thy ===== *)
theory Client_Command
  imports Response_Json Package_Build Connections
begin

section \<open>The command line client\<close>

text \<open>
  \<open>cmd/client/main.go\<close>: the query, invoke and evaluate commands.  Reading and parsing the configuration file is
  done by libraries, so its result is an argument, as are the values of the flags; proposals, signatures and
  the Gateway SDK are library calls in \<open>client_lib\<close>, and \<open>client_wire\<close> is the call of the orchestrator over an
  open connection.  What a command prints is its result.
\<close>

record client_settings =
  ct_ChannelID :: string
  ct_Protocol :: string
  ct_Identity :: "(string \<times> string) option"
  ct_Orchestrator :: "ClientConfig option"

record client_flags =
  fg_namespace :: string
  fg_name :: string
  fg_version :: string
  fg_host :: string
  fg_isInit :: bool
  fg_targetOrgs :: "string list"

record invocation_spec =
  is_Name :: string
  is_Version :: string
  is_Args :: "bytes list"
  is_IsInit :: bool

record evaluate_call =
  ev_Channel :: string
  ev_Contract :: string
  ev_Function :: string
  ev_Args :: "bytes list"
  ev_Transient :: "(string \<times> bytes) list"
  ev_Orgs :: "string list"

record client_lib =
  kl_Signer :: "string \<Rightarrow> string \<Rightarrow> orch_error + signer"
  kl_Nonce :: "orch_error + bytes"
  kl_ComputeTxID :: "bytes \<Rightarrow> bytes \<Rightarrow> string"
  kl_CreateProposal :: "string \<Rightarrow> string \<Rightarrow> invocation_spec \<Rightarrow> bytes \<Rightarrow> bytes \<Rightarrow> (string \<times> bytes) list
    \<Rightarrow> orch_error + Proposal"
  kl_SignedProposal :: "Proposal \<Rightarrow> signer \<Rightarrow> orch_error + SignedProposal"
  kl_GatewayIdentity :: "bytes \<Rightarrow> orch_error + unit"
  kl_GatewayConnect :: "orch_error + unit"
  kl_Evaluate :: "evaluate_call \<Rightarrow> orch_error + bytes"

type_synonym client_wire = "nat \<Rightarrow> proposal_metadata \<Rightarrow> SignedProposal \<Rightarrow> orch_error + ProposalResponse option"

subsection \<open>Configuration\<close>

definition parseHostEndpoint :: "string \<Rightarrow> orch_error + Endpoint" where
  "parseHostEndpoint host =
     (case SplitHostPort host of
        (None, _) \<Rightarrow> Inl (Plain (''invalid host '' @ host @ '': expected host:port''))
      | (Some name, portValue) \<Rightarrow>
          (case ParseInt64 portValue of
             Inl _ \<Rightarrow> Inl (Plain (''invalid host '' @ host @ '': port must be numeric''))
           | Inr port \<Rightarrow>
               (if name = [] \<or> port \<le> 0 then Inl (Plain (''invalid host '' @ host @ '': expected host:port''))
                else Inr \<lparr>ep_Host = name, ep_Port = port\<rparr>)))"

definition noTLS :: TLSConfig where
  "noTLS = \<lparr>tl_Mode = [], tl_CertPath = [], tl_KeyPath = [], tl_CACertPaths = [], tl_ServerName = []\<rparr>"

text \<open>The host flag replaces the endpoint and keeps the rest.\<close>

definition withHost :: "string \<Rightarrow> ClientConfig option \<Rightarrow> orch_error + ClientConfig option" where
  "withHost host configured =
     (if host = [] then Inr configured
      else rbind (parseHostEndpoint host) (\<lambda>endpoint.
        Inr (Some ((case configured of None \<Rightarrow> \<lparr>cc_Endpoint = None, cc_TLS = noTLS\<rparr> | Some c \<Rightarrow> c)
          \<lparr>cc_Endpoint := Some endpoint\<rparr>))))"

definition validate_client :: "client_settings \<Rightarrow> orch_error + unit" where
  "validate_client cfg =
     (if ct_ChannelID cfg = [] then Inl (Plain ''channel-id is required'')
      else if (case ct_Orchestrator cfg of None \<Rightarrow> True | Some c \<Rightarrow> cc_Endpoint c = None)
      then Inl (Plain ''orchestrator.endpoint is required'')
      else if ct_Identity cfg = None then Inl (Plain ''identity is required for orchestrator transport'')
      else Inr ())"

definition loadConfig :: "orch_error + client_settings \<Rightarrow> client_flags \<Rightarrow> orch_error + client_settings" where
  "loadConfig parsed flags =
     rbind parsed (\<lambda>cfg.
     rbind (withHost (fg_host flags) (ct_Orchestrator cfg)) (\<lambda>orch.
     let cfg' = cfg\<lparr>ct_Orchestrator := orch\<rparr> in
     rbind (map_error (Wrapped ''invalid config'') (validate_client cfg')) (\<lambda>_. Inr cfg')))"

subsection \<open>The transaction argument\<close>

record txInput =
  tx_Function :: string
  tx_Args :: "string list"
  tx_Transient :: "(string \<times> string) list"

definition zeroInput :: txInput where
  "zeroInput = \<lparr>tx_Function = [], tx_Args = [], tx_Transient = []\<rparr>"

text \<open>A null element keeps what the slice held there.\<close>

primrec string_elems :: "jsons \<Rightarrow> string list \<Rightarrow> string list option" where
  "string_elems ENil old = Some []"
| "string_elems (ECons v es) old =
     (case (case v of JStr s \<Rightarrow> Some s | JNull \<Rightarrow> Some (if old = [] then [] else hd old) | _ \<Rightarrow> None) of
        None \<Rightarrow> None
      | Some s \<Rightarrow> map_option ((#) s) (string_elems es (tl old)))"

definition set_strings :: "json \<Rightarrow> txInput \<Rightarrow> txInput option" where
  "set_strings v r = (case v of
       JArr es \<Rightarrow> map_option (\<lambda>ss. r\<lparr>tx_Args := ss\<rparr>) (string_elems es (tx_Args r))
     | _ \<Rightarrow> None)"

definition map_put :: "string \<Rightarrow> 'v \<Rightarrow> (string \<times> 'v) list \<Rightarrow> (string \<times> 'v) list" where
  "map_put k v m = filter (\<lambda>p. fst p \<noteq> k) m @ [(k, v)]"

fun put_strings :: "(string \<times> json) list \<Rightarrow> (string \<times> string) list \<Rightarrow> (string \<times> string) list option" where
  "put_strings [] m = Some m"
| "put_strings ((k, v) # ms) m =
     (case v of
        JStr s \<Rightarrow> put_strings ms (map_put k s m)
      | JNull \<Rightarrow> put_strings ms (map_put k [] m)
      | _ \<Rightarrow> None)"

definition set_transient :: "json \<Rightarrow> txInput \<Rightarrow> txInput option" where
  "set_transient v r = (case v of
       JObj ms \<Rightarrow> map_option (\<lambda>m. r\<lparr>tx_Transient := m\<rparr>) (put_strings (member_list ms) (tx_Transient r))
     | _ \<Rightarrow> None)"

definition txInput_setters :: "txInput setters" where
  "txInput_setters = [
     (''Function'', set_string (\<lambda>s. tx_Function_update (\<lambda>_. s))),
     (''Args'', set_strings), (''Transient'', set_transient)]"

text \<open>The arguments of the proposal start with the function when one is named.\<close>

definition parseTxArgs :: "string \<Rightarrow> orch_error + txInput \<times> bytes list \<times> (string \<times> bytes) list" where
  "parseTxArgs txJSON =
     rbind (require (Plain ''invalid transaction JSON'') (Unmarshal txInput_setters zeroInput txJSON)) (\<lambda>tx.
     Inr (tx, (if tx_Function tx = [] then [] else [tx_Function tx]) @ tx_Args tx, tx_Transient tx))"

definition prepare ::
  "orch_error + client_settings \<Rightarrow> client_flags \<Rightarrow> string
    \<Rightarrow> orch_error + client_settings \<times> bytes list \<times> (string \<times> bytes) list" where
  "prepare parsed flags txJSON =
     rbind (loadConfig parsed flags) (\<lambda>cfg.
     rbind (parseTxArgs txJSON) (\<lambda>(tx, txArgs, transient).
     Inr (cfg, txArgs, transient)))"

definition namespaceFromFlag :: "client_flags \<Rightarrow> orch_error + string" where
  "namespaceFromFlag flags =
     (if fg_namespace flags \<noteq> [] then Inr (fg_namespace flags) else Inl (Plain ''namespace is required''))"

definition chaincodeIdentity :: "client_flags \<Rightarrow> orch_error + string \<times> string" where
  "chaincodeIdentity flags =
     (if fg_name flags = [] then Inl (Plain ''name is required'') else Inr (fg_name flags, fg_version flags))"

subsection \<open>Calling the orchestrator\<close>

definition newSignedProposal ::
  "client_lib \<Rightarrow> signer \<Rightarrow> string \<Rightarrow> string \<Rightarrow> string \<Rightarrow> bytes list \<Rightarrow> (string \<times> bytes) list \<Rightarrow> bool
    \<Rightarrow> orch_error + SignedProposal" where
  "newSignedProposal cl signer channel name version args transient isInit =
     rbind (require (Plain ''serialize'') (sg_Serialize signer)) (\<lambda>creator.
     rbind (kl_Nonce cl) (\<lambda>nonce.
     rbind (kl_CreateProposal cl (kl_ComputeTxID cl nonce creator) channel
              \<lparr>is_Name = name, is_Version = version, is_Args = args, is_IsInit = isInit\<rparr> nonce creator transient)
       (\<lambda>proposal. kl_SignedProposal cl proposal signer)))"

text \<open>The configuration was validated, so its endpoint and identity are there; a nil one would be a panic.\<close>

definition answer_of :: "orch_error + ProposalResponse option \<Rightarrow> orch_error + InvocationResponse" where
  "answer_of answer =
     rbind (map_error (Wrapped ''orchestrator grpc call failed'') answer) (\<lambda>resp.
     rbind (require (Plain ''orchestrator returned no response'')
              (case resp of None \<Rightarrow> None | Some r \<Rightarrow> ps_Response r)) (\<lambda>response.
     require (Plain ''decode orchestrator grpc response'') (unmarshalResponse (pr_Payload response))))"

definition callOrchestrator ::
  "client_lib \<Rightarrow> network \<Rightarrow> client_wire \<Rightarrow> client_settings \<Rightarrow> string \<Rightarrow> string \<Rightarrow> string \<Rightarrow> string \<Rightarrow> bytes list
    \<Rightarrow> (string \<times> bytes) list \<Rightarrow> bool \<Rightarrow> connections \<Rightarrow> (orch_error + InvocationResponse) outcome \<times> connections" where
  "callOrchestrator cl net wire cfg namespace name version oper txArgs transient isInit c =
     (case ct_Identity cfg of
        None \<Rightarrow> (Panic, c)
      | Some (mspDir, mspID) \<Rightarrow>
        (case rbind (map_error (Wrapped ''load identity'') (kl_Signer cl mspDir mspID)) (\<lambda>signer.
                if oper \<noteq> ''invoke'' \<and> oper \<noteq> ''query'' then Inl (Plain (''unknown orchestrator operation '' @ oper))
                else map_error (Wrapped ''create signed proposal'')
                  (newSignedProposal cl signer (ct_ChannelID cfg) name version txArgs transient isInit)) of
           Inl e \<Rightarrow> (Returned (Inl e), c)
         | Inr prop \<Rightarrow>
           (case (case ct_Orchestrator cfg of None \<Rightarrow> None | Some conf \<Rightarrow> ToPeerConf conf) of
              None \<Rightarrow> (Panic, c)
            | Some conf \<Rightarrow>
              (case NewPeer net conf c of
                 (Inl e, c1) \<Rightarrow> (Returned (Inl (Wrapped ''create orchestrator grpc client'' e)), c1)
               | (Inr h, c1) \<Rightarrow>
                   (Returned (answer_of (wire h \<lparr>md_operation = [oper], md_namespace = [namespace], md_init = []\<rparr> prop)),
                    snd (Peer_Close net h c1))))))"

subsection \<open>The commands\<close>

definition end_of_line :: string where
  "end_of_line = [CHR 0x0A]"

text \<open>What the flags and the argument ask for, in the order in which the commands check them.\<close>

record asked =
  ak_cfg :: client_settings
  ak_args :: "bytes list"
  ak_transient :: "(string \<times> bytes) list"
  ak_namespace :: string
  ak_name :: string
  ak_version :: string

definition commandInput ::
  "orch_error + client_settings \<Rightarrow> client_flags \<Rightarrow> string \<Rightarrow> orch_error + asked" where
  "commandInput parsed flags txJSON =
     rbind (prepare parsed flags txJSON) (\<lambda>(cfg, txArgs, transient).
     rbind (namespaceFromFlag flags) (\<lambda>namespace.
     rbind (chaincodeIdentity flags) (\<lambda>(name, version).
     Inr \<lparr>ak_cfg = cfg, ak_args = txArgs, ak_transient = transient, ak_namespace = namespace, ak_name = name,
       ak_version = version\<rparr>)))"

definition query_output :: "InvocationResponse \<Rightarrow> orch_error + string" where
  "query_output res =
     (if rv_Status res < 200 \<or> rv_Status res \<ge> 400
      then Inl (Plain (''orchestrator returned error status '' @ FormatInt (rv_Status res) @ '': '' @ rv_Message res))
      else Inr (if rv_Payload res = [] then [] else rv_Payload res @ end_of_line))"

definition queryCommand ::
  "client_lib \<Rightarrow> network \<Rightarrow> client_wire \<Rightarrow> orch_error + client_settings \<Rightarrow> client_flags \<Rightarrow> string \<Rightarrow> connections
    \<Rightarrow> (orch_error + string) outcome \<times> connections" where
  "queryCommand cl net wire parsed flags txJSON c =
     (case commandInput parsed flags txJSON of
        Inl e \<Rightarrow> (Returned (Inl e), c)
      | Inr a \<Rightarrow>
          (case callOrchestrator cl net wire (ak_cfg a) (ak_namespace a) (ak_name a) (ak_version a) ''query''
                  (ak_args a) (ak_transient a) False c of
             (Unfinished, c') \<Rightarrow> (Unfinished, c')
           | (Panic, c') \<Rightarrow> (Panic, c')
           | (Returned r, c') \<Rightarrow> (Returned (rbind r query_output), c')))"

definition invokeCommand ::
  "client_lib \<Rightarrow> network \<Rightarrow> client_wire \<Rightarrow> orch_error + client_settings \<Rightarrow> client_flags \<Rightarrow> string \<Rightarrow> connections
    \<Rightarrow> (orch_error + string) outcome \<times> connections" where
  "invokeCommand cl net wire parsed flags txJSON c =
     (case commandInput parsed flags txJSON of
        Inl e \<Rightarrow> (Returned (Inl e), c)
      | Inr a \<Rightarrow>
          (case callOrchestrator cl net wire (ak_cfg a) (ak_namespace a) (ak_name a) (ak_version a) ''invoke''
                  (ak_args a) (ak_transient a) (fg_isInit flags) c of
             (Unfinished, c') \<Rightarrow> (Unfinished, c')
           | (Panic, c') \<Rightarrow> (Panic, c')
           | (Returned r, c') \<Rightarrow>
               (Returned (rbind r (\<lambda>res. Inr (jindent 0 (JObj (obj (response_members res))) @ end_of_line))), c')))"

text \<open>Evaluation goes through the Gateway SDK; its chaincode name is the route.\<close>

definition evaluateChecks ::
  "orch_error + client_settings \<Rightarrow> client_flags \<Rightarrow> string \<Rightarrow> orch_error + client_settings \<times> evaluate_call" where
  "evaluateChecks parsed flags txJSON =
     rbind (prepare parsed flags txJSON) (\<lambda>(cfg, txArgs, transient).
     case txArgs of
       [] \<Rightarrow> Inl (Plain ''function is required'')
     | fn # args \<Rightarrow>
         (if fn = [] then Inl (Plain ''function is required'')
          else rbind (namespaceFromFlag flags) (\<lambda>namespace.
            rbind (chaincodeIdentity flags) (\<lambda>(name, version).
            if version \<noteq> []
            then Inl (Plain ''evaluate selects the active definition by name; omit --version'')
            else Inr (cfg, \<lparr>ev_Channel = ct_ChannelID cfg, ev_Contract = name @ CHR '':'' # namespace, ev_Function = fn,
              ev_Args = args, ev_Transient = transient, ev_Orgs = fg_targetOrgs flags\<rparr>)))))"

definition evaluateCommand ::
  "client_lib \<Rightarrow> network \<Rightarrow> orch_error + client_settings \<Rightarrow> client_flags \<Rightarrow> string \<Rightarrow> connections
    \<Rightarrow> (orch_error + bytes) outcome \<times> connections" where
  "evaluateCommand cl net parsed flags txJSON c =
     (case evaluateChecks parsed flags txJSON of
        Inl e \<Rightarrow> (Returned (Inl e), c)
      | Inr (cfg, call) \<Rightarrow>
        (case ct_Identity cfg of
           None \<Rightarrow> (Panic, c)
         | Some (mspDir, mspID) \<Rightarrow>
           (case rbind (kl_Signer cl mspDir mspID) (\<lambda>signer.
                   rbind (require (Plain ''serialize'') (sg_Serialize signer)) (kl_GatewayIdentity cl)) of
              Inl e \<Rightarrow> (Returned (Inl e), c)
            | Inr _ \<Rightarrow>
              (case (case ct_Orchestrator cfg of None \<Rightarrow> None | Some conf \<Rightarrow> ToPeerConf conf) of
                 None \<Rightarrow> (Panic, c)
               | Some conf \<Rightarrow>
                 (case NewPeer net conf c of
                    (Inl e, c1) \<Rightarrow> (Returned (Inl e), c1)
                  | (Inr h, c1) \<Rightarrow>
                      (Returned (rbind (kl_GatewayConnect cl) (\<lambda>_. kl_Evaluate cl call)), snd (Peer_Close net h c1)))))))"

subsection \<open>What the client relies on\<close>

text \<open>The proposal library builds what the orchestrator's parser reads.\<close>

definition understands :: "client_lib \<Rightarrow> proto_lib \<Rightarrow> proposal_parser \<Rightarrow> bool" where
  "understands cl plib parse \<longleftrightarrow> (\<forall>txID channel spec nonce creator transient proposal signer sp now iv.
     kl_CreateProposal cl txID channel spec nonce creator transient = Inr proposal \<longrightarrow>
     kl_SignedProposal cl proposal signer = Inr sp \<longrightarrow> parse sp now = Inr iv \<longrightarrow>
       iv_TxID iv = txID \<and> iv_Namespace iv = is_Name spec \<and> iv_ChaincodeVersion iv = is_Version spec \<and>
       iv_Args iv = is_Args spec \<and> iv_Creator iv = creator \<and> iv_Nonce iv = nonce \<and>
       (\<exists>p carried input. iv_Proposal iv = Some p \<and> pl_ProposalPayload plib (pp_Payload p) = Some (carried, input) \<and>
          map_of carried = map_of transient \<and> ProposalIsInit plib (Some p) = Inr (is_IsInit spec)))"

text \<open>The peer behind the connection is an orchestrator: it admits what it answers, and its answer is the JSON of the
  response that \<open>run\<close> gives for the admitted request.\<close>

definition served_by ::
  "('id, 'v) frontend \<Rightarrow> (operation \<Rightarrow> InvocationRequest \<Rightarrow> InvocationResponse option) \<Rightarrow> client_wire \<Rightarrow> bool" where
  "served_by fe run wire \<longleftrightarrow> (\<forall>h md sp resp. wire h md sp = Inr (Some resp) \<longrightarrow>
     (\<exists>now oper req out response. admitProposal fe now md (Some sp) = Inr (oper, req) \<and> oper \<noteq> OpEndorse \<and>
        run oper req = Some out \<and> response_text_ok out \<and> ps_Response resp = Some response \<and>
        pr_Payload response = marshalResponse out))"

text \<open>The request is the one that was asked for.\<close>

definition matches_request :: "client_lib \<Rightarrow> asked \<Rightarrow> bool \<Rightarrow> InvocationRequest \<Rightarrow> bool" where
  "matches_request cl a isInit req \<longleftrightarrow>
     invocationArgs req = ak_args a \<and> ir_Namespace req = ak_namespace a \<and> ir_ChaincodeName req = ak_name a \<and>
     ir_ChaincodeVersion req = ak_version a \<and> ir_IsInit req = isInit \<and>
     map_of (ir_ClientTransient req) = map_of (ak_transient a) \<and>
     (\<exists>creator nonce. kl_Nonce cl = Inr nonce \<and> ir_ClientCreator req = creator \<and> ir_ClientNonce req = nonce \<and>
        ir_ClientTxID req = kl_ComputeTxID cl nonce creator)"

end
