(* ===== verification/Client_Guarantees.thy ===== *)
theory Client_Guarantees
  imports Client_Command Service_Guarantees
begin

section \<open>From the command line to the orchestrator and back\<close>

text \<open>
  The request the orchestrator admits is the one the flags and the argument ask for, the response the client
  prints is the one the orchestrator computed, and the connection of a call is given back whatever happens.
\<close>

lemma Invalid_Inr [simp]: "Invalid r = Inr x \<longleftrightarrow> r = Inr x"
  by (simp add: Invalid_def map_error_iff)

lemma parsed_proposal:
  assumes "authenticateClientProposal lib plib parse cfg v (Some sp) now = Inr (iv, identity)"
  shows "parse sp now = Inr iv"
  using assms by (auto simp: authenticateClientProposal_def rbind_Inr_iff split: if_splits)

lemma requested:
  assumes "requestFromProposal plib iv = Inr req" and "iv_Proposal iv = Some p"
    and "pl_ProposalPayload plib (pp_Payload p) = Some (carried, input)" and "ProposalIsInit plib (Some p) = Inr isInit"
  shows "invocationArgs req = iv_Args iv \<and> ir_Namespace req = [] \<and> ir_ChaincodeName req = iv_Namespace iv \<and>
    ir_ChaincodeVersion req = iv_ChaincodeVersion iv \<and> ir_IsInit req = isInit \<and> ir_ClientTransient req = carried"
  using assms by (auto simp: requestFromProposal_def rbind_Inr_iff invocationArgs_def emptyRequest_def Let_def
      split: list.splits if_splits)

lemma authorized:
  assumes "authorizeClientInvocation cfg v (iv, identity) sp req0 = Inr req" and "ir_Namespace req0 \<noteq> []"
  shows "req = req0\<lparr>ir_ClientTxID := iv_TxID iv, ir_ClientCreator := iv_Creator iv, ir_ClientNonce := iv_Nonce iv,
    ir_ClientSignedProposal := sp\<rparr>"
  using assms by (auto simp: authorizeClientInvocation_def prepareInvocation_def rbind_Inr_iff Let_def split: if_splits)

definition operation_named :: "string \<Rightarrow> operation" where
  "operation_named oper = (if oper = ''invoke'' then OpInvoke else OpQuery)"

lemma admitted_request_matches:
  assumes u: "understands cl (so_proto (fe_service fe)) (fe_parse fe)"
    and new: "newSignedProposal cl signer channel (ak_name a) (ak_version a) (ak_args a) (ak_transient a) isInit = Inr sp"
    and ns: "ak_namespace a \<noteq> []" and oper: "oper \<in> {''invoke'', ''query''}"
    and adm: "admitProposal fe now \<lparr>md_operation = [oper], md_namespace = [ak_namespace a], md_init = []\<rparr> (Some sp) =
      Inr (o', req)"
  shows "o' = operation_named oper \<and> matches_request cl a isInit req"
proof -
  obtain creator nonce proposal where n: "kl_Nonce cl = Inr nonce"
    and create: "kl_CreateProposal cl (kl_ComputeTxID cl nonce creator) channel
      \<lparr>is_Name = ak_name a, is_Version = ak_version a, is_Args = ak_args a, is_IsInit = isInit\<rparr> nonce creator
      (ak_transient a) = Inr proposal"
    and sign: "kl_SignedProposal cl proposal signer = Inr sp"
    using new by (auto simp: newSignedProposal_def rbind_Inr_iff)
  have named: "operationFromContext [oper] = Inr (operation_named oper)" "operation_named oper \<noteq> OpEndorse"
    using oper by (auto simp: operationFromContext_def operation_named_def)
  obtain iv identity req0 where auth: "authenticateClientProposal (so_msp (fe_service fe)) (so_proto (fe_service fe))
        (fe_parse fe) (so_cfg (fe_service fe)) (fe_auth fe) (Some sp) now = Inr (iv, identity)"
    and r0: "requestFromProposal (so_proto (fe_service fe)) iv = Inr req0"
    and rest: "rbind (case namespaceFromContext [ak_namespace a] of
                 None \<Rightarrow> Inr req0
               | Some namespace \<Rightarrow>
                 (if ir_Namespace req0 \<noteq> [] \<and> ir_Namespace req0 \<noteq> namespace
                  then Inl (StatusError CodeInvalidArgument ''forwarded namespace conflicts with the signed Gateway route'')
                  else Inr (req0\<lparr>ir_Namespace := namespace\<rparr>))) (\<lambda>req2.
      rbind (Invalid (validateInitMetadata [] (ir_IsInit req2))) (\<lambda>_.
      if ir_IsInit req2 \<and> operation_named oper = OpQuery
      then Inl (StatusError CodeInvalidArgument ''is-init is only valid for invoke'')
      else rbind (authorizeClientInvocation (so_cfg (fe_service fe)) (fe_auth fe) (iv, identity) (Some sp) req2)
             (\<lambda>req. Inr (operation_named oper, req)))) = Inr (o', req)"
    using adm named unfolding admitProposal_def Let_def
    by (auto simp: rbind_Inr_iff)
  obtain p carried input where iv: "iv_TxID iv = kl_ComputeTxID cl nonce creator" "iv_Namespace iv = ak_name a"
      "iv_ChaincodeVersion iv = ak_version a" "iv_Args iv = ak_args a" "iv_Creator iv = creator" "iv_Nonce iv = nonce"
    and p: "iv_Proposal iv = Some p" "pl_ProposalPayload (so_proto (fe_service fe)) (pp_Payload p) = Some (carried, input)"
      "map_of carried = map_of (ak_transient a)" "ProposalIsInit (so_proto (fe_service fe)) (Some p) = Inr isInit"
    using u create sign parsed_proposal[OF auth] unfolding understands_def by fastforce
  note q = requested[OF r0 p(1,2,4)]
  have o: "o' = operation_named oper"
    and ok: "authorizeClientInvocation (so_cfg (fe_service fe)) (fe_auth fe) (iv, identity) (Some sp)
      (req0\<lparr>ir_Namespace := ak_namespace a\<rparr>) = Inr req"
    using rest q ns by (auto simp: namespaceFromContext_def rbind_Inr_iff split: if_splits)
  have "req = (req0\<lparr>ir_Namespace := ak_namespace a\<rparr>)\<lparr>ir_ClientTxID := iv_TxID iv, ir_ClientCreator := iv_Creator iv,
      ir_ClientNonce := iv_Nonce iv, ir_ClientSignedProposal := Some sp\<rparr>"
    by (rule authorized[OF ok]) (simp add: ns)
  then have "matches_request cl a isInit req"
    using q iv p(3) n by (auto simp: matches_request_def invocationArgs_def)
  then show ?thesis using o by simp
qed

text \<open>The call of the orchestrator: its connection is given back, and an answer is the response of an admitted request.\<close>

lemma call_gives_back:
  assumes "callOrchestrator cl net wire cfg ns name version oper args transient isInit c = (r, c')" and "conns_ok c"
  shows "still_open c' = still_open c \<and> conns_ok c'"
proof -
  have "still_open (snd (Peer_Close net h c1)) = still_open c \<and> conns_ok (snd (Peer_Close net h c1))"
    if "NewPeer net conf c = (Inr h, c1)" for conf h c1
  proof -
    note p = NewPeer_Inr[OF that assms(2)]
    have "h \<notin> set (still_open c)" using p(3) by (simp add: still_open_def)
    then show ?thesis using Peer_Close_open[OF p(2), of h net] p(1) by (simp add: remove1_append)
  qed
  then show ?thesis using assms NewPeer_Inl[of net _ c]
    by (auto simp: callOrchestrator_def split: option.splits prod.splits sum.splits)
qed

lemma call_answer:
  assumes "callOrchestrator cl net wire cfg ns name version oper args transient isInit c = (Returned (Inr out), c')"
  obtains signer sp h resp response where "oper \<in> {''invoke'', ''query''}"
    "newSignedProposal cl signer (ct_ChannelID cfg) name version args transient isInit = Inr sp"
    "wire h \<lparr>md_operation = [oper], md_namespace = [ns], md_init = []\<rparr> sp = Inr (Some resp)"
    "ps_Response resp = Some response" "unmarshalResponse (pr_Payload response) = Some out"
  using assms unfolding callOrchestrator_def
  by (auto simp: rbind_Inr_iff map_error_iff answer_of_def split: option.splits prod.splits sum.splits if_splits)

lemma call_executed:
  assumes u: "understands cl (so_proto (fe_service fe)) (fe_parse fe)" and served: "served_by fe run wire"
    and ns: "ak_namespace a \<noteq> []"
    and call: "callOrchestrator cl net wire (ak_cfg a) (ak_namespace a) (ak_name a) (ak_version a) oper (ak_args a)
      (ak_transient a) isInit c = (Returned (Inr out), c')"
  shows "\<exists>req. matches_request cl a isInit req \<and> run (operation_named oper) req = Some out"
proof -
  obtain signer sp h resp response where oper: "oper \<in> {''invoke'', ''query''}"
    and new: "newSignedProposal cl signer (ct_ChannelID (ak_cfg a)) (ak_name a) (ak_version a) (ak_args a)
      (ak_transient a) isInit = Inr sp"
    and w: "wire h \<lparr>md_operation = [oper], md_namespace = [ak_namespace a], md_init = []\<rparr> sp = Inr (Some resp)"
    and resp: "ps_Response resp = Some response" and out: "unmarshalResponse (pr_Payload response) = Some out"
    using call_answer[OF call] .
  obtain now o' req out' where adm: "admitProposal fe now \<lparr>md_operation = [oper], md_namespace = [ak_namespace a],
      md_init = []\<rparr> (Some sp) = Inr (o', req)" and r: "run o' req = Some out'" "response_text_ok out'"
      "pr_Payload response = marshalResponse out'"
    using served w resp unfolding served_by_def by fastforce
  have "out' = out" using response_roundtrip[OF r(2)] r(3) out by simp
  then show ?thesis using admitted_request_matches[OF u new ns oper adm] r(1) by auto
qed

lemma command_input:
  assumes "commandInput parsed flags txJSON = Inr a"
  shows "loadConfig parsed flags = Inr (ak_cfg a) \<and> ak_namespace a \<noteq> [] \<and> ak_namespace a = fg_namespace flags \<and>
    ak_name a = fg_name flags \<and> ak_version a = fg_version flags \<and>
    (\<exists>tx. parseTxArgs txJSON = Inr (tx, ak_args a, ak_transient a))"
  using assms by (auto simp: commandInput_def prepare_def namespaceFromFlag_def chaincodeIdentity_def rbind_Inr_iff
      split: if_splits)

text \<open>C38: When the peer is an orchestrator, an invoke that prints a result prints, indented, the response the
  orchestrator computed for exactly the invocation that was asked for: the chaincode, version and namespace of the
  flags, the function, arguments and transient data of the JSON argument, the init flag, and the transaction ID of
  the nonce and the identity of the client.  Whatever happens, no connection stays open.\<close>

theorem client_invocation_executed:
  assumes "understands cl (so_proto (fe_service fe)) (fe_parse fe)" and "served_by fe run wire" and "conns_ok c"
    and "invokeCommand cl net wire parsed flags txJSON c = (r, c')"
  shows "still_open c' = still_open c \<and>
    (\<forall>printed. r = Returned (Inr printed) \<longrightarrow> (\<exists>a tx req out.
       loadConfig parsed flags = Inr (ak_cfg a) \<and> parseTxArgs txJSON = Inr (tx, ak_args a, ak_transient a) \<and>
       ak_namespace a = fg_namespace flags \<and> ak_name a = fg_name flags \<and> ak_version a = fg_version flags \<and>
       matches_request cl a (fg_isInit flags) req \<and> run OpInvoke req = Some out \<and>
       printed = jindent 0 (JObj (obj (response_members out))) @ end_of_line))"
proof (cases "commandInput parsed flags txJSON")
  case (Inl e)
  then show ?thesis using assms(4) by (auto simp: invokeCommand_def)
next
  case (Inr a)
  note input = command_input[OF Inr]
  obtain r1 where call: "callOrchestrator cl net wire (ak_cfg a) (ak_namespace a) (ak_name a) (ak_version a) ''invoke''
      (ak_args a) (ak_transient a) (fg_isInit flags) c = (r1, c')"
    using assms(4) Inr by (auto simp: invokeCommand_def split: prod.splits outcome.splits)
  have open': "still_open c' = still_open c" using call_gives_back[OF call assms(3)] by simp
  have "\<exists>req out. matches_request cl a (fg_isInit flags) req \<and> run OpInvoke req = Some out \<and>
      printed = jindent 0 (JObj (obj (response_members out))) @ end_of_line" if printed: "r = Returned (Inr printed)" for printed
  proof -
    obtain out where r1: "r1 = Returned (Inr out)" and p: "printed = jindent 0 (JObj (obj (response_members out))) @ end_of_line"
      using assms(4) Inr call printed by (auto simp: invokeCommand_def rbind_Inr_iff split: outcome.splits)
    have ns: "ak_namespace a \<noteq> []" using input by blast
    from call_executed[OF assms(1,2) ns call[unfolded r1]] show ?thesis
      using p by (auto simp: operation_named_def)
  qed
  then show ?thesis using open' input by blast
qed

subsection \<open>A concrete call\<close>

definition client_parse :: proposal_parser where
  "client_parse p now = Inr \<lparr>iv_TxID = ''tx'', iv_Channel = ''ch'', iv_Namespace = ''cc'',
     iv_ChaincodeVersion = ''1'', iv_Args = [''put'', ''k''], iv_Creator = ''Org1'', iv_Nonce = ''n'',
     iv_Proposal = Some sample_proposal\<rparr>"

definition client_frontend :: "(string, unit) frontend" where
  "client_frontend = sample_frontend\<lparr>
     fe_service := sample_service\<lparr>so_proto := sample_proto\<lparr>pl_HeaderExtension := (\<lambda>_. Some (Some (''cc'', ''1'')))\<rparr>\<rparr>,
     fe_auth := Some sample_verifier, fe_parse := client_parse\<rparr>"

text \<open>A library that builds the one proposal the parser above reads.\<close>

definition sample_client :: client_lib where
  "sample_client = \<lparr>kl_Signer = (\<lambda>_ _. Inr \<lparr>sg_Serialize = Some ''Org1'', sg_Sign = Some\<rparr>), kl_Nonce = Inr ''n'',
     kl_ComputeTxID = (\<lambda>_ _. ''tx''),
     kl_CreateProposal = (\<lambda>txID channel spec nonce creator transient.
       if txID = ''tx'' \<and> spec = \<lparr>is_Name = ''cc'', is_Version = ''1'', is_Args = [''put'', ''k''], is_IsInit = False\<rparr> \<and>
         nonce = ''n'' \<and> creator = ''Org1'' \<and> transient = [] then Inr sample_proposal else Inl (Plain ''other'')),
     kl_SignedProposal = (\<lambda>_ _. Inr sample_signed), kl_GatewayIdentity = (\<lambda>_. Inr ()), kl_GatewayConnect = Inr (),
     kl_Evaluate = (\<lambda>_. Inl (Plain ''none''))\<rparr>"

definition client_response :: InvocationResponse where
  "client_response = emptyResponse\<lparr>rv_Status := 200, rv_Payload := ''ok''\<rparr>"

definition sample_run :: "operation \<Rightarrow> InvocationRequest \<Rightarrow> InvocationResponse option" where
  "sample_run oper req = Some client_response"

definition sample_wire :: client_wire where
  "sample_wire h md sp =
     rbind (admitProposal client_frontend 10 md (Some sp)) (\<lambda>(oper, req).
     Inr (if oper = OpEndorse then None
          else Some \<lparr>ps_Response = Some \<lparr>pr_Status = 200, pr_Message = [], pr_Payload = marshalResponse client_response\<rparr>,
                 ps_Payload = [], ps_Endorsement = None\<rparr>))"

definition client_flags0 :: client_flags where
  "client_flags0 = \<lparr>fg_namespace = ''ns'', fg_name = ''cc'', fg_version = ''1'', fg_host = [], fg_isInit = False,
     fg_targetOrgs = []\<rparr>"

definition client_settings0 :: client_settings where
  "client_settings0 = \<lparr>ct_ChannelID = ''ch'', ct_Protocol = [], ct_Identity = Some (''d'', ''Org1''),
     ct_Orchestrator = Some \<lparr>cc_Endpoint = Some \<lparr>ep_Host = ''h'', ep_Port = 7\<rparr>, cc_TLS = noTLS\<rparr>\<rparr>"

definition client_argument :: string where
  "client_argument = jprint (JObj (obj [(''function'', JStr ''put''), (''Args'', JArr (json_array [JStr ''k'']))]))"

definition sample_network :: network where
  "sample_network = \<lparr>nw_dial = (\<lambda>_ _. None), nw_close = (\<lambda>_. None)\<rparr>"

lemma sample_understood: "understands sample_client (so_proto (fe_service client_frontend)) (fe_parse client_frontend)"
  by (auto simp: understands_def sample_client_def client_frontend_def client_parse_def sample_proto_def
      ProposalIsInit_def rbind_def require_def split: if_splits)

lemma client_response_ok: "response_text_ok client_response"
  by (simp add: response_text_ok_def client_response_def emptyResponse_def ascii_utf8)

lemma sample_served: "served_by client_frontend sample_run sample_wire"
  using client_response_ok
  by (fastforce simp: served_by_def sample_wire_def sample_run_def rbind_Inr_iff split: if_splits)

lemma client_sample_admitted:
  "\<exists>req. admitProposal client_frontend 10 \<lparr>md_operation = [''invoke''], md_namespace = [''ns''], md_init = []\<rparr>
     (Some sample_signed) = Inr (OpInvoke, req)"
proof -
  have "Identity sample_lib (vr_trust sample_verifier) ''Org1'' 10 = Inr ''Org1''"
    by (simp add: sample_verifier_def sample_Identity)
  moreover have "sp_ProposalBytes sample_signed = ''bytes''" "sp_Signature sample_signed = ''Sbytes''"
    by (simp_all add: sample_signed_def)
  ultimately have "authenticateClientProposal sample_lib (so_proto (fe_service client_frontend)) client_parse sample_cfg
      (Some sample_verifier) (Some sample_signed) 10 = Inr (projr (client_parse sample_signed 10), ''Org1'')"
    by (simp add: authenticateClientProposal_def authenticate_def client_parse_def sample_cfg_def headerMatches_def
        sample_proto_def sample_lib_def Authenticate_def sample_proposal_def Invalid_def guard_def client_frontend_def)
  then show ?thesis
    by (auto simp: admitProposal_def client_frontend_def sample_service_def client_parse_def requestFromProposal_def
        sample_proto_def ProposalIsInit_def Let_def Invalid_def authorizeClientInvocation_def prepareInvocation_def
        invocationArgs_def emptyRequest_def authorizeProposal_def sample_verifier_def rulePermits_def guard_def
        sample_proposal_def operationFromContext_def namespaceFromContext_def)
qed

definition client_asked :: asked where
  "client_asked = \<lparr>ak_cfg = client_settings0, ak_args = [''put'', ''k''], ak_transient = [], ak_namespace = ''ns'',
     ak_name = ''cc'', ak_version = ''1''\<rparr>"

lemma sample_input: "commandInput (Inr client_settings0) client_flags0 client_argument = Inr client_asked"
  by code_simp

lemma sample_call:
  "callOrchestrator sample_client sample_network sample_wire client_settings0 ''ns'' ''cc'' ''1'' ''invoke'' [''put'', ''k'']
     [] False noConnections = (Returned (Inr client_response), \<lparr>cn_attempts = 1, cn_opened = [0], cn_closed = [0]\<rparr>)"
proof -
  have new: "newSignedProposal sample_client \<lparr>sg_Serialize = Some ''Org1'', sg_Sign = Some\<rparr> ''ch'' ''cc'' ''1'' [''put'', ''k'']
      [] False = Inr sample_signed"
    by (simp add: newSignedProposal_def sample_client_def)
  obtain req where "admitProposal client_frontend 10 \<lparr>md_operation = [''invoke''], md_namespace = [''ns''], md_init = []\<rparr>
     (Some sample_signed) = Inr (OpInvoke, req)" using client_sample_admitted by blast
  then have "answer_of (sample_wire 0 \<lparr>md_operation = [''invoke''], md_namespace = [''ns''], md_init = []\<rparr> sample_signed) =
      Inr client_response"
    by (simp add: sample_wire_def answer_of_def map_error_def response_roundtrip[OF client_response_ok])
  then show ?thesis using new
    by (simp add: callOrchestrator_def client_settings0_def sample_client_def map_error_def ToPeerConf_def NewPeer_def
        sample_network_def noConnections_def Peer_Close_def)
qed

theorem client_invocation_executed_witness:
  "\<exists>printed c' a req. invokeCommand sample_client sample_network sample_wire (Inr client_settings0) client_flags0
       client_argument noConnections = (Returned (Inr printed), c') \<and> still_open c' = [] \<and>
     matches_request sample_client a False req \<and> ir_Namespace req = ''ns'' \<and> ir_ChaincodeName req = ''cc''"
proof -
  obtain c' printed where run: "invokeCommand sample_client sample_network sample_wire (Inr client_settings0) client_flags0
      client_argument noConnections = (Returned (Inr printed), c')"
  proof -
    have "fg_isInit client_flags0 = False" by (simp add: client_flags0_def)
    then show ?thesis
      using that sample_call unfolding invokeCommand_def sample_input by (simp add: client_asked_def)
  qed
  note executed = client_invocation_executed[OF sample_understood sample_served conns_ok_start(1) run]
  have "fg_namespace client_flags0 = ''ns''" "fg_name client_flags0 = ''cc''" "fg_isInit client_flags0 = False"
    by (simp_all add: client_flags0_def)
  with executed obtain a req where m: "matches_request sample_client a False req" "ak_namespace a = ''ns''" "ak_name a = ''cc''"
    by auto
  then have "ir_Namespace req = ''ns''" "ir_ChaincodeName req = ''cc''" by (simp_all add: matches_request_def)
  moreover have "still_open c' = []" using executed by simp
  ultimately show ?thesis using run m(1) by blast
qed

end
