(* ===== verification/Spec2Isabelle.thy ===== *)
theory Spec2Isabelle
  imports Lifecycle_Server Store_Correctness Chaincode_Events Invocation_State Idempotency_Protocol
    Lifecycle_Sync Endorsement_Collection Helper_Guarantees
    Connection_Guarantees Pending_Guarantees Packager_Guarantees Service_Guarantees
    Remote_Guarantees Wiring_Guarantees Package_Guarantees Asset_Contract Client_Guarantees
begin

text \<open>
  \<^bold>\<open>Verification library of the Fabric chaincode compatibility service for Fabric-X.\<close>

  \<^bold>\<open>The program.\<close>  An organization runs one orchestrator (\<^verbatim>\<open>compatibility_service/pkg/orchestrator\<close>).  Clients send
  it signed Fabric proposals, through the custom ProcessProposal call or the Fabric Gateway API.  The
  orchestrator authenticates the proposal, looks up the active definition of the chaincode in its lifecycle
  store, runs the chaincode through the in-process helper (\<^verbatim>\<open>pkg/helper\<close>) and the shim (\<^verbatim>\<open>pkg/shim\<close>), collects
  endorsements of other organizations until the namespace policy is satisfied, packages them as a Fabric-X
  transaction and hands it to ordering.  It observes the final status through notifications, status queries and
  recovery passes.  Chaincode lifecycle (\<^verbatim>\<open>pkg/lifecycle\<close>) has its own RPC service; committed definitions are
  ledger records that every orchestrator mirrors into its store.

  \<^bold>\<open>Conventions.\<close>  A Go string or byte slice is a \<open>string\<close> of bytes; an error result is a sum, \<open>Inl\<close> for the error; an
  \<^verbatim>\<open>int64\<close> is an \<open>int\<close> with its wrap written out, a \<^verbatim>\<open>uint64\<close> a word.  A Go map is an association list or a list
  of records with distinct keys; the order in which Go visits a map is an argument.  A mutex held for a whole method
  makes the method one step.  A context is the error it carries at the moment it is looked at.  \<open>Panic\<close> is a Go panic,
  after which deferred calls are left out because the process ends; \<open>Unfinished\<close> is a call that still waits.  Error
  texts are kept without the values and quotes Go inserts where nothing reads them.  Protocol-buffer codecs, certificate
  validation, hashes, signatures, archives, gRPC services and clocks are code outside the repository: arguments of the
  definitions that use them (\<open>proto_lib\<close>, \<open>msp_lib\<close>, \<open>packager_lib\<close>, \<open>helper_lib\<close>, \<open>archive_lib\<close>, \<open>policy_lib\<close> and the
  records of services), with named hypotheses such as unforgeable signatures where a property needs one.

  \<^bold>\<open>Theories, bottom up.\<close>
  \<^item> \<open>Prelude\<close>: results, 64 bit integers, tables with a primary key (locale \<open>pk_table\<close>).  \<open>Go_Strconv\<close>, \<open>Go_Json\<close>: the parts
    of the Go library the records depend on: decimal and base64 text, path escapes, JSON printing and parsing, decoding into
    structs; the locale \<open>codec\<close> states a round trip and is interpreted on each of them.
  \<^item> \<open>Lifecycle_Store\<close>, \<open>Definition_Mirror\<close>, \<open>Store_Correctness\<close> (\<^verbatim>\<open>lifecycle/store.go\<close>): the four tables and every exported
    operation; the store refines a mirror that merges ledger records, its invariant and monotonicity.
  \<^item> \<open>Lifecycle_Ledger\<close>, \<open>Lifecycle_Request\<close>, \<open>Lifecycle_Package\<close>, \<open>Lifecycle_Auth\<close>, \<open>Lifecycle_Server\<close>
    (\<^verbatim>\<open>ledger.go\<close>, \<^verbatim>\<open>request.go\<close>, \<^verbatim>\<open>package.go\<close>, \<^verbatim>\<open>auth.go\<close>, \<^verbatim>\<open>auth/msp.go\<close>, \<^verbatim>\<open>rpc.go\<close>): ledger records, signed requests,
    packages, admission, and the seven handlers with propagation to other organizations.
  \<^item> \<open>Orch_Types\<close>, \<open>Orch_Config\<close>, \<open>Gateway_Request\<close>, \<open>Proposal_Auth\<close>, \<open>Invocation_State\<close>, \<open>Event_Stream\<close>, \<open>Chaincode_Events\<close>
    (\<^verbatim>\<open>service.go\<close>, \<^verbatim>\<open>proposal_auth.go\<close>, \<^verbatim>\<open>init.go\<close>, \<^verbatim>\<open>helper/proposal.go\<close>): requests, configuration, authentication, routing,
    the initialization gate, request digests, chaincode identities and event subscriptions.
  \<^item> \<open>Idempotency\<close>, \<open>Idempotency_Protocol\<close> (\<^verbatim>\<open>idempotency.go\<close>): records on a heap, each critical section a step
    \<open>idem_step\<close>; safety over \<open>idem_reachable\<close>.
  \<^item> \<open>Endorsement_Policy\<close>, \<open>Policy_Selection\<close>, \<open>Endorsement_Collection\<close> (\<^verbatim>\<open>policy.go\<close>, \<^verbatim>\<open>endorsement_policy.go\<close>,
    \<^verbatim>\<open>execution.go\<close>): policy compilation, the search for an accepted order of signers and its completeness, collection.
  \<^item> \<open>Execution_Context\<close>, \<open>Shim_Handler\<close>, \<open>Helper_Service\<close>, \<open>Helper_Guarantees\<close> (\<^verbatim>\<open>helper/\<close>, \<^verbatim>\<open>shim/\<close>): the message loop over an
    abstract chaincode state (locales \<open>state_invariant\<close>, \<open>chaincode_state\<close>, \<open>remembered_failure\<close>), interpreted on the
    execution context; what the connector sends the chaincode is the answer of that state to each request (\<open>served\<close>).
  \<^item> \<open>Connection_Resolution\<close>, \<open>Connection_Guarantees\<close> (\<^verbatim>\<open>resolver.go\<close>, \<^verbatim>\<open>lifecycle_executor.go\<close>, \<^verbatim>\<open>lifecycle_binding.go\<close>): which
    endpoint an invocation runs on and the evidence of it (locale \<open>answering_resolver\<close>); \<open>service_store\<close> are the stores a
    running service reaches, and in each of them the connection cache agrees with the approvals.
  \<^item> \<open>Lifecycle_Sync\<close>, \<open>Pending_Lifecycle\<close>, \<open>Pending_Guarantees\<close>, \<open>Ordering_Client\<close> (\<^verbatim>\<open>lifecycle_sync.go\<close>,
    \<^verbatim>\<open>lifecycle_ledger.go\<close>, \<^verbatim>\<open>execution.go\<close>): the replay of the ledger index at startup, lifecycle transactions, and
    their callers as non-overlapping calls (\<open>lifecycle_step\<close>) and as overlapping ones that look up, wait for the gate and act
    under it (\<open>overlap_step\<close>).
  \<^item> \<open>Invocation_Flow\<close>, \<open>Transaction_Packager\<close>, \<open>Packager_Guarantees\<close>, \<open>Submission\<close>, \<open>Submission_Guarantees\<close>,
    \<open>Gateway_Service\<close>, \<open>Service_Guarantees\<close> (\<^verbatim>\<open>execution.go\<close>, \<^verbatim>\<open>fabricx_packager.go\<close>, \<^verbatim>\<open>service.go\<close>): an invocation from request to
    final status, the prepared transactions of Gateway clients, and the proof that the handlers follow the submission
    protocol \<open>submission_step\<close>.
  \<^item> \<open>Connections\<close>, \<open>Remote_Resolution\<close>, \<open>Remote_Guarantees\<close> (\<^verbatim>\<open>contact.go\<close>, \<^verbatim>\<open>remote_resolver.go\<close>): contacts of other
    organizations with the connections they hold, static and dynamic resolution, and the balance of connections.
  \<^item> \<open>Service_Wiring\<close>, \<open>Wiring_Guarantees\<close> (\<^verbatim>\<open>service.go\<close>: \<^verbatim>\<open>NewWithLoggers\<close>, \<^verbatim>\<open>Close\<close>): what a start checks, opens and
    mirrors, and what a failed start and a close give back.
  \<^item> \<open>Package_Build\<close>, \<open>Package_Guarantees\<close> (\<^verbatim>\<open>lifecycle/package.go\<close>): building a package from a directory, and that inspecting
    it gives back what went in.
  \<^item> \<open>Chaincode_Stub\<close>, \<open>Sample_Chaincodes\<close>, \<open>Sample_Guarantees\<close>, \<open>Asset_Contract\<close> (\<^verbatim>\<open>sample_external_chaincode\<close>): the sample
    chaincodes over a stub, composed with the shim handler and the execution context, against specifications over the
    committed ledger.
  \<^item> \<open>Response_Json\<close>, \<open>Client_Command\<close>, \<open>Client_Guarantees\<close> (\<^verbatim>\<open>cmd/client/main.go\<close>): the JSON of responses and the client's
    commands up to the admission of their proposal.

  \<^bold>\<open>What the lemmas show.\<close>  The store: its invariant, monotone active definitions, exact commits, refinement of the mirror
  (C1, C2, C5, C6, C27).  Lifecycle requests: an admitted request was signed for this channel, operation and mode, the key
  being free to sign messages of other protocols because the signed text opens with a domain (C3); exactly the permitted
  identities are admitted (C30); a request that is not admissible for its operation has no effect and gets the code of the
  failed check (C31); internal calls only mirror the ledger (C4); a commit has the answers of all resolved organizations
  (C29); propagation, over all its attempts, contacts each organization until it succeeds and not afterwards (C28).
  Invocations: one execution per key, final outcomes, no resending, replays, and handlers as runs of the protocol (C7 to
  C11); admission (C12), events (C13), policies and endorsements (C14, C15, C26), packaging (C16, C17).  Execution: effects,
  cleanness, views and identity of an endorsement (C18 to C21), the endpoint named as evidence (C23).  Lifecycle
  transactions: no resending (C22), the index (C24), the replay (C25).  Construction and remote contacts (C32 to C36),
  packages (C37), client and samples (C38 to C40).

  \<^bold>\<open>Limits of the lifecycle transactions.\<close>  The work a caller does while it holds the gate of an operation is one action.  A
  caller that waited for the gate of an entry which its holder dropped acts on an entry no other caller sees; the operations
  this has happened to are recorded (\<open>lc_stale\<close>) and excepted from C22, and \<open>overlapping_callers_resend\<close> is a run where such
  a caller makes a transaction be sent twice.

  \<^bold>\<open>Bounds and fuel.\<close>  The JSON parser's fuel is the length of its text, enough because every nested call has consumed a
  character.  The replay of the ledger index counts up to the high watermark and is proved to end for every watermark below
  the largest 64 bit number; at that number the loop variable wraps (\<open>sync_at_max_fails\<close>).  Recovery takes at most 32
  records per pass, as the code does.

  \<^bold>\<open>Simplifications.\<close>  The client handlers are described as they run alone; interleavings are those of \<open>idem_step\<close>,
  \<open>submission_step\<close> and \<open>overlap_step\<close>.  The two SQL statements of an approval are one step, and a nil byte slice for a
  column that must not be null is not told apart from an empty one.  A nil endorsement response met while packaging is an
  error value.  Closing a service while a recovery pass runs is \<open>Unfinished\<close>.  The logs of envelopes record what was handed
  to ordering.  What a peer answers the client is a contract (\<open>served_by\<close>): admission of the proposal, then the JSON of the
  response.  Texts of unknown-function errors are not quoted, the details of gRPC statuses are dropped, the nesting limit
  of the JSON decoder, file modes and times of archives and years outside four digits are left out.

  \<^bold>\<open>Not modelled.\<close>  The lifecycle command line and the programs that start servers (flags, configuration files, signals and
  gRPC serving around the modelled functions), gRPC registration and wire codecs, the sample resolver service, the diagnostic
  tools that print blocks, and test support.
\<close>

end
